(* ===== verification/Safrn_Prelude.thy ===== *)
theory Safrn_Prelude
  imports Main "HOL-Library.Word"
begin

text \<open>
  Shared vocabulary of the development: the machine-integer and big-integer types the C++ code
  uses, the fact collections the component theories fill, and the generic lemmas on words, lists
  and modular sums that more than one component needs.
\<close>

type_synonym u8 = "8 word"
type_synonym u16 = "16 word"
type_synonym u32 = "32 word"
type_synonym u64 = "64 word"

text \<open>
  \<open>LargeNum\<close> is the big-integer type of the Fortissimo library, which is not part of the
  repository. It is read as a natural number; the code only forms differences whose minuend is at
  least the subtrahend, and takes remainders by positive moduli.
\<close>

type_synonym LargeNum = nat

named_theorems unat_arith_facts \<open>word operations read as natural numbers below a modulus\<close>

subsection \<open>Loops counted by machine words\<close>

lemma unat_pred: "w \<noteq> 0 \<Longrightarrow> unat (w - 1) = unat w - 1" for w :: "'a::len word"
  by (rule unat_minus_one)

lemma word_up_measure:
  fixes i n :: "'a::len word"
  assumes "i < n"
  shows "unat (n - (i + 1)) < unat (n - i)"
proof -
  have nz: "n - i \<noteq> 0" using assms by auto
  have "n - (i + 1) = (n - i) - 1" by simp
  then have "unat (n - (i + 1)) = unat (n - i) - 1"
    using unat_pred [OF nz] by argo
  moreover have "0 < unat (n - i)"
    using nz unat_gt_0 by blast
  ultimately show ?thesis by linarith
qed

lemma word_down_measure:
  fixes j :: "'a::len word"
  assumes "j \<noteq> 0"
  shows "unat (j - 1) < unat j"
  using assms by (simp add: unat_gt_0 unat_minus_one)

text \<open>
  The three shapes of counted loop in the C++ code: \<open>for (i = a; i < n; i++)\<close>,
  \<open>for (j = a; j != 0; j--)\<close> and \<open>for (i = a; i + 1 != 0; i--)\<close>, each with an invariant
  rule. The counter is the code's own machine word.
\<close>

function for_up :: "'a::len word \<Rightarrow> 'a word \<Rightarrow> ('a word \<Rightarrow> 's \<Rightarrow> 's) \<Rightarrow> 's \<Rightarrow> 's" where
  "for_up i n body st = (if i < n then for_up (i + 1) n body (body i st) else st)"
  by pat_completeness auto
termination
  by (relation "measure (\<lambda>(i, n, _, _). unat (n - i))") (auto simp: word_up_measure)

function for_down :: "'a::len word \<Rightarrow> ('a word \<Rightarrow> 's \<Rightarrow> 's) \<Rightarrow> 's \<Rightarrow> 's" where
  "for_down j body st = (if j \<noteq> 0 then for_down (j - 1) body (body j st) else st)"
  by pat_completeness auto
termination
  by (relation "measure (\<lambda>(j, _, _). unat j)") (auto simp: word_down_measure)

function for_down_incl :: "'a::len word \<Rightarrow> ('a word \<Rightarrow> 's \<Rightarrow> 's) \<Rightarrow> 's \<Rightarrow> 's" where
  "for_down_incl i body st =
     (if i + 1 \<noteq> 0 then for_down_incl (i - 1) body (body i st) else st)"
  by pat_completeness auto
termination
proof (relation "measure (\<lambda>(i, _, _). unat (i + 1))")
  fix i :: "'a::len word" assume "i + 1 \<noteq> 0"
  then have "unat (i + 1 - 1) < unat (i + 1)" by (rule word_down_measure)
  then show "((i - 1, body, body i st), i, body, st) \<in> measure (\<lambda>(i, _, _). unat (i + 1))"
    for body :: "'a word \<Rightarrow> 's \<Rightarrow> 's" and st by simp
qed simp

declare for_up.simps [simp del] for_down.simps [simp del] for_down_incl.simps [simp del]

lemma unat_Suc_less:
  fixes i n :: "'a::len word"
  assumes "i < n"
  shows "unat (i + 1) = Suc (unat i)"
proof -
  have "unat i < unat n" using assms by (simp add: word_less_nat_alt)
  moreover have "unat n < 2 ^ LENGTH('a)" by (rule unsigned_less)
  ultimately have "Suc (unat i) < 2 ^ LENGTH('a)" by linarith
  then show ?thesis by (simp add: unat_word_ariths)
qed

lemma for_up_invariant:
  assumes "P (unat i) st" and "unat i \<le> unat n"
    and step: "\<And>k st. unat i \<le> k \<Longrightarrow> k < unat n \<Longrightarrow> P k st \<Longrightarrow> P (Suc k) (body (of_nat k) st)"
  shows "P (unat n) (for_up i n body st)"
  using assms
proof (induction i n body st rule: for_up.induct)
  case (1 i n body st)
  show ?case
  proof (cases "i < n")
    case True
    then have lt: "unat i < unat n" and suc: "unat (i + 1) = Suc (unat i)"
      by (simp_all add: word_less_nat_alt unat_Suc_less)
    have "P (Suc (unat i)) (body (of_nat (unat i)) st)"
      using "1.prems"(1) lt by (intro "1.prems"(3)) simp_all
    with "1.IH" [OF True] "1.prems"(3) lt suc
    have "P (unat n) (for_up (i + 1) n body (body i st))" by simp
    with True show ?thesis by (subst for_up.simps) simp
  next
    case False
    then have "unat i = unat n" using "1.prems"(2) by (simp add: word_less_nat_alt)
    with False "1.prems"(1) show ?thesis by (subst for_up.simps) simp
  qed
qed

lemma for_down_invariant:
  assumes "P (unat j) st"
    and step: "\<And>k st. 0 < k \<Longrightarrow> k \<le> unat j \<Longrightarrow> P k st \<Longrightarrow> P (k - 1) (body (of_nat k) st)"
  shows "P 0 (for_down j body st)"
  using assms
proof (induction j body st rule: for_down.induct)
  case (1 j body st)
  show ?case
  proof (cases "j = 0")
    case True
    with "1.prems"(1) show ?thesis by (subst for_down.simps) simp
  next
    case False
    then have pos: "0 < unat j" and pred: "unat (j - 1) = unat j - 1"
      by (simp_all add: unat_gt_0 unat_pred)
    have "P (unat j - 1) (body (of_nat (unat j)) st)"
      using "1.prems"(1) pos by (intro "1.prems"(2)) simp_all
    with "1.IH" [OF False] "1.prems"(2) pred
    have "P 0 (for_down (j - 1) body (body j st))" by simp
    with False show ?thesis by (subst for_down.simps) simp
  qed
qed

lemma for_down_incl_invariant:
  assumes "P (unat (i + 1)) st"
    and step: "\<And>k st. k < unat (i + 1) \<Longrightarrow> P (Suc k) st \<Longrightarrow> P k (body (of_nat k) st)"
  shows "P 0 (for_down_incl i body st)"
  using assms
proof (induction i body st rule: for_down_incl.induct)
  case (1 i body st)
  show ?case
  proof (cases "i + 1 = 0")
    case True
    with "1.prems"(1) show ?thesis by (subst for_down_incl.simps) simp
  next
    case False
    then have pos: "0 < unat (i + 1)" using unat_gt_0 by blast
    have "unat (i + 1 - 1) = unat (i + 1) - 1" using False by (rule unat_pred)
    then have i: "unat i = unat (i + 1) - 1" by simp
    have "P (unat i) (body (of_nat (unat i)) st)"
      using "1.prems"(1) pos i by (intro "1.prems"(2)) simp_all
    with "1.IH" [OF False] "1.prems"(2) pos i
    have "P 0 (for_down_incl (i - 1) body (body i st))" by simp
    with False show ?thesis by (subst for_down_incl.simps) simp
  qed
qed

subsection \<open>Primality, executable\<close>

definition is_prime :: "nat \<Rightarrow> bool" where
  "is_prime p \<longleftrightarrow> 1 < p \<and> list_all (\<lambda>m. \<not> m dvd p) [2..<p]"

lemma is_prime_pos: "is_prime p \<Longrightarrow> 0 < p"
  by (simp add: is_prime_def)

lemma is_prime_coprime:
  assumes "is_prime p" and "0 < k" and "k < p"
  shows "coprime k p"
proof (rule coprimeI)
  fix c assume ck: "c dvd k" and cp: "c dvd p"
  have "c \<noteq> 0" using ck assms(2) by auto
  moreover have "c < p" using ck assms(2,3) by (meson dvd_imp_le le_less_trans)
  ultimately show "is_unit c"
    using cp assms(1) by (cases "c = 1") (auto simp: is_prime_def list_all_iff)
qed

end
