(* ===== verification/Lagrange.thy ===== *)
theory Lagrange
  imports Safrn_Prelude
begin

text \<open>
  \<open>dataowner/lagrange.cpp\<close>: the interpolation polynomial of the prefix-or protocol. All
  numbers are \<open>uint32_t\<close>, every product and sum wraps at \<open>2 ^ 32\<close>, and a polynomial is the
  little-endian vector of its coefficients. The main result reads the returned vector as a
  polynomial modulo \<open>s\<close>: it is 0 at 1 and 1 at \<open>2, \<dots>, ell + 1\<close>, for every prime below
  \<open>2 ^ 16\<close>, so no intermediate value of the computation overflows there.
\<close>

type_synonym Polynomial_t = "u32 list"

subsection \<open>The code\<close>

definition add_poly :: "Polynomial_t \<Rightarrow> Polynomial_t \<Rightarrow> u32 \<Rightarrow> u32 \<Rightarrow> Polynomial_t" where
  "add_poly left_term right_term s degree =
     for_up 0 (degree + 1)
       (\<lambda>i l. l[unat i := (l ! unat i + right_term ! unat i) mod s]) left_term"

definition multiplyByScalar :: "Polynomial_t \<Rightarrow> u32 \<Rightarrow> u32 \<Rightarrow> u32 \<Rightarrow> Polynomial_t" where
  "multiplyByScalar coeffs scalar s degree =
     for_up 0 (degree + 1) (\<lambda>i c. c[unat i := (c ! unat i * scalar) mod s]) coeffs"

definition divideByDegreeOnePolynomial ::
  "Polynomial_t \<Rightarrow> Polynomial_t \<Rightarrow> u32 \<Rightarrow> u32 \<Rightarrow> u32 \<Rightarrow> Polynomial_t" where
  "divideByDegreeOnePolynomial coeffs output s a ell =
     for_down_incl (ell - 1)
       (\<lambda>i out. out[unat i := (coeffs ! unat (i + 1) + a * out ! unat (i + 1)) mod s])
       (output[unat ell := 1])"

definition product_round :: "u32 \<Rightarrow> u32 \<Rightarrow> Polynomial_t \<Rightarrow> Polynomial_t" where
  "product_round s i coeffs =
     (let c = for_down (i - 1)
                (\<lambda>j c. c[unat j := ((s - i) * c ! unat j + c ! unat (j - 1)) mod s]) coeffs
      in c[0 := (c ! 0 * (s - i)) mod s])"

definition computeProductOneToEllPlusOne :: "u32 \<Rightarrow> u32 \<Rightarrow> Polynomial_t" where
  "computeProductOneToEllPlusOne s ell =
     for_up 2 (ell + 2) (product_round s) ((replicate (unat (ell + 2)) 1)[0 := s - 1])"

definition multiplyDifferentXValues :: "u32 \<Rightarrow> u32 \<Rightarrow> u32 \<Rightarrow> u32" where
  "multiplyDifferentXValues s ell a =
     for_up 1 (ell + 2)
       (\<lambda>i product. if i \<noteq> a then (product * ((s + a - i) mod s)) mod s else product) 1"

function invert_loop :: "u32 \<Rightarrow> u32 \<Rightarrow> u32 \<Rightarrow> u32 \<Rightarrow> u32" where
  "invert_loop r_zero r_one t_zero t_one =
     (if r_one \<noteq> 0 then
        let q = r_zero div r_one;
            r_two = r_zero - q * r_one;
            t_two = t_zero - q * t_one
        in invert_loop r_one r_two t_one t_two
      else t_zero)"
  by pat_completeness auto

lemma word_sub_div_mult: "x - x div y * y = x mod y" for x y :: "'a::len word"
  by (metis minus_div_mult_eq_mod)

termination invert_loop
  by (relation "measure (\<lambda>(_, r_one, _, _). unat r_one)")
    (auto simp: word_sub_div_mult unat_mod_distrib unat_gt_0)

definition invert :: "u32 \<Rightarrow> u32 \<Rightarrow> u32" where
  "invert s a = (invert_loop s a 0 1 + s) mod s"

definition lagrange_round :: "u32 \<Rightarrow> u32 \<Rightarrow> Polynomial_t \<Rightarrow> u32
    \<Rightarrow> Polynomial_t \<times> Polynomial_t \<Rightarrow> Polynomial_t \<times> Polynomial_t" where
  "lagrange_round s ell coeffs_of_product i st =
     (case st of (intermediate_term, coeffs_to_return) \<Rightarrow>
        let t = divideByDegreeOnePolynomial coeffs_of_product intermediate_term s i ell;
            t = multiplyByScalar t (invert s (multiplyDifferentXValues s ell i)) s ell
        in (t, add_poly coeffs_to_return t s ell))"

definition computeLagrangeCoeffsForPrefixOr :: "u32 \<Rightarrow> u32 \<Rightarrow> Polynomial_t" where
  "computeLagrangeCoeffsForPrefixOr s ell =
     snd (for_up 2 (ell + 2) (lagrange_round s ell (computeProductOneToEllPlusOne s ell))
            (replicate (unat (ell + 1)) 0, replicate (unat (ell + 1)) 0))"

subsection \<open>Products of linear factors as coefficient sequences\<close>

definition mulx :: "int \<Rightarrow> (nat \<Rightarrow> int) \<Rightarrow> nat \<Rightarrow> int" where
  "mulx a p j = (if j = 0 then 0 else p (j - 1)) - a * p j"

definition one_poly :: "nat \<Rightarrow> int" where
  "one_poly j = (if j = 0 then 1 else 0)"

definition lin :: "nat list \<Rightarrow> nat \<Rightarrow> int" where
  "lin xs = fold (\<lambda>k. mulx (int k)) xs one_poly"

lemma lin_Nil: "lin [] = one_poly" and lin_snoc: "lin (xs @ [k]) = mulx (int k) (lin xs)"
  by (simp_all add: lin_def)

lemma mulx_commute: "mulx a (mulx b p) = mulx b (mulx a p)"
  by (rule ext) (simp add: mulx_def algebra_simps)

lemma lin_degree: "(length xs < j \<longrightarrow> lin xs j = 0) \<and> lin xs (length xs) = 1"
proof (induction xs arbitrary: j rule: rev_induct)
  case Nil
  show ?case by (simp add: lin_Nil one_poly_def)
next
  case (snoc k xs)
  then have z: "\<And>j. length xs < j \<Longrightarrow> lin xs j = 0" and o: "lin xs (length xs) = 1" by blast+
  show ?case using z o by (auto simp: lin_snoc mulx_def)
qed

lemmas lin_above = lin_degree [THEN conjunct1, rule_format]
lemmas lin_lead = lin_degree [THEN conjunct2]

lemma lin_remove:
  assumes "k \<in> set xs"
  shows "lin xs = mulx (int k) (lin (remove1 k xs))"
proof -
  have "fold (\<lambda>k. mulx (int k)) xs = fold (\<lambda>k. mulx (int k)) (remove1 k xs) \<circ> mulx (int k)"
    using assms by (intro fold_remove1_split) (auto simp: fun_eq_iff mulx_commute)
  moreover have "fold (\<lambda>k. mulx (int k)) ys (mulx a p) = mulx a (fold (\<lambda>k. mulx (int k)) ys p)"
    for ys a p by (induction ys arbitrary: p) (simp_all add: mulx_commute)
  ultimately show ?thesis by (simp add: lin_def)
qed

definition ev :: "nat \<Rightarrow> (nat \<Rightarrow> int) \<Rightarrow> int \<Rightarrow> int" where
  "ev n p x = (\<Sum>j\<le>n. p j * x ^ j)"

lemma ev_mulx:
  assumes "\<And>j. n < j \<Longrightarrow> p j = 0"
  shows "ev (Suc n) (mulx a p) x = (x - a) * ev n p x"
proof -
  have "ev (Suc n) (mulx a p) x
      = (\<Sum>j\<le>Suc n. (if j = 0 then 0 else p (j - 1)) * x ^ j) - (\<Sum>j\<le>Suc n. a * p j * x ^ j)"
    by (simp only: ev_def mulx_def left_diff_distrib sum_subtractf)
  also have "(\<Sum>j\<le>Suc n. (if j = 0 then 0 else p (j - 1)) * x ^ j) = (\<Sum>j\<le>n. p j * x ^ Suc j)"
    by (subst sum.atMost_Suc_shift) simp
  also have "\<dots> = x * ev n p x"
    by (simp add: ev_def sum_distrib_left mult.left_commute)
  also have "(\<Sum>j\<le>Suc n. a * p j * x ^ j) = a * ev n p x"
    using assms by (simp add: ev_def sum_distrib_left mult.assoc)
  finally show ?thesis by (simp add: left_diff_distrib)
qed

lemma ev_lin: "ev (length xs) (lin xs) x = (\<Prod>k\<leftarrow>xs. x - int k)"
proof (induction xs rule: rev_induct)
  case Nil
  show ?case by (simp add: ev_def lin_Nil one_poly_def)
next
  case (snoc k xs)
  then show ?case by (simp add: lin_snoc ev_mulx lin_above mult.commute)
qed

subsection \<open>Word arithmetic below a small modulus\<close>

lemma unat_mult_add:
  fixes a b c :: u32
  assumes "unat a * unat b + unat c < 2 ^ 32"
  shows "unat (a * b + c) = unat a * unat b + unat c"
  using assms by (simp add: unat_word_ariths mod_simps)

lemma mult_add_bound:
  fixes a b c m :: nat
  assumes "a \<le> m" "b < m" "c < m" "m \<le> 65536"
  shows "a * b + c < 2 ^ 32"
proof -
  have "a * b \<le> m * (m - 1)" using assms by (intro mult_le_mono) linarith+
  then have "a * b + c < m * (m - 1) + m" using assms by linarith
  also have "\<dots> = m * m" using assms by (cases m) simp_all
  finally have "a * b + c < m * m" .
  moreover have "m * m \<le> 65536 * 65536" using assms by (intro mult_le_mono) linarith+
  ultimately show ?thesis by simp
qed

lemma unat_mult_add_mod:
  fixes a b c s :: u32
  assumes "unat a \<le> unat s" "unat b < unat s" "unat c < unat s" "unat s \<le> 65536"
  shows "unat ((a * b + c) mod s) = (unat a * unat b + unat c) mod unat s"
  using mult_add_bound [OF assms] by (simp add: unat_mod_distrib unat_mult_add)

lemma unat_mult_mod:
  fixes a b s :: u32
  assumes "unat a < unat s" "unat b < unat s" "unat s \<le> 65536"
  shows "unat ((a * b) mod s) = (unat a * unat b) mod unat s"
  using unat_mult_add_mod [of a s b 0] assms by simp

subsection \<open>The product of the linear factors\<close>

definition repr :: "nat \<Rightarrow> Polynomial_t \<Rightarrow> nat \<Rightarrow> (nat \<Rightarrow> int) \<Rightarrow> bool" where
  "repr S c m p \<longleftrightarrow>
     length c = m \<and> (\<forall>j<m. unat (c ! j) < S \<and> int (unat (c ! j)) mod int S = p j mod int S)"

lemma reprD:
  assumes "repr S c m p"
  shows "length c = m"
    and "j < m \<Longrightarrow> unat (c ! j) < S"
    and "j < m \<Longrightarrow> int (unat (c ! j)) mod int S = p j mod int S"
  using assms by (auto simp: repr_def)

lemma repr_cong: "repr S c m p \<Longrightarrow> (\<And>j. j < m \<Longrightarrow> p j = q j) \<Longrightarrow> repr S c m q"
  by (auto simp: repr_def)

definition partial_lin :: "nat \<Rightarrow> nat \<Rightarrow> int" where
  "partial_lin k j = (if j < k then lin [1..<k] j else 1)"

lemma lin_upt_Suc: "1 \<le> k \<Longrightarrow> lin [1..<Suc k] = mulx (int k) (lin [1..<k])"
  by (simp add: lin_snoc)

lemma lin_upt_top:
  assumes "1 \<le> k"
  shows "lin [1..<k] k = 0" and "lin [1..<k] (k - 1) = 1"
  using lin_above [of "[1..<k]" k] lin_lead [of "[1..<k]"] assms by simp_all

lemma product_inner:
  fixes s :: u32
  assumes "k < 2 ^ 32" "1 \<le> k" "k \<le> length c"
  defines "c' \<equiv> for_down (of_nat k - 1 :: u32)
     (\<lambda>j c. c[unat j := ((s - of_nat k) * c ! unat j + c ! unat (j - 1)) mod s]) c"
  shows "length c' = length c"
    and "0 < t \<Longrightarrow> t < k \<Longrightarrow> c' ! t = ((s - of_nat k) * c ! t + c ! (t - 1)) mod s"
    and "t = 0 \<or> k \<le> t \<Longrightarrow> c' ! t = c ! t"
proof -
  let ?P = "\<lambda>j d. length d = length c \<and>
     (\<forall>t. j < t \<and> t < k \<longrightarrow> d ! t = ((s - of_nat k) * c ! t + c ! (t - 1)) mod s) \<and>
     (\<forall>t. t \<le> j \<or> k \<le> t \<longrightarrow> d ! t = c ! t)"
  have k1: "unat (of_nat k - 1 :: u32) = k - 1"
  proof -
    have u: "unat (of_nat k :: u32) = k" using assms(1) by (simp add: unat_of_nat)
    then have "(of_nat k :: u32) \<noteq> 0" using assms(2) by (metis unat_0 not_one_le_zero)
    then show ?thesis using u by (simp add: unat_pred)
  qed
  have "?P 0 c'"
    unfolding c'_def
  proof (rule for_down_invariant [where P = ?P])
    show "?P (unat (of_nat k - 1 :: u32)) c" using k1 assms(2) by auto
  next
    fix j :: nat and d
    assume j: "0 < j" "j \<le> unat (of_nat k - 1 :: u32)" and P: "?P j d"
    have jk: "j < k" and j32: "j < 2 ^ 32" using j k1 assms(1,2) by linarith+
    have uj: "unat (of_nat j :: u32) = j" using j32 by (simp add: unat_of_nat)
    have "(of_nat j :: u32) \<noteq> 0" using uj j(1) by (metis unat_0 less_irrefl)
    then have uj1: "unat (of_nat j - 1 :: u32) = j - 1" using uj by (simp add: unat_pred)
    show "?P (j - 1)
      (d[unat (of_nat j :: u32) := ((s - of_nat k) * d ! unat (of_nat j :: u32)
          + d ! unat (of_nat j - 1 :: u32)) mod s])"
      using P j jk assms(3) by (auto simp: uj uj1 nth_list_update)
  qed
  then show "length c' = length c"
    and "0 < t \<Longrightarrow> t < k \<Longrightarrow> c' ! t = ((s - of_nat k) * c ! t + c ! (t - 1)) mod s"
    and "t = 0 \<or> k \<le> t \<Longrightarrow> c' ! t = c ! t"
    by auto
qed

lemma neg_mod_cong:
  assumes "k \<le> S" and "int x mod int S = p mod int S" and "int y mod int S = q mod int S"
  shows "int (((S - k) * x + y) mod S) mod int S = (q - int k * p) mod int S"
proof -
  have "int (((S - k) * x + y) mod S) mod int S = ((int S - int k) * int x + int y) mod int S"
    using assms(1) by (simp add: zmod_int of_nat_diff)
  also have "(int S - int k) * int x + int y = (int y - int k * int x) + int S * int x"
    by (simp add: left_diff_distrib)
  also have "\<dots> mod int S = (int y - int k * int x) mod int S"
    by (rule mod_mult_self2)
  also have "\<dots> = (q - int k * p) mod int S"
    using assms(2,3) by (intro mod_diff_cong mod_mult_cong refl)
  finally show ?thesis .
qed

lemma product_round_repr:
  assumes S: "S = unat s" "S \<le> 65536" and k: "2 \<le> k" "k \<le> S" "k < m"
    and c: "repr S c m (partial_lin k)"
  shows "repr S (product_round s (of_nat k) c) m (partial_lin (Suc k))"
proof -
  define w where "w = (of_nat k :: u32)"
  have uw: "unat w = k" using S k by (simp add: w_def unat_of_nat)
  have uk: "unat (s - w) = S - k"
    using S(1) k uw by (simp add: unat_sub word_le_nat_alt)
  have len: "length c = m" and bnd: "\<And>j. j < m \<Longrightarrow> unat (c ! j) < S"
    and val: "\<And>j. j < m \<Longrightarrow> int (unat (c ! j)) mod int S = partial_lin k j mod int S"
    using reprD [OF c] by blast+
  define d where "d = for_down (w - 1)
     (\<lambda>j c. c[unat j := ((s - w) * c ! unat j + c ! unat (j - 1)) mod s]) c"
  have d: "length d = m"
    "\<And>t. 0 < t \<Longrightarrow> t < k \<Longrightarrow> d ! t = ((s - w) * c ! t + c ! (t - 1)) mod s"
    "\<And>t. t = 0 \<or> k \<le> t \<Longrightarrow> d ! t = c ! t"
    using product_inner [where k = k and c = c and s = s] S k len unfolding d_def w_def by auto
  have res: "product_round s w c = d[0 := (d ! 0 * (s - w)) mod s]"
    by (simp add: product_round_def d_def Let_def)
  have bk: "unat (s - w) < unat s" using S k uk by simp
  have entry: "unat (product_round s w c ! j) < S \<and>
      int (unat (product_round s w c ! j)) mod int S = partial_lin (Suc k) j mod int S"
    if j: "j < m" for j
  proof -
    consider "j = 0" | "0 < j" "j < k" | "k \<le> j" by linarith
    then show ?thesis
    proof cases
      case 1
      have e: "product_round s w c ! j = ((s - w) * c ! 0 + 0) mod s"
        using 1 d k by (simp add: res mult.commute)
      have "unat (product_round s w c ! j) = ((S - k) * unat (c ! 0) + 0) mod S"
        unfolding e using unat_mult_add_mod [of "s - w" s "c ! 0" 0] bk bnd [of 0] S j 1 uk k by simp
      moreover have "partial_lin (Suc k) j = 0 - int k * partial_lin k 0"
        using 1 k lin_upt_Suc [of k] by (simp add: partial_lin_def mulx_def del: upt_Suc)
      ultimately show ?thesis
        using neg_mod_cong [of k S "unat (c ! 0)" "partial_lin k 0" 0 0] val [of 0] k S j 1 by simp
    next
      case 2
      have e: "product_round s w c ! j = ((s - w) * c ! j + c ! (j - 1)) mod s"
        using 2 d by (simp add: res)
      have "unat (product_round s w c ! j) = ((S - k) * unat (c ! j) + unat (c ! (j - 1))) mod S"
        unfolding e using unat_mult_add_mod [of "s - w" s "c ! j" "c ! (j - 1)"] bk bnd S j uk by simp
      moreover have "partial_lin (Suc k) j = partial_lin k (j - 1) - int k * partial_lin k j"
        using 2 k lin_upt_Suc [of k] less_imp_diff_less [of j k 1]
        by (simp add: partial_lin_def mulx_def del: upt_Suc)
      ultimately show ?thesis
        using neg_mod_cong [of k S "unat (c ! j)" "partial_lin k j" "unat (c ! (j - 1))"
            "partial_lin k (j - 1)"] val k S j by simp
    next
      case 3
      have e: "product_round s w c ! j = c ! j" using 3 d k by (simp add: res)
      have "partial_lin (Suc k) j = 1"
        using 3 k lin_upt_Suc [of k] lin_upt_top [of k]
        by (cases "j = k") (simp_all add: partial_lin_def mulx_def del: upt_Suc)
      moreover have "partial_lin k j = 1" using 3 by (simp add: partial_lin_def)
      ultimately show ?thesis using bnd [OF j] val [OF j] e by simp
    qed
  qed
  have "length (product_round s w c) = m" using d(1) by (simp add: res)
  with entry show ?thesis unfolding repr_def w_def by blast
qed

lemma computeProduct_repr:
  assumes S: "S = unat s" "S \<le> 65536" "1 < S" and n: "n = unat ell" "n + 1 \<le> S"
  shows "repr S (computeProductOneToEllPlusOne s ell) (n + 2) (lin [1..<n + 2])"
proof -
  have n2: "unat (ell + 2) = n + 2"
    using S n by (simp add: unat_word_ariths)
  have "repr S (computeProductOneToEllPlusOne s ell) (n + 2) (partial_lin (unat (ell + 2)))"
    unfolding computeProductOneToEllPlusOne_def
  proof (rule for_up_invariant [where P = "\<lambda>k c. repr S c (n + 2) (partial_lin k)"])
    let ?c = "(replicate (unat (ell + 2)) 1)[0 := s - 1]"
    have s1: "unat (s - 1) = S - 1"
      using S by (intro trans [OF unat_pred]) auto
    have "unat (?c ! j) < S \<and> int (unat (?c ! j)) mod int S = partial_lin 2 j mod int S"
      if "j < n + 2" for j
    proof (cases "j = 0")
      case True
      have "lin [1..<2] 0 = - 1"
        by (simp add: lin_def mulx_def one_poly_def upt_rec)
      moreover have "int (S - 1) mod int S = - 1 mod int S"
        using S(3) mod_add_self2 [of "- 1" "int S"] by (simp add: of_nat_diff)
      ultimately show ?thesis using True s1 S n2 by (simp add: partial_lin_def)
    next
      case False
      have "partial_lin 2 j = 1"
        using False by (cases "j = 1") (simp_all add: partial_lin_def lin_def mulx_def one_poly_def upt_rec)
      moreover have "?c ! j = 1"
        using False that n2 by (metis nth_list_update_neq nth_replicate)
      ultimately show ?thesis using S by simp
    qed
    then show "repr S ?c (n + 2) (partial_lin (unat (2 :: u32)))"
      by (simp add: repr_def n2)
  next
    show "unat (2 :: u32) \<le> unat (ell + 2)" using n2 by simp
  next
    fix k c
    assume "unat (2 :: u32) \<le> k" "k < unat (ell + 2)" "repr S c (n + 2) (partial_lin k)"
    then show "repr S (product_round s (of_nat k) c) (n + 2) (partial_lin (Suc k))"
      using product_round_repr [of S s k "n + 2" c] S n n2 by simp
  qed
  then show ?thesis
    by (rule repr_cong) (simp add: n2 partial_lin_def)
qed

lemma divide_repr:
  assumes S: "S = unat s" "S \<le> 65536" "1 < S" and n: "n = unat ell" "n + 1 \<le> S"
    and a: "unat a \<le> S" and c: "repr S c (n + 2) (mulx (int (unat a)) p)"
    and lead: "p n = 1" and len: "length output = n + 1"
  shows "repr S (divideByDegreeOnePolynomial c output s a ell) (n + 1) p"
proof -
  let ?P = "\<lambda>j (out :: u32 list). length out = n + 1 \<and>
     (\<forall>t. j \<le> t \<and> t \<le> n \<longrightarrow> unat (out ! t) < S \<and> int (unat (out ! t)) mod int S = p t mod int S)"
  have "?P 0 (divideByDegreeOnePolynomial c output s a ell)"
    unfolding divideByDegreeOnePolynomial_def
  proof (rule for_down_incl_invariant [where P = ?P])
    show "?P (unat (ell - 1 + 1)) (output[unat ell := 1])"
      using S len lead n by (auto simp: nth_list_update)
  next
    fix k and out :: "u32 list"
    assume k: "k < unat (ell - 1 + 1)" and P: "?P (Suc k) out"
    have kn: "k < n" and k32: "Suc k < 2 ^ 32" using k n S by simp_all
    have uk: "unat (of_nat k :: u32) = k" "unat (of_nat k + 1 :: u32) = Suc k"
      using k32 by (simp_all add: unat_of_nat unat_word_ariths)
    let ?v = "(c ! Suc k + a * out ! Suc k) mod s"
    have v: "unat ?v = (unat a * unat (out ! Suc k) + unat (c ! Suc k)) mod S"
      using unat_mult_add_mod [of a s "out ! Suc k" "c ! Suc k"] a P kn S reprD(2) [OF c, of "Suc k"]
      by (simp add: add.commute)
    have "int (unat ?v) mod int S
        = (int (unat a) * int (unat (out ! Suc k)) + int (unat (c ! Suc k))) mod int S"
      by (simp add: v zmod_int)
    also have "\<dots> = (int (unat a) * p (Suc k) + mulx (int (unat a)) p (Suc k)) mod int S"
      using P kn reprD(3) [OF c, of "Suc k"] by (intro mod_add_cong mod_mult_cong refl) auto
    also have "\<dots> = p k mod int S" by (simp add: mulx_def)
    finally have "int (unat ?v) mod int S = p k mod int S" .
    moreover have "unat ?v < S" using v S by simp
    ultimately show "?P k (out[unat (of_nat k :: u32) :=
        (c ! unat (of_nat k + 1 :: u32) + a * out ! unat (of_nat k + 1 :: u32)) mod s])"
      using P kn by (auto simp: uk nth_list_update Suc_le_eq)
  qed
  then show ?thesis by (simp add: repr_def less_Suc_eq_le)
qed

lemma unat_of_nat_u32: "k < 2 ^ 32 \<Longrightarrow> unat (of_nat k :: u32) = k"
  by (simp add: unat_of_nat)

lemma map_coeffs:
  fixes f :: "nat \<Rightarrow> u32 \<Rightarrow> u32" and degree :: u32
  assumes "unat degree + 1 < 2 ^ 32" "length c = unat degree + 1"
  defines "r \<equiv> for_up 0 (degree + 1) (\<lambda>i c. c[unat i := f (unat i) (c ! unat i)]) c"
  shows "length r = length c" and "j < length c \<Longrightarrow> r ! j = f j (c ! j)"
proof -
  have u: "unat (degree + 1) = unat degree + 1" using assms(1) by (simp add: unat_word_ariths)
  let ?P = "\<lambda>k d. length d = length c \<and>
     (\<forall>j<length c. d ! j = (if j < k then f j (c ! j) else c ! j))"
  have "?P (unat (degree + 1)) r"
    unfolding r_def
  proof (rule for_up_invariant [where P = ?P])
    show "?P (unat (0 :: u32)) c" by simp
  next
    fix k d
    assume "k < unat (degree + 1)" "?P k d"
    then show "?P (Suc k) (d[unat (of_nat k :: u32) :=
        f (unat (of_nat k :: u32)) (d ! unat (of_nat k :: u32))])"
      using assms(1) u by (auto simp: unat_of_nat_u32 nth_list_update less_Suc_eq)
  qed simp
  then show "length r = length c" and "j < length c \<Longrightarrow> r ! j = f j (c ! j)"
    using u assms(2) by auto
qed

lemma reprI:
  assumes "length c = m" and "0 < S"
    and "\<And>j. j < m \<Longrightarrow> unat (c ! j) = v j mod S"
    and "\<And>j. j < m \<Longrightarrow> int (v j) mod int S = p j mod int S"
  shows "repr S c m p"
proof -
  have "unat (c ! j) < S \<and> int (unat (c ! j)) mod int S = p j mod int S" if "j < m" for j
    using assms(3,4) [OF that] assms(2) by (simp add: zmod_int del: of_nat_unat)
  then show ?thesis using assms(1) by (simp only: repr_def) blast
qed

lemma multiplyByScalar_repr:
  assumes S: "S = unat s" "S \<le> 65536" and n: "n = unat ell" "n + 1 \<le> S"
    and c: "repr S c (n + 1) p" and k: "unat k < S" and q: "\<And>j. q j = p j * int (unat k)"
  shows "repr S (multiplyByScalar c k s ell) (n + 1) q"
proof (rule reprI)
  have l: "unat ell + 1 < 2 ^ 32" "length c = unat ell + 1"
    using S n reprD(1) [OF c] by simp_all
  note m = map_coeffs [OF l, where f = "\<lambda>_ x. (x * k) mod s", folded multiplyByScalar_def]
  show "length (multiplyByScalar c k s ell) = n + 1" using m(1) reprD(1) [OF c] by simp
  show "0 < S" using n by simp
  fix j assume j: "j < n + 1"
  then have "multiplyByScalar c k s ell ! j = (c ! j * k) mod s"
    using m(2) reprD(1) [OF c] by simp
  then show "unat (multiplyByScalar c k s ell ! j) = (unat (c ! j) * unat k) mod S"
    using reprD(2) [OF c j] k S by (simp add: unat_mult_mod)
  show "int (unat (c ! j) * unat k) mod int S = q j mod int S"
    unfolding q of_nat_mult using reprD(3) [OF c j] by (intro mod_mult_cong refl)
qed

lemma add_poly_repr:
  assumes S: "S = unat s" "S \<le> 65536" and n: "n = unat ell" "n + 1 \<le> S"
    and l: "repr S l (n + 1) p" and r: "repr S r (n + 1) q"
  shows "repr S (add_poly l r s ell) (n + 1) (\<lambda>j. p j + q j)"
proof (rule reprI)
  have len: "unat ell + 1 < 2 ^ 32" "length l = unat ell + 1"
    using S n reprD(1) [OF l] by simp_all
  note m = map_coeffs [OF len, where f = "\<lambda>i x. (x + r ! i) mod s", folded add_poly_def]
  show "length (add_poly l r s ell) = n + 1" using m(1) reprD(1) [OF l] by simp
  show "0 < S" using n by simp
  fix j assume j: "j < n + 1"
  then have e: "add_poly l r s ell ! j = (l ! j + r ! j) mod s"
    using m(2) reprD(1) [OF l] by simp
  have "unat (l ! j) + unat (r ! j) < 2 ^ 32"
    using reprD(2) [OF l j] reprD(2) [OF r j] S(2) by simp
  then have "unat (l ! j + r ! j) = unat (l ! j) + unat (r ! j)"
    by (simp add: unat_word_ariths)
  then show "unat (add_poly l r s ell ! j) = (unat (l ! j) + unat (r ! j)) mod S"
    by (simp add: e unat_mod_distrib S(1))
  show "int (unat (l ! j) + unat (r ! j)) mod int S = (p j + q j) mod int S"
    unfolding of_nat_add using reprD(3) [OF l j] reprD(3) [OF r j] by (intro mod_add_cong)
qed

subsection \<open>The modular inverse\<close>

declare invert_loop.simps [simp del]

lemma invert_loop_bezout:
  fixes r0 r1 w0 w1 :: u32 and t0 t1 a S :: int
  assumes "w0 = of_int t0" "w1 = of_int t1"
    and "S dvd t0 * a - int (unat r0)" "S dvd t1 * a - int (unat r1)"
    and "int (unat r0) * \<bar>t1\<bar> + int (unat r1) * \<bar>t0\<bar> = S"
    and "t0 * t1 \<le> 0" "\<bar>t0\<bar> \<le> \<bar>t1\<bar>"
    and "gcd (unat r0) (unat r1) = 1" "unat r1 < unat r0"
  shows "\<exists>t. invert_loop r0 r1 w0 w1 = of_int t \<and> S dvd t * a - 1 \<and> \<bar>t\<bar> \<le> S"
  using assms
proof (induction r0 r1 w0 w1 arbitrary: t0 t1 rule: invert_loop.induct)
  case (1 r0 r1 w0 w1)
  show ?case
  proof (cases "r1 = 0")
    case True
    then have "unat r0 = 1" using "1.prems"(8) by simp
    moreover have "invert_loop r0 r1 w0 w1 = w0" using True by (subst invert_loop.simps) simp
    ultimately show ?thesis using "1.prems" True by (intro exI [of _ t0]) simp
  next
    case False
    define q where "q = unat r0 div unat r1"
    define t2 where "t2 = t0 - int q * t1"
    have r1: "0 < unat r1" using False by (simp add: unat_gt_0)
    have q1: "1 \<le> q" using r1 "1.prems"(9) by (simp add: q_def Suc_le_eq div_greater_zero_iff)
    have wq: "r0 div r1 = of_nat q" by (simp add: q_def word_div_def flip: unat_div_distrib)
    have w2: "w0 - r0 div r1 * w1 = of_int t2"
      by (simp add: wq t2_def "1.prems"(1,2))
    have r2: "unat (r0 - r0 div r1 * r1) = unat r0 mod unat r1"
      by (simp add: word_sub_div_mult unat_mod_distrib)
    have split: "unat r0 = q * unat r1 + unat r0 mod unat r1"
      by (simp add: q_def)
    then have splitz: "int (unat r0 mod unat r1) = int (unat r0) - int q * int (unat r1)"
      by (metis add_diff_cancel_left' of_nat_add of_nat_mult)
    have sgn: "\<bar>t2\<bar> = \<bar>t0\<bar> + int q * \<bar>t1\<bar>"
    proof -
      consider "0 \<le> t0" "t1 \<le> 0" | "t0 \<le> 0" "0 \<le> t1"
        using "1.prems"(6) by (auto simp: mult_le_0_iff)
      then have "\<bar>t0 - int q * t1\<bar> = \<bar>t0\<bar> + \<bar>int q * t1\<bar>"
      proof cases
        case 1
        then have "int q * t1 \<le> 0" by (intro mult_nonneg_nonpos) simp_all
        with 1 show ?thesis by linarith
      next
        case 2
        then have "0 \<le> int q * t1" by (intro mult_nonneg_nonneg) simp_all
        with 2 show ?thesis by linarith
      qed
      then show ?thesis by (simp add: t2_def abs_mult)
    qed
    have "\<exists>t. invert_loop r1 (r0 - r0 div r1 * r1) w1 (w0 - r0 div r1 * w1) = of_int t
        \<and> S dvd t * a - 1 \<and> \<bar>t\<bar> \<le> S"
    proof (rule "1.IH" [OF False refl refl refl])
      show "w1 = of_int t1" by (rule "1.prems"(2))
      show "w0 - r0 div r1 * w1 = of_int t2" by (rule w2)
      show "S dvd t1 * a - int (unat r1)" by (rule "1.prems"(4))
      have "S dvd (t0 * a - int (unat r0)) - int q * (t1 * a - int (unat r1))"
        by (rule dvd_diff [OF "1.prems"(3) dvd_mult [OF "1.prems"(4)]])
      also have "(t0 * a - int (unat r0)) - int q * (t1 * a - int (unat r1))
          = t2 * a - int (unat (r0 - r0 div r1 * r1))"
        unfolding r2 splitz t2_def by (simp add: algebra_simps)
      finally show "S dvd t2 * a - int (unat (r0 - r0 div r1 * r1))" .
      show "int (unat r1) * \<bar>t2\<bar> + int (unat (r0 - r0 div r1 * r1)) * \<bar>t1\<bar> = S"
        unfolding r2 splitz sgn using "1.prems"(5) by (simp add: algebra_simps)
      have "t1 * t2 = t0 * t1 - int q * (t1 * t1)" by (simp add: t2_def algebra_simps)
      moreover have "0 \<le> int q * (t1 * t1)" by simp
      ultimately show "t1 * t2 \<le> 0" using "1.prems"(6) by linarith
      have "1 * \<bar>t1\<bar> \<le> int q * \<bar>t1\<bar>" using q1 by (intro mult_right_mono) simp_all
      then show "\<bar>t1\<bar> \<le> \<bar>t2\<bar>" using sgn by simp
      show "gcd (unat r1) (unat (r0 - r0 div r1 * r1)) = 1"
        using "1.prems"(8) by (simp add: r2 gcd.commute [of "unat r1"] gcd_red_nat [symmetric])
      show "unat (r0 - r0 div r1 * r1) < unat r1" using r1 by (simp add: r2)
    qed
    with False show ?thesis by (subst invert_loop.simps) (simp add: Let_def)
  qed
qed

lemma invert_inverse:
  assumes S: "S = unat s" "S < 2 ^ 31" and a: "unat a < S" and cop: "coprime (unat a) S"
  shows "unat (invert s a) < S"
    and "(int (unat a) * int (unat (invert s a))) mod int S = 1 mod int S"
proof -
  have S0: "0 < S" using a by simp
  have "\<exists>t. invert_loop s a 0 1 = of_int t \<and> int S dvd t * int (unat a) - 1 \<and> \<bar>t\<bar> \<le> int S"
    by (rule invert_loop_bezout [where ?t0.0 = 0 and ?t1.0 = 1])
      (use S a cop in \<open>simp_all add: coprime_iff_gcd_eq_1 gcd.commute\<close>)
  then obtain t where t: "invert_loop s a 0 1 = of_int t" "int S dvd t * int (unat a) - 1" "\<bar>t\<bar> \<le> int S"
    by blast
  have "invert_loop s a 0 1 + s = of_int (t + int S)"
    by (simp add: t(1) S(1))
  then have "uint (invert_loop s a 0 1 + s) = (t + int S) mod 2 ^ 32"
    by (simp only: uint_word_of_int) (simp add: take_bit_eq_mod)
  moreover have "t + int S < 2 ^ 32" "0 \<le> t + int S" using t(3) S(2) by simp_all
  ultimately have "int (unat (invert_loop s a 0 1 + s)) = t + int S"
    by simp
  then have i: "int (unat (invert s a)) = (t + int S) mod int S"
    by (simp add: invert_def unat_mod_distrib zmod_int S(1) del: of_nat_unat)
  then have "int (unat (invert s a)) < int S"
    using S0 by simp
  then show "unat (invert s a) < S" by (simp only: of_nat_less_iff)
  have "(int (unat a) * int (unat (invert s a))) mod int S = (t * int (unat a)) mod int S"
    unfolding i by (simp add: mod_mult_right_eq mult.commute)
  also have "\<dots> = 1 mod int S" using t(2) by (simp add: mod_eq_dvd_iff)
  finally show "(int (unat a) * int (unat (invert s a))) mod int S = 1 mod int S" .
qed

lemma multiplyDifferentXValues_prod:
  assumes S: "S = unat s" "S \<le> 65536" "1 < S" and n: "n = unat ell" "n + 1 \<le> S"
    and a: "1 \<le> unat a" "unat a \<le> n + 1"
  shows "unat (multiplyDifferentXValues s ell a) < S"
    and "int (unat (multiplyDifferentXValues s ell a)) mod int S
      = (\<Prod>k\<leftarrow>remove1 (unat a) [1..<n + 2]. int (unat a) - int k) mod int S"
proof -
  have n2: "unat (ell + 2) = n + 2" using S n by (simp add: unat_word_ariths)
  let ?pr = "\<lambda>k. (\<Prod>i\<leftarrow>remove1 (unat a) [1..<k]. int (unat a) - int i)"
  let ?P = "\<lambda>k (p :: u32). unat p < S \<and> int (unat p) mod int S = ?pr k mod int S"
  have "?P (unat (ell + 2)) (multiplyDifferentXValues s ell a)"
    unfolding multiplyDifferentXValues_def
  proof (rule for_up_invariant [where P = ?P])
    show "?P (unat (1 :: u32)) 1" using S by simp
  next
    fix k and p :: u32
    assume k: "unat (1 :: u32) \<le> k" "k < unat (ell + 2)" and P: "?P k p"
    have uk: "unat (of_nat k :: u32) = k" using k n2 n S by (simp add: unat_of_nat_u32)
    show "?P (Suc k) (if of_nat k \<noteq> a then p * ((s + a - of_nat k) mod s) mod s else p)"
    proof (cases "of_nat k = a")
      case True
      then have "unat a = k" using uk by auto
      then have "?pr (Suc k) = ?pr k" using k by (simp add: remove1_append remove1_idem)
      with True P show ?thesis by simp
    next
      case False
      then have ne: "unat a \<noteq> k" by auto
      have le: "k \<le> S + unat a" "S + unat a < 2 ^ 32" using k n2 n S a by simp_all
      have sa: "unat (s + a) = S + unat a" using le S by (simp add: unat_word_ariths)
      have u: "unat (s + a - of_nat k) = S + unat a - k"
        using le sa uk by (simp add: unat_sub word_le_nat_alt)
      have d: "unat ((s + a - of_nat k) mod s) = (S + unat a - k) mod S"
        by (simp add: unat_mod_distrib u S(1))
      have pu: "unat (p * ((s + a - of_nat k) mod s) mod s) = (unat p * ((S + unat a - k) mod S)) mod S"
        using unat_mult_mod [of p s "(s + a - of_nat k) mod s"] P S d by simp
      have e: "?pr (Suc k) = ?pr k * (int (unat a) - int k)"
        using ne k by (simp add: remove1_append remove1_idem)
      have "int ((unat p * ((S + unat a - k) mod S)) mod S) mod int S
          = (int (unat p) * (int S + int (unat a) - int k)) mod int S"
        using le by (simp add: zmod_int of_nat_diff mod_mult_right_eq)
      also have "\<dots> = (?pr k * (int (unat a) - int k)) mod int S"
      proof (rule mod_mult_cong)
        show "(int S + int (unat a) - int k) mod int S = (int (unat a) - int k) mod int S"
          by (simp add: mod_eq_dvd_iff)
      qed (use P in blast)
      finally show ?thesis using False e pu S by simp
    qed
  qed (use n2 in simp)
  then show "unat (multiplyDifferentXValues s ell a) < S"
    and "int (unat (multiplyDifferentXValues s ell a)) mod int S
      = (\<Prod>k\<leftarrow>remove1 (unat a) [1..<n + 2]. int (unat a) - int k) mod int S"
    using n2 by simp_all
qed

subsection \<open>The interpolation polynomial\<close>

text \<open>The value of a coefficient vector, the polynomial the returned vector stands for.\<close>

definition poly_value :: "Polynomial_t \<Rightarrow> nat \<Rightarrow> nat" where
  "poly_value c x = (\<Sum>j<length c. unat (c ! j) * x ^ j)"

definition others :: "nat \<Rightarrow> nat \<Rightarrow> nat list" where
  "others n i = remove1 i [1..<n + 2]"

lemma others_facts:
  assumes "1 \<le> i" "i \<le> n + 1"
  shows "length (others n i) = n" and "set (others n i) = {1..n + 1} - {i}"
  using assms by (auto simp: others_def length_remove1)

lemma coprime_prod_list: "(\<And>x. x \<in> set xs \<Longrightarrow> coprime x m) \<Longrightarrow> coprime (prod_list xs) m"
  for m :: int
  by (induction xs) simp_all

lemma differences_coprime:
  assumes p: "is_prime S" and i: "1 \<le> i" "i \<le> n + 1" "n + 1 \<le> S"
  shows "coprime (\<Prod>k\<leftarrow>others n i. int i - int k) (int S)"
proof (rule coprime_prod_list)
  fix x assume "x \<in> set (map (\<lambda>k. int i - int k) (others n i))"
  then obtain k where k: "k \<in> {1..n + 1} - {i}" "x = int i - int k"
    using others_facts(2) [OF i(1,2)] by auto
  then have "0 < nat \<bar>x\<bar>" "nat \<bar>x\<bar> < S" using i by auto
  then have "coprime (nat \<bar>x\<bar>) S" by (rule is_prime_coprime [OF p])
  then have "coprime (int (nat \<bar>x\<bar>)) (int S)" by (simp only: coprime_int_iff)
  then show "coprime x (int S)" by simp
qed

definition weight :: "u32 \<Rightarrow> u32 \<Rightarrow> nat \<Rightarrow> u32" where
  "weight s ell i = invert s (multiplyDifferentXValues s ell (of_nat i))"

lemma weight_inverse:
  assumes S: "S = unat s" "S \<le> 65536" "is_prime S" and n: "n = unat ell" "n + 1 \<le> S"
    and i: "1 \<le> i" "i \<le> n + 1"
  shows "unat (weight s ell i) < S"
    and "((\<Prod>k\<leftarrow>others n i. int i - int k) * int (unat (weight s ell i))) mod int S = 1 mod int S"
proof -
  have S1: "1 < S" using S(3) by (simp add: is_prime_def)
  have ui: "unat (of_nat i :: u32) = i" using i n S by (simp add: unat_of_nat_u32)
  define d where "d = multiplyDifferentXValues s ell (of_nat i)"
  have d: "unat d < S" "int (unat d) mod int S = (\<Prod>k\<leftarrow>others n i. int i - int k) mod int S"
    using multiplyDifferentXValues_prod [OF S(1,2) S1 n, of "of_nat i"] i
    by (simp_all add: ui others_def d_def)
  have "coprime (int (unat d) mod int S) (int S)"
    unfolding d(2) using differences_coprime [OF S(3) i n(2)] S1 by simp
  then have "coprime (unat d) S"
    using S1 by (simp del: of_nat_unat)
  then have w: "unat (weight s ell i) < S"
      "(int (unat d) * int (unat (weight s ell i))) mod int S = 1 mod int S"
    using invert_inverse [of S s d] S d(1) by (simp_all add: weight_def d_def)
  show "unat (weight s ell i) < S" by (rule w(1))
  show "((\<Prod>k\<leftarrow>others n i. int i - int k) * int (unat (weight s ell i))) mod int S = 1 mod int S"
    using w(2) mod_mult_cong [OF d(2) refl] by simp
qed

definition interpolant :: "u32 \<Rightarrow> u32 \<Rightarrow> nat \<Rightarrow> nat \<Rightarrow> int" where
  "interpolant s ell k j =
     (\<Sum>i\<leftarrow>[2..<k]. lin (others (unat ell) i) j * int (unat (weight s ell i)))"

lemma lagrange_round_repr:
  assumes S: "S = unat s" "S \<le> 65536" "is_prime S" and n: "n = unat ell" "n + 1 \<le> S"
    and k: "2 \<le> k" "k \<le> n + 1"
    and t: "length t = n + 1" and acc: "repr S acc (n + 1) (interpolant s ell k)"
  defines "r \<equiv> lagrange_round s ell (computeProductOneToEllPlusOne s ell) (of_nat k) (t, acc)"
  shows "length (fst r) = n + 1" and "repr S (snd r) (n + 1) (interpolant s ell (Suc k))"
proof -
  have S1: "1 < S" using S(3) by (simp add: is_prime_def)
  have uk: "unat (of_nat k :: u32) = k" using k n S by (simp add: unat_of_nat_u32)
  define P where "P = computeProductOneToEllPlusOne s ell"
  define u where "u = divideByDegreeOnePolynomial P t s (of_nat k) ell"
  define v where "v = multiplyByScalar u (weight s ell k) s ell"
  have r: "r = (v, add_poly acc v s ell)"
    by (simp add: r_def lagrange_round_def P_def u_def v_def weight_def Let_def)
  have w: "unat (weight s ell k) < S" using weight_inverse(1) [OF S n, of k] k by simp
  have prod: "lin [1..<n + 2] = mulx (int k) (lin (others n k))"
    unfolding others_def by (rule lin_remove) (use k in auto)
  have lead: "lin (others n k) n = 1"
    using lin_lead [of "others n k"] others_facts(1) [of k n] k by simp
  have u: "repr S u (n + 1) (lin (others n k))"
    unfolding u_def
    by (rule divide_repr [where p = "lin (others n k)", OF S(1,2) S1 n _ _ lead t])
      (use computeProduct_repr [OF S(1,2) S1 n] prod k n uk in \<open>simp_all add: P_def del: upt_Suc\<close>)
  have v: "repr S v (n + 1) (\<lambda>j. lin (others n k) j * int (unat (weight s ell k)))"
    unfolding v_def by (rule multiplyByScalar_repr [OF S(1,2) n u w refl])
  show "length (fst r) = n + 1" using reprD(1) [OF v] by (simp add: r)
  have "repr S (add_poly acc v s ell) (n + 1)
      (\<lambda>j. interpolant s ell k j + lin (others n k) j * int (unat (weight s ell k)))"
    by (rule add_poly_repr [OF S(1,2) n acc v])
  then show "repr S (snd r) (n + 1) (interpolant s ell (Suc k))"
    unfolding r using k(1) n(1)
    by (auto elim!: repr_cong simp: interpolant_def)
qed


lemma repr_zero: "0 < S \<Longrightarrow> repr S (replicate m 0) m (\<lambda>_. 0)"
  by (simp add: repr_def)

lemma computeLagrange_repr:
  assumes S: "S = unat s" "S \<le> 65536" "is_prime S" and n: "n = unat ell" "n + 1 \<le> S"
  shows "repr S (computeLagrangeCoeffsForPrefixOr s ell) (n + 1) (interpolant s ell (n + 2))"
proof -
  have S0: "0 < S" using S(3) by (rule is_prime_pos)
  have n2: "unat (ell + 2) = n + 2" "unat (ell + 1) = n + 1"
    using S n by (simp_all add: unat_word_ariths)
  let ?P = "\<lambda>k st. length (fst st) = n + 1 \<and> repr S (snd st) (n + 1) (interpolant s ell k)"
  have "?P (unat (ell + 2)) (for_up 2 (ell + 2)
      (lagrange_round s ell (computeProductOneToEllPlusOne s ell))
      (replicate (unat (ell + 1)) 0, replicate (unat (ell + 1)) 0))"
  proof (rule for_up_invariant [where P = ?P])
    have "interpolant s ell 2 = (\<lambda>_. 0)" by (simp add: interpolant_def fun_eq_iff)
    then show "?P (unat (2 :: u32)) (replicate (unat (ell + 1)) 0, replicate (unat (ell + 1)) 0)"
      using repr_zero [OF S0, of "n + 1"] n2 by (simp del: replicate_Suc)
  next
    fix k and st :: "Polynomial_t \<times> Polynomial_t"
    assume k: "unat (2 :: u32) \<le> k" "k < unat (ell + 2)" and P: "?P k st"
    then show "?P (Suc k) (lagrange_round s ell (computeProductOneToEllPlusOne s ell) (of_nat k) st)"
      using lagrange_round_repr [OF S n, of k "fst st" "snd st"] n2 by simp
  qed (use n2 in simp)
  then show ?thesis by (simp add: computeLagrangeCoeffsForPrefixOr_def n2)
qed

lemma poly_value_repr:
  assumes "repr S c (Suc n) p" shows "int (poly_value c x) mod int S = ev n p (int x) mod int S"
proof -
  have "int (poly_value c x) = (\<Sum>j<Suc n. int (unat (c ! j)) * int x ^ j)"
    using reprD(1) [OF assms] by (simp add: poly_value_def del: sum.lessThan_Suc)
  also have "\<dots> mod int S = (\<Sum>j<Suc n. (int (unat (c ! j)) * int x ^ j) mod int S) mod int S"
    by (rule mod_sum_eq [symmetric])
  also have "\<dots> = (\<Sum>j<Suc n. (p j * int x ^ j) mod int S) mod int S"
  proof -
    have "(int (unat (c ! j)) * int x ^ j) mod int S = (p j * int x ^ j) mod int S" if "j < Suc n" for j
      using reprD(3) [OF assms that] by (intro mod_mult_cong refl)
    then have "(\<Sum>j<Suc n. (int (unat (c ! j)) * int x ^ j) mod int S)
        = (\<Sum>j<Suc n. (p j * int x ^ j) mod int S)"
      by (intro sum.cong refl) (simp only: lessThan_iff)
    then show ?thesis by (simp only:)
  qed
  also have "\<dots> = ev n p (int x) mod int S"
    by (simp add: mod_sum_eq ev_def lessThan_Suc_atMost del: sum.lessThan_Suc)
  finally show ?thesis .
qed

lemma ev_sum_list:
  "ev n (\<lambda>j. \<Sum>i\<leftarrow>xs. f i j * w i) x = (\<Sum>i\<leftarrow>xs. ev n (f i) x * w i)"
proof (induction xs)
  case (Cons a xs)
  have "ev n (\<lambda>j. \<Sum>i\<leftarrow>a # xs. f i j * w i) x
      = (\<Sum>j\<le>n. f a j * x ^ j * w a) + ev n (\<lambda>j. \<Sum>i\<leftarrow>xs. f i j * w i) x"
    by (simp add: ev_def sum.distrib [symmetric] algebra_simps)
  then show ?case unfolding Cons.IH by (simp add: ev_def sum_distrib_right)
qed (simp add: ev_def)

lemma interpolant_value:
  "ev n (interpolant s ell (n + 2)) x = (\<Sum>i\<leftarrow>[2..<n + 2].
     (\<Prod>k\<leftarrow>others n i. x - int k) * int (unat (weight s ell i)))" if n: "n = unat ell"
proof -
  have "ev n (lin (others n i)) x = (\<Prod>k\<leftarrow>others n i. x - int k)" if "i \<in> set [2..<n + 2]" for i
    using ev_lin [of "others n i" x] others_facts(1) [of i n] that by (simp del: upt_Suc)
  then show ?thesis
    unfolding interpolant_def ev_sum_list n [symmetric]
    by (intro arg_cong [where f = sum_list] map_cong) simp_all
qed

lemma basis_zero:
  assumes "m \<in> set (others n i)" shows "(\<Prod>k\<leftarrow>others n i. int m - int k) = 0"
  using assms by (force simp: prod_list_zero_iff)

lemma sum_list_single:
  fixes f :: "nat \<Rightarrow> int"
  assumes "distinct xs" "m \<in> set xs" "\<And>i. i \<in> set xs \<Longrightarrow> i \<noteq> m \<Longrightarrow> f i = 0"
  shows "(\<Sum>i\<leftarrow>xs. f i) = f m"
proof -
  have "(\<Sum>i\<leftarrow>xs. f i) = sum f (set xs)" using assms(1) by (rule sum_list_distinct_conv_sum_set)
  also have "\<dots> = sum f {m}" using assms by (intro sum.mono_neutral_right) auto
  finally show ?thesis by simp
qed

subsection \<open>Properties\<close>

text \<open>
  C11: For every prime \<open>s\<close> up to \<open>2 ^ 16\<close> and every \<open>ell < s\<close>, the vector that
  \<open>computeLagrangeCoeffsForPrefixOr(s, ell)\<close> returns has \<open>ell + 1\<close> entries below
  \<open>s\<close> and is, read as a polynomial modulo \<open>s\<close>, the one the prefix-or needs: 0 at 1 and
  1 at each of \<open>2, \<dots>, ell + 1\<close>. In particular no wrap-around of the 32-bit arithmetic is
  visible, also between \<open>2 ^ 15\<close> and \<open>2 ^ 16\<close>.
\<close>

theorem prefix_or_polynomial:
  assumes "is_prime (unat s)" and "unat s \<le> 2 ^ 16" and "unat ell + 1 \<le> unat s"
  defines "c \<equiv> computeLagrangeCoeffsForPrefixOr s ell"
  shows "length c = unat ell + 1 \<and> (\<forall>x \<in> set c. x < s) \<and> poly_value c 1 mod unat s = 0
    \<and> (\<forall>m \<in> {2..unat ell + 1}. poly_value c m mod unat s = 1)"
proof -
  define S n where "S = unat s" and "n = unat ell"
  have S: "S = unat s" "S \<le> 65536" "is_prime S" "1 < S" and n: "n = unat ell" "n + 1 \<le> S"
    using assms by (simp_all add: S_def n_def is_prime_def)
  have c: "repr S c (Suc n) (interpolant s ell (n + 2))"
    using computeLagrange_repr [OF S(1-3) n] by (simp add: c_def)
  have val: "int (poly_value c m) mod int S = (\<Sum>i\<leftarrow>[2..<n + 2].
     (\<Prod>k\<leftarrow>others n i. int m - int k) * int (unat (weight s ell i))) mod int S" for m
    using poly_value_repr [OF c, of m] interpolant_value [OF n(1)] by simp
  have z: "(\<Prod>k\<leftarrow>others n i. int m - int k) = 0" if "i \<in> {2..<n + 2}" "m \<in> {1..n + 1}" "i \<noteq> m" for i m
    using basis_zero [of m n i] others_facts(2) [of i n] that by auto
  have len: "length c = unat ell + 1" using reprD(1) [OF c] n by simp
  have rng: "\<forall>x \<in> set c. x < s"
    using reprD(1,2) [OF c] S(1) by (auto simp: in_set_conv_nth word_less_nat_alt)
  have "int (poly_value c 1) mod int S = (\<Sum>i\<leftarrow>[2..<n + 2]. 0) mod int S"
    unfolding val using z [of _ 1]
    by (intro arg_cong2 [where f = "(mod)"] arg_cong [where f = sum_list] map_cong refl) auto
  then have "int (poly_value c 1 mod S) = int 0" by (simp add: sum_list_0 zmod_int)
  then have one: "poly_value c 1 mod unat s = 0" using S(1) by (simp only: of_nat_eq_iff)
  have two: "poly_value c m mod unat s = 1" if m: "m \<in> {2..unat ell + 1}" for m
  proof -
    have "(\<Sum>i\<leftarrow>[2..<n + 2]. (\<Prod>k\<leftarrow>others n i. int m - int k) * int (unat (weight s ell i)))
        = (\<Prod>k\<leftarrow>others n m. int m - int k) * int (unat (weight s ell m))"
      by (rule sum_list_single) (use m n z in auto)
    then have "int (poly_value c m) mod int S = 1 mod int S"
      unfolding val using weight_inverse(2) [OF S(1-3) n, of m] m n by simp
    then have "int (poly_value c m mod S) = int 1" using S(4) by (simp add: zmod_int)
    then show ?thesis using S(1) by (simp only: of_nat_eq_iff)
  qed
  show ?thesis using len rng one two by blast
qed
theorem prefix_or_polynomial_witness:
  "length (computeLagrangeCoeffsForPrefixOr 7 3) = 4
    \<and> poly_value (computeLagrangeCoeffsForPrefixOr 7 3) 1 mod 7 = 0
    \<and> poly_value (computeLagrangeCoeffsForPrefixOr 7 3) 2 mod 7 = 1
    \<and> poly_value (computeLagrangeCoeffsForPrefixOr 7 3) 4 mod 7 = 1"
proof -
  have "is_prime 7" by code_simp
  then show ?thesis using prefix_or_polynomial [of 7 3] by simp
qed

text \<open>
  The extended Euclidean loop of \<open>invert\<close> returns the inverse modulo \<open>s\<close> of every unit
  below \<open>s\<close>, although its cofactors are unsigned and go through negative values: the
  wrapped cofactors stay within \<open>s\<close> in absolute value.
\<close>

theorem invert_correct:
  assumes "coprime (unat a) (unat s)" and "unat a < unat s" and "unat s < 2 ^ 31"
  shows "invert s a < s \<and> (unat a * unat (invert s a)) mod unat s = 1 mod unat s"
proof -
  have "int ((unat a * unat (invert s a)) mod unat s) = int (1 mod unat s)"
    using invert_inverse(2) [OF refl assms(3,2,1)]
    by (simp only: zmod_int of_nat_mult of_nat_1)
  then show ?thesis
    using invert_inverse(1) [OF refl assms(3,2,1)] by (simp only: of_nat_eq_iff word_less_nat_alt)
qed

theorem invert_correct_witness:
  "invert 65521 2 < 65521 \<and> (2 * unat (invert 65521 2)) mod 65521 = 1"
proof -
  have "coprime (2 :: nat) 65521" by simp
  then show ?thesis using invert_correct [of 2 65521] by simp
qed

end
