(* ===== verification/Wire.thy ===== *)
theory Wire
  imports Safrn_Prelude
begin

text \<open>
  The byte layer. \<open>EventWrapper/EvBufferWrapper.h\<close> writes integers most significant byte first
  into a libevent buffer, a byte queue: \<open>add\<close> appends, \<open>remove\<close> takes from the front and
  aborts when too few bytes are there (\<open>None\<close> here). The locale \<open>codec\<close> is the contract every
  pair of a writer and a reader in the program shares; the message layer of Fortissimo, which is not
  part of the repository, enters as a record of such pairs.
\<close>

unbundle bit_operations_syntax

type_synonym bytes = "u8 list"

subsection \<open>The contract of a writer and its reader\<close>

type_synonym 'a reader = "bytes \<Rightarrow> ('a \<times> bytes) option"

fun read_many :: "'a reader \<Rightarrow> nat \<Rightarrow> 'a list reader" where
  "read_many rd 0 buf = Some ([], buf)"
| "read_many rd (Suc n) buf =
     (case rd buf of
        None \<Rightarrow> None
      | Some (x, buf') \<Rightarrow>
          (case read_many rd n buf' of None \<Rightarrow> None | Some (xs, buf'') \<Rightarrow> Some (x # xs, buf'')))"

lemma read_many_map:
  assumes "\<And>x rest. x \<in> set xs \<Longrightarrow> rd (wr x @ rest) = Some (f x, rest)"
  shows "read_many rd (length xs) (concat (map wr xs) @ rest) = Some (map f xs, rest)"
  using assms by (induction xs) simp_all

locale codec =
  fixes valid :: "'a \<Rightarrow> bool"
    and wr :: "'a \<Rightarrow> bytes"
    and rd :: "'a reader"
  assumes rd_wr: "valid x \<Longrightarrow> rd (wr x @ rest) = Some (x, rest)"
begin

lemma read_many_write:
  "list_all valid xs \<Longrightarrow> read_many rd (length xs) (concat (map wr xs) @ rest) = Some (xs, rest)"
  by (induction xs) (simp_all add: rd_wr)

lemma write_prefix_free:
  assumes "valid x" "valid y" "wr x @ r = wr y @ s" shows "x = y \<and> r = s"
proof -
  have "rd (wr y @ s) = Some (x, r)" using rd_wr [OF assms(1), of r] unfolding assms(3) .
  moreover have "rd (wr y @ s) = Some (y, s)" using assms(2) by (rule rd_wr)
  ultimately show ?thesis by simp
qed

lemma write_inject: "valid x \<Longrightarrow> valid y \<Longrightarrow> wr x = wr y \<Longrightarrow> x = y"
  by (rule conjunct1, rule write_prefix_free [where r = "[]" and s = "[]"]) simp_all

end

subsection \<open>The libevent buffer\<close>

definition evb_add :: "bytes \<Rightarrow> bytes \<Rightarrow> bytes" where
  "evb_add buffer data = buffer @ data"

definition evb_remove :: "nat \<Rightarrow> bytes reader" where
  "evb_remove len buffer =
     (if len \<le> length buffer then Some (take len buffer, drop len buffer) else None)"

definition write_int :: "'a::len word \<Rightarrow> bytes" where
  "write_int value =
     map (\<lambda>it. ucast (drop_bit ((LENGTH('a) div 8 - 1 - it) * 8) value)) [0..<LENGTH('a) div 8]"

definition read_int :: "'a::len word reader" where
  "read_int buffer =
     (case evb_remove (LENGTH('a) div 8) buffer of
        None \<Rightarrow> None
      | Some (bs, buffer') \<Rightarrow>
          Some (fold (\<lambda>it result. result OR push_bit ((LENGTH('a) div 8 - 1 - it) * 8) (ucast (bs ! it)))
                  [0..<LENGTH('a) div 8] 0, buffer'))"

definition write_bytes :: "bytes \<Rightarrow> bytes" where
  "write_bytes value = value"

definition read_bytes :: "nat \<Rightarrow> bytes reader" where
  "read_bytes len buffer = evb_remove len buffer"

definition write_string :: "bytes \<Rightarrow> bytes" where
  "write_string value = write_int (of_nat (length value) :: u32) @ value"

definition read_string :: "bytes reader" where
  "read_string buffer =
     (case (read_int buffer :: (u32 \<times> bytes) option) of
        None \<Rightarrow> None
      | Some (len32, buffer') \<Rightarrow> evb_remove (unat len32) buffer')"

definition evb_erase :: "bytes \<Rightarrow> bytes" where
  "evb_erase buffer = drop (length buffer) buffer"

lemma evb_remove_append [simp]: "length xs = n \<Longrightarrow> evb_remove n (xs @ rest) = Some (xs, rest)"
  by (simp add: evb_remove_def)

lemma evb_remove_Some:
  "evb_remove n buffer = Some (xs, rest) \<longleftrightarrow> buffer = xs @ rest \<and> length xs = n"
  by (auto simp: evb_remove_def)

lemma length_write_int [simp]: "length (write_int (w :: 'a::len word)) = LENGTH('a) div 8"
  by (simp add: write_int_def)

lemma bit_fold_or:
  "bit (fold (\<lambda>it r. r OR f it) xs r0) n \<longleftrightarrow> bit r0 n \<or> (\<exists>it \<in> set xs. bit (f it) n)"
  for r0 :: "'a::len word"
  by (induction xs arbitrary: r0) (auto simp: bit_or_iff)

lemma read_write_int:
  assumes "8 dvd LENGTH('a)"
  shows "read_int (write_int (v :: 'a::len word) @ rest) = Some (v, rest)"
proof -
  define k where "k = LENGTH('a) div 8"
  have len: "LENGTH('a) = 8 * k" using assms by (simp add: k_def)
  let ?f = "\<lambda>it. push_bit ((k - 1 - it) * 8) (ucast (write_int v ! it)) :: 'a word"
  have "fold (\<lambda>it r. r OR ?f it) [0..<k] 0 = v"
  proof (rule bit_word_eqI)
    fix n assume n: "n < LENGTH('a)"
    have f: "bit (?f it) n \<longleftrightarrow>
        (k - 1 - it) * 8 \<le> n \<and> n - (k - 1 - it) * 8 < 8 \<and> bit v n" if "it < k" for it
      using that n
      by (auto simp: write_int_def k_def [symmetric] bit_push_bit_iff bit_unsigned_iff bit_drop_bit_eq)
    have kn: "n div 8 < k" using n len by (simp add: less_mult_imp_div_less)
    then have "k - 1 - (k - 1 - n div 8) = n div 8" by linarith
    moreover have "n div 8 * 8 \<le> n" "n - n div 8 * 8 < 8" by (simp, simp flip: mod_div_mult_eq)
    ultimately have "(k - 1 - (k - 1 - n div 8)) * 8 \<le> n" "n - (k - 1 - (k - 1 - n div 8)) * 8 < 8"
      by (simp_all only:)
    then have "(\<exists>it \<in> set [0..<k]. bit (?f it) n) \<longleftrightarrow> bit v n"
      using f kn by (auto intro!: bexI [of _ "k - 1 - n div 8"])
    then show "bit (fold (\<lambda>it r. r OR ?f it) [0..<k] 0) n = bit v n"
      by (simp add: bit_fold_or)
  qed
  then show ?thesis by (simp add: read_int_def k_def)
qed

lemma read_int_length:
  "read_int buf = Some (w :: 'a::len word, rest) \<Longrightarrow> length buf = LENGTH('a) div 8 + length rest"
  by (auto simp: read_int_def evb_remove_Some split: option.splits)

interpretation be8: codec "\<lambda>_. True" "write_int :: u8 \<Rightarrow> bytes" read_int
  by unfold_locales (simp add: read_write_int)

interpretation be32: codec "\<lambda>_. True" "write_int :: u32 \<Rightarrow> bytes" read_int
  by unfold_locales (simp add: read_write_int)

interpretation be64: codec "\<lambda>_. True" "write_int :: u64 \<Rightarrow> bytes" read_int
  by unfold_locales (simp add: read_write_int)

interpretation raw: codec "\<lambda>bs. length bs = n" write_bytes "read_bytes n" for n
  by unfold_locales (simp add: write_bytes_def read_bytes_def)

interpretation str: codec "\<lambda>bs. length bs < 2 ^ 32" write_string read_string
  by unfold_locales
    (simp add: write_string_def read_string_def read_write_int [where 'a = 32] unat_of_nat take_bit_nat_eq_self)

subsection \<open>The message primitives of Fortissimo\<close>

record ff_msg =
  wr8 :: "u8 \<Rightarrow> bytes"
  rd8 :: "u8 reader"
  wr32 :: "u32 \<Rightarrow> bytes"
  rd32 :: "u32 reader"
  wr64 :: "u64 \<Rightarrow> bytes"
  rd64 :: "u64 reader"
  wrLarge :: "LargeNum \<Rightarrow> bytes"
  rdLarge :: "LargeNum reader"

definition ff_msg_ok :: "ff_msg \<Rightarrow> bool" where
  "ff_msg_ok M \<longleftrightarrow>
     (\<forall>x rest. rd8 M (wr8 M x @ rest) = Some (x, rest)) \<and>
     (\<forall>x rest. rd32 M (wr32 M x @ rest) = Some (x, rest)) \<and>
     (\<forall>x rest. rd64 M (wr64 M x @ rest) = Some (x, rest)) \<and>
     (\<forall>x rest. rdLarge M (wrLarge M x @ rest) = Some (x, rest))"

text \<open>
  Raw bytes go through \<open>add\<close> and \<open>remove\<close> of the message, which are the queue operations
  above. A failed read leaves the target and the message as they were.
\<close>

definition try_read :: "'a reader \<Rightarrow> 'a \<Rightarrow> bytes \<Rightarrow> bool \<times> 'a \<times> bytes" where
  "try_read rd old buf = (case rd buf of None \<Rightarrow> (False, old, buf) | Some (x, rest) \<Rightarrow> (True, x, rest))"

locale ff_messages =
  fixes M :: ff_msg
  assumes ok: "ff_msg_ok M"

sublocale ff_messages \<subseteq> m8: codec "\<lambda>_. True" "wr8 M" "rd8 M"
  using ok by unfold_locales (simp add: ff_msg_ok_def)

sublocale ff_messages \<subseteq> m32: codec "\<lambda>_. True" "wr32 M" "rd32 M"
  using ok by unfold_locales (simp add: ff_msg_ok_def)

sublocale ff_messages \<subseteq> m64: codec "\<lambda>_. True" "wr64 M" "rd64 M"
  using ok by unfold_locales (simp add: ff_msg_ok_def)

sublocale ff_messages \<subseteq> mLarge: codec "\<lambda>_. True" "wrLarge M" "rdLarge M"
  using ok by unfold_locales (simp add: ff_msg_ok_def)

text \<open>
  An instance for the witnesses: the program's own big-endian integers, and a big number as its
  32-bit digit count followed by its 64-bit digits, least significant first.
\<close>

fun digits64 :: "nat \<Rightarrow> u64 list" where
  "digits64 n = (if n = 0 then [] else of_nat n # digits64 (n div 2 ^ 64))"

declare digits64.simps [simp del]

fun undigits64 :: "u64 list \<Rightarrow> nat" where
  "undigits64 [] = 0"
| "undigits64 (d # ds) = unat d + 2 ^ 64 * undigits64 ds"

lemma undigits64_digits64: "undigits64 (digits64 n) = n"
proof (induction n rule: digits64.induct)
  case (1 n)
  show ?case
    by (subst digits64.simps) (use 1 in \<open>simp add: unat_of_nat\<close>)
qed

text \<open>A unary count is enough for the instance and has no bound: a byte 1 before every digit.\<close>

definition wr_large :: "nat \<Rightarrow> bytes" where
  "wr_large n = concat (map (\<lambda>d. 1 # write_int d) (digits64 n)) @ [0]"

fun rd_digits :: "nat \<Rightarrow> u64 list reader" where
  "rd_digits 0 buf = None"
| "rd_digits (Suc fuel) buf =
     (case buf of
        [] \<Rightarrow> None
      | b # buf' \<Rightarrow>
          if b = 0 then Some ([], buf')
          else (case read_int buf' of
                  None \<Rightarrow> None
                | Some (d, buf'') \<Rightarrow>
                    (case rd_digits fuel buf'' of
                       None \<Rightarrow> None
                     | Some (ds, r) \<Rightarrow> Some (d # ds, r))))"

definition rd_large :: "nat reader" where
  "rd_large buf = map_option (\<lambda>(ds, r). (undigits64 ds, r)) (rd_digits (Suc (length buf)) buf)"

lemma rd_digits_write:
  "length ds < fuel \<Longrightarrow>
   rd_digits fuel (concat (map (\<lambda>d. 1 # write_int d) ds) @ 0 # rest) = Some (ds, rest)"
proof (induction ds arbitrary: fuel)
  case Nil
  then show ?case by (cases fuel) simp_all
next
  case (Cons d ds)
  then show ?case by (cases fuel) (simp_all add: read_write_int)
qed

lemma rd_large_write: "rd_large (wr_large n @ rest) = Some (n, rest)"
proof -
  have "length ds \<le> length (concat (map (\<lambda>d. 1 # write_int (d :: u64)) ds))" for ds
    by (induction ds) simp_all
  from this [of "digits64 n"] show ?thesis
    by (simp add: rd_large_def wr_large_def rd_digits_write undigits64_digits64 le_imp_less_Suc
        trans_le_add1 del: rd_digits.simps)
qed

definition be_msg :: ff_msg where
  "be_msg = \<lparr>wr8 = write_int, rd8 = read_int, wr32 = write_int, rd32 = read_int,
     wr64 = write_int, rd64 = read_int, wrLarge = wr_large, rdLarge = rd_large\<rparr>"

lemma be_msg_ok: "ff_msg_ok be_msg"
  by (simp add: ff_msg_ok_def be_msg_def read_write_int rd_large_write)

interpretation be: ff_messages be_msg
  by unfold_locales (rule be_msg_ok)

end
