(* ===== verification/Identity.thy ===== *)
theory Identity
  imports Wire "HOL-Library.Multiset"
begin

text \<open>
  \<open>Identity.h\<close>, \<open>Identity.cpp\<close> and \<open>Identity.t.h\<close>: the identity of a participant, its
  comparison operators and its message codec. Equality and order ignore the vertical unless the role
  is dataowner, so they are not the equality of the record; the locale \<open>strict_order\<close> states
  what the sorted containers of \<open>PeerSet\<close> need of such a pair of operators.
\<close>

subsection \<open>Strict orders up to an equivalence\<close>

text \<open>Insertion from the back of a vector, the loop of \<open>PeerSet::add\<close>.\<close>

fun insert_rev :: "('a \<Rightarrow> 'a \<Rightarrow> bool) \<Rightarrow> 'a \<Rightarrow> 'a list \<Rightarrow> 'a list" where
  "insert_rev lt x [] = [x]"
| "insert_rev lt x (y # ys) = (if lt x y then y # insert_rev lt x ys else x # y # ys)"

definition insert_back :: "('a \<Rightarrow> 'a \<Rightarrow> bool) \<Rightarrow> 'a \<Rightarrow> 'a list \<Rightarrow> 'a list" where
  "insert_back lt x xs = rev (insert_rev lt x (rev xs))"

definition sorted_by :: "('a \<Rightarrow> 'a \<Rightarrow> bool) \<Rightarrow> 'a list \<Rightarrow> bool" where
  "sorted_by lt xs = sorted_wrt (\<lambda>a b. \<not> lt b a) xs"

definition sort_by :: "('a \<Rightarrow> 'a \<Rightarrow> bool) \<Rightarrow> 'a list \<Rightarrow> 'a list" where
  "sort_by lt xs = fold (insert_back lt) xs []"

lemma mset_insert_back [simp]: "mset (insert_back lt x xs) = add_mset x (mset xs)"
proof -
  have "mset (insert_rev lt x ys) = add_mset x (mset ys)" for ys
    by (induction ys) simp_all
  then show ?thesis by (simp add: insert_back_def)
qed

lemma set_insert_back [simp]: "set (insert_back lt x xs) = insert x (set xs)"
  by (metis mset_insert_back set_mset_add_mset_insert set_mset_mset)

lemma length_insert_back [simp]: "length (insert_back lt x xs) = Suc (length xs)"
  by (metis mset_insert_back size_add_mset size_mset)

lemma mset_sort_by [simp]: "mset (sort_by lt xs) = mset xs"
proof -
  have "mset (fold (insert_back lt) xs ys) = mset xs + mset ys" for ys
    by (induction xs arbitrary: ys) simp_all
  then show ?thesis by (simp add: sort_by_def)
qed

lemma insert_back_last:
  "(\<And>y. y \<in> set xs \<Longrightarrow> \<not> lt x y) \<Longrightarrow> insert_back lt x xs = xs @ [x]"
  by (cases xs rule: rev_cases) (simp_all add: insert_back_def)

lemma insert_back_Nil [simp]: "insert_back lt x [] = [x]"
  by (simp add: insert_back_def)

lemma sort_by_sorted: "sorted_by lt xs \<Longrightarrow> sort_by lt xs = xs"
proof (induction xs rule: rev_induct)
  case Nil
  show ?case by (simp add: sort_by_def)
next
  case (snoc x xs)
  then show ?case by (simp add: sort_by_def sorted_by_def sorted_wrt_append insert_back_last)
qed

locale strict_order =
  fixes lt :: "'a \<Rightarrow> 'a \<Rightarrow> bool" and eq :: "'a \<Rightarrow> 'a \<Rightarrow> bool"
  assumes eq_refl: "eq x x"
    and eq_sym: "eq x y \<Longrightarrow> eq y x"
    and eq_trans: "eq x y \<Longrightarrow> eq y z \<Longrightarrow> eq x z"
    and lt_not_eq: "lt x y \<Longrightarrow> \<not> eq x y"
    and lt_trans: "lt x y \<Longrightarrow> lt y z \<Longrightarrow> lt x z"
    and trichotomy: "lt x y \<or> eq x y \<or> lt y x"
begin

lemma lt_asym: "lt x y \<Longrightarrow> \<not> lt y x"
  using lt_trans lt_not_eq eq_refl by blast

lemma lt_irrefl: "\<not> lt x x"
  using lt_asym by blast

lemma eq_lt_trans: "eq x y \<Longrightarrow> lt y z \<Longrightarrow> lt x z"
  by (meson eq_sym eq_trans lt_not_eq lt_trans trichotomy)

lemma lt_eq_trans: "lt x y \<Longrightarrow> eq y z \<Longrightarrow> lt x z"
  by (meson eq_sym eq_trans lt_not_eq lt_trans trichotomy)

lemma not_lt_trans: "\<not> lt y x \<Longrightarrow> \<not> lt z y \<Longrightarrow> \<not> lt z x"
  by (meson eq_lt_trans eq_sym lt_trans trichotomy)

lemma not_lt_antisym: "\<not> lt x y \<Longrightarrow> \<not> lt y x \<Longrightarrow> eq x y"
  using trichotomy by blast

lemma sorted_insert_back:
  assumes "sorted_by lt xs" shows "sorted_by lt (insert_back lt x xs)"
proof -
  have set_ir: "set (insert_rev lt x ys) = insert x (set ys)" for ys
    by (induction ys) auto
  have "sorted_wrt (\<lambda>a b. \<not> lt a b) (insert_rev lt x ys)" if "sorted_wrt (\<lambda>a b. \<not> lt a b) ys" for ys
    using that
  proof (induction ys)
    case (Cons y ys)
    show ?case
    proof (cases "lt x y")
      case True
      then have "\<not> lt y x" by (rule lt_asym)
      with True Cons show ?thesis by (simp add: set_ir)
    next
      case False
      then have "\<not> lt x z" if "z \<in> set ys" for z
        using Cons.prems that not_lt_trans [of y z x] by simp
      with False Cons.prems show ?thesis by simp
    qed
  qed simp
  from this [of "rev xs"] show ?thesis
    using assms by (simp add: sorted_by_def insert_back_def sorted_wrt_rev)
qed

lemma sorted_sort_by: "sorted_by lt (sort_by lt xs)"
proof -
  have "sorted_by lt ys \<Longrightarrow> sorted_by lt (fold (insert_back lt) xs ys)" for ys
    by (induction xs arbitrary: ys) (simp_all add: sorted_insert_back)
  then show ?thesis by (simp add: sort_by_def sorted_by_def)
qed

lemma sorted_mset_unique:
  assumes "sorted_by lt xs" "sorted_by lt ys" "mset xs = mset ys"
  shows "list_all2 eq xs ys"
  using assms
proof (induction xs arbitrary: ys)
  case Nil
  then show ?case by simp
next
  case (Cons x xs)
  then obtain y ys' where ys: "ys = y # ys'" by (cases ys) auto
  have "x \<in> set ys" "y \<in> set (x # xs)"
    using Cons.prems(3) by (metis list.set_intros(1) set_mset_mset, metis list.set_intros(1) set_mset_mset ys)
  then have "\<not> lt x y" "\<not> lt y x"
    using Cons.prems(1,2) ys lt_irrefl by (auto simp: sorted_by_def)
  then have xy: "eq x y" by (rule not_lt_antisym)
  show ?case
  proof (cases "x = y")
    case True
    with Cons ys xy show ?thesis by (auto simp: sorted_by_def)
  next
    case False
    text \<open>Both heads are smallest, so the lists may be compared after swapping them.\<close>
    then obtain as bs where ys': "ys' = as @ x # bs"
      using \<open>x \<in> set ys\<close> ys by (auto dest: split_list)
    have parts: "\<forall>a \<in> set as. \<not> lt a y \<and> \<not> lt x a" "\<forall>b \<in> set bs. \<not> lt b y"
      "\<forall>a \<in> set as. \<forall>b \<in> set bs. \<not> lt b a" "sorted_by lt as" "sorted_by lt bs"
      using Cons.prems(2) unfolding ys ys' sorted_by_def by (simp_all add: sorted_wrt_append)
    have "\<not> lt y a" if "a \<in> set as" for a
      using parts(1) that eq_lt_trans [OF xy] by blast
    then have "sorted_by lt (as @ y # bs)"
      using parts by (simp add: sorted_by_def sorted_wrt_append)
    moreover have "mset xs = mset (as @ y # bs)"
      using Cons.prems(3) ys ys' by simp
    ultimately have "list_all2 eq xs (as @ y # bs)"
      using Cons.IH [of "as @ y # bs"] Cons.prems(1) by (simp add: sorted_by_def)
    then obtain us u vs where "xs = us @ u # vs" "list_all2 eq us as" "eq u y" "list_all2 eq vs bs"
      by (auto simp: list_all2_append2 list_all2_Cons2)
    then have "list_all2 eq xs (as @ x # bs)"
      using eq_trans [OF _ eq_sym [OF xy]] by (simp add: list_all2_appendI)
    then show ?thesis using xy ys ys' by simp
  qed
qed

end

subsection \<open>Roles and identities\<close>

type_synonym dbuid_t = bytes
type_synonym role_t = u8

definition DBUID_LENGTH :: nat where "DBUID_LENGTH = 16"
definition DBUID_INVALID :: dbuid_t where "DBUID_INVALID = replicate 16 0xFF"

definition ROLE_ANALYST :: role_t where "ROLE_ANALYST = 0x01"
definition ROLE_DATAOWNER :: role_t where "ROLE_DATAOWNER = 0x02"
definition ROLE_DEALER :: role_t where "ROLE_DEALER = 0x04"
definition ROLE_RECIPIENT :: role_t where "ROLE_RECIPIENT = 0x08"
definition ROLE_INVALID :: role_t where "ROLE_INVALID = 0xFF"

lemmas role_defs = ROLE_ANALYST_def ROLE_DATAOWNER_def ROLE_DEALER_def ROLE_RECIPIENT_def ROLE_INVALID_def

lemma roles_distinct [simp]:
  "ROLE_DEALER \<noteq> ROLE_RECIPIENT" "ROLE_RECIPIENT \<noteq> ROLE_DEALER"
  "ROLE_DEALER \<noteq> ROLE_DATAOWNER" "ROLE_DATAOWNER \<noteq> ROLE_DEALER"
  "ROLE_RECIPIENT \<noteq> ROLE_DATAOWNER" "ROLE_DATAOWNER \<noteq> ROLE_RECIPIENT"
  "ROLE_INVALID \<noteq> ROLE_DEALER" "ROLE_INVALID \<noteq> ROLE_RECIPIENT" "ROLE_INVALID \<noteq> ROLE_DATAOWNER"
  "ROLE_DEALER \<noteq> ROLE_INVALID" "ROLE_RECIPIENT \<noteq> ROLE_INVALID" "ROLE_DATAOWNER \<noteq> ROLE_INVALID"
  "ROLE_ANALYST \<noteq> ROLE_DEALER" "ROLE_ANALYST \<noteq> ROLE_RECIPIENT" "ROLE_ANALYST \<noteq> ROLE_DATAOWNER"
  "ROLE_DEALER \<noteq> ROLE_ANALYST" "ROLE_RECIPIENT \<noteq> ROLE_ANALYST" "ROLE_DATAOWNER \<noteq> ROLE_ANALYST"
  by (simp_all add: role_defs)

definition strToRole :: "string \<Rightarrow> role_t" where
  "strToRole str =
     (if str = ''analyst'' then ROLE_ANALYST
      else if str = ''dataowner'' then ROLE_DATAOWNER
      else if str = ''dealer'' then ROLE_DEALER
      else if str = ''recipient'' then ROLE_RECIPIENT
      else ROLE_INVALID)"

definition roleToStr :: "role_t \<Rightarrow> string" where
  "roleToStr role =
     (if role = ROLE_ANALYST then ''analyst''
      else if role = ROLE_DATAOWNER then ''dataowner''
      else if role = ROLE_DEALER then ''dealer''
      else if role = ROLE_RECIPIENT then ''recipient''
      else ''invalid'')"

record Identity =
  orgId :: dbuid_t
  role :: role_t
  vertical :: u64

definition Identity_default :: Identity where
  "Identity_default = \<lparr>orgId = DBUID_INVALID, role = ROLE_INVALID, vertical = - 1\<rparr>"

text \<open>\<open>std::array\<close> compares lexicographically.\<close>

fun array_less :: "u8 list \<Rightarrow> u8 list \<Rightarrow> bool" where
  "array_less _ [] = False"
| "array_less [] (_ # _) = True"
| "array_less (x # xs) (y # ys) = (x < y \<or> (\<not> y < x \<and> array_less xs ys))"

definition identity_eq :: "Identity \<Rightarrow> Identity \<Rightarrow> bool" where
  "identity_eq this other =
     (if role this = ROLE_DATAOWNER
      then orgId this = orgId other \<and> role this = role other \<and> vertical this = vertical other
      else orgId this = orgId other \<and> role this = role other)"

definition identity_ne :: "Identity \<Rightarrow> Identity \<Rightarrow> bool" where
  "identity_ne this other = (\<not> identity_eq this other)"

definition identity_lt :: "Identity \<Rightarrow> Identity \<Rightarrow> bool" where
  "identity_lt this other =
     (if orgId this \<noteq> orgId other then array_less (orgId this) (orgId other)
      else if role this \<noteq> role other then role this < role other
      else if role this = ROLE_DATAOWNER then vertical this < vertical other
      else False)"

definition identity_le :: "Identity \<Rightarrow> Identity \<Rightarrow> bool" where
  "identity_le this other = (identity_eq this other \<or> identity_lt this other)"

definition identity_gt :: "Identity \<Rightarrow> Identity \<Rightarrow> bool" where
  "identity_gt this other = (\<not> identity_le this other)"

definition identity_ge :: "Identity \<Rightarrow> Identity \<Rightarrow> bool" where
  "identity_ge this other = (\<not> identity_lt this other)"

lemma array_less_irrefl: "\<not> array_less xs xs"
  by (induction xs) simp_all

lemma array_less_trans: "array_less xs ys \<Longrightarrow> array_less ys zs \<Longrightarrow> array_less xs zs"
proof (induction xs zs arbitrary: ys rule: array_less.induct)
  case (3 x xs z zs)
  then obtain y ys' where "ys = y # ys'" by (cases ys) auto
  with 3 show ?case by auto
qed (use array_less.elims(2) in auto)

lemma array_less_total: "array_less xs ys \<or> xs = ys \<or> array_less ys xs"
proof (induction xs ys rule: array_less.induct)
  case (1 xs)
  then show ?case by (cases xs) simp_all
qed auto

interpretation identity: strict_order identity_lt identity_eq
proof
  fix x y z
  show "identity_lt x y \<Longrightarrow> \<not> identity_eq x y"
    by (auto simp: identity_lt_def identity_eq_def split: if_splits)
  show "identity_lt x y \<Longrightarrow> identity_lt y z \<Longrightarrow> identity_lt x z"
    using array_less_trans [of "orgId x" "orgId y" "orgId z"] array_less_irrefl
    by (auto simp: identity_lt_def split: if_splits)
  show "identity_lt x y \<or> identity_eq x y \<or> identity_lt y x"
    using array_less_total [of "orgId x" "orgId y"]
    by (auto simp: identity_lt_def identity_eq_def)
qed (auto simp: identity_eq_def split: if_splits)

subsection \<open>The message codec of identities\<close>

definition write_Identity :: "ff_msg \<Rightarrow> Identity \<Rightarrow> bytes" where
  "write_Identity M i = orgId i @ wr8 M (role i) @ wr32 M (ucast (vertical i))"

definition read_Identity :: "ff_msg \<Rightarrow> Identity reader" where
  "read_Identity M buf =
     (case evb_remove DBUID_LENGTH buf of
        None \<Rightarrow> None
      | Some (org, buf) \<Rightarrow>
          (case rd8 M buf of
             None \<Rightarrow> None
           | Some (r, buf) \<Rightarrow>
               (case rd32 M buf of
                  None \<Rightarrow> None
                | Some (vert32, buf) \<Rightarrow>
                    Some (\<lparr>orgId = org, role = r, vertical = ucast vert32\<rparr>, buf))))"

text \<open>What the receiver sees of an identity: the vertical is cut to 32 bits.\<close>

definition sent_identity :: "Identity \<Rightarrow> Identity" where
  "sent_identity i = i\<lparr>vertical := ucast (ucast (vertical i) :: u32)\<rparr>"

definition sendable :: "Identity \<Rightarrow> bool" where
  "sendable i \<longleftrightarrow> length (orgId i) = DBUID_LENGTH \<and>
     (role i = ROLE_DATAOWNER \<longrightarrow> unat (vertical i) < 2 ^ 32)"

lemma sent_identity_eq: "sendable i \<Longrightarrow> identity_eq (sent_identity i) i"
proof -
  have "unat (vertical i) < 2 ^ 32 \<Longrightarrow> ucast (ucast (vertical i) :: u32) = vertical i"
    by (intro word_unat_eq_iff [THEN iffD2]) (simp add: unsigned_ucast_eq unsigned_take_bit_eq take_bit_nat_eq_self)
  then show "sendable i \<Longrightarrow> identity_eq (sent_identity i) i"
    by (simp add: sendable_def identity_eq_def sent_identity_def)
qed

context ff_messages begin

lemma read_write_Identity:
  "length (orgId i) = DBUID_LENGTH \<Longrightarrow>
   read_Identity M (write_Identity M i @ rest) = Some (sent_identity i, rest)"
  by (simp add: write_Identity_def read_Identity_def m8.rd_wr m32.rd_wr sent_identity_def)

end

subsection \<open>Properties\<close>

text \<open>
  The message codec of identities: what \<open>msg_write\<close> appends, \<open>msg_read\<close> takes off
  again, leaving the bytes behind it, and the identity read compares equal to the one written,
  whatever vertical a peer that is not a dataowner carries.
\<close>

theorem identity_codec:
  assumes "ff_msg_ok M" and "sendable i"
  shows "\<exists>j. read_Identity M (write_Identity M i @ rest) = Some (j, rest) \<and> identity_eq j i"
  using ff_messages.read_write_Identity [OF ff_messages.intro [OF assms(1)]] assms(2)
    sent_identity_eq [OF assms(2)] by (auto simp: sendable_def)

theorem identity_codec_witness:
  "\<exists>j. read_Identity be_msg (write_Identity be_msg
       \<lparr>orgId = replicate 16 7, role = ROLE_RECIPIENT, vertical = - 1\<rparr> @ [1, 2]) = Some (j, [1, 2])
     \<and> identity_eq j \<lparr>orgId = replicate 16 7, role = ROLE_RECIPIENT, vertical = - 1\<rparr>"
  by (rule identity_codec [OF be_msg_ok]) (simp add: sendable_def DBUID_LENGTH_def)


text \<open>
  The six comparison operators of identities are one total order up to \<open>operator==\<close>: of
  less, equal and greater exactly one holds, and the two weak comparisons are their unions.
\<close>

theorem identity_operators:
  "(identity_lt x y \<or> identity_eq x y \<or> identity_gt x y)
    \<and> \<not> (identity_lt x y \<and> identity_eq x y) \<and> \<not> (identity_lt x y \<and> identity_gt x y)
    \<and> \<not> (identity_eq x y \<and> identity_gt x y)
    \<and> identity_gt x y = identity_lt y x
    \<and> identity_le x y = (\<not> identity_gt x y)
    \<and> identity_ge x y = (identity_gt x y \<or> identity_eq x y)
    \<and> identity_ne x y = (identity_lt x y \<or> identity_lt y x)"
  using identity.trichotomy [of x y] identity.lt_not_eq [of x y] identity.lt_not_eq [of y x]
    identity.eq_sym [of y x] identity.eq_sym [of x y] identity.lt_asym [of x y]
  unfolding identity_gt_def identity_le_def identity_ge_def identity_ne_def by argo

end
