(* ===== verification/PeerSet.thy ===== *)
theory PeerSet
  imports Identity
begin

text \<open>
  \<open>PeerSet.h\<close>, \<open>PeerSet.cpp\<close> and \<open>PeerSet.t.h\<close>: the participants of a protocol, kept
  in sorted vectors per role and per vertical. The per-peer protocol id and completion flag of
  \<open>PeerWrapper\<close>, which only Fortissimo reads, are left out. \<open>None\<close> is a failed
  \<open>log_assert\<close>, a \<open>log_fatal\<close> or an access outside a vector.
\<close>

subsection \<open>State and operations\<close>

record PeerSet =
  hasDealer :: bool
  dealer :: Identity
  recipients :: "Identity list"
  dataowners :: "Identity list list"

definition PeerSet_empty :: PeerSet where
  "PeerSet_empty = \<lparr>hasDealer = False, dealer = Identity_default, recipients = [], dataowners = []\<rparr>"

definition grow_verticals :: "nat \<Rightarrow> Identity list list \<Rightarrow> Identity list list" where
  "grow_verticals v ds = ds @ replicate (Suc v - length ds) []"

definition PeerSet_add :: "Identity \<Rightarrow> PeerSet \<Rightarrow> PeerSet option" where
  "PeerSet_add peer P =
     (if role peer = ROLE_INVALID \<or> role peer = ROLE_ANALYST then None
      else if role peer = ROLE_DEALER then
        (if hasDealer P then None else Some (P\<lparr>hasDealer := True, dealer := peer\<rparr>))
      else if role peer = ROLE_RECIPIENT then
        Some (P\<lparr>recipients := insert_back identity_lt peer (recipients P)\<rparr>)
      else if role peer = ROLE_DATAOWNER then
        (if vertical peer = - 1 then None
         else let v = unat (vertical peer);
                  ds = grow_verticals v (dataowners P)
              in Some (P\<lparr>dataowners := ds[v := insert_back identity_lt peer (ds ! v)]\<rparr>))
      else None)"

fun erase_first :: "Identity \<Rightarrow> Identity list \<Rightarrow> Identity list option" where
  "erase_first peer [] = None"
| "erase_first peer (q # qs) =
     (if identity_ne q peer then map_option ((#) q) (erase_first peer qs) else Some qs)"

definition PeerSet_remove :: "Identity \<Rightarrow> PeerSet \<Rightarrow> PeerSet option" where
  "PeerSet_remove peer P =
     (if role peer = ROLE_INVALID then None
      else if role peer = ROLE_DEALER then
        (if hasDealer P then Some (P\<lparr>hasDealer := False, dealer := Identity_default\<rparr>) else None)
      else if role peer = ROLE_RECIPIENT then
        map_option (\<lambda>rs. P\<lparr>recipients := rs\<rparr>) (erase_first peer (recipients P))
      else if role peer = ROLE_DATAOWNER then
        (let v = unat (vertical peer)
         in if v < length (dataowners P)
            then map_option (\<lambda>vs. P\<lparr>dataowners := (dataowners P)[v := vs]\<rparr>)
                   (erase_first peer (dataowners P ! v))
            else None)
      else Some P)"

definition PeerSet_size :: "PeerSet \<Rightarrow> nat" where
  "PeerSet_size P =
     (if hasDealer P then 1 else 0) + length (recipients P) + sum_list (map length (dataowners P))"

text \<open>The loop that drops trailing empty verticals reads the last one without looking whether
  there is one.\<close>

function trim_verticals :: "Identity list list \<Rightarrow> Identity list list option" where
  "trim_verticals ds =
     (if ds = [] then None
      else if last ds = [] then trim_verticals (butlast ds) else Some ds)"
  by pat_completeness auto
termination by (relation "measure length") auto

declare trim_verticals.simps [simp del]

definition enforceSort :: "PeerSet \<Rightarrow> PeerSet option" where
  "enforceSort P =
     map_option
       (\<lambda>ds. P\<lparr>recipients := sort_by identity_lt (recipients P), dataowners := ds\<rparr>)
       (trim_verticals (map (sort_by identity_lt) (dataowners P)))"

text \<open>The copy constructor.\<close>

definition PeerSet_copy :: "PeerSet \<Rightarrow> PeerSet option" where
  "PeerSet_copy other = enforceSort other"

definition PeerSet_eq :: "PeerSet \<Rightarrow> PeerSet \<Rightarrow> bool" where
  "PeerSet_eq this other \<longleftrightarrow>
     hasDealer this = hasDealer other \<and>
     (hasDealer this \<longrightarrow> identity_eq (dealer this) (dealer other)) \<and>
     list_all2 identity_eq (recipients this) (recipients other) \<and>
     list_all2 (list_all2 identity_eq) (dataowners this) (dataowners other)"

text \<open>The peers each of the \<open>forEach\<close> functions calls its argument on, in order.\<close>

definition forEachDealer :: "PeerSet \<Rightarrow> Identity list" where
  "forEachDealer P = (if hasDealer P then [dealer P] else [])"

definition forEachRecipient :: "PeerSet \<Rightarrow> Identity list" where
  "forEachRecipient P = recipients P"

definition forEachDataowner :: "PeerSet \<Rightarrow> Identity list" where
  "forEachDataowner P = concat (dataowners P)"

definition forEach :: "PeerSet \<Rightarrow> Identity list" where
  "forEach P = forEachDealer P @ forEachRecipient P @ forEachDataowner P"

definition forEach_asserts :: "PeerSet \<Rightarrow> bool" where
  "forEach_asserts P \<longleftrightarrow>
     (hasDealer P \<longrightarrow> role (dealer P) = ROLE_DEALER) \<and>
     list_all (\<lambda>p. role p = ROLE_RECIPIENT) (recipients P) \<and>
     list_all (list_all (\<lambda>p. role p = ROLE_DATAOWNER)) (dataowners P)"

definition removeDealer :: "PeerSet \<Rightarrow> PeerSet option" where
  "removeDealer P = PeerSet_remove (dealer P) P"

definition removeRecipients :: "PeerSet \<Rightarrow> PeerSet" where
  "removeRecipients P = P\<lparr>recipients := []\<rparr>"

definition removeDataowners :: "PeerSet \<Rightarrow> PeerSet" where
  "removeDataowners P = P\<lparr>dataowners := []\<rparr>"

definition removeVertical :: "nat \<Rightarrow> PeerSet \<Rightarrow> PeerSet option" where
  "removeVertical v P =
     (if v < length (dataowners P) then Some (P\<lparr>dataowners := (dataowners P)[v := []]\<rparr>) else None)"

subsection \<open>The invariant\<close>

definition vertical_ok :: "nat \<Rightarrow> Identity list \<Rightarrow> bool" where
  "vertical_ok v xs \<longleftrightarrow> sorted_by identity_lt xs \<and>
     list_all (\<lambda>p. role p = ROLE_DATAOWNER \<and> unat (vertical p) = v) xs"

definition peerset_ok :: "PeerSet \<Rightarrow> bool" where
  "peerset_ok P \<longleftrightarrow>
     (hasDealer P \<longrightarrow> role (dealer P) = ROLE_DEALER) \<and>
     sorted_by identity_lt (recipients P) \<and>
     list_all (\<lambda>p. role p = ROLE_RECIPIENT) (recipients P) \<and>
     (\<forall>v < length (dataowners P). vertical_ok v (dataowners P ! v))"

lemma vertical_ok_Nil [simp]: "vertical_ok v []"
  by (simp add: vertical_ok_def sorted_by_def)

lemma vertical_ok_insert:
  "vertical_ok v xs \<Longrightarrow> role p = ROLE_DATAOWNER \<Longrightarrow> unat (vertical p) = v \<Longrightarrow>
   vertical_ok v (insert_back identity_lt p xs)"
  by (simp add: vertical_ok_def identity.sorted_insert_back list_all_iff)

lemma length_grow [simp]: "length (grow_verticals v ds) = max (length ds) (Suc v)"
  by (simp add: grow_verticals_def max_def)

lemma nth_grow: "i < max (length ds) (Suc v) \<Longrightarrow>
    grow_verticals v ds ! i = (if i < length ds then ds ! i else [])"
  by (simp add: grow_verticals_def nth_append)

lemma concat_grow [simp]: "concat (grow_verticals v ds) = concat ds"
  by (simp add: grow_verticals_def)

lemma mset_concat_update:
  "v < length ds \<Longrightarrow> mset (concat (ds[v := xs])) + mset (ds ! v) = mset (concat ds) + mset xs"
  by (induction ds arbitrary: v) (auto split: nat.splits simp: ac_simps)

lemma erase_first_Some:
  assumes "erase_first p xs = Some ys"
  shows "\<exists>q us vs. xs = us @ q # vs \<and> ys = us @ vs \<and> identity_eq q p"
  using assms
proof (induction xs arbitrary: ys)
  case (Cons x xs)
  show ?case
  proof (cases "identity_ne x p")
    case True
    then obtain zs where zs: "erase_first p xs = Some zs" "ys = x # zs" using Cons.prems by auto
    then obtain q us vs where "xs = us @ q # vs" "zs = us @ vs" "identity_eq q p"
      using Cons.IH by blast
    then have "x # xs = (x # us) @ q # vs \<and> ys = (x # us) @ vs \<and> identity_eq q p"
      using zs(2) by simp
    then show ?thesis by blast
  next
    case False
    then have "x # xs = [] @ x # xs \<and> ys = [] @ xs \<and> identity_eq x p"
      using Cons.prems by (simp add: identity_ne_def)
    then show ?thesis by blast
  qed
qed simp

lemma erase_first_None: "erase_first p xs = None \<longleftrightarrow> (\<forall>q \<in> set xs. \<not> identity_eq q p)"
  by (induction xs) (auto simp: identity_ne_def)

lemma sorted_by_remove: "sorted_by lt (us @ q # vs) \<Longrightarrow> sorted_by lt (us @ vs)"
  by (auto simp: sorted_by_def sorted_wrt_append)

lemma peerset_ok_add:
  assumes ok: "peerset_ok P" and add: "PeerSet_add p P = Some P'"
  shows "peerset_ok P'" and "mset (forEach P') = add_mset p (mset (forEach P))"
proof -
  consider (dealer) "role p = ROLE_DEALER" | (recipient) "role p = ROLE_RECIPIENT"
    | (dataowner) "role p = ROLE_DATAOWNER" using add by (auto simp: PeerSet_add_def split: if_splits)
  then have "peerset_ok P' \<and> mset (forEach P') = add_mset p (mset (forEach P))"
  proof cases
    case dealer
    with add ok show ?thesis
      by (auto simp: PeerSet_add_def peerset_ok_def forEach_def forEachDealer_def
          forEachRecipient_def forEachDataowner_def split: if_splits)
  next
    case recipient
    with add ok show ?thesis
      by (auto simp: PeerSet_add_def peerset_ok_def forEach_def forEachDealer_def list_all_iff
          forEachRecipient_def forEachDataowner_def identity.sorted_insert_back split: if_splits)
  next
    case dataowner
    define v where "v = unat (vertical p)"
    define ds where "ds = grow_verticals v (dataowners P)"
    have P': "P' = P\<lparr>dataowners := ds[v := insert_back identity_lt p (ds ! v)]\<rparr>"
      using add dataowner by (auto simp: PeerSet_add_def Let_def v_def ds_def split: if_splits)
    have old: "vertical_ok i (ds ! i)" if "i < length ds" for i
      using ok that by (auto simp: ds_def nth_grow peerset_ok_def)
    define new where "new = ds[v := insert_back identity_lt p (ds ! v)]"
    have at_v: "vertical_ok v (insert_back identity_lt p (ds ! v))"
      using old [of v] dataowner v_def by (intro vertical_ok_insert) (simp_all add: ds_def)
    have "vertical_ok i (new ! i)" if "i < length new" for i
      using old [of i] at_v that unfolding new_def by (cases "i = v") simp_all
    then have "peerset_ok P'"
      using ok unfolding P' new_def [symmetric] by (simp add: peerset_ok_def)
    moreover have "mset (concat new) = add_mset p (mset (concat (dataowners P)))"
      using mset_concat_update [of v ds "insert_back identity_lt p (ds ! v)"]
      by (simp add: new_def ds_def)
    then have "mset (forEach P') = add_mset p (mset (forEach P))"
      unfolding P' new_def [symmetric]
      by (simp add: forEach_def forEachDealer_def forEachRecipient_def forEachDataowner_def)
    ultimately show ?thesis by blast
  qed
  then show "peerset_ok P'" and "mset (forEach P') = add_mset p (mset (forEach P))" by blast+
qed

lemma peerset_ok_remove:
  assumes ok: "peerset_ok P" and rem: "PeerSet_remove p P = Some P'"
  shows "peerset_ok P'"
    and "role p \<in> {ROLE_DEALER, ROLE_RECIPIENT, ROLE_DATAOWNER} \<Longrightarrow>
      \<exists>q. mset (forEach P) = add_mset q (mset (forEach P')) \<and> role q = role p
        \<and> (role p \<noteq> ROLE_DEALER \<longrightarrow> identity_eq q p)"
proof -
  let ?R = "\<exists>q. mset (forEach P) = add_mset q (mset (forEach P')) \<and> role q = role p
        \<and> (role p \<noteq> ROLE_DEALER \<longrightarrow> identity_eq q p)"
  consider (dealer) "role p = ROLE_DEALER" | (recipient) "role p = ROLE_RECIPIENT"
    | (dataowner) "role p = ROLE_DATAOWNER"
    | (other) "role p \<notin> {ROLE_DEALER, ROLE_RECIPIENT, ROLE_DATAOWNER}" by auto
  then have "peerset_ok P' \<and> (role p \<in> {ROLE_DEALER, ROLE_RECIPIENT, ROLE_DATAOWNER} \<longrightarrow> ?R)"
  proof cases
    case dealer
    then have P': "hasDealer P" "P' = P\<lparr>hasDealer := False, dealer := Identity_default\<rparr>"
      using rem by (auto simp: PeerSet_remove_def split: if_splits)
    have "role (dealer P) = ROLE_DEALER" using ok P'(1) by (simp add: peerset_ok_def)
    then have ?R using P' dealer
      by (auto simp: forEach_def forEachDealer_def forEachRecipient_def forEachDataowner_def
          intro!: exI [of _ "dealer P"])
    then show ?thesis using P' ok by (simp add: peerset_ok_def)
  next
    case recipient
    then obtain rs where rs: "erase_first p (recipients P) = Some rs" "P' = P\<lparr>recipients := rs\<rparr>"
      using rem by (auto simp: PeerSet_remove_def split: if_splits)
    then obtain q us vs where q: "recipients P = us @ q # vs" "rs = us @ vs" "identity_eq q p"
      using erase_first_Some by blast
    have "role q = role p" using ok recipient q(1) by (simp add: peerset_ok_def)
    then have ?R using q rs(2)
      by (intro exI [of _ q])
        (simp add: forEach_def forEachDealer_def forEachRecipient_def forEachDataowner_def)
    then show ?thesis
      using ok q rs(2) sorted_by_remove [of identity_lt us q vs] by (simp add: peerset_ok_def)
  next
    case dataowner
    define v where "v = unat (vertical p)"
    obtain vs where vs: "v < length (dataowners P)" "erase_first p (dataowners P ! v) = Some vs"
      "P' = P\<lparr>dataowners := (dataowners P)[v := vs]\<rparr>"
      using rem dataowner by (auto simp: PeerSet_remove_def Let_def v_def split: if_splits)
    then obtain q us ws where q: "dataowners P ! v = us @ q # ws" "vs = us @ ws" "identity_eq q p"
      using erase_first_Some by blast
    have okv: "vertical_ok v (us @ q # ws)" using ok vs(1) q(1) by (metis peerset_ok_def)
    then have "vertical_ok v vs" "role q = role p"
      using sorted_by_remove [of identity_lt us q ws] q(2) dataowner
      by (simp_all add: vertical_ok_def)
    moreover have "mset (concat (dataowners P)) = add_mset q (mset (concat ((dataowners P)[v := vs])))"
      using mset_concat_update [OF vs(1), of vs] q(1,2) by simp
    ultimately have "peerset_ok P'" and ?R
      using ok vs(1,3) q(3)
      by (auto simp: peerset_ok_def nth_list_update forEach_def forEachDealer_def
          forEachRecipient_def forEachDataowner_def)
    then show ?thesis by blast
  next
    case other
    then have "P' = P" using rem by (auto simp: PeerSet_remove_def split: if_splits)
    with ok other show ?thesis by simp
  qed
  then show "peerset_ok P'"
    and "role p \<in> {ROLE_DEALER, ROLE_RECIPIENT, ROLE_DATAOWNER} \<Longrightarrow> ?R" by blast+
qed

subsection \<open>What adding does, field by field\<close>

definition vertical_of :: "PeerSet \<Rightarrow> nat \<Rightarrow> Identity list" where
  "vertical_of P i = (if i < length (dataowners P) then dataowners P ! i else [])"

lemma vertical_of_add:
  assumes "PeerSet_add p P = Some P'"
  shows "mset (vertical_of P' i) =
    (if role p = ROLE_DATAOWNER \<and> unat (vertical p) = i then add_mset p (mset (vertical_of P i))
     else mset (vertical_of P i))"
  using assms
  by (auto simp: PeerSet_add_def vertical_of_def Let_def nth_list_update nth_grow less_max_iff_disj
      split: if_splits)

lemma add_fields:
  assumes "PeerSet_add p P = Some P'"
  shows "hasDealer P' \<longleftrightarrow> hasDealer P \<or> role p = ROLE_DEALER"
    and "role p = ROLE_DEALER \<Longrightarrow> \<not> hasDealer P"
    and "dealer P' = (if role p = ROLE_DEALER then p else dealer P)"
    and "mset (recipients P') =
      (if role p = ROLE_RECIPIENT then add_mset p (mset (recipients P)) else mset (recipients P))"
    and "length (dataowners P') = (if role p = ROLE_DATAOWNER
      then max (length (dataowners P)) (Suc (unat (vertical p))) else length (dataowners P))"
  using assms by (auto simp: PeerSet_add_def Let_def split: if_splits)

lemma PeerSet_eqI:
  assumes "peerset_ok P" "peerset_ok Q" and "hasDealer P = hasDealer Q"
    and "hasDealer P \<Longrightarrow> dealer P = dealer Q" and "mset (recipients P) = mset (recipients Q)"
    and "length (dataowners P) = length (dataowners Q)"
    and "\<And>i. mset (vertical_of P i) = mset (vertical_of Q i)"
  shows "PeerSet_eq P Q"
proof -
  have "list_all2 identity_eq (recipients P) (recipients Q)"
    using assms(1,2,5) by (intro identity.sorted_mset_unique) (simp_all add: peerset_ok_def)
  moreover have "list_all2 identity_eq (dataowners P ! i) (dataowners Q ! i)"
    if "i < length (dataowners P)" for i
    using assms(1,2,6) assms(7) [of i] that
    by (intro identity.sorted_mset_unique) (simp_all add: peerset_ok_def vertical_ok_def vertical_of_def)
  ultimately show ?thesis
    using assms(3,4,6) identity.eq_refl by (simp add: PeerSet_eq_def list_all2_conv_all_nth)
qed

lemma forEach_asserts_ok: "peerset_ok P \<Longrightarrow> forEach_asserts P"
  by (auto simp: peerset_ok_def forEach_asserts_def vertical_ok_def list_all_length)

lemma PeerSet_size_forEach: "PeerSet_size P = length (forEach P)"
  by (simp add: PeerSet_size_def forEach_def forEachDealer_def forEachRecipient_def
      forEachDataowner_def length_concat)

subsection \<open>Copies\<close>

lemma trim_None: "trim_verticals ds = None \<longleftrightarrow> (\<forall>d \<in> set ds. d = [])"
proof (induction ds rule: trim_verticals.induct)
  case (1 ds)
  show ?case
  proof (cases ds rule: rev_cases)
    case Nil
    then show ?thesis by (simp add: trim_verticals.simps)
  next
    case (snoc xs x)
    then show ?thesis using 1 by (subst trim_verticals.simps) auto
  qed
qed

lemma trim_Some:
  "trim_verticals ds = Some ds' \<Longrightarrow> \<exists>n. ds = ds' @ replicate n [] \<and> ds' \<noteq> [] \<and> last ds' \<noteq> []"
proof (induction ds arbitrary: ds' rule: trim_verticals.induct)
  case (1 ds)
  show ?case
  proof (cases "ds = [] \<or> last ds \<noteq> []")
    case True
    then have "ds \<noteq> []" "last ds \<noteq> []" "ds' = ds"
      using "1.prems" by (auto simp: trim_verticals.simps [of ds] split: if_splits)
    then show ?thesis by (intro exI [of _ 0]) simp
  next
    case False
    then have "trim_verticals (butlast ds) = Some ds'"
      using "1.prems" by (simp add: trim_verticals.simps [of ds])
    then obtain n where n: "butlast ds = ds' @ replicate n []" "ds' \<noteq> []" "last ds' \<noteq> []"
      using "1.IH" False by blast
    have "ds = butlast ds @ [[]]" using False append_butlast_last_id by metis
    then have "ds = ds' @ replicate (Suc n) []" using n(1) by (metis append_assoc replicate_append_same replicate_Suc)
    with n(2,3) show ?thesis by blast
  qed
qed

lemma trim_idem: "ds \<noteq> [] \<Longrightarrow> last ds \<noteq> [] \<Longrightarrow> trim_verticals ds = Some ds"
  by (simp add: trim_verticals.simps [of ds])

lemma sorted_verticals: "peerset_ok P \<Longrightarrow> map (sort_by identity_lt) (dataowners P) = dataowners P"
  by (simp add: peerset_ok_def vertical_ok_def list_eq_iff_nth_eq sort_by_sorted)

lemma enforceSort_ok:
  "peerset_ok P \<Longrightarrow> enforceSort P = map_option (\<lambda>ds. P\<lparr>dataowners := ds\<rparr>) (trim_verticals (dataowners P))"
  by (simp add: enforceSort_def sorted_verticals) (simp add: peerset_ok_def sort_by_sorted)

subsection \<open>The message codec\<close>

definition write_vertical :: "ff_msg \<Rightarrow> Identity list \<Rightarrow> bytes" where
  "write_vertical M vs = wr32 M (of_nat (length vs)) @ concat (map (write_Identity M) vs)"

definition write_PeerSet :: "ff_msg \<Rightarrow> PeerSet \<Rightarrow> bytes" where
  "write_PeerSet M P =
     (if hasDealer P then wr8 M 0x01 @ write_Identity M (dealer P) else wr8 M 0x00) @
     wr32 M (of_nat (length (recipients P))) @
     concat (map (write_Identity M) (recipients P)) @
     wr32 M (of_nat (length (dataowners P))) @
     concat (map (write_vertical M) (dataowners P))"

definition read_vertical :: "ff_msg \<Rightarrow> Identity list reader" where
  "read_vertical M buf =
     (case rd32 M buf of
        None \<Rightarrow> None
      | Some (n, buf) \<Rightarrow> read_many (read_Identity M) (unat n) buf)"

definition read_dealer :: "ff_msg \<Rightarrow> PeerSet \<Rightarrow> PeerSet reader" where
  "read_dealer M P buf =
     (case rd8 M buf of
        None \<Rightarrow> None
      | Some (b, buf) \<Rightarrow>
          if b = 0x00 then Some (P\<lparr>hasDealer := False\<rparr>, buf)
          else (case read_Identity M buf of
                  None \<Rightarrow> None
                | Some (d, buf) \<Rightarrow> Some (P\<lparr>hasDealer := True, dealer := d\<rparr>, buf)))"

definition read_PeerSet :: "ff_msg \<Rightarrow> PeerSet \<Rightarrow> PeerSet reader" where
  "read_PeerSet M P buf =
     (case read_dealer M P buf of
        None \<Rightarrow> None
      | Some (P, buf) \<Rightarrow>
     (case read_vertical M buf of
        None \<Rightarrow> None
      | Some (rs, buf) \<Rightarrow>
     (case rd32 M buf of
        None \<Rightarrow> None
      | Some (num_verts32, buf) \<Rightarrow>
     (case read_many (read_vertical M) (unat num_verts32) buf of
        None \<Rightarrow> None
      | Some (vs, buf) \<Rightarrow>
          Some (P\<lparr>recipients := recipients P @ rs, dataowners := dataowners P @ vs\<rparr>, buf)))))"

definition sendable_set :: "PeerSet \<Rightarrow> bool" where
  "sendable_set P \<longleftrightarrow>
     (hasDealer P \<longrightarrow> sendable (dealer P)) \<and> list_all sendable (recipients P) \<and>
     list_all (list_all sendable) (dataowners P) \<and>
     length (recipients P) < 2 ^ 32 \<and> length (dataowners P) < 2 ^ 32 \<and>
     list_all (\<lambda>vs. length vs < 2 ^ 32) (dataowners P)"

definition sent_set :: "PeerSet \<Rightarrow> PeerSet" where
  "sent_set P = \<lparr>hasDealer = hasDealer P,
     dealer = (if hasDealer P then sent_identity (dealer P) else Identity_default),
     recipients = map sent_identity (recipients P),
     dataowners = map (map sent_identity) (dataowners P)\<rparr>"

lemma sent_set_eq:
  assumes "sendable_set P" shows "PeerSet_eq (sent_set P) P"
proof -
  have "list_all2 identity_eq (map sent_identity xs) xs" if "list_all sendable xs" for xs
    using that by (induction xs) (simp_all add: sent_identity_eq)
  moreover from this
  have "list_all2 (list_all2 identity_eq) (map (map sent_identity) ds) ds"
    if "list_all (list_all sendable) ds" for ds
    using that by (induction ds) simp_all
  ultimately show ?thesis
    using assms by (simp add: PeerSet_eq_def sent_set_def sendable_set_def sent_identity_eq)
qed

context ff_messages begin

lemma read_write_vertical:
  assumes "list_all sendable vs" "length vs < 2 ^ 32"
  shows "read_vertical M (write_vertical M vs @ rest) = Some (map sent_identity vs, rest)"
proof -
  have "unat (of_nat (length vs) :: u32) = length vs"
    using assms(2) by (simp add: unat_of_nat take_bit_nat_eq_self)
  then show ?thesis
    using assms(1) by (simp add: read_vertical_def write_vertical_def m32.rd_wr list_all_iff
        sendable_def read_write_Identity read_many_map [where f = sent_identity])
qed

lemma read_write_PeerSet:
  assumes "sendable_set P"
  shows "read_PeerSet M PeerSet_empty (write_PeerSet M P @ rest) = Some (sent_set P, rest)"
proof -
  let ?r1 = "wr32 M (of_nat (length (dataowners P))) @ concat (map (write_vertical M) (dataowners P)) @ rest"
  define hd where "hd = (if hasDealer P then wr8 M 1 @ write_Identity M (dealer P) else wr8 M 0)"
  define P0 where "P0 = \<lparr>hasDealer = hasDealer P,
    dealer = (if hasDealer P then sent_identity (dealer P) else Identity_default),
    recipients = [], dataowners = []\<rparr>"
  have d: "read_dealer M PeerSet_empty (hd @ r) = Some (P0, r)" for r
    using assms by (simp add: hd_def P0_def read_dealer_def m8.rd_wr read_write_Identity sendable_set_def
        sendable_def PeerSet_empty_def)
  have r: "read_vertical M (wr32 M (of_nat (length (recipients P))) @
      concat (map (write_Identity M) (recipients P)) @ ?r1) = Some (map sent_identity (recipients P), ?r1)"
    using read_write_vertical [of "recipients P" ?r1] assms
    by (simp add: write_vertical_def sendable_set_def)
  have u: "unat (of_nat (length (dataowners P)) :: u32) = length (dataowners P)"
    using assms by (simp add: sendable_set_def unat_of_nat take_bit_nat_eq_self)
  have v: "read_many (read_vertical M) (length (dataowners P))
      (concat (map (write_vertical M) (dataowners P)) @ rest) = Some (map (map sent_identity) (dataowners P), rest)"
    using assms by (intro read_many_map read_write_vertical) (auto simp: sendable_set_def list_all_iff)
  show ?thesis
    by (simp add: read_PeerSet_def write_PeerSet_def hd_def [symmetric] d r m32.rd_wr u v)
      (simp add: P0_def sent_set_def)
qed

end

subsection \<open>Properties\<close>

text \<open>
  C12: Adding a peer keeps the vectors sorted and each peer in the vector of its role and vertical,
  so the assertions of the \<open>forEach\<close> loops never fail, and makes the loops visit exactly one more
  peer, the new one. Adding fails only for a role that is not one of the three single roles, a
  second dealer, or a dataowner without a vertical.
\<close>

theorem peerset_add:
  assumes "peerset_ok P"
  shows "(case PeerSet_add p P of
      Some P' \<Rightarrow> peerset_ok P' \<and> forEach_asserts P' \<and>
        mset (forEach P') = add_mset p (mset (forEach P)) \<and> PeerSet_size P' = PeerSet_size P + 1
    | None \<Rightarrow> role p \<notin> {ROLE_DEALER, ROLE_RECIPIENT, ROLE_DATAOWNER} \<or>
        (role p = ROLE_DEALER \<and> hasDealer P) \<or> (role p = ROLE_DATAOWNER \<and> vertical p = - 1))"
proof (cases "PeerSet_add p P")
  case None
  then show ?thesis by (auto simp: PeerSet_add_def Let_def split: if_splits)
next
  case (Some P')
  note new = peerset_ok_add [OF assms Some]
  have "length (forEach P') = Suc (length (forEach P))"
    using arg_cong [OF new(2), of size] by simp
  with Some new show ?thesis by (simp add: PeerSet_size_forEach forEach_asserts_ok)
qed

theorem peerset_add_witness:
  "\<exists>P'. PeerSet_add \<lparr>orgId = replicate 16 7, role = ROLE_DATAOWNER, vertical = 1\<rparr> PeerSet_empty = Some P'
     \<and> peerset_ok P' \<and> PeerSet_size P' = 1"
proof -
  have "peerset_ok PeerSet_empty" by (simp add: peerset_ok_def PeerSet_empty_def sorted_by_def)
  then have "case PeerSet_add \<lparr>orgId = replicate 16 7, role = ROLE_DATAOWNER, vertical = 1\<rparr> PeerSet_empty of
      Some P' \<Rightarrow> peerset_ok P' \<and> PeerSet_size P' = PeerSet_size PeerSet_empty + 1 | None \<Rightarrow> False"
    using peerset_add [of PeerSet_empty "\<lparr>orgId = replicate 16 7, role = ROLE_DATAOWNER, vertical = 1\<rparr>"]
    by (simp split: option.splits)
  then show ?thesis by (auto simp: PeerSet_size_def PeerSet_empty_def split: option.splits)
qed

text \<open>
  The peer set does not depend on the order in which peers are added: adding two peers in either
  order gives sets that \<open>operator==\<close> identifies.
\<close>

theorem peerset_add_commute:
  assumes "peerset_ok P"
    and "PeerSet_add p P = Some P1" and "PeerSet_add q P1 = Some P2"
    and "PeerSet_add q P = Some Q1" and "PeerSet_add p Q1 = Some Q2"
  shows "PeerSet_eq P2 Q2"
proof (rule PeerSet_eqI)
  show "peerset_ok P2" "peerset_ok Q2" using assms peerset_ok_add(1) by blast+
  note fields = add_fields [OF assms(2)] add_fields [OF assms(3)] add_fields [OF assms(4)] add_fields [OF assms(5)]
  show "hasDealer P2 = hasDealer Q2" 
    unfolding fields(1) fields(6) fields(11) fields(16) by blast
  have "\<not> (role p = ROLE_DEALER \<and> role q = ROLE_DEALER)" using fields(1,7) by blast
  then show "dealer P2 = dealer Q2"
    unfolding fields(3) fields(8) fields(13) fields(18) by simp
  show "mset (recipients P2) = mset (recipients Q2)" using fields(4,9,14,19) by (simp add: add_mset_commute)
  show "length (dataowners P2) = length (dataowners Q2)"
    using fields(5,10,15,20) by (simp add: max.commute max.left_commute)
  show "mset (vertical_of P2 i) = mset (vertical_of Q2 i)" for i
    by (simp add: vertical_of_add [OF assms(2)] vertical_of_add [OF assms(3)]
        vertical_of_add [OF assms(4)] vertical_of_add [OF assms(5)])
qed

theorem peerset_add_commute_witness:
  "PeerSet_eq
     (the (PeerSet_add \<lparr>orgId = replicate 16 1, role = ROLE_DATAOWNER, vertical = 0\<rparr>
       (the (PeerSet_add \<lparr>orgId = replicate 16 2, role = ROLE_DATAOWNER, vertical = 0\<rparr> PeerSet_empty))))
     (the (PeerSet_add \<lparr>orgId = replicate 16 2, role = ROLE_DATAOWNER, vertical = 0\<rparr>
       (the (PeerSet_add \<lparr>orgId = replicate 16 1, role = ROLE_DATAOWNER, vertical = 0\<rparr> PeerSet_empty))))"
  (is "PeerSet_eq (the (PeerSet_add ?a (the (PeerSet_add ?b _)))) _")
proof -
  have add: "PeerSet_add x P = Some (the (PeerSet_add x P))"
    if "role x = ROLE_DATAOWNER" "vertical x \<noteq> - 1" for x P
    using that by (simp add: PeerSet_add_def Let_def)
  have "peerset_ok PeerSet_empty" by (simp add: peerset_ok_def PeerSet_empty_def sorted_by_def)
  from peerset_add_commute [OF this add add add add, of ?b ?a] show ?thesis by simp
qed

text \<open>
  The copy constructor. On a set without any dataowner it reads before the start of the empty
  vector of verticals, also when the set is otherwise well formed; on every other well-formed set
  the copy visits the same peers in the same order, and it compares equal to the original exactly
  when the last vertical is not empty.
\<close>

theorem peerset_copy:
  assumes "peerset_ok P"
  shows "(PeerSet_copy P = None \<longleftrightarrow> forEachDataowner P = []) \<and>
    (\<forall>P'. PeerSet_copy P = Some P' \<longrightarrow> peerset_ok P' \<and> forEach P' = forEach P \<and>
      PeerSet_eq P' P = (last (dataowners P) \<noteq> []))"
proof (intro conjI allI impI)
  show "PeerSet_copy P = None \<longleftrightarrow> forEachDataowner P = []"
    by (auto simp: PeerSet_copy_def enforceSort_ok [OF assms] trim_None forEachDataowner_def)
next
  fix P' assume copy: "PeerSet_copy P = Some P'"
  obtain ds where ds: "trim_verticals (dataowners P) = Some ds" "P' = P\<lparr>dataowners := ds\<rparr>"
    using copy by (auto simp: PeerSet_copy_def enforceSort_ok [OF assms])
  then obtain n where n: "dataowners P = ds @ replicate n []" "ds \<noteq> []" "last ds \<noteq> []"
    using trim_Some by blast
  have "vertical_ok v (ds ! v)" if "v < length ds" for v
  proof -
    have "vertical_ok v (dataowners P ! v)" using assms n(1) that by (simp add: peerset_ok_def)
    then show ?thesis using n(1) that by (simp add: nth_append)
  qed
  then have ok: "peerset_ok P'" using assms ds(2) by (simp add: peerset_ok_def)
  have each: "forEach P' = forEach P"
    using ds(2) n(1) by (simp add: forEach_def forEachDealer_def forEachRecipient_def forEachDataowner_def)
  have "PeerSet_eq P' P \<longleftrightarrow> n = 0"
  proof
    assume "PeerSet_eq P' P"
    then have "length ds = length (dataowners P)"
      using ds(2) by (auto simp: PeerSet_eq_def dest: list_all2_lengthD)
    then show "n = 0" using n(1) by simp
  next
    assume "n = 0"
    then have "P' = P" using ds(2) n(1) by simp
    then show "PeerSet_eq P' P" using assms by (intro PeerSet_eqI) simp_all
  qed
  moreover have "last (dataowners P) \<noteq> [] \<longleftrightarrow> n = 0" using n by (cases n) simp_all
  ultimately show "PeerSet_eq P' P = (last (dataowners P) \<noteq> [])" by blast
  show "peerset_ok P'" by (rule ok)
  show "forEach P' = forEach P" by (rule each)
qed

theorem peerset_copy_witness:
  "PeerSet_copy \<lparr>hasDealer = False, dealer = Identity_default,
     recipients = [\<lparr>orgId = replicate 16 1, role = ROLE_RECIPIENT, vertical = - 1\<rparr>],
     dataowners = []\<rparr> = None"
proof -
  have "peerset_ok \<lparr>hasDealer = False, dealer = Identity_default,
     recipients = [\<lparr>orgId = replicate 16 1, role = ROLE_RECIPIENT, vertical = - 1\<rparr>],
     dataowners = []\<rparr>" (is "peerset_ok ?P")
    by (simp add: peerset_ok_def sorted_by_def)
  from peerset_copy [OF this] show ?thesis by (simp add: forEachDataowner_def)
qed

text \<open>
  A peer set read from a message compares equal to the one written, for well-formed and for
  badly sorted sets alike, as long as its vectors are shorter than \<open>2 ^ 32\<close> and the verticals
  of its dataowners fit in 32 bits.
\<close>

theorem peerset_codec:
  assumes "ff_msg_ok M" and "sendable_set P"
  shows "\<exists>P'. read_PeerSet M PeerSet_empty (write_PeerSet M P @ rest) = Some (P', rest) \<and> PeerSet_eq P' P"
  using ff_messages.read_write_PeerSet [OF ff_messages.intro [OF assms(1)] assms(2)]
    sent_set_eq [OF assms(2)] by blast

theorem peerset_codec_witness:
  "\<exists>P'. read_PeerSet be_msg PeerSet_empty (write_PeerSet be_msg
      (PeerSet_empty\<lparr>dataowners :=
         [[], [\<lparr>orgId = replicate 16 1, role = ROLE_DATAOWNER, vertical = 1\<rparr>]]\<rparr>) @ [5]) = Some (P', [5])
    \<and> PeerSet_eq P' (PeerSet_empty\<lparr>dataowners :=
         [[], [\<lparr>orgId = replicate 16 1, role = ROLE_DATAOWNER, vertical = 1\<rparr>]]\<rparr>)"
  by (rule peerset_codec [OF be_msg_ok])
    (simp add: sendable_set_def sendable_def DBUID_LENGTH_def PeerSet_empty_def)

end
