(* ===== verification/Effects.thy ===== *)
theory Effects
  imports PeerSet
begin

text \<open>
  What a handler of a protocol object (a \<open>Fronctocol\<close>) does besides changing its own state: it
  sends messages, invokes sub-protocols, completes, or logs. A handler of the model returns its new
  state and the list of these effects in the order of the code. The framework that delivers them is
  the Fortissimo library, which is not part of the repository. \<open>ReadsOutside\<close> is a read outside of an array,
  after which C++ promises nothing.
\<close>

datatype ('p, 'm) effect =
    Send Identity 'm
  | Invoke 'p
  | Complete
  | LogError
  | LogWarn
  | ReadsOutside

type_synonym ('s, 'p, 'm) handler_result = "'s \<times> ('p, 'm) effect list"

fun sends :: "('p, 'm) effect list \<Rightarrow> (Identity \<times> 'm) list" where
  "sends [] = []"
| "sends (Send p m # es) = (p, m) # sends es"
| "sends (_ # es) = sends es"

lemma sends_append [simp]: "sends (es @ fs) = sends es @ sends fs"
  by (induction es rule: sends.induct) simp_all

lemma sends_map [simp]: "sends (map (\<lambda>p. Send p m) ps) = map (\<lambda>p. (p, m)) ps"
  by (induction ps) simp_all

text \<open>The arithmetic on big numbers of the Fortissimo library, modulo its last argument.\<close>

record ff_arith =
  modAdd :: "LargeNum \<Rightarrow> LargeNum \<Rightarrow> LargeNum \<Rightarrow> LargeNum"
  modSub :: "LargeNum \<Rightarrow> LargeNum \<Rightarrow> LargeNum \<Rightarrow> LargeNum"
  modMul :: "LargeNum \<Rightarrow> LargeNum \<Rightarrow> LargeNum \<Rightarrow> LargeNum"

definition ff_arith_ok :: "ff_arith \<Rightarrow> bool" where
  "ff_arith_ok A \<longleftrightarrow> (\<forall>x y m. x < m \<longrightarrow> y < m \<longrightarrow>
     modAdd A x y m = (x + y) mod m \<and> modSub A x y m = (x + (m - y)) mod m \<and>
     modMul A x y m = (x * y) mod m)"

definition nat_arith :: ff_arith where
  "nat_arith = \<lparr>modAdd = \<lambda>x y m. (x + y) mod m, modSub = \<lambda>x y m. (x + (m - y)) mod m,
     modMul = \<lambda>x y m. (x * y) mod m\<rparr>"

lemma nat_arith_ok: "ff_arith_ok nat_arith"
  by (simp add: ff_arith_ok_def nat_arith_def)

lemma ff_arith_okD:
  assumes "ff_arith_ok A" "x < m" "y < m"
  shows "modAdd A x y m = (x + y) mod m" "modSub A x y m = (x + (m - y)) mod m"
    "modMul A x y m = (x * y) mod m"
  using assms by (auto simp: ff_arith_ok_def)

subsection \<open>Additive secret sharing\<close>

text \<open>
  The dealer and the parties split a value by subtracting random draws from it and giving each draw
  to another party. The locale states what such a scheme promises, the model's schemes are its
  instances: numbers modulo a modulus, and bits under exclusive or.
\<close>

locale sharing =
  fixes ok :: "'a \<Rightarrow> bool" and opn :: "'a list \<Rightarrow> 'a"
    and add :: "'a \<Rightarrow> 'a \<Rightarrow> 'a" and sub :: "'a \<Rightarrow> 'a \<Rightarrow> 'a"
  assumes open_single: "ok x \<Longrightarrow> opn [x] = x"
    and open_cons: "opn (y # d # ds) = add (opn (y # ds)) d"
    and sub_ok: "ok x \<Longrightarrow> ok d \<Longrightarrow> ok (sub x d)"
    and add_sub: "ok x \<Longrightarrow> ok d \<Longrightarrow> add (sub x d) d = x"
begin

lemma sub_fold_ok: "ok x \<Longrightarrow> list_all ok ds \<Longrightarrow> ok (fold (\<lambda>d x. sub x d) ds x)"
  by (induction ds arbitrary: x) (simp_all add: sub_ok)

lemma deal_open:
  "ok x \<Longrightarrow> list_all ok ds \<Longrightarrow> opn (fold (\<lambda>d x. sub x d) ds x # ds) = x"
  by (induction ds arbitrary: x) (simp_all add: open_single open_cons sub_ok add_sub)

end

definition open_mod :: "nat \<Rightarrow> nat list \<Rightarrow> nat" where
  "open_mod m xs = sum_list xs mod m"

definition open_xor :: "u8 list \<Rightarrow> u8" where
  "open_xor xs = foldr (XOR) xs 0"

locale ff_modulus =
  fixes A :: ff_arith and m :: nat
  assumes arith: "ff_arith_ok A" and pos: "0 < m"

lemma mod_sub_add:
  fixes x d m :: nat
  assumes "x < m" "d < m" shows "((x + (m - d)) mod m + d) mod m = x"
proof -
  have "((x + (m - d)) mod m + d) mod m = (x + (m - d) + d) mod m" by (simp add: mod_add_left_eq)
  then show ?thesis using assms by simp
qed

sublocale ff_modulus \<subseteq> mod_share: sharing "\<lambda>x. x < m" "open_mod m" "\<lambda>x y. (x + y) mod m"
  "\<lambda>x d. modSub A x d m"
proof
  fix x d :: nat assume xd: "x < m" "d < m"
  show "modSub A x d m < m" "(modSub A x d m + d) mod m = x"
    using ff_arith_okD(2) [OF arith xd] mod_sub_add [OF xd] pos by simp_all
qed (simp_all add: open_mod_def mod_simps ac_simps)

context ff_modulus begin

lemma mod_deal_open:
  "x < m \<Longrightarrow> list_all (\<lambda>d. d < m) ds \<Longrightarrow> open_mod m (fold (\<lambda>d x. modSub A x d m) ds x # ds) = x"
  by (rule mod_share.deal_open)

end

interpretation std_modulus: ff_modulus nat_arith 7
  by unfold_locales (simp_all add: nat_arith_ok)

interpretation xor_share: sharing "\<lambda>_. True" open_xor "(XOR)" "(XOR)"
  by unfold_locales (simp_all add: open_xor_def xor.assoc xor.commute xor.left_commute)

end
