(* ===== verification/Sharing.thy ===== *)
theory Sharing
  imports Effects
begin

text \<open>
  Where secrets are split: \<open>dataowner/Share.cpp\<close> (a dataowner shares its own number or bit),
  \<open>dealer/RandomTableLookup.cpp\<close> and \<open>dealer/RandomSquareMatrix.t.h\<close> (the dealer shares
  correlated randomness). A random draw is an argument, one per share dealt, in the order of the
  code.
\<close>

subsection \<open>Share\<close>

text \<open>The state of \<open>Share<SmallNum, BeaverInfo<SmallNum>>\<close>; \<open>rand i\<close> is the draw for the
  dataowner at position \<open>i\<close> of the loop.\<close>

record small_share =
  myShare :: u32
  modulus :: u32
  sharer :: Identity

record bool_share =
  myBit :: u8
  bitSharer :: Identity

fun share_small_loop ::
  "Identity \<Rightarrow> u32 \<Rightarrow> (nat \<Rightarrow> u32) \<Rightarrow> nat \<Rightarrow> Identity list \<Rightarrow> u32 \<Rightarrow> u32 \<times> (unit, u32) effect list" where
  "share_small_loop self m rand i [] share = (share, [])"
| "share_small_loop self m rand i (peer # peers) share =
     (if identity_eq peer self then share_small_loop self m rand (Suc i) peers share
      else let (share', es) =
                 share_small_loop self m rand (Suc i) peers ((share + (m - rand i)) mod m)
           in (share', Send peer (rand i) # es))"

definition Share_small_init ::
  "Identity \<Rightarrow> PeerSet \<Rightarrow> (nat \<Rightarrow> u32) \<Rightarrow> small_share \<Rightarrow> (small_share, unit, u32) handler_result" where
  "Share_small_init self peers rand st =
     (if identity_eq (sharer st) self then
        let (s, es) = share_small_loop self (modulus st) rand 0 (forEachDataowner peers) (myShare st)
        in (st\<lparr>myShare := s\<rparr>, es @ [Complete])
      else (st, []))"

definition Share_small_handleReceive ::
  "Identity \<Rightarrow> u32 \<Rightarrow> small_share \<Rightarrow> (small_share, unit, u32) handler_result" where
  "Share_small_handleReceive self msg st =
     (if identity_ne (sharer st) self then (st\<lparr>myShare := msg\<rparr>, [Complete]) else (st, [LogError]))"

fun share_bool_loop ::
  "Identity \<Rightarrow> (nat \<Rightarrow> u8) \<Rightarrow> nat \<Rightarrow> Identity list \<Rightarrow> u8 \<Rightarrow> u8 \<times> (unit, u8) effect list" where
  "share_bool_loop self rand i [] share = (share, [])"
| "share_bool_loop self rand i (peer # peers) share =
     (if identity_eq peer self then share_bool_loop self rand (Suc i) peers share
      else let (share', es) = share_bool_loop self rand (Suc i) peers ((share + rand i) mod 2)
           in (share', Send peer (rand i) # es))"

definition Share_bool_init ::
  "Identity \<Rightarrow> PeerSet \<Rightarrow> (nat \<Rightarrow> u8) \<Rightarrow> bool_share \<Rightarrow> (bool_share, unit, u8) handler_result" where
  "Share_bool_init self peers rand st =
     (if identity_eq (bitSharer st) self then
        let (s, es) = share_bool_loop self rand 0 (forEachDataowner peers) (myBit st)
        in (st\<lparr>myBit := s\<rparr>, es @ [Complete])
      else (st, []))"

definition Share_bool_handleReceive ::
  "Identity \<Rightarrow> u8 \<Rightarrow> bool_share \<Rightarrow> (bool_share, unit, u8) handler_result" where
  "Share_bool_handleReceive self msg st =
     (if identity_ne (bitSharer st) self then (st\<lparr>myBit := msg\<rparr>, [Complete]) else (st, [LogError]))"

definition others_of :: "Identity \<Rightarrow> PeerSet \<Rightarrow> Identity list" where
  "others_of self peers = filter (\<lambda>p. \<not> identity_eq p self) (forEachDataowner peers)"

lemma unat_share_step:
  fixes share m d :: u32
  assumes "share < m" "d < m" "unat m \<le> 2 ^ 31"
  shows "unat ((share + (m - d)) mod m) = (unat share + (unat m - unat d)) mod unat m"
proof -
  have "unat (m - d) = unat m - unat d" using assms by (simp add: unat_sub word_le_nat_alt word_less_nat_alt)
  moreover have "unat share + (unat m - unat d) < 2 ^ 32" using assms by (simp add: word_less_nat_alt)
  ultimately have "unat (share + (m - d)) = unat share + (unat m - unat d)"
    by (simp add: unat_word_ariths)
  then show ?thesis by (simp add: unat_mod_distrib)
qed

lemma open_mod_cons: "open_mod m (y # d # ds) = (open_mod m (y # ds) + d) mod m"
  by (simp add: open_mod_def mod_simps ac_simps)

lemma share_small_loop_open:
  assumes m: "unat m \<le> 2 ^ 31" and rand: "\<And>j. rand j < m"
  shows "share < m \<Longrightarrow> share_small_loop self m rand i peers share = (share', es) \<Longrightarrow>
    share' < m \<and> open_mod (unat m) (unat share' # map (\<lambda>(p, d). unat d) (sends es)) = unat share
    \<and> map fst (sends es) = filter (\<lambda>p. \<not> identity_eq p self) peers"
proof (induction peers arbitrary: i share share' es)
  case Nil
  then show ?case by (auto simp: open_mod_def word_less_nat_alt)
next
  case (Cons peer peers)
  show ?case
  proof (cases "identity_eq peer self")
    case True
    with Cons show ?thesis by simp
  next
    case False
    define s where "s = (share + (m - rand i)) mod m"
    obtain es' where es': "share_small_loop self m rand (Suc i) peers s = (share', es')"
      "es = Send peer (rand i) # es'"
      using Cons.prems(2) False by (auto simp: s_def Let_def split: prod.splits)
    have u: "unat s = (unat share + (unat m - unat (rand i))) mod unat m"
      unfolding s_def by (rule unat_share_step [OF Cons.prems(1) rand m])
    then have "s < m" using Cons.prems(1) by (simp add: word_less_nat_alt)
    from Cons.IH [OF this es'(1)] have IH: "share' < m"
      "open_mod (unat m) (unat share' # map (\<lambda>(p, d). unat d) (sends es')) = unat s"
      "map fst (sends es') = filter (\<lambda>p. \<not> identity_eq p self) peers" by blast+
    have "(unat s + unat (rand i)) mod unat m = unat share"
      unfolding u using Cons.prems(1) rand by (intro mod_sub_add) (simp_all add: word_less_nat_alt)
    with IH False show ?thesis by (simp add: es'(2) open_mod_cons)
  qed
qed

lemma share_bool_loop_open:
  assumes rand: "\<And>j. rand j < 2"
  shows "share < 2 \<Longrightarrow> share_bool_loop self rand i peers share = (share', es) \<Longrightarrow>
    share' < 2 \<and> open_xor (share' # map snd (sends es)) = share
    \<and> map fst (sends es) = filter (\<lambda>p. \<not> identity_eq p self) peers"
proof (induction peers arbitrary: i share share' es)
  case Nil
  then show ?case by (auto simp: open_xor_def)
next
  case (Cons peer peers)
  show ?case
  proof (cases "identity_eq peer self")
    case True
    with Cons show ?thesis by simp
  next
    case False
    define s where "s = (share + rand i) mod 2"
    obtain es' where es': "share_bool_loop self rand (Suc i) peers s = (share', es')"
      "es = Send peer (rand i) # es'"
      using Cons.prems(2) False by (auto simp: s_def Let_def split: prod.splits)
    have bits: "a = 0 \<or> a = 1" if "a < 2" for a :: u8
      using that by (auto simp: word_unat_eq_iff word_less_nat_alt)
    have s: "s < 2" "s XOR rand i = share"
      using bits [OF Cons.prems(1)] bits [OF rand, of i] by (auto simp: s_def)
    from Cons.IH [OF s(1) es'(1)] have IH: "share' < 2" "open_xor (share' # map snd (sends es')) = s"
      "map fst (sends es') = filter (\<lambda>p. \<not> identity_eq p self) peers" by blast+
    have "open_xor (share' # rand i # map snd (sends es')) = s XOR rand i"
      using xor_share.open_cons [of share' "rand i"] IH(2) by simp
    with IH False s(2) show ?thesis by (simp add: es'(2))
  qed
qed

subsection \<open>Random table lookups\<close>

record RandomTableLookup =
  rtl_r :: LargeNum
  rtl_u :: "u8 list"

record RandomTableLookupInfo =
  r_modulus :: LargeNum
  table_size :: u32

definition rtl_orig :: "RandomTableLookupInfo \<Rightarrow> u32 \<Rightarrow> RandomTableLookup" where
  "rtl_orig info original_r_small =
     \<lparr>rtl_r = unat original_r_small,
      rtl_u = (replicate (unat (table_size info)) 0)[unat original_r_small := 0x01]\<rparr>"

text \<open>One round of the sharing loop: the draws are the share of the location and the random bytes.\<close>

fun rtl_deal :: "ff_arith \<Rightarrow> RandomTableLookupInfo \<Rightarrow> (LargeNum \<times> u8 list) list \<Rightarrow> RandomTableLookup
    \<Rightarrow> RandomTableLookup \<times> RandomTableLookup list" where
  "rtl_deal A info [] orig = (orig, [])"
| "rtl_deal A info ((r, bs) # draws) orig =
     (let share = \<lparr>rtl_r = r, rtl_u = map (\<lambda>b. b AND 0x01) bs\<rparr>;
          orig' = \<lparr>rtl_r = modSub A (rtl_r orig) r (r_modulus info),
                   rtl_u = map2 (\<lambda>o' b. o' XOR (b AND 0x01)) (rtl_u orig) bs\<rparr>;
          (final, shares) = rtl_deal A info draws orig'
      in (final, share # shares))"

definition rtl_generate :: "ff_arith \<Rightarrow> RandomTableLookupInfo \<Rightarrow> u32 \<Rightarrow> (LargeNum \<times> u8 list) list
    \<Rightarrow> RandomTableLookup list" where
  "rtl_generate A info original_r_small draws =
     (let (orig, shares) = rtl_deal A info draws (rtl_orig info original_r_small) in orig # shares)"

lemma rtl_deal_r:
  "rtl_deal A info draws orig = (final, shares) \<Longrightarrow>
   rtl_r final = fold (\<lambda>d x. modSub A x d (r_modulus info)) (map fst draws) (rtl_r orig)
   \<and> map rtl_r shares = map fst draws"
  by (induction draws arbitrary: orig final shares) (auto simp: Let_def split: prod.splits)

lemma rtl_deal_u:
  "list_all (\<lambda>(r, bs). length bs = n) draws \<Longrightarrow> length (rtl_u orig) = n \<Longrightarrow>
   rtl_deal A info draws orig = (final, shares) \<Longrightarrow>
   length (rtl_u final) = n \<and> list_all (\<lambda>s. length (rtl_u s) = n) shares \<and> (\<forall>j<n.
     rtl_u final ! j = fold (\<lambda>d x. x XOR d) (map (\<lambda>(r, bs). bs ! j AND 1) draws) (rtl_u orig ! j)
     \<and> map (\<lambda>s. rtl_u s ! j) shares = map (\<lambda>(r, bs). bs ! j AND 1) draws)"
proof (induction draws arbitrary: orig final shares)
  case (Cons d draws)
  obtain r bs where d: "d = (r, bs)" by (cases d)
  let ?o = "\<lparr>rtl_r = modSub A (rtl_r orig) r (r_modulus info),
     rtl_u = map2 (\<lambda>o' b. o' XOR (b AND 0x01)) (rtl_u orig) bs\<rparr>"
  obtain ss where ss: "rtl_deal A info draws ?o = (final, ss)"
    "shares = \<lparr>rtl_r = r, rtl_u = map (\<lambda>b. b AND 0x01) bs\<rparr> # ss"
    using Cons.prems(3) by (auto simp: d Let_def split: prod.splits)
  have lens: "length bs = n" "list_all (\<lambda>(r, bs). length bs = n) draws" "length (rtl_u ?o) = n"
    using Cons.prems(1,2) by (simp_all add: d)
  from Cons.IH [OF lens(2,3) ss(1)] lens(1) Cons.prems(2) show ?case
    by (simp add: ss(2) d)
qed simp

lemma unit_bits: "(b AND 1) \<in> {0, 1}" for b :: u8
  by (simp add: and_one_eq) (metis mod2_eq_if one_mod_two_eq_one)

lemma xor_bits: "a \<in> {0, 1} \<Longrightarrow> b \<in> {0, 1} \<Longrightarrow> a XOR b \<in> {0, 1}" for a b :: u8
  by auto

lemma fold_xor_bits:
  "list_all (\<lambda>d. d \<in> {0, 1}) ds \<Longrightarrow> x \<in> {0, 1} \<Longrightarrow> fold (\<lambda>d x. x XOR d) ds x \<in> {0, 1 :: u8}"
  by (induction ds arbitrary: x) (simp_all add: xor_bits del: insert_iff)

text \<open>The message codec; \<open>msg_read\<close> overwrites the result of its first read with that of the
  second.\<close>

fun read_bools :: "ff_msg \<Rightarrow> u8 list \<Rightarrow> bool \<Rightarrow> bytes \<Rightarrow> bool \<times> u8 list \<times> bytes" where
  "read_bools M [] success buf = (success, [], buf)"
| "read_bools M (b # bs) success buf =
     (let (ok, b', buf') = try_read (rd8 M) b buf;
          (success', bs', buf'') = read_bools M bs (success \<and> ok) buf'
      in (success', b' # bs', buf''))"

definition vec_resize :: "nat \<Rightarrow> 'a \<Rightarrow> 'a list \<Rightarrow> 'a list" where
  "vec_resize n x xs = take n xs @ replicate (n - length xs) x"

definition read_RandomTableLookup ::
  "ff_msg \<Rightarrow> RandomTableLookup \<Rightarrow> bytes \<Rightarrow> bool \<times> RandomTableLookup \<times> bytes" where
  "read_RandomTableLookup M input buf =
     (let (success, r, buf) = try_read (rdLarge M) (rtl_r input) buf;
          (success, local_table_size, buf) = try_read (rd64 M) 0 buf;
          (success, u, buf) =
            read_bools M (vec_resize (unat local_table_size) 0 (rtl_u input)) success buf
      in (success, \<lparr>rtl_r = r, rtl_u = u\<rparr>, buf))"

definition write_RandomTableLookup :: "ff_msg \<Rightarrow> RandomTableLookup \<Rightarrow> bytes" where
  "write_RandomTableLookup M input =
     wrLarge M (rtl_r input) @ wr64 M (of_nat (length (rtl_u input))) @
     concat (map (wr8 M) (rtl_u input))"

definition read_RandomTableLookupInfo ::
  "ff_msg \<Rightarrow> RandomTableLookupInfo \<Rightarrow> bytes \<Rightarrow> bool \<times> RandomTableLookupInfo \<times> bytes" where
  "read_RandomTableLookupInfo M input buf =
     (let (s1, m, buf) = try_read (rdLarge M) (r_modulus input) buf;
          (s2, t, buf) = try_read (rd32 M) (table_size input) buf
      in (s1 \<and> s2, \<lparr>r_modulus = m, table_size = t\<rparr>, buf))"

definition write_RandomTableLookupInfo :: "ff_msg \<Rightarrow> RandomTableLookupInfo \<Rightarrow> bytes" where
  "write_RandomTableLookupInfo M input = wrLarge M (r_modulus input) @ wr32 M (table_size input)"

context ff_messages begin

lemma read_bools_write:
  "length old = length bs \<Longrightarrow>
   read_bools M old success (concat (map (wr8 M) bs) @ rest) = (success, bs, rest)"
  by (induction bs arbitrary: old success)
    (auto simp: length_Suc_conv try_read_def m8.rd_wr)

lemma read_write_RandomTableLookup:
  assumes "length (rtl_u x) < 2 ^ 64"
  shows "read_RandomTableLookup M old (write_RandomTableLookup M x @ rest) = (True, x, rest)"
proof -
  have "unat (of_nat (length (rtl_u x)) :: u64) = length (rtl_u x)"
    using assms by (simp add: unat_of_nat take_bit_nat_eq_self)
  moreover have "length (vec_resize n (0 :: u8) xs) = n" for n xs
    by (simp add: vec_resize_def)
  ultimately show ?thesis
    by (simp add: read_RandomTableLookup_def write_RandomTableLookup_def try_read_def Let_def
        mLarge.rd_wr m64.rd_wr read_bools_write)
qed

lemma read_write_RandomTableLookupInfo:
  "read_RandomTableLookupInfo M old (write_RandomTableLookupInfo M x @ rest) = (True, x, rest)"
  by (simp add: read_RandomTableLookupInfo_def write_RandomTableLookupInfo_def try_read_def
      mLarge.rd_wr m32.rd_wr)

end

subsection \<open>Random square matrices\<close>

text \<open>A matrix is the list of its rows; the determinant and the inverse modulo the field
  characteristic are library functions.\<close>

record RandomSquareMatrix =
  mat_values :: "LargeNum list list"
  det_of_inverse :: LargeNum

record RandomSquareMatrixInfo =
  mat_d :: nat
  field_characteristic :: LargeNum

definition rsm_subtract :: "LargeNum \<Rightarrow> LargeNum \<Rightarrow> LargeNum \<Rightarrow> LargeNum" where
  "rsm_subtract p x d = (x + (p - d)) mod p"

fun rsm_deal :: "LargeNum \<Rightarrow> RandomSquareMatrix list \<Rightarrow> RandomSquareMatrix \<Rightarrow> RandomSquareMatrix" where
  "rsm_deal p [] orig = orig"
| "rsm_deal p (share # shares) orig =
     rsm_deal p shares
       \<lparr>mat_values = map2 (map2 (rsm_subtract p)) (mat_values orig) (mat_values share),
        det_of_inverse = rsm_subtract p (det_of_inverse orig) (det_of_inverse share)\<rparr>"

definition rsm_generate ::
  "(LargeNum list list \<Rightarrow> LargeNum \<Rightarrow> LargeNum) \<Rightarrow> (LargeNum \<Rightarrow> LargeNum \<Rightarrow> LargeNum)
    \<Rightarrow> RandomSquareMatrixInfo \<Rightarrow> LargeNum list list \<Rightarrow> RandomSquareMatrix list \<Rightarrow> RandomSquareMatrix list" where
  "rsm_generate Det modInvert info original shares =
     (let p = field_characteristic info;
          det = Det original p;
          orig = \<lparr>mat_values = original, det_of_inverse = modInvert det p\<rparr>
      in rsm_deal p shares orig # shares)"

definition is_square :: "nat \<Rightarrow> 'a list list \<Rightarrow> bool" where
  "is_square d rows \<longleftrightarrow> length rows = d \<and> list_all (\<lambda>row. length row = d) rows"

lemma square_map2: "is_square d A \<Longrightarrow> is_square d B \<Longrightarrow> is_square d (map2 (map2 f) A B)"
  by (auto simp: is_square_def list_all_length)

lemma nth_square_map2:
  "is_square d A \<Longrightarrow> is_square d B \<Longrightarrow> i < d \<Longrightarrow> j < d \<Longrightarrow> map2 (map2 f) A B ! i ! j = f (A ! i ! j) (B ! i ! j)"
  by (simp add: is_square_def list_all_length)

lemma rsm_deal_fold:
  "is_square d (mat_values orig) \<Longrightarrow> list_all (\<lambda>s. is_square d (mat_values s)) shares \<Longrightarrow>
   det_of_inverse (rsm_deal p shares orig)
     = fold (\<lambda>s x. rsm_subtract p x s) (map det_of_inverse shares) (det_of_inverse orig)
   \<and> is_square d (mat_values (rsm_deal p shares orig))
   \<and> (\<forall>i<d. \<forall>j<d. mat_values (rsm_deal p shares orig) ! i ! j
     = fold (\<lambda>s x. rsm_subtract p x s) (map (\<lambda>s. mat_values s ! i ! j) shares) (mat_values orig ! i ! j))"
proof (induction shares arbitrary: orig)
  case (Cons share shares)
  let ?o = "\<lparr>mat_values = map2 (map2 (rsm_subtract p)) (mat_values orig) (mat_values share),
        det_of_inverse = rsm_subtract p (det_of_inverse orig) (det_of_inverse share)\<rparr>"
  have sq: "is_square d (mat_values orig)" "is_square d (mat_values share)"
    "list_all (\<lambda>s. is_square d (mat_values s)) shares" using Cons.prems by simp_all
  have "is_square d (mat_values ?o)" using square_map2 [OF sq(1,2)] by simp
  from Cons.IH [OF this sq(3)] show ?case
    by (simp add: nth_square_map2 [OF sq(1,2)])
qed simp

sublocale ff_modulus \<subseteq> rsm_share: sharing "\<lambda>x. x < m" "open_mod m" "\<lambda>x y. (x + y) mod m"
  "rsm_subtract m"
proof
  fix x d :: nat assume xd: "x < m" "d < m"
  show "rsm_subtract m x d < m" using pos by (simp add: rsm_subtract_def)
  show "(rsm_subtract m x d + d) mod m = x" unfolding rsm_subtract_def by (rule mod_sub_add [OF xd])
qed (simp_all add: open_mod_def mod_simps ac_simps)

context ff_modulus begin

lemma rsm_deal_open:
  "x < m \<Longrightarrow> list_all (\<lambda>d. d < m) ds \<Longrightarrow> open_mod m (fold (\<lambda>d x. rsm_subtract m x d) ds x # ds) = x"
  by (rule rsm_share.deal_open)

end

subsection \<open>Properties\<close>

text \<open>
  A dataowner that shares its number sends one share to every other dataowner and keeps one;
  together they open to the number, for every modulus up to \<open>2 ^ 31\<close> (above it the 32-bit sum in
  the loop may wrap) and whatever was drawn. A party that is not the sharer keeps what it receives.
\<close>

theorem share_small_opens:
  assumes "identity_eq (sharer st) self" and "unat (modulus st) \<le> 2 ^ 31"
    and "\<And>j. rand j < modulus st" and "myShare st < modulus st"
    and "Share_small_init self peers rand st = (st', es)"
  shows "map fst (sends es) = others_of self peers
    \<and> open_mod (unat (modulus st)) (unat (myShare st') # map (\<lambda>(p, d). unat d) (sends es)) = unat (myShare st)
    \<and> last es = Complete"
proof -
  obtain s fs where loop: "share_small_loop self (modulus st) rand 0 (forEachDataowner peers) (myShare st) = (s, fs)"
    by fastforce
  then have st': "st' = st\<lparr>myShare := s\<rparr>" "es = fs @ [Complete]"
    using assms(1,5) by (auto simp: Share_small_init_def)
  from share_small_loop_open [OF assms(2,3,4) loop] show ?thesis
    by (simp add: st' others_of_def)
qed

theorem share_small_opens_witness:
  "\<exists>st' es. Share_small_init \<lparr>orgId = [1], role = ROLE_DATAOWNER, vertical = 0\<rparr>
      (PeerSet_empty\<lparr>dataowners := [[\<lparr>orgId = [1], role = ROLE_DATAOWNER, vertical = 0\<rparr>,
         \<lparr>orgId = [2], role = ROLE_DATAOWNER, vertical = 0\<rparr>]]\<rparr>)
      (\<lambda>_. 6) \<lparr>myShare = 5, modulus = 7, sharer = \<lparr>orgId = [1], role = ROLE_DATAOWNER, vertical = 0\<rparr>\<rparr>
      = (st', es) \<and> length (sends es) = 1 \<and> last es = Complete"
proof -
  let ?self = "\<lparr>orgId = [1], role = ROLE_DATAOWNER, vertical = 0\<rparr> :: Identity"
  let ?peers = "PeerSet_empty\<lparr>dataowners := [[?self, \<lparr>orgId = [2], role = ROLE_DATAOWNER, vertical = 0\<rparr>]]\<rparr>"
  let ?st = "\<lparr>myShare = 5, modulus = 7, sharer = ?self\<rparr>"
  obtain st' es where run: "Share_small_init ?self ?peers (\<lambda>_. 6) ?st = (st', es)" by fastforce
  have "map fst (sends es) = others_of ?self ?peers \<and>
      open_mod (unat (modulus ?st)) (unat (myShare st') # map (\<lambda>(p, d). unat d) (sends es)) = unat (myShare ?st)
      \<and> last es = Complete"
    by (rule share_small_opens [OF _ _ _ _ run]) (simp_all add: identity_eq_def)
  moreover from this have "length (sends es) = length (others_of ?self ?peers)" by (metis length_map)
  moreover have "others_of ?self ?peers = [\<lparr>orgId = [2], role = ROLE_DATAOWNER, vertical = 0\<rparr>]"
    by (simp add: others_of_def forEachDataowner_def PeerSet_empty_def identity_eq_def)
  ultimately show ?thesis using run by auto
qed

lemma rtl_deal_columns:
  assumes deal: "rtl_deal A info draws (rtl_orig info r0) = (final, shares)"
    and "list_all (\<lambda>(r, bs). length bs = unat (table_size info)) draws" "r0 < table_size info"
  shows "length (rtl_u final) = unat (table_size info)"
    and "list_all (\<lambda>s. length (rtl_u s) = unat (table_size info)) shares"
    and "j < unat (table_size info) \<Longrightarrow>
      open_xor (map (\<lambda>s. rtl_u s ! j) (final # shares)) = (if j = unat r0 then 1 else 0)"
    and "j < unat (table_size info) \<Longrightarrow> list_all (\<lambda>s. rtl_u s ! j \<in> {0, 1}) (final # shares)"
proof -
  let ?T = "unat (table_size info)"
  have "length (rtl_u (rtl_orig info r0)) = ?T" by (simp add: rtl_orig_def)
  from rtl_deal_u [OF assms(2) this deal]
  have *: "length (rtl_u final) = ?T \<and> list_all (\<lambda>s. length (rtl_u s) = ?T) shares \<and> (\<forall>j<?T.
        rtl_u final ! j = fold (\<lambda>d x. x XOR d) (map (\<lambda>(r, bs). bs ! j AND 1) draws) (rtl_u (rtl_orig info r0) ! j)
        \<and> map (\<lambda>s. rtl_u s ! j) shares = map (\<lambda>(r, bs). bs ! j AND 1) draws)" .
  then show "length (rtl_u final) = ?T" "list_all (\<lambda>s. length (rtl_u s) = ?T) shares" by blast+
  let ?ds = "map (\<lambda>(r, bs). bs ! j AND 1) draws" and ?x = "rtl_u (rtl_orig info r0) ! j"
  have ds: "list_all (\<lambda>d. d \<in> {0, 1}) ?ds"
    by (simp only: list.pred_map comp_def case_prod_beta) (simp only: unit_bits list.pred_True)
  assume j: "j < ?T"
  have x: "?x = (if j = unat r0 then 1 else 0)"
    using assms(3) j by (simp add: rtl_orig_def nth_list_update word_less_nat_alt)
  have col: "rtl_u final ! j = fold (\<lambda>d x. x XOR d) ?ds ?x" "map (\<lambda>s. rtl_u s ! j) shares = ?ds"
    using * j by blast+
  have "open_xor (fold (\<lambda>d x. x XOR d) ?ds ?x # ?ds) = ?x"
    by (rule xor_share.deal_open) (simp_all add: list_all_iff)
  then show "open_xor (map (\<lambda>s. rtl_u s ! j) (final # shares)) = (if j = unat r0 then 1 else 0)"
    using col x by simp
  have "rtl_u final ! j \<in> {0, 1}"
    using col(1) fold_xor_bits [OF ds, of ?x] x by (simp only:) simp
  moreover have "list_all (\<lambda>d. d \<in> {0, 1}) (map (\<lambda>s. rtl_u s ! j) shares)"
    using ds col(2) by (simp only:)
  then have "list_all (\<lambda>s. rtl_u s ! j \<in> {0, 1}) shares"
    by (simp only: list.pred_map comp_def)
  ultimately show "list_all (\<lambda>s. rtl_u s ! j \<in> {0, 1}) (final # shares)" by simp
qed

text \<open>
  C9: The table-lookup randomness the dealer generates opens to what the lookup needs: the location
  shares sum to the drawn position, the vectors of bits xor to the unit vector with its one at that
  position, and every entry handed out is a bit, whatever bytes the generator drew.
\<close>

theorem rtl_generate_opens:
  assumes "ff_arith_ok A" and "unat (table_size info) \<le> r_modulus info" and "r0 < table_size info"
    and "list_all (\<lambda>(r, bs). r < r_modulus info \<and> length bs = unat (table_size info)) draws"
  defines "vals \<equiv> rtl_generate A info r0 draws"
  shows "length vals = Suc (length draws)
    \<and> open_mod (r_modulus info) (map rtl_r vals) = unat r0
    \<and> list_all (\<lambda>s. length (rtl_u s) = unat (table_size info)) vals
    \<and> (\<forall>j < unat (table_size info). open_xor (map (\<lambda>s. rtl_u s ! j) vals) = (if j = unat r0 then 1 else 0)
        \<and> list_all (\<lambda>s. rtl_u s ! j \<in> {0, 1}) vals)"
proof -
  let ?m = "r_modulus info" and ?T = "unat (table_size info)"
  have r0: "unat r0 < ?T" using assms(3) by (simp add: word_less_nat_alt)
  obtain final shares where deal: "rtl_deal A info draws (rtl_orig info r0) = (final, shares)" by fastforce
  then have vals: "vals = final # shares" by (simp add: vals_def rtl_generate_def)
  have ffm: "ff_modulus A ?m" using assms(1,2) r0 by unfold_locales linarith+
  have r: "rtl_r final = fold (\<lambda>d x. modSub A x d ?m) (map fst draws) (unat r0)" "map rtl_r shares = map fst draws"
    using rtl_deal_r [OF deal] by (simp_all add: rtl_orig_def)
  have "open_mod ?m (map rtl_r vals) = unat r0"
  proof -
    have "unat r0 < ?m" using assms(2) r0 by linarith
    moreover have "list_all (\<lambda>d. d < ?m) (map fst draws)"
      using assms(4) by (auto simp: list_all_iff)
    ultimately show ?thesis unfolding vals list.map r by (rule ff_modulus.mod_deal_open [OF ffm])
  qed
  moreover have "length vals = Suc (length draws)"
    using arg_cong [OF r(2), of length] by (simp add: vals)
  moreover have "list_all (\<lambda>(r, bs). length bs = ?T) draws"
    by (rule list.pred_mono_strong [OF assms(4)]) auto
  note columns = rtl_deal_columns [OF deal this assms(3)]
  have "list_all (\<lambda>s. length (rtl_u s) = ?T) vals" using columns(1,2) unfolding vals by simp
  ultimately show ?thesis using columns(3,4) unfolding vals by blast
qed

theorem rtl_generate_opens_witness:
  "open_mod 7 (map rtl_r (rtl_generate nat_arith \<lparr>r_modulus = 7, table_size = 3\<rparr> 1 [(5, [0x2b, 4, 1])])) = 1"
  using rtl_generate_opens [of nat_arith "\<lparr>r_modulus = 7, table_size = 3\<rparr>" 1 "[(5, [0x2b, 4, 1])]"]
  by (simp add: nat_arith_ok)

text \<open>
  C10: The shares of a random matrix the dealer generates sum, entry by entry and modulo the field
  characteristic, to the drawn matrix, and the shares of the last field to the inverse of its
  determinant.
\<close>

theorem rsm_generate_opens:
  assumes "0 < field_characteristic info" and "is_square (mat_d info) original"
    and "list_all (list_all (\<lambda>x. x < field_characteristic info)) original"
    and "modInvert (Det original (field_characteristic info)) (field_characteristic info) < field_characteristic info"
    and "list_all (\<lambda>s. is_square (mat_d info) (mat_values s) \<and> det_of_inverse s < field_characteristic info
           \<and> list_all (list_all (\<lambda>x. x < field_characteristic info)) (mat_values s)) shares"
  defines "vals \<equiv> rsm_generate Det modInvert info original shares" and "p \<equiv> field_characteristic info"
  shows "open_mod p (map det_of_inverse vals) = modInvert (Det original p) p
    \<and> (\<forall>i < mat_d info. \<forall>j < mat_d info. open_mod p (map (\<lambda>s. mat_values s ! i ! j) vals) = original ! i ! j)"
proof -
  have ffm: "ff_modulus nat_arith p"
    using assms(1) by unfold_locales (simp_all add: nat_arith_ok p_def)
  let ?orig = "\<lparr>mat_values = original, det_of_inverse = modInvert (Det original p) p\<rparr>"
  have vals: "vals = rsm_deal p shares ?orig # shares"
    by (simp add: vals_def rsm_generate_def p_def Let_def)
  have deal: "det_of_inverse (rsm_deal p shares ?orig)
      = fold (\<lambda>s x. rsm_subtract p x s) (map det_of_inverse shares) (modInvert (Det original p) p)"
    "\<And>i j. i < mat_d info \<Longrightarrow> j < mat_d info \<Longrightarrow> mat_values (rsm_deal p shares ?orig) ! i ! j
      = fold (\<lambda>s x. rsm_subtract p x s) (map (\<lambda>s. mat_values s ! i ! j) shares) (original ! i ! j)"
    using rsm_deal_fold [of "mat_d info" ?orig shares p] assms(2,5) by (simp_all add: list_all_iff)
  have "open_mod p (map det_of_inverse vals) = modInvert (Det original p) p"
    unfolding vals list.map deal using assms(4,5)
    by (intro ff_modulus.rsm_deal_open [OF ffm]) (simp_all add: p_def list_all_iff)
  moreover have "open_mod p (map (\<lambda>s. mat_values s ! i ! j) vals) = original ! i ! j"
    if ij: "i < mat_d info" "j < mat_d info" for i j
  proof -
    have "original ! i ! j < p" "list_all (\<lambda>x. x < p) (map (\<lambda>s. mat_values s ! i ! j) shares)"
      using assms(2,3,5) ij by (simp_all add: p_def list_all_length is_square_def)
    then show ?thesis
      unfolding vals list.map deal(2) [OF ij] by (rule ff_modulus.rsm_deal_open [OF ffm])
  qed
  ultimately show ?thesis by blast
qed

theorem rsm_generate_opens_witness:
  "open_mod 5 (map det_of_inverse (rsm_generate (\<lambda>M p. M ! 0 ! 0) (\<lambda>x p. x ^ 3 mod p)
     \<lparr>mat_d = 1, field_characteristic = 5\<rparr> [[3]] [\<lparr>mat_values = [[4]], det_of_inverse = 1\<rparr>])) = 2"
  using rsm_generate_opens [of "\<lparr>mat_d = 1, field_characteristic = 5\<rparr>" "[[3]]" "\<lambda>x p. x ^ 3 mod p"
      "\<lambda>M p. M ! 0 ! 0" "[\<lparr>mat_values = [[4]], det_of_inverse = 1\<rparr>]"]
  by (simp add: is_square_def)

end
