(* ===== verification/Lookup.thy ===== *)
theory Lookup
  imports Sharing
begin

text \<open>
  \<open>dataowner/Lookup.cpp\<close>: the oblivious lookup of a public table at a secret-shared location.
  The sub-protocols Compare and TypeCastFromBit belong to the Fortissimo library: their outputs are
  inputs of the handlers. The main theorem runs the handlers of all parties: whatever the order in
  which the index shares reach the revealer, the outputs xor to the row at the shared location.
\<close>

subsection \<open>State and handlers\<close>

datatype lookup_state = awaitingCompare | awaitingTypeCastFromBit

record Lookup =
  lk_state :: lookup_state
  locationShare :: LargeNum
  output_shares :: "u8 list"
  tableData :: "u8 list list"
  lk_info :: RandomTableLookupInfo
  tableValueByteLength :: nat
  revealer :: Identity
  randomTable :: RandomTableLookup
  revealedValue :: LargeNum
  numPartiesAwaiting :: nat

datatype lookup_call =
    CallCompare LargeNum LargeNum
  | CallTypeCastFromBit u8 LargeNum Identity

text \<open>The output field of the completed sub-protocol, which the state selects by a cast.\<close>

record lookup_result =
  outputShare :: u8
  outputBitShare :: LargeNum

definition Lookup_new :: "LargeNum \<Rightarrow> u8 list \<Rightarrow> u8 list list \<Rightarrow> RandomTableLookup \<Rightarrow> RandomTableLookupInfo
    \<Rightarrow> nat \<Rightarrow> Identity \<Rightarrow> Lookup" where
  "Lookup_new loc out table rnd info len rvl =
     \<lparr>lk_state = awaitingCompare, locationShare = loc, output_shares = out, tableData = table,
      lk_info = info, tableValueByteLength = len, revealer = rvl, randomTable = rnd,
      revealedValue = 0, numPartiesAwaiting = 0\<rparr>"

definition Lookup_init :: "ff_arith \<Rightarrow> Lookup \<Rightarrow> (Lookup, lookup_call, LargeNum) handler_result" where
  "Lookup_init A st =
     (st, [Invoke (CallCompare 0
        (modSub A (locationShare st) (rtl_r (randomTable st)) (r_modulus (lk_info st))))])"

definition xor_row :: "nat \<Rightarrow> u8 list \<Rightarrow> u8 list \<Rightarrow> u8 list" where
  "xor_row len row out = map (\<lambda>j. out ! j XOR row ! j) [0..<len]"

definition computeFinalShare :: "Lookup \<Rightarrow> (Lookup, lookup_call, LargeNum) handler_result" where
  "computeFinalShare st =
     (let downsized = of_nat (revealedValue st) :: u64;
          len = tableValueByteLength st;
          out = fold
            (\<lambda>i out. if rtl_u (randomTable st) ! i = 0x01
               then xor_row len
                 (tableData st ! unat ((downsized + of_nat i) mod ucast (table_size (lk_info st)))) out
               else out)
            [0..<length (rtl_u (randomTable st))] (vec_resize len 0 (output_shares st))
      in (st\<lparr>output_shares := out\<rparr>, [Complete]))"

definition sendIndexShare ::
  "Identity \<Rightarrow> PeerSet \<Rightarrow> LargeNum \<Rightarrow> Lookup \<Rightarrow> (Lookup, lookup_call, LargeNum) handler_result" where
  "sendIndexShare self peers val st =
     (if identity_ne self (revealer st) then
        (st\<lparr>numPartiesAwaiting := 0\<rparr>,
         map (\<lambda>other. Send other val)
           (filter (\<lambda>other. identity_eq other (revealer st)) (forEachDataowner peers)))
      else
        (st\<lparr>numPartiesAwaiting := numPartiesAwaiting st +
              length (filter (\<lambda>other. identity_ne other self) (forEachDataowner peers)),
            revealedValue := val\<rparr>, []))"

definition Lookup_handleReceive ::
  "PeerSet \<Rightarrow> LargeNum \<Rightarrow> Lookup \<Rightarrow> (Lookup, lookup_call, LargeNum) handler_result" where
  "Lookup_handleReceive peers msg st =
     (if numPartiesAwaiting st = 0 then computeFinalShare (st\<lparr>revealedValue := msg\<rparr>)
      else
        let st = st\<lparr>revealedValue := (revealedValue st + msg) mod r_modulus (lk_info st),
                    numPartiesAwaiting := numPartiesAwaiting st - 1\<rparr>
        in if numPartiesAwaiting st = 0 then
             let es = map (\<lambda>other. Send other (revealedValue st))
                        (filter (\<lambda>other. identity_ne other (revealer st)) (forEachDataowner peers));
                 (st', es') = computeFinalShare st
             in (st', es @ es')
           else (st, []))"

definition index_share :: "LargeNum \<Rightarrow> Lookup \<Rightarrow> LargeNum" where
  "index_share b st =
     ((r_modulus (lk_info st) + locationShare st - rtl_r (randomTable st)) +
      b * unat (table_size (lk_info st))) mod r_modulus (lk_info st)"

definition Lookup_handleComplete ::
  "Identity \<Rightarrow> PeerSet \<Rightarrow> lookup_result \<Rightarrow> Lookup \<Rightarrow> (Lookup, lookup_call, LargeNum) handler_result" where
  "Lookup_handleComplete self peers f st =
     (case lk_state st of
        awaitingCompare \<Rightarrow>
          (st\<lparr>lk_state := awaitingTypeCastFromBit\<rparr>,
           [Invoke (CallTypeCastFromBit (outputShare f) (r_modulus (lk_info st)) (revealer st))])
      | awaitingTypeCastFromBit \<Rightarrow>
          sendIndexShare self peers (index_share (outputBitShare f) st) st)"

subsection \<open>A run of the last phase\<close>

text \<open>
  All parties have the outputs of TypeCastFromBit. The revealer completes its sub-protocol first,
  the messages of the others reach it in the order of the list, its answer reaches each of them.
\<close>

fun receive_all :: "PeerSet \<Rightarrow> LargeNum list \<Rightarrow> Lookup \<Rightarrow> (Lookup, lookup_call, LargeNum) handler_result" where
  "receive_all peers [] st = (st, [])"
| "receive_all peers (v # vs) st =
     (let (st1, es1) = Lookup_handleReceive peers v st; (st2, es2) = receive_all peers vs st1
      in (st2, es1 @ es2))"

definition lookup_run ::
  "PeerSet \<Rightarrow> Identity \<times> Lookup \<times> lookup_result \<Rightarrow> (Identity \<times> Lookup \<times> lookup_result) list \<Rightarrow> u8 list list" where
  "lookup_run peers rvl others =
     (let (rid, rst, rres) = rvl;
          (rst1, _) = Lookup_handleComplete rid peers rres rst;
          started = map (\<lambda>(oid, ost, ores). (oid, Lookup_handleComplete oid peers ores ost)) others;
          msgs = concat (map (\<lambda>(oid, ost, es). map snd (sends es)) started);
          (rst2, answers) = receive_all peers msgs rst1;
          finished = map (\<lambda>(oid, ost, es). fst (receive_all peers
             (map snd (filter (\<lambda>(p, v). identity_eq p oid) (sends answers))) ost)) started
      in output_shares rst2 # map output_shares finished)"

subsection \<open>Sums of exclusive ors\<close>

lemma open_xor_Nil [simp]: "open_xor [] = 0" and open_xor_Cons [simp]: "open_xor (x # xs) = x XOR open_xor xs"
  by (simp_all add: open_xor_def)

lemma open_xor_append [simp]: "open_xor (xs @ ys) = open_xor xs XOR open_xor ys"
  by (induction xs) (simp_all add: xor.assoc)

lemma open_xor_zero: "(\<And>x. x \<in> set xs \<Longrightarrow> f x = 0) \<Longrightarrow> open_xor (map f xs) = 0"
  by (induction xs) simp_all

lemma open_xor_map_xor: "open_xor (map (\<lambda>x. f x XOR g x) xs) = open_xor (map f xs) XOR open_xor (map g xs)"
  by (induction xs) (simp_all add: xor.assoc xor.left_commute)

lemma open_xor_swap:
  "open_xor (map (\<lambda>k. open_xor (map (f k) js)) ks) = open_xor (map (\<lambda>j. open_xor (map (\<lambda>k. f k j) ks)) js)"
proof (induction ks)
  case Nil
  then show ?case by (simp add: open_xor_zero)
next
  case (Cons k ks)
  then show ?case by (simp add: open_xor_map_xor)
qed

lemma open_xor_select:
  "list_all (\<lambda>k. b k \<in> {0, 1 :: u8}) ks \<Longrightarrow>
   open_xor (map (\<lambda>k. if b k = 1 then x else 0) ks) = (if open_xor (map b ks) = 1 then x else 0)
   \<and> open_xor (map b ks) \<in> {0, 1}"
  by (induction ks) (auto simp: xor.assoc)

lemma open_xor_single:
  "distinct xs \<Longrightarrow> r \<in> set xs \<Longrightarrow> open_xor (map (\<lambda>i. if i = r then f i else 0) xs) = f r"
proof (induction xs)
  case (Cons x xs)
  show ?case
  proof (cases "x = r")
    case True
    then have "open_xor (map (\<lambda>i. if i = r then f i else 0) xs) = 0"
      using Cons.prems by (intro open_xor_zero) auto
    with True show ?thesis by simp
  qed (use Cons in auto)
qed simp

subsection \<open>The final share of a party\<close>

lemma length_xor_row [simp]: "length (xor_row len row out) = len"
  by (simp add: xor_row_def)

definition table_entry :: "Lookup \<Rightarrow> LargeNum \<Rightarrow> nat \<Rightarrow> nat \<Rightarrow> u8" where
  "table_entry st v i j = tableData st ! ((v + i) mod unat (table_size (lk_info st))) ! j"

lemma lookup_index:
  assumes "v < unat T" "i < unat (T :: u32)"
  shows "unat ((of_nat v + of_nat i :: u64) mod ucast T) = (v + i) mod unat T"
proof -
  have "unat T < 2 ^ LENGTH(32)" by (rule unsigned_less)
  then have T: "unat T < 2 ^ 32" by simp
  have "(of_nat v + of_nat i :: u64) = of_nat (v + i)" by simp
  moreover have "unat (of_nat (v + i) :: u64) = v + i"
    using assms T by (simp add: unat_of_nat take_bit_nat_eq_self del: of_nat_add)
  moreover have "unat (ucast T :: u64) = unat T"
    using T by (simp add: unsigned_ucast_eq unsigned_take_bit_eq take_bit_nat_eq_self)
  ultimately show ?thesis by (simp only: unat_mod_distrib)
qed

lemma computeFinalShare_output:
  assumes "revealedValue st = v" "output_shares st = []" "v < unat (table_size (lk_info st))"
    and "length (rtl_u (randomTable st)) = unat (table_size (lk_info st))"
  shows "length (output_shares (fst (computeFinalShare st))) = tableValueByteLength st"
    and "j < tableValueByteLength st \<Longrightarrow> output_shares (fst (computeFinalShare st)) ! j =
      open_xor (map (\<lambda>i. if rtl_u (randomTable st) ! i = 1 then table_entry st v i j else 0)
        [0..<unat (table_size (lk_info st))])"
proof -
  let ?T = "unat (table_size (lk_info st))" and ?len = "tableValueByteLength st"
  let ?step = "\<lambda>i out. if rtl_u (randomTable st) ! i = 0x01 then xor_row ?len
       (tableData st ! unat ((of_nat v + of_nat i :: u64) mod ucast (table_size (lk_info st)))) out else out"
  have step: "k \<le> ?T \<Longrightarrow> length (fold ?step [0..<k] (replicate ?len 0)) = ?len \<and>
      (\<forall>j<?len. fold ?step [0..<k] (replicate ?len 0) ! j =
        open_xor (map (\<lambda>i. if rtl_u (randomTable st) ! i = 1 then table_entry st v i j else 0) [0..<k]))" for k
  proof (induction k)
    case (Suc k)
    have "unat ((of_nat v + of_nat k :: u64) mod ucast (table_size (lk_info st))) = (v + k) mod ?T"
      using Suc.prems by (intro lookup_index assms(3)) simp
    with Suc show ?case by (simp add: xor_row_def table_entry_def)
  qed simp
  have "output_shares (fst (computeFinalShare st)) = fold ?step [0..<?T] (replicate ?len 0)"
    using assms by (simp add: computeFinalShare_def Let_def vec_resize_def)
  then show "length (output_shares (fst (computeFinalShare st))) = ?len"
    and "j < ?len \<Longrightarrow> output_shares (fst (computeFinalShare st)) ! j =
      open_xor (map (\<lambda>i. if rtl_u (randomTable st) ! i = 1 then table_entry st v i j else 0) [0..<?T])"
    using step [of ?T] by simp_all
qed

subsection \<open>The messages of a run\<close>

lemma identity_eq_dataowner: "role a = ROLE_DATAOWNER \<Longrightarrow> identity_eq a b \<longleftrightarrow> a = b"
  by (cases a, cases b) (auto simp: identity_eq_def)

lemma filter_single: "distinct xs \<Longrightarrow> r \<in> set xs \<Longrightarrow> filter (\<lambda>x. x = r) xs = [r]"
  by (induction xs) (auto simp: filter_empty_conv)

definition members_ok :: "PeerSet \<Rightarrow> Identity \<Rightarrow> Identity list \<Rightarrow> bool" where
  "members_ok peers rid oids \<longleftrightarrow>
     list_all (\<lambda>p. role p = ROLE_DATAOWNER) (forEachDataowner peers) \<and>
     distinct (rid # oids) \<and> mset (rid # oids) = mset (forEachDataowner peers)"

lemma members_okD:
  assumes "members_ok peers rid oids"
  shows "filter (\<lambda>p. identity_eq p rid) (forEachDataowner peers) = [rid]"
    and "length (filter (\<lambda>p. identity_ne p rid) (forEachDataowner peers)) = length oids"
    and "oid \<in> set oids \<Longrightarrow> filter (\<lambda>p. identity_eq p oid)
           (filter (\<lambda>p. identity_ne p rid) (forEachDataowner peers)) = [oid]"
    and "oid \<in> set oids \<Longrightarrow> identity_ne oid rid"
proof -
  let ?ds = "forEachDataowner peers"
  have m: "mset ?ds = mset (rid # oids)" using assms by (simp add: members_ok_def)
  then have d: "distinct ?ds" "set ?ds = set (rid # oids)"
    using assms by (metis mset_eq_imp_distinct_iff members_ok_def, metis set_mset_mset)
  have eq: "p \<in> set ?ds \<Longrightarrow> identity_eq p q \<longleftrightarrow> p = q" for p q
    using assms by (simp add: members_ok_def list_all_iff identity_eq_dataowner)
  have f1: "filter (\<lambda>p. identity_eq p q) ?ds = filter (\<lambda>p. p = q) ?ds" for q
    by (rule filter_cong) (simp_all add: eq)
  have f2: "filter (\<lambda>p. identity_ne p rid) ?ds = filter (\<lambda>p. p \<noteq> rid) ?ds"
    by (rule filter_cong) (simp_all add: eq identity_ne_def)
  show "filter (\<lambda>p. identity_eq p rid) ?ds = [rid]"
    unfolding f1 using d by (intro filter_single) simp_all
  have nin: "rid \<notin> set oids" using assms by (simp add: members_ok_def)
  have "mset (filter (\<lambda>p. p \<noteq> rid) ?ds) = filter_mset (\<lambda>p. p \<noteq> rid) (mset (rid # oids))"
    by (simp add: m)
  also have "\<dots> = mset oids" using nin by (auto simp: filter_mset_eq_conv)
  finally show "length (filter (\<lambda>p. identity_ne p rid) ?ds) = length oids"
    unfolding f2 by (metis size_mset)
  assume oid: "oid \<in> set oids"
  then have "filter (\<lambda>p. identity_eq p oid) (filter (\<lambda>p. identity_ne p rid) ?ds)
      = filter (\<lambda>p. p = oid) ?ds"
    using nin unfolding f2 filter_filter by (intro filter_cong) (auto simp: eq)
  then show "filter (\<lambda>p. identity_eq p oid) (filter (\<lambda>p. identity_ne p rid) ?ds) = [oid]"
    using filter_single [OF d(1)] d(2) oid by simp
  show "identity_ne oid rid"
    using eq [of oid rid] oid d(2) nin by (auto simp: identity_ne_def)
qed

lemma other_starts:
  assumes "members_ok peers rid oids" "oid \<in> set oids"
    and "lk_state st = awaitingTypeCastFromBit" "revealer st = rid"
  shows "Lookup_handleComplete oid peers f st =
    (st\<lparr>numPartiesAwaiting := 0\<rparr>, [Send rid (index_share (outputBitShare f) st)])"
  using members_okD [OF assms(1)] assms(2-4)
  by (simp add: Lookup_handleComplete_def sendIndexShare_def)

lemma revealer_starts:
  assumes "members_ok peers rid oids" "lk_state st = awaitingTypeCastFromBit" "revealer st = rid"
    and "numPartiesAwaiting st = 0"
  shows "Lookup_handleComplete rid peers f st =
    (st\<lparr>numPartiesAwaiting := length oids, revealedValue := index_share (outputBitShare f) st\<rparr>, [])"
  using members_okD [OF assms(1)] assms(2-4)
  by (simp add: Lookup_handleComplete_def sendIndexShare_def identity_ne_def identity.eq_refl)

lemma revealer_receives:
  "vs \<noteq> [] \<Longrightarrow> numPartiesAwaiting st = length vs \<Longrightarrow>
   receive_all peers vs st =
     (let st' = st\<lparr>revealedValue := (revealedValue st + sum_list vs) mod r_modulus (lk_info st),
                   numPartiesAwaiting := 0\<rparr>
      in (fst (computeFinalShare st'),
          map (\<lambda>other. Send other (revealedValue st'))
            (filter (\<lambda>other. identity_ne other (revealer st)) (forEachDataowner peers)) @ [Complete]))"
proof (induction vs arbitrary: st)
  case (Cons v vs)
  have snd: "snd (computeFinalShare s) = [Complete]" for s
    by (simp add: computeFinalShare_def Let_def)
  show ?case
  proof (cases "vs = []")
    case True
    with Cons.prems show ?thesis
      by (simp add: Lookup_handleReceive_def Let_def snd split: prod.splits)
        (metis fst_conv snd snd_conv)
  next
    case False
    let ?st = "st\<lparr>revealedValue := (revealedValue st + v) mod r_modulus (lk_info st),
      numPartiesAwaiting := length vs\<rparr>"
    have "Lookup_handleReceive peers v st = (?st, [])"
      using Cons.prems(2) False by (simp add: Lookup_handleReceive_def Let_def)
    moreover have "((revealedValue st + v) mod r_modulus (lk_info st) + sum_list vs) mod r_modulus (lk_info st)
        = (revealedValue st + sum_list (v # vs)) mod r_modulus (lk_info st)"
      by (simp add: mod_add_left_eq add.assoc)
    ultimately show ?thesis using Cons.IH [OF False, of ?st] by (simp add: Let_def)
  qed
qed simp

subsection \<open>The opened index\<close>

lemma index_shares_sum:
  fixes m T :: nat
  assumes "list_all (\<lambda>(loc, r, c). r \<le> m) xs"
  shows "int (\<Sum>(loc, r, c)\<leftarrow>xs. ((m + loc - r) + c * T) mod m) mod int m
    = (int (\<Sum>(loc, r, c)\<leftarrow>xs. loc) - int (\<Sum>(loc, r, c)\<leftarrow>xs. r) + int (\<Sum>(loc, r, c)\<leftarrow>xs. c) * int T) mod int m"
  using assms
proof (induction xs)
  case (Cons x xs)
  obtain loc r c where x: "x = (loc, r, c)" by (cases x)
  have "int ((m + loc - r) + c * T) = (int loc - int r + int c * int T) + int m"
    using Cons.prems by (simp add: x of_nat_diff)
  then have "int (((m + loc - r) + c * T) mod m) mod int m = (int loc - int r + int c * int T) mod int m"
    by (simp only: zmod_int mod_mod_trivial mod_add_self2)
  moreover have "list_all (\<lambda>(loc, r, c). r \<le> m) xs" using Cons.prems by simp
  ultimately show ?case
    using mod_add_cong [OF _ Cons.IH] by (simp add: x algebra_simps)
qed simp

lemma opened_index:
  fixes m T :: nat
  assumes "list_all (\<lambda>(loc, r, c). r \<le> m) xs"
    and "open_mod m (map (\<lambda>(loc, r, c). loc) xs) = L" "open_mod m (map (\<lambda>(loc, r, c). r) xs) = R"
    and "open_mod m (map (\<lambda>(loc, r, c). c) xs) = (if L < R then 1 else 0)"
    and "L < T" "R < T" "T \<le> m"
  shows "(\<Sum>(loc, r, c)\<leftarrow>xs. ((m + loc - r) + c * T) mod m) mod m = (if L < R then L + T - R else L - R)"
proof -
  let ?V = "(\<Sum>(loc, r, c)\<leftarrow>xs. ((m + loc - r) + c * T) mod m) mod m"
  let ?b = "if L < R then 1 else 0 :: nat"
  have opens: "int (\<Sum>(loc, r, c)\<leftarrow>xs. loc) mod int m = int L" "int (\<Sum>(loc, r, c)\<leftarrow>xs. r) mod int m = int R"
    "int (\<Sum>(loc, r, c)\<leftarrow>xs. c) mod int m = int ?b"
    using assms(2-4) by (simp_all only: open_mod_def flip: zmod_int)
  have "int ?V = (int (\<Sum>(loc, r, c)\<leftarrow>xs. loc) - int (\<Sum>(loc, r, c)\<leftarrow>xs. r)
      + int (\<Sum>(loc, r, c)\<leftarrow>xs. c) * int T) mod int m"
    using index_shares_sum [OF assms(1), of T] by (simp only: zmod_int)
  also have "\<dots> = (int L - int R + int ?b * int T) mod int m"
    using opens by (intro mod_add_cong mod_diff_cong mod_mult_cong refl) (metis mod_mod_trivial)+
  also have "\<dots> = int (if L < R then L + T - R else L - R)"
    using assms(5-7) by (auto simp: of_nat_diff)
  finally show ?thesis by (simp only: of_nat_eq_iff)
qed

lemma index_reaches:
  assumes "L < T" "R < T" "v = (if L < R then L + T - R else L - R)"
  shows "v < T" and "(v + R) mod T = (L :: nat)"
  using assms by auto

subsection \<open>The property\<close>

type_synonym lookup_party = "Identity \<times> Lookup \<times> lookup_result"

definition party_ready ::
  "RandomTableLookupInfo \<Rightarrow> u8 list list \<Rightarrow> nat \<Rightarrow> Identity \<Rightarrow> Lookup \<Rightarrow> bool" where
  "party_ready info table len rid st \<longleftrightarrow>
     lk_state st = awaitingTypeCastFromBit \<and> lk_info st = info \<and> tableData st = table \<and>
     tableValueByteLength st = len \<and> revealer st = rid \<and> numPartiesAwaiting st = 0 \<and>
     output_shares st = [] \<and> rtl_r (randomTable st) \<le> r_modulus info \<and>
     length (rtl_u (randomTable st)) = unat (table_size info) \<and>
     list_all (\<lambda>b. b \<in> {0, 1}) (rtl_u (randomTable st))"

text \<open>The secrets that the shares of all parties open to: the location, the random position and
  its unit vector, and the bit of the comparison of the two.\<close>

definition shares_open :: "RandomTableLookupInfo \<Rightarrow> nat \<Rightarrow> nat \<Rightarrow> lookup_party list \<Rightarrow> bool" where
  "shares_open info L R ps \<longleftrightarrow>
     open_mod (r_modulus info) (map (\<lambda>(i, st, f). locationShare st) ps) = L \<and>
     open_mod (r_modulus info) (map (\<lambda>(i, st, f). rtl_r (randomTable st)) ps) = R \<and>
     open_mod (r_modulus info) (map (\<lambda>(i, st, f). outputBitShare f) ps) = (if L < R then 1 else 0) \<and>
     list_all (\<lambda>j. open_xor (map (\<lambda>(i, st, f). rtl_u (randomTable st) ! j) ps) = (if j = R then 1 else 0))
       [0..<unat (table_size info)]"

definition party_output :: "LargeNum \<Rightarrow> Lookup \<Rightarrow> u8 list" where
  "party_output v st = output_shares (fst (computeFinalShare (st\<lparr>revealedValue := v, numPartiesAwaiting := 0\<rparr>)))"

lemma lookup_run_outputs:
  assumes mem: "members_ok peers rid (map fst others)" and ne: "others \<noteq> []"
    and ready: "\<forall>(i, st, f) \<in> set ((rid, rst, rf) # others). party_ready info table len rid st"
  defines "v \<equiv> (\<Sum>(i, st, f)\<leftarrow>(rid, rst, rf) # others. index_share (outputBitShare f) st) mod r_modulus info"
  shows "lookup_run peers (rid, rst, rf) others
    = map (\<lambda>(i, st, f). party_output v st) ((rid, rst, rf) # others)"
proof -
  have rr: "party_ready info table len rid rst" using ready by simp
  let ?rst1 = "rst\<lparr>numPartiesAwaiting := length others, revealedValue := index_share (outputBitShare rf) rst\<rparr>"
  have r1: "Lookup_handleComplete rid peers rf rst = (?rst1, [])"
    using revealer_starts [OF mem] rr by (simp add: party_ready_def)
  have st: "map (\<lambda>(oid, ost, ores). (oid, Lookup_handleComplete oid peers ores ost)) others
      = map (\<lambda>(oid, ost, ores). (oid, ost\<lparr>numPartiesAwaiting := 0\<rparr>,
           [Send rid (index_share (outputBitShare ores) ost)])) others"
    using other_starts [OF mem] ready by (intro map_cong refl) (force simp: party_ready_def)
  let ?msgs = "map (\<lambda>(oid, ost, ores). index_share (outputBitShare ores) ost) others"
  have ms: "concat (map (\<lambda>(oid, ost, es). map snd (sends es)) (map (\<lambda>(oid, ost, ores).
      (oid, ost\<lparr>numPartiesAwaiting := 0\<rparr>, [Send rid (index_share (outputBitShare ores) ost)])) others)) = ?msgs"
    by (induction others) auto
  have v: "v = (index_share (outputBitShare rf) rst + sum_list ?msgs) mod r_modulus info"
    by (simp add: v_def)
  let ?ans = "map (\<lambda>other. Send other v)
      (filter (\<lambda>other. identity_ne other rid) (forEachDataowner peers)) @ [Complete] :: (lookup_call, LargeNum) effect list"
  have r2: "receive_all peers ?msgs ?rst1 =
      (fst (computeFinalShare (rst\<lparr>revealedValue := v, numPartiesAwaiting := 0\<rparr>)), ?ans)"
    using revealer_receives [of ?msgs ?rst1 peers] ne rr by (simp add: Let_def v party_ready_def)
  have ans: "map snd (filter (\<lambda>(p, v). identity_eq p oid) (sends ?ans)) = [v]" if "oid \<in> set (map fst others)" for oid
    using members_okD(3) [OF mem that] by (simp add: filter_map comp_def del: filter_filter)
  have recv: "fst (receive_all peers [v] (ost\<lparr>numPartiesAwaiting := 0\<rparr>))
      = fst (computeFinalShare (ost\<lparr>revealedValue := v, numPartiesAwaiting := 0\<rparr>))" for ost
    by (cases ost) (simp add: Lookup_handleReceive_def split: prod.splits)
  have fin: "map (\<lambda>(oid, ost, es). fst (receive_all peers
        (map snd (filter (\<lambda>(p, v). identity_eq p oid) (sends ?ans))) ost))
      (map (\<lambda>(oid, ost, ores). (oid, ost\<lparr>numPartiesAwaiting := 0\<rparr>,
           [Send rid (index_share (outputBitShare ores) ost) :: (lookup_call, LargeNum) effect])) others)
    = map (\<lambda>(oid, ost, ores). fst (computeFinalShare (ost\<lparr>revealedValue := v, numPartiesAwaiting := 0\<rparr>))) others"
    unfolding map_map by (intro map_cong refl) (use ans recv in force)
  show ?thesis
    unfolding lookup_run_def Let_def case_prod_conv r1 st ms r2 fin
    by (simp add: party_output_def case_prod_beta)
qed

lemma party_output_entry:
  assumes "party_ready info table len rid st" "v < unat (table_size info)"
  shows "length (party_output v st) = len"
    and "j < len \<Longrightarrow> party_output v st ! j = open_xor (map (\<lambda>i.
      if rtl_u (randomTable st) ! i = 1 then table ! ((v + i) mod unat (table_size info)) ! j else 0)
      [0..<unat (table_size info)])"
proof -
  let ?st = "st\<lparr>revealedValue := v, numPartiesAwaiting := 0\<rparr>"
  have pre: "revealedValue ?st = v" "output_shares ?st = []" "v < unat (table_size (lk_info ?st))"
    "length (rtl_u (randomTable ?st)) = unat (table_size (lk_info ?st))"
    using assms by (simp_all add: party_ready_def)
  show "length (party_output v st) = len"
    using computeFinalShare_output(1) [OF pre] assms(1) by (simp add: party_output_def party_ready_def)
  show "j < len \<Longrightarrow> party_output v st ! j = open_xor (map (\<lambda>i.
      if rtl_u (randomTable st) ! i = 1 then table ! ((v + i) mod unat (table_size info)) ! j else 0)
      [0..<unat (table_size info)])"
    using computeFinalShare_output(2) [OF pre, of j] assms(1) unfolding table_entry_def
    by (simp add: party_output_def party_ready_def cong: if_cong)
qed

lemma table_column_opens:
  fixes ps :: "lookup_party list"
  assumes ready0: "\<forall>(i, st, f) \<in> set ps. party_ready info table len rid st"
    and opens: "shares_open info L R ps"
  defines "T \<equiv> unat (table_size info)"
  assumes "R < T" "(v + R) mod T = L"
  shows "open_xor (map (\<lambda>(_, st, _). open_xor (map (\<lambda>i. if rtl_u (randomTable st) ! i = 1
      then table ! ((v + i) mod T) ! j else 0) [0..<T])) ps) = table ! L ! j"
proof -
  have ready: "\<And>i st f. (i, st, f) \<in> set ps \<Longrightarrow> party_ready info table len rid st" using ready0 by blast
  let ?u = "\<lambda>p :: lookup_party. rtl_u (randomTable (fst (snd p)))"
  have "open_xor (map (\<lambda>(_, st, _). open_xor (map (\<lambda>i. if rtl_u (randomTable st) ! i = 1
        then table ! ((v + i) mod T) ! j else 0) [0..<T])) ps)
    = open_xor (map (\<lambda>i. open_xor (map (\<lambda>p. if ?u p ! i = 1 then table ! ((v + i) mod T) ! j else 0) ps)) [0..<T])"
    unfolding case_prod_unfold by (rule open_xor_swap)
  also have "\<dots> = open_xor (map (\<lambda>i. if i = R then table ! ((v + i) mod T) ! j else 0) [0..<T])"
  proof (intro arg_cong [where f = open_xor] map_cong refl)
    fix i assume i: "i \<in> set [0..<T]"
    have "list_all (\<lambda>p. ?u p ! i \<in> {0, 1}) ps"
    proof (unfold list_all_iff, intro ballI)
      fix p assume "p \<in> set ps"
      then have "party_ready info table len rid (fst (snd p))"
        using ready [of "fst p" "fst (snd p)" "snd (snd p)"] by simp
      then show "?u p ! i \<in> {0, 1}"
        using i by (simp add: party_ready_def T_def list_all_length del: insert_iff)
    qed
    moreover have "open_xor (map (\<lambda>p. ?u p ! i) ps) = (if i = R then 1 else 0)"
      using opens i by (simp add: shares_open_def list_all_iff T_def case_prod_unfold)
    ultimately show "open_xor (map (\<lambda>p. if ?u p ! i = 1 then table ! ((v + i) mod T) ! j else 0) ps)
        = (if i = R then table ! ((v + i) mod T) ! j else 0)"
      using open_xor_select [of "\<lambda>p. ?u p ! i" ps "table ! ((v + i) mod T) ! j"] by simp
  qed
  also have "\<dots> = table ! L ! j"
    using open_xor_single [of "[0..<T]" R "\<lambda>i. table ! ((v + i) mod T) ! j"] assms(4,5) by simp
  finally show ?thesis .
qed

lemma sum_of_index_shares:
  fixes ps :: "lookup_party list"
  assumes ready0: "\<forall>(i, st, f) \<in> set ps. party_ready info table len rid st"
    and opens: "shares_open info L R ps"
  defines "T \<equiv> unat (table_size info)"
  assumes "L < T" "R < T" "T \<le> r_modulus info"
  shows "(\<Sum>(i, st, f)\<leftarrow>ps. index_share (outputBitShare f) st) mod r_modulus info
    = (if L < R then L + T - R else L - R)"
proof -
  have ready: "\<And>i st f. (i, st, f) \<in> set ps \<Longrightarrow> party_ready info table len rid st" using ready0 by blast
  define xs where "xs = map (\<lambda>(i, st, f). (locationShare st, rtl_r (randomTable st), outputBitShare f)) ps"
  have "map (\<lambda>(i, st, f). index_share (outputBitShare f) st) ps
      = map (\<lambda>(loc, r, c). ((r_modulus info + loc - r) + c * T) mod r_modulus info) xs"
    unfolding xs_def map_map
    by (intro map_cong refl) (auto dest!: ready simp: party_ready_def index_share_def T_def)
  then have "(\<Sum>(i, st, f)\<leftarrow>ps. index_share (outputBitShare f) st) mod r_modulus info
      = (\<Sum>(loc, r, c)\<leftarrow>xs. ((r_modulus info + loc - r) + c * T) mod r_modulus info) mod r_modulus info"
    by (simp only:)
  also have "\<dots> = (if L < R then L + T - R else L - R)"
  proof (rule opened_index)
    show "list_all (\<lambda>(loc, r, c). r \<le> r_modulus info) xs"
      using ready by (fastforce simp: xs_def list_all_iff party_ready_def)
  qed (use opens assms(4-6) in \<open>simp_all add: shares_open_def xs_def T_def comp_def case_prod_unfold\<close>)
  finally show ?thesis .
qed

text \<open>
  C1: The oblivious lookup is correct. When the shares of at least two dataowners open to a location
  \<open>L\<close> in the table, a random position \<open>R\<close> with its unit vector and the bit \<open>L < R\<close>,
  then, in whatever order the index shares arrive, every party finishes with a row of the right
  length and the rows xor to row \<open>L\<close> of the public table.
\<close>

theorem lookup_correct:
  assumes "members_ok peers rid (map fst others)" and "others \<noteq> []"
    and "\<forall>(i, st, f) \<in> set ((rid, rst, rf) # others). party_ready info table len rid st"
    and "shares_open info L R ((rid, rst, rf) # others)"
    and "L < unat (table_size info)" and "R < unat (table_size info)"
    and "unat (table_size info) \<le> r_modulus info"
  shows "list_all (\<lambda>out. length out = len) (lookup_run peers (rid, rst, rf) others)
    \<and> length (lookup_run peers (rid, rst, rf) others) = Suc (length others)
    \<and> (\<forall>j < len. open_xor (map (\<lambda>out. out ! j) (lookup_run peers (rid, rst, rf) others)) = table ! L ! j)"
proof -
  define T where "T = unat (table_size info)"
  define ps where "ps = (rid, rst, rf) # others"
  define v where "v = (\<Sum>(i, st, f)\<leftarrow>ps. index_share (outputBitShare f) st) mod r_modulus info"
  have ready: "\<And>i st f. (i, st, f) \<in> set ps \<Longrightarrow> party_ready info table len rid st"
    using assms(3) unfolding ps_def by blast
  have run: "lookup_run peers (rid, rst, rf) others = map (\<lambda>(i, st, f). party_output v st) ps"
    unfolding ps_def v_def by (rule lookup_run_outputs [OF assms(1-3)])
  have v: "v = (if L < R then L + T - R else L - R)"
    unfolding v_def T_def using sum_of_index_shares [OF assms(3,4,5,6,7)] by (simp only: ps_def)
  have vT: "v < T" "(v + R) mod T = L"
    using index_reaches [OF _ _ v] assms(5,6) by (simp_all add: T_def)
  have out: "length (party_output v st) = len"
    "\<And>j. j < len \<Longrightarrow> party_output v st ! j = open_xor (map (\<lambda>i.
      if rtl_u (randomTable st) ! i = 1 then table ! ((v + i) mod T) ! j else 0) [0..<T])"
    if "(i, st, f) \<in> set ps" for i st f
    using party_output_entry [OF ready [OF that]] vT(1) by (simp_all add: T_def cong: if_cong)
  have entry: "open_xor (map (\<lambda>out. out ! j) (lookup_run peers (rid, rst, rf) others)) = table ! L ! j"
    if j: "j < len" for j
  proof -
    have "map (\<lambda>out. out ! j) (lookup_run peers (rid, rst, rf) others) = map (\<lambda>(i, st, f).
        open_xor (map (\<lambda>i. if rtl_u (randomTable st) ! i = 1 then table ! ((v + i) mod T) ! j else 0) [0..<T])) ps"
      unfolding run map_map by (intro map_cong refl) (auto simp: out j)
    then show ?thesis
      using table_column_opens [OF assms(3,4,6) vT(2) [unfolded T_def], of j]
      by (simp only: ps_def T_def case_prod_unfold)
  qed
  have "list_all (\<lambda>out. length out = len) (lookup_run peers (rid, rst, rf) others)"
    unfolding run using out(1) by (auto simp: list_all_iff)
  moreover have "length (lookup_run peers (rid, rst, rf) others) = Suc (length others)"
    unfolding run ps_def by simp
  ultimately show ?thesis using entry by blast
qed

theorem lookup_correct_witness:
  "let rid = \<lparr>orgId = [1], role = ROLE_DATAOWNER, vertical = 0\<rparr>;
       oid = \<lparr>orgId = [2], role = ROLE_DATAOWNER, vertical = 0\<rparr>;
       st = \<lambda>loc r u. (Lookup_new loc [] [[0x0a], [0x1b], [0x2c]] \<lparr>rtl_r = r, rtl_u = u\<rparr>
              \<lparr>r_modulus = 7, table_size = 3\<rparr> 1 rid)\<lparr>lk_state := awaitingTypeCastFromBit\<rparr>
   in open_xor (map (\<lambda>out. out ! 0)
        (lookup_run (PeerSet_empty\<lparr>dataowners := [[rid, oid]]\<rparr>)
           (rid, st 5 6 [1, 0, 1], \<lparr>outputShare = 0, outputBitShare = 3\<rparr>)
           [(oid, st 4 2 [1, 1, 1], \<lparr>outputShare = 0, outputBitShare = 4\<rparr>)])) = 0x2c"
proof -
  let ?rid = "\<lparr>orgId = [1], role = ROLE_DATAOWNER, vertical = 0\<rparr> :: Identity"
  let ?oid = "\<lparr>orgId = [2], role = ROLE_DATAOWNER, vertical = 0\<rparr> :: Identity"
  let ?info = "\<lparr>r_modulus = 7, table_size = 3\<rparr>"
  let ?st = "\<lambda>loc r u. (Lookup_new loc [] [[0x0a], [0x1b], [0x2c]] \<lparr>rtl_r = r, rtl_u = u\<rparr>
     ?info 1 ?rid)\<lparr>lk_state := awaitingTypeCastFromBit\<rparr>"
  have ready: "party_ready ?info [[0x0a], [0x1b], [0x2c]] 1 ?rid (?st loc r u)"
    if "r \<le> 7" "length u = 3" "list_all (\<lambda>b. b \<in> {0, 1}) u" for loc r u
    using that by (simp add: party_ready_def Lookup_new_def)
  have "[0..<3] = [0, 1, 2 :: nat]" by (simp add: upt_rec)
  then have opens: "shares_open ?info 2 1 [(?rid, ?st 5 6 [1, 0, 1], \<lparr>outputShare = 0, outputBitShare = 3\<rparr>),
      (?oid, ?st 4 2 [1, 1, 1], \<lparr>outputShare = 0, outputBitShare = 4\<rparr>)]"
    by (simp add: shares_open_def open_mod_def Lookup_new_def)
  have mem: "members_ok (PeerSet_empty\<lparr>dataowners := [[?rid, ?oid]]\<rparr>) ?rid
      (map fst [(?oid, ?st 4 2 [1, 1, 1], \<lparr>outputShare = 0, outputBitShare = 4\<rparr>)])"
    by (simp add: members_ok_def forEachDataowner_def PeerSet_empty_def)
  have "\<forall>(i, st, f) \<in> set ((?rid, ?st 5 6 [1, 0, 1], \<lparr>outputShare = 0, outputBitShare = 3\<rparr>) #
      [(?oid, ?st 4 2 [1, 1, 1], \<lparr>outputShare = 0, outputBitShare = 4\<rparr>)]).
      party_ready ?info [[0x0a], [0x1b], [0x2c]] 1 ?rid st"
    using ready [of 6 "[1, 0, 1]" 5] ready [of 2 "[1, 1, 1]" 4] by simp
  from lookup_correct [OF mem _ this opens] show ?thesis by (simp add: Let_def)
qed

end
