(* ===== verification/Payload.thy ===== *)
theory Payload
  imports Effects
begin

text \<open>
  \<open>dataowner/RegressionInfo.cpp\<close>, \<open>dataowner/RegressionPayloadCompute.cpp\<close> and
  \<open>Regression::computePayloadVectorAndPadList\<close>: each vertical extends a row by the products of
  its own columns, in a triangular layout, and the cross products are added by a secure
  multiplication; the payload computation then picks the \<open>d * d + d + 3\<close> entries of
  \<open>X^T X\<close>, \<open>X^T y\<close>, \<open>y^2\<close>, \<open>y\<close> and 1 by index arithmetic.
\<close>

subsection \<open>Parameters of a query\<close>

record GlobalInfo =
  numDataowners :: nat
  maxListSize :: nat
  maxIntersectionSize :: nat
  bitsOfPrecision :: nat
  bytesInLookupTableCells :: nat
  max_F_t_table_num_rows :: nat
  key_max :: nat

definition GlobalInfo_query :: "nat \<Rightarrow> nat \<Rightarrow> GlobalInfo" where
  "GlobalInfo_query maxSize nDataowners =
     \<lparr>numDataowners = nDataowners, maxListSize = maxSize,
      maxIntersectionSize = maxSize * nDataowners, bitsOfPrecision = 5,
      bytesInLookupTableCells = 4, max_F_t_table_num_rows = 1000, key_max = 1048576\<rparr>"

record RegressionInfo =
  selfVertical :: nat
  verticalDV :: nat
  verticalDV_numIVs :: nat
  verticalNonDV_numIVs :: nat
  numCrossParties :: nat
  num_IVs :: nat
  fitIntercept :: bool
  reg_revealer :: Identity
  reg_dealer :: Identity
  payloadLength :: nat
  bytesInCells :: nat
  max_table_rows :: nat
  keyModulus :: LargeNum
  startModulus :: LargeNum
  endModulus :: LargeNum

definition computePayloadLength :: "nat \<Rightarrow> nat \<Rightarrow> nat" where
  "computePayloadLength d1 d2 = max (d1 + d1 * (d1 + 1) div 2) ((d2 + 1) + d2 * (d2 + 3) div 2 + 3)"

definition computeEndModulus :: "(LargeNum \<Rightarrow> LargeNum) \<Rightarrow> nat \<Rightarrow> LargeNum" where
  "computeEndModulus nextPrime numBits = nextPrime (2 ^ numBits)"

text \<open>The library's \<open>nextPrime\<close> and the bit count of the end modulus, a floating-point
  expression, are parameters.\<close>

definition RegressionInfo_new ::
  "(LargeNum \<Rightarrow> LargeNum) \<Rightarrow> (nat \<Rightarrow> nat \<Rightarrow> nat \<Rightarrow> nat) \<Rightarrow> GlobalInfo \<Rightarrow> nat \<Rightarrow> nat \<Rightarrow> nat \<Rightarrow> nat \<Rightarrow> nat \<Rightarrow> bool
    \<Rightarrow> Identity \<Rightarrow> Identity \<Rightarrow> RegressionInfo" where
  "RegressionInfo_new nextPrime ceilBits globals selfV dv vDV_nIVs vnDV_nIVs nCross fit rvl dlr =
     (let n = vDV_nIVs + vnDV_nIVs in
      \<lparr>selfVertical = selfV, verticalDV = dv, verticalDV_numIVs = vDV_nIVs,
       verticalNonDV_numIVs = vnDV_nIVs, numCrossParties = nCross, num_IVs = n,
       fitIntercept = fit, reg_revealer = rvl, reg_dealer = dlr,
       payloadLength = computePayloadLength vnDV_nIVs vDV_nIVs,
       bytesInCells = bytesInLookupTableCells globals,
       max_table_rows = max_F_t_table_num_rows globals,
       keyModulus = nextPrime (key_max globals),
       startModulus = nextPrime (2 ^ (4 * bitsOfPrecision globals + 2) * maxIntersectionSize globals),
       endModulus = computeEndModulus nextPrime
         (2 * ceilBits n (bitsOfPrecision globals) (maxIntersectionSize globals))\<rparr>)"

subsection \<open>Rows of the two verticals\<close>

definition pair_products :: "ff_arith \<Rightarrow> LargeNum \<Rightarrow> nat \<Rightarrow> LargeNum list \<Rightarrow> LargeNum list" where
  "pair_products A m d row =
     concat (map (\<lambda>i. map (\<lambda>j. modMul A (row ! i) (row ! j) m) [i..<d]) [0..<d])"

definition resize_zero :: "nat \<Rightarrow> LargeNum list \<Rightarrow> LargeNum list" where
  "resize_zero n xs = take n xs @ replicate (n - length xs) 0"

definition extend_row_DV :: "ff_arith \<Rightarrow> RegressionInfo \<Rightarrow> LargeNum list \<Rightarrow> LargeNum list" where
  "extend_row_DV A info row =
     (let d = verticalDV_numIVs info; m = startModulus info
      in resize_zero (payloadLength info)
        (row @ pair_products A m d row @
         map (\<lambda>i. modMul A (row ! i) (row ! d) m) [0..<d] @
         [modMul A (row ! d) (row ! d) m, row ! d, 1]))"

definition extend_row_nonDV :: "ff_arith \<Rightarrow> RegressionInfo \<Rightarrow> LargeNum list \<Rightarrow> LargeNum list" where
  "extend_row_nonDV A info row =
     resize_zero (payloadLength info)
       (row @ pair_products A (startModulus info) (verticalNonDV_numIVs info) row)"

record Observation =
  keyCols :: "LargeNum list"
  arithmeticPayloadCols :: "LargeNum list"
  XORPayloadCols :: "u8 list"

record ObservationList =
  elements :: "Observation list"
  numKeyCols :: nat
  numArithmeticPayloadCols :: nat
  numXORPayloadCols :: nat

text \<open>\<open>keys i\<close> are the random key columns of the \<open>i\<close>-th padding row.\<close>

definition padding_row :: "RegressionInfo \<Rightarrow> nat \<Rightarrow> LargeNum list \<Rightarrow> Observation" where
  "padding_row info nxor keys =
     \<lparr>keyCols = take 2 keys, arithmeticPayloadCols = replicate (payloadLength info) 0,
      XORPayloadCols = replicate nxor 0\<rparr>"

definition computePayloadVectorAndPadList ::
  "ff_arith \<Rightarrow> GlobalInfo \<Rightarrow> RegressionInfo \<Rightarrow> (nat \<Rightarrow> LargeNum list) \<Rightarrow> ObservationList \<Rightarrow> ObservationList" where
  "computePayloadVectorAndPadList A globals info keys own =
     (let ext = (if selfVertical info = verticalDV info then extend_row_DV A info else extend_row_nonDV A info);
          rows = map (\<lambda>ob. ob\<lparr>arithmeticPayloadCols := ext (arithmeticPayloadCols ob)\<rparr>) (elements own)
      in own\<lparr>elements := rows @ map (\<lambda>i. padding_row info (numXORPayloadCols own) (keys i))
               [0..<maxListSize globals - length rows],
             numArithmeticPayloadCols := payloadLength info, numKeyCols := 2\<rparr>)"

subsection \<open>The payload computation\<close>

record RegressionPayloadCompute =
  vec1 :: "LargeNum list"
  vec2 :: "LargeNum list"
  multiplyResults :: "LargeNum list"
  rp_output :: "LargeNum list"

text \<open>The batch of multiplications, in the order of their result cells.\<close>

definition payload_init :: "RegressionInfo \<Rightarrow> RegressionPayloadCompute \<Rightarrow> (LargeNum \<times> LargeNum) list" where
  "payload_init info st =
     concat (map (\<lambda>i. map (\<lambda>j. (vec1 st ! i, vec2 st ! j)) [0..<verticalDV_numIVs info + 1])
       [0..<verticalNonDV_numIVs info])"

definition accessMatrixShare ::
  "nat \<Rightarrow> 'a list \<Rightarrow> 'a list \<Rightarrow> 'a list \<Rightarrow> nat \<Rightarrow> nat \<Rightarrow> nat \<Rightarrow> nat \<Rightarrow> 'a" where
  "accessMatrixShare dv_ivs v1 v2 mres i' j' d d1 =
     (let (i, j) = (if i' > j' then (j', i') else (i', j')) in
      if i < d1 \<and> j < d1 then
        v1 ! (d1 + d1 * (d1 + 1) div 2 - (d1 - i) * (d1 - i + 1) div 2 + (j - i))
      else if i < d1 \<and> j \<ge> d1 then mres ! (i * (dv_ivs + 1) + (j - d1))
      else v2 ! ((d - d1 + 1) + (d - d1) * (d - d1 + 1) div 2 - (d - i) * (d - i + 1) div 2 + (j - i)))"

definition payload_output :: "nat \<Rightarrow> nat \<Rightarrow> nat \<Rightarrow> 'a list \<Rightarrow> 'a list \<Rightarrow> 'a list \<Rightarrow> 'a list" where
  "payload_output d d1 dv_ivs v1 v2 mres =
     (let off = (d - d1 + 1) + ((d - d1) * (d - d1 + 3)) div 2 in
      concat (map (\<lambda>i. map (\<lambda>j. accessMatrixShare dv_ivs v1 v2 mres i j d d1) [0..<d]) [0..<d]) @
      map (\<lambda>i. mres ! (i * (dv_ivs + 1) + d - d1)) [0..<d1] @
      map (\<lambda>i. v2 ! ((d - d1 + 1) + (d - d1) * (d - d1 + 1) div 2 + (i - d1))) [d1..<d] @
      [v2 ! off, v2 ! (off + 1), v2 ! (off + 2)])"

definition payload_handleComplete :: "RegressionInfo \<Rightarrow> LargeNum list \<Rightarrow> RegressionPayloadCompute
    \<Rightarrow> (RegressionPayloadCompute, unit, unit) handler_result" where
  "payload_handleComplete info results st =
     (let st = st\<lparr>multiplyResults := results\<rparr>
      in (st\<lparr>rp_output := payload_output (num_IVs info) (verticalNonDV_numIVs info) (verticalDV_numIVs info)
               (vec1 st) (vec2 st) (multiplyResults st)\<rparr>, [Complete]))"

subsection \<open>The triangular layout\<close>

definition tri :: "nat \<Rightarrow> nat" where "tri n = n * (n + 1) div 2"

lemma tri_0 [simp]: "tri 0 = 0" and tri_Suc: "tri (Suc n) = Suc n + tri n"
  by (simp_all add: tri_def)

lemma tri_mono: "m \<le> n \<Longrightarrow> tri m \<le> tri n"
  unfolding tri_def by (intro div_le_mono mult_le_mono) simp_all

lemma length_triangle: "length (concat (map (\<lambda>i. map (f i) [i..<n]) [a..<n])) = tri (n - a)"
proof (induction "n - a" arbitrary: a)
  case (Suc k)
  then have a: "a < n" "k = n - Suc a" by simp_all
  then have "n - a = Suc k" by simp
  with Suc(1) [OF a(2)] a show ?case by (simp add: upt_conv_Cons tri_Suc)
qed simp

lemma nth_triangle:
  "a \<le> i \<Longrightarrow> i \<le> j \<Longrightarrow> j < n \<Longrightarrow>
   concat (map (\<lambda>i. map (f i) [i..<n]) [a..<n]) ! (tri (n - a) - tri (n - i) + (j - i)) = f i j"
proof (induction "n - a" arbitrary: a)
  case 0
  then show ?case by simp
next
  case (Suc k)
  then have a: "a < n" "k = n - Suc a" by simp_all
  have split: "concat (map (\<lambda>i. map (f i) [i..<n]) [a..<n])
      = map (f a) [a..<n] @ concat (map (\<lambda>i. map (f i) [i..<n]) [Suc a..<n])"
    using a by (simp add: upt_conv_Cons)
  show ?case
  proof (cases "i = a")
    case True
    then have "j - a < length [a..<n]" using Suc.prems by simp
    with True Suc.prems show ?thesis unfolding split by (simp add: nth_append)
  next
    case False
    then have ia: "Suc a \<le> i" using Suc.prems by simp
    have "tri (n - i) \<le> tri (n - Suc a)" using ia by (intro tri_mono) simp
    moreover have "tri (n - a) = (n - a) + tri (n - Suc a)"
      using a by (metis Suc_diff_Suc tri_Suc)
    ultimately have "tri (n - a) - tri (n - i) + (j - i)
        = length (map (f a) [a..<n]) + (tri (n - Suc a) - tri (n - i) + (j - i))"
      by (simp only: length_map length_upt) linarith
    then show ?thesis
      unfolding split using Suc(1) [OF a(2) ia] Suc.prems by (simp only: nth_append_length_plus)
  qed
qed

lemma nth_grid: "i < m \<Longrightarrow> j < n \<Longrightarrow>
    concat (map (\<lambda>i. map (f i) [0..<n]) [0..<m]) ! (i * n + j) = f i j"
proof (induction m arbitrary: i)
  case (Suc m)
  have len: "length (concat (map (\<lambda>i. map (f i) [0..<n]) [0..<m])) = m * n" by (induction m) simp_all
  show ?case
  proof (cases "i < m")
    case True
    then have "i * n + j < m * n"
      using Suc.prems(2) by (metis Suc_leI add.commute less_le_trans mult_Suc mult_le_mono1 nat_add_left_cancel_less)
    with True Suc len show ?thesis by (simp add: nth_append)
  next
    case False
    then have "i = m" using Suc.prems by simp
    with Suc.prems len show ?thesis by (simp add: nth_append)
  qed
qed simp

subsection \<open>What the payload computation picks\<close>

lemma nth_resize: "k < length xs \<Longrightarrow> k < n \<Longrightarrow> resize_zero n xs ! k = xs ! k"
  by (simp add: resize_zero_def nth_append)

lemma length_resize [simp]: "length (resize_zero n xs) = n"
  by (simp add: resize_zero_def)

lemma tri_plus: "tri n + n = n * (n + 3) div 2"
proof -
  have "n * (n + 3) = n * (n + 1) + n * 2" by (simp add: algebra_simps)
  then show ?thesis by (simp add: tri_def)
qed

lemma length_pair_products [simp]: "length (pair_products A m d row) = tri d"
  using length_triangle [of "\<lambda>i j. modMul A (row ! i) (row ! j) m" d 0] by (simp add: pair_products_def)

lemma nth_pair_products:
  "i \<le> j \<Longrightarrow> j < d \<Longrightarrow> pair_products A m d row ! (tri d - tri (d - i) + (j - i)) = modMul A (row ! i) (row ! j) m"
  using nth_triangle [of 0 i j d "\<lambda>i j. modMul A (row ! i) (row ! j) m"] by (simp add: pair_products_def)

definition info_ok :: "RegressionInfo \<Rightarrow> bool" where
  "info_ok info \<longleftrightarrow> num_IVs info = verticalDV_numIVs info + verticalNonDV_numIVs info \<and>
     payloadLength info = computePayloadLength (verticalNonDV_numIVs info) (verticalDV_numIVs info)"

lemma RegressionInfo_new_ok: "info_ok (RegressionInfo_new np cb g sv dv a b nc fit r dl)"
  by (simp add: info_ok_def RegressionInfo_new_def Let_def)

text \<open>The places the index arithmetic of the code points to.\<close>

lemma row1_cells:
  fixes A :: ff_arith and x :: "LargeNum list"
  assumes info: "info_ok info" and len: "length x = verticalNonDV_numIVs info"
  defines "d1 \<equiv> verticalNonDV_numIVs info" and "v1 \<equiv> extend_row_nonDV A info x"
  shows "i < d1 \<Longrightarrow> v1 ! i = x ! i"
    and "i \<le> j \<Longrightarrow> j < d1 \<Longrightarrow> v1 ! (d1 + d1 * (d1 + 1) div 2 - (d1 - i) * (d1 - i + 1) div 2 + (j - i))
      = modMul A (x ! i) (x ! j) (startModulus info)"
proof -
  let ?xs = "x @ pair_products A (startModulus info) d1 x"
  have v1: "v1 = resize_zero (payloadLength info) ?xs" by (simp add: v1_def extend_row_nonDV_def d1_def)
  have bound: "d1 + tri d1 \<le> payloadLength info"
    using info by (simp add: info_ok_def computePayloadLength_def d1_def tri_def)
  then show "i < d1 \<Longrightarrow> v1 ! i = x ! i"
    using len by (simp add: v1 nth_resize nth_append d1_def)
  assume ij: "i \<le> j" "j < d1"
  have "tri (d1 - i) \<le> tri d1" by (rule tri_mono) simp
  moreover have "length x = d1" using len by (simp add: d1_def)
  ultimately have idx: "d1 + d1 * (d1 + 1) div 2 - (d1 - i) * (d1 - i + 1) div 2 + (j - i)
      = length x + (tri d1 - tri (d1 - i) + (j - i))"
    unfolding tri_def [symmetric] by linarith
  have "tri (d1 - i) = Suc (d1 - Suc i) + tri (d1 - Suc i)"
    using ij by (metis Suc_diff_Suc le_less_trans tri_Suc)
  then have "tri d1 - tri (d1 - i) + (j - i) < tri d1"
    using ij tri_mono [of "d1 - i" d1] by linarith
  then have "v1 ! (length x + (tri d1 - tri (d1 - i) + (j - i))) = ?xs ! (length x + (tri d1 - tri (d1 - i) + (j - i)))"
    unfolding v1 using bound len by (intro nth_resize) (simp_all add: d1_def)
  also have "\<dots> = modMul A (x ! i) (x ! j) (startModulus info)"
    using nth_pair_products [OF ij] by (simp only: nth_append_length_plus)
  finally show "v1 ! (d1 + d1 * (d1 + 1) div 2 - (d1 - i) * (d1 - i + 1) div 2 + (j - i))
      = modMul A (x ! i) (x ! j) (startModulus info)" unfolding idx .
qed

lemma row2_cells:
  fixes A :: ff_arith and z :: "LargeNum list" and y :: LargeNum
  assumes info: "info_ok info" and len: "length z = verticalDV_numIVs info"
  defines "d2 \<equiv> verticalDV_numIVs info" and "v2 \<equiv> extend_row_DV A info (z @ [y])" and "p \<equiv> startModulus info"
  shows "i < d2 \<Longrightarrow> v2 ! i = z ! i" and "v2 ! d2 = y"
    and "i \<le> j \<Longrightarrow> j < d2 \<Longrightarrow> v2 ! ((d2 + 1) + (tri d2 - tri (d2 - i) + (j - i))) = modMul A (z ! i) (z ! j) p"
    and "i < d2 \<Longrightarrow> v2 ! ((d2 + 1) + tri d2 + i) = modMul A (z ! i) y p"
    and "v2 ! ((d2 + 1) + tri d2 + d2) = modMul A y y p"
    and "v2 ! ((d2 + 1) + tri d2 + d2 + 1) = y" and "v2 ! ((d2 + 1) + tri d2 + d2 + 2) = 1"
proof -
  let ?row = "z @ [y]" and ?pp = "pair_products A p d2 (z @ [y])"
  let ?zy = "map (\<lambda>i. modMul A (?row ! i) (?row ! d2) p) [0..<d2]"
  let ?tl = "[modMul A (?row ! d2) (?row ! d2) p, ?row ! d2, 1]"
  have v2: "v2 = resize_zero (payloadLength info) (?row @ ?pp @ ?zy @ ?tl)"
    by (simp add: v2_def extend_row_DV_def d2_def p_def Let_def)
  have y: "?row ! d2 = y" using len by (simp add: d2_def nth_append)
  have rz: "i < d2 \<Longrightarrow> ?row ! i = z ! i" for i using len by (simp add: d2_def nth_append)
  have "(d2 + 1) + tri d2 + d2 + 3 \<le> payloadLength info"
    using info tri_plus [of d2] by (simp add: info_ok_def computePayloadLength_def d2_def)
  then have nth: "k < (d2 + 1) + tri d2 + d2 + 3 \<Longrightarrow> v2 ! k = (?row @ ?pp @ ?zy @ ?tl) ! k" for k
    unfolding v2 using len by (intro nth_resize) (simp_all add: d2_def)
  have lr: "length ?row = d2 + 1" using len by (simp add: d2_def)
  have at: "k < tri d2 + d2 + 3 \<Longrightarrow> v2 ! ((d2 + 1) + k) = (?pp @ ?zy @ ?tl) ! k" for k
    using nth [of "(d2 + 1) + k"] nth_append_length_plus [of ?row "?pp @ ?zy @ ?tl" k] lr by simp
  have at2: "k < d2 + 3 \<Longrightarrow> v2 ! ((d2 + 1) + tri d2 + k) = (?zy @ ?tl) ! k" for k
    using at [of "tri d2 + k"] nth_append_length_plus [of ?pp "?zy @ ?tl" k] by (simp add: add.assoc)
  have at3: "k < 3 \<Longrightarrow> v2 ! ((d2 + 1) + tri d2 + d2 + k) = ?tl ! k" for k
    using at2 [of "d2 + k"] nth_append_length_plus [of ?zy ?tl k] by (simp add: add.assoc)
  show "i < d2 \<Longrightarrow> v2 ! i = z ! i" using nth [of i] lr by (simp add: nth_append rz)
  show "v2 ! d2 = y" using nth [of d2] lr y by (simp add: nth_append)
  show "i < d2 \<Longrightarrow> v2 ! ((d2 + 1) + tri d2 + i) = modMul A (z ! i) y p"
  proof -
    assume i: "i < d2"
    then have "v2 ! ((d2 + 1) + tri d2 + i) = ?zy ! i"
      using at2 [of i] nth_append [of ?zy ?tl i] by simp
    also have "\<dots> = modMul A (?row ! i) (?row ! d2) p" using i by simp
    finally show ?thesis using rz [OF i] y by (simp only:)
  qed
  show "v2 ! ((d2 + 1) + tri d2 + d2) = modMul A y y p" using at3 [of 0] y by simp
  show "v2 ! ((d2 + 1) + tri d2 + d2 + 1) = y" using at3 [of 1] y by simp
  show "v2 ! ((d2 + 1) + tri d2 + d2 + 2) = 1" using at3 [of 2] by simp
  assume ij: "i \<le> j" "j < d2"
  have "tri (d2 - i) \<le> tri d2" by (rule tri_mono) simp
  moreover have "tri (d2 - i) = Suc (d2 - Suc i) + tri (d2 - Suc i)"
    using ij by (metis Suc_diff_Suc le_less_trans tri_Suc)
  ultimately have "tri d2 - tri (d2 - i) + (j - i) < tri d2" using ij by linarith
  then show "v2 ! ((d2 + 1) + (tri d2 - tri (d2 - i) + (j - i))) = modMul A (z ! i) (z ! j) p"
    using at [of "tri d2 - tri (d2 - i) + (j - i)"] nth_pair_products [OF ij, of A p "z @ [y]"] ij rz
    by (simp add: nth_append)
qed

definition cross_products :: "LargeNum \<Rightarrow> nat \<Rightarrow> nat \<Rightarrow> LargeNum list \<Rightarrow> LargeNum list \<Rightarrow> LargeNum list" where
  "cross_products p d1 d2 v1 v2 =
     concat (map (\<lambda>i. map (\<lambda>j. (v1 ! i * v2 ! j) mod p) [0..<d2 + 1]) [0..<d1])"

text \<open>The specification: the moments of the joined row.\<close>

definition payload_spec :: "LargeNum \<Rightarrow> LargeNum list \<Rightarrow> LargeNum \<Rightarrow> LargeNum list" where
  "payload_spec p w y =
     concat (map (\<lambda>i. map (\<lambda>j. (w ! i * w ! j) mod p) [0..<length w]) [0..<length w]) @
     map (\<lambda>i. (w ! i * y) mod p) [0..<length w] @ [(y * y) mod p, y, 1]"

lemma add_diff_shift: "s \<le> t \<Longrightarrow> a + t - s + w = a + (t - s + w)" for a s t w :: nat
  by simp

lemma access_upper:
  assumes info: "info_ok info" and A: "ff_arith_ok A"
    and len: "length x = verticalNonDV_numIVs info" "length z = verticalDV_numIVs info"
    and small: "\<forall>a \<in> set (x @ z @ [y]). a < startModulus info"
    and ij: "i \<le> j" "j < num_IVs info"
  defines "p \<equiv> startModulus info" and "d1 \<equiv> verticalNonDV_numIVs info" and "d2 \<equiv> verticalDV_numIVs info"
    and "v1 \<equiv> extend_row_nonDV A info x" and "v2 \<equiv> extend_row_DV A info (z @ [y])"
  shows "accessMatrixShare d2 v1 v2 (cross_products p d1 d2 v1 v2) i j (num_IVs info) d1
    = ((x @ z) ! i * (x @ z) ! j) mod p"
proof -
  have d: "num_IVs info = d2 + d1" using info by (simp add: info_ok_def d1_def d2_def)
  have l: "length x = d1" "length z = d2" using len by (simp_all add: d1_def d2_def)
  note c1 = row1_cells [OF info len(1), where A = A, folded d1_def v1_def p_def]
  note c2 = row2_cells [OF info len(2), where A = A and y = y, folded d2_def v2_def p_def]
  have mm: "modMul A a b p = (a * b) mod p" if "a \<in> set (x @ z @ [y])" "b \<in> set (x @ z @ [y])" for a b
    unfolding p_def using that by (intro ff_arith_okD(3) [OF A] bspec [OF small])
  have xin: "k < d1 \<Longrightarrow> x ! k \<in> set (x @ z @ [y])" for k using l by simp
  have zin: "k < d2 \<Longrightarrow> z ! k \<in> set (x @ z @ [y])" for k using l by simp
  consider "j < d1" | "i < d1" "d1 \<le> j" | "d1 \<le> i" using ij by linarith
  then show ?thesis
  proof cases
    case 1
    then have "accessMatrixShare d2 v1 v2 (cross_products p d1 d2 v1 v2) i j (num_IVs info) d1
        = modMul A (x ! i) (x ! j) p"
      using c1(2) [OF ij(1)] ij by (simp add: accessMatrixShare_def)
    then show ?thesis using 1 ij l by (simp add: mm xin nth_append)
  next
    case 2
    then have j: "j - d1 < d2" using ij d by simp
    have "accessMatrixShare d2 v1 v2 (cross_products p d1 d2 v1 v2) i j (num_IVs info) d1
        = cross_products p d1 d2 v1 v2 ! (i * (d2 + 1) + (j - d1))"
      using 2 ij by (simp add: accessMatrixShare_def)
    also have "\<dots> = (v1 ! i * v2 ! (j - d1)) mod p"
      unfolding cross_products_def using 2 j by (intro nth_grid) simp_all
    finally show ?thesis using 2 j l c1(1) c2(1) by (simp add: nth_append)
  next
    case 3
    then have z: "i - d1 \<le> j - d1" "j - d1 < d2" using ij d by simp_all
    have e: "num_IVs info - d1 = d2" "num_IVs info - i = d2 - (i - d1)" "(j - i) = (j - d1) - (i - d1)"
      using 3 ij d by simp_all
    have "tri (d2 - (i - d1)) \<le> tri d2" by (rule tri_mono) simp
    then have idx: "(d2 + 1) + tri d2 - tri (d2 - (i - d1)) + ((j - d1) - (i - d1))
        = (d2 + 1) + (tri d2 - tri (d2 - (i - d1)) + ((j - d1) - (i - d1)))" by (rule add_diff_shift)
    have "accessMatrixShare d2 v1 v2 (cross_products p d1 d2 v1 v2) i j (num_IVs info) d1
        = v2 ! ((d2 + 1) + tri d2 - tri (d2 - (i - d1)) + ((j - d1) - (i - d1)))"
    proof -
      have f: "(i > j) = False" "(i < d1) = False" using 3 ij by auto
      show ?thesis
        unfolding accessMatrixShare_def Let_def f if_False prod.case simp_thms
        unfolding f e tri_def if_False simp_thms by (rule TrueI)
    qed
    also have "\<dots> = modMul A (z ! (i - d1)) (z ! (j - d1)) p"
      unfolding idx using z by (intro c2(3))
    finally show ?thesis using 3 ij z l by (simp add: mm zin nth_append)
  qed
qed

lemma payload_plain:
  assumes info: "info_ok info" and A: "ff_arith_ok A"
    and len: "length x = verticalNonDV_numIVs info" "length z = verticalDV_numIVs info"
    and small: "\<forall>a \<in> set (x @ z @ [y]). a < startModulus info"
  defines "p \<equiv> startModulus info" and "d1 \<equiv> verticalNonDV_numIVs info" and "d2 \<equiv> verticalDV_numIVs info"
    and "v1 \<equiv> extend_row_nonDV A info x" and "v2 \<equiv> extend_row_DV A info (z @ [y])"
  shows "payload_output (num_IVs info) d1 d2 v1 v2 (cross_products p d1 d2 v1 v2) = payload_spec p (x @ z) y"
proof -
  let ?d = "num_IVs info" and ?w = "x @ z" and ?M = "cross_products p d1 d2 v1 v2"
  have d: "?d = d2 + d1" "length ?w = ?d" using info len by (simp_all add: info_ok_def d1_def d2_def)
  note acc = access_upper [OF info A len small, folded p_def d1_def d2_def v1_def v2_def]
  note c1 = row1_cells [OF info len(1), where A = A, folded d1_def v1_def p_def]
  note c2 = row2_cells [OF info len(2), where A = A and y = y, folded d2_def v2_def p_def]
  have mm: "modMul A a b p = (a * b) mod p" if "a \<in> set (x @ z @ [y])" "b \<in> set (x @ z @ [y])" for a b
    unfolding p_def using that by (intro ff_arith_okD(3) [OF A] bspec [OF small])
  have sym: "accessMatrixShare d2 v1 v2 ?M i j ?d d1 = accessMatrixShare d2 v1 v2 ?M j i ?d d1" for i j
    by (auto simp: accessMatrixShare_def)
  have "accessMatrixShare d2 v1 v2 ?M i j ?d d1 = (?w ! i * ?w ! j) mod p" if "i < ?d" "j < ?d" for i j
  proof (cases "i \<le> j")
    case True
    then show ?thesis using that by (intro acc)
  next
    case False
    then show ?thesis unfolding sym [of i j] using that acc [of j i] by (simp add: mult.commute)
  qed
  then have matrix: "concat (map (\<lambda>i. map (\<lambda>j. accessMatrixShare d2 v1 v2 ?M i j ?d d1) [0..<?d]) [0..<?d])
      = concat (map (\<lambda>i. map (\<lambda>j. (?w ! i * ?w ! j) mod p) [0..<?d]) [0..<?d])"
    by (intro arg_cong [where f = concat] map_cong refl) simp
  have xy: "?M ! (i * (d2 + 1) + ?d - d1) = (?w ! i * y) mod p" if i: "i < d1" for i
  proof -
    have "i * (d2 + 1) + ?d - d1 = i * (d2 + 1) + d2" using d(1) by simp
    moreover have "?M ! (i * (d2 + 1) + d2) = (v1 ! i * v2 ! d2) mod p"
      unfolding cross_products_def using i by (intro nth_grid) simp_all
    ultimately show ?thesis using c1(1) [OF i] c2(2) i len by (simp add: nth_append d1_def)
  qed
  have zy: "v2 ! ((?d - d1 + 1) + (?d - d1) * (?d - d1 + 1) div 2 + (i - d1)) = (?w ! i * y) mod p"
    if i: "d1 \<le> i" "i < ?d" for i
  proof -
    have "i - d1 < d2" using i d by simp
    then have "v2 ! ((d2 + 1) + tri d2 + (i - d1)) = modMul A (z ! (i - d1)) y p" by (rule c2(4))
    moreover have "?d - d1 = d2" using d by simp
    ultimately show ?thesis
      using i d len by (simp add: tri_def mm nth_append d1_def d2_def)
  qed
  have off: "(?d - d1 + 1) + ((?d - d1) * (?d - d1 + 3)) div 2 = (d2 + 1) + tri d2 + d2"
    using d tri_plus [of d2] by simp
  have "map (\<lambda>i. ?M ! (i * (d2 + 1) + ?d - d1)) [0..<d1]
      @ map (\<lambda>i. v2 ! ((?d - d1 + 1) + (?d - d1) * (?d - d1 + 1) div 2 + (i - d1))) [d1..<?d]
      = map (\<lambda>i. (?w ! i * y) mod p) ([0..<d1] @ [d1..<?d])"
    unfolding map_append by (intro arg_cong2 [where f = append] map_cong refl)
      (simp_all only: set_upt atLeastLessThan_iff xy zy)
  also have "[0..<d1] @ [d1..<?d] = [0..<?d]" using d upt_add_eq_append [of 0 d1 d2] by (simp add: add.commute)
  finally have vec: "map (\<lambda>i. ?M ! (i * (d2 + 1) + ?d - d1)) [0..<d1]
      @ map (\<lambda>i. v2 ! ((?d - d1 + 1) + (?d - d1) * (?d - d1 + 1) div 2 + (i - d1))) [d1..<?d]
      = map (\<lambda>i. (?w ! i * y) mod p) [0..<?d]" .
  show ?thesis
    unfolding payload_output_def payload_spec_def Let_def d(2) matrix off
    using vec c2(5-7) by (simp add: mm)
qed

subsection \<open>The computation on shares\<close>

text \<open>The computation picks cells whatever they hold, so it commutes with opening shares.\<close>

datatype cell = C1 nat | C2 nat | CM nat

fun pick :: "'a list \<Rightarrow> 'a list \<Rightarrow> 'a list \<Rightarrow> cell \<Rightarrow> 'a" where
  "pick v1 v2 mres (C1 k) = v1 ! k"
| "pick v1 v2 mres (C2 k) = v2 ! k"
| "pick v1 v2 mres (CM k) = mres ! k"

definition matrix_cell :: "nat \<Rightarrow> nat \<Rightarrow> nat \<Rightarrow> nat \<Rightarrow> nat \<Rightarrow> cell" where
  "matrix_cell dv_ivs d d1 i' j' =
     (let (i, j) = (if i' > j' then (j', i') else (i', j')) in
      if i < d1 \<and> j < d1 then C1 (d1 + d1 * (d1 + 1) div 2 - (d1 - i) * (d1 - i + 1) div 2 + (j - i))
      else if i < d1 \<and> j \<ge> d1 then CM (i * (dv_ivs + 1) + (j - d1))
      else C2 ((d - d1 + 1) + (d - d1) * (d - d1 + 1) div 2 - (d - i) * (d - i + 1) div 2 + (j - i)))"

definition payload_cells :: "nat \<Rightarrow> nat \<Rightarrow> nat \<Rightarrow> cell list" where
  "payload_cells d d1 dv_ivs =
     (let off = (d - d1 + 1) + ((d - d1) * (d - d1 + 3)) div 2 in
      concat (map (\<lambda>i. map (matrix_cell dv_ivs d d1 i) [0..<d]) [0..<d]) @
      map (\<lambda>i. CM (i * (dv_ivs + 1) + d - d1)) [0..<d1] @
      map (\<lambda>i. C2 ((d - d1 + 1) + (d - d1) * (d - d1 + 1) div 2 + (i - d1))) [d1..<d] @
      [C2 off, C2 (off + 1), C2 (off + 2)])"

lemma payload_output_pick:
  "payload_output d d1 dv_ivs v1 v2 mres = map (pick v1 v2 mres) (payload_cells d d1 dv_ivs)"
proof -
  have "accessMatrixShare dv_ivs v1 v2 mres i j d d1 = pick v1 v2 mres (matrix_cell dv_ivs d d1 i j)" for i j
    by (simp add: accessMatrixShare_def matrix_cell_def Let_def split: prod.splits)
  then show ?thesis
    by (simp add: payload_output_def payload_cells_def Let_def map_concat comp_def)
qed

fun cell_ok :: "nat \<Rightarrow> nat \<Rightarrow> cell \<Rightarrow> bool" where
  "cell_ok l n (C1 k) = (k < l)"
| "cell_ok l n (C2 k) = (k < l)"
| "cell_ok l n (CM k) = (k < n)"

lemma triangle_bound:
  assumes "i \<le> j" "j < n" shows "tri n - tri (n - i) + (j - i) < tri n"
proof -
  have "tri (n - i) \<le> tri n" by (rule tri_mono) simp
  moreover have "tri (n - i) = Suc (n - Suc i) + tri (n - Suc i)"
    using assms by (metis Suc_diff_Suc le_less_trans tri_Suc)
  ultimately show ?thesis using assms by linarith
qed

lemma grid_bound: "i < d1 \<Longrightarrow> k < n \<Longrightarrow> i * n + k < d1 * (n :: nat)"
proof -
  assume "i < d1" "k < n"
  then have "i * n + k < Suc i * n" by simp
  also have "\<dots> \<le> d1 * n" using \<open>i < d1\<close> by (intro mult_le_mono1) simp
  finally show ?thesis .
qed

lemma matrix_cell_ok:
  assumes "i \<le> j" "j < d2 + d1"
  shows "cell_ok (computePayloadLength d1 d2) (d1 * (d2 + 1)) (matrix_cell d2 (d2 + d1) d1 i j)"
proof -
  have b1: "d1 + tri d1 \<le> computePayloadLength d1 d2"
    and b2: "(d2 + 1) + tri d2 + d2 + 3 \<le> computePayloadLength d1 d2"
    using tri_plus [of d2] by (simp_all add: computePayloadLength_def tri_def)
  have f: "(i > j) = False" using assms by simp
  consider "j < d1" | "i < d1" "d1 \<le> j" | "d1 \<le> i" using assms by linarith
  then show ?thesis
  proof cases
    case 1
    have "d1 + tri d1 - tri (d1 - i) + (j - i) = d1 + (tri d1 - tri (d1 - i) + (j - i))"
      by (rule add_diff_shift, rule tri_mono) simp
    then have "d1 + tri d1 - tri (d1 - i) + (j - i) < computePayloadLength d1 d2"
      using triangle_bound [OF assms(1) 1] b1 by linarith
    with 1 assms f show ?thesis by (simp add: matrix_cell_def tri_def)
  next
    case 2
    then have "i * (d2 + 1) + (j - d1) < d1 * (d2 + 1)" using assms by (intro grid_bound) simp_all
    with 2 f show ?thesis by (simp add: matrix_cell_def)
  next
    case 3
    then have e: "d2 + d1 - i = d2 - (i - d1)" "j - i = (j - d1) - (i - d1)" "(i < d1) = False" by simp_all
    have "(d2 + 1) + tri d2 - tri (d2 - (i - d1)) + ((j - d1) - (i - d1))
        = (d2 + 1) + (tri d2 - tri (d2 - (i - d1)) + ((j - d1) - (i - d1)))"
      by (rule add_diff_shift, rule tri_mono) simp
    moreover have "tri d2 - tri (d2 - (i - d1)) + ((j - d1) - (i - d1)) < tri d2"
      using 3 assms by (intro triangle_bound) simp_all
    ultimately have "(d2 + 1) + tri d2 - tri (d2 - (i - d1)) + ((j - d1) - (i - d1)) < computePayloadLength d1 d2"
      using b2 by linarith
    moreover have "matrix_cell d2 (d2 + d1) d1 i j
        = C2 ((d2 + d1 - d1 + 1) + (d2 + d1 - d1) * (d2 + d1 - d1 + 1) div 2 -
            (d2 + d1 - i) * (d2 + d1 - i + 1) div 2 + (j - i))"
      unfolding matrix_cell_def Let_def f if_False prod.case unfolding e(3) by simp
    ultimately show ?thesis unfolding e tri_def by simp
  qed
qed

lemma payload_cells_ok:
  "list_all (cell_ok (computePayloadLength d1 d2) (d1 * (d2 + 1))) (payload_cells (d2 + d1) d1 d2)"
proof -
  let ?ok = "cell_ok (computePayloadLength d1 d2) (d1 * (d2 + 1))"
  have b2: "(d2 + 1) + tri d2 + d2 + 3 \<le> computePayloadLength d1 d2"
    using tri_plus [of d2] by (simp add: computePayloadLength_def)
  have sym: "matrix_cell d2 (d2 + d1) d1 i j = matrix_cell d2 (d2 + d1) d1 j i" for i j
    by (auto simp: matrix_cell_def)
  have m: "?ok (matrix_cell d2 (d2 + d1) d1 i j)" if "i < d2 + d1" "j < d2 + d1" for i j
    using matrix_cell_ok [of i j d2 d1] matrix_cell_ok [of j i d2 d1] sym [of i j] that by (cases "i \<le> j") simp_all
  have x: "?ok (CM (i * (d2 + 1) + (d2 + d1) - d1))" if "i < d1" for i
    using grid_bound [OF that, of d2 "d2 + 1"] by simp
  have z: "?ok (C2 ((d2 + d1 - d1 + 1) + (d2 + d1 - d1) * (d2 + d1 - d1 + 1) div 2 + (i - d1)))"
    if "i < d2 + d1" for i
    using that b2 by (simp add: tri_def)
  have off: "(d2 + d1 - d1 + 1) + ((d2 + d1 - d1) * (d2 + d1 - d1 + 3)) div 2 = (d2 + 1) + tri d2 + d2"
    using tri_plus [of d2] by simp
  show ?thesis
    unfolding payload_cells_def Let_def off list_all_append
  proof (intro conjI)
    show "list_all ?ok (concat (map (\<lambda>i. map (matrix_cell d2 (d2 + d1) d1 i) [0..<d2 + d1]) [0..<d2 + d1]))"
      using m by (simp add: list_all_iff)
    show "list_all ?ok (map (\<lambda>i. CM (i * (d2 + 1) + (d2 + d1) - d1)) [0..<d1])"
      unfolding list_all_iff set_map
      by (rule ballI, erule imageE) (simp only: set_upt atLeastLessThan_iff x)
    show "list_all ?ok (map (\<lambda>i. C2 ((d2 + d1 - d1 + 1) + (d2 + d1 - d1) * (d2 + d1 - d1 + 1) div 2 + (i - d1)))
        [d1..<d2 + d1])"
      unfolding list_all_iff set_map
      by (rule ballI, erule imageE) (simp only: set_upt atLeastLessThan_iff z)
  qed (use b2 in simp)
qed

text \<open>Shares \<open>xss\<close> of a vector open to \<open>v\<close> in their first \<open>n\<close> entries.\<close>

definition opens_to :: "LargeNum \<Rightarrow> nat \<Rightarrow> LargeNum list list \<Rightarrow> LargeNum list \<Rightarrow> bool" where
  "opens_to p n xss v \<longleftrightarrow> (\<forall>k<n. open_mod p (map (\<lambda>xs. xs ! k) xss) = v ! k mod p)"

lemma payload_output_opens:
  assumes "opens_to p (computePayloadLength d1 d2) (map vec1 sts) v1"
    and "opens_to p (computePayloadLength d1 d2) (map vec2 sts) v2"
    and "opens_to p (d1 * (d2 + 1)) (map multiplyResults sts) mres"
    and "t < length (payload_cells (d2 + d1) d1 d2)"
  shows "open_mod p (map (\<lambda>st. payload_output (d2 + d1) d1 d2 (vec1 st) (vec2 st) (multiplyResults st) ! t) sts)
    = payload_output (d2 + d1) d1 d2 v1 v2 mres ! t mod p"
proof -
  define c where "c = payload_cells (d2 + d1) d1 d2 ! t"
  have "cell_ok (computePayloadLength d1 d2) (d1 * (d2 + 1)) c"
    using payload_cells_ok [of d1 d2] assms(4) by (simp add: c_def list_all_length)
  then have "open_mod p (map (\<lambda>st. pick (vec1 st) (vec2 st) (multiplyResults st) c) sts) = pick v1 v2 mres c mod p"
    using assms(1-3) by (cases c) (simp_all add: opens_to_def comp_def)
  then show ?thesis using assms(4) by (simp add: payload_output_pick c_def)
qed

subsection \<open>Properties\<close>

text \<open>
  C2: The payload computation delivers the moments of the joined row. When the parties' shares of
  the two extended rows and of the cross products open to what the verticals \<open>x\<close> and
  \<open>(z, y)\<close> prepared, the entries each party hands on open to all \<open>w_i * w_j\<close>, all
  \<open>w_i * y\<close>, \<open>y * y\<close>, \<open>y\<close> and 1 of the row \<open>w = x @ z\<close>; the payload
  length is long enough for every index the code forms.
\<close>

theorem payload_correct:
  assumes "info_ok info" and "ff_arith_ok A" and "1 < startModulus info"
    and "length x = verticalNonDV_numIVs info" and "length z = verticalDV_numIVs info"
    and "\<forall>a \<in> set (x @ z @ [y]). a < startModulus info"
    and "opens_to (startModulus info) (payloadLength info) (map vec1 sts) (extend_row_nonDV A info x)"
    and "opens_to (startModulus info) (payloadLength info) (map vec2 sts) (extend_row_DV A info (z @ [y]))"
    and "opens_to (startModulus info) (verticalNonDV_numIVs info * (verticalDV_numIVs info + 1)) results
      (cross_products (startModulus info) (verticalNonDV_numIVs info) (verticalDV_numIVs info)
        (extend_row_nonDV A info x) (extend_row_DV A info (z @ [y])))"
    and "length results = length sts"
    and "t < length (payload_spec (startModulus info) (x @ z) y)"
  shows "open_mod (startModulus info)
      (map (\<lambda>(res, st). rp_output (fst (payload_handleComplete info res st)) ! t) (zip results sts))
    = payload_spec (startModulus info) (x @ z) y ! t"
proof -
  let ?p = "startModulus info" and ?d1 = "verticalNonDV_numIVs info" and ?d2 = "verticalDV_numIVs info"
  let ?v1 = "extend_row_nonDV A info x" and ?v2 = "extend_row_DV A info (z @ [y])"
  let ?M = "cross_products ?p ?d1 ?d2 ?v1 ?v2"
  define ss where "ss = map (\<lambda>(res, st). st\<lparr>multiplyResults := res\<rparr>) (zip results sts)"
  have info: "num_IVs info = ?d2 + ?d1" "payloadLength info = computePayloadLength ?d1 ?d2"
    using assms(1) by (simp_all add: info_ok_def)
  have maps: "map vec1 ss = map vec1 sts" "map vec2 ss = map vec2 sts" "map multiplyResults ss = results"
    using assms(10) unfolding ss_def map_map comp_def case_prod_unfold by (simp_all add: list_eq_iff_nth_eq)
  have plain: "payload_output (?d2 + ?d1) ?d1 ?d2 ?v1 ?v2 ?M = payload_spec ?p (x @ z) y"
    using payload_plain [OF assms(1,2,4,5,6)] unfolding info .
  have t: "t < length (payload_cells (?d2 + ?d1) ?d1 ?d2)"
    using assms(11) unfolding plain [symmetric] payload_output_pick by simp
  have "open_mod ?p (map (\<lambda>st. payload_output (?d2 + ?d1) ?d1 ?d2 (vec1 st) (vec2 st) (multiplyResults st) ! t) ss)
      = payload_output (?d2 + ?d1) ?d1 ?d2 ?v1 ?v2 ?M ! t mod ?p"
    using assms(7-9) t unfolding info by (intro payload_output_opens) (simp_all only: maps)
  moreover have "payload_spec ?p (x @ z) y ! t \<in> set (payload_spec ?p (x @ z) y)" using assms(11) by simp
  then have "payload_spec ?p (x @ z) y ! t < ?p"
    using assms(3,6) by (auto simp: payload_spec_def)
  moreover have "map (\<lambda>(res, st). rp_output (fst (payload_handleComplete info res st)) ! t) (zip results sts)
      = map (\<lambda>st. payload_output (?d2 + ?d1) ?d1 ?d2 (vec1 st) (vec2 st) (multiplyResults st) ! t) ss"
    unfolding ss_def map_map by (intro map_cong refl) (auto simp: payload_handleComplete_def Let_def info)
  ultimately show ?thesis unfolding plain by simp
qed

text \<open>A query with one independent variable on either side, for the witness.\<close>

definition example_info :: RegressionInfo where
  "example_info = RegressionInfo_new (\<lambda>n. if n \<le> 101 then 101 else n + 1) (\<lambda>_ _ _. 6)
     \<lparr>numDataowners = 2, maxListSize = 3, maxIntersectionSize = 0, bitsOfPrecision = 0,
      bytesInLookupTableCells = 1, max_F_t_table_num_rows = 10, key_max = 50\<rparr>
     0 0 1 1 1 False Identity_default Identity_default"

theorem payload_correct_witness:
  "open_mod 101 (map (\<lambda>(res, st). rp_output (fst (payload_handleComplete example_info res st)) ! 1)
     (zip [[7, 8], [100, 0]]
        [\<lparr>vec1 = [5, 4, 0, 0, 0, 0, 0], vec2 = [3, 4, 9, 12, 16, 4, 1], multiplyResults = [], rp_output = []\<rparr>,
         \<lparr>vec1 = [98, 0, 0, 0, 0, 0, 0], vec2 = [0, 0, 0, 0, 0, 0, 0], multiplyResults = [], rp_output = []\<rparr>]))
   = 6"
proof -
  let ?sts = "[\<lparr>vec1 = [5, 4, 0, 0, 0, 0, 0], vec2 = [3, 4, 9, 12, 16, 4, 1], multiplyResults = [], rp_output = []\<rparr>,
     \<lparr>vec1 = [98, 0, 0, 0, 0, 0, 0], vec2 = [0, 0, 0, 0, 0, 0, 0], multiplyResults = [], rp_output = []\<rparr>]"
  have info: "startModulus example_info = 101" "verticalNonDV_numIVs example_info = 1"
    "verticalDV_numIVs example_info = 1" "payloadLength example_info = 7"
    by (simp_all add: example_info_def RegressionInfo_new_def Let_def computePayloadLength_def)
  have v1: "extend_row_nonDV nat_arith example_info [2] = [2, 4, 0, 0, 0, 0, 0]" by code_simp
  have v2: "extend_row_DV nat_arith example_info ([3] @ [4]) = [3, 4, 9, 12, 16, 4, 1]" by code_simp
  have M: "cross_products 101 1 1 [2, 4, 0, 0, 0, 0, 0] [3, 4, 9, 12, 16, 4, 1] = [6, 8]" by code_simp
  have o1: "opens_to 101 7 (map vec1 ?sts) [2, 4, 0, 0, 0, 0, 0]" by code_simp
  have o2: "opens_to 101 7 (map vec2 ?sts) [3, 4, 9, 12, 16, 4, 1]" by code_simp
  have oM: "opens_to 101 (1 * (1 + 1)) [[7, 8], [100, 0]] [6, 8]" by code_simp
  have spec: "payload_spec 101 ([2] @ [3]) 4 = [4, 6, 6, 9, 8, 12, 16, 4, 1]" by code_simp
  show ?thesis
    using payload_correct [of example_info nat_arith "[2]" "[3]" 4 ?sts "[[7, 8], [100, 0]]" 1] RegressionInfo_new_ok
    unfolding info v1 v2 M spec using o1 o2 oM by (simp add: nat_arith_ok example_info_def)
qed

end
