(* ===== verification/Exchange.thy ===== *)
theory Exchange
  imports Payload
begin

text \<open>
  The first phase of \<open>dataowner/Regression.cpp\<close>: each dataowner splits its padded list into
  shares for every party of the other vertical, sends them, stores the shares it receives, and joins
  the sorting protocols with the arrival of the dealer's randomness before it goes on. Handlers work
  on every extension of the record, since the later phases add fields.
\<close>

subsection \<open>State\<close>

datatype reg_state =
    awaitingRandomnessAndSISOSort | awaitingRandomnessOnly | awaitingSISOSort | awaitingZipAdjacent
  | awaitingZipReduce | awaitingBatchedModConvUp | awaitingMatrixMultiply | awaitingMatrixReveal
  | awaitingRegressionMultiply | awaitingFirstCompare | awaitingFirstTypeCastFromBit
  | awaitingNegativeCorrectionMultiply | awaitingDivision | awaitingNegativeRecorrectionMultiply
  | awaitingFirstMultiplyForErrorTerms | awaitingSecondMultiplyForErrorTerms
  | awaitingThirdMultiplyForErrorTerms | awaitingFourthMultiplyForErrorTerms
  | awaitingFifthMultiplyForErrorTerms | awaitingDivisionForErrorTerms
  | awaitingCompareForFtStatistics | awaitingBatchedTypeCastFromBit
  | awaitingCompareForFtStatisticsEndModulus | awaitingBatchedTypeCastFromBitLast
  | awaitingBatchedLookup

text \<open>The sub-protocols the regression starts; all but the patron are library code.\<close>

datatype prim =
    PMultiply LargeNum LargeNum
  | PCompare LargeNum LargeNum LargeNum
  | PTypeCastFromBit u8 LargeNum Identity
  | PDivide LargeNum LargeNum
  | PModConvUp LargeNum
  | PReveal LargeNum LargeNum
  | PMatrixMult "LargeNum list list" "LargeNum list list"
  | PLookup LargeNum "u8 list list" nat Identity
  | PSISOSort "Observation list" LargeNum LargeNum Identity Identity
  | PZipAdjacent "Observation list" nat nat LargeNum Identity
  | PZipReduce "Observation list" Identity
  | PRandomnessPatron nat nat

datatype reg_call = Run "prim list" "PeerSet option"

type_synonym reg_effect = "(reg_call, bytes) effect"

record RegCross =
  reg_state :: reg_state
  ownList :: ObservationList
  outgoingListShares :: "Observation list list"
  sharedLists :: "Observation list list"
  indexOfCrossParties :: "(Identity \<times> nat) list"
  numPartiesAwaiting :: nat
  randomnessDone :: bool
  vectorZippedAdjacent :: "Observation list list"

text \<open>What a handler reads but never writes.\<close>

record RegEnv =
  env_arith :: ff_arith
  env_msg :: ff_msg
  env_globals :: GlobalInfo
  env_info :: RegressionInfo
  env_self :: Identity
  env_peers :: PeerSet

text \<open>The completed sub-protocol: its dynamic type, its peers and its output fields.\<close>

record completed =
  is_patron :: bool
  f_peers :: PeerSet
  out_list :: "Observation list"
  out_nums :: "LargeNum list"
  out_bits :: "u8 list"
  out_matrix :: "LargeNum list list"
  out_bytes :: "u8 list list"

definition workers :: "PeerSet \<Rightarrow> PeerSet option" where
  "workers peers =
     (case PeerSet_copy peers of None \<Rightarrow> None
      | Some ps \<Rightarrow> map_option removeRecipients (removeDealer ps))"

definition pair_peers :: "Identity \<Rightarrow> Identity \<Rightarrow> PeerSet option" where
  "pair_peers self other =
     (case PeerSet_add self PeerSet_empty of None \<Rightarrow> None | Some ps \<Rightarrow> PeerSet_add other ps)"

definition cross_peers :: "RegEnv \<Rightarrow> Identity list" where
  "cross_peers E = filter (\<lambda>other. vertical other \<noteq> vertical (env_self E)) (forEachDataowner (env_peers E))"

definition temp_revealer :: "RegEnv \<Rightarrow> Identity \<Rightarrow> Identity" where
  "temp_revealer E other =
     (if selfVertical (env_info E) = verticalDV (env_info E) then env_self E else other)"

subsection \<open>Splitting the list\<close>

definition outgoing_observation :: "ObservationList \<Rightarrow> Observation \<Rightarrow> Observation" where
  "outgoing_observation own rnd =
     \<lparr>keyCols = map (\<lambda>k. keyCols rnd ! k) [0..<numKeyCols own],
      arithmeticPayloadCols = map (\<lambda>k. arithmeticPayloadCols rnd ! k) [0..<numArithmeticPayloadCols own],
      XORPayloadCols = map (\<lambda>k. XORPayloadCols rnd ! k) [0..<numXORPayloadCols own]\<rparr>"

definition my_observation :: "ff_arith \<Rightarrow> RegressionInfo \<Rightarrow> ObservationList \<Rightarrow> Observation \<Rightarrow> Observation \<Rightarrow> Observation" where
  "my_observation A info own ob rnd =
     \<lparr>keyCols = map (\<lambda>k. modSub A (keyCols ob ! k) (keyCols rnd ! k) (keyModulus info)) [0..<numKeyCols own],
      arithmeticPayloadCols = map (\<lambda>k. modSub A (arithmeticPayloadCols ob ! k) (arithmeticPayloadCols rnd ! k)
        (startModulus info)) [0..<numArithmeticPayloadCols own],
      XORPayloadCols = map (\<lambda>k. XORPayloadCols ob ! k XOR XORPayloadCols rnd ! k) [0..<numXORPayloadCols own]\<rparr>"

definition empty_observation :: Observation where
  "empty_observation = \<lparr>keyCols = [], arithmeticPayloadCols = [], XORPayloadCols = []\<rparr>"

text \<open>\<open>rnd i j\<close> holds the draws for row \<open>j\<close> of the list for cross party \<open>i\<close>.\<close>

definition setupCrossVerticalShares ::
  "ff_arith \<Rightarrow> GlobalInfo \<Rightarrow> RegressionInfo \<Rightarrow> (nat \<Rightarrow> nat \<Rightarrow> Observation) \<Rightarrow> 'a RegCross_scheme \<Rightarrow> 'a RegCross_scheme" where
  "setupCrossVerticalShares A globals info rnd st =
     (let n = maxListSize globals; own = ownList st;
          mine = (\<lambda>i. map (\<lambda>j. my_observation A info own (elements own ! j) (rnd i j)) [0..<n]);
          gap = replicate n empty_observation
      in st\<lparr>outgoingListShares := outgoingListShares st @
              map (\<lambda>i. map (\<lambda>j. outgoing_observation own (rnd i j)) [0..<n]) [0..<numCrossParties info],
            sharedLists := sharedLists st @
              map (\<lambda>i. if selfVertical info \<noteq> verticalDV info then gap @ mine i else mine i @ gap)
                [0..<numCrossParties info]\<rparr>)"

subsection \<open>The message of a share\<close>

definition write_observation :: "ff_msg \<Rightarrow> Observation \<Rightarrow> bytes" where
  "write_observation M ob =
     concat (map (wrLarge M) (keyCols ob)) @ concat (map (wrLarge M) (arithmeticPayloadCols ob)) @
     concat (map (wr8 M) (XORPayloadCols ob))"

text \<open>The reads ignore failures: the variable then keeps the zero it starts with.\<close>

fun read_values :: "'a::zero reader \<Rightarrow> nat \<Rightarrow> bytes \<Rightarrow> 'a list \<times> bytes" where
  "read_values rd 0 buf = ([], buf)"
| "read_values rd (Suc n) buf =
     (let (_, x, buf') = try_read rd 0 buf; (xs, buf'') = read_values rd n buf' in (x # xs, buf''))"

definition read_observation :: "ff_msg \<Rightarrow> ObservationList \<Rightarrow> bytes \<Rightarrow> Observation \<times> bytes" where
  "read_observation M own buf =
     (let (ks, buf) = read_values (rdLarge M) (numKeyCols own) buf;
          (as, buf) = read_values (rdLarge M) (numArithmeticPayloadCols own) buf;
          (xs, buf) = read_values (rd8 M) (numXORPayloadCols own) buf
      in (\<lparr>keyCols = ks, arithmeticPayloadCols = as, XORPayloadCols = xs\<rparr>, buf))"

fun read_observations :: "ff_msg \<Rightarrow> ObservationList \<Rightarrow> nat \<Rightarrow> bytes \<Rightarrow> Observation list" where
  "read_observations M own 0 buf = []"
| "read_observations M own (Suc n) buf =
     (let (ob, buf') = read_observation M own buf in ob # read_observations M own n buf')"

definition share_message :: "RegEnv \<Rightarrow> 'a RegCross_scheme \<Rightarrow> nat \<Rightarrow> bytes" where
  "share_message E st i =
     concat (map (\<lambda>j. write_observation (env_msg E) (outgoingListShares st ! i ! j))
       [0..<maxListSize (env_globals E)])"

definition shareWithCrossVerticalParties :: "RegEnv \<Rightarrow> 'a RegCross_scheme \<Rightarrow> reg_effect list" where
  "shareWithCrossVerticalParties E st =
     map (\<lambda>(i, other). Send other (share_message E st i)) (enumerate 0 (cross_peers E))"

definition setupCrossParties :: "RegEnv \<Rightarrow> 'a RegCross_scheme \<Rightarrow> 'a RegCross_scheme" where
  "setupCrossParties E st =
     st\<lparr>indexOfCrossParties := map (\<lambda>(i, other). (other, i)) (enumerate 0 (cross_peers E)),
        numPartiesAwaiting := numCrossParties (env_info E)\<rparr>"

text \<open>\<open>std::map::operator[]\<close>: an absent key reads as 0.\<close>

fun cross_index :: "Identity \<Rightarrow> (Identity \<times> nat) list \<Rightarrow> nat" where
  "cross_index p [] = 0"
| "cross_index p ((q, i) # qs) = (if identity_eq q p then i else cross_index p qs)"

subsection \<open>Handlers\<close>

definition Regression_init ::
  "RegEnv \<Rightarrow> nat \<Rightarrow> nat \<Rightarrow> 'a RegCross_scheme \<Rightarrow> 'a RegCross_scheme \<times> reg_effect list" where
  "Regression_init E F_rows t_rows st =
     (let st = setupCrossParties E (st\<lparr>reg_state := awaitingRandomnessAndSISOSort\<rparr>)
      in (st, shareWithCrossVerticalParties E st @
              [Invoke (Run [PRandomnessPatron F_rows t_rows]
                 (map_option removeRecipients (PeerSet_copy (env_peers E))))]))"

definition store_shares :: "nat \<Rightarrow> Observation list \<Rightarrow> Observation list \<Rightarrow> Observation list" where
  "store_shares off obs shared = fold (\<lambda>j s. s[j + off := obs ! j]) [0..<length obs] shared"

definition siso_call :: "RegEnv \<Rightarrow> 'a RegCross_scheme \<Rightarrow> nat \<Rightarrow> Identity \<Rightarrow> reg_call" where
  "siso_call E st i other =
     Run [PSISOSort (sharedLists st ! i) (startModulus (env_info E)) (keyModulus (env_info E))
            (temp_revealer E other) (reg_dealer (env_info E))]
       (fold (\<lambda>d ps. case ps of None \<Rightarrow> None | Some ps \<Rightarrow> PeerSet_add d ps) (forEachDealer (env_peers E))
         (pair_peers (env_self E) other))"

definition Regression_handleReceive ::
  "RegEnv \<Rightarrow> Identity \<Rightarrow> bytes \<Rightarrow> 'a RegCross_scheme \<Rightarrow> 'a RegCross_scheme \<times> reg_effect list" where
  "Regression_handleReceive E sender msg st =
     (let n = maxListSize (env_globals E); info = env_info E;
          obs = read_observations (env_msg E) (ownList st) n msg;
          off = n * (if selfVertical info = verticalDV info then 1 else 0);
          k = cross_index sender (indexOfCrossParties st);
          st = st\<lparr>sharedLists := (sharedLists st)[k := store_shares off obs (sharedLists st ! k)],
                  numPartiesAwaiting := numPartiesAwaiting st - 1\<rparr>
      in if numPartiesAwaiting st = 0 then
           (st\<lparr>numPartiesAwaiting := numCrossParties info, reg_state := awaitingSISOSort\<rparr>,
            map (\<lambda>(i, other). Invoke (siso_call E st i other)) (enumerate 0 (cross_peers E)))
         else (st, []))"

text \<open>The first part of \<open>handleComplete\<close>; the flag says whether the switch is reached.\<close>

definition join_randomness :: "completed \<Rightarrow> 'a RegCross_scheme \<Rightarrow> 'a RegCross_scheme \<times> bool" where
  "join_randomness f st =
     (if \<not> randomnessDone st then
        (if \<not> is_patron f then
           let st = st\<lparr>numPartiesAwaiting := numPartiesAwaiting st - 1\<rparr>
           in (if numPartiesAwaiting st = 0 then st\<lparr>reg_state := awaitingRandomnessOnly\<rparr> else st, False)
         else
           let st = st\<lparr>randomnessDone := True\<rparr>
           in if reg_state st = awaitingRandomnessOnly
              then (st\<lparr>numPartiesAwaiting := 1, reg_state := awaitingSISOSort\<rparr>, True)
              else (st\<lparr>reg_state := awaitingSISOSort\<rparr>, False))
      else (st, True))"

definition zip_call :: "RegEnv \<Rightarrow> 'a RegCross_scheme \<Rightarrow> nat \<Rightarrow> Identity \<Rightarrow> reg_call" where
  "zip_call E st i other =
     Run [PZipAdjacent (sharedLists st ! i) (2 * maxListSize (env_globals E)) (payloadLength (env_info E))
            (startModulus (env_info E)) (temp_revealer E other)]
       (pair_peers (env_self E) other)"

definition complete_SISOSort :: "RegEnv \<Rightarrow> 'a RegCross_scheme \<Rightarrow> 'a RegCross_scheme \<times> reg_effect list" where
  "complete_SISOSort E st =
     (let st = st\<lparr>numPartiesAwaiting := numPartiesAwaiting st - 1\<rparr>
      in if numPartiesAwaiting st = 0 then
           (st\<lparr>numPartiesAwaiting := numCrossParties (env_info E),
               vectorZippedAdjacent := take (numCrossParties (env_info E)) (vectorZippedAdjacent st) @
                 replicate (numCrossParties (env_info E) - length (vectorZippedAdjacent st)) [],
               reg_state := awaitingZipAdjacent\<rparr>,
            map (\<lambda>(i, other). Invoke (zip_call E st i other)) (enumerate 0 (cross_peers E)))
         else (st, []))"

definition zip_cross_party :: "RegEnv \<Rightarrow> completed \<Rightarrow> Identity" where
  "zip_cross_party E f =
     fold (\<lambda>other c. if identity_ne other (env_self E) then other else c)
       (forEachDataowner (f_peers f)) Identity_default"

definition complete_ZipAdjacent ::
  "RegEnv \<Rightarrow> completed \<Rightarrow> 'a RegCross_scheme \<Rightarrow> 'a RegCross_scheme \<times> reg_effect list" where
  "complete_ZipAdjacent E f st =
     (let k = cross_index (zip_cross_party E f) (indexOfCrossParties st);
          st = st\<lparr>vectorZippedAdjacent := (vectorZippedAdjacent st)[k := out_list f],
                  numPartiesAwaiting := numPartiesAwaiting st - 1\<rparr>
      in if numPartiesAwaiting st = 0 then
           (st\<lparr>numPartiesAwaiting := numCrossParties (env_info E), reg_state := awaitingZipReduce\<rparr>,
            map (\<lambda>(i, other). Invoke (Run [PZipReduce (vectorZippedAdjacent st ! i) (temp_revealer E other)]
                   (pair_peers (env_self E) other)))
              (enumerate 0 (cross_peers E)))
         else (st, []))"

subsection \<open>The exchange of shares\<close>

definition RegCross_new :: "ObservationList \<Rightarrow> RegCross" where
  "RegCross_new own =
     \<lparr>reg_state = awaitingRandomnessAndSISOSort, ownList = own, outgoingListShares = [],
      sharedLists = [], indexOfCrossParties = [], numPartiesAwaiting = 0, randomnessDone = False,
      vectorZippedAdjacent = []\<rparr>"

text \<open>A party after its constructor and the setup in \<open>init\<close>.\<close>

definition ready_party :: "RegEnv \<Rightarrow> (nat \<Rightarrow> nat \<Rightarrow> Observation) \<Rightarrow> ObservationList \<Rightarrow> RegCross" where
  "ready_party E rnd own =
     setupCrossParties E
       (setupCrossVerticalShares (env_arith E) (env_globals E) (env_info E) rnd (RegCross_new own))"

definition observation_ok :: "RegressionInfo \<Rightarrow> ObservationList \<Rightarrow> Observation \<Rightarrow> bool" where
  "observation_ok info own ob \<longleftrightarrow>
     length (keyCols ob) = numKeyCols own \<and> length (arithmeticPayloadCols ob) = numArithmeticPayloadCols own \<and>
     length (XORPayloadCols ob) = numXORPayloadCols own \<and>
     list_all (\<lambda>x. x < keyModulus info) (keyCols ob) \<and>
     list_all (\<lambda>x. x < startModulus info) (arithmeticPayloadCols ob)"

definition observation_opens :: "RegressionInfo \<Rightarrow> Observation \<Rightarrow> Observation \<Rightarrow> Observation \<Rightarrow> bool" where
  "observation_opens info o1 o2 ob \<longleftrightarrow>
     map2 (\<lambda>a b. (a + b) mod keyModulus info) (keyCols o1) (keyCols o2) = keyCols ob \<and>
     map2 (\<lambda>a b. (a + b) mod startModulus info) (arithmeticPayloadCols o1) (arithmeticPayloadCols o2)
       = arithmeticPayloadCols ob \<and>
     map2 (XOR) (XORPayloadCols o1) (XORPayloadCols o2) = XORPayloadCols ob"

lemma outgoing_observation_id:
  "observation_ok info own rnd \<Longrightarrow> outgoing_observation own rnd = rnd"
  by (cases rnd) (auto simp: outgoing_observation_def observation_ok_def intro: nth_equalityI)

lemma my_observation_opens:
  assumes A: "ff_arith_ok A" and ob: "observation_ok info own ob" and rnd: "observation_ok info own rnd"
  shows "observation_opens info (my_observation A info own ob rnd) rnd ob"
    and "observation_opens info rnd (my_observation A info own ob rnd) ob"
proof -
  have add: "modSub A x r m < m" "(modSub A x r m + r) mod m = x" "(r + modSub A x r m) mod m = x"
    if "x < m" "r < m" for x r m
    using ff_arith_okD(2) [OF A that] mod_sub_add [OF that] that by (simp_all add: add.commute)
  have xor: "(a XOR b) XOR b = a" "b XOR (a XOR b) = a" for a b :: u8
    by (simp_all add: xor.assoc xor.left_commute [of b a b])
  show "observation_opens info (my_observation A info own ob rnd) rnd ob"
    "observation_opens info rnd (my_observation A info own ob rnd) ob"
    using ob rnd
    by (simp_all add: observation_opens_def my_observation_def observation_ok_def list_eq_iff_nth_eq
        list_all_length add xor)
qed

context ff_messages begin

lemma read_values_write:
  "read_values (rdLarge M) (length xs) (concat (map (wrLarge M) xs) @ rest) = (xs, rest)"
  "read_values (rd8 M) (length bs) (concat (map (wr8 M) bs) @ rest) = (bs, rest)"
  by (induction xs, simp_all add: try_read_def mLarge.rd_wr)
    (induction bs, simp_all add: try_read_def m8.rd_wr)

lemma read_observation_write:
  "observation_ok info own ob \<Longrightarrow> read_observation M own (write_observation M ob @ rest) = (ob, rest)"
  using read_values_write(1) [of "keyCols ob"] read_values_write(1) [of "arithmeticPayloadCols ob"]
    read_values_write(2) [of "XORPayloadCols ob"]
  by (simp add: read_observation_def write_observation_def observation_ok_def)

lemma read_observations_write:
  "list_all (observation_ok info own) obs \<Longrightarrow>
   read_observations M own (length obs) (concat (map (write_observation M) obs) @ rest) = obs"
proof (induction obs)
  case (Cons ob obs)
  then show ?case
    using read_observation_write [of info own ob "concat (map (write_observation M) obs) @ rest"] by simp
qed simp

end

lemma store_shares_append:
  assumes "length obs = n" "length a = off" "length b = n"
  shows "store_shares off obs (a @ b @ c) = a @ obs @ c"
proof -
  have "k \<le> n \<Longrightarrow> fold (\<lambda>j s. s[j + off := obs ! j]) [0..<k] (a @ b @ c) = a @ take k obs @ drop k b @ c" for k
  proof (induction k)
    case (Suc k)
    then have k: "k < length b" "k < length obs" using assms by simp_all
    have "(a @ take k obs @ drop k b @ c)[k + off := obs ! k]
        = a @ (take k obs @ drop k b @ c)[k := obs ! k]"
      using assms(2) list_update_append [of a _ "k + off"] by simp
    also have "(take k obs @ drop k b @ c)[k := obs ! k] = take k obs @ (drop k b @ c)[0 := obs ! k]"
      using k list_update_append [of "take k obs" _ k] by simp
    also have "(drop k b @ c)[0 := obs ! k] = obs ! k # drop (Suc k) b @ c"
      using k by (simp add: Cons_nth_drop_Suc [symmetric])
    finally have "(a @ take k obs @ drop k b @ c)[k + off := obs ! k] = a @ take (Suc k) obs @ drop (Suc k) b @ c"
      using k by (simp add: take_Suc_conv_app_nth)
    then show ?case using Suc by simp
  qed simp
  from this [of n] show ?thesis using assms by (simp add: store_shares_def)
qed

lemma cross_index_enumerate:
  assumes "distinct ps" "k < length ps" "list_all (\<lambda>p. role p = ROLE_DATAOWNER) ps"
  shows "cross_index (ps ! k) (map (\<lambda>(i, other). (other, i)) (enumerate n ps)) = n + k"
  using assms
proof (induction ps arbitrary: n k)
  case (Cons p ps)
  show ?case
  proof (cases k)
    case 0
    then show ?thesis by (simp add: identity.eq_refl)
  next
    case (Suc k')
    then have "ps ! k' \<in> set ps" using Cons.prems by simp
    then have "p \<noteq> ps ! k'" using Cons.prems by auto
    moreover have "identity_eq p q \<longleftrightarrow> p = q" for q
      using Cons.prems(3) by (cases p, cases q) (auto simp: identity_eq_def)
    ultimately show ?thesis using Suc Cons.IH [of k' "Suc n"] Cons.prems by simp
  qed
qed simp

text \<open>What one party holds for another after the exchange: its own shares, then the received ones
  in the half of the list that belongs to the other vertical.\<close>

lemma received_list:
  fixes E :: RegEnv and own :: ObservationList and rnd :: "nat \<Rightarrow> nat \<Rightarrow> Observation" and k :: nat
  defines "info \<equiv> env_info E" and "n \<equiv> maxListSize (env_globals E)"
  assumes peers: "distinct (cross_peers E)" "k < length (cross_peers E)"
      "list_all (\<lambda>p. role p = ROLE_DATAOWNER) (cross_peers E)" "k < numCrossParties info"
    and M: "ff_msg_ok (env_msg E)"
    and obs: "length obs = n" "list_all (observation_ok info own) obs"
  defines "mine \<equiv> map (\<lambda>j. my_observation (env_arith E) info own (elements own ! j) (rnd k j)) [0..<n]"
  shows "sharedLists (fst (Regression_handleReceive E (cross_peers E ! k)
      (concat (map (write_observation (env_msg E)) obs)) (ready_party E rnd own))) ! k
    = (if selfVertical info = verticalDV info then mine @ obs else obs @ mine)"
proof -
  let ?st = "ready_party E rnd own" and ?gap = "replicate n empty_observation"
  have own: "ownList ?st = own"
    by (simp add: ready_party_def setupCrossParties_def setupCrossVerticalShares_def RegCross_new_def Let_def)
  have shared: "sharedLists ?st ! k = (if selfVertical info \<noteq> verticalDV info then ?gap @ mine else mine @ ?gap)"
    "k < length (sharedLists ?st)"
    using peers(4)
    by (simp_all add: ready_party_def setupCrossParties_def setupCrossVerticalShares_def RegCross_new_def
        Let_def mine_def info_def n_def)
  have idx: "cross_index (cross_peers E ! k) (indexOfCrossParties ?st) = k"
    using cross_index_enumerate [OF peers(1,2,3), of 0] by (simp add: ready_party_def setupCrossParties_def)
  have "read_observations (env_msg E) own n (concat (map (write_observation (env_msg E)) obs)) = obs"
    using ff_messages.read_observations_write [OF ff_messages.intro [OF M] obs(2), of "[]"] obs(1) by simp
  then have "sharedLists (fst (Regression_handleReceive E (cross_peers E ! k)
      (concat (map (write_observation (env_msg E)) obs)) ?st)) ! k
    = store_shares (n * (if selfVertical info = verticalDV info then 1 else 0)) obs (sharedLists ?st ! k)"
    using shared(2) by (simp add: Regression_handleReceive_def Let_def own idx n_def info_def)
  also have "\<dots> = (if selfVertical info = verticalDV info then mine @ obs else obs @ mine)"
  proof -
    have lm: "length mine = n" "length ?gap = n" by (simp_all add: mine_def)
    show ?thesis
      using store_shares_append [OF obs(1) lm(1) lm(2), of "[]"]
        store_shares_append [OF obs(1) list.size(3) lm(2), of mine]
      by (simp add: shared(1) del: replicate_append_same)
  qed
  finally show ?thesis .
qed

subsection \<open>Both halves open\<close>

definition lists_open :: "RegressionInfo \<Rightarrow> Observation list \<Rightarrow> Observation list \<Rightarrow> Observation list \<Rightarrow> bool" where
  "lists_open info xs ys zs \<longleftrightarrow> length xs = length zs \<and> length ys = length zs \<and>
     list_all (\<lambda>j. observation_opens info (xs ! j) (ys ! j) (zs ! j)) [0..<length zs]"

text \<open>What the setup of a run gives a party: its cross parties, and a padded list and draws of the
  right shape. The other party stands at position \<open>k\<close>.\<close>

definition exchange_ok :: "RegEnv \<Rightarrow> (nat \<Rightarrow> nat \<Rightarrow> Observation) \<Rightarrow> ObservationList \<Rightarrow> nat \<Rightarrow> Identity \<Rightarrow> bool" where
  "exchange_ok E rnd own k other \<longleftrightarrow>
     distinct (cross_peers E) \<and> k < length (cross_peers E) \<and> cross_peers E ! k = other \<and>
     list_all (\<lambda>p. role p = ROLE_DATAOWNER) (cross_peers E) \<and> k < numCrossParties (env_info E) \<and>
     length (elements own) = maxListSize (env_globals E) \<and>
     list_all (observation_ok (env_info E) own) (elements own) \<and>
     list_all (\<lambda>j. observation_ok (env_info E) own (rnd k j)) [0..<maxListSize (env_globals E)]"

text \<open>Both parties compute in the same moduli, on lists of the same shape.\<close>

definition same_shape :: "RegEnv \<Rightarrow> RegEnv \<Rightarrow> ObservationList \<Rightarrow> ObservationList \<Rightarrow> bool" where
  "same_shape E E' own own' \<longleftrightarrow>
     maxListSize (env_globals E) = maxListSize (env_globals E') \<and> env_msg E = env_msg E' \<and>
     keyModulus (env_info E) = keyModulus (env_info E') \<and>
     startModulus (env_info E) = startModulus (env_info E') \<and>
     verticalDV (env_info E) = verticalDV (env_info E') \<and>
     numKeyCols own = numKeyCols own' \<and> numArithmeticPayloadCols own = numArithmeticPayloadCols own' \<and>
     numXORPayloadCols own = numXORPayloadCols own'"

lemma observation_ok_shape:
  "same_shape E E' own own' \<Longrightarrow> observation_ok (env_info E) own = observation_ok (env_info E') own'"
  by (auto simp: same_shape_def observation_ok_def fun_eq_iff)

lemma observation_opens_shape:
  "same_shape E E' own own' \<Longrightarrow> observation_opens (env_info E) = observation_opens (env_info E')"
  by (auto simp: same_shape_def observation_opens_def fun_eq_iff)

definition own_share_list :: "RegEnv \<Rightarrow> (nat \<Rightarrow> nat \<Rightarrow> Observation) \<Rightarrow> ObservationList \<Rightarrow> nat \<Rightarrow> Observation list" where
  "own_share_list E rnd own k =
     map (\<lambda>j. my_observation (env_arith E) (env_info E) own (elements own ! j) (rnd k j))
       [0..<maxListSize (env_globals E)]"

definition received_from :: "RegEnv \<Rightarrow> (nat \<Rightarrow> nat \<Rightarrow> Observation) \<Rightarrow> ObservationList \<Rightarrow> nat \<Rightarrow> Identity \<Rightarrow> bytes \<Rightarrow>
    Observation list" where
  "received_from E rnd own k other msg =
     sharedLists (fst (Regression_handleReceive E other msg (ready_party E rnd own))) ! k"

lemma share_message_draws:
  assumes "exchange_ok E rnd own k other"
  shows "share_message E (ready_party E rnd own) k =
    concat (map (write_observation (env_msg E)) (map (rnd k) [0..<maxListSize (env_globals E)]))"
proof -
  have "outgoing_observation own (rnd k j) = rnd k j" if "j < maxListSize (env_globals E)" for j
    using assms that outgoing_observation_id [of "env_info E" own "rnd k j"]
    by (simp add: exchange_ok_def list_all_iff)
  then show ?thesis
    using assms
    by (simp add: share_message_def ready_party_def setupCrossParties_def setupCrossVerticalShares_def
        RegCross_new_def Let_def exchange_ok_def)
      (intro arg_cong [of _ _ concat] map_cong; simp)
qed

lemma received_from_peer:
  assumes "exchange_ok E rnd own k other" "exchange_ok E' rnd' own' k' other'"
    "same_shape E E' own own'" "ff_msg_ok (env_msg E)"
  shows "received_from E rnd own k other (share_message E' (ready_party E' rnd' own') k') =
    (let mine = own_share_list E rnd own k; theirs = map (rnd' k') [0..<maxListSize (env_globals E)]
     in if selfVertical (env_info E) = verticalDV (env_info E) then mine @ theirs else theirs @ mine)"
proof -
  have "list_all (observation_ok (env_info E) own) (map (rnd' k') [0..<maxListSize (env_globals E)])"
    using assms(2) observation_ok_shape [OF assms(3)] assms(3)
    by (simp add: exchange_ok_def same_shape_def list.pred_map o_def)
  then show ?thesis
    using received_list [of E k "map (rnd' k') [0..<maxListSize (env_globals E)]" own rnd] assms
      share_message_draws [OF assms(2)]
    by (simp add: received_from_def exchange_ok_def same_shape_def own_share_list_def Let_def)
qed

text \<open>
  C4: After two dataowners of different verticals have split their lists and exchanged the shares,
  their shared lists for each other, position by position, open to the list of the party that holds
  the dependent variable followed by the list of the other party. Keys open modulo the key modulus,
  arithmetic payload columns modulo the start modulus, and the remaining columns by exclusive or.
\<close>
theorem shared_lists_open:
  assumes "exchange_ok E rnd own k (env_self E')" "exchange_ok E' rnd' own' k' (env_self E)"
    and "same_shape E E' own own'" "ff_msg_ok (env_msg E)"
    and "ff_arith_ok (env_arith E)" "ff_arith_ok (env_arith E')"
    and "selfVertical (env_info E) = verticalDV (env_info E)"
    and "selfVertical (env_info E') \<noteq> verticalDV (env_info E')"
  shows "lists_open (env_info E)
    (received_from E rnd own k (env_self E') (share_message E' (ready_party E' rnd' own') k'))
    (received_from E' rnd' own' k' (env_self E) (share_message E (ready_party E rnd own) k))
    (elements own @ elements own')"
proof -
  let ?n = "maxListSize (env_globals E)"
  have shape': "same_shape E' E own' own" and msg': "ff_msg_ok (env_msg E')"
    and n': "maxListSize (env_globals E') = ?n"
    using assms(3,4) by (simp_all add: same_shape_def)
  have len: "length (elements own) = ?n" "length (elements own') = ?n"
    using assms(1,2) n' by (simp_all add: exchange_ok_def)
  note opens = observation_opens_shape [OF assms(3)] observation_ok_shape [OF assms(3)]
  have own: "observation_opens (env_info E) (own_share_list E rnd own k ! j) (rnd k j) (elements own ! j)"
    if "j < ?n" for j
    using my_observation_opens(1) [OF assms(5), of "env_info E" own "elements own ! j" "rnd k j"] assms(1) that
    by (simp add: own_share_list_def exchange_ok_def list_all_length)
  have own': "observation_opens (env_info E) (rnd' k' j) (own_share_list E' rnd' own' k' ! j) (elements own' ! j)"
    if "j < ?n" for j
    using my_observation_opens(2) [OF assms(6), of "env_info E'" own' "elements own' ! j" "rnd' k' j"] assms(2) that n'
    by (simp add: own_share_list_def exchange_ok_def list_all_length opens)
  have lens: "length (own_share_list E rnd own k) = ?n" "length (own_share_list E' rnd' own' k') = ?n"
    by (simp_all add: own_share_list_def n')
  have half: "j - ?n < ?n" if "\<not> j < ?n" "j < ?n + ?n" for j using that by simp
  show ?thesis
    unfolding lists_open_def received_from_peer [OF assms(1-4)] received_from_peer [OF assms(2,1) shape' msg'] n'
    using assms(7,8) own own' half by (simp add: Let_def lens len list_all_length nth_append)
qed

definition example_party :: "nat \<Rightarrow> Identity" where
  "example_party v = \<lparr>orgId = DBUID_INVALID, role = ROLE_DATAOWNER, vertical = of_nat v\<rparr>"

text \<open>Two dataowners, the dependent variable with the first.\<close>

definition example_env :: "nat \<Rightarrow> RegEnv" where
  "example_env v =
     \<lparr>env_arith = nat_arith, env_msg = be_msg, env_globals = GlobalInfo_query 1 2,
      env_info = example_info\<lparr>selfVertical := v\<rparr>, env_self = example_party v,
      env_peers = \<lparr>hasDealer = False, dealer = Identity_default, recipients = [],
        dataowners = [[example_party 0], [example_party 1]]\<rparr>\<rparr>"

definition example_rows :: "nat \<Rightarrow> nat \<Rightarrow> ObservationList" where
  "example_rows k a =
     \<lparr>elements = [\<lparr>keyCols = [k], arithmeticPayloadCols = [a], XORPayloadCols = [1]\<rparr>],
      numKeyCols = 1, numArithmeticPayloadCols = 1, numXORPayloadCols = 1\<rparr>"

definition example_draws :: "nat \<Rightarrow> nat \<Rightarrow> nat \<Rightarrow> nat \<Rightarrow> Observation" where
  "example_draws k a i j = \<lparr>keyCols = [k], arithmeticPayloadCols = [a], XORPayloadCols = [3]\<rparr>"

lemma example_env_ok:
  "ff_msg_ok (env_msg (example_env v))" "ff_arith_ok (env_arith (example_env v))"
  by (simp_all add: example_env_def be_msg_ok nat_arith_ok)

lemma example_env_simps [simp]:
  "maxListSize (env_globals (example_env v)) = 1" "env_self (example_env v) = example_party v"
  "keyModulus (env_info (example_env v)) = 101" "startModulus (env_info (example_env v)) = 101"
  "numCrossParties (env_info (example_env v)) = 1" "verticalDV (env_info (example_env v)) = 0"
  "selfVertical (env_info (example_env v)) = v" "env_msg (example_env v) = be_msg"
  by (simp_all add: example_env_def GlobalInfo_query_def example_info_def RegressionInfo_new_def Let_def)

lemma example_cross_peers [simp]:
  "cross_peers (example_env 0) = [example_party 1]" "cross_peers (example_env (Suc 0)) = [example_party 0]"
  by (simp_all add: cross_peers_def example_env_def forEachDataowner_def example_party_def)

theorem shared_lists_open_witness:
  "lists_open (env_info (example_env 0))
    (received_from (example_env 0) (example_draws 9 8) (example_rows 5 7) 0 (example_party 1)
      (share_message (example_env 1) (ready_party (example_env 1) (example_draws 4 6) (example_rows 2 3)) 0))
    (received_from (example_env 1) (example_draws 4 6) (example_rows 2 3) 0 (example_party 0)
      (share_message (example_env 0) (ready_party (example_env 0) (example_draws 9 8) (example_rows 5 7)) 0))
    (elements (example_rows 5 7) @ elements (example_rows 2 3))"
proof -
  have ex: "exchange_ok (example_env 0) (example_draws 9 8) (example_rows 5 7) 0 (env_self (example_env 1))"
    "exchange_ok (example_env 1) (example_draws 4 6) (example_rows 2 3) 0 (env_self (example_env 0))"
    by (simp_all add: exchange_ok_def observation_ok_def example_rows_def example_draws_def example_party_def)
  have shape: "same_shape (example_env 0) (example_env 1) (example_rows 5 7) (example_rows 2 3)"
    by (simp add: same_shape_def example_rows_def)
  show ?thesis
    using shared_lists_open [OF ex shape example_env_ok(1) example_env_ok(2) example_env_ok(2)]
    by simp
qed

subsection \<open>Joining the sorts with the dealer's randomness\<close>

text \<open>A sorting protocol sorts the list it was given in place.\<close>

definition sort_in_place :: "nat \<Rightarrow> Observation list \<Rightarrow> 'a RegCross_scheme \<Rightarrow> 'a RegCross_scheme" where
  "sort_in_place k xs st = st\<lparr>sharedLists := (sharedLists st)[k := xs]\<rparr>"

definition join_complete :: "RegEnv \<Rightarrow> completed \<Rightarrow> 'a RegCross_scheme \<Rightarrow> 'a RegCross_scheme \<times> reg_effect list" where
  "join_complete E f st =
     (let (st, go) = join_randomness f st
      in if go \<and> reg_state st = awaitingSISOSort then complete_SISOSort E st else (st, []))"

fun is_siso :: "reg_effect \<Rightarrow> bool" where
  "is_siso (Invoke (Run [PSISOSort _ _ _ _ _] _)) = True"
| "is_siso _ = False"

fun is_zip :: "reg_effect \<Rightarrow> bool" where
  "is_zip (Invoke (Run [PZipAdjacent _ _ _ _ _] _)) = True"
| "is_zip _ = False"

text \<open>
  The events of the first phase, in any order their causes allow: the share of each cross party
  arrives once, the randomness patron completes once, and a sort completes after it was started.
  \<open>rs\<close> and \<open>ss\<close> hold the cross parties whose share has arrived and whose sort is done, \<open>es\<close> the
  effects so far, and \<open>srt k\<close> what the sort for party \<open>k\<close> leaves in its list.
\<close>

inductive join_reach :: "RegEnv \<Rightarrow> (nat \<Rightarrow> Observation list) \<Rightarrow> RegCross \<Rightarrow>
    RegCross \<Rightarrow> nat list \<Rightarrow> bool \<Rightarrow> nat list \<Rightarrow> reg_effect list \<Rightarrow> bool"
  for E srt st0 where
  join_init: "Regression_init E F t st0 = (st, es) \<Longrightarrow> join_reach E srt st0 st [] False [] es"
| join_share: "join_reach E srt st0 st rs p ss es \<Longrightarrow> k < length (cross_peers E) \<Longrightarrow> k \<notin> set rs \<Longrightarrow>
    Regression_handleReceive E (cross_peers E ! k) msg st = (st', es') \<Longrightarrow>
    join_reach E srt st0 st' (k # rs) p ss (es @ es')"
| join_patron: "join_reach E srt st0 st rs False ss es \<Longrightarrow> is_patron f \<Longrightarrow>
    join_complete E f st = (st', es') \<Longrightarrow>
    join_reach E srt st0 st' rs True ss (es @ es')"
| join_sort: "join_reach E srt st0 st rs p ss es \<Longrightarrow> length ss < length (filter is_siso es) \<Longrightarrow>
    k < length (cross_peers E) \<Longrightarrow> k \<notin> set ss \<Longrightarrow> \<not> is_patron f \<Longrightarrow>
    join_complete E f (sort_in_place k (srt k) st) = (st', es') \<Longrightarrow>
    join_reach E srt st0 st' rs p (k # ss) (es @ es')"

text \<open>The count and the state at each point of the join.\<close>

definition join_counts :: "nat \<Rightarrow> RegCross \<Rightarrow> nat \<Rightarrow> bool \<Rightarrow> nat \<Rightarrow> bool" where
  "join_counts n st r p s \<longleftrightarrow> r \<le> n \<and> s \<le> n \<and> randomnessDone st = p \<and>
     (if r < n then s = 0 \<and> numPartiesAwaiting st = n - r \<and> reg_state st \<noteq> awaitingRandomnessOnly
      else if \<not> p then numPartiesAwaiting st = n - s \<and>
        reg_state st = (if s = n then awaitingRandomnessOnly else awaitingSISOSort)
      else if s < n then numPartiesAwaiting st = n - s \<and> reg_state st = awaitingSISOSort
      else reg_state st = awaitingZipAdjacent \<and> numPartiesAwaiting st = n)"

definition join_lists :: "nat \<Rightarrow> (nat \<Rightarrow> Observation list) \<Rightarrow> RegCross \<Rightarrow> nat list \<Rightarrow> nat list \<Rightarrow> bool" where
  "join_lists n srt st rs ss \<longleftrightarrow> length (sharedLists st) = n \<and>
     distinct rs \<and> distinct ss \<and> (\<forall>k \<in> set rs. k < n) \<and> (\<forall>k \<in> set ss. k < n \<and> sharedLists st ! k = srt k)"

definition zip_effects :: "RegEnv \<Rightarrow> (nat \<Rightarrow> Observation list) \<Rightarrow> reg_effect list" where
  "zip_effects E srt =
     map (\<lambda>(i, other). Invoke (Run [PZipAdjacent (srt i) (2 * maxListSize (env_globals E))
         (payloadLength (env_info E)) (startModulus (env_info E)) (temp_revealer E other)]
       (pair_peers (env_self E) other))) (enumerate 0 (cross_peers E))"

definition join_effects :: "RegEnv \<Rightarrow> (nat \<Rightarrow> Observation list) \<Rightarrow> nat \<Rightarrow> bool \<Rightarrow> nat \<Rightarrow> reg_effect list \<Rightarrow> bool" where
  "join_effects E srt r p s es \<longleftrightarrow>
     length (filter is_siso es) = (if r = length (cross_peers E) then length (cross_peers E) else 0) \<and>
     filter is_zip es =
       (if r = length (cross_peers E) \<and> p \<and> s = length (cross_peers E) then zip_effects E srt else [])"

lemma length_below:
  assumes "distinct xs" "\<forall>k \<in> set xs. k < n"
  shows "length xs \<le> n" "k < n \<Longrightarrow> k \<notin> set xs \<Longrightarrow> length xs < n" "length xs = n \<Longrightarrow> set xs = {..<n}"
proof -
  have sub: "set xs \<subseteq> {..<n}" and len: "length xs = card (set xs)"
    using assms distinct_card [OF assms(1)] by auto
  show "length xs \<le> n" using card_mono [OF _ sub] len by simp
  show "length xs < n" if "k < n" "k \<notin> set xs"
  proof -
    have "set xs \<subset> {..<n}" using sub that by auto
    then show ?thesis using psubset_card_mono [of "{..<n}"] len by simp
  qed
  show "set xs = {..<n}" if "length xs = n" using card_subset_eq [OF _ sub] len that by simp
qed

lemma filter_invokes:
  "filter is_siso (map (\<lambda>(i, other). Invoke (siso_call E st i other)) xs)
     = map (\<lambda>(i, other). Invoke (siso_call E st i other)) xs"
  "filter is_zip (map (\<lambda>(i, other). Invoke (siso_call E st i other)) xs) = []"
  "filter is_siso (map (\<lambda>(i, other). Invoke (zip_call E st i other)) xs) = []"
  "filter is_zip (map (\<lambda>(i, other). Invoke (zip_call E st i other)) xs)
     = map (\<lambda>(i, other). Invoke (zip_call E st i other)) xs"
  "filter is_siso (map (\<lambda>(i, other). Send other (g i)) xs) = []"
  "filter is_zip (map (\<lambda>(i, other). Send other (g i)) xs) = []"
  by (induction xs) (auto simp: siso_call_def zip_call_def)

text \<open>What one event does.\<close>

lemma zip_call_same:
  "zip_call E (st\<lparr>numPartiesAwaiting := a\<rparr>) = zip_call E st"
  "zip_call E (st\<lparr>randomnessDone := d, numPartiesAwaiting := a\<rparr>) = zip_call E st"
  "zip_call E (st\<lparr>randomnessDone := d, reg_state := r, numPartiesAwaiting := a\<rparr>) = zip_call E st"
  "zip_call E (st\<lparr>randomnessDone := d, numPartiesAwaiting := a, reg_state := r\<rparr>) = zip_call E st"
  "zip_call E (st\<lparr>randomnessDone := d, reg_state := r\<rparr>) = zip_call E st"
  by (simp_all add: zip_call_def fun_eq_iff)

lemma receive_step:
  assumes "Regression_handleReceive E (cross_peers E ! k) msg st = (st', es')"
    and n: "n = length (cross_peers E)" "n = numCrossParties (env_info E)"
    and "join_counts n st r p s" "r < n"
  shows "join_counts n st' (Suc r) p s" "length (sharedLists st') = length (sharedLists st)"
    "length (filter is_siso es') = (if Suc r = n then n else 0)" "filter is_zip es' = []"
proof -
  have s: "s = 0" "numPartiesAwaiting st = n - r" "reg_state st \<noteq> awaitingRandomnessOnly" "randomnessDone st = p"
    using assms(4,5) by (simp_all add: join_counts_def)
  show "join_counts n st' (Suc r) p s" "length (sharedLists st') = length (sharedLists st)"
    "length (filter is_siso es') = (if Suc r = n then n else 0)" "filter is_zip es' = []"
    using assms(1) s \<open>r < n\<close> n(2)
    by (auto simp: Regression_handleReceive_def Let_def join_counts_def filter_invokes n(1) split: if_splits)
qed

lemma patron_step:
  assumes "join_complete E f st = (st', es')" "is_patron f"
    and n: "n = length (cross_peers E)" "n = numCrossParties (env_info E)" "0 < n"
    and "join_counts n st r False s"
  shows "join_counts n st' r True s" "sharedLists st' = sharedLists st" "filter is_siso es' = []"
    "filter is_zip es' = (if r = n \<and> s = n
       then map (\<lambda>(i, other). Invoke (zip_call E st i other)) (enumerate 0 (cross_peers E)) else [])"
proof -
  show "join_counts n st' r True s"
    using assms by (auto simp: join_complete_def join_randomness_def join_counts_def complete_SISOSort_def Let_def
        split: if_splits)
  show "sharedLists st' = sharedLists st"
    using assms(1,2) by (auto simp: join_complete_def join_randomness_def complete_SISOSort_def Let_def split: if_splits)
  show "filter is_siso es' = []"
    using assms(1,2) by (auto simp: join_complete_def join_randomness_def complete_SISOSort_def Let_def filter_invokes
        split: if_splits)
  show "filter is_zip es' = (if r = n \<and> s = n
       then map (\<lambda>(i, other). Invoke (zip_call E st i other)) (enumerate 0 (cross_peers E)) else [])"
    using assms
    by (auto simp: join_complete_def join_randomness_def join_counts_def complete_SISOSort_def Let_def filter_invokes
        zip_call_same split: if_splits)
qed

lemma sort_step:
  assumes "join_complete E f st = (st', es')" "\<not> is_patron f"
    and n: "n = length (cross_peers E)" "n = numCrossParties (env_info E)"
    and "join_counts n st n p s" "s < n"
  shows "join_counts n st' n p (Suc s)" "sharedLists st' = sharedLists st" "filter is_siso es' = []"
    "filter is_zip es' = (if p \<and> Suc s = n
       then map (\<lambda>(i, other). Invoke (zip_call E st i other)) (enumerate 0 (cross_peers E)) else [])"
proof -
  show "join_counts n st' n p (Suc s)"
    using assms by (auto simp: join_complete_def join_randomness_def join_counts_def complete_SISOSort_def Let_def
        split: if_splits)
  show "sharedLists st' = sharedLists st"
    using assms(1,2) by (auto simp: join_complete_def join_randomness_def complete_SISOSort_def Let_def split: if_splits)
  show "filter is_siso es' = []"
    using assms(1,2) by (auto simp: join_complete_def join_randomness_def complete_SISOSort_def Let_def filter_invokes
        split: if_splits)
  show "filter is_zip es' = (if p \<and> Suc s = n
       then map (\<lambda>(i, other). Invoke (zip_call E st i other)) (enumerate 0 (cross_peers E)) else [])"
    using assms
    by (auto simp: join_complete_def join_randomness_def join_counts_def complete_SISOSort_def Let_def filter_invokes
        zip_call_same split: if_splits)
qed

lemma zip_calls_sorted:
  assumes "join_lists (length (cross_peers E)) srt st rs ss" "length ss = length (cross_peers E)"
  shows "map (\<lambda>(i, other). Invoke (zip_call E st i other)) (enumerate 0 (cross_peers E)) = zip_effects E srt"
proof -
  have "set ss = {..<length (cross_peers E)}"
    using length_below(3) [of ss "length (cross_peers E)"] assms by (simp add: join_lists_def)
  then have "sharedLists st ! i = srt i" if "i < length (cross_peers E)" for i
    using assms(1) that by (auto simp: join_lists_def)
  then show ?thesis by (auto simp: zip_effects_def zip_call_def in_set_enumerate_eq)
qed

lemma join_invariant:
  assumes "join_reach E srt st0 st rs p ss es" "length (sharedLists st0) = length (cross_peers E)"
    and n: "length (cross_peers E) = numCrossParties (env_info E)" "cross_peers E \<noteq> []"
    and "\<not> randomnessDone st0"
  defines "n \<equiv> length (cross_peers E)"
  shows "join_counts n st (length rs) p (length ss) \<and> join_lists n srt st rs ss
    \<and> join_effects E srt (length rs) p (length ss) es"
  using assms(1)
proof induction
  case (join_init F t st es)
  then show ?case
    using assms(2-5) by (auto simp: Regression_init_def setupCrossParties_def shareWithCrossVerticalParties_def Let_def
        join_counts_def join_lists_def join_effects_def n_def filter_invokes)
next
  case (join_share st rs p ss es k msg st' es')
  have k: "length rs < n" using length_below(2) [of rs n k] join_share by (simp add: join_lists_def n_def)
  note step = receive_step [OF join_share.hyps(4), of n "length rs" p "length ss"]
  have "ss = []" using join_share.IH k by (simp add: join_counts_def)
  then show ?case
    using step join_share k n by (auto simp: n_def join_lists_def join_effects_def)
next
  case (join_patron st rs ss es f st' es')
  have pos: "n = length (cross_peers E)" "n = numCrossParties (env_info E)" "0 < n"
    using n by (simp_all add: n_def flip: n(1))
  have "join_counts n st (length rs) False (length ss)" using join_patron.IH by simp
  note step = patron_step [OF join_patron.hyps(3,2) pos this]
  have "map (\<lambda>(i, other). Invoke (zip_call E st i other)) (enumerate 0 (cross_peers E)) = zip_effects E srt"
    if "length ss = n" using zip_calls_sorted [of E srt st rs ss] join_patron.IH that by (simp add: n_def)
  then show ?case
    using step join_patron n by (auto simp: n_def join_lists_def join_effects_def)
next
  case (join_sort st rs p ss es k f st' es')
  let ?st = "sort_in_place k (srt k) st"
  have k: "length ss < n" using length_below(2) [of ss n k] join_sort by (simp add: join_lists_def n_def)
  have r: "length rs = n" using join_sort by (auto simp: join_effects_def n_def split: if_splits)
  have counts: "join_counts n ?st n p (length ss)"
    using join_sort.IH r by (simp add: join_counts_def sort_in_place_def)
  note step = sort_step [OF join_sort.hyps(6,5) _ _ counts k]
  have lists: "join_lists n srt st' rs (k # ss)"
    using step(2) join_sort n by (auto simp: n_def join_lists_def sort_in_place_def nth_list_update)
  moreover have "map (\<lambda>(i, other). Invoke (zip_call E ?st i other)) (enumerate 0 (cross_peers E)) = zip_effects E srt"
    if "Suc (length ss) = n"
  proof -
    have "join_lists n srt ?st rs (k # ss)" using lists step(2) n by (simp add: n_def join_lists_def)
    then show ?thesis using zip_calls_sorted [of E srt ?st rs "k # ss"] that by (simp add: n_def)
  qed
  ultimately show ?case
    using step r join_sort.IH n k by (auto simp: n_def join_effects_def)
qed

text \<open>
  C5: In whatever order the shares of the cross parties, the dealer's randomness and the sorting
  protocols complete, the adjacent-zip protocols are started exactly once, for every cross party
  with its sorted list, and exactly when all shares, all sorts and the randomness are done. Before
  that point the party always still waits for an event that can occur, so it cannot stall.
\<close>
theorem zip_starts_once:
  assumes "join_reach E srt st0 st rs p ss es" "length (sharedLists st0) = length (cross_peers E)"
    and "length (cross_peers E) = numCrossParties (env_info E)" "cross_peers E \<noteq> []" "\<not> randomnessDone st0"
  shows "filter is_zip es = (if p \<and> length ss = length (cross_peers E) then zip_effects E srt else [])
    \<and> (p \<and> length ss = length (cross_peers E) \<and> reg_state st = awaitingZipAdjacent
       \<or> \<not> p \<or> length rs < length (cross_peers E) \<or> length ss < length (filter is_siso es))"
  using join_invariant [OF assms] by (auto simp: join_counts_def join_effects_def split: if_splits)

lemma example_ready:
  "length (sharedLists (ready_party (example_env 0) d own)) = length (cross_peers (example_env 0))"
  "length (cross_peers (example_env 0)) = numCrossParties (env_info (example_env 0))"
  "cross_peers (example_env 0) \<noteq> []" "\<not> randomnessDone (ready_party (example_env 0) d own)"
  by (simp_all add: ready_party_def setupCrossParties_def setupCrossVerticalShares_def RegCross_new_def Let_def)

text \<open>A run in which the randomness arrives before the share.\<close>

lemma example_join_run:
  "\<exists>st es. join_reach (example_env 0) srt (ready_party (example_env 0) d own) st [0] True [0] es"
proof -
  let ?E = "example_env 0" and ?st0 = "ready_party (example_env 0) d own"
  let ?f = "\<lambda>b. \<lparr>is_patron = b, f_peers = env_peers ?E, out_list = [], out_nums = [], out_bits = [],
    out_matrix = [], out_bytes = []\<rparr>"
  have ex: "\<exists>a b. x = (a, b)" for x :: "RegCross \<times> reg_effect list" by (cases x) simp
  obtain st1 es1 where 1: "Regression_init ?E 1 1 ?st0 = (st1, es1)" using ex by blast
  obtain st2 es2 where 2: "join_complete ?E (?f True) st1 = (st2, es2)" using ex by blast
  obtain st3 es3 where 3: "Regression_handleReceive ?E (cross_peers ?E ! 0) [] st2 = (st3, es3)" using ex by blast
  obtain st4 es4 where 4: "join_complete ?E (?f False) (sort_in_place 0 (srt 0) st3) = (st4, es4)" using ex by blast
  have "join_reach ?E srt ?st0 st2 [] True [] (es1 @ es2)"
    by (rule join_reach.join_patron [OF join_reach.join_init [OF 1] _ 2]) simp
  from join_reach.join_share [OF this _ _ 3]
  have r: "join_reach ?E srt ?st0 st3 [0] True [] ((es1 @ es2) @ es3)" by simp
  have "length (filter is_siso ((es1 @ es2) @ es3)) = 1"
    using join_invariant [OF r example_ready] by (simp add: join_effects_def)
  then have "join_reach ?E srt ?st0 st4 [0] True [0] (((es1 @ es2) @ es3) @ es4)"
    by (intro join_reach.join_sort [OF r _ _ _ _ 4]) simp_all
  then show ?thesis by blast
qed

theorem zip_starts_once_witness:
  "\<exists>st es. join_reach (example_env 0) (\<lambda>_. []) (ready_party (example_env 0) (example_draws 9 8) (example_rows 5 7))
       st [0] True [0] es \<and> filter is_zip es = zip_effects (example_env 0) (\<lambda>_. [])"
proof -
  obtain st es where r: "join_reach (example_env 0) (\<lambda>_. [])
      (ready_party (example_env 0) (example_draws 9 8) (example_rows 5 7)) st [0] True [0] es"
    using example_join_run by blast
  show ?thesis using zip_starts_once [OF r example_ready] r by auto
qed

end
