(* ===== verification/RegressionSteps.thy ===== *)
theory RegressionSteps
  imports Exchange Sharing
begin

text \<open>
  The states of \<open>dataowner/Regression.cpp\<close> after the zip protocols: accumulation of the payload,
  conversion to the end modulus, the masked inversion, the correction of signs, the error terms, the
  table lookups and the message to the recipients. One definition per state of \<open>handleComplete\<close>.
  A batch writes its results through the pointers its children hold before it completes; the
  \<open>wrote_\<close> definitions do that with the outputs, in the order of the children.
\<close>

subsection \<open>State\<close>

record Regression = RegCross +
  startModulusPayloadVector :: "LargeNum list"
  matrixShare :: "LargeNum list"
  vectorShare :: "LargeNum list"
  ySquaredShare :: LargeNum
  yShare :: LargeNum
  oneShare :: LargeNum
  matMultiplyOutput :: "LargeNum list list"
  dealt_matrix :: RandomSquareMatrix
  mat_m :: "LargeNum list list"
  mat_r :: "LargeNum list list"
  detShare :: LargeNum
  detOpened :: LargeNum
  regressionMultiplyOutput :: "LargeNum list"
  negativeOrPositiveOneShares :: "LargeNum list"
  negativeCorrectionMultiplyOutput :: "LargeNum list"
  outputWeightShares :: "LargeNum list"
  beta_i :: "LargeNum list"
  beta_ibeta_j :: "LargeNum list"
  x_ix_jn :: "LargeNum list"
  beta_ix_iy :: "LargeNum list"
  ySquaredn :: LargeNum
  ySumThenSquared :: LargeNum
  beta_ibeta_jx_ix_jn :: "LargeNum list"
  beta_ibeta_jx_ix_j :: "LargeNum list"
  beta_ix_iyn :: "LargeNum list"
  X_T_X_inv_diag_reweighted :: "LargeNum list"
  numer_MSE :: LargeNum
  denom_MSE :: LargeNum
  numer_RSquared :: LargeNum
  denom_RSquared :: LargeNum
  numer_F_statistic :: LargeNum
  denom_F_statistic :: LargeNum
  X_T_X_inv_diag_s_e :: "LargeNum list"
  denom_MSE_reweighted :: LargeNum
  t_statisticNumerators :: "LargeNum list"
  meanSquareErrorShare :: LargeNum
  RSquaredShare :: LargeNum
  meanSquareErrorCoeffs :: "LargeNum list"
  F_statistic :: LargeNum
  t_statisticsSquared :: "LargeNum list"
  F_row_ids :: "nat list"
  t_row_ids :: "nat list"
  F_table_data :: "u8 list list"
  t_table_data :: "u8 list list"
  F_row_id_share :: LargeNum
  t_row_id_share :: LargeNum
  num_F_cols :: LargeNum
  F_cols_bits_of_precision :: nat
  F_cols_step_size :: LargeNum
  num_t_cols :: LargeNum
  t_cols_bits_of_precision :: nat
  t_cols_step_size :: LargeNum
  F_statistic_col_index :: LargeNum
  t_statistic_col_indices :: "LargeNum list"
  F_p_value :: "u8 list"
  t_p_values :: "u8 list list"

text \<open>What reading a table of the F or t distribution gives.\<close>

record stat_table =
  tb_row_ids :: "nat list"
  tb_data :: "u8 list list"
  tb_cols :: LargeNum
  tb_bits :: nat
  tb_step :: LargeNum

text \<open>The constructor; a table that cannot be read sets the abort flag and skips the setup.
  \<open>dealt\<close> is the matrix the dealer's randomness will hold.\<close>

definition Regression_blank :: "RegressionInfo \<Rightarrow> ObservationList \<Rightarrow> RandomSquareMatrix \<Rightarrow> Regression" where
  "Regression_blank info own dealt =
     \<lparr>reg_state = awaitingRandomnessAndSISOSort, ownList = own, outgoingListShares = [],
      sharedLists = [], indexOfCrossParties = [], numPartiesAwaiting = 0, randomnessDone = False,
      vectorZippedAdjacent = [],
      startModulusPayloadVector = replicate (num_IVs info * num_IVs info + num_IVs info + 3) 0,
      matrixShare = replicate (num_IVs info * num_IVs info) 0, vectorShare = replicate (num_IVs info) 0,
      ySquaredShare = 0, yShare = 0, oneShare = 0,
      matMultiplyOutput = replicate (num_IVs info) (replicate (num_IVs info + 1) 0),
      dealt_matrix = dealt, mat_m = [], mat_r = [], detShare = 0, detOpened = 0,
      regressionMultiplyOutput = [], negativeOrPositiveOneShares = [], negativeCorrectionMultiplyOutput = [],
      outputWeightShares = [], beta_i = [], beta_ibeta_j = [], x_ix_jn = [], beta_ix_iy = [],
      ySquaredn = 0, ySumThenSquared = 0, beta_ibeta_jx_ix_jn = [], beta_ibeta_jx_ix_j = [], beta_ix_iyn = [],
      X_T_X_inv_diag_reweighted = [], numer_MSE = 0, denom_MSE = 0, numer_RSquared = 0, denom_RSquared = 0,
      numer_F_statistic = 0, denom_F_statistic = 0, X_T_X_inv_diag_s_e = [], denom_MSE_reweighted = 0,
      t_statisticNumerators = [], meanSquareErrorShare = 0, RSquaredShare = 0, meanSquareErrorCoeffs = [],
      F_statistic = 0, t_statisticsSquared = [], F_row_ids = [], t_row_ids = [], F_table_data = [],
      t_table_data = [], F_row_id_share = 0, t_row_id_share = 0, num_F_cols = 0, F_cols_bits_of_precision = 0,
      F_cols_step_size = 0, num_t_cols = 0, t_cols_bits_of_precision = 0, t_cols_step_size = 0,
      F_statistic_col_index = 0, t_statistic_col_indices = [], F_p_value = [], t_p_values = []\<rparr>"

definition with_F_table :: "stat_table \<Rightarrow> Regression \<Rightarrow> Regression" where
  "with_F_table T st =
     st\<lparr>F_row_ids := tb_row_ids T, F_table_data := tb_data T, num_F_cols := tb_cols T,
        F_cols_bits_of_precision := tb_bits T, F_cols_step_size := tb_step T\<rparr>"

definition with_t_table :: "stat_table \<Rightarrow> Regression \<Rightarrow> Regression" where
  "with_t_table T st =
     st\<lparr>t_row_ids := tb_row_ids T, t_table_data := tb_data T, num_t_cols := tb_cols T,
        t_cols_bits_of_precision := tb_bits T, t_cols_step_size := tb_step T\<rparr>"

definition Regression_new ::
  "ff_arith \<Rightarrow> GlobalInfo \<Rightarrow> RegressionInfo \<Rightarrow> (nat \<Rightarrow> LargeNum list) \<Rightarrow> (nat \<Rightarrow> nat \<Rightarrow> Observation)
    \<Rightarrow> ObservationList \<Rightarrow> stat_table option \<Rightarrow> stat_table option \<Rightarrow> RandomSquareMatrix \<Rightarrow> bool \<times> Regression" where
  "Regression_new A globals info keys rnd olist F t dealt =
     (let st = Regression_blank info olist dealt;
          st = (case F of None \<Rightarrow> st | Some T \<Rightarrow> with_F_table T st);
          st = (case t of None \<Rightarrow> st | Some T \<Rightarrow> with_t_table T st)
      in if F = None \<or> t = None then (True, st)
         else (False, setupCrossVerticalShares A globals info rnd
                 (st\<lparr>ownList := computePayloadVectorAndPadList A globals info keys olist\<rparr>)))"

text \<open>\<open>Matrix::MakeIdentity\<close> transforms its second argument by the row operations that make the
  receiver the identity, and \<open>Matrix::Det\<close> is the determinant; both are library code.\<close>

record matrix_lib =
  makeIdentity :: "LargeNum list list \<Rightarrow> LargeNum \<Rightarrow> LargeNum list list \<Rightarrow> LargeNum list list"
  matrixDet :: "LargeNum list list \<Rightarrow> LargeNum \<Rightarrow> LargeNum"

definition run_workers :: "RegEnv \<Rightarrow> prim list \<Rightarrow> reg_effect list" where
  "run_workers E ps = [Invoke (Run ps (workers (env_peers E)))]"

definition is_revealer :: "RegEnv \<Rightarrow> bool" where
  "is_revealer E = identity_eq (env_self E) (reg_revealer (env_info E))"

abbreviation "numIVs E \<equiv> num_IVs (env_info E)"
abbreviation "endMod E \<equiv> endModulus (env_info E)"
abbreviation "startMod E \<equiv> startModulus (env_info E)"

definition payload_size :: "RegEnv \<Rightarrow> nat" where
  "payload_size E = numIVs E * numIVs E + numIVs E + 3"

subsection \<open>Payload to opened matrix\<close>

definition add_payload :: "RegEnv \<Rightarrow> Observation \<Rightarrow> LargeNum list \<Rightarrow> LargeNum list" where
  "add_payload E ob vec =
     map (\<lambda>j. (vec ! j + arithmeticPayloadCols ob ! j) mod startMod E) [0..<payload_size E]"

text \<open>The loops of three handlers run up to a size less one, as a number of 64 bits: for an empty list or column
  that is \<open>2 ^ 64 - 1\<close>, and they read outside of the list, or take as many items from their dispensers.\<close>

definition complete_ZipReduce ::
  "RegEnv \<Rightarrow> completed \<Rightarrow> 'a Regression_scheme \<Rightarrow> 'a Regression_scheme \<times> reg_effect list" where
  "complete_ZipReduce E f st =
     (if maxListSize (env_globals E) = 0 then (st, [ReadsOutside]) else
      let vec = fold (\<lambda>i. add_payload E (out_list f ! i)) [0..<maxListSize (env_globals E) * 2 - 1]
                  (startModulusPayloadVector st);
          st = st\<lparr>startModulusPayloadVector := vec, numPartiesAwaiting := numPartiesAwaiting st - 1\<rparr>
      in if numPartiesAwaiting st = 0 then
           let vec = map (\<lambda>x. x mod startMod E) vec
           in (st\<lparr>startModulusPayloadVector := vec, reg_state := awaitingBatchedModConvUp\<rparr>,
               run_workers E (map (\<lambda>i. PModConvUp (vec ! i)) [0..<payload_size E]))
         else (st, []))"

definition merged_matrix :: "nat \<Rightarrow> LargeNum list \<Rightarrow> LargeNum list \<Rightarrow> LargeNum list list" where
  "merged_matrix d mat vec = map (\<lambda>i. map (\<lambda>j. mat ! (i * d + j)) [0..<d] @ [vec ! i]) [0..<d]"

definition complete_BatchedModConvUp ::
  "RegEnv \<Rightarrow> completed \<Rightarrow> 'a Regression_scheme \<Rightarrow> 'a Regression_scheme \<times> reg_effect list" where
  "complete_BatchedModConvUp E f st =
     (let d = numIVs E; o' = out_nums f;
          mat = map (\<lambda>i. o' ! i) [0..<d * d]; vec = map (\<lambda>i. o' ! (i + d * d)) [0..<d];
          m = merged_matrix d mat vec; r = mat_values (dealt_matrix st)
      in (st\<lparr>matrixShare := mat, vectorShare := vec,
             ySquaredShare := o' ! (d * (d + 1)), yShare := o' ! (d * (d + 1) + 1),
             oneShare := o' ! (d * (d + 1) + 2), detShare := det_of_inverse (dealt_matrix st),
             mat_m := m, mat_r := r, reg_state := awaitingMatrixMultiply\<rparr>,
          run_workers E [PMatrixMult r m]))"

definition complete_MatrixMultiply ::
  "RegEnv \<Rightarrow> completed \<Rightarrow> 'a Regression_scheme \<Rightarrow> 'a Regression_scheme \<times> reg_effect list" where
  "complete_MatrixMultiply E f st =
     (let d = numIVs E; prod = out_matrix f
      in (st\<lparr>matMultiplyOutput := prod, vectorShare := map (\<lambda>i. prod ! i ! d) [0..<d],
             reg_state := awaitingMatrixReveal\<rparr>,
          run_workers E (concat (map (\<lambda>i. map (\<lambda>j. PReveal (prod ! i ! j) (endMod E)) [0..<d]) [0..<d]))))"

definition complete_MatrixReveal ::
  "matrix_lib \<Rightarrow> RegEnv \<Rightarrow> completed \<Rightarrow> 'a Regression_scheme \<Rightarrow> 'a Regression_scheme \<times> reg_effect list" where
  "complete_MatrixReveal L E f st =
     (let d = numIVs E; p = endMod E;
          revealed = map (\<lambda>i. map (\<lambda>j. out_nums f ! (i * d + j)) [0..<d]) [0..<d];
          vec = makeIdentity L revealed p (map (\<lambda>x. [x]) (vectorShare st));
          r = makeIdentity L revealed p (mat_r st); dt = matrixDet L revealed p
      in (st\<lparr>vectorShare := [], mat_r := r, detOpened := dt,
             outputWeightShares := resize_zero (length vec) (outputWeightShares st),
             regressionMultiplyOutput := resize_zero (length vec) (regressionMultiplyOutput st),
             reg_state := awaitingRegressionMultiply\<rparr>,
          run_workers E (map (\<lambda>i. PMultiply (dt * detShare st) (vec ! i ! 0)) [0..<length vec])))"

subsection \<open>Coefficients with their signs\<close>

definition complete_RegressionMultiply ::
  "RegEnv \<Rightarrow> completed \<Rightarrow> 'a Regression_scheme \<Rightarrow> 'a Regression_scheme \<times> reg_effect list" where
  "complete_RegressionMultiply E f st =
     (let st = st\<lparr>regressionMultiplyOutput := out_nums f\<rparr>
      in (st\<lparr>reg_state := awaitingFirstCompare\<rparr>,
          run_workers E (map (\<lambda>i. PCompare (regressionMultiplyOutput st ! i) 0 (endMod E)) [0..<numIVs E])))"

definition type_casts :: "RegEnv \<Rightarrow> completed \<Rightarrow> reg_effect list" where
  "type_casts E f =
     run_workers E (map (\<lambda>b. PTypeCastFromBit (b mod 2) (endMod E) (reg_revealer (env_info E))) (out_bits f))"

definition complete_FirstCompare ::
  "RegEnv \<Rightarrow> completed \<Rightarrow> 'a Regression_scheme \<Rightarrow> 'a Regression_scheme \<times> reg_effect list" where
  "complete_FirstCompare E f st =
     (st\<lparr>reg_state := awaitingFirstTypeCastFromBit\<rparr>, type_casts E f)"

definition sign_share :: "RegEnv \<Rightarrow> LargeNum \<Rightarrow> LargeNum" where
  "sign_share E b =
     (let A = env_arith E; p = endMod E; s = modMul A 2 b p
      in if is_revealer E then modAdd A s (p - 1) p else s)"

definition complete_FirstTypeCastFromBit ::
  "RegEnv \<Rightarrow> completed \<Rightarrow> 'a Regression_scheme \<Rightarrow> 'a Regression_scheme \<times> reg_effect list" where
  "complete_FirstTypeCastFromBit E f st =
     (let sg = map (\<lambda>i. sign_share E (out_nums f ! i)) [0..<numIVs E]
      in (st\<lparr>negativeOrPositiveOneShares := sg, reg_state := awaitingNegativeCorrectionMultiply\<rparr>,
          run_workers E (map (\<lambda>i. PMultiply (sg ! i) (regressionMultiplyOutput st ! i)) [0..<numIVs E])))"

definition complete_NegativeCorrectionMultiply ::
  "RegEnv \<Rightarrow> completed \<Rightarrow> 'a Regression_scheme \<Rightarrow> 'a Regression_scheme \<times> reg_effect list" where
  "complete_NegativeCorrectionMultiply E f st =
     (let st = st\<lparr>negativeCorrectionMultiplyOutput := out_nums f\<rparr>
      in (st\<lparr>reg_state := awaitingDivision\<rparr>,
          run_workers E (map (\<lambda>i. PDivide (negativeCorrectionMultiplyOutput st ! i) (detOpened st * detShare st))
            [0..<numIVs E])))"

definition complete_Division ::
  "RegEnv \<Rightarrow> completed \<Rightarrow> 'a Regression_scheme \<Rightarrow> 'a Regression_scheme \<times> reg_effect list" where
  "complete_Division E f st =
     (let st = st\<lparr>outputWeightShares := out_nums f\<rparr>
      in (st\<lparr>reg_state := awaitingNegativeRecorrectionMultiply\<rparr>,
          run_workers E (map (\<lambda>i. PMultiply (outputWeightShares st ! i) (negativeOrPositiveOneShares st ! i))
            [0..<numIVs E])))"

subsection \<open>Error terms\<close>

text \<open>The index pairs of an upper triangle, in the order of the loops, and a batch whose child for
  the pair \<open>(i, j)\<close> writes the cell \<open>i * d + j\<close>.\<close>

definition tri_pairs :: "nat \<Rightarrow> (nat \<times> nat) list" where
  "tri_pairs d = concat (map (\<lambda>i. map (\<lambda>j. (i, j)) [i..<d]) [0..<d])"

definition wrote_triangle :: "nat \<Rightarrow> LargeNum list \<Rightarrow> LargeNum list \<Rightarrow> LargeNum list" where
  "wrote_triangle d outs cells =
     fold (\<lambda>(x, i, j) v. v[i * d + j := x]) (zip outs (tri_pairs d)) (resize_zero (d * d) cells)"

definition complete_NegativeRecorrectionMultiply ::
  "RegEnv \<Rightarrow> completed \<Rightarrow> 'a Regression_scheme \<Rightarrow> 'a Regression_scheme \<times> reg_effect list" where
  "complete_NegativeRecorrectionMultiply E f st =
     (let d = numIVs E; st = st\<lparr>beta_i := out_nums f\<rparr>; b = beta_i st; m = mat_m st
      in (st\<lparr>reg_state := awaitingFirstMultiplyForErrorTerms\<rparr>,
          run_workers E
            (map (\<lambda>(i, j). PMultiply (b ! i) (b ! j)) (tri_pairs d) @
             map (\<lambda>(i, j). PMultiply (m ! i ! j) (oneShare st)) (tri_pairs d) @
             map (\<lambda>i. PMultiply (m ! i ! d) (b ! i)) [0..<d] @
             [PMultiply (ySquaredShare st) (oneShare st), PMultiply (yShare st) (yShare st)])))"

definition wrote_first :: "nat \<Rightarrow> LargeNum list \<Rightarrow> 'a Regression_scheme \<Rightarrow> 'a Regression_scheme" where
  "wrote_first d outs st =
     (let t = length (tri_pairs d)
      in st\<lparr>beta_ibeta_j := wrote_triangle d (take t outs) (beta_ibeta_j st),
            x_ix_jn := wrote_triangle d (take t (drop t outs)) (x_ix_jn st),
            beta_ix_iy := take d (drop (2 * t) outs),
            ySquaredn := outs ! (2 * t + d), ySumThenSquared := outs ! (2 * t + d + 1)\<rparr>)"

definition complete_FirstMultiplyForErrorTerms ::
  "RegEnv \<Rightarrow> completed \<Rightarrow> 'a Regression_scheme \<Rightarrow> 'a Regression_scheme \<times> reg_effect list" where
  "complete_FirstMultiplyForErrorTerms E f st =
     (let d = numIVs E; st = wrote_first d (out_nums f) st
      in (st\<lparr>reg_state := awaitingSecondMultiplyForErrorTerms\<rparr>,
          run_workers E
            (map (\<lambda>(i, j). PMultiply (beta_ibeta_j st ! (i * d + j)) (x_ix_jn st ! (i * d + j))) (tri_pairs d) @
             map (\<lambda>(i, j). PMultiply (beta_ibeta_j st ! (i * d + j)) (mat_m st ! i ! j)) (tri_pairs d) @
             map (\<lambda>i. PMultiply (oneShare st) (beta_ix_iy st ! i)) [0..<d] @
             map (\<lambda>i. PMultiply (detOpened st * detShare st) (mat_r st ! i ! i)) [0..<d])))"

definition wrote_second :: "nat \<Rightarrow> LargeNum list \<Rightarrow> 'a Regression_scheme \<Rightarrow> 'a Regression_scheme" where
  "wrote_second d outs st =
     (let t = length (tri_pairs d)
      in st\<lparr>beta_ibeta_jx_ix_jn := wrote_triangle d (take t outs) (beta_ibeta_jx_ix_jn st),
            beta_ibeta_jx_ix_j := wrote_triangle d (take t (drop t outs)) (beta_ibeta_jx_ix_j st),
            beta_ix_iyn := take d (drop (2 * t) outs),
            X_T_X_inv_diag_reweighted := take d (drop (2 * t + d) outs)\<rparr>)"

definition compute_numer_MSE :: "nat \<Rightarrow> LargeNum \<Rightarrow> LargeNum list \<Rightarrow> LargeNum list \<Rightarrow> LargeNum \<Rightarrow> LargeNum" where
  "compute_numer_MSE d p bbxx bxy ySq =
     fold (\<lambda>i acc.
       let acc = fold (\<lambda>j acc. (if i = j then acc + bbxx ! (i * d + i) else acc + 2 * bbxx ! (i * d + j)) mod p)
                   [i..<d] acc
       in (acc + 2 * (p - bxy ! i)) mod p) [0..<d] ySq"

definition compute_numer_RSquared ::
  "ff_arith \<Rightarrow> nat \<Rightarrow> LargeNum \<Rightarrow> LargeNum list \<Rightarrow> LargeNum list \<Rightarrow> LargeNum \<Rightarrow> LargeNum" where
  "compute_numer_RSquared A d p bbxxn bxyn ySqn =
     fold (\<lambda>i acc.
       let acc = fold (\<lambda>j acc. if i = j then modAdd A acc (bbxxn ! (i * d + i)) p
                               else modAdd A acc (2 * bbxxn ! (i * d + j)) p) [i..<d] acc
       in modAdd A acc (2 * (p - bxyn ! i)) p) [0..<d] ySqn"

definition compute_errors :: "RegEnv \<Rightarrow> 'a Regression_scheme \<Rightarrow> 'a Regression_scheme" where
  "compute_errors E st =
     (let A = env_arith E; d = numIVs E; p = endMod E;
          numer = compute_numer_MSE d p (beta_ibeta_jx_ix_j st) (beta_ix_iy st) (ySquaredShare st);
          denom = (if is_revealer E then modAdd A (oneShare st) (p - d) p else oneShare st);
          rss_n = compute_numer_RSquared A d p (beta_ibeta_jx_ix_jn st) (beta_ix_iyn st) (ySquaredn st);
          denom_R = (if fitIntercept (env_info E) then (ySquaredn st + (p - ySumThenSquared st)) mod p
                     else ySquaredn st)
      in st\<lparr>numer_MSE := numer, denom_MSE := denom, denom_RSquared := denom_R,
            denom_F_statistic := (rss_n * d) mod p, numer_RSquared := ((p - rss_n) + denom_R) mod p\<rparr>)"

definition complete_SecondMultiplyForErrorTerms ::
  "RegEnv \<Rightarrow> completed \<Rightarrow> 'a Regression_scheme \<Rightarrow> 'a Regression_scheme \<times> reg_effect list" where
  "complete_SecondMultiplyForErrorTerms E f st =
     (let d = numIVs E; st = compute_errors E (wrote_second d (out_nums f) st)
      in (st\<lparr>reg_state := awaitingThirdMultiplyForErrorTerms\<rparr>,
          run_workers E
            (map (\<lambda>i. PMultiply (X_T_X_inv_diag_reweighted st ! i) (numer_MSE st)) [0..<d] @
             [PMultiply (detOpened st * detShare st) (denom_MSE st),
              PMultiply (numer_RSquared st) (denom_MSE st)])))"

definition complete_ThirdMultiplyForErrorTerms ::
  "RegEnv \<Rightarrow> completed \<Rightarrow> 'a Regression_scheme \<Rightarrow> 'a Regression_scheme \<times> reg_effect list" where
  "complete_ThirdMultiplyForErrorTerms E f st =
     (let d = numIVs E;
          st = st\<lparr>X_T_X_inv_diag_s_e := take d (out_nums f), denom_MSE_reweighted := out_nums f ! d,
                  numer_F_statistic := out_nums f ! (d + 1)\<rparr>
      in (st\<lparr>reg_state := awaitingFourthMultiplyForErrorTerms\<rparr>,
          run_workers E
            (map (\<lambda>i. PMultiply (denom_MSE_reweighted st) (beta_ibeta_j st ! (i * d + i))) [0..<d])))"

definition complete_FourthMultiplyForErrorTerms ::
  "RegEnv \<Rightarrow> completed \<Rightarrow> 'a Regression_scheme \<Rightarrow> 'a Regression_scheme \<times> reg_effect list" where
  "complete_FourthMultiplyForErrorTerms E f st =
     (let d = numIVs E; st = st\<lparr>t_statisticNumerators := out_nums f\<rparr>; bits = bitsOfPrecision (env_globals E)
      in (st\<lparr>reg_state := awaitingDivisionForErrorTerms\<rparr>,
          run_workers E
            ([PDivide (numer_MSE st * 2 ^ bits) (denom_MSE st),
              PDivide (numer_RSquared st * 2 ^ bits) (denom_RSquared st)] @
             map (\<lambda>i. PDivide (X_T_X_inv_diag_s_e st ! i * 2 ^ (2 * bits)) (denom_MSE_reweighted st)) [0..<d] @
             [PDivide (numer_F_statistic st * 2 ^ F_cols_bits_of_precision st)
                (denom_F_statistic st * F_cols_step_size st)] @
             map (\<lambda>i. PDivide (t_statisticNumerators st ! i * 2 ^ t_cols_bits_of_precision st)
                (X_T_X_inv_diag_s_e st ! i * t_cols_step_size st)) [0..<d])))"

subsection \<open>Table lookups\<close>

definition wrote_quotients :: "nat \<Rightarrow> LargeNum list \<Rightarrow> 'a Regression_scheme \<Rightarrow> 'a Regression_scheme" where
  "wrote_quotients d outs st =
     st\<lparr>meanSquareErrorShare := outs ! 0, RSquaredShare := outs ! 1,
        meanSquareErrorCoeffs := take d (drop 2 outs), F_statistic := outs ! (2 + d),
        t_statisticsSquared := take d (drop (3 + d) outs)\<rparr>"

text \<open>Only the revealer subtracts the number of variables and compares with a row of the table. For a column
  without rows the length less one, a \<open>size_t\<close>, wraps around and the loop reads after the end, \<open>None\<close>.\<close>

definition row_compares :: "RegEnv \<Rightarrow> LargeNum \<Rightarrow> nat list \<Rightarrow> prim list option" where
  "row_compares E cnt ids = (if ids = [] then None else
     Some (map (\<lambda>i. if is_revealer E
              then PCompare (modSub (env_arith E) cnt (numIVs E) (startMod E)) (ids ! i) (startMod E)
              else PCompare cnt 0 (startMod E)) [0..<length ids - 1]))"

definition complete_DivisionForErrorTerms ::
  "RegEnv \<Rightarrow> completed \<Rightarrow> 'a Regression_scheme \<Rightarrow> 'a Regression_scheme \<times> reg_effect list" where
  "complete_DivisionForErrorTerms E f st =
     (let d = numIVs E; st' = wrote_quotients d (out_nums f) st;
          cnt = startModulusPayloadVector st' ! (d * (d + 1) + 2)
      in case (row_compares E cnt (F_row_ids st'), row_compares E cnt (t_row_ids st')) of
           (Some Fs, Some ts) \<Rightarrow>
             (st'\<lparr>reg_state := awaitingCompareForFtStatistics\<rparr>, run_workers E (Fs @ ts))
         | _ \<Rightarrow> (st, [ReadsOutside]))"

definition complete_CompareForFtStatistics ::
  "RegEnv \<Rightarrow> completed \<Rightarrow> 'a Regression_scheme \<Rightarrow> 'a Regression_scheme \<times> reg_effect list" where
  "complete_CompareForFtStatistics E f st =
     (st\<lparr>reg_state := awaitingBatchedTypeCastFromBit\<rparr>, type_casts E f)"

definition complete_BatchedTypeCastFromBit ::
  "RegEnv \<Rightarrow> completed \<Rightarrow> 'a Regression_scheme \<Rightarrow> 'a Regression_scheme \<times> reg_effect list" where
  "complete_BatchedTypeCastFromBit E f st =
     (if F_row_ids st = [] \<or> t_row_ids st = [] then (st, [ReadsOutside]) else
      let p = endMod E; nF = length (F_row_ids st) - 1; nt = length (t_row_ids st) - 1;
          frow = fold (\<lambda>i acc. (acc + out_nums f ! i) mod p) [0..<nF] (F_row_id_share st);
          trow = fold (\<lambda>j acc. modAdd (env_arith E) acc (out_nums f ! (nF + j)) p) [0..<nt] 0;
          st = st\<lparr>F_row_id_share := frow, t_row_id_share := trow\<rparr>
      in (st\<lparr>reg_state := awaitingCompareForFtStatisticsEndModulus\<rparr>,
          run_workers E
            (PCompare (F_statistic st) (if is_revealer E then num_F_cols st else 0) p #
             map (\<lambda>i. PCompare (t_statisticsSquared st ! i) (if is_revealer E then num_t_cols st else 0) p)
               [0..<numIVs E])))"

definition complete_CompareForFtStatisticsEndModulus ::
  "RegEnv \<Rightarrow> completed \<Rightarrow> 'a Regression_scheme \<Rightarrow> 'a Regression_scheme \<times> reg_effect list" where
  "complete_CompareForFtStatisticsEndModulus E f st =
     (st\<lparr>reg_state := awaitingBatchedTypeCastFromBitLast\<rparr>, type_casts E f)"

text \<open>The factor that replaces an overflowing statistic by the last column.\<close>

definition column_shift :: "RegEnv \<Rightarrow> LargeNum \<Rightarrow> LargeNum \<Rightarrow> LargeNum" where
  "column_shift E cols stat = (if is_revealer E then cols - 1 else 0) + endMod E - stat"

definition complete_BatchedTypeCastFromBitLast ::
  "RegEnv \<Rightarrow> completed \<Rightarrow> 'a Regression_scheme \<Rightarrow> 'a Regression_scheme \<times> reg_effect list" where
  "complete_BatchedTypeCastFromBitLast E f st =
     (st\<lparr>reg_state := awaitingFifthMultiplyForErrorTerms\<rparr>,
      run_workers E
        (PMultiply (out_nums f ! 0) (column_shift E (num_F_cols st) (F_statistic st)) #
         map (\<lambda>i. PMultiply (out_nums f ! (1 + i)) (column_shift E (num_t_cols st) (t_statisticsSquared st ! i)))
           [0..<numIVs E]))"

definition complete_FifthMultiplyForErrorTerms ::
  "RegEnv \<Rightarrow> completed \<Rightarrow> 'a Regression_scheme \<Rightarrow> 'a Regression_scheme \<times> reg_effect list" where
  "complete_FifthMultiplyForErrorTerms E f st =
     (let A = env_arith E; p = endMod E; d = numIVs E;
          fcol = modAdd A (out_nums f ! 0) (F_statistic st) p;
          tcols = map (\<lambda>i. modAdd A (out_nums f ! (1 + i)) (t_statisticsSquared st ! i) p) [0..<d];
          lookup = (\<lambda>loc table. PLookup loc table (bytesInCells (env_info E)) (reg_revealer (env_info E)))
      in (st\<lparr>F_statistic_col_index := fcol, t_statistic_col_indices := tcols,
             reg_state := awaitingBatchedLookup\<rparr>,
          run_workers E
            (lookup (fcol + F_row_id_share st * num_F_cols st) (F_table_data st) #
             map (\<lambda>i. lookup (tcols ! i + t_row_id_share st * num_t_cols st) (t_table_data st)) [0..<d])))"

text \<open>The message a recipient gets.\<close>

definition result_message :: "RegEnv \<Rightarrow> 'a Regression_scheme \<Rightarrow> bytes" where
  "result_message E st =
     (let M = env_msg E; d = numIVs E; cells = [0..<bytesInCells (env_info E)]
      in concat (map (\<lambda>i. wrLarge M (beta_i st ! i)) [0..<d]) @
         wrLarge M (meanSquareErrorShare st) @ wrLarge M (RSquaredShare st) @
         concat (map (\<lambda>i. wrLarge M (meanSquareErrorCoeffs st ! i)) [0..<d]) @
         concat (map (\<lambda>i. wr8 M (F_p_value st ! i)) cells) @
         concat (map (\<lambda>i. concat (map (\<lambda>j. wr8 M (t_p_values st ! i ! j)) cells)) [0..<d]))"

definition complete_BatchedLookup ::
  "RegEnv \<Rightarrow> completed \<Rightarrow> 'a Regression_scheme \<Rightarrow> 'a Regression_scheme \<times> reg_effect list" where
  "complete_BatchedLookup E f st =
     (let st = st\<lparr>F_p_value := out_bytes f ! 0, t_p_values := tl (out_bytes f)\<rparr>
      in (st, map (\<lambda>other. Send other (result_message E st)) (forEachRecipient (env_peers E)) @ [Complete]))"

subsection \<open>The whole handler\<close>

definition Regression_handleComplete ::
  "matrix_lib \<Rightarrow> RegEnv \<Rightarrow> completed \<Rightarrow> 'a Regression_scheme \<Rightarrow> 'a Regression_scheme \<times> reg_effect list" where
  "Regression_handleComplete L E f st =
     (let (st, go) = join_randomness f st
      in if \<not> go then (st, [])
         else (case reg_state st of
             awaitingSISOSort \<Rightarrow> complete_SISOSort E st
           | awaitingZipAdjacent \<Rightarrow> complete_ZipAdjacent E f st
           | awaitingZipReduce \<Rightarrow> complete_ZipReduce E f st
           | awaitingBatchedModConvUp \<Rightarrow> complete_BatchedModConvUp E f st
           | awaitingMatrixMultiply \<Rightarrow> complete_MatrixMultiply E f st
           | awaitingMatrixReveal \<Rightarrow> complete_MatrixReveal L E f st
           | awaitingRegressionMultiply \<Rightarrow> complete_RegressionMultiply E f st
           | awaitingFirstCompare \<Rightarrow> complete_FirstCompare E f st
           | awaitingFirstTypeCastFromBit \<Rightarrow> complete_FirstTypeCastFromBit E f st
           | awaitingNegativeCorrectionMultiply \<Rightarrow> complete_NegativeCorrectionMultiply E f st
           | awaitingDivision \<Rightarrow> complete_Division E f st
           | awaitingNegativeRecorrectionMultiply \<Rightarrow> complete_NegativeRecorrectionMultiply E f st
           | awaitingFirstMultiplyForErrorTerms \<Rightarrow> complete_FirstMultiplyForErrorTerms E f st
           | awaitingSecondMultiplyForErrorTerms \<Rightarrow> complete_SecondMultiplyForErrorTerms E f st
           | awaitingThirdMultiplyForErrorTerms \<Rightarrow> complete_ThirdMultiplyForErrorTerms E f st
           | awaitingFourthMultiplyForErrorTerms \<Rightarrow> complete_FourthMultiplyForErrorTerms E f st
           | awaitingDivisionForErrorTerms \<Rightarrow> complete_DivisionForErrorTerms E f st
           | awaitingCompareForFtStatistics \<Rightarrow> complete_CompareForFtStatistics E f st
           | awaitingBatchedTypeCastFromBit \<Rightarrow> complete_BatchedTypeCastFromBit E f st
           | awaitingCompareForFtStatisticsEndModulus \<Rightarrow> complete_CompareForFtStatisticsEndModulus E f st
           | awaitingBatchedTypeCastFromBitLast \<Rightarrow> complete_BatchedTypeCastFromBitLast E f st
           | awaitingFifthMultiplyForErrorTerms \<Rightarrow> complete_FifthMultiplyForErrorTerms E f st
           | awaitingBatchedLookup \<Rightarrow> complete_BatchedLookup E f st
           | _ \<Rightarrow> (st, [LogError])))"

end
