(* ===== verification/ErrorTerms.thy ===== *)
theory ErrorTerms
  imports RegressionSteps
begin

text \<open>
  What the error terms of a regression open to. Every party computes linear combinations of its own
  shares, so the sums over the parties are the same combinations of the opened values; with the
  contract of the secure multiplication, the shares the parties end with open to the sum of squared
  residuals and to the numerators and denominators of the reported statistics.
\<close>

subsection \<open>Opening to an integer\<close>

definition opens_int :: "nat \<Rightarrow> nat list \<Rightarrow> int \<Rightarrow> bool" where
  "opens_int p xs v \<longleftrightarrow> int p dvd int (sum_list xs) - v"

lemma dvd_mod_diff: "int p dvd int (x mod p) - int x"
  by (metis dvd_minus_mod int_dvd_int_iff dvd_diff_commute zmod_int of_nat_mod mod_eq_dvd_iff mod_mod_trivial)

lemma dvd_sum_list:
  assumes "\<And>x. x \<in> set ps \<Longrightarrow> int p dvd int (f x) - g x"
  shows "int p dvd int (sum_list (map f ps)) - sum_list (map g ps)"
  using assms
proof (induction ps)
  case (Cons x ps)
  then have "int p dvd (int (f x) - g x) + (int (sum_list (map f ps)) - sum_list (map g ps))"
    by (intro dvd_add) simp_all
  then show ?case by (simp add: algebra_simps)
qed simp

lemma opens_int_linear:
  assumes "\<And>x. x \<in> set ps \<Longrightarrow> int p dvd int (f x) - g x" "int p dvd sum_list (map g ps) - v"
  shows "opens_int p (map f ps) v"
  using dvd_add [OF dvd_sum_list [of ps p f g, OF assms(1)] assms(2)] by (simp add: opens_int_def)

lemma sum_list_sum: "sum_list (map (\<lambda>x. \<Sum>i \<in> I. f i x) ps) = (\<Sum>i \<in> I. sum_list (map (f i) ps))"
  for f :: "'b \<Rightarrow> 'a \<Rightarrow> int"
  by (induction ps) (simp_all add: sum.distrib)

lemma sum_list_int: "sum_list (map (\<lambda>x. int (f x)) ps) = int (sum_list (map f ps))"
  by (induction ps) simp_all

subsection \<open>The quadratic form\<close>

definition quad_form :: "nat \<Rightarrow> (nat \<Rightarrow> nat \<Rightarrow> int) \<Rightarrow> (nat \<Rightarrow> int) \<Rightarrow> int \<Rightarrow> int" where
  "quad_form d g h s =
     s + (\<Sum>i<d. (\<Sum>j\<in>{i..<d}. (if i = j then 1 else 2) * g i j) - 2 * h i)"

lemma square_of_sum:
  "(\<Sum>i<d. a i)\<^sup>2 = (\<Sum>i<d. \<Sum>j\<in>{i..<d}. (if i = j then 1 else 2) * (a i * a j))"
  for a :: "nat \<Rightarrow> int"
proof (induction d)
  case (Suc d)
  have "(\<Sum>j\<in>{i..<Suc d}. (if i = j then 1 else 2) * (a i * a j))
      = (\<Sum>j\<in>{i..<d}. (if i = j then 1 else 2) * (a i * a j)) + 2 * (a i * a d)" if "i < d" for i
    using that by (simp add: sum.atLeastLessThan_Suc)
  then have "(\<Sum>i<Suc d. \<Sum>j\<in>{i..<Suc d}. (if i = j then 1 else 2) * (a i * a j))
      = (\<Sum>i<d. \<Sum>j\<in>{i..<d}. (if i = j then 1 else 2) * (a i * a j)) + 2 * a d * (\<Sum>i<d. a i) + a d * a d"
    by (simp add: sum.distrib sum_distrib_left mult.commute mult.left_commute)
  then show ?case using Suc by (simp add: power2_eq_square algebra_simps)
qed simp

text \<open>The quadratic form of the sums over the data is the sum of squared residuals.\<close>

definition residual_squares :: "nat \<Rightarrow> nat \<Rightarrow> (nat \<Rightarrow> nat \<Rightarrow> int) \<Rightarrow> (nat \<Rightarrow> int) \<Rightarrow> (nat \<Rightarrow> int) \<Rightarrow> int" where
  "residual_squares n d X y b = (\<Sum>r<n. (y r - (\<Sum>i<d. b i * X r i))\<^sup>2)"

lemma quad_form_residuals:
  "quad_form d (\<lambda>i j. b i * b j * (\<Sum>r<n. X r i * X r j)) (\<lambda>i. b i * (\<Sum>r<n. X r i * y r)) (\<Sum>r<n. (y r)\<^sup>2)
    = residual_squares n d X y b"
proof -
  have row: "(y r - (\<Sum>i<d. b i * X r i))\<^sup>2
      = (y r)\<^sup>2 + (\<Sum>i<d. (\<Sum>j\<in>{i..<d}. (if i = j then 1 else 2) * (b i * b j * (X r i * X r j)))
          - 2 * (b i * (X r i * y r)))" for r
    using square_of_sum [of "\<lambda>i. b i * X r i" d]
    by (simp add: power2_diff sum_subtractf sum_distrib_left mult.commute mult.left_commute)
  have "(\<Sum>r<n. \<Sum>i<d. \<Sum>j\<in>{i..<d}. (if i = j then 1 else 2) * (b i * b j * (X r i * X r j)))
      = (\<Sum>i<d. \<Sum>j\<in>{i..<d}. (if i = j then 1 else 2) * (b i * b j * (\<Sum>r<n. X r i * X r j)))"
    by (subst sum.swap, rule sum.cong [OF refl], subst sum.swap) (simp add: sum_distrib_left mult.assoc)
  moreover have "(\<Sum>r<n. \<Sum>i<d. 2 * (b i * (X r i * y r))) = (\<Sum>i<d. 2 * (b i * (\<Sum>r<n. X r i * y r)))"
    by (subst sum.swap) (simp add: sum_distrib_left)
  ultimately show ?thesis
    by (simp only: residual_squares_def quad_form_def row sum.distrib sum_subtractf)
qed

lemma quad_form_scale: "quad_form d (\<lambda>i j. c * g i j) (\<lambda>i. c * h i) (c * s) = c * quad_form d g h s"
  by (simp add: quad_form_def algebra_simps sum_distrib_left sum_subtractf)

subsection \<open>The combinations each party computes\<close>

lemma fold_steps:
  assumes "\<And>j acc. j \<in> set js \<Longrightarrow> int p dvd int (f j acc) - (int acc + g j)"
  shows "int p dvd int (fold f js acc) - (int acc + sum_list (map g js))"
  using assms
proof (induction js arbitrary: acc)
  case (Cons j js)
  have "int p dvd int (fold f js (f j acc)) - (int (f j acc) + sum_list (map g js))"
    using Cons by simp
  from dvd_add [OF this Cons.prems [of j acc]] show ?case by (simp add: algebra_simps)
qed simp

lemma party_quad_form:
  assumes inner: "\<And>i j acc. i \<le> j \<Longrightarrow> j < d \<Longrightarrow>
      int p dvd int (step i j acc) - (int acc + (if i = j then 1 else 2) * g i j)"
    and outer: "\<And>i acc. i < d \<Longrightarrow> int p dvd int (close i acc) - (int acc - 2 * h i)"
  shows "int p dvd int (fold (\<lambda>i acc. close i (fold (step i) [i..<d] acc)) [0..<d] acc) - quad_form d g h (int acc)"
proof -
  have "int p dvd int (close i (fold (step i) [i..<d] acc))
      - (int acc + ((\<Sum>j\<in>{i..<d}. (if i = j then 1 else 2) * g i j) - 2 * h i))" if "i < d" for i acc
  proof -
    have "int p dvd int (fold (step i) [i..<d] acc)
        - (int acc + (\<Sum>j\<leftarrow>[i..<d]. (if i = j then 1 else 2) * g i j))"
      by (rule fold_steps, rule inner) simp_all
    from dvd_add [OF this outer [OF that, of "fold (step i) [i..<d] acc"]] show ?thesis
      by (simp add: interv_sum_list_conv_sum_set_nat algebra_simps)
  qed
  then have "int p dvd int (fold (\<lambda>i acc. close i (fold (step i) [i..<d] acc)) [0..<d] acc)
      - (int acc + (\<Sum>i\<leftarrow>[0..<d]. (\<Sum>j\<in>{i..<d}. (if i = j then 1 else 2) * g i j) - 2 * h i))"
    by (intro fold_steps) auto
  then show ?thesis by (simp add: quad_form_def interv_sum_list_conv_sum_set_nat atLeast0LessThan)
qed

lemma numer_MSE_quad_form:
  assumes "\<And>i. i < d \<Longrightarrow> bxy ! i \<le> p"
  shows "int p dvd int (compute_numer_MSE d p bbxx bxy ySq)
    - quad_form d (\<lambda>i j. int (bbxx ! (i * d + j))) (\<lambda>i. int (bxy ! i)) (int ySq)"
  unfolding compute_numer_MSE_def Let_def
proof (rule party_quad_form)
  show "int p dvd int ((if i = j then acc + bbxx ! (i * d + i) else acc + 2 * bbxx ! (i * d + j)) mod p)
    - (int acc + (if i = j then 1 else 2) * int (bbxx ! (i * d + j)))" for i j acc
    using dvd_mod_diff [of p "if i = j then acc + bbxx ! (i * d + i) else acc + 2 * bbxx ! (i * d + j)"]
    by (simp split: if_splits)
  show "int p dvd int ((acc + 2 * (p - bxy ! i)) mod p) - (int acc - 2 * int (bxy ! i))" if "i < d" for i acc
  proof -
    have "int ((acc + 2 * (p - bxy ! i)) mod p) - (int acc - 2 * int (bxy ! i))
        = (int ((acc + 2 * (p - bxy ! i)) mod p) - int (acc + 2 * (p - bxy ! i))) + 2 * int p"
      using assms [OF that] by (simp add: of_nat_diff)
    then show ?thesis by (simp only: dvd_add [OF dvd_mod_diff] dvd_triv_right)
  qed
qed

definition modAdd_reduces :: "ff_arith \<Rightarrow> nat \<Rightarrow> bool" where
  "modAdd_reduces A p \<longleftrightarrow> (\<forall>x y. modAdd A x y p = (x + y) mod p)"

lemma modAdd_dvd:
  assumes "modAdd_reduces A p"
  shows "int p dvd int (modAdd A x y p) - int (x + y)"
proof -
  have "modAdd A x y p = (x + y) mod p" using assms by (simp add: modAdd_reduces_def)
  then show ?thesis by (simp only: dvd_mod_diff)
qed

lemma numer_RSquared_quad_form:
  assumes A: "modAdd_reduces A p" and "\<And>i. i < d \<Longrightarrow> bxyn ! i \<le> p"
  shows "int p dvd int (compute_numer_RSquared A d p bbxxn bxyn ySqn)
    - quad_form d (\<lambda>i j. int (bbxxn ! (i * d + j))) (\<lambda>i. int (bxyn ! i)) (int ySqn)"
  unfolding compute_numer_RSquared_def Let_def
proof (rule party_quad_form)
  show "int p dvd int (if i = j then modAdd A acc (bbxxn ! (i * d + i)) p else modAdd A acc (2 * bbxxn ! (i * d + j)) p)
    - (int acc + (if i = j then 1 else 2) * int (bbxxn ! (i * d + j)))" for i j acc
    using modAdd_dvd [OF A, of acc "bbxxn ! (i * d + i)"] modAdd_dvd [OF A, of acc "2 * bbxxn ! (i * d + j)"] by auto
  show "int p dvd int (modAdd A acc (2 * (p - bxyn ! i)) p) - (int acc - 2 * int (bxyn ! i))" if "i < d" for i acc
  proof -
    have "int (modAdd A acc (2 * (p - bxyn ! i)) p) - (int acc - 2 * int (bxyn ! i))
        = (int (modAdd A acc (2 * (p - bxyn ! i)) p) - int (acc + 2 * (p - bxyn ! i))) + 2 * int p"
      using assms(2) [OF that] by (simp add: of_nat_diff)
    then show ?thesis by (simp only: dvd_add [OF modAdd_dvd [OF A]] dvd_triv_right)
  qed
qed

lemma numer_RSquared_below:
  assumes "modAdd_reduces A p" "0 < p" "ySqn < p"
  shows "compute_numer_RSquared A d p bbxxn bxyn ySqn < p"
  unfolding compute_numer_RSquared_def Let_def
  by (rule fold_invariant [where Q = "\<lambda>_. True"]) (use assms in \<open>simp_all add: modAdd_reduces_def\<close>)

lemma quad_form_cong_dvd:
  assumes "\<And>i j. i \<le> j \<Longrightarrow> j < d \<Longrightarrow> q dvd g i j - g' i j" "\<And>i. i < d \<Longrightarrow> q dvd h i - h' i" "q dvd s - s'"
  shows "q dvd quad_form d g h s - quad_form d g' h' s'"
proof -
  have "quad_form d g h s - quad_form d g' h' s' = (s - s')
      + (\<Sum>i<d. (\<Sum>j\<in>{i..<d}. (if i = j then 1 else 2) * (g i j - g' i j)) - 2 * (h i - h' i))"
    by (simp add: quad_form_def sum_subtractf right_diff_distrib)
  moreover have "q dvd (\<Sum>i<d. (\<Sum>j\<in>{i..<d}. (if i = j then 1 else 2) * (g i j - g' i j)) - 2 * (h i - h' i))"
  proof (rule dvd_sum)
    fix i assume i: "i \<in> {..<d}"
    have "q dvd (\<Sum>j\<in>{i..<d}. (if i = j then 1 else 2) * (g i j - g' i j))"
      by (rule dvd_sum, rule dvd_mult) (simp add: assms(1))
    moreover have "q dvd 2 * (h i - h' i)" by (rule dvd_mult) (use i assms(2) in simp)
    ultimately show "q dvd (\<Sum>j\<in>{i..<d}. (if i = j then 1 else 2) * (g i j - g' i j)) - 2 * (h i - h' i)"
      by (rule dvd_diff)
  qed
  ultimately show ?thesis using assms(3) by simp
qed

lemma parties_quad_form:
  assumes party: "\<And>x. x \<in> set xs \<Longrightarrow>
      int p dvd int (F x) - quad_form d (\<lambda>i j. int (g x i j)) (\<lambda>i. int (h x i)) (int (s x))"
    and "\<And>i j. i \<le> j \<Longrightarrow> j < d \<Longrightarrow> opens_int p (map (\<lambda>x. g x i j) xs) (G i j)"
    and "\<And>i. i < d \<Longrightarrow> opens_int p (map (\<lambda>x. h x i) xs) (H i)" and "opens_int p (map s xs) S"
  shows "opens_int p (map F xs) (quad_form d G H S)"
proof (rule opens_int_linear [OF party])
  have "sum_list (map (\<lambda>x. quad_form d (\<lambda>i j. int (g x i j)) (\<lambda>i. int (h x i)) (int (s x))) xs)
      = quad_form d (\<lambda>i j. \<Sum>x\<leftarrow>xs. int (g x i j)) (\<lambda>i. \<Sum>x\<leftarrow>xs. int (h x i)) (\<Sum>x\<leftarrow>xs. int (s x))"
    by (simp add: quad_form_def sum_list_addf sum_list_subtractf sum_list_sum sum_list_const_mult)
  then show "int p dvd sum_list (map (\<lambda>x. quad_form d (\<lambda>i j. int (g x i j)) (\<lambda>i. int (h x i)) (int (s x))) xs)
      - quad_form d G H S"
    using assms(2-4) by (simp add: opens_int_def sum_list_int quad_form_cong_dvd)
qed simp

subsection \<open>Batches of secure multiplications\<close>

fun factors :: "prim \<Rightarrow> nat \<times> nat" where
  "factors (PMultiply a b) = (a, b)"
| "factors _ = (0, 0)"

fun prims_of :: "reg_effect list \<Rightarrow> prim list" where
  "prims_of [Invoke (Run ps _)] = ps"
| "prims_of _ = []"

lemma prims_of_run_workers [simp]: "prims_of (run_workers E ps) = ps"
  by (simp add: run_workers_def)

text \<open>The contract of a batch of multiplications: at every position the outputs of the parties open
  to the product of what the factors open to. \<open>batch\<close> and \<open>outs\<close> select them at a party.\<close>

definition multiplies :: "nat \<Rightarrow> ('a \<Rightarrow> prim list) \<Rightarrow> ('a \<Rightarrow> nat list) \<Rightarrow> 'a list \<Rightarrow> bool" where
  "multiplies p batch outs xs \<longleftrightarrow>
     list_all (\<lambda>x. length (outs x) = length (batch x) \<and> list_all (\<lambda>v. v < p) (outs x)) xs \<and>
     list_all (\<lambda>k. opens_int p (map (\<lambda>x. outs x ! k) xs)
       (int (\<Sum>x\<leftarrow>xs. fst (factors (batch x ! k))) * int (\<Sum>x\<leftarrow>xs. snd (factors (batch x ! k)))))
       [0..<length (batch (hd xs))]"

lemma opens_int_mult:
  assumes "opens_int p xs (int (sum_list ls) * int (sum_list rs))" "opens_int p ls L" "opens_int p rs R"
  shows "opens_int p xs (L * R)"
proof -
  have "int (sum_list xs) - L * R = (int (sum_list xs) - int (sum_list ls) * int (sum_list rs))
      + ((int (sum_list ls) - L) * int (sum_list rs) + L * (int (sum_list rs) - R))"
    by (simp add: algebra_simps)
  then show ?thesis
    using assms unfolding opens_int_def by (simp only: dvd_add dvd_mult dvd_mult2)
qed

lemma multiplies_nth:
  assumes "multiplies p batch outs xs" "xs \<noteq> []" "\<And>x. x \<in> set xs \<Longrightarrow> k < length (batch x)"
    and "\<And>x. x \<in> set xs \<Longrightarrow> batch x ! k = PMultiply (l x) (r x)"
    and "opens_int p (map l xs) L" "opens_int p (map r xs) R"
  shows "opens_int p (map (\<lambda>x. outs x ! k) xs) (L * R)"
proof (rule opens_int_mult [OF _ assms(5,6)])
  have "map (\<lambda>x. fst (factors (batch x ! k))) xs = map l xs" "map (\<lambda>x. snd (factors (batch x ! k))) xs = map r xs"
    using assms(4) by simp_all
  moreover have "k < length (batch (hd xs))" using assms(2,3) by simp
  then have "opens_int p (map (\<lambda>x. outs x ! k) xs)
      (int (\<Sum>x\<leftarrow>xs. fst (factors (batch x ! k))) * int (\<Sum>x\<leftarrow>xs. snd (factors (batch x ! k))))"
    using assms(1) by (simp add: multiplies_def list_all_iff)
  ultimately show "opens_int p (map (\<lambda>x. outs x ! k) xs) (int (sum_list (map l xs)) * int (sum_list (map r xs)))"
    by (simp only:)
qed

lemma multiplies_bounds:
  assumes "multiplies p batch outs xs" "x \<in> set xs"
  shows "length (outs x) = length (batch x)" "k < length (batch x) \<Longrightarrow> outs x ! k < p"
  using assms by (auto simp: multiplies_def list_all_iff)

subsection \<open>The triangle of index pairs\<close>

lemma tri_pairs_set: "(i, j) \<in> set (tri_pairs d) \<longleftrightarrow> i \<le> j \<and> j < d"
  by (force simp: tri_pairs_def)

lemma distinct_cells: "distinct (map (\<lambda>(i, j). i * d + j) (tri_pairs d))"
proof -
  have "inj_on (\<lambda>i. map (Pair i) [i..<d]) {0..<d}"
    by (rule inj_onI) (auto simp: upt_conv_Cons)
  then have "distinct (tri_pairs d)"
    by (auto simp: tri_pairs_def distinct_map intro!: distinct_concat inj_onI)
  moreover have "inj_on (\<lambda>(i, j). i * d + j) (set (tri_pairs d))"
  proof (rule inj_onI, clarify)
    fix i j i' j' assume "(i, j) \<in> set (tri_pairs d)" "(i', j') \<in> set (tri_pairs d)" and eq: "i * d + j = i' * d + j'"
    then have "j < d" "j' < d" by (simp_all add: tri_pairs_set)
    then show "i = i' \<and> j = j'"
      using arg_cong [OF eq, of "\<lambda>x. x div d"] arg_cong [OF eq, of "\<lambda>x. x mod d"] by simp
  qed
  ultimately show ?thesis by (simp add: distinct_map)
qed

lemma nth_fold_updates:
  assumes "distinct (map c ps)" "length outs = length ps" "\<And>q. q \<in> set ps \<Longrightarrow> c q < length v" "k < length ps"
  shows "fold (\<lambda>(x, q) v. v[c q := x]) (zip outs ps) v ! c (ps ! k) = outs ! k"
  using assms
proof (induction ps arbitrary: outs v k)
  case (Cons q ps)
  then obtain x outs' where outs: "outs = x # outs'" by (cases outs) auto
  have keep: "c q \<notin> set (map c ps') \<Longrightarrow> fold (\<lambda>(x, q) v. v[c q := x]) (zip os ps') w ! c q = w ! c q" for os ps' w
  proof (induction ps' arbitrary: os w)
    case (Cons a ps')
    then show ?case by (cases os) auto
  qed simp
  show ?case
  proof (cases k)
    case 0
    then show ?thesis using Cons.prems outs keep [of ps outs' "v[c q := x]"] by simp
  next
    case (Suc k')
    then show ?thesis using Cons outs by simp
  qed
qed simp

lemma nth_wrote_triangle:
  assumes "length outs = length (tri_pairs d)" "k < length (tri_pairs d)" "tri_pairs d ! k = (i, j)"
  shows "wrote_triangle d outs cells ! (i * d + j) = outs ! k"
proof -
  have "length (resize_zero (d * d) cells) = d * d" by (simp add: resize_zero_def)
  moreover have "(\<lambda>(i, j). i * d + j) q < d * d" if "q \<in> set (tri_pairs d)" for q
  proof -
    obtain i j where q: "q = (i, j)" by fastforce
    then have "i < d" "j < d" using that by (auto simp: tri_pairs_set)
    then have "i * d + j < Suc i * d" "Suc i * d \<le> d * d" by (simp, metis Suc_leI mult_le_mono1)
    then show ?thesis using q by simp
  qed
  ultimately have "fold (\<lambda>(x, q) v. v[(\<lambda>(i, j). i * d + j) q := x]) (zip outs (tri_pairs d)) (resize_zero (d * d) cells)
      ! (\<lambda>(i, j). i * d + j) (tri_pairs d ! k) = outs ! k"
    by (intro nth_fold_updates distinct_cells assms(1,2)) simp_all
  then show ?thesis using assms(3) by (simp add: wrote_triangle_def case_prod_unfold)
qed

subsection \<open>From the coefficients to the statistics\<close>

text \<open>One party's part of the run: the results of the batch that gave the coefficients and of the two
  batches of products, and its state before.\<close>

record error_run =
  er_env :: RegEnv
  er_beta :: completed
  er_first :: completed
  er_second :: completed
  er_st :: Regression

definition first_products :: "error_run \<Rightarrow> Regression \<times> reg_effect list" where
  "first_products x = complete_NegativeRecorrectionMultiply (er_env x) (er_beta x) (er_st x)"

definition second_products :: "error_run \<Rightarrow> Regression \<times> reg_effect list" where
  "second_products x = complete_FirstMultiplyForErrorTerms (er_env x) (er_first x) (fst (first_products x))"

definition error_state :: "error_run \<Rightarrow> Regression" where
  "error_state x = fst (complete_SecondMultiplyForErrorTerms (er_env x) (er_second x) (fst (second_products x)))"

abbreviation "batch1 x \<equiv> prims_of (snd (first_products x))"
abbreviation "batch2 x \<equiv> prims_of (snd (second_products x))"
abbreviation "outs1 x \<equiv> out_nums (er_first x)"
abbreviation "outs2 x \<equiv> out_nums (er_second x)"
abbreviation "betas x \<equiv> out_nums (er_beta x)"

lemma first_products_nth:
  assumes "numIVs (er_env x) = d"
  defines "t \<equiv> length (tri_pairs d)" and "m \<equiv> mat_m (er_st x)"
  shows "length (batch1 x) = 2 * t + d + 2"
    and "k < t \<Longrightarrow> tri_pairs d ! k = (i, j) \<Longrightarrow> batch1 x ! k = PMultiply (betas x ! i) (betas x ! j)"
    and "k < t \<Longrightarrow> tri_pairs d ! k = (i, j) \<Longrightarrow> batch1 x ! (t + k) = PMultiply (m ! i ! j) (oneShare (er_st x))"
    and "i < d \<Longrightarrow> batch1 x ! (2 * t + i) = PMultiply (m ! i ! d) (betas x ! i)"
    and "batch1 x ! (2 * t + d) = PMultiply (ySquaredShare (er_st x)) (oneShare (er_st x))"
    and "batch1 x ! (2 * t + d + 1) = PMultiply (yShare (er_st x)) (yShare (er_st x))"
  using assms(1)
  by (simp_all add: first_products_def complete_NegativeRecorrectionMultiply_def Let_def t_def m_def
      nth_append mult_2 nth_Cons')

lemma first_products_state:
  assumes "numIVs (er_env x) = d" "length (outs1 x) = 2 * length (tri_pairs d) + d + 2"
  defines "t \<equiv> length (tri_pairs d)" and "S \<equiv> fst (second_products x)"
  shows "k < t \<Longrightarrow> tri_pairs d ! k = (i, j) \<Longrightarrow> beta_ibeta_j S ! (i * d + j) = outs1 x ! k"
    and "k < t \<Longrightarrow> tri_pairs d ! k = (i, j) \<Longrightarrow> x_ix_jn S ! (i * d + j) = outs1 x ! (t + k)"
    and "i < d \<Longrightarrow> beta_ix_iy S ! i = outs1 x ! (2 * t + i)"
    and "ySquaredn S = outs1 x ! (2 * t + d)" "ySumThenSquared S = outs1 x ! (2 * t + d + 1)"
    and "oneShare S = oneShare (er_st x)" "ySquaredShare S = ySquaredShare (er_st x)" "mat_m S = mat_m (er_st x)"
  using assms(1,2)
  by (simp_all add: second_products_def first_products_def complete_NegativeRecorrectionMultiply_def
      complete_FirstMultiplyForErrorTerms_def wrote_first_def Let_def S_def t_def nth_wrote_triangle)

lemma second_products_nth:
  assumes "numIVs (er_env x) = d"
  defines "t \<equiv> length (tri_pairs d)" and "S \<equiv> fst (second_products x)"
  shows "length (batch2 x) = 2 * t + 2 * d"
    and "k < t \<Longrightarrow> tri_pairs d ! k = (i, j) \<Longrightarrow>
      batch2 x ! k = PMultiply (beta_ibeta_j S ! (i * d + j)) (x_ix_jn S ! (i * d + j))"
    and "k < t \<Longrightarrow> tri_pairs d ! k = (i, j) \<Longrightarrow>
      batch2 x ! (t + k) = PMultiply (beta_ibeta_j S ! (i * d + j)) (mat_m S ! i ! j)"
    and "i < d \<Longrightarrow> batch2 x ! (2 * t + i) = PMultiply (oneShare S) (beta_ix_iy S ! i)"
  using assms(1)
  by (simp_all add: second_products_def complete_FirstMultiplyForErrorTerms_def Let_def t_def S_def
      nth_append mult_2)

text \<open>The state the errors are computed from.\<close>

definition error_inputs :: "error_run \<Rightarrow> Regression" where
  "error_inputs x = wrote_second (numIVs (er_env x)) (outs2 x) (fst (second_products x))"

lemma error_inputs_nth:
  assumes "numIVs (er_env x) = d" "length (outs2 x) = 2 * length (tri_pairs d) + 2 * d"
  defines "t \<equiv> length (tri_pairs d)" and "S \<equiv> error_inputs x"
  shows "k < t \<Longrightarrow> tri_pairs d ! k = (i, j) \<Longrightarrow> beta_ibeta_jx_ix_jn S ! (i * d + j) = outs2 x ! k"
    and "k < t \<Longrightarrow> tri_pairs d ! k = (i, j) \<Longrightarrow> beta_ibeta_jx_ix_j S ! (i * d + j) = outs2 x ! (t + k)"
    and "i < d \<Longrightarrow> beta_ix_iyn S ! i = outs2 x ! (2 * t + i)"
    and "beta_ix_iy S = beta_ix_iy (fst (second_products x))" "ySquaredn S = ySquaredn (fst (second_products x))"
    and "ySumThenSquared S = ySumThenSquared (fst (second_products x))"
    and "oneShare S = oneShare (fst (second_products x))" "ySquaredShare S = ySquaredShare (fst (second_products x))"
  using assms(1,2)
  by (simp_all add: error_inputs_def wrote_second_def Let_def S_def t_def nth_wrote_triangle)

lemma error_state_fields:
  fixes x :: error_run
  defines "S \<equiv> error_inputs x" and "E \<equiv> er_env x"
  shows "numer_MSE (error_state x) =
      compute_numer_MSE (numIVs E) (endMod E) (beta_ibeta_jx_ix_j S) (beta_ix_iy S) (ySquaredShare S)"
    and "denom_MSE (error_state x) =
      (if is_revealer E then modAdd (env_arith E) (oneShare S) (endMod E - numIVs E) (endMod E) else oneShare S)"
    and "denom_RSquared (error_state x) =
      (if fitIntercept (env_info E) then (ySquaredn S + (endMod E - ySumThenSquared S)) mod endMod E else ySquaredn S)"
    and "denom_F_statistic (error_state x) =
      compute_numer_RSquared (env_arith E) (numIVs E) (endMod E) (beta_ibeta_jx_ix_jn S) (beta_ix_iyn S) (ySquaredn S)
        * numIVs E mod endMod E"
    and "numer_RSquared (error_state x) =
      ((endMod E - compute_numer_RSquared (env_arith E) (numIVs E) (endMod E) (beta_ibeta_jx_ix_jn S)
        (beta_ix_iyn S) (ySquaredn S)) + denom_RSquared (error_state x)) mod endMod E"
  by (simp_all add: error_state_def complete_SecondMultiplyForErrorTerms_def compute_errors_def Let_def
      S_def E_def error_inputs_def)

text \<open>The query is the same at every party, and exactly one party is the revealer.\<close>

definition error_query :: "nat \<Rightarrow> nat \<Rightarrow> bool \<Rightarrow> error_run list \<Rightarrow> bool" where
  "error_query p d fit xs \<longleftrightarrow> 0 < p \<and> d \<le> p \<and> length (filter (\<lambda>x. is_revealer (er_env x)) xs) = 1 \<and>
     list_all (\<lambda>x. endMod (er_env x) = p \<and> numIVs (er_env x) = d \<and> fitIntercept (env_info (er_env x)) = fit) xs"

text \<open>The shares open to the coefficients \<open>b\<close> and to the sums over \<open>n\<close> rows of data.\<close>

definition inputs_open ::
  "nat \<Rightarrow> nat \<Rightarrow> nat \<Rightarrow> (nat \<Rightarrow> nat \<Rightarrow> int) \<Rightarrow> (nat \<Rightarrow> int) \<Rightarrow> (nat \<Rightarrow> int) \<Rightarrow> error_run list \<Rightarrow> bool" where
  "inputs_open p n d X y b xs \<longleftrightarrow>
     list_all (\<lambda>i. opens_int p (map (\<lambda>x. betas x ! i) xs) (b i)) [0..<d] \<and>
     list_all (\<lambda>(i, j). opens_int p (map (\<lambda>x. mat_m (er_st x) ! i ! j) xs) (\<Sum>r<n. X r i * X r j)) (tri_pairs d) \<and>
     list_all (\<lambda>i. opens_int p (map (\<lambda>x. mat_m (er_st x) ! i ! d) xs) (\<Sum>r<n. X r i * y r)) [0..<d] \<and>
     opens_int p (map (\<lambda>x. ySquaredShare (er_st x)) xs) (\<Sum>r<n. (y r)\<^sup>2) \<and>
     opens_int p (map (\<lambda>x. yShare (er_st x)) xs) (\<Sum>r<n. y r) \<and>
     opens_int p (map (\<lambda>x. oneShare (er_st x)) xs) (int n)"

definition total_squares :: "nat \<Rightarrow> bool \<Rightarrow> (nat \<Rightarrow> int) \<Rightarrow> int" where
  "total_squares n fit y = int n * (\<Sum>r<n. (y r)\<^sup>2) - (if fit then (\<Sum>r<n. y r)\<^sup>2 else 0)"

lemma tri_pairs_index: "i \<le> j \<Longrightarrow> j < d \<Longrightarrow> \<exists>k < length (tri_pairs d). tri_pairs d ! k = (i, j)"
  using tri_pairs_set [of i j d] by (auto simp: in_set_conv_nth)

text \<open>All the hypotheses on a run: the query, the inputs and the two batches.\<close>

definition error_run_ok ::
  "nat \<Rightarrow> nat \<Rightarrow> nat \<Rightarrow> bool \<Rightarrow> (nat \<Rightarrow> nat \<Rightarrow> int) \<Rightarrow> (nat \<Rightarrow> int) \<Rightarrow> (nat \<Rightarrow> int) \<Rightarrow> error_run list \<Rightarrow> bool" where
  "error_run_ok p n d fit X y b xs \<longleftrightarrow> error_query p d fit xs \<and> inputs_open p n d X y b xs \<and>
     multiplies p (\<lambda>x. batch1 x) (\<lambda>x. outs1 x) xs \<and> multiplies p (\<lambda>x. batch2 x) (\<lambda>x. outs2 x) xs"

lemma query_of:
  assumes "error_run_ok p n d fit X y b xs"
  shows "x \<in> set xs \<Longrightarrow> endMod (er_env x) = p" "x \<in> set xs \<Longrightarrow> numIVs (er_env x) = d"
  "x \<in> set xs \<Longrightarrow> fitIntercept (env_info (er_env x)) = fit" "xs \<noteq> []" "0 < p"
  using assms by (auto simp: error_run_ok_def error_query_def list_all_iff)

lemma run_multiplies:
  assumes "error_run_ok p n d fit X y b xs"
  shows "multiplies p (\<lambda>x. batch1 x) (\<lambda>x. outs1 x) xs" "multiplies p (\<lambda>x. batch2 x) (\<lambda>x. outs2 x) xs"
  using assms by (simp_all add: error_run_ok_def)

lemma run_lengths:
  assumes ok: "error_run_ok p n d fit X y b xs" and "x \<in> set xs"
  shows "length (outs1 x) = 2 * length (tri_pairs d) + d + 2" "length (outs2 x) = 2 * length (tri_pairs d) + 2 * d"
  using multiplies_bounds(1) [OF run_multiplies(1) [OF ok] assms(2)]
    multiplies_bounds(1) [OF run_multiplies(2) [OF ok] assms(2)]
    first_products_nth(1) [OF query_of(2) [OF ok]] second_products_nth(1) [OF query_of(2) [OF ok]] assms(2) by simp_all

lemma opens_map_cong:
  assumes "opens_int p (map f xs) v" "\<And>x. x \<in> set xs \<Longrightarrow> g x = f x"
  shows "opens_int p (map g xs) v"
proof -
  have "map g xs = map f xs" using assms(2) by simp
  then show ?thesis using assms(1) by (simp only:)
qed

lemma batch1_opens:
  assumes ok: "error_run_ok p n d fit X y b xs" and "\<And>x. x \<in> set xs \<Longrightarrow> k < 2 * length (tri_pairs d) + d + 2"
    and "\<And>x. x \<in> set xs \<Longrightarrow> batch1 x ! k = PMultiply (l x) (r x)"
    and "opens_int p (map l xs) L" "opens_int p (map r xs) R"
  shows "opens_int p (map (\<lambda>x. outs1 x ! k) xs) (L * R)"
  by (rule multiplies_nth [OF run_multiplies(1) [OF ok] query_of(4) [OF ok] _ assms(3-5)])
    (use assms(2) first_products_nth(1) [OF query_of(2) [OF ok]] in simp_all)

lemma batch2_opens:
  assumes ok: "error_run_ok p n d fit X y b xs" and "\<And>x. x \<in> set xs \<Longrightarrow> k < 2 * length (tri_pairs d) + 2 * d"
    and "\<And>x. x \<in> set xs \<Longrightarrow> batch2 x ! k = PMultiply (l x) (r x)"
    and "opens_int p (map l xs) L" "opens_int p (map r xs) R"
  shows "opens_int p (map (\<lambda>x. outs2 x ! k) xs) (L * R)"
  by (rule multiplies_nth [OF run_multiplies(2) [OF ok] query_of(4) [OF ok] _ assms(3-5)])
    (use assms(2) second_products_nth(1) [OF query_of(2) [OF ok]] in simp_all)

lemma inputs_of:
  assumes "error_run_ok p n d fit X y b xs"
  shows "i < d \<Longrightarrow> opens_int p (map (\<lambda>x. betas x ! i) xs) (b i)"
  "i \<le> j \<Longrightarrow> j < d \<Longrightarrow> opens_int p (map (\<lambda>x. mat_m (er_st x) ! i ! j) xs) (\<Sum>r<n. X r i * X r j)"
  "i < d \<Longrightarrow> opens_int p (map (\<lambda>x. mat_m (er_st x) ! i ! d) xs) (\<Sum>r<n. X r i * y r)"
  "opens_int p (map (\<lambda>x. ySquaredShare (er_st x)) xs) (\<Sum>r<n. (y r)\<^sup>2)"
  "opens_int p (map (\<lambda>x. yShare (er_st x)) xs) (\<Sum>r<n. y r)"
  "opens_int p (map (\<lambda>x. oneShare (er_st x)) xs) (int n)"
  using assms by (auto simp: error_run_ok_def inputs_open_def list_all_iff tri_pairs_set)

text \<open>The first batch of products.\<close>

lemma first_open:
  assumes ok: "error_run_ok p n d fit X y b xs"
  shows "i \<le> j \<Longrightarrow> j < d \<Longrightarrow> opens_int p (map (\<lambda>x. beta_ibeta_j (fst (second_products x)) ! (i * d + j)) xs) (b i * b j)"
  "i \<le> j \<Longrightarrow> j < d \<Longrightarrow> opens_int p (map (\<lambda>x. x_ix_jn (fst (second_products x)) ! (i * d + j)) xs)
     ((\<Sum>r<n. X r i * X r j) * int n)"
  "i < d \<Longrightarrow> opens_int p (map (\<lambda>x. beta_ix_iy (fst (second_products x)) ! i) xs) ((\<Sum>r<n. X r i * y r) * b i)"
  "opens_int p (map (\<lambda>x. ySquaredn (fst (second_products x))) xs) ((\<Sum>r<n. (y r)\<^sup>2) * int n)"
  "opens_int p (map (\<lambda>x. ySumThenSquared (fst (second_products x))) xs) ((\<Sum>r<n. y r) * (\<Sum>r<n. y r))"
proof -
  note st = first_products_state [OF query_of(2) [OF ok] run_lengths(1) [OF ok]]
  show "opens_int p (map (\<lambda>x. beta_ibeta_j (fst (second_products x)) ! (i * d + j)) xs) (b i * b j)"
    "opens_int p (map (\<lambda>x. x_ix_jn (fst (second_products x)) ! (i * d + j)) xs) ((\<Sum>r<n. X r i * X r j) * int n)"
    if ij: "i \<le> j" "j < d"
  proof -
    obtain k where k: "k < length (tri_pairs d)" "tri_pairs d ! k = (i, j)" using tri_pairs_index [OF ij] by blast
    have i: "i < d" using ij by simp
    show "opens_int p (map (\<lambda>x. beta_ibeta_j (fst (second_products x)) ! (i * d + j)) xs) (b i * b j)"
      by (rule opens_map_cong [OF batch1_opens [where k = k, OF ok _ first_products_nth(2) [OF query_of(2) [OF ok] k]
            inputs_of(1) [OF ok i] inputs_of(1) [OF ok ij(2)]]])
        (use k st(1) [OF _ _ k] in simp_all)
    show "opens_int p (map (\<lambda>x. x_ix_jn (fst (second_products x)) ! (i * d + j)) xs) ((\<Sum>r<n. X r i * X r j) * int n)"
      by (rule opens_map_cong [OF batch1_opens [where k = "length (tri_pairs d) + k", OF ok _
            first_products_nth(3) [OF query_of(2) [OF ok] k] inputs_of(2) [OF ok ij] inputs_of(6) [OF ok]]])
        (use k st(2) [OF _ _ k] in simp_all)
  qed
  show "opens_int p (map (\<lambda>x. beta_ix_iy (fst (second_products x)) ! i) xs) ((\<Sum>r<n. X r i * y r) * b i)" if i: "i < d"
    by (rule opens_map_cong [OF batch1_opens [where k = "2 * length (tri_pairs d) + i", OF ok _
          first_products_nth(4) [OF query_of(2) [OF ok] i] inputs_of(3) [OF ok i] inputs_of(1) [OF ok i]]])
      (use i st(3) [OF _ _ i] in simp_all)
  show "opens_int p (map (\<lambda>x. ySquaredn (fst (second_products x))) xs) ((\<Sum>r<n. (y r)\<^sup>2) * int n)"
    by (rule opens_map_cong [OF batch1_opens [where k = "2 * length (tri_pairs d) + d", OF ok _
          first_products_nth(5) [OF query_of(2) [OF ok]] inputs_of(4) [OF ok] inputs_of(6) [OF ok]]])
      (use st(4) in simp_all)
  show "opens_int p (map (\<lambda>x. ySumThenSquared (fst (second_products x))) xs) ((\<Sum>r<n. y r) * (\<Sum>r<n. y r))"
    by (rule opens_map_cong [OF batch1_opens [where k = "2 * length (tri_pairs d) + d + 1", OF ok _
          first_products_nth(6) [OF query_of(2) [OF ok]] inputs_of(5) [OF ok] inputs_of(5) [OF ok]]])
      (use st(5) in simp_all)
qed

text \<open>The second batch of products.\<close>

lemma second_open:
  assumes ok: "error_run_ok p n d fit X y b xs"
  shows "i \<le> j \<Longrightarrow> j < d \<Longrightarrow> opens_int p (map (\<lambda>x. beta_ibeta_jx_ix_jn (error_inputs x) ! (i * d + j)) xs)
     (int n * (b i * b j * (\<Sum>r<n. X r i * X r j)))"
  "i \<le> j \<Longrightarrow> j < d \<Longrightarrow> opens_int p (map (\<lambda>x. beta_ibeta_jx_ix_j (error_inputs x) ! (i * d + j)) xs)
     (b i * b j * (\<Sum>r<n. X r i * X r j))"
  "i < d \<Longrightarrow> opens_int p (map (\<lambda>x. beta_ix_iyn (error_inputs x) ! i) xs) (int n * (b i * (\<Sum>r<n. X r i * y r)))"
proof -
  note st = first_products_state [OF query_of(2) [OF ok] run_lengths(1) [OF ok]] and er = error_inputs_nth [OF query_of(2) [OF ok] run_lengths(2) [OF ok]]
  have m: "opens_int p (map (\<lambda>x. mat_m (fst (second_products x)) ! i ! j) xs) (\<Sum>r<n. X r i * X r j)"
    if "i \<le> j" "j < d" for i j
    by (rule opens_map_cong [OF inputs_of(2) [OF ok that]]) (simp add: st(8))
  have one: "opens_int p (map (\<lambda>x. oneShare (fst (second_products x))) xs) (int n)"
    by (rule opens_map_cong [OF inputs_of(6) [OF ok]]) (simp add: st(6))
  show "opens_int p (map (\<lambda>x. beta_ibeta_jx_ix_jn (error_inputs x) ! (i * d + j)) xs)
      (int n * (b i * b j * (\<Sum>r<n. X r i * X r j)))"
    "opens_int p (map (\<lambda>x. beta_ibeta_jx_ix_j (error_inputs x) ! (i * d + j)) xs) (b i * b j * (\<Sum>r<n. X r i * X r j))"
    if ij: "i \<le> j" "j < d"
  proof -
    obtain k where k: "k < length (tri_pairs d)" "tri_pairs d ! k = (i, j)" using tri_pairs_index [OF ij] by blast
    have "opens_int p (map (\<lambda>x. beta_ibeta_jx_ix_jn (error_inputs x) ! (i * d + j)) xs)
        (b i * b j * ((\<Sum>r<n. X r i * X r j) * int n))"
      by (rule opens_map_cong [OF batch2_opens [where k = k, OF ok _ second_products_nth(2) [OF query_of(2) [OF ok] k]
            first_open(1) [OF ok ij] first_open(2) [OF ok ij]]])
        (use k er(1) [OF _ _ k] in simp_all)
    then show "opens_int p (map (\<lambda>x. beta_ibeta_jx_ix_jn (error_inputs x) ! (i * d + j)) xs)
        (int n * (b i * b j * (\<Sum>r<n. X r i * X r j)))" by (simp only: mult_ac)
    show "opens_int p (map (\<lambda>x. beta_ibeta_jx_ix_j (error_inputs x) ! (i * d + j)) xs) (b i * b j * (\<Sum>r<n. X r i * X r j))"
      by (rule opens_map_cong [OF batch2_opens [where k = "length (tri_pairs d) + k", OF ok _
            second_products_nth(3) [OF query_of(2) [OF ok] k] first_open(1) [OF ok ij] m [OF ij]]])
        (use k er(2) [OF _ _ k] in simp_all)
  qed
  show "opens_int p (map (\<lambda>x. beta_ix_iyn (error_inputs x) ! i) xs) (int n * (b i * (\<Sum>r<n. X r i * y r)))" if i: "i < d"
  proof -
    have "opens_int p (map (\<lambda>x. beta_ix_iyn (error_inputs x) ! i) xs) (int n * ((\<Sum>r<n. X r i * y r) * b i))"
      by (rule opens_map_cong [OF batch2_opens [where k = "2 * length (tri_pairs d) + i", OF ok _
            second_products_nth(4) [OF query_of(2) [OF ok] i] one first_open(3) [OF ok i]]])
        (use i er(3) [OF _ _ i] in simp_all)
    then show ?thesis by (simp only: mult_ac)
  qed
qed

lemma error_inputs_open:
  assumes ok: "error_run_ok p n d fit X y b xs"
  shows "i < d \<Longrightarrow> opens_int p (map (\<lambda>x. beta_ix_iy (error_inputs x) ! i) xs) (b i * (\<Sum>r<n. X r i * y r))"
    and "opens_int p (map (\<lambda>x. ySquaredn (error_inputs x)) xs) (int n * (\<Sum>r<n. (y r)\<^sup>2))"
    and "opens_int p (map (\<lambda>x. ySumThenSquared (error_inputs x)) xs) ((\<Sum>r<n. y r)\<^sup>2)"
    and "opens_int p (map (\<lambda>x. oneShare (error_inputs x)) xs) (int n)"
    and "opens_int p (map (\<lambda>x. ySquaredShare (error_inputs x)) xs) (\<Sum>r<n. (y r)\<^sup>2)"
proof -
  note er = error_inputs_nth [OF query_of(2) [OF ok] run_lengths(2) [OF ok]]
  note st = first_products_state [OF query_of(2) [OF ok] run_lengths(1) [OF ok]]
  show "opens_int p (map (\<lambda>x. beta_ix_iy (error_inputs x) ! i) xs) (b i * (\<Sum>r<n. X r i * y r))" if "i < d"
    by (rule opens_map_cong [OF first_open(3) [OF ok that, unfolded mult.commute [of _ "b i"]]]) (simp add: er(4))
  show "opens_int p (map (\<lambda>x. ySquaredn (error_inputs x)) xs) (int n * (\<Sum>r<n. (y r)\<^sup>2))"
    by (rule opens_map_cong [OF first_open(4) [OF ok, unfolded mult.commute [of _ "int n"]]]) (simp add: er(5))
  show "opens_int p (map (\<lambda>x. ySumThenSquared (error_inputs x)) xs) ((\<Sum>r<n. y r)\<^sup>2)"
    by (rule opens_map_cong [OF first_open(5) [OF ok, folded power2_eq_square]]) (simp add: er(6))
  show "opens_int p (map (\<lambda>x. oneShare (error_inputs x)) xs) (int n)"
    by (rule opens_map_cong [OF inputs_of(6) [OF ok]]) (simp add: er(7) st(6))
  show "opens_int p (map (\<lambda>x. ySquaredShare (error_inputs x)) xs) (\<Sum>r<n. (y r)\<^sup>2)"
    by (rule opens_map_cong [OF inputs_of(4) [OF ok]]) (simp add: er(8) st(7))
qed

lemma error_inputs_below:
  assumes ok: "error_run_ok p n d fit X y b xs" and x: "x \<in> set xs"
  shows "i < d \<Longrightarrow> beta_ix_iy (error_inputs x) ! i < p" "i < d \<Longrightarrow> beta_ix_iyn (error_inputs x) ! i < p"
    "ySquaredn (error_inputs x) < p" "ySumThenSquared (error_inputs x) < p"
proof -
  note er = error_inputs_nth [OF query_of(2) [OF ok x] run_lengths(2) [OF ok x]]
  note st = first_products_state [OF query_of(2) [OF ok x] run_lengths(1) [OF ok x]]
  note below = multiplies_bounds(2) [OF run_multiplies(1) [OF ok] x] multiplies_bounds(2) [OF run_multiplies(2) [OF ok] x]
  note len = first_products_nth(1) [OF query_of(2) [OF ok x]] second_products_nth(1) [OF query_of(2) [OF ok x]]
  show "i < d \<Longrightarrow> beta_ix_iy (error_inputs x) ! i < p" "i < d \<Longrightarrow> beta_ix_iyn (error_inputs x) ! i < p"
    "ySquaredn (error_inputs x) < p" "ySumThenSquared (error_inputs x) < p"
    using er(3) st(3) below len by (simp_all add: er(4-6) st(4,5))
qed

text \<open>The sum of squared residuals, times the number of rows, as each party computes it.\<close>

definition residuals_n :: "error_run \<Rightarrow> nat" where
  "residuals_n x = compute_numer_RSquared (env_arith (er_env x)) (numIVs (er_env x)) (endMod (er_env x))
     (beta_ibeta_jx_ix_jn (error_inputs x)) (beta_ix_iyn (error_inputs x)) (ySquaredn (error_inputs x))"

lemma error_state_residuals:
  "denom_F_statistic (error_state x) = residuals_n x * numIVs (er_env x) mod endMod (er_env x)"
  "numer_RSquared (error_state x) =
     ((endMod (er_env x) - residuals_n x) + denom_RSquared (error_state x)) mod endMod (er_env x)"
  by (simp_all only: error_state_fields(4,5) residuals_n_def)

lemma residuals_n_opens:
  assumes ok: "error_run_ok p n d fit X y b xs" and A: "list_all (\<lambda>x. modAdd_reduces (env_arith (er_env x)) p) xs"
  shows "opens_int p (map residuals_n xs) (int n * residual_squares n d X y b)"
    and "x \<in> set xs \<Longrightarrow> residuals_n x < p"
proof -
  have A: "modAdd_reduces (env_arith (er_env x)) p" if "x \<in> set xs" for x using A that by (simp add: list_all_iff)
  have "opens_int p (map residuals_n xs) (quad_form d
      (\<lambda>i j. int n * (b i * b j * (\<Sum>r<n. X r i * X r j))) (\<lambda>i. int n * (b i * (\<Sum>r<n. X r i * y r)))
      (int n * (\<Sum>r<n. (y r)\<^sup>2)))"
  proof (rule parties_quad_form [OF _ second_open(1) [OF ok] second_open(3) [OF ok] error_inputs_open(2) [OF ok]])
    fix x assume x: "x \<in> set xs"
    show "int p dvd int (residuals_n x) - quad_form d (\<lambda>i j. int (beta_ibeta_jx_ix_jn (error_inputs x) ! (i * d + j)))
        (\<lambda>i. int (beta_ix_iyn (error_inputs x) ! i)) (int (ySquaredn (error_inputs x)))"
      unfolding residuals_n_def query_of(1,2) [OF ok x]
      by (rule numer_RSquared_quad_form [OF A [OF x] less_imp_le [OF error_inputs_below(2) [OF ok x]]])
  qed
  then show "opens_int p (map residuals_n xs) (int n * residual_squares n d X y b)"
    by (simp only: quad_form_scale quad_form_residuals)
  show "residuals_n x < p" if x: "x \<in> set xs"
    unfolding residuals_n_def query_of(1,2) [OF ok x]
    by (rule numer_RSquared_below [OF A [OF x] query_of(5) [OF ok] error_inputs_below(3) [OF ok x]])
qed

lemma numer_MSE_opens:
  assumes ok: "error_run_ok p n d fit X y b xs"
  shows "opens_int p (map (\<lambda>x. numer_MSE (error_state x)) xs) (residual_squares n d X y b)"
proof -
  have "opens_int p (map (\<lambda>x. numer_MSE (error_state x)) xs) (quad_form d
      (\<lambda>i j. b i * b j * (\<Sum>r<n. X r i * X r j)) (\<lambda>i. b i * (\<Sum>r<n. X r i * y r)) (\<Sum>r<n. (y r)\<^sup>2))"
  proof (rule parties_quad_form [OF _ second_open(2) [OF ok] error_inputs_open(1) [OF ok] error_inputs_open(5) [OF ok]])
    fix x assume x: "x \<in> set xs"
    show "int p dvd int (numer_MSE (error_state x)) - quad_form d
        (\<lambda>i j. int (beta_ibeta_jx_ix_j (error_inputs x) ! (i * d + j)))
        (\<lambda>i. int (beta_ix_iy (error_inputs x) ! i)) (int (ySquaredShare (error_inputs x)))"
      unfolding error_state_fields(1) query_of(1,2) [OF ok x]
      by (rule numer_MSE_quad_form [OF less_imp_le [OF error_inputs_below(1) [OF ok x]]])
  qed
  then show ?thesis by (simp only: quad_form_residuals)
qed

lemma denom_RSquared_opens:
  assumes ok: "error_run_ok p n d fit X y b xs"
  shows "opens_int p (map (\<lambda>x. denom_RSquared (error_state x)) xs) (total_squares n fit y)"
proof -
  let ?S = error_inputs
  have "int p dvd int (denom_RSquared (error_state x))
      - (int (ySquaredn (?S x)) - (if fit then int (ySumThenSquared (?S x)) else 0))" if x: "x \<in> set xs" for x
  proof (cases fit)
    case True
    have "int ((ySquaredn (?S x) + (p - ySumThenSquared (?S x))) mod p)
          - (int (ySquaredn (?S x)) - int (ySumThenSquared (?S x)))
        = (int ((ySquaredn (?S x) + (p - ySumThenSquared (?S x))) mod p)
          - int (ySquaredn (?S x) + (p - ySumThenSquared (?S x)))) + int p"
      using error_inputs_below(4) [OF ok x] by (simp add: of_nat_diff)
    then have "int p dvd int ((ySquaredn (?S x) + (p - ySumThenSquared (?S x))) mod p)
          - (int (ySquaredn (?S x)) - int (ySumThenSquared (?S x)))"
      by (simp only: dvd_add [OF dvd_mod_diff] dvd_refl)
    then show ?thesis using True by (simp add: error_state_fields(3) query_of(1,3) [OF ok x])
  next
    case False
    then show ?thesis by (simp add: error_state_fields(3) query_of(1,3) [OF ok x])
  qed
  then show ?thesis
  proof (rule opens_int_linear)
    have "int p dvd (int (\<Sum>x\<leftarrow>xs. ySquaredn (?S x)) - int n * (\<Sum>r<n. (y r)\<^sup>2))
        - (int (\<Sum>x\<leftarrow>xs. ySumThenSquared (?S x)) - (\<Sum>r<n. y r)\<^sup>2)"
      using error_inputs_open(2,3) [OF ok] unfolding opens_int_def by (rule dvd_diff)
    then show "int p dvd (\<Sum>x\<leftarrow>xs. int (ySquaredn (?S x)) - (if fit then int (ySumThenSquared (?S x)) else 0))
        - total_squares n fit y"
      using error_inputs_open(2) [OF ok]
      by (cases fit) (simp_all add: total_squares_def sum_list_subtractf sum_list_int opens_int_def algebra_simps)
  qed
qed

lemma denom_MSE_opens:
  assumes ok: "error_run_ok p n d fit X y b xs" and A: "list_all (\<lambda>x. modAdd_reduces (env_arith (er_env x)) p) xs"
  shows "opens_int p (map (\<lambda>x. denom_MSE (error_state x)) xs) (int n - int d)"
proof (rule opens_int_linear)
  let ?rev = "\<lambda>x. is_revealer (er_env x)"
  have dp: "d \<le> p" and one: "length (filter ?rev xs) = 1" using ok by (simp_all add: error_run_ok_def error_query_def)
  fix x assume x: "x \<in> set xs"
  have "int p dvd (int (modAdd (env_arith (er_env x)) (oneShare (error_inputs x)) (p - d) p)
      - int (oneShare (error_inputs x) + (p - d))) + int p"
    using A x by (intro dvd_add modAdd_dvd dvd_refl) (simp add: list_all_iff)
  then show "int p dvd int (denom_MSE (error_state x))
      - (int (oneShare (error_inputs x)) - (if ?rev x then int d else 0))"
    using dp by (simp add: error_state_fields(2) query_of(1,2) [OF ok x] of_nat_diff algebra_simps)
next
  let ?rev = "\<lambda>x. is_revealer (er_env x)"
  have rev: "length (filter ?rev xs) = 1" using ok by (simp_all add: error_run_ok_def error_query_def)
  have "(\<Sum>x\<leftarrow>ys. if ?rev x then int d else 0) = int d * int (length (filter ?rev ys))" for ys
    by (induction ys) (simp_all add: algebra_simps)
  from this [of xs] rev have "(\<Sum>x\<leftarrow>xs. int (oneShare (error_inputs x)) - (if ?rev x then int d else 0))
      = int (\<Sum>x\<leftarrow>xs. oneShare (error_inputs x)) - int d"
    by (simp add: sum_list_subtractf sum_list_int)
  then show "int p dvd (\<Sum>x\<leftarrow>xs. int (oneShare (error_inputs x)) - (if ?rev x then int d else 0)) - (int n - int d)"
    using error_inputs_open(4) [OF ok] by (simp add: opens_int_def algebra_simps)
qed

text \<open>
  C3: With shares of the coefficients and of the sums over the data, with a correct secure
  multiplication, and with an addition of the library that reduces its arguments modulo the modulus
  even when they are not reduced, the parties end the second batch of products with shares of the
  regression's error terms: the sum of squared residuals over its degrees of freedom (the mean square
  error), the total sum of squares minus the residuals over the total sum (the coefficient of
  determination), and the denominator of the F statistic, each scaled by the number of rows as the
  code does. The denominator of the F statistic is d times the residuals, where d counts every
  coefficient: with an intercept the documentation divides by the d - 1 others
  (\<open>F_statistic_counts_constant\<close>).
\<close>
theorem error_terms_open:
  assumes "error_run_ok p n d fit X y b xs"
    and "list_all (\<lambda>x. modAdd_reduces (env_arith (er_env x)) p) xs"
  shows "opens_int p (map (\<lambda>x. numer_MSE (error_state x)) xs) (residual_squares n d X y b)
    \<and> opens_int p (map (\<lambda>x. denom_MSE (error_state x)) xs) (int n - int d)
    \<and> opens_int p (map (\<lambda>x. denom_RSquared (error_state x)) xs) (total_squares n fit y)
    \<and> opens_int p (map (\<lambda>x. numer_RSquared (error_state x)) xs)
        (total_squares n fit y - int n * residual_squares n d X y b)
    \<and> opens_int p (map (\<lambda>x. denom_F_statistic (error_state x)) xs) (int d * (int n * residual_squares n d X y b))"
proof -
  note res = residuals_n_opens [OF assms]
  have "opens_int p (map (\<lambda>x. numer_RSquared (error_state x)) xs)
      (total_squares n fit y - int n * residual_squares n d X y b)"
  proof (rule opens_int_linear)
    fix x assume x: "x \<in> set xs"
    let ?v = "(p - residuals_n x) + denom_RSquared (error_state x)"
    have "int (?v mod p) - (int (denom_RSquared (error_state x)) - int (residuals_n x))
        = (int (?v mod p) - int ?v) + int p"
      using res(2) [OF x] by (simp add: of_nat_diff)
    then show "int p dvd int (numer_RSquared (error_state x))
        - (int (denom_RSquared (error_state x)) - int (residuals_n x))"
      unfolding error_state_residuals query_of(1) [OF assms(1) x]
      by (simp only: dvd_add [OF dvd_mod_diff] dvd_refl)
  next
    have "int p dvd (int (\<Sum>x\<leftarrow>xs. denom_RSquared (error_state x)) - total_squares n fit y)
        - (int (sum_list (map residuals_n xs)) - int n * residual_squares n d X y b)"
      using denom_RSquared_opens [OF assms(1)] res(1) unfolding opens_int_def by (rule dvd_diff)
    then show "int p dvd (\<Sum>x\<leftarrow>xs. int (denom_RSquared (error_state x)) - int (residuals_n x))
        - (total_squares n fit y - int n * residual_squares n d X y b)"
      by (simp add: sum_list_subtractf sum_list_int algebra_simps)
  qed
  moreover have "opens_int p (map (\<lambda>x. denom_F_statistic (error_state x)) xs)
      (int d * (int n * residual_squares n d X y b))"
  proof (rule opens_int_linear)
    fix x assume x: "x \<in> set xs"
    show "int p dvd int (denom_F_statistic (error_state x)) - int d * int (residuals_n x)"
      unfolding error_state_residuals query_of(1,2) [OF assms(1) x]
      using dvd_mod_diff [of p "residuals_n x * d"] by (simp add: mult.commute)
  next
    have "(\<Sum>x\<leftarrow>xs. int d * int (residuals_n x)) - int d * (int n * residual_squares n d X y b)
        = int d * (int (sum_list (map residuals_n xs)) - int n * residual_squares n d X y b)"
      by (simp add: sum_list_const_mult sum_list_int right_diff_distrib)
    then show "int p dvd (\<Sum>x\<leftarrow>xs. int d * int (residuals_n x)) - int d * (int n * residual_squares n d X y b)"
      using res(1) unfolding opens_int_def by (simp only: dvd_mult)
  qed
  ultimately show ?thesis
    using numer_MSE_opens [OF assms(1)] denom_MSE_opens [OF assms] denom_RSquared_opens [OF assms(1)] by blast
qed

definition example_error_env :: "nat \<Rightarrow> RegEnv" where
  "example_error_env v = (example_env v)\<lparr>env_info := (env_info (example_env v))\<lparr>
     num_IVs := 1, endModulus := 101, fitIntercept := True, reg_revealer := example_party 0\<rparr>\<rparr>"

definition example_outputs :: "nat list \<Rightarrow> completed" where
  "example_outputs xs =
     \<lparr>is_patron = False, f_peers = PeerSet_empty, out_list = [], out_nums = xs, out_bits = [], out_matrix = [],
      out_bytes = []\<rparr>"

definition example_error_party ::
  "nat \<Rightarrow> nat list \<Rightarrow> nat list \<Rightarrow> nat list \<Rightarrow> nat list list \<Rightarrow> nat list \<Rightarrow> nat \<Rightarrow> nat \<Rightarrow> error_run" where
  "example_error_party v bs o1 o2 m sums dsh r =
     \<lparr>er_env = example_error_env v, er_beta = example_outputs bs, er_first = example_outputs o1,
      er_second = example_outputs o2,
      er_st = (Regression_blank (env_info (example_error_env v)) (example_rows 0 0)
          \<lparr>mat_values = [], det_of_inverse = 0\<rparr>)
        \<lparr>mat_m := m, ySquaredShare := sums ! 0, yShare := sums ! 1, oneShare := sums ! 2,
         detOpened := 1, detShare := dsh, mat_r := [[r]]\<rparr>\<rparr>"

text \<open>Two rows of data, \<open>x = 1, 2\<close> and \<open>y = 3, 5\<close>, with the coefficient 2, in shares of two parties.\<close>

definition example_error_run :: "error_run list" where
  "example_error_run =
     [example_error_party 0 [60] [1, 2, 3, 4, 5] [10, 5, 20, 7] [[7, 20]] [50, 3, 1] 2 4,
      example_error_party 1 [43] [3, 8, 23, 64, 59] [30, 15, 32, 43] [[99, 94]] [85, 5, 1] 3 6]"

lemma example_error_envs [simp]:
  "endMod (example_error_env v) = 101" "numIVs (example_error_env v) = 1"
  "fitIntercept (env_info (example_error_env v))" "env_arith (example_error_env v) = nat_arith"
  "is_revealer (example_error_env 0)" "\<not> is_revealer (example_error_env (Suc 0))"
  by (simp_all add: example_error_env_def is_revealer_def example_env_def example_party_def identity_eq_def)

lemma tri_pairs_1 [simp]: "tri_pairs (Suc 0) = [(0, 0)]" by (simp add: tri_pairs_def)

lemma nat_arith_reduces: "modAdd_reduces nat_arith p" by (simp add: modAdd_reduces_def nat_arith_def)

lemma wrote_triangle_1 [simp]: "wrote_triangle (Suc 0) [v] cells = [v]"
proof -
  have "length (resize_zero (Suc 0) cells) = Suc 0" by (simp add: resize_zero_def)
  then show ?thesis
    by (cases "resize_zero (Suc 0) cells") (simp_all add: wrote_triangle_def)
qed

lemma example_batches [simp]:
  fixes v dsh r :: nat and bs o2 m sums and a1 a2 a3 a4 a5 :: nat
  defines "P \<equiv> example_error_party v bs [a1, a2, a3, a4, a5] o2 m sums dsh r"
  shows "batch1 P = [PMultiply (bs ! 0) (bs ! 0), PMultiply (m ! 0 ! 0) (sums ! 2), PMultiply (m ! 0 ! 1) (bs ! 0),
      PMultiply (sums ! 0) (sums ! 2), PMultiply (sums ! 1) (sums ! 1)]"
    and "batch2 P = [PMultiply a1 a2, PMultiply a1 (m ! 0 ! 0), PMultiply (sums ! 2) a3, PMultiply dsh r]"
    and "outs1 P = [a1, a2, a3, a4, a5]" and "outs2 P = o2" and "betas P = bs" and "er_env P = example_error_env v"
    and "mat_m (er_st P) = m" and "ySquaredShare (er_st P) = sums ! 0" and "yShare (er_st P) = sums ! 1"
    and "oneShare (er_st P) = sums ! 2"
  by (simp_all add: P_def example_error_party_def example_outputs_def first_products_def second_products_def
      complete_NegativeRecorrectionMultiply_def complete_FirstMultiplyForErrorTerms_def wrote_first_def Let_def)

lemma example_error_run_ok:
  "error_run_ok 101 2 1 True (\<lambda>r i. [1, 2] ! r) (\<lambda>r. [3, 5] ! r) (\<lambda>i. 2) example_error_run"
proof -
  have "error_query 101 1 True example_error_run"
    by (simp add: error_query_def example_error_run_def)
  moreover have "inputs_open 101 2 1 (\<lambda>r i. [1, 2] ! r) (\<lambda>r. [3, 5] ! r) (\<lambda>i. 2) example_error_run"
    by (simp add: inputs_open_def example_error_run_def opens_int_def lessThan_nat_numeral lessThan_Suc)
  moreover have "multiplies 101 (\<lambda>x. batch1 x) (\<lambda>x. outs1 x) example_error_run"
    "multiplies 101 (\<lambda>x. batch2 x) (\<lambda>x. outs2 x) example_error_run"
    by (simp_all add: multiplies_def example_error_run_def opens_int_def upt_rec)
  ultimately show ?thesis by (simp add: error_run_ok_def)
qed

theorem error_terms_open_witness:
  "opens_int 101 (map (\<lambda>x. numer_MSE (error_state x)) example_error_run) 2
    \<and> opens_int 101 (map (\<lambda>x. denom_F_statistic (error_state x)) example_error_run) 4"
proof -
  have "list_all (\<lambda>x. modAdd_reduces (env_arith (er_env x)) 101) example_error_run"
    by (simp add: example_error_run_def nat_arith_reduces)
  moreover have "residual_squares 2 1 (\<lambda>r i. [1, 2] ! r) (\<lambda>r. [3, 5] ! r) (\<lambda>i. 2) = 2"
    by (simp add: residual_squares_def lessThan_nat_numeral lessThan_Suc)
  ultimately show ?thesis using error_terms_open [OF example_error_run_ok] by simp
qed

end
