(* ===== verification/F_Statistic.thy ===== *)
theory F_Statistic
  imports Complex_Main ErrorTerms
begin

text \<open>
  The F statistic of a regression as the products of the error terms give it, and as
  \<open>doc/wiki/zz-algorithms/Linear-Regression.md\<close> defines it.
\<close>

text \<open>
  The F statistic that the terms give, beside the one of the documentation, which with an intercept
  divides the explained sum of squares by the coefficients other than the constant. The constant is
  one of the d coefficients of the code, so its statistic is (d - 1) / d of the documented one; without an
  intercept the two agree.
\<close>

definition F_statistic :: "nat \<Rightarrow> nat \<Rightarrow> bool \<Rightarrow> (nat \<Rightarrow> nat \<Rightarrow> int) \<Rightarrow> (nat \<Rightarrow> int) \<Rightarrow> (nat \<Rightarrow> int) \<Rightarrow> rat" where
  "F_statistic n d fit X y b = of_int ((total_squares n fit y - int n * residual_squares n d X y b) * (int n - int d)) /
     of_int (int d * (int n * residual_squares n d X y b))"

definition documented_F :: "nat \<Rightarrow> nat \<Rightarrow> bool \<Rightarrow> (nat \<Rightarrow> nat \<Rightarrow> int) \<Rightarrow> (nat \<Rightarrow> int) \<Rightarrow> (nat \<Rightarrow> int) \<Rightarrow> rat" where
  "documented_F n p fit X y b =
     (let d = (if fit then p + 1 else p);
          rss = of_int (residual_squares n d X y b);
          tss = of_int (total_squares n fit y) / of_nat n
      in ((tss - rss) / of_nat p) / (rss / (of_nat n - of_nat d)))"

lemma F_statistic_counts_constant:
  assumes "0 < n" "0 < p" "residual_squares n (if fit then p + 1 else p) X y b \<noteq> 0"
  shows "F_statistic n (if fit then p + 1 else p) fit X y b =
    (if fit then of_nat p / of_nat (p + 1) else 1) * documented_F n p fit X y b"
proof -
  have "((t - n * r) * m) / (d * (n * r)) = (p / d) * (((t / n - r) / p) / (r / m))"
    if "n \<noteq> 0" "p \<noteq> 0" "r \<noteq> 0" "d \<noteq> 0" for n p r d m t :: rat
    using that by (simp add: field_simps)
  from this [of "of_nat n" "of_nat p" "of_int (residual_squares n (if fit then p + 1 else p) X y b)" "of_nat (if fit then p + 1 else p)"]
  show ?thesis using assms by (simp add: F_statistic_def documented_F_def Let_def)
qed

end
