(* ===== verification/Randomness.thy ===== *)
theory Randomness
  imports RegressionSteps "HOL-Library.Monad_Syntax"
begin

text \<open>
  How correlated randomness is ordered and dealt: the patrons of the dataowners
  (\<open>dataowner/LookupPatron.cpp\<close>, \<open>MomentsPatron.cpp\<close>, \<open>RegressionPatron.cpp\<close>) and the houses of the
  dealer (\<open>dealer/LookupHouse.cpp\<close>, \<open>MomentsHouse.cpp\<close>, \<open>RegressionHouse.cpp\<close>). A dispenser is the
  number of its items; the items belong to the library. A completed sub-patron hands over a dispenser
  of \<open>got\<close> items.
\<close>

subsection \<open>Calls\<close>

datatype rnd_kind =
    KModConvUp | KDivide | KZipAdjacent | KBeaver | KSquareMatrix | KCompare LargeNum | KTypeCast
  | KTableLookup | KLookup LargeNum | KSISOSort | KRegressionBasement | KMomentsBasement

text \<open>A patron asks for a number of items, a house deals what its patrons ask for.\<close>

datatype rnd_call = Supply rnd_kind nat | Deal rnd_kind

type_synonym rnd_effect = "(rnd_call \<times> PeerSet option, bytes) effect"

text \<open>\<open>littleDispenser\<close> splits off \<open>n\<close> items; asking for more than there are is the failure \<open>None\<close>,
  and so is a dispenser that was never set.\<close>

definition little :: "nat \<Rightarrow> nat \<Rightarrow> nat option" where
  "little n left = (if n \<le> left then Some (left - n) else None)"

fun little_all :: "nat \<Rightarrow> nat option list \<Rightarrow> nat option list option" where
  "little_all n [] = Some []"
| "little_all n (None # ls) = None"
| "little_all n (Some l # ls) = do { l' \<leftarrow> little n l; ls' \<leftarrow> little_all n ls; Some (Some l' # ls') }"

definition other_verticals :: "Identity \<Rightarrow> PeerSet \<Rightarrow> Identity list" where
  "other_verticals self peers = filter (\<lambda>other. vertical other \<noteq> vertical self) (forEachDataowner peers)"

definition three_peers :: "Identity \<Rightarrow> Identity \<Rightarrow> Identity \<Rightarrow> PeerSet option" where
  "three_peers a b c = do { ps \<leftarrow> PeerSet_add a PeerSet_empty; ps \<leftarrow> PeerSet_add b ps; PeerSet_add c ps }"

definition cross_pairs :: "PeerSet \<Rightarrow> (Identity \<times> Identity) list" where
  "cross_pairs peers =
     concat (map (\<lambda>other. map (\<lambda>other_two. (other, other_two))
       (filter (\<lambda>other_two. vertical other < vertical other_two) (forEachDataowner peers))) (forEachDataowner peers))"

subsection \<open>Lookups\<close>

datatype lp_state = LP_awaitingCompare | LP_awaitingTypeCastFromBit | LP_awaitingLookup

record LookupPatron =
  lp_state :: lp_state
  lp_modulus :: LargeNum
  lp_size :: nat
  lp_compare :: nat
  lp_cast :: nat
  lp_table :: nat
  lp_bundles :: "(nat \<times> nat \<times> nat) list"

definition LookupPatron_new :: "LargeNum \<Rightarrow> nat \<Rightarrow> LookupPatron" where
  "LookupPatron_new compareModulus n =
     \<lparr>lp_state = LP_awaitingCompare, lp_modulus = compareModulus, lp_size = n, lp_compare = 0, lp_cast = 0,
      lp_table = 0, lp_bundles = []\<rparr>"

definition LookupPatron_init :: "PeerSet \<Rightarrow> LookupPatron \<Rightarrow> LookupPatron \<times> rnd_effect list" where
  "LookupPatron_init peers st =
     (st\<lparr>lp_state := LP_awaitingCompare\<rparr>, [Invoke (Supply (KCompare (lp_modulus st)) (1 * lp_size st), Some peers)])"

fun lp_generate :: "nat \<Rightarrow> LookupPatron \<Rightarrow> LookupPatron option" where
  "lp_generate 0 st = Some st"
| "lp_generate (Suc n) st = do {
     a \<leftarrow> little 1 (lp_compare st); b \<leftarrow> little 1 (lp_cast st); c \<leftarrow> little 1 (lp_table st);
     lp_generate n (st\<lparr>lp_compare := a, lp_cast := b, lp_table := c, lp_bundles := lp_bundles st @ [(1, 1, 1)]\<rparr>) }"

definition LookupPatron_handleComplete ::
  "PeerSet \<Rightarrow> nat \<Rightarrow> LookupPatron \<Rightarrow> (LookupPatron \<times> rnd_effect list) option" where
  "LookupPatron_handleComplete peers got st =
     (case lp_state st of
        LP_awaitingCompare \<Rightarrow>
          Some (st\<lparr>lp_compare := got, lp_state := LP_awaitingTypeCastFromBit\<rparr>,
            [Invoke (Supply KTypeCast (1 * lp_size st), Some peers)])
      | LP_awaitingTypeCastFromBit \<Rightarrow>
          Some (st\<lparr>lp_cast := got, lp_state := LP_awaitingLookup\<rparr>,
            [Invoke (Supply KTableLookup (1 * lp_size st), Some peers)])
      | LP_awaitingLookup \<Rightarrow>
          do { st \<leftarrow> lp_generate (lp_size st) (st\<lparr>lp_table := got\<rparr>); Some (st, [Complete]) })"

text \<open>A house counts the dealers it still waits for.\<close>

record House =
  numDealersRemaining :: nat

definition House_handleComplete :: "House \<Rightarrow> House \<times> rnd_effect list" where
  "House_handleComplete st =
     (let st = st\<lparr>numDealersRemaining := numDealersRemaining st - 1\<rparr>
      in (st, if numDealersRemaining st = 0 then [Complete] else []))"

definition LookupHouse_init :: "LargeNum \<Rightarrow> PeerSet \<Rightarrow> House \<times> rnd_effect list" where
  "LookupHouse_init compareModulus peers =
     (\<lparr>numDealersRemaining = 3\<rparr>,
      map (\<lambda>k. Invoke (Deal k, Some peers)) [KCompare compareModulus, KTypeCast, KTableLookup])"

subsection \<open>Moments\<close>

datatype mp_state = MP_awaitingModConvUp | MP_awaitingDivide | MP_awaitingConditionalEvaluate

record MomentsPatron =
  mp_state :: mp_state
  mp_payloadLength :: nat
  mp_dealer :: Identity
  mp_size :: nat
  mp_awaiting :: nat
  mp_cross :: nat
  mp_index :: "(Identity \<times> nat) list"
  mp_modConvUp :: nat
  mp_divide :: nat
  mp_zipAdjacent :: "nat option list"
  mp_bundles :: "(nat \<times> nat \<times> nat list) list"

definition MomentsPatron_new :: "nat \<Rightarrow> Identity \<Rightarrow> nat \<Rightarrow> MomentsPatron" where
  "MomentsPatron_new len dlr n =
     \<lparr>mp_state = MP_awaitingModConvUp, mp_payloadLength = len, mp_dealer = dlr, mp_size = n, mp_awaiting = 0,
      mp_cross = 0, mp_index = [], mp_modConvUp = 0, mp_divide = 0, mp_zipAdjacent = [], mp_bundles = []\<rparr>"

definition MomentsPatron_init :: "Identity \<Rightarrow> PeerSet \<Rightarrow> MomentsPatron \<Rightarrow> MomentsPatron \<times> rnd_effect list" where
  "MomentsPatron_init self peers st =
     (let others = other_verticals self peers
      in (st\<lparr>mp_cross := length others,
             mp_index := mp_index st @ map (\<lambda>(i, other). (other, i)) (enumerate 0 others),
             mp_state := MP_awaitingModConvUp\<rparr>,
          [Invoke (Supply KModConvUp (mp_payloadLength st * mp_size st), Some peers)]))"

fun mp_generate :: "nat \<Rightarrow> MomentsPatron \<Rightarrow> MomentsPatron option" where
  "mp_generate 0 st = Some st"
| "mp_generate (Suc n) st = do {
     zs \<leftarrow> little_all 1 (take (mp_cross st) (mp_zipAdjacent st));
     u \<leftarrow> little (mp_payloadLength st) (mp_modConvUp st); v \<leftarrow> little (mp_payloadLength st) (mp_divide st);
     mp_generate n (st\<lparr>mp_zipAdjacent := zs, mp_modConvUp := u, mp_divide := v,
       mp_bundles := mp_bundles st @ [(mp_payloadLength st, mp_payloadLength st, replicate (mp_cross st) 1)]\<rparr>) }"

definition MomentsPatron_handleComplete ::
  "Identity \<Rightarrow> PeerSet \<Rightarrow> PeerSet \<Rightarrow> nat \<Rightarrow> MomentsPatron \<Rightarrow> (MomentsPatron \<times> rnd_effect list) option" where
  "MomentsPatron_handleComplete self peers f_peers' got st =
     (case mp_state st of
        MP_awaitingModConvUp \<Rightarrow>
          Some (st\<lparr>mp_modConvUp := got, mp_state := MP_awaitingDivide\<rparr>,
            [Invoke (Supply KDivide (mp_payloadLength st * mp_size st), Some peers)])
      | MP_awaitingDivide \<Rightarrow>
          (let others = other_verticals self peers
           in Some (st\<lparr>mp_divide := got, mp_zipAdjacent := mp_zipAdjacent st @ replicate (length others) None,
                     mp_awaiting := mp_cross st, mp_state := MP_awaitingConditionalEvaluate\<rparr>,
                map (\<lambda>other. Invoke (Supply KZipAdjacent (1 * mp_size st), three_peers self other (mp_dealer st))) others))
      | MP_awaitingConditionalEvaluate \<Rightarrow>
          (let st = st\<lparr>mp_zipAdjacent :=
                 fold (\<lambda>other zs. zs[cross_index other (mp_index st) := Some got])
                   (other_verticals self f_peers') (mp_zipAdjacent st),
                 mp_awaiting := mp_awaiting st - 1\<rparr>
           in if mp_awaiting st = 0 then do { st \<leftarrow> mp_generate (mp_size st) st; Some (st, [Complete]) }
              else Some (st, [])))"

text \<open>The calls a house makes for a pair of dataowners of different verticals.\<close>

definition pair_deals :: "Identity \<Rightarrow> PeerSet \<Rightarrow> rnd_kind \<Rightarrow> rnd_effect list" where
  "pair_deals self peers k = map (\<lambda>(a, b). Invoke (Deal k, three_peers self a b)) (cross_pairs peers)"

definition MomentsBasement_init :: "Identity \<Rightarrow> PeerSet \<Rightarrow> House \<times> rnd_effect list" where
  "MomentsBasement_init self peers =
     (\<lparr>numDealersRemaining = 2 + length (cross_pairs peers)\<rparr>,
      [Invoke (Deal KModConvUp, Some peers), Invoke (Deal KDivide, Some peers)] @
      pair_deals self peers KZipAdjacent)"

definition MomentsHouse_init :: "Identity \<Rightarrow> PeerSet \<Rightarrow> House \<times> rnd_effect list" where
  "MomentsHouse_init self peers =
     (\<lparr>numDealersRemaining = 1 + length (cross_pairs peers)\<rparr>,
      [Invoke (Deal KMomentsBasement, map_option removeRecipients (PeerSet_copy peers))] @
      pair_deals self peers KSISOSort)"

subsection \<open>Regression\<close>

datatype rp_state =
    RP_awaitingModConvUp | RP_awaitingDivide | RP_awaitingConditionalEvaluate
  | RP_awaitingBeaverTripleForFactory | RP_awaitingBeaverTripleForMatrixMultiply
  | RP_awaitingRandomSquareMatrix | RP_awaitingBeaverTripleForFinalMultiply
  | RP_awaitingCompareEndModulus | RP_awaitingCompare | RP_awaitingTypeCastFromBit
  | RP_awaitingF_lookup | RP_awaitingt_lookup

text \<open>The items of one regression.\<close>

record RegressionRandomness =
  n_modConvUp :: nat
  n_divide :: nat
  n_zipAdjacent :: "nat list"
  n_factory :: "nat list"
  n_matrix :: nat
  n_square :: nat
  n_final :: nat
  n_compareEnd :: nat
  n_compare :: nat
  n_cast :: nat
  n_F_lookup :: nat
  n_t_lookup :: nat

text \<open>The numbers the constructor computes, for one regression; \<open>batchSize\<close> is the size of the
  shared lists.\<close>

definition regression_needs :: "RegressionInfo \<Rightarrow> nat \<Rightarrow> nat \<Rightarrow> nat \<Rightarrow> nat \<Rightarrow> RegressionRandomness" where
  "regression_needs info batchSize F_rows t_rows cross =
     (let d = num_IVs info in
      \<lparr>n_modConvUp = d * d + d + 3, n_divide = d + 2 + d + 1 + d, n_zipAdjacent = replicate cross 1,
       n_factory = replicate cross
         ((batchSize - 1) * (verticalNonDV_numIVs info * (verticalDV_numIVs info + 1))),
       n_matrix = d * d * (d + 1), n_square = 1,
       n_final = d + 2 * d + d * d + 2 * d + 2 + d * d + 3 * d + d + 2 + d + d + 1,
       n_compareEnd = d + 1 + d, n_compare = F_rows + t_rows, n_cast = d + F_rows + t_rows + 1 + d,
       n_F_lookup = 1, n_t_lookup = d\<rparr>)"

record RegressionPatron =
  rp_state :: rp_state
  rp_info :: RegressionInfo
  rp_dealer :: Identity
  rp_batchSize :: nat
  rp_F_rows :: nat
  rp_t_rows :: nat
  rp_size :: nat
  rp_awaiting :: nat
  rp_cross :: nat
  rp_index :: "(Identity \<times> nat) list"
  rp_modConvUp :: nat
  rp_divide :: nat
  rp_zipAdjacent :: "nat option list"
  rp_factory :: "nat option list"
  rp_matrix :: nat
  rp_square :: nat
  rp_final :: nat
  rp_compareEnd :: nat
  rp_compare :: nat
  rp_cast :: nat
  rp_F_lookup :: nat
  rp_t_lookup :: nat
  rp_bundles :: "RegressionRandomness list"

definition RegressionPatron_new :: "RegressionInfo \<Rightarrow> Identity \<Rightarrow> nat \<Rightarrow> nat \<Rightarrow> nat \<Rightarrow> nat \<Rightarrow> RegressionPatron" where
  "RegressionPatron_new info dlr batchSize F_rows t_rows n =
     \<lparr>rp_state = RP_awaitingModConvUp, rp_info = info, rp_dealer = dlr, rp_batchSize = batchSize,
      rp_F_rows = F_rows, rp_t_rows = t_rows, rp_size = n, rp_awaiting = 0, rp_cross = 0, rp_index = [],
      rp_modConvUp = 0, rp_divide = 0, rp_zipAdjacent = [], rp_factory = [], rp_matrix = 0, rp_square = 0,
      rp_final = 0, rp_compareEnd = 0, rp_compare = 0, rp_cast = 0, rp_F_lookup = 0, rp_t_lookup = 0,
      rp_bundles = []\<rparr>"

definition rp_needs :: "RegressionPatron \<Rightarrow> RegressionRandomness" where
  "rp_needs st = regression_needs (rp_info st) (rp_batchSize st) (rp_F_rows st) (rp_t_rows st) (rp_cross st)"

definition rp_factory_need :: "RegressionPatron \<Rightarrow> nat" where
  "rp_factory_need st =
     (rp_batchSize st - 1) * (verticalNonDV_numIVs (rp_info st) * (verticalDV_numIVs (rp_info st) + 1))"

definition RegressionPatron_init ::
  "Identity \<Rightarrow> PeerSet \<Rightarrow> RegressionPatron \<Rightarrow> RegressionPatron \<times> rnd_effect list" where
  "RegressionPatron_init self peers st =
     (let others = other_verticals self peers
      in (st\<lparr>rp_cross := length others,
             rp_index := rp_index st @ map (\<lambda>(i, other). (other, i)) (enumerate 0 others),
             rp_state := RP_awaitingModConvUp\<rparr>,
          [Invoke (Supply KModConvUp (n_modConvUp (rp_needs st) * rp_size st), Some peers)]))"

text \<open>\<open>vector::at\<close> and \<open>map::at\<close> throw: \<open>None\<close>.\<close>

fun index_at :: "Identity \<Rightarrow> (Identity \<times> nat) list \<Rightarrow> nat option" where
  "index_at p [] = None"
| "index_at p ((q, i) # qs) = (if identity_eq q p then Some i else index_at p qs)"

fun store_dispensers :: "(Identity \<times> nat) list \<Rightarrow> nat \<Rightarrow> Identity list \<Rightarrow> nat option list \<Rightarrow> nat option list option" where
  "store_dispensers idx got [] ds = Some ds"
| "store_dispensers idx got (other # others) ds =
     do { i \<leftarrow> index_at other idx;
          if i < length ds then store_dispensers idx got others (ds[i := Some got]) else None }"

fun rp_generate :: "nat \<Rightarrow> RegressionPatron \<Rightarrow> RegressionPatron option" where
  "rp_generate 0 st = Some st"
| "rp_generate (Suc n) st =
     (let need = rp_needs st in do {
       zs \<leftarrow> little_all 1 (take (rp_cross st) (rp_zipAdjacent st));
       fs \<leftarrow> little_all (rp_factory_need st) (take (rp_cross st) (rp_factory st));
       a \<leftarrow> little (n_modConvUp need) (rp_modConvUp st);
       b \<leftarrow> little (n_divide need) (rp_divide st);
       c \<leftarrow> little (n_matrix need) (rp_matrix st);
       d \<leftarrow> little (n_square need) (rp_square st);
       e \<leftarrow> little (n_final need) (rp_final st);
       f \<leftarrow> little (n_compareEnd need) (rp_compareEnd st);
       g \<leftarrow> little (n_compare need) (rp_compare st);
       h \<leftarrow> little (n_cast need) (rp_cast st);
       i \<leftarrow> little (n_F_lookup need) (rp_F_lookup st);
       j \<leftarrow> little (n_t_lookup need) (rp_t_lookup st);
       rp_generate n (st\<lparr>rp_zipAdjacent := zs, rp_factory := fs, rp_modConvUp := a, rp_divide := b,
         rp_matrix := c, rp_square := d, rp_final := e, rp_compareEnd := f, rp_compare := g, rp_cast := h,
         rp_F_lookup := i, rp_t_lookup := j, rp_bundles := rp_bundles st @ [need]\<rparr>) })"

definition rp_cross_calls :: "Identity \<Rightarrow> PeerSet \<Rightarrow> rnd_kind \<Rightarrow> nat \<Rightarrow> RegressionPatron \<Rightarrow> rnd_effect list" where
  "rp_cross_calls self peers k n st =
     map (\<lambda>other. Invoke (Supply k n, three_peers self other (rp_dealer st))) (other_verticals self peers)"

text \<open>The states after the pairs, one call for the whole party each.\<close>

definition rp_sequel ::
  "PeerSet \<Rightarrow> nat \<Rightarrow> RegressionPatron \<Rightarrow> (RegressionPatron \<times> rnd_effect list) option" where
  "rp_sequel peers got st =
     (let need = rp_needs st; n = rp_size st; ask = (\<lambda>k m. [Invoke (Supply k (m * n), Some peers)]);
          p = endModulus (rp_info st)
      in case rp_state st of
        RP_awaitingBeaverTripleForMatrixMultiply \<Rightarrow>
          Some (st\<lparr>rp_matrix := got, rp_state := RP_awaitingRandomSquareMatrix\<rparr>, ask KSquareMatrix (n_square need))
      | RP_awaitingRandomSquareMatrix \<Rightarrow>
          Some (st\<lparr>rp_square := got, rp_state := RP_awaitingBeaverTripleForFinalMultiply\<rparr>, ask KBeaver (n_final need))
      | RP_awaitingBeaverTripleForFinalMultiply \<Rightarrow>
          Some (st\<lparr>rp_final := got, rp_state := RP_awaitingCompareEndModulus\<rparr>, ask (KCompare p) (n_compareEnd need))
      | RP_awaitingCompareEndModulus \<Rightarrow>
          Some (st\<lparr>rp_compareEnd := got, rp_state := RP_awaitingCompare\<rparr>,
                ask (KCompare (startModulus (rp_info st))) (n_compare need))
      | RP_awaitingCompare \<Rightarrow>
          Some (st\<lparr>rp_compare := got, rp_state := RP_awaitingTypeCastFromBit\<rparr>, ask KTypeCast (n_cast need))
      | RP_awaitingTypeCastFromBit \<Rightarrow>
          Some (st\<lparr>rp_cast := got, rp_state := RP_awaitingF_lookup\<rparr>, ask (KLookup p) (n_F_lookup need))
      | RP_awaitingF_lookup \<Rightarrow>
          Some (st\<lparr>rp_F_lookup := got, rp_state := RP_awaitingt_lookup\<rparr>, ask (KLookup p) (n_t_lookup need))
      | RP_awaitingt_lookup \<Rightarrow>
          do { st \<leftarrow> rp_generate (rp_size st) (st\<lparr>rp_t_lookup := got\<rparr>); Some (st, [Complete]) }
      | _ \<Rightarrow> Some (st, [LogError]))"

definition RegressionPatron_handleComplete ::
  "Identity \<Rightarrow> PeerSet \<Rightarrow> PeerSet \<Rightarrow> nat \<Rightarrow> RegressionPatron \<Rightarrow> (RegressionPatron \<times> rnd_effect list) option" where
  "RegressionPatron_handleComplete self peers from got st =
     (let need = rp_needs st; n = rp_size st; ask = (\<lambda>k m. [Invoke (Supply k (m * n), Some peers)])
      in case rp_state st of
        RP_awaitingModConvUp \<Rightarrow>
          Some (st\<lparr>rp_modConvUp := got, rp_state := RP_awaitingDivide\<rparr>, ask KDivide (n_divide need))
      | RP_awaitingDivide \<Rightarrow>
          Some (st\<lparr>rp_divide := got,
                   rp_zipAdjacent := rp_zipAdjacent st @ replicate (length (other_verticals self peers)) None,
                   rp_awaiting := rp_cross st, rp_state := RP_awaitingConditionalEvaluate\<rparr>,
                rp_cross_calls self peers KZipAdjacent (1 * n) st)
      | RP_awaitingConditionalEvaluate \<Rightarrow> do {
          zs \<leftarrow> store_dispensers (rp_index st) got (other_verticals self from) (rp_zipAdjacent st);
          let st = st\<lparr>rp_zipAdjacent := zs, rp_awaiting := rp_awaiting st - 1\<rparr>;
          if rp_awaiting st = 0 then
            Some (st\<lparr>rp_factory := take (rp_cross st) (rp_factory st) @
                       replicate (rp_cross st - length (rp_factory st)) None,
                     rp_awaiting := rp_cross st, rp_state := RP_awaitingBeaverTripleForFactory\<rparr>,
                  rp_cross_calls self peers KBeaver (rp_factory_need st * n) st)
          else Some (st, []) }
      | RP_awaitingBeaverTripleForFactory \<Rightarrow> do {
          fs \<leftarrow> store_dispensers (rp_index st) got (other_verticals self from) (rp_factory st);
          let st = st\<lparr>rp_factory := fs, rp_awaiting := rp_awaiting st - 1\<rparr>;
          if rp_awaiting st = 0 then
            Some (st\<lparr>rp_state := RP_awaitingBeaverTripleForMatrixMultiply\<rparr>, ask KBeaver (n_matrix need))
          else Some (st, []) }
      | _ \<Rightarrow> rp_sequel peers got st)"

lemmas rp_handler_defs = RegressionPatron_handleComplete_def rp_sequel_def

definition RegressionBasement_init :: "RegressionInfo \<Rightarrow> Identity \<Rightarrow> PeerSet \<Rightarrow> House \<times> rnd_effect list" where
  "RegressionBasement_init info self peers =
     (let p = endModulus info; all = map (\<lambda>k. Invoke (Deal k, Some peers))
      in (\<lparr>numDealersRemaining = 10 + 2 * length (cross_pairs peers)\<rparr>,
          all [KModConvUp, KDivide] @ pair_deals self peers KZipAdjacent @ pair_deals self peers KBeaver @
          all [KBeaver, KSquareMatrix, KBeaver, KCompare p, KCompare (startModulus info), KTypeCast, KLookup p,
            KLookup p]))"

definition RegressionHouse_init :: "Identity \<Rightarrow> PeerSet \<Rightarrow> House \<times> rnd_effect list" where
  "RegressionHouse_init self peers =
     (\<lparr>numDealersRemaining = 1 + length (cross_pairs peers)\<rparr>,
      [Invoke (Deal KRegressionBasement, map_option removeRecipients (PeerSet_copy peers))] @
      pair_deals self peers KSISOSort)"

end
