(* ===== verification/Supply.thy ===== *)
theory Supply
  imports Randomness ErrorTerms
begin

text \<open>
  The randomness a regression uses against the randomness its patron orders. A regression after the
  zip phase is run in a closed loop with the library: each batch it starts is answered by one
  completion. The items each batch takes from its dispensers are counted by stage.
\<close>

subsection \<open>Dispensers and stages\<close>

datatype dispenser =
    DModConvUp | DMatrix | DFinal | DCompareEnd | DCompare | DCast | DDivide | DLookup | DNone

text \<open>The dispenser a child of a batch is built with. The matrix product takes one triple for every
  scalar product of its sum.\<close>

fun dispenser_of :: "RegEnv \<Rightarrow> prim \<Rightarrow> dispenser" where
  "dispenser_of E (PModConvUp _) = DModConvUp"
| "dispenser_of E (PMatrixMult _ _) = DMatrix"
| "dispenser_of E (PMultiply _ _) = DFinal"
| "dispenser_of E (PCompare _ _ m) = (if m = endMod E then DCompareEnd else DCompare)"
| "dispenser_of E (PTypeCastFromBit _ _ _) = DCast"
| "dispenser_of E (PDivide _ _) = DDivide"
| "dispenser_of E (PLookup _ _ _ _) = DLookup"
| "dispenser_of E _ = DNone"

definition uses :: "RegEnv \<Rightarrow> dispenser \<Rightarrow> prim list \<Rightarrow> nat" where
  "uses E k ps = length (filter (\<lambda>q. dispenser_of E q = k) ps)"

lemma uses_simps [simp]:
  "uses E k [] = 0" "uses E k (q # qs) = (if dispenser_of E q = k then 1 else 0) + uses E k qs"
  "uses E k (ps @ qs) = uses E k ps + uses E k qs"
  by (simp_all add: uses_def)

lemma uses_map [simp]:
  assumes "\<And>x. x \<in> set xs \<Longrightarrow> dispenser_of E (f x) = k'"
  shows "uses E k (map f xs) = (if k' = k then length xs else 0)"
  using assms by (induction xs) simp_all

fun next_stage :: "reg_state \<Rightarrow> reg_state" where
  "next_stage awaitingBatchedModConvUp = awaitingMatrixMultiply"
| "next_stage awaitingMatrixMultiply = awaitingMatrixReveal"
| "next_stage awaitingMatrixReveal = awaitingRegressionMultiply"
| "next_stage awaitingRegressionMultiply = awaitingFirstCompare"
| "next_stage awaitingFirstCompare = awaitingFirstTypeCastFromBit"
| "next_stage awaitingFirstTypeCastFromBit = awaitingNegativeCorrectionMultiply"
| "next_stage awaitingNegativeCorrectionMultiply = awaitingDivision"
| "next_stage awaitingDivision = awaitingNegativeRecorrectionMultiply"
| "next_stage awaitingNegativeRecorrectionMultiply = awaitingFirstMultiplyForErrorTerms"
| "next_stage awaitingFirstMultiplyForErrorTerms = awaitingSecondMultiplyForErrorTerms"
| "next_stage awaitingSecondMultiplyForErrorTerms = awaitingThirdMultiplyForErrorTerms"
| "next_stage awaitingThirdMultiplyForErrorTerms = awaitingFourthMultiplyForErrorTerms"
| "next_stage awaitingFourthMultiplyForErrorTerms = awaitingDivisionForErrorTerms"
| "next_stage awaitingDivisionForErrorTerms = awaitingCompareForFtStatistics"
| "next_stage awaitingCompareForFtStatistics = awaitingBatchedTypeCastFromBit"
| "next_stage awaitingBatchedTypeCastFromBit = awaitingCompareForFtStatisticsEndModulus"
| "next_stage awaitingCompareForFtStatisticsEndModulus = awaitingBatchedTypeCastFromBitLast"
| "next_stage awaitingBatchedTypeCastFromBitLast = awaitingFifthMultiplyForErrorTerms"
| "next_stage awaitingFifthMultiplyForErrorTerms = awaitingBatchedLookup"
| "next_stage s = s"

text \<open>The batch a stage waits for: how many items of which dispenser, with \<open>d\<close> variables and \<open>F\<close> and
  \<open>T\<close> table rows.\<close>

fun stage_uses :: "nat \<Rightarrow> nat \<Rightarrow> nat \<Rightarrow> reg_state \<Rightarrow> dispenser \<times> nat" where
  "stage_uses d F T awaitingBatchedModConvUp = (DModConvUp, d * d + d + 3)"
| "stage_uses d F T awaitingMatrixMultiply = (DMatrix, 1)"
| "stage_uses d F T awaitingMatrixReveal = (DNone, d * d)"
| "stage_uses d F T awaitingRegressionMultiply = (DFinal, d)"
| "stage_uses d F T awaitingFirstCompare = (DCompareEnd, d)"
| "stage_uses d F T awaitingFirstTypeCastFromBit = (DCast, d)"
| "stage_uses d F T awaitingNegativeCorrectionMultiply = (DFinal, d)"
| "stage_uses d F T awaitingDivision = (DDivide, d)"
| "stage_uses d F T awaitingNegativeRecorrectionMultiply = (DFinal, d)"
| "stage_uses d F T awaitingFirstMultiplyForErrorTerms = (DFinal, d * (d + 1) + d + 2)"
| "stage_uses d F T awaitingSecondMultiplyForErrorTerms = (DFinal, d * (d + 1) + 2 * d)"
| "stage_uses d F T awaitingThirdMultiplyForErrorTerms = (DFinal, d + 2)"
| "stage_uses d F T awaitingFourthMultiplyForErrorTerms = (DFinal, d)"
| "stage_uses d F T awaitingDivisionForErrorTerms = (DDivide, d + 2 + 1 + d)"
| "stage_uses d F T awaitingCompareForFtStatistics = (DCompare, (F - 1) + (T - 1))"
| "stage_uses d F T awaitingBatchedTypeCastFromBit = (DCast, (F - 1) + (T - 1))"
| "stage_uses d F T awaitingCompareForFtStatisticsEndModulus = (DCompareEnd, d + 1)"
| "stage_uses d F T awaitingBatchedTypeCastFromBitLast = (DCast, d + 1)"
| "stage_uses d F T awaitingFifthMultiplyForErrorTerms = (DFinal, d + 1)"
| "stage_uses d F T awaitingBatchedLookup = (DLookup, d + 1)"
| "stage_uses d F T s = (DNone, 0)"

definition stages :: "reg_state list" where
  "stages = map (\<lambda>n. (next_stage ^^ n) awaitingBatchedModConvUp) [0..<20]"

lemma stages_eq:
  "stages = [awaitingBatchedModConvUp, awaitingMatrixMultiply, awaitingMatrixReveal, awaitingRegressionMultiply,
     awaitingFirstCompare, awaitingFirstTypeCastFromBit, awaitingNegativeCorrectionMultiply, awaitingDivision,
     awaitingNegativeRecorrectionMultiply, awaitingFirstMultiplyForErrorTerms, awaitingSecondMultiplyForErrorTerms,
     awaitingThirdMultiplyForErrorTerms, awaitingFourthMultiplyForErrorTerms, awaitingDivisionForErrorTerms,
     awaitingCompareForFtStatistics, awaitingBatchedTypeCastFromBit, awaitingCompareForFtStatisticsEndModulus,
     awaitingBatchedTypeCastFromBitLast, awaitingFifthMultiplyForErrorTerms, awaitingBatchedLookup]"
  by code_simp

subsection \<open>One stage\<close>

text \<open>A stage holds the state it is named after and has just started the batch it waits for.\<close>

definition in_stage :: "RegEnv \<Rightarrow> nat \<Rightarrow> nat \<Rightarrow> reg_state \<Rightarrow> Regression \<Rightarrow> prim list \<Rightarrow> bool" where
  "in_stage E F T s st ps \<longleftrightarrow>
     randomnessDone st \<and> reg_state st = s \<and> length (F_row_ids st) = F \<and> length (t_row_ids st) = T \<and>
     (s = awaitingMatrixReveal \<longrightarrow> length (vectorShare st) = numIVs E) \<and>
     length ps = snd (stage_uses (numIVs E) F T s) \<and>
     list_all (\<lambda>q. dispenser_of E q = fst (stage_uses (numIVs E) F T s)) ps"

text \<open>What the proof needs of the library: a batch has one output bit per child, and the row
  operations keep the number of rows.\<close>

definition batch_bits :: "(prim list \<Rightarrow> completed) \<Rightarrow> bool" where
  "batch_bits lib \<longleftrightarrow> (\<forall>ps. length (out_bits (lib ps)) = length ps)"

definition keeps_rows :: "matrix_lib \<Rightarrow> bool" where
  "keeps_rows L \<longleftrightarrow> (\<forall>M p v. length (makeIdentity L M p v) = length v)"

lemma length_tri_pairs: "2 * length (tri_pairs d) = d * (d + 1)"
proof -
  have "length (tri_pairs d) = (\<Sum>i\<leftarrow>[0..<d]. d - i)" by (simp add: tri_pairs_def length_concat o_def)
  moreover have "2 * (\<Sum>i\<leftarrow>[0..<k]. d - i) + k * (k - 1) = 2 * k * d" if "k \<le> d" for k
    using that
  proof (induction k)
    case (Suc k)
    then obtain e where d: "d = Suc k + e" using le_Suc_ex by blast
    have "k * (k - 1) + 2 * k = (k + 1) * k" by (cases k) simp_all
    then show ?case using Suc d by (simp add: algebra_simps)
  qed simp
  from this [of d] have "2 * (\<Sum>i\<leftarrow>[0..<d]. d - i) + d * (d - 1) = 2 * d * d" by simp
  moreover have "d * (d + 1) + d * (d - 1) = 2 * d * d" by (cases d) (simp_all add: algebra_simps)
  ultimately show ?thesis by linarith
qed

named_theorems stage_defs \<open>the definitions a stage unfolds to\<close>

lemmas [stage_defs] = Regression_handleComplete_def join_randomness_def Let_def run_workers_def in_stage_def
  complete_BatchedModConvUp_def complete_MatrixMultiply_def complete_MatrixReveal_def
  complete_RegressionMultiply_def complete_FirstCompare_def complete_FirstTypeCastFromBit_def
  complete_NegativeCorrectionMultiply_def complete_Division_def complete_NegativeRecorrectionMultiply_def
  complete_FirstMultiplyForErrorTerms_def complete_SecondMultiplyForErrorTerms_def
  complete_ThirdMultiplyForErrorTerms_def complete_FourthMultiplyForErrorTerms_def
  complete_DivisionForErrorTerms_def complete_CompareForFtStatistics_def complete_BatchedTypeCastFromBit_def
  complete_CompareForFtStatisticsEndModulus_def complete_BatchedTypeCastFromBitLast_def
  complete_FifthMultiplyForErrorTerms_def type_casts_def wrote_first_def wrote_second_def wrote_quotients_def
  compute_errors_def row_compares_def

lemma stage_step:
  assumes "in_stage E F T s st ps" "s \<in> set (butlast stages)" "batch_bits lib" "keeps_rows L"
    and "startMod E \<noteq> endMod E" "0 < F" "0 < T"
  shows "\<exists>st' ps'. Regression_handleComplete L E (lib ps) st = (st', run_workers E ps') \<and>
    in_stage E F T (next_stage s) st' ps'"
proof -
  have bits: "length (out_bits (lib ps)) = length ps" for ps using assms(3) by (simp add: batch_bits_def)
  have rows: "length (makeIdentity L M p v) = length v" for M p v using assms(4) by (simp add: keeps_rows_def)
  have tri: "length (tri_pairs d) + length (tri_pairs d) = d * (d + 1)" for d using length_tri_pairs [of d] by simp
  have ids: "F_row_ids st \<noteq> []" "t_row_ids st \<noteq> []" using assms(1,6,7) by (auto simp: in_stage_def)
  show ?thesis
    using assms(1,2,5)
    by (cases s) (simp_all add: stages_eq stage_defs bits rows tri ids list_all_iff ball_Un ball_simps length_concat
        o_def sum_list_triv split_beta)
qed

subsection \<open>The loop\<close>

fun regression_loop ::
  "(prim list \<Rightarrow> completed) \<Rightarrow> matrix_lib \<Rightarrow> RegEnv \<Rightarrow> nat \<Rightarrow> Regression \<Rightarrow> reg_effect list
    \<Rightarrow> prim list list \<times> Regression \<times> reg_effect list" where
  "regression_loop lib L E 0 st es = ([], st, es)"
| "regression_loop lib L E (Suc n) st es =
     (let (st', es') = Regression_handleComplete L E (lib (prims_of es)) st;
          (tr, fin) = regression_loop lib L E n st' es'
      in (prims_of es # tr, fin))"

lemma stages_step: "k < 19 \<Longrightarrow> stages ! Suc k = next_stage (stages ! k)"
  by (simp add: stages_def)

lemma stages_but_last: "k < 19 \<Longrightarrow> stages ! k \<in> set (butlast stages)"
proof -
  assume "k < 19"
  then have "k < length (butlast stages)" by (simp add: stages_def)
  then show ?thesis by (metis nth_butlast nth_mem)
qed

definition stage_batches :: "RegEnv \<Rightarrow> nat \<Rightarrow> nat \<Rightarrow> reg_state \<Rightarrow> prim list \<Rightarrow> bool" where
  "stage_batches E F T s ps \<longleftrightarrow> length ps = snd (stage_uses (numIVs E) F T s) \<and>
     list_all (\<lambda>q. dispenser_of E q = fst (stage_uses (numIVs E) F T s)) ps"

lemma in_stage_batches: "in_stage E F T s st ps \<Longrightarrow> stage_batches E F T s ps"
  by (simp add: in_stage_def stage_batches_def)

lemma loop_stages:
  assumes "in_stage E F T (stages ! k) st ps" "k + n \<le> 19" "batch_bits lib" "keeps_rows L" "startMod E \<noteq> endMod E"
    and "0 < F" "0 < T"
  shows "\<exists>tr st' ps'. regression_loop lib L E n st (run_workers E ps) = (tr, st', run_workers E ps') \<and>
    in_stage E F T (stages ! (k + n)) st' ps' \<and>
    list_all2 (stage_batches E F T) (take n (drop k stages)) tr"
  using assms(1,2)
proof (induction n arbitrary: k st ps)
  case (Suc n)
  then obtain st1 ps1 where step: "Regression_handleComplete L E (lib ps) st = (st1, run_workers E ps1)"
    "in_stage E F T (stages ! Suc k) st1 ps1"
    using stage_step [OF Suc.prems(1) stages_but_last assms(3-7)] stages_step [of k] by auto
  then obtain tr st' ps' where rest: "regression_loop lib L E n st1 (run_workers E ps1) = (tr, st', run_workers E ps')"
    "in_stage E F T (stages ! (Suc k + n)) st' ps'" "list_all2 (stage_batches E F T) (take n (drop (Suc k) stages)) tr"
    using Suc.IH [OF step(2)] Suc.prems(2) by auto
  have "k < length stages" using Suc.prems(2) by (simp add: stages_def)
  then have "drop k stages = stages ! k # drop (Suc k) stages" by (simp add: Cons_nth_drop_Suc)
  then show ?case
    using step(1) rest in_stage_batches [OF Suc.prems(1)] by (auto simp: Let_def)
qed auto

lemma uses_batches:
  assumes "list_all2 (stage_batches E F T) ss tr"
  shows "uses E k (concat tr)
    = (\<Sum>s\<leftarrow>ss. if fst (stage_uses (numIVs E) F T s) = k then snd (stage_uses (numIVs E) F T s) else 0)"
  using assms
proof (induction ss tr rule: list_all2_induct)
  case (Cons s ss ps tr)
  have "uses E k ps = (if fst (stage_uses (numIVs E) F T s) = k then snd (stage_uses (numIVs E) F T s) else 0)"
    using Cons.hyps uses_map [of ps E id "fst (stage_uses (numIVs E) F T s)" k]
    by (simp add: stage_batches_def list_all_iff)
  then show ?case using Cons.IH by simp
qed simp

lemma loop_Suc_end:
  assumes "regression_loop lib L E n st es = (tr, st', es')"
  shows "regression_loop lib L E (Suc n) st es =
    (tr @ [prims_of es'], Regression_handleComplete L E (lib (prims_of es')) st')"
  using assms
proof (induction n arbitrary: st es tr)
  case (Suc n)
  obtain st1 es1 where 1: "Regression_handleComplete L E (lib (prims_of es)) st = (st1, es1)"
    using prod.exhaust by blast
  obtain tr1 fin where r: "regression_loop lib L E n st1 es1 = (tr1, fin)" using prod.exhaust by blast
  have tr: "tr = prims_of es # tr1" "fin = (st', es')" using Suc.prems 1 r by simp_all
  have "regression_loop lib L E (Suc n) st1 es1 =
      (tr1 @ [prims_of es'], Regression_handleComplete L E (lib (prims_of es')) st')"
    using Suc.IH r tr(2) by simp
  then show ?case using 1 tr(1) by (subst regression_loop.simps(2)) (simp only: case_prod_conv Let_def append_Cons)
qed (simp add: case_prod_unfold Let_def)

lemma zip_reduce_starts:
  assumes "numPartiesAwaiting st = 1" "randomnessDone st"
    and "length (F_row_ids st) = F" "length (t_row_ids st) = T" "0 < maxListSize (env_globals E)"
  shows "\<exists>st' ps. complete_ZipReduce E f st = (st', run_workers E ps) \<and> in_stage E F T (stages ! 0) st' ps"
  using assms by (simp add: complete_ZipReduce_def Let_def in_stage_def stages_eq payload_size_def run_workers_def
      list_all_iff)

lemma stage_totals:
  fixes batchSize cross :: nat
  assumes "list_all2 (stage_batches E F T) stages tr"
  defines "need \<equiv> regression_needs (env_info E) batchSize F T cross"
  shows "uses E DFinal (concat tr) = n_final need" "uses E DDivide (concat tr) = n_divide need"
    "uses E DCompareEnd (concat tr) = n_compareEnd need" "uses E DModConvUp (concat tr) = n_modConvUp need"
    "uses E DLookup (concat tr) = n_F_lookup need + n_t_lookup need"
    "uses E DCompare (concat tr) \<le> n_compare need" "uses E DCast (concat tr) \<le> n_cast need"
  by (simp_all only: uses_batches [OF assms(1)] stages_eq need_def)
    (simp_all add: regression_needs_def Let_def)

text \<open>
  C8: From the last completed zip protocol on, a regression whose lists and tables of the two distributions
  have rows runs through its stages to the end in exactly twenty completions, and the randomness its patron
  orders covers what the batches take: the triples of the multiplications, the divisions, the comparisons modulo the end modulus, the modulus
  conversions and the lookups are used up exactly, the others are enough.
\<close>

theorem randomness_suffices:
  assumes "numPartiesAwaiting st = 1" "randomnessDone st" "batch_bits lib" "keeps_rows L" "startMod E \<noteq> endMod E"
    and "F_row_ids st \<noteq> []" "t_row_ids st \<noteq> []" "0 < maxListSize (env_globals E)"
  shows "let (st0, es0) = complete_ZipReduce E f st; (tr, st', es) = regression_loop lib L E 20 st0 es0;
             F = length (F_row_ids st); T = length (t_row_ids st);
             need = regression_needs (env_info E) batchSize F T cross;
             used = (\<lambda>k. uses E k (concat tr))
         in last es = Complete \<and> length tr = 20
          \<and> used DFinal = n_final need \<and> used DDivide = n_divide need \<and> used DCompareEnd = n_compareEnd need
          \<and> used DModConvUp = n_modConvUp need \<and> used DLookup = n_F_lookup need + n_t_lookup need
          \<and> used DCompare \<le> n_compare need \<and> used DCast \<le> n_cast need"
proof -
  let ?F = "length (F_row_ids st)" and ?T = "length (t_row_ids st)" and ?d = "numIVs E"
  obtain st0 ps0 where z: "complete_ZipReduce E f st = (st0, run_workers E ps0)" "in_stage E ?F ?T (stages ! 0) st0 ps0"
    using zip_reduce_starts [OF assms(1,2) refl refl assms(8)] by blast
  obtain tr st1 ps1 where r: "regression_loop lib L E 19 st0 (run_workers E ps0) = (tr, st1, run_workers E ps1)"
    "in_stage E ?F ?T (stages ! 19) st1 ps1" "list_all2 (stage_batches E ?F ?T) (take 19 stages) tr"
    using loop_stages [OF z(2), of 19 lib L] assms(3-7) by auto
  have end': "regression_loop lib L E 20 st0 (run_workers E ps0) =
      (tr @ [ps1], Regression_handleComplete L E (lib ps1) st1)"
    using loop_Suc_end [OF r(1)] by simp
  have last: "reg_state st1 = awaitingBatchedLookup" "randomnessDone st1"
    using r(2) by (simp_all add: in_stage_def stages_eq)
  have all: "list_all2 (stage_batches E ?F ?T) stages (tr @ [ps1])"
    using list_all2_appendI [OF r(3), of "[stages ! 19]" "[ps1]"] in_stage_batches [OF r(2)]
    by (simp add: stages_eq)
  obtain st2 es2 where fin: "Regression_handleComplete L E (lib ps1) st1 = (st2, es2)" using prod.exhaust by blast
  then have "last es2 = Complete"
    using last by (auto simp: Regression_handleComplete_def join_randomness_def complete_BatchedLookup_def Let_def)
  moreover have "length (tr @ [ps1]) = 20"
    using list_all2_lengthD [OF all] by (simp add: stages_def)
  moreover note stage_totals [OF all]
  ultimately show ?thesis
    unfolding z(1) case_prod_conv end' fin Let_def by blast
qed

text \<open>A regression with a table without rows gets stuck at its comparisons, which take a size of zero less one for their
  number.\<close>

lemma empty_table_reads_outside:
  assumes "randomnessDone st" "reg_state st = awaitingDivisionForErrorTerms" "F_row_ids st = [] \<or> t_row_ids st = []"
  shows "Regression_handleComplete L E f st = (st, [ReadsOutside])"
  using assms by (auto simp: Regression_handleComplete_def join_randomness_def complete_DivisionForErrorTerms_def row_compares_def
      wrote_quotients_def Let_def split: option.split)

text \<open>A library that answers every batch with zero bits, and a query with one variable.\<close>

definition example_library :: "prim list \<Rightarrow> completed" where
  "example_library ps = (example_outputs [])\<lparr>out_bits := replicate (length ps) 0\<rparr>"

definition example_matrices :: matrix_lib where
  "example_matrices = \<lparr>makeIdentity = \<lambda>M p v. v, matrixDet = \<lambda>M p. 1\<rparr>"

definition example_loop_env :: RegEnv where
  "example_loop_env = (example_error_env 0)\<lparr>env_info := (env_info (example_error_env 0))\<lparr>endModulus := 103\<rparr>\<rparr>"

definition example_reduced :: Regression where
  "example_reduced = (Regression_blank (env_info example_loop_env) (example_rows 0 0)
     \<lparr>mat_values = [], det_of_inverse = 0\<rparr>)
     \<lparr>numPartiesAwaiting := 1, randomnessDone := True, F_row_ids := [1, 2], t_row_ids := [1, 2, 3]\<rparr>"

theorem randomness_suffices_witness:
  "let (st0, es0) = complete_ZipReduce example_loop_env (example_outputs []) example_reduced;
       (tr, st', es) = regression_loop example_library example_matrices example_loop_env 20 st0 es0
   in last es = Complete \<and> uses example_loop_env DFinal (concat tr) = 18 \<and> uses example_loop_env DCast (concat tr) \<le> 8"
proof -
  have lib: "batch_bits example_library" "keeps_rows example_matrices"
    by (simp_all add: batch_bits_def keeps_rows_def example_library_def example_matrices_def)
  have "startMod example_loop_env \<noteq> endMod example_loop_env" "numIVs example_loop_env = 1"
    "numPartiesAwaiting example_reduced = 1" "randomnessDone example_reduced"
    "length (F_row_ids example_reduced) = 2" "length (t_row_ids example_reduced) = 3"
    "F_row_ids example_reduced \<noteq> []" "t_row_ids example_reduced \<noteq> []" "0 < maxListSize (env_globals example_loop_env)"
    by (simp_all add: example_loop_env_def example_reduced_def example_error_env_def)
  then show ?thesis
    using randomness_suffices [of example_reduced example_library example_matrices example_loop_env
        "example_outputs []" 2 1] lib
    by (simp add: Let_def case_prod_unfold regression_needs_def)
qed

end
