(* ===== verification/Patrons.thy ===== *)
theory Patrons
  imports Randomness
begin

text \<open>
  What the patron of a regression achieves in every order in which its sub-patrons complete, and that
  the houses of the dealer serve exactly the calls the patrons make.
\<close>

subsection \<open>Peer sets of a pair\<close>

lemma peerset_empty_ok: "peerset_ok PeerSet_empty"
  by (simp add: peerset_ok_def PeerSet_empty_def sorted_by_def)

lemma forEach_empty: "forEach PeerSet_empty = []"
  by (simp add: forEach_def forEachDealer_def forEachRecipient_def forEachDataowner_def PeerSet_empty_def)

lemma dataowners_filter:
  assumes "peerset_ok P"
  shows "filter (\<lambda>p. role p = ROLE_DATAOWNER) (forEach P) = forEachDataowner P"
    and "p \<in> set (forEachDataowner P) \<Longrightarrow> role p = ROLE_DATAOWNER"
proof -
  have roles: "role p = ROLE_DATAOWNER" if p: "p \<in> set (forEachDataowner P)" for p
  proof -
    obtain ds where "ds \<in> set (dataowners P)" "p \<in> set ds" using p by (auto simp: forEachDataowner_def)
    moreover from this(1) obtain v where "v < length (dataowners P)" "ds = dataowners P ! v"
      by (auto simp: in_set_conv_nth)
    ultimately show ?thesis using assms by (auto simp: peerset_ok_def vertical_ok_def list_all_iff)
  qed
  then show "p \<in> set (forEachDataowner P) \<Longrightarrow> role p = ROLE_DATAOWNER" .
  have "filter (\<lambda>p. role p = ROLE_DATAOWNER) (forEachDealer P) = []"
    "filter (\<lambda>p. role p = ROLE_DATAOWNER) (forEachRecipient P) = []"
    using assms by (auto simp: forEachDealer_def forEachRecipient_def peerset_ok_def list_all_iff filter_empty_conv
        roles_distinct)
  then show "filter (\<lambda>p. role p = ROLE_DATAOWNER) (forEach P) = forEachDataowner P"
    using roles by (simp add: forEach_def filter_id_conv)
qed

text \<open>Two dataowners and a dealer.\<close>

definition pair_ok :: "Identity \<Rightarrow> Identity \<Rightarrow> Identity \<Rightarrow> bool" where
  "pair_ok a b dlr \<longleftrightarrow> role a = ROLE_DATAOWNER \<and> role b = ROLE_DATAOWNER \<and> role dlr = ROLE_DEALER \<and>
     vertical a \<noteq> - 1 \<and> vertical b \<noteq> - 1"

lemma add_dataowner: "role p = ROLE_DATAOWNER \<Longrightarrow> vertical p \<noteq> - 1 \<Longrightarrow> \<exists>P'. PeerSet_add p P = Some P' \<and> hasDealer P' = hasDealer P"
  by (auto simp: PeerSet_add_def Let_def roles_distinct)

lemma add_dealer: "role p = ROLE_DEALER \<Longrightarrow> \<not> hasDealer P \<Longrightarrow> \<exists>P'. PeerSet_add p P = Some P' \<and> hasDealer P'"
  by (auto simp: PeerSet_add_def Let_def roles_distinct)

lemma three_peers_members:
  assumes "three_peers x y z = Some P"
  shows "peerset_ok P" "mset (forEach P) = {#x, y, z#}"
proof -
  obtain P1 P2 where P: "PeerSet_add x PeerSet_empty = Some P1" "PeerSet_add y P1 = Some P2" "PeerSet_add z P2 = Some P"
    using assms by (auto simp: three_peers_def split: Option.bind_splits)
  note ok1 = peerset_ok_add [OF peerset_empty_ok P(1)]
  note ok2 = peerset_ok_add [OF ok1(1) P(2)]
  note ok3 = peerset_ok_add [OF ok2(1) P(3)]
  show "peerset_ok P" by (rule ok3(1))
  show "mset (forEach P) = {#x, y, z#}" using ok1(2) ok2(2) ok3(2) by (simp add: forEach_empty add_mset_commute)
qed

lemma three_peers_Some:
  assumes "pair_ok a b dlr"
  shows "\<exists>P. three_peers a b dlr = Some P" "\<exists>P. three_peers dlr a b = Some P"
proof -
  obtain P1 where 1: "PeerSet_add a PeerSet_empty = Some P1" "hasDealer P1 = hasDealer PeerSet_empty"
    using add_dataowner [of a PeerSet_empty] assms by (auto simp: pair_ok_def)
  obtain P2 where 2: "PeerSet_add b P1 = Some P2" "hasDealer P2 = hasDealer P1"
    using add_dataowner [of b P1] assms by (auto simp: pair_ok_def)
  obtain P3 where 3: "PeerSet_add dlr P2 = Some P3"
    using add_dealer [of dlr P2] assms 1(2) 2(2) by (auto simp: pair_ok_def PeerSet_empty_def)
  show "\<exists>P. three_peers a b dlr = Some P" using 1(1) 2(1) 3 by (simp add: three_peers_def)
  obtain Q1 where q1: "PeerSet_add dlr PeerSet_empty = Some Q1"
    using add_dealer [of dlr PeerSet_empty] assms by (auto simp: pair_ok_def PeerSet_empty_def)
  obtain Q2 where q2: "PeerSet_add a Q1 = Some Q2" using add_dataowner [of a Q1] assms by (auto simp: pair_ok_def)
  obtain Q3 where q3: "PeerSet_add b Q2 = Some Q3" using add_dataowner [of b Q2] assms by (auto simp: pair_ok_def)
  show "\<exists>P. three_peers dlr a b = Some P" using q1 q2 q3 by (simp add: three_peers_def)
qed

lemma other_in_pair:
  assumes "pair_ok self other dlr" "vertical other \<noteq> vertical self" "three_peers self other dlr = Some P"
  shows "other_verticals self P = [other]"
proof -
  note P = three_peers_members [OF assms(3)]
  have "mset (filter (\<lambda>p. role p = ROLE_DATAOWNER) (forEach P)) = {#self, other#}"
    using assms(1) by (simp add: mset_filter P(2) pair_ok_def roles_distinct)
  then have "mset (forEachDataowner P) = {#self, other#}" by (simp only: dataowners_filter(1) [OF P(1)])
  then have "mset (other_verticals self P) = {#other#}"
    using assms(2) by (simp add: other_verticals_def mset_filter)
  then show ?thesis by simp
qed

subsection \<open>The patron's calls by stage\<close>

type_synonym order_call = "rnd_call \<times> PeerSet option"

fun calls_of :: "rnd_effect list \<Rightarrow> order_call list" where
  "calls_of [] = []"
| "calls_of (Invoke c # es) = c # calls_of es"
| "calls_of (_ # es) = calls_of es"

lemma calls_of_Invokes [simp]: "calls_of (map (\<lambda>x. Invoke (f x)) xs) = map f xs"
  by (induction xs) simp_all

definition rp_states :: "rp_state list" where
  "rp_states = [RP_awaitingModConvUp, RP_awaitingDivide, RP_awaitingConditionalEvaluate,
     RP_awaitingBeaverTripleForFactory, RP_awaitingBeaverTripleForMatrixMultiply, RP_awaitingRandomSquareMatrix,
     RP_awaitingBeaverTripleForFinalMultiply, RP_awaitingCompareEndModulus, RP_awaitingCompare,
     RP_awaitingTypeCastFromBit, RP_awaitingF_lookup, RP_awaitingt_lookup]"

fun rp_rank :: "rp_state \<Rightarrow> nat" where
  "rp_rank RP_awaitingModConvUp = 0"
| "rp_rank RP_awaitingDivide = 1"
| "rp_rank RP_awaitingConditionalEvaluate = 2"
| "rp_rank RP_awaitingBeaverTripleForFactory = 3"
| "rp_rank RP_awaitingBeaverTripleForMatrixMultiply = 4"
| "rp_rank RP_awaitingRandomSquareMatrix = 5"
| "rp_rank RP_awaitingBeaverTripleForFinalMultiply = 6"
| "rp_rank RP_awaitingCompareEndModulus = 7"
| "rp_rank RP_awaitingCompare = 8"
| "rp_rank RP_awaitingTypeCastFromBit = 9"
| "rp_rank RP_awaitingF_lookup = 10"
| "rp_rank RP_awaitingt_lookup = 11"

definition cross_call :: "Identity \<Rightarrow> RegressionPatron \<Rightarrow> rnd_kind \<Rightarrow> nat \<Rightarrow> Identity \<Rightarrow> order_call" where
  "cross_call self st k m other = (Supply k m, three_peers self other (rp_dealer st))"

fun stage_calls :: "Identity \<Rightarrow> PeerSet \<Rightarrow> RegressionPatron \<Rightarrow> rp_state \<Rightarrow> order_call list" where
  "stage_calls self peers st RP_awaitingModConvUp = [(Supply KModConvUp (n_modConvUp (rp_needs st) * rp_size st), Some peers)]"
| "stage_calls self peers st RP_awaitingDivide = [(Supply KDivide (n_divide (rp_needs st) * rp_size st), Some peers)]"
| "stage_calls self peers st RP_awaitingConditionalEvaluate =
     map (cross_call self st KZipAdjacent (rp_size st)) (other_verticals self peers)"
| "stage_calls self peers st RP_awaitingBeaverTripleForFactory =
     map (cross_call self st KBeaver (rp_factory_need st * rp_size st)) (other_verticals self peers)"
| "stage_calls self peers st RP_awaitingBeaverTripleForMatrixMultiply =
     [(Supply KBeaver (n_matrix (rp_needs st) * rp_size st), Some peers)]"
| "stage_calls self peers st RP_awaitingRandomSquareMatrix =
     [(Supply KSquareMatrix (n_square (rp_needs st) * rp_size st), Some peers)]"
| "stage_calls self peers st RP_awaitingBeaverTripleForFinalMultiply =
     [(Supply KBeaver (n_final (rp_needs st) * rp_size st), Some peers)]"
| "stage_calls self peers st RP_awaitingCompareEndModulus =
     [(Supply (KCompare (endModulus (rp_info st))) (n_compareEnd (rp_needs st) * rp_size st), Some peers)]"
| "stage_calls self peers st RP_awaitingCompare =
     [(Supply (KCompare (startModulus (rp_info st))) (n_compare (rp_needs st) * rp_size st), Some peers)]"
| "stage_calls self peers st RP_awaitingTypeCastFromBit =
     [(Supply KTypeCast (n_cast (rp_needs st) * rp_size st), Some peers)]"
| "stage_calls self peers st RP_awaitingF_lookup =
     [(Supply (KLookup (endModulus (rp_info st))) (n_F_lookup (rp_needs st) * rp_size st), Some peers)]"
| "stage_calls self peers st RP_awaitingt_lookup =
     [(Supply (KLookup (endModulus (rp_info st))) (n_t_lookup (rp_needs st) * rp_size st), Some peers)]"

text \<open>
  Runs: any pending call may complete next, with as many items as it asked for. \<open>pending\<close> and
  \<open>history\<close> hold the calls not yet answered and all calls made.
\<close>

inductive rp_reach :: "Identity \<Rightarrow> PeerSet \<Rightarrow> RegressionPatron \<Rightarrow>
    RegressionPatron \<Rightarrow> order_call list \<Rightarrow> order_call list \<Rightarrow> bool"
  for self peers st0 where
  rp_start: "RegressionPatron_init self peers st0 = (st, es) \<Longrightarrow> rp_reach self peers st0 st (calls_of es) (calls_of es)"
| rp_answer: "rp_reach self peers st0 st pending history \<Longrightarrow> i < length pending \<Longrightarrow>
    pending ! i = (Supply k m, Some from) \<Longrightarrow>
    RegressionPatron_handleComplete self peers from m st = Some (st', es) \<Longrightarrow>
    rp_reach self peers st0 st' (take i pending @ drop (Suc i) pending @ calls_of es) (history @ calls_of es)"

subsection \<open>Splitting the dispensers into bundles\<close>

lemma little_Suc [simp]: "little a (a * Suc n) = Some (a * n)" "little a (a + a * n) = Some (a * n)"
  by (simp_all add: little_def)

lemma little_all_replicate [simp]:
  "little_all a (replicate c (Some (a + a * n))) = Some (replicate c (Some (a * n)))"
  by (induction c) simp_all

text \<open>Every dispenser holds \<open>n\<close> times what one regression needs.\<close>

definition stocked :: "RegressionPatron \<Rightarrow> nat \<Rightarrow> bool" where
  "stocked st n \<longleftrightarrow> (let need = rp_needs st in
     rp_zipAdjacent st = replicate (rp_cross st) (Some (1 * n)) \<and>
     rp_factory st = replicate (rp_cross st) (Some (rp_factory_need st * n)) \<and>
     rp_modConvUp st = n_modConvUp need * n \<and> rp_divide st = n_divide need * n \<and>
     rp_matrix st = n_matrix need * n \<and> rp_square st = n_square need * n \<and> rp_final st = n_final need * n \<and>
     rp_compareEnd st = n_compareEnd need * n \<and> rp_compare st = n_compare need * n \<and>
     rp_cast st = n_cast need * n \<and> rp_F_lookup st = n_F_lookup need * n \<and> rp_t_lookup st = n_t_lookup need * n)"

lemma rp_generate_stocked:
  "stocked st n \<Longrightarrow> \<exists>st'. rp_generate n st = Some st' \<and> rp_bundles st' = rp_bundles st @ replicate n (rp_needs st)
     \<and> rp_state st' = rp_state st \<and> stocked st' 0 \<and> rp_size st' = rp_size st \<and> rp_needs st' = rp_needs st"
proof (induction n arbitrary: st)
  case (Suc n)
  let ?need = "rp_needs st" and ?c = "rp_cross st"
  let ?st = "st\<lparr>rp_zipAdjacent := replicate ?c (Some (1 * n)), rp_factory := replicate ?c (Some (rp_factory_need st * n)),
    rp_modConvUp := n_modConvUp ?need * n, rp_divide := n_divide ?need * n, rp_matrix := n_matrix ?need * n,
    rp_square := n_square ?need * n, rp_final := n_final ?need * n, rp_compareEnd := n_compareEnd ?need * n,
    rp_compare := n_compare ?need * n, rp_cast := n_cast ?need * n, rp_F_lookup := n_F_lookup ?need * n,
    rp_t_lookup := n_t_lookup ?need * n, rp_bundles := rp_bundles st @ [?need]\<rparr>"
  have need: "rp_needs ?st = ?need" "rp_factory_need ?st = rp_factory_need st"
    by (simp_all add: rp_needs_def rp_factory_need_def)
  have "rp_generate (Suc n) st = rp_generate n ?st"
    using Suc.prems little_all_replicate [of 1 ?c n] by (simp add: stocked_def Let_def)
  moreover have "stocked ?st n" using need by (simp add: stocked_def Let_def)
  from Suc.IH [OF this] need have "\<exists>st'. rp_generate n ?st = Some st' \<and>
      rp_bundles st' = (rp_bundles st @ [?need]) @ replicate n ?need \<and> rp_state st' = rp_state st \<and> stocked st' 0
      \<and> rp_size st' = rp_size st \<and> rp_needs st' = ?need" by simp
  ultimately show ?case by (simp add: replicate_app_Cons_same)
qed simp

subsection \<open>The invariant of the runs\<close>

definition same_order :: "RegressionPatron \<Rightarrow> RegressionPatron \<Rightarrow> bool" where
  "same_order S st \<longleftrightarrow> rp_info st = rp_info S \<and> rp_dealer st = rp_dealer S \<and> rp_batchSize st = rp_batchSize S \<and>
     rp_F_rows st = rp_F_rows S \<and> rp_t_rows st = rp_t_rows S \<and> rp_size st = rp_size S \<and>
     rp_cross st = rp_cross S \<and> rp_index st = rp_index S"

lemma same_orderD:
  assumes "same_order S st"
  shows "rp_needs st = rp_needs S" "rp_factory_need st = rp_factory_need S" "rp_dealer st = rp_dealer S"
    "rp_info st = rp_info S" "rp_size st = rp_size S" "rp_cross st = rp_cross S" "rp_index st = rp_index S"
    "stage_calls self peers st s = stage_calls self peers S s"
proof -
  show *: "rp_needs st = rp_needs S" "rp_factory_need st = rp_factory_need S" "rp_dealer st = rp_dealer S"
    "rp_info st = rp_info S" "rp_size st = rp_size S" "rp_cross st = rp_cross S" "rp_index st = rp_index S"
    using assms by (simp_all add: same_order_def rp_needs_def rp_factory_need_def)
  show "stage_calls self peers st s = stage_calls self peers S s"
    by (cases s) (simp_all add: * cross_call_def fun_eq_iff)
qed

text \<open>The dispensers already delivered when the patron is in a state.\<close>

definition delivered :: "RegressionPatron \<Rightarrow> bool" where
  "delivered st \<longleftrightarrow> (let k = rp_rank (rp_state st); need = rp_needs st; n = rp_size st; c = rp_cross st in
     (0 < k \<longrightarrow> rp_modConvUp st = n_modConvUp need * n) \<and> (1 < k \<longrightarrow> rp_divide st = n_divide need * n) \<and>
     (2 < k \<longrightarrow> rp_zipAdjacent st = replicate c (Some n)) \<and>
     (3 < k \<longrightarrow> rp_factory st = replicate c (Some (rp_factory_need st * n))) \<and>
     (4 < k \<longrightarrow> rp_matrix st = n_matrix need * n) \<and> (5 < k \<longrightarrow> rp_square st = n_square need * n) \<and>
     (6 < k \<longrightarrow> rp_final st = n_final need * n) \<and> (7 < k \<longrightarrow> rp_compareEnd st = n_compareEnd need * n) \<and>
     (8 < k \<longrightarrow> rp_compare st = n_compare need * n) \<and> (9 < k \<longrightarrow> rp_cast st = n_cast need * n) \<and>
     (10 < k \<longrightarrow> rp_F_lookup st = n_F_lookup need * n))"

text \<open>A phase with one call for each other dataowner: \<open>rem\<close> are those not yet answered.\<close>

definition partial_vector :: "Identity list \<Rightarrow> Identity list \<Rightarrow> nat \<Rightarrow> nat option list" where
  "partial_vector others rem m = map (\<lambda>p. if p \<in> set rem then None else Some m) others"

definition cross_phase :: "Identity list \<Rightarrow> (Identity \<Rightarrow> order_call) \<Rightarrow> nat \<Rightarrow> nat option list \<Rightarrow> nat \<Rightarrow> order_call list \<Rightarrow> bool" where
  "cross_phase others call m ds awaiting pending \<longleftrightarrow>
     (\<exists>rem. rem \<noteq> [] \<and> distinct rem \<and> set rem \<subseteq> set others \<and> pending = map call rem \<and> awaiting = length rem \<and>
        ds = partial_vector others rem m)"

definition rp_inv :: "Identity \<Rightarrow> PeerSet \<Rightarrow> RegressionPatron \<Rightarrow> RegressionPatron \<Rightarrow> order_call list \<Rightarrow> order_call list \<Rightarrow> bool" where
  "rp_inv self peers S st pending history \<longleftrightarrow>
     same_order S st \<and> (pending \<noteq> [] \<longrightarrow> delivered st) \<and>
     history = concat (map (stage_calls self peers S) (take (Suc (rp_rank (rp_state st))) rp_states)) \<and>
     (rp_rank (rp_state st) < 2 \<longrightarrow> rp_zipAdjacent st = []) \<and> (rp_rank (rp_state st) < 3 \<longrightarrow> rp_factory st = []) \<and>
     (if rp_state st = RP_awaitingConditionalEvaluate then rp_bundles st = [] \<and>
        cross_phase (other_verticals self peers) (cross_call self S KZipAdjacent (rp_size S)) (rp_size S)
          (rp_zipAdjacent st) (rp_awaiting st) pending
      else if rp_state st = RP_awaitingBeaverTripleForFactory then rp_bundles st = [] \<and>
        cross_phase (other_verticals self peers) (cross_call self S KBeaver (rp_factory_need S * rp_size S))
          (rp_factory_need S * rp_size S) (rp_factory st) (rp_awaiting st) pending
      else pending = stage_calls self peers S (rp_state st) \<and> rp_bundles st = [] \<or>
        pending = [] \<and> rp_state st = RP_awaitingt_lookup \<and> rp_bundles st = replicate (rp_size S) (rp_needs S))"

lemma index_at_enumerate:
  assumes "distinct ps" "k < length ps" "list_all (\<lambda>p. role p = ROLE_DATAOWNER) ps"
  shows "index_at (ps ! k) (map (\<lambda>(i, other). (other, i)) (enumerate n ps)) = Some (n + k)"
  using assms
proof (induction ps arbitrary: n k)
  case (Cons p ps)
  show ?case
  proof (cases k)
    case 0
    then show ?thesis by (simp add: identity.eq_refl)
  next
    case (Suc k')
    then have "p \<noteq> ps ! k'" using Cons.prems by auto
    moreover have "identity_eq p q \<longleftrightarrow> p = q" for q
      using Cons.prems(3) by (cases p, cases q) (auto simp: identity_eq_def)
    ultimately show ?thesis using Suc Cons.IH [of k' "Suc n"] Cons.prems by simp
  qed
qed simp

lemma store_partial:
  assumes "distinct others" "list_all (\<lambda>p. role p = ROLE_DATAOWNER) others" "distinct rem" "set rem \<subseteq> set others"
    and "i < length rem"
  shows "store_dispensers (map (\<lambda>(i, other). (other, i)) (enumerate 0 others)) m [rem ! i] (partial_vector others rem m)
    = Some (partial_vector others (take i rem @ drop (Suc i) rem) m)"
proof -
  have "rem ! i \<in> set others" using assms(4,5) by auto
  then obtain k where k: "k < length others" "others ! k = rem ! i" by (auto simp: in_set_conv_nth)
  have idx: "index_at (rem ! i) (map (\<lambda>(i, other). (other, i)) (enumerate 0 others)) = Some k"
    using index_at_enumerate [OF assms(1) k(1) assms(2), of 0] k(2) by simp
  have "set (take i rem @ drop (Suc i) rem) = set rem - {rem ! i}"
  proof -
    have "rem = take i rem @ rem ! i # drop (Suc i) rem" using assms(5) by (simp add: id_take_nth_drop [symmetric])
    then have "distinct (take i rem @ rem ! i # drop (Suc i) rem)"
      "set rem = set (take i rem @ rem ! i # drop (Suc i) rem)" using assms(3) by simp_all
    then show ?thesis by auto
  qed
  moreover have "others ! j = rem ! i \<longleftrightarrow> j = k" if "j < length others" for j
    using nth_eq_iff_index_eq [OF assms(1) that k(1)] k(2) by simp
  ultimately have "(partial_vector others rem m)[k := Some m] = partial_vector others (take i rem @ drop (Suc i) rem) m"
    using k(1) by (auto simp: partial_vector_def nth_list_update intro!: nth_equalityI)
  then show ?thesis using idx k by (simp add: partial_vector_def)
qed

text \<open>The setting: a dataowner with dataowners of another vertical, and a fresh patron.\<close>

definition patron_setup :: "Identity \<Rightarrow> PeerSet \<Rightarrow> RegressionPatron \<Rightarrow> bool" where
  "patron_setup self peers st0 \<longleftrightarrow>
     peerset_ok peers \<and> distinct (forEachDataowner peers) \<and> role self = ROLE_DATAOWNER \<and> vertical self \<noteq> - 1 \<and>
     role (rp_dealer st0) = ROLE_DEALER \<and> list_all (\<lambda>p. vertical p \<noteq> - 1) (forEachDataowner peers) \<and>
     other_verticals self peers \<noteq> [] \<and>
     rp_index st0 = [] \<and> rp_zipAdjacent st0 = [] \<and> rp_factory st0 = [] \<and> rp_bundles st0 = []"

lemma setup_others:
  assumes "patron_setup self peers st0"
  shows "distinct (other_verticals self peers)" "list_all (\<lambda>p. role p = ROLE_DATAOWNER) (other_verticals self peers)"
    and "p \<in> set (other_verticals self peers) \<Longrightarrow> pair_ok self p (rp_dealer st0) \<and> vertical p \<noteq> vertical self"
  using assms dataowners_filter(2) [of peers]
  by (auto simp: patron_setup_def other_verticals_def pair_ok_def list_all_iff)

lemma setup_call:
  assumes "patron_setup self peers st0" "p \<in> set (other_verticals self peers)" "rp_dealer S = rp_dealer st0"
  shows "\<exists>frm. cross_call self S k m p = (Supply k m, Some frm) \<and> other_verticals self frm = [p]"
proof -
  note p = setup_others(3) [OF assms(1,2)]
  then obtain frm where "three_peers self p (rp_dealer st0) = Some frm"
    using three_peers_Some(1) [of self p "rp_dealer st0"] by blast
  then show ?thesis using p other_in_pair [of self p "rp_dealer st0" frm] assms(3) by (simp add: cross_call_def)
qed

lemma setup_init:
  assumes "patron_setup self peers st0" "RegressionPatron_init self peers st0 = (S, es)"
  shows "rp_cross S = length (other_verticals self peers)"
    "rp_index S = map (\<lambda>(i, other). (other, i)) (enumerate 0 (other_verticals self peers))"
    "rp_dealer S = rp_dealer st0" "rp_size S = rp_size st0"
    "rp_inv self peers S S (calls_of es) (calls_of es)"
proof -
  show S: "rp_cross S = length (other_verticals self peers)"
    "rp_index S = map (\<lambda>(i, other). (other, i)) (enumerate 0 (other_verticals self peers))"
    "rp_dealer S = rp_dealer st0" "rp_size S = rp_size st0"
    using assms by (auto simp: RegressionPatron_init_def Let_def patron_setup_def)
  show "rp_inv self peers S S (calls_of es) (calls_of es)"
    using assms by (auto simp: RegressionPatron_init_def Let_def patron_setup_def rp_inv_def same_order_def
        delivered_def rp_states_def rp_needs_def regression_needs_def)
qed

lemma cross_phaseI:
  "rem \<noteq> [] \<Longrightarrow> distinct rem \<Longrightarrow> set rem \<subseteq> set others \<Longrightarrow>
   cross_phase others call m (partial_vector others rem m) (length rem) (map call rem)"
  by (auto simp: cross_phase_def)

text \<open>A phase with a call for each other party starts with all of them, and an answer removes one.\<close>

lemma cross_phase_start:
  assumes "others \<noteq> []" "distinct others" "ds = replicate (length others) None"
  shows "cross_phase others call m ds (length others) (map call others)"
proof -
  have "ds = partial_vector others others m"
    using assms(3) by (simp add: partial_vector_def list_eq_iff_nth_eq)
  then show ?thesis using assms(1,2) by (auto simp: cross_phase_def)
qed

lemma cross_phase_answer:
  assumes ready: "patron_setup self peers st0" and dlr: "rp_dealer S = rp_dealer st0"
    and phase: "cross_phase (other_verticals self peers) (cross_call self S k m) m ds awaiting pending"
    and i: "i < length pending"
  obtains frm ds' where "pending ! i = (Supply k m, Some frm)"
    and "store_dispensers (map (\<lambda>(i, other). (other, i)) (enumerate 0 (other_verticals self peers))) m
      (other_verticals self frm) ds = Some ds'"
    and "if awaiting - 1 = 0 then take i pending @ drop (Suc i) pending = [] \<and>
        ds' = replicate (length (other_verticals self peers)) (Some m)
      else cross_phase (other_verticals self peers) (cross_call self S k m) m ds' (awaiting - 1)
        (take i pending @ drop (Suc i) pending)"
proof -
  let ?others = "other_verticals self peers"
  note others = setup_others [OF ready]
  obtain rem where rem: "rem \<noteq> []" "distinct rem" "set rem \<subseteq> set ?others" "pending = map (cross_call self S k m) rem"
    "awaiting = length rem" "ds = partial_vector ?others rem m"
    using phase by (auto simp: cross_phase_def)
  have i: "i < length rem" using i rem(4) by simp
  then obtain frm where f: "cross_call self S k m (rem ! i) = (Supply k m, Some frm)"
    "other_verticals self frm = [rem ! i]"
    using setup_call [OF ready _ dlr, of "rem ! i"] rem(3) nth_mem by blast
  let ?rem = "take i rem @ drop (Suc i) rem"
  have len: "length ?rem = awaiting - 1" using i rem(5) by simp
  have split: "rem = take i rem @ rem ! i # drop (Suc i) rem" using i by (simp add: id_take_nth_drop [symmetric])
  then have "distinct (take i rem @ rem ! i # drop (Suc i) rem)" "set (take i rem @ rem ! i # drop (Suc i) rem) \<subseteq> set ?others"
    using rem(2,3) by simp_all
  then have rem': "distinct ?rem" "set ?rem \<subseteq> set ?others" by simp_all
  have store: "store_dispensers (map (\<lambda>(i, other). (other, i)) (enumerate 0 ?others)) m (other_verticals self frm) ds
      = Some (partial_vector ?others ?rem m)"
    unfolding f(2) rem(6) by (rule store_partial [OF others(1,2) rem(2,3) i])
  have pend: "take i pending @ drop (Suc i) pending = map (cross_call self S k m) ?rem"
    by (simp add: rem(4) take_map drop_map)
  show thesis
  proof (rule that [OF _ store])
    show "pending ! i = (Supply k m, Some frm)" using f(1) i rem(4) by simp
    show "if awaiting - 1 = 0 then take i pending @ drop (Suc i) pending = [] \<and>
        partial_vector ?others ?rem m = replicate (length ?others) (Some m)
      else cross_phase ?others (cross_call self S k m) m (partial_vector ?others ?rem m) (awaiting - 1)
        (take i pending @ drop (Suc i) pending)"
    proof (cases "awaiting - 1 = 0")
      case True
      then have "length ?rem = 0" using len by metis
      then have none: "?rem = []" by (simp only: length_0_conv)
      show ?thesis unfolding pend none using True by (simp add: partial_vector_def map_replicate_const)
    next
      case False
      then have "length ?rem \<noteq> 0" using len by metis
      then have "?rem \<noteq> []" by (simp only: length_0_conv) simp
      then have "cross_phase ?others (cross_call self S k m) m (partial_vector ?others ?rem m) (length ?rem)
          (map (cross_call self S k m) ?rem)"
        using rem' by (rule cross_phaseI)
      then show ?thesis unfolding pend using False by (simp only: len if_False)
    qed
  qed
qed

text \<open>An answer to any pending call is handled, and the invariant is kept.\<close>

definition answered :: "Identity \<Rightarrow> PeerSet \<Rightarrow> RegressionPatron \<Rightarrow> RegressionPatron \<Rightarrow> order_call list \<Rightarrow>
    order_call list \<Rightarrow> nat \<Rightarrow> bool" where
  "answered self peers S st pending history i \<longleftrightarrow>
     (\<exists>k m frm st' es. pending ! i = (Supply k m, Some frm) \<and>
        RegressionPatron_handleComplete self peers frm m st = Some (st', es) \<and>
        rp_inv self peers S st' (take i pending @ drop (Suc i) pending @ calls_of es) (history @ calls_of es))"

lemma answered_single:
  assumes inv: "rp_inv self peers S st pending history" and i: "i < length pending"
    and state: "rp_state st \<in> {RP_awaitingModConvUp, RP_awaitingDivide, RP_awaitingBeaverTripleForMatrixMultiply,
      RP_awaitingRandomSquareMatrix, RP_awaitingBeaverTripleForFinalMultiply, RP_awaitingCompareEndModulus,
      RP_awaitingCompare, RP_awaitingTypeCastFromBit, RP_awaitingF_lookup}"
    and others: "rp_cross S = length (other_verticals self peers)" "other_verticals self peers \<noteq> []"
      "distinct (other_verticals self peers)"
  shows "answered self peers S st pending history i"
proof -
  have same: "same_order S st" and got: "delivered st" using inv i by (auto simp: rp_inv_def)
  note eqs = same_orderD [OF same]
  have pending: "pending = stage_calls self peers S (rp_state st)" using inv state by (auto simp: rp_inv_def)
  note start = cross_phase_start [OF others(2,3) refl, of "cross_call self S KZipAdjacent (rp_size S)" "rp_size S"]
  show ?thesis
    using inv i state start others(1) unfolding answered_def pending rp_inv_def
    by (elim insertE) (simp_all add: eqs delivered_def same_order_def rp_handler_defs Let_def
        rp_states_def rp_cross_calls_def cross_call_def [abs_def] rp_needs_def rp_factory_need_def o_def)
qed

lemma answered_cross:
  assumes ready: "patron_setup self peers st0" "RegressionPatron_init self peers st0 = (S, es0)"
    and inv: "rp_inv self peers S st pending history" and i: "i < length pending"
    and state: "rp_state st = RP_awaitingConditionalEvaluate \<or> rp_state st = RP_awaitingBeaverTripleForFactory"
  shows "answered self peers S st pending history i"
proof -
  let ?others = "other_verticals self peers"
  note S = setup_init [OF ready]
  have same: "same_order S st" and got: "delivered st" using inv i by (auto simp: rp_inv_def)
  note eqs = same_orderD [OF same]
  have others: "?others \<noteq> []" using ready(1) by (simp add: patron_setup_def)
  note start = cross_phase_start [OF others setup_others(1) [OF ready(1)] refl,
      of "cross_call self S KBeaver (rp_factory_need S * rp_size S)" "rp_factory_need S * rp_size S"]
  show ?thesis
  proof (cases "rp_state st = RP_awaitingConditionalEvaluate")
    case True
    then have "cross_phase ?others (cross_call self S KZipAdjacent (rp_size S)) (rp_size S) (rp_zipAdjacent st)
        (rp_awaiting st) pending" using inv by (simp add: rp_inv_def)
    then obtain frm ds' where answer: "pending ! i = (Supply KZipAdjacent (rp_size S), Some frm)"
        "store_dispensers (rp_index S) (rp_size S) (other_verticals self frm) (rp_zipAdjacent st) = Some ds'"
      and next': "if rp_awaiting st - 1 = 0 then take i pending @ drop (Suc i) pending = [] \<and>
          ds' = replicate (length ?others) (Some (rp_size S))
        else cross_phase ?others (cross_call self S KZipAdjacent (rp_size S)) (rp_size S) ds' (rp_awaiting st - 1)
          (take i pending @ drop (Suc i) pending)"
      unfolding S(2) by (rule cross_phase_answer [OF ready(1) S(3) _ i])
    show ?thesis
    proof (cases "rp_awaiting st - 1 = 0")
      case last: True
      then have rest: "take i pending = []" "drop (Suc i) pending = []" and "ds' = replicate (length ?others) (Some (rp_size S))"
        using next' by (simp_all only: if_True append_is_Nil_conv)
      then show ?thesis using inv True last answer start S(1) same got unfolding answered_def rp_inv_def rest
        by (simp add: eqs delivered_def same_order_def rp_handler_defs Let_def
            rp_states_def rp_cross_calls_def cross_call_def [abs_def] rp_needs_def rp_factory_need_def o_def)
    next
      case more: False
      then show ?thesis using inv True next' answer same got unfolding answered_def rp_inv_def
        by (simp add: eqs delivered_def same_order_def rp_handler_defs Let_def
            rp_needs_def rp_factory_need_def)
    qed
  next
    case False
    then have at: "rp_state st = RP_awaitingBeaverTripleForFactory" using state by simp
    then have "cross_phase ?others (cross_call self S KBeaver (rp_factory_need S * rp_size S))
        (rp_factory_need S * rp_size S) (rp_factory st) (rp_awaiting st) pending" using inv by (simp add: rp_inv_def)
    then obtain frm ds' where answer: "pending ! i = (Supply KBeaver (rp_factory_need S * rp_size S), Some frm)"
        "store_dispensers (rp_index S) (rp_factory_need S * rp_size S) (other_verticals self frm) (rp_factory st) = Some ds'"
      and next': "if rp_awaiting st - 1 = 0 then take i pending @ drop (Suc i) pending = [] \<and>
          ds' = replicate (length ?others) (Some (rp_factory_need S * rp_size S))
        else cross_phase ?others (cross_call self S KBeaver (rp_factory_need S * rp_size S))
          (rp_factory_need S * rp_size S) ds' (rp_awaiting st - 1) (take i pending @ drop (Suc i) pending)"
      unfolding S(2) by (rule cross_phase_answer [OF ready(1) S(3) _ i])
    show ?thesis
    proof (cases "rp_awaiting st - 1 = 0")
      case last: True
      then have rest: "take i pending = []" "drop (Suc i) pending = []"
        and "ds' = replicate (length ?others) (Some (rp_factory_need S * rp_size S))" using next' by (simp_all only: if_True append_is_Nil_conv)
      then show ?thesis using inv at last answer S(1) same got unfolding answered_def rp_inv_def rest
        by (simp add: eqs delivered_def same_order_def rp_handler_defs Let_def
            rp_states_def rp_needs_def rp_factory_need_def)
    next
      case more: False
      then show ?thesis using inv at next' answer same got unfolding answered_def rp_inv_def
        by (simp add: eqs delivered_def same_order_def rp_handler_defs Let_def
            rp_needs_def rp_factory_need_def)
    qed
  qed
qed

lemma rp_generate_same: "rp_generate n st = Some st' \<Longrightarrow> same_order st st'"
proof (induction n arbitrary: st)
  case (Suc n)
  then obtain st1 where "rp_generate n st1 = Some st'" "same_order st st1"
    by (auto simp: Let_def same_order_def split: Option.bind_splits)
  then show ?case using Suc.IH [of st1] by (simp add: same_order_def)
qed (simp add: same_order_def)

lemma answered_last:
  assumes inv: "rp_inv self peers S st pending history" and i: "i < length pending"
    and state: "rp_state st = RP_awaitingt_lookup"
  shows "answered self peers S st pending history i"
proof -
  have same: "same_order S st" and got: "delivered st" using inv i by (auto simp: rp_inv_def)
  note eqs = same_orderD [OF same]
  have pending: "pending = stage_calls self peers S RP_awaitingt_lookup" "rp_bundles st = []" "i = 0"
    using inv state i by (auto simp: rp_inv_def split: if_splits)
  let ?st = "st\<lparr>rp_t_lookup := n_t_lookup (rp_needs S) * rp_size S\<rparr>"
  have need: "rp_needs ?st = rp_needs S" "rp_factory_need ?st = rp_factory_need S" "rp_size ?st = rp_size S"
    using eqs by (simp_all add: rp_needs_def rp_factory_need_def)
  have "stocked ?st (rp_size S)"
    using got state need by (simp add: stocked_def delivered_def Let_def eqs)
  from rp_generate_stocked [OF this] obtain st' where st': "rp_generate (rp_size S) ?st = Some st'"
    "rp_bundles st' = replicate (rp_size S) (rp_needs S)" "rp_state st' = RP_awaitingt_lookup"
    using need pending(2) state by auto
  have "same_order S st'" using rp_generate_same [OF st'(1)] same by (simp add: same_order_def)
  moreover have "history = concat (map (stage_calls self peers S) rp_states)"
    using inv state by (simp add: rp_inv_def rp_states_def)
  ultimately have "rp_inv self peers S st' [] history"
    using st'(2,3) by (simp add: rp_inv_def rp_states_def)
  then show ?thesis using st'(1) state unfolding answered_def
    by (simp add: eqs pending(1,3) rp_handler_defs Let_def)
qed

lemma rp_reach_inv:
  assumes "rp_reach self peers st0 st pending history" and ready: "patron_setup self peers st0"
    "RegressionPatron_init self peers st0 = (S, es0)"
  shows "rp_inv self peers S st pending history"
    and "i < length pending \<Longrightarrow> answered self peers S st pending history i"
proof -
  have step: "answered self peers S st pending history i"
    if inv: "rp_inv self peers S st pending history" and i: "i < length pending" for st pending history i
  proof (cases "rp_state st = RP_awaitingConditionalEvaluate \<or> rp_state st = RP_awaitingBeaverTripleForFactory")
    case True
    then show ?thesis by (rule answered_cross [OF ready inv i])
  next
    case False
    show ?thesis
    proof (cases "rp_state st = RP_awaitingt_lookup")
      case True
      then show ?thesis by (rule answered_last [OF inv i])
    next
      case more: False
      then show ?thesis
        using False answered_single [OF inv i _ setup_init(1) [OF ready] _ setup_others(1) [OF ready(1)]] ready(1)
        by (cases "rp_state st") (simp_all add: patron_setup_def)
    qed
  qed
  show inv: "rp_inv self peers S st pending history"
    using assms(1)
  proof (induction rule: rp_reach.induct)
    case (rp_start st es)
    then show ?case using setup_init(5) [OF ready] ready(2) by simp
  next
    case (rp_answer st pending history i k m frm st' es)
    then show ?case using step [OF rp_answer.IH rp_answer.hyps(2)] by (auto simp: answered_def)
  qed
  show "i < length pending \<Longrightarrow> answered self peers S st pending history i" by (rule step [OF inv])
qed

text \<open>The calls of a whole run and its bundles.\<close>

definition order_script :: "Identity \<Rightarrow> PeerSet \<Rightarrow> RegressionPatron \<Rightarrow> order_call list" where
  "order_script self peers st0 =
     concat (map (stage_calls self peers (fst (RegressionPatron_init self peers st0))) rp_states)"

definition accepts :: "Identity \<Rightarrow> PeerSet \<Rightarrow> RegressionPatron \<Rightarrow> order_call \<Rightarrow> bool" where
  "accepts self peers st call \<longleftrightarrow>
     (case call of (Supply k m, Some frm) \<Rightarrow> RegressionPatron_handleComplete self peers frm m st \<noteq> None | _ \<Rightarrow> False)"

lemma rp_states_append: "rp_states = take n rp_states @ drop n rp_states"
  by simp

text \<open>
  C6: In whatever order the sub-patrons of a regression patron complete, every pending answer is
  accepted (no dispenser is stored at a wrong or missing position), the calls made so far are a prefix
  of one fixed script, and when nothing is pending the whole script has been called and the output
  dispenser holds one full bundle of randomness for each of the regressions ordered.
\<close>

theorem regression_patron_delivers:
  assumes "patron_setup self peers st0" "rp_reach self peers st0 st pending history"
  shows "list_all (accepts self peers st) pending \<and>
    take (length history) (order_script self peers st0) = history \<and>
    (pending = [] \<longrightarrow> history = order_script self peers st0 \<and>
      rp_bundles st = replicate (rp_size st0) (rp_needs (fst (RegressionPatron_init self peers st0))))"
proof -
  obtain S es0 where init: "RegressionPatron_init self peers st0 = (S, es0)" by fastforce
  note inv = rp_reach_inv [OF assms(2,1) init]
  let ?n = "Suc (rp_rank (rp_state st))"
  have "accepts self peers st (pending ! i)" if "i < length pending" for i
    using inv(2) [OF that] by (auto simp: answered_def accepts_def)
  then have "list_all (accepts self peers st) pending" by (simp add: list_all_length)
  moreover have hist: "history = concat (map (stage_calls self peers S) (take ?n rp_states))"
    using inv(1) by (simp add: rp_inv_def)
  then have "order_script self peers st0 = history @ concat (map (stage_calls self peers S) (drop ?n rp_states))"
    using rp_states_append [of ?n] by (metis concat_append fst_conv init map_append order_script_def)
  moreover have "history = order_script self peers st0 \<and> rp_bundles st = replicate (rp_size st0) (rp_needs S)"
    if "pending = []"
  proof -
    have "rp_state st = RP_awaitingt_lookup \<and> rp_bundles st = replicate (rp_size S) (rp_needs S)"
      using inv(1) that by (cases "rp_state st") (auto simp: rp_inv_def cross_phase_def split: if_splits)
    then show ?thesis using hist setup_init(4) [OF assms(1) init] by (simp add: order_script_def init rp_states_def)
  qed
  ultimately show ?thesis by (simp add: init)
qed

text \<open>A run that always answers the youngest call.\<close>

fun youngest_first :: "Identity \<Rightarrow> PeerSet \<Rightarrow> nat \<Rightarrow> RegressionPatron \<times> order_call list \<times> order_call list \<Rightarrow>
    (RegressionPatron \<times> order_call list \<times> order_call list) option" where
  "youngest_first self peers 0 c = Some c"
| "youngest_first self peers (Suc n) (st, pending, history) =
     (if pending = [] then None
      else (case last pending of
          (Supply k m, Some frm) \<Rightarrow>
            (case RegressionPatron_handleComplete self peers frm m st of
               Some (st', es) \<Rightarrow> youngest_first self peers n (st', butlast pending @ calls_of es, history @ calls_of es)
             | None \<Rightarrow> None)
        | _ \<Rightarrow> None))"

lemma youngest_first_reach:
  "youngest_first self peers n (st, pending, history) = Some (st', pending', history') \<Longrightarrow>
   rp_reach self peers st0 st pending history \<Longrightarrow> rp_reach self peers st0 st' pending' history'"
proof (induction n arbitrary: st pending history)
  case (Suc n)
  from Suc.prems(1) obtain k m frm st1 es where step: "pending \<noteq> []" "last pending = (Supply k m, Some frm)"
    "RegressionPatron_handleComplete self peers frm m st = Some (st1, es)"
    "youngest_first self peers n (st1, butlast pending @ calls_of es, history @ calls_of es) = Some (st', pending', history')"
    by (auto split: if_splits prod.splits rnd_call.splits option.splits)
  have "rp_reach self peers st0 st1 (take (length pending - 1) pending @ drop (Suc (length pending - 1)) pending @ calls_of es)
      (history @ calls_of es)"
    using rp_answer [OF Suc.prems(2) _ _ step(3), of "length pending - 1" k] step(1,2) by (simp add: last_conv_nth)
  then have "rp_reach self peers st0 st1 (butlast pending @ calls_of es) (history @ calls_of es)"
    using step(1) by (simp add: butlast_conv_take)
  with step(4) show ?case by (rule Suc.IH)
qed simp

definition example_dealer :: Identity where
  "example_dealer = \<lparr>orgId = DBUID_INVALID, role = ROLE_DEALER, vertical = - 1\<rparr>"

definition example_peers :: PeerSet where
  "example_peers = \<lparr>hasDealer = True, dealer = example_dealer, recipients = [],
     dataowners = [[example_party 0], [example_party 1], [example_party 2]]\<rparr>"

definition example_patron :: RegressionPatron where
  "example_patron = RegressionPatron_new example_info example_dealer 3 2 2 2"

lemma example_patron_setup: "patron_setup (example_party 0) example_peers example_patron"
proof -
  have "vertical_ok v (dataowners example_peers ! v)" if "v < 3" for v
  proof -
    have "v = 0 \<or> v = 1 \<or> v = 2" using that by arith
    then show ?thesis
      by (auto simp: example_peers_def vertical_ok_def sorted_by_def example_party_def)
  qed
  then show ?thesis
    by (simp add: patron_setup_def peerset_ok_def example_peers_def example_dealer_def example_patron_def
        RegressionPatron_new_def other_verticals_def forEachDataowner_def example_party_def sorted_by_def)
qed

definition example_run :: "nat \<Rightarrow> (RegressionPatron \<times> order_call list \<times> order_call list) option" where
  "example_run n = (case RegressionPatron_init (example_party 0) example_peers example_patron of
     (st, es) \<Rightarrow> youngest_first (example_party 0) example_peers n (st, calls_of es, calls_of es))"

lemma example_run_ends:
  "(case example_run 14 of Some (st, pending, history) \<Rightarrow> pending = [] \<and> length history = 14 | None \<Rightarrow> False)"
  by code_simp

lemma example_run_reach:
  "example_run n = Some (st, pending, history) \<Longrightarrow>
   rp_reach (example_party 0) example_peers example_patron st pending history"
  by (auto simp: example_run_def split: prod.splits intro: youngest_first_reach rp_start)

theorem regression_patron_delivers_witness:
  "\<exists>st history. example_run 14 = Some (st, [], history) \<and>
     rp_reach (example_party 0) example_peers example_patron st [] history \<and>
     history = order_script (example_party 0) example_peers example_patron \<and>
     rp_bundles st = replicate 2 (rp_needs (fst (RegressionPatron_init (example_party 0) example_peers example_patron)))"
proof -
  obtain st history where run: "example_run 14 = Some (st, [], history)"
    using example_run_ends by (auto split: option.splits prod.splits)
  show ?thesis
    using run regression_patron_delivers [OF example_patron_setup example_run_reach [OF run]] example_run_reach [OF run]
    by (simp add: example_patron_def RegressionPatron_new_def)
qed

subsection \<open>Houses and patrons\<close>

fun kind_of :: "rnd_call \<Rightarrow> rnd_kind" where
  "kind_of (Supply k m) = k"
| "kind_of (Deal k) = k"

text \<open>What a house and a patron must agree on: the kind of the items, and the parties.\<close>

definition served :: "order_call \<Rightarrow> rnd_kind \<times> Identity multiset option" where
  "served c = (kind_of (fst c), map_option (\<lambda>P. mset (forEach P)) (snd c))"

definition involves :: "Identity \<Rightarrow> order_call \<Rightarrow> bool" where
  "involves p c \<longleftrightarrow> (case snd c of Some P \<Rightarrow> p \<in> set (forEach P) | None \<Rightarrow> False)"

text \<open>The setting of a dealer: its peers are the dataowners, each of a vertical.\<close>

definition dealer_setup :: "Identity \<Rightarrow> PeerSet \<Rightarrow> bool" where
  "dealer_setup dlr peers \<longleftrightarrow> peerset_ok peers \<and> distinct (forEachDataowner peers) \<and> role dlr = ROLE_DEALER \<and>
     list_all (\<lambda>p. vertical p \<noteq> - 1) (forEachDataowner peers)"

lemma dealer_pair:
  assumes "dealer_setup dlr peers" "a \<in> set (forEachDataowner peers)" "b \<in> set (forEachDataowner peers)"
  shows "pair_ok a b dlr"
  using assms dataowners_filter(2) [of peers] by (auto simp: dealer_setup_def pair_ok_def list_all_iff)

lemma three_served:
  assumes "pair_ok a b dlr"
  shows "served (c, three_peers a b dlr) = (kind_of c, Some {#dlr, a, b#})"
    and "served (c, three_peers dlr a b) = (kind_of c, Some {#dlr, a, b#})"
    and "involves p (c, three_peers dlr a b) \<longleftrightarrow> p = dlr \<or> p = a \<or> p = b"
proof -
  obtain P Q where PQ: "three_peers a b dlr = Some P" "three_peers dlr a b = Some Q"
    using three_peers_Some [OF assms] by blast
  note m = three_peers_members(2) [OF PQ(1)] three_peers_members(2) [OF PQ(2)]
  show "served (c, three_peers a b dlr) = (kind_of c, Some {#dlr, a, b#})"
    "served (c, three_peers dlr a b) = (kind_of c, Some {#dlr, a, b#})"
    using PQ m by (simp_all add: served_def add_mset_commute)
  have "set (forEach Q) = {dlr, a, b}" using m(2) by (metis set_mset_mset set_mset_add_mset_insert set_mset_empty)
  then show "involves p (c, three_peers dlr a b) \<longleftrightarrow> p = dlr \<or> p = a \<or> p = b" using PQ by (simp add: involves_def)
qed

lemma set_cross_pairs:
  "set (cross_pairs peers) = {(a, b). a \<in> set (forEachDataowner peers) \<and> b \<in> set (forEachDataowner peers) \<and>
     vertical a < vertical b}"
  by (auto simp: cross_pairs_def)

lemma distinct_cross_pairs: "distinct (forEachDataowner peers) \<Longrightarrow> distinct (cross_pairs peers)"
proof -
  have "distinct ys \<Longrightarrow> distinct xs \<Longrightarrow>
      distinct (concat (map (\<lambda>a. map (\<lambda>b. (a, b)) (filter (\<lambda>b. vertical a < vertical b) ys)) xs))" for xs ys :: "Identity list"
    by (induction xs) (auto simp: distinct_map inj_on_def)
  then show "distinct (forEachDataowner peers) \<Longrightarrow> distinct (cross_pairs peers)" by (simp add: cross_pairs_def)
qed

lemma pair_mset_eq: "{#x, a, b#} = {#x, c, d#} \<Longrightarrow> (a = c \<and> b = d) \<or> (a = d \<and> b = c)"
  by (auto simp: add_mset_eq_singleton_iff add_eq_conv_ex)

lemma mset_map_distinct: "distinct xs \<Longrightarrow> inj_on f (set xs) \<Longrightarrow> mset (map f xs) = mset_set (f ` set xs)"
  by (metis distinct_map list.set_map mset_set_set)

text \<open>The pairs of a dataowner are the dataowners of the other verticals.\<close>

lemma pairs_of_dataowner:
  assumes ready: "dealer_setup dlr peers" and p: "p \<in> set (forEachDataowner peers)"
  shows "mset (map (\<lambda>(a, b). {#dlr, a, b#}) (filter (\<lambda>(a, b). p = a \<or> p = b) (cross_pairs peers))) =
    mset (map (\<lambda>other. {#dlr, p, other#}) (other_verticals p peers))"
proof -
  let ?pairs = "filter (\<lambda>(a, b). p = a \<or> p = b) (cross_pairs peers)"
  let ?f = "\<lambda>(a, b). {#dlr, a, b#}" and ?g = "\<lambda>other. {#dlr, p, other#}"
  have d: "distinct ?pairs" "distinct (other_verticals p peers)"
    using ready distinct_cross_pairs by (auto simp: dealer_setup_def other_verticals_def)
  have "inj_on ?f (set ?pairs)"
    by (auto simp: inj_on_def set_cross_pairs dest!: pair_mset_eq)
  then have "mset (map ?f ?pairs) = mset_set (?f ` set ?pairs)"
    by (rule mset_map_distinct [OF d(1)])
  moreover have "inj_on ?g (set (other_verticals p peers))" by (auto simp: inj_on_def)
  then have "mset (map ?g (other_verticals p peers)) = mset_set (?g ` set (other_verticals p peers))"
    by (rule mset_map_distinct [OF d(2)])
  moreover have "?f ` set ?pairs = ?g ` set (other_verticals p peers)"
  proof
    show "?f ` set ?pairs \<subseteq> ?g ` set (other_verticals p peers)"
    proof -
      have "?f (a, b) \<in> ?g ` set (other_verticals p peers)" if "(a, b) \<in> set ?pairs" for a b
      proof (cases "p = a")
        case True
        then show ?thesis using that by (intro rev_image_eqI [of b]) (auto simp: set_cross_pairs other_verticals_def)
      next
        case False
        then show ?thesis using that
          by (intro rev_image_eqI [of a]) (auto simp: set_cross_pairs other_verticals_def add_mset_commute)
      qed
      then show ?thesis by (intro image_subsetI) (metis (mono_tags, lifting) surj_pair)
    qed
    have "?g q \<in> ?f ` set ?pairs" if q: "q \<in> set (other_verticals p peers)" for q
    proof (cases "vertical p < vertical q")
      case True
      then have "(p, q) \<in> set ?pairs" using p q by (auto simp: set_cross_pairs other_verticals_def)
      then show ?thesis by (rule rev_image_eqI) simp
    next
      case False
      then have "(q, p) \<in> set ?pairs" using p q by (auto simp: set_cross_pairs other_verticals_def)
      then show ?thesis by (rule rev_image_eqI) (simp add: add_mset_commute)
    qed
    then show "?g ` set (other_verticals p peers) \<subseteq> ?f ` set ?pairs" by blast
  qed
  ultimately show ?thesis by simp
qed

lemma pair_deals_serve:
  assumes ready: "dealer_setup dlr peers" and p: "p \<in> set (forEachDataowner peers)"
  shows "mset (map served (filter (involves p) (calls_of (pair_deals dlr peers k)))) =
    mset (map served (map (\<lambda>other. (Supply k m, three_peers p other dlr)) (other_verticals p peers)))"
proof -
  have role: "p \<noteq> dlr" using dealer_pair [OF ready p p] by (auto simp: pair_ok_def roles_distinct)
  have pair: "pair_ok a b dlr" if "(a, b) \<in> set (cross_pairs peers)" for a b
    using that dealer_pair [OF ready] by (auto simp: set_cross_pairs)
  have calls: "calls_of (pair_deals dlr peers k) = map (\<lambda>(a, b). (Deal k, three_peers dlr a b)) (cross_pairs peers)"
    by (simp add: pair_deals_def case_prod_unfold)
  have "filter (involves p) (calls_of (pair_deals dlr peers k)) =
      map (\<lambda>(a, b). (Deal k, three_peers dlr a b)) (filter (\<lambda>(a, b). p = a \<or> p = b) (cross_pairs peers))"
    unfolding calls filter_map using role pair
    by (intro arg_cong [of _ _ "map _"] filter_cong) (auto simp: three_served(3))
  then have "map served (filter (involves p) (calls_of (pair_deals dlr peers k))) =
      map (\<lambda>M. (k, Some M)) (map (\<lambda>(a, b). {#dlr, a, b#}) (filter (\<lambda>(a, b). p = a \<or> p = b) (cross_pairs peers)))"
    using pair by (auto simp: three_served(2))
  moreover have "map served (map (\<lambda>other. (Supply k m, three_peers p other dlr)) (other_verticals p peers)) =
      map (\<lambda>M. (k, Some M)) (map (\<lambda>other. {#dlr, p, other#}) (other_verticals p peers))"
    using dealer_pair [OF ready p] by (auto simp: three_served(1) other_verticals_def)
  ultimately show ?thesis using pairs_of_dataowner [OF ready p] by (simp only: mset_map)
qed

lemma calls_of_append [simp]: "calls_of (xs @ ys) = calls_of xs @ calls_of ys"
  by (induction xs rule: calls_of.induct) simp_all

lemma served_whole: "served (Supply k m, ps) = served (Deal k, ps)"
  by (simp add: served_def)

lemma house_counts: "length (calls_of (pair_deals self peers k)) = length (cross_pairs peers)"
  by (simp add: pair_deals_def case_prod_unfold)

text \<open>
  C7: For every dataowner of a regression, the calls of the dealer's basement in which that dataowner
  takes part are, as a multiset of kinds and parties, exactly the calls that dataowner's patron makes:
  no patron waits for randomness nobody deals, and no dealt randomness is left without its patron. The
  basement counts exactly its own calls, so it completes when the last of them does.
\<close>

theorem basement_serves_patrons:
  assumes "dealer_setup dlr peers" "p \<in> set (forEachDataowner peers)"
  shows "mset (map served (filter (involves p) (calls_of (snd (RegressionBasement_init info dlr peers))))) =
      mset (map served (order_script p peers (RegressionPatron_new info dlr batchSize F_rows t_rows n))) \<and>
    numDealersRemaining (fst (RegressionBasement_init info dlr peers)) =
      length (calls_of (snd (RegressionBasement_init info dlr peers)))"
proof (rule conjI)
  let ?st0 = "RegressionPatron_new info dlr batchSize F_rows t_rows n"
  let ?S = "fst (RegressionPatron_init p peers ?st0)"
  have S: "rp_dealer ?S = dlr" "rp_info ?S = info" "rp_size ?S = n"
    by (simp_all add: RegressionPatron_init_def RegressionPatron_new_def Let_def)
  have whole: "involves p (c, Some peers)" for c
    using assms(2) by (simp add: involves_def forEach_def)
  have script: "order_script p peers ?st0 =
      concat (map (stage_calls p peers ?S) rp_states)" by (simp add: order_script_def)
  show "mset (map served (filter (involves p) (calls_of (snd (RegressionBasement_init info dlr peers))))) =
      mset (map served (order_script p peers ?st0))"
    unfolding script
    using pair_deals_serve [OF assms, of KZipAdjacent n] pair_deals_serve [OF assms, of KBeaver "rp_factory_need ?S * n"]
    by (simp add: RegressionBasement_init_def Let_def rp_states_def whole served_whole cross_call_def [abs_def] S
        flip: mset_map)
  show "numDealersRemaining (fst (RegressionBasement_init info dlr peers)) =
      length (calls_of (snd (RegressionBasement_init info dlr peers)))"
    by (simp add: RegressionBasement_init_def Let_def house_counts)
qed

lemma example_dealer_setup: "dealer_setup example_dealer example_peers"
  using example_patron_setup
  by (simp add: patron_setup_def dealer_setup_def example_patron_def RegressionPatron_new_def)

theorem basement_serves_patrons_witness:
  "mset (map served (filter (involves (example_party 1)) (calls_of (snd (RegressionBasement_init example_info
      example_dealer example_peers))))) =
    mset (map served (order_script (example_party 1) example_peers
      (RegressionPatron_new example_info example_dealer 3 2 2 2))) \<and>
   numDealersRemaining (fst (RegressionBasement_init example_info example_dealer example_peers)) = 16"
proof -
  have p: "example_party 1 \<in> set (forEachDataowner example_peers)"
    by (simp add: forEachDataowner_def example_peers_def)
  have "numDealersRemaining (fst (RegressionBasement_init example_info example_dealer example_peers)) = 16"
    by (simp add: RegressionBasement_init_def Let_def cross_pairs_def forEachDataowner_def example_peers_def
        example_party_def)
  then show ?thesis
    using basement_serves_patrons [OF example_dealer_setup p, of example_info 3 2 2 2] by simp
qed

end
