(* ===== verification/Framing.thy ===== *)
theory Framing
  imports Identity
begin

text \<open>
  Messages between organizations. \<open>framework/QueryHandler.cpp\<close> frames an outgoing message into the
  output buffer of its peer, \<open>network/EventHandler.cpp\<close> takes frames off the bytes libevent has
  received and hands them to the query handler. Libevent calls the reader whenever bytes arrive, at
  any split of the stream.
\<close>

subsection \<open>Headers\<close>

record Header =
  h_control :: u8
  h_senderRole :: role_t
  h_id :: u64
  h_receiverRole :: role_t
  h_length :: u32

definition HEADER_LEN :: nat where
  "HEADER_LEN = 8 + 3 * 1 + 4"

text \<open>A message as a protocol manager sends it and as it arrives.\<close>

record OutMsg =
  om_peer :: dbuid_t
  om_peerRole :: role_t
  om_myRole :: role_t
  om_id :: u64
  om_control :: u8
  om_body :: bytes

record InMsg =
  im_peer :: dbuid_t
  im_peerRole :: role_t
  im_myRole :: role_t
  im_id :: u64
  im_control :: u8
  im_body :: bytes

definition header_bytes :: "Header \<Rightarrow> bytes" where
  "header_bytes h = write_int (h_control h) @ write_int (h_senderRole h) @ write_int (h_id h) @
     write_int (h_receiverRole h) @ write_int (h_length h)"

definition out_header :: "OutMsg \<Rightarrow> Header" where
  "out_header om = \<lparr>h_control = om_control om, h_senderRole = om_myRole om, h_id = om_id om,
     h_receiverRole = om_peerRole om, h_length = of_nat (length (om_body om))\<rparr>"

definition write_frame :: "OutMsg \<Rightarrow> bytes" where
  "write_frame om = header_bytes (out_header om) @ om_body om"

definition read_header :: "Header reader" where
  "read_header buf =
     (case read_int buf of None \<Rightarrow> None | Some (c, buf) \<Rightarrow>
     (case read_int buf of None \<Rightarrow> None | Some (s, buf) \<Rightarrow>
     (case read_int buf of None \<Rightarrow> None | Some (i, buf) \<Rightarrow>
     (case read_int buf of None \<Rightarrow> None | Some (r, buf) \<Rightarrow>
     (case read_int buf of None \<Rightarrow> None | Some (l, buf) \<Rightarrow>
        Some (\<lparr>h_control = c, h_senderRole = s, h_id = i, h_receiverRole = r, h_length = l\<rparr>, buf))))))"

interpretation header: codec "\<lambda>_. True" header_bytes read_header
  by unfold_locales (simp add: header_bytes_def read_header_def be8.rd_wr be32.rd_wr be64.rd_wr)

lemma length_header_bytes [simp]: "length (header_bytes h) = HEADER_LEN"
  by (simp add: header_bytes_def HEADER_LEN_def)

lemma read_int_at:
  assumes "k + LENGTH('a::len) div 8 \<le> length buf"
  shows "\<exists>w :: 'a word. read_int (drop k buf) = Some (w, drop (k + LENGTH('a) div 8) buf)"
  using assms by (simp add: read_int_def evb_remove_def add.commute)

lemma read_int_append:
  "read_int buf = Some (w :: 'a::len word, rest) \<Longrightarrow> read_int (buf @ ys) = Some (w, rest @ ys)"
  by (auto simp: read_int_def evb_remove_def split: if_splits option.splits)

lemma read_header_append: "read_header buf = Some (h, rest) \<Longrightarrow> read_header (buf @ ys) = Some (h, rest @ ys)"
  by (auto simp: read_header_def read_int_append split: option.splits prod.splits)

lemma read_header_length: "read_header buf = Some (h, rest) \<Longrightarrow> length buf = HEADER_LEN + length rest"
  by (auto simp: read_header_def HEADER_LEN_def split: option.splits prod.splits dest!: read_int_length)

lemma read_header_Some: "HEADER_LEN \<le> length buf \<Longrightarrow> \<exists>h rest. read_header buf = Some (h, rest)"
proof -
  assume len: "HEADER_LEN \<le> length buf"
  then have len: "15 \<le> length buf" by (simp add: HEADER_LEN_def)
  obtain c :: u8 where c: "read_int (drop 0 buf) = Some (c, drop (0 + 1) buf)"
    using read_int_at [where k = 0 and buf = buf and ?'a = 8] len by auto
  obtain s :: u8 where s: "read_int (drop 1 buf) = Some (s, drop (1 + 1) buf)"
    using read_int_at [where k = 1 and buf = buf and ?'a = 8] len by auto
  obtain i :: u64 where i: "read_int (drop 2 buf) = Some (i, drop (2 + 8) buf)"
    using read_int_at [where k = 2 and buf = buf and ?'a = 64] len by auto
  obtain r :: u8 where r: "read_int (drop 10 buf) = Some (r, drop (10 + 1) buf)"
    using read_int_at [where k = 10 and buf = buf and ?'a = 8] len by auto
  obtain l :: u32 where l: "read_int (drop 11 buf) = Some (l, drop (11 + 4) buf)"
    using read_int_at [where k = 11 and buf = buf and ?'a = 32] len by auto
  show ?thesis using c s i r l by (simp add: read_header_def numeral_2_eq_2)
qed

subsection \<open>Reading a connection\<close>

text \<open>The query handler the connection feeds, with the test manager's answer to whether all tests are
  done: it returns its new state, or \<open>None\<close> when the call does not return.\<close>

record 'q app =
  app_update :: "InMsg \<Rightarrow> 'q \<Rightarrow> 'q option"
  app_closed :: "'q \<Rightarrow> bool"
  app_testsDone :: bool

record 'q Conn =
  senderOrg :: dbuid_t
  in_buf :: bytes
  hasCachedHeader :: bool
  cachedHeader :: Header
  handler :: 'q

text \<open>\<open>Erased\<close>: the query, its handler and this very connection object have been destroyed inside the
  call. \<open>Stuck\<close>: the handler did not return.\<close>

datatype 'q read_result = Open "'q Conn" | Erased 'q | Stuck

definition readEntireHeader :: "'q Conn \<Rightarrow> 'q Conn option" where
  "readEntireHeader c =
     (if \<not> hasCachedHeader c then
        (if length (in_buf c) \<ge> HEADER_LEN then
           (case read_header (in_buf c) of
              None \<Rightarrow> None
            | Some (h, buf) \<Rightarrow> Some (c\<lparr>in_buf := buf, cachedHeader := h, hasCachedHeader := True\<rparr>))
         else None)
      else Some c)"

definition incoming :: "dbuid_t \<Rightarrow> Header \<Rightarrow> bytes \<Rightarrow> InMsg" where
  "incoming sender h body = \<lparr>im_peer = sender, im_peerRole = h_senderRole h, im_myRole = h_receiverRole h,
     im_id = h_id h, im_control = h_control h, im_body = body\<rparr>"

definition condFinishEvent :: "'q app \<Rightarrow> 'q \<Rightarrow> bool" where
  "condFinishEvent A q \<longleftrightarrow> app_closed A q \<and> \<not> app_testsDone A"

text \<open>The callback for a connection that can be written to: whether it destroys the query.\<close>

definition writeEventHandler :: "'q app \<Rightarrow> 'q Conn \<Rightarrow> bool" where
  "writeEventHandler A c = condFinishEvent A (handler c)"

lemma readEntireHeader_Some:
  assumes "readEntireHeader c0 = Some c"
  shows "hasCachedHeader c" "senderOrg c = senderOrg c0" "handler c = handler c0"
    and "hasCachedHeader c0 \<Longrightarrow> c = c0"
    and "\<not> hasCachedHeader c0 \<Longrightarrow> length (in_buf c0) = HEADER_LEN + length (in_buf c)"
  using assms read_header_length
  by (auto simp: readEntireHeader_def split: if_splits option.splits)

function readEventHandler :: "'q app \<Rightarrow> 'q Conn \<Rightarrow> 'q read_result" where
  "readEventHandler A c0 =
     (case readEntireHeader c0 of
        None \<Rightarrow> Open c0
      | Some c \<Rightarrow>
          (let n = unat (h_length (cachedHeader c))
           in if length (in_buf c) < n then Open c
              else (case app_update A (incoming (senderOrg c) (cachedHeader c) (take n (in_buf c))) (handler c) of
                     None \<Rightarrow> Stuck
                   | Some q \<Rightarrow>
                       if condFinishEvent A q then Erased q
                       else (let c' = c\<lparr>in_buf := drop n (in_buf c), handler := q, hasCachedHeader := False\<rparr>
                             in if 0 < length (in_buf c') then readEventHandler A c' else Open c'))))"
  by pat_completeness auto

termination readEventHandler
proof (relation "measure (\<lambda>(A, c). 2 * length (in_buf c) + (if hasCachedHeader c then 1 else 0))")
  fix A :: "'q app" and c0 c c' :: "'q Conn" and n q
  assume c: "readEntireHeader c0 = Some c" and c': "c' = c\<lparr>in_buf := drop n (in_buf c), handler := q, hasCachedHeader := False\<rparr>"
  show "((A, c'), (A, c0)) \<in> measure (\<lambda>(A, c). 2 * length (in_buf c) + (if hasCachedHeader c then 1 else 0))"
    using readEntireHeader_Some [OF c] c' by (cases "hasCachedHeader c0") (auto simp: HEADER_LEN_def)
qed simp

declare readEventHandler.simps [simp del]

subsection \<open>Fragmentation\<close>

definition with_bytes :: "bytes \<Rightarrow> 'q Conn \<Rightarrow> 'q Conn" where
  "with_bytes ys c = c\<lparr>in_buf := in_buf c @ ys\<rparr>"

text \<open>Libevent appends what has arrived and calls the reader.\<close>

definition receive :: "'q app \<Rightarrow> bytes \<Rightarrow> 'q read_result \<Rightarrow> 'q read_result" where
  "receive A chunk r = (case r of Open c \<Rightarrow> readEventHandler A (with_bytes chunk c) | r \<Rightarrow> r)"

definition quiet :: "'q app \<Rightarrow> 'q Conn \<Rightarrow> bool" where
  "quiet A c \<longleftrightarrow> readEventHandler A c = Open c"

lemma with_bytes_simps [simp]:
  "in_buf (with_bytes ys c) = in_buf c @ ys" "hasCachedHeader (with_bytes ys c) = hasCachedHeader c"
  "cachedHeader (with_bytes ys c) = cachedHeader c" "handler (with_bytes ys c) = handler c"
  "senderOrg (with_bytes ys c) = senderOrg c" "with_bytes [] c = c" "with_bytes ys (with_bytes zs c) = with_bytes (zs @ ys) c"
  by (simp_all add: with_bytes_def)

lemma receive_simps [simp]:
  "receive A chunk (Open c) = readEventHandler A (with_bytes chunk c)" "receive A chunk (Erased q) = Erased q"
  "receive A chunk Stuck = Stuck"
  by (simp_all add: receive_def)

lemma readEntireHeader_extend:
  "readEntireHeader c = Some d \<Longrightarrow> readEntireHeader (with_bytes ys c) = Some (with_bytes ys d)"
  by (auto simp: readEntireHeader_def with_bytes_def read_header_append split: if_splits option.splits)

lemma quiet_empty: "in_buf c = [] \<Longrightarrow> \<not> hasCachedHeader c \<Longrightarrow> quiet A c"
  by (simp add: quiet_def readEventHandler.simps readEntireHeader_def HEADER_LEN_def)

text \<open>The reader without its last test, which only saves a call on an empty buffer.\<close>

definition advance :: "'q \<Rightarrow> 'q Conn \<Rightarrow> 'q Conn" where
  "advance q c = c\<lparr>in_buf := drop (unat (h_length (cachedHeader c))) (in_buf c), handler := q, hasCachedHeader := False\<rparr>"

definition next_message :: "'q Conn \<Rightarrow> InMsg option" where
  "next_message c = (let n = unat (h_length (cachedHeader c))
     in if length (in_buf c) < n then None
        else Some (incoming (senderOrg c) (cachedHeader c) (take n (in_buf c))))"

lemma readEventHandler_unfold:
  "readEventHandler A c0 =
     (case readEntireHeader c0 of
        None \<Rightarrow> Open c0
      | Some c \<Rightarrow>
          (case next_message c of
             None \<Rightarrow> Open c
           | Some im \<Rightarrow>
               (case app_update A im (handler c) of
                  None \<Rightarrow> Stuck
                | Some q \<Rightarrow> if condFinishEvent A q then Erased q else readEventHandler A (advance q c))))"
proof -
  have "readEventHandler A (advance q c) = Open (advance q c)" if "in_buf (advance q c) = []" for q c
    using quiet_empty [of "advance q c" A] that by (simp add: quiet_def advance_def)
  then show ?thesis
    by (auto simp: readEventHandler.simps [of A c0] Let_def next_message_def advance_def split: option.splits)
qed

lemma next_message_extend:
  assumes "next_message c = Some im"
  shows "next_message (with_bytes ys c) = Some im" "advance q (with_bytes ys c) = with_bytes ys (advance q c)"
  using assms by (auto simp: next_message_def Let_def advance_def with_bytes_def split: if_splits)

lemma readEventHandler_induct [case_names step]:
  assumes "\<And>c0. (\<And>c im q. readEntireHeader c0 = Some c \<Longrightarrow> next_message c = Some im \<Longrightarrow>
      app_update A im (handler c) = Some q \<Longrightarrow> \<not> condFinishEvent A q \<Longrightarrow> P (advance q c)) \<Longrightarrow> P c0"
  shows "P c0"
proof (induction "2 * length (in_buf c0) + (if hasCachedHeader c0 then 1 else 0)" arbitrary: c0 rule: less_induct)
  case less
  show ?case
  proof (rule assms)
    fix c im q assume c: "readEntireHeader c0 = Some c"
    show "P (advance q c)"
      using readEntireHeader_Some [OF c]
      by (intro less) (cases "hasCachedHeader c0"; simp add: advance_def HEADER_LEN_def)
  qed
qed

text \<open>Reading what has arrived in two steps is reading it at once.\<close>

lemma readEventHandler_split:
  "readEventHandler A (with_bytes ys c) = receive A ys (readEventHandler A c)"
proof (induction c rule: readEventHandler_induct [where A = A])
  case (step c0)
  show ?case
  proof (cases "readEntireHeader c0")
    case None
    then have "readEventHandler A c0 = Open c0" by (simp add: readEventHandler_unfold [of A c0])
    then show ?thesis by simp
  next
    case (Some c)
    note whole = readEntireHeader_extend [OF Some, of ys]
    have cached: "readEntireHeader (with_bytes ys c) = Some (with_bytes ys c)"
      using readEntireHeader_Some(1) [OF Some] by (simp add: readEntireHeader_def)
    show ?thesis
    proof (cases "next_message c")
      case None
      then show ?thesis using Some whole cached
        by (simp add: readEventHandler_unfold [of A c0] readEventHandler_unfold [of A "with_bytes ys c0"]
            readEventHandler_unfold [of A "with_bytes ys c"])
    next
      case msg: (Some im)
      then show ?thesis using Some whole step.IH [OF Some msg] next_message_extend [OF msg]
        by (simp add: readEventHandler_unfold [of A c0] readEventHandler_unfold [of A "with_bytes ys c0"]
            split: option.splits)
    qed
  qed
qed

lemma receive_concat:
  assumes "quiet A c"
  shows "fold (receive A) chunks (Open c) = readEventHandler A (with_bytes (concat chunks) c)"
proof (induction chunks rule: rev_induct)
  case Nil
  then show ?case using assms by (simp add: quiet_def)
next
  case (snoc chunk chunks)
  then show ?case using readEventHandler_split [of A chunk "with_bytes (concat chunks) c"] by simp
qed

text \<open>
  C13: Fragmentation does not matter. However the bytes of a connection are split when libevent
  delivers them, whatever bytes they are, the reader ends in the same state (buffer, cached header,
  query handler, and whether the query was erased) as when they arrive in one piece.
\<close>

theorem fragmentation_irrelevant:
  assumes "quiet A c"
  shows "fold (receive A) chunks (Open c) = receive A (concat chunks) (Open c)"
  by (simp add: receive_concat [OF assms])

text \<open>Messages handed to the query handler one after the other; the flag says that it was erased.\<close>

fun handle_all :: "'q app \<Rightarrow> 'q \<Rightarrow> InMsg list \<Rightarrow> ('q \<times> bool) option" where
  "handle_all A q [] = Some (q, False)"
| "handle_all A q (im # ims) =
     (case app_update A im q of
        None \<Rightarrow> None
      | Some q' \<Rightarrow> if condFinishEvent A q' then Some (q', True) else handle_all A q' ims)"

fun result_of :: "'q read_result \<Rightarrow> ('q \<times> bool) option" where
  "result_of (Open c) = Some (handler c, False)"
| "result_of (Erased q) = Some (q, True)"
| "result_of Stuck = None"

text \<open>A message as its receiver sees it: the roles of sender and receiver change places.\<close>

definition arrived :: "dbuid_t \<Rightarrow> OutMsg \<Rightarrow> InMsg" where
  "arrived sender om = \<lparr>im_peer = sender, im_peerRole = om_myRole om, im_myRole = om_peerRole om,
     im_id = om_id om, im_control = om_control om, im_body = om_body om\<rparr>"

definition fits :: "OutMsg \<Rightarrow> bool" where
  "fits om \<longleftrightarrow> length (om_body om) < 2 ^ 32"

lemma read_frame:
  assumes "in_buf c = write_frame om @ ys" "\<not> hasCachedHeader c" "fits om"
  shows "\<exists>d. readEntireHeader c = Some d \<and> next_message d = Some (arrived (senderOrg c) om) \<and>
    handler d = handler c \<and> in_buf (advance q d) = ys \<and> \<not> hasCachedHeader (advance q d) \<and>
    senderOrg (advance q d) = senderOrg c \<and> handler (advance q d) = q"
proof -
  let ?d = "c\<lparr>in_buf := om_body om @ ys, cachedHeader := out_header om, hasCachedHeader := True\<rparr>"
  have "readEntireHeader c = Some ?d"
    using assms(1,2) by (simp add: readEntireHeader_def write_frame_def header.rd_wr)
  moreover have "unat (h_length (out_header om)) = length (om_body om)"
    using assms(3) by (simp add: out_header_def fits_def unat_of_nat)
  then have "next_message ?d = Some (arrived (senderOrg c) om)" "in_buf (advance q ?d) = ys"
    by (simp_all add: next_message_def incoming_def arrived_def out_header_def advance_def)
  ultimately show ?thesis by (intro exI [of _ ?d]) (simp add: advance_def)
qed

lemma read_frames:
  "in_buf c = concat (map write_frame oms) \<Longrightarrow> \<not> hasCachedHeader c \<Longrightarrow> list_all fits oms \<Longrightarrow>
   result_of (readEventHandler A c) = handle_all A (handler c) (map (arrived (senderOrg c)) oms)"
proof (induction oms arbitrary: c)
  case Nil
  then show ?case using quiet_empty [of c A] by (simp add: quiet_def)
next
  case (Cons om oms)
  let ?im = "arrived (senderOrg c) om"
  show ?case
  proof (cases "app_update A ?im (handler c)")
    case None
    obtain d where "readEntireHeader c = Some d" "next_message d = Some ?im" "handler d = handler c"
      using read_frame [of c om "concat (map write_frame oms)"] Cons.prems by auto
    then show ?thesis using None by (simp add: readEventHandler_unfold [of A c])
  next
    case (Some q)
    obtain d where d: "readEntireHeader c = Some d" "next_message d = Some ?im" "handler d = handler c"
      "in_buf (advance q d) = concat (map write_frame oms)" "\<not> hasCachedHeader (advance q d)"
      "senderOrg (advance q d) = senderOrg c" "handler (advance q d) = q"
      using read_frame [of c om "concat (map write_frame oms)" q] Cons.prems by auto
    then show ?thesis using Some Cons.IH [OF d(4,5)] Cons.prems(3)
      by (simp add: readEventHandler_unfold [of A c])
  qed
qed

text \<open>
  C14: What one organization frames, the other one handles. When the frames of a sequence of messages
  (each shorter than 4 GiB) reach an idle connection, in whatever pieces, the receiver's query handler
  is called with exactly these messages, in their order, with the body of each unchanged and the roles
  exchanged, until it closes.
\<close>

theorem frames_delivered:
  assumes "list_all fits oms" "concat chunks = concat (map write_frame oms)"
    and "in_buf c = []" "\<not> hasCachedHeader c"
  shows "result_of (fold (receive A) chunks (Open c)) = handle_all A (handler c) (map (arrived (senderOrg c)) oms)"
  using receive_concat [OF quiet_empty [OF assms(3,4)], of A chunks] read_frames [of "with_bytes (concat chunks) c" oms A]
    assms by simp

text \<open>An application that records what it is called with.\<close>

definition recorder :: "InMsg list app" where
  "recorder = \<lparr>app_update = \<lambda>im ims. Some (ims @ [im]), app_closed = \<lambda>ims. False, app_testsDone = False\<rparr>"

definition idle :: "dbuid_t \<Rightarrow> 'q \<Rightarrow> 'q Conn" where
  "idle sender q = \<lparr>senderOrg = sender, in_buf = [], hasCachedHeader = False,
     cachedHeader = \<lparr>h_control = 0, h_senderRole = 0, h_id = 0, h_receiverRole = 0, h_length = 0\<rparr>, handler = q\<rparr>"

definition example_out :: "dbuid_t \<Rightarrow> bytes \<Rightarrow> OutMsg" where
  "example_out p body = \<lparr>om_peer = p, om_peerRole = ROLE_DEALER, om_myRole = ROLE_DATAOWNER, om_id = 7, om_control = 1,
     om_body = body\<rparr>"

theorem fragmentation_irrelevant_witness:
  "fold (receive recorder) [[1, 4, 0], [0, 0, 0], [0, 0, 0, 7]] (Open (idle DBUID_INVALID [])) =
     receive recorder [1, 4, 0, 0, 0, 0, 0, 0, 0, 7] (Open (idle DBUID_INVALID []))"
  using fragmentation_irrelevant [of recorder "idle DBUID_INVALID []" "[[1, 4, 0], [0, 0, 0], [0, 0, 0, 7]]"]
    quiet_empty [of "idle DBUID_INVALID []" recorder] by (simp add: idle_def)

theorem frames_delivered_witness:
  "result_of (fold (receive recorder)
     [take 7 (write_frame (example_out DBUID_INVALID [9])),
      drop 7 (write_frame (example_out DBUID_INVALID [9])) @ write_frame (example_out DBUID_INVALID [])]
     (Open (idle DBUID_INVALID []))) =
   Some ([arrived DBUID_INVALID (example_out DBUID_INVALID [9]), arrived DBUID_INVALID (example_out DBUID_INVALID [])], False)"
  by (subst frames_delivered [where oms = "[example_out DBUID_INVALID [9], example_out DBUID_INVALID []]"])
    (simp_all add: fits_def example_out_def idle_def recorder_def condFinishEvent_def)

end
