(* ===== verification/Queries.thy ===== *)
theory Queries
  imports Framing
begin

text \<open>
  One query on one server: the handler that owns the three protocol managers
  (\<open>framework/QueryHandler.cpp\<close>), the identifiers of queries (\<open>framework/QueryContext.cpp\<close>) and what
  ends a connection (the callbacks of \<open>network/EventHandler.cpp\<close>). The managers and the codes of the
  control byte belong to the Fortissimo library.
\<close>

subsection \<open>The query handler\<close>

record 'm mgr_lib =
  mgr_init :: "'m \<Rightarrow> 'm \<times> OutMsg list"
  mgr_sync :: "InMsg \<Rightarrow> 'm \<Rightarrow> 'm \<times> OutMsg list"
  mgr_payload :: "InMsg \<Rightarrow> 'm \<Rightarrow> 'm \<times> OutMsg list"
  mgr_complete :: "InMsg \<Rightarrow> 'm \<Rightarrow> 'm"
  mgr_finished :: "'m \<Rightarrow> bool"
  mgr_closed :: "'m \<Rightarrow> bool"
  CTRLBLK_SYNC :: u8
  CTRLBLK_PAYLOAD :: u8
  CTRLBLK_COMPLETE :: u8

text \<open>\<open>qh_peers\<close> holds the output buffer of every connected organization.\<close>

record 'm QueryHandler =
  qh_org :: dbuid_t
  qh_peers :: "dbuid_t \<Rightarrow> bytes option"
  qh_dealer :: 'm
  qh_recipient :: 'm
  qh_dataowner :: 'm
  initialized :: bool
  messageCache :: "InMsg list"

text \<open>The manager of a role with the function that puts it back; there is none for any other role, and
  the calls through the null pointer do not return (\<open>None\<close>).\<close>

definition chooseRole :: "role_t \<Rightarrow> 'm QueryHandler \<Rightarrow> ('m \<times> ('m \<Rightarrow> 'm QueryHandler)) option" where
  "chooseRole myRole q =
     (if myRole = ROLE_DEALER then Some (qh_dealer q, \<lambda>m. q\<lparr>qh_dealer := m\<rparr>)
      else if myRole = ROLE_RECIPIENT then Some (qh_recipient q, \<lambda>m. q\<lparr>qh_recipient := m\<rparr>)
      else if myRole = ROLE_DATAOWNER then Some (qh_dataowner q, \<lambda>m. q\<lparr>qh_dataowner := m\<rparr>)
      else None)"

definition handleSync :: "'m mgr_lib \<Rightarrow> InMsg \<Rightarrow> 'm QueryHandler \<Rightarrow> ('m QueryHandler \<times> OutMsg list) option" where
  "handleSync L msg q = map_option (\<lambda>(mgr, put). let (m, outs) = mgr_sync L msg mgr in (put m, outs)) (chooseRole (im_myRole msg) q)"

definition handlePayload :: "'m mgr_lib \<Rightarrow> InMsg \<Rightarrow> 'm QueryHandler \<Rightarrow> ('m QueryHandler \<times> OutMsg list) option" where
  "handlePayload L msg q =
     map_option (\<lambda>(mgr, put). let (m, outs) = mgr_payload L msg mgr in (put m, outs)) (chooseRole (im_myRole msg) q)"

definition qh_handleComplete :: "'m mgr_lib \<Rightarrow> InMsg \<Rightarrow> 'm QueryHandler \<Rightarrow> ('m QueryHandler \<times> OutMsg list) option" where
  "qh_handleComplete L msg q = map_option (\<lambda>(mgr, put). (put (mgr_complete L msg mgr), [])) (chooseRole (im_myRole msg) q)"

text \<open>The dispatch of \<open>update\<close> on the control byte; an unknown one is logged.\<close>

definition dispatch :: "'m mgr_lib \<Rightarrow> InMsg \<Rightarrow> 'm QueryHandler \<Rightarrow> ('m QueryHandler \<times> OutMsg list) option" where
  "dispatch L msg q =
     (if im_control msg = CTRLBLK_SYNC L then handleSync L msg q
      else if im_control msg = CTRLBLK_PAYLOAD L then handlePayload L msg q
      else if im_control msg = CTRLBLK_COMPLETE L then qh_handleComplete L msg q
      else Some (q, []))"

text \<open>A message to the own organization as the handler takes it: with the roles as they were sent, where a
  message that goes over a connection arrives with the roles of sender and receiver exchanged.\<close>

definition self_msg :: "OutMsg \<Rightarrow> InMsg" where
  "self_msg om = \<lparr>im_peer = om_peer om, im_peerRole = om_peerRole om, im_myRole = om_myRole om, im_id = om_id om,
     im_control = om_control om, im_body = om_body om\<rparr>"

text \<open>\<open>sendOutgoingMessages\<close>. A message to the own organization is handled at once, which may send
  further messages: the loop and \<open>update\<close> call each other, and need not end.\<close>

partial_function (option) sendOutgoingMessages ::
  "'m mgr_lib \<Rightarrow> OutMsg list \<Rightarrow> 'm QueryHandler \<Rightarrow> 'm QueryHandler option" where
  "sendOutgoingMessages L msgs q =
     (case msgs of
        [] \<Rightarrow> Some q
      | om # oms \<Rightarrow>
          if om_peer om = qh_org q then
            (if \<not> initialized q then
               sendOutgoingMessages L oms (q\<lparr>messageCache := messageCache q @ [self_msg om]\<rparr>)
             else (case dispatch L (self_msg om) q of
                 None \<Rightarrow> None
               | Some (q', outs) \<Rightarrow> Option.bind (sendOutgoingMessages L outs q') (sendOutgoingMessages L oms)))
          else (case qh_peers q (om_peer om) of
              Some out \<Rightarrow> sendOutgoingMessages L oms (q\<lparr>qh_peers := (qh_peers q)(om_peer om \<mapsto> out @ write_frame om)\<rparr>)
            | None \<Rightarrow> sendOutgoingMessages L oms q))"

definition update :: "'m mgr_lib \<Rightarrow> InMsg \<Rightarrow> 'm QueryHandler \<Rightarrow> 'm QueryHandler option" where
  "update L msg q =
     (if \<not> initialized q then Some (q\<lparr>messageCache := messageCache q @ [msg]\<rparr>)
      else (case dispatch L msg q of
          None \<Rightarrow> None
        | Some (q', outs) \<Rightarrow> sendOutgoingMessages L outs q'))"

text \<open>The loop of \<open>init\<close> that replays the messages received too early.\<close>

partial_function (option) replay :: "'m mgr_lib \<Rightarrow> 'm QueryHandler \<Rightarrow> 'm QueryHandler option" where
  "replay L q =
     (case messageCache q of
        [] \<Rightarrow> Some q
      | msg # msgs \<Rightarrow> Option.bind (update L msg (q\<lparr>messageCache := msgs\<rparr>)) (replay L))"

definition init_managers :: "'m mgr_lib \<Rightarrow> 'm QueryHandler \<Rightarrow> 'm QueryHandler \<times> OutMsg list" where
  "init_managers L q =
     (let (d, outs1) = mgr_init L (qh_dealer q); (r, outs2) = mgr_init L (qh_recipient q);
          (o', outs3) = mgr_init L (qh_dataowner q)
      in (q\<lparr>qh_dealer := d, qh_recipient := r, qh_dataowner := o'\<rparr>, outs1 @ outs2 @ outs3))"

definition QueryHandler_init :: "'m mgr_lib \<Rightarrow> 'm QueryHandler \<Rightarrow> 'm QueryHandler option" where
  "QueryHandler_init L q =
     (let (q, outs) = init_managers L q
      in Option.bind (sendOutgoingMessages L outs q) (\<lambda>q. replay L (q\<lparr>initialized := True\<rparr>)))"

definition isFinished :: "'m mgr_lib \<Rightarrow> 'm QueryHandler \<Rightarrow> bool" where
  "isFinished L q \<longleftrightarrow> mgr_finished L (qh_dealer q) \<and> mgr_finished L (qh_recipient q) \<and> mgr_finished L (qh_dataowner q)"

definition isClosed :: "'m mgr_lib \<Rightarrow> 'm QueryHandler \<Rightarrow> bool" where
  "isClosed L q \<longleftrightarrow> mgr_closed L (qh_dealer q) \<and> mgr_closed L (qh_recipient q) \<and> mgr_closed L (qh_dataowner q)"

text \<open>The query handler as the application a connection feeds.\<close>

definition query_app :: "'m mgr_lib \<Rightarrow> bool \<Rightarrow> 'm QueryHandler app" where
  "query_app L testsDone = \<lparr>app_update = update L, app_closed = isClosed L, app_testsDone = testsDone\<rparr>"

text \<open>
  A message between two roles of one organization does not reach the role it is for: it goes back to the manager that
  sent it, while the same message of another organization is dispatched to the manager it is addressed to.
\<close>

lemma self_message_returns:
  assumes "om_control om = CTRLBLK_SYNC L" "om_myRole om = ROLE_DEALER"
    and "om_peerRole om = ROLE_DATAOWNER"
  shows "dispatch L (self_msg om) q = (let (m, outs) = mgr_sync L (self_msg om) (qh_dealer q) in Some (q\<lparr>qh_dealer := m\<rparr>, outs)) \<and>
    dispatch L (arrived p om) q = (let (m, outs) = mgr_sync L (arrived p om) (qh_dataowner q) in Some (q\<lparr>qh_dataowner := m\<rparr>, outs))"
  using assms by (simp add: dispatch_def handleSync_def chooseRole_def self_msg_def arrived_def case_prod_unfold Let_def)

subsection \<open>Sending\<close>

lemmas send_simps = sendOutgoingMessages.simps

text \<open>What a handler never changes.\<close>

definition same_wiring :: "'m QueryHandler \<Rightarrow> 'm QueryHandler \<Rightarrow> bool" where
  "same_wiring q q' \<longleftrightarrow> qh_org q' = qh_org q \<and> initialized q' = initialized q \<and>
     dom (qh_peers q') = dom (qh_peers q) \<and>
     (initialized q \<longrightarrow> messageCache q' = messageCache q)"

lemma same_wiring_trans: "same_wiring p q \<Longrightarrow> same_wiring q r \<Longrightarrow> same_wiring p r"
  by (simp add: same_wiring_def)

lemma dispatch_wiring: "dispatch L msg q = Some (q', outs) \<Longrightarrow> same_wiring q q' \<and> qh_peers q' = qh_peers q"
  by (auto simp: dispatch_def handleSync_def handlePayload_def qh_handleComplete_def chooseRole_def same_wiring_def
      split: if_splits prod.splits)

lemma send_wiring: "sendOutgoingMessages L msgs q = Some q' \<Longrightarrow> same_wiring q q'"
proof (induction rule: sendOutgoingMessages.raw_induct [rotated, consumes 1, case_names step])
  case (step send L msgs q q')
  note IH = step(1)
  show ?case
  proof (cases msgs)
    case Nil
    then show ?thesis using step(2) by (simp add: same_wiring_def)
  next
    case (Cons om oms)
    show ?thesis
    proof (cases "om_peer om = qh_org q \<and> initialized q")
      case True
      then obtain q1 outs q2 where "dispatch L (self_msg om) q = Some (q1, outs)"
        "send L outs q1 = Some q2" "send L oms q2 = Some q'"
        using step(2) Cons by (auto split: option.splits bind_splits)
      then show ?thesis using IH dispatch_wiring same_wiring_trans by metis
    next
      case False
      then show ?thesis using step(2) Cons IH
        by (fastforce simp: same_wiring_def split: if_splits option.splits)
    qed
  qed
qed

text \<open>An initialized handler does not look at its cache.\<close>

abbreviation with_cache :: "InMsg list \<Rightarrow> 'm QueryHandler \<Rightarrow> 'm QueryHandler" where
  "with_cache c q \<equiv> q\<lparr>messageCache := c\<rparr>"

lemma swap_cache:
  "(with_cache c q)\<lparr>qh_peers := f\<rparr> = with_cache c (q\<lparr>qh_peers := f\<rparr>)"
  "(with_cache c q)\<lparr>initialized := b\<rparr> = with_cache c (q\<lparr>initialized := b\<rparr>)"
  by simp_all

lemma dispatch_cache: "dispatch L msg (with_cache c q) = map_option (\<lambda>(r, outs). (with_cache c r, outs)) (dispatch L msg q)"
  by (simp add: dispatch_def handleSync_def handlePayload_def qh_handleComplete_def chooseRole_def case_prod_unfold Let_def)

lemma send_cache_Some:
  "sendOutgoingMessages L msgs q = Some r \<Longrightarrow> initialized q \<Longrightarrow>
   sendOutgoingMessages L msgs (with_cache c q) = Some (with_cache c r)"
proof (induction rule: sendOutgoingMessages.raw_induct [rotated, consumes 1, case_names step])
  case (step send L msgs q r)
  show ?case
  proof (cases msgs)
    case Nil
    then show ?thesis using step by (simp add: send_simps)
  next
    case (Cons om oms)
    show ?thesis
    proof (cases "om_peer om = qh_org q")
      case True
      then obtain q1 outs q2 where *: "dispatch L (self_msg om) q = Some (q1, outs)"
        "send L outs q1 = Some q2" "send L oms q2 = Some r"
        using step(2,3) Cons by (auto split: option.splits bind_splits)
      have "initialized q1" using dispatch_wiring [OF *(1)] step(3) by (simp add: same_wiring_def)
      with step(1) [OF *(2)] have **: "sendOutgoingMessages L outs (with_cache c q1) = Some (with_cache c q2)" by blast
      have "initialized q2" using send_wiring [OF **] \<open>initialized q1\<close> by (simp add: same_wiring_def)
      with step(1) [OF *(3)] have "sendOutgoingMessages L oms (with_cache c q2) = Some (with_cache c r)" by blast
      with ** show ?thesis using True Cons step(3) *(1)
        by (subst send_simps) (simp add: dispatch_cache)
    next
      case False
      let ?q = "case qh_peers q (om_peer om) of None \<Rightarrow> q
        | Some out \<Rightarrow> q\<lparr>qh_peers := (qh_peers q)(om_peer om \<mapsto> out @ write_frame om)\<rparr>"
      have "send L oms ?q = Some r" "initialized ?q"
        using step(2,3) False Cons by (auto split: option.splits)
      with step(1) have "sendOutgoingMessages L oms (with_cache c ?q) = Some (with_cache c r)" by blast
      then show ?thesis using False Cons
        by (subst send_simps) (auto simp: swap_cache split: option.splits)
    qed
  qed
qed

lemma send_cache:
  assumes "initialized q"
  shows "sendOutgoingMessages L msgs (with_cache c q) = map_option (with_cache c) (sendOutgoingMessages L msgs q)"
proof (cases "sendOutgoingMessages L msgs q")
  case None
  have "sendOutgoingMessages L msgs (with_cache c q) = None"
  proof (rule ccontr)
    assume "sendOutgoingMessages L msgs (with_cache c q) \<noteq> None"
    then obtain r where "sendOutgoingMessages L msgs (with_cache c q) = Some r" by blast
    from send_cache_Some [OF this, of "messageCache q"] assms None show False by simp
  qed
  then show ?thesis using None by simp
qed (simp add: send_cache_Some assms)

lemma update_cache:
  "initialized q \<Longrightarrow> update L msg (with_cache c q) = map_option (with_cache c) (update L msg q)"
  by (auto simp: update_def dispatch_cache send_cache same_wiring_def split: option.splits dest!: dispatch_wiring)

lemma update_wiring: "update L msg q = Some q' \<Longrightarrow> initialized q \<Longrightarrow> same_wiring q q'"
  by (auto simp: update_def split: option.splits dest!: dispatch_wiring send_wiring intro: same_wiring_trans)

fun update_all :: "'m mgr_lib \<Rightarrow> InMsg list \<Rightarrow> 'm QueryHandler \<Rightarrow> 'm QueryHandler option" where
  "update_all L [] q = Some q"
| "update_all L (msg # msgs) q = Option.bind (update L msg q) (update_all L msgs)"

lemma replay_update_all:
  "initialized q \<Longrightarrow> replay L (with_cache msgs q) = update_all L msgs (with_cache [] q)"
proof (induction msgs arbitrary: q)
  case Nil
  then show ?case by (simp add: replay.simps)
next
  case (Cons msg msgs)
  have "replay L (with_cache (msg # msgs) q) = Option.bind (map_option (with_cache msgs) (update L msg q)) (replay L)"
    using update_cache [OF Cons.prems] by (simp add: replay.simps)
  also have "\<dots> = Option.bind (map_option (with_cache []) (update L msg q)) (update_all L msgs)"
    using Cons.IH update_wiring [of L msg q] Cons.prems
    by (cases "update L msg q") (simp_all add: same_wiring_def)
  finally show ?case using update_cache [OF Cons.prems] by simp
qed

lemma update_all_wiring: "update_all L msgs q = Some q' \<Longrightarrow> initialized q \<Longrightarrow> same_wiring q q'"
proof (induction msgs arbitrary: q)
  case (Cons msg msgs)
  then obtain q1 where "update L msg q = Some q1" "update_all L msgs q1 = Some q'" by (auto split: bind_splits)
  then show ?case using Cons.IH [of q1] Cons.prems(2) update_wiring [of L msg q q1] same_wiring_trans
    by (metis same_wiring_def)
qed (simp add: same_wiring_def)

lemma init_managers_wiring: "init_managers L q = (q', outs) \<Longrightarrow> same_wiring q q'"
  by (auto simp: init_managers_def Let_def same_wiring_def split: prod.splits)

text \<open>Setting up keeps the organization and its connections.\<close>

lemma init_wiring:
  assumes "QueryHandler_init L q = Some q'"
  shows "qh_org q' = qh_org q \<and> dom (qh_peers q') = dom (qh_peers q)"
proof -
  obtain q1 outs where q1: "init_managers L q = (q1, outs)" by fastforce
  then obtain q2 where q2: "sendOutgoingMessages L outs q1 = Some q2" "replay L (q2\<lparr>initialized := True\<rparr>) = Some q'"
    using assms by (auto simp: QueryHandler_init_def split: bind_splits)
  let ?q = "q2\<lparr>initialized := True\<rparr>"
  have "replay L (with_cache (messageCache ?q) ?q) = update_all L (messageCache ?q) (with_cache [] ?q)"
    by (rule replay_update_all) simp
  then have "update_all L (messageCache ?q) (with_cache [] ?q) = Some q'" using q2(2) by simp
  from update_all_wiring [OF this] show ?thesis
    using init_managers_wiring [OF q1] send_wiring [OF q2(1)] by (simp add: same_wiring_def)
qed

text \<open>The frames posted to the connected peers, and the messages to the own organization.\<close>

definition posted :: "OutMsg list \<Rightarrow> 'm QueryHandler \<Rightarrow> 'm QueryHandler" where
  "posted outs q = q\<lparr>qh_peers := \<lambda>p. map_option (\<lambda>b. b @ concat (map write_frame
     (filter (\<lambda>om. om_peer om = p \<and> p \<noteq> qh_org q) outs))) (qh_peers q p)\<rparr>"

definition to_self :: "dbuid_t \<Rightarrow> OutMsg list \<Rightarrow> InMsg list" where
  "to_self self outs = map self_msg (filter (\<lambda>om. om_peer om = self) outs)"

lemma send_uninitialized:
  "\<not> initialized q \<Longrightarrow>
   sendOutgoingMessages L outs q = Some (with_cache (messageCache q @ to_self (qh_org q) outs) (posted outs q))"
proof (induction outs arbitrary: q)
  case Nil
  then show ?case by (simp add: send_simps posted_def to_self_def option.map_ident)
next
  case (Cons om outs)
  consider (self) "om_peer om = qh_org q" | (peer) out where "om_peer om \<noteq> qh_org q" "qh_peers q (om_peer om) = Some out"
    | (gone) "om_peer om \<noteq> qh_org q" "qh_peers q (om_peer om) = None" by fastforce
  then show ?case
  proof cases
    case self
    then show ?thesis using Cons.prems Cons.IH [of "with_cache (messageCache q @ [self_msg om]) q"]
      by (subst send_simps) (auto simp: posted_def to_self_def fun_eq_iff intro!: arg_cong2 [where f = map_option])
  next
    case peer
    then show ?thesis using Cons.prems Cons.IH [of "q\<lparr>qh_peers := (qh_peers q)(om_peer om \<mapsto> out @ write_frame om)\<rparr>"]
      by (subst send_simps) (auto simp: posted_def to_self_def fun_eq_iff)
  next
    case gone
    then show ?thesis using Cons.prems Cons.IH [of q]
      by (subst send_simps) (auto simp: posted_def to_self_def fun_eq_iff)
  qed
qed

text \<open>
  C15: No message that arrives before a query is set up is lost or reordered. Setting the query up has
  the effect of posting the managers' first messages to the connected peers and then handling, one
  after the other, every message that came in early, in the order of arrival, and after them the
  messages the managers sent to their own organization, each given to the manager of the role it was sent
  in.
\<close>

theorem early_messages_replayed:
  assumes "\<not> initialized q" "init_managers L q = (q', outs)"
  shows "QueryHandler_init L q =
    update_all L (messageCache q @ to_self (qh_org q) outs) ((posted outs q')\<lparr>initialized := True, messageCache := []\<rparr>)"
proof -
  have q': "\<not> initialized q'" "messageCache q' = messageCache q" "qh_org q' = qh_org q"
    using assms by (auto simp: init_managers_def Let_def split: prod.splits)
  show ?thesis
    using send_uninitialized [OF q'(1), of L outs] q' replay_update_all [of "(posted outs q')\<lparr>initialized := True\<rparr>" L]
    by (simp add: QueryHandler_init_def assms(2) swap_cache)
qed

text \<open>To other organizations, messages are framed in their order, also once the query is set up.\<close>

lemma send_others:
  "list_all (\<lambda>om. om_peer om \<noteq> qh_org q) outs \<Longrightarrow> sendOutgoingMessages L outs q = Some (posted outs q)"
proof (induction outs arbitrary: q)
  case Nil
  then show ?case by (simp add: send_simps posted_def option.map_ident)
next
  case (Cons om outs)
  show ?case
  proof (cases "qh_peers q (om_peer om)")
    case None
    then show ?thesis using Cons.prems Cons.IH [of q]
      by (subst send_simps) (auto simp: posted_def fun_eq_iff)
  next
    case (Some out)
    then show ?thesis
      using Cons.prems Cons.IH [of "q\<lparr>qh_peers := (qh_peers q)(om_peer om \<mapsto> out @ write_frame om)\<rparr>"]
      by (subst send_simps) (auto simp: posted_def fun_eq_iff)
  qed
qed

text \<open>
  C16: From one query handler to the other. When the managers of a query send messages to other
  organizations and the bytes queued for one connected peer reach that peer, in whatever pieces, the
  peer's query handler is called with exactly the messages addressed to it, in the order they were
  sent, and with no others.
\<close>

theorem messages_reach_peer:
  assumes "list_all (\<lambda>om. om_peer om \<noteq> qh_org q) outs" "list_all fits outs" "qh_peers q p = Some []"
    and "sendOutgoingMessages L outs q = Some q'" "qh_peers q' p = Some (concat chunks)"
    and "in_buf c = []" "\<not> hasCachedHeader c" "senderOrg c = qh_org q"
  shows "result_of (fold (receive (query_app L' done')) chunks (Open c)) =
    handle_all (query_app L' done') (handler c) (map (arrived (qh_org q)) (filter (\<lambda>om. om_peer om = p) outs))"
proof -
  let ?mine = "filter (\<lambda>om. om_peer om = p) outs"
  have "filter (\<lambda>om. om_peer om = p \<and> p \<noteq> qh_org q) outs = ?mine"
    using assms(1) by (intro filter_cong) (auto simp: list_all_iff)
  moreover have "q' = posted outs q" using send_others [OF assms(1), of L] assms(4) by simp
  ultimately have "concat chunks = concat (map write_frame ?mine)"
    using assms(3,5) by (simp add: posted_def)
  moreover have "list_all fits ?mine" using assms(2) by (simp add: list_all_iff)
  moreover have "fold (receive (query_app L' done')) chunks (Open c) =
      readEventHandler (query_app L' done') (with_bytes (concat chunks) c)"
    using assms(6,7) by (intro receive_concat quiet_empty)
  ultimately show ?thesis
    using read_frames [of "with_bytes (concat chunks) c" ?mine "query_app L' done'"] assms(6-8) by simp
qed

subsection \<open>Events of a connection\<close>

text \<open>The bits libevent sets in the argument of its event callback.\<close>

record bev_events =
  bev_reading :: bool
  bev_writing :: bool
  bev_eof :: bool
  bev_error :: bool
  bev_timeout :: bool
  bev_connected :: bool

datatype conn_log = LogConnected | LogFinished | LogFailure string string

definition phase :: "bev_events \<Rightarrow> string" where
  "phase ev = (if bev_reading ev then ''Reading event'' else if bev_writing ev then ''Writing event'' else ''Connect event'')"

text \<open>The message of a callback, and whether it erases the query (or ends the tests).\<close>

definition eventHandlerError :: "bev_events \<Rightarrow> bool \<Rightarrow> conn_log \<times> bool" where
  "eventHandlerError ev finished =
     (if bev_connected ev then (LogConnected, False)
      else if bev_eof ev then (if finished then (LogFinished, True) else (LogFailure (phase ev) ''end of file'', False))
      else if bev_error ev then (LogFailure (phase ev) ''error'', False)
      else if bev_timeout ev then (LogFailure (phase ev) ''timeout'', False)
      else (LogFailure (phase ev) ''unknown error'', False))"

subsection \<open>Identifiers of queries\<close>

record QueryId =
  qid_study :: dbuid_t
  qid_analyst :: dbuid_t
  qid_number :: u64

definition QueryId_lt :: "QueryId \<Rightarrow> QueryId \<Rightarrow> bool" where
  "QueryId_lt a b \<longleftrightarrow> array_less (qid_study a) (qid_study b) \<and> array_less (qid_analyst a) (qid_analyst b) \<and>
     qid_number a < qid_number b"

definition QueryId_gt :: "QueryId \<Rightarrow> QueryId \<Rightarrow> bool" where
  "QueryId_gt a b \<longleftrightarrow> array_less (qid_study b) (qid_study a) \<and> array_less (qid_analyst b) (qid_analyst a) \<and>
     qid_number a > qid_number b"

definition QueryId_le :: "QueryId \<Rightarrow> QueryId \<Rightarrow> bool" where
  "QueryId_le a b \<longleftrightarrow> \<not> QueryId_gt a b"

definition QueryId_ge :: "QueryId \<Rightarrow> QueryId \<Rightarrow> bool" where
  "QueryId_ge a b \<longleftrightarrow> \<not> QueryId_lt a b"

definition QueryId_eq :: "QueryId \<Rightarrow> QueryId \<Rightarrow> bool" where
  "QueryId_eq a b \<longleftrightarrow> qid_study a = qid_study b \<and> qid_analyst a = qid_analyst b \<and> qid_number a = qid_number b"

definition QueryId_ne :: "QueryId \<Rightarrow> QueryId \<Rightarrow> bool" where
  "QueryId_ne a b \<longleftrightarrow> \<not> QueryId_eq a b"

text \<open>A \<open>std::map\<close> takes two keys for the same one when neither is less than the other.\<close>

definition same_key :: "QueryId \<Rightarrow> QueryId \<Rightarrow> bool" where
  "same_key a b \<longleftrightarrow> \<not> QueryId_lt a b \<and> \<not> QueryId_lt b a"

lemma same_key_study_or_analyst:
  "qid_study a = qid_study b \<or> qid_analyst a = qid_analyst b \<Longrightarrow> same_key a b"
  by (auto simp: same_key_def QueryId_lt_def array_less_irrefl)

lemma QueryId_lt_strict:
  "\<not> QueryId_lt a a" "QueryId_lt a b \<Longrightarrow> QueryId_lt b c \<Longrightarrow> QueryId_lt a c"
  by (auto simp: QueryId_lt_def array_less_irrefl intro: array_less_trans)

text \<open>Managers that keep what they receive and answer a first message to every organization.\<close>

definition example_lib :: "OutMsg list \<Rightarrow> InMsg list mgr_lib" where
  "example_lib outs = \<lparr>mgr_init = \<lambda>m. (m, outs), mgr_sync = \<lambda>im m. (m @ [im], []), mgr_payload = \<lambda>im m. (m @ [im], []),
     mgr_complete = \<lambda>im m. m, mgr_finished = \<lambda>m. False, mgr_closed = \<lambda>m. False, CTRLBLK_SYNC = 1,
     CTRLBLK_PAYLOAD = 2, CTRLBLK_COMPLETE = 3\<rparr>"

definition example_query :: "InMsg list QueryHandler" where
  "example_query = \<lparr>qh_org = [1], qh_peers = [[2] \<mapsto> []], qh_dealer = [], qh_recipient = [], qh_dataowner = [],
     initialized = False, messageCache = [arrived [2] (example_out [1] [5])]\<rparr>"

theorem early_messages_replayed_witness:
  "map_option qh_dealer (QueryHandler_init (example_lib [example_out [1] [8]]) example_query) =
     Some [arrived [2] (example_out [1] [5])] \<and>
   map_option qh_dataowner (QueryHandler_init (example_lib [example_out [1] [8]]) example_query) =
     Some (replicate 3 (self_msg (example_out [1] [8])))"
proof -
  let ?L = "example_lib [example_out [1] [8]]"
  have init: "init_managers ?L example_query = (example_query, replicate 3 (example_out [1] [8]))"
    by (simp add: init_managers_def example_lib_def example_query_def numeral_3_eq_3)
  have "\<not> initialized example_query" by (simp add: example_query_def)
  note eq = early_messages_replayed [OF this init]
  show ?thesis unfolding eq
    by (simp add: example_query_def example_lib_def to_self_def posted_def update_def dispatch_def handleSync_def
        chooseRole_def arrived_def self_msg_def example_out_def send_simps numeral_3_eq_3)
qed

theorem messages_reach_peer_witness:
  "\<exists>q' sent. sendOutgoingMessages (example_lib []) [example_out [3] [4], example_out [2] [5]] example_query = Some q' \<and>
     qh_peers q' [2] = Some sent \<and>
     result_of (fold (receive (query_app (example_lib []) False)) [take 3 sent, drop 3 sent]
       (Open (idle [1] (example_query\<lparr>initialized := True\<rparr>)))) =
     Some (example_query\<lparr>initialized := True, qh_dealer := [arrived [1] (example_out [2] [5])]\<rparr>, False)"
proof -
  let ?outs = "[example_out [3] [4], example_out [2] [5]]"
  have outs: "list_all (\<lambda>om. om_peer om \<noteq> qh_org example_query) ?outs" "list_all fits ?outs"
    by (simp_all add: example_out_def example_query_def fits_def)
  have sent: "sendOutgoingMessages (example_lib []) ?outs example_query = Some (posted ?outs example_query)"
    by (rule send_others [OF outs(1)])
  obtain sent' where bytes: "qh_peers (posted ?outs example_query) [2] = Some sent'"
    by (simp add: posted_def example_query_def)
  have "result_of (fold (receive (query_app (example_lib []) False)) [take 3 sent', drop 3 sent']
      (Open (idle [1] (example_query\<lparr>initialized := True\<rparr>)))) =
    handle_all (query_app (example_lib []) False) (example_query\<lparr>initialized := True\<rparr>)
      (map (arrived [1]) (filter (\<lambda>om. om_peer om = [2]) ?outs))"
    using messages_reach_peer [OF outs _ sent, of "[2]" "[take 3 sent', drop 3 sent']"
        "idle [1] (example_query\<lparr>initialized := True\<rparr>)" "example_lib []" False] bytes
    by (simp add: idle_def example_query_def)
  then show ?thesis using sent bytes
    by (simp add: query_app_def update_def dispatch_def handleSync_def chooseRole_def arrived_def example_out_def
        example_lib_def send_simps example_query_def condFinishEvent_def isClosed_def)
qed

end
