(* ===== verification/Connections.thy ===== *)
theory Connections
  imports Queries
begin

text \<open>
  How the connections of a query come about (\<open>network/NewConnectionHandler.cpp\<close>): the header a new
  connection starts with, the checks on it, the query handler it is attached to, the contacts each
  server makes, and when the query starts. TLS, sockets and the JSON of the query are parameters: the
  fingerprint of a connection's certificate, and whether the text of a query is an allowable one and
  which verticals it uses.
\<close>

subsection \<open>Studies\<close>

record Peer =
  organizationId :: dbuid_t
  p_role :: role_t
  p_vertical :: u64
  certificateFingerprint :: bytes

definition hasRole :: "role_t \<Rightarrow> Peer \<Rightarrow> bool" where
  "hasRole r p \<longleftrightarrow> p_role p AND r = r"

definition isAnalyst :: "Peer \<Rightarrow> bool" where
  "isAnalyst p \<longleftrightarrow> hasRole ROLE_ANALYST p"

definition isDataowner :: "Peer \<Rightarrow> bool" where
  "isDataowner p \<longleftrightarrow> hasRole ROLE_DATAOWNER p"

definition isDealer :: "Peer \<Rightarrow> bool" where
  "isDealer p \<longleftrightarrow> hasRole ROLE_DEALER p"

definition isRecipient :: "Peer \<Rightarrow> bool" where
  "isRecipient p \<longleftrightarrow> hasRole ROLE_RECIPIENT p"


text \<open>A \<open>std::map\<close> of peers by organization is the list of its entries in the order of the keys.\<close>

record Study =
  studyId :: dbuid_t
  st_peers :: "(dbuid_t \<times> Peer) list"

record 'm Query =
  q_id :: QueryId
  q_study :: Study
  q_proxy :: dbuid_t
  q_verticals :: "u64 list"
  q_handler :: "'m QueryHandler"

subsection \<open>The header of a connection\<close>

definition CONNHDR_CONST_DELIVERY :: u8 where "CONNHDR_CONST_DELIVERY = 0"
definition CONNHDR_CONST_DISTRIBUTION :: u8 where "CONNHDR_CONST_DISTRIBUTION = 1"
definition CONNHDR_CONST_GREETING :: u8 where "CONNHDR_CONST_GREETING = 2"
definition CONNHDR_CONST_UNINIT :: u8 where "CONNHDR_CONST_UNINIT = 3"

lemmas connhdr_defs = CONNHDR_CONST_DELIVERY_def CONNHDR_CONST_DISTRIBUTION_def CONNHDR_CONST_GREETING_def
  CONNHDR_CONST_UNINIT_def

record ConnHeader =
  ch_kind :: u8
  ch_query :: QueryId
  ch_sender :: dbuid_t
  ch_queryLen :: nat

datatype header_read = Waiting u8 bytes | BadConstant | Header ConnHeader bytes

text \<open>Step 1: the constant, read once more than one byte is there.\<close>

definition read_constant :: "u8 \<Rightarrow> bytes \<Rightarrow> header_read" where
  "read_constant hdr buf =
     (if hdr = CONNHDR_CONST_UNINIT \<and> length buf > 1 then
        (case read_int buf of
           None \<Rightarrow> BadConstant
         | Some (h, buf') \<Rightarrow>
             if h \<noteq> CONNHDR_CONST_DELIVERY \<and> h \<noteq> CONNHDR_CONST_DISTRIBUTION \<and> h \<noteq> CONNHDR_CONST_GREETING
             then BadConstant else Waiting h buf')
      else Waiting hdr buf)"

text \<open>Step 2: the length of the rest.\<close>

definition header_rest :: "u8 \<Rightarrow> nat" where
  "header_rest hdr =
     (if hdr = CONNHDR_CONST_DELIVERY then 16 * 2 + 4 + 8
      else if hdr = CONNHDR_CONST_DISTRIBUTION then 16 * 3 + 4 + 8
      else 16 * 3 + 8)"

text \<open>Step 3.\<close>

definition read_rest :: "u8 \<Rightarrow> ConnHeader reader" where
  "read_rest hdr buf =
     (case read_bytes 16 buf of None \<Rightarrow> None | Some (study, buf) \<Rightarrow>
     (case read_bytes 16 buf of None \<Rightarrow> None | Some (analyst, buf) \<Rightarrow>
     (case read_int buf of None \<Rightarrow> None | Some (n, buf) \<Rightarrow>
     (case (if hdr = CONNHDR_CONST_DELIVERY then Some (analyst, buf) else read_bytes 16 buf) of
        None \<Rightarrow> None | Some (sender, buf) \<Rightarrow>
     (case (if hdr = CONNHDR_CONST_GREETING then Some (0, buf) else read_int buf) of
        None \<Rightarrow> None | Some (len :: u32, buf) \<Rightarrow>
        Some (\<lparr>ch_kind = hdr, ch_query = \<lparr>qid_study = study, qid_analyst = analyst, qid_number = n\<rparr>,
               ch_sender = sender, ch_queryLen = unat len\<rparr>, buf))))))"

definition read_conn_header :: "u8 \<Rightarrow> bytes \<Rightarrow> header_read" where
  "read_conn_header hdr buf =
     (case read_constant hdr buf of
        Waiting h buf' \<Rightarrow>
          if h = CONNHDR_CONST_UNINIT \<or> length buf' < header_rest h then Waiting h buf'
          else (case read_rest h buf' of None \<Rightarrow> BadConstant | Some (H, buf'') \<Rightarrow> Header H buf'')
      | r \<Rightarrow> r)"

text \<open>What the senders write: \<open>sendConnectionToPeer\<close> and \<open>sendQueryToPeer\<close>.\<close>

definition greeting :: "QueryId \<Rightarrow> dbuid_t \<Rightarrow> bytes" where
  "greeting qid org = write_int CONNHDR_CONST_GREETING @ write_bytes (qid_study qid) @ write_bytes (qid_analyst qid) @
     write_int (qid_number qid) @ write_bytes org"

definition distribution :: "QueryId \<Rightarrow> dbuid_t \<Rightarrow> bytes \<Rightarrow> bytes" where
  "distribution qid org queryStr = write_int CONNHDR_CONST_DISTRIBUTION @ write_bytes (qid_study qid) @
     write_bytes (qid_analyst qid) @ write_int (qid_number qid) @ write_bytes org @ write_string queryStr"

definition ids_ok :: "QueryId \<Rightarrow> dbuid_t \<Rightarrow> bool" where
  "ids_ok qid org \<longleftrightarrow> length (qid_study qid) = 16 \<and> length (qid_analyst qid) = 16 \<and> length org = 16"

lemma read_rest_greeting:
  "ids_ok qid org \<Longrightarrow> read_rest CONNHDR_CONST_GREETING (write_bytes (qid_study qid) @ write_bytes (qid_analyst qid) @
     write_int (qid_number qid) @ write_bytes org @ ys) =
   Some (\<lparr>ch_kind = CONNHDR_CONST_GREETING, ch_query = qid, ch_sender = org, ch_queryLen = 0\<rparr>, ys)"
  by (simp add: read_rest_def read_bytes_def write_bytes_def ids_ok_def be64.rd_wr connhdr_defs)

lemma read_rest_distribution:
  "ids_ok qid org \<Longrightarrow> read_rest CONNHDR_CONST_DISTRIBUTION (write_bytes (qid_study qid) @ write_bytes (qid_analyst qid) @
     write_int (qid_number qid) @ write_bytes org @ write_int (len :: u32) @ ys) =
   Some (\<lparr>ch_kind = CONNHDR_CONST_DISTRIBUTION, ch_query = qid, ch_sender = org, ch_queryLen = unat len\<rparr>, ys)"
  by (simp add: read_rest_def read_bytes_def write_bytes_def ids_ok_def be64.rd_wr be32.rd_wr connhdr_defs)

lemma read_conn_header_greeting:
  assumes "ids_ok qid org"
  shows "read_conn_header CONNHDR_CONST_UNINIT (greeting qid org @ ys) =
    Header \<lparr>ch_kind = CONNHDR_CONST_GREETING, ch_query = qid, ch_sender = org, ch_queryLen = 0\<rparr> ys"
proof -
  let ?rest = "write_bytes (qid_study qid) @ write_bytes (qid_analyst qid) @ write_int (qid_number qid) @ write_bytes org @ ys"
  have "read_constant CONNHDR_CONST_UNINIT (greeting qid org @ ys) = Waiting CONNHDR_CONST_GREETING ?rest"
    using assms by (simp add: read_constant_def greeting_def be8.rd_wr ids_ok_def write_bytes_def connhdr_defs)
  moreover have "header_rest CONNHDR_CONST_GREETING \<le> length ?rest" "CONNHDR_CONST_GREETING \<noteq> CONNHDR_CONST_UNINIT"
    using assms by (simp_all add: header_rest_def ids_ok_def write_bytes_def connhdr_defs)
  ultimately show ?thesis using read_rest_greeting [OF assms, of ys] by (simp add: read_conn_header_def)
qed

lemma read_conn_header_distribution:
  assumes "ids_ok qid org" "length text < 2 ^ 32"
  shows "read_conn_header CONNHDR_CONST_UNINIT (distribution qid org text @ ys) =
    Header \<lparr>ch_kind = CONNHDR_CONST_DISTRIBUTION, ch_query = qid, ch_sender = org, ch_queryLen = length text\<rparr> (text @ ys)"
proof -
  let ?len = "of_nat (length text) :: u32"
  let ?rest = "write_bytes (qid_study qid) @ write_bytes (qid_analyst qid) @ write_int (qid_number qid) @ write_bytes org @
    write_int ?len @ text @ ys"
  have "read_constant CONNHDR_CONST_UNINIT (distribution qid org text @ ys) = Waiting CONNHDR_CONST_DISTRIBUTION ?rest"
    using assms by (simp add: read_constant_def distribution_def be8.rd_wr ids_ok_def write_bytes_def write_string_def connhdr_defs)
  moreover have "header_rest CONNHDR_CONST_DISTRIBUTION \<le> length ?rest" "CONNHDR_CONST_DISTRIBUTION \<noteq> CONNHDR_CONST_UNINIT"
    using assms by (simp_all add: header_rest_def ids_ok_def write_bytes_def connhdr_defs)
  moreover have "unat ?len = length text" using assms(2) by (simp add: unat_of_nat)
  ultimately show ?thesis using read_rest_distribution [OF assms(1), of ?len "text @ ys"] by (simp add: read_conn_header_def)
qed

subsection \<open>Fragmentation of the header\<close>

fun conn_arrive :: "bytes \<Rightarrow> header_read \<Rightarrow> header_read" where
  "conn_arrive ys (Waiting h buf) = read_conn_header h (buf @ ys)"
| "conn_arrive ys (Header H buf) = Header H (buf @ ys)"
| "conn_arrive ys BadConstant = BadConstant"

lemma read_bytes_append: "read_bytes n buf = Some (xs, ys) \<Longrightarrow> read_bytes n (buf @ zs) = Some (xs, ys @ zs)"
  by (auto simp: read_bytes_def evb_remove_def split: if_splits)

lemma read_rest_append: "read_rest h buf = Some (H, ys) \<Longrightarrow> read_rest h (buf @ zs) = Some (H, ys @ zs)"
  by (auto simp: read_rest_def read_bytes_append read_int_append split: option.splits prod.splits if_splits)

definition known_kind :: "u8 \<Rightarrow> bool" where
  "known_kind h \<longleftrightarrow> h = CONNHDR_CONST_DELIVERY \<or> h = CONNHDR_CONST_DISTRIBUTION \<or> h = CONNHDR_CONST_GREETING"

lemma read_rest_Some:
  assumes kind: "known_kind h" and len: "header_rest h \<le> length buf"
  shows "read_rest h buf \<noteq> None"
proof -
  have bytes: "read_bytes 16 (drop k buf) = Some (take 16 (drop k buf), drop (k + 16) buf)" if "k + 16 \<le> length buf" for k
    using that by (simp add: read_bytes_def evb_remove_def add.commute)
  from len have *: "40 \<le> length buf" by (simp add: header_rest_def split: if_splits)
  obtain n :: u64 where n: "read_int (drop 32 buf) = Some (n, drop (32 + 8) buf)"
    using read_int_at [where k = 32 and buf = buf and ?'a = 64] * by auto
  have head: "read_bytes 16 buf = Some (take 16 buf, drop 16 buf)"
    "read_bytes 16 (drop 16 buf) = Some (take 16 (drop 16 buf), drop 32 buf)"
    using bytes [of 0] bytes [of 16] * by simp_all
  consider "h = CONNHDR_CONST_DELIVERY" | "h = CONNHDR_CONST_GREETING" | "h = CONNHDR_CONST_DISTRIBUTION"
    using kind by (auto simp: known_kind_def)
  then show ?thesis
  proof cases
    case 1
    then have "44 \<le> length buf" using len by (simp add: header_rest_def)
    then obtain l :: u32 where "read_int (drop 40 buf) = Some (l, drop (40 + 4) buf)"
      using read_int_at [where k = 40 and buf = buf and ?'a = 32] by auto
    then show ?thesis using head n 1 by (simp add: read_rest_def connhdr_defs)
  next
    case 2
    then have "56 \<le> length buf" using len by (simp add: header_rest_def connhdr_defs)
    then show ?thesis using head n bytes [of 40] 2 by (simp add: read_rest_def connhdr_defs)
  next
    case 3
    then have "60 \<le> length buf" using len by (simp add: header_rest_def connhdr_defs)
    then have s: "read_bytes 16 (drop 40 buf) = Some (take 16 (drop 40 buf), drop 56 buf)" using bytes [of 40] by simp
    obtain l :: u32 where "read_int (drop 56 buf) = Some (l, drop (56 + 4) buf)"
      using read_int_at [where k = 56 and buf = buf and ?'a = 32] \<open>60 \<le> length buf\<close> by auto
    then show ?thesis using head n s 3 by (simp add: read_rest_def connhdr_defs)
  qed
qed

lemma read_conn_header_split:
  assumes "hdr = CONNHDR_CONST_UNINIT \<or> known_kind hdr"
  shows "read_conn_header hdr (xs @ ys) = conn_arrive ys (read_conn_header hdr xs)"
proof -
  have uninit: "\<not> known_kind CONNHDR_CONST_UNINIT" by (simp add: known_kind_def connhdr_defs)
  have known: "read_conn_header h (zs @ ys) = conn_arrive ys (read_conn_header h zs)" if h: "known_kind h" for h zs
  proof -
    have "h \<noteq> CONNHDR_CONST_UNINIT" using h uninit by metis
    then have const: "read_constant h buf = Waiting h buf" for buf by (simp add: read_constant_def)
    show ?thesis
    proof (cases "length zs < header_rest h")
      case True
      then show ?thesis by (simp add: read_conn_header_def [of h zs] const \<open>h \<noteq> CONNHDR_CONST_UNINIT\<close>)
    next
      case False
      then obtain H buf where "read_rest h zs = Some (H, buf)" using read_rest_Some [OF h, of zs] by (cases "read_rest h zs") auto
      then show ?thesis using False read_rest_append [of h zs H buf ys]
        by (simp add: read_conn_header_def const \<open>h \<noteq> CONNHDR_CONST_UNINIT\<close>)
    qed
  qed
  show ?thesis
  proof (cases "hdr = CONNHDR_CONST_UNINIT \<and> length xs > 1")
    case True
    then obtain h buf where h: "read_int xs = Some (h :: u8, buf)"
      using read_int_at [where k = 0 and buf = xs and ?'a = 8] by auto
    note h' = read_int_append [OF h, of ys]
    show ?thesis
    proof (cases "known_kind h")
      case k: True
      then have "h \<noteq> CONNHDR_CONST_UNINIT" using uninit by metis
      then have "read_conn_header hdr (xs @ ys) = read_conn_header h (buf @ ys)" "read_conn_header hdr xs = read_conn_header h buf"
        using True h h' k by (auto simp: read_conn_header_def read_constant_def known_kind_def)
      then show ?thesis using known [OF k] by simp
    next
      case False
      then show ?thesis using True h h' by (auto simp: read_conn_header_def read_constant_def known_kind_def)
    qed
  next
    case False
    show ?thesis
    proof (cases "hdr = CONNHDR_CONST_UNINIT")
      case True
      then have "read_conn_header hdr xs = Waiting hdr xs"
        using False by (simp add: read_conn_header_def read_constant_def)
      then show ?thesis by simp
    next
      case k: False
      then show ?thesis using known assms by blast
    qed
  qed
qed

definition conn_hdr_ok :: "header_read \<Rightarrow> bool" where
  "conn_hdr_ok r \<longleftrightarrow> (case r of Waiting h buf \<Rightarrow> h = CONNHDR_CONST_UNINIT \<or> known_kind h | _ \<Rightarrow> True)"

lemma read_conn_header_ok: "hdr = CONNHDR_CONST_UNINIT \<or> known_kind hdr \<Longrightarrow> conn_hdr_ok (read_conn_header hdr buf)"
  by (auto simp: read_conn_header_def read_constant_def conn_hdr_ok_def known_kind_def split: option.splits header_read.splits)

lemma fold_conn_arrive:
  "fold conn_arrive chunks (Waiting CONNHDR_CONST_UNINIT []) = read_conn_header CONNHDR_CONST_UNINIT (concat chunks)"
proof (induction chunks rule: rev_induct)
  case Nil
  then show ?case by (simp add: read_conn_header_def read_constant_def)
next
  case (snoc ys chunks)
  then show ?case using read_conn_header_split [of CONNHDR_CONST_UNINIT "concat chunks" ys] by simp
qed

text \<open>
  The header a server opens a connection with is the header the other server reads. However its
  bytes are split on the way, a greeting is read as a greeting of the same query and sender, a
  distribution as a distribution whose length is that of the query text that follows, and the bytes
  after the header are left for what comes next.
\<close>

theorem connection_headers_read:
  assumes "ids_ok qid org" "length text < 2 ^ 32"
    and "concat chunks = greeting qid org @ ys" "concat chunks' = distribution qid org text @ ys"
  shows "fold conn_arrive chunks (Waiting CONNHDR_CONST_UNINIT []) =
      Header \<lparr>ch_kind = CONNHDR_CONST_GREETING, ch_query = qid, ch_sender = org, ch_queryLen = 0\<rparr> ys \<and>
    fold conn_arrive chunks' (Waiting CONNHDR_CONST_UNINIT []) =
      Header \<lparr>ch_kind = CONNHDR_CONST_DISTRIBUTION, ch_query = qid, ch_sender = org, ch_queryLen = length text\<rparr>
        (text @ ys)"
  using read_conn_header_greeting [OF assms(1), of ys] read_conn_header_distribution [OF assms(1,2), of ys]
  by (simp add: fold_conn_arrive assms(3,4))

definition example_qid :: QueryId where
  "example_qid = \<lparr>qid_study = replicate 16 1, qid_analyst = replicate 16 2, qid_number = 5\<rparr>"

theorem connection_headers_read_witness:
  "fold conn_arrive [take 1 (greeting example_qid (replicate 16 3)), drop 1 (greeting example_qid (replicate 16 3)) @ [4]]
     (Waiting CONNHDR_CONST_UNINIT []) =
   Header \<lparr>ch_kind = CONNHDR_CONST_GREETING, ch_query = example_qid, ch_sender = replicate 16 3, ch_queryLen = 0\<rparr> [4]"
proof -
  have ids: "ids_ok example_qid (replicate 16 3)" by (simp add: ids_ok_def example_qid_def)
  show ?thesis
    using connection_headers_read [OF ids, of "[]"
        "[take 1 (greeting example_qid (replicate 16 3)), drop 1 (greeting example_qid (replicate 16 3)) @ [4]]" "[4]"
        "[distribution example_qid (replicate 16 3) [] @ [4]]"] by simp
qed

subsection \<open>Attaching a connection to a query\<close>

record 'm Server =
  s_org :: dbuid_t
  s_studies :: "(dbuid_t \<times> Study) list"
  s_queries :: "(QueryId \<times> 'm Query) list"

text \<open>
  The map of queries: the first entry whose key the order of \<open>QueryId\<close> does not tell from the sought
  one. This is what a search tree finds as long as its keys and the sought one are all alike or all
  ordered, as for the queries of one analyst.
\<close>

definition find_query :: "QueryId \<Rightarrow> (QueryId \<times> 'm Query) list \<Rightarrow> (QueryId \<times> 'm Query) option" where
  "find_query qid qs = find (\<lambda>(k, Q). same_key k qid) qs"

fun set_query :: "QueryId \<Rightarrow> 'm Query \<Rightarrow> (QueryId \<times> 'm Query) list \<Rightarrow> (QueryId \<times> 'm Query) list" where
  "set_query qid Q [] = [(qid, Q)]"
| "set_query qid Q ((k, R) # qs) = (if same_key k qid then (k, Q) # qs else (k, R) # set_query qid Q qs)"

definition erase_query :: "QueryId \<Rightarrow> (QueryId \<times> 'm Query) list \<Rightarrow> (QueryId \<times> 'm Query) list" where
  "erase_query qid qs = filter (\<lambda>(k, Q). \<not> same_key k qid) qs"

text \<open>A connected organization and the vertical of a query it owns data of.\<close>

definition connected :: "'m QueryHandler \<Rightarrow> Peer \<Rightarrow> bool" where
  "connected h p \<longleftrightarrow> qh_peers h (organizationId p) \<noteq> None"

definition peer_waits :: "'m Query \<Rightarrow> 'm QueryHandler \<Rightarrow> Peer \<Rightarrow> bool" where
  "peer_waits Q h p \<longleftrightarrow> organizationId p \<noteq> qh_org h \<and> \<not> connected h p \<and>
     (isRecipient p \<or> isDealer p \<or> (isDataowner p \<and> list_ex (\<lambda>v. p_vertical p = v) (q_verticals Q)))"

definition queryReady :: "'m mgr_lib \<Rightarrow> 'm Query \<Rightarrow> 'm QueryHandler \<Rightarrow> 'm QueryHandler option" where
  "queryReady L Q h = (if list_ex (\<lambda>(k, p). peer_waits Q h p) (st_peers (q_study Q)) then Some h else QueryHandler_init L h)"

datatype 'm attached = Duplicate | Attached "'m QueryHandler read_result" | Hangs

definition changeToEventHandlerCallback ::
  "'m mgr_lib \<Rightarrow> bool \<Rightarrow> bytes \<Rightarrow> dbuid_t \<Rightarrow> 'm Query \<Rightarrow> 'm attached" where
  "changeToEventHandlerCallback L testsDone buf sender Q =
     (let h = q_handler Q
      in if qh_peers h sender \<noteq> None then Duplicate
         else (case queryReady L Q (h\<lparr>qh_peers := (qh_peers h)(sender \<mapsto> [])\<rparr>) of
             None \<Rightarrow> Hangs
           | Some h' \<Rightarrow>
               let c = (idle sender h')\<lparr>in_buf := buf\<rparr>
               in Attached (if length buf > 0 then readEventHandler (query_app L testsDone) c else Open c)))"

subsection \<open>A new connection\<close>

datatype verdict = IllegalStudy | ThrowsOutOfRange | IllegalAnalyst | UnknownPeer | WrongCertificate | Accepted Study

text \<open>Steps 4 and 5, in the order of the code; \<open>peers.at\<close> throws on an unknown analyst.\<close>

definition check_connection :: "'m Server \<Rightarrow> bytes \<Rightarrow> ConnHeader \<Rightarrow> verdict" where
  "check_connection S fingerprint H =
     (case map_of (s_studies S) (qid_study (ch_query H)) of
        None \<Rightarrow> IllegalStudy
      | Some study \<Rightarrow>
          (case map_of (st_peers study) (qid_analyst (ch_query H)) of
             None \<Rightarrow> ThrowsOutOfRange
           | Some analyst \<Rightarrow>
               if \<not> isAnalyst analyst then IllegalAnalyst
               else (case map_of (st_peers study) (ch_sender H) of
                   None \<Rightarrow> UnknownPeer
                 | Some peer \<Rightarrow>
                     if certificateFingerprint peer \<noteq> fingerprint then WrongCertificate else Accepted study)))"

text \<open>Step 6.\<close>

definition new_query :: "'m \<Rightarrow> 'm Server \<Rightarrow> Study \<Rightarrow> QueryId \<Rightarrow> 'm Query" where
  "new_query m S study qid = \<lparr>q_id = qid, q_study = study, q_proxy = [], q_verticals = [],
     q_handler = \<lparr>qh_org = s_org S, qh_peers = Map.empty, qh_dealer = m, qh_recipient = m, qh_dataowner = m,
       initialized = False, messageCache = []\<rparr>\<rparr>"

definition assure_query :: "'m \<Rightarrow> 'm Server \<Rightarrow> Study \<Rightarrow> ConnHeader \<Rightarrow> 'm Query" where
  "assure_query m S study H =
     (let Q = (case find_query (ch_query H) (s_queries S) of Some (k, Q) \<Rightarrow> Q | None \<Rightarrow> new_query m S study (ch_query H))
      in if ch_kind H = CONNHDR_CONST_DELIVERY then Q\<lparr>q_proxy := s_org S\<rparr>
         else if ch_kind H = CONNHDR_CONST_DISTRIBUTION then Q\<lparr>q_proxy := ch_sender H\<rparr>
         else Q)"

text \<open>The state of a reader of the text of a query.\<close>

record ReadQuery =
  rq_query :: QueryId
  rq_length :: nat
  rq_sendQueries :: bool
  rq_sender :: dbuid_t

datatype 'm conn_result =
    NeedMore u8 bytes
  | Freed
  | Throws
  | AwaitQuery "'m Server" ReadQuery bytes
  | Joined "'m Server" QueryId dbuid_t "'m attached"

definition readConnectionHeaderHandler ::
  "'m mgr_lib \<Rightarrow> 'm \<Rightarrow> bool \<Rightarrow> bytes \<Rightarrow> u8 \<Rightarrow> bytes \<Rightarrow> 'm Server \<Rightarrow> 'm conn_result" where
  "readConnectionHeaderHandler L m testsDone fingerprint hdr buf S =
     (case read_conn_header hdr buf of
        Waiting h buf \<Rightarrow> NeedMore h buf
      | BadConstant \<Rightarrow> Freed
      | Header H buf \<Rightarrow>
          (case check_connection S fingerprint H of
             Accepted study \<Rightarrow>
               let Q = assure_query m S study H; S' = S\<lparr>s_queries := set_query (ch_query H) Q (s_queries S)\<rparr>
               in if ch_kind H = CONNHDR_CONST_DELIVERY \<or> ch_kind H = CONNHDR_CONST_DISTRIBUTION then
                    AwaitQuery S' \<lparr>rq_query = q_id Q, rq_length = ch_queryLen H,
                      rq_sendQueries = (ch_kind H = CONNHDR_CONST_DELIVERY), rq_sender = ch_sender H\<rparr> buf
                  else Joined S' (q_id Q) (ch_sender H) (changeToEventHandlerCallback L testsDone buf (ch_sender H) Q)
           | ThrowsOutOfRange \<Rightarrow> Throws
           | _ \<Rightarrow> Freed))"

subsection \<open>Contacts\<close>

text \<open>One entry for each connection a server opens: once as a recipient, once for every vertical of the
  query the peer owns.\<close>

definition peer_contacts :: "u64 list \<Rightarrow> Peer \<Rightarrow> Peer list" where
  "peer_contacts verticals p =
     (if isRecipient p then [p] else []) @
     (if isDataowner p then map (\<lambda>v. p) (filter (\<lambda>v. v = p_vertical p) verticals) else [])"

definition sendConnectionsToPeers :: "'m Query \<Rightarrow> Peer list" where
  "sendConnectionsToPeers Q = concat (map (\<lambda>(peerId, p).
     if array_less (qh_org (q_handler Q)) peerId then peer_contacts (q_verticals Q) p else []) (st_peers (q_study Q)))"

definition sendQueryToPeers :: "'m Query \<Rightarrow> Peer list" where
  "sendQueryToPeers Q = concat (map (\<lambda>(peerId, p).
     if peerId \<noteq> qh_org (q_handler Q) then peer_contacts (q_verticals Q) p else []) (st_peers (q_study Q)))"

text \<open>The bytes written to each contact.\<close>

definition contact_bytes :: "bool \<Rightarrow> bytes \<Rightarrow> 'm Query \<Rightarrow> (dbuid_t \<times> bytes) list" where
  "contact_bytes sendQueries text Q =
     (if sendQueries
      then map (\<lambda>p. (organizationId p, distribution \<lparr>qid_study = studyId (q_study Q), qid_analyst = qid_analyst (q_id Q),
             qid_number = qid_number (q_id Q)\<rparr> (qh_org (q_handler Q)) text)) (sendQueryToPeers Q)
      else map (\<lambda>p. (organizationId p, greeting \<lparr>qid_study = studyId (q_study Q), qid_analyst = qid_analyst (q_id Q),
             qid_number = qid_number (q_id Q)\<rparr> (qh_org (q_handler Q)))) (sendConnectionsToPeers Q))"

text \<open>The text of a query: \<open>parse\<close> gives its verticals when it is a valid query the study allows. A
  contact that is connected already makes \<open>init_connection\<close> throw.\<close>

datatype 'm query_result =
    QueryNeedMore bytes
  | QueryErased "'m Server"
  | QueryThrows
  | QueryRead "'m Server" "(dbuid_t \<times> bytes) list" "'m attached option"

definition readQueryJsonHandler ::
  "'m mgr_lib \<Rightarrow> (bytes \<Rightarrow> u64 list option) \<Rightarrow> bool \<Rightarrow> ReadQuery \<Rightarrow> bytes \<Rightarrow> 'm Query \<Rightarrow> 'm Server \<Rightarrow> 'm query_result" where
  "readQueryJsonHandler L parse testsDone rq buf Q S =
     (case evb_remove (rq_length rq) buf of
        None \<Rightarrow> QueryNeedMore buf
      | Some (text, buf') \<Rightarrow>
          (case parse text of
             None \<Rightarrow> QueryErased (S\<lparr>s_queries := erase_query (q_id Q) (s_queries S)\<rparr>)
           | Some verticals \<Rightarrow>
               let Q = Q\<lparr>q_verticals := verticals\<rparr>;
                   S = S\<lparr>s_queries := set_query (q_id Q) Q (s_queries S)\<rparr>;
                   contacts = contact_bytes (rq_sendQueries rq) text Q
               in if list_ex (\<lambda>(org, bs). qh_peers (q_handler Q) org \<noteq> None) contacts then QueryThrows
                  else QueryRead S contacts
                    (if rq_sendQueries rq then None
                     else Some (changeToEventHandlerCallback L testsDone buf' (rq_sender rq) Q))))"

text \<open>The callbacks of connections that fail before they belong to a query only write to the log.\<close>

definition readConnectionHeaderError :: "bev_events \<Rightarrow> conn_log" where
  "readConnectionHeaderError ev = fst (eventHandlerError ev False)"

definition readQueryJsonError :: "bev_events \<Rightarrow> 'm Query \<Rightarrow> dbuid_t \<times> conn_log" where
  "readQueryJsonError ev Q =
     (if q_proxy Q = qh_org (q_handler Q) then qid_analyst (q_id Q) else q_proxy Q, fst (eventHandlerError ev False))"

text \<open>The callback of a contact's connection: whatever the event was, it goes on to the checks.\<close>

definition sendConnectionError ::
  "'m mgr_lib \<Rightarrow> bool \<Rightarrow> bev_events \<Rightarrow> bytes \<Rightarrow> dbuid_t \<Rightarrow> bytes \<Rightarrow> 'm Query \<Rightarrow> conn_log \<times> 'm attached option" where
  "sendConnectionError L testsDone ev fingerprint sender buf Q =
     (fst (eventHandlerError ev False),
      (case map_of (st_peers (q_study Q)) sender of
         None \<Rightarrow> None
       | Some peer \<Rightarrow>
           if certificateFingerprint peer \<noteq> fingerprint then None
           else Some (changeToEventHandlerCallback L testsDone buf sender Q)))"

subsection \<open>When a query starts\<close>

definition takes_part :: "'m Query \<Rightarrow> Peer \<Rightarrow> bool" where
  "takes_part Q p \<longleftrightarrow> isRecipient p \<or> (isDataowner p \<and> p_vertical p \<in> set (q_verticals Q))"

definition required_orgs :: "'m Query \<Rightarrow> dbuid_t \<Rightarrow> dbuid_t list" where
  "required_orgs Q org = map organizationId (filter (\<lambda>p. organizationId p \<noteq> org \<and> (takes_part Q p \<or> isDealer p))
     (map snd (st_peers (q_study Q))))"

definition connected_orgs :: "'m QueryHandler \<Rightarrow> dbuid_t set" where
  "connected_orgs h = dom (qh_peers h)"

lemma set_map_filter_subset:
  "set (map f (filter P (map g xs))) \<subseteq> D \<longleftrightarrow> list_all (\<lambda>x. P (g x) \<longrightarrow> f (g x) \<in> D) xs"
  by (induction xs) auto

lemma waits_iff:
  "list_ex (\<lambda>(k, p). peer_waits Q h p) (st_peers (q_study Q)) \<longleftrightarrow> \<not> set (required_orgs Q (qh_org h)) \<subseteq> connected_orgs h"
proof -
  have "peer_waits Q h p \<longleftrightarrow> \<not> (organizationId p \<noteq> qh_org h \<and> (takes_part Q p \<or> isDealer p) \<longrightarrow>
      organizationId p \<in> connected_orgs h)" for p
    by (auto simp: peer_waits_def connected_def takes_part_def connected_orgs_def list_ex_iff)
  then show ?thesis
    unfolding required_orgs_def set_map_filter_subset by (simp add: list_ex_iff list_all_iff case_prod_unfold)
qed

lemma queryReady_iff:
  "queryReady L Q h = (if set (required_orgs Q (qh_org h)) \<subseteq> connected_orgs h then QueryHandler_init L h else Some h)"
  unfolding queryReady_def waits_iff by simp

text \<open>Organizations connect one after the other, none having sent anything yet; the handler after the last of them.\<close>

fun connect_all :: "'m mgr_lib \<Rightarrow> bool \<Rightarrow> 'm Query \<Rightarrow> dbuid_t list \<Rightarrow> 'm QueryHandler \<Rightarrow> 'm QueryHandler option" where
  "connect_all L testsDone Q [] h = Some h"
| "connect_all L testsDone Q (s # ss) h =
     (case changeToEventHandlerCallback L testsDone [] s (Q\<lparr>q_handler := h\<rparr>) of
        Attached (Open c) \<Rightarrow> connect_all L testsDone Q ss (handler c)
      | _ \<Rightarrow> None)"

definition with_peers :: "dbuid_t list \<Rightarrow> 'm QueryHandler \<Rightarrow> 'm QueryHandler" where
  "with_peers ss h = h\<lparr>qh_peers := fold (\<lambda>s m. m(s \<mapsto> [])) ss (qh_peers h)\<rparr>"

lemma dom_with_peers: "connected_orgs (with_peers ss h) = connected_orgs h \<union> set ss"
proof -
  have "dom (fold (\<lambda>s m. m(s \<mapsto> [])) ss m) = dom m \<union> set ss" for m :: "dbuid_t \<Rightarrow> bytes option"
    by (induction ss arbitrary: m) auto
  then show ?thesis by (simp add: with_peers_def connected_orgs_def)
qed

lemma with_peers_simps:
  "with_peers [] h = h" "with_peers ss (with_peers [s] h) = with_peers (s # ss) h" "qh_org (with_peers ss h) = qh_org h"
  "h\<lparr>qh_peers := (qh_peers h)(s \<mapsto> [])\<rparr> = with_peers [s] h"
  by (simp_all add: with_peers_def)

lemma required_orgs_handler [simp]: "required_orgs (Q\<lparr>q_handler := h\<rparr>) = required_orgs Q"
  by (simp add: required_orgs_def takes_part_def fun_eq_iff)

text \<open>One connection: it is refused, or it is only noted, or the query is set up.\<close>

lemma connect_one:
  "connect_all L testsDone Q [s] h =
     (if s \<in> connected_orgs h then None
      else if set (required_orgs Q (qh_org h)) \<subseteq> insert s (connected_orgs h) then QueryHandler_init L (with_peers [s] h)
      else Some (with_peers [s] h))"
  using dom_with_peers [of "[s]" h]
  by (auto simp: changeToEventHandlerCallback_def Let_def with_peers_simps queryReady_iff connected_orgs_def idle_def split: option.splits)

lemma connect_all_append:
  "connect_all L testsDone Q (ss @ ts) h = Option.bind (connect_all L testsDone Q ss h) (connect_all L testsDone Q ts)"
  by (induction ss arbitrary: h) (auto split: attached.splits read_result.splits)

lemma connect_waiting:
  "\<not> set (required_orgs Q (qh_org h)) \<subseteq> connected_orgs h \<union> set ss \<Longrightarrow> distinct ss \<Longrightarrow> set ss \<inter> connected_orgs h = {} \<Longrightarrow>
   connect_all L testsDone Q ss h = Some (with_peers ss h)"
proof (induction ss rule: rev_induct)
  case Nil
  then show ?case by (simp add: with_peers_simps)
next
  case (snoc s ss)
  let ?h = "with_peers ss h"
  have "connect_all L testsDone Q ss h = Some ?h" using snoc by auto
  moreover have "connect_all L testsDone Q [s] ?h = Some (with_peers [s] ?h)"
    unfolding connect_one dom_with_peers using snoc.prems by (auto simp: with_peers_simps)
  moreover have "with_peers [s] ?h = with_peers (ss @ [s]) h" by (simp add: with_peers_def)
  ultimately show ?case by (simp add: connect_all_append)
qed

text \<open>
  C17: A query starts with everyone, and not before. The organizations a query needs (the dealers, the recipients and the
  dataowners of its verticals) connect to a server, each once and in any order, before they send anything. Until the last of
  them has connected the server only notes the connections, and its protocol managers stay as they were made; with the last
  one it sets the query up on the handler that has all the connections. A second connection of any of them is refused.
\<close>

theorem starts_with_last_connection:
  assumes "qh_peers h = Map.empty" "distinct ss" "ss \<noteq> []" "set ss = set (required_orgs Q (qh_org h))"
  shows "(\<forall>i < length ss. connect_all L testsDone Q (take i ss) h = Some (with_peers (take i ss) h)) \<and>
    connect_all L testsDone Q ss h = QueryHandler_init L (with_peers ss h) \<and>
    (\<forall>h' s. connect_all L testsDone Q ss h = Some h' \<longrightarrow> s \<in> set ss \<longrightarrow>
      changeToEventHandlerCallback L testsDone buf s (Q\<lparr>q_handler := h'\<rparr>) = Duplicate)"
proof (intro conjI allI impI)
  have none: "connected_orgs h = {}" using assms(1) by (simp add: connected_orgs_def)
  have part: "\<not> set ss \<subseteq> set (take i ss)" if "i < length ss" for i
  proof
    assume "set ss \<subseteq> set (take i ss)"
    then have "card (set ss) \<le> card (set (take i ss))" by (intro card_mono) simp_all
    then show False using that assms(2) by (simp add: distinct_card)
  qed
  show early: "connect_all L testsDone Q (take i ss) h = Some (with_peers (take i ss) h)" if "i < length ss" for i
    using part [OF that] assms(2,4) none by (intro connect_waiting) simp_all
  obtain ts s where ss: "ss = ts @ [s]" using assms(3) by (cases ss rule: rev_cases) simp_all
  have "connect_all L testsDone Q ts h = Some (with_peers ts h)" using early [of "length ts"] ss by simp
  moreover have "connect_all L testsDone Q [s] (with_peers ts h) = QueryHandler_init L (with_peers [s] (with_peers ts h))"
    unfolding connect_one dom_with_peers using assms(2,4) none ss by (simp add: with_peers_simps)
  moreover have "with_peers [s] (with_peers ts h) = with_peers ss h" by (simp add: with_peers_def ss)
  ultimately show last: "connect_all L testsDone Q ss h = QueryHandler_init L (with_peers ss h)"
    by (simp add: ss connect_all_append)
  fix h' s assume "connect_all L testsDone Q ss h = Some h'" "s \<in> set ss"
  then have "s \<in> dom (qh_peers h')" using last init_wiring [of L "with_peers ss h" h'] dom_with_peers [of ss h] none
    by (simp add: connected_orgs_def)
  then show "changeToEventHandlerCallback L testsDone buf s (Q\<lparr>q_handler := h'\<rparr>) = Duplicate"
    by (auto simp: changeToEventHandlerCallback_def Let_def)
qed

text \<open>Nothing remembers that the query has been set up: each later connection of another organization sets it up again.\<close>

lemma later_connection_starts_again:
  assumes "set (required_orgs Q (qh_org h)) \<subseteq> connected_orgs h" "s \<notin> connected_orgs h"
  shows "connect_all L testsDone Q [s] h = QueryHandler_init L (with_peers [s] h)"
  using assms unfolding connect_one by auto

subsection \<open>Who contacts whom\<close>

lemma peer_contacts_set: "q \<in> set (peer_contacts vs p) \<longleftrightarrow> q = p \<and> (isRecipient p \<or> (isDataowner p \<and> p_vertical p \<in> set vs))"
  by (auto simp: peer_contacts_def)

lemma set_contacts:
  "p \<in> set (concat (map (\<lambda>(k, p). if c k then peer_contacts vs p else []) ps)) \<longleftrightarrow>
   (isRecipient p \<or> (isDataowner p \<and> p_vertical p \<in> set vs)) \<and> list_ex (\<lambda>(k, q). c k \<and> q = p) ps"
  by (induction ps) (auto simp: peer_contacts_set)

lemma contacts_iff:
  assumes "(k, p) \<in> set (st_peers (q_study Q))" "list_all (\<lambda>(k, p). k = organizationId p) (st_peers (q_study Q))"
  shows "p \<in> set (sendConnectionsToPeers Q) \<longleftrightarrow> array_less (qh_org (q_handler Q)) k \<and> takes_part Q p"
    and "p \<in> set (sendQueryToPeers Q) \<longleftrightarrow> k \<noteq> qh_org (q_handler Q) \<and> takes_part Q p"
proof -
  have uniq: "j = k" if "(j, p) \<in> set (st_peers (q_study Q))" for j
  proof -
    have "i = organizationId p" if "(i, p) \<in> set (st_peers (q_study Q))" for i
      using bspec [OF assms(2) [unfolded list_all_iff] that] by simp
    then show ?thesis using assms(1) that by metis
  qed
  have key: "list_ex (\<lambda>(j, q). c j \<and> q = p) (st_peers (q_study Q)) \<longleftrightarrow> c k" for c
    using assms(1) by (auto simp: list_ex_iff dest: uniq)
  show "p \<in> set (sendConnectionsToPeers Q) \<longleftrightarrow> array_less (qh_org (q_handler Q)) k \<and> takes_part Q p"
    "p \<in> set (sendQueryToPeers Q) \<longleftrightarrow> k \<noteq> qh_org (q_handler Q) \<and> takes_part Q p"
    unfolding sendConnectionsToPeers_def sendQueryToPeers_def set_contacts key takes_part_def by auto
qed

text \<open>
  C19: Every two servers that take part in a query are connected from exactly one side: of two servers
  that are not the proxy of the analyst, exactly one greets the other, and the proxy sends the query to
  every server that takes part. The proxy is spared a greeting only by the servers of greater
  identifiers: each server of a smaller one opens a second connection to it when it takes part itself.
\<close>

theorem contacts_cover:
  assumes "list_all (\<lambda>(k, p). k = organizationId p) (st_peers (q_study Q))"
    and "(a, pa) \<in> set (st_peers (q_study Q))" "(b, pb) \<in> set (st_peers (q_study Q))" "a \<noteq> b"
    and "takes_part Q pa" "takes_part Q pb"
  shows "let at = (\<lambda>org. Q\<lparr>q_handler := (q_handler Q)\<lparr>qh_org := org\<rparr>\<rparr>)
    in (pb \<in> set (sendConnectionsToPeers (at a))) \<noteq> (pa \<in> set (sendConnectionsToPeers (at b))) \<and>
       pb \<in> set (sendQueryToPeers (at a)) \<and>
       (array_less b a \<longrightarrow> pa \<in> set (sendConnectionsToPeers (at b)))"
proof -
  have part: "takes_part (Q\<lparr>q_handler := h\<rparr>) p \<longleftrightarrow> takes_part Q p" for h p by (simp add: takes_part_def)
  have "array_less a b \<noteq> array_less b a"
    using array_less_total [of a b] array_less_trans [of a b a] array_less_irrefl assms(4) by blast
  then show ?thesis
    using assms contacts_iff [of _ _ "Q\<lparr>q_handler := (q_handler Q)\<lparr>qh_org := a\<rparr>\<rparr>"]
      contacts_iff [of _ _ "Q\<lparr>q_handler := (q_handler Q)\<lparr>qh_org := b\<rparr>\<rparr>"]
    by (simp add: part Let_def)
qed


subsection \<open>Who gets in\<close>

definition authentic :: "'m Server \<Rightarrow> bytes \<Rightarrow> ConnHeader \<Rightarrow> Study \<Rightarrow> bool" where
  "authentic S fingerprint H study \<longleftrightarrow>
     map_of (s_studies S) (qid_study (ch_query H)) = Some study \<and>
     (\<exists>analyst. map_of (st_peers study) (qid_analyst (ch_query H)) = Some analyst \<and> isAnalyst analyst) \<and>
     (\<exists>peer. map_of (st_peers study) (ch_sender H) = Some peer \<and> certificateFingerprint peer = fingerprint)"

lemma check_Accepted: "check_connection S fingerprint H = Accepted study \<longleftrightarrow> authentic S fingerprint H study"
  by (auto simp: check_connection_def authentic_def split: option.splits if_splits)

definition queries_after :: "'m conn_result \<Rightarrow> 'm Server \<Rightarrow> (QueryId \<times> 'm Query) list" where
  "queries_after r S = (case r of AwaitQuery S' _ _ \<Rightarrow> s_queries S' | Joined S' _ _ _ \<Rightarrow> s_queries S' | _ \<Rightarrow> s_queries S)"

text \<open>Every query is kept under its own identifier, with the study of that identifier.\<close>

definition wf_queries :: "'m Server \<Rightarrow> bool" where
  "wf_queries S \<longleftrightarrow> (\<forall>(k, Q) \<in> set (s_queries S). q_id Q = k \<and> map_of (s_studies S) (qid_study k) = Some (q_study Q))"

lemma find_query_Some: "find_query qid qs = Some (k, Q) \<Longrightarrow> (k, Q) \<in> set qs \<and> same_key k qid"
  by (auto simp: find_query_def find_Some_iff) (metis nth_mem)

lemma same_key_refl: "same_key k k"
  by (simp add: same_key_def QueryId_lt_strict)

lemma set_query_entry: "(k, R) \<in> set (set_query qid Q qs) \<Longrightarrow> (k, R) \<in> set qs \<or> R = Q \<and>
    (case find_query qid qs of None \<Rightarrow> k = qid | Some (k', Q') \<Rightarrow> k = k')"
  by (induction qs) (auto simp: find_query_def split: if_splits)

lemma assure_query_study:
  assumes "wf_queries S" "map_of (s_studies S) (qid_study (ch_query H)) = Some study"
  shows "case find_query (ch_query H) (s_queries S) of None \<Rightarrow> q_id (assure_query m S study H) = ch_query H
      | Some (k, Q) \<Rightarrow> q_id (assure_query m S study H) = k"
    and "map_of (s_studies S) (qid_study (q_id (assure_query m S study H))) = Some (q_study (assure_query m S study H))"
    and "same_key (q_id (assure_query m S study H)) (ch_query H)"
  using assms find_query_Some [of "ch_query H" "s_queries S"]
  by (auto simp: assure_query_def new_query_def Let_def wf_queries_def same_key_refl split: option.splits)

text \<open>New connections keep it.\<close>

lemma wf_queries_connection:
  assumes "wf_queries S" "check_connection S fingerprint H = Accepted study"
  shows "wf_queries (S\<lparr>s_queries := set_query (ch_query H) (assure_query m S study H) (s_queries S)\<rparr>)"
proof -
  have "map_of (s_studies S) (qid_study (ch_query H)) = Some study" using assms(2) by (simp add: check_Accepted authentic_def)
  note a = assure_query_study [OF assms(1) this, of m]
  show ?thesis using assms(1) a(1,2) set_query_entry [of _ _ "ch_query H" "assure_query m S study H" "s_queries S"]
    unfolding wf_queries_def by (fastforce split: option.splits)
qed

text \<open>
  C18: What the header of a connection has to show. If it changes the server's queries, or attaches the connection to one,
  then it names a study the server has, an analyst of that study, and as its sender a peer of that study whose registered
  certificate is the one the connection was made with. The only query it changes or joins is the one the map of queries finds
  for the identifier in the header, which is of the study of its own identifier, and so of the study the sender was checked
  against when the two identifiers name the same study. The map takes identifiers for the same key that do not
  (\<open>other_study_joined\<close>).
\<close>

theorem only_authenticated:
  assumes "readConnectionHeaderHandler L m testsDone fingerprint hdr buf S = r" "wf_queries S"
    and "queries_after r S \<noteq> s_queries S \<or> (\<exists>S' k sender a. r = Joined S' k sender a)"
  shows "\<exists>H rest study. read_conn_header hdr buf = Header H rest \<and> authentic S fingerprint H study \<and>
    (let Q = assure_query m S study H
     in queries_after r S = set_query (ch_query H) Q (s_queries S) \<and>
        (\<forall>S' k sender a. r = Joined S' k sender a \<longrightarrow> k = q_id Q \<and> sender = ch_sender H) \<and>
        same_key (q_id Q) (ch_query H) \<and> map_of (s_studies S) (qid_study (q_id Q)) = Some (q_study Q) \<and>
        (qid_study (q_id Q) = qid_study (ch_query H) \<longrightarrow> q_study Q = study))"
proof (cases "read_conn_header hdr buf")
  case (Header H rest)
  then obtain study where study: "check_connection S fingerprint H = Accepted study"
    using assms(1,3) by (cases "check_connection S fingerprint H") (auto simp: readConnectionHeaderHandler_def queries_after_def)
  then have auth: "authentic S fingerprint H study" by (simp add: check_Accepted)
  then have known: "map_of (s_studies S) (qid_study (ch_query H)) = Some study" by (simp add: authentic_def)
  have "queries_after r S = set_query (ch_query H) (assure_query m S study H) (s_queries S)"
    "\<forall>S' k sender a. r = Joined S' k sender a \<longrightarrow> k = q_id (assure_query m S study H) \<and> sender = ch_sender H"
    using assms(1) Header study by (auto simp: readConnectionHeaderHandler_def queries_after_def Let_def split: if_splits)
  then show ?thesis using Header auth assure_query_study(2,3) [OF assms(2) known, of m] known by (auto simp: Let_def)
qed (use assms in \<open>auto simp: readConnectionHeaderHandler_def queries_after_def\<close>)

text \<open>
  A member of one study is attached to the query of another, in which it need not have any part, when the analysts of the two
  are the same, or the study of the one identifier is less and its analyst greater.
\<close>

lemma other_study_joined:
  assumes "authentic S fingerprint H study" "s_queries S = [(qid, Q)]" "qid_analyst (ch_query H) = qid_analyst qid"
    and "read_conn_header hdr buf = Header H rest" "ch_kind H = CONNHDR_CONST_GREETING"
  shows "\<exists>S' a. readConnectionHeaderHandler L m testsDone fingerprint hdr buf S = Joined S' (q_id Q) (ch_sender H) a \<and>
    a = changeToEventHandlerCallback L testsDone rest (ch_sender H) Q"
proof -
  have "same_key qid (ch_query H)" using assms(3) by (intro same_key_study_or_analyst) simp
  then have "assure_query m S study H = Q"
    using assms(2,5) by (simp add: assure_query_def find_query_def Let_def connhdr_defs)
  then show ?thesis using assms(1,4,5)
    by (simp add: readConnectionHeaderHandler_def check_Accepted [symmetric] Let_def connhdr_defs)
qed

text \<open>
  C20: A second query of an analyst is not kept apart from a first one. Two queries of one study and one
  analyst are the same key to the map of queries, whatever their numbers: when the first is active, the
  header of the second attaches its connection to the first query's handler, and no handler is made.
\<close>

theorem second_query_misrouted:
  assumes "s_queries S = [(qid, Q)]" "ch_query H = qid'" "qid_study qid' = qid_study qid"
    "qid_analyst qid' = qid_analyst qid"
  shows "q_handler (assure_query m S study H) = q_handler Q \<and>
    length (set_query qid' (assure_query m S study H) (s_queries S)) = 1"
proof -
  have "same_key qid qid'" using assms(3) by (intro same_key_study_or_analyst) simp
  then have "find_query qid' (s_queries S) = Some (qid, Q)" by (simp add: assms(1) find_query_def)
  then show ?thesis using assms(1,2) \<open>same_key qid qid'\<close> by (simp add: assure_query_def Let_def)
qed

subsection \<open>Examples\<close>

definition example_peer :: "dbuid_t \<Rightarrow> role_t \<Rightarrow> Peer" where
  "example_peer org r = \<lparr>organizationId = org, p_role = r, p_vertical = 0, certificateFingerprint = [7]\<rparr>"

definition example_study :: Study where
  "example_study = \<lparr>studyId = replicate 16 1,
     st_peers = [(replicate 16 2, example_peer (replicate 16 2) 9), (replicate 16 3, example_peer (replicate 16 3) 2),
       (replicate 16 4, example_peer (replicate 16 4) 2)]\<rparr>"

definition example_server :: "InMsg list Server" where
  "example_server = \<lparr>s_org = replicate 16 4, s_studies = [(replicate 16 1, example_study)], s_queries = []\<rparr>"

definition example_active :: "InMsg list Query" where
  "example_active = (new_query [] example_server example_study example_qid)\<lparr>q_verticals := [0]\<rparr>"

lemma example_roles [simp]:
  "isRecipient (example_peer org 9)" "isAnalyst (example_peer org 9)" "\<not> isDataowner (example_peer org 9)"
  "\<not> isDealer (example_peer org 9)" "isDataowner (example_peer org 2)" "\<not> isRecipient (example_peer org 2)"
  "\<not> isDealer (example_peer org 2)" "organizationId (example_peer org r) = org" "p_vertical (example_peer org r) = 0"
  "certificateFingerprint (example_peer org r) = [7]"
  by (simp_all add: isRecipient_def isAnalyst_def isDataowner_def isDealer_def hasRole_def example_peer_def role_defs)

theorem starts_with_last_connection_witness:
  "connect_all (example_lib []) False example_active [replicate 16 3] (q_handler example_active) =
     Some (with_peers [replicate 16 3] (q_handler example_active)) \<and>
   connect_all (example_lib []) False example_active [replicate 16 3, replicate 16 2] (q_handler example_active) =
     Some ((with_peers [replicate 16 3, replicate 16 2] (q_handler example_active))\<lparr>initialized := True\<rparr>)"
proof -
  have required: "set [replicate 16 3, replicate 16 2] = set (required_orgs example_active (qh_org (q_handler example_active)))"
    by (auto simp: required_orgs_def takes_part_def example_active_def new_query_def example_study_def example_server_def)
  have new: "qh_peers (q_handler example_active) = Map.empty" by (simp add: example_active_def new_query_def)
  have "QueryHandler_init (example_lib []) (with_peers ss (q_handler example_active)) =
      Some ((with_peers ss (q_handler example_active))\<lparr>initialized := True\<rparr>)" for ss
    by (simp add: QueryHandler_init_def init_managers_def example_lib_def send_simps replay.simps with_peers_def
        example_active_def new_query_def)
  note init = this [of "[replicate 16 3, replicate 16 2]"]
  show ?thesis
    using starts_with_last_connection [OF new _ _ required, of "example_lib []" False "[]"] init
    by (fastforce dest: spec [of _ 1])
qed

theorem contacts_cover_witness:
  "let at = (\<lambda>org. example_active\<lparr>q_handler := (q_handler example_active)\<lparr>qh_org := org\<rparr>\<rparr>)
   in (example_peer (replicate 16 3) 2 \<in> set (sendConnectionsToPeers (at (replicate 16 2)))) \<noteq>
      (example_peer (replicate 16 2) 9 \<in> set (sendConnectionsToPeers (at (replicate 16 3))))"
  using contacts_cover [of example_active "replicate 16 2" "example_peer (replicate 16 2) 9" "replicate 16 3"
      "example_peer (replicate 16 3) 2"]
  by (simp add: example_active_def new_query_def example_study_def takes_part_def Let_def numeral_eq_Suc)

theorem only_authenticated_witness:
  "\<exists>H rest study. read_conn_header CONNHDR_CONST_UNINIT (greeting example_qid (replicate 16 3)) = Header H rest \<and>
     authentic example_server [7] H study \<and> qid_study (q_id (assure_query [] example_server study H)) = replicate 16 1"
proof -
  let ?H = "\<lparr>ch_kind = CONNHDR_CONST_GREETING, ch_query = example_qid, ch_sender = replicate 16 3, ch_queryLen = 0\<rparr>"
  have ids: "ids_ok example_qid (replicate 16 3)" by (simp add: ids_ok_def example_qid_def)
  have read: "read_conn_header CONNHDR_CONST_UNINIT (greeting example_qid (replicate 16 3)) = Header ?H []"
    using read_conn_header_greeting [OF ids, of "[]"] by simp
  have "check_connection example_server [7] ?H = Accepted example_study"
    by (simp add: check_connection_def example_server_def example_study_def example_qid_def numeral_eq_Suc)
  then have "\<exists>S' k sender a. readConnectionHeaderHandler (example_lib []) [] False [7] CONNHDR_CONST_UNINIT
      (greeting example_qid (replicate 16 3)) example_server = Joined S' k sender a"
    by (simp add: readConnectionHeaderHandler_def read) (simp add: Let_def connhdr_defs)
  moreover have wf: "wf_queries example_server" by (simp add: wf_queries_def example_server_def)
  ultimately have "\<exists>H rest study. read_conn_header CONNHDR_CONST_UNINIT (greeting example_qid (replicate 16 3)) = Header H rest \<and>
      authentic example_server [7] H study"
    using only_authenticated [OF refl wf] by blast
  then show ?thesis
    using read by (auto simp: assure_query_def find_query_def new_query_def example_server_def example_qid_def Let_def connhdr_defs)
qed

theorem second_query_misrouted_witness:
  "let S = example_server\<lparr>s_queries := [(example_qid, example_active)]\<rparr>; qid = example_qid\<lparr>qid_number := 6\<rparr>;
       H = \<lparr>ch_kind = CONNHDR_CONST_DELIVERY, ch_query = qid, ch_sender = [], ch_queryLen = 0\<rparr>
   in qid \<noteq> example_qid \<and> length (set_query qid (assure_query [] S example_study H) (s_queries S)) = 1"
  using second_query_misrouted [of "example_server\<lparr>s_queries := [(example_qid, example_active)]\<rparr>" example_qid
      example_active _ "example_qid\<lparr>qid_number := 6\<rparr>" "[]" example_study]
  by (simp add: Let_def example_qid_def)

end
