(* ===== verification/Receivers.thy ===== *)
theory Receivers
  imports Complex_Main RegressionSteps Lookup
begin

text \<open>
  The recipients of results (\<open>recipient/RegressionReceiver.cpp\<close>, \<open>recipient/MomentsReceiver.cpp\<close>): they
  add up the shares in the dataowners' messages and turn the opened numbers into fractions. A
  \<open>double\<close> is a rational number, and \<open>rd\<close> is the rounding of an operation on doubles.
\<close>

subsection \<open>Numbers with a binary point\<close>

definition quotient_and_rest :: "(rat \<Rightarrow> rat) \<Rightarrow> LargeNum \<Rightarrow> nat \<Rightarrow> rat" where
  "quotient_and_rest rd val bits =
     (let integer_part = rd (of_nat ((val div 2 ^ bits) mod 2 ^ 64)); remainder = val mod 2 ^ bits
      in if bits \<le> 64 then rd (integer_part + rd (rd (of_nat (remainder mod 2 ^ 64)) / 2 ^ bits))
         else rd (integer_part + rd (rd (of_nat ((val div 2 ^ (bits - 64)) mod 2 ^ 64)) / 2 ^ 64)))"

text \<open>Numbers above half of the modulus are negative; the recursive call is never negative again.\<close>

definition castToDouble :: "(rat \<Rightarrow> rat) \<Rightarrow> LargeNum \<Rightarrow> nat \<Rightarrow> LargeNum \<Rightarrow> rat" where
  "castToDouble rd val bits p =
     (if 2 * val > p then - quotient_and_rest rd (p - val) bits else quotient_and_rest rd val bits)"

fun bytes_value :: "(rat \<Rightarrow> rat) \<Rightarrow> u8 list \<Rightarrow> rat" where
  "bytes_value rd [] = 0"
| "bytes_value rd (b # bs) = rd (rd (bytes_value rd bs * 256) + of_nat (unat b))"

definition convertBytesToDouble :: "(rat \<Rightarrow> rat) \<Rightarrow> u8 list \<Rightarrow> nat \<Rightarrow> rat" where
  "convertBytesToDouble rd bs numBytes = rd (bytes_value rd (take numBytes bs) / 2 ^ (8 * numBytes))"

text \<open>The rounding of doubles keeps every number with at most 53 binary digits.\<close>

definition exact53 :: "(rat \<Rightarrow> rat) \<Rightarrow> bool" where
  "exact53 rd \<longleftrightarrow> (\<forall>k e. k < 2 ^ 53 \<longrightarrow> rd (of_nat k / 2 ^ e) = of_nat k / 2 ^ e)"

lemma exact53D: "exact53 rd \<Longrightarrow> k < 2 ^ 53 \<Longrightarrow> rd (of_nat k / 2 ^ e) = of_nat k / 2 ^ e"
  by (simp add: exact53_def)

lemma exact53_nat: "exact53 rd \<Longrightarrow> k < 2 ^ 53 \<Longrightarrow> rd (of_nat k) = of_nat k"
  using exact53D [of rd k 0] by simp

lemma div_mod_fraction: "of_nat (v div 2 ^ b) + of_nat (v mod 2 ^ b) / 2 ^ b = (of_nat v / 2 ^ b :: rat)"
proof -
  have "(of_nat (v div 2 ^ b * 2 ^ b + v mod 2 ^ b) :: rat) = of_nat (v div 2 ^ b) * 2 ^ b + of_nat (v mod 2 ^ b)"
    by (simp only: of_nat_add of_nat_mult of_nat_power of_nat_numeral)
  then have "(of_nat v :: rat) = of_nat (v div 2 ^ b) * 2 ^ b + of_nat (v mod 2 ^ b)" by (simp only: div_mult_mod_eq)
  then show ?thesis by (simp add: field_simps)
qed

lemma quotient_and_rest_exact:
  assumes "exact53 rd" "v < 2 ^ 53" "b \<le> 64"
  shows "quotient_and_rest rd v b = of_nat v / 2 ^ b"
proof -
  have small: "v div 2 ^ b < 2 ^ 53" "v mod 2 ^ b < 2 ^ 53"
    using assms(2) le_less_trans [OF div_le_dividend] le_less_trans [OF mod_less_eq_dividend] by blast+
  then have "v div 2 ^ b mod 2 ^ 64 = v div 2 ^ b" "v mod 2 ^ b mod 2 ^ 64 = v mod 2 ^ b" by simp_all
  then show ?thesis
    using exact53_nat [OF assms(1) small(1)] exact53_nat [OF assms(1) small(2)] exact53D [OF assms(1) small(2)]
      exact53D [OF assms(1,2)] assms(3)
    by (simp add: quotient_and_rest_def Let_def div_mod_fraction)
qed

text \<open>
  The number shown for an opened value is its signed value over the power of two. For a value within
  \<open>2 ^ 53\<close> of zero modulo the modulus and at most 64 binary places, \<open>castToDouble\<close> gives exactly the
  representative between \<open>- modulus / 2\<close> and \<open>modulus / 2\<close> divided by \<open>2 ^ bits\<close>.
\<close>

theorem castToDouble_exact:
  assumes "exact53 rd" "bits \<le> 64" "val \<le> p" "min val (p - val) < 2 ^ 53"
  shows "castToDouble rd val bits p =
    of_int (if 2 * val > p then int val - int p else int val) / 2 ^ bits"
proof (cases "2 * val > p")
  case True
  then have "p - val < 2 ^ 53" using assms(4) by simp
  then show ?thesis using quotient_and_rest_exact [OF assms(1) _ assms(2), of "p - val"] True assms(3)
    by (simp add: castToDouble_def of_nat_diff field_simps)
next
  case False
  then have "val < 2 ^ 53" using assms(4) by simp
  then show ?thesis using quotient_and_rest_exact [OF assms(1) _ assms(2), of val] False
    by (simp add: castToDouble_def)
qed

theorem castToDouble_exact_witness:
  "castToDouble (\<lambda>x. x) 95 2 101 = - 6 / 4 \<and> castToDouble (\<lambda>x. x) 6 2 101 = 6 / 4"
  using castToDouble_exact [of "\<lambda>x. x" 2 95 101] castToDouble_exact [of "\<lambda>x. x" 2 6 101]
  by (simp add: exact53_def)

subsection \<open>The regression receiver\<close>

record RegressionReceiver =
  rr_info :: RegressionInfo
  rr_leftPayloads :: "nat list"
  rr_rightPayloads :: "nat list"
  rr_leftVert :: nat
  rr_rightVert :: nat
  rr_bits :: nat
  rr_results :: "LargeNum list"
  rr_standardErrorCoeffs :: "LargeNum list"
  rr_F_p_value :: "u8 list"
  rr_t_p_values :: "u8 list list"
  rr_rootMSE :: LargeNum
  rr_rsquare :: LargeNum
  rr_numDataowners :: nat

definition RegressionReceiver_new :: "RegressionInfo \<Rightarrow> nat list \<Rightarrow> nat list \<Rightarrow> nat \<Rightarrow> nat \<Rightarrow> nat \<Rightarrow> RegressionReceiver" where
  "RegressionReceiver_new info l r lv rv bits =
     (let d = verticalDV_numIVs info + verticalNonDV_numIVs info; cells = bytesInCells info
      in \<lparr>rr_info = info, rr_leftPayloads = l, rr_rightPayloads = r, rr_leftVert = lv, rr_rightVert = rv, rr_bits = bits,
          rr_results = replicate d 0, rr_standardErrorCoeffs = replicate d 0, rr_F_p_value = replicate cells 0,
          rr_t_p_values = replicate d (replicate cells 0), rr_rootMSE = 0, rr_rsquare = 0, rr_numDataowners = 0\<rparr>)"

definition RegressionReceiver_init :: "PeerSet \<Rightarrow> RegressionReceiver \<Rightarrow> RegressionReceiver" where
  "RegressionReceiver_init peers st =
     st\<lparr>rr_numDataowners := rr_numDataowners st + length (forEachDataowner peers)\<rparr>"

text \<open>A read that fails leaves the local variable as it was: zero, or \<open>junk\<close> for the bytes, which are
  not initialized.\<close>

fun add_shares :: "ff_msg \<Rightarrow> ff_arith \<Rightarrow> LargeNum \<Rightarrow> LargeNum list \<Rightarrow> bytes \<Rightarrow> LargeNum list \<times> bytes" where
  "add_shares M A p [] buf = ([], buf)"
| "add_shares M A p (x # xs) buf =
     (let (ok, res, buf) = try_read (rdLarge M) 0 buf; (ys, buf) = add_shares M A p xs buf
      in (modAdd A x res p # ys, buf))"

fun xor_shares :: "ff_msg \<Rightarrow> u8 \<Rightarrow> u8 list \<Rightarrow> bytes \<Rightarrow> u8 list \<times> bytes" where
  "xor_shares M junk [] buf = ([], buf)"
| "xor_shares M junk (b # bs) buf =
     (let (ok, res, buf) = try_read (rd8 M) junk buf; (cs, buf) = xor_shares M junk bs buf
      in ((b XOR res) # cs, buf))"

fun xor_rows :: "ff_msg \<Rightarrow> u8 \<Rightarrow> u8 list list \<Rightarrow> bytes \<Rightarrow> u8 list list \<times> bytes" where
  "xor_rows M junk [] buf = ([], buf)"
| "xor_rows M junk (r # rs) buf =
     (let (r, buf) = xor_shares M junk r buf; (rs, buf) = xor_rows M junk rs buf in (r # rs, buf))"

definition add_message :: "ff_msg \<Rightarrow> ff_arith \<Rightarrow> u8 \<Rightarrow> bytes \<Rightarrow> RegressionReceiver \<Rightarrow> RegressionReceiver" where
  "add_message M A junk buf st =
     (let p = endModulus (rr_info st);
          (res, buf) = add_shares M A p (rr_results st) buf;
          (mse, buf) = add_shares M A p [rr_rootMSE st] buf;
          (rsq, buf) = add_shares M A p [rr_rsquare st] buf;
          (se, buf) = add_shares M A p (rr_standardErrorCoeffs st) buf;
          (F, buf) = xor_shares M junk (rr_F_p_value st) buf;
          (t, buf) = xor_rows M junk (rr_t_p_values st) buf
      in st\<lparr>rr_results := res, rr_rootMSE := hd mse, rr_rsquare := hd rsq, rr_standardErrorCoeffs := se,
            rr_F_p_value := F, rr_t_p_values := t\<rparr>)"

text \<open>The names of the columns by vertical are read from the study. The length of the second list less one is a
  \<open>size_t\<close>: with an empty list the loop reads after its end, \<open>None\<close>.\<close>

definition findColumnNames ::
  "nat list \<Rightarrow> nat list \<Rightarrow> nat \<Rightarrow> nat \<Rightarrow> nat \<Rightarrow> bool \<Rightarrow> (nat \<Rightarrow> nat \<Rightarrow> string) \<Rightarrow> string list option" where
  "findColumnNames leftPayloads rightPayloads leftVert rightVert depVert intercept names =
     (let first_payloads = (if leftVert = depVert then rightPayloads else leftPayloads);
          second_payloads = (if leftVert = depVert then leftPayloads else rightPayloads);
          first_vert = (if leftVert = depVert then rightVert else leftVert);
          second_vert = (if leftVert = depVert then leftVert else rightVert)
      in if second_payloads = [] then None
         else Some (map (names first_vert) first_payloads @
           map (names second_vert) (take (length second_payloads - 1) second_payloads) @
           (if intercept then [''<strong>Intercept</strong>''] else [])))"

record report =
  rep_names :: "string list"
  rep_results :: "rat list"
  rep_error :: rat
  rep_rsquare :: rat
  rep_standardErrors :: "rat list"
  rep_F :: rat
  rep_t :: "rat list"

definition regression_report :: "(rat \<Rightarrow> rat) \<Rightarrow> string list \<Rightarrow> RegressionReceiver \<Rightarrow> report" where
  "regression_report rd cols st =
     (let info = rr_info st; p = endModulus info; bits = rr_bits st; cells = bytesInCells info
      in \<lparr>rep_names = cols,
          rep_results = map (\<lambda>num. castToDouble rd num bits p) (rr_results st),
          rep_error = castToDouble rd (rr_rootMSE st) (5 * bits) p,
          rep_rsquare = castToDouble rd (rr_rsquare st) bits p,
          rep_standardErrors = map (\<lambda>num. castToDouble rd num (4 * bits) p) (rr_standardErrorCoeffs st),
          rep_F = convertBytesToDouble rd (rr_F_p_value st) cells,
          rep_t = map (\<lambda>bs. rd (2 * convertBytesToDouble rd bs cells)) (rr_t_p_values st)\<rparr>)"

definition receiver_columns :: "RegressionReceiver \<Rightarrow> (nat \<Rightarrow> nat \<Rightarrow> string) \<Rightarrow> string list option" where
  "receiver_columns st names = findColumnNames (rr_leftPayloads st) (rr_rightPayloads st) (rr_leftVert st)
     (rr_rightVert st) (verticalDV (rr_info st)) (fitIntercept (rr_info st)) names"

text \<open>The report is printed and the protocol completes with the last dataowner's message; the
  assertions on the lengths of the printed columns give \<open>None\<close> when they fail. The count of the dataowners is a
  \<open>size_t\<close>, which wraps around below 0.\<close>

definition one_less :: "nat \<Rightarrow> nat" where
  "one_less n = (if n = 0 then 2 ^ 64 - 1 else n - 1)"

definition RegressionReceiver_handleReceive ::
  "ff_msg \<Rightarrow> ff_arith \<Rightarrow> (rat \<Rightarrow> rat) \<Rightarrow> (nat \<Rightarrow> nat \<Rightarrow> string) \<Rightarrow> u8 \<Rightarrow> bytes \<Rightarrow> RegressionReceiver \<Rightarrow>
     (RegressionReceiver \<times> report option) option" where
  "RegressionReceiver_handleReceive M A rd names junk buf st =
     (let st = add_message M A junk buf st;
          st = st\<lparr>rr_numDataowners := one_less (rr_numDataowners st)\<rparr>
      in if rr_numDataowners st = 0 then
           (case receiver_columns st names of
              None \<Rightarrow> None
            | Some cols \<Rightarrow>
                let rep = regression_report rd cols st
                in if length (rep_names rep) = length (rep_results rep) \<and>
                      length (rep_standardErrors rep) = length (rep_results rep)
                   then Some (st, Some rep) else None)
         else Some (st, None))"

subsection \<open>Opening the results\<close>

type_synonym reg_party = "RegEnv \<times> Regression"

definition party_message :: "reg_party \<Rightarrow> bytes" where
  "party_message q = result_message (fst q) (snd q)"

text \<open>A dataowner whose message a receiver with the parameters \<open>info\<close> understands.\<close>

definition sender_ok :: "ff_msg \<Rightarrow> RegressionInfo \<Rightarrow> reg_party \<Rightarrow> bool" where
  "sender_ok M info q \<longleftrightarrow> (let E = fst q; st = snd q; d = verticalDV_numIVs info + verticalNonDV_numIVs info; p = endModulus info
     in env_msg E = M \<and> numIVs E = d \<and> bytesInCells (env_info E) = bytesInCells info \<and>
        (\<forall>i < d. beta_i st ! i < p \<and> meanSquareErrorCoeffs st ! i < p) \<and> meanSquareErrorShare st < p \<and> RSquaredShare st < p)"

definition open_nums :: "RegressionInfo \<Rightarrow> (Regression \<Rightarrow> LargeNum list) \<Rightarrow> reg_party list \<Rightarrow> LargeNum list" where
  "open_nums info f ps = map (\<lambda>i. open_mod (endModulus info) (map (\<lambda>q. f (snd q) ! i) ps))
     [0..<verticalDV_numIVs info + verticalNonDV_numIVs info]"

definition open_cell :: "RegressionInfo \<Rightarrow> (Regression \<Rightarrow> u8 list) \<Rightarrow> reg_party list \<Rightarrow> u8 list" where
  "open_cell info f ps = map (\<lambda>j. open_xor (map (\<lambda>q. f (snd q) ! j) ps)) [0..<bytesInCells info]"

definition opened_by :: "RegressionInfo \<Rightarrow> reg_party list \<Rightarrow> RegressionReceiver \<Rightarrow> bool" where
  "opened_by info ps st \<longleftrightarrow> rr_info st = info \<and>
     rr_results st = open_nums info beta_i ps \<and>
     rr_standardErrorCoeffs st = open_nums info meanSquareErrorCoeffs ps \<and>
     rr_rootMSE st = open_mod (endModulus info) (map (\<lambda>q. meanSquareErrorShare (snd q)) ps) \<and>
     rr_rsquare st = open_mod (endModulus info) (map (\<lambda>q. RSquaredShare (snd q)) ps) \<and>
     rr_F_p_value st = open_cell info F_p_value ps \<and>
     rr_t_p_values st = map (\<lambda>i. open_cell info (\<lambda>st. t_p_values st ! i) ps)
       [0..<verticalDV_numIVs info + verticalNonDV_numIVs info]"

context ff_messages begin

lemma add_shares_written:
  assumes "ff_arith_ok A" "\<And>i. i \<in> set is \<Longrightarrow> f i < p \<and> g i < p"
  shows "add_shares M A p (map f is) (concat (map (\<lambda>i. wrLarge M (g i)) is) @ rest) = (map (\<lambda>i. (f i + g i) mod p) is, rest)"
  using assms(2) ff_arith_okD(1) [OF assms(1)]
  by (induction "is") (simp_all add: try_read_def mLarge.rd_wr Let_def)

lemma xor_shares_written:
  "xor_shares M junk (map f is) (concat (map (\<lambda>i. wr8 M (g i)) is) @ rest) = (map (\<lambda>i. f i XOR g i) is, rest)"
  by (induction "is") (simp_all add: try_read_def m8.rd_wr Let_def)

lemma xor_rows_written:
  "xor_rows M junk (map (\<lambda>i. map (f i) js) is) (concat (map (\<lambda>i. concat (map (\<lambda>j. wr8 M (g i j)) js)) is) @ rest) =
   (map (\<lambda>i. map (\<lambda>j. f i j XOR g i j) js) is, rest)"
  by (induction "is") (simp_all add: xor_shares_written Let_def)

end

lemma open_mod_snoc: "open_mod p (xs @ [x]) = (open_mod p xs + x) mod p"
  by (simp add: open_mod_def mod_add_left_eq)

lemma open_mod_less: "0 < p \<Longrightarrow> open_mod p xs < p"
  by (simp add: open_mod_def)

lemma add_message_opens:
  assumes M: "ff_msg_ok M" and A: "ff_arith_ok A" and q: "sender_ok M info q" and st: "opened_by info ps st"
    and p: "0 < endModulus info"
  shows "opened_by info (ps @ [q]) (add_message M A junk (party_message q) st)"
proof -
  note msgs = ff_messages.intro [OF M]
  let ?d = "verticalDV_numIVs info + verticalNonDV_numIVs info" and ?p = "endModulus info"
  obtain E r where q_eq: "q = (E, r)" by fastforce
  have view: "env_msg E = M" "numIVs E = ?d" "bytesInCells (env_info E) = bytesInCells info"
    "\<And>i. i < ?d \<Longrightarrow> beta_i r ! i < ?p \<and> meanSquareErrorCoeffs r ! i < ?p"
    "meanSquareErrorShare r < ?p" "RSquaredShare r < ?p"
    using q by (simp_all add: sender_ok_def q_eq Let_def)
  note less = open_mod_less [OF p]
  note nums = ff_messages.add_shares_written [OF msgs A, where p = ?p]
  have one: "add_shares M A ?p [open_mod ?p xs] (wrLarge M y @ rest) = ([(open_mod ?p xs + y) mod ?p], rest)"
    if "y < ?p" for xs y rest
    using nums [of "[()]" "\<lambda>_. open_mod ?p xs" "\<lambda>_. y" rest] that less by simp
  have res: "add_shares M A ?p (open_nums info f ps) (concat (map (\<lambda>i. wrLarge M (f r ! i)) [0..<?d]) @ rest) =
      (open_nums info f (ps @ [q]), rest)" if "\<And>i. i < ?d \<Longrightarrow> f r ! i < ?p" for f rest
    unfolding open_nums_def using nums [of "[0..<?d]"] that less by (simp add: q_eq open_mod_snoc)
  have cell: "xor_shares M junk (open_cell info f ps) (concat (map (\<lambda>j. wr8 M (f r ! j)) [0..<bytesInCells info]) @ rest) =
      (open_cell info f (ps @ [q]), rest)" for f rest
    unfolding open_cell_def using ff_messages.xor_shares_written [OF msgs] by (simp add: q_eq)
  have rows: "xor_rows M junk (map (\<lambda>i. open_cell info (\<lambda>st. t_p_values st ! i) ps) [0..<?d])
      (concat (map (\<lambda>i. concat (map (\<lambda>j. wr8 M (t_p_values r ! i ! j)) [0..<bytesInCells info])) [0..<?d]) @ []) =
      (map (\<lambda>i. open_cell info (\<lambda>st. t_p_values st ! i) (ps @ [q])) [0..<?d], [])"
    unfolding open_cell_def using ff_messages.xor_rows_written [OF msgs, where rest = "[]"] by (simp add: q_eq)
  show ?thesis
    using st res [of beta_i] res [of meanSquareErrorCoeffs] one view cell [of F_p_value] rows
    by (simp add: opened_by_def add_message_def party_message_def q_eq result_message_def Let_def open_mod_snoc)
qed

lemma new_opened_by: "opened_by info [] (RegressionReceiver_init peers (RegressionReceiver_new info l r lv rv bits))"
  by (simp add: opened_by_def RegressionReceiver_init_def RegressionReceiver_new_def Let_def open_nums_def open_cell_def
      open_mod_def map_replicate_const)

text \<open>The messages as they arrive; each gives a report or none.\<close>

fun receive_results :: "ff_msg \<Rightarrow> ff_arith \<Rightarrow> (rat \<Rightarrow> rat) \<Rightarrow> (nat \<Rightarrow> nat \<Rightarrow> string) \<Rightarrow> u8 \<Rightarrow> bytes list \<Rightarrow> RegressionReceiver \<Rightarrow>
    report option list option" where
  "receive_results M A rd names junk [] st = Some []"
| "receive_results M A rd names junk (buf # bufs) st =
     (case RegressionReceiver_handleReceive M A rd names junk buf st of
        None \<Rightarrow> None
      | Some (st', rep) \<Rightarrow> map_option ((#) rep) (receive_results M A rd names junk bufs st'))"

text \<open>The report of opened values.\<close>

definition opened_report :: "(rat \<Rightarrow> rat) \<Rightarrow> string list \<Rightarrow> RegressionInfo \<Rightarrow> nat \<Rightarrow> reg_party list \<Rightarrow> report" where
  "opened_report rd cols info bits ps =
     (let p = endModulus info; cells = bytesInCells info; d = verticalDV_numIVs info + verticalNonDV_numIVs info
      in \<lparr>rep_names = cols,
          rep_results = map (\<lambda>x. castToDouble rd x bits p) (open_nums info beta_i ps),
          rep_error = castToDouble rd (open_mod p (map (\<lambda>q. meanSquareErrorShare (snd q)) ps)) (5 * bits) p,
          rep_rsquare = castToDouble rd (open_mod p (map (\<lambda>q. RSquaredShare (snd q)) ps)) bits p,
          rep_standardErrors = map (\<lambda>x. castToDouble rd x (4 * bits) p) (open_nums info meanSquareErrorCoeffs ps),
          rep_F = convertBytesToDouble rd (open_cell info F_p_value ps) cells,
          rep_t = map (\<lambda>i. rd (2 * convertBytesToDouble rd (open_cell info (\<lambda>st. t_p_values st ! i) ps) cells)) [0..<d]\<rparr>)"

lemma report_opened:
  assumes "opened_by info ps st"
  shows "regression_report rd cols st = opened_report rd cols info (rr_bits st) ps"
  using assms by (simp add: regression_report_def opened_report_def opened_by_def Let_def o_def)

definition same_setting :: "RegressionReceiver \<Rightarrow> RegressionReceiver \<Rightarrow> bool" where
  "same_setting st st' \<longleftrightarrow> rr_bits st' = rr_bits st \<and> (\<forall>names. receiver_columns st' names = receiver_columns st names)"

lemma add_message_setting:
  "same_setting st (add_message M A junk buf st)" "rr_numDataowners (add_message M A junk buf st) = rr_numDataowners st"
  by (simp_all add: add_message_def Let_def case_prod_unfold same_setting_def receiver_columns_def)

lemma receive_results_opens:
  assumes M: "ff_msg_ok M" and A: "ff_arith_ok A" and p: "0 < endModulus info"
    and cols: "receiver_columns st0 names = Some cols" "length cols = verticalDV_numIVs info + verticalNonDV_numIVs info"
  shows "list_all (sender_ok M info) qs \<Longrightarrow> opened_by info ps st \<Longrightarrow> same_setting st0 st \<Longrightarrow>
    rr_numDataowners st = length qs \<Longrightarrow> qs \<noteq> [] \<Longrightarrow>
    receive_results M A rd names junk (map party_message qs) st =
      Some (replicate (length qs - 1) None @
        [Some (opened_report rd cols info (rr_bits st0) (ps @ qs))])"
proof (induction qs arbitrary: ps st)
  case (Cons q qs)
  let ?st = "add_message M A junk (party_message q) st"
  let ?st' = "?st\<lparr>rr_numDataowners := one_less (rr_numDataowners ?st)\<rparr>"
  have opened: "opened_by info (ps @ [q]) ?st'"
    using add_message_opens [OF M A _ Cons.prems(2) p, of q] Cons.prems(1) by (simp add: opened_by_def)
  have same: "same_setting st0 ?st'"
    using add_message_setting(1) [of st M A junk "party_message q"] Cons.prems(3)
    by (simp add: same_setting_def receiver_columns_def)
  have left: "rr_numDataowners ?st' = length qs" using Cons.prems(4) by (simp add: add_message_setting one_less_def)
  show ?case
  proof (cases "qs = []")
    case True
    have "regression_report rd cols ?st' = opened_report rd cols info (rr_bits st0) (ps @ [q])"
      "receiver_columns ?st' names = Some cols"
      using report_opened [OF opened] same cols(1) by (simp_all add: same_setting_def)
    then show ?thesis using True left cols
      by (simp add: RegressionReceiver_handleReceive_def Let_def opened_report_def open_nums_def)
  next
    case False
    then have "rr_numDataowners ?st' \<noteq> 0" using left by (metis length_0_conv)
    then have "RegressionReceiver_handleReceive M A rd names junk (party_message q) st = Some (?st', None)"
      unfolding RegressionReceiver_handleReceive_def Let_def by (simp only: if_False)
    then show ?thesis using False Cons.IH [OF _ opened same left] Cons.prems(1)
      by (cases qs) (simp_all add: map_option_case)
  qed
qed simp

text \<open>
  C21: The recipient reports the opened results. When the messages of the dataowners arrive, in any
  order, and the study names a column for each coefficient, nothing is reported before the last of them, and with the last one the report holds the sums of
  all shares: of the coefficients, their standard errors, the mean square error and R squared modulo the
  end modulus, and the exclusive or of the table cells of the p-values, each turned into a fraction.
\<close>

theorem recipient_reports_opened:
  assumes "ff_msg_ok M" "ff_arith_ok A" "0 < endModulus info" "list_all (sender_ok M info) ps"
    and "length ps = length (forEachDataowner peers)" "ps \<noteq> []"
    and "findColumnNames l r lv rv (verticalDV info) (fitIntercept info) names = Some cols"
    and "length cols = verticalDV_numIVs info + verticalNonDV_numIVs info"
  shows "receive_results M A rd names junk (map party_message ps)
      (RegressionReceiver_init peers (RegressionReceiver_new info l r lv rv bits)) =
    Some (replicate (length ps - 1) None @
      [Some (opened_report rd cols info bits ps)])"
proof -
  let ?st0 = "RegressionReceiver_init peers (RegressionReceiver_new info l r lv rv bits)"
  have st0: "receiver_columns ?st0 names = Some cols"
    "rr_bits ?st0 = bits" "rr_numDataowners ?st0 = length ps"
    using assms(5,7) by (simp_all add: RegressionReceiver_init_def RegressionReceiver_new_def Let_def receiver_columns_def)
  have "same_setting ?st0 ?st0" by (simp add: same_setting_def)
  with receive_results_opens [OF assms(1-3) st0(1) assms(8,4) new_opened_by _ st0(3) assms(6)] st0(2)
  show ?thesis by simp
qed

subsection \<open>Two dataowners\<close>

definition recipient_info :: RegressionInfo where
  "recipient_info = example_info\<lparr>num_IVs := 1, verticalDV_numIVs := 0, verticalNonDV_numIVs := 1, endModulus := 101,
     bytesInCells := 1, verticalDV := 0, fitIntercept := False\<rparr>"

definition recipient_party :: "nat \<Rightarrow> nat \<Rightarrow> nat \<Rightarrow> nat \<Rightarrow> nat \<Rightarrow> u8 \<Rightarrow> u8 \<Rightarrow> reg_party" where
  "recipient_party v b m r s F t =
     ((example_env v)\<lparr>env_info := recipient_info\<lparr>selfVertical := v\<rparr>\<rparr>,
      (Regression_blank recipient_info (example_rows 0 0) \<lparr>mat_values = [], det_of_inverse = 0\<rparr>)
        \<lparr>beta_i := [b], meanSquareErrorShare := m, RSquaredShare := r, meanSquareErrorCoeffs := [s],
         F_p_value := [F], t_p_values := [[t]]\<rparr>)"

lemma recipient_party_ok: "b < 101 \<Longrightarrow> m < 101 \<Longrightarrow> r < 101 \<Longrightarrow> s < 101 \<Longrightarrow>
    sender_ok be_msg recipient_info (recipient_party v b m r s F t)"
  by (simp add: sender_ok_def recipient_party_def recipient_info_def)

theorem recipient_reports_opened_witness:
  "let cols = [''age'', ''height'']; info = recipient_info;
       ps = [recipient_party 0 60 3 50 70 3 16, recipient_party 1 45 98 52 40 1 48]
   in receive_results be_msg nat_arith (\<lambda>x. x) (\<lambda>v c. cols ! c) 0 (map party_message ps)
        (RegressionReceiver_init (env_peers (example_env 0)) (RegressionReceiver_new info [1] [0] 0 1 1)) =
      Some [None, Some \<lparr>rep_names = [''age''], rep_results = [2], rep_error = 0, rep_rsquare = 1 / 2,
        rep_standardErrors = [9 / 16], rep_F = 1 / 128, rep_t = [1 / 4]\<rparr>]"
proof -
  let ?ps = "[recipient_party 0 60 3 50 70 3 16, recipient_party 1 45 98 52 40 1 48]"
  let ?names = "\<lambda>v c. [''age'', ''height''] ! c" and ?peers = "env_peers (example_env 0)"
  have names: "findColumnNames [1] [0] 0 1 (verticalDV recipient_info) (fitIntercept recipient_info) ?names = Some [''age'']"
    by (simp add: findColumnNames_def recipient_info_def)
  have "list_all (sender_ok be_msg recipient_info) ?ps" by (simp add: recipient_party_ok)
  moreover have "length ?ps = length (forEachDataowner ?peers)" by (simp add: example_env_def forEachDataowner_def)
  moreover have "length [''age''] = verticalDV_numIVs recipient_info + verticalNonDV_numIVs recipient_info"
    by (simp add: recipient_info_def)
  moreover have "0 < endModulus recipient_info" by (simp add: recipient_info_def)
  ultimately have "receive_results be_msg nat_arith (\<lambda>x. x) ?names 0 (map party_message ?ps)
      (RegressionReceiver_init ?peers (RegressionReceiver_new recipient_info [1] [0] 0 1 1)) =
      Some (replicate (length ?ps - 1) None @ [Some (opened_report (\<lambda>x. x) [''age''] recipient_info 1 ?ps)])"
    using recipient_reports_opened [OF be_msg_ok nat_arith_ok, of recipient_info ?ps ?peers "[1]" "[0]" 0 1 ?names "[''age'']" "\<lambda>x. x" 0 1] names by blast
  moreover have "replicate (length ?ps - 1) None = [None :: report option]" by simp
  moreover have "opened_report (\<lambda>x. x) [''age''] recipient_info 1 ?ps =
      \<lparr>rep_names = [''age''], rep_results = [2], rep_error = 0, rep_rsquare = 1 / 2,
        rep_standardErrors = [9 / 16], rep_F = 1 / 128, rep_t = [1 / 4]\<rparr>"
    by (simp add: opened_report_def recipient_party_def recipient_info_def open_nums_def open_cell_def open_mod_def
        open_xor_def castToDouble_def quotient_and_rest_def convertBytesToDouble_def Let_def)
  ultimately show ?thesis by (simp only: Let_def append.simps)
qed

end
