(* ===== verification/Moments.thy ===== *)
theory Moments
  imports ErrorTerms Receivers
begin

text \<open>
  The moments protocol (\<open>dataowner/MomentsInfo.cpp\<close>, \<open>dataowner/Moments.cpp\<close>) and its recipient
  (\<open>recipient/MomentsReceiver.cpp\<close>). Its exchange of shares repeats that of the regression for the
  vertical of the data column; then the power sums of the zipped rows are taken to the end modulus,
  divided by the count, and sent to the recipients.
\<close>

subsection \<open>Parameters\<close>

record MomentsInfo =
  mi_selfVertical :: nat
  mi_dataVertical :: nat
  includeZerothMoment :: bool
  highest_moment :: nat
  mi_numKeyCols :: nat
  mi_payloadLength :: nat
  mi_keyModulus :: LargeNum
  mi_startModulus :: LargeNum
  mi_endModulus :: LargeNum
  mi_dealer :: Identity
  mi_revealer :: Identity
  mi_numCrossParties :: nat

definition computeModulus :: "(LargeNum \<Rightarrow> LargeNum) \<Rightarrow> nat \<Rightarrow> LargeNum" where
  "computeModulus nextPrime numBits = nextPrime (2 ^ numBits)"

text \<open>\<open>ceilLog2\<close> is the rounded binary logarithm, taken in floating point.\<close>

definition MomentsInfo_new ::
  "(LargeNum \<Rightarrow> LargeNum) \<Rightarrow> (nat \<Rightarrow> nat) \<Rightarrow> GlobalInfo \<Rightarrow> nat \<Rightarrow> nat \<Rightarrow> nat \<Rightarrow> bool \<Rightarrow> nat \<Rightarrow> Identity \<Rightarrow> Identity
    \<Rightarrow> MomentsInfo" where
  "MomentsInfo_new nextPrime ceilLog2 globals nCross selfV dataV zeroth highest dlr rvl =
     \<lparr>mi_selfVertical = selfV, mi_dataVertical = dataV, includeZerothMoment = zeroth, highest_moment = highest,
      mi_numKeyCols = 2, mi_payloadLength = highest + 1, mi_keyModulus = nextPrime (key_max globals),
      mi_startModulus = computeModulus nextPrime (2 + 3 * bitsOfPrecision globals + ceilLog2 (maxIntersectionSize globals)),
      mi_endModulus = computeModulus nextPrime (2 + 4 * bitsOfPrecision globals + ceilLog2 (maxIntersectionSize globals)),
      mi_dealer = dlr, mi_revealer = rvl, mi_numCrossParties = nCross\<rparr>"

subsection \<open>State\<close>

datatype moments_state =
    m_awaitingRandomnessAndSISOSort | m_awaitingRandomnessOnly | m_awaitingSISOSort | m_awaitingZipAdjacent
  | m_awaitingBatchedModConvUp | m_awaitingDivision

text \<open>The patron of the dealer's randomness is the only sub-protocol of its own.\<close>

datatype moments_call = MRun "prim list" "PeerSet option" | MPatron nat "PeerSet option"

type_synonym moments_effect = "(moments_call, bytes) effect"

record Moments =
  m_state :: moments_state
  m_ownList :: ObservationList
  m_outgoingListShares :: "Observation list list"
  m_sharedLists :: "Observation list list"
  m_indexOfCrossParties :: "(Identity \<times> nat) list"
  m_numPartiesAwaiting :: nat
  m_randomnessDone :: bool
  m_abortFlag :: bool
  m_vectorZippedAdjacent :: "Observation list list"
  powerSumsStartModulus :: "LargeNum list"
  powerSums :: "LargeNum list"
  expectationOfNthPow :: "LargeNum list"

record MomentsEnv =
  me_arith :: ff_arith
  me_msg :: ff_msg
  me_globals :: GlobalInfo
  me_info :: MomentsInfo
  me_self :: Identity
  me_peers :: PeerSet

definition m_cross_peers :: "MomentsEnv \<Rightarrow> Identity list" where
  "m_cross_peers E = filter (\<lambda>other. vertical other \<noteq> vertical (me_self E)) (forEachDataowner (me_peers E))"

definition m_temp_revealer :: "MomentsEnv \<Rightarrow> Identity \<Rightarrow> Identity" where
  "m_temp_revealer E other =
     (if mi_selfVertical (me_info E) = mi_dataVertical (me_info E) then me_self E else other)"

subsection \<open>Construction\<close>

definition m_padding_row :: "MomentsInfo \<Rightarrow> LargeNum list \<Rightarrow> Observation" where
  "m_padding_row info keys =
     \<lparr>keyCols = take (mi_numKeyCols info) keys, arithmeticPayloadCols = replicate (mi_payloadLength info) 0,
      XORPayloadCols = []\<rparr>"

definition m_computePayloadVectorAndPadList ::
  "GlobalInfo \<Rightarrow> MomentsInfo \<Rightarrow> (nat \<Rightarrow> LargeNum list) \<Rightarrow> ObservationList \<Rightarrow> ObservationList" where
  "m_computePayloadVectorAndPadList globals info keys own =
     own\<lparr>elements := elements own @ map (\<lambda>i. m_padding_row info (keys i)) [0..<maxListSize globals - length (elements own)],
         numArithmeticPayloadCols := mi_payloadLength info, numKeyCols := mi_numKeyCols info, numXORPayloadCols := 0\<rparr>"

definition m_my_observation ::
  "ff_arith \<Rightarrow> MomentsInfo \<Rightarrow> ObservationList \<Rightarrow> Observation \<Rightarrow> Observation \<Rightarrow> Observation" where
  "m_my_observation A info own ob rnd =
     \<lparr>keyCols = map (\<lambda>k. modSub A (keyCols ob ! k) (keyCols rnd ! k) (mi_keyModulus info)) [0..<numKeyCols own],
      arithmeticPayloadCols = map (\<lambda>k. modSub A (arithmeticPayloadCols ob ! k) (arithmeticPayloadCols rnd ! k)
        (mi_startModulus info)) [0..<numArithmeticPayloadCols own],
      XORPayloadCols = map (\<lambda>k. XORPayloadCols ob ! k XOR XORPayloadCols rnd ! k) [0..<numXORPayloadCols own]\<rparr>"

definition m_setupCrossVerticalShares ::
  "ff_arith \<Rightarrow> GlobalInfo \<Rightarrow> MomentsInfo \<Rightarrow> (nat \<Rightarrow> nat \<Rightarrow> Observation) \<Rightarrow> Moments \<Rightarrow> Moments" where
  "m_setupCrossVerticalShares A globals info rnd st =
     (let n = maxListSize globals; own = m_ownList st;
          mine = (\<lambda>i. map (\<lambda>j. m_my_observation A info own (elements own ! j) (rnd i j)) [0..<n]);
          gap = replicate n empty_observation
      in st\<lparr>m_outgoingListShares := m_outgoingListShares st @
              map (\<lambda>i. map (\<lambda>j. outgoing_observation own (rnd i j)) [0..<n]) [0..<mi_numCrossParties info],
            m_sharedLists := m_sharedLists st @
              map (\<lambda>i. if mi_selfVertical info \<noteq> mi_dataVertical info then gap @ mine i else mine i @ gap)
                [0..<mi_numCrossParties info]\<rparr>)"

definition Moments_new ::
  "ff_arith \<Rightarrow> GlobalInfo \<Rightarrow> MomentsInfo \<Rightarrow> (nat \<Rightarrow> LargeNum list) \<Rightarrow> (nat \<Rightarrow> nat \<Rightarrow> Observation) \<Rightarrow> ObservationList
    \<Rightarrow> Moments" where
  "Moments_new A globals info keys rnd olist =
     m_setupCrossVerticalShares A globals info rnd
       \<lparr>m_state = m_awaitingRandomnessAndSISOSort,
        m_ownList = m_computePayloadVectorAndPadList globals info keys olist,
        m_outgoingListShares = [], m_sharedLists = [], m_indexOfCrossParties = [], m_numPartiesAwaiting = 0,
        m_randomnessDone = False, m_abortFlag = False, m_vectorZippedAdjacent = [], powerSumsStartModulus = [],
        powerSums = [], expectationOfNthPow = []\<rparr>"

subsection \<open>Setup and exchange\<close>

definition m_setupCrossParties :: "MomentsEnv \<Rightarrow> Moments \<Rightarrow> Moments" where
  "m_setupCrossParties E st =
     st\<lparr>m_indexOfCrossParties := map (\<lambda>(i, other). (other, i)) (enumerate 0 (m_cross_peers E)),
        m_numPartiesAwaiting := mi_numCrossParties (me_info E)\<rparr>"

definition m_share_message :: "MomentsEnv \<Rightarrow> Moments \<Rightarrow> nat \<Rightarrow> bytes" where
  "m_share_message E st i =
     concat (map (\<lambda>j. write_observation (me_msg E) (m_outgoingListShares st ! i ! j))
       [0..<maxListSize (me_globals E)])"

definition m_shareWithCrossVerticalParties :: "MomentsEnv \<Rightarrow> Moments \<Rightarrow> moments_effect list" where
  "m_shareWithCrossVerticalParties E st =
     map (\<lambda>(i, other). Send other (m_share_message E st i)) (enumerate 0 (m_cross_peers E))"

text \<open>\<open>abort\<close> is the library's; it ends the protocol without a result.\<close>

definition Moments_init :: "MomentsEnv \<Rightarrow> Moments \<Rightarrow> (Moments \<times> moments_effect list) option" where
  "Moments_init E st =
     (if m_abortFlag st then None
      else (let st = m_setupCrossParties E (st\<lparr>m_state := m_awaitingRandomnessAndSISOSort\<rparr>)
            in Some (st, m_shareWithCrossVerticalParties E st @
                 [Invoke (MPatron 1 (map_option removeRecipients (PeerSet_copy (me_peers E))))])))"

definition m_siso_call :: "MomentsEnv \<Rightarrow> Moments \<Rightarrow> nat \<Rightarrow> Identity \<Rightarrow> moments_call" where
  "m_siso_call E st i other =
     MRun [PSISOSort (m_sharedLists st ! i) (mi_startModulus (me_info E)) (mi_keyModulus (me_info E))
             (m_temp_revealer E other) (mi_dealer (me_info E))]
       (fold (\<lambda>d ps. case ps of None \<Rightarrow> None | Some ps \<Rightarrow> PeerSet_add d ps) (forEachDealer (me_peers E))
         (pair_peers (me_self E) other))"

definition Moments_handleReceive ::
  "MomentsEnv \<Rightarrow> Identity \<Rightarrow> bytes \<Rightarrow> Moments \<Rightarrow> Moments \<times> moments_effect list" where
  "Moments_handleReceive E sender msg st =
     (let n = maxListSize (me_globals E); info = me_info E;
          obs = read_observations (me_msg E) (m_ownList st) n msg;
          off = n * (if mi_selfVertical info = mi_dataVertical info then 1 else 0);
          k = cross_index sender (m_indexOfCrossParties st);
          st = st\<lparr>m_sharedLists := (m_sharedLists st)[k := store_shares off obs (m_sharedLists st ! k)],
                  m_numPartiesAwaiting := m_numPartiesAwaiting st - 1\<rparr>
      in if m_numPartiesAwaiting st = 0 then
           (st\<lparr>m_numPartiesAwaiting := mi_numCrossParties info, m_state := m_awaitingSISOSort\<rparr>,
            map (\<lambda>(i, other). Invoke (m_siso_call E st i other)) (enumerate 0 (m_cross_peers E)))
         else (st, []))"

subsection \<open>Completions\<close>

definition m_join_randomness :: "completed \<Rightarrow> Moments \<Rightarrow> Moments \<times> bool" where
  "m_join_randomness f st =
     (if \<not> m_randomnessDone st then
        (if \<not> is_patron f then
           let st = st\<lparr>m_numPartiesAwaiting := m_numPartiesAwaiting st - 1\<rparr>
           in (if m_numPartiesAwaiting st = 0 then st\<lparr>m_state := m_awaitingRandomnessOnly\<rparr> else st, False)
         else
           let st = st\<lparr>m_randomnessDone := True\<rparr>
           in if m_state st = m_awaitingRandomnessOnly
              then (st\<lparr>m_numPartiesAwaiting := 1, m_state := m_awaitingSISOSort\<rparr>, True)
              else (st\<lparr>m_state := m_awaitingSISOSort\<rparr>, False))
      else (st, True))"

definition m_zip_call :: "MomentsEnv \<Rightarrow> Moments \<Rightarrow> nat \<Rightarrow> Identity \<Rightarrow> moments_call" where
  "m_zip_call E st i other =
     MRun [PZipAdjacent (m_sharedLists st ! i) (2 * maxListSize (me_globals E)) (mi_payloadLength (me_info E))
             (mi_startModulus (me_info E)) (m_temp_revealer E other)]
       (pair_peers (me_self E) other)"

definition m_complete_SISOSort :: "MomentsEnv \<Rightarrow> Moments \<Rightarrow> Moments \<times> moments_effect list" where
  "m_complete_SISOSort E st =
     (let st = st\<lparr>m_numPartiesAwaiting := m_numPartiesAwaiting st - 1\<rparr>
      in if m_numPartiesAwaiting st = 0 then
           (st\<lparr>m_numPartiesAwaiting := mi_numCrossParties (me_info E),
               m_vectorZippedAdjacent := take (mi_numCrossParties (me_info E)) (m_vectorZippedAdjacent st) @
                 replicate (mi_numCrossParties (me_info E) - length (m_vectorZippedAdjacent st)) [],
               m_state := m_awaitingZipAdjacent\<rparr>,
            map (\<lambda>(i, other). Invoke (m_zip_call E st i other)) (enumerate 0 (m_cross_peers E)))
         else (st, []))"

definition m_zip_cross_party :: "MomentsEnv \<Rightarrow> completed \<Rightarrow> Identity" where
  "m_zip_cross_party E f =
     fold (\<lambda>other c. if identity_ne other (me_self E) then other else c)
       (forEachDataowner (f_peers f)) Identity_default"

definition add_powers :: "ff_arith \<Rightarrow> MomentsInfo \<Rightarrow> Observation \<Rightarrow> LargeNum list \<Rightarrow> LargeNum list" where
  "add_powers A info ob vec =
     map (\<lambda>i. modAdd A (vec ! i) (arithmeticPayloadCols ob ! i) (mi_startModulus info)) [0..<mi_payloadLength info]"

definition power_sums :: "MomentsEnv \<Rightarrow> Observation list list \<Rightarrow> LargeNum list \<Rightarrow> LargeNum list" where
  "power_sums E zipped vec =
     fold (\<lambda>o_list. fold (add_powers (me_arith E) (me_info E)) o_list) zipped
       (resize_zero (mi_payloadLength (me_info E)) vec)"

definition m_run_workers :: "MomentsEnv \<Rightarrow> prim list \<Rightarrow> moments_effect list" where
  "m_run_workers E ps = [Invoke (MRun ps (workers (me_peers E)))]"

definition m_complete_ZipAdjacent :: "MomentsEnv \<Rightarrow> completed \<Rightarrow> Moments \<Rightarrow> Moments \<times> moments_effect list" where
  "m_complete_ZipAdjacent E f st =
     (let k = cross_index (m_zip_cross_party E f) (m_indexOfCrossParties st);
          st = st\<lparr>m_vectorZippedAdjacent := (m_vectorZippedAdjacent st)[k := out_list f],
                  m_numPartiesAwaiting := m_numPartiesAwaiting st - 1\<rparr>
      in if m_numPartiesAwaiting st = 0 then
           let vec = power_sums E (m_vectorZippedAdjacent st) (powerSumsStartModulus st)
           in (st\<lparr>powerSumsStartModulus := vec, m_state := m_awaitingBatchedModConvUp\<rparr>,
               m_run_workers E (map (\<lambda>i. PModConvUp (vec ! i)) [0..<mi_payloadLength (me_info E)]))
         else (st, []))"

definition m_complete_BatchedModConvUp :: "MomentsEnv \<Rightarrow> completed \<Rightarrow> Moments \<Rightarrow> Moments \<times> moments_effect list" where
  "m_complete_BatchedModConvUp E f st =
     (let vec = fold (\<lambda>i v. v[i := out_nums f ! i]) [0..<length (out_nums f)]
            (resize_zero (mi_payloadLength (me_info E)) (powerSums st))
      in (st\<lparr>powerSums := vec,
             expectationOfNthPow := (resize_zero (length vec) (expectationOfNthPow st))[0 := vec ! 0],
             m_state := m_awaitingDivision\<rparr>,
          m_run_workers E (map (\<lambda>i. PDivide (vec ! i * 2 ^ bitsOfPrecision (me_globals E)) (vec ! 0))
            [1..<length vec])))"

text \<open>The division for the power \<open>i\<close> writes its result through the pointer it was given.\<close>

definition divided :: "completed \<Rightarrow> Moments \<Rightarrow> Moments" where
  "divided f st = st\<lparr>expectationOfNthPow := hd (expectationOfNthPow st) # out_nums f\<rparr>"

definition moments_message :: "MomentsEnv \<Rightarrow> Moments \<Rightarrow> bytes" where
  "moments_message E st =
     (if includeZerothMoment (me_info E) then wrLarge (me_msg E) (expectationOfNthPow st ! 0) else []) @
     concat (map (\<lambda>i. wrLarge (me_msg E) (expectationOfNthPow st ! i)) [1..<length (expectationOfNthPow st)])"

definition m_complete_Division :: "MomentsEnv \<Rightarrow> completed \<Rightarrow> Moments \<Rightarrow> Moments \<times> moments_effect list" where
  "m_complete_Division E f st =
     (let st = divided f st
      in (st, map (\<lambda>other. Send other (moments_message E st)) (forEachRecipient (me_peers E)) @ [Complete]))"

definition Moments_handleComplete :: "MomentsEnv \<Rightarrow> completed \<Rightarrow> Moments \<Rightarrow> Moments \<times> moments_effect list" where
  "Moments_handleComplete E f st =
     (let (st, go) = m_join_randomness f st
      in if \<not> go then (st, [])
         else (case m_state st of
             m_awaitingSISOSort \<Rightarrow> m_complete_SISOSort E st
           | m_awaitingZipAdjacent \<Rightarrow> m_complete_ZipAdjacent E f st
           | m_awaitingBatchedModConvUp \<Rightarrow> m_complete_BatchedModConvUp E f st
           | m_awaitingDivision \<Rightarrow> m_complete_Division E f st
           | _ \<Rightarrow> (st, [LogError])))"

subsection \<open>The exchange is that of the regression\<close>

definition as_info :: "MomentsInfo \<Rightarrow> RegressionInfo" where
  "as_info info =
     \<lparr>selfVertical = mi_selfVertical info, verticalDV = mi_dataVertical info, verticalDV_numIVs = 0,
      verticalNonDV_numIVs = 0, numCrossParties = mi_numCrossParties info, num_IVs = 0, fitIntercept = False,
      reg_revealer = mi_revealer info, reg_dealer = mi_dealer info, payloadLength = mi_payloadLength info,
      bytesInCells = 0, max_table_rows = 0, keyModulus = mi_keyModulus info,
      startModulus = mi_startModulus info, endModulus = mi_endModulus info\<rparr>"

definition as_env :: "MomentsEnv \<Rightarrow> RegEnv" where
  "as_env E = \<lparr>env_arith = me_arith E, env_msg = me_msg E, env_globals = me_globals E,
     env_info = as_info (me_info E), env_self = me_self E, env_peers = me_peers E\<rparr>"

fun as_state :: "moments_state \<Rightarrow> reg_state" where
  "as_state m_awaitingRandomnessAndSISOSort = awaitingRandomnessAndSISOSort"
| "as_state m_awaitingRandomnessOnly = awaitingRandomnessOnly"
| "as_state m_awaitingSISOSort = awaitingSISOSort"
| "as_state m_awaitingZipAdjacent = awaitingZipAdjacent"
| "as_state m_awaitingBatchedModConvUp = awaitingBatchedModConvUp"
| "as_state m_awaitingDivision = awaitingDivision"

definition as_cross :: "Moments \<Rightarrow> RegCross" where
  "as_cross st =
     \<lparr>reg_state = as_state (m_state st), ownList = m_ownList st, outgoingListShares = m_outgoingListShares st,
      sharedLists = m_sharedLists st, indexOfCrossParties = m_indexOfCrossParties st,
      RegCross.numPartiesAwaiting = m_numPartiesAwaiting st, randomnessDone = m_randomnessDone st,
      vectorZippedAdjacent = m_vectorZippedAdjacent st\<rparr>"

fun as_call :: "moments_call \<Rightarrow> reg_call" where
  "as_call (MRun ps peers) = Run ps peers"
| "as_call (MPatron n peers) = Run [PRandomnessPatron 0 0] peers"

abbreviation as_effects :: "moments_effect list \<Rightarrow> reg_effect list" where
  "as_effects \<equiv> map (map_effect as_call (\<lambda>m. m))"

lemmas as_defs = as_info_def as_env_def as_cross_def

lemma as_cross_peers [simp]: "cross_peers (as_env E) = m_cross_peers E"
  by (simp add: cross_peers_def m_cross_peers_def as_env_def)

lemma as_simps [simp]:
  "temp_revealer (as_env E) other = m_temp_revealer E other"
  "siso_call (as_env E) (as_cross st) i other = as_call (m_siso_call E st i other)"
  "zip_call (as_env E) (as_cross st) i other = as_call (m_zip_call E st i other)"
  "share_message (as_env E) (as_cross st) i = m_share_message E st i"
  "my_observation A (as_info info) own ob rnd = m_my_observation A info own ob rnd"
  "numCrossParties (env_info (as_env E)) = mi_numCrossParties (me_info E)"
  by (simp_all add: temp_revealer_def m_temp_revealer_def siso_call_def m_siso_call_def zip_call_def m_zip_call_def
      share_message_def m_share_message_def my_observation_def m_my_observation_def as_defs)

lemma as_state_eq [simp]:
  "as_state s = awaitingRandomnessOnly \<longleftrightarrow> s = m_awaitingRandomnessOnly"
  "as_state s = awaitingSISOSort \<longleftrightarrow> s = m_awaitingSISOSort"
  by (cases s; simp)+

lemma as_new:
  "as_cross (Moments_new A globals info keys rnd olist) =
     setupCrossVerticalShares A globals (as_info info) rnd
       (RegCross_new (m_computePayloadVectorAndPadList globals info keys olist))"
  by (simp add: Moments_new_def m_setupCrossVerticalShares_def setupCrossVerticalShares_def RegCross_new_def Let_def)
    (simp add: as_defs)

lemma as_init:
  assumes "Moments_init E st = Some (st', es)"
  shows "Regression_init (as_env E) 0 0 (as_cross st) = (as_cross st', as_effects es)"
proof -
  have "setupCrossParties (as_env E) (as_cross st\<lparr>reg_state := awaitingRandomnessAndSISOSort\<rparr>) = as_cross st'"
    using assms by (auto simp: Moments_init_def setupCrossParties_def m_setupCrossParties_def Let_def as_cross_def
        split: if_splits)
  moreover have "es = m_shareWithCrossVerticalParties E st' @
      [Invoke (MPatron 1 (map_option removeRecipients (PeerSet_copy (me_peers E))))]"
    using assms by (auto simp: Moments_init_def Let_def split: if_splits)
  moreover have "shareWithCrossVerticalParties (as_env E) (as_cross st')
      = as_effects (m_shareWithCrossVerticalParties E st')"
    by (simp add: shareWithCrossVerticalParties_def m_shareWithCrossVerticalParties_def o_def case_prod_beta)
  ultimately show ?thesis by (simp add: Regression_init_def as_env_def)
qed

lemma as_receive:
  assumes "Moments_handleReceive E sender msg st = (st', es)"
  shows "Regression_handleReceive (as_env E) sender msg (as_cross st) = (as_cross st', as_effects es)"
proof -
  define n where "n = maxListSize (me_globals E)"
  define k where "k = cross_index sender (m_indexOfCrossParties st)"
  define off where "off = n * (if mi_selfVertical (me_info E) = mi_dataVertical (me_info E) then 1 else 0)"
  define st1 where "st1 = st\<lparr>m_sharedLists := (m_sharedLists st)[k := store_shares off
      (read_observations (me_msg E) (m_ownList st) n msg) (m_sharedLists st ! k)],
    m_numPartiesAwaiting := m_numPartiesAwaiting st - 1\<rparr>"
  have m: "Moments_handleReceive E sender msg st =
     (if m_numPartiesAwaiting st1 = 0 then
        (st1\<lparr>m_numPartiesAwaiting := mi_numCrossParties (me_info E), m_state := m_awaitingSISOSort\<rparr>,
         map (\<lambda>(i, other). Invoke (m_siso_call E st1 i other)) (enumerate 0 (m_cross_peers E)))
      else (st1, []))"
    unfolding Moments_handleReceive_def n_def [symmetric] Let_def k_def [symmetric] off_def [symmetric]
      st1_def [symmetric] ..
  have r: "Regression_handleReceive (as_env E) sender msg (as_cross st) =
     (if RegCross.numPartiesAwaiting (as_cross st1) = 0 then
        (as_cross st1\<lparr>RegCross.numPartiesAwaiting := mi_numCrossParties (me_info E), reg_state := awaitingSISOSort\<rparr>,
         map (\<lambda>(i, other). Invoke (siso_call (as_env E) (as_cross st1) i other)) (enumerate 0 (m_cross_peers E)))
      else (as_cross st1, []))"
    by (simp add: Regression_handleReceive_def Let_def as_defs st1_def k_def off_def n_def flip: as_cross_peers)
  show ?thesis
    using assms by (simp add: m r o_def case_prod_beta) (auto simp: as_cross_def split: if_splits)
qed

definition m_join_complete :: "MomentsEnv \<Rightarrow> completed \<Rightarrow> Moments \<Rightarrow> Moments \<times> moments_effect list" where
  "m_join_complete E f st =
     (let (st, go) = m_join_randomness f st
      in if go \<and> m_state st = m_awaitingSISOSort then m_complete_SISOSort E st else (st, []))"

lemma as_join:
  "join_randomness f (as_cross st) = (as_cross (fst (m_join_randomness f st)), snd (m_join_randomness f st))"
  by (auto simp: join_randomness_def m_join_randomness_def as_cross_def Let_def)

lemma as_complete_SISOSort:
  "complete_SISOSort (as_env E) (as_cross st) =
     map_prod as_cross as_effects (m_complete_SISOSort E st)"
proof -
  define st1 where "st1 = st\<lparr>m_numPartiesAwaiting := m_numPartiesAwaiting st - 1\<rparr>"
  have st1: "as_cross st\<lparr>RegCross.numPartiesAwaiting := m_numPartiesAwaiting st1\<rparr> = as_cross st1"
    "RegCross.numPartiesAwaiting (as_cross st) = m_numPartiesAwaiting st" "m_numPartiesAwaiting st - 1 = m_numPartiesAwaiting st1"
    "st\<lparr>m_numPartiesAwaiting := m_numPartiesAwaiting st1\<rparr> = st1"
    by (simp_all add: st1_def as_cross_def)
  show ?thesis
    unfolding complete_SISOSort_def m_complete_SISOSort_def Let_def st1
    by (simp add: o_def case_prod_beta) (auto simp: as_cross_def)
qed

lemma as_complete:
  assumes "Moments_handleComplete E f st = (st', es)"
    and "snd (m_join_randomness f st) \<Longrightarrow> m_state (fst (m_join_randomness f st)) = m_awaitingSISOSort"
  shows "join_complete (as_env E) f (as_cross st) = (as_cross st', as_effects es)"
proof (cases "m_join_randomness f st")
  case (Pair st1 go)
  have m: "Moments_handleComplete E f st = (if go then m_complete_SISOSort E st1 else (st1, []))"
    using assms(2) by (simp add: Moments_handleComplete_def Pair)
  have "reg_state (as_cross st1) = awaitingSISOSort" if go
    using assms(2) that by (simp add: Pair as_cross_def)
  then have "join_complete (as_env E) f (as_cross st) =
      (if go then complete_SISOSort (as_env E) (as_cross st1) else (as_cross st1, []))"
    by (simp add: join_complete_def as_join Pair)
  then show ?thesis using assms(1) by (auto simp: m as_complete_SISOSort)
qed

text \<open>The events of the first phase of the moments protocol, as for the regression: \<open>rs\<close> and \<open>ss\<close> hold
  the cross parties whose share has arrived and whose sort is done.\<close>

definition m_sort_in_place :: "nat \<Rightarrow> Observation list \<Rightarrow> Moments \<Rightarrow> Moments" where
  "m_sort_in_place k xs st = st\<lparr>m_sharedLists := (m_sharedLists st)[k := xs]\<rparr>"

inductive moments_reach :: "MomentsEnv \<Rightarrow> (nat \<Rightarrow> Observation list) \<Rightarrow> Moments \<Rightarrow>
    Moments \<Rightarrow> nat list \<Rightarrow> bool \<Rightarrow> nat list \<Rightarrow> moments_effect list \<Rightarrow> bool"
  for E srt st0 where
  moments_start: "Moments_init E st0 = Some (st, es) \<Longrightarrow> moments_reach E srt st0 st [] False [] es"
| moments_share: "moments_reach E srt st0 st rs p ss es \<Longrightarrow> k < length (m_cross_peers E) \<Longrightarrow> k \<notin> set rs \<Longrightarrow>
    Moments_handleReceive E (m_cross_peers E ! k) msg st = (st', es') \<Longrightarrow>
    moments_reach E srt st0 st' (k # rs) p ss (es @ es')"
| moments_patron: "moments_reach E srt st0 st rs False ss es \<Longrightarrow> is_patron f \<Longrightarrow>
    Moments_handleComplete E f st = (st', es') \<Longrightarrow>
    moments_reach E srt st0 st' rs True ss (es @ es')"
| moments_sort: "moments_reach E srt st0 st rs p ss es \<Longrightarrow> length ss < length (filter is_siso (as_effects es)) \<Longrightarrow>
    k < length (m_cross_peers E) \<Longrightarrow> k \<notin> set ss \<Longrightarrow> \<not> is_patron f \<Longrightarrow>
    Moments_handleComplete E f (m_sort_in_place k (srt k) st) = (st', es') \<Longrightarrow>
    moments_reach E srt st0 st' rs p (k # ss) (es @ es')"

lemma as_sort_in_place: "as_cross (m_sort_in_place k xs st) = sort_in_place k xs (as_cross st)"
  by (simp add: m_sort_in_place_def sort_in_place_def as_cross_def)

definition moments_ready :: "MomentsEnv \<Rightarrow> Moments \<Rightarrow> bool" where
  "moments_ready E st0 \<longleftrightarrow> length (m_sharedLists st0) = length (m_cross_peers E) \<and>
     length (m_cross_peers E) = mi_numCrossParties (me_info E) \<and> m_cross_peers E \<noteq> [] \<and> \<not> m_randomnessDone st0"

lemma ready_join:
  assumes "join_reach (as_env E) srt (as_cross st0) st rs p ss es" "moments_ready E st0"
  defines "n \<equiv> length (m_cross_peers E)"
  shows "join_counts n st (length rs) p (length ss)" "join_lists n srt st rs ss"
    "join_effects (as_env E) srt (length rs) p (length ss) es"
  using join_invariant [OF assms(1)] assms(2) by (auto simp: moments_ready_def as_cross_def n_def)

lemma moments_reach_join:
  assumes "moments_reach E srt st0 st rs p ss es" "moments_ready E st0"
  shows "join_reach (as_env E) srt (as_cross st0) (as_cross st) rs p ss (as_effects es)"
  using assms(1)
proof induction
  case (moments_start st es)
  then show ?case by (rule join_reach.join_init [OF as_init])
next
  case (moments_share st rs p ss es k msg st' es')
  then show ?case using join_reach.join_share [OF moments_share.IH _ _ as_receive] by simp
next
  case (moments_patron st rs ss es f st' es')
  note inv = ready_join [OF moments_patron.IH assms(2)]
  have "snd (m_join_randomness f st) \<Longrightarrow> m_state (fst (m_join_randomness f st)) = m_awaitingSISOSort"
    using inv(1) moments_patron.hyps(2) by (auto simp: m_join_randomness_def join_counts_def as_cross_def Let_def
        split: if_splits)
  from join_reach.join_patron [OF moments_patron.IH moments_patron.hyps(2) as_complete [OF moments_patron.hyps(3) this]]
  show ?case by simp
next
  case (moments_sort st rs p ss es k f st' es')
  note inv = ready_join [OF moments_sort.IH assms(2)]
  have "length ss < length (m_cross_peers E)"
    using length_below(2) [of ss "length (m_cross_peers E)" k] inv(2) moments_sort.hyps by (simp add: join_lists_def)
  moreover have "length rs = length (m_cross_peers E)"
    using inv(3) moments_sort.hyps(2) by (auto simp: join_effects_def split: if_splits)
  ultimately have "snd (m_join_randomness f (m_sort_in_place k (srt k) st)) \<Longrightarrow>
      m_state (fst (m_join_randomness f (m_sort_in_place k (srt k) st))) = m_awaitingSISOSort"
    using inv(1) moments_sort.hyps(5) by (auto simp: m_join_randomness_def join_counts_def as_cross_def Let_def
        m_sort_in_place_def split: if_splits)
  from as_complete [OF moments_sort.hyps(6) this]
  have "join_complete (as_env E) f (sort_in_place k (srt k) (as_cross st)) = (as_cross st', as_effects es')"
    by (simp add: as_sort_in_place)
  from join_reach.join_sort [OF moments_sort.IH moments_sort.hyps(2) _ moments_sort.hyps(4,5) this] moments_sort.hyps(3)
  show ?case by simp
qed

text \<open>
  C23: The first phase of the moments protocol refines that of the regression. Every run of it, whatever
  the order in which shares, sorts and randomness come, is a run of the regression's exchange with the
  vertical of the data column for that of the dependent variable: the same state, messages and calls at
  every point. So its zips, too, start exactly once, with the sorted lists, when everything has come.
\<close>

theorem moments_refine_regression:
  assumes "moments_reach E srt st0 st rs p ss es" "moments_ready E st0"
  shows "join_reach (as_env E) srt (as_cross st0) (as_cross st) rs p ss (as_effects es)
    \<and> filter is_zip (as_effects es) =
        (if p \<and> length ss = length (m_cross_peers E) then zip_effects (as_env E) srt else [])"
proof
  show r: "join_reach (as_env E) srt (as_cross st0) (as_cross st) rs p ss (as_effects es)"
    by (rule moments_reach_join [OF assms])
  show "filter is_zip (as_effects es) =
      (if p \<and> length ss = length (m_cross_peers E) then zip_effects (as_env E) srt else [])"
    using ready_join [OF r assms(2)] by (auto simp: join_counts_def join_effects_def split: if_splits)
qed

subsection \<open>The recipient\<close>

record MomentsReceiver =
  mv_numDataowners :: nat
  mv_bitsOfPrecision :: nat
  mv_info :: MomentsInfo
  mv_results :: "LargeNum list"

definition MomentsReceiver_new :: "nat \<Rightarrow> MomentsInfo \<Rightarrow> MomentsReceiver" where
  "MomentsReceiver_new bits info =
     \<lparr>mv_numDataowners = 0, mv_bitsOfPrecision = bits, mv_info = info,
      mv_results = replicate (highest_moment info + (if includeZerothMoment info then 1 else 0)) 0\<rparr>"

definition MomentsReceiver_init :: "PeerSet \<Rightarrow> MomentsReceiver \<Rightarrow> MomentsReceiver" where
  "MomentsReceiver_init peers st = st\<lparr>mv_numDataowners := mv_numDataowners st + length (forEachDataowner peers)\<rparr>"

text \<open>
  The arithmetic of doubles: \<open>fp_round\<close> rounds the result of an operation, \<open>fp_sqrt\<close> is the square
  root, \<open>None\<close> for a negative number. A quotient by zero is not a number either. \<open>1 << n\<close> is a shift of
  an \<open>int\<close>, undefined from 31 on.
\<close>

record doubles =
  fp_round :: "rat \<Rightarrow> rat"
  fp_sqrt :: "rat \<Rightarrow> rat option"

definition shl_one :: "nat \<Rightarrow> nat option" where
  "shl_one n = (if n < 31 then Some (2 ^ n) else None)"

definition raw_moments :: "doubles \<Rightarrow> nat \<Rightarrow> nat list \<Rightarrow> rat list option" where
  "raw_moments D bits xs =
     those (map (\<lambda>i. map_option (\<lambda>d. fp_round D (fp_round D (of_nat (xs ! i)) / of_nat d)) (shl_one ((i + 2) * bits)))
       [0..<length xs])"

definition variance :: "doubles \<Rightarrow> rat \<Rightarrow> rat \<Rightarrow> rat" where
  "variance D m0 m1 = fp_round D (m1 - fp_round D (m0 * m0))"

definition skew :: "doubles \<Rightarrow> rat \<Rightarrow> rat \<Rightarrow> rat \<Rightarrow> rat option" where
  "skew D m0 m1 m2 =
     (let rd = fp_round D;
          m = rd (rd (m2 - rd (rd (3 * m0) * m1)) - rd (rd (m0 * m0) * m0))
      in case fp_sqrt D (rd (rd (m1 * m1) * m1)) of
           None \<Rightarrow> None
         | Some s \<Rightarrow> if s = 0 then None else Some (rd (m / s)))"

definition moment_values :: "doubles \<Rightarrow> rat list \<Rightarrow> rat option list" where
  "moment_values D ms =
     (let ms = (if length ms > 1 then ms[1 := variance D (ms ! 0) (ms ! 1)] else ms)
      in if length ms > 2 then (map Some ms)[2 := skew D (ms ! 0) (ms ! 1) (ms ! 2)] else map Some ms)"

text \<open>The lines of the printed table; there are names for three moments.\<close>

definition moment_names :: "string list" where
  "moment_names = [''Mean     '', ''Variance '', ''Skew     '']"

definition MomentsPrettyPrint :: "doubles \<Rightarrow> nat list \<Rightarrow> bool \<Rightarrow> nat \<Rightarrow> (string \<times> rat option) list option" where
  "MomentsPrettyPrint D results includeCount bits =
     (let off = (if includeCount then 1 else 0);
          count = (if includeCount then [(''Count'', Some (fp_round D (of_nat (results ! 0))))] else [])
      in case raw_moments D bits (drop off results) of
           None \<Rightarrow> None
         | Some ms \<Rightarrow> if length ms \<le> length moment_names
             then Some (count @ zip moment_names (moment_values D ms)) else None)"

text \<open>\<open>toSmall\<close> is the conversion of the library's big numbers to its small ones. The outer option is
  the call, the inner one the table it prints when the last message has come.\<close>

definition MomentsReceiver_handleReceive ::
  "ff_msg \<Rightarrow> ff_arith \<Rightarrow> doubles \<Rightarrow> (LargeNum \<Rightarrow> nat) \<Rightarrow> bytes \<Rightarrow> MomentsReceiver \<Rightarrow>
     (MomentsReceiver \<times> (string \<times> rat option) list option) option" where
  "MomentsReceiver_handleReceive M A D toSmall buf st =
     (let (res, buf) = add_shares M A (mi_endModulus (mv_info st)) (mv_results st) buf;
          st = st\<lparr>mv_results := res, mv_numDataowners := one_less (mv_numDataowners st)\<rparr>
      in if mv_numDataowners st = 0 then
           map_option (\<lambda>t. (st, Some t))
             (MomentsPrettyPrint D (map toSmall (mv_results st)) (includeZerothMoment (mv_info st)) (mv_bitsOfPrecision st))
         else Some (st, None))"

fun receive_moments :: "ff_msg \<Rightarrow> ff_arith \<Rightarrow> doubles \<Rightarrow> (LargeNum \<Rightarrow> nat) \<Rightarrow> bytes list \<Rightarrow> MomentsReceiver \<Rightarrow>
    (string \<times> rat option) list option list option" where
  "receive_moments M A D toSmall [] st = Some []"
| "receive_moments M A D toSmall (buf # bufs) st =
     (case MomentsReceiver_handleReceive M A D toSmall buf st of
        None \<Rightarrow> None
      | Some (st', t) \<Rightarrow> map_option ((#) t) (receive_moments M A D toSmall bufs st'))"

subsection \<open>What the shares open to\<close>

text \<open>A dataowner from its last zip on: its state, and the three sub-protocols that complete.\<close>

record moments_run =
  mr_env :: MomentsEnv
  mr_st :: Moments
  mr_zip :: completed
  mr_conv :: completed
  mr_div :: completed

definition zipped :: "moments_run \<Rightarrow> Observation list" where
  "zipped x = (let E = mr_env x; st = mr_st x in
     concat ((m_vectorZippedAdjacent st)[cross_index (m_zip_cross_party E (mr_zip x)) (m_indexOfCrossParties st)
       := out_list (mr_zip x)]))"

definition column_sum :: "nat \<Rightarrow> moments_run \<Rightarrow> nat" where
  "column_sum i x = (\<Sum>ob\<leftarrow>zipped x. arithmeticPayloadCols ob ! i)"

abbreviation "after_zip x \<equiv> Moments_handleComplete (mr_env x) (mr_zip x) (mr_st x)"
abbreviation "after_conv x \<equiv> Moments_handleComplete (mr_env x) (mr_conv x) (fst (after_zip x))"
abbreviation "after_div x \<equiv> Moments_handleComplete (mr_env x) (mr_div x) (fst (after_conv x))"

text \<open>The contracts of the two batches, at every position: the conversion opens to the same number
  modulo the end modulus, the division to the quotient, when the numerator is at most half of the
  modulus. The outputs are shares below the end modulus.\<close>

fun args_of :: "prim \<Rightarrow> nat \<times> nat" where
  "args_of (PModConvUp a) = (a, 0)"
| "args_of (PDivide a b) = (a, b)"
| "args_of _ = (0, 0)"

fun m_prims :: "moments_effect list \<Rightarrow> prim list" where
  "m_prims [Invoke (MRun ps _)] = ps"
| "m_prims _ = []"

definition outputs_ok :: "nat \<Rightarrow> ('a \<Rightarrow> prim list) \<Rightarrow> ('a \<Rightarrow> nat list) \<Rightarrow> 'a list \<Rightarrow> bool" where
  "outputs_ok e batch outs xs \<longleftrightarrow>
     list_all (\<lambda>x. length (outs x) = length (batch x) \<and> list_all (\<lambda>v. v < e) (outs x)) xs"

definition converts_up :: "nat \<Rightarrow> nat \<Rightarrow> ('a \<Rightarrow> prim list) \<Rightarrow> ('a \<Rightarrow> nat list) \<Rightarrow> 'a list \<Rightarrow> bool" where
  "converts_up s e batch outs xs \<longleftrightarrow> outputs_ok e batch outs xs \<and>
     list_all (\<lambda>k. open_mod e (map (\<lambda>x. outs x ! k) xs) = open_mod s (map (\<lambda>x. fst (args_of (batch x ! k))) xs))
       [0..<length (batch (hd xs))]"

definition divides :: "nat \<Rightarrow> ('a \<Rightarrow> prim list) \<Rightarrow> ('a \<Rightarrow> nat list) \<Rightarrow> 'a list \<Rightarrow> bool" where
  "divides e batch outs xs \<longleftrightarrow> outputs_ok e batch outs xs \<and>
     list_all (\<lambda>k. let n = open_mod e (map (\<lambda>x. fst (args_of (batch x ! k))) xs);
                      d = open_mod e (map (\<lambda>x. snd (args_of (batch x ! k))) xs)
                  in 0 < d \<longrightarrow> 2 * n \<le> e \<longrightarrow> open_mod e (map (\<lambda>x. outs x ! k) xs) = n div d)
       [0..<length (batch (hd xs))]"

lemma open_mod_mod: "open_mod p (map (\<lambda>x. f x mod p) xs) = open_mod p (map f xs)"
  by (induction xs) (simp_all add: open_mod_def mod_simps, metis mod_add_right_eq)

lemma open_mod_scale: "open_mod p (map (\<lambda>x. f x * c) xs) = (open_mod p (map f xs) * c) mod p"
  by (simp add: open_mod_def sum_list_mult_const mod_mult_left_eq)

lemma fold_writes: "length v = length xs \<Longrightarrow> fold (\<lambda>i v. v[i := xs ! i]) [0..<length xs] v = xs"
proof -
  assume len: "length v = length xs"
  have "k \<le> length xs \<Longrightarrow> fold (\<lambda>i v. v[i := xs ! i]) [0..<k] v = take k xs @ drop k v" for k
  proof (induction k)
    case (Suc k)
    then have "(take k xs @ drop k v)[k := xs ! k] = take (Suc k) xs @ drop (Suc k) v"
      using len by (simp add: list_update_append take_Suc_conv_app_nth upd_conv_take_nth_drop
          flip: Cons_nth_drop_Suc)
    then show ?case using Suc by simp
  qed simp
  from this [of "length xs"] show ?thesis using len by simp
qed

lemma fold_concat: "fold (fold f) xss v = fold f (concat xss) v"
  by (induction xss arbitrary: v) simp_all

lemma fold_add_powers:
  assumes "ff_arith_ok A" "0 < mi_startModulus info"
  shows "list_all (\<lambda>ob. list_all (\<lambda>i. arithmeticPayloadCols ob ! i < mi_startModulus info) [0..<mi_payloadLength info]) obs \<Longrightarrow>
    length v = mi_payloadLength info \<Longrightarrow> list_all (\<lambda>a. a < mi_startModulus info) v \<Longrightarrow>
    fold (add_powers A info) obs v =
      map (\<lambda>i. (v ! i + (\<Sum>ob\<leftarrow>obs. arithmeticPayloadCols ob ! i)) mod mi_startModulus info) [0..<mi_payloadLength info]"
proof (induction obs arbitrary: v)
  case Nil
  then show ?case by (simp add: list_all_length list_eq_iff_nth_eq)
next
  case (Cons ob obs)
  let ?s = "mi_startModulus info" and ?n = "mi_payloadLength info"
  have "modAdd A (v ! i) (arithmeticPayloadCols ob ! i) ?s = (v ! i + arithmeticPayloadCols ob ! i) mod ?s" if "i < ?n" for i
  proof (rule ff_arith_okD(1) [OF assms(1)])
    show "v ! i < ?s" using that Cons.prems(2,3) by (simp add: list_all_length)
    show "arithmeticPayloadCols ob ! i < ?s" using that Cons.prems(1) by (simp add: list_all_iff)
  qed
  then have "add_powers A info ob v = map (\<lambda>i. (v ! i + arithmeticPayloadCols ob ! i) mod ?s) [0..<?n]"
    by (simp add: add_powers_def)
  moreover have "list_all (\<lambda>a. a < ?s) (map (\<lambda>i. (v ! i + arithmeticPayloadCols ob ! i) mod ?s) [0..<?n])"
    using assms(2) by (simp add: list_all_length)
  moreover note Cons.IH [OF _ _ this]
  ultimately show ?case using Cons.prems(1) by (simp add: mod_add_left_eq add.assoc)
qed

definition moments_query :: "ff_msg \<Rightarrow> nat \<Rightarrow> nat \<Rightarrow> nat \<Rightarrow> bool \<Rightarrow> nat \<Rightarrow> moments_run \<Rightarrow> bool" where
  "moments_query M s e h z b x \<longleftrightarrow> (let E = mr_env x; info = me_info E; st = mr_st x in
     me_msg E = M \<and> ff_arith_ok (me_arith E) \<and> mi_startModulus info = s \<and> mi_endModulus info = e \<and>
     mi_payloadLength info = h + 1 \<and> includeZerothMoment info = z \<and> bitsOfPrecision (me_globals E) = b \<and>
     m_state st = m_awaitingZipAdjacent \<and> m_randomnessDone st \<and> m_numPartiesAwaiting st = 1 \<and>
     powerSumsStartModulus st = [] \<and> powerSums st = [] \<and> expectationOfNthPow st = [] \<and>
     list_all (\<lambda>ob. list_all (\<lambda>i. arithmeticPayloadCols ob ! i < s) [0..<h + 1]) (zipped x))"

definition start_sums :: "moments_run \<Rightarrow> nat list" where
  "start_sums x = powerSumsStartModulus (fst (after_zip x))"

lemma after_zip_fields:
  assumes "moments_query M s e h z b x" "0 < s"
  shows "start_sums x = map (\<lambda>i. column_sum i x mod s) [0..<h + 1]"
    and "m_prims (snd (after_zip x)) = map (\<lambda>i. PModConvUp (start_sums x ! i)) [0..<h + 1]"
    and "m_state (fst (after_zip x)) = m_awaitingBatchedModConvUp" "m_randomnessDone (fst (after_zip x))"
    and "powerSums (fst (after_zip x)) = []" "expectationOfNthPow (fst (after_zip x)) = []"
proof -
  let ?E = "mr_env x" and ?st = "mr_st x"
  define z' where "z' = (m_vectorZippedAdjacent ?st)[cross_index (m_zip_cross_party ?E (mr_zip x)) (m_indexOfCrossParties ?st)
       := out_list (mr_zip x)]"
  have zipped: "zipped x = concat z'" by (simp add: zipped_def z'_def Let_def)
  have q: "mi_startModulus (me_info ?E) = s" "mi_payloadLength (me_info ?E) = h + 1" "ff_arith_ok (me_arith ?E)"
    "m_randomnessDone ?st" "m_state ?st = m_awaitingZipAdjacent" "m_numPartiesAwaiting ?st = 1"
    "powerSumsStartModulus ?st = []" "powerSums ?st = []" "expectationOfNthPow ?st = []"
    "list_all (\<lambda>ob. list_all (\<lambda>i. arithmeticPayloadCols ob ! i < s) [0..<h + 1]) (concat z')"
    using assms(1) by (simp_all add: moments_query_def Let_def flip: zipped)
  have zip: "after_zip x = m_complete_ZipAdjacent ?E (mr_zip x) ?st"
    using q(4,5) by (simp add: Moments_handleComplete_def m_join_randomness_def)
  note run = zip m_complete_ZipAdjacent_def q(6) z'_def [symmetric]
  show "m_prims (snd (after_zip x)) = map (\<lambda>i. PModConvUp (start_sums x ! i)) [0..<h + 1]"
    "m_state (fst (after_zip x)) = m_awaitingBatchedModConvUp" "m_randomnessDone (fst (after_zip x))"
    "powerSums (fst (after_zip x)) = []" "expectationOfNthPow (fst (after_zip x)) = []"
    using q by (simp_all add: run Let_def start_sums_def m_run_workers_def del: upt_Suc)
  have "start_sums x = power_sums ?E z' []"
    using q(7) by (simp add: run Let_def start_sums_def)
  also have "\<dots> = map (\<lambda>i. column_sum i x mod s) [0..<h + 1]"
    using fold_add_powers [of "me_arith ?E" "me_info ?E" "concat z'" "replicate (h + 1) 0"] q(1-3,10) assms(2)
    by (simp add: power_sums_def fold_concat resize_zero_def zipped column_sum_def list_all_length del: upt_Suc replicate_Suc)
  finally show "start_sums x = map (\<lambda>i. column_sum i x mod s) [0..<h + 1]" .
qed

lemma after_conv_fields:
  assumes "moments_query M s e h z b x" "0 < s" "length (out_nums (mr_conv x)) = h + 1"
  shows "m_prims (snd (after_conv x)) =
      map (\<lambda>i. PDivide (out_nums (mr_conv x) ! i * 2 ^ b) (out_nums (mr_conv x) ! 0)) [1..<h + 1]"
    and "m_state (fst (after_conv x)) = m_awaitingDivision" "m_randomnessDone (fst (after_conv x))"
    and "hd (expectationOfNthPow (fst (after_conv x))) = out_nums (mr_conv x) ! 0"
proof -
  let ?E = "mr_env x" and ?st = "fst (after_zip x)" and ?o = "out_nums (mr_conv x)"
  note z = after_zip_fields [OF assms(1,2)]
  have q: "mi_payloadLength (me_info ?E) = length ?o" "bitsOfPrecision (me_globals ?E) = b" "length ?o = h + 1"
    using assms(1,3) by (simp_all add: moments_query_def Let_def)
  have conv: "after_conv x = m_complete_BatchedModConvUp ?E (mr_conv x) ?st"
    using z(3,4) by (simp add: Moments_handleComplete_def m_join_randomness_def)
  have writes: "fold (\<lambda>i v. v[i := ?o ! i]) [0..<length ?o] (resize_zero (length ?o) []) = ?o"
    by (rule fold_writes) simp
  have conv': "after_conv x =
      (?st\<lparr>powerSums := ?o, expectationOfNthPow := (resize_zero (length ?o) [])[0 := ?o ! 0], m_state := m_awaitingDivision\<rparr>,
       m_run_workers ?E (map (\<lambda>i. PDivide (?o ! i * 2 ^ b) (?o ! 0)) [1..<length ?o]))"
    unfolding conv m_complete_BatchedModConvUp_def z(5,6) q(1,2) writes Let_def ..
  show "m_prims (snd (after_conv x)) = map (\<lambda>i. PDivide (?o ! i * 2 ^ b) (?o ! 0)) [1..<h + 1]"
    "m_state (fst (after_conv x)) = m_awaitingDivision" "m_randomnessDone (fst (after_conv x))"
    "hd (expectationOfNthPow (fst (after_conv x))) = ?o ! 0"
    unfolding conv' by (simp_all add: z(4) q(3) m_run_workers_def resize_zero_def del: upt_Suc)
qed

definition moments_sent :: "moments_run \<Rightarrow> bytes" where
  "moments_sent x = moments_message (mr_env x) (fst (after_div x))"

definition sent_values :: "moments_run \<Rightarrow> nat list" where
  "sent_values x = (if includeZerothMoment (me_info (mr_env x)) then [out_nums (mr_conv x) ! 0] else []) @ out_nums (mr_div x)"

lemma nths_from_1: "map (\<lambda>i. f ((a # xs) ! i)) [Suc 0..<Suc (length xs)] = map f xs"
  by (rule nth_equalityI) (simp_all del: upt_Suc)

lemma division_message:
  assumes "hd (expectationOfNthPow st) = v"
  shows "moments_message E (divided f st) =
    concat (map (wrLarge (me_msg E)) ((if includeZerothMoment (me_info E) then [v] else []) @ out_nums f))"
  using nths_from_1 [of "wrLarge (me_msg E)" v "out_nums f"] assms
  by (simp add: moments_message_def divided_def del: upt_Suc)

lemma after_div_fields:
  assumes "moments_query M s e h z b x" "0 < s" "length (out_nums (mr_conv x)) = h + 1"
  shows "snd (after_div x) = map (\<lambda>r. Send r (moments_sent x)) (forEachRecipient (me_peers (mr_env x))) @ [Complete]"
    and "moments_sent x = concat (map (wrLarge M) (sent_values x))"
proof -
  note c = after_conv_fields [OF assms]
  have div: "after_div x = m_complete_Division (mr_env x) (mr_div x) (fst (after_conv x))"
    using c(2,3) by (simp add: Moments_handleComplete_def [of _ "mr_div x"] m_join_randomness_def)
  show "snd (after_div x) = map (\<lambda>r. Send r (moments_sent x)) (forEachRecipient (me_peers (mr_env x))) @ [Complete]"
    unfolding div moments_sent_def m_complete_Division_def Let_def by simp
  have "me_msg (mr_env x) = M" using assms(1) by (simp add: moments_query_def Let_def)
  then show "moments_sent x = concat (map (wrLarge M) (sent_values x))"
    unfolding div moments_sent_def m_complete_Division_def Let_def fst_conv division_message [OF c(4)] sent_values_def by simp
qed

context ff_messages begin

lemma add_shares_numbers:
  assumes "ff_arith_ok A" "length ys = length xs" "list_all (\<lambda>x. x < p) xs" "list_all (\<lambda>y. y < p) ys"
  shows "add_shares M A p xs (concat (map (wrLarge M) ys)) = (map (\<lambda>i. (xs ! i + ys ! i) mod p) [0..<length xs], [])"
proof -
  have "map (\<lambda>i. xs ! i) [0..<length xs] = xs" by (rule map_nth)
  moreover have "map (\<lambda>i. wrLarge M (ys ! i)) [0..<length xs] = map (wrLarge M) ys"
    by (rule nth_equalityI) (simp_all add: assms(2))
  ultimately have "map (\<lambda>i. xs ! i) [0..<length xs] = xs" "map (\<lambda>i. wrLarge M (ys ! i)) [0..<length xs] = map (wrLarge M) ys"
    by blast+
  then show ?thesis
    using add_shares_written [OF assms(1), of "[0..<length xs]" "\<lambda>i. xs ! i" p "\<lambda>i. ys ! i" "[]"] assms(2-4)
    by (simp add: list_all_length)
qed

end

text \<open>The sums of the values sent, position by position.\<close>

definition open_values :: "nat \<Rightarrow> nat \<Rightarrow> nat list list \<Rightarrow> nat list" where
  "open_values e n vss = map (\<lambda>i. open_mod e (map (\<lambda>vs. vs ! i) vss)) [0..<n]"

lemma receive_moments_opens:
  assumes M: "ff_msg_ok M" and A: "ff_arith_ok A" and e: "0 < e" and info: "mi_endModulus info = e"
  shows "list_all (\<lambda>vs. length vs = n \<and> list_all (\<lambda>v. v < e) vs) vss \<Longrightarrow> vss \<noteq> [] \<Longrightarrow>
    mv_info st = info \<Longrightarrow> mv_results st = open_values e n uss \<Longrightarrow> mv_numDataowners st = length vss \<Longrightarrow>
    MomentsPrettyPrint D (map toSmall (open_values e n (uss @ vss))) (includeZerothMoment info) (mv_bitsOfPrecision st) = Some t \<Longrightarrow>
    receive_moments M A D toSmall (map (\<lambda>vs. concat (map (wrLarge M) vs)) vss) st = Some (replicate (length vss - 1) None @ [Some t])"
proof (induction vss arbitrary: uss st)
  case (Cons vs vss)
  have vs: "length vs = n" "list_all (\<lambda>v. v < e) vs" using Cons.prems(1) by simp_all
  have "add_shares M A e (open_values e n uss) (concat (map (wrLarge M) vs)) =
      (map (\<lambda>i. (open_values e n uss ! i + vs ! i) mod e) [0..<length (open_values e n uss)], [])"
    using vs e
    by (intro ff_messages.add_shares_numbers [OF ff_messages.intro [OF M] A])
      (simp_all add: open_values_def list_all_length open_mod_less)
  then have add: "add_shares M A e (open_values e n uss) (concat (map (wrLarge M) vs)) = (open_values e n (uss @ [vs]), [])"
    by (simp add: open_values_def open_mod_snoc)
  let ?st = "st\<lparr>mv_results := open_values e n (uss @ [vs]), mv_numDataowners := one_less (mv_numDataowners st)\<rparr>"
  have step: "MomentsReceiver_handleReceive M A D toSmall (concat (map (wrLarge M) vs)) st =
      (if vss = [] then Some (?st, Some t) else Some (?st, None))"
    using Cons.prems(3-6) by (cases vss) (simp_all add: MomentsReceiver_handleReceive_def add info Let_def one_less_def)
  show ?case
  proof (cases "vss = []")
    case True
    then show ?thesis by (simp add: step)
  next
    case False
    then show ?thesis
      using Cons.IH [of ?st "uss @ [vs]"] Cons.prems(1,3-6) by (cases vss) (simp_all add: step one_less_def)
  qed
qed simp

text \<open>The opened count and quotients.\<close>

definition opened_moments :: "bool \<Rightarrow> nat \<Rightarrow> nat \<Rightarrow> (nat \<Rightarrow> nat) \<Rightarrow> nat list" where
  "opened_moments z h b S = (if z then [S 0] else []) @ map (\<lambda>i. S i * 2 ^ b div S 0) [1..<h + 1]"

definition conv_ok :: "nat \<Rightarrow> nat \<Rightarrow> moments_run list \<Rightarrow> bool" where
  "conv_ok s e xs \<longleftrightarrow> converts_up s e (\<lambda>x. m_prims (snd (after_zip x))) (\<lambda>x. out_nums (mr_conv x)) xs"

definition div_ok :: "nat \<Rightarrow> moments_run list \<Rightarrow> bool" where
  "div_ok e xs \<longleftrightarrow> divides e (\<lambda>x. m_prims (snd (after_conv x))) (\<lambda>x. out_nums (mr_div x)) xs"

lemma conv_outputs:
  assumes "list_all (moments_query M s e h z b) xs" "0 < s" "conv_ok s e xs" "xs \<noteq> []"
  shows "x \<in> set xs \<Longrightarrow> length (out_nums (mr_conv x)) = h + 1 \<and> list_all (\<lambda>v. v < e) (out_nums (mr_conv x))"
    and "i < h + 1 \<Longrightarrow> open_mod e (map (\<lambda>x. out_nums (mr_conv x) ! i) xs) = open_mod s (map (column_sum i) xs)"
proof -
  have q: "moments_query M s e h z b x" if "x \<in> set xs" for x using assms(1) that by (simp add: list_all_iff)
  have len: "length (m_prims (snd (after_zip x))) = h + 1" if "x \<in> set xs" for x
    using after_zip_fields(2) [OF q [OF that] assms(2)] by simp
  show "length (out_nums (mr_conv x)) = h + 1 \<and> list_all (\<lambda>v. v < e) (out_nums (mr_conv x))" if "x \<in> set xs"
    using assms(3) len [OF that] that by (simp add: conv_ok_def converts_up_def outputs_ok_def list_all_iff)
  have arg: "fst (args_of (m_prims (snd (after_zip x)) ! i)) = column_sum i x mod s" if "x \<in> set xs" "i < h + 1" for x i
    using after_zip_fields(1,2) [OF q [OF that(1)] assms(2)] that(2) by (simp del: upt_Suc)
  show "open_mod e (map (\<lambda>x. out_nums (mr_conv x) ! i) xs) = open_mod s (map (column_sum i) xs)" if i: "i < h + 1"
  proof -
    have "open_mod e (map (\<lambda>x. out_nums (mr_conv x) ! i) xs)
        = open_mod s (map (\<lambda>x. fst (args_of (m_prims (snd (after_zip x)) ! i))) xs)"
      using assms(3,4) len i by (simp add: conv_ok_def converts_up_def list_all_iff del: upt_Suc)
    also have "\<dots> = open_mod s (map (\<lambda>x. column_sum i x mod s) xs)"
      using arg i by (intro arg_cong [of _ _ "open_mod s"] map_cong) simp_all
    finally show ?thesis by (simp only: open_mod_mod)
  qed
qed

lemma div_outputs:
  assumes "list_all (moments_query M s e h z b) xs" "0 < s" "0 < e" "conv_ok s e xs" "div_ok e xs" "xs \<noteq> []"
  shows "x \<in> set xs \<Longrightarrow> length (out_nums (mr_div x)) = h \<and> list_all (\<lambda>v. v < e) (out_nums (mr_div x))"
    and "k < h \<Longrightarrow> 0 < open_mod s (map (column_sum 0) xs) \<Longrightarrow> 2 * (open_mod s (map (column_sum (Suc k)) xs) * 2 ^ b) \<le> e \<Longrightarrow>
      open_mod e (map (\<lambda>x. out_nums (mr_div x) ! k) xs) =
      open_mod s (map (column_sum (Suc k)) xs) * 2 ^ b div open_mod s (map (column_sum 0) xs)"
proof -
  note c = conv_outputs [OF assms(1,2,4,6)]
  have q: "moments_query M s e h z b x" if "x \<in> set xs" for x using assms(1) that by (simp add: list_all_iff)
  have prims: "m_prims (snd (after_conv x)) =
      map (\<lambda>i. PDivide (out_nums (mr_conv x) ! i * 2 ^ b) (out_nums (mr_conv x) ! 0)) [1..<h + 1]" if "x \<in> set xs" for x
    using after_conv_fields(1) [OF q [OF that] assms(2)] c(1) [OF that] by simp
  have len: "length (m_prims (snd (after_conv x))) = h" if "x \<in> set xs" for x using prims [OF that] by simp
  show "length (out_nums (mr_div x)) = h \<and> list_all (\<lambda>v. v < e) (out_nums (mr_div x))" if "x \<in> set xs"
    using assms(5) len [OF that] that by (simp add: div_ok_def divides_def outputs_ok_def list_all_iff)
  let ?S = "\<lambda>i. open_mod s (map (column_sum i) xs)"
  assume k: "k < h" and pos: "0 < ?S 0" and small: "2 * (?S (Suc k) * 2 ^ b) \<le> e"
  have args: "args_of (m_prims (snd (after_conv x)) ! k) = (out_nums (mr_conv x) ! Suc k * 2 ^ b, out_nums (mr_conv x) ! 0)"
    if "x \<in> set xs" for x using prims [OF that] k by (simp del: upt_Suc)
  then have n: "open_mod e (map (\<lambda>x. fst (args_of (m_prims (snd (after_conv x)) ! k))) xs)
      = open_mod e (map (\<lambda>x. out_nums (mr_conv x) ! Suc k * 2 ^ b) xs)"
    and "open_mod e (map (\<lambda>x. snd (args_of (m_prims (snd (after_conv x)) ! k))) xs)
      = open_mod e (map (\<lambda>x. out_nums (mr_conv x) ! 0) xs)"
    by (intro arg_cong [of _ _ "open_mod e"] map_cong; simp)+
  then have d: "open_mod e (map (\<lambda>x. snd (args_of (m_prims (snd (after_conv x)) ! k))) xs) = ?S 0"
    using c(2) [of 0] by simp
  have "?S (Suc k) * 2 ^ b < e" using small assms(3) by linarith
  then have n: "open_mod e (map (\<lambda>x. fst (args_of (m_prims (snd (after_conv x)) ! k))) xs) = ?S (Suc k) * 2 ^ b"
    unfolding n open_mod_scale using c(2) [of "Suc k"] k by simp
  show "open_mod e (map (\<lambda>x. out_nums (mr_div x) ! k) xs) = ?S (Suc k) * 2 ^ b div ?S 0"
    using assms(5,6) len k pos small n d by (simp add: div_ok_def divides_def list_all_iff Let_def)
qed

lemma sent_values_open:
  assumes "list_all (moments_query M s e h z b) xs" "0 < s" "0 < e" "conv_ok s e xs" "div_ok e xs" "xs \<noteq> []"
    and "list_all (\<lambda>i. open_mod s (map (column_sum i) xs) = S i) [0..<h + 1]" "0 < S 0"
    and "list_all (\<lambda>i. 2 * (S i * 2 ^ b) \<le> e) [1..<h + 1]"
  defines "n \<equiv> h + (if z then 1 else 0)"
  shows "list_all (\<lambda>vs. length vs = n \<and> list_all (\<lambda>v. v < e) vs) (map sent_values xs)"
    and "open_values e n (map sent_values xs) = opened_moments z h b S"
proof -
  note c = conv_outputs [OF assms(1,2,4,6)] and d = div_outputs [OF assms(1-6)]
  have S: "open_mod s (map (column_sum i) xs) = S i" if "i < h + 1" for i
    using assms(7) that by (simp add: list_all_iff del: upt_Suc)
  have vals: "sent_values x = (if z then [out_nums (mr_conv x) ! 0] else []) @ out_nums (mr_div x)" if "x \<in> set xs" for x
    using assms(1) that by (auto simp: sent_values_def moments_query_def list_all_iff Let_def)
  show "list_all (\<lambda>vs. length vs = n \<and> list_all (\<lambda>v. v < e) vs) (map sent_values xs)"
    using c(1) d(1) vals by (simp add: list_all_iff n_def)
  have zero: "open_mod e (map (\<lambda>x. out_nums (mr_conv x) ! 0) xs) = S 0" using c(2) [of 0] S [of 0] by simp
  have quot: "open_mod e (map (\<lambda>x. out_nums (mr_div x) ! k) xs) = S (Suc k) * 2 ^ b div S 0" if "k < h" for k
    using d(2) [OF that] S [of 0] S [of "Suc k"] assms(8,9) that by (simp add: list_all_iff del: upt_Suc)
  have at: "map (\<lambda>vs. vs ! i) (map sent_values xs) =
      map (\<lambda>x. ((if z then [out_nums (mr_conv x) ! 0] else []) @ out_nums (mr_div x)) ! i) xs" for i
    using vals by simp
  show "open_values e n (map sent_values xs) = opened_moments z h b S"
    unfolding open_values_def at
    by (rule nth_equalityI) (auto simp: n_def opened_moments_def zero quot nth_append nth_Cons' simp del: upt_Suc)
qed

definition moments_receiver :: "PeerSet \<Rightarrow> nat \<Rightarrow> MomentsInfo \<Rightarrow> MomentsReceiver" where
  "moments_receiver peers bits info = MomentsReceiver_init peers (MomentsReceiver_new bits info)"

lemma receiver_starts:
  "mv_info (moments_receiver peers b info) = info" "mv_bitsOfPrecision (moments_receiver peers b info) = b"
  "mv_numDataowners (moments_receiver peers b info) = length (forEachDataowner peers)"
  "mv_results (moments_receiver peers b info) =
     open_values e (highest_moment info + (if includeZerothMoment info then 1 else 0)) []"
  by (simp_all add: moments_receiver_def MomentsReceiver_init_def MomentsReceiver_new_def open_values_def open_mod_def
      map_replicate_const)

text \<open>
  C22: The recipient of a moments query prints the count and the expectations. With secure sub-protocols
  that keep their contracts, every dataowner sends its shares to every recipient and completes, and when
  all messages have come the table is the one of the opened count \<open>S 0\<close>, where the study reveals it, and
  of the quotients of the power sums \<open>S i\<close>, scaled by \<open>2 ^ bits\<close>, by the count; before that nothing is
  printed. \<open>S i\<close> is the sum of the i-th powers over the zipped rows, below the start modulus.
\<close>

theorem recipient_prints_moments:
  assumes "ff_msg_ok M" "ff_arith_ok A" "list_all (moments_query M s e h z b) xs" "xs \<noteq> []" "0 < s" "0 < e"
    and "conv_ok s e xs" "div_ok e xs"
    and "list_all (\<lambda>i. open_mod s (map (column_sum i) xs) = S i) [0..<h + 1]" "0 < S 0"
    and "list_all (\<lambda>i. 2 * (S i * 2 ^ b) \<le> e) [1..<h + 1]"
    and "mi_endModulus info = e" "highest_moment info = h" "includeZerothMoment info = z"
    and "length xs = length (forEachDataowner peers)"
    and "MomentsPrettyPrint D (map toSmall (opened_moments z h b S)) z b = Some table"
  shows "receive_moments M A D toSmall (map moments_sent xs) (moments_receiver peers b info) =
      Some (replicate (length xs - 1) None @ [Some table])
    \<and> list_all (\<lambda>x. snd (after_div x) =
        map (\<lambda>r. Send r (moments_sent x)) (forEachRecipient (me_peers (mr_env x))) @ [Complete]) xs"
proof -
  note opened = sent_values_open [OF assms(3,5,6,7,8,4,9-11)]
  have q: "moments_query M s e h z b x" "length (out_nums (mr_conv x)) = h + 1" if "x \<in> set xs" for x
    using assms(3) conv_outputs(1) [OF assms(3,5,7,4) that] that by (simp_all add: list_all_iff)
  have table: "MomentsPrettyPrint D (map toSmall (open_values e (h + (if z then 1 else 0)) ([] @ map sent_values xs))) z b = Some table"
    by (simp only: opened(2) append.simps assms(16))
  have "map moments_sent xs = map (\<lambda>vs. concat (map (wrLarge M) vs)) (map sent_values xs)"
    using after_div_fields(2) [OF q(1) assms(5) q(2)] by (simp only: map_map o_def cong: map_cong)
  moreover have "receive_moments M A D toSmall (map (\<lambda>vs. concat (map (wrLarge M) vs)) (map sent_values xs))
      (moments_receiver peers b info) = Some (replicate (length (map sent_values xs) - 1) None @ [Some table])"
    using opened(1) table assms(4,13-15)
    by (intro receive_moments_opens [OF assms(1,2,6,12), where uss = "[]"])
      (simp_all add: receiver_starts(1-3) receiver_starts(4) [where e = e])
  moreover have "list_all (\<lambda>x. snd (after_div x) =
      map (\<lambda>r. Send r (moments_sent x)) (forEachRecipient (me_peers (mr_env x))) @ [Complete]) xs"
    using after_div_fields(1) [OF q(1) assms(5) q(2)] by (simp add: list_all_iff)
  ultimately show ?thesis by (simp only: length_map)
qed

subsection \<open>Two dataowners\<close>

definition example_moments_info :: MomentsInfo where
  "example_moments_info =
     \<lparr>mi_selfVertical = 0, mi_dataVertical = 0, includeZerothMoment = True, highest_moment = 1, mi_numKeyCols = 2,
      mi_payloadLength = 2, mi_keyModulus = 101, mi_startModulus = 101, mi_endModulus = 103,
      mi_dealer = Identity_default, mi_revealer = example_party 0, mi_numCrossParties = 1\<rparr>"

definition example_moments_env :: "nat \<Rightarrow> MomentsEnv" where
  "example_moments_env v =
     \<lparr>me_arith = nat_arith, me_msg = be_msg, me_globals = (GlobalInfo_query 1 2)\<lparr>bitsOfPrecision := 1\<rparr>,
      me_info = example_moments_info\<lparr>mi_selfVertical := v\<rparr>, me_self = example_party v,
      me_peers = env_peers (example_env v)\<rparr>"

definition example_moments :: "nat \<Rightarrow> Moments" where
  "example_moments v = Moments_new nat_arith (me_globals (example_moments_env v)) (me_info (example_moments_env v))
     (\<lambda>_. [1, 2]) (example_draws 3 4) \<lparr>elements = [], numKeyCols = 2, numArithmeticPayloadCols = 1, numXORPayloadCols = 0\<rparr>"

text \<open>A run of the first phase of one party, in which the randomness comes before the share.\<close>

lemma example_moments_env_simps [simp]:
  "m_cross_peers (example_moments_env 0) = [example_party 1]"
  "me_info (example_moments_env v) = example_moments_info\<lparr>mi_selfVertical := v\<rparr>"
  "me_globals (example_moments_env v) = (GlobalInfo_query 1 2)\<lparr>bitsOfPrecision := 1\<rparr>"
  "me_msg (example_moments_env v) = be_msg" "me_arith (example_moments_env v) = nat_arith"
  by (simp_all add: m_cross_peers_def example_moments_env_def example_env_def forEachDataowner_def example_party_def)

lemma example_moments_ready: "moments_ready (example_moments_env 0) (example_moments 0)"
  by (simp add: moments_ready_def example_moments_def Moments_new_def m_setupCrossVerticalShares_def Let_def
      example_moments_info_def)

lemma example_moments_reach: "\<exists>st es. moments_reach (example_moments_env 0) srt (example_moments 0) st [0] True [0] es"
proof -
  let ?E = "example_moments_env 0" and ?st0 = "example_moments 0"
  let ?f = "\<lambda>b. (example_outputs [])\<lparr>is_patron := b\<rparr>"
  have ex: "\<exists>a b. x = (a, b)" for x :: "Moments \<times> moments_effect list" by (cases x) simp
  have "\<not> m_abortFlag ?st0"
    by (simp add: example_moments_def Moments_new_def m_setupCrossVerticalShares_def Let_def)
  then obtain st1 es1 where 1: "Moments_init ?E ?st0 = Some (st1, es1)" by (simp add: Moments_init_def Let_def)
  obtain st2 es2 where 2: "Moments_handleComplete ?E (?f True) st1 = (st2, es2)" using ex by blast
  obtain st3 es3 where 3: "Moments_handleReceive ?E (m_cross_peers ?E ! 0) [] st2 = (st3, es3)" using ex by blast
  obtain st4 es4 where 4: "Moments_handleComplete ?E (?f False) (m_sort_in_place 0 (srt 0) st3) = (st4, es4)"
    using ex by blast
  have "moments_reach ?E srt ?st0 st2 [] True [] (es1 @ es2)"
    by (rule moments_reach.moments_patron [OF moments_reach.moments_start [OF 1] _ 2]) simp
  from moments_reach.moments_share [OF this _ _ 3]
  have r: "moments_reach ?E srt ?st0 st3 [0] True [] ((es1 @ es2) @ es3)" by simp
  have "length (filter is_siso (as_effects ((es1 @ es2) @ es3))) = 1"
    using ready_join(3) [OF moments_reach_join [OF r example_moments_ready] example_moments_ready]
    by (simp add: join_effects_def)
  then have "moments_reach ?E srt ?st0 st4 [0] True [0] (((es1 @ es2) @ es3) @ es4)"
    by (intro moments_reach.moments_sort [OF r _ _ _ _ 4]) (simp_all add: example_outputs_def)
  then show ?thesis by blast
qed

theorem moments_refine_regression_witness:
  "\<exists>st es. moments_reach (example_moments_env 0) (\<lambda>_. []) (example_moments 0) st [0] True [0] es \<and>
     join_reach (as_env (example_moments_env 0)) (\<lambda>_. []) (as_cross (example_moments 0)) (as_cross st) [0] True [0] (as_effects es) \<and>
     filter is_zip (as_effects es) = zip_effects (as_env (example_moments_env 0)) (\<lambda>_. [])"
proof -
  obtain st es where r: "moments_reach (example_moments_env 0) (\<lambda>_. []) (example_moments 0) st [0] True [0] es"
    using example_moments_reach by blast
  show ?thesis using moments_refine_regression [OF r example_moments_ready] r by auto
qed

text \<open>Rows of two shares that open to the count 2 and the sum 10.\<close>

definition example_moments_run :: "nat \<Rightarrow> nat list \<Rightarrow> nat list \<Rightarrow> nat list \<Rightarrow> moments_run" where
  "example_moments_run v row conv quot =
     \<lparr>mr_env = example_moments_env v,
      mr_st = (example_moments v)\<lparr>m_state := m_awaitingZipAdjacent, m_randomnessDone := True,
        m_numPartiesAwaiting := 1, m_vectorZippedAdjacent := [[]], m_indexOfCrossParties := []\<rparr>,
      mr_zip = (example_outputs [])\<lparr>out_list := [\<lparr>keyCols = [], arithmeticPayloadCols = row, XORPayloadCols = []\<rparr>]\<rparr>,
      mr_conv = example_outputs conv, mr_div = example_outputs quot\<rparr>"

definition example_moments_runs :: "moments_run list" where
  "example_moments_runs =
     [example_moments_run 0 [3, 90] [60, 50] [7], example_moments_run 1 [100, 21] [45, 63] [3]]"

lemma example_moments_fields:
  "m_state (example_moments v) = m_awaitingRandomnessAndSISOSort" "powerSumsStartModulus (example_moments v) = []"
  "powerSums (example_moments v) = []" "expectationOfNthPow (example_moments v) = []"
  by (simp_all add: example_moments_def Moments_new_def m_setupCrossVerticalShares_def Let_def)

lemma example_zipped: "zipped (example_moments_run v row conv quot) =
    [\<lparr>keyCols = [], arithmeticPayloadCols = row, XORPayloadCols = []\<rparr>]"
  by (simp add: zipped_def example_moments_run_def)

lemma example_moments_query:
  "a < 101 \<Longrightarrow> c < 101 \<Longrightarrow> moments_query be_msg 101 103 1 True 1 (example_moments_run v [a, c] conv quot)"
  by (simp add: moments_query_def Let_def example_zipped upt_rec)
    (simp add: example_moments_run_def example_moments_fields nat_arith_ok example_moments_info_def)

lemma example_moments_columns:
  "column_sum 0 (example_moments_run v [a, c] conv quot) = a" "column_sum (Suc 0) (example_moments_run v [a, c] conv quot) = c"
  by (simp_all add: column_sum_def example_zipped)


theorem recipient_prints_moments_witness:
  "receive_moments be_msg nat_arith \<lparr>fp_round = \<lambda>x. x, fp_sqrt = Some\<rparr> (\<lambda>n. n) (map moments_sent example_moments_runs)
     (moments_receiver (env_peers (example_env 0)) 1 example_moments_info) =
   Some [None, Some [(''Count'', Some 2), (''Mean     '', Some (10 / 4))]]"
proof -
  let ?xs = example_moments_runs and ?D = "\<lparr>fp_round = \<lambda>x. x, fp_sqrt = Some\<rparr>"
  have q: "list_all (moments_query be_msg 101 103 1 True 1) ?xs" "?xs \<noteq> []"
    using example_moments_query by (simp_all add: example_moments_runs_def)
  have prims: "m_prims (snd (after_zip (example_moments_run v [a, c] conv quot))) = [PModConvUp a, PModConvUp c]"
    "m_prims (snd (after_conv (example_moments_run v [a, c] [k, l] quot))) = [PDivide (l * 2) k]"
    if "a < 101" "c < 101" for v a c conv quot k l
    using after_zip_fields(1,2) [OF example_moments_query [OF that, of v conv quot]]
      after_conv_fields(1) [OF example_moments_query [OF that, of v "[k, l]" quot]] that
    by (simp_all add: example_moments_columns upt_rec) (simp add: example_moments_run_def example_outputs_def)
  have conv: "conv_ok 101 103 ?xs"
    by (simp add: conv_ok_def converts_up_def outputs_ok_def example_moments_runs_def prims)
      (simp add: example_moments_run_def example_outputs_def open_mod_def upt_rec)
  have div: "div_ok 103 ?xs"
    by (simp add: div_ok_def divides_def outputs_ok_def example_moments_runs_def prims)
      (simp add: example_moments_run_def example_outputs_def open_mod_def Let_def)
  have S: "list_all (\<lambda>i. open_mod 101 (map (column_sum i) ?xs) = [2, 10] ! i) [0..<1 + 1]"
    by (simp add: example_moments_runs_def example_moments_columns open_mod_def upt_rec)
  have table: "MomentsPrettyPrint ?D (map (\<lambda>n. n) (opened_moments True 1 1 (\<lambda>i. [2, 10] ! i))) True 1 =
      Some [(''Count'', Some 2), (''Mean     '', Some (10 / 4))]"
    by (simp add: MomentsPrettyPrint_def opened_moments_def raw_moments_def shl_one_def moment_values_def moment_names_def
        Let_def)
  have "length ?xs = length (forEachDataowner (env_peers (example_env 0)))"
    by (simp add: example_moments_runs_def example_env_def forEachDataowner_def)
  from recipient_prints_moments [OF be_msg_ok nat_arith_ok q _ _ conv div S _ _ _ _ _ this table, of example_moments_info]
  show ?thesis by (simp add: example_moments_info_def example_moments_runs_def)
qed

subsection \<open>The printed mean\<close>

lemma those_map:
  "those (map f xs) = (if list_all (\<lambda>x. f x \<noteq> None) xs then Some (map (the \<circ> f) xs) else None)"
  by (induction xs) (auto split: option.splits)

lemma raw_moments_eq:
  assumes "xs \<noteq> []"
  shows "raw_moments D bits xs = (if (length xs + 1) * bits < 31
    then Some (map (\<lambda>i. fp_round D (fp_round D (of_nat (xs ! i)) / 2 ^ ((i + 2) * bits))) [0..<length xs]) else None)"
proof -
  have less: "(i + 2) * bits < 31" if "(length xs + 1) * bits < 31" "i < length xs" for i
    using le_less_trans [OF mult_le_mono1 that(1), of "i + 2"] that(2) by simp
  have last: "(length xs - 1 + 2) * bits = (length xs + 1) * bits" using assms by (cases xs) simp_all
  have all: "list_all (\<lambda>i. (i + 2) * bits < 31) [0..<length xs] \<longleftrightarrow> (length xs + 1) * bits < 31"
  proof
    assume "list_all (\<lambda>i. (i + 2) * bits < 31) [0..<length xs]"
    moreover have "length xs - 1 \<in> set [0..<length xs]" using assms by simp
    ultimately have "(length xs - 1 + 2) * bits < 31" by (simp only: list_all_iff)
    then show "(length xs + 1) * bits < 31" by (simp only: last)
  next
    assume "(length xs + 1) * bits < 31"
    from less [OF this] show "list_all (\<lambda>i. (i + 2) * bits < 31) [0..<length xs]" by (simp only: list_all_iff set_upt atLeastLessThan_iff Ball_def) blast
  qed
  have none: "map_option g (shl_one n) \<noteq> None \<longleftrightarrow> n < 31" for g :: "nat \<Rightarrow> rat" and n by (simp add: shl_one_def)
  have some: "the (map_option g (shl_one ((i + 2) * bits))) = g (2 ^ ((i + 2) * bits))"
    if "(length xs + 1) * bits < 31" "i < length xs" for g :: "nat \<Rightarrow> rat" and i
    using less [OF that] by (simp add: shl_one_def)
  show ?thesis
    unfolding raw_moments_def those_map none all
    by (rule if_cong [OF refl _ refl], rule arg_cong [of _ _ Some], rule map_cong [OF refl])
      (simp only: o_apply some set_upt atLeastLessThan_iff of_nat_power of_nat_numeral)
qed

lemma length_moment_values: "length (moment_values D ms) = length ms"
  by (simp add: moment_values_def Let_def)

lemma moment_values_Nil: "moment_values D ms = [] \<longleftrightarrow> ms = []"
  using length_moment_values [of D ms] by (cases ms) auto

lemma moment_values_0: "ms \<noteq> [] \<Longrightarrow> moment_values D ms ! 0 = Some (ms ! 0)"
  by (cases ms) (simp_all add: moment_values_def Let_def)

text \<open>
  C24: The printed mean. The table can be printed exactly when the query asks for at most three moments
  and \<open>(h + 1) * bits\<close> is below 31, the width of the shifted \<open>int\<close>. Its line for the mean then holds a
  number that is at most the quotient of the sum of the column, with its binary point restored, by the
  count, and less than \<open>2 ^ - (2 * bits)\<close> below it, as long as the scaled quotient fits 32 bits.
\<close>

theorem printed_mean_bounds:
  fixes b h :: nat and S :: "nat \<Rightarrow> nat" and z :: bool
  assumes "exact53 (fp_round D)" "\<And>n. n < 2 ^ 32 \<Longrightarrow> toSmall n = n" "0 < h" "0 < S 0" "S 1 * 2 ^ b div S 0 < 2 ^ 32"
  defines "printed \<equiv> MomentsPrettyPrint D (map toSmall (opened_moments z h b S)) z b"
    and "m \<equiv> of_nat (S 1 * 2 ^ b div S 0) / 2 ^ (2 * b)" and "mean \<equiv> of_nat (S 1) / (of_nat (S 0) * 2 ^ b)"
  shows "(printed \<noteq> None \<longleftrightarrow> h \<le> 3 \<and> (h + 1) * b < 31)
    \<and> (case printed of None \<Rightarrow> True | Some t \<Rightarrow> t ! (if z then 1 else 0) = (''Mean     '', Some m))
    \<and> m \<le> mean \<and> mean < m + 1 / (2 ^ (2 * b) :: rat)"
proof -
  let ?q = "S 1 * 2 ^ b div S 0"
  let ?xs = "map toSmall (map (\<lambda>i. S i * 2 ^ b div S 0) [1..<h + 1])"
  let ?ms = "map (\<lambda>i. fp_round D (fp_round D (of_nat (?xs ! i)) / 2 ^ ((i + 2) * b))) [0..<h]"
  have xs: "drop (if z then 1 else 0) (map toSmall (opened_moments z h b S)) = ?xs" "length ?xs = h" "?xs \<noteq> []"
    using assms(3) by (simp_all add: opened_moments_def del: upt_Suc)
  have raw: "raw_moments D b ?xs = (if (h + 1) * b < 31 then Some ?ms else None)"
    using raw_moments_eq [OF xs(3), of D b] xs(2) by simp
  have "?xs ! 0 = ?q" using assms(2) [OF assms(5)] assms(3) by (simp del: upt_Suc)
  moreover have "?q < 2 ^ 53" using assms(5) by simp
  ultimately have ms: "?ms ! 0 = m" "?ms \<noteq> []" "length ?ms = h"
    using exact53_nat [OF assms(1), of ?q] exact53D [OF assms(1), of ?q] assms(3) by (simp_all add: m_def)
  have "moment_values D ?ms ! 0 = Some m" using moment_values_0 [OF ms(2)] ms(1) by simp
  moreover have "moment_values D ?ms \<noteq> []" using ms(2) by (simp only: moment_values_Nil not_False_eq_True)
  ultimately obtain vs where vs: "moment_values D ?ms = Some m # vs" by (cases "moment_values D ?ms") auto
  have names: "length ?ms \<le> length moment_names \<longleftrightarrow> h \<le> 3" unfolding ms(3) by (simp add: moment_names_def eval_nat_numeral)
  have printed: "printed = (if h \<le> 3 \<and> (h + 1) * b < 31 then
      Some ((if z then [(''Count'', Some (fp_round D (of_nat (map toSmall (opened_moments z h b S) ! 0))))] else []) @
        zip moment_names (Some m # vs)) else None)"
    unfolding printed_def MomentsPrettyPrint_def Let_def xs(1) raw
    by (cases "(h + 1) * b < 31") (simp_all only: if_True if_False option.case names vs simp_thms)
  have "of_nat (S 1 * 2 ^ b div S 0 * S 0) \<le> (of_nat (S 1 * 2 ^ b) :: rat)"
    "(of_nat (S 1 * 2 ^ b) :: rat) < of_nat ((S 1 * 2 ^ b div S 0 + 1) * S 0)"
    using assms(4) dividend_less_div_times [of "S 0" "S 1 * 2 ^ b"]
    by (simp_all only: of_nat_le_iff of_nat_less_iff div_times_less_eq_dividend) (simp add: algebra_simps)
  then have lo: "of_nat ?q * of_nat (S 0) \<le> (of_nat (S 1) * 2 ^ b :: rat)"
    and hi: "of_nat (S 1) * 2 ^ b < ((of_nat ?q + 1) * of_nat (S 0) :: rat)"
    by (simp_all only: of_nat_mult of_nat_add of_nat_power of_nat_numeral of_nat_1)
  have mean: "mean = of_nat (S 1) * 2 ^ b / of_nat (S 0) / 2 ^ (2 * b)"
    using assms(4) by (simp add: mean_def mult_2 power_add)
  have pos: "(0 :: rat) < of_nat (S 0)" "(0 :: rat) < 2 ^ (2 * b)" using assms(4) by simp_all
  have "of_nat ?q \<le> of_nat (S 1) * 2 ^ b / (of_nat (S 0) :: rat)" "of_nat (S 1) * 2 ^ b / of_nat (S 0) < (of_nat ?q + 1 :: rat)"
    using lo hi pos(1) by (simp_all only: pos_le_divide_eq pos_divide_less_eq)
  then have "m \<le> mean" "mean < m + 1 / 2 ^ (2 * b)"
    unfolding mean m_def add_divide_distrib [symmetric] using pos(2)
    by (simp_all only: divide_right_mono less_imp_le divide_strict_right_mono)
  then show ?thesis by (auto simp: printed moment_names_def)
qed

theorem printed_mean_bounds_witness:
  "MomentsPrettyPrint \<lparr>fp_round = \<lambda>x. x, fp_sqrt = Some\<rparr> (map (\<lambda>n. n) (opened_moments False 1 2 ((!) [3, 7]))) False 2 \<noteq> None
   \<and> of_nat (7 * 2 ^ 2 div 3) / 2 ^ 4 \<le> (7 / 12 :: rat)"
  using printed_mean_bounds [of "\<lparr>fp_round = \<lambda>x. x, fp_sqrt = Some\<rparr>" "\<lambda>n. n" 1 "(!) [3, 7]" 2 False]
  by (simp add: exact53_def)

end
