(* ===== verification/Text_Utils.thy ===== *)
theory Text_Utils
  imports Safrn_Prelude
begin

text \<open>
  The text functions of \<open>Util/string_utils.cpp\<close>: prefixes, suffixes and their removal, white space,
  joining and splitting, counting and replacement. \<open>std::string\<close> is \<open>string\<close>, and \<open>find\<close> and \<open>substr\<close> of
  the standard library are written out. An output parameter that holds something already is an argument.
\<close>

subsection \<open>Searching\<close>

definition substr :: "string \<Rightarrow> nat \<Rightarrow> nat \<Rightarrow> string" where
  "substr s pos n = take n (drop pos s)"

fun find_in :: "string \<Rightarrow> string \<Rightarrow> nat option" where
  "find_in pat s =
     (if take (length pat) s = pat then Some 0
      else (case s of [] \<Rightarrow> None | c # cs \<Rightarrow> map_option Suc (find_in pat cs)))"

declare find_in.simps [simp del]

definition find_from :: "string \<Rightarrow> string \<Rightarrow> nat \<Rightarrow> nat option" where
  "find_from pat s pos = (if pos \<le> length s then map_option ((+) pos) (find_in pat (drop pos s)) else None)"

lemma find_in_Some: "find_in pat s = Some i \<Longrightarrow> i + length pat \<le> length s \<and> take (length pat) (drop i s) = pat"
proof (induction pat s arbitrary: i rule: find_in.induct)
  case (1 pat s)
  show ?case
  proof (cases "take (length pat) s = pat")
    case True
    then have "length pat \<le> length s" by (metis length_take min.absorb_iff2 min.commute)
    then show ?thesis using 1(2) True by (simp add: find_in.simps)
  next
    case False
    then have "find_in pat s = (case s of [] \<Rightarrow> None | c # cs \<Rightarrow> map_option Suc (find_in pat cs))"
      by (subst find_in.simps) simp
    with 1(2) obtain c cs k where "s = c # cs" "find_in pat cs = Some k" "i = Suc k"
      by (auto split: list.splits)
    then show ?thesis using 1(1) [OF False] by simp
  qed
qed

lemma find_from_Some: "find_from pat s pos = Some p \<Longrightarrow> pos \<le> p \<and> p + length pat \<le> length s"
  using find_in_Some [of pat "drop pos s"] by (auto simp: find_from_def split: if_splits)

subsection \<open>Prefixes and suffixes\<close>

definition HasPrefixString :: "string \<Rightarrow> string \<Rightarrow> bool" where
  "HasPrefixString input to_match =
     (if to_match = [] then True
      else if input = [] \<or> length input < length to_match then False
      else substr input 0 (length to_match) = to_match)"

definition StripPrefixString :: "string \<Rightarrow> string \<Rightarrow> bool \<times> string" where
  "StripPrefixString input to_match =
     (if to_match = [] \<or> input = [] then (False, input)
      else if HasPrefixString input to_match then (True, drop (length to_match) input)
      else (False, input))"

definition HasSuffixString :: "string \<Rightarrow> string \<Rightarrow> bool" where
  "HasSuffixString input to_match =
     (if to_match = [] then True
      else if input = [] \<or> length input < length to_match then False
      else drop (length input - length to_match) input = to_match)"

definition StripSuffixString :: "string \<Rightarrow> string \<Rightarrow> bool \<times> string" where
  "StripSuffixString input to_match =
     (if to_match = [] \<or> input = [] then (False, input)
      else if HasSuffixString input to_match then (True, substr input 0 (length input - length to_match))
      else (False, input))"

subsection \<open>White space\<close>

text \<open>\<open>isspace\<close> of the C locale.\<close>

definition isspace :: "char \<Rightarrow> bool" where
  "isspace c \<longleftrightarrow> c = CHR '' '' \<or> (9 \<le> (of_char c :: nat) \<and> (of_char c :: nat) \<le> 13)"

definition RemoveLeadingWhitespace :: "string \<Rightarrow> string" where
  "RemoveLeadingWhitespace input =
     (case List.find (\<lambda>i. \<not> isspace (input ! i)) [0..<length input] of Some i \<Rightarrow> drop i input | None \<Rightarrow> [])"

definition RemoveTrailingWhitespace :: "string \<Rightarrow> string" where
  "RemoveTrailingWhitespace input =
     (case List.find (\<lambda>i. \<not> isspace (input ! i)) (rev [0..<length input]) of
        Some i \<Rightarrow> substr input 0 (i + 1) | None \<Rightarrow> [])"

definition RemoveAllWhitespace :: "string \<Rightarrow> string" where
  "RemoveAllWhitespace input = filter (\<lambda>c. \<not> isspace c) input"

text \<open>The loop of \<open>RemoveExtraWhitespace\<close>, with its two flags.\<close>

fun extra_whitespace :: "bool \<Rightarrow> bool \<Rightarrow> string \<Rightarrow> string" where
  "extra_whitespace seen prev [] = []"
| "extra_whitespace seen prev (c # cs) =
     (if isspace c then (if seen \<and> \<not> prev then [c] else []) @ extra_whitespace seen True cs
      else c # extra_whitespace True False cs)"

text \<open>The last character of the output is read even when it is empty, which is undefined: \<open>None\<close>.\<close>

definition RemoveExtraWhitespace :: "string \<Rightarrow> string option" where
  "RemoveExtraWhitespace input =
     (let out = extra_whitespace False False input
      in if out = [] then None else if isspace (last out) then Some (butlast out) else Some out)"

text \<open>\<open>file_reader_utils::RemoveWindowsTrailingCharacters\<close>.\<close>

definition RemoveWindowsTrailingCharacters :: "string \<Rightarrow> string" where
  "RemoveWindowsTrailingCharacters input =
     (let s = (if input \<noteq> [] \<and> (of_char (last input) :: nat) = 10 then butlast input else input)
      in if s \<noteq> [] \<and> (of_char (last s) :: nat) = 13 then butlast s else s)"

subsection \<open>Enclosing characters\<close>

text \<open>\<open>StripQuotes\<close>, \<open>StripSingleQuotes\<close>, \<open>StripBrackets\<close>, \<open>StripAngleBrackets\<close>, \<open>StripBraces\<close> and
  \<open>StripParentheses\<close> differ in the two characters only.\<close>

definition strip_pair :: "string \<Rightarrow> string \<Rightarrow> string \<Rightarrow> string" where
  "strip_pair l r input =
     (if \<not> HasPrefixString input l \<or> \<not> HasSuffixString input r then input
      else snd (StripPrefixString (snd (StripSuffixString input r)) l))"

definition StripQuotes :: "string \<Rightarrow> string" where
  "StripQuotes = strip_pair [CHR 34] [CHR 34]"

definition StripSingleQuotes :: "string \<Rightarrow> string" where
  "StripSingleQuotes = strip_pair [CHR 39] [CHR 39]"

definition StripBrackets :: "string \<Rightarrow> string" where
  "StripBrackets = strip_pair ''['' '']''"

definition StripAngleBrackets :: "string \<Rightarrow> string" where
  "StripAngleBrackets = strip_pair ''<'' ''>''"

definition StripBraces :: "string \<Rightarrow> string" where
  "StripBraces = strip_pair ''{'' ''}''"

definition StripParentheses :: "string \<Rightarrow> string" where
  "StripParentheses = strip_pair ''('' '')''"

definition StripAllEnclosingPunctuation :: "string \<Rightarrow> string" where
  "StripAllEnclosingPunctuation input =
     StripBrackets (StripParentheses (StripBraces (StripSingleQuotes (StripQuotes input))))"

definition StripAllEnclosingPunctuationAndWhitespace :: "string \<Rightarrow> string" where
  "StripAllEnclosingPunctuationAndWhitespace input = StripAllEnclosingPunctuation (RemoveAllWhitespace input)"

text \<open>\<open>std::string::erase\<close> takes a position and a number of characters; \<open>Strip\<close> passes it the end
  position.\<close>

function strip_loop :: "string \<Rightarrow> string \<Rightarrow> string" where
  "strip_loop to_match out =
     (case find_in to_match out of
        None \<Rightarrow> out
      | Some i \<Rightarrow> if to_match = [] then out
          else strip_loop to_match (take i out @ drop (i + (i + length to_match)) out))"
  by pat_completeness auto
termination strip_loop
  by (relation "measure (length \<circ> snd)") (auto dest!: find_in_Some simp flip: length_greater_0_conv)

declare strip_loop.simps [simp del]

definition Strip :: "string \<Rightarrow> string \<Rightarrow> string \<Rightarrow> string" where
  "Strip input to_match out =
     (if to_match = [] \<or> length input < length to_match then out else strip_loop to_match input)"

subsection \<open>Joining and splitting\<close>

fun join_loop :: "string \<Rightarrow> bool \<Rightarrow> string \<Rightarrow> string list \<Rightarrow> string" where
  "join_loop delimiter first_empty out [] = out"
| "join_loop delimiter first_empty out (s # ss) =
     (if out = [] \<and> \<not> first_empty then join_loop delimiter (s = []) s ss
      else join_loop delimiter first_empty (out @ delimiter @ s) ss)"

definition Join :: "string list \<Rightarrow> string \<Rightarrow> string" where
  "Join input delimiter = join_loop delimiter False [] input"

definition push_token :: "bool \<Rightarrow> string \<Rightarrow> nat \<Rightarrow> nat \<Rightarrow> string list \<Rightarrow> string list" where
  "push_token skip_empty input prev pos out =
     (if pos = prev then (if skip_empty then out else out @ [[]])
      else out @ [substr input prev (pos - prev)])"

function split_loop :: "string \<Rightarrow> string \<Rightarrow> bool \<Rightarrow> nat \<Rightarrow> string list \<Rightarrow> nat \<times> string list" where
  "split_loop input delimiter skip_empty prev out =
     (case find_from delimiter input prev of
        None \<Rightarrow> (prev, out)
      | Some pos \<Rightarrow> if delimiter = [] then (prev, out)
          else split_loop input delimiter skip_empty (pos + length delimiter) (push_token skip_empty input prev pos out))"
  by pat_completeness auto
termination split_loop
  by (relation "measure (\<lambda>(input, _, _, prev, _). length input - prev)") (auto dest!: find_from_Some simp flip: length_greater_0_conv)

declare split_loop.simps [simp del]

definition Split :: "string \<Rightarrow> string \<Rightarrow> bool \<Rightarrow> string list \<Rightarrow> string list" where
  "Split input delimiter skip_empty out =
     (if input = [] \<or> delimiter = [] then out
      else (let (prev, out) = split_loop input delimiter skip_empty 0 out
            in if length input = prev then (if skip_empty then out else out @ [[]])
               else out @ [drop prev input]))"

text \<open>The variant for a set of characters.\<close>

fun split_chars_loop :: "char set \<Rightarrow> bool \<Rightarrow> string \<Rightarrow> string \<Rightarrow> string list \<Rightarrow> string \<times> string list" where
  "split_chars_loop delimiters skip_empty token [] out = (token, out)"
| "split_chars_loop delimiters skip_empty token (c # cs) out =
     (if c \<in> delimiters then
        split_chars_loop delimiters skip_empty [] cs
          (if token = [] \<and> \<not> skip_empty then out @ [[]] else if token \<noteq> [] then out @ [token] else out)
      else split_chars_loop delimiters skip_empty (token @ [c]) cs out)"

definition Split_chars :: "string \<Rightarrow> char set \<Rightarrow> bool \<Rightarrow> string list \<Rightarrow> string list" where
  "Split_chars input delimiters skip_empty out =
     (if input = [] \<or> delimiters = {} then out
      else (let (token, out) = split_chars_loop delimiters skip_empty [] input out
            in if token \<noteq> [] then out @ [token] else out))"

text \<open>The variant for a set of strings, which the loop visits in their order.\<close>

definition first_delimiter :: "string \<Rightarrow> string list \<Rightarrow> nat \<Rightarrow> nat \<times> string" where
  "first_delimiter input delimiters prev =
     fold (\<lambda>d (pos, best). case find_from d input prev of
         Some p \<Rightarrow> if p < pos then (p, d) else (pos, best) | None \<Rightarrow> (pos, best))
       delimiters (length input, [])"

lemma first_delimiter_found:
  assumes "first_delimiter input delimiters prev = (pos, d)" "d \<noteq> []"
  shows "prev \<le> pos \<and> pos + length d \<le> length input \<and> 0 < length d"
proof -
  let ?step = "\<lambda>d (pos, best). case find_from d input prev of
      Some p \<Rightarrow> if p < pos then (p, d) else (pos, best) | None \<Rightarrow> (pos, best)"
  have "snd (fold ?step ds r) \<noteq> [] \<Longrightarrow> (snd r \<noteq> [] \<longrightarrow> prev \<le> fst r \<and> fst r + length (snd r) \<le> length input) \<Longrightarrow>
      prev \<le> fst (fold ?step ds r) \<and> fst (fold ?step ds r) + length (snd (fold ?step ds r)) \<le> length input" for ds r
  proof (induction ds arbitrary: r)
    case (Cons a ds)
    show ?case using Cons.prems by (simp, intro Cons.IH) (auto split: option.splits prod.splits dest: find_from_Some)
  qed simp
  from this [of delimiters "(length input, [])"] assms show ?thesis by (simp add: first_delimiter_def)
qed

function split_set_loop :: "string \<Rightarrow> string list \<Rightarrow> bool \<Rightarrow> nat \<Rightarrow> string list \<Rightarrow> nat \<times> string list" where
  "split_set_loop input delimiters skip_empty prev out =
     (case first_delimiter input delimiters prev of (pos, d) \<Rightarrow>
        if d = [] then (prev, out)
        else split_set_loop input delimiters skip_empty (pos + length d) (push_token skip_empty input prev pos out))"
  by pat_completeness auto
termination split_set_loop
  by (relation "measure (\<lambda>(input, _, _, prev, _). length input - prev)") (auto dest!: first_delimiter_found [OF sym] simp flip: length_greater_0_conv)

declare split_set_loop.simps [simp del]

definition Split_set :: "string \<Rightarrow> string list \<Rightarrow> bool \<Rightarrow> string list \<Rightarrow> string list" where
  "Split_set input delimiters skip_empty out =
     (if input = [] \<or> delimiters = [] then out
      else (let (prev, out) = split_set_loop input delimiters skip_empty 0 out
            in if length input = prev then (if skip_empty then out else out @ [[]]) else out @ [drop prev input]))"

lemma first_delimiter_single:
  "d \<noteq> [] \<Longrightarrow> first_delimiter input [d] prev =
     (case find_from d input prev of Some p \<Rightarrow> (p, d) | None \<Rightarrow> (length input, []))"
  by (auto simp: first_delimiter_def split: option.splits dest!: find_from_Some simp flip: length_greater_0_conv)

lemma split_set_single:
  "d \<noteq> [] \<Longrightarrow> split_set_loop input [d] skip_empty prev out = split_loop input d skip_empty prev out"
proof (induction input d skip_empty prev out rule: split_loop.induct)
  case (1 input d skip_empty prev out)
  then show ?case
    by (subst split_set_loop.simps, subst split_loop.simps) (auto simp: first_delimiter_single split: option.splits)
qed

subsection \<open>Counting and replacing\<close>

fun CountChar :: "string \<Rightarrow> char \<Rightarrow> nat" where
  "CountChar [] target = 0"
| "CountChar (c # cs) target = (if c = target then 1 else 0) + CountChar cs target"

function count_loop :: "string \<Rightarrow> string \<Rightarrow> nat" where
  "count_loop target tail' =
     (case find_in target tail' of
        None \<Rightarrow> 0
      | Some i \<Rightarrow> if target = [] then 0 else 1 + count_loop target (drop (i + length target) tail'))"
  by pat_completeness auto
termination count_loop
  by (relation "measure (length \<circ> snd)") (auto dest!: find_in_Some simp flip: length_greater_0_conv)

declare count_loop.simps [simp del]

definition CountOccurrences :: "string \<Rightarrow> string \<Rightarrow> nat" where
  "CountOccurrences value target = (if target = [] then 0 else count_loop target value)"

function replace_loop :: "string \<Rightarrow> string \<Rightarrow> string \<Rightarrow> nat \<Rightarrow> string \<Rightarrow> string" where
  "replace_loop orig target replace_with start_pos to_return =
     (if start_pos < length orig then
        (case find_from target orig start_pos of
           None \<Rightarrow> to_return @ drop start_pos orig
         | Some found_pos \<Rightarrow> if target = [] then to_return
             else replace_loop orig target replace_with (found_pos + length target)
               (to_return @ substr orig start_pos (found_pos - start_pos) @ replace_with))
      else to_return)"
  by pat_completeness auto
termination replace_loop
  by (relation "measure (\<lambda>(orig, _, _, start, _). length orig - start)") (auto dest!: find_from_Some simp flip: length_greater_0_conv)

declare replace_loop.simps [simp del]

definition Replace :: "string \<Rightarrow> string \<Rightarrow> string \<Rightarrow> string" where
  "Replace orig target replace_with =
     (if target = [] \<or> find_in target orig = None then orig else replace_loop orig target replace_with 0 [])"


subsection \<open>Splitting in one recursion\<close>

definition keep_token :: "bool \<Rightarrow> string \<Rightarrow> string list" where
  "keep_token skip_empty t = (if t = [] \<and> skip_empty then [] else [t])"

function tokens :: "string \<Rightarrow> bool \<Rightarrow> string \<Rightarrow> string list" where
  "tokens d skip_empty s =
     (case find_in d s of
        None \<Rightarrow> keep_token skip_empty s
      | Some i \<Rightarrow> if d = [] then [] else keep_token skip_empty (take i s) @ tokens d skip_empty (drop (i + length d) s))"
  by pat_completeness auto
termination tokens
  by (relation "measure (\<lambda>(_, _, s). length s)") (auto dest!: find_in_Some simp flip: length_greater_0_conv)

declare tokens.simps [simp del]

definition finish_split :: "string \<Rightarrow> bool \<Rightarrow> nat \<times> string list \<Rightarrow> string list" where
  "finish_split input skip_empty r = (let (prev, out) = r
     in if length input = prev then (if skip_empty then out else out @ [[]]) else out @ [drop prev input])"

lemma split_loop_tokens:
  "d \<noteq> [] \<Longrightarrow> prev \<le> length input \<Longrightarrow>
   finish_split input skip_empty (split_loop input d skip_empty prev out) = out @ tokens d skip_empty (drop prev input)"
proof (induction input d skip_empty prev out rule: split_loop.induct)
  case (1 input d skip_empty prev out)
  show ?case
  proof (cases "find_in d (drop prev input)")
    case None
    then have "split_loop input d skip_empty prev out = (prev, out)"
      by (simp add: split_loop.simps find_from_def)
    then show ?thesis using None 1(3) by (subst tokens.simps) (auto simp: finish_split_def keep_token_def)
  next
    case (Some i)
    then have pos: "find_from d input prev = Some (prev + i)" and i: "i + length d \<le> length (drop prev input)"
      using 1(3) find_in_Some [OF Some] by (simp_all add: find_from_def)
    have push: "push_token skip_empty input prev (prev + i) out = out @ keep_token skip_empty (take i (drop prev input))"
      using i 1(2) by (auto simp: push_token_def keep_token_def substr_def)
    have "finish_split input skip_empty (split_loop input d skip_empty (prev + i + length d)
        (push_token skip_empty input prev (prev + i) out))
      = push_token skip_empty input prev (prev + i) out @ tokens d skip_empty (drop (prev + i + length d) input)"
      using 1(1) [OF pos 1(2) 1(2)] i 1(3) by simp
    then show ?thesis using 1(2) Some pos push
      by (subst split_loop.simps, subst tokens.simps) (simp add: add.commute add.left_commute)
  qed
qed

lemma Split_tokens:
  "input \<noteq> [] \<Longrightarrow> d \<noteq> [] \<Longrightarrow> Split input d skip_empty out = out @ tokens d skip_empty input"
  using split_loop_tokens [of d 0 input skip_empty out] by (simp add: Split_def finish_split_def Let_def)

fun joined :: "string \<Rightarrow> string list \<Rightarrow> string" where
  "joined d [] = []"
| "joined d [s] = s"
| "joined d (s # ss) = s @ d @ joined d ss"

lemma join_loop_joined:
  "out \<noteq> [] \<or> first_empty \<Longrightarrow> join_loop d first_empty out ss = out @ concat (map (\<lambda>s. d @ s) ss)"
  by (induction ss arbitrary: out) auto

lemma joined_concat: "joined d (s # ss) = s @ concat (map (\<lambda>s. d @ s) ss)"
  by (induction ss arbitrary: s) auto

lemma Join_joined: "Join ss d = joined d ss"
  by (cases ss) (auto simp: Join_def joined_concat join_loop_joined)

lemma joined_tokens: "d \<noteq> [] \<Longrightarrow> joined d (tokens d False s) = s \<and> tokens d False s \<noteq> []"
proof (induction d "False" s rule: tokens.induct)
  case (1 d s)
  show ?case
  proof (cases "find_in d s")
    case None
    then show ?thesis by (subst (1 2) tokens.simps) (simp add: keep_token_def)
  next
    case (Some i)
    let ?r = "tokens d False (drop (i + length d) s)"
    have r: "joined d ?r = drop (i + length d) s" "?r \<noteq> []" using 1 Some by simp_all
    have eq: "tokens d False s = take i s # ?r" using Some 1(2) by (subst tokens.simps) (simp add: keep_token_def)
    have whole: "take i s @ take (length d) (drop i s) @ drop (length d) (drop i s) = s" by (simp only: append_take_drop_id)
    have "drop (length d) (drop i s) = drop (i + length d) s" by (simp add: add.commute)
    with whole find_in_Some [OF Some] have "take i s @ d @ drop (i + length d) s = s" by simp
    moreover have "joined d (take i s # ?r) = take i s @ d @ joined d ?r" using r(2) by (cases ?r) simp_all
    ultimately show ?thesis using r(1) by (simp add: eq)
  qed
qed

lemma tokens_filter: "d \<noteq> [] \<Longrightarrow> tokens d True s = filter (\<lambda>t. t \<noteq> []) (tokens d False s)"
proof (induction d "True" s rule: tokens.induct)
  case (1 d s)
  show ?case
  proof (cases "find_in d s")
    case None
    then show ?thesis by (subst (1 2) tokens.simps) (simp add: keep_token_def)
  next
    case (Some i)
    then show ?thesis using 1 by (subst (1 2) tokens.simps) (simp add: keep_token_def)
  qed
qed

text \<open>
  Splitting and joining are inverse. Joining the tokens of a text by its delimiter gives the text
  back, whatever the delimiter is, as long as empty tokens are kept; without them, the tokens are the
  nonempty ones. The tokens are appended to those the output held before, and a set with the one
  delimiter splits the same way.
\<close>

theorem split_join:
  assumes "input \<noteq> []" "delimiter \<noteq> []"
  shows "Join (Split input delimiter False []) delimiter = input
    \<and> Split input delimiter True out = out @ filter (\<lambda>t. t \<noteq> []) (Split input delimiter False [])
    \<and> Split_set input [delimiter] skip_empty out = Split input delimiter skip_empty out"
proof -
  have "Split_set input [delimiter] skip_empty out = Split input delimiter skip_empty out"
    using assms by (simp add: Split_set_def Split_def split_set_single)
  then show ?thesis
    using joined_tokens [OF assms(2), of input] tokens_filter [OF assms(2)]
    by (simp add: Join_joined Split_tokens [OF assms])
qed

theorem split_join_witness:
  "Join (Split ''a,,b,'' '','' False []) '','' = ''a,,b,'' \<and> Split ''a,,b,'' '','' True [] = [''a'', ''b'']"
  using split_join [of "''a,,b,''" "'',''" "[]" True]
  by (simp add: Split_def split_loop.simps find_from_def find_in.simps push_token_def substr_def)

text \<open>\<open>Strip\<close> removes too much when the text to remove does not stand at the beginning.\<close>

lemma Strip_removes_more: "Strip ''xabcyz'' ''abc'' [] = ''xz''"
  by (simp add: Strip_def strip_loop.simps find_in.simps)

lemma RemoveExtraWhitespace_undefined:
  "RemoveExtraWhitespace input = None \<longleftrightarrow> list_all isspace input"
proof -
  have "extra_whitespace False prev input = [] \<longleftrightarrow> list_all isspace input" for prev
    by (induction input arbitrary: prev) auto
  then show ?thesis by (simp add: RemoveExtraWhitespace_def Let_def)
qed

end
