(* ===== verification/Startup_Csv.thy ===== *)
theory Startup_Csv
  imports Receivers Text_Utils
begin

text \<open>
  \<open>StartupUtils.cpp\<close>: a dataowner's table is read from a file of comma-separated values, and its numbers
  are turned into residues with a binary point. Doubles are rational numbers, \<open>rd\<close> the rounding of an
  operation, as for the recipients.
\<close>

subsection \<open>Numbers\<close>

text \<open>The conversion of a double to 64 bits, undefined for what does not fit.\<close>

definition to_u64 :: "rat \<Rightarrow> nat option" where
  "to_u64 val = (if 0 \<le> \<lfloor>val\<rfloor> \<and> \<lfloor>val\<rfloor> < 2 ^ 64 then Some (nat \<lfloor>val\<rfloor>) else None)"

text \<open>The loop over the bits after the point. Doubling and taking off the integer part are exact.\<close>

fun fraction_bits :: "nat \<Rightarrow> LargeNum \<Rightarrow> rat \<Rightarrow> LargeNum option" where
  "fraction_bits 0 ret val = Some ret"
| "fraction_bits (Suc n) ret val =
     (let val = val * 2
      in case to_u64 val of
           None \<Rightarrow> None
         | Some b \<Rightarrow> fraction_bits n (ret * 2 + b) (val - of_int \<lfloor>val\<rfloor>))"

definition convert_magnitude :: "(rat \<Rightarrow> rat) \<Rightarrow> rat \<Rightarrow> nat \<Rightarrow> LargeNum option" where
  "convert_magnitude rd val bits =
     (let val = rd (val + (1 / 2) ^ (1 + bits))
      in case to_u64 val of
           None \<Rightarrow> None
         | Some ret \<Rightarrow> fraction_bits bits ret (val - of_int \<lfloor>val\<rfloor>))"

text \<open>A negative number is taken off the modulus; the recursive call is never negative again. A
  difference below zero is left undefined.\<close>

definition convertDoubleToLargeNum :: "(rat \<Rightarrow> rat) \<Rightarrow> rat \<Rightarrow> nat \<Rightarrow> LargeNum \<Rightarrow> LargeNum option" where
  "convertDoubleToLargeNum rd val bits p =
     (if val < 0 then
        (case convert_magnitude rd (- val) bits of
           None \<Rightarrow> None
         | Some m \<Rightarrow> if m \<le> p then Some (p - m) else None)
      else convert_magnitude rd val bits)"

text \<open>\<open>atof\<close>: sign, digits with a point, exponent. Hexadecimal numbers and the names of infinity and
  of not-a-number, which it also takes, are left out.\<close>

definition is_digit :: "char \<Rightarrow> bool" where
  "is_digit c \<longleftrightarrow> 48 \<le> (of_char c :: nat) \<and> (of_char c :: nat) \<le> 57"

definition digits_value :: "string \<Rightarrow> nat" where
  "digits_value ds = fold (\<lambda>c n. 10 * n + (of_char c - 48)) ds 0"

definition read_sign :: "string \<Rightarrow> bool \<times> string" where
  "read_sign s = (case s of c # cs \<Rightarrow> if c = CHR ''-'' then (True, cs) else if c = CHR ''+'' then (False, cs) else (False, s)
     | [] \<Rightarrow> (False, s))"

definition exponent :: "string \<Rightarrow> int" where
  "exponent s = (case s of
       c # cs \<Rightarrow> if c = CHR ''e'' \<or> c = CHR ''E'' then
           (let (neg, cs) = read_sign cs; n = int (digits_value (takeWhile is_digit cs)) in if neg then - n else n) else 0
     | [] \<Rightarrow> 0)"

definition decimal :: "string \<Rightarrow> rat" where
  "decimal s =
     (let (neg, s) = read_sign (dropWhile isspace s);
          ip = takeWhile is_digit s; r = dropWhile is_digit s;
          (fp, r) = (case r of c # cs \<Rightarrow> if c = CHR ''.'' then (takeWhile is_digit cs, dropWhile is_digit cs) else ([], r)
            | [] \<Rightarrow> ([], r));
          e = exponent r;
          m = of_nat (digits_value (ip @ fp)) / 10 ^ length fp;
          v = (if ip = [] \<and> fp = [] then 0 else if 0 \<le> e then m * 10 ^ nat e else m / 10 ^ nat (- e))
      in if neg then - v else v)"

definition atof :: "(rat \<Rightarrow> rat) \<Rightarrow> string \<Rightarrow> rat" where
  "atof rd s = rd (decimal s)"

subsection \<open>The file\<close>

datatype csv_error = NotDataowner | OpenError | NoHeader | UnknownColumn string | LineMismatch | UndefinedNumber

text \<open>What the reader is given besides the file: \<open>cx_large\<close> constructs a big number from a text, in the
  library; \<open>cx_names\<close> are the columns of the vertical in the study.\<close>

record csv_context =
  cx_round :: "rat \<Rightarrow> rat"
  cx_large :: "string \<Rightarrow> LargeNum"
  cx_names :: "string list"
  cx_keys :: "nat list"
  cx_payloads :: "nat list"
  cx_extra :: "nat option"
  cx_id :: Identity
  cx_modulus :: LargeNum
  cx_bits :: nat

fun index_of :: "string \<Rightarrow> string list \<Rightarrow> nat option" where
  "index_of s [] = None"
| "index_of s (n # ns) = (if s = n then Some 0 else map_option Suc (index_of s ns))"

text \<open>The last position a column has in a list of columns.\<close>

definition last_place :: "nat \<Rightarrow> nat list \<Rightarrow> nat option" where
  "last_place i cols = fold (\<lambda>(j, c) r. if c = i then Some j else r) (enumerate 0 cols) None"

text \<open>For each field of a line: its place among the keys and the payloads, and the bits of its binary
  point. The search for the column of extra precision is inside the loop over the payload columns.\<close>

record csv_place =
  pl_key :: "nat option"
  pl_payload :: "nat option"

definition csv_places :: "csv_context \<Rightarrow> nat list \<Rightarrow> csv_place list" where
  "csv_places X cols = map (\<lambda>i. \<lparr>pl_key = last_place i (cx_keys X), pl_payload = last_place i (cx_payloads X)\<rparr>) cols"

definition extra_field :: "csv_context \<Rightarrow> nat list \<Rightarrow> nat option" where
  "extra_field X cols =
     (if cx_payloads X = [] then None
      else fold (\<lambda>(k, i) r. if cx_extra X = Some i then Some k else r) (enumerate 0 cols) None)"

fun header_columns :: "string list \<Rightarrow> string list \<Rightarrow> csv_error + nat list" where
  "header_columns names [] = Inr []"
| "header_columns names (s # ss) =
     (case index_of s names of
        None \<Rightarrow> Inl (UnknownColumn s)
      | Some i \<Rightarrow> (case header_columns names ss of Inl e \<Rightarrow> Inl e | Inr is \<Rightarrow> Inr (i # is)))"

definition csv_line :: "string \<Rightarrow> string" where
  "csv_line line = RemoveAllWhitespace (RemoveWindowsTrailingCharacters line)"

text \<open>\<open>Split\<close> without a flag skips empty tokens.\<close>

definition csv_fields :: "string \<Rightarrow> string list" where
  "csv_fields line = Split line '','' True []"

definition store_field :: "csv_context \<Rightarrow> nat option \<Rightarrow> nat \<times> csv_place \<times> string \<Rightarrow>
    LargeNum list \<times> LargeNum list \<Rightarrow> (LargeNum list \<times> LargeNum list) option" where
  "store_field X extra = (\<lambda>(i, pl, s) (keys, payloads).
     (let bits = (if extra = Some i then 2 * cx_bits X else cx_bits X);
          keys' = (case pl_key pl of None \<Rightarrow> keys | Some j \<Rightarrow> keys[j := cx_large X s])
      in case pl_payload pl of
           None \<Rightarrow> Some (keys', payloads)
         | Some j \<Rightarrow> (case convertDoubleToLargeNum (cx_round X) (atof (cx_round X) s) bits (cx_modulus X) of
               None \<Rightarrow> None
             | Some x \<Rightarrow> Some (keys', payloads[j := x]))))"

fun store_fields :: "csv_context \<Rightarrow> nat option \<Rightarrow> (nat \<times> csv_place \<times> string) list \<Rightarrow>
    LargeNum list \<times> LargeNum list \<Rightarrow> (LargeNum list \<times> LargeNum list) option" where
  "store_fields X extra [] r = Some r"
| "store_fields X extra (f # fs) r = Option.bind (store_field X extra f r) (store_fields X extra fs)"

definition csv_row :: "csv_context \<Rightarrow> nat list \<Rightarrow> string list \<Rightarrow> csv_error + Observation" where
  "csv_row X cols cells =
     (if length cells \<noteq> length cols then Inl LineMismatch
      else (case store_fields X (extra_field X cols) (enumerate 0 (zip (csv_places X cols) cells))
                (replicate (length (cx_keys X)) 0 @ [unat (vertical (cx_id X))], replicate (length (cx_payloads X)) 0) of
              None \<Rightarrow> Inl UndefinedNumber
            | Some (keys, payloads) \<Rightarrow>
                Inr \<lparr>keyCols = keys, arithmeticPayloadCols = payloads, XORPayloadCols = []\<rparr>))"

fun csv_rows :: "csv_context \<Rightarrow> nat list \<Rightarrow> string list \<Rightarrow> csv_error + Observation list" where
  "csv_rows X cols [] = Inr []"
| "csv_rows X cols (l # ls) =
     (let line = csv_line l
      in if HasPrefixString line ''#'' then csv_rows X cols ls
         else (case csv_row X cols (csv_fields line) of
                 Inl e \<Rightarrow> Inl e
               | Inr ob \<Rightarrow> (case csv_rows X cols ls of Inl e \<Rightarrow> Inl e | Inr obs \<Rightarrow> Inr (ob # obs))))"

text \<open>\<open>file\<close> holds the lines \<open>getline\<close> gives, or \<open>None\<close> when the file cannot be opened.\<close>

definition readCSV :: "csv_context \<Rightarrow> string list option \<Rightarrow> csv_error + ObservationList" where
  "readCSV X file =
     (if role (cx_id X) \<noteq> ROLE_DATAOWNER then Inl NotDataowner
      else (case file of
              None \<Rightarrow> Inl OpenError
            | Some [] \<Rightarrow> Inl NoHeader
            | Some (h # ls) \<Rightarrow>
                (case header_columns (cx_names X) (csv_fields (csv_line h)) of
                   Inl e \<Rightarrow> Inl e
                 | Inr cols \<Rightarrow>
                     (case csv_rows X cols ls of
                        Inl e \<Rightarrow> Inl e
                      | Inr obs \<Rightarrow> Inr \<lparr>elements = obs, numKeyCols = length (cx_keys X) + 1,
                          numArithmeticPayloadCols = length (cx_payloads X), numXORPayloadCols = 0\<rparr>))))"

subsection \<open>Rounding to the binary point\<close>

lemma to_u64_floor: "0 \<le> val \<Longrightarrow> val < 2 ^ 64 \<Longrightarrow> to_u64 val = Some (nat \<lfloor>val\<rfloor>)"
  by (simp add: to_u64_def floor_less_iff)

lemma fraction_bits_floor:
  "0 \<le> val \<Longrightarrow> val < 1 \<Longrightarrow> fraction_bits n ret val = Some (ret * 2 ^ n + nat \<lfloor>val * 2 ^ n\<rfloor>)"
proof (induction n arbitrary: ret val)
  case 0
  then show ?case by (simp add: floor_eq_iff)
next
  case (Suc n)
  let ?v = "val * 2"
  have v: "0 \<le> ?v" "?v < 2" using Suc.prems by simp_all
  then have u: "to_u64 ?v = Some (nat \<lfloor>?v\<rfloor>)" by (intro to_u64_floor) simp_all
  have rest: "0 \<le> ?v - of_int \<lfloor>?v\<rfloor>" "?v - of_int \<lfloor>?v\<rfloor> < 1" by linarith+
  have fl: "0 \<le> \<lfloor>?v\<rfloor>" using v(1) by simp
  have "val * 2 ^ Suc n = (?v - of_int \<lfloor>?v\<rfloor>) * 2 ^ n + of_int (\<lfloor>?v\<rfloor> * 2 ^ n)"
    by (simp add: algebra_simps)
  then have "\<lfloor>val * 2 ^ Suc n\<rfloor> = \<lfloor>(?v - of_int \<lfloor>?v\<rfloor>) * 2 ^ n\<rfloor> + \<lfloor>?v\<rfloor> * 2 ^ n" by (simp only: floor_add_int)
  moreover have "0 \<le> \<lfloor>(?v - of_int \<lfloor>?v\<rfloor>) * 2 ^ n\<rfloor>" using rest(1) by simp
  ultimately have "nat \<lfloor>val * 2 ^ Suc n\<rfloor> = nat \<lfloor>(?v - of_int \<lfloor>?v\<rfloor>) * 2 ^ n\<rfloor> + nat \<lfloor>?v\<rfloor> * 2 ^ n"
    using fl by (simp add: nat_add_distrib nat_mult_distrib nat_power_eq)
  then show ?case
    using Suc.IH [OF rest, of "ret * 2 + nat \<lfloor>?v\<rfloor>"] by (simp add: u Let_def algebra_simps)
qed

lemma convert_magnitude_floor:
  assumes "rd (val + (1 / 2) ^ (1 + bits)) = w" "0 \<le> w" "w < 2 ^ 64"
  shows "convert_magnitude rd val bits = Some (nat \<lfloor>w * 2 ^ bits\<rfloor>)"
proof -
  have rest: "0 \<le> w - of_int \<lfloor>w\<rfloor>" "w - of_int \<lfloor>w\<rfloor> < 1" by linarith+
  have fl: "0 \<le> \<lfloor>w\<rfloor>" using assms(2) by simp
  have "w * 2 ^ bits = (w - of_int \<lfloor>w\<rfloor>) * 2 ^ bits + of_int (\<lfloor>w\<rfloor> * 2 ^ bits)" by (simp add: algebra_simps)
  then have "\<lfloor>w * 2 ^ bits\<rfloor> = \<lfloor>(w - of_int \<lfloor>w\<rfloor>) * 2 ^ bits\<rfloor> + \<lfloor>w\<rfloor> * 2 ^ bits" by (simp only: floor_add_int)
  moreover have "0 \<le> \<lfloor>(w - of_int \<lfloor>w\<rfloor>) * 2 ^ bits\<rfloor>" using rest(1) by simp
  ultimately have "nat \<lfloor>w * 2 ^ bits\<rfloor> = nat \<lfloor>w\<rfloor> * 2 ^ bits + nat \<lfloor>(w - of_int \<lfloor>w\<rfloor>) * 2 ^ bits\<rfloor>"
    using fl by (simp add: nat_add_distrib nat_mult_distrib nat_power_eq)
  then show ?thesis
    unfolding convert_magnitude_def assms(1) Let_def by (simp add: to_u64_floor [OF assms(2,3)] fraction_bits_floor [OF rest])
qed

definition rounded :: "rat \<Rightarrow> nat \<Rightarrow> nat" where
  "rounded val bits = nat \<lfloor>\<bar>val\<bar> * 2 ^ bits + 1 / 2\<rfloor>"

text \<open>What a value has to satisfy: the addition of the half is exact, and the number is small enough for
  a double to hold all of its bits and for its sign to be told modulo \<open>p\<close>.\<close>

definition fits_double :: "(rat \<Rightarrow> rat) \<Rightarrow> rat \<Rightarrow> nat \<Rightarrow> LargeNum \<Rightarrow> bool" where
  "fits_double rd val bits p \<longleftrightarrow> rd (\<bar>val\<bar> + (1 / 2) ^ (1 + bits)) = \<bar>val\<bar> + (1 / 2) ^ (1 + bits) \<and>
     \<bar>val\<bar> + (1 / 2) ^ (1 + bits) < 2 ^ 64 \<and> rounded val bits < 2 ^ 53 \<and> 2 * rounded val bits < p \<and> bits \<le> 64"

lemma convert_rounded:
  assumes "fits_double rd val bits p"
  shows "convertDoubleToLargeNum rd val bits p = Some (if val < 0 then p - rounded val bits else rounded val bits)"
proof -
  have "(\<bar>val\<bar> + (1 / 2) ^ (1 + bits)) * 2 ^ bits = \<bar>val\<bar> * 2 ^ bits + 1 / 2"
    by (simp add: distrib_right power_one_over power_add)
  moreover have "0 \<le> \<bar>val\<bar> + (1 / 2) ^ (1 + bits)" by simp
  ultimately have "convert_magnitude rd \<bar>val\<bar> bits = Some (rounded val bits)"
    using assms convert_magnitude_floor [of rd "\<bar>val\<bar>" bits "\<bar>val\<bar> + (1 / 2) ^ (1 + bits)"]
    by (simp add: fits_double_def rounded_def)
  then show ?thesis using assms by (simp add: convertDoubleToLargeNum_def fits_double_def abs_if split: if_splits)
qed

lemma rounded_near: "\<bar>of_nat (rounded val bits) / 2 ^ bits - \<bar>val\<bar>\<bar> \<le> (1 / 2) ^ (1 + bits)"
proof -
  have "0 \<le> \<lfloor>\<bar>val\<bar> * 2 ^ bits + 1 / 2\<rfloor>" by simp
  then have "of_nat (rounded val bits) = (of_int \<lfloor>\<bar>val\<bar> * 2 ^ bits + 1 / 2\<rfloor> :: rat)"
    unfolding rounded_def by (rule of_nat_nat)
  moreover have "of_int \<lfloor>\<bar>val\<bar> * 2 ^ bits + 1 / 2\<rfloor> \<le> \<bar>val\<bar> * 2 ^ bits + 1 / 2"
    "\<bar>val\<bar> * 2 ^ bits + 1 / 2 < of_int \<lfloor>\<bar>val\<bar> * 2 ^ bits + 1 / 2\<rfloor> + 1" by linarith+
  ultimately have "\<bar>of_nat (rounded val bits) - \<bar>val\<bar> * 2 ^ bits\<bar> \<le> (1 / 2 :: rat)"
    unfolding abs_le_iff by linarith
  then have "\<bar>of_nat (rounded val bits) - \<bar>val\<bar> * 2 ^ bits\<bar> / 2 ^ bits \<le> (1 / 2) / 2 ^ bits"
    by (rule divide_right_mono) simp
  moreover have "\<bar>of_nat (rounded val bits) - \<bar>val\<bar> * 2 ^ bits\<bar> / 2 ^ bits
      = \<bar>of_nat (rounded val bits) / 2 ^ bits - \<bar>val\<bar>\<bar>"
  proof -
    have "(of_nat (rounded val bits) - \<bar>val\<bar> * 2 ^ bits) / 2 ^ bits = of_nat (rounded val bits) / 2 ^ bits - \<bar>val\<bar>"
      by (simp add: diff_divide_distrib)
    then show ?thesis using abs_divide [of "of_nat (rounded val bits) - \<bar>val\<bar> * 2 ^ bits" "2 ^ bits"] by simp
  qed
  ultimately show ?thesis by (simp add: power_one_over)
qed

text \<open>
  C25: A number survives its way through the computation. What a dataowner reads, encodes modulo \<open>p\<close>
  with \<open>bits\<close> binary places and shares, a recipient that opens it shows with an error of at most half of
  the last place, signs included. The code is reduced modulo \<open>p\<close>, except for a negative number that
  rounds to zero: that one is encoded as \<open>p\<close> itself.
\<close>

theorem number_roundtrip:
  assumes "fits_double rd val bits p" "exact53 rd"
  shows "\<exists>x. convertDoubleToLargeNum rd val bits p = Some x
    \<and> \<bar>castToDouble rd x bits p - val\<bar> \<le> (1 / 2) ^ (1 + bits)
    \<and> (x < p \<longleftrightarrow> \<not> (val < 0 \<and> rounded val bits = 0))"
proof -
  let ?m = "rounded val bits" and ?x = "if val < 0 then p - rounded val bits else rounded val bits"
  have fits: "?m < 2 ^ 53" "2 * ?m < p" "bits \<le> 64" using assms(1) by (simp_all add: fits_double_def)
  have q: "quotient_and_rest rd ?m bits = of_nat ?m / 2 ^ bits"
    by (rule quotient_and_rest_exact [OF assms(2) fits(1,3)])
  have sign: "p < 2 * (p - ?m)" "p - (p - ?m) = ?m" "\<not> p < 2 * ?m" using fits(2) by linarith+
  have "castToDouble rd ?x bits p = (if val < 0 then - (of_nat ?m / 2 ^ bits) else of_nat ?m / 2 ^ bits)"
    using fits(2) sign by (simp add: castToDouble_def q)
  then have "\<bar>castToDouble rd ?x bits p - val\<bar> \<le> (1 / 2) ^ (1 + bits)"
    using rounded_near [of val bits] by (simp add: abs_if split: if_splits)
  then show ?thesis using convert_rounded [OF assms(1)] fits(2) by auto
qed

theorem number_roundtrip_witness:
  "\<exists>x. convertDoubleToLargeNum (\<lambda>x. x) (- 13 / 4) 1 101 = Some x \<and> \<bar>castToDouble (\<lambda>x. x) x 1 101 - (- 13 / 4)\<bar> \<le> 1 / 4"
  using number_roundtrip [of "\<lambda>x. x" "- 13 / 4" 1 101] by (auto simp: fits_double_def exact53_def rounded_def)

subsection \<open>Reading a table\<close>

definition clean :: "string \<Rightarrow> bool" where
  "clean s \<longleftrightarrow> s \<noteq> [] \<and> CHR '','' \<notin> set s"

lemma find_comma: "CHR '','' \<notin> set s \<Longrightarrow> find_in '','' (s @ CHR '','' # rest) = Some (length s)"
  by (induction s) (auto simp: find_in.simps)

lemma find_no_comma: "CHR '','' \<notin> set s \<Longrightarrow> find_in '','' s = None"
  by (induction s) (auto simp: find_in.simps)

lemma tokens_joined:
  "list_all clean cells \<Longrightarrow> cells \<noteq> [] \<Longrightarrow> tokens '','' True (joined '','' cells) = cells"
proof (induction "'',''" cells rule: joined.induct)
  case (2 s)
  then show ?case by (subst tokens.simps) (simp add: clean_def find_no_comma keep_token_def)
next
  case (3 s t ss)
  then have "find_in '','' (joined '','' (s # t # ss)) = Some (length s)" by (simp add: clean_def find_comma)
  then show ?case using 3 by (subst tokens.simps) (simp add: clean_def keep_token_def)
qed simp

lemma csv_fields_joined: "list_all clean cells \<Longrightarrow> cells \<noteq> [] \<Longrightarrow> csv_fields (Join cells '','') = cells"
proof -
  assume cells: "list_all clean cells" "cells \<noteq> []"
  then have "joined '','' cells \<noteq> []" by (cases cells) (auto simp: clean_def joined_concat)
  then show ?thesis using tokens_joined [OF cells] by (simp add: csv_fields_def Join_joined Split_tokens)
qed

lemma index_of_nth: "distinct ns \<Longrightarrow> i < length ns \<Longrightarrow> index_of (ns ! i) ns = Some i"
  by (induction ns arbitrary: i) (auto simp: nth_Cons split: nat.splits)

lemma header_columns_names:
  "distinct names \<Longrightarrow> list_all (\<lambda>i. i < length names) cols \<Longrightarrow> header_columns names (map ((!) names) cols) = Inr cols"
  by (induction cols) (auto simp: index_of_nth)

lemma last_place_snoc: "last_place i (cs @ [c]) = (if c = i then Some (length cs) else last_place i cs)"
  by (simp add: last_place_def enumerate_append_eq)

lemma last_place_Nil [simp]: "last_place i [] = None"
  by (simp add: last_place_def)

lemma last_place_Some: "last_place i cs = Some j \<Longrightarrow> j < length cs \<and> cs ! j = i"
  by (induction cs rule: rev_induct) (auto simp: last_place_snoc nth_append split: if_splits)

lemma last_place_None: "last_place i cs = None \<longleftrightarrow> i \<notin> set cs"
  by (induction cs rule: rev_induct) (auto simp: last_place_snoc)

lemma last_place_nth: "distinct cs \<Longrightarrow> last_place i cs = Some j \<longleftrightarrow> j < length cs \<and> cs ! j = i"
proof
  assume d: "distinct cs" and j: "j < length cs \<and> cs ! j = i"
  then have "i \<in> set cs" by auto
  then obtain k where k: "last_place i cs = Some k" using last_place_None [of i cs] by auto
  then have "k = j" using last_place_Some [OF k] j nth_eq_iff_index_eq [OF d, of k j] by simp
  with k show "last_place i cs = Some j" by simp
qed (rule last_place_Some)

lemma extra_field_place:
  "cx_payloads X \<noteq> [] \<Longrightarrow> extra_field X cols = (case cx_extra X of None \<Rightarrow> None | Some e \<Rightarrow> last_place e cols)"
proof (induction cols rule: rev_induct)
  case (snoc c cols)
  then show ?case
    by (cases "cx_extra X") (simp_all add: extra_field_def enumerate_append_eq last_place_snoc)
qed (simp add: extra_field_def split: option.split)

text \<open>Writing to the places of a list.\<close>

definition place_all :: "('f \<Rightarrow> nat option) \<Rightarrow> ('f \<Rightarrow> 'v) \<Rightarrow> 'f list \<Rightarrow> 'v list \<Rightarrow> 'v list" where
  "place_all f g = fold (\<lambda>x v. case f x of None \<Rightarrow> v | Some j \<Rightarrow> v[j := g x])"

lemma length_place_all [simp]: "length (place_all f g xs v) = length v"
  unfolding place_all_def by (induction xs arbitrary: v) (auto split: option.splits)

lemma place_all_other: "list_all (\<lambda>x. f x \<noteq> Some j) xs \<Longrightarrow> place_all f g xs v ! j = v ! j"
  unfolding place_all_def by (induction xs arbitrary: v) (auto split: option.splits)

lemma place_all_Nil [simp]: "place_all f g [] v = v"
  by (simp add: place_all_def)

lemma place_all_Cons:
  "place_all f g (x # xs) v = place_all f g xs (case f x of None \<Rightarrow> v | Some j \<Rightarrow> v[j := g x])"
  by (simp add: place_all_def)

lemma place_all_nth:
  "list_ex (\<lambda>x. f x = Some j) xs \<Longrightarrow> list_all (\<lambda>x. f x = Some j \<longrightarrow> g x = a) xs \<Longrightarrow> j < length v \<Longrightarrow>
   place_all f g xs v ! j = a"
proof (induction xs arbitrary: v)
  case (Cons x xs)
  let ?v = "case f x of None \<Rightarrow> v | Some j \<Rightarrow> v[j := g x]"
  have step: "place_all f g (x # xs) v = place_all f g xs ?v" by (rule place_all_Cons)
  show ?case
  proof (cases "list_ex (\<lambda>x. f x = Some j) xs")
    case True
    then show ?thesis unfolding step using Cons.prems by (intro Cons.IH) (auto split: option.splits)
  next
    case False
    then have "list_all (\<lambda>x. f x \<noteq> Some j) xs" by (simp add: list_all_iff list_ex_iff)
    then show ?thesis unfolding step using False Cons.prems by (simp add: place_all_other)
  qed
qed simp

definition field_bits :: "csv_context \<Rightarrow> nat \<Rightarrow> nat" where
  "field_bits X c = (if cx_extra X = Some c then 2 * cx_bits X else cx_bits X)"

text \<open>The residue of a field of column \<open>c\<close>.\<close>

definition encode :: "csv_context \<Rightarrow> nat \<Rightarrow> string \<Rightarrow> LargeNum" where
  "encode X c s =
     (let v = atof (cx_round X) s; m = rounded v (field_bits X c) in if v < 0 then cx_modulus X - m else m)"

definition field_ok :: "csv_context \<Rightarrow> nat \<Rightarrow> string \<Rightarrow> bool" where
  "field_ok X c s \<longleftrightarrow> fits_double (cx_round X) (atof (cx_round X) s) (field_bits X c) (cx_modulus X)"

definition cell :: "nat list \<Rightarrow> string list \<Rightarrow> nat \<Rightarrow> string" where
  "cell cols row c = (case last_place c cols of None \<Rightarrow> [] | Some k \<Rightarrow> row ! k)"

definition table_row :: "csv_context \<Rightarrow> nat list \<Rightarrow> string list \<Rightarrow> Observation" where
  "table_row X cols row =
     \<lparr>keyCols = map (\<lambda>c. cx_large X (cell cols row c)) (cx_keys X) @ [unat (vertical (cx_id X))],
      arithmeticPayloadCols = map (\<lambda>c. encode X c (cell cols row c)) (cx_payloads X), XORPayloadCols = []\<rparr>"

lemma store_fields_places:
  assumes "\<And>i pl s j. (i, pl, s) \<in> set fs \<Longrightarrow> pl_payload pl = Some j \<Longrightarrow>
    convertDoubleToLargeNum (cx_round X) (atof (cx_round X) s) (if extra = Some i then 2 * cx_bits X else cx_bits X)
      (cx_modulus X) = Some (h (i, pl, s))"
  shows "store_fields X extra fs (ks, ps) =
    Some (place_all (\<lambda>(i, pl, s). pl_key pl) (\<lambda>(i, pl, s). cx_large X s) fs ks, place_all (\<lambda>(i, pl, s). pl_payload pl) h fs ps)"
  using assms
proof (induction fs arbitrary: ks ps)
  case (Cons f fs)
  obtain i pl s where f: "f = (i, pl, s)" by (cases f)
  have IH: "store_fields X extra fs (ks, ps) = Some (place_all (\<lambda>(i, pl, s). pl_key pl) (\<lambda>(i, pl, s). cx_large X s) fs ks,
      place_all (\<lambda>(i, pl, s). pl_payload pl) h fs ps)" for ks ps
    using Cons.IH Cons.prems by simp
  have "store_field X extra f (ks, ps) =
      Some (case pl_key pl of None \<Rightarrow> ks | Some j \<Rightarrow> ks[j := cx_large X s],
        case pl_payload pl of None \<Rightarrow> ps | Some j \<Rightarrow> ps[j := h (i, pl, s)])"
    using Cons.prems [of i pl s] by (cases "pl_payload pl") (simp_all add: f store_field_def Let_def)
  then show ?case by (simp add: IH place_all_Cons f split: option.split)
qed simp

definition row_fields :: "csv_context \<Rightarrow> nat list \<Rightarrow> string list \<Rightarrow> (nat \<times> csv_place \<times> string) list" where
  "row_fields X cols row = enumerate 0 (zip (csv_places X cols) row)"

lemma in_row_fields:
  assumes "length row = length cols"
  shows "(i, pl, s) \<in> set (row_fields X cols row) \<longleftrightarrow>
    i < length cols \<and> s = row ! i \<and> pl = \<lparr>pl_key = last_place (cols ! i) (cx_keys X), pl_payload = last_place (cols ! i) (cx_payloads X)\<rparr>"
  using assms by (auto simp: row_fields_def in_set_enumerate_eq csv_places_def)

text \<open>A column of the list \<open>cs\<close>, which \<open>f\<close> looks up, gets the value of its field.\<close>

lemma column_placed:
  assumes "length row = length cols" "distinct cols" "distinct cs" "j < length cs" "cs ! j \<in> set cols" "length cs \<le> length v"
    and "\<And>i pl s. (i, pl, s) \<in> set (row_fields X cols row) \<Longrightarrow> f (i, pl, s) = last_place (cols ! i) cs"
    and "\<And>i pl s. (i, pl, s) \<in> set (row_fields X cols row) \<Longrightarrow> cols ! i = cs ! j \<Longrightarrow> g (i, pl, s) = h (cs ! j) s"
  shows "place_all f g (row_fields X cols row) v ! j = h (cs ! j) (cell cols row (cs ! j))"
proof (rule place_all_nth)
  obtain k where k: "k < length cols" "cols ! k = cs ! j" using assms(5) by (metis in_set_conv_nth)
  have cell: "cell cols row (cs ! j) = row ! k"
    using last_place_nth [OF assms(2), of "cs ! j" k] k by (simp add: cell_def)
  obtain pl where mem: "(k, pl, row ! k) \<in> set (row_fields X cols row)" using in_row_fields [OF assms(1)] k(1) by blast
  have "f (k, pl, row ! k) = Some j"
    using assms(7) [OF mem] last_place_nth [OF assms(3), of "cols ! k" j] k(2) assms(4) by simp
  with mem show "list_ex (\<lambda>x. f x = Some j) (row_fields X cols row)" by (auto simp: list_ex_iff)
  show "list_all (\<lambda>x. f x = Some j \<longrightarrow> g x = h (cs ! j) (cell cols row (cs ! j))) (row_fields X cols row)"
  proof (clarsimp simp: list_all_iff)
    fix i pl s
    assume x: "(i, pl, s) \<in> set (row_fields X cols row)" "f (i, pl, s) = Some j"
    then have "last_place (cols ! i) cs = Some j" using assms(7) [OF x(1)] by simp
    then have c: "cols ! i = cs ! j" using last_place_Some by simp
    moreover have i: "i < length cols" "s = row ! i" using x(1) in_row_fields [OF assms(1)] by blast+
    ultimately have "i = k" using k nth_eq_iff_index_eq [OF assms(2), of i k] by simp
    then show "g (i, pl, s) = h (cs ! j) (cell cols row (cs ! j))" using assms(8) [OF x(1) c] i(2) cell by simp
  qed
qed (use assms(4,6) in simp)

definition columns_ok :: "csv_context \<Rightarrow> nat list \<Rightarrow> bool" where
  "columns_ok X cols \<longleftrightarrow> role (cx_id X) = ROLE_DATAOWNER \<and> cols \<noteq> [] \<and> distinct (cx_names X) \<and> distinct cols \<and>
     list_all (\<lambda>i. i < length (cx_names X)) cols \<and> list_all clean (cx_names X) \<and>
     distinct (cx_keys X) \<and> distinct (cx_payloads X) \<and> set (cx_keys X) \<union> set (cx_payloads X) \<subseteq> set cols"

definition row_ok :: "csv_context \<Rightarrow> nat list \<Rightarrow> string list \<Rightarrow> bool" where
  "row_ok X cols row \<longleftrightarrow> length row = length cols \<and> list_all clean row \<and>
     list_all (\<lambda>c. field_ok X c (cell cols row c)) (cx_payloads X)"

lemma csv_row_table:
  assumes "columns_ok X cols" "row_ok X cols row"
  shows "csv_row X cols row = Inr (table_row X cols row)"
proof -
  have cols: "distinct cols" "distinct (cx_keys X)" "distinct (cx_payloads X)" "set (cx_keys X) \<subseteq> set cols"
    "set (cx_payloads X) \<subseteq> set cols" using assms(1) by (simp_all add: columns_ok_def)
  have row: "length row = length cols" using assms(2) by (simp add: row_ok_def)
  let ?fs = "row_fields X cols row" and ?h = "\<lambda>(i, pl, s). encode X (cols ! i) s"
  let ?ks = "replicate (length (cx_keys X)) 0 @ [unat (vertical (cx_id X))]"
  have bits: "(if extra_field X cols = Some i then 2 * cx_bits X else cx_bits X) = field_bits X (cols ! i)"
    if "i < length cols" "cx_payloads X \<noteq> []" for i
    using extra_field_place [OF that(2)] last_place_nth [OF cols(1)] that(1)
    by (auto simp: field_bits_def split: option.splits)
  have conv: "convertDoubleToLargeNum (cx_round X) (atof (cx_round X) s)
      (if extra_field X cols = Some i then 2 * cx_bits X else cx_bits X) (cx_modulus X) = Some (?h (i, pl, s))"
    if f: "(i, pl, s) \<in> set ?fs" "pl_payload pl = Some j" for i pl s j
  proof -
    have i: "i < length cols" "s = row ! i" "last_place (cols ! i) (cx_payloads X) = Some j"
      using f in_row_fields [OF row] by auto
    then have c: "cols ! i \<in> set (cx_payloads X)" "cx_payloads X \<noteq> []"
      using last_place_Some [OF i(3)] nth_mem [of j "cx_payloads X"] by auto
    have "cell cols row (cols ! i) = s" using last_place_nth [OF cols(1), of "cols ! i" i] i by (simp add: cell_def)
    then have "field_ok X (cols ! i) s" using assms(2) c(1) by (auto simp: row_ok_def list_all_iff)
    then show ?thesis
      using convert_rounded unfolding bits [OF i(1) c(2)] by (simp add: field_ok_def encode_def Let_def)
  qed
  have keys: "place_all (\<lambda>(i, pl, s). pl_key pl) (\<lambda>(i, pl, s). cx_large X s) ?fs ?ks
      = map (\<lambda>c. cx_large X (cell cols row c)) (cx_keys X) @ [unat (vertical (cx_id X))]"
  proof (rule nth_equalityI)
    fix j assume "j < length (place_all (\<lambda>(i, pl, s). pl_key pl) (\<lambda>(i, pl, s). cx_large X s) ?fs ?ks)"
    then consider "j < length (cx_keys X)" | "j = length (cx_keys X)" by fastforce
    then show "place_all (\<lambda>(i, pl, s). pl_key pl) (\<lambda>(i, pl, s). cx_large X s) ?fs ?ks ! j
        = (map (\<lambda>c. cx_large X (cell cols row c)) (cx_keys X) @ [unat (vertical (cx_id X))]) ! j"
    proof cases
      case 1
      then have "cx_keys X ! j \<in> set cols" using cols(4) by auto
      note placed = column_placed [OF row cols(1,2) 1 this, where X = X and h = "\<lambda>c. cx_large X" and v = ?ks
          and f = "\<lambda>(i, pl, s). pl_key pl" and g = "\<lambda>(i, pl, s). cx_large X s"]
      show ?thesis using 1 by (subst placed) (auto simp: in_row_fields [OF row] nth_append)
    next
      case 2
      have "list_all (\<lambda>x. (case x of (i, pl, s) \<Rightarrow> pl_key pl) \<noteq> Some j) ?fs"
        using 2 in_row_fields [OF row] last_place_Some by (fastforce simp: list_all_iff)
      then show ?thesis using 2 by (simp add: place_all_other nth_append)
    qed
  qed simp
  have payloads: "place_all (\<lambda>(i, pl, s). pl_payload pl) ?h ?fs (replicate (length (cx_payloads X)) 0)
      = map (\<lambda>c. encode X c (cell cols row c)) (cx_payloads X)"
  proof (rule nth_equalityI)
    fix j assume "j < length (place_all (\<lambda>(i, pl, s). pl_payload pl) ?h ?fs (replicate (length (cx_payloads X)) 0))"
    then have j: "j < length (cx_payloads X)" by simp
    then have "cx_payloads X ! j \<in> set cols" using cols(5) by auto
    note placed = column_placed [OF row cols(1,3) j this, where X = X and h = "encode X" and v = "replicate (length (cx_payloads X)) 0"
        and f = "\<lambda>(i, pl, s). pl_payload pl" and g = ?h]
    show "place_all (\<lambda>(i, pl, s). pl_payload pl) ?h ?fs (replicate (length (cx_payloads X)) 0) ! j
        = map (\<lambda>c. encode X c (cell cols row c)) (cx_payloads X) ! j"
      using j by (subst placed) (auto simp: in_row_fields [OF row])
  qed simp
  have "store_fields X (extra_field X cols) ?fs (?ks, replicate (length (cx_payloads X)) 0) =
      Some (map (\<lambda>c. cx_large X (cell cols row c)) (cx_keys X) @ [unat (vertical (cx_id X))],
        map (\<lambda>c. encode X c (cell cols row c)) (cx_payloads X))"
    using store_fields_places [of ?fs X "extra_field X cols" ?h ?ks "replicate (length (cx_payloads X)) 0", OF conv] keys payloads
    by simp
  then show ?thesis by (simp add: csv_row_def row row_fields_def table_row_def)
qed

definition data_lines :: "string list \<Rightarrow> string list" where
  "data_lines ls = filter (\<lambda>l. \<not> HasPrefixString l ''#'') (map csv_line ls)"

lemma csv_rows_table:
  "columns_ok X cols \<Longrightarrow> list_all (row_ok X cols) table \<Longrightarrow> data_lines ls = map (\<lambda>row. Join row '','') table \<Longrightarrow>
   csv_rows X cols ls = Inr (map (table_row X cols) table)"
proof (induction ls arbitrary: table)
  case Nil
  then show ?case by (simp add: data_lines_def)
next
  case (Cons l ls)
  show ?case
  proof (cases "HasPrefixString (csv_line l) ''#''")
    case True
    then show ?thesis using Cons by (simp add: data_lines_def)
  next
    case False
    then obtain row rows where table: "table = row # rows" "csv_line l = Join row '',''"
      "data_lines ls = map (\<lambda>row. Join row '','') rows"
      using Cons.prems(3) by (cases table) (auto simp: data_lines_def)
    then have row: "row_ok X cols row" "list_all (row_ok X cols) rows" using Cons.prems(2) by simp_all
    then have "csv_fields (csv_line l) = row" using Cons.prems(1) table(2)
      by (metis columns_ok_def csv_fields_joined length_0_conv row_ok_def)
    then show ?thesis
      using False csv_row_table [OF Cons.prems(1) row(1)] Cons.IH [OF Cons.prems(1) row(2) table(3)]
      by (simp add: table(1))
  qed
qed

subsection \<open>Tables whose numbers fit\<close>

text \<open>A number fits when its magnitude, with the half of the last place, fits into 64 bits, and a negative one when the modulus is
  large enough to take its code off.\<close>

definition number_fits :: "(rat \<Rightarrow> rat) \<Rightarrow> nat \<Rightarrow> LargeNum \<Rightarrow> rat \<Rightarrow> bool" where
  "number_fits rd bits p val \<longleftrightarrow>
     (let w = rd (\<bar>val\<bar> + (1 / 2) ^ (1 + bits)) in 0 \<le> w \<and> w < 2 ^ 64 \<and> (val < 0 \<longrightarrow> nat \<lfloor>w * 2 ^ bits\<rfloor> \<le> p))"

lemma number_fits_defined: "number_fits rd bits p val \<Longrightarrow> convertDoubleToLargeNum rd val bits p \<noteq> None"
  using convert_magnitude_floor [of rd "\<bar>val\<bar>" bits "rd (\<bar>val\<bar> + (1 / 2) ^ (1 + bits))"]
  by (auto simp: number_fits_def convertDoubleToLargeNum_def Let_def abs_if split: if_splits)

text \<open>The fields of the columns \<open>cols\<close> of a vertical with the columns \<open>names\<close>, in every line but the header and the
  comments, with the plain and with the doubled precision.\<close>

definition line_fits :: "(rat \<Rightarrow> rat) \<Rightarrow> nat \<Rightarrow> LargeNum \<Rightarrow> string list \<Rightarrow> nat list \<Rightarrow> string list \<Rightarrow> string list \<Rightarrow> bool" where
  "line_fits rd bits p names cols header entries \<longleftrightarrow>
     list_all (\<lambda>(n, s). case index_of n names of
         None \<Rightarrow> True
       | Some i \<Rightarrow> i \<in> set cols \<longrightarrow> number_fits rd bits p (atof rd s) \<and> number_fits rd (2 * bits) p (atof rd s))
       (zip header entries)"

definition file_fits :: "(rat \<Rightarrow> rat) \<Rightarrow> nat \<Rightarrow> LargeNum \<Rightarrow> string list \<Rightarrow> nat list \<Rightarrow> string list option \<Rightarrow> bool" where
  "file_fits rd bits p names cols file =
     (case file of
        Some (h # ls) \<Rightarrow> list_all (\<lambda>l. line_fits rd bits p names cols (csv_fields (csv_line h)) (csv_fields l)) (data_lines ls)
      | _ \<Rightarrow> True)"

lemma header_columns_index:
  "header_columns names hs = Inr cols \<Longrightarrow> length cols = length hs \<and> list_all2 (\<lambda>h i. index_of h names = Some i) hs cols"
  by (induction hs arbitrary: cols) (auto split: option.splits sum.splits)

lemma csv_row_defined:
  assumes "header_columns (cx_names X) hs = Inr cols" "set (cx_payloads X) \<subseteq> set pcols"
    and "line_fits (cx_round X) (cx_bits X) (cx_modulus X) (cx_names X) pcols hs cells"
  shows "csv_row X cols cells \<noteq> Inl UndefinedNumber"
proof (cases "length cells = length cols")
  case True
  let ?conv = "\<lambda>i s. convertDoubleToLargeNum (cx_round X) (atof (cx_round X) s)
    (if extra_field X cols = Some i then 2 * cx_bits X else cx_bits X) (cx_modulus X)"
  note cols = header_columns_index [OF assms(1)]
  have "?conv i s = Some ((\<lambda>(i, pl, s). the (?conv i s)) (i, pl, s))"
    if f: "(i, pl, s) \<in> set (row_fields X cols cells)" "pl_payload pl = Some j" for i pl s j
  proof -
    have i: "i < length cols" "s = cells ! i" "last_place (cols ! i) (cx_payloads X) = Some j"
      using f(2) f(1) [unfolded in_row_fields [OF True]] by simp_all
    have col: "cols ! i \<in> set pcols" using last_place_Some [OF i(3)] nth_mem [of j "cx_payloads X"] assms(2) by auto
    have index: "index_of (hs ! i) (cx_names X) = Some (cols ! i)"
      by (rule list_all2_nthD2 [OF conjunct2 [OF cols] i(1)])
    have "(hs ! i, s) \<in> set (zip hs cells)" using i(1,2) True cols by (auto simp: set_zip)
    then have "case index_of (hs ! i) (cx_names X) of None \<Rightarrow> True
      | Some k \<Rightarrow> k \<in> set pcols \<longrightarrow> number_fits (cx_round X) (cx_bits X) (cx_modulus X) (atof (cx_round X) s) \<and>
          number_fits (cx_round X) (2 * cx_bits X) (cx_modulus X) (atof (cx_round X) s)"
      using assms(3) unfolding line_fits_def list_all_iff by blast
    then have "number_fits (cx_round X) (cx_bits X) (cx_modulus X) (atof (cx_round X) s)"
      "number_fits (cx_round X) (2 * cx_bits X) (cx_modulus X) (atof (cx_round X) s)"
      using col by (simp_all add: index)
    then have "?conv i s \<noteq> None" using number_fits_defined by auto
    then show ?thesis by simp
  qed
  from store_fields_places [of "row_fields X cols cells" X "extra_field X cols", OF this] show ?thesis
    by (simp add: csv_row_def True row_fields_def)
qed (simp add: csv_row_def)

lemma csv_rows_defined:
  assumes "header_columns (cx_names X) hs = Inr cols" "set (cx_payloads X) \<subseteq> set pcols"
  shows "list_all (\<lambda>l. line_fits (cx_round X) (cx_bits X) (cx_modulus X) (cx_names X) pcols hs (csv_fields l)) (data_lines ls) \<Longrightarrow>
    csv_rows X cols ls \<noteq> Inl UndefinedNumber"
proof (induction ls)
  case (Cons l ls)
  then show ?case using csv_row_defined [OF assms, of "csv_fields (csv_line l)"]
    by (auto simp: Let_def data_lines_def split: sum.splits if_splits)
qed simp

lemma readCSV_defined:
  assumes "file_fits (cx_round X) (cx_bits X) (cx_modulus X) (cx_names X) pcols file" "set (cx_payloads X) \<subseteq> set pcols"
  shows "readCSV X file \<noteq> Inl UndefinedNumber"
proof -
  have "header_columns ns cs \<noteq> Inl UndefinedNumber" for ns cs
    by (induction cs) (auto split: option.splits sum.splits)
  then show ?thesis using assms(1) csv_rows_defined [OF _ assms(2)]
    by (auto simp: readCSV_def file_fits_def split: option.splits list.splits sum.splits)
qed

text \<open>
  C26: The table a dataowner computes with is the one in its file. Whatever white space and comment lines
  the file has, when its header names columns of the study and its lines have a nonempty field for each,
  there is one row per line, in order: with the keys and payloads of the query in the order of the
  query, whatever the order of the columns in the file, the number of the vertical as last key, and each
  payload rounded to the binary point, with the doubled precision for the column that asks for it.
\<close>

theorem csv_table_read:
  assumes "columns_ok X cols" "list_all (row_ok X cols) table"
    and "csv_line header = Join (map ((!) (cx_names X)) cols) '',''"
    and "data_lines ls = map (\<lambda>row. Join row '','') table"
  shows "readCSV X (Some (header # ls)) =
    Inr \<lparr>elements = map (table_row X cols) table, numKeyCols = length (cx_keys X) + 1,
      numArithmeticPayloadCols = length (cx_payloads X), numXORPayloadCols = 0\<rparr>"
proof -
  have cols: "cols \<noteq> []" "distinct (cx_names X)" "list_all (\<lambda>i. i < length (cx_names X)) cols" "list_all clean (cx_names X)"
    using assms(1) by (simp_all add: columns_ok_def)
  have "list_all clean (map ((!) (cx_names X)) cols)" using cols(3,4) by (auto simp: list_all_iff)
  then have "csv_fields (csv_line header) = map ((!) (cx_names X)) cols"
    using csv_fields_joined [of "map ((!) (cx_names X)) cols"] cols(1) by (simp add: assms(3))
  then show ?thesis
    using header_columns_names [OF cols(2,3)] csv_rows_table [OF assms(1,2,4)] assms(1)
    by (simp add: readCSV_def columns_ok_def)
qed

definition example_context :: csv_context where
  "example_context = \<lparr>cx_round = \<lambda>x. x, cx_large = digits_value, cx_names = [''id'', ''age'', ''pay''], cx_keys = [0],
     cx_payloads = [2], cx_extra = None, cx_id = example_party 1, cx_modulus = 101, cx_bits = 2\<rparr>"

text \<open>Two rows, with spaces, a carriage return and a comment.\<close>

theorem csv_table_read_witness:
  "readCSV example_context (Some [''pay, id'' @ [CHR 13], ''#none'', ''2.5,17'', ''-1, 4'']) =
    Inr \<lparr>elements = [\<lparr>keyCols = [17, 1], arithmeticPayloadCols = [10], XORPayloadCols = []\<rparr>,
        \<lparr>keyCols = [4, 1], arithmeticPayloadCols = [97], XORPayloadCols = []\<rparr>],
      numKeyCols = 2, numArithmeticPayloadCols = 1, numXORPayloadCols = 0\<rparr>"
proof -
  note line_defs = csv_line_def data_lines_def RemoveWindowsTrailingCharacters_def RemoveAllWhitespace_def isspace_def
    HasPrefixString_def substr_def Join_joined Let_def
  have floors: "\<lfloor>21 / 2 :: rat\<rfloor> = 10" "\<lfloor>9 / 2 :: rat\<rfloor> = 4" by (simp_all add: floor_eq_iff)
  let ?table = "[[''2.5'', ''17''], [''-1'', ''4'']]"
  have X: "columns_ok example_context [2, 0]"
    by (simp add: columns_ok_def example_context_def example_party_def clean_def)
  have atof: "atof (\<lambda>x. x) ''2.5'' = 5 / 2" "atof (\<lambda>x. x) ''-1'' = - 1"
    by (simp_all add: atof_def decimal_def read_sign_def exponent_def is_digit_def digits_value_def isspace_def Let_def)
  have cells: "cell [2, 0] row 2 = row ! 0" "cell [2, 0] row 0 = row ! Suc 0" for row
    by (simp_all add: cell_def last_place_def)
  have rows: "list_all (row_ok example_context [2, 0]) ?table"
    by (simp add: row_ok_def example_context_def clean_def field_ok_def field_bits_def cells atof fits_double_def rounded_def
        floors)
  have header: "csv_line (''pay, id'' @ [CHR 13]) = Join (map ((!) (cx_names example_context)) [2, 0]) '',''"
    by (simp add: line_defs example_context_def)
  have lines: "data_lines [''#none'', ''2.5,17'', ''-1, 4''] = map (\<lambda>row. Join row '','') ?table"
    by (simp add: line_defs)
  show ?thesis
    using csv_table_read [OF X rows header lines]
    by (simp add: example_context_def table_row_def cells encode_def atof field_bits_def rounded_def digits_value_def
        example_party_def floors Let_def)
qed

end
