(* ===== verification/Outcomes.thy ===== *)
theory Outcomes
  imports Safrn_Prelude
begin

text \<open>
  What a call can come to besides its value: \<open>Rejected\<close> when it refuses its input, by a null pointer or
  by an exception, and \<open>Fails\<close> when an assertion fails or the behaviour is undefined.
\<close>

datatype 'a outcome = Fails | Rejected | Returns 'a

fun and_then :: "'a outcome \<Rightarrow> ('a \<Rightarrow> 'b outcome) \<Rightarrow> 'b outcome" where
  "and_then Fails f = Fails"
| "and_then Rejected f = Rejected"
| "and_then (Returns x) f = f x"

definition defined :: "'a option \<Rightarrow> 'a outcome" where
  "defined r = (case r of None \<Rightarrow> Fails | Some x \<Rightarrow> Returns x)"

definition accepted :: "'a option \<Rightarrow> 'a outcome" where
  "accepted r = (case r of None \<Rightarrow> Rejected | Some x \<Rightarrow> Returns x)"

fun each :: "('a \<Rightarrow> 'b outcome) \<Rightarrow> 'a list \<Rightarrow> 'b list outcome" where
  "each f [] = Returns []"
| "each f (x # xs) = and_then (f x) (\<lambda>y. and_then (each f xs) (\<lambda>ys. Returns (y # ys)))"

lemma and_then_Returns: "and_then r f = Returns y \<longleftrightarrow> (\<exists>x. r = Returns x \<and> f x = Returns y)"
  by (cases r) simp_all

lemma and_then_Fails: "and_then r f = Fails \<longleftrightarrow> r = Fails \<or> (\<exists>x. r = Returns x \<and> f x = Fails)"
  by (cases r) simp_all

lemma defined_simps [simp]: "defined (Some x) = Returns x" "defined None = Fails"
  by (simp_all add: defined_def)

lemma defined_Returns [simp]: "defined r = Returns x \<longleftrightarrow> r = Some x"
  by (simp add: defined_def split: option.splits)

lemma defined_Fails [simp]: "defined r = Fails \<longleftrightarrow> r = None"
  by (simp add: defined_def split: option.splits)

lemma accepted_simps [simp]:
  "accepted (Some x) = Returns x" "accepted None = Rejected" "accepted r \<noteq> Fails" "accepted r = Returns x \<longleftrightarrow> r = Some x"
  by (simp_all add: accepted_def split: option.splits)

lemma each_Returns: "each f xs = Returns ys \<longleftrightarrow> list_all2 (\<lambda>x y. f x = Returns y) xs ys"
  by (induction xs arbitrary: ys) (auto simp: and_then_Returns list_all2_Cons1)

lemma each_cong [fundef_cong]: "xs = ys \<Longrightarrow> (\<And>x. x \<in> set ys \<Longrightarrow> f x = g x) \<Longrightarrow> each f xs = each g ys"
proof (induction ys arbitrary: xs)
  case (Cons y ys)
  then show ?case by (cases "g y") auto
qed simp

lemmas outcome_simps = and_then_Returns and_then_Fails

end
