(* ===== verification/Json.thy ===== *)
theory Json
  imports Outcomes Startup_Csv
begin

text \<open>
  JSON values as nlohmann's library gives them, with the access functions the program uses, and the
  scalar parts of a query: tokens of a text (\<open>Util/StringUtils.cpp\<close>), fractions, polynomials and the
  names of join types, comparisons and moments (\<open>JSON/Query\<close>).
\<close>

subsection \<open>Values\<close>

text \<open>The entries of an object are in the order of a \<open>std::map\<close>; the parser keeps one entry for a key.\<close>

datatype json =
    JNull
  | JBool bool
  | JInt int
  | JReal rat
  | JString string
  | JArray "json list"
  | JObject "(string \<times> json) list"

text \<open>\<open>operator[]\<close> of a constant value: an assertion for an absent key, an exception for what is no
  object.\<close>

fun json_at :: "string \<Rightarrow> json \<Rightarrow> json outcome" where
  "json_at key (JObject kvs) = defined (map_of kvs key)"
| "json_at key _ = Rejected"

fun json_contains :: "json \<Rightarrow> string \<Rightarrow> bool" where
  "json_contains (JObject kvs) key = (map_of kvs key \<noteq> None)"
| "json_contains _ key = False"

text \<open>The elements of a range-based loop; a scalar is a range of one.\<close>

fun json_elements :: "json \<Rightarrow> json list" where
  "json_elements JNull = []"
| "json_elements (JArray js) = js"
| "json_elements (JObject kvs) = map snd kvs"
| "json_elements j = [j]"

definition json_empty :: "json \<Rightarrow> bool" where
  "json_empty j \<longleftrightarrow> json_elements j = []"

text \<open>Conversions throw for a value of another type; a real number is cut off, undefined when it does
  not fit.\<close>

definition cut_off :: "rat \<Rightarrow> int" where
  "cut_off r = (if r < 0 then - \<lfloor>- r\<rfloor> else \<lfloor>r\<rfloor>)"

fun json_u64 :: "json \<Rightarrow> u64 outcome" where
  "json_u64 (JInt i) = Returns (word_of_int i)"
| "json_u64 (JReal r) = (if 0 \<le> cut_off r \<and> cut_off r < 2 ^ 64 then Returns (word_of_int (cut_off r)) else Fails)"
| "json_u64 _ = Rejected"

definition json_size_t :: "json \<Rightarrow> nat outcome" where
  "json_size_t j = and_then (json_u64 j) (\<lambda>w. Returns (unat w))"

fun json_bool :: "json \<Rightarrow> bool outcome" where
  "json_bool (JBool b) = Returns b"
| "json_bool _ = Rejected"

fun json_string :: "json \<Rightarrow> string outcome" where
  "json_string (JString s) = Returns s"
| "json_string _ = Rejected"

text \<open>Signed and narrow integers and floating-point numbers also take a boolean.\<close>

definition wrap_signed :: "nat \<Rightarrow> int \<Rightarrow> int" where
  "wrap_signed n i = (i + 2 ^ (n - 1)) mod 2 ^ n - 2 ^ (n - 1)"

fun json_signed :: "nat \<Rightarrow> json \<Rightarrow> int outcome" where
  "json_signed n (JInt i) = Returns (wrap_signed n i)"
| "json_signed n (JReal r) =
     (if - (2 ^ (n - 1)) \<le> cut_off r \<and> cut_off r < 2 ^ (n - 1) then Returns (cut_off r) else Fails)"
| "json_signed n (JBool b) = Returns (if b then 1 else 0)"
| "json_signed n _ = Rejected"

fun json_unsigned :: "nat \<Rightarrow> json \<Rightarrow> nat outcome" where
  "json_unsigned n (JInt i) = Returns (nat (i mod 2 ^ n))"
| "json_unsigned n (JReal r) = (if 0 \<le> cut_off r \<and> cut_off r < 2 ^ n then Returns (nat (cut_off r)) else Fails)"
| "json_unsigned n (JBool b) = Returns (if b then 1 else 0)"
| "json_unsigned n _ = Rejected"

fun json_float :: "(rat \<Rightarrow> rat) \<Rightarrow> json \<Rightarrow> rat outcome" where
  "json_float fl (JInt i) = Returns (fl (of_int i))"
| "json_float fl (JReal r) = Returns (fl r)"
| "json_float fl (JBool b) = Returns (if b then 1 else 0)"
| "json_float fl _ = Rejected"

definition json_get :: "string \<Rightarrow> (json \<Rightarrow> 'a outcome) \<Rightarrow> json \<Rightarrow> 'a outcome" where
  "json_get key f j = and_then (json_at key j) f"

subsection \<open>Tokens\<close>

text \<open>The loop of \<open>ExtractTokenNWithDefault\<close>, with the number of delimiters still to skip.\<close>

fun extract_token :: "string \<Rightarrow> string \<Rightarrow> string \<Rightarrow> nat \<Rightarrow> nat \<Rightarrow> string" where
  "extract_token target token dflt 0 start =
     (case find_from token target start of None \<Rightarrow> drop start target | Some p \<Rightarrow> substr target start (p - start))"
| "extract_token target token dflt (Suc n) start =
     (case find_from token target start of
        None \<Rightarrow> dflt
      | Some p \<Rightarrow> extract_token target token dflt n (p + length token))"

definition ExtractTokenNWithDefault :: "string \<Rightarrow> string \<Rightarrow> string \<Rightarrow> nat \<Rightarrow> string" where
  "ExtractTokenNWithDefault target token dflt n = extract_token target token dflt n 0"

definition ExtractTokenN :: "string \<Rightarrow> string \<Rightarrow> nat \<Rightarrow> string" where
  "ExtractTokenN target token n = ExtractTokenNWithDefault target token [] n"

subsection \<open>Fractions\<close>

text \<open>Division and remainder of C++, towards zero, on \<open>intmax_t\<close>.\<close>

definition quot :: "int \<Rightarrow> int \<Rightarrow> int" where
  "quot a b = sgn a * sgn b * (\<bar>a\<bar> div \<bar>b\<bar>)"

definition rest :: "int \<Rightarrow> int \<Rightarrow> int" where
  "rest a b = sgn a * (\<bar>a\<bar> mod \<bar>b\<bar>)"

definition intmax_min :: int where "intmax_min = - (2 ^ 63)"

definition intmax_max :: int where "intmax_max = 2 ^ 63 - 1"

text \<open>A division by zero or by -1 that overflows is undefined.\<close>

definition divides_ok :: "int \<Rightarrow> int \<Rightarrow> bool" where
  "divides_ok a b \<longleftrightarrow> b \<noteq> 0 \<and> \<not> (a = intmax_min \<and> b = - 1)"

function calculateGCD :: "int \<Rightarrow> int \<Rightarrow> int outcome" where
  "calculateGCD a b = (if a = 0 then Returns b else if \<not> divides_ok b a then Fails else calculateGCD (rest b a) a)"
  by pat_completeness auto
termination calculateGCD
  by (relation "measure (\<lambda>(a, b). nat \<bar>a\<bar>)") (auto simp: rest_def abs_mult sgn_if)

declare calculateGCD.simps [simp del]

record GCDReducedFraction =
  fr_gcd :: int
  numerator :: int
  denominator :: int

definition GCDReducedFraction_new :: "int \<Rightarrow> int \<Rightarrow> GCDReducedFraction outcome" where
  "GCDReducedFraction_new a b =
     and_then (calculateGCD a b) (\<lambda>g.
       if divides_ok a g \<and> divides_ok b g
       then Returns \<lparr>fr_gcd = g, numerator = quot a g, denominator = quot b g\<rparr> else Fails)"

text \<open>\<open>std::stoll\<close>: an exception when there is no number or it does not fit.\<close>

definition stoll :: "string \<Rightarrow> int outcome" where
  "stoll s =
     (let (neg, t) = read_sign (dropWhile isspace s); ds = takeWhile is_digit t;
          v = (if neg then - int (digits_value ds) else int (digits_value ds))
      in if ds = [] \<or> v < intmax_min \<or> intmax_max < v then Rejected else Returns v)"

definition RationalFraction_new :: "json \<Rightarrow> GCDReducedFraction outcome" where
  "RationalFraction_new j =
     and_then (json_string j) (\<lambda>s.
     and_then (stoll (ExtractTokenNWithDefault s ''/'' ''1'' 0)) (\<lambda>a.
     and_then (stoll (ExtractTokenNWithDefault s ''/'' ''1'' 1)) (\<lambda>b. GCDReducedFraction_new a b)))"

definition fraction_is :: "GCDReducedFraction \<Rightarrow> int \<Rightarrow> bool" where
  "fraction_is f n \<longleftrightarrow> denominator f = 1 \<and> numerator f = n"

definition fraction_eq :: "GCDReducedFraction \<Rightarrow> GCDReducedFraction \<Rightarrow> bool" where
  "fraction_eq f g \<longleftrightarrow> numerator f = numerator g \<and> denominator f = denominator g"

text \<open>A polynomial of fractions; the last coefficient is not zero.\<close>

definition Polynomial_new :: "json \<Rightarrow> GCDReducedFraction list outcome" where
  "Polynomial_new j =
     (if json_empty j then Rejected
      else and_then (RationalFraction_new (last (json_elements j))) (\<lambda>c.
           if fraction_is c 0 then Rejected else each RationalFraction_new (json_elements j)))"

definition IsIdentity :: "GCDReducedFraction list \<Rightarrow> bool" where
  "IsIdentity cs \<longleftrightarrow> length cs = 2 \<and> fraction_is (cs ! 0) 0 \<and> fraction_is (cs ! 1) 1"

subsection \<open>Names\<close>

definition to_lower :: "char \<Rightarrow> char" where
  "to_lower c = (if 65 \<le> (of_char c :: nat) \<and> (of_char c :: nat) \<le> 90 then char_of ((of_char c :: nat) + 32) else c)"

datatype JoinType = INNER | FULL_OUTER | LEFT | RIGHT

definition joinTypeFromString :: "string \<Rightarrow> JoinType outcome" where
  "joinTypeFromString s = accepted (map_of
     [(''inner'', INNER), (''full_outer'', FULL_OUTER), (''left'', LEFT), (''right'', RIGHT)] (map to_lower s))"

datatype Comparison = CmpLT | CmpLTE | CmpGT | CmpGTE | CmpEQ | CmpNEQ

definition ValueFromString :: "string \<Rightarrow> Comparison outcome" where
  "ValueFromString s = accepted (map_of
     [(''<'', CmpLT), (''<='', CmpLTE), (''>'', CmpGT), (''>='', CmpGTE), (''='', CmpEQ), (''!='', CmpNEQ)] s)"


subsection \<open>Fractions are reduced\<close>

lemma abs_rest: "\<bar>rest b a\<bar> = \<bar>b\<bar> mod \<bar>a\<bar>" if "a \<noteq> 0"
  using that by (simp add: rest_def abs_mult sgn_if)

lemma gcd_rest: "a \<noteq> 0 \<Longrightarrow> gcd (rest b a) a = gcd a b"
proof -
  assume a: "a \<noteq> 0"
  have "gcd (rest b a) a = gcd \<bar>rest b a\<bar> \<bar>a\<bar>" by simp
  also have "\<dots> = gcd (\<bar>b\<bar> mod \<bar>a\<bar>) \<bar>a\<bar>" using abs_rest [OF a] by simp
  also have "\<dots> = gcd \<bar>a\<bar> \<bar>b\<bar>" by (metis gcd.commute gcd_red_int)
  finally show ?thesis by simp
qed

lemma calculateGCD_spec:
  assumes "\<bar>a\<bar> < 2 ^ 63" "\<bar>b\<bar> < 2 ^ 63"
  shows "\<exists>g. calculateGCD a b = Returns g \<and> \<bar>g\<bar> = gcd a b \<and> (0 \<le> a \<longrightarrow> 0 \<le> b \<longrightarrow> 0 \<le> g)"
  using assms
proof (induction a b rule: calculateGCD.induct)
  case (1 a b)
  show ?case
  proof (cases "a = 0")
    case False
    then have ok: "divides_ok b a" using 1(3) by (auto simp: divides_ok_def intmax_min_def)
    have "\<bar>rest b a\<bar> < \<bar>a\<bar>" using abs_rest [OF False] False by simp
    then have "\<bar>rest b a\<bar> < 2 ^ 63" using 1(2) by linarith
    then obtain g where g: "calculateGCD (rest b a) a = Returns g" "\<bar>g\<bar> = gcd (rest b a) a"
      "0 \<le> rest b a \<longrightarrow> 0 \<le> a \<longrightarrow> 0 \<le> g"
      using 1(1) [OF False] ok 1(2) by auto
    have "0 \<le> b \<longrightarrow> 0 \<le> rest b a" using False by (simp add: rest_def sgn_if)
    moreover have "calculateGCD a b = Returns g" using False ok g(1) by (subst calculateGCD.simps) simp
    ultimately show ?thesis using g(2,3) gcd_rest [OF False] by auto
  qed (simp add: calculateGCD.simps)
qed

lemma quot_exact: "g \<noteq> 0 \<Longrightarrow> g dvd a \<Longrightarrow> quot a g * g = a"
proof -
  assume "g dvd a"
  then have "\<bar>a\<bar> div \<bar>g\<bar> * \<bar>g\<bar> = \<bar>a\<bar>" by simp
  moreover have "quot a g * g = sgn a * (\<bar>a\<bar> div \<bar>g\<bar> * (g * sgn g))" by (simp only: quot_def ac_simps)
  ultimately show "quot a g * g = a" by (simp add: abs_sgn [symmetric] sgn_mult_abs)
qed

text \<open>
  C30: Fractions are reduced, and the loop that reduces them ends. The greatest common divisor is computed by
  repeated remainders whose absolute values get smaller; with it, for all numerators and denominators within
  63 bits that are not both zero, the fraction has the value that was read, its parts have no common factor,
  and for parts that are not negative the comparison with an integer is the one of the values. For zero over
  zero the division is undefined.
\<close>

theorem fraction_reduced:
  assumes "\<bar>a\<bar> < 2 ^ 63" "\<bar>b\<bar> < 2 ^ 63"
  shows "if a = 0 \<and> b = 0 then GCDReducedFraction_new a b = Fails
    else \<exists>f. GCDReducedFraction_new a b = Returns f \<and> numerator f * b = a * denominator f \<and>
      coprime (numerator f) (denominator f) \<and> (0 \<le> a \<and> 0 < b \<longrightarrow> (\<forall>n. fraction_is f n \<longleftrightarrow> a = n * b))"
proof -
  obtain g where g: "calculateGCD a b = Returns g" "\<bar>g\<bar> = gcd a b" "0 \<le> a \<longrightarrow> 0 \<le> b \<longrightarrow> 0 \<le> g"
    using calculateGCD_spec [OF assms] by blast
  show ?thesis
  proof (cases "a = 0 \<and> b = 0")
    case True
    then show ?thesis using g by (simp add: GCDReducedFraction_new_def divides_ok_def)
  next
    case False
    then have g0: "g \<noteq> 0" using g(2) by auto
    have "g dvd a" "g dvd b" using g(2) by (metis abs_dvd_iff gcd_dvd1, metis abs_dvd_iff gcd_dvd2)
    note q = quot_exact [OF g0 this(1)] quot_exact [OF g0 this(2)]
    let ?f = "\<lparr>fr_gcd = g, numerator = quot a g, denominator = quot b g\<rparr>"
    have f: "GCDReducedFraction_new a b = Returns ?f"
      using assms g0 by (auto simp: GCDReducedFraction_new_def g(1) divides_ok_def intmax_min_def)
    have "\<bar>g\<bar> * gcd (quot a g) (quot b g) = \<bar>g\<bar> * 1"
      using g(2) q by (metis gcd_mult_distrib_int abs_mult mult.commute mult_1_right)
    then have "coprime (quot a g) (quot b g)" using g0 by (simp add: coprime_iff_gcd_eq_1)
    moreover have "quot a g * b = a * quot b g" using q by (metis mult.assoc mult.commute)
    moreover have "fraction_is ?f n \<longleftrightarrow> a = n * b" if "0 \<le> a" "0 < b" for n
    proof
      assume "fraction_is ?f n"
      then show "a = n * b" using q by (simp add: fraction_is_def)
    next
      assume n: "a = n * b"
      then have "gcd a b = b" using that(2) by simp
      moreover have "0 \<le> g" using g(3) that by simp
      ultimately have "g = b" using g(2) by simp
      then have "quot a g * b = n * b" "quot b g * b = 1 * b" using q n by simp_all
      then show "fraction_is ?f n" using that(2) by (simp add: fraction_is_def)
    qed
    ultimately show ?thesis using False f by auto
  qed
qed

theorem fraction_reduced_witness:
  "\<exists>f. GCDReducedFraction_new 6 4 = Returns f \<and> numerator f * 4 = 6 * denominator f"
  using fraction_reduced [of 6 4] by auto

text \<open>The sign of the divisor is not normalized: the fraction read from -1 is 1 over -1.\<close>

lemma minus_one: "RationalFraction_new (JString ''-1'') = Returns \<lparr>fr_gcd = - 1, numerator = 1, denominator = - 1\<rparr>"
  by (simp add: RationalFraction_new_def ExtractTokenNWithDefault_def find_from_def find_in.simps stoll_def read_sign_def
      isspace_def is_digit_def digits_value_def intmax_min_def intmax_max_def GCDReducedFraction_new_def
      calculateGCD.simps divides_ok_def rest_def quot_def)

end
