(* ===== verification/Startup.thy ===== *)
theory Startup
  imports Outcomes Startup_Csv Moments Connections
begin

text \<open>
  From a query and a study to a protocol: \<open>dataowner/GlobalInfo.cpp\<close>, \<open>Startup.cpp\<close>,
  \<open>StartupRegression.cpp\<close> and \<open>StartupMoments.cpp\<close>. Every party runs \<open>startup\<close> on the same query and
  the same study and has to come to the same peers and parameters. The objects of \<open>JSON/Query\<close> and
  \<open>JSON/Config\<close> are taken after their construction; a null pointer is \<open>None\<close>.
\<close>

subsection \<open>Queries and studies\<close>

record ColumnSpec =
  cs_vertical :: u64
  cs_column :: nat

datatype MomentType = COUNT | MEAN | VARIANCE | SKEW | KURTOSIS

fun moment_value :: "MomentType \<Rightarrow> nat" where
  "moment_value COUNT = 0"
| "moment_value MEAN = 1"
| "moment_value VARIANCE = 2"
| "moment_value SKEW = 3"
| "moment_value KURTOSIS = 4"

record MomentFunction =
  mf_col :: ColumnSpec
  momentType :: MomentType
  revealCount :: bool
  mf_bits_of_precision :: nat

record LinearRegressionFunction =
  fit_intercept :: bool
  num_bytes_in_f_t_table_cells :: nat
  max_f_t_table_rows :: nat
  bits_of_precision :: nat
  dep_var :: ColumnSpec
  indep_vars :: "ColumnSpec list"

datatype SafrnFunction = ORDER | MOMENT MomentFunction | LIN_REGRESSION LinearRegressionFunction

record StartQuery =
  joinStatement :: "(ColumnSpec \<times> ColumnSpec) list option"
  q_function :: "SafrnFunction option"

record Vertical =
  verticalIndex :: u64
  columns :: "string list"

record StudyConfig = Study +
  lexicon :: "Vertical list"
  sc_maxListSize :: nat
  allowedQueries :: "SafrnFunction option list"

text \<open>A null pointer for the protocol is \<open>Rejected\<close>.\<close>

subsection \<open>Global parameters\<close>

definition joined_dataowner :: "u64 \<Rightarrow> u64 \<Rightarrow> Peer \<Rightarrow> bool" where
  "joined_dataowner l r p \<longleftrightarrow> isDataowner p \<and> (p_vertical p = l \<or> p_vertical p = r)"

text \<open>The parameters a function sets; the defaults are those of \<open>GlobalInfo_query\<close>.\<close>

fun function_globals :: "SafrnFunction \<Rightarrow> GlobalInfo \<Rightarrow> GlobalInfo" where
  "function_globals (LIN_REGRESSION f) g =
     g\<lparr>bitsOfPrecision := bits_of_precision f, bytesInLookupTableCells := num_bytes_in_f_t_table_cells f,
       max_F_t_table_num_rows := max_f_t_table_rows f\<rparr>"
| "function_globals (MOMENT f) g = g\<lparr>bitsOfPrecision := mf_bits_of_precision f\<rparr>"
| "function_globals ORDER g = g"

definition generateGlobals :: "StartQuery \<Rightarrow> StudyConfig \<Rightarrow> GlobalInfo option" where
  "generateGlobals q cfg =
     (case joinStatement q of
        None \<Rightarrow> None
      | Some [] \<Rightarrow> Some (GlobalInfo_query (sc_maxListSize cfg) 100)
      | Some ((first_col, second_col) # _) \<Rightarrow>
          (case q_function q of
             None \<Rightarrow> None
           | Some f \<Rightarrow>
               Some (function_globals f (GlobalInfo_query (sc_maxListSize cfg)
                 (length (filter (\<lambda>(_, p). joined_dataowner (cs_vertical first_col) (cs_vertical second_col) p)
                   (st_peers cfg)))))))"

subsection \<open>Keys and peers\<close>

fun key_columns :: "Vertical \<Rightarrow> Vertical \<Rightarrow> (ColumnSpec \<times> ColumnSpec) list \<Rightarrow> (nat list \<times> nat list) option" where
  "key_columns lvert rvert [] = Some ([], [])"
| "key_columns lvert rvert ((a, b) # js) =
     (if cs_vertical a \<noteq> verticalIndex lvert \<or> cs_vertical b \<noteq> verticalIndex rvert then None
      else if length (columns lvert) \<le> cs_column a \<or> length (columns rvert) \<le> cs_column b then None
      else map_option (\<lambda>(ls, rs). (cs_column a # ls, cs_column b # rs)) (key_columns lvert rvert js))"

definition vertical_at :: "u64 \<Rightarrow> StudyConfig \<Rightarrow> Vertical option" where
  "vertical_at v scfg = (if unat v < length (lexicon scfg) then Some (lexicon scfg ! unat v) else None)"

text \<open>The first pair of columns is read before the list is known not to be empty.\<close>

definition findKeyCols ::
  "(ColumnSpec \<times> ColumnSpec) list \<Rightarrow> StudyConfig \<Rightarrow> (nat list \<times> nat list \<times> u64 \<times> u64) outcome" where
  "findKeyCols joinOns scfg =
     (case joinOns of
        [] \<Rightarrow> Fails
      | (a, b) # _ \<Rightarrow>
          (case (vertical_at (cs_vertical a) scfg, vertical_at (cs_vertical b) scfg) of
             (Some lvert, Some rvert) \<Rightarrow>
               (case key_columns lvert rvert joinOns of
                  None \<Rightarrow> Rejected
                | Some (ls, rs) \<Rightarrow> Returns (ls, rs, cs_vertical a, cs_vertical b))
           | _ \<Rightarrow> Fails))"

definition peer_identities :: "u64 \<Rightarrow> u64 \<Rightarrow> dbuid_t \<times> Peer \<Rightarrow> Identity list" where
  "peer_identities l r = (\<lambda>(dbuid, p).
     (if isRecipient p then [\<lparr>orgId = dbuid, role = ROLE_RECIPIENT, vertical = - 1\<rparr>] else []) @
     (if isDealer p then [\<lparr>orgId = dbuid, role = ROLE_DEALER, vertical = - 1\<rparr>] else []) @
     (if joined_dataowner l r p then [\<lparr>orgId = dbuid, role = ROLE_DATAOWNER, vertical = p_vertical p\<rparr>] else []))"

fun add_all :: "Identity list \<Rightarrow> PeerSet \<Rightarrow> PeerSet option" where
  "add_all [] P = Some P"
| "add_all (i # is') P = Option.bind (PeerSet_add i P) (add_all is')"

definition query_identities :: "u64 \<Rightarrow> u64 \<Rightarrow> StudyConfig \<Rightarrow> Identity list" where
  "query_identities l r scfg = concat (map (peer_identities l r) (st_peers scfg))"

definition add_peers :: "u64 \<Rightarrow> u64 \<Rightarrow> StudyConfig \<Rightarrow> PeerSet \<Rightarrow> PeerSet outcome" where
  "add_peers l r scfg peers = defined (add_all (query_identities l r scfg) peers)"

text \<open>The loop that finds the first dealer and the first dataowner.\<close>

definition first_of_role :: "role_t \<Rightarrow> PeerSet \<Rightarrow> Identity option" where
  "first_of_role r peers = List.find (\<lambda>oid. role oid = r) (forEach peers)"

definition count_cross :: "Identity \<Rightarrow> PeerSet \<Rightarrow> nat" where
  "count_cross self peers = length (filter (\<lambda>oid. vertical self \<noteq> vertical oid) (forEachDataowner peers))"

text \<open>A \<open>size_t\<close> one less, which wraps around at zero.\<close>

definition size_dec :: "nat \<Rightarrow> nat" where
  "size_dec n = unat (word_of_nat n - 1 :: u64)"

definition size_inc :: "nat \<Rightarrow> nat" where
  "size_inc n = unat (word_of_nat n + 1 :: u64)"

subsection \<open>What the library and the file system give\<close>

text \<open>\<open>sl_hasPeer\<close> is Fortissimo's test for a peer, \<open>sl_file\<close> the lines of a file, \<open>sl_table\<close> a lookup table
  read from one; the draws of the protocol objects are \<open>sl_keys\<close>, \<open>sl_rnd\<close> and \<open>sl_dealt\<close>.\<close>

record startup_lib =
  sl_arith :: ff_arith
  sl_nextPrime :: "LargeNum \<Rightarrow> LargeNum"
  sl_ceilBits :: "nat \<Rightarrow> nat \<Rightarrow> nat \<Rightarrow> nat"
  sl_ceilLog2 :: "nat \<Rightarrow> nat"
  sl_hasPeer :: "PeerSet \<Rightarrow> Identity \<Rightarrow> bool"
  sl_round :: "rat \<Rightarrow> rat"
  sl_large :: "string \<Rightarrow> LargeNum"
  sl_file :: "string \<Rightarrow> string list option"
  sl_table :: "string \<Rightarrow> stat_table option"
  sl_keys :: "nat \<Rightarrow> LargeNum list"
  sl_rnd :: "nat \<Rightarrow> nat \<Rightarrow> Observation"
  sl_dealt :: RandomSquareMatrix

text \<open>\<open>readCSV\<close> returns false for the errors it logs.\<close>

definition read_table :: "startup_lib \<Rightarrow> StudyConfig \<Rightarrow> Identity \<Rightarrow> string \<Rightarrow> nat list \<Rightarrow> nat list \<Rightarrow> nat option
    \<Rightarrow> LargeNum \<Rightarrow> nat \<Rightarrow> ObservationList outcome" where
  "read_table L scfg self csvFile keys payloads extra md bits =
     (case vertical_at (vertical self) scfg of
        None \<Rightarrow> Fails
      | Some vert \<Rightarrow>
          (case readCSV \<lparr>cx_round = sl_round L, cx_large = sl_large L, cx_names = columns vert, cx_keys = keys,
              cx_payloads = payloads, cx_extra = extra, cx_id = self, cx_modulus = md, cx_bits = bits\<rparr>
              (sl_file L csvFile) of
             Inr olist \<Rightarrow> Returns olist
           | Inl e \<Rightarrow> if e = NotDataowner \<or> e = UndefinedNumber then Fails else Rejected))"

subsection \<open>Regression\<close>

fun independent_columns :: "u64 \<Rightarrow> u64 \<Rightarrow> Vertical \<Rightarrow> Vertical \<Rightarrow> ColumnSpec list \<Rightarrow> (nat list \<times> nat list) option" where
  "independent_columns l r lvert rvert [] = Some ([], [])"
| "independent_columns l r lvert rvert (c # cs) =
     (if cs_vertical c = l then
        (if cs_column c < length (columns lvert)
         then map_option (\<lambda>(ls, rs). (cs_column c # ls, rs)) (independent_columns l r lvert rvert cs) else None)
      else if cs_vertical c = r then
        (if cs_column c < length (columns rvert)
         then map_option (\<lambda>(ls, rs). (ls, cs_column c # rs)) (independent_columns l r lvert rvert cs) else None)
      else None)"

text \<open>A dependent variable with an unknown column in the right vertical is logged, not rejected.\<close>

definition findPayloadRegression ::
  "LinearRegressionFunction \<Rightarrow> u64 \<Rightarrow> u64 \<Rightarrow> Vertical \<Rightarrow> Vertical \<Rightarrow> (nat list \<times> nat list \<times> u64) option" where
  "findPayloadRegression f l r lvert rvert =
     (case independent_columns l r lvert rvert (indep_vars f) of
        None \<Rightarrow> None
      | Some (ls, rs) \<Rightarrow>
          (let c = cs_column (dep_var f)
           in if cs_vertical (dep_var f) = l then
                (if c < length (columns lvert) then Some (ls @ [c], rs, l) else None)
              else if cs_vertical (dep_var f) = r then
                (if c < length (columns rvert) then Some (ls, rs @ [c], r) else Some (ls, rs, r))
              else None))"

definition setupRegressionInfo ::
  "startup_lib \<Rightarrow> GlobalInfo \<Rightarrow> nat list \<Rightarrow> nat list \<Rightarrow> u64 \<Rightarrow> u64 \<Rightarrow> bool \<Rightarrow> PeerSet \<Rightarrow> Identity \<Rightarrow> RegressionInfo option outcome" where
  "setupRegressionInfo L globals ls rs dep l fit peers self =
     (let (dv, ndv) = (if l = dep then (size_dec (length ls), length rs) else (size_dec (length rs), length ls));
          dv = (if fit then size_inc dv else dv)
      in if \<not> forEach_asserts peers then Fails
         else (case (first_of_role ROLE_DEALER peers, first_of_role ROLE_DATAOWNER peers) of
             (Some dlr, Some rvl) \<Rightarrow>
               Returns (Some (RegressionInfo_new (sl_nextPrime L) (sl_ceilBits L) globals (unat (vertical self)) (unat dep)
                 dv ndv (count_cross self peers) fit rvl dlr))
           | _ \<Rightarrow> Returns None))"

text \<open>The column of ones is inserted before the dependent variable.\<close>

definition add_intercept :: "nat \<Rightarrow> Observation \<Rightarrow> Observation" where
  "add_intercept bits ob =
     (let row = arithmeticPayloadCols ob in ob\<lparr>arithmeticPayloadCols := butlast row @ [2 ^ bits, last row]\<rparr>)"

datatype protocol =
    StartRegression GlobalInfo RegressionInfo "bool \<times> Regression"
  | StartRegressionHouse GlobalInfo "RegressionInfo option"
  | StartRegressionReceiver GlobalInfo RegressionReceiver
  | StartMoments GlobalInfo MomentsInfo Moments
  | StartMomentsHouse GlobalInfo "MomentsInfo option"
  | StartMomentsReceiver GlobalInfo MomentsReceiver

definition setupRegression ::
  "startup_lib \<Rightarrow> GlobalInfo \<Rightarrow> nat list \<Rightarrow> nat list \<Rightarrow> nat list \<Rightarrow> u64 \<Rightarrow> u64 \<Rightarrow> bool \<Rightarrow> Identity \<Rightarrow> StudyConfig \<Rightarrow> PeerSet
    \<Rightarrow> string \<Rightarrow> string \<Rightarrow> string \<Rightarrow> protocol outcome" where
  "setupRegression L globals keys ls rs dep l fit self scfg peers csvFile F_file t_file =
     and_then (setupRegressionInfo L globals ls rs dep l fit peers self) (\<lambda>rinfo.
       (let payloads = (if l = vertical self then ls else rs); has_dv = (vertical self = dep)
        in if has_dv \<and> payloads = [] then Fails
           else (case rinfo of
               None \<Rightarrow> Fails
             | Some info \<Rightarrow>
                 and_then (read_table L scfg self csvFile keys payloads (if has_dv then Some (last payloads) else None)
                     (startModulus info) (bitsOfPrecision globals)) (\<lambda>olist.
                   (let olist = (if fit \<and> has_dv
                         then olist\<lparr>elements := map (add_intercept (bitsOfPrecision globals)) (elements olist)\<rparr> else olist)
                    in Returns (StartRegression globals info
                         (Regression_new (sl_arith L) globals info (sl_keys L) (sl_rnd L) olist
                           (sl_table L F_file) (sl_table L t_file) (sl_dealt L))))))))"

subsection \<open>Moments\<close>

definition findPayloadMoment ::
  "MomentFunction \<Rightarrow> u64 \<Rightarrow> u64 \<Rightarrow> Vertical \<Rightarrow> Vertical \<Rightarrow> (nat list \<times> nat list \<times> u64) option" where
  "findPayloadMoment f l r lvert rvert =
     (let v = cs_vertical (mf_col f); c = cs_column (mf_col f)
      in if v = l \<and> c < length (columns lvert) then Some ([c], [], l)
         else if v = r \<and> c < length (columns rvert) then Some ([], [c], r)
         else None)"

fun include_count :: "SafrnFunction option list \<Rightarrow> bool option" where
  "include_count [] = Some False"
| "include_count (f # fs) =
     (case f of
        None \<Rightarrow> None
      | Some (MOMENT m) \<Rightarrow> if revealCount m then Some True else include_count fs
      | Some _ \<Rightarrow> include_count fs)"

definition setupMomentsInfo ::
  "startup_lib \<Rightarrow> GlobalInfo \<Rightarrow> u64 \<Rightarrow> bool \<Rightarrow> nat \<Rightarrow> PeerSet \<Rightarrow> Identity \<Rightarrow> MomentsInfo option outcome" where
  "setupMomentsInfo L globals data with_count moment peers self =
     (if \<not> forEach_asserts peers then Fails
      else (case (first_of_role ROLE_DEALER peers, first_of_role ROLE_DATAOWNER peers) of
          (Some dlr, Some rvl) \<Rightarrow>
            Returns (Some (MomentsInfo_new (sl_nextPrime L) (sl_ceilLog2 L) globals (count_cross self peers)
              (unat (vertical self)) (unat data) with_count moment dlr rvl))
        | _ \<Rightarrow> Returns None))"

text \<open>The row 1, x, x squared, and so on, of \<open>moment + 1\<close> columns. For the zeroth moment the second
  column is written behind the end of the vector.\<close>

definition power_row :: "nat \<Rightarrow> LargeNum list \<Rightarrow> LargeNum list option" where
  "power_row moment row =
     (let row = resize_zero (moment + 1) row
      in if length row \<le> 1 then None
         else Some (fold (\<lambda>j row. row[j + 1 := row ! 1 * row ! j]) [1..<moment] (row[1 := row ! 0, 0 := 1])))"

fun power_rows :: "nat \<Rightarrow> Observation list \<Rightarrow> Observation list option" where
  "power_rows moment [] = Some []"
| "power_rows moment (ob # obs) =
     (case power_row moment (arithmeticPayloadCols ob) of
        None \<Rightarrow> None
      | Some row \<Rightarrow> map_option ((#) (ob\<lparr>arithmeticPayloadCols := row\<rparr>)) (power_rows moment obs))"

definition zero_rows :: "nat \<Rightarrow> Observation list \<Rightarrow> Observation list" where
  "zero_rows moment = map (\<lambda>ob. ob\<lparr>arithmeticPayloadCols := resize_zero (moment + 1) (arithmeticPayloadCols ob)\<rparr>)"

definition setupMoments ::
  "startup_lib \<Rightarrow> GlobalInfo \<Rightarrow> nat list \<Rightarrow> nat list \<Rightarrow> nat list \<Rightarrow> u64 \<Rightarrow> u64 \<Rightarrow> bool \<Rightarrow> nat \<Rightarrow> Identity \<Rightarrow> StudyConfig \<Rightarrow> PeerSet
    \<Rightarrow> string \<Rightarrow> protocol outcome" where
  "setupMoments L globals keys ls rs data l with_count moment self scfg peers csvFile =
     and_then (setupMomentsInfo L globals data with_count moment peers self) (\<lambda>rinfo.
       (case rinfo of
          None \<Rightarrow> Fails
        | Some info \<Rightarrow>
            and_then (read_table L scfg self csvFile keys (if l = vertical self then ls else rs) None
                (mi_startModulus info) (bitsOfPrecision globals)) (\<lambda>olist.
              and_then (if vertical self = data then defined (power_rows moment (elements olist))
                  else Returns (zero_rows moment (elements olist))) (\<lambda>rows.
                Returns (StartMoments globals info
                  (Moments_new (sl_arith L) globals info (sl_keys L) (sl_rnd L) (olist\<lparr>elements := rows\<rparr>)))))))"

subsection \<open>The start of a party\<close>

function to_string :: "nat \<Rightarrow> string" where
  "to_string n = (if n < 10 then [char_of (48 + n)] else to_string (n div 10) @ [char_of (48 + n mod 10)])"
  by pat_completeness auto
termination to_string
  by (relation "measure (\<lambda>n. n)") auto

declare to_string.simps [simp del]

definition F_table_name :: "string \<Rightarrow> nat list \<Rightarrow> nat list \<Rightarrow> string" where
  "F_table_name dir ls rs = dir @ ''f_table_num_ivs_'' @ to_string (size_dec (length ls + length rs)) @ ''.csv''"

definition t_table_name :: "string \<Rightarrow> string" where
  "t_table_name dir = dir @ ''t_table.csv''"

definition startup_regression ::
  "startup_lib \<Rightarrow> GlobalInfo \<Rightarrow> string \<Rightarrow> string \<Rightarrow> LinearRegressionFunction \<Rightarrow> nat list \<times> nat list \<times> u64 \<times> u64 \<Rightarrow>
    Vertical \<Rightarrow> Vertical \<Rightarrow> StudyConfig \<Rightarrow> Identity \<Rightarrow> PeerSet \<Rightarrow> protocol outcome" where
  "startup_regression L globals csvFile dir f keys lvert rvert scfg self peers =
     (case keys of (lkeys, rkeys, l, r) \<Rightarrow>
        (case findPayloadRegression f l r lvert rvert of
           None \<Rightarrow> Rejected
         | Some (ls, rs, dep) \<Rightarrow>
             if role self = ROLE_DATAOWNER then
               setupRegression L globals (if vertical self = l then lkeys else rkeys) ls rs dep l (fit_intercept f) self scfg
                 peers csvFile (F_table_name dir ls rs) (t_table_name dir)
             else if role self = ROLE_DEALER then
               and_then (setupRegressionInfo L globals ls rs dep l (fit_intercept f) peers self) (\<lambda>rinfo.
                 Returns (StartRegressionHouse globals rinfo))
             else if role self = ROLE_RECIPIENT then
               and_then (setupRegressionInfo L globals ls rs dep l (fit_intercept f) peers self) (\<lambda>rinfo.
                 case rinfo of
                   None \<Rightarrow> Fails
                 | Some info \<Rightarrow> Returns (StartRegressionReceiver globals
                     (RegressionReceiver_new info ls rs (unat l) (unat r) (bitsOfPrecision globals))))
             else Rejected))"

definition startup_moments ::
  "startup_lib \<Rightarrow> GlobalInfo \<Rightarrow> string \<Rightarrow> MomentFunction \<Rightarrow> nat list \<times> nat list \<times> u64 \<times> u64 \<Rightarrow>
    Vertical \<Rightarrow> Vertical \<Rightarrow> StudyConfig \<Rightarrow> Identity \<Rightarrow> PeerSet \<Rightarrow> protocol outcome" where
  "startup_moments L globals csvFile f keys lvert rvert scfg self peers =
     (case keys of (lkeys, rkeys, l, r) \<Rightarrow>
        (case findPayloadMoment f l r lvert rvert of
           None \<Rightarrow> Rejected
         | Some (ls, rs, data) \<Rightarrow>
             and_then (defined (include_count (allowedQueries scfg))) (\<lambda>with_count.
               let moment = moment_value (momentType f)
               in if role self = ROLE_DATAOWNER then
                    setupMoments L globals (if vertical self = l then lkeys else rkeys) ls rs data l with_count moment self
                      scfg peers csvFile
                  else if role self = ROLE_DEALER then
                    and_then (setupMomentsInfo L globals data with_count moment peers self) (\<lambda>rinfo.
                      Returns (StartMomentsHouse globals rinfo))
                  else if role self = ROLE_RECIPIENT then
                    and_then (setupMomentsInfo L globals data with_count moment peers self) (\<lambda>rinfo.
                      case rinfo of
                        None \<Rightarrow> Fails
                      | Some info \<Rightarrow> Returns (StartMomentsReceiver globals
                          (MomentsReceiver_new (bitsOfPrecision globals) info)))
                  else Rejected)))"

fun start_function ::
  "startup_lib \<Rightarrow> string \<Rightarrow> string \<Rightarrow> SafrnFunction \<Rightarrow> nat list \<times> nat list \<times> u64 \<times> u64 \<Rightarrow> Vertical \<Rightarrow> Vertical \<Rightarrow> StudyConfig
    \<Rightarrow> Identity \<Rightarrow> PeerSet \<Rightarrow> GlobalInfo \<Rightarrow> protocol outcome" where
  "start_function L csvFile dir (LIN_REGRESSION f) keys lvert rvert scfg self peers globals =
     startup_regression L globals csvFile dir f keys lvert rvert scfg self peers"
| "start_function L csvFile dir (MOMENT f) keys lvert rvert scfg self peers globals =
     startup_moments L globals csvFile f keys lvert rvert scfg self peers"
| "start_function L csvFile dir ORDER keys lvert rvert scfg self peers globals = Rejected"

definition start_protocol ::
  "startup_lib \<Rightarrow> string \<Rightarrow> string \<Rightarrow> StartQuery \<Rightarrow> nat list \<times> nat list \<times> u64 \<times> u64 \<Rightarrow> StudyConfig \<Rightarrow> Identity \<Rightarrow> PeerSet
    \<Rightarrow> protocol outcome" where
  "start_protocol L csvFile dir q keys scfg self peers =
     (case (generateGlobals q scfg, q_function q, vertical_at (fst (snd (snd keys))) scfg, vertical_at (snd (snd (snd keys))) scfg) of
        (Some globals, Some f, Some lvert, Some rvert) \<Rightarrow>
          start_function L csvFile dir f keys lvert rvert scfg self peers globals
      | _ \<Rightarrow> Fails)"

text \<open>The protocol to run and the peers, which are returned by reference.\<close>

definition startup ::
  "startup_lib \<Rightarrow> string \<Rightarrow> string \<Rightarrow> StartQuery \<Rightarrow> StudyConfig \<Rightarrow> Identity \<Rightarrow> PeerSet \<Rightarrow> (protocol \<times> PeerSet) outcome" where
  "startup L csvFile dir q scfg self peers =
     and_then (defined (joinStatement q)) (\<lambda>joinOns.
     and_then (findKeyCols joinOns scfg) (\<lambda>keys.
     and_then (add_peers (fst (snd (snd keys))) (snd (snd (snd keys))) scfg peers) (\<lambda>peers.
       if \<not> sl_hasPeer L peers self then Rejected
       else and_then (start_protocol L csvFile dir q keys scfg self peers) (\<lambda>prot. Returns (prot, peers)))))"

subsection \<open>The peers of a query\<close>

lemma add_all_ok:
  "peerset_ok P \<Longrightarrow> add_all is' P = Some P' \<Longrightarrow> peerset_ok P' \<and> mset (forEach P') = mset is' + mset (forEach P)"
proof (induction is' arbitrary: P)
  case (Cons i is')
  then obtain Q where Q: "PeerSet_add i P = Some Q" "add_all is' Q = Some P'" by (auto simp: bind_eq_Some_conv)
  show ?case using Cons.IH [OF _ Q(2)] peerset_ok_add [OF Cons.prems(1) Q(1)] by simp
qed simp

lemma peerset_ok_empty: "peerset_ok PeerSet_empty" "forEach PeerSet_empty = []"
  by (simp_all add: peerset_ok_def PeerSet_empty_def sorted_by_def forEach_def forEachDealer_def forEachRecipient_def
      forEachDataowner_def)

lemma dataowners_of_peers:
  assumes "peerset_ok P"
  shows "forEachDataowner P = filter (\<lambda>p. role p = ROLE_DATAOWNER) (forEach P)"
proof -
  have "list_all (list_all (\<lambda>p. role p = ROLE_DATAOWNER)) (dataowners P)"
    "list_all (\<lambda>p. role p = ROLE_RECIPIENT) (recipients P)" "hasDealer P \<Longrightarrow> role (dealer P) = ROLE_DEALER"
    using forEach_asserts_ok [OF assms] by (simp_all add: forEach_asserts_def)
  then show ?thesis
    by (auto simp: forEach_def forEachDealer_def forEachRecipient_def forEachDataowner_def list_all_iff filter_concat
        role_defs filter_empty_conv intro!: arg_cong [of _ _ concat] map_idI [symmetric])
qed

definition joined_owners :: "u64 \<Rightarrow> u64 \<Rightarrow> StudyConfig \<Rightarrow> Identity list" where
  "joined_owners l r scfg = map (\<lambda>(dbuid, p). \<lparr>orgId = dbuid, role = ROLE_DATAOWNER, vertical = p_vertical p\<rparr>)
     (filter (\<lambda>(_, p). joined_dataowner l r p) (st_peers scfg))"

lemma filter_identities:
  "filter (\<lambda>p. role p = ROLE_DATAOWNER) (concat (map (peer_identities l r) ps)) =
   map (\<lambda>(dbuid, p). \<lparr>orgId = dbuid, role = ROLE_DATAOWNER, vertical = p_vertical p\<rparr>)
     (filter (\<lambda>(_, p). joined_dataowner l r p) ps)"
  by (induction ps) (auto simp: peer_identities_def role_defs)

lemma add_peers_owners:
  assumes "add_peers l r scfg PeerSet_empty = Returns peers"
  shows "peerset_ok peers" "mset (forEach peers) = mset (query_identities l r scfg)"
    "mset (forEachDataowner peers) = mset (joined_owners l r scfg)"
proof -
  have "add_all (query_identities l r scfg) PeerSet_empty = Some peers" using assms by (simp add: add_peers_def)
  from add_all_ok [OF peerset_ok_empty(1) this]
  show ok: "peerset_ok peers" and all: "mset (forEach peers) = mset (query_identities l r scfg)"
    by (simp_all add: peerset_ok_empty)
  show "mset (forEachDataowner peers) = mset (joined_owners l r scfg)"
    by (simp add: dataowners_of_peers [OF ok] mset_filter all joined_owners_def query_identities_def
        flip: filter_identities)
qed

lemma joined_owners_distinct:
  assumes "distinct (map fst (st_peers scfg))"
  shows "distinct (joined_owners l r scfg)"
proof -
  have "distinct (map fst (filter (\<lambda>(_, p). joined_dataowner l r p) (st_peers scfg)))"
    by (rule distinct_map_filter [OF assms])
  then have "distinct (map orgId (joined_owners l r scfg))" by (simp add: joined_owners_def comp_def case_prod_unfold)
  then show ?thesis by (simp add: distinct_map)
qed


subsection \<open>What a started party has\<close>

lemma readCSV_shape: "readCSV X file = Inr olist \<Longrightarrow> numXORPayloadCols olist = 0 \<and> role (cx_id X) = ROLE_DATAOWNER"
  by (auto simp: readCSV_def split: if_splits option.splits list.splits sum.splits)

lemma read_table_shape:
  "read_table L scfg self csvFile keys payloads extra md bits = Returns olist \<Longrightarrow> numXORPayloadCols olist = 0"
  by (auto simp: read_table_def split: option.splits sum.splits if_splits dest!: readCSV_shape)

lemma setupRegression_party:
  assumes "setupRegression L g keys ls rs dep l fit self scfg peers csvFile F_file t_file = Returns prot"
  obtains info olist where "setupRegressionInfo L g ls rs dep l fit peers self = Returns (Some info)"
    "numXORPayloadCols olist = 0"
    "prot = StartRegression g info (Regression_new (sl_arith L) g info (sl_keys L) (sl_rnd L) olist
       (sl_table L F_file) (sl_table L t_file) (sl_dealt L))"
proof -
  let ?ones = "\<lambda>olist. if fit \<and> vertical self = dep
      then olist\<lparr>elements := map (add_intercept (bitsOfPrecision g)) (elements olist)\<rparr> else olist"
  obtain info where info: "setupRegressionInfo L g ls rs dep l fit peers self = Returns (Some info)"
    using assms by (auto simp: setupRegression_def and_then_Returns Let_def split: if_splits option.splits)
  let ?pl = "if l = vertical self then ls else rs" and ?ex = "\<lambda>pl. if vertical self = dep then Some (last pl) else None"
  have "\<not> (vertical self = dep \<and> ?pl = [])"
    using assms unfolding setupRegression_def info and_then.simps Let_def by (metis outcome.distinct(3))
  then have "and_then (read_table L scfg self csvFile keys ?pl (?ex ?pl) (startModulus info) (bitsOfPrecision g))
      (\<lambda>olist. Returns (StartRegression g info (Regression_new (sl_arith L) g info (sl_keys L) (sl_rnd L) (?ones olist)
       (sl_table L F_file) (sl_table L t_file) (sl_dealt L)))) = Returns prot"
    using assms unfolding setupRegression_def info and_then.simps Let_def option.case by (simp only: if_False)
  then obtain olist where
    "read_table L scfg self csvFile keys ?pl (?ex ?pl) (startModulus info) (bitsOfPrecision g) = Returns olist"
    "prot = StartRegression g info (Regression_new (sl_arith L) g info (sl_keys L) (sl_rnd L) (?ones olist)
       (sl_table L F_file) (sl_table L t_file) (sl_dealt L))"
    unfolding and_then_Returns outcome.inject by blast
  with that [of info "?ones olist"] info read_table_shape show thesis by simp
qed

lemma setupMoments_not_regression:
  "setupMoments L g keys ls rs data l cnt moment self scfg peers csvFile \<noteq> Returns (StartRegression g' info r)"
  by (auto simp: setupMoments_def and_then_Returns split: option.splits)

lemma startup_moments_not_regression:
  "startup_moments L g csvFile f keys lvert rvert scfg self peers \<noteq> Returns (StartRegression g' info r)"
  by (auto simp: startup_moments_def and_then_Returns setupMoments_not_regression Let_def
      split: option.splits prod.splits if_splits)

text \<open>The intermediate results of a regression that starts on a dataowner.\<close>

lemma startup_regression_party:
  assumes "startup L csvFile dir q scfg self P = Returns (StartRegression g info (ab, st), peers)"
  obtains js f lkeys rkeys l r lvert rvert ls rs dep olist where
    "joinStatement q = Some js" "findKeyCols js scfg = Returns (lkeys, rkeys, l, r)" "add_peers l r scfg P = Returns peers"
    "sl_hasPeer L peers self" "generateGlobals q scfg = Some g" "q_function q = Some (LIN_REGRESSION f)"
    "vertical_at l scfg = Some lvert" "vertical_at r scfg = Some rvert"
    "findPayloadRegression f l r lvert rvert = Some (ls, rs, dep)" "role self = ROLE_DATAOWNER"
    "setupRegressionInfo L g ls rs dep l (fit_intercept f) peers self = Returns (Some info)"
    "numXORPayloadCols olist = 0"
    "(ab, st) = Regression_new (sl_arith L) g info (sl_keys L) (sl_rnd L) olist
       (sl_table L (F_table_name dir ls rs)) (sl_table L (t_table_name dir)) (sl_dealt L)"
proof -
  obtain js keys where 1: "joinStatement q = Some js" "findKeyCols js scfg = Returns keys"
    "add_peers (fst (snd (snd keys))) (snd (snd (snd keys))) scfg P = Returns peers" "sl_hasPeer L peers self"
    and run: "start_protocol L csvFile dir q keys scfg self peers = Returns (StartRegression g info (ab, st))"
    using assms by (auto simp: startup_def and_then_Returns split: if_splits)
  obtain lkeys rkeys l r where keys: "keys = (lkeys, rkeys, l, r)" by (cases keys)
  obtain g' f lvert rvert where 2: "generateGlobals q scfg = Some g'" "q_function q = Some f" "vertical_at l scfg = Some lvert"
      "vertical_at r scfg = Some rvert"
    and fn: "start_function L csvFile dir f keys lvert rvert scfg self peers g' = Returns (StartRegression g info (ab, st))"
    using run by (auto simp: start_protocol_def keys split: option.splits)
  then obtain lin where f: "f = LIN_REGRESSION lin" by (cases f) (simp_all add: startup_moments_not_regression)
  obtain ls rs dep where 3: "findPayloadRegression lin l r lvert rvert = Some (ls, rs, dep)" "role self = ROLE_DATAOWNER"
    and reg: "setupRegression L g' (if vertical self = l then lkeys else rkeys) ls rs dep l (fit_intercept lin) self scfg
      peers csvFile (F_table_name dir ls rs) (t_table_name dir) = Returns (StartRegression g info (ab, st))"
    using fn by (auto simp: f startup_regression_def keys and_then_Returns split: option.splits if_splits)
  from reg obtain olist where "g' = g" "setupRegressionInfo L g ls rs dep l (fit_intercept lin) peers self = Returns (Some info)"
    "numXORPayloadCols olist = 0"
    "(ab, st) = Regression_new (sl_arith L) g info (sl_keys L) (sl_rnd L) olist
       (sl_table L (F_table_name dir ls rs)) (sl_table L (t_table_name dir)) (sl_dealt L)"
    by (auto elim: setupRegression_party)
  with that [OF 1(1) _ _ 1(4)] 1(2,3) 2 3 show thesis by (simp add: keys f)
qed

subsection \<open>Parties of the same query\<close>

text \<open>Two machines run the same code; their files and draws differ.\<close>

definition same_code :: "startup_lib \<Rightarrow> startup_lib \<Rightarrow> bool" where
  "same_code L L' \<longleftrightarrow> sl_nextPrime L = sl_nextPrime L' \<and> sl_ceilBits L = sl_ceilBits L' \<and> sl_hasPeer L = sl_hasPeer L'"

definition finds_peers :: "startup_lib \<Rightarrow> bool" where
  "finds_peers L \<longleftrightarrow> (\<forall>P i. sl_hasPeer L P i = list_ex (\<lambda>p. identity_eq p i) (forEach P))"

lemma dataowner_found:
  assumes "finds_peers L" "peerset_ok P" "sl_hasPeer L P self" "role self = ROLE_DATAOWNER"
  shows "self \<in> set (forEachDataowner P)"
proof -
  obtain p where p: "p \<in> set (forEach P)" "identity_eq p self"
    using assms(1,3) by (auto simp: finds_peers_def list_ex_iff)
  then have "p = self" using assms(4) by (cases p, cases self) (auto simp: identity_eq_def split: if_splits)
  with p(1) assms(4) show ?thesis by (simp add: dataowners_of_peers [OF assms(2)])
qed

lemma setupRegressionInfo_parties:
  assumes "setupRegressionInfo L g ls rs dep l fit peers a = Returns (Some info)"
    and "setupRegressionInfo L' g ls rs dep l fit peers b = Returns (Some info')" and "same_code L L'"
  shows "info' = info\<lparr>selfVertical := unat (vertical b), numCrossParties := count_cross b peers\<rparr>"
    "selfVertical info = unat (vertical a)" "verticalDV info = unat dep" "numCrossParties info = count_cross a peers"
  using assms
  by (auto simp: setupRegressionInfo_def RegressionInfo_new_def same_code_def Let_def split: if_splits option.splits)

lemma Regression_new_shape:
  assumes "(False, st) = Regression_new A g info keys rnd olist F t dealt" "numXORPayloadCols olist = 0"
  shows "numKeyCols (ownList st) = 2" "numArithmeticPayloadCols (ownList st) = payloadLength info"
    "numXORPayloadCols (ownList st) = 0"
  using assms
  by (auto simp: Regression_new_def Regression_blank_def setupCrossVerticalShares_def computePayloadVectorAndPadList_def
      with_F_table_def with_t_table_def Let_def split: if_splits option.splits)

lemma findPayloadRegression_vertical:
  "findPayloadRegression f l r lvert rvert = Some (ls, rs, dep) \<Longrightarrow> dep = l \<or> dep = r"
  by (auto simp: findPayloadRegression_def Let_def split: option.splits if_splits)

lemma findKeyCols_verticals:
  "findKeyCols js scfg = Returns (lkeys, rkeys, l, r) \<Longrightarrow> \<exists>a b js'. js = (a, b) # js' \<and> l = cs_vertical a \<and> r = cs_vertical b"
  by (auto simp: findKeyCols_def split: list.splits option.splits)

lemma function_globals_dataowners [simp]: "numDataowners (function_globals f g) = numDataowners g"
  by (cases f) simp_all

lemma generateGlobals_dataowners:
  assumes "joinStatement q = Some js" "findKeyCols js scfg = Returns (lkeys, rkeys, l, r)"
    "add_peers l r scfg PeerSet_empty = Returns peers" "generateGlobals q scfg = Some g"
  shows "numDataowners g = length (forEachDataowner peers)"
proof -
  have "numDataowners g = length (joined_owners l r scfg)"
    using findKeyCols_verticals [OF assms(2)] assms(1,4)
    by (auto simp: generateGlobals_def GlobalInfo_query_def joined_owners_def split: option.splits)
  also have "\<dots> = length (forEachDataowner peers)"
    by (rule mset_eq_length [symmetric]) (rule add_peers_owners(3) [OF assms(3)])
  finally show ?thesis .
qed

lemma owner_vertical:
  assumes "add_peers l r scfg PeerSet_empty = Returns peers" "p \<in> set (forEachDataowner peers)"
  shows "vertical p = l \<or> vertical p = r" "role p = ROLE_DATAOWNER"
proof -
  have "p \<in> set (joined_owners l r scfg)"
    using assms(2) mset_eq_setD [OF add_peers_owners(3) [OF assms(1)]] by simp
  then show "vertical p = l \<or> vertical p = r" "role p = ROLE_DATAOWNER"
    by (auto simp: joined_owners_def joined_dataowner_def)
qed

text \<open>The environment of the handlers of a party.\<close>

definition party_env :: "ff_arith \<Rightarrow> ff_msg \<Rightarrow> GlobalInfo \<Rightarrow> RegressionInfo \<Rightarrow> Identity \<Rightarrow> PeerSet \<Rightarrow> RegEnv" where
  "party_env A M g info self peers =
     \<lparr>env_arith = A, env_msg = M, env_globals = g, env_info = info, env_self = self, env_peers = peers\<rparr>"

definition cross_of :: "Identity \<Rightarrow> PeerSet \<Rightarrow> Identity list" where
  "cross_of self peers = filter (\<lambda>other. vertical other \<noteq> vertical self) (forEachDataowner peers)"

lemma cross_peers_party: "cross_peers (party_env A M g info self peers) = cross_of self peers"
  by (simp add: cross_peers_def party_env_def cross_of_def)

lemma count_cross_of: "count_cross self peers = length (cross_of self peers)"
  by (simp add: count_cross_def cross_of_def eq_commute)

lemma count_list_distinct: "distinct xs \<Longrightarrow> count_list xs x = (if x \<in> set xs then 1 else 0)"
  by (induction xs) auto

text \<open>
  C27: The dataowners of a regression agree. Two dataowners of different verticals that start the same
  query on the same study come to the same set of peers and the same parameters, moduli, dealer and
  revealer included, except for their own vertical and their number of cross parties. The number of
  dataowners and of cross parties is the one the peers have, each of the two is a cross party of the
  other exactly once, exactly one of them holds the dependent variable, and when their tables of
  critical values can be read, the lists they exchange have the same shape.
\<close>

theorem dataowners_agree:
  assumes "startup L csv dir q scfg a PeerSet_empty = Returns (StartRegression g info (ab, st), peers)"
    and "startup L' csv' dir' q scfg b PeerSet_empty = Returns (StartRegression g' info' (ab', st'), peers')"
    and "same_code L L'" "finds_peers L" "vertical a \<noteq> vertical b" "distinct (map fst (st_peers scfg))"
  shows "peers' = peers \<and> g' = g \<and>
    info' = info\<lparr>selfVertical := unat (vertical b), numCrossParties := length (cross_peers (party_env A' M g' info' b peers'))\<rparr> \<and>
    numDataowners g = length (forEachDataowner peers) \<and>
    numCrossParties info = length (cross_peers (party_env A M g info a peers)) \<and>
    count_list (cross_peers (party_env A M g info a peers)) b = 1 \<and>
    count_list (cross_peers (party_env A' M g' info' b peers')) a = 1 \<and>
    (selfVertical info = verticalDV info \<longleftrightarrow> selfVertical info' \<noteq> verticalDV info') \<and>
    (ab \<or> ab' \<or> same_shape (party_env A M g info a peers) (party_env A' M g' info' b peers') (ownList st) (ownList st'))"
proof -
  obtain js f lk rk l r lv rv ls rs dep ol where a: "joinStatement q = Some js" "findKeyCols js scfg = Returns (lk, rk, l, r)"
    "add_peers l r scfg PeerSet_empty = Returns peers" "sl_hasPeer L peers a" "generateGlobals q scfg = Some g"
    "q_function q = Some (LIN_REGRESSION f)" "vertical_at l scfg = Some lv" "vertical_at r scfg = Some rv"
    "findPayloadRegression f l r lv rv = Some (ls, rs, dep)" "role a = ROLE_DATAOWNER"
    "setupRegressionInfo L g ls rs dep l (fit_intercept f) peers a = Returns (Some info)"
    and olA: "numXORPayloadCols ol = 0" "(ab, st) = Regression_new (sl_arith L) g info (sl_keys L) (sl_rnd L) ol
      (sl_table L (F_table_name dir ls rs)) (sl_table L (t_table_name dir)) (sl_dealt L)"
    using assms(1) by (rule startup_regression_party)
  obtain js' f' lk' rk' l' r' lv' rv' ls' rs' dep' ol' where b': "joinStatement q = Some js'"
    "findKeyCols js' scfg = Returns (lk', rk', l', r')" "add_peers l' r' scfg PeerSet_empty = Returns peers'"
    "sl_hasPeer L' peers' b" "generateGlobals q scfg = Some g'" "q_function q = Some (LIN_REGRESSION f')"
    "vertical_at l' scfg = Some lv'" "vertical_at r' scfg = Some rv'"
    "findPayloadRegression f' l' r' lv' rv' = Some (ls', rs', dep')" "role b = ROLE_DATAOWNER"
    "setupRegressionInfo L' g' ls' rs' dep' l' (fit_intercept f') peers' b = Returns (Some info')"
    and olB: "numXORPayloadCols ol' = 0" "(ab', st') = Regression_new (sl_arith L') g' info' (sl_keys L') (sl_rnd L') ol'
      (sl_table L' (F_table_name dir' ls' rs')) (sl_table L' (t_table_name dir')) (sl_dealt L')"
    using assms(2) by (rule startup_regression_party)
  have same: "js' = js" "f' = f" "l' = l" "r' = r" "peers' = peers" "g' = g" "ls' = ls" "rs' = rs" "dep' = dep"
    using a b' by auto
  note b = b' [unfolded same]
  note info = setupRegressionInfo_parties [OF a(11) b(11) assms(3)]
  have fp': "finds_peers L'" using assms(3,4) by (simp add: same_code_def finds_peers_def)
  note ok = add_peers_owners(1) [OF a(3)]
  have in_a: "a \<in> set (forEachDataowner peers)" by (rule dataowner_found [OF assms(4) ok a(4,10)])
  have in_b: "b \<in> set (forEachDataowner peers)" by (rule dataowner_found [OF fp' ok b(4,10)])
  have dist: "distinct (forEachDataowner peers)"
    using mset_eq_imp_distinct_iff [OF add_peers_owners(3) [OF a(3)]] joined_owners_distinct [OF assms(6)] by blast
  have once: "count_list (cross_of a peers) b = 1" "count_list (cross_of b peers) a = 1"
    using in_a in_b dist assms(5) by (simp_all add: cross_of_def count_list_distinct)
  have dv: "selfVertical info = verticalDV info \<longleftrightarrow> selfVertical info' \<noteq> verticalDV info'"
    using owner_vertical(1) [OF a(3) in_a] owner_vertical(1) [OF a(3) in_b] findPayloadRegression_vertical [OF a(9)]
      assms(5) info by (auto dest: unsigned_word_eqI)
  have "same_shape (party_env A M g info a peers) (party_env A' M g info' b peers) (ownList st) (ownList st')"
    if "\<not> ab" "\<not> ab'"
  proof -
    have "(False, st) = Regression_new (sl_arith L) g info (sl_keys L) (sl_rnd L) ol
        (sl_table L (F_table_name dir ls rs)) (sl_table L (t_table_name dir)) (sl_dealt L)"
      "(False, st') = Regression_new (sl_arith L') g info' (sl_keys L') (sl_rnd L') ol'
        (sl_table L' (F_table_name dir' ls rs)) (sl_table L' (t_table_name dir')) (sl_dealt L')"
      using olA(2) olB(2) that same by simp_all
    then show ?thesis using Regression_new_shape [OF _ olA(1)] Regression_new_shape [OF _ olB(1)] info
      by (simp add: same_shape_def party_env_def)
  qed
  then show ?thesis
    using once dv info generateGlobals_dataowners [OF a(1,2,3,5)] same
    by (auto simp: cross_peers_party count_cross_of)
qed

text \<open>Two dataowners, a dealer and a recipient; the dependent variable is with the first.\<close>

definition example_org :: "u8 \<Rightarrow> dbuid_t" where
  "example_org v = replicate 16 v"

definition example_owner :: "u8 \<Rightarrow> Identity" where
  "example_owner v = \<lparr>orgId = example_org v, role = ROLE_DATAOWNER, vertical = ucast v\<rparr>"

definition start_peer :: "u8 \<Rightarrow> role_t \<Rightarrow> dbuid_t \<times> Peer" where
  "start_peer v r = (example_org v, \<lparr>organizationId = example_org v, p_role = r, p_vertical = ucast v, certificateFingerprint = []\<rparr>)"

definition start_study :: StudyConfig where
  "start_study = \<lparr>studyId = example_org 9,
     st_peers = [start_peer 0 ROLE_DATAOWNER, start_peer 1 ROLE_DATAOWNER, start_peer 2 ROLE_DEALER, start_peer 3 ROLE_RECIPIENT],
     lexicon = [\<lparr>verticalIndex = 0, columns = [''k'', ''y'']\<rparr>, \<lparr>verticalIndex = 1, columns = [''k'', ''x'']\<rparr>],
     sc_maxListSize = 1, allowedQueries = []\<rparr>"

definition start_query :: StartQuery where
  "start_query = \<lparr>joinStatement = Some [(\<lparr>cs_vertical = 0, cs_column = 0\<rparr>, \<lparr>cs_vertical = 1, cs_column = 0\<rparr>)],
     q_function = Some (LIN_REGRESSION \<lparr>fit_intercept = False, num_bytes_in_f_t_table_cells = 1, max_f_t_table_rows = 1,
       bits_of_precision = 1, dep_var = \<lparr>cs_vertical = 0, cs_column = 1\<rparr>,
       indep_vars = [\<lparr>cs_vertical = 1, cs_column = 1\<rparr>]\<rparr>)\<rparr>"

definition start_lib :: "string \<Rightarrow> startup_lib" where
  "start_lib header = \<lparr>sl_arith = nat_arith, sl_nextPrime = \<lambda>n. n, sl_ceilBits = \<lambda>_ _ _. 1, sl_ceilLog2 = \<lambda>_. 1,
     sl_hasPeer = \<lambda>P i. list_ex (\<lambda>p. identity_eq p i) (forEach P), sl_round = \<lambda>x. x, sl_large = \<lambda>_. 0,
     sl_file = \<lambda>_. Some [header], sl_table = \<lambda>_. Some \<lparr>tb_row_ids = [], tb_data = [], tb_cols = 0, tb_bits = 0, tb_step = 0\<rparr>,
     sl_keys = \<lambda>_. [0, 0],
     sl_rnd = \<lambda>_ _. \<lparr>keyCols = [0, 0], arithmeticPayloadCols = replicate 6 0, XORPayloadCols = []\<rparr>,
     sl_dealt = \<lparr>mat_values = [[1]], det_of_inverse = 1\<rparr>\<rparr>"

fun regression_of :: "(protocol \<times> PeerSet) outcome \<Rightarrow> (GlobalInfo \<times> RegressionInfo \<times> bool \<times> Regression \<times> PeerSet) option" where
  "regression_of (Returns (StartRegression g info (ab, st), peers)) = Some (g, info, ab, st, peers)"
| "regression_of _ = None"

lemma regression_of_Some:
  "regression_of x = Some (g, info, ab, st, peers) \<longleftrightarrow> x = Returns (StartRegression g info (ab, st), peers)"
  by (cases x rule: regression_of.cases) auto

definition start_peers :: PeerSet where
  "start_peers = \<lparr>hasDealer = True, dealer = \<lparr>orgId = example_org 2, role = ROLE_DEALER, vertical = - 1\<rparr>,
     recipients = [\<lparr>orgId = example_org 3, role = ROLE_RECIPIENT, vertical = - 1\<rparr>],
     dataowners = [[example_owner 0], [example_owner 1]]\<rparr>"

lemma start_keys: "findKeyCols [(\<lparr>cs_vertical = 0, cs_column = 0\<rparr>, \<lparr>cs_vertical = 1, cs_column = 0\<rparr>)] start_study = Returns ([0], [0], 0, 1)"
  by (simp add: findKeyCols_def start_study_def vertical_at_def)

lemma start_added: "add_peers 0 1 start_study PeerSet_empty = Returns start_peers"
  by (simp add: add_peers_def query_identities_def peer_identities_def start_study_def start_peer_def start_peers_def
      joined_dataowner_def isRecipient_def isDealer_def isDataowner_def hasRole_def role_defs PeerSet_add_def PeerSet_empty_def
      grow_verticals_def insert_back_def example_owner_def)

lemma start_header: "csv_fields (csv_line ''k,y'') = [''k'', ''y'']" "csv_fields (csv_line ''k,x'') = [''k'', ''x'']"
  by (simp_all add: csv_fields_def csv_line_def RemoveAllWhitespace_def RemoveWindowsTrailingCharacters_def isspace_def
      Split_def split_loop.simps find_from_def find_in.simps push_token_def substr_def)

lemma start_tables:
  "\<exists>olist. read_table (start_lib ''k,y'') start_study (example_owner 0) csvFile [0] [1] extra md bits = Returns olist"
  "\<exists>olist. read_table (start_lib ''k,x'') start_study (example_owner 1) csvFile [0] [1] extra md bits = Returns olist"
  by (simp_all add: read_table_def vertical_at_def start_study_def example_owner_def start_lib_def readCSV_def role_defs
      start_header)

lemma start_found: "sl_hasPeer (start_lib h) start_peers (example_owner 0)" "sl_hasPeer (start_lib h) start_peers (example_owner 1)"
  by (simp_all add: start_lib_def start_peers_def forEach_def forEachDealer_def forEachRecipient_def forEachDataowner_def
      identity_eq_def example_owner_def)

lemma start_roles: "first_of_role ROLE_DEALER start_peers \<noteq> None" "first_of_role ROLE_DATAOWNER start_peers \<noteq> None"
  "forEach_asserts start_peers"
  by (simp_all add: first_of_role_def start_peers_def forEach_def forEachDealer_def forEachRecipient_def
      forEachDataowner_def role_defs example_owner_def forEach_asserts_def)

lemma start_regression_info:
  "\<exists>info. setupRegressionInfo L g ls rs dep l fit start_peers self = Returns (Some info)"
  using start_roles by (auto simp: setupRegressionInfo_def)

lemma start_regression:
  assumes "\<And>pl extra md bits. pl = [1] \<Longrightarrow> \<exists>olist. read_table L start_study self csvFile [0] pl extra md bits = Returns olist"
    and "sl_table L F_file = Some T" "sl_table L t_file = Some T'"
  shows "\<exists>info st. setupRegression L g [0] [1] [1] dep l fit self start_study start_peers csvFile F_file t_file =
    Returns (StartRegression g info (False, st))"
proof -
  obtain info where info: "setupRegressionInfo L g [1] [1] dep l fit start_peers self = Returns (Some info)"
    using start_regression_info by blast
  obtain olist where "read_table L start_study self csvFile [0] [1] (if vertical self = dep then Some 1 else None)
      (startModulus info) (bitsOfPrecision g) = Returns olist"
    using assms(1) by blast
  then show ?thesis by (cases "vertical self = dep") (simp_all add: setupRegression_def info Regression_new_def assms(2,3) Let_def del: One_nat_def)
qed

lemma start_example:
  assumes "self = example_owner 0 \<and> h = ''k,y'' \<or> self = example_owner 1 \<and> h = ''k,x''"
  shows "\<exists>g info st. startup (start_lib h) [] [] start_query start_study self PeerSet_empty =
    Returns (StartRegression g info (False, st), start_peers)"
proof -
  have tables: "\<exists>olist. read_table (start_lib h) start_study self [] [0] pl extra md bits = Returns olist" if "pl = [1]"
    for pl extra md bits
    using assms start_tables that by auto
  obtain g where g: "generateGlobals start_query start_study = Some g" by (simp add: generateGlobals_def start_query_def)
  obtain lvert rvert where v: "vertical_at 0 start_study = Some lvert" "vertical_at 1 start_study = Some rvert"
    and cols: "length (columns lvert) = 2" "length (columns rvert) = 2"
    by (simp add: vertical_at_def start_study_def)
  have owner: "role self = ROLE_DATAOWNER" using assms by (auto simp: example_owner_def)
  have found: "sl_hasPeer (start_lib h) start_peers self" using assms start_found by auto
  have "\<exists>info st. setupRegression (start_lib h) g [0] [1] [1] 0 0 False self start_study start_peers []
      (F_table_name [] [1] [1]) (t_table_name []) = Returns (StartRegression g info (False, st))"
    by (rule start_regression [OF tables]) (simp_all add: start_lib_def)
  then show ?thesis
    using g v cols owner found
    by (auto simp: startup_def start_protocol_def start_query_def start_keys start_added startup_regression_def
        findPayloadRegression_def simp del: One_nat_def)
qed

theorem dataowners_agree_witness:
  "\<exists>g info st info' st'.
     startup (start_lib ''k,y'') [] [] start_query start_study (example_owner 0) PeerSet_empty =
       Returns (StartRegression g info (False, st), start_peers) \<and>
     startup (start_lib ''k,x'') [] [] start_query start_study (example_owner 1) PeerSet_empty =
       Returns (StartRegression g info' (False, st'), start_peers) \<and>
     same_shape (party_env nat_arith be_msg g info (example_owner 0) start_peers)
       (party_env nat_arith be_msg g info' (example_owner 1) start_peers) (ownList st) (ownList st')"
proof -
  obtain g info st g' info' st' where
    run: "startup (start_lib ''k,y'') [] [] start_query start_study (example_owner 0) PeerSet_empty =
       Returns (StartRegression g info (False, st), start_peers)"
     "startup (start_lib ''k,x'') [] [] start_query start_study (example_owner 1) PeerSet_empty =
       Returns (StartRegression g' info' (False, st'), start_peers)"
    using start_example [of "example_owner 0" "''k,y''"] start_example [of "example_owner 1" "''k,x''"] by blast
  have "same_code (start_lib ''k,y'') (start_lib ''k,x'')" "finds_peers (start_lib ''k,y'')"
    "vertical (example_owner 0) \<noteq> vertical (example_owner 1)" "distinct (map fst (st_peers start_study))"
    by (simp_all add: same_code_def finds_peers_def start_lib_def example_owner_def start_study_def start_peer_def
        example_org_def)
  with dataowners_agree [OF run this, of nat_arith be_msg nat_arith] run show ?thesis by blast
qed

subsection \<open>Queries that start\<close>

definition column_ok :: "StudyConfig \<Rightarrow> ColumnSpec \<Rightarrow> bool" where
  "column_ok scfg c \<longleftrightarrow> (case vertical_at (cs_vertical c) scfg of None \<Rightarrow> False | Some vert \<Rightarrow> cs_column c < length (columns vert))"

fun function_ok :: "StudyConfig \<Rightarrow> SafrnFunction \<Rightarrow> bool" where
  "function_ok scfg (LIN_REGRESSION f) = column_ok scfg (dep_var f)"
| "function_ok scfg (MOMENT f) = (momentType f \<noteq> COUNT)"
| "function_ok scfg ORDER = True"

definition query_ok :: "StudyConfig \<Rightarrow> StartQuery \<Rightarrow> bool" where
  "query_ok scfg q \<longleftrightarrow>
     (case joinStatement q of
        Some ((a, b) # _) \<Rightarrow> column_ok scfg a \<and> column_ok scfg b \<and> joined_owners (cs_vertical a) (cs_vertical b) scfg \<noteq> []
      | _ \<Rightarrow> False) \<and>
     (case q_function q of None \<Rightarrow> False | Some f \<Rightarrow> function_ok scfg f)"

definition study_ok :: "StudyConfig \<Rightarrow> bool" where
  "study_ok scfg \<longleftrightarrow> length (lexicon scfg) < 2 ^ 64 \<and> length (filter (\<lambda>(_, p). isDealer p) (st_peers scfg)) = 1 \<and>
     None \<notin> set (allowedQueries scfg)"

definition addable :: "Identity \<Rightarrow> bool" where
  "addable i \<longleftrightarrow> role i \<in> {ROLE_DEALER, ROLE_RECIPIENT, ROLE_DATAOWNER} \<and> (role i = ROLE_DATAOWNER \<longrightarrow> vertical i \<noteq> - 1)"

lemma PeerSet_add_defined:
  "addable i \<Longrightarrow> \<not> (role i = ROLE_DEALER \<and> hasDealer P) \<Longrightarrow> \<exists>Q. PeerSet_add i P = Some Q \<and>
     hasDealer Q = (hasDealer P \<or> role i = ROLE_DEALER)"
  by (auto simp: addable_def PeerSet_add_def Let_def role_defs)

lemma add_all_defined:
  "list_all addable is' \<Longrightarrow> length (filter (\<lambda>i. role i = ROLE_DEALER) is') + (if hasDealer P then 1 else 0) \<le> 1 \<Longrightarrow>
   add_all is' P \<noteq> None"
proof (induction is' arbitrary: P)
  case (Cons i is')
  then have "\<not> (role i = ROLE_DEALER \<and> hasDealer P)" by (auto split: if_splits)
  then obtain Q where "PeerSet_add i P = Some Q" "hasDealer Q = (hasDealer P \<or> role i = ROLE_DEALER)"
    using PeerSet_add_defined [of i P] Cons.prems(1) by auto
  then show ?case using Cons.IH [of Q] Cons.prems by (auto split: if_splits)
qed simp

lemma dealer_identities:
  "length (filter (\<lambda>i. role i = ROLE_DEALER) (concat (map (peer_identities l r) ps))) =
   length (filter (\<lambda>(_, p). isDealer p) ps)"
  by (induction ps) (auto simp: peer_identities_def role_defs)

lemma vertical_in_lexicon:
  "study_ok scfg \<Longrightarrow> vertical_at v scfg = Some vert \<Longrightarrow> v \<noteq> - 1"
  by (auto simp: study_ok_def vertical_at_def unsigned_minus_1_eq_mask mask_eq_exp_minus_1 split: if_splits)

lemma add_peers_defined:
  assumes "study_ok scfg" "vertical_at l scfg = Some lvert" "vertical_at r scfg = Some rvert"
  shows "add_peers l r scfg PeerSet_empty \<noteq> Fails"
proof -
  have v: "l \<noteq> - 1" "r \<noteq> - 1" using assms vertical_in_lexicon by blast+
  have "list_all addable (query_identities l r scfg)"
    using v by (auto simp: query_identities_def peer_identities_def addable_def joined_dataowner_def list_all_iff role_defs
        split: if_splits)
  moreover have "length (filter (\<lambda>i. role i = ROLE_DEALER) (query_identities l r scfg)) = 1"
    using assms(1) by (simp add: query_identities_def dealer_identities study_ok_def)
  ultimately show ?thesis
    using add_all_defined [of "query_identities l r scfg" PeerSet_empty] by (simp add: add_peers_def PeerSet_empty_def)
qed

lemma first_of_role_found:
  assumes "add_peers l r scfg PeerSet_empty = Returns peers" "i \<in> set (query_identities l r scfg)" "role i = R"
  shows "first_of_role R peers \<noteq> None"
  using mset_eq_setD [OF add_peers_owners(2) [OF assms(1)]] assms(2,3) by (auto simp: first_of_role_def find_None_iff)

lemma peers_have_roles:
  assumes "study_ok scfg" "add_peers l r scfg PeerSet_empty = Returns peers" "joined_owners l r scfg \<noteq> []"
  shows "\<exists>dlr rvl. first_of_role ROLE_DEALER peers = Some dlr \<and> first_of_role ROLE_DATAOWNER peers = Some rvl"
proof -
  have "length (filter (\<lambda>i. role i = ROLE_DEALER) (query_identities l r scfg)) = 1"
    using assms(1) by (simp add: query_identities_def dealer_identities study_ok_def)
  then have "filter (\<lambda>i. role i = ROLE_DEALER) (query_identities l r scfg) \<noteq> []" by auto
  moreover have "filter (\<lambda>i. role i = ROLE_DATAOWNER) (query_identities l r scfg) \<noteq> []"
    using assms(3) by (simp add: query_identities_def filter_identities joined_owners_def)
  ultimately show ?thesis
    using first_of_role_found [OF assms(2)] by (auto simp: filter_empty_conv)
qed

lemma setupRegressionInfo_defined:
  assumes "first_of_role ROLE_DEALER peers = Some dlr" "first_of_role ROLE_DATAOWNER peers = Some rvl" "peerset_ok peers"
  shows "\<exists>info. setupRegressionInfo L g ls rs dep l fit peers self = Returns (Some info)"
    "\<exists>info. setupMomentsInfo L g data cnt moment peers self = Returns (Some info)"
  using assms by (auto simp: setupRegressionInfo_def setupMomentsInfo_def Let_def forEach_asserts_ok)

text \<open>What is asked of a dataowner's table: that the numbers in the columns the function uses fit, for its binary places and
  for the modulus it starts with.\<close>

fun payload_columns :: "u64 \<Rightarrow> SafrnFunction \<Rightarrow> nat list" where
  "payload_columns v (LIN_REGRESSION f) = map cs_column (filter (\<lambda>c. cs_vertical c = v) (dep_var f # indep_vars f))"
| "payload_columns v (MOMENT f) = map cs_column (filter (\<lambda>c. cs_vertical c = v) [mf_col f])"
| "payload_columns v ORDER = []"

fun first_modulus :: "startup_lib \<Rightarrow> GlobalInfo \<Rightarrow> SafrnFunction \<Rightarrow> LargeNum" where
  "first_modulus L g (LIN_REGRESSION f) = sl_nextPrime L (2 ^ (4 * bitsOfPrecision g + 2) * maxIntersectionSize g)"
| "first_modulus L g (MOMENT f) =
     computeModulus (sl_nextPrime L) (2 + 3 * bitsOfPrecision g + sl_ceilLog2 L (maxIntersectionSize g))"
| "first_modulus L g ORDER = 0"

definition function_fits :: "startup_lib \<Rightarrow> GlobalInfo \<Rightarrow> SafrnFunction \<Rightarrow> StudyConfig \<Rightarrow> Identity \<Rightarrow> string \<Rightarrow> bool" where
  "function_fits L g f scfg self csvFile =
     (case vertical_at (vertical self) scfg of
        None \<Rightarrow> True
      | Some vert \<Rightarrow> file_fits (sl_round L) (bitsOfPrecision g) (first_modulus L g f) (columns vert)
          (payload_columns (vertical self) f) (sl_file L csvFile))"

definition numbers_fit :: "startup_lib \<Rightarrow> StartQuery \<Rightarrow> StudyConfig \<Rightarrow> Identity \<Rightarrow> string \<Rightarrow> bool" where
  "numbers_fit L q scfg self csvFile =
     (case (generateGlobals q scfg, q_function q) of
        (Some g, Some f) \<Rightarrow> function_fits L g f scfg self csvFile
      | _ \<Rightarrow> True)"

lemma read_table_defined:
  assumes "function_fits L g f scfg self csvFile" "set payloads \<subseteq> set (payload_columns (vertical self) f)"
    and "vertical_at (vertical self) scfg = Some vert" "role self = ROLE_DATAOWNER"
  shows "read_table L scfg self csvFile keys payloads extra (first_modulus L g f) (bitsOfPrecision g) \<noteq> Fails"
proof -
  let ?X = "\<lparr>cx_round = sl_round L, cx_large = sl_large L, cx_names = columns vert, cx_keys = keys,
    cx_payloads = payloads, cx_extra = extra, cx_id = self, cx_modulus = first_modulus L g f, cx_bits = bitsOfPrecision g\<rparr>"
  have "header_columns ns cs \<noteq> Inl NotDataowner" for ns cs
    by (induction cs) (auto split: option.splits sum.splits)
  moreover have "csv_rows X cs ls \<noteq> Inl NotDataowner" for X cs ls
    by (induction ls) (auto simp: Let_def csv_row_def split: option.splits sum.splits)
  ultimately have "readCSV ?X (sl_file L csvFile) \<noteq> Inl NotDataowner"
    using assms(4) by (auto simp: readCSV_def split: option.splits list.splits sum.splits)
  moreover have "readCSV ?X (sl_file L csvFile) \<noteq> Inl UndefinedNumber"
    using assms(1-3) by (intro readCSV_defined [of _ "payload_columns (vertical self) f"]) (simp_all add: function_fits_def)
  ultimately show ?thesis using assms(3) by (auto simp: read_table_def split: sum.splits)
qed

lemma independent_columns_vertical:
  "independent_columns l r lvert rvert cs = Some (ls, rs) \<Longrightarrow>
   set ls \<subseteq> cs_column ` {c \<in> set cs. cs_vertical c = l} \<and> set rs \<subseteq> cs_column ` {c \<in> set cs. cs_vertical c = r}"
  by (induction cs arbitrary: ls rs) (fastforce split: if_splits)+

lemma regression_payloads:
  assumes "findPayloadRegression f l r lvert rvert = Some (ls, rs, dep)" "v = l \<or> v = r"
  shows "set (if l = v then ls else rs) \<subseteq> set (payload_columns v (LIN_REGRESSION f))"
proof -
  obtain ls' rs' where ind: "independent_columns l r lvert rvert (indep_vars f) = Some (ls', rs')"
    using assms(1) by (auto simp: findPayloadRegression_def split: option.splits)
  show ?thesis using independent_columns_vertical [OF ind] assms
    by (auto simp: findPayloadRegression_def ind Let_def split: if_splits)
qed

lemma moment_payloads:
  "findPayloadMoment f l r lvert rvert = Some (ls, rs, data) \<Longrightarrow> v = l \<or> v = r \<Longrightarrow>
   set (if l = v then ls else rs) \<subseteq> set (payload_columns v (MOMENT f))"
  by (auto simp: findPayloadMoment_def Let_def split: if_splits)

lemma power_row_defined: "moment \<noteq> 0 \<Longrightarrow> power_row moment row \<noteq> None"
  by (simp add: power_row_def Let_def resize_zero_def)

lemma power_rows_defined: "moment \<noteq> 0 \<Longrightarrow> power_rows moment obs \<noteq> None"
  using power_row_defined by (induction obs) (auto split: option.splits)

lemma first_modulus_infos:
  "setupRegressionInfo L g ls rs dep l fit peers self = Returns (Some info) \<Longrightarrow> first_modulus L g (LIN_REGRESSION f) = startModulus info"
  "setupMomentsInfo L g data cnt moment peers self = Returns (Some minfo) \<Longrightarrow> first_modulus L g (MOMENT m) = mi_startModulus minfo"
  by (auto simp: setupRegressionInfo_def setupMomentsInfo_def RegressionInfo_new_def MomentsInfo_new_def Let_def
      split: if_splits option.splits prod.splits)

lemma setupMoments_defined:
  assumes "function_fits L g (MOMENT m) scfg self csvFile" "setupMomentsInfo L g data cnt moment peers self = Returns (Some info)"
    and "set (if l = vertical self then ls else rs) \<subseteq> set (payload_columns (vertical self) (MOMENT m))" "moment \<noteq> 0"
    and "vertical_at (vertical self) scfg = Some vert" "role self = ROLE_DATAOWNER"
  shows "setupMoments L g keys ls rs data l cnt moment self scfg peers csvFile \<noteq> Fails"
  using power_rows_defined [OF assms(4)] read_table_defined [OF assms(1,3,5,6)] first_modulus_infos(2) [OF assms(2), of m]
  by (auto simp: setupMoments_def assms(2) and_then_Fails split: if_splits)

lemma setupRegression_defined:
  assumes "function_fits L g (LIN_REGRESSION f) scfg self csvFile"
    and "setupRegressionInfo L g ls rs dep l fit peers self = Returns (Some info)"
    and "set (if l = vertical self then ls else rs) \<subseteq> set (payload_columns (vertical self) (LIN_REGRESSION f))"
    and "vertical self = dep \<longrightarrow> (if l = vertical self then ls else rs) \<noteq> []"
    and "vertical_at (vertical self) scfg = Some vert" "role self = ROLE_DATAOWNER"
  shows "setupRegression L g keys ls rs dep l fit self scfg peers csvFile F_file t_file \<noteq> Fails"
  using assms(4) read_table_defined [OF assms(1,3,5,6)] first_modulus_infos(1) [OF assms(2), of f]
  by (auto simp: setupRegression_def assms(2) and_then_Fails Let_def split: if_splits)

lemma column_payload:
  assumes "findPayloadRegression f l r lvert rvert = Some (ls, rs, dep)" "column_ok scfg (dep_var f)"
    and "vertical_at l scfg = Some lvert" "vertical_at r scfg = Some rvert"
  shows "(if l = dep then ls else rs) \<noteq> []"
  using assms by (auto simp: findPayloadRegression_def column_ok_def Let_def split: option.splits if_splits)

lemma moment_value_zero: "moment_value m = 0 \<longleftrightarrow> m = COUNT"
  by (cases m) simp_all

lemma include_count_defined: "None \<notin> set fs \<Longrightarrow> include_count fs \<noteq> None"
proof (induction fs)
  case (Cons f fs)
  then show ?case by (cases f) (auto split: SafrnFunction.split)
qed simp

lemma start_function_fails:
  assumes "start_function L csvFile dir f (lkeys, rkeys, l, r) lvert rvert scfg self peers g = Fails"
    and "function_ok scfg f" "vertical_at l scfg = Some lvert" "vertical_at r scfg = Some rvert"
    and "first_of_role ROLE_DEALER peers = Some dlr" "first_of_role ROLE_DATAOWNER peers = Some rvl" "peerset_ok peers"
    and "None \<notin> set (allowedQueries scfg)"
    and "role self = ROLE_DATAOWNER \<Longrightarrow> vertical self = l \<or> vertical self = r"
    and "role self = ROLE_DATAOWNER \<Longrightarrow> function_fits L g f scfg self csvFile"
  shows False
proof -
  have vert: "\<exists>vert. vertical_at (vertical self) scfg = Some vert" if "role self = ROLE_DATAOWNER"
    using assms(3,4,9) that by auto
  note infos = setupRegressionInfo_defined [OF assms(5,6,7)]
  show ?thesis
  proof (cases f)
    case (LIN_REGRESSION lin)
    then obtain ls rs dep where pay: "findPayloadRegression lin l r lvert rvert = Some (ls, rs, dep)"
      and run: "startup_regression L g csvFile dir lin (lkeys, rkeys, l, r) lvert rvert scfg self peers = Fails"
      using assms(1) by (cases "findPayloadRegression lin l r lvert rvert") (auto simp: startup_regression_def)
    obtain info where info: "setupRegressionInfo L g ls rs dep l (fit_intercept lin) peers self = Returns (Some info)"
      using infos(1) by blast
    have own: "role self = ROLE_DATAOWNER"
      and reg: "setupRegression L g (if vertical self = l then lkeys else rkeys) ls rs dep l (fit_intercept lin) self scfg
        peers csvFile (F_table_name dir ls rs) (t_table_name dir) = Fails"
      using run by (auto simp: startup_regression_def pay info split: if_splits)
    moreover have "vertical self = dep \<longrightarrow> (if l = vertical self then ls else rs) \<noteq> []"
      using column_payload [OF pay _ assms(3,4)] assms(2) LIN_REGRESSION by auto
    moreover have "set (if l = vertical self then ls else rs) \<subseteq> set (payload_columns (vertical self) f)"
      unfolding LIN_REGRESSION by (rule regression_payloads [OF pay assms(9) [OF own]])
    moreover obtain vert where "vertical_at (vertical self) scfg = Some vert" using vert [OF own] by blast
    ultimately show ?thesis
      using setupRegression_defined [OF assms(10) [OF own, unfolded LIN_REGRESSION] info] own LIN_REGRESSION by blast
  next
    case (MOMENT mom)
    obtain cnt where cnt: "include_count (allowedQueries scfg) = Some cnt" using include_count_defined [OF assms(8)] by blast
    from MOMENT obtain ls rs data where pay: "findPayloadMoment mom l r lvert rvert = Some (ls, rs, data)"
      and run: "startup_moments L g csvFile mom (lkeys, rkeys, l, r) lvert rvert scfg self peers = Fails"
      using assms(1) by (cases "findPayloadMoment mom l r lvert rvert") (auto simp: startup_moments_def)
    let ?m = "moment_value (momentType mom)"
    obtain info where info: "setupMomentsInfo L g data cnt ?m peers self = Returns (Some info)" using infos(2) by blast
    have own: "role self = ROLE_DATAOWNER"
      and mom: "setupMoments L g (if vertical self = l then lkeys else rkeys) ls rs data l cnt ?m self scfg peers csvFile = Fails"
      using run by (auto simp: startup_moments_def pay info cnt Let_def split: if_splits)
    moreover have "?m \<noteq> 0" using assms(2) MOMENT by (simp add: moment_value_zero)
    moreover have "set (if l = vertical self then ls else rs) \<subseteq> set (payload_columns (vertical self) f)"
      unfolding MOMENT by (rule moment_payloads [OF pay assms(9) [OF own]])
    moreover obtain vert where "vertical_at (vertical self) scfg = Some vert" using vert [OF own] by blast
    ultimately show ?thesis
      using setupMoments_defined [OF assms(10) [OF own, unfolded MOMENT] info] own MOMENT by blast
  next
    case ORDER
    then show ?thesis using assms(1) by simp
  qed
qed

lemma startup_ok:
  assumes "study_ok scfg" "query_ok scfg q" "finds_peers L" "role self = ROLE_DATAOWNER \<longrightarrow> numbers_fit L q scfg self csvFile"
  shows "startup L csvFile dir q scfg self PeerSet_empty \<noteq> Fails"
proof
  assume neg: "startup L csvFile dir q scfg self PeerSet_empty = Fails"
  obtain a b js f where q: "joinStatement q = Some ((a, b) # js)" "q_function q = Some f"
    and ok: "column_ok scfg a" "column_ok scfg b" "joined_owners (cs_vertical a) (cs_vertical b) scfg \<noteq> []" "function_ok scfg f"
    using assms(2) by (auto simp: query_ok_def split: option.splits list.splits)
  obtain lvert rvert where v: "vertical_at (cs_vertical a) scfg = Some lvert" "vertical_at (cs_vertical b) scfg = Some rvert"
    using ok(1,2) by (auto simp: column_ok_def split: option.splits)
  have "findKeyCols ((a, b) # js) scfg \<noteq> Fails" by (simp add: findKeyCols_def v del: key_columns.simps split: option.split)
  then obtain keys where keys: "findKeyCols ((a, b) # js) scfg = Returns keys"
    using neg by (cases "findKeyCols ((a, b) # js) scfg") (auto simp: startup_def q)
  then obtain lkeys rkeys where k: "keys = (lkeys, rkeys, cs_vertical a, cs_vertical b)"
    using findKeyCols_verticals [of "(a, b) # js" scfg] by (cases keys) auto
  obtain peers where peers: "add_peers (cs_vertical a) (cs_vertical b) scfg PeerSet_empty = Returns peers"
    using neg add_peers_defined [OF assms(1) v]
    by (cases "add_peers (cs_vertical a) (cs_vertical b) scfg PeerSet_empty") (auto simp: startup_def q keys k)
  have found: "sl_hasPeer L peers self" using neg by (auto simp: startup_def q keys k peers split: if_splits)
  have "start_protocol L csvFile dir q keys scfg self peers = Fails"
    using neg found by (simp add: startup_def q keys k peers and_then_Fails)
  moreover obtain g where g: "generateGlobals q scfg = Some g" by (simp add: generateGlobals_def q split_beta)
  ultimately have run: "start_function L csvFile dir f (lkeys, rkeys, cs_vertical a, cs_vertical b) lvert rvert scfg self peers g = Fails"
    by (simp add: start_protocol_def k q v)
  obtain dlr rvl where roles: "first_of_role ROLE_DEALER peers = Some dlr" "first_of_role ROLE_DATAOWNER peers = Some rvl"
    using peers_have_roles [OF assms(1) peers ok(3)] by blast
  note pok = add_peers_owners(1) [OF peers]
  have "vertical self = cs_vertical a \<or> vertical self = cs_vertical b" if "role self = ROLE_DATAOWNER"
    using owner_vertical(1) [OF peers dataowner_found [OF assms(3) pok found that]] .
  moreover have "function_fits L g f scfg self csvFile" if "role self = ROLE_DATAOWNER"
    using assms(4) that by (simp add: numbers_fit_def g q)
  ultimately show False
    using start_function_fails [OF run ok(4) v roles pok] assms(1) by (simp add: study_ok_def)
qed

text \<open>
  C28: Starting a query does not fail. On a study with one dealer, for a query whose join and dependent
  variable name columns of the study, whose verticals have a dataowner and whose moment is not the count,
  every party either gets a protocol or has the query rejected: there is no dereference of a null
  pointer, no access outside a vector and no failed assertion. For a dataowner, the numbers in the columns
  of its table that the function uses must fit into 64 bits, and the negative ones below the modulus the
  query starts with; what the rest of its file holds, or that there is none, does not matter.
\<close>

theorem startup_defined:
  assumes "study_ok scfg" "query_ok scfg q" "finds_peers L"
    and "role self = ROLE_DATAOWNER \<longrightarrow> numbers_fit L q scfg self csvFile"
  shows "startup L csvFile dir q scfg self PeerSet_empty \<noteq> Fails"
  by (rule startup_ok [OF assms])

lemma start_fits: "numbers_fit ((start_lib h)\<lparr>sl_file := \<lambda>_. Some [''k,y'', ''#note'', ''1,-2'']\<rparr>) start_query start_study
    (example_owner 0) []"
proof -
  have lines: "data_lines [''#note'', ''1,-2''] = [''1,-2'']"
    by (simp add: data_lines_def csv_line_def RemoveAllWhitespace_def RemoveWindowsTrailingCharacters_def isspace_def
        HasPrefixString_def substr_def)
  have fields: "csv_fields ''1,-2'' = [''1'', ''-2'']"
    by (simp add: csv_fields_def Split_def split_loop.simps find_from_def find_in.simps push_token_def substr_def)
  have "atof (\<lambda>x. x) ''-2'' = - 2"
    by (simp add: atof_def decimal_def read_sign_def exponent_def is_digit_def digits_value_def isspace_def Let_def)
  moreover have "number_fits (\<lambda>x. x) 1 128 (- 2)" "number_fits (\<lambda>x. x) 2 128 (- 2)"
  proof -
    have "\<lfloor>9 / 2 :: rat\<rfloor> = 4" "\<lfloor>17 / 2 :: rat\<rfloor> = 8" by (simp_all add: floor_eq_iff)
    then show "number_fits (\<lambda>x. x) 1 128 (- 2)" "number_fits (\<lambda>x. x) 2 128 (- 2)" by (simp_all add: number_fits_def)
  qed
  ultimately show ?thesis
    by (simp add: numbers_fit_def start_query_def generateGlobals_def start_study_def start_peer_def joined_dataowner_def
        isDataowner_def hasRole_def role_defs function_fits_def vertical_at_def example_owner_def file_fits_def start_lib_def
        start_header lines fields line_fits_def GlobalInfo_query_def)
qed

theorem startup_defined_witness:
  "startup ((start_lib [])\<lparr>sl_file := \<lambda>_. Some [''k,y'', ''#note'', ''1,-2'']\<rparr>) [] [] start_query start_study (example_owner 0)
     PeerSet_empty \<noteq> Fails"
proof -
  have "study_ok start_study"
    by (simp add: study_ok_def start_study_def start_peer_def isDealer_def hasRole_def role_defs)
  moreover have "query_ok start_study start_query"
    by (simp add: query_ok_def start_query_def column_ok_def vertical_at_def start_study_def joined_owners_def start_peer_def
        joined_dataowner_def isDataowner_def hasRole_def role_defs)
  moreover have "finds_peers ((start_lib [])\<lparr>sl_file := \<lambda>_. Some [''k,y'', ''#note'', ''1,-2'']\<rparr>)"
    by (simp add: finds_peers_def start_lib_def)
  ultimately show ?thesis
    using startup_defined [of start_study start_query "(start_lib [])\<lparr>sl_file := \<lambda>_. Some [''k,y'', ''#note'', ''1,-2'']\<rparr>"
        "example_owner 0" "[]" "[]"] start_fits [of "[]"]
    by simp
qed

end
