(* ===== verification/Query_Json.thy ===== *)
theory Query_Json
  imports Json Startup
begin

text \<open>
  The construction of queries from JSON (\<open>JSON/Query\<close>). Each class has one constructor that checks the
  names of columns against a study and one without a study; they differ in \<open>ColumnSpec\<close> only, so that
  the verticals of the study are an optional argument here. Members are read in the order of their
  declarations. An exception is \<open>Rejected\<close>.
\<close>

subsection \<open>Columns\<close>

text \<open>The search through all verticals when none is given.\<close>

fun search_lexicon :: "nat option \<Rightarrow> string \<Rightarrow> Vertical list \<Rightarrow> nat outcome" where
  "search_lexicon col name [] = Rejected"
| "search_lexicon col name (v # vs) =
     (case col of
        Some c \<Rightarrow> if length (columns v) \<le> c \<or> columns v ! c \<noteq> name then Rejected else Returns c
      | None \<Rightarrow> (case index_of name (columns v) of Some i \<Rightarrow> Returns i | None \<Rightarrow> search_lexicon col name vs))"

text \<open>The largest index stands for an absent one. \<open>index\<close> of a column is its position.\<close>

definition json_index :: "string \<Rightarrow> json \<Rightarrow> nat option outcome" where
  "json_index key j =
     (if json_contains j key
      then and_then (json_get key json_u64 j) (\<lambda>w. Returns (if w = - 1 then None else Some (unat w)))
      else Returns None)"

definition ParseColumnIndexFromJson :: "Vertical list \<Rightarrow> json \<Rightarrow> nat outcome" where
  "ParseColumnIndexFromJson verts j =
     and_then (json_index ''vertical'' j) (\<lambda>vert.
     and_then (json_index ''columnIndex'' j) (\<lambda>col.
     and_then (if json_contains j ''columnName'' then json_get ''columnName'' json_string j else Returns []) (\<lambda>name.
       if name = [] then accepted col
       else (case vert of
           None \<Rightarrow> search_lexicon col name verts
         | Some v \<Rightarrow>
             if length verts \<le> v then Rejected
             else (case col of
                 Some c \<Rightarrow> if length (columns (verts ! v)) \<le> c \<or> columns (verts ! v) ! c \<noteq> name then Rejected else Returns c
               | None \<Rightarrow> accepted (index_of name (columns (verts ! v))))))))"

definition ColumnSpec_new :: "Vertical list option \<Rightarrow> json \<Rightarrow> ColumnSpec outcome" where
  "ColumnSpec_new study j =
     and_then (json_get ''vertical'' json_u64 j) (\<lambda>v.
     and_then (case study of None \<Rightarrow> json_get ''columnIndex'' json_size_t j | Some verts \<Rightarrow> ParseColumnIndexFromJson verts j) (\<lambda>c.
       Returns \<lparr>cs_vertical = v, cs_column = c\<rparr>))"

subsection \<open>Filters\<close>

text \<open>Filters are read but not used by any protocol. \<open>fl\<close> rounds a number to a \<open>float\<close>.\<close>

record FilterMultinomialTerm =
  coefficient :: rat
  ft_values :: "(ColumnSpec \<times> int) list"

record FilterTerm =
  ft_left :: "FilterMultinomialTerm list"
  ft_right :: rat
  ft_comp :: Comparison

definition createExponent :: "json \<Rightarrow> int outcome" where
  "createExponent j = and_then (json_signed 32 j) (\<lambda>e. if e < 0 then Rejected else Returns e)"

definition ColumnExponent_new :: "Vertical list option \<Rightarrow> json \<Rightarrow> (ColumnSpec \<times> int) outcome" where
  "ColumnExponent_new study j =
     and_then (json_get ''col'' (ColumnSpec_new study) j) (\<lambda>c.
     and_then (json_get ''exp'' createExponent j) (\<lambda>e. Returns (c, e)))"

definition FilterMultinomialTerm_new :: "(rat \<Rightarrow> rat) \<Rightarrow> Vertical list option \<Rightarrow> json \<Rightarrow> FilterMultinomialTerm outcome" where
  "FilterMultinomialTerm_new fl study j =
     and_then (json_get ''coefficient'' (json_float fl) j) (\<lambda>c.
     and_then (json_get ''values'' (\<lambda>vs. each (ColumnExponent_new study) (json_elements vs)) j) (\<lambda>vs.
       Returns \<lparr>coefficient = c, ft_values = vs\<rparr>))"

text \<open>The list constructors that throw for an empty list.\<close>

definition some_of :: "(json \<Rightarrow> 'a outcome) \<Rightarrow> json \<Rightarrow> 'a list outcome" where
  "some_of f j = (if json_empty j then Rejected else each f (json_elements j))"

definition FilterMultinomial_new :: "(rat \<Rightarrow> rat) \<Rightarrow> Vertical list option \<Rightarrow> json \<Rightarrow> FilterMultinomialTerm list outcome" where
  "FilterMultinomial_new fl study = some_of (FilterMultinomialTerm_new fl study)"

definition FilterTerm_new :: "(rat \<Rightarrow> rat) \<Rightarrow> Vertical list option \<Rightarrow> json \<Rightarrow> FilterTerm outcome" where
  "FilterTerm_new fl study j =
     and_then (json_get ''left'' (FilterMultinomial_new fl study) j) (\<lambda>l.
     and_then (json_get ''right'' (json_float fl) j) (\<lambda>r.
     and_then (json_get ''comp'' json_string j) (\<lambda>s.
     and_then (ValueFromString s) (\<lambda>c. Returns \<lparr>ft_left = l, ft_right = r, ft_comp = c\<rparr>))))"

definition FilterExpression_new :: "(rat \<Rightarrow> rat) \<Rightarrow> Vertical list option \<Rightarrow> json \<Rightarrow> FilterTerm list outcome" where
  "FilterExpression_new fl study = some_of (FilterTerm_new fl study)"

definition QueryFilter_new :: "(rat \<Rightarrow> rat) \<Rightarrow> Vertical list option \<Rightarrow> json \<Rightarrow> FilterTerm list list outcome" where
  "QueryFilter_new fl study = some_of (FilterExpression_new fl study)"

subsection \<open>Joins\<close>

record JoinOn =
  jo_col :: ColumnSpec
  jo_formula :: "GCDReducedFraction list"

record JoinStatement =
  js_type :: JoinType
  js_joinOns :: "(JoinOn \<times> JoinOn) list"

definition JoinOn_new :: "Vertical list option \<Rightarrow> json \<Rightarrow> JoinOn outcome" where
  "JoinOn_new study j =
     and_then (json_get ''col'' (ColumnSpec_new study) j) (\<lambda>c.
     and_then (json_get ''formula'' Polynomial_new j) (\<lambda>p. Returns \<lparr>jo_col = c, jo_formula = p\<rparr>))"

definition jsonToJoinOns :: "Vertical list option \<Rightarrow> json \<Rightarrow> (JoinOn \<times> JoinOn) list outcome" where
  "jsonToJoinOns study =
     some_of (\<lambda>item. and_then (json_get ''first'' (JoinOn_new study) item) (\<lambda>a.
       and_then (json_get ''second'' (JoinOn_new study) item) (\<lambda>b. Returns (a, b))))"

definition JoinStatement_new :: "Vertical list option \<Rightarrow> json \<Rightarrow> JoinStatement outcome" where
  "JoinStatement_new study j =
     and_then (json_get ''type'' (\<lambda>t. and_then (json_string t) joinTypeFromString) j) (\<lambda>t.
     and_then (json_get ''joinOns'' (jsonToJoinOns study) j) (\<lambda>js. Returns \<lparr>js_type = t, js_joinOns = js\<rparr>))"

subsection \<open>Functions\<close>

definition valueFromString :: "string \<Rightarrow> MomentType outcome" where
  "valueFromString s = accepted (map_of
     [(''count'', COUNT), (''mean'', MEAN), (''variance'', VARIANCE), (''skew'', SKEW), (''kurtosis'', KURTOSIS)]
     (map to_lower s))"

text \<open>The members of an order function are read and not kept.\<close>

definition OrderFunction_new :: "Vertical list option \<Rightarrow> json \<Rightarrow> SafrnFunction outcome" where
  "OrderFunction_new study j =
     and_then (json_get ''col'' (ColumnSpec_new study) j) (\<lambda>_.
     and_then (json_get ''is_percentile'' json_bool j) (\<lambda>_.
     and_then (json_get ''lowest_first'' json_bool j) (\<lambda>_.
     and_then (json_get ''value'' json_size_t j) (\<lambda>_. Returns ORDER))))"

definition MomentFunction_new :: "Vertical list option \<Rightarrow> json \<Rightarrow> SafrnFunction outcome" where
  "MomentFunction_new study j =
     and_then (json_get ''col'' (ColumnSpec_new study) j) (\<lambda>c.
     and_then (json_get ''momentType'' (\<lambda>t. and_then (json_string t) valueFromString) j) (\<lambda>t.
     and_then (json_get ''revealCount'' json_bool j) (\<lambda>r.
     and_then (json_get ''bits_of_precision'' json_size_t j) (\<lambda>b.
       Returns (MOMENT \<lparr>mf_col = c, momentType = t, revealCount = r, mf_bits_of_precision = b\<rparr>)))))"

definition IndepVarsFromJSON :: "Vertical list option \<Rightarrow> json \<Rightarrow> ColumnSpec list outcome" where
  "IndepVarsFromJSON study = some_of (ColumnSpec_new study)"

definition LinearRegressionFunction_new :: "Vertical list option \<Rightarrow> json \<Rightarrow> SafrnFunction outcome" where
  "LinearRegressionFunction_new study j =
     and_then (json_get ''dep_var'' (ColumnSpec_new study) j) (\<lambda>dv.
     and_then (json_get ''indep_vars'' (IndepVarsFromJSON study) j) (\<lambda>ivs.
     and_then (json_get ''fit_intercept'' json_bool j) (\<lambda>fit.
     and_then (json_get ''table_cell_bytes'' json_size_t j) (\<lambda>cells.
     and_then (json_get ''num_table_rows'' json_size_t j) (\<lambda>rows.
     and_then (json_get ''bits_of_precision'' json_size_t j) (\<lambda>bits.
       Returns (LIN_REGRESSION \<lparr>fit_intercept = fit, num_bytes_in_f_t_table_cells = cells, max_f_t_table_rows = rows,
         bits_of_precision = bits, dep_var = dv, indep_vars = ivs\<rparr>)))))))"

text \<open>A function of another type is a null pointer.\<close>

definition FunctionFactory :: "Vertical list option \<Rightarrow> json \<Rightarrow> SafrnFunction option outcome" where
  "FunctionFactory study j =
     and_then (json_at ''type'' j) (\<lambda>t.
       (let keep = (\<lambda>r. and_then r (\<lambda>f. Returns (Some f)))
        in if t = JString ''OrderFunction'' then keep (OrderFunction_new study j)
           else if t = JString ''MomentFunction'' then keep (MomentFunction_new study j)
           else if t = JString ''LinearRegressionFunction'' then keep (LinearRegressionFunction_new study j)
           else Returns None))"

subsection \<open>Queries\<close>

record JsonQuery =
  prefilters :: "FilterTerm list list list"
  jq_join :: "JoinStatement option"
  jq_function :: "SafrnFunction option"

definition createPrefilters :: "(rat \<Rightarrow> rat) \<Rightarrow> Vertical list option \<Rightarrow> json \<Rightarrow> FilterTerm list list list outcome" where
  "createPrefilters fl study j =
     (if 2 < length (json_elements j) then Rejected else each (QueryFilter_new fl study) (json_elements j))"

definition createJoinStatementIfExists :: "Vertical list option \<Rightarrow> json \<Rightarrow> JoinStatement option outcome" where
  "createJoinStatementIfExists study j =
     (if json_contains j ''joinStatement''
      then and_then (json_get ''joinStatement'' (JoinStatement_new study) j) (\<lambda>s. Returns (Some s)) else Returns None)"

definition Query_new :: "(rat \<Rightarrow> rat) \<Rightarrow> Vertical list option \<Rightarrow> json \<Rightarrow> JsonQuery outcome" where
  "Query_new fl study j =
     and_then (json_get ''prefilters'' (createPrefilters fl study) j) (\<lambda>fs.
     and_then (createJoinStatementIfExists study j) (\<lambda>join.
     and_then (json_get ''function'' (FunctionFactory study) j) (\<lambda>f.
       Returns \<lparr>prefilters = fs, jq_join = join, jq_function = f\<rparr>)))"

text \<open>What the start of a protocol reads of a query.\<close>

definition started_query :: "JsonQuery \<Rightarrow> StartQuery" where
  "started_query q =
     \<lparr>joinStatement = map_option (\<lambda>s. map (\<lambda>(a, b). (jo_col a, jo_col b)) (js_joinOns s)) (jq_join q),
      q_function = jq_function q\<rparr>"

end
