(* ===== verification/Study_Json.thy ===== *)
theory Study_Json
  imports Query_Json
begin

text \<open>
  The configuration files: columns (\<open>JSON/Columns\<close>), studies (\<open>JSON/Config/StudyConfig.cpp\<close>) and the
  server itself (\<open>JSON/Config/ServerConfig.cpp\<close>). Reading hexadecimal digits, which belongs to another
  library, and looking up a hash algorithm by its name are parameters.
\<close>

subsection \<open>Columns\<close>

datatype ColumnDatatype = BOOL | INTEGER | REAL | CATEGORICAL

datatype column_data = IntegerData bool u64 | RealData nat nat | CategoricalData string

record Column =
  cb_type :: ColumnDatatype
  cb_name :: string
  cb_index :: u64
  cb_data :: column_data

definition StringToColumnType :: "string \<Rightarrow> ColumnDatatype outcome" where
  "StringToColumnType s = accepted (map_of
     [(''bool'', BOOL), (''integer'', INTEGER), (''real'', REAL), (''categorical'', CATEGORICAL)] s)"

definition ColumnBase_new :: "json \<Rightarrow> (column_data \<Rightarrow> Column) outcome" where
  "ColumnBase_new j =
     and_then (json_get ''type'' (\<lambda>t. and_then (json_string t) StringToColumnType) j) (\<lambda>t.
     and_then (json_get ''name'' json_string j) (\<lambda>n.
     and_then (json_get ''columnIndex'' json_u64 j) (\<lambda>i.
       Returns (\<lambda>d. \<lparr>cb_type = t, cb_name = n, cb_index = i, cb_data = d\<rparr>))))"

definition IntegerColumn_new :: "json \<Rightarrow> Column outcome" where
  "IntegerColumn_new j =
     and_then (ColumnBase_new j) (\<lambda>c.
     and_then (json_get ''signed'' json_bool j) (\<lambda>s.
     and_then (json_get ''bits'' json_u64 j) (\<lambda>b. Returns (c (IntegerData s b)))))"

definition RealColumn_new :: "json \<Rightarrow> Column outcome" where
  "RealColumn_new j =
     and_then (ColumnBase_new j) (\<lambda>c.
     and_then (json_get ''precision'' (json_unsigned 8) j) (\<lambda>p.
     and_then (json_get ''scale'' (json_unsigned 8) j) (\<lambda>s. Returns (c (RealData p s)))))"

definition CategoricalColumn_new :: "json \<Rightarrow> Column outcome" where
  "CategoricalColumn_new j =
     and_then (ColumnBase_new j) (\<lambda>c.
     and_then (json_get ''categorical'' json_string j) (\<lambda>n. Returns (c (CategoricalData n))))"

text \<open>Setting a member of an object; null becomes an object, anything else throws.\<close>

fun json_set :: "string \<Rightarrow> json \<Rightarrow> json \<Rightarrow> json outcome" where
  "json_set key v (JObject kvs) = Returns (JObject ((key, v) # filter (\<lambda>(k, _). k \<noteq> key) kvs))"
| "json_set key v JNull = Returns (JObject [(key, v)])"
| "json_set key v _ = Rejected"

definition addBoolJsonFields :: "json \<Rightarrow> json outcome" where
  "addBoolJsonFields j = and_then (json_set ''signed'' (JBool False) j) (json_set ''bits'' (JInt 1))"

definition BoolColumn_new :: "json \<Rightarrow> Column outcome" where
  "BoolColumn_new j = and_then (addBoolJsonFields j) IntegerColumn_new"

definition createColumn :: "json \<Rightarrow> Column outcome" where
  "createColumn j =
     and_then (json_get ''type'' json_string j) (\<lambda>t.
     and_then (accepted (map_of [(''integer'', IntegerColumn_new), (''real'', RealColumn_new),
         (''categorical'', CategoricalColumn_new), (''bool'', BoolColumn_new)] t)) (\<lambda>f. f j))"

subsection \<open>The lexicon\<close>

text \<open>A column has to stand at the position its index says.\<close>

fun read_columns :: "u64 \<Rightarrow> json list \<Rightarrow> string list outcome" where
  "read_columns current [] = Returns []"
| "read_columns current (j # js) =
     and_then (createColumn j) (\<lambda>c.
       if cb_index c \<noteq> current then Rejected
       else and_then (read_columns (current + 1) js) (\<lambda>cs. Returns (cb_name c # cs)))"

fun read_verticals :: "u64 \<Rightarrow> json list \<Rightarrow> Vertical list outcome" where
  "read_verticals current [] = Returns []"
| "read_verticals current (j # js) =
     and_then (if json_contains j ''verticalIndex'' then json_get ''verticalIndex'' json_u64 j else Returns current) (\<lambda>i.
       if i \<noteq> current then Rejected
       else and_then (json_get ''columns'' (\<lambda>cs. read_columns 0 (json_elements cs)) j) (\<lambda>cs.
            and_then (read_verticals (current + 1) js) (\<lambda>vs. Returns (\<lparr>verticalIndex = i, columns = cs\<rparr> # vs))))"

subsection \<open>Peers\<close>

record json_lib =
  jl_hex :: "string \<Rightarrow> bytes option"
  jl_hash :: "string \<Rightarrow> bool"

definition strToDbuid :: "json_lib \<Rightarrow> string \<Rightarrow> dbuid_t outcome" where
  "strToDbuid P s = (case jl_hex P s of None \<Rightarrow> Rejected | Some bs \<Rightarrow> if length bs = DBUID_LENGTH then Returns bs else Rejected)"

definition json_dbuid :: "json_lib \<Rightarrow> json \<Rightarrow> dbuid_t outcome" where
  "json_dbuid P j = and_then (json_string j) (strToDbuid P)"

text \<open>A \<open>std::map\<close> with organizations as keys, in their order.\<close>

fun map_put :: "dbuid_t \<Rightarrow> 'v \<Rightarrow> (dbuid_t \<times> 'v) list \<Rightarrow> (dbuid_t \<times> 'v) list" where
  "map_put k v [] = [(k, v)]"
| "map_put k v ((k', v') # m) =
     (if array_less k k' then (k, v) # (k', v') # m
      else if array_less k' k then (k', v') # map_put k v m
      else (k', v) # m)"

definition map_find :: "dbuid_t \<Rightarrow> (dbuid_t \<times> 'v) list \<Rightarrow> 'v option" where
  "map_find k m = map_option snd (List.find (\<lambda>(k', _). \<not> array_less k k' \<and> \<not> array_less k' k) m)"

record PeerConnInfo =
  pc_domainOrIp :: string
  pc_port :: nat
  pc_algorithm :: string
  pc_fingerprint :: bytes

text \<open>The fingerprint is appended to the one an entry for the organization has already.\<close>

definition read_conn_info :: "json_lib \<Rightarrow> json \<Rightarrow> (dbuid_t \<times> PeerConnInfo) list \<Rightarrow> (dbuid_t \<times> PeerConnInfo) list outcome" where
  "read_conn_info P peer m =
     and_then (json_get ''organizationId'' (json_dbuid P) peer) (\<lambda>org.
     and_then (json_get ''domainOrIp'' json_string peer) (\<lambda>dom.
     and_then (json_get ''port'' (json_unsigned 16) peer) (\<lambda>port.
     and_then (json_get ''certificateFingerprintAlgorithm'' json_string peer) (\<lambda>alg.
     and_then (if jl_hash P alg then Returns () else Rejected) (\<lambda>_.
     and_then (json_get ''certificateFingerprint'' json_string peer) (\<lambda>hex.
     and_then (accepted (jl_hex P hex)) (\<lambda>fp.
       let old = (case map_find org m of None \<Rightarrow> [] | Some c \<Rightarrow> pc_fingerprint c)
       in Returns (map_put org \<lparr>pc_domainOrIp = dom, pc_port = port, pc_algorithm = alg, pc_fingerprint = old @ fp\<rparr> m))))))))"

fun read_conn_infos :: "json_lib \<Rightarrow> json list \<Rightarrow> (dbuid_t \<times> PeerConnInfo) list \<Rightarrow> (dbuid_t \<times> PeerConnInfo) list outcome" where
  "read_conn_infos P [] m = Returns m"
| "read_conn_infos P (j # js) m = and_then (read_conn_info P j m) (read_conn_infos P js)"

definition check_member :: "string \<Rightarrow> (json \<Rightarrow> 'a outcome) \<Rightarrow> json \<Rightarrow> unit outcome" where
  "check_member key f j = (if json_contains j key then and_then (json_get key f j) (\<lambda>_. Returns ()) else Returns ())"

definition peer_role :: "json \<Rightarrow> role_t" where
  "peer_role peer =
     (let has = (\<lambda>key r. if json_contains peer key then r else 0)
      in has ''analyst'' ROLE_ANALYST OR has ''dataowner'' ROLE_DATAOWNER OR has ''dealer'' ROLE_DEALER OR
         has ''recipient'' ROLE_RECIPIENT)"

text \<open>A peer of the study. The model keeps its roles, vertical and fingerprint; its name, address and
  the number of queries of an analyst are only read.\<close>

definition read_peer :: "json_lib \<Rightarrow> (dbuid_t \<times> PeerConnInfo) list option \<Rightarrow> json \<Rightarrow> (dbuid_t \<times> Peer) list
    \<Rightarrow> (dbuid_t \<times> Peer) list outcome" where
  "read_peer P conn peer m =
     and_then (json_get ''organizationId'' (json_dbuid P) peer) (\<lambda>org.
     and_then (case conn of
         None \<Rightarrow> Returns []
       | Some ci \<Rightarrow> (case map_find org ci of None \<Rightarrow> Rejected | Some c \<Rightarrow> Returns (pc_fingerprint c))) (\<lambda>fp.
     and_then (check_member ''organizationName'' json_string peer) (\<lambda>_.
     and_then (check_member ''analyst'' (json_get ''allowedQueryCount'' (json_signed 32)) peer) (\<lambda>_.
     and_then (if json_contains peer ''dataowner''
         then json_get ''dataowner'' (json_get ''vertical'' json_u64) peer else Returns (- 1)) (\<lambda>v.
       Returns (map_put org \<lparr>organizationId = org, p_role = peer_role peer, p_vertical = v, certificateFingerprint = fp\<rparr> m))))))"

fun read_peers :: "json_lib \<Rightarrow> (dbuid_t \<times> PeerConnInfo) list option \<Rightarrow> json list \<Rightarrow> (dbuid_t \<times> Peer) list
    \<Rightarrow> (dbuid_t \<times> Peer) list outcome" where
  "read_peers P conn [] m = Returns m"
| "read_peers P conn (j # js) m = and_then (read_peer P conn j m) (read_peers P conn js)"

subsection \<open>Studies\<close>

definition configFromJson :: "json_lib \<Rightarrow> (dbuid_t \<times> PeerConnInfo) list option \<Rightarrow> json \<Rightarrow> StudyConfig outcome" where
  "configFromJson P conn sjs =
     and_then (json_get ''studyId'' (json_dbuid P) sjs) (\<lambda>sid.
     and_then (if json_contains sjs ''maxListSize'' then json_get ''maxListSize'' json_size_t sjs else Returns 100) (\<lambda>n.
     and_then (json_get ''lexicon'' (\<lambda>vs. read_verticals 0 (json_elements vs)) sjs) (\<lambda>verts.
     and_then (if json_contains sjs ''allowedQueries''
         then json_get ''allowedQueries'' (\<lambda>qs. each (FunctionFactory None) (json_elements qs)) sjs else Returns []) (\<lambda>qs.
     and_then (json_get ''peers'' (\<lambda>ps. read_peers P conn (json_elements ps) []) sjs) (\<lambda>ps.
       Returns \<lparr>studyId = sid, st_peers = ps, lexicon = verts, sc_maxListSize = n, allowedQueries = qs\<rparr>)))))"

text \<open>With the connection file of the peers, which is read first, or without it.\<close>

definition readStudyFromJson :: "json_lib \<Rightarrow> json \<Rightarrow> json option \<Rightarrow> StudyConfig outcome" where
  "readStudyFromJson P study peers =
     (case peers of
        None \<Rightarrow> configFromJson P None study
      | Some pjs \<Rightarrow>
          and_then (json_get ''peers'' (\<lambda>ps. read_conn_infos P (json_elements ps) []) pjs) (\<lambda>conn.
            configFromJson P (Some conn) study))"

text \<open>A file that is not open is \<open>None\<close>; its text is parsed by the library, which throws for what is no JSON.\<close>

definition readStudyFromFile :: "json_lib \<Rightarrow> json outcome option \<Rightarrow> json outcome option \<Rightarrow> StudyConfig outcome" where
  "readStudyFromFile P study peers =
     (case (study, peers) of
        (Some s, Some p) \<Rightarrow> and_then s (\<lambda>s. and_then p (\<lambda>p. readStudyFromJson P s (Some p)))
      | _ \<Rightarrow> Rejected)"

definition getVerticalIdx :: "StudyConfig \<Rightarrow> dbuid_t \<Rightarrow> u64" where
  "getVerticalIdx cfg org =
     (case map_find org (st_peers cfg) of Some p \<Rightarrow> if isDataowner p then p_vertical p else - 1 | None \<Rightarrow> - 1)"

subsection \<open>The server\<close>

record ApprovedStudy =
  as_study :: string
  as_peer :: string
  as_database :: string

record ServerConfig =
  sv_address :: string
  sv_port :: nat
  sv_authorityFile :: string
  sv_authorityDirectory :: string
  sv_certificateFile :: string
  sv_certificateKeyFile :: string
  sv_approvedStudies :: "ApprovedStudy list"
  sv_organizationId :: dbuid_t
  sv_organizationName :: string

definition ApprovedStudy_new :: "json \<Rightarrow> ApprovedStudy outcome" where
  "ApprovedStudy_new s =
     and_then (json_get ''study'' json_string s) (\<lambda>a.
     and_then (json_get ''peer'' json_string s) (\<lambda>b.
     and_then (json_get ''database'' json_string s) (\<lambda>c. Returns \<lparr>as_study = a, as_peer = b, as_database = c\<rparr>)))"

definition optional_string :: "string \<Rightarrow> string \<Rightarrow> json \<Rightarrow> string outcome" where
  "optional_string key dflt j = (if json_contains j key then json_get key json_string j else Returns dflt)"

text \<open>\<open>find\<close> and the test for a nonempty string.\<close>

definition has_text :: "string \<Rightarrow> json \<Rightarrow> bool" where
  "has_text key j \<longleftrightarrow> (case json_get key json_string j of Returns s \<Rightarrow> s \<noteq> [] | _ \<Rightarrow> False)"

definition readServerConfigFromFile :: "json_lib \<Rightarrow> json outcome option \<Rightarrow> ServerConfig outcome" where
  "readServerConfigFromFile P file =
     (case file of
        None \<Rightarrow> Rejected
      | Some parsed \<Rightarrow>
          and_then parsed (\<lambda>j.
          and_then (json_get ''port'' (json_unsigned 16) j) (\<lambda>port.
          and_then (json_get ''organizationId'' (json_dbuid P) j) (\<lambda>org.
          and_then (optional_string ''address'' ''0.0.0.0'' j) (\<lambda>addr.
          and_then (optional_string ''organizationName'' ''unknown'' j) (\<lambda>name.
          and_then (json_get ''approvedStudies'' (\<lambda>ss. each ApprovedStudy_new (json_elements ss)) j) (\<lambda>studies.
            if \<not> has_text ''certificateAuthorityFile'' j \<and> \<not> has_text ''certificateAuthorityDirectory'' j then Rejected
            else and_then (optional_string ''certificateAuthorityFile'' [] j) (\<lambda>caf.
                 and_then (optional_string ''certificateAuthorityDirectory'' [] j) (\<lambda>cad.
                   if \<not> has_text ''certificateFile'' j then Rejected
                   else and_then (json_get ''certificateFile'' json_string j) (\<lambda>cert.
                     if \<not> has_text ''certificateKeyFile'' j then Rejected
                     else and_then (json_get ''certificateKeyFile'' json_string j) (\<lambda>key.
                       Returns \<lparr>sv_address = addr, sv_port = port, sv_authorityFile = caf, sv_authorityDirectory = cad,
                         sv_certificateFile = cert, sv_certificateKeyFile = key, sv_approvedStudies = studies,
                         sv_organizationId = org, sv_organizationName = name\<rparr>)))))))))))"

subsection \<open>Maps with organizations as keys\<close>










subsection \<open>Well-formed studies\<close>

lemma read_columns_length: "read_columns n js = Returns cs \<Longrightarrow> length cs = length js"
  by (induction n js arbitrary: cs rule: read_columns.induct) (auto simp: and_then_Returns split: if_splits)










subsection \<open>Queries that name their columns\<close>































end
