(* ===== verification/Generic_Values.thy ===== *)
theory Generic_Values
  imports Outcomes Startup_Csv
begin

unbundle bit_operations_syntax

text \<open>
  \<open>Util/data_structures.h\<close> and \<open>Util/data_structures.cpp\<close>: values that carry their data type with them, with
  the sizes of the types, the two's complement bytes of a value and its bits. A \<open>slice\<close> is a 64-bit word, as
  on the 64-bit processors the header names first, and \<open>long\<close> has 64 bits. A \<open>double\<close> is a rational number.
  A call of \<open>log_fatal\<close> and the use of an object the value does not hold are \<open>Fails\<close>, the result \<open>false\<close> of
  a function that fills an argument is \<open>Rejected\<close>.
\<close>

subsection \<open>Data types\<close>

datatype DataType = UNKNOWN | STRING8 | STRING16 | STRING24 | STRING32 | STRING64 | STRING128
  | BOOL | INT2 | UINT2 | INT4 | UINT4 | INT8 | UINT8 | INT16 | UINT16 | INT32 | UINT32 | INT64 | UINT64
  | SLICE | DOUBLE | VECTOR

definition StringToDataType :: "string \<Rightarrow> DataType" where
  "StringToDataType input =
     (if input = ''STRING8'' then STRING8
      else if input = ''STRING16'' then STRING16
      else if input = ''STRING24'' then STRING24
      else if input = ''STRING32'' then STRING32
      else if input = ''STRING64'' then STRING64
      else if input = ''STRING128'' then STRING128
      else if input = ''BOOL'' then BOOL
      else if input = ''INT2'' then INT2
      else if input = ''UINT2'' then UINT2
      else if input = ''INT4'' then INT4
      else if input = ''UINT4'' then UINT4
      else if input = ''INT8'' then INT8
      else if input = ''UINT8'' then UINT8
      else if input = ''INT16'' then INT16
      else if input = ''UINT16'' then UINT16
      else if input = ''INT32'' then INT32
      else if input = ''UINT32'' then UINT32
      else if input = ''INT64'' then INT64
      else if input = ''UINT64'' then UINT64
      else if input = ''SLICE'' then SLICE
      else if input = ''DOUBLE'' then DOUBLE
      else if input = ''VEC'' then VECTOR
      else if input = ''VECTOR'' then VECTOR
      else UNKNOWN)"

fun GetDataTypeString :: "DataType \<Rightarrow> string" where
  "GetDataTypeString STRING8 = ''STRING8''"
| "GetDataTypeString STRING16 = ''STRING16''"
| "GetDataTypeString STRING24 = ''STRING24''"
| "GetDataTypeString STRING32 = ''STRING32''"
| "GetDataTypeString STRING64 = ''STRING64''"
| "GetDataTypeString STRING128 = ''STRING128''"
| "GetDataTypeString BOOL = ''BOOL''"
| "GetDataTypeString INT2 = ''INT2''"
| "GetDataTypeString UINT2 = ''UINT2''"
| "GetDataTypeString INT4 = ''INT4''"
| "GetDataTypeString UINT4 = ''UINT4''"
| "GetDataTypeString INT8 = ''INT8''"
| "GetDataTypeString UINT8 = ''UINT8''"
| "GetDataTypeString INT16 = ''INT16''"
| "GetDataTypeString UINT16 = ''UINT16''"
| "GetDataTypeString INT32 = ''INT32''"
| "GetDataTypeString UINT32 = ''UINT32''"
| "GetDataTypeString INT64 = ''INT64''"
| "GetDataTypeString UINT64 = ''UINT64''"
| "GetDataTypeString SLICE = ''SLICE''"
| "GetDataTypeString DOUBLE = ''DOUBLE''"
| "GetDataTypeString VECTOR = ''VEC''"
| "GetDataTypeString UNKNOWN = ''UNKNOWN''"

definition IsStringDataType :: "DataType \<Rightarrow> bool" where
  "IsStringDataType t \<longleftrightarrow> t \<in> {STRING8, STRING16, STRING24, STRING32, STRING64, STRING128}"

definition IsIntegerDataType :: "DataType \<Rightarrow> bool" where
  "IsIntegerDataType t \<longleftrightarrow>
     t \<in> {BOOL, SLICE, INT2, UINT2, INT4, UINT4, INT8, UINT8, INT16, UINT16, INT32, UINT32, INT64, UINT64}"

definition IsNumericDataType :: "DataType \<Rightarrow> bool" where
  "IsNumericDataType t \<longleftrightarrow> t = DOUBLE \<or> IsIntegerDataType t"

definition IsDataTypeTwosComplement :: "DataType \<Rightarrow> bool" where
  "IsDataTypeTwosComplement t \<longleftrightarrow> t \<in> {INT2, INT4, INT8, INT16, INT32, INT64}"

definition IsSignedDataType :: "DataType \<Rightarrow> bool" where
  "IsSignedDataType t \<longleftrightarrow> IsDataTypeTwosComplement t \<or> t = DOUBLE"

definition IsSmallDataType :: "DataType \<Rightarrow> bool" where
  "IsSmallDataType t \<longleftrightarrow> t \<in> {BOOL, INT2, UINT2, INT4, UINT4}"

fun DataType_NumBits :: "DataType \<Rightarrow> nat outcome" where
  "DataType_NumBits UNKNOWN = Returns 0"
| "DataType_NumBits STRING8 = Returns (8 * 8)"
| "DataType_NumBits STRING16 = Returns (16 * 8)"
| "DataType_NumBits STRING24 = Returns (24 * 8)"
| "DataType_NumBits STRING32 = Returns (32 * 8)"
| "DataType_NumBits STRING64 = Returns (64 * 8)"
| "DataType_NumBits STRING128 = Returns (128 * 8)"
| "DataType_NumBits BOOL = Returns 1"
| "DataType_NumBits INT2 = Returns 2"
| "DataType_NumBits UINT2 = Returns 2"
| "DataType_NumBits INT4 = Returns 4"
| "DataType_NumBits UINT4 = Returns 4"
| "DataType_NumBits INT8 = Returns (1 * 8)"
| "DataType_NumBits UINT8 = Returns (1 * 8)"
| "DataType_NumBits INT16 = Returns (2 * 8)"
| "DataType_NumBits UINT16 = Returns (2 * 8)"
| "DataType_NumBits INT32 = Returns (4 * 8)"
| "DataType_NumBits UINT32 = Returns (4 * 8)"
| "DataType_NumBits INT64 = Returns (8 * 8)"
| "DataType_NumBits UINT64 = Returns (8 * 8)"
| "DataType_NumBits SLICE = Returns (8 * 8)"
| "DataType_NumBits DOUBLE = Returns (8 * 8)"
| "DataType_NumBits VECTOR = Fails"

fun DataType_NumBytes :: "DataType \<Rightarrow> nat outcome" where
  "DataType_NumBytes UNKNOWN = Returns 0"
| "DataType_NumBytes STRING8 = Returns 8"
| "DataType_NumBytes STRING16 = Returns 16"
| "DataType_NumBytes STRING24 = Returns 24"
| "DataType_NumBytes STRING32 = Returns 32"
| "DataType_NumBytes STRING64 = Returns 64"
| "DataType_NumBytes STRING128 = Returns 128"
| "DataType_NumBytes BOOL = Returns 1"
| "DataType_NumBytes INT2 = Returns 1"
| "DataType_NumBytes UINT2 = Returns 1"
| "DataType_NumBytes INT4 = Returns 1"
| "DataType_NumBytes UINT4 = Returns 1"
| "DataType_NumBytes INT8 = Returns 1"
| "DataType_NumBytes UINT8 = Returns 1"
| "DataType_NumBytes INT16 = Returns 2"
| "DataType_NumBytes UINT16 = Returns 2"
| "DataType_NumBytes INT32 = Returns 4"
| "DataType_NumBytes UINT32 = Returns 4"
| "DataType_NumBytes INT64 = Returns 8"
| "DataType_NumBytes UINT64 = Returns 8"
| "DataType_NumBytes SLICE = Returns 8"
| "DataType_NumBytes DOUBLE = Returns 8"
| "DataType_NumBytes VECTOR = Fails"

definition IsDataTypeSubType :: "DataType \<Rightarrow> DataType \<Rightarrow> bool outcome" where
  "IsDataTypeSubType subtype parent =
     and_then (DataType_NumBits parent) (\<lambda>expected.
     and_then (DataType_NumBits subtype) (\<lambda>least.
       Returns (if expected < least then False
         else if \<not> IsDataTypeTwosComplement parent \<and> IsDataTypeTwosComplement subtype then False
         else True)))"

definition GetIntegerDataType :: "bool \<Rightarrow> int \<Rightarrow> DataType outcome" where
  "GetIntegerDataType is_signed n =
     (if n = 1 then Returns BOOL
      else if n = 2 then Returns (if is_signed then INT2 else UINT2)
      else if n \<le> 4 then Returns (if is_signed then INT4 else UINT4)
      else if n \<le> 8 then Returns (if is_signed then INT8 else UINT8)
      else if n \<le> 16 then Returns (if is_signed then INT16 else UINT16)
      else if n \<le> 32 then Returns (if is_signed then INT32 else UINT32)
      else if n \<le> 64 then Returns (if is_signed then INT64 else UINT64)
      else Rejected)"

subsection \<open>Values\<close>

text \<open>The classes derived from the C++ \<open>GenericDataType\<close>, one constructor each, and a value that points to
  one of them. Nothing ties the type of a value to the class of the object.\<close>

datatype GenericDataType =
    StringData string | BoolData bool
  | Int2Data u8 | Uint2Data u8 | Int4Data u8 | Uint4Data u8 | Int8Data u8 | Uint8Data u8
  | Int16Data u16 | Uint16Data u16 | Int32Data u32 | Uint32Data u32 | Int64Data u64 | Uint64Data u64
  | SliceData u64 | DoubleData rat | VectorData "GenericValue list"
and GenericValue = GenericValue (val_type: DataType) (val_object: "GenericDataType option")

text \<open>Reading an object by the size of the class it is cast to: classes of one size are laid out alike, so
  the code may read one as the other, and does for the small types. Signed numbers are read with \<open>sint\<close>.\<close>

fun stored8 :: "GenericDataType option \<Rightarrow> u8 outcome" where
  "stored8 (Some (Int2Data w)) = Returns w"
| "stored8 (Some (Uint2Data w)) = Returns w"
| "stored8 (Some (Int4Data w)) = Returns w"
| "stored8 (Some (Uint4Data w)) = Returns w"
| "stored8 (Some (Int8Data w)) = Returns w"
| "stored8 (Some (Uint8Data w)) = Returns w"
| "stored8 _ = Fails"

fun stored16 :: "GenericDataType option \<Rightarrow> u16 outcome" where
  "stored16 (Some (Int16Data w)) = Returns w"
| "stored16 (Some (Uint16Data w)) = Returns w"
| "stored16 _ = Fails"

fun stored32 :: "GenericDataType option \<Rightarrow> u32 outcome" where
  "stored32 (Some (Int32Data w)) = Returns w"
| "stored32 (Some (Uint32Data w)) = Returns w"
| "stored32 _ = Fails"

fun stored64 :: "GenericDataType option \<Rightarrow> u64 outcome" where
  "stored64 (Some (Int64Data w)) = Returns w"
| "stored64 (Some (Uint64Data w)) = Returns w"
| "stored64 (Some (SliceData w)) = Returns w"
| "stored64 _ = Fails"

fun stored_bool :: "GenericDataType option \<Rightarrow> bool outcome" where
  "stored_bool (Some (BoolData b)) = Returns b"
| "stored_bool _ = Fails"

fun stored_string :: "GenericDataType option \<Rightarrow> string outcome" where
  "stored_string (Some (StringData s)) = Returns s"
| "stored_string _ = Fails"

fun stored_double :: "GenericDataType option \<Rightarrow> rat outcome" where
  "stored_double (Some (DoubleData x)) = Returns x"
| "stored_double _ = Fails"

fun stored_vector :: "GenericDataType option \<Rightarrow> GenericValue list outcome" where
  "stored_vector (Some (VectorData xs)) = Returns xs"
| "stored_vector _ = Fails"

abbreviation mapped :: "('a \<Rightarrow> 'b) \<Rightarrow> 'a outcome \<Rightarrow> 'b outcome" where
  "mapped f r \<equiv> and_then r (\<lambda>x. Returns (f x))"

text \<open>The constructors of one argument, and the two of a type and a number.\<close>

definition bool_value :: "bool \<Rightarrow> GenericValue" where
  "bool_value b = GenericValue BOOL (Some (BoolData b))"

definition char_value :: "u8 \<Rightarrow> GenericValue" where
  "char_value w = GenericValue INT8 (Some (Int8Data w))"

definition uchar_value :: "u8 \<Rightarrow> GenericValue" where
  "uchar_value w = GenericValue UINT8 (Some (Uint8Data w))"

definition short_value :: "u16 \<Rightarrow> GenericValue" where
  "short_value w = GenericValue INT16 (Some (Int16Data w))"

definition ushort_value :: "u16 \<Rightarrow> GenericValue" where
  "ushort_value w = GenericValue UINT16 (Some (Uint16Data w))"

definition int32_value :: "u32 \<Rightarrow> GenericValue" where
  "int32_value w = GenericValue INT32 (Some (Int32Data w))"

definition uint32_value :: "u32 \<Rightarrow> GenericValue" where
  "uint32_value w = GenericValue UINT32 (Some (Uint32Data w))"

definition int64_value :: "u64 \<Rightarrow> GenericValue" where
  "int64_value w = GenericValue INT64 (Some (Int64Data w))"

definition uint64_value :: "u64 \<Rightarrow> GenericValue" where
  "uint64_value w = GenericValue UINT64 (Some (Uint64Data w))"

definition double_value :: "rat \<Rightarrow> GenericValue" where
  "double_value x = GenericValue DOUBLE (Some (DoubleData x))"

definition vector_value :: "GenericValue list \<Rightarrow> GenericValue" where
  "vector_value xs = GenericValue VECTOR (Some (VectorData xs))"

definition SetStringGenericValue :: "string \<Rightarrow> GenericValue outcome" where
  "SetStringGenericValue s =
     (let n = length s
      in if 128 < n then Fails
         else Returns (GenericValue
           (if n \<le> 8 then STRING8 else if n \<le> 16 then STRING16 else if n \<le> 24 then STRING24
            else if n \<le> 32 then STRING32 else if n \<le> 64 then STRING64 else STRING128)
           (Some (StringData s))))"

definition signed_new :: "DataType \<Rightarrow> int \<Rightarrow> GenericValue outcome" where
  "signed_new t x =
     mapped (\<lambda>d. GenericValue t (Some d))
     (case t of
        BOOL \<Rightarrow> if x \<noteq> 1 \<and> x \<noteq> 0 then Fails else Returns (BoolData (x \<noteq> 0))
      | INT2 \<Rightarrow> if 1 < x \<or> x < - 2 then Fails else Returns (Int2Data (word_of_int x))
      | UINT2 \<Rightarrow> if 3 < x \<or> x < 0 then Fails else Returns (Uint2Data (word_of_int x))
      | INT4 \<Rightarrow> if 7 < x \<or> x < - 8 then Fails else Returns (Int4Data (word_of_int x))
      | UINT4 \<Rightarrow> if 15 < x \<or> x < 0 then Fails else Returns (Uint4Data (word_of_int x))
      | INT8 \<Rightarrow> if 2 ^ 7 - 1 < x \<or> x < - (2 ^ 7) then Fails else Returns (Int8Data (word_of_int x))
      | UINT8 \<Rightarrow> if 2 ^ 8 - 1 < x \<or> x < 0 then Fails else Returns (Uint8Data (word_of_int x))
      | INT16 \<Rightarrow> if 2 ^ 15 - 1 < x \<or> x < - (2 ^ 15) then Fails else Returns (Int16Data (word_of_int x))
      | UINT16 \<Rightarrow> if 2 ^ 16 - 1 < x \<or> x < 0 then Fails else Returns (Uint16Data (word_of_int x))
      | INT32 \<Rightarrow> if 2 ^ 63 - 1 < x \<or> x < - (2 ^ 63) then Fails else Returns (Int32Data (word_of_int x))
      | UINT32 \<Rightarrow> if (word_of_int x :: u64) > - 1 \<or> x < 0 then Fails else Returns (Uint32Data (word_of_int x))
      | INT64 \<Rightarrow> if 2 ^ 63 - 1 < x \<or> x < - (2 ^ 63) then Fails else Returns (Int64Data (word_of_int x))
      | UINT64 \<Rightarrow> if (word_of_int x :: u64) > - 1 \<or> x < 0 then Fails else Returns (Uint64Data (word_of_int x))
      | SLICE \<Rightarrow> if (word_of_int x :: u64) > - 1 \<or> x < 0 then Fails else Returns (SliceData (word_of_int x))
      | _ \<Rightarrow> Fails)"

definition unsigned_new :: "DataType \<Rightarrow> u64 \<Rightarrow> GenericValue outcome" where
  "unsigned_new t x =
     mapped (\<lambda>d. GenericValue t (Some d))
     (case t of
        BOOL \<Rightarrow> if 1 < x then Fails else Returns (BoolData (x \<noteq> 0))
      | INT2 \<Rightarrow> if 1 < x then Fails else Returns (Int2Data (ucast x))
      | UINT2 \<Rightarrow> if 3 < x then Fails else Returns (Uint2Data (ucast x))
      | INT4 \<Rightarrow> if 7 < x then Fails else Returns (Int4Data (ucast x))
      | UINT4 \<Rightarrow> if 15 < x then Fails else Returns (Uint4Data (ucast x))
      | INT8 \<Rightarrow> if 2 ^ 7 - 1 < x then Fails else Returns (Int8Data (ucast x))
      | UINT8 \<Rightarrow> if 2 ^ 8 - 1 < x then Fails else Returns (Uint8Data (ucast x))
      | INT16 \<Rightarrow> if 2 ^ 15 - 1 < x then Fails else Returns (Int16Data (ucast x))
      | UINT16 \<Rightarrow> if 2 ^ 16 - 1 < x then Fails else Returns (Uint16Data (ucast x))
      | INT32 \<Rightarrow> if 2 ^ 63 - 1 < x then Fails else Returns (Int32Data (ucast x))
      | UINT32 \<Rightarrow> if - 1 < x then Fails else Returns (Uint32Data (ucast x))
      | INT64 \<Rightarrow> if 2 ^ 63 - 1 < x then Fails else Returns (Int64Data x)
      | UINT64 \<Rightarrow> if - 1 < x then Fails else Returns (Uint64Data x)
      | SLICE \<Rightarrow> if - 1 < x then Fails else Returns (SliceData x)
      | _ \<Rightarrow> Fails)"

subsection \<open>Reading integers\<close>

definition GetSignedIntegerValue :: "GenericValue \<Rightarrow> int outcome" where
  "GetSignedIntegerValue v =
     (case val_type v of
        INT64 \<Rightarrow> mapped sint (stored64 (val_object v))
      | UINT32 \<Rightarrow> mapped uint (stored32 (val_object v))
      | INT32 \<Rightarrow> mapped sint (stored32 (val_object v))
      | UINT16 \<Rightarrow> mapped uint (stored16 (val_object v))
      | INT16 \<Rightarrow> mapped sint (stored16 (val_object v))
      | UINT8 \<Rightarrow> mapped uint (stored8 (val_object v))
      | INT8 \<Rightarrow> mapped sint (stored8 (val_object v))
      | UINT4 \<Rightarrow> mapped uint (stored8 (val_object v))
      | INT4 \<Rightarrow> mapped sint (stored8 (val_object v))
      | UINT2 \<Rightarrow> mapped uint (stored8 (val_object v))
      | INT2 \<Rightarrow> mapped sint (stored8 (val_object v))
      | BOOL \<Rightarrow> mapped of_bool (stored_bool (val_object v))
      | _ \<Rightarrow> Rejected)"

definition GetUnsignedIntegerValue :: "GenericValue \<Rightarrow> int outcome" where
  "GetUnsignedIntegerValue v =
     (if \<not> IsIntegerDataType (val_type v) then Rejected
      else if IsSignedDataType (val_type v) then
        and_then (GetSignedIntegerValue v) (\<lambda>x. if x < 0 then Rejected else Returns x)
      else case val_type v of
        UINT64 \<Rightarrow> mapped uint (stored64 (val_object v))
      | UINT32 \<Rightarrow> mapped uint (stored32 (val_object v))
      | UINT16 \<Rightarrow> mapped uint (stored16 (val_object v))
      | UINT8 \<Rightarrow> mapped uint (stored8 (val_object v))
      | UINT4 \<Rightarrow> mapped uint (stored8 (val_object v))
      | UINT2 \<Rightarrow> mapped uint (stored8 (val_object v))
      | BOOL \<Rightarrow> mapped of_bool (stored_bool (val_object v))
      | _ \<Rightarrow> Rejected)"

text \<open>The template, before the conversion to the type of its argument. It has no case for a slice.\<close>

definition GetIntegerValue :: "GenericValue \<Rightarrow> int outcome" where
  "GetIntegerValue v =
     (case val_type v of
        UINT64 \<Rightarrow> mapped uint (stored64 (val_object v))
      | INT64 \<Rightarrow> mapped sint (stored64 (val_object v))
      | UINT32 \<Rightarrow> mapped uint (stored32 (val_object v))
      | INT32 \<Rightarrow> mapped sint (stored32 (val_object v))
      | UINT16 \<Rightarrow> mapped uint (stored16 (val_object v))
      | INT16 \<Rightarrow> mapped sint (stored16 (val_object v))
      | UINT8 \<Rightarrow> mapped uint (stored8 (val_object v))
      | INT8 \<Rightarrow> mapped sint (stored8 (val_object v))
      | UINT4 \<Rightarrow> mapped uint (stored8 (val_object v))
      | INT4 \<Rightarrow> mapped sint (stored8 (val_object v))
      | UINT2 \<Rightarrow> mapped uint (stored8 (val_object v))
      | INT2 \<Rightarrow> mapped sint (stored8 (val_object v))
      | BOOL \<Rightarrow> mapped of_bool (stored_bool (val_object v))
      | _ \<Rightarrow> Rejected)"

subsection \<open>Sizes of values\<close>

fun GetValueNumBits :: "GenericValue \<Rightarrow> nat outcome" where
  "GetValueNumBits (GenericValue t d) =
     (if t = VECTOR then
        (case d of
           Some (VectorData xs) \<Rightarrow> mapped sum_list (each GetValueNumBits xs)
         | _ \<Rightarrow> Fails)
      else DataType_NumBits t)"

fun GetValueNumBytes :: "GenericValue \<Rightarrow> nat outcome" where
  "GetValueNumBytes (GenericValue t d) =
     (if t = VECTOR then
        (case d of
           Some (VectorData xs) \<Rightarrow> mapped sum_list (each GetValueNumBytes xs)
         | _ \<Rightarrow> Fails)
      else DataType_NumBytes t)"

subsection \<open>Bits and bytes of values\<close>

text \<open>A bit of a string, whose last character holds the lowest bits; the number of characters is the
  bound of the type.\<close>

definition string_bit :: "nat \<Rightarrow> nat \<Rightarrow> string \<Rightarrow> bool outcome" where
  "string_bit n i s =
     (if 8 * n \<le> i then Fails
      else if length s * 8 \<le> i then Returns False
      else Returns (bit (of_char (s ! (length s - 1 - i div 8)) :: u8) (i mod 8)))"

text \<open>A bit of a signed number: the sign, a bit of a positive number, or a bit of the number and
  \<open>2 ^ (n - 1)\<close>, as an unsigned number of \<open>w\<close> bits.\<close>

definition signed_bit :: "nat \<Rightarrow> nat \<Rightarrow> nat \<Rightarrow> int \<Rightarrow> bool outcome" where
  "signed_bit w n i x =
     (if n \<le> i then Fails
      else Returns (if i = n - 1 then x < 0
        else if 0 \<le> x then bit x i
        else bit (take_bit w (2 ^ (n - 1) + x)) i))"

definition unsigned_bit :: "nat \<Rightarrow> nat \<Rightarrow> int \<Rightarrow> bool outcome" where
  "unsigned_bit n i x = (if n \<le> i then Fails else Returns (bit x i))"

text \<open>The search of a vector for the element that has the bit.\<close>

fun vector_bit :: "(nat \<Rightarrow> 'a \<Rightarrow> bool outcome) \<Rightarrow> ('a \<Rightarrow> nat outcome) \<Rightarrow> nat \<Rightarrow> 'a list \<Rightarrow> bool outcome" where
  "vector_bit get bits i [] = Returns False"
| "vector_bit get bits i (x # xs) =
     and_then (bits x) (\<lambda>n. if n \<le> i then vector_bit get bits (i - n) xs else get i x)"

lemma vector_bit_cong [fundef_cong]:
  "xs = ys \<Longrightarrow> i = j \<Longrightarrow> bits = bits' \<Longrightarrow> (\<And>k y. y \<in> set ys \<Longrightarrow> get k y = get' k y)
   \<Longrightarrow> vector_bit get bits i xs = vector_bit get' bits' j ys"
proof (induction ys arbitrary: xs i j)
  case (Cons y ys)
  then show ?case by (cases "bits' y") auto
qed simp

fun GetBit :: "nat \<Rightarrow> GenericValue \<Rightarrow> bool outcome" where
  "GetBit i (GenericValue t d) =
     (case t of
        STRING8 \<Rightarrow> and_then (stored_string d) (string_bit 8 i)
      | STRING16 \<Rightarrow> and_then (stored_string d) (string_bit 16 i)
      | STRING24 \<Rightarrow> and_then (stored_string d) (string_bit 24 i)
      | STRING32 \<Rightarrow> and_then (stored_string d) (string_bit 32 i)
      | STRING64 \<Rightarrow> and_then (stored_string d) (string_bit 64 i)
      | STRING128 \<Rightarrow> and_then (stored_string d) (string_bit 128 i)
      | BOOL \<Rightarrow> if i \<noteq> 0 then Fails else stored_bool d
      | INT2 \<Rightarrow> and_then (stored8 d) (\<lambda>w.
          if 2 \<le> i then Fails
          else Returns (if i = 1 then sint w < 0 else sint w = - 1 \<or> sint w = 1))
      | UINT2 \<Rightarrow> and_then (stored8 d) (\<lambda>w. unsigned_bit 2 i (uint w))
      | INT4 \<Rightarrow> and_then (stored8 d) (\<lambda>w. signed_bit 8 4 i (sint w))
      | UINT4 \<Rightarrow> and_then (stored8 d) (\<lambda>w. unsigned_bit 4 i (uint w))
      | INT8 \<Rightarrow> and_then (stored8 d) (\<lambda>w. signed_bit 8 8 i (sint w))
      | UINT8 \<Rightarrow> and_then (stored8 d) (\<lambda>w. unsigned_bit 8 i (uint w))
      | INT16 \<Rightarrow> and_then (stored16 d) (\<lambda>w. signed_bit 16 16 i (sint w))
      | UINT16 \<Rightarrow> and_then (stored16 d) (\<lambda>w. unsigned_bit 16 i (uint w))
      | INT32 \<Rightarrow> and_then (stored32 d) (\<lambda>w. signed_bit 32 32 i (sint w))
      | UINT32 \<Rightarrow> and_then (stored32 d) (\<lambda>w. unsigned_bit 32 i (uint w))
      | INT64 \<Rightarrow> and_then (stored64 d) (\<lambda>w. signed_bit 64 64 i (sint w))
      | UINT64 \<Rightarrow> and_then (stored64 d) (\<lambda>w. unsigned_bit 64 i (uint w))
      | SLICE \<Rightarrow> and_then (stored64 d) (\<lambda>w. unsigned_bit 64 i (uint w))
      | VECTOR \<Rightarrow> (case d of Some (VectorData xs) \<Rightarrow> vector_bit GetBit GetValueNumBits i xs | _ \<Rightarrow> Fails)
      | _ \<Rightarrow> Fails)"

text \<open>\<open>char_casting_utils.h\<close>: the bytes of a number, the highest first, after those of the buffer; and the
  number some bytes stand for. Both act on bytes, so signed and unsigned numbers are treated alike.\<close>

definition ValueToByteString :: "'a::len word \<Rightarrow> u8 list \<Rightarrow> u8 list" where
  "ValueToByteString w buffer =
     (let n = LENGTH('a) div 8 in buffer @ map (\<lambda>i. ucast (drop_bit ((n - 1 - i) * 8) w)) [0..<n])"

definition ByteStringToValue :: "nat \<Rightarrow> nat \<Rightarrow> u8 list \<Rightarrow> 'a::len word outcome" where
  "ByteStringToValue start stop buffer =
     (let n = LENGTH('a) div 8
      in if length buffer \<le> start then Fails
         else if stop \<le> start \<or> stop \<noteq> start + n then Fails
         else let last = (if stop \<le> length buffer then n else length buffer - start)
              in Returns (\<Sum>i\<leftarrow>[0..<last]. push_bit ((last - 1 - i) * 8) (ucast (buffer ! (i + start)) :: 'a word)))"

definition string_bytes :: "nat \<Rightarrow> string \<Rightarrow> u8 list outcome" where
  "string_bytes n s =
     (if n < length s then Fails else Returns (replicate (n - length s) 0 @ map of_char s))"

text \<open>The bits that are set in the byte of a small signed number.\<close>

definition byte_of_bits :: "nat list \<Rightarrow> u8" where
  "byte_of_bits ns = fold (\<lambda>n b. b OR push_bit n 1) ns 0"

definition int2_byte :: "int \<Rightarrow> u8 list outcome" where
  "int2_byte x =
     mapped (\<lambda>ns. [byte_of_bits ns])
     (if x = - 2 then Returns [1]
      else if x = - 1 then Returns [0, 1]
      else if x = 1 then Returns [0]
      else if x \<noteq> 0 then Fails
      else Returns [])"

definition int4_byte :: "int \<Rightarrow> u8 list outcome" where
  "int4_byte x =
     mapped (\<lambda>ns. [byte_of_bits ns])
     (if x = - 8 then Returns [3]
      else if x = - 7 then Returns [0, 3]
      else if x = - 6 then Returns [1, 3]
      else if x = - 5 then Returns [0, 1, 3]
      else if x = - 4 then Returns [2, 3]
      else if x = - 3 then Returns [0, 2, 3]
      else if x = - 2 then Returns [1, 2, 3]
      else if x = - 1 then Returns [0, 1, 2, 3]
      else if x = 1 then Returns [0]
      else if x = 2 then Returns [1]
      else if x = 3 then Returns [0, 1]
      else if x = 4 then Returns [2]
      else if x = 5 then Returns [0, 2]
      else if x = 6 then Returns [1, 2]
      else if x = 7 then Returns [0, 1, 2]
      else if x \<noteq> 0 then Fails
      else Returns [])"

text \<open>The bytes of a negative number: those of its distance from the least number \<open>low\<close> of the type, with
  the highest bit set. For 32 bits the code takes the distance from the least \<open>long\<close>.\<close>

definition signed_bytes :: "int \<Rightarrow> 'a::len word \<Rightarrow> u8 list" where
  "signed_bytes low w =
     (let negative = sint w < 0;
          trailing = (if negative then word_of_int (sint w - low) else w);
          bytes = ValueToByteString trailing []
      in if negative then bytes[0 := bytes ! 0 OR push_bit 7 1] else bytes)"

fun GetTwosComplementByteString :: "GenericValue \<Rightarrow> u8 list outcome" where
  "GetTwosComplementByteString (GenericValue t d) =
     (case t of
        STRING8 \<Rightarrow> and_then (stored_string d) (string_bytes 8)
      | STRING16 \<Rightarrow> and_then (stored_string d) (string_bytes 16)
      | STRING24 \<Rightarrow> and_then (stored_string d) (string_bytes 24)
      | STRING32 \<Rightarrow> and_then (stored_string d) (string_bytes 32)
      | STRING64 \<Rightarrow> and_then (stored_string d) (string_bytes 64)
      | STRING128 \<Rightarrow> and_then (stored_string d) (string_bytes 128)
      | BOOL \<Rightarrow> mapped (\<lambda>b. [if b then 1 else 0]) (stored_bool d)
      | INT2 \<Rightarrow> and_then (stored8 d) (\<lambda>w. int2_byte (sint w))
      | UINT2 \<Rightarrow> mapped (\<lambda>w. ValueToByteString w []) (stored8 d)
      | INT4 \<Rightarrow> and_then (stored8 d) (\<lambda>w. int4_byte (sint w))
      | UINT4 \<Rightarrow> mapped (\<lambda>w. ValueToByteString w []) (stored8 d)
      | INT8 \<Rightarrow> mapped (signed_bytes (- (2 ^ 7))) (stored8 d)
      | UINT8 \<Rightarrow> mapped (\<lambda>w. ValueToByteString w []) (stored8 d)
      | INT16 \<Rightarrow> mapped (signed_bytes (- (2 ^ 15))) (stored16 d)
      | UINT16 \<Rightarrow> mapped (\<lambda>w. ValueToByteString w []) (stored16 d)
      | INT32 \<Rightarrow> mapped (signed_bytes (- (2 ^ 63))) (stored32 d)
      | UINT32 \<Rightarrow> mapped (\<lambda>w. ValueToByteString w []) (stored32 d)
      | INT64 \<Rightarrow> mapped (signed_bytes (- (2 ^ 63))) (stored64 d)
      | UINT64 \<Rightarrow> mapped (\<lambda>w. ValueToByteString w []) (stored64 d)
      | SLICE \<Rightarrow> mapped (\<lambda>w. ValueToByteString w []) (stored64 d)
      | VECTOR \<Rightarrow> (case d of Some (VectorData xs) \<Rightarrow> mapped concat (each GetTwosComplementByteString xs) | _ \<Rightarrow> Fails)
      | _ \<Rightarrow> Fails)"

subsection \<open>Well-formed integers\<close>

text \<open>An integer value holds an object of the class of its type, in the range of the type; \<open>int_of\<close> is the
  number it stands for.\<close>

definition fits :: "GenericDataType \<Rightarrow> DataType \<Rightarrow> bool" where
  "fits d t \<longleftrightarrow>
     (case d of
        BoolData b \<Rightarrow> t = BOOL
      | Int2Data w \<Rightarrow> t = INT2 \<and> - 2 \<le> sint w \<and> sint w \<le> 1
      | Uint2Data w \<Rightarrow> t = UINT2 \<and> uint w \<le> 3
      | Int4Data w \<Rightarrow> t = INT4 \<and> - 8 \<le> sint w \<and> sint w \<le> 7
      | Uint4Data w \<Rightarrow> t = UINT4 \<and> uint w \<le> 15
      | Int8Data w \<Rightarrow> t = INT8
      | Uint8Data w \<Rightarrow> t = UINT8
      | Int16Data w \<Rightarrow> t = INT16
      | Uint16Data w \<Rightarrow> t = UINT16
      | Int32Data w \<Rightarrow> t = INT32
      | Uint32Data w \<Rightarrow> t = UINT32
      | Int64Data w \<Rightarrow> t = INT64
      | Uint64Data w \<Rightarrow> t = UINT64
      | SliceData w \<Rightarrow> t = SLICE
      | _ \<Rightarrow> False)"

definition wf_int :: "GenericValue \<Rightarrow> bool" where
  "wf_int v \<longleftrightarrow> (\<exists>d. val_object v = Some d \<and> fits d (val_type v))"

fun object_int :: "GenericDataType \<Rightarrow> int" where
  "object_int (BoolData b) = of_bool b"
| "object_int (Int2Data w) = sint w"
| "object_int (Uint2Data w) = uint w"
| "object_int (Int4Data w) = sint w"
| "object_int (Uint4Data w) = uint w"
| "object_int (Int8Data w) = sint w"
| "object_int (Uint8Data w) = uint w"
| "object_int (Int16Data w) = sint w"
| "object_int (Uint16Data w) = uint w"
| "object_int (Int32Data w) = sint w"
| "object_int (Uint32Data w) = uint w"
| "object_int (Int64Data w) = sint w"
| "object_int (Uint64Data w) = uint w"
| "object_int (SliceData w) = uint w"
| "object_int _ = 0"

definition int_of :: "GenericValue \<Rightarrow> int" where
  "int_of v = (case val_object v of None \<Rightarrow> 0 | Some d \<Rightarrow> object_int d)"

definition type_bits :: "DataType \<Rightarrow> nat" where
  "type_bits t = (case DataType_NumBits t of Returns n \<Rightarrow> n | _ \<Rightarrow> 0)"

named_theorems type_tests \<open>the tests on data types, computed\<close>

lemmas [type_tests] = IsStringDataType_def IsIntegerDataType_def IsNumericDataType_def
  IsDataTypeTwosComplement_def IsSignedDataType_def type_bits_def

lemma wf_int_cases [consumes 1]:
  assumes "wf_int v"
  obtains
    (BOOL) b where "v = GenericValue BOOL (Some (BoolData b))"
  | (INT2) w where "v = GenericValue INT2 (Some (Int2Data w))" "- 2 \<le> sint w" "sint w \<le> 1"
  | (UINT2) w where "v = GenericValue UINT2 (Some (Uint2Data w))" "uint w \<le> 3"
  | (INT4) w where "v = GenericValue INT4 (Some (Int4Data w))" "- 8 \<le> sint w" "sint w \<le> 7"
  | (UINT4) w where "v = GenericValue UINT4 (Some (Uint4Data w))" "uint w \<le> 15"
  | (INT8) w where "v = GenericValue INT8 (Some (Int8Data w))"
  | (UINT8) w where "v = GenericValue UINT8 (Some (Uint8Data w))"
  | (INT16) w where "v = GenericValue INT16 (Some (Int16Data w))"
  | (UINT16) w where "v = GenericValue UINT16 (Some (Uint16Data w))"
  | (INT32) w where "v = GenericValue INT32 (Some (Int32Data w))"
  | (UINT32) w where "v = GenericValue UINT32 (Some (Uint32Data w))"
  | (INT64) w where "v = GenericValue INT64 (Some (Int64Data w))"
  | (UINT64) w where "v = GenericValue UINT64 (Some (Uint64Data w))"
  | (SLICE) w where "v = GenericValue SLICE (Some (SliceData w))"
proof -
  obtain t d where v: "v = GenericValue t (Some d)" "fits d t"
    using assms by (cases v) (auto simp: wf_int_def)
  show ?thesis
    using v that by (cases d) (auto simp: fits_def)
qed

text \<open>The range of a type.\<close>

definition int_range :: "bool \<Rightarrow> nat \<Rightarrow> int \<Rightarrow> bool" where
  "int_range is_signed n x \<longleftrightarrow> (if is_signed then - (2 ^ (n - 1)) \<le> x \<and> x < 2 ^ (n - 1) else 0 \<le> x \<and> x < 2 ^ n)"

lemma sint_range: "- (2 ^ (LENGTH('a) - 1)) \<le> sint w" "sint w < 2 ^ (LENGTH('a) - 1)" for w :: "'a::len word"
  using sint_greater_eq [of w] sint_less [of w] by simp_all

lemma uint_range: "0 \<le> uint w" "uint w < 2 ^ LENGTH('a)" for w :: "'a::len word"
  by simp_all

lemma wf_int_range: "wf_int v \<Longrightarrow> int_range (IsSignedDataType (val_type v)) (type_bits (val_type v)) (int_of v)"
  by (erule wf_int_cases)
    (use sint_range [where 'a = 8] sint_range [where 'a = 16] sint_range [where 'a = 32] sint_range [where 'a = 64]
         uint_range [where 'a = 8] uint_range [where 'a = 16] uint_range [where 'a = 32] uint_range [where 'a = 64]
      in \<open>auto simp: int_range_def int_of_def type_tests\<close>)

lemma wf_int_type: "wf_int v \<Longrightarrow> IsIntegerDataType (val_type v)"
  by (erule wf_int_cases) (simp_all add: type_tests)

lemma wf_int_not: "wf_int v \<Longrightarrow> \<not> IsStringDataType (val_type v) \<and> val_type v \<noteq> VECTOR \<and> val_type v \<noteq> DOUBLE"
  by (erule wf_int_cases) (simp_all add: type_tests)

lemma read_integer: "wf_int v \<Longrightarrow> GetIntegerValue v = (if val_type v = SLICE then Rejected else Returns (int_of v))"
  by (erule wf_int_cases) (simp_all add: GetIntegerValue_def int_of_def)

lemma read_signed: "wf_int v \<Longrightarrow>
  GetSignedIntegerValue v = (if val_type v \<in> {UINT64, SLICE} then Rejected else Returns (int_of v))"
  by (erule wf_int_cases) (simp_all add: GetSignedIntegerValue_def int_of_def)

lemma read_unsigned: "wf_int v \<Longrightarrow>
  GetUnsignedIntegerValue v = (if val_type v = SLICE \<or> int_of v < 0 then Rejected else Returns (int_of v))"
  by (erule wf_int_cases) (simp_all add: GetUnsignedIntegerValue_def GetSignedIntegerValue_def int_of_def type_tests)

lemma data_type_named: "StringToDataType (GetDataTypeString t) = t"
  by (cases t) (simp_all add: StringToDataType_def)

subsection \<open>Bits and bytes\<close>

lemma signed_bit_of: "int_range True n x \<Longrightarrow> n \<le> w \<Longrightarrow> i < n \<Longrightarrow> signed_bit w n i x = Returns (bit x i)"
proof -
  assume x: "int_range True n x" and n: "n \<le> w" "i < n"
  have top: "bit x (n - 1) \<longleftrightarrow> x < 0"
  proof (cases "x < 0")
    case True
    have "signed_take_bit (n - 1) x = x"
      using x by (simp add: int_range_def signed_take_bit_int_eq_self_iff)
    then have "bit x (n - 1) \<longleftrightarrow> bit x n"
      by (metis bit_signed_take_bit_iff min_def nle_le not_bit_1_Suc diff_le_self possible_bit_int)
    then show ?thesis
      using True x by (metis \<open>signed_take_bit (n - 1) x = x\<close> signed_take_bit_negative_iff)
  next
    case False
    then have "take_bit (n - 1) x = x"
      using x by (simp add: int_range_def take_bit_int_eq_self_iff)
    then have "\<not> bit x (n - 1)"
      by (metis bit_take_bit_iff less_irrefl)
    then show ?thesis using False by simp
  qed
  have low: "bit (take_bit w (2 ^ (n - 1) + x)) i \<longleftrightarrow> bit x i" if "i < n - 1"
  proof -
    have "take_bit (n - 1) (2 ^ (n - 1) + x) = take_bit (n - 1) x"
      by (simp add: take_bit_eq_mod)
    then have "bit (2 ^ (n - 1) + x) i \<longleftrightarrow> bit x i"
      by (metis bit_take_bit_iff that)
    then show ?thesis using n by (simp add: bit_take_bit_iff)
  qed
  show ?thesis
    using n top low by (auto simp: signed_bit_def)
qed

lemma unsigned_bit_of: "i < n \<Longrightarrow> unsigned_bit n i x = Returns (bit x i)"
  by (simp add: unsigned_bit_def)

lemma int2_bit: "- 2 \<le> x \<Longrightarrow> x \<le> 1 \<Longrightarrow> odd x \<longleftrightarrow> x = - 1 \<or> x = 1" "- 2 \<le> x \<Longrightarrow> x \<le> 1 \<Longrightarrow> bit x (Suc 0) \<longleftrightarrow> x < 0"
  for x :: int
proof -
  assume "- 2 \<le> x" "x \<le> 1"
  then have "x \<in> {- 2, - 1, 0, 1}" by auto
  then show "odd x \<longleftrightarrow> x = - 1 \<or> x = 1" "bit x (Suc 0) \<longleftrightarrow> x < 0"
    by (auto simp: bit_1_iff bit_minus_1_iff bit_minus_2_iff)
qed

lemma GetBit_int: "wf_int v \<Longrightarrow> i < type_bits (val_type v) \<Longrightarrow> GetBit i v = Returns (bit (int_of v) i)"
  by (frule wf_int_range, erule wf_int_cases)
    (auto simp: int_of_def type_tests unsigned_bit_of signed_bit_of int2_bit less_2_cases_iff bit_0 split: if_splits)

text \<open>The bit \<open>i\<close> of some bytes, the highest byte first.\<close>

definition byte_bit :: "u8 list \<Rightarrow> nat \<Rightarrow> bool" where
  "byte_bit bs i \<longleftrightarrow> bit (bs ! (length bs - 1 - i div 8)) (i mod 8)"

lemma byte_bit_one [simp]: "i < 8 \<Longrightarrow> byte_bit [b] i = bit b i"
  by (simp add: byte_bit_def)

lemma length_ValueToByteString [simp]: "length (ValueToByteString w []) = LENGTH('a) div 8" for w :: "'a::len word"
  by (simp add: ValueToByteString_def Let_def)

lemma byte_bit_value: "8 dvd LENGTH('a) \<Longrightarrow> i < LENGTH('a) \<Longrightarrow> byte_bit (ValueToByteString w []) i = bit w i"
  for w :: "'a::len word"
proof -
  assume d: "8 dvd LENGTH('a)" and i: "i < LENGTH('a)"
  define n where "n = LENGTH('a) div 8"
  have "i div 8 < n"
    using d i by (auto simp: n_def elim!: dvdE)
  then have "byte_bit (ValueToByteString w []) i = bit (drop_bit (i div 8 * 8) w) (i mod 8)"
    by (simp add: byte_bit_def ValueToByteString_def Let_def flip: n_def) (simp add: bit_ucast_iff)
  then show ?thesis
    by (simp add: bit_drop_bit_eq mult.commute)
qed

lemma bytes_eqI:
  assumes "length bs = length cs" and "\<And>i. i < 8 * length bs \<Longrightarrow> byte_bit bs i = byte_bit cs i"
  shows "bs = cs"
proof (rule nth_equalityI)
  fix j assume j: "j < length bs"
  show "bs ! j = cs ! j"
  proof (rule bit_word_eqI)
    fix m assume m: "m < LENGTH(8)"
    define i where "i = 8 * (length bs - 1 - j) + m"
    have i: "i < 8 * length bs" "i div 8 = length bs - 1 - j" "i mod 8 = m"
      using j m by (auto simp: i_def)
    have "length bs - 1 - (length bs - 1 - j) = j"
      using j by simp
    then show "bit (bs ! j) m = bit (cs ! j) m"
      using assms(2) [OF i(1)] assms(1) by (simp add: byte_bit_def i)
  qed
qed (rule assms(1))

lemma byte_bit_top:
  assumes "bs \<noteq> []" "i < 8 * length bs"
  shows "byte_bit (bs[0 := bs ! 0 OR 128]) i \<longleftrightarrow> byte_bit bs i \<or> i = 8 * length bs - 1"
proof -
  have "length bs - 1 - i div 8 = 0 \<longleftrightarrow> i div 8 = length bs - 1"
    using assms by auto
  moreover have "i div 8 = length bs - 1 \<and> i mod 8 = 7 \<longleftrightarrow> i = 8 * length bs - 1"
    using assms by (cases bs) (auto simp: algebra_simps div_mult_mod_eq, presburger+)
  moreover have "(128 :: u8) = push_bit 7 1" by simp
  then have "bit (128 :: u8) (i mod 8) \<longleftrightarrow> i mod 8 = 7"
    by (simp only: bit_push_bit_iff) (auto simp: bit_1_iff)
  ultimately show ?thesis
    using assms by (auto simp: byte_bit_def nth_list_update bit_or_iff)
qed

lemma bit_sint: "i < LENGTH('a) \<Longrightarrow> bit (sint w) i = bit w i" for w :: "'a::len word"
  by (auto simp: bit_sint_iff min_def)

lemma sint_negative: "sint w < 0 \<longleftrightarrow> bit w (LENGTH('a) - 1)" for w :: "'a::len word"
  by (simp add: bit_last_iff)

lemma signed_bytes_eq:
  fixes w :: "'a::len word"
  assumes "8 dvd LENGTH('a)" and low: "low = - (2 ^ (LENGTH('a) - 1)) \<or> 2 ^ LENGTH('a) dvd low"
  shows "signed_bytes low w = ValueToByteString w []"
proof (rule bytes_eqI)
  define t where "t = (word_of_int (sint w - low) :: 'a word)"
  have "2 ^ (LENGTH('a) - 1) dvd low"
    using low by (metis diff_le_self dvd_minus_iff dvd_refl dvd_trans le_imp_power_dvd)
  then have "(sint w - low) mod 2 ^ (LENGTH('a) - 1) = sint w mod 2 ^ (LENGTH('a) - 1)"
    by (simp add: mod_eq_dvd_iff)
  then have "take_bit (LENGTH('a) - 1) (sint w - low) = take_bit (LENGTH('a) - 1) (sint w)"
    by (simp add: take_bit_eq_mod)
  then have t: "bit t i = bit w i" if "i < LENGTH('a) - 1" for i
    using that by (metis bit_take_bit_iff bit_word_of_int_iff bit_sint t_def less_imp_diff_less len_gt_0 diff_less less_trans zero_less_one)
  show len: "length (signed_bytes low w) = length (ValueToByteString w [])"
    by (simp add: signed_bytes_def Let_def)
  fix i assume "i < 8 * length (signed_bytes low w)"
  then have i: "i < LENGTH('a)" "8 * (LENGTH('a) div 8) = LENGTH('a)"
    using assms(1) by (simp_all add: len)
  then have ne: "ValueToByteString t [] \<noteq> []"
    by (metis length_ValueToByteString list.size(3) mult_0_right not_less_zero)
  show "byte_bit (signed_bytes low w) i = byte_bit (ValueToByteString w []) i"
  proof (cases "sint w < 0")
    case True
    then have "signed_bytes low w = (ValueToByteString t [])[0 := ValueToByteString t [] ! 0 OR 128]"
      by (simp add: signed_bytes_def Let_def t_def)
    then have "byte_bit (signed_bytes low w) i \<longleftrightarrow> bit t i \<or> i = LENGTH('a) - 1"
      using i by (simp add: byte_bit_top [OF ne] byte_bit_value [OF assms(1)])
    also have "\<dots> \<longleftrightarrow> bit w i"
      using t i True by (cases "i = LENGTH('a) - 1") (auto simp: sint_negative)
    finally show ?thesis
      using i by (simp add: byte_bit_value [OF assms(1)])
  qed (simp add: signed_bytes_def Let_def)
qed

lemma int2_byte_bits: "- 2 \<le> x \<Longrightarrow> x \<le> 1 \<Longrightarrow> int2_byte x = Returns [word_of_int (take_bit 2 x)]"
proof -
  assume "- 2 \<le> x" "x \<le> 1"
  then have "x \<in> {- 2, - 1, 0, 1}" by auto
  then show ?thesis by (auto simp: int2_byte_def byte_of_bits_def mask_eq_exp_minus_1)
qed

lemma int4_byte_bits: "- 8 \<le> x \<Longrightarrow> x \<le> 7 \<Longrightarrow> int4_byte x = Returns [word_of_int (take_bit 4 x)]"
proof -
  assume "- 8 \<le> x" "x \<le> 7"
  then have "x \<in> {- 8, - 7, - 6, - 5, - 4, - 3, - 2, - 1, 0, 1, 2, 3, 4, 5, 6, 7}" by (simp, presburger)
  then show ?thesis by (auto simp: int4_byte_def byte_of_bits_def mask_eq_exp_minus_1)
qed

text \<open>What the bytes of an integer are: its bits in two's complement, then zeros.\<close>

definition bytes_hold :: "nat \<Rightarrow> int \<Rightarrow> u8 list \<Rightarrow> bool" where
  "bytes_hold n x bs \<longleftrightarrow> (\<forall>i < 8 * length bs. byte_bit bs i \<longleftrightarrow> i < n \<and> bit x i)"

lemma hold_byte: "n \<le> 8 \<Longrightarrow> bytes_hold n x [word_of_int (take_bit n x)]"
  by (auto simp: bytes_hold_def bit_word_of_int_iff bit_take_bit_iff)

lemma hold_value:
  fixes w :: "'a::len word"
  assumes "8 dvd LENGTH('a)"
  shows "bytes_hold LENGTH('a) (uint w) (ValueToByteString w [])" "bytes_hold LENGTH('a) (sint w) (ValueToByteString w [])"
  using assms by (auto simp: bytes_hold_def byte_bit_value bit_uint_iff bit_sint)

lemma hold_low: "bytes_hold m x bs \<Longrightarrow> take_bit n x = x \<Longrightarrow> n \<le> m \<Longrightarrow> bytes_hold n x bs"
  unfolding bytes_hold_def by (metis bit_take_bit_iff order_less_le_trans)

lemma bytes_of_int:
  assumes "wf_int v"
  obtains bs where "GetTwosComplementByteString v = Returns bs" "DataType_NumBytes (val_type v) = Returns (length bs)"
    "bytes_hold (type_bits (val_type v)) (int_of v) bs"
  using assms
proof (cases rule: wf_int_cases)
  case (BOOL b)
  have "bytes_hold 1 (of_bool b) [if b then 1 else 0]"
    using hold_byte [of 1 "of_bool b"] by (cases b) simp_all
  then show ?thesis using BOOL that by (simp add: int_of_def type_bits_def)
next
  case (UINT2 w)
  have "take_bit 2 (uint w) = uint w"
    using UINT2 by (simp add: take_bit_int_eq_self_iff)
  then have "bytes_hold 2 (uint w) (ValueToByteString w [])"
    using hold_low [where n = 2, OF hold_value(1) [of w]] by simp
  then show ?thesis using UINT2 that by (simp add: int_of_def type_bits_def)
next
  case (UINT4 w)
  have "take_bit 4 (uint w) = uint w"
    using UINT4 by (simp add: take_bit_int_eq_self_iff)
  then have "bytes_hold 4 (uint w) (ValueToByteString w [])"
    using hold_low [where n = 4, OF hold_value(1) [of w]] by simp
  then show ?thesis using UINT4 that by (simp add: int_of_def type_bits_def)
qed (use that hold_byte hold_value [where 'a = 8] hold_value [where 'a = 16] hold_value [where 'a = 32]
       hold_value [where 'a = 64] in
     \<open>simp_all add: int_of_def type_bits_def int2_byte_bits int4_byte_bits signed_bytes_eq\<close>)

definition wf_string :: "GenericValue \<Rightarrow> bool" where
  "wf_string v \<longleftrightarrow>
     IsStringDataType (val_type v) \<and>
     (\<exists>s. val_object v = Some (StringData s) \<and> 8 * length s \<le> type_bits (val_type v))"

lemma string_bit_byte:
  assumes "length s \<le> n" "i < 8 * n"
  shows "string_bit n i s = Returns (byte_bit (replicate (n - length s) 0 @ map of_char s) i)"
proof (cases "length s * 8 \<le> i")
  case True
  then have "n - 1 - i div 8 < n - length s"
    using assms by (simp add: less_diff_conv)
  then show ?thesis
    using True assms by (simp add: string_bit_def byte_bit_def nth_append)
next
  case False
  then have "n - 1 - i div 8 - (n - length s) = length s - 1 - i div 8" "\<not> n - 1 - i div 8 < n - length s"
    "length s - 1 - i div 8 < length s"
    using assms by linarith+
  then show ?thesis
    using False assms by (simp add: string_bit_def byte_bit_def nth_append)
qed

lemma string_bytes_bits:
  assumes "wf_string v" "i < type_bits (val_type v)"
  obtains bs where "GetTwosComplementByteString v = Returns bs" "DataType_NumBytes (val_type v) = Returns (length bs)"
    "GetBit i v = Returns (byte_bit bs i)"
proof -
  obtain t s where v: "v = GenericValue t (Some (StringData s))" "IsStringDataType t" "8 * length s \<le> type_bits t" "i < type_bits t"
    using assms by (cases v) (auto simp: wf_string_def)
  let ?n = "type_bits t div 8"
  have n: "length s \<le> ?n" "i < 8 * ?n"
    using v by (auto simp: type_tests)
  show ?thesis
    using v that [of "replicate (?n - length s) 0 @ map of_char s"] string_bit_byte [OF n] n
    by (auto simp: type_tests string_bytes_def)
qed

text \<open>The bits of a value, by \<open>GetBit\<close>, are the bits of its bytes, by \<open>GetTwosComplementByteString\<close>: for an
  integer of any type in its range and for a string, the bytes are as many as the type says and bit \<open>i\<close> of
  the value is bit \<open>i mod 8\<close> of the byte \<open>i div 8\<close> from the last.\<close>

theorem bits_are_bytes:
  assumes "wf_int v \<or> wf_string v" and "i < type_bits (val_type v)"
  shows "\<exists>bs. GetTwosComplementByteString v = Returns bs \<and> DataType_NumBytes (val_type v) = Returns (length bs)
    \<and> GetBit i v = Returns (byte_bit bs i)"
  using assms(1)
proof
  assume v: "wf_int v"
  then obtain bs where bs: "GetTwosComplementByteString v = Returns bs"
    "DataType_NumBytes (val_type v) = Returns (length bs)" "bytes_hold (type_bits (val_type v)) (int_of v) bs"
    by (rule bytes_of_int)
  have "type_bits (val_type v) \<le> 8 * length bs"
    using v bs(2) by (cases rule: wf_int_cases) (simp_all add: type_bits_def)
  then show ?thesis
    using bs assms(2) GetBit_int [OF v assms(2)] by (auto simp: bytes_hold_def)
next
  assume "wf_string v"
  then show ?thesis
    using assms(2) by (metis string_bytes_bits)
qed

theorem bits_are_bytes_witness:
  "GetBit 9 (GenericValue INT16 (Some (Int16Data (- 2)))) = Returns True
   \<and> (\<exists>bs. GetTwosComplementByteString (GenericValue INT16 (Some (Int16Data (- 2)))) = Returns bs \<and> byte_bit bs 9)"
  using bits_are_bytes [of "GenericValue INT16 (Some (Int16Data (- 2)))" 9]
  by (auto simp: wf_int_def fits_def type_bits_def signed_bit_def)

end
