(* ===== verification/Operators.thy ===== *)
theory Operators
  imports Generic_Values
begin

text \<open>
  \<open>Util/data_structures.h\<close> and \<open>Util/data_structures.cpp\<close>: the operations on values, in five enumerations
  whose members are told apart by a prefix, a holder of an operation of any of them, the numbers of their
  arguments and their names.
\<close>

subsection \<open>The operations\<close>

datatype MathOperation =
    Math_IDENTITY | Math_ABS | Math_EXP | Math_FACTORIAL | Math_LOG | Math_SQRT | Math_SIN | Math_COS
  | Math_TAN | Math_INDICATOR | Math_GAMMA_FN | Math_PHI_FN | Math_ADD | Math_SUB | Math_MULT | Math_DIV
  | Math_POW | Math_MODULUS | Math_EQ | Math_NEQ | Math_FLOAT_EQ | Math_GT | Math_GTE | Math_LT | Math_LTE
  | Math_INC_GAMMA_FN | Math_REG_INC_GAMMA_FN

datatype BooleanOperation =
    Bool_UNKNOWN | Bool_IDENTITY | Bool_NOT | Bool_AND | Bool_NAND | Bool_OR | Bool_NOR | Bool_XOR | Bool_EQ
  | Bool_GT | Bool_GTE | Bool_LT | Bool_LTE

datatype ComparisonOperation =
    COMP_UNKNOWN | COMP_EQ | COMP_NEQ | COMP_GT | COMP_GTE | COMP_LT | COMP_LTE

datatype ArithmeticOperation =
    Arith_UNKNOWN | Arith_IDENTITY | Arith_ABS | Arith_FLIP_SIGN | Arith_FACTORIAL | Arith_SQRT | Arith_ADD
  | Arith_SUB | Arith_MULT | Arith_DIV | Arith_POW | Arith_VEC | Arith_INNER_PRODUCT | Arith_MIN | Arith_MAX
  | Arith_ARGMIN | Arith_ARGMAX | Arith_ARGMIN_INTERNAL | Arith_ARGMAX_INTERNAL

datatype CircuitOperation =
    Gate_UNKNOWN | Gate_IDENTITY | Gate_NOT | Gate_AND | Gate_NAND | Gate_OR | Gate_NOR | Gate_XOR | Gate_EQ
  | Gate_GT | Gate_GTE | Gate_LT | Gate_LTE | Gate_SELF | Gate_ABS | Gate_FLIP_SIGN | Gate_FACTORIAL
  | Gate_SQRT | Gate_ADD | Gate_SUB | Gate_MULT | Gate_DIV | Gate_POW | Gate_MIN | Gate_MAX | Gate_ARGMIN
  | Gate_ARGMAX | Gate_ARGMIN_INTERNAL | Gate_ARGMAX_INTERNAL | Gate_INNER_PRODUCT

text \<open>The holder of an operation of one kind. Neither its copy constructor nor its move constructor copies a
  gate.\<close>

datatype OperationType = OP_UNKNOWN | OP_MATH | OP_BOOLEAN | OP_COMPARISON | OP_ARITHMETIC | OP_CIRCUIT_GATE

record OperationHolder =
  op_type :: OperationType
  math_op :: MathOperation
  gate_op :: BooleanOperation
  comparison_op :: ComparisonOperation
  arithmetic_op :: ArithmeticOperation
  circuit_op :: CircuitOperation

definition OperationHolder_copy :: "CircuitOperation \<Rightarrow> OperationHolder \<Rightarrow> OperationHolder" where
  "OperationHolder_copy garbage other = other\<lparr>circuit_op := garbage\<rparr>"

definition IsValid :: "OperationHolder \<Rightarrow> bool" where
  "IsValid op \<longleftrightarrow> op_type op \<noteq> OP_UNKNOWN"

subsection \<open>Numbers of arguments\<close>

definition Math_IsSingleInputOperation :: "MathOperation \<Rightarrow> bool" where
  "Math_IsSingleInputOperation op \<longleftrightarrow>
     op \<in> {Math_ABS, Math_EXP, Math_FACTORIAL, Math_LOG, Math_SQRT, Math_SIN, Math_COS, Math_TAN,
               Math_INDICATOR, Math_GAMMA_FN, Math_PHI_FN}"

definition Math_IsDoubleInputOperation :: "MathOperation \<Rightarrow> bool" where
  "Math_IsDoubleInputOperation op \<longleftrightarrow>
     op \<in> {Math_ADD, Math_SUB, Math_MULT, Math_DIV, Math_POW, Math_EQ, Math_MODULUS, Math_FLOAT_EQ,
               Math_GT, Math_GTE, Math_LT, Math_LTE, Math_INC_GAMMA_FN, Math_REG_INC_GAMMA_FN}"

definition Bool_IsSingleInputOperation :: "BooleanOperation \<Rightarrow> bool" where
  "Bool_IsSingleInputOperation op \<longleftrightarrow>
     op \<in> {Bool_IDENTITY, Bool_NOT}"

definition Bool_IsDoubleInputOperation :: "BooleanOperation \<Rightarrow> bool" where
  "Bool_IsDoubleInputOperation op \<longleftrightarrow>
     op \<in> {Bool_AND, Bool_NAND, Bool_OR, Bool_NOR, Bool_XOR, Bool_EQ, Bool_GT, Bool_GTE, Bool_LT, Bool_LTE}"

definition Arith_IsSingleInputOperation :: "ArithmeticOperation \<Rightarrow> bool" where
  "Arith_IsSingleInputOperation op \<longleftrightarrow>
     op \<in> {Arith_ABS, Arith_FLIP_SIGN, Arith_FACTORIAL, Arith_SQRT}"

definition Arith_IsDoubleInputOperation :: "ArithmeticOperation \<Rightarrow> bool" where
  "Arith_IsDoubleInputOperation op \<longleftrightarrow>
     op \<in> {Arith_ADD, Arith_SUB, Arith_MULT, Arith_DIV, Arith_POW, Arith_VEC, Arith_MIN, Arith_MAX,
               Arith_ARGMIN, Arith_ARGMAX, Arith_ARGMAX_INTERNAL, Arith_ARGMIN_INTERNAL, Arith_INNER_PRODUCT}"

definition Gate_IsSingleInputOperation :: "CircuitOperation \<Rightarrow> bool" where
  "Gate_IsSingleInputOperation op \<longleftrightarrow>
     op \<in> {Gate_IDENTITY, Gate_SELF, Gate_NOT, Gate_ABS, Gate_FLIP_SIGN, Gate_FACTORIAL, Gate_SQRT}"

definition Gate_IsDoubleInputOperation :: "CircuitOperation \<Rightarrow> bool" where
  "Gate_IsDoubleInputOperation op \<longleftrightarrow>
     op \<in> {Gate_AND, Gate_NAND, Gate_OR, Gate_NOR, Gate_XOR, Gate_EQ, Gate_GT, Gate_GTE, Gate_LT, Gate_LTE,
               Gate_ADD, Gate_SUB, Gate_MULT, Gate_DIV, Gate_POW, Gate_MIN, Gate_MAX, Gate_ARGMIN, Gate_ARGMAX,
               Gate_ARGMAX_INTERNAL, Gate_ARGMIN_INTERNAL, Gate_INNER_PRODUCT}"

definition Gate_IsBooleanOperation :: "CircuitOperation \<Rightarrow> bool" where
  "Gate_IsBooleanOperation op \<longleftrightarrow>
     op \<in> {Gate_IDENTITY, Gate_NOT, Gate_AND, Gate_NAND, Gate_OR, Gate_NOR, Gate_XOR, Gate_EQ, Gate_GT,
               Gate_GTE, Gate_LT, Gate_LTE}"

definition IsSingleInputOperation :: "OperationHolder \<Rightarrow> bool" where
  "IsSingleInputOperation op \<longleftrightarrow>
     (case op_type op of
        OP_MATH \<Rightarrow> Math_IsSingleInputOperation (math_op op)
      | OP_BOOLEAN \<Rightarrow> Bool_IsSingleInputOperation (gate_op op)
      | OP_ARITHMETIC \<Rightarrow> Arith_IsSingleInputOperation (arithmetic_op op)
      | OP_CIRCUIT_GATE \<Rightarrow> Gate_IsSingleInputOperation (circuit_op op)
      | _ \<Rightarrow> False)"

definition IsDoubleInputOperation :: "OperationHolder \<Rightarrow> bool" where
  "IsDoubleInputOperation op \<longleftrightarrow>
     (case op_type op of
        OP_MATH \<Rightarrow> Math_IsDoubleInputOperation (math_op op)
      | OP_BOOLEAN \<Rightarrow> Bool_IsDoubleInputOperation (gate_op op)
      | OP_ARITHMETIC \<Rightarrow> Arith_IsDoubleInputOperation (arithmetic_op op)
      | OP_CIRCUIT_GATE \<Rightarrow> Gate_IsDoubleInputOperation (circuit_op op)
      | _ \<Rightarrow> True)"

subsection \<open>Names\<close>

fun GetBooleanOperationString :: "BooleanOperation \<Rightarrow> string" where
  "GetBooleanOperationString Bool_IDENTITY = ''IDENTITY''"
| "GetBooleanOperationString Bool_NOT = ''NOT''"
| "GetBooleanOperationString Bool_OR = ''OR''"
| "GetBooleanOperationString Bool_NOR = ''NOR''"
| "GetBooleanOperationString Bool_XOR = ''XOR''"
| "GetBooleanOperationString Bool_AND = ''AND''"
| "GetBooleanOperationString Bool_NAND = ''NAND''"
| "GetBooleanOperationString Bool_EQ = ''EQ''"
| "GetBooleanOperationString Bool_GT = ''GT''"
| "GetBooleanOperationString Bool_GTE = ''GTE''"
| "GetBooleanOperationString Bool_LT = ''LT''"
| "GetBooleanOperationString Bool_LTE = ''LTE''"
| "GetBooleanOperationString _ = ''UNKNOWN''"

definition GetBooleanOperation :: "string \<Rightarrow> BooleanOperation" where
  "GetBooleanOperation input =
     (if input = ''UNKNOWN'' then Bool_UNKNOWN
      else if input = ''IDENTITY'' then Bool_IDENTITY
      else if input = ''NOT'' then Bool_NOT
      else if input = ''OR'' then Bool_OR
      else if input = ''NOR'' then Bool_NOR
      else if input = ''XOR'' then Bool_XOR
      else if input = ''AND'' then Bool_AND
      else if input = ''NAND'' then Bool_NAND
      else if input = ''EQ'' then Bool_EQ
      else if input = ''GT'' then Bool_GT
      else if input = ''GTE'' then Bool_GTE
      else if input = ''LT'' then Bool_LT
      else if input = ''LTE'' then Bool_LTE
      else Bool_UNKNOWN)"

fun Math_OpString :: "MathOperation \<Rightarrow> string" where
  "Math_OpString Math_ADD = '' + ''"
| "Math_OpString Math_SUB = '' - ''"
| "Math_OpString Math_MULT = '' * ''"
| "Math_OpString Math_DIV = '' / ''"
| "Math_OpString Math_POW = ''^''"
| "Math_OpString Math_MODULUS = ''%''"
| "Math_OpString Math_EQ = '' == ''"
| "Math_OpString Math_NEQ = '' != ''"
| "Math_OpString Math_FLOAT_EQ = '' ~= ''"
| "Math_OpString Math_GT = '' > ''"
| "Math_OpString Math_GTE = '' >= ''"
| "Math_OpString Math_LT = '' < ''"
| "Math_OpString Math_LTE = '' <= ''"
| "Math_OpString Math_INC_GAMMA_FN = ''IncGamma''"
| "Math_OpString Math_REG_INC_GAMMA_FN = ''RegIncGamma''"
| "Math_OpString _ = []"

fun Bool_OpString :: "BooleanOperation \<Rightarrow> string outcome" where
  "Bool_OpString Bool_IDENTITY = Returns '' IDENTITY ''"
| "Bool_OpString Bool_OR = Returns '' OR ''"
| "Bool_OpString Bool_NOR = Returns '' NOR ''"
| "Bool_OpString Bool_XOR = Returns '' XOR ''"
| "Bool_OpString Bool_AND = Returns '' AND ''"
| "Bool_OpString Bool_NAND = Returns '' NAND ''"
| "Bool_OpString Bool_EQ = Returns '' EQ ''"
| "Bool_OpString Bool_GT = Returns '' GT ''"
| "Bool_OpString Bool_GTE = Returns '' GTE ''"
| "Bool_OpString Bool_LT = Returns '' LT ''"
| "Bool_OpString Bool_LTE = Returns '' LTE ''"
| "Bool_OpString Bool_NOT = Returns '' NOT ''"
| "Bool_OpString _ = Fails"

fun Comp_OpString :: "ComparisonOperation \<Rightarrow> string outcome" where
  "Comp_OpString COMP_EQ = Returns '' == ''"
| "Comp_OpString COMP_NEQ = Returns '' != ''"
| "Comp_OpString COMP_GT = Returns '' > ''"
| "Comp_OpString COMP_GTE = Returns '' >= ''"
| "Comp_OpString COMP_LT = Returns '' < ''"
| "Comp_OpString COMP_LTE = Returns '' <= ''"
| "Comp_OpString _ = Fails"

fun Arith_OpString :: "ArithmeticOperation \<Rightarrow> string outcome" where
  "Arith_OpString Arith_ADD = Returns '' + ''"
| "Arith_OpString Arith_SUB = Returns '' - ''"
| "Arith_OpString Arith_MULT = Returns '' * ''"
| "Arith_OpString Arith_DIV = Returns '' / ''"
| "Arith_OpString Arith_POW = Returns ''^''"
| "Arith_OpString Arith_ABS = Returns ''abs''"
| "Arith_OpString Arith_FLIP_SIGN = Returns ''-''"
| "Arith_OpString Arith_FACTORIAL = Returns ''!''"
| "Arith_OpString Arith_SQRT = Returns ''sqrt''"
| "Arith_OpString Arith_MIN = Returns ''min''"
| "Arith_OpString Arith_MAX = Returns ''max''"
| "Arith_OpString Arith_ARGMIN = Returns ''argmin''"
| "Arith_OpString Arith_ARGMAX = Returns ''argmax''"
| "Arith_OpString Arith_ARGMIN_INTERNAL = Returns ''argmin_internal''"
| "Arith_OpString Arith_ARGMAX_INTERNAL = Returns ''argmax_internal''"
| "Arith_OpString Arith_VEC = Returns ''vec''"
| "Arith_OpString Arith_INNER_PRODUCT = Returns ''inner_product''"
| "Arith_OpString _ = Fails"

fun Gate_OpString :: "CircuitOperation \<Rightarrow> string" where
  "Gate_OpString Gate_UNKNOWN = ''UNKNOWN''"
| "Gate_OpString Gate_IDENTITY = ''ID''"
| "Gate_OpString Gate_NOT = ''NOT''"
| "Gate_OpString Gate_AND = ''AND''"
| "Gate_OpString Gate_NAND = ''NAND''"
| "Gate_OpString Gate_OR = ''OR''"
| "Gate_OpString Gate_NOR = ''NOR''"
| "Gate_OpString Gate_XOR = ''XOR''"
| "Gate_OpString Gate_EQ = ''EQ''"
| "Gate_OpString Gate_GT = ''GT''"
| "Gate_OpString Gate_GTE = ''GTE''"
| "Gate_OpString Gate_LT = ''LT''"
| "Gate_OpString Gate_LTE = ''LTE''"
| "Gate_OpString Gate_SELF = ''ID''"
| "Gate_OpString Gate_ABS = ''Abs''"
| "Gate_OpString Gate_FLIP_SIGN = ''FLIP_SIGN''"
| "Gate_OpString Gate_FACTORIAL = ''FACTORIAL''"
| "Gate_OpString Gate_SQRT = ''SQRT''"
| "Gate_OpString Gate_ADD = ''ADD''"
| "Gate_OpString Gate_SUB = ''SUB''"
| "Gate_OpString Gate_MULT = ''MULT''"
| "Gate_OpString Gate_DIV = ''DIV''"
| "Gate_OpString Gate_POW = ''POW''"
| "Gate_OpString Gate_ARGMIN = ''ARGMIN''"
| "Gate_OpString Gate_ARGMAX = ''ARGMAX''"
| "Gate_OpString Gate_MIN = ''MIN''"
| "Gate_OpString Gate_MAX = ''MAX''"
| "Gate_OpString Gate_INNER_PRODUCT = ''INNER_PRODUCT''"
| "Gate_OpString Gate_ARGMIN_INTERNAL = ''27''"
| "Gate_OpString Gate_ARGMAX_INTERNAL = ''28''"

definition Holder_OpString :: "OperationHolder \<Rightarrow> string outcome" where
  "Holder_OpString op =
     (case op_type op of
        OP_MATH \<Rightarrow> Returns (Math_OpString (math_op op))
      | OP_BOOLEAN \<Rightarrow> Bool_OpString (gate_op op)
      | OP_ARITHMETIC \<Rightarrow> Arith_OpString (arithmetic_op op)
      | OP_COMPARISON \<Rightarrow> Comp_OpString (comparison_op op)
      | _ \<Rightarrow> Returns [])"

fun Math_ApplyString :: "MathOperation \<Rightarrow> string \<Rightarrow> string" where
  "Math_ApplyString Math_FACTORIAL a = ''('' @ a @ '')!''"
| "Math_ApplyString Math_ABS a = ''|'' @ a @ ''|''"
| "Math_ApplyString Math_EXP a = ''exp('' @ a @ '')''"
| "Math_ApplyString Math_LOG a = ''log('' @ a @ '')''"
| "Math_ApplyString Math_SQRT a = ''sqrt('' @ a @ '')''"
| "Math_ApplyString Math_SIN a = ''sin('' @ a @ '')''"
| "Math_ApplyString Math_COS a = ''cos('' @ a @ '')''"
| "Math_ApplyString Math_TAN a = ''tan('' @ a @ '')''"
| "Math_ApplyString Math_INDICATOR a = ''I_('' @ a @ '')''"
| "Math_ApplyString Math_PHI_FN a = ''Phi('' @ a @ '')''"
| "Math_ApplyString Math_GAMMA_FN a = ''Gamma('' @ a @ '')''"
| "Math_ApplyString _ a = []"

fun Bool_ApplyString :: "BooleanOperation \<Rightarrow> string \<Rightarrow> string outcome" where
  "Bool_ApplyString Bool_IDENTITY a = Returns a"
| "Bool_ApplyString Bool_NOT a = Returns (''!('' @ a @ '')'')"
| "Bool_ApplyString _ a = Fails"

fun Arith_ApplyString :: "ArithmeticOperation \<Rightarrow> string \<Rightarrow> string outcome" where
  "Arith_ApplyString Arith_ABS a = Returns (''|'' @ a @ ''|'')"
| "Arith_ApplyString Arith_FLIP_SIGN a = Returns (''-('' @ a @ '')'')"
| "Arith_ApplyString Arith_FACTORIAL a = Returns (''('' @ a @ '')!'')"
| "Arith_ApplyString Arith_SQRT a = Returns (''sqrt('' @ a @ '')'')"
| "Arith_ApplyString _ a = Fails"

text \<open>A gate of the enumeration of boolean operations, as one of the merged enumeration.\<close>

fun BoolOpToCircuitOp :: "BooleanOperation \<Rightarrow> CircuitOperation" where
  "BoolOpToCircuitOp Bool_IDENTITY = Gate_IDENTITY"
| "BoolOpToCircuitOp Bool_NOT = Gate_NOT"
| "BoolOpToCircuitOp Bool_AND = Gate_AND"
| "BoolOpToCircuitOp Bool_NAND = Gate_NAND"
| "BoolOpToCircuitOp Bool_OR = Gate_OR"
| "BoolOpToCircuitOp Bool_NOR = Gate_NOR"
| "BoolOpToCircuitOp Bool_XOR = Gate_XOR"
| "BoolOpToCircuitOp Bool_EQ = Gate_EQ"
| "BoolOpToCircuitOp Bool_GT = Gate_GT"
| "BoolOpToCircuitOp Bool_GTE = Gate_GTE"
| "BoolOpToCircuitOp Bool_LT = Gate_LT"
| "BoolOpToCircuitOp Bool_LTE = Gate_LTE"
| "BoolOpToCircuitOp Bool_UNKNOWN = Gate_UNKNOWN"

lemma boolean_operation_named: "GetBooleanOperation (GetBooleanOperationString op) = op"
  by (cases op) (simp_all add: GetBooleanOperation_def)

lemma gate_of_boolean: "Gate_IsBooleanOperation (BoolOpToCircuitOp op) \<longleftrightarrow> op \<noteq> Bool_UNKNOWN"
  by (cases op) (simp_all add: Gate_IsBooleanOperation_def)

end
