(* ===== verification/Value_Operators.thy ===== *)
theory Value_Operators
  imports Operators "HOL-Library.List_Lexorder" "HOL-Library.Char_ord" "HOL-Library.Signed_Division"
begin

text \<open>
  \<open>Util/data_structures.cpp\<close>: comparison of values, and the operations that merge two values into one or
  apply to one. What an output argument holds after \<open>false\<close> is left out. The rounding of floating-point
  operations, powers and square roots are parameters.
\<close>

subsection \<open>Comparison\<close>

record double_ops =
  d_rd :: "rat \<Rightarrow> rat"
  d_pow :: "rat \<Rightarrow> rat \<Rightarrow> rat"
  d_sqrt :: "rat \<Rightarrow> rat"

text \<open>A double converted to an integer between two bounds; other conversions are undefined.\<close>

definition to_integer :: "int \<Rightarrow> int \<Rightarrow> rat \<Rightarrow> int outcome" where
  "to_integer lo hi x =
     (let n = (if x < 0 then \<lceil>x\<rceil> else \<lfloor>x\<rfloor>) in if lo \<le> n \<and> n \<le> hi then Returns n else Fails)"

definition or_false :: "bool outcome \<Rightarrow> bool outcome" where
  "or_false r = (case r of Rejected \<Rightarrow> Returns False | _ \<Rightarrow> r)"

definition both :: "'a outcome \<Rightarrow> 'b outcome \<Rightarrow> ('a \<Rightarrow> 'b \<Rightarrow> 'c outcome) \<Rightarrow> 'c outcome" where
  "both r s f = and_then r (\<lambda>x. and_then s (\<lambda>y. f x y))"

abbreviation is_u64 :: "DataType \<Rightarrow> bool" where
  "is_u64 t \<equiv> t = UINT64 \<or> t = SLICE"

definition integer_eq :: "GenericValue \<Rightarrow> GenericValue \<Rightarrow> bool outcome" where
  "integer_eq v w = or_false
     (if is_u64 (val_type v) \<or> is_u64 (val_type w) then
        if is_u64 (val_type v) then
          if is_u64 (val_type w) then
            both (GetUnsignedIntegerValue v) (GetUnsignedIntegerValue w) (\<lambda>a b. Returns (a = b))
          else both (GetUnsignedIntegerValue v) (GetSignedIntegerValue w) (\<lambda>a b. Returns (0 \<le> b \<and> a = b))
        else both (GetSignedIntegerValue v) (GetUnsignedIntegerValue w) (\<lambda>a b. Returns (0 \<le> a \<and> a = b))
      else both (GetSignedIntegerValue v) (GetSignedIntegerValue w) (\<lambda>a b. Returns (a = b)))"

definition double_int_eq :: "double_ops \<Rightarrow> rat \<Rightarrow> GenericValue \<Rightarrow> bool outcome" where
  "double_int_eq D x w = or_false
     (if is_u64 (val_type w) then
        and_then (GetUnsignedIntegerValue w) (\<lambda>b.
          mapped (\<lambda>n. n = b \<and> x = d_rd D (of_int b)) (to_integer 0 (2 ^ 64 - 1) x))
      else
        and_then (GetSignedIntegerValue w) (\<lambda>b.
          mapped (\<lambda>n. n = b \<and> x = d_rd D (of_int b)) (to_integer (- (2 ^ 63)) (2 ^ 63 - 1) x)))"

fun lists_eq :: "('a \<Rightarrow> 'b \<Rightarrow> bool outcome) \<Rightarrow> 'a list \<Rightarrow> 'b list \<Rightarrow> bool outcome" where
  "lists_eq eq (x # xs) (y # ys) = and_then (eq x y) (\<lambda>b. if \<not> b then Returns False else lists_eq eq xs ys)"
| "lists_eq eq _ _ = Returns True"

lemma lists_eq_cong [fundef_cong]:
  "xs = xs' \<Longrightarrow> ys = ys' \<Longrightarrow> (\<And>x y. x \<in> set xs' \<Longrightarrow> y \<in> set ys' \<Longrightarrow> eq x y = eq' x y)
   \<Longrightarrow> lists_eq eq xs ys = lists_eq eq' xs' ys'"
proof (induction xs' arbitrary: xs ys ys')
  case (Cons x xs')
  show ?case
  proof (cases ys')
    case Nil
    then show ?thesis using Cons.prems by simp
  next
    case (Cons y zs)
    then show ?thesis
      using Cons.prems Cons.IH [of xs' zs zs] by (cases "eq' x y") auto
  qed
qed simp

fun value_eq :: "double_ops \<Rightarrow> GenericValue \<Rightarrow> GenericValue \<Rightarrow> bool outcome" where
  "value_eq D (GenericValue t d) (GenericValue u e) =
     (if IsStringDataType t \<noteq> IsStringDataType u then Returns False
      else if IsStringDataType t then both (stored_string d) (stored_string e) (\<lambda>s r. Returns (s = r))
      else if t = VECTOR \<or> u = VECTOR then
        if t \<noteq> VECTOR \<or> u \<noteq> VECTOR then Returns False
        else (case d of
            Some (VectorData xs) \<Rightarrow> (case e of
              Some (VectorData ys) \<Rightarrow> if length xs \<noteq> length ys then Returns False else lists_eq (value_eq D) xs ys
            | _ \<Rightarrow> Fails)
          | _ \<Rightarrow> Fails)
      else if t = DOUBLE \<or> u = DOUBLE then
        if t = DOUBLE then
          if u = DOUBLE then both (stored_double d) (stored_double e) (\<lambda>x y. Returns (x = y))
          else and_then (stored_double d) (\<lambda>x. double_int_eq D x (GenericValue u e))
        else and_then (stored_double e) (\<lambda>y. double_int_eq D y (GenericValue t d))
      else integer_eq (GenericValue t d) (GenericValue u e))"

definition value_ne :: "double_ops \<Rightarrow> GenericValue \<Rightarrow> GenericValue \<Rightarrow> bool outcome" where
  "value_ne D v w = mapped Not (value_eq D v w)"

definition value_Equals :: "double_ops \<Rightarrow> GenericValue \<Rightarrow> GenericValue \<Rightarrow> bool outcome" where
  "value_Equals D v w = (if val_type v = val_type w then value_eq D v w else Returns False)"

definition integer_lt :: "GenericValue \<Rightarrow> GenericValue \<Rightarrow> bool outcome" where
  "integer_lt v w = or_false
     (if is_u64 (val_type v) \<or> is_u64 (val_type w) then
        if is_u64 (val_type v) then
          if is_u64 (val_type w) then
            both (GetUnsignedIntegerValue v) (GetUnsignedIntegerValue w) (\<lambda>a b. Returns (a < b))
          else both (GetUnsignedIntegerValue v) (GetSignedIntegerValue w) (\<lambda>a b. Returns (0 \<le> b \<and> a < b))
        else both (GetSignedIntegerValue v) (GetUnsignedIntegerValue w) (\<lambda>a b. Returns (a < 0 \<or> a < b))
      else both (GetSignedIntegerValue v) (GetSignedIntegerValue w) (\<lambda>a b. Returns (a < b)))"

text \<open>An integer as a double.\<close>

definition read_double_of :: "double_ops \<Rightarrow> GenericValue \<Rightarrow> rat outcome" where
  "read_double_of D w =
     mapped (\<lambda>n. d_rd D (of_int n))
       (if is_u64 (val_type w) then GetUnsignedIntegerValue w else GetSignedIntegerValue w)"

fun lists_lt :: "('a \<Rightarrow> 'a \<Rightarrow> bool outcome) \<Rightarrow> ('a \<Rightarrow> 'a \<Rightarrow> bool outcome) \<Rightarrow> 'a list \<Rightarrow> 'a list \<Rightarrow> bool outcome" where
  "lists_lt eq lt (x # xs) (y # ys) = and_then (eq x y) (\<lambda>b. if \<not> b then lt x y else lists_lt eq lt xs ys)"
| "lists_lt eq lt _ _ = Returns True"

lemma lists_lt_cong [fundef_cong]:
  "xs = xs' \<Longrightarrow> ys = ys' \<Longrightarrow> eq = eq' \<Longrightarrow> (\<And>x y. x \<in> set xs' \<Longrightarrow> y \<in> set ys' \<Longrightarrow> lt x y = lt' x y)
   \<Longrightarrow> lists_lt eq lt xs ys = lists_lt eq' lt' xs' ys'"
proof (induction xs' arbitrary: xs ys ys')
  case (Cons x xs')
  show ?case
  proof (cases ys')
    case Nil
    then show ?thesis using Cons.prems by simp
  next
    case (Cons y zs)
    then show ?thesis
      using Cons.prems Cons.IH [of xs' zs zs] by (cases "eq' x y") auto
  qed
qed simp

fun value_lt :: "double_ops \<Rightarrow> GenericValue \<Rightarrow> GenericValue \<Rightarrow> bool outcome" where
  "value_lt D (GenericValue t d) (GenericValue u e) =
     (if IsStringDataType t \<noteq> IsStringDataType u then Returns False
      else if IsStringDataType t then both (stored_string d) (stored_string e) (\<lambda>s r. Returns (s < r))
      else if t = VECTOR \<or> u = VECTOR then
        if t \<noteq> VECTOR \<or> u \<noteq> VECTOR then Returns False
        else (case d of
            Some (VectorData xs) \<Rightarrow> (case e of
              Some (VectorData ys) \<Rightarrow>
                if length xs \<noteq> length ys then Returns (length xs < length ys) else lists_lt (value_eq D) (value_lt D) xs ys
            | _ \<Rightarrow> Fails)
          | _ \<Rightarrow> Fails)
      else if t = DOUBLE \<or> u = DOUBLE then
        if t = DOUBLE then
          if u = DOUBLE then both (stored_double d) (stored_double e) (\<lambda>x y. Returns (x < y))
          else or_false (both (stored_double d) (read_double_of D (GenericValue u e)) (\<lambda>x y. Returns (x < y)))
        else or_false (both (stored_double e) (read_double_of D (GenericValue t d)) (\<lambda>y x. Returns (x < y)))
      else integer_lt (GenericValue t d) (GenericValue u e))"

definition either_holds :: "bool outcome \<Rightarrow> bool outcome \<Rightarrow> bool outcome" where
  "either_holds r s = and_then r (\<lambda>b. if b then Returns True else s)"

definition value_le :: "double_ops \<Rightarrow> GenericValue \<Rightarrow> GenericValue \<Rightarrow> bool outcome" where
  "value_le D v w = either_holds (value_eq D v w) (value_lt D v w)"

definition value_gt :: "double_ops \<Rightarrow> GenericValue \<Rightarrow> GenericValue \<Rightarrow> bool outcome" where
  "value_gt D v w = mapped Not (value_le D v w)"

definition value_ge :: "double_ops \<Rightarrow> GenericValue \<Rightarrow> GenericValue \<Rightarrow> bool outcome" where
  "value_ge D v w = either_holds (value_eq D v w) (value_gt D v w)"

subsection \<open>Comparison operators\<close>

fun compare_op :: "ComparisonOperation \<Rightarrow> 'a::linorder \<Rightarrow> 'a \<Rightarrow> bool outcome" where
  "compare_op COMP_EQ a b = Returns (a = b)"
| "compare_op COMP_NEQ a b = Returns (a \<noteq> b)"
| "compare_op COMP_GT a b = Returns (b < a)"
| "compare_op COMP_GTE a b = Returns (b \<le> a)"
| "compare_op COMP_LT a b = Returns (a < b)"
| "compare_op COMP_LTE a b = Returns (a \<le> b)"
| "compare_op COMP_UNKNOWN a b = Rejected"

text \<open>What the code answers when the second, or the first, number is negative and the other unsigned.\<close>

fun second_negative :: "ComparisonOperation \<Rightarrow> bool outcome" where
  "second_negative COMP_EQ = Returns False"
| "second_negative COMP_NEQ = Returns True"
| "second_negative COMP_GT = Returns True"
| "second_negative COMP_GTE = Returns True"
| "second_negative COMP_LT = Returns False"
| "second_negative COMP_LTE = Returns False"
| "second_negative COMP_UNKNOWN = Rejected"

fun first_negative :: "ComparisonOperation \<Rightarrow> bool outcome" where
  "first_negative COMP_EQ = Returns False"
| "first_negative COMP_NEQ = Returns True"
| "first_negative COMP_GT = Returns False"
| "first_negative COMP_GTE = Returns False"
| "first_negative COMP_LT = Returns True"
| "first_negative COMP_LTE = Returns True"
| "first_negative COMP_UNKNOWN = Rejected"

definition compare_integers :: "ComparisonOperation \<Rightarrow> GenericValue \<Rightarrow> GenericValue \<Rightarrow> bool outcome" where
  "compare_integers op one two =
     (if is_u64 (val_type one) \<or> is_u64 (val_type two) then
        if is_u64 (val_type one) then
          if is_u64 (val_type two) then
            both (GetUnsignedIntegerValue one) (GetUnsignedIntegerValue two) (compare_op op)
          else both (GetSignedIntegerValue two) (GetUnsignedIntegerValue one)
            (\<lambda>b a. if b < 0 then second_negative op else compare_op op a b)
        else both (GetSignedIntegerValue one) (GetUnsignedIntegerValue two)
          (\<lambda>a b. if a < 0 then first_negative op else compare_op op a b)
      else both (GetSignedIntegerValue one) (GetSignedIntegerValue two) (compare_op op))"

text \<open>Strings are compared as the code does: both sides are the text of the first value.\<close>

definition merge_comparison :: "ComparisonOperation \<Rightarrow> GenericValue \<Rightarrow> GenericValue \<Rightarrow> GenericValue outcome" where
  "merge_comparison op one two =
     (if op = COMP_UNKNOWN then Rejected
      else if IsStringDataType (val_type one) \<noteq> IsStringDataType (val_type two) then Rejected
      else if (val_type one = DOUBLE) \<noteq> (val_type two = DOUBLE) then Rejected
      else mapped bool_value
        (if IsStringDataType (val_type one) then
           both (stored_string (val_object one)) (stored_string (val_object one)) (compare_op op)
         else if val_type one = DOUBLE then
           both (stored_double (val_object one)) (stored_double (val_object two)) (compare_op op)
         else compare_integers op one two))"

subsection \<open>Boolean operators on bytes\<close>

text \<open>The shorter bytes are extended by their sign, where the type is signed.\<close>

definition extended :: "DataType \<Rightarrow> nat \<Rightarrow> u8 list \<Rightarrow> u8 list" where
  "extended t n bs =
     (if length bs < n then
        replicate (n - length bs) (if IsSignedDataType t \<and> bit (bs ! 0) 7 then - 1 else 0) @ bs
      else bs)"

fun byte_op :: "BooleanOperation \<Rightarrow> (u8 \<Rightarrow> u8 \<Rightarrow> u8) outcome" where
  "byte_op Bool_AND = Returns (\<lambda>a b. a AND b)"
| "byte_op Bool_NAND = Returns (\<lambda>a b. NOT (a AND b))"
| "byte_op Bool_OR = Returns (\<lambda>a b. a OR b)"
| "byte_op Bool_NOR = Returns (\<lambda>a b. NOT (a OR b))"
| "byte_op Bool_XOR = Returns (\<lambda>a b. a XOR b)"
| "byte_op Bool_EQ = Returns (\<lambda>a b. NOT (a XOR b))"
| "byte_op Bool_GT = Returns (\<lambda>a b. a AND NOT b)"
| "byte_op Bool_GTE = Returns (\<lambda>a b. a OR NOT b)"
| "byte_op Bool_LT = Returns (\<lambda>a b. NOT a AND b)"
| "byte_op Bool_LTE = Returns (\<lambda>a b. NOT a OR b)"
| "byte_op _ = Rejected"

text \<open>The value of the resulting bytes: its type is signed when that of one argument is, and has the size of
  the longer argument.\<close>

definition signed_result :: "nat \<Rightarrow> u8 list \<Rightarrow> GenericValue outcome" where
  "signed_result bits r =
     (if length r = 8 then mapped int64_value (ByteStringToValue 0 8 r)
      else if length r = 4 then mapped int32_value (ByteStringToValue 0 4 r)
      else if length r = 2 then mapped short_value (ByteStringToValue 0 2 r)
      else if length r = 1 then
        if bits = 8 then Returns (GenericValue INT8 (Some (Int8Data (r ! 0))))
        else if bits = 4 then Returns (GenericValue INT4 (Some (Int4Data (r ! 0))))
        else if bits = 2 then Returns (GenericValue INT2 (Some (Int2Data (r ! 0))))
        else Rejected
      else Rejected)"

definition unsigned_result :: "nat \<Rightarrow> u8 list \<Rightarrow> GenericValue outcome" where
  "unsigned_result bits r =
     (if length r = 8 then mapped uint64_value (ByteStringToValue 0 8 r)
      else if length r = 4 then mapped uint32_value (ByteStringToValue 0 4 r)
      else if length r = 2 then mapped ushort_value (ByteStringToValue 0 2 r)
      else if length r = 1 then
        if bits = 8 then Returns (GenericValue UINT8 (Some (Uint8Data (r ! 0))))
        else if bits = 4 then Returns (GenericValue UINT4 (Some (Uint4Data (r ! 0))))
        else if bits = 2 then Returns (GenericValue UINT2 (Some (Uint2Data (r ! 0))))
        else if bits = 1 then Returns (GenericValue BOOL (Some (BoolData (r ! 0 = 1))))
        else Rejected
      else Rejected)"

definition merge_boolean :: "BooleanOperation \<Rightarrow> GenericValue \<Rightarrow> GenericValue \<Rightarrow> GenericValue outcome" where
  "merge_boolean op one two =
     (if op \<in> {Bool_UNKNOWN, Bool_IDENTITY, Bool_NOT} then Rejected
      else if IsStringDataType (val_type one) \<noteq> IsStringDataType (val_type two) then Rejected
      else if val_type one = DOUBLE \<or> val_type two = DOUBLE then Rejected
      else
        both (GetTwosComplementByteString one) (GetTwosComplementByteString two) (\<lambda>as bs.
        and_then (byte_op op) (\<lambda>f.
          let n = max (length as) (length bs);
              r = map2 f (extended (val_type one) n as) (extended (val_type two) n bs)
          in if IsStringDataType (val_type one) then SetStringGenericValue (map (\<lambda>b. char_of (unat b)) r)
             else both (GetValueNumBits one) (GetValueNumBits two) (\<lambda>k l.
               if IsSignedDataType (val_type one) \<or> IsSignedDataType (val_type two)
               then signed_result (max k l) r else unsigned_result (max k l) r))))"

definition merge_bools :: "CircuitOperation \<Rightarrow> bool \<Rightarrow> bool \<Rightarrow> bool outcome" where
  "merge_bools op one two =
     (case op of
        Gate_AND \<Rightarrow> Returns (one \<and> two)
      | Gate_NAND \<Rightarrow> Returns (\<not> (one \<and> two))
      | Gate_OR \<Rightarrow> Returns (one \<or> two)
      | Gate_NOR \<Rightarrow> Returns (\<not> (one \<or> two))
      | Gate_XOR \<Rightarrow> Returns (one \<noteq> two)
      | Gate_EQ \<Rightarrow> Returns (one = two)
      | Gate_GT \<Rightarrow> Returns (one \<and> \<not> two)
      | Gate_GTE \<Rightarrow> Returns (one \<or> \<not> two)
      | Gate_LT \<Rightarrow> Returns (\<not> one \<and> two)
      | Gate_LTE \<Rightarrow> Returns (\<not> one \<or> two)
      | _ \<Rightarrow> Rejected)"

subsection \<open>Arithmetic operators\<close>

text \<open>The operators on integers that are the same in every branch: \<open>ring\<close> is what the branch makes of a sum,
  difference, product or quotient and \<open>conv\<close> of a power.\<close>

definition int_op ::
  "(int \<Rightarrow> int outcome) \<Rightarrow> (rat \<Rightarrow> int outcome) \<Rightarrow> double_ops \<Rightarrow> ArithmeticOperation \<Rightarrow> int \<Rightarrow> int \<Rightarrow> int outcome" where
  "int_op ring conv D op a b =
     (case op of
        Arith_ADD \<Rightarrow> ring (a + b)
      | Arith_SUB \<Rightarrow> ring (a - b)
      | Arith_MULT \<Rightarrow> ring (a * b)
      | Arith_INNER_PRODUCT \<Rightarrow> ring (a * b)
      | Arith_DIV \<Rightarrow> if b = 0 then Rejected else ring (a sdiv b)
      | Arith_MIN \<Rightarrow> Returns (min a b)
      | Arith_MAX \<Rightarrow> Returns (max a b)
      | Arith_POW \<Rightarrow> if b = 0 \<and> a = 0 then Rejected
          else conv (d_pow D (d_rd D (of_int a)) (d_rd D (of_int b)))
      | _ \<Rightarrow> Rejected)"

text \<open>Unsigned arithmetic wraps around. Signed arithmetic that overflows is undefined; types below 32 bits
  are computed with as \<open>int\<close> and truncated when they are stored.\<close>

definition wraps :: "nat \<Rightarrow> int \<Rightarrow> int outcome" where
  "wraps n x = Returns (take_bit n x)"

definition checked :: "nat \<Rightarrow> int \<Rightarrow> int outcome" where
  "checked n x = (if - (2 ^ (n - 1)) \<le> x \<and> x < 2 ^ (n - 1) then Returns x else Fails)"

definition as_unsigned :: "nat \<Rightarrow> GenericValue \<Rightarrow> int outcome" where
  "as_unsigned n v = mapped (take_bit n) (GetIntegerValue v)"

definition as_signed :: "nat \<Rightarrow> GenericValue \<Rightarrow> int outcome" where
  "as_signed n v = mapped (signed_take_bit (n - 1)) (GetIntegerValue v)"

definition to_char :: "int \<Rightarrow> int" where
  "to_char x = signed_take_bit 7 x"

definition merge_u64 :: "double_ops \<Rightarrow> ArithmeticOperation \<Rightarrow> GenericValue \<Rightarrow> GenericValue \<Rightarrow> GenericValue outcome" where
  "merge_u64 D op one two =
     both (GetUnsignedIntegerValue one) (GetUnsignedIntegerValue two) (\<lambda>a b.
       mapped (\<lambda>x. GenericValue UINT64 (Some (Uint64Data (word_of_int x))))
         (int_op (wraps 64) (to_integer 0 (2 ^ 64 - 1)) D op a b))"

text \<open>The 64-bit branch with a signed argument: the other one is read as unsigned and converted.\<close>

definition merge_s64 :: "double_ops \<Rightarrow> ArithmeticOperation \<Rightarrow> GenericValue \<Rightarrow> GenericValue \<Rightarrow> GenericValue outcome" where
  "merge_s64 D op one two =
     and_then
       (if IsSignedDataType (val_type two) then
          both (GetSignedIntegerValue two) (GetUnsignedIntegerValue one)
            (\<lambda>b a. Returns (signed_take_bit 63 a, b))
        else both (GetSignedIntegerValue one) (GetUnsignedIntegerValue two)
            (\<lambda>a b. Returns (a, signed_take_bit 63 b)))
       (\<lambda>(a, b). mapped (\<lambda>x. GenericValue INT64 (Some (Int64Data (word_of_int x))))
         (int_op (checked 64) (to_integer (- (2 ^ 63)) (2 ^ 63 - 1)) D op a b))"

definition merge_u32 :: "double_ops \<Rightarrow> ArithmeticOperation \<Rightarrow> GenericValue \<Rightarrow> GenericValue \<Rightarrow> GenericValue outcome" where
  "merge_u32 D op one two =
     both (as_unsigned 32 one) (as_unsigned 32 two) (\<lambda>a b.
       mapped (\<lambda>x. GenericValue UINT32 (Some (Uint32Data (word_of_int x))))
         (int_op (wraps 32) (to_integer 0 (2 ^ 32 - 1)) D op a b))"

definition merge_s32 :: "double_ops \<Rightarrow> ArithmeticOperation \<Rightarrow> GenericValue \<Rightarrow> GenericValue \<Rightarrow> GenericValue outcome" where
  "merge_s32 D op one two =
     both (as_signed 32 one) (as_signed 32 two) (\<lambda>a b.
       mapped (\<lambda>x. GenericValue INT32 (Some (Int32Data (word_of_int x))))
         (int_op (checked 32) (to_integer (- (2 ^ 31)) (2 ^ 31 - 1)) D op a b))"

definition merge_u16 :: "double_ops \<Rightarrow> ArithmeticOperation \<Rightarrow> GenericValue \<Rightarrow> GenericValue \<Rightarrow> GenericValue outcome" where
  "merge_u16 D op one two =
     both (as_unsigned 16 one) (as_unsigned 16 two) (\<lambda>a b.
       mapped (\<lambda>x. GenericValue UINT16 (Some (Uint16Data (word_of_int x))))
         (int_op (checked 32) (to_integer 0 (2 ^ 16 - 1)) D op a b))"

definition merge_s16 :: "double_ops \<Rightarrow> ArithmeticOperation \<Rightarrow> GenericValue \<Rightarrow> GenericValue \<Rightarrow> GenericValue outcome" where
  "merge_s16 D op one two =
     both (as_signed 16 one) (as_signed 16 two) (\<lambda>a b.
       mapped (\<lambda>x. GenericValue INT16 (Some (Int16Data (word_of_int x))))
         (int_op (checked 32) (to_integer (- (2 ^ 15)) (2 ^ 15 - 1)) D op a b))"

definition merge_u8 :: "double_ops \<Rightarrow> ArithmeticOperation \<Rightarrow> GenericValue \<Rightarrow> GenericValue \<Rightarrow> GenericValue outcome" where
  "merge_u8 D op one two =
     both (as_unsigned 8 one) (as_unsigned 8 two) (\<lambda>a b.
       mapped (\<lambda>x. GenericValue UINT8 (Some (Uint8Data (word_of_int x))))
         (int_op (checked 32) (to_integer 0 (2 ^ 8 - 1)) D op a b))"

definition merge_s8 :: "double_ops \<Rightarrow> ArithmeticOperation \<Rightarrow> GenericValue \<Rightarrow> GenericValue \<Rightarrow> GenericValue outcome" where
  "merge_s8 D op one two =
     both (as_signed 8 one) (as_signed 8 two) (\<lambda>a b.
       mapped (\<lambda>x. GenericValue INT8 (Some (Int8Data (word_of_int x))))
         (int_op (checked 32) (to_integer (- (2 ^ 7)) (2 ^ 7 - 1)) D op a b))"

text \<open>The loops that bring a product or a power of a small type into its range.\<close>

function raise_to :: "int \<Rightarrow> nat \<Rightarrow> int \<Rightarrow> int" where
  "raise_to lo k t = (if t < lo \<and> 0 < k then raise_to lo k (t + int k) else t)"
  by pat_completeness auto
termination by (relation "measure (\<lambda>(lo, k, t). nat (lo - t))") auto

function lower_to :: "int \<Rightarrow> nat \<Rightarrow> int \<Rightarrow> int" where
  "lower_to hi k t = (if hi < t \<and> 0 < k then lower_to hi k (t - int k) else t)"
  by pat_completeness auto
termination by (relation "measure (\<lambda>(hi, k, t). nat (t - hi))") auto

declare raise_to.simps [simp del] lower_to.simps [simp del]

definition into_range :: "int \<Rightarrow> int \<Rightarrow> int \<Rightarrow> int" where
  "into_range lo hi t = (let k = nat (hi - lo + 1) in lower_to hi k (raise_to lo k t))"

text \<open>Sums and differences go through a \<open>char\<close>; \<open>fold_once\<close> is the conditional expression that brings them
  into the range.\<close>

definition fold_once :: "int \<Rightarrow> int \<Rightarrow> int \<Rightarrow> int" where
  "fold_once lo hi t = (if t < lo then t + (hi - lo + 1) else if hi < t then t - (hi - lo + 1) else t)"

definition small_unsigned :: "int \<Rightarrow> double_ops \<Rightarrow> ArithmeticOperation \<Rightarrow> int \<Rightarrow> int \<Rightarrow> int outcome" where
  "small_unsigned hi D op a b =
     (case op of
        Arith_ADD \<Rightarrow> let t = to_char (a + b) in Returns (if hi < t then t - (hi + 1) else t)
      | Arith_SUB \<Rightarrow> let t = to_char (a - b) in Returns (if t < 0 then t + (hi + 1) else t)
      | Arith_MULT \<Rightarrow> Returns (into_range 0 hi (to_char (a * b)))
      | Arith_INNER_PRODUCT \<Rightarrow> Returns (into_range 0 hi (to_char (a * b)))
      | Arith_DIV \<Rightarrow> if b = 0 then Rejected else Returns (a sdiv b)
      | Arith_MIN \<Rightarrow> Returns (min a b)
      | Arith_MAX \<Rightarrow> Returns (max a b)
      | Arith_POW \<Rightarrow> if b = 0 \<and> a = 0 then Rejected
          else mapped (into_range 0 hi) (to_integer (- (2 ^ 7)) (2 ^ 7 - 1) (d_pow D (d_rd D (of_int a)) (d_rd D (of_int b))))
      | _ \<Rightarrow> Rejected)"

definition small_signed :: "int \<Rightarrow> int \<Rightarrow> double_ops \<Rightarrow> ArithmeticOperation \<Rightarrow> int \<Rightarrow> int \<Rightarrow> int outcome" where
  "small_signed lo hi D op a b =
     (case op of
        Arith_ADD \<Rightarrow> Returns (fold_once lo hi (to_char (a + b)))
      | Arith_SUB \<Rightarrow> Returns (fold_once lo hi (to_char (a - b)))
      | Arith_MULT \<Rightarrow> Returns (into_range lo hi (to_char (a * b)))
      | Arith_INNER_PRODUCT \<Rightarrow> Returns (into_range lo hi (to_char (a * b)))
      | Arith_DIV \<Rightarrow> if b = 0 then Rejected else Returns (a sdiv b)
      | Arith_MIN \<Rightarrow> Returns (min a b)
      | Arith_MAX \<Rightarrow> Returns (max a b)
      | Arith_POW \<Rightarrow> if b = 0 \<and> a = 0 then Rejected
          else mapped (into_range lo hi) (to_integer (- (2 ^ 7)) (2 ^ 7 - 1) (d_pow D (d_rd D (of_int a)) (d_rd D (of_int b))))
      | _ \<Rightarrow> Rejected)"

definition merge_u4 :: "double_ops \<Rightarrow> ArithmeticOperation \<Rightarrow> GenericValue \<Rightarrow> GenericValue \<Rightarrow> GenericValue outcome" where
  "merge_u4 D op one two =
     both (as_unsigned 8 one) (as_unsigned 8 two) (\<lambda>a b.
       mapped (\<lambda>x. GenericValue UINT4 (Some (Uint4Data (word_of_int x)))) (small_unsigned 15 D op a b))"

definition merge_s4 :: "double_ops \<Rightarrow> ArithmeticOperation \<Rightarrow> GenericValue \<Rightarrow> GenericValue \<Rightarrow> GenericValue outcome" where
  "merge_s4 D op one two =
     both (as_signed 8 one) (as_signed 8 two) (\<lambda>a b.
       mapped (\<lambda>x. GenericValue INT4 (Some (Int4Data (word_of_int x)))) (small_signed (- 8) 7 D op a b))"

text \<open>A power of 2-bit numbers is stored in an object of the signed class.\<close>

definition merge_u2 :: "double_ops \<Rightarrow> ArithmeticOperation \<Rightarrow> GenericValue \<Rightarrow> GenericValue \<Rightarrow> GenericValue outcome" where
  "merge_u2 D op one two =
     both (as_unsigned 8 one) (as_unsigned 8 two) (\<lambda>a b.
       mapped (\<lambda>x. GenericValue UINT2
           (Some (if op = Arith_POW then Int2Data (word_of_int x) else Uint2Data (word_of_int x))))
         (small_unsigned 3 D op a b))"

definition merge_s2 :: "double_ops \<Rightarrow> ArithmeticOperation \<Rightarrow> GenericValue \<Rightarrow> GenericValue \<Rightarrow> GenericValue outcome" where
  "merge_s2 D op one two =
     both (as_signed 8 one) (as_signed 8 two) (\<lambda>a b.
       mapped (\<lambda>x. GenericValue INT2 (Some (Int2Data (word_of_int x)))) (small_signed (- 2) 1 D op a b))"

definition merge_bool :: "ArithmeticOperation \<Rightarrow> GenericValue \<Rightarrow> GenericValue \<Rightarrow> GenericValue outcome" where
  "merge_bool op one two =
     both (GetIntegerValue one) (GetIntegerValue two) (\<lambda>x y.
       let a = x \<noteq> 0; b = y \<noteq> 0
       in mapped bool_value
         (case op of
            Arith_ADD \<Rightarrow> Returns (a \<noteq> b)
          | Arith_SUB \<Rightarrow> Returns (a \<noteq> b)
          | Arith_MULT \<Rightarrow> Returns (a \<and> b)
          | Arith_INNER_PRODUCT \<Rightarrow> Returns (a \<and> b)
          | Arith_DIV \<Rightarrow> if \<not> b then Rejected else Returns a
          | Arith_MIN \<Rightarrow> Returns (a \<and> b)
          | Arith_MAX \<Rightarrow> Returns (a \<or> b)
          | Arith_POW \<Rightarrow> if \<not> b \<and> \<not> a then Rejected else Returns a
          | _ \<Rightarrow> Rejected))"

text \<open>The choice of the branch. Both tests for an unsigned result look at the second argument.\<close>

definition merge_integers :: "double_ops \<Rightarrow> ArithmeticOperation \<Rightarrow> GenericValue \<Rightarrow> GenericValue \<Rightarrow> GenericValue outcome" where
  "merge_integers D op one two =
     (let t = val_type one; u = val_type two;
          unsigned = (\<not> IsSignedDataType u \<and> \<not> IsSignedDataType u)
      in if t \<in> {UINT64, SLICE, INT64} \<or> u \<in> {UINT64, SLICE, INT64} then
           if unsigned then merge_u64 D op one two else merge_s64 D op one two
         else if t \<in> {UINT32, INT32} \<or> u \<in> {UINT32, INT32} then
           if unsigned then merge_u32 D op one two else merge_s32 D op one two
         else if t \<in> {UINT16, INT16} \<or> u \<in> {UINT16, INT16} then
           if unsigned then merge_u16 D op one two else merge_s16 D op one two
         else if t \<in> {UINT8, INT8} \<or> u \<in> {UINT8, INT8} then
           if unsigned then merge_u8 D op one two else merge_s8 D op one two
         else if t \<in> {UINT4, INT4} \<or> u \<in> {UINT4, INT4} then
           if unsigned then merge_u4 D op one two else merge_s4 D op one two
         else if t \<in> {UINT2, INT2} \<or> u \<in> {UINT2, INT2} then
           if unsigned then merge_u2 D op one two else merge_s2 D op one two
         else merge_bool op one two)"

text \<open>A number as a double. The second argument is not set when its type is unsigned, and only an operator
  that is not supported does not read it.\<close>

definition double_operand :: "double_ops \<Rightarrow> bool \<Rightarrow> GenericValue \<Rightarrow> rat outcome" where
  "double_operand D set_unsigned v =
     (if val_type v = DOUBLE then stored_double (val_object v)
      else if IsSignedDataType (val_type v) then mapped (\<lambda>n. d_rd D (of_int n)) (GetSignedIntegerValue v)
      else and_then (GetUnsignedIntegerValue v) (\<lambda>n. if set_unsigned then Returns (d_rd D (of_int n)) else Fails))"

definition merge_doubles :: "double_ops \<Rightarrow> ArithmeticOperation \<Rightarrow> GenericValue \<Rightarrow> GenericValue \<Rightarrow> GenericValue outcome" where
  "merge_doubles D op one two =
     (if \<not> IsNumericDataType (val_type one) \<or> \<not> IsNumericDataType (val_type two) then Rejected
      else both (double_operand D True one) (double_operand D (op = Arith_IDENTITY) two) (\<lambda>a b.
        mapped double_value
          (case op of
             Arith_ADD \<Rightarrow> Returns (d_rd D (a + b))
           | Arith_SUB \<Rightarrow> Returns (d_rd D (a - b))
           | Arith_MULT \<Rightarrow> Returns (d_rd D (a * b))
           | Arith_INNER_PRODUCT \<Rightarrow> Returns (d_rd D (a * b))
           | Arith_DIV \<Rightarrow> if b = 0 then Rejected else Returns (d_rd D (a / b))
           | Arith_MIN \<Rightarrow> Returns (min a b)
           | Arith_MAX \<Rightarrow> Returns (max a b)
           | Arith_POW \<Rightarrow> if a < 0 \<and> of_int \<lceil>b\<rceil> \<noteq> b then Rejected
               else if a = 0 \<and> b \<le> 0 then Rejected
               else Returns (d_pow D a b)
           | _ \<Rightarrow> Rejected)))"

definition merge_scalars :: "double_ops \<Rightarrow> ArithmeticOperation \<Rightarrow> GenericValue \<Rightarrow> GenericValue \<Rightarrow> GenericValue outcome" where
  "merge_scalars D op one two =
     (if val_type one = DOUBLE \<or> val_type two = DOUBLE then merge_doubles D op one two
      else merge_integers D op one two)"

text \<open>The elements of two vectors, multiplied or added; elements that are vectors are not.\<close>

definition merge_elements :: "double_ops \<Rightarrow> ArithmeticOperation \<Rightarrow> GenericValue \<Rightarrow> GenericValue \<Rightarrow> GenericValue outcome" where
  "merge_elements D op one two =
     (if IsStringDataType (val_type one) \<or> IsStringDataType (val_type two) then Rejected
      else if val_type one = VECTOR \<or> val_type two = VECTOR then Rejected
      else merge_scalars D op one two)"

subsection \<open>Vectors\<close>

fun product_sum :: "double_ops \<Rightarrow> GenericValue \<Rightarrow> GenericValue list \<Rightarrow> GenericValue list \<Rightarrow> GenericValue outcome" where
  "product_sum D running (x # xs) (y # ys) =
     and_then (merge_elements D Arith_MULT x y) (\<lambda>p.
     and_then (merge_elements D Arith_ADD running p) (\<lambda>r. product_sum D r xs ys))"
| "product_sum D running _ _ = Returns running"

text \<open>The inner product of two empty vectors leaves the output a vector without elements set.\<close>

definition merge_inner_product :: "double_ops \<Rightarrow> GenericValue \<Rightarrow> GenericValue \<Rightarrow> GenericValue outcome" where
  "merge_inner_product D one two =
     both (stored_vector (val_object one)) (stored_vector (val_object two)) (\<lambda>xs ys.
       if length xs \<noteq> length ys then Rejected
       else case (xs, ys) of
         (x # xs, y # ys) \<Rightarrow> and_then (merge_elements D Arith_MULT x y) (\<lambda>p. product_sum D p xs ys)
       | _ \<Rightarrow> Returns (GenericValue VECTOR None))"

definition vector_items :: "GenericValue \<Rightarrow> GenericValue list outcome" where
  "vector_items v = (if val_type v = VECTOR then stored_vector (val_object v) else Returns [v])"

definition merge_vec :: "GenericValue \<Rightarrow> GenericValue \<Rightarrow> GenericValue outcome" where
  "merge_vec one two = both (vector_items one) (vector_items two) (\<lambda>xs ys. Returns (vector_value (xs @ ys)))"

text \<open>The least, or greatest, of two values and the vector that is true at it: for single values, and for
  vectors that begin with their least value, of which the characteristic vectors are joined.\<close>

definition arg_result :: "bool \<Rightarrow> GenericValue \<Rightarrow> (bool \<Rightarrow> GenericValue list) \<Rightarrow> GenericValue outcome" where
  "arg_result internal argmin items =
     and_then (stored_vector (val_object argmin)) (\<lambda>ms.
       if length ms \<noteq> 3 then Rejected
       else mapped (\<lambda>first. vector_value ((if internal then [ms ! 0] else []) @ items first))
         (stored_bool (val_object (ms ! 1))))"

definition chosen :: "bool \<Rightarrow> GenericValue list \<Rightarrow> GenericValue list" where
  "chosen this xs = map (\<lambda>x. if this then x else bool_value False) xs"

definition merge_arg_scalars :: "bool \<Rightarrow> bool \<Rightarrow> GenericValue \<Rightarrow> GenericValue \<Rightarrow> GenericValue outcome" where
  "merge_arg_scalars is_min internal one two =
     and_then (merge_comparison (if is_min then COMP_LT else COMP_GT) one two) (\<lambda>c.
       mapped (\<lambda>first. vector_value ((if internal then [if first then one else two] else [])
           @ [bool_value first, bool_value (\<not> first)]))
         (stored_bool (val_object c)))"

lemma size_first: "2 \<le> length xs \<Longrightarrow> size (hd xs) < size_list size xs"
  by (cases xs) simp_all

function merge_arg :: "bool \<Rightarrow> bool \<Rightarrow> GenericValue \<Rightarrow> GenericValue \<Rightarrow> GenericValue outcome" where
  "merge_arg is_min internal (GenericValue t d) (GenericValue u e) =
     (if IsStringDataType t \<or> IsStringDataType u then Rejected
      else if t = VECTOR \<and> u = VECTOR then
        (case d of
           Some (VectorData xs) \<Rightarrow> (case e of
             Some (VectorData ys) \<Rightarrow>
               if length xs < 2 \<or> length ys < 2 then Rejected
               else and_then (merge_arg is_min True (hd xs) (hd ys)) (\<lambda>m.
                 arg_result internal m (\<lambda>first. chosen first (tl xs) @ chosen (\<not> first) (tl ys)))
           | _ \<Rightarrow> Fails)
         | _ \<Rightarrow> Fails)
      else if t = VECTOR then
        (case d of
           Some (VectorData xs) \<Rightarrow>
             if length xs < 2 then Rejected
             else and_then (merge_arg is_min True (hd xs) (GenericValue u e)) (\<lambda>m.
               arg_result internal m (\<lambda>first. chosen first (tl xs) @ [bool_value (\<not> first)]))
         | _ \<Rightarrow> Fails)
      else if u = VECTOR then
        (case e of
           Some (VectorData ys) \<Rightarrow>
             if length ys < 2 then Rejected
             else and_then (merge_arg is_min True (GenericValue t d) (hd ys)) (\<lambda>m.
               arg_result internal m (\<lambda>first. bool_value first # chosen (\<not> first) (tl ys)))
         | _ \<Rightarrow> Fails)
      else merge_arg_scalars is_min internal (GenericValue t d) (GenericValue u e))"
  by pat_completeness auto
termination
  by (relation "measure (\<lambda>(_, _, v, w). size v + size w)")
    (auto simp: not_less dest!: size_first)

subsection \<open>Merging by an operator\<close>

definition merge_arithmetic :: "double_ops \<Rightarrow> ArithmeticOperation \<Rightarrow> GenericValue \<Rightarrow> GenericValue \<Rightarrow> GenericValue outcome" where
  "merge_arithmetic D op one two =
     (if op \<in> {Arith_UNKNOWN, Arith_ABS, Arith_FLIP_SIGN, Arith_FACTORIAL, Arith_SQRT} then Rejected
      else if IsStringDataType (val_type one) \<or> IsStringDataType (val_type two) then Rejected
      else if op = Arith_VEC then merge_vec one two
      else if op = Arith_ARGMIN then merge_arg True False one two
      else if op = Arith_ARGMAX then merge_arg False False one two
      else if op = Arith_ARGMIN_INTERNAL then merge_arg True True one two
      else if op = Arith_ARGMAX_INTERNAL then merge_arg False True one two
      else if val_type one = VECTOR \<or> val_type two = VECTOR then
        if op = Arith_INNER_PRODUCT then merge_inner_product D one two else Rejected
      else merge_scalars D op one two)"

fun math_merge_op :: "MathOperation \<Rightarrow> (ArithmeticOperation + ComparisonOperation) option" where
  "math_merge_op Math_IDENTITY = Some (Inl Arith_IDENTITY)"
| "math_merge_op Math_ABS = Some (Inl Arith_ABS)"
| "math_merge_op Math_FACTORIAL = Some (Inl Arith_FACTORIAL)"
| "math_merge_op Math_SQRT = Some (Inl Arith_SQRT)"
| "math_merge_op Math_ADD = Some (Inl Arith_ADD)"
| "math_merge_op Math_SUB = Some (Inl Arith_SUB)"
| "math_merge_op Math_MULT = Some (Inl Arith_MULT)"
| "math_merge_op Math_DIV = Some (Inl Arith_DIV)"
| "math_merge_op Math_POW = Some (Inl Arith_POW)"
| "math_merge_op Math_EQ = Some (Inr COMP_EQ)"
| "math_merge_op Math_NEQ = Some (Inr COMP_NEQ)"
| "math_merge_op Math_GT = Some (Inr COMP_GT)"
| "math_merge_op Math_GTE = Some (Inr COMP_GTE)"
| "math_merge_op Math_LT = Some (Inr COMP_LT)"
| "math_merge_op Math_LTE = Some (Inr COMP_LTE)"
| "math_merge_op _ = None"

definition merge_math :: "double_ops \<Rightarrow> MathOperation \<Rightarrow> GenericValue \<Rightarrow> GenericValue \<Rightarrow> GenericValue outcome" where
  "merge_math D op one two =
     (case math_merge_op op of
        Some (Inl a) \<Rightarrow> merge_arithmetic D a one two
      | Some (Inr c) \<Rightarrow> merge_comparison c one two
      | None \<Rightarrow> Rejected)"

definition merge_circuit :: "double_ops \<Rightarrow> CircuitOperation \<Rightarrow> GenericValue \<Rightarrow> GenericValue \<Rightarrow> GenericValue outcome" where
  "merge_circuit D op one two =
     (case op of
        Gate_AND \<Rightarrow> merge_boolean Bool_AND one two
      | Gate_NAND \<Rightarrow> merge_boolean Bool_NAND one two
      | Gate_OR \<Rightarrow> merge_boolean Bool_OR one two
      | Gate_NOR \<Rightarrow> merge_boolean Bool_NOR one two
      | Gate_XOR \<Rightarrow> merge_boolean Bool_XOR one two
      | Gate_EQ \<Rightarrow> merge_boolean Bool_EQ one two
      | Gate_GT \<Rightarrow> merge_boolean Bool_GT one two
      | Gate_GTE \<Rightarrow> merge_boolean Bool_GTE one two
      | Gate_LT \<Rightarrow> merge_boolean Bool_LT one two
      | Gate_LTE \<Rightarrow> merge_boolean Bool_LTE one two
      | Gate_ADD \<Rightarrow> merge_arithmetic D Arith_ADD one two
      | Gate_SUB \<Rightarrow> merge_arithmetic D Arith_SUB one two
      | Gate_MULT \<Rightarrow> merge_arithmetic D Arith_MULT one two
      | Gate_DIV \<Rightarrow> merge_arithmetic D Arith_DIV one two
      | Gate_POW \<Rightarrow> merge_arithmetic D Arith_POW one two
      | Gate_MIN \<Rightarrow> merge_arithmetic D Arith_MIN one two
      | Gate_MAX \<Rightarrow> merge_arithmetic D Arith_MAX one two
      | _ \<Rightarrow> Rejected)"

definition merge_values :: "double_ops \<Rightarrow> OperationHolder \<Rightarrow> GenericValue \<Rightarrow> GenericValue \<Rightarrow> GenericValue outcome" where
  "merge_values D op one two =
     (case op_type op of
        OP_MATH \<Rightarrow> merge_math D (math_op op) one two
      | OP_BOOLEAN \<Rightarrow> merge_boolean (gate_op op) one two
      | OP_COMPARISON \<Rightarrow> merge_comparison (comparison_op op) one two
      | OP_ARITHMETIC \<Rightarrow> merge_arithmetic D (arithmetic_op op) one two
      | _ \<Rightarrow> Rejected)"

text \<open>The assignment operators, which end the program when the values cannot be merged.\<close>

definition merge_or_die :: "double_ops \<Rightarrow> MathOperation \<Rightarrow> GenericValue \<Rightarrow> GenericValue \<Rightarrow> GenericValue outcome" where
  "merge_or_die D op one two = (case merge_math D op one two of Rejected \<Rightarrow> Fails | r \<Rightarrow> r)"

definition value_add :: "double_ops \<Rightarrow> GenericValue \<Rightarrow> GenericValue \<Rightarrow> GenericValue outcome" where
  "value_add D = merge_or_die D Math_ADD"

definition value_sub :: "double_ops \<Rightarrow> GenericValue \<Rightarrow> GenericValue \<Rightarrow> GenericValue outcome" where
  "value_sub D = merge_or_die D Math_SUB"

definition value_mult :: "double_ops \<Rightarrow> GenericValue \<Rightarrow> GenericValue \<Rightarrow> GenericValue outcome" where
  "value_mult D = merge_or_die D Math_MULT"

definition value_div :: "double_ops \<Rightarrow> GenericValue \<Rightarrow> GenericValue \<Rightarrow> GenericValue outcome" where
  "value_div D = merge_or_die D Math_DIV"

definition value_mod :: "double_ops \<Rightarrow> GenericValue \<Rightarrow> GenericValue \<Rightarrow> GenericValue outcome" where
  "value_mod D = merge_or_die D Math_MODULUS"

subsection \<open>Applying an operator to one value\<close>

definition not_result :: "DataType \<Rightarrow> u8 list \<Rightarrow> GenericDataType outcome" where
  "not_result t r =
     (case t of
        INT2 \<Rightarrow> mapped (\<lambda>w. Int2Data (w AND 3)) (ByteStringToValue 0 1 r)
      | INT4 \<Rightarrow> mapped (\<lambda>w. Int4Data (w AND 15)) (ByteStringToValue 0 1 r)
      | INT8 \<Rightarrow> mapped Int8Data (ByteStringToValue 0 1 r)
      | INT16 \<Rightarrow> mapped Int16Data (ByteStringToValue 0 2 r)
      | INT32 \<Rightarrow> mapped Int32Data (ByteStringToValue 0 4 r)
      | INT64 \<Rightarrow> mapped Int64Data (ByteStringToValue 0 8 r)
      | BOOL \<Rightarrow> mapped (\<lambda>w. BoolData ((w :: u8) AND 1 \<noteq> 0)) (ByteStringToValue 0 1 r)
      | UINT2 \<Rightarrow> mapped (\<lambda>w. Uint2Data (w AND 3)) (ByteStringToValue 0 1 r)
      | UINT4 \<Rightarrow> mapped (\<lambda>w. Uint4Data (w AND 15)) (ByteStringToValue 0 1 r)
      | UINT8 \<Rightarrow> mapped Uint8Data (ByteStringToValue 0 1 r)
      | UINT16 \<Rightarrow> mapped Uint16Data (ByteStringToValue 0 2 r)
      | UINT32 \<Rightarrow> mapped Uint32Data (ByteStringToValue 0 4 r)
      | UINT64 \<Rightarrow> mapped Uint64Data (ByteStringToValue 0 8 r)
      | SLICE \<Rightarrow> mapped SliceData (ByteStringToValue 0 8 r)
      | _ \<Rightarrow> Rejected)"

definition apply_boolean :: "BooleanOperation \<Rightarrow> GenericValue \<Rightarrow> GenericValue outcome" where
  "apply_boolean op one =
     (if op = Bool_IDENTITY then Returns one
      else if op = Bool_NOT then
        if val_type one = DOUBLE then Rejected
        else and_then (GetTwosComplementByteString one) (\<lambda>bs.
          let r = map (\<lambda>b. NOT b) bs
          in if IsStringDataType (val_type one) then SetStringGenericValue (map (\<lambda>b. char_of (unat b)) r)
             else mapped (\<lambda>d. GenericValue (val_type one) (Some d)) (not_result (val_type one) r))
      else Rejected)"

text \<open>A signed number stored under a type, truncated to its object.\<close>

definition store_signed :: "DataType \<Rightarrow> int \<Rightarrow> GenericValue" where
  "store_signed t x =
     GenericValue t (Some
       (if t = INT64 then Int64Data (word_of_int x)
        else if t = INT32 then Int32Data (word_of_int x)
        else if t = INT16 then Int16Data (word_of_int x)
        else if t = INT8 then Int8Data (word_of_int x)
        else if t = INT4 then Int4Data (word_of_int x)
        else Int2Data (word_of_int x)))"

definition store_unsigned :: "DataType \<Rightarrow> int \<Rightarrow> GenericValue" where
  "store_unsigned t x =
     (if t = UINT64 then GenericValue UINT64 (Some (Uint64Data (word_of_int x)))
      else if t = UINT32 then GenericValue UINT32 (Some (Uint32Data (word_of_int x)))
      else if t = UINT16 then GenericValue UINT16 (Some (Uint16Data (word_of_int x)))
      else if t = UINT8 then GenericValue UINT8 (Some (Uint8Data (word_of_int x)))
      else if t = UINT4 then GenericValue UINT4 (Some (Uint4Data (word_of_int x)))
      else GenericValue UINT2 (Some (Uint2Data (word_of_int x))))"

definition factorial_loop :: "int \<Rightarrow> int" where
  "factorial_loop n = fold (\<lambda>i t. t * i) [2..n] 1"

definition apply_double :: "double_ops \<Rightarrow> ArithmeticOperation \<Rightarrow> rat \<Rightarrow> rat outcome" where
  "apply_double D op x =
     (case op of
        Arith_ABS \<Rightarrow> Returns (if x < 0 then - x else x)
      | Arith_FLIP_SIGN \<Rightarrow> Returns (- x)
      | Arith_FACTORIAL \<Rightarrow>
          if x < 0 \<or> of_int \<lceil>x\<rceil> \<noteq> x then Rejected
          else and_then (to_integer 0 (2 ^ 64 - 1) x) (\<lambda>n. Returns (fold (\<lambda>i t. d_rd D (t * of_int i)) [2..n] 1))
      | Arith_SQRT \<Rightarrow> if x < 0 then Rejected else Returns (d_sqrt D x)
      | _ \<Rightarrow> Rejected)"

text \<open>The absolute value, or the negation of a number that is not positive: the distance of the least number
  of a type from zero is not in the type, and the value stays what it was.\<close>

definition negate_negative :: "GenericValue \<Rightarrow> int \<Rightarrow> GenericValue outcome" where
  "negate_negative one x =
     (if 0 \<le> x then Returns one
      else and_then (checked 64 (- x)) (\<lambda>y.
        let t = val_type one
        in if t = INT32 \<and> y = - (2 ^ 63) \<or> t = INT16 \<and> y = 2 ^ 15 \<or> t = INT8 \<and> y = 2 ^ 7
             \<or> t = INT4 \<and> y = 8 \<or> t \<notin> {INT64, INT32, INT16, INT8, INT4} \<and> y = 2
           then Returns one else Returns (store_signed t y)))"

definition apply_signed :: "double_ops \<Rightarrow> ArithmeticOperation \<Rightarrow> GenericValue \<Rightarrow> int \<Rightarrow> GenericValue outcome" where
  "apply_signed D op one x =
     (let t = val_type one
      in if op = Arith_ABS \<or> op = Arith_FLIP_SIGN \<and> x \<le> 0 then negate_negative one x
         else if op = Arith_FLIP_SIGN then Returns (store_signed t (- x))
         else if op = Arith_FACTORIAL then
           if x < 0 \<or> 20 < x then Rejected
           else let f = factorial_loop x
                in if t \<in> {INT64, INT32, INT16, INT8} then Returns (store_signed t f)
                   else if t = INT4 then Returns (store_signed t (lower_to 7 16 (to_char f)))
                   else Returns (store_signed t (lower_to 1 4 (to_char f)))
         else if op = Arith_SQRT then
           if x < 0 then Rejected
           else mapped (store_signed t) (to_integer (- (2 ^ 63)) (2 ^ 63 - 1) (d_sqrt D (d_rd D (of_int x))))
         else Rejected)"

definition apply_unsigned :: "double_ops \<Rightarrow> ArithmeticOperation \<Rightarrow> GenericValue \<Rightarrow> GenericValue outcome" where
  "apply_unsigned D op one =
     (let t = val_type one
      in if op = Arith_ABS then Returns one
         else if op = Arith_FLIP_SIGN then Rejected
         else if op = Arith_FACTORIAL then
           if t = BOOL then Returns (bool_value True)
           else and_then (GetUnsignedIntegerValue one) (\<lambda>x.
             if 20 < x then Rejected
             else let f = factorial_loop x
                  in if t \<in> {UINT64, UINT32, UINT16, UINT8} then Returns (store_unsigned t f)
                     else if t = UINT4 then Returns (store_unsigned t (lower_to 15 16 (to_char f)))
                     else Returns (store_unsigned t (lower_to 3 4 (to_char f))))
         else if op = Arith_SQRT then
           if t = BOOL then Returns one
           else and_then (GetUnsignedIntegerValue one) (\<lambda>x.
             mapped (store_unsigned t) (to_integer 0 (2 ^ 64 - 1) (d_sqrt D (d_rd D (of_int x)))))
         else Rejected)"

definition apply_arithmetic :: "double_ops \<Rightarrow> ArithmeticOperation \<Rightarrow> GenericValue \<Rightarrow> GenericValue outcome" where
  "apply_arithmetic D op one =
     (if \<not> IsNumericDataType (val_type one) then Rejected
      else if val_type one = DOUBLE then
        and_then (stored_double (val_object one)) (\<lambda>x. mapped double_value (apply_double D op x))
      else if IsSignedDataType (val_type one) then
        and_then (GetSignedIntegerValue one) (apply_signed D op one)
      else apply_unsigned D op one)"

definition apply_circuit :: "double_ops \<Rightarrow> CircuitOperation \<Rightarrow> GenericValue \<Rightarrow> GenericValue outcome" where
  "apply_circuit D op one =
     (case op of
        Gate_IDENTITY \<Rightarrow> apply_boolean Bool_IDENTITY one
      | Gate_NOT \<Rightarrow> apply_boolean Bool_NOT one
      | Gate_SELF \<Rightarrow> apply_arithmetic D Arith_IDENTITY one
      | Gate_ABS \<Rightarrow> apply_arithmetic D Arith_ABS one
      | Gate_FLIP_SIGN \<Rightarrow> apply_arithmetic D Arith_FLIP_SIGN one
      | Gate_FACTORIAL \<Rightarrow> apply_arithmetic D Arith_FACTORIAL one
      | Gate_SQRT \<Rightarrow> apply_arithmetic D Arith_SQRT one
      | _ \<Rightarrow> Rejected)"

text \<open>Applying an operation of the enumeration for mathematics always ends the program.\<close>

definition apply_value :: "double_ops \<Rightarrow> OperationHolder \<Rightarrow> GenericValue \<Rightarrow> GenericValue outcome" where
  "apply_value D op one =
     (case op_type op of
        OP_MATH \<Rightarrow> Fails
      | OP_BOOLEAN \<Rightarrow> apply_boolean (gate_op op) one
      | OP_ARITHMETIC \<Rightarrow> apply_arithmetic D (arithmetic_op op) one
      | _ \<Rightarrow> Rejected)"

end
