(* ===== verification/Value_Arithmetic.thy ===== *)
theory Value_Arithmetic
  imports Value_Operators
begin

text \<open>
  What the operators on values of \<open>Util/data_structures.cpp\<close> compute: comparison of integers of any two types
  is comparison of the numbers, and sums, differences and products are those of the documented rule,
  arithmetic modulo the size of the larger type, for the arguments the rule holds of.
\<close>

subsection \<open>Comparison\<close>

lemma sliceless_u64: "val_type v \<noteq> SLICE \<Longrightarrow> is_u64 (val_type v) \<longleftrightarrow> val_type v = UINT64"
  by auto

lemma u64_positive: "wf_int v \<Longrightarrow> val_type v = UINT64 \<Longrightarrow> 0 \<le> int_of v"
  by (erule wf_int_cases) (simp_all add: int_of_def)

lemmas integer_readers = both_def read_signed read_unsigned sliceless_u64 or_false_def

lemma integer_eq_exact:
  "wf_int v \<Longrightarrow> wf_int w \<Longrightarrow> val_type v \<noteq> SLICE \<Longrightarrow> val_type w \<noteq> SLICE \<Longrightarrow>
   integer_eq v w = Returns (int_of v = int_of w)"
  using u64_positive [of v] u64_positive [of w]
  by (auto simp: integer_eq_def integer_readers)

lemma integer_lt_exact:
  "wf_int v \<Longrightarrow> wf_int w \<Longrightarrow> val_type v \<noteq> SLICE \<Longrightarrow> val_type w \<noteq> SLICE \<Longrightarrow>
   integer_lt v w = Returns (int_of v < int_of w)"
  using u64_positive [of v] u64_positive [of w]
  by (auto simp: integer_lt_def integer_readers)

lemma compare_integers_exact:
  "wf_int v \<Longrightarrow> wf_int w \<Longrightarrow> val_type v \<noteq> SLICE \<Longrightarrow> val_type w \<noteq> SLICE \<Longrightarrow>
   compare_integers op v w = compare_op op (int_of v) (int_of w)"
  using u64_positive [of v] u64_positive [of w]
  by (cases op) (auto simp: compare_integers_def integer_readers)

lemma wf_int_operands:
  "wf_int v \<Longrightarrow> wf_int w \<Longrightarrow> value_eq D v w = integer_eq v w \<and> value_lt D v w = integer_lt v w"
  using wf_int_not [of v] wf_int_not [of w] by (cases v; cases w) simp

text \<open>Comparison of typed integers is comparison of the numbers: for two integers of any types other than
  slices, signed or not and of any sizes, the comparison operators and the C++ operators \<open>==\<close>, \<open><\<close>, \<open><=\<close>, \<open>>\<close>
  and \<open>>=\<close> of values give what the numbers give.\<close>

theorem comparison_exact:
  assumes "wf_int v" "wf_int w" "val_type v \<noteq> SLICE" "val_type w \<noteq> SLICE" "op \<noteq> COMP_UNKNOWN"
  shows "merge_comparison op v w = mapped bool_value (compare_op op (int_of v) (int_of w))
    \<and> value_eq D v w = Returns (int_of v = int_of w) \<and> value_lt D v w = Returns (int_of v < int_of w)
    \<and> value_le D v w = Returns (int_of v \<le> int_of w) \<and> value_gt D v w = Returns (int_of w < int_of v)
    \<and> value_ge D v w = Returns (int_of w \<le> int_of v)"
  using assms wf_int_not [of v] wf_int_not [of w] wf_int_operands [of v w D]
  by (auto simp: merge_comparison_def compare_integers_exact integer_eq_exact integer_lt_exact
      value_le_def value_gt_def value_ge_def either_holds_def)

theorem comparison_exact_witness:
  "value_lt \<lparr>d_rd = id, d_pow = (\<lambda>_ _. 0), d_sqrt = id\<rparr> (char_value (- 1)) (uint64_value 0) = Returns True
   \<and> merge_comparison COMP_GTE (char_value (- 1)) (uint64_value 0) = Returns (bool_value False)"
  using comparison_exact [of "char_value (- 1)" "uint64_value 0" COMP_GTE
    "\<lparr>d_rd = id, d_pow = (\<lambda>_ _. 0), d_sqrt = id\<rparr>"]
  by (simp add: uint64_value_def char_value_def wf_int_def fits_def int_of_def type_tests)

lemma slice_comparison:
  assumes "wf_int v" "val_type v = SLICE"
  shows "value_eq D v v = Returns False" "value_lt D v v = Returns False"
    "merge_comparison op v v = Rejected"
  using assms wf_int_not [of v] wf_int_operands [of v v D]
  by (simp_all add: integer_eq_def integer_lt_def merge_comparison_def compare_integers_def integer_readers)

subsection \<open>Arithmetic\<close>

definition ring_op :: "ArithmeticOperation \<Rightarrow> int \<Rightarrow> int \<Rightarrow> int" where
  "ring_op op a b = (if op = Arith_ADD then a + b else if op = Arith_SUB then a - b else a * b)"

abbreviation ring_ops :: "ArithmeticOperation set" where
  "ring_ops \<equiv> {Arith_ADD, Arith_SUB, Arith_MULT}"

lemma ring_op_cong:
  "a mod k = a' mod k \<Longrightarrow> b mod k = b' mod k \<Longrightarrow> ring_op op a b mod k = ring_op op a' b' mod k"
  by (auto simp: ring_op_def intro: mod_add_cong mod_diff_cong mod_mult_cong)

lemma int_op_ring: "op \<in> ring_ops \<Longrightarrow> int_op ring conv D op a b = ring (ring_op op a b)"
  by (auto simp: int_op_def ring_op_def)

text \<open>The value \<open>r\<close> is the number \<open>x\<close> modulo the size of its type \<open>t\<close>.\<close>

definition represents :: "DataType \<Rightarrow> int \<Rightarrow> GenericValue \<Rightarrow> bool" where
  "represents t x r \<longleftrightarrow> wf_int r \<and> val_type r = t \<and> int_of r mod 2 ^ type_bits t = x mod 2 ^ type_bits t"

lemma mod_signed: "signed_take_bit n x mod 2 ^ Suc n = (x :: int) mod 2 ^ Suc n"
  using take_bit_signed_take_bit [of "Suc n" n x] by (simp only: take_bit_eq_mod order_refl if_True)

lemma sint_mod: "sint (word_of_int x :: 'a::len word) mod 2 ^ LENGTH('a) = x mod 2 ^ LENGTH('a)"
  using mod_signed [of "LENGTH('a) - 1" x] by (simp add: sint_sbintrunc' del: power_Suc)

lemma uint_mod: "uint (word_of_int x :: 'a::len word) mod 2 ^ LENGTH('a) = x mod 2 ^ LENGTH('a)"
  by (simp add: uint_word_of_int)

lemma representsI:
  "fits d t \<Longrightarrow> object_int d mod 2 ^ type_bits t = x mod 2 ^ type_bits t \<Longrightarrow> represents t x (GenericValue t (Some d))"
  by (simp add: represents_def wf_int_def int_of_def)

lemma represents_UINT64: "represents UINT64 x (GenericValue UINT64 (Some (Uint64Data (word_of_int x))))"
  using uint_mod [where 'a = 64, of x] by (intro representsI) (simp_all add: fits_def type_bits_def)

lemma represents_INT64: "represents INT64 x (GenericValue INT64 (Some (Int64Data (word_of_int x))))"
  using sint_mod [where 'a = 64, of x] by (intro representsI) (simp_all add: fits_def type_bits_def)

lemma represents_UINT32: "represents UINT32 x (GenericValue UINT32 (Some (Uint32Data (word_of_int x))))"
  using uint_mod [where 'a = 32, of x] by (intro representsI) (simp_all add: fits_def type_bits_def)

lemma represents_INT32: "represents INT32 x (GenericValue INT32 (Some (Int32Data (word_of_int x))))"
  using sint_mod [where 'a = 32, of x] by (intro representsI) (simp_all add: fits_def type_bits_def)

lemma represents_UINT16: "represents UINT16 x (GenericValue UINT16 (Some (Uint16Data (word_of_int x))))"
  using uint_mod [where 'a = 16, of x] by (intro representsI) (simp_all add: fits_def type_bits_def)

lemma represents_INT16: "represents INT16 x (GenericValue INT16 (Some (Int16Data (word_of_int x))))"
  using sint_mod [where 'a = 16, of x] by (intro representsI) (simp_all add: fits_def type_bits_def)

lemma represents_UINT8: "represents UINT8 x (GenericValue UINT8 (Some (Uint8Data (word_of_int x))))"
  using uint_mod [where 'a = 8, of x] by (intro representsI) (simp_all add: fits_def type_bits_def)

lemma represents_INT8: "represents INT8 x (GenericValue INT8 (Some (Int8Data (word_of_int x))))"
  using sint_mod [where 'a = 8, of x] by (intro representsI) (simp_all add: fits_def type_bits_def)

lemmas represents_wide = represents_UINT64 represents_INT64 represents_UINT32 represents_INT32
  represents_UINT16 represents_INT16 represents_UINT8 represents_INT8

lemma small_words: "- 128 \<le> x \<Longrightarrow> x < 128 \<Longrightarrow> sint (word_of_int x :: u8) = x" "0 \<le> x \<Longrightarrow> x < 256 \<Longrightarrow> uint (word_of_int x :: u8) = x"
  by (simp_all add: sint_sbintrunc' signed_take_bit_int_eq_self uint_word_of_int)

lemma represents_small:
  "0 \<le> y \<Longrightarrow> y \<le> 15 \<Longrightarrow> y mod 16 = x mod 16 \<Longrightarrow> represents UINT4 x (GenericValue UINT4 (Some (Uint4Data (word_of_int y))))"
  "- 8 \<le> y \<Longrightarrow> y \<le> 7 \<Longrightarrow> y mod 16 = x mod 16 \<Longrightarrow> represents INT4 x (GenericValue INT4 (Some (Int4Data (word_of_int y))))"
  "0 \<le> y \<Longrightarrow> y \<le> 3 \<Longrightarrow> y mod 4 = x mod 4 \<Longrightarrow> represents UINT2 x (GenericValue UINT2 (Some (Uint2Data (word_of_int y))))"
  "- 2 \<le> y \<Longrightarrow> y \<le> 1 \<Longrightarrow> y mod 4 = x mod 4 \<Longrightarrow> represents INT2 x (GenericValue INT2 (Some (Int2Data (word_of_int y))))"
  by (simp_all add: represents_def wf_int_def fits_def type_bits_def int_of_def small_words)

text \<open>The loops and conditional expressions of the small types.\<close>

lemma raise_to_range: "0 < k \<Longrightarrow> lo \<le> raise_to lo k t \<and> (t < lo + int k \<longrightarrow> raise_to lo k t < lo + int k) \<and> t \<le> raise_to lo k t
   \<and> (lo \<le> t \<longrightarrow> raise_to lo k t = t) \<and> raise_to lo k t mod int k = t mod int k"
proof (induction lo k t rule: raise_to.induct)
  case (1 lo k t)
  then show ?case
    by (subst (1 2 3 4 5) raise_to.simps) auto
qed

lemma lower_to_range: "0 < k \<Longrightarrow> lower_to hi k t \<le> hi \<and> (hi - int k < t \<longrightarrow> hi - int k < lower_to hi k t)
   \<and> lower_to hi k t mod int k = t mod int k"
proof (induction hi k t rule: lower_to.induct)
  case (1 hi k t)
  then show ?case
    by (subst (1 2 3) lower_to.simps) auto
qed

lemma into_range: "lo \<le> hi \<Longrightarrow> lo \<le> into_range lo hi t \<and> into_range lo hi t \<le> hi \<and> into_range lo hi t mod (hi - lo + 1) = t mod (hi - lo + 1)"
  using raise_to_range [of "nat (hi - lo + 1)" lo t] lower_to_range [of "nat (hi - lo + 1)" hi "raise_to lo (nat (hi - lo + 1)) t"]
  by (auto simp: into_range_def Let_def)

lemma to_char_mod: "to_char x mod 256 = x mod 256"
  using mod_signed [of 7 x] by (simp add: to_char_def)

lemma to_char_same: "- 128 \<le> x \<Longrightarrow> x < 128 \<Longrightarrow> to_char x = x"
  by (simp add: to_char_def signed_take_bit_int_eq_self)

lemma to_char_mod_small: "k dvd 256 \<Longrightarrow> to_char x mod k = x mod k"
  by (metis to_char_mod mod_mod_cancel)

text \<open>The branch of the code, by the size of the larger type.\<close>

lemma type_sizes:
  assumes "IsIntegerDataType t"
  shows "t \<in> {UINT64, SLICE, INT64} \<longleftrightarrow> type_bits t = 64" "t \<in> {UINT32, INT32} \<longleftrightarrow> type_bits t = 32"
    "t \<in> {UINT16, INT16} \<longleftrightarrow> type_bits t = 16" "t \<in> {UINT8, INT8} \<longleftrightarrow> type_bits t = 8"
    "t \<in> {UINT4, INT4} \<longleftrightarrow> type_bits t = 4" "t \<in> {UINT2, INT2} \<longleftrightarrow> type_bits t = 2"
    "type_bits t \<in> {1, 2, 4, 8, 16, 32, 64}"
  using assms by (cases t; simp add: type_tests)+

definition larger_bits :: "GenericValue \<Rightarrow> GenericValue \<Rightarrow> nat" where
  "larger_bits v w = max (type_bits (val_type v)) (type_bits (val_type w))"

lemma merge_integers_branch:
  assumes "IsIntegerDataType (val_type v)" "IsIntegerDataType (val_type w)"
  shows "merge_integers D op v w =
    (let n = larger_bits v w; s = IsSignedDataType (val_type w)
     in if n = 64 then if s then merge_s64 D op v w else merge_u64 D op v w
        else if n = 32 then if s then merge_s32 D op v w else merge_u32 D op v w
        else if n = 16 then if s then merge_s16 D op v w else merge_u16 D op v w
        else if n = 8 then if s then merge_s8 D op v w else merge_u8 D op v w
        else if n = 4 then if s then merge_s4 D op v w else merge_u4 D op v w
        else if n = 2 then if s then merge_s2 D op v w else merge_u2 D op v w
        else merge_bool op v w)"
proof -
  have ends: "type_bits (val_type v) \<le> 64" "type_bits (val_type w) \<le> 64"
    using type_sizes(7) [OF assms(1)] type_sizes(7) [OF assms(2)] by auto
  define n where "n = larger_bits v w"
  have "n = 64 \<longleftrightarrow> type_bits (val_type v) = 64 \<or> type_bits (val_type w) = 64"
    using ends by (auto simp: n_def larger_bits_def)
  moreover have "n \<noteq> 64 \<Longrightarrow> n = 32 \<longleftrightarrow> type_bits (val_type v) = 32 \<or> type_bits (val_type w) = 32"
    using type_sizes(7) [OF assms(1)] type_sizes(7) [OF assms(2)] by (auto simp: n_def larger_bits_def)
  moreover have "n \<noteq> 64 \<Longrightarrow> n \<noteq> 32 \<Longrightarrow> n = 16 \<longleftrightarrow> type_bits (val_type v) = 16 \<or> type_bits (val_type w) = 16"
    using type_sizes(7) [OF assms(1)] type_sizes(7) [OF assms(2)] by (auto simp: n_def larger_bits_def)
  moreover have "n \<noteq> 64 \<Longrightarrow> n \<noteq> 32 \<Longrightarrow> n \<noteq> 16 \<Longrightarrow> n = 8 \<longleftrightarrow> type_bits (val_type v) = 8 \<or> type_bits (val_type w) = 8"
    using type_sizes(7) [OF assms(1)] type_sizes(7) [OF assms(2)] by (auto simp: n_def larger_bits_def)
  moreover have "n \<noteq> 64 \<Longrightarrow> n \<noteq> 32 \<Longrightarrow> n \<noteq> 16 \<Longrightarrow> n \<noteq> 8 \<Longrightarrow>
      n = 4 \<longleftrightarrow> type_bits (val_type v) = 4 \<or> type_bits (val_type w) = 4"
    using type_sizes(7) [OF assms(1)] type_sizes(7) [OF assms(2)] by (auto simp: n_def larger_bits_def)
  moreover have "n \<noteq> 64 \<Longrightarrow> n \<noteq> 32 \<Longrightarrow> n \<noteq> 16 \<Longrightarrow> n \<noteq> 8 \<Longrightarrow> n \<noteq> 4 \<Longrightarrow>
      n = 2 \<longleftrightarrow> type_bits (val_type v) = 2 \<or> type_bits (val_type w) = 2"
    using type_sizes(7) [OF assms(1)] type_sizes(7) [OF assms(2)] by (auto simp: n_def larger_bits_def)
  ultimately show ?thesis
    unfolding merge_integers_def Let_def type_sizes(1-6) [OF assms(1)] type_sizes(1-6) [OF assms(2)]
    by (simp flip: n_def)
qed

lemma integer_range:
  assumes "wf_int v" "type_bits (val_type v) \<le> n"
  shows "int_of v < 2 ^ n" "IsSignedDataType (val_type v) \<Longrightarrow> - (2 ^ (n - 1)) \<le> int_of v \<and> int_of v < 2 ^ (n - 1)"
    "\<not> IsSignedDataType (val_type v) \<Longrightarrow> 0 \<le> int_of v"
proof -
  let ?k = "type_bits (val_type v)"
  have r: "int_range (IsSignedDataType (val_type v)) ?k (int_of v)"
    using assms(1) by (rule wf_int_range)
  have p: "(2::int) ^ (?k - 1) \<le> 2 ^ (n - 1)" "(2::int) ^ ?k \<le> 2 ^ n" "(2::int) ^ (?k - 1) \<le> 2 ^ n"
    using assms(2) by (auto intro!: power_increasing)
  show "int_of v < 2 ^ n" "IsSignedDataType (val_type v) \<Longrightarrow> - (2 ^ (n - 1)) \<le> int_of v \<and> int_of v < 2 ^ (n - 1)"
    "\<not> IsSignedDataType (val_type v) \<Longrightarrow> 0 \<le> int_of v"
    using r p unfolding int_range_def
    by (cases "IsSignedDataType (val_type v)"; simp only: if_True if_False not_True_eq_False simp_thms; linarith)+
qed

lemma merge_ring:
  assumes "wf_int v" "wf_int w" "val_type v \<noteq> SLICE" "val_type w \<noteq> SLICE" "op \<in> ring_ops"
  shows "merge_arithmetic D op v w = merge_integers D op v w"
  using assms wf_int_not [of v] wf_int_not [of w]
  by (auto simp: merge_arithmetic_def merge_scalars_def)

text \<open>What the hypotheses of the rule leave out: signed arithmetic of the C++ types that overflows, which is
  undefined, so for 64 and 32 bits, and for products of unsigned 16-bit numbers, computed as \<open>int\<close>.\<close>

definition c_defined :: "bool \<Rightarrow> nat \<Rightarrow> ArithmeticOperation \<Rightarrow> int \<Rightarrow> int \<Rightarrow> bool" where
  "c_defined s n op a b \<longleftrightarrow>
     (if s \<and> n \<ge> 32 then int_range True n (ring_op op (signed_take_bit (n - 1) a) (signed_take_bit (n - 1) b))
      else \<not> s \<and> n = 16 \<longrightarrow> ring_op op a b < 2 ^ 31)"

lemma checked_in: "- (2 ^ (n - 1)) \<le> x \<Longrightarrow> x < 2 ^ (n - 1) \<Longrightarrow> checked n x = Returns x"
  by (simp add: checked_def)

lemma product_bound:
  fixes a b :: int
  assumes "\<bar>a\<bar> \<le> k" "\<bar>b\<bar> \<le> k"
  shows "\<bar>a * b\<bar> \<le> k * k"
  using assms by (simp add: abs_mult mult_mono)

lemma ring_op_bound:
  assumes "\<bar>a\<bar> \<le> k" "\<bar>b\<bar> \<le> k" "2 \<le> k"
  shows "\<bar>ring_op op a b\<bar> \<le> k * k"
proof -
  have "k + k \<le> k * k"
    using assms(3) mult_right_mono [of 2 k k] by simp
  moreover have "\<bar>a + b\<bar> \<le> k + k" "\<bar>a - b\<bar> \<le> k + k"
    using assms by linarith+
  ultimately show ?thesis
    using product_bound [OF assms(1,2)] by (auto simp: ring_op_def)
qed

lemma word_of_take_bit: "word_of_int (take_bit LENGTH('a) x) = (word_of_int x :: 'a::len word)"
  by (simp add: word_of_int_eq_iff)

lemma merge_u64_ring:
  assumes "op \<in> ring_ops" "GetUnsignedIntegerValue v = Returns a" "GetUnsignedIntegerValue w = Returns b"
  obtains r where "merge_u64 D op v w = Returns r" "represents UINT64 (ring_op op a b) r"
  using assms represents_UINT64 [of "ring_op op a b"] word_of_take_bit [where 'a = 64]
  by (simp add: merge_u64_def both_def int_op_ring wraps_def)

lemma merge_s64_ring:
  assumes "op \<in> ring_ops" "IsSignedDataType (val_type w)"
    "GetUnsignedIntegerValue v = Returns a" "GetSignedIntegerValue w = Returns b"
    "int_range True 64 (ring_op op (signed_take_bit 63 a) b)"
  shows "\<exists>r. merge_s64 D op v w = Returns r \<and> represents INT64 (ring_op op (signed_take_bit 63 a) b) r"
  using assms represents_INT64 [of "ring_op op (signed_take_bit 63 a) b"]
  by (simp add: merge_s64_def both_def int_op_ring checked_def int_range_def)

lemma merge_u32_ring:
  assumes "op \<in> ring_ops" "as_unsigned 32 v = Returns a" "as_unsigned 32 w = Returns b"
  obtains r where "merge_u32 D op v w = Returns r" "represents UINT32 (ring_op op a b) r"
  using assms represents_UINT32 [of "ring_op op a b"] word_of_take_bit [where 'a = 32]
  by (simp add: merge_u32_def both_def int_op_ring wraps_def)

lemma merge_checked_ring:
  assumes "op \<in> ring_ops" "int_range True 32 (ring_op op a b)"
  shows "as_signed 32 v = Returns a \<Longrightarrow> as_signed 32 w = Returns b \<Longrightarrow>
      \<exists>r. merge_s32 D op v w = Returns r \<and> represents INT32 (ring_op op a b) r"
    "as_unsigned 16 v = Returns a \<Longrightarrow> as_unsigned 16 w = Returns b \<Longrightarrow>
      \<exists>r. merge_u16 D op v w = Returns r \<and> represents UINT16 (ring_op op a b) r"
    "as_signed 16 v = Returns a \<Longrightarrow> as_signed 16 w = Returns b \<Longrightarrow>
      \<exists>r. merge_s16 D op v w = Returns r \<and> represents INT16 (ring_op op a b) r"
    "as_unsigned 8 v = Returns a \<Longrightarrow> as_unsigned 8 w = Returns b \<Longrightarrow>
      \<exists>r. merge_u8 D op v w = Returns r \<and> represents UINT8 (ring_op op a b) r"
    "as_signed 8 v = Returns a \<Longrightarrow> as_signed 8 w = Returns b \<Longrightarrow>
      \<exists>r. merge_s8 D op v w = Returns r \<and> represents INT8 (ring_op op a b) r"
  using assms represents_wide [of "ring_op op a b"]
  by (simp_all add: merge_s32_def merge_u16_def merge_s16_def merge_u8_def merge_s8_def both_def int_op_ring
      checked_def int_range_def)

lemma small_unsigned_ring:
  assumes "op \<in> ring_ops" "hi = 3 \<or> hi = 15" "0 \<le> a" "a \<le> hi" "0 \<le> b" "b \<le> hi"
  obtains y where "small_unsigned hi D op a b = Returns y" "0 \<le> y" "y \<le> hi" "y mod (hi + 1) = ring_op op a b mod (hi + 1)"
proof -
  have sums: "to_char (a + b) = a + b" "to_char (a - b) = a - b"
    using assms(2-6) by (auto intro!: to_char_same)
  have k: "hi + 1 dvd 256" using assms(2) by auto
  have prod: "0 \<le> into_range 0 hi (to_char (a * b))" "into_range 0 hi (to_char (a * b)) \<le> hi"
    "into_range 0 hi (to_char (a * b)) mod (hi + 1) = a * b mod (hi + 1)"
    using into_range [of 0 hi "to_char (a * b)"] assms(3,4) to_char_mod_small [OF k] by auto
  have "(a + b) mod (hi + 1) = a + b - (hi + 1)" if "hi < a + b"
    using that assms(3-6) minus_mod_self2 [of "a + b" "hi + 1"] mod_pos_pos_trivial [of "a + b - (hi + 1)" "hi + 1"] by linarith
  moreover have "(a - b) mod (hi + 1) = a - b + (hi + 1)" if "a < b"
    using that assms(3-6) mod_add_self2 [of "a - b" "hi + 1"] mod_pos_pos_trivial [of "a - b + (hi + 1)" "hi + 1"] by linarith
  ultimately show ?thesis
    using assms(1,3-6) prod
    by (intro that [of "if op = Arith_ADD then if hi < a + b then a + b - (hi + 1) else a + b
          else if op = Arith_SUB then if a - b < 0 then a - b + (hi + 1) else a - b
          else into_range 0 hi (to_char (a * b))"])
      (auto simp: small_unsigned_def ring_op_def sums Let_def)
qed

lemma small_signed_ring:
  assumes "op \<in> ring_ops" "lo = - 2 \<and> hi = 1 \<or> lo = - 8 \<and> hi = 7"
    "lo \<le> a" "a \<le> hi + hi + 1" "lo \<le> b" "b \<le> hi"
  obtains y where "small_signed lo hi D op a b = Returns y" "lo \<le> y" "y \<le> hi"
    "y mod (hi - lo + 1) = ring_op op a b mod (hi - lo + 1)"
proof -
  have sums: "to_char (a + b) = a + b" "to_char (a - b) = a - b"
    using assms(2-6) by (auto intro!: to_char_same)
  have k: "hi - lo + 1 dvd 256" using assms(2) by auto
  have prod: "lo \<le> into_range lo hi (to_char (a * b))" "into_range lo hi (to_char (a * b)) \<le> hi"
    "into_range lo hi (to_char (a * b)) mod (hi - lo + 1) = a * b mod (hi - lo + 1)"
    using into_range [of lo hi "to_char (a * b)"] assms(2) to_char_mod_small [OF k] by auto
  have fold: "lo \<le> fold_once lo hi t \<and> fold_once lo hi t \<le> hi \<and> fold_once lo hi t mod (hi - lo + 1) = t mod (hi - lo + 1)"
    if "lo - (hi - lo + 1) \<le> t" "t \<le> hi + (hi - lo + 1)" for t
    using that assms(2) by (auto simp: fold_once_def minus_mod_self2)
  show ?thesis
    using assms prod fold [of "a + b"] fold [of "a - b"]
    by (intro that [of "if op = Arith_ADD then fold_once lo hi (a + b) else if op = Arith_SUB then fold_once lo hi (a - b)
          else into_range lo hi (to_char (a * b))"])
      (auto simp: small_signed_def ring_op_def sums)
qed

lemma read_as_unsigned:
  assumes "wf_int v" "val_type v \<noteq> SLICE" "\<not> IsSignedDataType (val_type v)" "type_bits (val_type v) \<le> n"
  shows "as_unsigned n v = Returns (int_of v)" "GetUnsignedIntegerValue v = Returns (int_of v)"
  using assms(2,3) integer_range [OF assms(1,4)] read_integer [OF assms(1)] read_unsigned [OF assms(1)]
  by (simp_all add: as_unsigned_def take_bit_int_eq_self)

lemma read_as_signed:
  assumes "wf_int v" "val_type v \<noteq> SLICE"
  shows "as_signed n v = Returns (signed_take_bit (n - 1) (int_of v))"
  using assms by (simp add: as_signed_def read_integer)

lemma represents_cong: "x mod 2 ^ type_bits t = y mod 2 ^ type_bits t \<Longrightarrow> represents t x r \<Longrightarrow> represents t y r"
  by (simp add: represents_def)

lemma signed_ring_cong:
  "0 < n \<Longrightarrow> ring_op op (signed_take_bit (n - 1) a) (signed_take_bit (n - 1) b) mod 2 ^ n = ring_op op a b mod 2 ^ n"
  by (intro ring_op_cong) (metis Suc_pred' mod_signed)+

text \<open>The result the rule of the header asks for: of the type with the bits of the larger type that is signed
  when one of the types is, and congruent to the exact result.\<close>

definition ruled :: "ArithmeticOperation \<Rightarrow> GenericValue \<Rightarrow> GenericValue \<Rightarrow> GenericValue outcome \<Rightarrow> bool" where
  "ruled op v w res \<longleftrightarrow>
     (\<exists>t r. res = Returns r
        \<and> GetIntegerDataType (IsSignedDataType (val_type v) \<or> IsSignedDataType (val_type w)) (int (larger_bits v w)) = Returns t
        \<and> represents t (ring_op op (int_of v) (int_of w)) r)"

lemma ruledI:
  "res = Returns r \<Longrightarrow> GetIntegerDataType s (int n) = Returns t \<Longrightarrow> represents t x r \<Longrightarrow> type_bits t = n \<Longrightarrow>
   s = (IsSignedDataType (val_type v) \<or> IsSignedDataType (val_type w)) \<Longrightarrow> n = larger_bits v w \<Longrightarrow>
   x mod 2 ^ n = ring_op op (int_of v) (int_of w) mod 2 ^ n \<Longrightarrow> ruled op v w res"
  unfolding ruled_def by (rule exI [of _ t], rule exI [of _ r]) (simp add: represents_def)

text \<open>The facts about the operands that every branch uses.\<close>

lemma larger_bits_le: "type_bits (val_type v) \<le> larger_bits v w" "type_bits (val_type w) \<le> larger_bits v w"
  by (simp_all add: larger_bits_def)

lemma larger_bits_sizes: "wf_int v \<Longrightarrow> wf_int w \<Longrightarrow> larger_bits v w \<in> {1, 2, 4, 8, 16, 32, 64}"
  using type_sizes(7) [OF wf_int_type [of v]] type_sizes(7) [OF wf_int_type [of w]]
  by (auto simp: larger_bits_def max_def)

lemma unsigned_operand:
  assumes "wf_int v" "val_type v \<noteq> SLICE" "\<not> IsSignedDataType (val_type v)" "type_bits (val_type v) \<le> n"
  shows "as_unsigned n v = Returns (int_of v) \<and> 0 \<le> int_of v \<and> int_of v < 2 ^ n"
  using read_as_unsigned [OF assms] integer_range [OF assms(1,4)] assms(3) by simp

lemmas branch_simps = GetIntegerDataType_def type_bits_def both_def

lemma unsigned_wide:
  assumes v: "wf_int v" "val_type v \<noteq> SLICE" "\<not> IsSignedDataType (val_type v)"
    and w: "wf_int w" "val_type w \<noteq> SLICE" "\<not> IsSignedDataType (val_type w)"
    and op: "op \<in> ring_ops" and c: "larger_bits v w = 16 \<Longrightarrow> ring_op op (int_of v) (int_of w) < 2 ^ 31"
    and n: "larger_bits v w = n" "n \<in> {8, 16, 32, 64}"
  shows "ruled op v w (merge_integers D op v w)"
proof -
  let ?x = "ring_op op (int_of v) (int_of w)"
  note branch = merge_integers_branch [OF wf_int_type [OF v(1)] wf_int_type [OF w(1)], of D op] n(1)
  have v_read: "as_unsigned n v = Returns (int_of v)" "0 \<le> int_of v" "int_of v < 2 ^ n"
    and w_read: "as_unsigned n w = Returns (int_of w)" "0 \<le> int_of w" "int_of w < 2 ^ n"
    using unsigned_operand [OF v] unsigned_operand [OF w] larger_bits_le [where v = v and w = w] n(1) by auto
  have long: "GetUnsignedIntegerValue v = Returns (int_of v)" "GetUnsignedIntegerValue w = Returns (int_of w)"
    using read_as_unsigned(2) [OF v larger_bits_le(1)] read_as_unsigned(2) [OF w larger_bits_le(2)] by auto
  have small: "int_range True 32 ?x" if "n \<in> {8, 16}"
    using that c n(1) v_read(2,3) w_read(2,3) ring_op_bound [of "int_of v" "2 ^ 8" "int_of w" op] op
    by (auto simp: int_range_def ring_op_def mult_nonneg_nonneg intro: order_trans [of _ 0])
  from n(2) consider "n = 64" | "n = 32" | "n = 16" | "n = 8" by auto
  then show ?thesis
  proof cases
    case 1
    show ?thesis
      by (rule merge_u64_ring [OF op long, of D], rule ruledI [where t = UINT64 and s = False and x = ?x and n = n])
        (use 1 v(3) w(3) branch in \<open>simp_all add: branch_simps\<close>)
  next
    case 2
    show ?thesis
      by (rule merge_u32_ring [OF op, of v "int_of v" w "int_of w" D],
          use v_read(1) w_read(1) 2 in simp, use v_read(1) w_read(1) 2 in simp,
          rule ruledI [where t = UINT32 and s = False and x = ?x and n = n])
        (use 2 v(3) w(3) branch in \<open>simp_all add: branch_simps\<close>)
  next
    case 3
    then obtain r where "merge_u16 D op v w = Returns r" "represents UINT16 ?x r"
      using merge_checked_ring(2) [OF op small] v_read(1) w_read(1) by blast
    then show ?thesis
      using 3 v(3) w(3) branch
      by (intro ruledI [where t = UINT16 and s = False and x = ?x and n = n]) (simp_all add: branch_simps)
  next
    case 4
    then obtain r where "merge_u8 D op v w = Returns r" "represents UINT8 ?x r"
      using merge_checked_ring(4) [OF op small] v_read(1) w_read(1) by blast
    then show ?thesis
      using 4 v(3) w(3) branch
      by (intro ruledI [where t = UINT8 and s = False and x = ?x and n = n]) (simp_all add: branch_simps)
  qed
qed

lemma unsigned_small:
  assumes v: "wf_int v" "val_type v \<noteq> SLICE" "\<not> IsSignedDataType (val_type v)"
    and w: "wf_int w" "val_type w \<noteq> SLICE" "\<not> IsSignedDataType (val_type w)"
    and op: "op \<in> ring_ops" and n: "larger_bits v w = n" "n \<in> {1, 2, 4}"
  shows "ruled op v w (merge_integers D op v w)"
proof -
  let ?x = "ring_op op (int_of v) (int_of w)"
  note branch = merge_integers_branch [OF wf_int_type [OF v(1)] wf_int_type [OF w(1)], of D op] n(1)
  have v_read: "as_unsigned 8 v = Returns (int_of v)" "0 \<le> int_of v" "int_of v < 2 ^ n"
    and w_read: "as_unsigned 8 w = Returns (int_of w)" "0 \<le> int_of w" "int_of w < 2 ^ n"
    using unsigned_operand [OF v] unsigned_operand [OF w] larger_bits_le [where v = v and w = w] n by auto
  from n(2) consider "n = 4" | "n = 2" | "n = 1" by auto
  then show ?thesis
  proof cases
    case 1
    obtain y where "small_unsigned 15 D op (int_of v) (int_of w) = Returns y" "0 \<le> y" "y \<le> 15" "y mod 16 = ?x mod 16"
      using small_unsigned_ring [OF op, of 15 "int_of v" "int_of w"] v_read(2,3) w_read(2,3) 1 by auto
    then show ?thesis
      using 1 v(3) w(3) v_read(1) w_read(1) represents_small(1) [of y ?x] branch
      by (intro ruledI [where t = UINT4 and s = False and x = ?x and n = n]) (simp_all add: branch_simps merge_u4_def)
  next
    case 2
    obtain y where "small_unsigned 3 D op (int_of v) (int_of w) = Returns y" "0 \<le> y" "y \<le> 3" "y mod 4 = ?x mod 4"
      using small_unsigned_ring [OF op, of 3 "int_of v" "int_of w"] v_read(2,3) w_read(2,3) 2 by auto
    then show ?thesis
      using 2 v(3) w(3) op v_read(1) w_read(1) represents_small(3) [of y ?x] branch
      by (intro ruledI [where t = UINT2 and s = False and x = ?x and n = n]) (auto simp: branch_simps merge_u2_def)
  next
    case 3
    then obtain a b where ab: "v = GenericValue BOOL (Some (BoolData a))" "w = GenericValue BOOL (Some (BoolData b))"
      using v w n(1) by (elim wf_int_cases) (auto simp: larger_bits_def type_bits_def)
    show ?thesis
      using op unfolding ruled_def ab
      by (auto simp: merge_integers_def merge_bool_def both_def GetIntegerValue_def type_tests larger_bits_def
          GetIntegerDataType_def represents_def wf_int_def fits_def int_of_def bool_value_def ring_op_def)
  qed
qed

lemma signed_take_bit_range: "0 < n \<Longrightarrow> \<bar>signed_take_bit (n - 1) x\<bar> \<le> 2 ^ (n - 1)" for x :: int
  using signed_take_bit_int_greater_eq_minus_exp [of "n - 1" x] signed_take_bit_int_less_exp [of "n - 1" x] by linarith

lemma signed_wide:
  assumes v: "wf_int v" "val_type v \<noteq> SLICE" and w: "wf_int w" "val_type w \<noteq> SLICE" "IsSignedDataType (val_type w)"
    and op: "op \<in> ring_ops" and c: "c_defined True n op (int_of v) (int_of w)" and long: "n = 64 \<Longrightarrow> 0 \<le> int_of v"
    and n: "larger_bits v w = n" "n \<in> {8, 16, 32, 64}"
  shows "ruled op v w (merge_integers D op v w)"
proof -
  let ?a = "signed_take_bit (n - 1) (int_of v)" and ?b = "signed_take_bit (n - 1) (int_of w)"
  let ?x = "ring_op op ?a ?b"
  note branch = merge_integers_branch [OF wf_int_type [OF v(1)] wf_int_type [OF w(1)], of D op] n(1)
  have read: "as_signed n v = Returns ?a" "as_signed n w = Returns ?b"
    using read_as_signed [OF v] read_as_signed [OF w(1,2)] by simp_all
  have "0 < n" using n(2) by auto
  then have x: "?x mod 2 ^ n = ring_op op (int_of v) (int_of w) mod 2 ^ n"
    by (rule signed_ring_cong)
  have "\<bar>?x\<bar> \<le> 2 ^ (n - 1) * 2 ^ (n - 1)"
    by (rule ring_op_bound) (use signed_take_bit_range [OF \<open>0 < n\<close>] n(2) in auto)
  then have small: "int_range True 32 ?x" if "n \<le> 32"
    using that c n(2) by (auto simp: int_range_def c_defined_def)
  from n(2) consider "n = 64" | "n = 32" | "n = 16" | "n = 8" by auto
  then show ?thesis
  proof cases
    case 1
    have "val_type w \<noteq> UINT64" using w(3) by (auto simp: type_tests)
    moreover have "?b = int_of w"
      using integer_range(2) [OF w(1) _ w(3)] larger_bits_le(2) [of w v] n(1) by (simp add: signed_take_bit_int_eq_self)
    ultimately have "GetUnsignedIntegerValue v = Returns (int_of v)" "GetSignedIntegerValue w = Returns ?b"
      using v w(2) long [OF 1] by (simp_all add: read_unsigned read_signed w(1))
    then obtain r where "merge_s64 D op v w = Returns r" "represents INT64 ?x r"
      using merge_s64_ring [OF op w(3), of v "int_of v" ?b D] c 1 by (auto simp: c_defined_def)
    then show ?thesis
      using 1 w(3) branch x
      by (intro ruledI [where t = INT64 and s = True and x = ?x and n = n]) (simp_all add: branch_simps)
  next
    case 2
    then obtain r where "merge_s32 D op v w = Returns r" "represents INT32 ?x r"
      using merge_checked_ring(1) [OF op small] read by fastforce
    then show ?thesis
      using 2 w(3) branch x
      by (intro ruledI [where t = INT32 and s = True and x = ?x and n = n]) (simp_all add: branch_simps)
  next
    case 3
    then obtain r where "merge_s16 D op v w = Returns r" "represents INT16 ?x r"
      using merge_checked_ring(3) [OF op small] read by fastforce
    then show ?thesis
      using 3 w(3) branch x
      by (intro ruledI [where t = INT16 and s = True and x = ?x and n = n]) (simp_all add: branch_simps)
  next
    case 4
    then obtain r where "merge_s8 D op v w = Returns r" "represents INT8 ?x r"
      using merge_checked_ring(5) [OF op small] read by fastforce
    then show ?thesis
      using 4 w(3) branch x
      by (intro ruledI [where t = INT8 and s = True and x = ?x and n = n]) (simp_all add: branch_simps)
  qed
qed

lemma signed_small:
  assumes v: "wf_int v" "val_type v \<noteq> SLICE" and w: "wf_int w" "val_type w \<noteq> SLICE" "IsSignedDataType (val_type w)"
    and op: "op \<in> ring_ops" and n: "larger_bits v w = n" "n \<in> {1, 2, 4}"
  shows "ruled op v w (merge_integers D op v w)"
proof -
  let ?x = "ring_op op (int_of v) (int_of w)"
  note branch = merge_integers_branch [OF wf_int_type [OF v(1)] wf_int_type [OF w(1)], of D op] n(1)
  have bits: "type_bits (val_type v) \<le> n" "type_bits (val_type w) \<le> n"
    using larger_bits_le [where v = v and w = w] n(1) by auto
  have range: "- (2 ^ (n - 1)) \<le> int_of v" "int_of v < 2 ^ n" "- (2 ^ (n - 1)) \<le> int_of w" "int_of w < 2 ^ (n - 1)"
    using integer_range [OF v(1) bits(1)] integer_range(2) [OF w(1) bits(2) w(3)]
    by (cases "IsSignedDataType (val_type v)"; force intro: order_trans [of _ 0])+
  have read: "as_signed 8 v = Returns (int_of v)" "as_signed 8 w = Returns (int_of w)"
    using read_as_signed [OF v, of 8] read_as_signed [OF w(1,2), of 8] range n(2)
    by (auto simp: signed_take_bit_int_eq_self)
  have "n \<noteq> 1"
    using bits(2) w(3) by (auto simp: type_tests)
  then consider "n = 4" | "n = 2" using n(2) by auto
  then show ?thesis
  proof cases
    case 1
    obtain y where "small_signed (- 8) 7 D op (int_of v) (int_of w) = Returns y" "- 8 \<le> y" "y \<le> 7" "y mod 16 = ?x mod 16"
      using small_signed_ring [OF op, of "- 8" 7 "int_of v" "int_of w"] range 1 by auto
    then show ?thesis
      using 1 w(3) read represents_small(2) [of y ?x] branch
      by (intro ruledI [where t = INT4 and s = True and x = ?x and n = n]) (simp_all add: branch_simps merge_s4_def)
  next
    case 2
    obtain y where "small_signed (- 2) 1 D op (int_of v) (int_of w) = Returns y" "- 2 \<le> y" "y \<le> 1" "y mod 4 = ?x mod 4"
      using small_signed_ring [OF op, of "- 2" 1 "int_of v" "int_of w"] range 2 by auto
    then show ?thesis
      using 2 w(3) read represents_small(4) [of y ?x] branch
      by (intro ruledI [where t = INT2 and s = True and x = ?x and n = n]) (simp_all add: branch_simps merge_s2_def)
  qed
qed

text \<open>C31: Sums, differences and products follow the rule of the header for output types: for integers in the range
  of their types, other than slices, the result has the bits of the larger type, is signed when one of the types
  is, and equals the exact result modulo \<open>2 ^ bits\<close>. The hypotheses name where the code does not: a first
  argument that is signed when the second is not, a negative first argument next to 64 bits, and what C++ leaves
  undefined, an overflow of signed 32-bit and 64-bit arithmetic or of a product of unsigned 16-bit numbers.\<close>

theorem arithmetic_ruled:
  assumes "wf_int v" "val_type v \<noteq> SLICE" "wf_int w" "val_type w \<noteq> SLICE" "op \<in> {Arith_ADD, Arith_SUB, Arith_MULT}"
    and "IsSignedDataType (val_type v) \<longrightarrow> IsSignedDataType (val_type w)"
    and "larger_bits v w = 64 \<and> IsSignedDataType (val_type w) \<longrightarrow> 0 \<le> int_of v"
    and "c_defined (IsSignedDataType (val_type w)) (larger_bits v w) op (int_of v) (int_of w)"
  shows "ruled op v w (merge_arithmetic D op v w)"
proof -
  let ?n = "larger_bits v w"
  have n: "?n \<in> {8, 16, 32, 64} \<or> ?n \<in> {1, 2, 4}"
    using larger_bits_sizes [OF assms(1,3)] by auto
  have "ruled op v w (merge_integers D op v w)"
  proof (cases "IsSignedDataType (val_type w)")
    case True
    have "c_defined True ?n op (int_of v) (int_of w)" "?n = 64 \<Longrightarrow> 0 \<le> int_of v"
      using assms(7,8) True by auto
    then show ?thesis
      using n signed_wide [OF assms(1-4) True assms(5) _ _ refl] signed_small [OF assms(1-4) True assms(5) refl] by blast
  next
    case False
    then have u: "\<not> IsSignedDataType (val_type v)" using assms(6) by blast
    have "?n = 16 \<Longrightarrow> ring_op op (int_of v) (int_of w) < 2 ^ 31"
      using assms(8) False by (simp add: c_defined_def)
    then show ?thesis
      using n unsigned_wide [OF assms(1,2) u assms(3,4) False assms(5) _ refl]
        unsigned_small [OF assms(1,2) u assms(3,4) False assms(5) refl] by blast
  qed
  then show ?thesis
    using merge_ring [OF assms(1,3,2,4,5)] by simp
qed

theorem arithmetic_ruled_witness:
  "\<exists>r. merge_arithmetic \<lparr>d_rd = id, d_pow = (\<lambda>_ _. 0), d_sqrt = id\<rparr> Arith_SUB
     (GenericValue UINT4 (Some (Uint4Data 14))) (GenericValue INT2 (Some (Int2Data (- 2)))) = Returns r
   \<and> represents INT4 16 r"
  using arithmetic_ruled [of "GenericValue UINT4 (Some (Uint4Data 14))" "GenericValue INT2 (Some (Int2Data (- 2)))" Arith_SUB
      "\<lparr>d_rd = id, d_pow = (\<lambda>_ _. 0), d_sqrt = id\<rparr>"]
  by (simp add: wf_int_def fits_def type_tests larger_bits_def c_defined_def ruled_def GetIntegerDataType_def int_of_def
      ring_op_def)

text \<open>An operation of 64 bits whose first argument is negative is refused, whatever the second argument is, and the
  operator \<open>+=\<close> ends the program: the first argument is read as an unsigned number in both 64-bit branches.\<close>

theorem negative_first_refused:
  assumes "wf_int v" "wf_int w" "int_of v < 0" "larger_bits v w = 64"
    and "op \<notin> {Arith_VEC, Arith_ARGMIN, Arith_ARGMAX, Arith_ARGMIN_INTERNAL, Arith_ARGMAX_INTERNAL}"
  shows "merge_arithmetic D op v w = Rejected \<and> value_add D v w = Fails"
proof -
  have unsigned: "GetUnsignedIntegerValue v = Rejected"
    using assms(1,3) by (simp add: read_unsigned)
  have "GetSignedIntegerValue w = Returns (int_of w)" if "IsSignedDataType (val_type w)"
    using that assms(2) by (auto simp: read_signed type_tests)
  then have "merge_integers D a v w = Rejected" for a
    using merge_integers_branch [OF wf_int_type [OF assms(1)] wf_int_type [OF assms(2)], of D a] assms(4) unsigned
    by (simp add: merge_u64_def merge_s64_def both_def)
  then show ?thesis
    using assms(5) wf_int_not [OF assms(1)] wf_int_not [OF assms(2)]
    by (auto simp: merge_arithmetic_def merge_scalars_def value_add_def merge_or_die_def merge_math_def)
qed

theorem negative_first_refused_witness:
  "merge_arithmetic \<lparr>d_rd = id, d_pow = (\<lambda>_ _. 0), d_sqrt = id\<rparr> Arith_ADD (int64_value (- 3)) (int64_value 5) = Rejected"
  using negative_first_refused [of "int64_value (- 3)" "int64_value 5" Arith_ADD]
  by (simp add: int64_value_def wf_int_def fits_def int_of_def larger_bits_def type_bits_def)

subsection \<open>Boolean operators\<close>

text \<open>The number that bytes stand for, the highest first.\<close>

definition bytes_int :: "u8 list \<Rightarrow> int" where
  "bytes_int bs = (\<Sum>i\<leftarrow>[0..<length bs]. push_bit ((length bs - 1 - i) * 8) (uint (bs ! i)))"

lemma bytes_int_Cons: "bytes_int (b # bs) = push_bit (8 * length bs) (uint b) + bytes_int bs"
proof -
  have "[0..<length (b # bs)] = 0 # map Suc [0..<length bs]"
    by (simp add: map_Suc_upt upt_conv_Cons del: upt_Suc)
  then show ?thesis
    by (simp add: bytes_int_def o_def mult.commute del: upt_Suc)
qed

lemma bytes_int_bits: "take_bit (8 * length bs) (bytes_int bs) = bytes_int bs \<and> (\<forall>i < 8 * length bs. bit (bytes_int bs) i = byte_bit bs i)"
proof (induction bs)
  case (Cons b bs)
  let ?n = "8 * length bs"
  have c: "bytes_int (b # bs) = concat_bit ?n (bytes_int bs) (uint b)"
    using Cons by (simp add: bytes_int_Cons concat_bit_eq)
  have "bit (bytes_int (b # bs)) i \<longleftrightarrow> (if i < ?n then byte_bit bs i else bit b (i - ?n))" for i
    using Cons unfolding c by (auto simp: bit_concat_bit_iff bit_uint_iff not_less dest: bit_imp_le_length)
  moreover have "byte_bit (b # bs) i \<longleftrightarrow> (if i < ?n then byte_bit bs i else bit b (i - ?n))" if "i < ?n + 8" for i
  proof (cases "i < ?n")
    case True
    then have "length bs - i div 8 = Suc (length bs - 1 - i div 8)" by linarith
    then show ?thesis using True by (simp add: byte_bit_def)
  next
    case False
    then have "i div 8 = length bs" using that by linarith
    then have "i div 8 = length bs" "i mod 8 = i - ?n" using minus_mult_div_eq_mod [of i 8] by simp_all
    then show ?thesis using False by (simp add: byte_bit_def)
  qed
  moreover have "take_bit (8 * length (b # bs)) (bytes_int (b # bs)) = bytes_int (b # bs)"
    unfolding c by (rule bit_eqI) (auto simp: bit_take_bit_iff bit_concat_bit_iff bit_uint_iff)
  ultimately show ?case by simp
qed (simp add: bytes_int_def)

lemma ByteStringToValue_bits:
  assumes "8 * length bs = LENGTH('a::len)"
  obtains w :: "'a::len word" where "ByteStringToValue 0 (length bs) bs = Returns w" "\<And>i. i < LENGTH('a) \<Longrightarrow> bit w i = byte_bit bs i"
proof
  have n: "LENGTH('a) div 8 = length bs" "0 < length bs"
    using assms by (auto intro: gr0I)
  have "(\<Sum>i\<leftarrow>xs. push_bit (k i) (ucast (bs ! i) :: 'a word)) = word_of_int (\<Sum>i\<leftarrow>xs. push_bit (k i) (uint (bs ! i)))" for xs k
    by (induction xs) (simp_all add: push_bit_eq_mult)
  then show "ByteStringToValue 0 (length bs) bs = Returns (word_of_int (bytes_int bs) :: 'a word)"
    using n by (simp add: ByteStringToValue_def bytes_int_def Let_def)
  show "bit (word_of_int (bytes_int bs) :: 'a word) i = byte_bit bs i" if "i < LENGTH('a)" for i
    using that bytes_int_bits [of bs] assms by (simp add: bit_word_of_int_iff)
qed

text \<open>Beyond the bits of its type, the bits of a number are its sign.\<close>

lemma int_range_bit: "int_range s n x \<Longrightarrow> n \<le> i \<Longrightarrow> 0 < n \<Longrightarrow> bit x i \<longleftrightarrow> s \<and> bit x (n - 1)"
proof (cases s)
  case True
  assume "int_range s n x" "n \<le> i" "0 < n"
  then have "signed_take_bit (n - 1) x = x" "min i (n - 1) = n - 1"
    using True by (auto simp: int_range_def signed_take_bit_int_eq_self_iff)
  then show ?thesis using True bit_signed_take_bit_iff [of "n - 1" x i] by simp
next
  case False
  assume "int_range s n x" "n \<le> i"
  then have "take_bit n x = x" using False by (simp add: int_range_def take_bit_int_eq_self_iff)
  then show ?thesis using False \<open>n \<le> i\<close> by (metis bit_take_bit_iff leD)
qed

lemma extended_bits:
  assumes v: "wf_int v" and bs: "bytes_hold (type_bits (val_type v)) (int_of v) bs" "type_bits (val_type v) = 8 * length bs" "bs \<noteq> []"
    and m: "length bs \<le> m" "i < 8 * m"
  shows "byte_bit (extended (val_type v) m bs) i = bit (int_of v) i"
proof (cases "i < 8 * length bs")
  case True
  then have "\<not> m - 1 - i div 8 < m - length bs" "m - 1 - i div 8 - (m - length bs) = length bs - 1 - i div 8"
    using m by linarith+
  then show ?thesis
    using True bs m by (auto simp: bytes_hold_def byte_bit_def extended_def nth_append)
next
  case False
  have top: "bit (bs ! 0) 7 = bit (int_of v) (8 * length bs - 1)"
    using bs(1,2) bs(3) spec [OF bs(1) [unfolded bytes_hold_def], of "8 * length bs - 1"]
    by (cases bs) (auto simp: byte_bit_def nat_mod_eq_iff, presburger?)
  have "bit (int_of v) i \<longleftrightarrow> IsSignedDataType (val_type v) \<and> bit (bs ! 0) 7"
    using int_range_bit [OF wf_int_range [OF v], of i] False bs(2,3) top by simp
  moreover have "m - 1 - i div 8 < m - length bs" "length bs < m"
    using False m by linarith+
  ultimately show ?thesis
    by (auto simp: byte_bit_def extended_def nth_append)
qed

lemma length_extended: "length bs \<le> n \<Longrightarrow> length (extended t n bs) = n"
  by (simp add: extended_def)

text \<open>The operators on bytes act on each bit as the gates on truth values do.\<close>

lemma byte_op_bits:
  assumes "op \<notin> {Bool_UNKNOWN, Bool_IDENTITY, Bool_NOT}"
  obtains f where "byte_op op = Returns f"
    "\<And>a b j. j < 8 \<Longrightarrow> merge_bools (BoolOpToCircuitOp op) (bit a j) (bit b j) = Returns (bit (f a b) j)"
  using assms by (cases op) (auto simp: merge_bools_def bit_simps)

lemma byte_bit_map2:
  assumes "length as = length bs" "i < 8 * length as"
  shows "byte_bit (map2 f as bs) i = bit (f (as ! (length as - 1 - i div 8)) (bs ! (length as - 1 - i div 8))) (i mod 8)"
  using assms by (simp add: byte_bit_def)

lemma signed_result_bits:
  assumes "length r \<in> {1, 2, 4, 8}"
  obtains v where "signed_result (8 * length r) r = Returns v" "wf_int v" "type_bits (val_type v) = 8 * length r"
    "IsSignedDataType (val_type v)" "\<And>i. i < 8 * length r \<Longrightarrow> bit (int_of v) i = byte_bit r i"
proof -
  consider "length r = 8" | "length r = 4" | "length r = 2" | "length r = 1" using assms by auto
  then show ?thesis
  proof cases
    case 1
    obtain w :: u64 where w: "ByteStringToValue 0 8 r = Returns w" "\<And>i. i < 64 \<Longrightarrow> bit w i = byte_bit r i"
      using ByteStringToValue_bits [where 'a = 64, of r] 1 by auto
    show ?thesis
      by (rule that [of "int64_value w"])
        (use 1 w in \<open>simp_all add: signed_result_def int64_value_def wf_int_def fits_def type_tests int_of_def bit_sint\<close>)
  next
    case 2
    obtain w :: u32 where w: "ByteStringToValue 0 4 r = Returns w" "\<And>i. i < 32 \<Longrightarrow> bit w i = byte_bit r i"
      using ByteStringToValue_bits [where 'a = 32, of r] 2 by auto
    show ?thesis
      by (rule that [of "int32_value w"])
        (use 2 w in \<open>simp_all add: signed_result_def int32_value_def wf_int_def fits_def type_tests int_of_def bit_sint\<close>)
  next
    case 3
    obtain w :: u16 where w: "ByteStringToValue 0 2 r = Returns w" "\<And>i. i < 16 \<Longrightarrow> bit w i = byte_bit r i"
      using ByteStringToValue_bits [where 'a = 16, of r] 3 by auto
    show ?thesis
      by (rule that [of "short_value w"])
        (use 3 w in \<open>simp_all add: signed_result_def short_value_def wf_int_def fits_def type_tests int_of_def bit_sint\<close>)
  next
    case 4
    then show ?thesis
      by (intro that [of "char_value (r ! 0)"])
        (simp_all add: signed_result_def char_value_def wf_int_def fits_def type_tests int_of_def bit_sint byte_bit_def)
  qed
qed

lemma unsigned_result_bits:
  assumes "length r \<in> {1, 2, 4, 8}"
  obtains v where "unsigned_result (8 * length r) r = Returns v" "wf_int v" "type_bits (val_type v) = 8 * length r"
    "\<not> IsSignedDataType (val_type v)" "\<And>i. i < 8 * length r \<Longrightarrow> bit (int_of v) i = byte_bit r i"
proof -
  consider "length r = 8" | "length r = 4" | "length r = 2" | "length r = 1" using assms by auto
  then show ?thesis
  proof cases
    case 1
    obtain w :: u64 where w: "ByteStringToValue 0 8 r = Returns w" "\<And>i. i < 64 \<Longrightarrow> bit w i = byte_bit r i"
      using ByteStringToValue_bits [where 'a = 64, of r] 1 by auto
    show ?thesis
      by (rule that [of "uint64_value w"])
        (use 1 w in \<open>simp_all add: unsigned_result_def uint64_value_def wf_int_def fits_def type_tests int_of_def bit_uint_iff\<close>)
  next
    case 2
    obtain w :: u32 where w: "ByteStringToValue 0 4 r = Returns w" "\<And>i. i < 32 \<Longrightarrow> bit w i = byte_bit r i"
      using ByteStringToValue_bits [where 'a = 32, of r] 2 by auto
    show ?thesis
      by (rule that [of "uint32_value w"])
        (use 2 w in \<open>simp_all add: unsigned_result_def uint32_value_def wf_int_def fits_def type_tests int_of_def bit_uint_iff\<close>)
  next
    case 3
    obtain w :: u16 where w: "ByteStringToValue 0 2 r = Returns w" "\<And>i. i < 16 \<Longrightarrow> bit w i = byte_bit r i"
      using ByteStringToValue_bits [where 'a = 16, of r] 3 by auto
    show ?thesis
      by (rule that [of "ushort_value w"])
        (use 3 w in \<open>simp_all add: unsigned_result_def ushort_value_def wf_int_def fits_def type_tests int_of_def bit_uint_iff\<close>)
  next
    case 4
    then show ?thesis
      by (intro that [of "uchar_value (r ! 0)"])
        (simp_all add: unsigned_result_def uchar_value_def wf_int_def fits_def type_tests int_of_def bit_uint_iff byte_bit_def)
  qed
qed

lemma whole_bytes:
  assumes "wf_int v" "8 \<le> type_bits (val_type v)"
  obtains bs where "GetTwosComplementByteString v = Returns bs" "bytes_hold (type_bits (val_type v)) (int_of v) bs"
    "type_bits (val_type v) = 8 * length bs" "length bs \<in> {1, 2, 4, 8}" "GetValueNumBits v = Returns (8 * length bs)"
proof -
  obtain bs where bs: "GetTwosComplementByteString v = Returns bs" "DataType_NumBytes (val_type v) = Returns (length bs)"
    "bytes_hold (type_bits (val_type v)) (int_of v) bs"
    using bytes_of_int [OF assms(1)] .
  have "type_bits (val_type v) = 8 * length bs" "length bs \<in> {1, 2, 4, 8}" "GetValueNumBits v = Returns (8 * length bs)"
    using assms bs(2) by (cases rule: wf_int_cases; simp add: type_bits_def)+
  then show ?thesis using bs that by blast
qed


lemma both_returns: "both (Returns a) (Returns b) f = f a b"
  by (simp add: both_def)

text \<open>A bitwise operator works on numbers as its gate works on single bits: for integers of a byte or more
  the result has the size of the larger type, is signed when one of the arguments is, and bit \<open>i\<close> of it is what
  the operator gives on bit \<open>i\<close> of the two numbers, the shorter one continued by its sign.\<close>

theorem boolean_bitwise:
  assumes "wf_int v" "wf_int w" "8 \<le> type_bits (val_type v)" "8 \<le> type_bits (val_type w)"
    and "op \<notin> {Bool_UNKNOWN, Bool_IDENTITY, Bool_NOT}"
  shows "\<exists>r. merge_boolean op v w = Returns r \<and> wf_int r \<and> type_bits (val_type r) = larger_bits v w
    \<and> (IsSignedDataType (val_type r) \<longleftrightarrow> IsSignedDataType (val_type v) \<or> IsSignedDataType (val_type w))
    \<and> (\<forall>i < larger_bits v w.
         merge_bools (BoolOpToCircuitOp op) (bit (int_of v) i) (bit (int_of w) i) = Returns (bit (int_of r) i))"
proof -
  obtain as where as: "GetTwosComplementByteString v = Returns as" "bytes_hold (type_bits (val_type v)) (int_of v) as"
    "type_bits (val_type v) = 8 * length as" "length as \<in> {1, 2, 4, 8}" "GetValueNumBits v = Returns (8 * length as)"
    using whole_bytes [OF assms(1,3)] .
  obtain bs where bs: "GetTwosComplementByteString w = Returns bs" "bytes_hold (type_bits (val_type w)) (int_of w) bs"
    "type_bits (val_type w) = 8 * length bs" "length bs \<in> {1, 2, 4, 8}" "GetValueNumBits w = Returns (8 * length bs)"
    using whole_bytes [OF assms(2,4)] .
  obtain f where f: "byte_op op = Returns f"
    "\<And>a b j. j < 8 \<Longrightarrow> merge_bools (BoolOpToCircuitOp op) (bit a j) (bit b j) = Returns (bit (f a b) j)"
    using byte_op_bits [OF assms(5)] by blast
  define m where "m = max (length as) (length bs)"
  define r where "r = map2 f (extended (val_type v) m as) (extended (val_type w) m bs)"
  have m: "length as \<le> m" "length bs \<le> m" "m \<in> {1, 2, 4, 8}"
    using as(4) bs(4) by (auto simp: m_def max_def)
  have larger: "larger_bits v w = 8 * m" "max (8 * length as) (8 * length bs) = 8 * m"
    by (auto simp: larger_bits_def m_def as(3) bs(3))
  have len: "length r = m" using m by (simp add: r_def length_extended)
  have bits: "merge_bools (BoolOpToCircuitOp op) (bit (int_of v) i) (bit (int_of w) i) = Returns (byte_bit r i)"
    if i: "i < 8 * m" for i
  proof -
    have ne: "as \<noteq> []" "bs \<noteq> []" using as(4) bs(4) by auto
    show ?thesis
      using f(2) [of "i mod 8" "extended (val_type v) m as ! (m - 1 - i div 8)" "extended (val_type w) m bs ! (m - 1 - i div 8)"] i m len
        extended_bits [OF assms(1) as(2,3) ne(1) m(1) i] extended_bits [OF assms(2) bs(2,3) ne(2) m(2) i]
      by (simp add: r_def byte_bit_map2 length_extended byte_bit_def)
  qed
  have merged: "merge_boolean op v w =
      (if IsSignedDataType (val_type v) \<or> IsSignedDataType (val_type w) then signed_result (8 * m) r else unsigned_result (8 * m) r)"
    using assms(5) wf_int_not [OF assms(1)] wf_int_not [OF assms(2)] as(1,5) bs(1,5) f(1) larger(2)
    by (simp add: merge_boolean_def both_returns Let_def r_def m_def)
  show ?thesis
  proof (cases "IsSignedDataType (val_type v) \<or> IsSignedDataType (val_type w)")
    case True
    show ?thesis
      by (rule signed_result_bits [of r, unfolded len]) (use m(3) merged bits larger(1) True in auto)
  next
    case False
    show ?thesis
      by (rule unsigned_result_bits [of r, unfolded len]) (use m(3) merged bits larger(1) False in auto)
  qed
qed

theorem boolean_bitwise_witness:
  "\<exists>r. merge_boolean Bool_NAND (uint32_value 12) (short_value (- 2)) = Returns r \<and> val_type r = INT32
     \<and> (\<forall>i < 32. bit (int_of r) i \<longleftrightarrow> \<not> (bit (12 :: u32) i \<and> bit (- 2 :: int) i))"
  using boolean_bitwise [of "uint32_value 12" "short_value (- 2)" Bool_NAND]
  by (auto simp: uint32_value_def short_value_def wf_int_def fits_def int_of_def type_tests larger_bits_def merge_bools_def)

text \<open>On truth values the operators that negate are lost: the byte of the result is compared with one.\<close>

lemma negated_truth_values:
  assumes "op \<in> {Bool_NAND, Bool_NOR, Bool_EQ, Bool_GTE, Bool_LTE}"
  shows "merge_boolean op (bool_value a) (bool_value b) = Returns (bool_value False)"
  using assms
  by (cases a; cases b) (auto simp: merge_boolean_def both_returns bool_value_def unsigned_result_def extended_def type_tests)

end
