(* ===== verification/Value_Text.thy ===== *)
theory Value_Text
  imports Generic_Values
begin

text \<open>
  Numbers and values as text: the tests and conversions of numbers of \<open>Util/string_utils.cpp\<close>, and the parsing and
  printing of values of \<open>Util/data_structures.cpp\<close>, in decimal and in binary. \<open>strtod\<close> and the printing of floating-point
  numbers are parameters. A stale \<open>errno\<close>, which the conversions do not clear, is an argument.
\<close>

subsection \<open>Tests of numbers\<close>

definition IsStringDigit :: "char \<Rightarrow> bool" where
  "IsStringDigit c \<longleftrightarrow> c \<in> set ''0123456789''"

definition IsAllDigits :: "string \<Rightarrow> bool" where
  "IsAllDigits input = list_all IsStringDigit input"

definition IsExponent :: "string \<Rightarrow> bool" where
  "IsExponent input =
     (case input of
        e # c # cs \<Rightarrow> (e = CHR ''E'' \<or> e = CHR ''e'')
          \<and> (c = CHR ''+'' \<or> c = CHR ''-'' \<or> IsStringDigit c) \<and> list_all IsStringDigit cs
      | _ \<Rightarrow> False)"

fun zero_fraction :: "string \<Rightarrow> bool" where
  "zero_fraction [] = True"
| "zero_fraction (c # cs) =
     (if c = CHR ''E'' \<or> c = CHR ''e'' then IsExponent (c # cs)
      else if c \<noteq> CHR ''0'' then False else zero_fraction cs)"

definition IsZeroString :: "string \<Rightarrow> bool outcome" where
  "IsZeroString input =
     (if input = [] then Returns False
      else let str = (if hd input = CHR ''-'' then tl input else input)
           in if str = ''0.0'' \<or> str = ''0'' then Returns True
              else case Split str ''.'' True [] of
                  [] \<Rightarrow> Fails
                | [one] \<Rightarrow> Returns (list_all ((=) CHR ''0'') one)
                | [one, two] \<Rightarrow> Returns (list_all ((=) CHR ''0'') one \<and> zero_fraction two)
                | _ \<Rightarrow> Returns False)"

text \<open>Leading signs and enclosing parentheses are taken off in any order.\<close>

function strip_signs :: "string \<Rightarrow> string" where
  "strip_signs s =
     (if HasPrefixString s ''+'' \<or> HasPrefixString s ''-'' then strip_signs (drop 1 s)
      else if HasPrefixString s ''('' \<and> HasSuffixString s '')'' then
        strip_signs (snd (StripSuffixString (snd (StripPrefixString s ''('')) '')''))
      else s)"
  by pat_completeness auto
termination
proof (relation "measure length")
  fix s :: string
  have "length (snd (StripSuffixString t u)) \<le> length t" "HasPrefixString t v \<Longrightarrow> v \<noteq> [] \<Longrightarrow> t \<noteq> []" for t u v
    by (auto simp: StripSuffixString_def substr_def HasPrefixString_def)
  note facts = this
  show "(drop 1 s, s) \<in> measure length" if "HasPrefixString s ''+'' \<or> HasPrefixString s ''-''"
    using that facts(2) [of s] by (cases s) auto
  assume "HasPrefixString s ''('' \<and> HasSuffixString s '')''"
  then have "length (snd (StripPrefixString s ''('')) < length s"
    using facts(2) [of s "''(''"] by (cases s) (auto simp: StripPrefixString_def)
  then show "(snd (StripSuffixString (snd (StripPrefixString s ''('')) '')''), s) \<in> measure length"
    using facts(1) [of "snd (StripPrefixString s ''('')" "'')''"] by simp
qed simp

declare strip_signs.simps [simp del]

fun numeric_loop :: "bool \<Rightarrow> bool \<Rightarrow> string \<Rightarrow> bool" where
  "numeric_loop hex has_decimal [] = True"
| "numeric_loop hex has_decimal (c # cs) =
     (if c = CHR ''.'' then if hex \<or> has_decimal then False else numeric_loop hex True cs
      else if c = CHR ''E'' \<or> c = CHR ''e'' then
        if hex then numeric_loop hex has_decimal cs else IsExponent (c # cs)
      else if hex \<and> c \<in> set ''AaBbCcDdFf'' then numeric_loop hex has_decimal cs
      else if \<not> IsStringDigit c then False
      else numeric_loop hex has_decimal cs)"

definition IsNumeric :: "string \<Rightarrow> bool" where
  "IsNumeric input =
     (let str = strip_signs input
      in if str \<in> {[], ''.'', ''+'', ''-''} then False
         else let hex = HasPrefixString str ''0x''
              in numeric_loop hex False (if hex then snd (StripPrefixString str ''0x'') else str))"

definition first_in :: "string \<Rightarrow> string \<Rightarrow> nat option" where
  "first_in pat s = find_from pat s 0"

text \<open>The search for the exponent takes an \<open>e\<close> before an \<open>E\<close>.\<close>

definition IsScientificNotation :: "string \<Rightarrow> bool" where
  "IsScientificNotation input =
     (let halves = (\<lambda>p. if p = 0 \<or> p = length input - 1 then False
                         else IsNumeric (take p input) \<and> IsExponent (drop p input))
      in if \<not> IsNumeric input then False
         else case first_in ''e'' input of
             Some p \<Rightarrow> halves p
           | None \<Rightarrow> (case first_in ''E'' input of Some p \<Rightarrow> halves p | None \<Rightarrow> False))"

definition IsScientificNotationWithSign :: "string \<Rightarrow> bool" where
  "IsScientificNotationWithSign input =
     (case (first_in ''e'' input, first_in ''E'' input) of
        (Some e, None) \<Rightarrow> (case (first_in ''+'' input, first_in ''-'' input) of
          (Some p, None) \<Rightarrow> p = e + 1 \<and> IsScientificNotation input
        | (None, Some p) \<Rightarrow> p = e + 1 \<and> IsScientificNotation input
        | _ \<Rightarrow> False)
      | (None, Some e) \<Rightarrow> (case (first_in ''+'' input, first_in ''-'' input) of
          (Some p, None) \<Rightarrow> p = e + 1 \<and> IsScientificNotation input
        | (None, Some p) \<Rightarrow> p = e + 1 \<and> IsScientificNotation input
        | _ \<Rightarrow> False)
      | _ \<Rightarrow> False)"

subsection \<open>Integers from text\<close>

text \<open>\<open>strtol\<close> and \<open>strtoul\<close> of base 10 on the characters before the first null character: white space, a
  sign, digits; the number, which the functions of the library bring into their range, and the number of
  characters read.\<close>

definition strtol_text :: "string \<Rightarrow> int \<times> nat" where
  "strtol_text str =
     (let s = takeWhile (\<lambda>c. c \<noteq> CHR 0x00) str;
          t = dropWhile isspace s;
          (neg, u) = read_sign t;
          ds = takeWhile is_digit u;
          n = int (digits_value ds)
      in if ds = [] then (0, 0) else (if neg then - n else n, length s - length u + length ds))"

definition clamped :: "int \<Rightarrow> int \<Rightarrow> int \<Rightarrow> int" where
  "clamped lo hi x = max lo (min hi x)"

definition all_zeros :: "string \<Rightarrow> bool" where
  "all_zeros str \<longleftrightarrow> str = replicate (length str) CHR ''0''"

text \<open>What the conversions do with the number. The address after the last character of an empty string is
  undefined.\<close>

definition checked_text :: "string \<Rightarrow> nat \<Rightarrow> bool \<Rightarrow> int \<Rightarrow> int \<Rightarrow> int \<Rightarrow> int outcome" where
  "checked_text str used out_of_range temp lo hi =
     (if out_of_range then Rejected
      else if temp = 0 \<and> \<not> all_zeros str then Rejected
      else if str = [] then Fails
      else if used \<noteq> length str then Rejected
      else if hi < temp \<or> temp < lo then Rejected
      else Returns temp)"

definition Stoi_signed :: "int \<Rightarrow> int \<Rightarrow> bool \<Rightarrow> string \<Rightarrow> int outcome" where
  "Stoi_signed lo hi stale str =
     (let (x, used) = strtol_text str;
          temp = clamped (- (2 ^ 63)) (2 ^ 63 - 1) x
      in checked_text str used ((temp = 2 ^ 63 - 1 \<or> temp = - (2 ^ 63)) \<and> (stale \<or> temp \<noteq> x)) temp lo hi)"

definition Stoi_unsigned :: "int \<Rightarrow> bool \<Rightarrow> string \<Rightarrow> int outcome" where
  "Stoi_unsigned hi stale str =
     (let (x, used) = strtol_text str;
          temp = clamped 0 (2 ^ 64 - 1) x
      in if CHR ''-'' \<in> set str then Rejected
         else checked_text str used (temp = 2 ^ 64 - 1 \<and> (stale \<or> temp \<noteq> x)) temp 0 hi)"

text \<open>Letters in the C locale.\<close>

definition shift_letter :: "nat \<Rightarrow> int \<Rightarrow> char \<Rightarrow> char" where
  "shift_letter first k c =
     (let n = of_char c in if first \<le> n \<and> n < first + 26 then char_of (nat (int n + k)) else c)"

definition ToLowerCase :: "string \<Rightarrow> string" where
  "ToLowerCase = map (shift_letter 65 32)"

definition ToUpperCase :: "string \<Rightarrow> string" where
  "ToUpperCase = map (shift_letter 97 (- 32))"

definition EqualsIgnoringCase :: "string \<Rightarrow> string \<Rightarrow> bool" where
  "EqualsIgnoringCase one two \<longleftrightarrow> ToLowerCase one = ToLowerCase two"

definition Stoi_bool :: "string \<Rightarrow> bool outcome" where
  "Stoi_bool str =
     (if str = ''0'' \<or> ToLowerCase str = ''false'' then Returns False
      else if str = ''1'' \<or> ToLowerCase str = ''true'' then Returns True
      else Rejected)"

definition Stoi_char :: "bool \<Rightarrow> string \<Rightarrow> int outcome" where
  "Stoi_char = Stoi_signed (- (2 ^ 7)) (2 ^ 7 - 1)"

definition Stoi_uchar :: "bool \<Rightarrow> string \<Rightarrow> int outcome" where
  "Stoi_uchar = Stoi_unsigned (2 ^ 8 - 1)"

definition Stoi_short :: "bool \<Rightarrow> string \<Rightarrow> int outcome" where
  "Stoi_short = Stoi_signed (- (2 ^ 15)) (2 ^ 15 - 1)"

definition Stoi_ushort :: "bool \<Rightarrow> string \<Rightarrow> int outcome" where
  "Stoi_ushort = Stoi_unsigned (2 ^ 16 - 1)"

definition Stoi_int :: "bool \<Rightarrow> string \<Rightarrow> int outcome" where
  "Stoi_int = Stoi_signed (- (2 ^ 31)) (2 ^ 31 - 1)"

definition Stoi_uint :: "bool \<Rightarrow> string \<Rightarrow> int outcome" where
  "Stoi_uint = Stoi_unsigned (2 ^ 32 - 1)"

definition Stoi_long :: "bool \<Rightarrow> string \<Rightarrow> int outcome" where
  "Stoi_long = Stoi_signed (- (2 ^ 63)) (2 ^ 63 - 1)"

definition Stoi_ulong :: "bool \<Rightarrow> string \<Rightarrow> int outcome" where
  "Stoi_ulong = Stoi_unsigned (2 ^ 64 - 1)"

text \<open>\<open>sscanf\<close> with \<open>%lld\<close> and \<open>%llu\<close>: what follows the digits is not looked at.\<close>

definition scanned :: "int \<Rightarrow> int \<Rightarrow> string \<Rightarrow> int outcome" where
  "scanned lo hi str =
     (let (x, used) = strtol_text str in if used = 0 \<or> x < lo \<or> hi < x then Rejected else Returns x)"

definition Stoi_llong :: "string \<Rightarrow> int outcome" where
  "Stoi_llong str = scanned (- (2 ^ 63)) (2 ^ 63 - 1) str"

definition Stoi_ullong :: "string \<Rightarrow> int outcome" where
  "Stoi_ullong str = (if CHR ''-'' \<in> set str then Rejected else scanned 0 (2 ^ 64 - 1) str)"

text \<open>The overloads on the first \<open>n\<close> characters of an array that ends with a null character; \<open>bytes\<close> is the size
  of the type in bytes, which also bounds the number of characters. A negative number after white space is
  converted as the library does.\<close>

definition checked_bytes :: "string \<Rightarrow> nat \<Rightarrow> nat \<Rightarrow> bool \<Rightarrow> int \<Rightarrow> int \<Rightarrow> int \<Rightarrow> int outcome" where
  "checked_bytes input n used out_of_range temp lo hi =
     (if out_of_range then Rejected
      else if temp = 0 \<and> take n input \<noteq> replicate n CHR ''0'' then Rejected
      else if used \<noteq> n then Rejected
      else if hi < temp \<or> temp < lo then Rejected
      else Returns temp)"

definition bytes_signed :: "nat \<Rightarrow> bool \<Rightarrow> string \<Rightarrow> nat \<Rightarrow> int outcome" where
  "bytes_signed bytes stale input n =
     (let (x, used) = strtol_text input;
          temp = clamped (- (2 ^ 63)) (2 ^ 63 - 1) x
      in if bytes < n then Rejected
         else checked_bytes input n used ((temp = 2 ^ 63 - 1 \<or> temp = - (2 ^ 63)) \<and> (stale \<or> temp \<noteq> x)) temp
                (- (2 ^ (8 * bytes - 1))) (2 ^ (8 * bytes - 1) - 1))"

definition bytes_unsigned :: "nat \<Rightarrow> bool \<Rightarrow> string \<Rightarrow> nat \<Rightarrow> int outcome" where
  "bytes_unsigned bytes stale input n =
     (let (x, used) = strtol_text input;
          over = (2 ^ 64 \<le> \<bar>x\<bar>);
          temp = (if over then 2 ^ 64 - 1 else x mod 2 ^ 64)
      in if n = 0 \<or> bytes < n \<or> take 1 input = ''-'' then Rejected
         else checked_bytes input n used (temp = 2 ^ 64 - 1 \<and> (stale \<or> over)) temp 0 (2 ^ (8 * bytes) - 1))"

definition bytes_char :: "bool \<Rightarrow> string \<Rightarrow> nat \<Rightarrow> int outcome" where
  "bytes_char = bytes_signed 1"

definition bytes_uchar :: "bool \<Rightarrow> string \<Rightarrow> nat \<Rightarrow> int outcome" where
  "bytes_uchar = bytes_unsigned 1"

definition bytes_short :: "bool \<Rightarrow> string \<Rightarrow> nat \<Rightarrow> int outcome" where
  "bytes_short = bytes_signed 2"

definition bytes_ushort :: "bool \<Rightarrow> string \<Rightarrow> nat \<Rightarrow> int outcome" where
  "bytes_ushort = bytes_unsigned 2"

definition bytes_int :: "bool \<Rightarrow> string \<Rightarrow> nat \<Rightarrow> int outcome" where
  "bytes_int = bytes_signed 4"

definition bytes_uint :: "bool \<Rightarrow> string \<Rightarrow> nat \<Rightarrow> int outcome" where
  "bytes_uint = bytes_unsigned 4"

definition bytes_long :: "bool \<Rightarrow> string \<Rightarrow> nat \<Rightarrow> int outcome" where
  "bytes_long = bytes_signed 8"

definition bytes_ulong :: "bool \<Rightarrow> string \<Rightarrow> nat \<Rightarrow> int outcome" where
  "bytes_ulong = bytes_unsigned 8"

definition bytes_bool :: "string \<Rightarrow> nat \<Rightarrow> bool outcome" where
  "bytes_bool input n =
     (if n \<noteq> 1 then Rejected
      else if take 1 input = ''0'' then Returns False
      else if take 1 input = ''1'' then Returns True
      else Rejected)"

definition bytes_llong :: "string \<Rightarrow> nat \<Rightarrow> int outcome" where
  "bytes_llong input n = (if 8 < n then Rejected else scanned (- (2 ^ 63)) (2 ^ 63 - 1) input)"

definition bytes_ullong :: "string \<Rightarrow> nat \<Rightarrow> int outcome" where
  "bytes_ullong input n =
     (let (x, used) = strtol_text input
      in if n = 0 \<or> 8 < n \<or> take 1 input = ''-'' then Rejected
         else if used = 0 \<or> 2 ^ 64 \<le> \<bar>x\<bar> then Rejected
         else Returns (x mod 2 ^ 64))"

subsection \<open>Floating-point numbers from text\<close>

text \<open>\<open>strtod\<close> gives a number, or none when it overflows to infinity, and the number of characters it reads.
  The comparison with the least normal number is that of the code.\<close>

record text_ops =
  t_strtod :: "string \<Rightarrow> rat option \<times> nat"
  t_rd :: "rat \<Rightarrow> rat"
  t_show :: "int \<Rightarrow> rat \<Rightarrow> string"

definition plain_double :: "text_ops \<Rightarrow> string \<Rightarrow> rat outcome" where
  "plain_double T str =
     (if \<not> IsNumeric str then Rejected
      else and_then (IsZeroString str) (\<lambda>zero.
        if zero then Returns 0
        else case t_strtod T str of
            (None, _) \<Rightarrow> Rejected
          | (Some d, used) \<Rightarrow>
              if d = 0 \<or> \<bar>d\<bar> \<le> 1 / 2 ^ 1022 \<or> used \<noteq> length str then Rejected else Returns d))"

text \<open>A fraction whose denominator is zero is infinite or not a number, which the model has not.\<close>

definition Stod :: "text_ops \<Rightarrow> string \<Rightarrow> rat outcome" where
  "Stod T str =
     (case first_in ''/'' str of
        None \<Rightarrow> plain_double T str
      | Some p \<Rightarrow>
          let denominator = drop (p + 1) str
          in if first_in ''/'' denominator \<noteq> None then Rejected
             else and_then (plain_double T (take p str)) (\<lambda>num.
               and_then (plain_double T denominator) (\<lambda>denom.
                 if denom = 0 then Fails else Returns (t_rd T (num / denom)))))"

text \<open>The overloads for \<open>long double\<close> and \<open>float\<close> read with \<open>sscanf\<close>, which converts nothing when the text
  starts with a parenthesis, and refuses what overflows; \<open>rd\<close> rounds to the type.\<close>

definition scanned_real :: "(string \<Rightarrow> rat outcome) \<Rightarrow> string \<Rightarrow> rat outcome" where
  "scanned_real scan str =
     (if \<not> IsNumeric str then Rejected
      else and_then (IsZeroString str) (\<lambda>zero.
        if zero then Returns 0
        else and_then (scan str) (\<lambda>d. if d = 0 \<or> \<bar>d\<bar> \<le> 1 / 2 ^ 1022 then Rejected else Returns d)))"

definition Stold :: "(string \<Rightarrow> rat outcome) \<Rightarrow> (rat \<Rightarrow> rat) \<Rightarrow> string \<Rightarrow> rat outcome" where
  "Stold scan rd str =
     (case first_in ''/'' str of
        None \<Rightarrow> scanned_real scan str
      | Some p \<Rightarrow>
          let denominator = drop (p + 1) str
          in if first_in ''/'' denominator \<noteq> None then Rejected
             else and_then (scanned_real scan (take p str)) (\<lambda>num.
               and_then (scanned_real scan denominator) (\<lambda>denom.
                 if denom = 0 then Fails else Returns (rd (num / denom)))))"

definition Stof :: "(string \<Rightarrow> rat outcome) \<Rightarrow> (rat \<Rightarrow> rat) \<Rightarrow> string \<Rightarrow> rat outcome" where
  "Stof = Stold"

subsection \<open>Scientific notation\<close>

text \<open>The digits, with at most one point, that end a text, which is given reversed; and a sign and the digits that
  begin one.\<close>

fun sci_before :: "bool \<Rightarrow> string \<Rightarrow> nat \<times> bool" where
  "sci_before has_decimal [] = (0, False)"
| "sci_before has_decimal (c # cs) =
     (if c = CHR ''.'' then if has_decimal then (0, False) else (let (n, d) = sci_before True cs in (Suc n, d))
      else if IsStringDigit c then (let (n, d) = sci_before has_decimal cs in (Suc n, True))
      else (0, False))"

fun sci_after :: "bool \<Rightarrow> string \<Rightarrow> nat \<times> bool" where
  "sci_after first [] = (0, False)"
| "sci_after first (c # cs) =
     (if c = CHR ''+'' \<or> c = CHR ''-'' then if first then (let (n, d) = sci_after False cs in (Suc n, d)) else (0, False)
      else if IsStringDigit c then (let (n, d) = sci_after False cs in (Suc n, True))
      else (0, False))"

definition first_exponent :: "string \<Rightarrow> nat option" where
  "first_exponent input =
     (case (first_in ''e'' input, first_in ''E'' input) of
        (None, r) \<Rightarrow> r
      | (r, None) \<Rightarrow> r
      | (Some p, Some q) \<Rightarrow> Some (if p < q then p else q))"

definition RemoveScientificNotationInternal :: "text_ops \<Rightarrow> string \<Rightarrow> (string \<times> string) outcome" where
  "RemoveScientificNotationInternal T input =
     (case first_exponent input of
        None \<Rightarrow> Returns (input, [])
      | Some p \<Rightarrow>
          let next = input ! (p + 1);
              prev = input ! (p - 1);
              (n, digit_before) = sci_before False (rev (take p input));
              (m, digit_after) = sci_after True (drop (p + 1) input);
              base = substr input (p - n) n;
              exp = (if next = CHR ''+'' then substr input (p + 2) (m - 1) else substr input (p + 1) m)
          in if p = 0 then Returns (take 1 input, drop 1 input)
             else if p = length input - 1 then Returns (input, [])
             else if (next \<noteq> CHR ''+'' \<and> next \<noteq> CHR ''-'' \<and> \<not> IsStringDigit next)
                  \<or> (prev \<noteq> CHR ''.'' \<and> \<not> IsStringDigit prev) \<or> \<not> digit_before \<or> \<not> digit_after
               then Returns (take (p + 1) input, drop (p + 1) input)
             else (case Stod T base of
                 Fails \<Rightarrow> Fails
               | Rejected \<Rightarrow> Returns (input, [])
               | Returns _ \<Rightarrow> Returns (take (p - n) input @ base @ ''*10^('' @ exp @ '')'', drop (p + 1 + m) input)))"

lemma and_then_cong [fundef_cong]:
  "r = s \<Longrightarrow> (\<And>x. s = Returns x \<Longrightarrow> f x = g x) \<Longrightarrow> and_then r f = and_then s g"
  by (cases s) simp_all

lemma removed_shorter:
  assumes "RemoveScientificNotationInternal T input = Returns (a, b)" "input \<noteq> []"
  shows "length b < length input"
  using assms by (auto simp: RemoveScientificNotationInternal_def Let_def split: option.splits prod.splits if_splits outcome.splits)

function RemoveScientificNotation :: "text_ops \<Rightarrow> string \<Rightarrow> string outcome" where
  "RemoveScientificNotation T input =
     (if input = [] then Returns []
      else and_then (RemoveScientificNotationInternal T input) (\<lambda>(a, b). mapped ((@) a) (RemoveScientificNotation T b)))"
  by pat_completeness auto
termination
  by (relation "measure (\<lambda>(T, input). length input)") (auto dest: removed_shorter)

declare RemoveScientificNotation.simps [simp del]

subsection \<open>Values from text\<close>

definition typed_suffixes :: "(string \<times> DataType) list" where
  "typed_suffixes =
     [(''_BIT'', BOOL), (''_BOOL'', BOOL), (''_INT2'', INT2), (''_UINT2'', UINT2), (''_INT4'', INT4), (''_UINT4'', UINT4),
      (''_INT8'', INT8), (''_UINT8'', UINT8), (''_INT16'', INT16), (''_UINT16'', UINT16), (''_INT32'', INT32),
      (''_UINT32'', UINT32), (''_INT64'', INT64), (''_UINT64'', UINT64), (''_SLICE'', SLICE)]"

definition split_type :: "bool \<Rightarrow> string \<Rightarrow> (DataType \<times> string) outcome" where
  "split_type neg input =
     (case find (\<lambda>(s, t). HasSuffixString input s) typed_suffixes of
        None \<Rightarrow> Returns (UNKNOWN, input)
      | Some (s, t) \<Rightarrow>
          if neg \<and> \<not> IsSignedDataType t then Rejected
          else Returns (t, snd (StripSuffixString input s)))"

text \<open>The negation of a 32-bit number, which has no result for the least one.\<close>

definition negated32 :: "u32 \<Rightarrow> u32 outcome" where
  "negated32 w = (if sint w = - (2 ^ 31) then Fails else Returns (- w))"

definition typed_integer :: "bool \<Rightarrow> DataType \<Rightarrow> int \<Rightarrow> GenericValue outcome" where
  "typed_integer neg t x =
     (let y = (if neg then - x else x)
      in mapped (\<lambda>d. GenericValue t (Some d))
        (case t of
           BOOL \<Rightarrow> if x \<noteq> 0 \<and> x \<noteq> 1 then Rejected else Returns (BoolData (x \<noteq> 0))
         | SLICE \<Rightarrow> Returns (SliceData (word_of_int x))
         | INT2 \<Rightarrow> if 1 < x then Rejected else Returns (Int2Data (if x = 0 then 0 else - 1))
         | UINT2 \<Rightarrow> if 3 < x then Rejected else Returns (Uint2Data (word_of_int x))
         | INT4 \<Rightarrow> if 7 < x then Rejected else Returns (Int4Data (word_of_int y))
         | UINT4 \<Rightarrow> if 15 < x then Rejected else Returns (Uint4Data (word_of_int x))
         | INT8 \<Rightarrow> if 2 ^ 7 - 1 < x then Rejected else Returns (Int8Data (word_of_int y))
         | UINT8 \<Rightarrow> if 2 ^ 8 - 1 < x then Rejected else Returns (Uint8Data (word_of_int x))
         | INT16 \<Rightarrow> if 2 ^ 15 - 1 < x then Rejected else Returns (Int16Data (word_of_int y))
         | UINT16 \<Rightarrow> if 2 ^ 16 - 1 < x then Rejected else Returns (Uint16Data (word_of_int x))
         | INT32 \<Rightarrow> if 2 ^ 63 - 1 < x then Rejected
             else mapped Int32Data (if neg then negated32 (word_of_int x) else Returns (word_of_int x))
         | UINT32 \<Rightarrow> if 2 ^ 64 - 1 < x then Rejected else Returns (Uint32Data (word_of_int x))
         | INT64 \<Rightarrow> if 2 ^ 63 - 1 < x then Rejected else Returns (Int64Data (word_of_int y))
         | UINT64 \<Rightarrow> if 2 ^ 64 - 1 < x then Rejected else Returns (Uint64Data (word_of_int x))
         | _ \<Rightarrow> Rejected))"

text \<open>The smallest type, by the limits of \<open>long\<close> where 32 bits are meant.\<close>

definition smallest_integer :: "bool \<Rightarrow> int \<Rightarrow> GenericValue outcome" where
  "smallest_integer neg x =
     (if neg then
        if x = 0 \<or> x = 1 then Returns (GenericValue INT2 (Some (Int2Data (if x = 0 then 0 else - 1))))
        else if x \<le> 7 then Returns (GenericValue INT4 (Some (Int2Data (word_of_int (- x)))))
        else if x \<le> 2 ^ 7 - 1 then Returns (char_value (word_of_int (- x)))
        else if x \<le> 2 ^ 15 - 1 then Returns (short_value (word_of_int (- x)))
        else if x \<le> 2 ^ 63 - 1 then mapped int32_value (negated32 (word_of_int x))
        else Returns (int64_value (word_of_int (- x)))
      else
        if x = 0 \<or> x = 1 then Returns (bool_value (x = 1))
        else if x = 2 \<or> x = 3 then Returns (GenericValue UINT2 (Some (Uint2Data (word_of_int x))))
        else if x \<le> 15 then Returns (GenericValue UINT4 (Some (Uint4Data (word_of_int x))))
        else if x \<le> 2 ^ 8 - 1 then Returns (uchar_value (word_of_int x))
        else if x \<le> 2 ^ 16 - 1 then Returns (ushort_value (word_of_int x))
        else if x \<le> 2 ^ 64 - 1 then Returns (uint32_value (word_of_int x))
        else Returns (uint64_value (word_of_int x)))"

definition parse_integer :: "bool \<Rightarrow> bool \<Rightarrow> string \<Rightarrow> GenericValue outcome" where
  "parse_integer stale neg input =
     and_then (split_type neg input) (\<lambda>(t, digits).
       if \<not> IsAllDigits digits then Rejected
       else and_then (Stoi_ulong stale digits) (\<lambda>x.
         if neg \<and> 2 ^ 63 - 1 < x then Rejected
         else if t \<noteq> UNKNOWN then typed_integer neg t x
         else smallest_integer neg x))"

definition ParseIfInteger :: "bool \<Rightarrow> string \<Rightarrow> GenericValue outcome" where
  "ParseIfInteger stale input =
     (if HasPrefixString input ''-'' then parse_integer stale True (drop 1 input)
      else parse_integer stale False input)"

text \<open>The sign of a negative number is taken off and not put back.\<close>

definition parse_double :: "text_ops \<Rightarrow> bool \<Rightarrow> string \<Rightarrow> GenericValue outcome" where
  "parse_double T neg input =
     (if \<not> neg \<and> HasPrefixString input ''-'' then Rejected
      else let digits = (if HasSuffixString input ''_DOUBLE'' then snd (StripSuffixString input ''_DOUBLE'') else input)
           in if \<not> IsNumeric digits then Rejected else mapped double_value (Stod T digits))"

definition ParseIfDouble :: "text_ops \<Rightarrow> string \<Rightarrow> GenericValue outcome" where
  "ParseIfDouble T input =
     (if HasPrefixString input ''-'' then parse_double T True (drop 1 input) else parse_double T False input)"

definition or_else :: "'a outcome \<Rightarrow> 'a outcome \<Rightarrow> 'a outcome" where
  "or_else r s = (case r of Rejected \<Rightarrow> s | _ \<Rightarrow> r)"

definition parse_part :: "text_ops \<Rightarrow> bool \<Rightarrow> string \<Rightarrow> GenericValue outcome" where
  "parse_part T stale part =
     or_else (ParseIfInteger stale part) (or_else (ParseIfDouble T part) (SetStringGenericValue part))"

definition string_of_type :: "DataType \<Rightarrow> nat \<Rightarrow> string \<Rightarrow> GenericValue outcome" where
  "string_of_type t n input = (if n < length input then Fails else Returns (GenericValue t (Some (StringData input))))"

definition in_range :: "int \<Rightarrow> int \<Rightarrow> int outcome \<Rightarrow> int outcome" where
  "in_range lo hi r = and_then r (\<lambda>x. if x < lo \<or> hi < x then Rejected else Returns x)"

text \<open>\<open>errno_left i\<close> is whether an earlier call has left an error number when the part \<open>i\<close> of the text is converted.\<close>

definition ParseGenericValue :: "text_ops \<Rightarrow> (nat \<Rightarrow> bool) \<Rightarrow> DataType \<Rightarrow> string \<Rightarrow> GenericValue outcome" where
  "ParseGenericValue T errno_left t input =
     (let stale = errno_left 0;
          number = (\<lambda>f r. mapped (\<lambda>x. GenericValue t (Some (f x))) r)
      in if input = [] then Rejected
         else case t of
           STRING8 \<Rightarrow> string_of_type t 8 input
         | STRING16 \<Rightarrow> string_of_type t 16 input
         | STRING24 \<Rightarrow> string_of_type t 24 input
         | STRING32 \<Rightarrow> string_of_type t 32 input
         | STRING64 \<Rightarrow> string_of_type t 64 input
         | STRING128 \<Rightarrow> string_of_type t 128 input
         | BOOL \<Rightarrow> if input = ''0'' then Returns (bool_value False)
             else if input = ''1'' then Returns (bool_value True) else Rejected
         | INT2 \<Rightarrow> number (\<lambda>x. Int2Data (word_of_int x)) (in_range (- 2) 1 (Stoi_int stale input))
         | UINT2 \<Rightarrow> number (\<lambda>x. Uint2Data (word_of_int x)) (in_range 0 3 (Stoi_int stale input))
         | INT4 \<Rightarrow> number (\<lambda>x. Int4Data (word_of_int x)) (in_range (- 8) 7 (Stoi_int stale input))
         | UINT4 \<Rightarrow> number (\<lambda>x. Uint4Data (word_of_int x)) (in_range 0 15 (Stoi_int stale input))
         | INT8 \<Rightarrow> number (\<lambda>x. Int8Data (word_of_int x)) (Stoi_char stale input)
         | UINT8 \<Rightarrow> number (\<lambda>x. Uint8Data (word_of_int x)) (Stoi_uchar stale input)
         | INT16 \<Rightarrow> number (\<lambda>x. Int16Data (word_of_int x)) (Stoi_short stale input)
         | UINT16 \<Rightarrow> number (\<lambda>x. Uint16Data (word_of_int x)) (Stoi_ushort stale input)
         | INT32 \<Rightarrow> number (\<lambda>x. Int32Data (word_of_int x)) (Stoi_int stale input)
         | UINT32 \<Rightarrow> number (\<lambda>x. Uint32Data (word_of_int x)) (Stoi_uint stale input)
         | INT64 \<Rightarrow> number (\<lambda>x. Int64Data (word_of_int x)) (Stoi_long stale input)
         | UINT64 \<Rightarrow> number (\<lambda>x. Uint64Data (word_of_int x)) (Stoi_ulong stale input)
         | SLICE \<Rightarrow> number (\<lambda>x. SliceData (word_of_int x)) (Stoi_ulong stale input)
         | DOUBLE \<Rightarrow> mapped double_value (Stod T input)
         | VECTOR \<Rightarrow> mapped vector_value
             (each (\<lambda>(i, part). parse_part T (errno_left i) part) (enumerate 0 (Split input '','' True [])))
         | _ \<Rightarrow> Fails)"

subsection \<open>Values as text\<close>

fun nat_text :: "nat \<Rightarrow> string" where
  "nat_text n = (if n < 10 then [char_of (48 + n)] else nat_text (n div 10) @ [char_of (48 + n mod 10)])"

declare nat_text.simps [simp del]

definition Itoa :: "int \<Rightarrow> string" where
  "Itoa x = (if x < 0 then CHR ''-'' # nat_text (nat (- x)) else nat_text (nat x))"

definition Itoa_double :: "text_ops \<Rightarrow> int \<Rightarrow> rat \<Rightarrow> string" where
  "Itoa_double T precision x = t_show T (if precision \<le> 0 then 0 else precision) x"

fun GetGenericValueString :: "text_ops \<Rightarrow> int \<Rightarrow> GenericValue \<Rightarrow> string outcome" where
  "GetGenericValueString T precision (GenericValue t d) =
     (case t of
        UNKNOWN \<Rightarrow> Returns ''UNKNOWN''
      | STRING8 \<Rightarrow> stored_string d
      | STRING16 \<Rightarrow> stored_string d
      | STRING24 \<Rightarrow> stored_string d
      | STRING32 \<Rightarrow> stored_string d
      | STRING64 \<Rightarrow> stored_string d
      | STRING128 \<Rightarrow> stored_string d
      | BOOL \<Rightarrow> mapped (\<lambda>b. if b then ''1'' else ''0'') (stored_bool d)
      | INT2 \<Rightarrow> mapped (\<lambda>w. Itoa (sint w)) (stored8 d)
      | UINT2 \<Rightarrow> mapped (\<lambda>w. Itoa (uint w)) (stored8 d)
      | INT4 \<Rightarrow> mapped (\<lambda>w. Itoa (sint w)) (stored8 d)
      | UINT4 \<Rightarrow> mapped (\<lambda>w. Itoa (uint w)) (stored8 d)
      | INT8 \<Rightarrow> mapped (\<lambda>w. Itoa (sint w)) (stored8 d)
      | UINT8 \<Rightarrow> mapped (\<lambda>w. Itoa (uint w)) (stored8 d)
      | INT16 \<Rightarrow> mapped (\<lambda>w. Itoa (sint w)) (stored16 d)
      | UINT16 \<Rightarrow> mapped (\<lambda>w. Itoa (uint w)) (stored16 d)
      | INT32 \<Rightarrow> mapped (\<lambda>w. Itoa (sint w)) (stored32 d)
      | UINT32 \<Rightarrow> mapped (\<lambda>w. Itoa (uint w)) (stored32 d)
      | INT64 \<Rightarrow> mapped (\<lambda>w. Itoa (sint w)) (stored64 d)
      | UINT64 \<Rightarrow> mapped (\<lambda>w. Itoa (uint w)) (stored64 d)
      | SLICE \<Rightarrow> mapped (\<lambda>w. Itoa (uint w)) (stored64 d)
      | DOUBLE \<Rightarrow> mapped (Itoa_double T precision) (stored_double d)
      | VECTOR \<Rightarrow> (case d of
            Some (VectorData xs) \<Rightarrow>
              mapped (\<lambda>ss. ''('' @ joined '', '' ss @ '')'') (each (GetGenericValueString T (- 1)) xs)
          | _ \<Rightarrow> Fails))"

subsection \<open>Binary text\<close>

fun binary_loop :: "nat \<Rightarrow> 'a::len word \<Rightarrow> string \<Rightarrow> 'a word outcome" where
  "binary_loop k i [] = Returns i"
| "binary_loop k i (c # cs) =
     (if c = CHR ''1'' then binary_loop (Suc k) (i + push_bit k 1) cs
      else if c \<noteq> CHR ''0'' then Rejected
      else binary_loop (Suc k) i cs)"

definition BinaryStringToValue :: "string \<Rightarrow> 'a::len word outcome" where
  "BinaryStringToValue str =
     (if LENGTH('a) div 8 < length str div 8 + (if length str mod 8 = 0 then 0 else 1) then Rejected
      else binary_loop 0 0 (rev str))"

text \<open>The first character is the sign. Sums of 32 and 64 bits may overflow, smaller ones are converted.\<close>

definition TwosComplementStringToValue :: "string \<Rightarrow> 'a::len word outcome" where
  "TwosComplementStringToValue str =
     (if length str < 2 then Rejected
      else and_then (BinaryStringToValue (drop 1 str)) (\<lambda>w :: 'a word.
        if take 1 str = ''1'' then
          if 32 \<le> LENGTH('a) \<and> sint w < 0 then Fails else Returns (w + push_bit (LENGTH('a) - 1) 1)
        else Returns w))"

definition byte_of_text :: "string \<Rightarrow> u8" where
  "byte_of_text s = fold (\<lambda>j b. if s ! (length s - 1 - j) = CHR ''1'' then b + push_bit j 1 else b) [0..<length s] 0"

definition BinaryStringToCharVector :: "string \<Rightarrow> u8 list \<Rightarrow> u8 list" where
  "BinaryStringToCharVector str out =
     (let rest = length str mod 8;
          bytes = length str div 8 + (if rest = 0 then 0 else 1);
          first = (if rest = 0 then 8 else rest)
      in out @ map (\<lambda>i. byte_of_text (if i = 0 then take first str else substr str (first + 8 * (i - 1)) 8)) [0..<bytes])"

definition byte_text :: "u8 \<Rightarrow> string" where
  "byte_text b = map (\<lambda>j. if bit b (7 - j) then CHR ''1'' else CHR ''0'') [0..<8]"

definition CharVectorToBinaryString :: "bool \<Rightarrow> u8 list \<Rightarrow> string" where
  "CharVectorToBinaryString spaces input = joined (if spaces then '' '' else []) (map byte_text input)"

text \<open>Text of another length than the type has bits is refused.\<close>

definition of_length :: "nat list \<Rightarrow> string \<Rightarrow> 'a outcome \<Rightarrow> 'a outcome" where
  "of_length ns str r = (if length str \<in> set ns then r else Rejected)"

definition binary_string :: "string \<Rightarrow> GenericDataType outcome" where
  "binary_string str =
     (if length str mod 8 \<noteq> 0 then Rejected
      else Returns (StringData (map (\<lambda>b. char_of (unat b)) (BinaryStringToCharVector str []))))"

definition binary_bool :: "string \<Rightarrow> GenericDataType outcome" where
  "binary_bool str =
     (if str = ''0'' \<or> str = ''00000000'' then Returns (BoolData False)
      else if str = ''1'' \<or> str = ''00000001'' then Returns (BoolData True)
      else Rejected)"

definition binary_int2 :: "string \<Rightarrow> GenericDataType outcome" where
  "binary_int2 str =
     of_length [2, 8] str
       (if str = ''00'' \<or> str = ''00000000'' then Returns (Int2Data 0)
        else if str = ''01'' \<or> str = ''00000001'' then Returns (Int2Data 1)
        else if str = ''10'' \<or> str = ''11111110'' then Returns (Int2Data (- 2))
        else if str = ''11'' \<or> str = ''11111111'' then Returns (Int2Data (- 1))
        else Rejected)"

definition binary_uint2 :: "string \<Rightarrow> GenericDataType outcome" where
  "binary_uint2 str =
     of_length [2, 8] str
       (if str = ''00'' \<or> str = ''00000000'' then Returns (Uint2Data 0)
        else if str = ''01'' \<or> str = ''00000001'' then Returns (Uint2Data 1)
        else if str = ''10'' \<or> str = ''00000010'' then Returns (Uint2Data 2)
        else if str = ''11'' \<or> str = ''00000011'' then Returns (Uint2Data 3)
        else Rejected)"

definition binary_int4 :: "string \<Rightarrow> GenericDataType outcome" where
  "binary_int4 str =
     of_length [4, 8] str
       (let suffix = (if length str = 8 then drop 4 str else str)
        in mapped (\<lambda>w. Int4Data (if take 1 suffix = ''1'' then w - 8 else w)) (BinaryStringToValue (drop 1 suffix)))"

definition binary_uint4 :: "string \<Rightarrow> GenericDataType outcome" where
  "binary_uint4 str =
     of_length [4, 8] str (mapped Uint4Data (BinaryStringToValue (if length str = 8 then drop 4 str else str)))"

definition parse_binary :: "DataType \<Rightarrow> string \<Rightarrow> GenericValue outcome" where
  "parse_binary t str =
     (if str = [] then Rejected
      else mapped (\<lambda>d. GenericValue t (Some d))
       (case t of
          STRING8 \<Rightarrow> binary_string str
        | STRING16 \<Rightarrow> binary_string str
        | STRING24 \<Rightarrow> binary_string str
        | STRING32 \<Rightarrow> binary_string str
        | STRING64 \<Rightarrow> binary_string str
        | STRING128 \<Rightarrow> binary_string str
        | BOOL \<Rightarrow> binary_bool str
        | INT2 \<Rightarrow> binary_int2 str
        | UINT2 \<Rightarrow> binary_uint2 str
        | INT4 \<Rightarrow> binary_int4 str
        | UINT4 \<Rightarrow> binary_uint4 str
        | INT8 \<Rightarrow> of_length [8] str (mapped Int8Data (TwosComplementStringToValue str))
        | UINT8 \<Rightarrow> of_length [8] str (mapped Uint8Data (BinaryStringToValue str))
        | INT16 \<Rightarrow> of_length [16] str (mapped Int16Data (TwosComplementStringToValue str))
        | UINT16 \<Rightarrow> of_length [16] str (mapped Uint16Data (BinaryStringToValue str))
        | INT32 \<Rightarrow> of_length [32] str (mapped Int32Data (TwosComplementStringToValue str))
        | UINT32 \<Rightarrow> of_length [32] str (mapped Uint32Data (BinaryStringToValue str))
        | INT64 \<Rightarrow> of_length [64] str (mapped Int64Data (TwosComplementStringToValue str))
        | UINT64 \<Rightarrow> of_length [64] str (mapped Uint64Data (BinaryStringToValue str))
        | SLICE \<Rightarrow> of_length [64] str (mapped SliceData (BinaryStringToValue str))
        | _ \<Rightarrow> Fails))"

definition ParseGenericValueFromTwosComplementString :: "DataType \<Rightarrow> u8 list \<Rightarrow> GenericValue outcome" where
  "ParseGenericValueFromTwosComplementString t bytes = parse_binary t (CharVectorToBinaryString False bytes)"

subsection \<open>Values are read back from their text\<close>

lemma nat_text_digits:
  "nat_text n \<noteq> [] \<and> list_all is_digit (nat_text n) \<and> digits_value (nat_text n) = n"
proof (induction n rule: nat_text.induct)
  case (1 n)
  have "is_digit (char_of (48 + k))" "of_char (char_of (48 + k) :: char) = 48 + k" if "k < 10" for k :: nat
    using that by (simp_all add: is_digit_def)
  note digit = this
  show ?case
    using 1 digit [of n] digit [of "n mod 10"]
    by (subst (1 2 3) nat_text.simps) (simp add: digits_value_def)
qed

lemma digit_cases: "is_digit c \<Longrightarrow> c \<noteq> CHR 0x00 \<and> c \<noteq> CHR ''-'' \<and> c \<noteq> CHR ''+'' \<and> \<not> isspace c"
  by (auto simp: is_digit_def isspace_def)

lemma Itoa_read:
  "strtol_text (Itoa x) = (x, length (Itoa x))"
proof -
  define t where "t = nat_text (nat \<bar>x\<bar>)"
  note digits = nat_text_digits [of "nat \<bar>x\<bar>", folded t_def]
  obtain c cs where c: "t = c # cs" "is_digit c" "list_all is_digit cs"
    using digits by (cases t) auto
  have i: "Itoa x = (if x < 0 then CHR ''-'' # t else t)" by (simp add: Itoa_def t_def)
  have d: "takeWhile is_digit t = t" "int (digits_value t) = \<bar>x\<bar>"
    using digits by (auto simp: takeWhile_eq_all_conv list_all_iff)
  have all: "takeWhile (\<lambda>c. c \<noteq> CHR 0x00) (Itoa x) = Itoa x"
    unfolding takeWhile_eq_all_conv i using digits digit_cases by (auto simp: list_all_iff)
  have "\<not> isspace CHR ''-''" by (simp add: isspace_def)
  moreover have "dropWhile isspace t = t" "read_sign t = (False, t)" "t \<noteq> []"
    using digit_cases [OF c(2)] unfolding c(1) by (simp_all add: read_sign_def)
  ultimately have "read_sign (dropWhile isspace (Itoa x)) = (x < 0, t)" "length (Itoa x) = (if x < 0 then 1 else 0) + length t"
    unfolding i by (simp_all add: read_sign_def [of "CHR ''-'' # _"])
  then show ?thesis
    using \<open>t \<noteq> []\<close> unfolding strtol_text_def all Let_def by (simp add: d)
qed

lemma Itoa_zero: "Itoa 0 = ''0''"
  by (simp add: Itoa_def nat_text.simps char_of_def bit_Suc_0_iff)

lemma Itoa_not_Nil [simp]: "Itoa x \<noteq> []"
  using nat_text_digits by (simp add: Itoa_def)

lemma Itoa_minus: "0 \<le> x \<Longrightarrow> CHR ''-'' \<notin> set (Itoa x)"
  using nat_text_digits [of "nat x"] digit_cases by (auto simp: Itoa_def list_all_iff)

lemma checked_Itoa:
  "lo \<le> x \<Longrightarrow> x \<le> hi \<Longrightarrow> checked_text (Itoa x) (length (Itoa x)) False x lo hi = Returns x"
  by (auto simp: checked_text_def all_zeros_def Itoa_zero)

lemma Stoi_signed_Itoa:
  assumes "lo \<le> x" "x \<le> hi" "- (2 ^ 63) \<le> lo" "hi \<le> 2 ^ 63 - 1" "stale \<longrightarrow> - (2 ^ 63) < lo \<and> hi < 2 ^ 63 - 1"
  shows "Stoi_signed lo hi stale (Itoa x) = Returns x"
proof -
  have "clamped (- (2 ^ 63)) (2 ^ 63 - 1) x = x" using assms by (simp add: clamped_def)
  then show ?thesis
    using assms checked_Itoa [OF assms(1,2)] by (auto simp: Stoi_signed_def Itoa_read)
qed

lemma Stoi_unsigned_Itoa:
  assumes "0 \<le> x" "x \<le> hi" "hi \<le> 2 ^ 64 - 1" "stale \<longrightarrow> hi < 2 ^ 64 - 1"
  shows "Stoi_unsigned hi stale (Itoa x) = Returns x"
proof -
  have "clamped 0 (2 ^ 64 - 1) x = x" using assms by (simp add: clamped_def)
  then show ?thesis
    using assms checked_Itoa [OF assms(1,2)] Itoa_minus [OF assms(1)] by (auto simp: Stoi_unsigned_def Itoa_read)
qed

lemmas Stoi_defs = Stoi_char_def Stoi_uchar_def Stoi_short_def Stoi_ushort_def Stoi_int_def Stoi_uint_def
  Stoi_long_def Stoi_ulong_def

text \<open>The bits of a binary text, whose last character is the lowest.\<close>

lemma binary_loop_bits:
  assumes "set cs \<subseteq> {CHR ''0'', CHR ''1''}" "k + length cs \<le> LENGTH('a::len)" "\<And>i. k \<le> i \<Longrightarrow> \<not> bit (w :: 'a::len word) i"
  obtains v :: "'a::len word" where "binary_loop k w cs = Returns v"
    "\<And>i. bit v i \<longleftrightarrow> (if k \<le> i \<and> i < k + length cs then cs ! (i - k) = CHR ''1'' else bit w i)"
  using assms
proof (induction cs arbitrary: k w thesis)
  case Nil
  show ?case by (rule Nil(1) [of w]) auto
next
  case (Cons c cs)
  let ?w = "if c = CHR ''1'' then w + push_bit k 1 else w"
  have k: "k < LENGTH('a)" using Cons.prems(3) by simp
  have step: "bit ?w i \<longleftrightarrow> (if i = k then c = CHR ''1'' else bit w i)" for i
  proof -
    have "w AND push_bit k 1 = 0"
      by (rule bit_eqI) (use Cons.prems(4) in \<open>auto simp: bit_simps\<close>)
    then have "w + push_bit k 1 = w OR push_bit k 1" by (simp add: disjunctive_add_eq_or)
    then show ?thesis using Cons.prems(4) [of k] k by (auto simp: bit_simps)
  qed
  have "set cs \<subseteq> {CHR ''0'', CHR ''1''}" "Suc k + length cs \<le> LENGTH('a)" "\<And>i. Suc k \<le> i \<Longrightarrow> \<not> bit ?w i"
    using Cons.prems step by auto
  then obtain v where v: "binary_loop (Suc k) ?w cs = Returns v"
    "\<And>i. bit v i \<longleftrightarrow> (if Suc k \<le> i \<and> i < Suc k + length cs then cs ! (i - Suc k) = CHR ''1'' else bit ?w i)"
    using Cons.IH by blast
  have "bit v i \<longleftrightarrow> (if k \<le> i \<and> i < k + length (c # cs) then (c # cs) ! (i - k) = CHR ''1'' else bit w i)" for i
    using v(2) [of i] step [of i] by (cases "i = k") (auto simp: nth_Cons' Suc_diff_Suc not_less_eq_eq less_Suc_eq_le)
  moreover have "binary_loop k w (c # cs) = Returns v"
    using v(1) Cons.prems(2) by (auto split: if_splits)
  ultimately show ?case by (rule Cons.prems(1) [rotated])
qed

lemma binary_value_bits:
  assumes "set str \<subseteq> {CHR ''0'', CHR ''1''}" "length str \<le> LENGTH('a::len)" "8 dvd LENGTH('a::len)"
  obtains w :: "'a::len word" where "BinaryStringToValue str = Returns w"
    "\<And>i. bit w i \<longleftrightarrow> i < length str \<and> str ! (length str - 1 - i) = CHR ''1''"
proof -
  obtain w :: "'a word" where w: "binary_loop 0 0 (rev str) = Returns w"
    "\<And>i. bit w i \<longleftrightarrow> (if 0 \<le> i \<and> i < 0 + length (rev str) then rev str ! (i - 0) = CHR ''1'' else bit (0 :: 'a word) i)"
    using binary_loop_bits [where cs = "rev str" and k = 0 and w = "0 :: 'a word"] assms by auto
  have "length str div 8 + (if length str mod 8 = 0 then 0 else 1) \<le> LENGTH('a) div 8"
  proof -
    obtain n where "LENGTH('a) = 8 * n" using assms(3) by auto
    then have "length str < 8 * n \<or> length str = 8 * n" using assms(2) by auto
    then have "length str div 8 < n \<or> length str div 8 = n \<and> length str mod 8 = 0" by (auto simp: less_mult_imp_div_less mult.commute)
    then show ?thesis using \<open>LENGTH('a) = 8 * n\<close> by auto
  qed
  then have "BinaryStringToValue str = Returns w"
    using w(1) by (simp add: BinaryStringToValue_def not_less)
  moreover have "bit w i \<longleftrightarrow> i < length str \<and> str ! (length str - 1 - i) = CHR ''1''" for i
    using w(2) [of i] by (auto simp: rev_nth)
  ultimately show ?thesis by (rule that)
qed

lemma twos_complement_bits:
  assumes "set str \<subseteq> {CHR ''0'', CHR ''1''}" "length str = LENGTH('a::len)" "8 dvd LENGTH('a::len)"
  obtains w :: "'a::len word" where "TwosComplementStringToValue str = Returns w"
    "\<And>i. i < LENGTH('a::len) \<Longrightarrow> bit w i \<longleftrightarrow> str ! (LENGTH('a::len) - 1 - i) = CHR ''1''"
proof -
  let ?n = "LENGTH('a)"
  have n: "2 \<le> ?n" using assms(3) dvd_imp_le [of 8 ?n] by simp
  obtain w :: "'a word" where w: "BinaryStringToValue (drop 1 str) = Returns w"
    "\<And>i. bit w i \<longleftrightarrow> i < length (drop 1 str) \<and> drop 1 str ! (length (drop 1 str) - 1 - i) = CHR ''1''"
    using binary_value_bits [where str = "drop 1 str" and 'a = 'a] assms set_drop_subset [of 1 str] by auto
  have low: "bit w i \<longleftrightarrow> i < ?n - 1 \<and> str ! (?n - 1 - i) = CHR ''1''" for i
    using w(2) [of i] assms(2) by (cases "i < ?n - 1") (simp_all add: Suc_diff_Suc)
  have top: "\<not> bit w (?n - 1)" using low by simp
  then have pos: "\<not> sint w < 0" by (simp add: sint_negative)
  have "w AND push_bit (?n - 1) 1 = 0"
    by (rule bit_eqI) (use top in \<open>auto simp: bit_simps\<close>)
  then have "w + push_bit (?n - 1) 1 = w OR push_bit (?n - 1) 1" by (simp add: disjunctive_add_eq_or)
  then have add: "bit (w + push_bit (?n - 1) 1) i \<longleftrightarrow> bit w i \<or> i = ?n - 1" if "i < ?n" for i
    using that by (auto simp: bit_simps simp del: push_bit_of_1)
  have first: "take 1 str = ''1'' \<longleftrightarrow> str ! 0 = CHR ''1''"
    using n assms(2) by (cases str) auto
  show ?thesis
  proof (rule that)
    show "TwosComplementStringToValue str = Returns (if str ! 0 = CHR ''1'' then w + push_bit (?n - 1) 1 else w)"
      using n assms(2) w(1) pos first by (simp add: TwosComplementStringToValue_def)
    fix i assume "i < ?n"
    then show "bit (if str ! 0 = CHR ''1'' then w + push_bit (?n - 1) 1 else w) i \<longleftrightarrow> str ! (?n - 1 - i) = CHR ''1''"
      using low [of i] add [of i] by (cases "i = ?n - 1") (auto simp del: push_bit_of_1)
  qed
qed

lemma byte_text_props: "length (byte_text b) = 8" "set (byte_text b) \<subseteq> {CHR ''0'', CHR ''1''}"
  "j < 8 \<Longrightarrow> byte_text b ! j = (if bit b (7 - j) then CHR ''1'' else CHR ''0'')"
  by (auto simp: byte_text_def)

lemma joined_Nil: "joined [] ss = concat ss"
proof (induction "[] :: string" ss rule: joined.induct)
qed simp_all

lemma nth_concat_blocks:
  "(\<And>x. x \<in> set xs \<Longrightarrow> length x = n) \<Longrightarrow> i < n * length xs \<Longrightarrow> concat xs ! i = xs ! (i div n) ! (i mod n)"
proof (induction xs arbitrary: i)
  case (Cons x xs)
  show ?case
  proof (cases "i < n")
    case False
    moreover have "0 < n" using Cons.prems(2) by (cases n) simp_all
    ultimately have "i div n = Suc ((i - n) div n)" "i mod n = (i - n) mod n"
      by (simp_all add: le_div_geq le_mod_geq not_less)
    then show ?thesis
      using False Cons.IH [of "i - n"] Cons.prems by (auto simp: nth_append)
  qed (use Cons in \<open>simp add: nth_append\<close>)
qed simp

lemma bytes_text:
  "length (CharVectorToBinaryString False bs) = 8 * length bs"
  "set (CharVectorToBinaryString False bs) \<subseteq> {CHR ''0'', CHR ''1''}"
  "i < 8 * length bs \<Longrightarrow> CharVectorToBinaryString False bs ! (8 * length bs - 1 - i) = CHR ''1'' \<longleftrightarrow> byte_bit bs i"
proof -
  have t: "CharVectorToBinaryString False bs = concat (map byte_text bs)" by (simp add: CharVectorToBinaryString_def joined_Nil)
  show "length (CharVectorToBinaryString False bs) = 8 * length bs"
    unfolding t by (induction bs) (simp_all add: byte_text_props)
  show "set (CharVectorToBinaryString False bs) \<subseteq> {CHR ''0'', CHR ''1''}"
    unfolding t using byte_text_props(2) by fastforce
  assume i: "i < 8 * length bs"
  define j where "j = 8 * length bs - 1 - i"
  obtain q r where q: "i = 8 * q + r" "r < 8" "q < length bs"
    using i by (metis div_mult_mod_eq mod_less_divisor mult.commute less_mult_imp_div_less zero_less_numeral)
  then have "length bs = Suc (q + (length bs - 1 - q))" by simp
  then obtain m where m: "length bs = Suc (q + m)" by blast
  obtain k where k: "r = 7 - k" "k < 8" using q(2) by (intro that [of "7 - r"]) simp_all
  have j: "j = k + 8 * m" using q k m by (simp add: j_def)
  have "concat (map byte_text bs) ! j = byte_text (bs ! m) ! k"
    unfolding j using k(2) m by (subst nth_concat_blocks [where n = 8]) (auto simp: byte_text_props(1))
  moreover have "byte_bit bs i = bit (bs ! m) (7 - k)"
    unfolding q(1) using q(2) m by (simp add: byte_bit_def k(1))
  ultimately show "CharVectorToBinaryString False bs ! (8 * length bs - 1 - i) = CHR ''1'' \<longleftrightarrow> byte_bit bs i"
    unfolding t j_def [symmetric] by (simp add: byte_text_props(3) [OF k(2)])
qed

lemma value_read_back:
  assumes "bytes_hold LENGTH('a::len) x bs" "8 * length bs = LENGTH('a::len)"
  shows "BinaryStringToValue (CharVectorToBinaryString False bs) = Returns (word_of_int x :: 'a word)"
    "TwosComplementStringToValue (CharVectorToBinaryString False bs) = Returns (word_of_int x :: 'a word)"
proof -
  let ?str = "CharVectorToBinaryString False bs"
  have "?str ! (LENGTH('a) - 1 - i) = CHR ''1'' \<longleftrightarrow> bit x i" if "i < LENGTH('a)" for i
    using bytes_text(3) [of i bs] that assms(1) unfolding assms(2) by (simp add: bytes_hold_def assms(2))
  moreover have "8 dvd LENGTH('a)" by (metis assms(2) dvd_triv_left)
  ultimately have str: "set ?str \<subseteq> {CHR ''0'', CHR ''1''}" "length ?str = LENGTH('a)" "8 dvd LENGTH('a)"
    "\<And>i. i < LENGTH('a) \<Longrightarrow> ?str ! (LENGTH('a) - 1 - i) = CHR ''1'' \<longleftrightarrow> bit x i"
    using bytes_text(1,2) [of bs] assms(2) by simp_all
  obtain w :: "'a word" where w: "BinaryStringToValue ?str = Returns w"
    "\<And>i. bit w i \<longleftrightarrow> i < length ?str \<and> ?str ! (length ?str - 1 - i) = CHR ''1''"
    using binary_value_bits [OF str(1) _ str(3)] str(2) by auto
  then have "w = word_of_int x"
    using str(2,4) by (auto intro!: bit_word_eqI simp: bit_word_of_int_iff)
  then show "BinaryStringToValue ?str = Returns (word_of_int x :: 'a word)" using w(1) by simp
  obtain u :: "'a word" where u: "TwosComplementStringToValue ?str = Returns u"
    "\<And>i. i < LENGTH('a) \<Longrightarrow> bit u i \<longleftrightarrow> ?str ! (LENGTH('a) - 1 - i) = CHR ''1''"
    using twos_complement_bits [OF str(1-3)] by auto
  then have "u = word_of_int x"
    using str(4) by (auto intro!: bit_word_eqI simp: bit_word_of_int_iff)
  then show "TwosComplementStringToValue ?str = Returns (word_of_int x :: 'a word)" using u(1) by simp
qed

lemma small_values:
  fixes w :: u8
  shows "uint w \<le> 3 \<Longrightarrow> w \<in> {0, 1, 2, 3}" "uint w \<le> 15 \<Longrightarrow> w \<in> {0, 1, 2, 3, 4, 5, 6, 7, 8, 9, 10, 11, 12, 13, 14, 15}"
    "- 8 \<le> sint w \<Longrightarrow> sint w \<le> 7 \<Longrightarrow> w \<in> {- 8, - 7, - 6, - 5, - 4, - 3, - 2, - 1, 0, 1, 2, 3, 4, 5, 6, 7}"
proof -
  show "w \<in> {0, 1, 2, 3}" if "uint w \<le> 3"
  proof -
    have "uint w = 0 \<or> uint w = 1 \<or> uint w = 2 \<or> uint w = 3" using that uint_ge_0 [of w] by arith
    then have "(word_of_int (uint w) :: u8) \<in> {0, 1, 2, 3}" by (elim disjE) simp_all
    then show ?thesis by simp
  qed
  show "w \<in> {0, 1, 2, 3, 4, 5, 6, 7, 8, 9, 10, 11, 12, 13, 14, 15}" if "uint w \<le> 15"
  proof -
    have "uint w = 0 \<or> uint w = 1 \<or> uint w = 2 \<or> uint w = 3 \<or> uint w = 4 \<or> uint w = 5 \<or> uint w = 6 \<or> uint w = 7 \<or> uint w = 8 \<or> uint w = 9 \<or> uint w = 10 \<or> uint w = 11 \<or> uint w = 12 \<or> uint w = 13 \<or> uint w = 14 \<or> uint w = 15" using that uint_ge_0 [of w] by arith
    then have "(word_of_int (uint w) :: u8) \<in> {0, 1, 2, 3, 4, 5, 6, 7, 8, 9, 10, 11, 12, 13, 14, 15}" by (elim disjE) simp_all
    then show ?thesis by simp
  qed
  show "w \<in> {- 8, - 7, - 6, - 5, - 4, - 3, - 2, - 1, 0, 1, 2, 3, 4, 5, 6, 7}" if "- 8 \<le> sint w" "sint w \<le> 7"
  proof -
    have "sint w = - 8 \<or> sint w = - 7 \<or> sint w = - 6 \<or> sint w = - 5 \<or> sint w = - 4 \<or> sint w = - 3 \<or> sint w = - 2 \<or> sint w = - 1 \<or> sint w = 0 \<or> sint w = 1 \<or> sint w = 2 \<or> sint w = 3 \<or> sint w = 4 \<or> sint w = 5 \<or> sint w = 6 \<or> sint w = 7" using that by arith
    then have "(word_of_int (sint w) :: u8) \<in> {- 8, - 7, - 6, - 5, - 4, - 3, - 2, - 1, 0, 1, 2, 3, 4, 5, 6, 7}" by (elim disjE) simp_all
    then show ?thesis by simp
  qed
qed

lemma small_text_all:
  "\<forall>w \<in> set [0, 1, 2, 3]. binary_uint2 (byte_text w) = Returns (Uint2Data w)"
  "\<forall>w \<in> set [0, 1, 2, 3, 4, 5, 6, 7, 8, 9, 10, 11, 12, 13, 14, 15]. binary_uint4 (byte_text w) = Returns (Uint4Data w)"
  by code_simp+

lemma small_parse:
  "\<forall>w \<in> set [- 8, - 7, - 6, - 5, - 4, - 3, - 2, - 1, 0, 1, 2, 3, 4, 5, 6, 7].
     and_then (int4_byte (sint w)) (ParseGenericValueFromTwosComplementString INT4) = Returns (GenericValue INT4 (Some (Int4Data w)))"
  "\<forall>w \<in> set [0, 1].
     and_then (int2_byte (sint w)) (ParseGenericValueFromTwosComplementString INT2) = Returns (GenericValue INT2 (Some (Int2Data w)))"
  "\<forall>w \<in> set [- 1, - 2 :: u8].
     and_then (int2_byte (sint w)) (ParseGenericValueFromTwosComplementString INT2) = Rejected"
  "\<forall>w \<in> set [0, 1, 2, 3].
     ParseGenericValueFromTwosComplementString UINT2 (ValueToByteString w []) = Returns (GenericValue UINT2 (Some (Uint2Data w)))"
  "\<forall>w \<in> set [0, 1, 2, 3, 4, 5, 6, 7, 8, 9, 10, 11, 12, 13, 14, 15].
     ParseGenericValueFromTwosComplementString UINT4 (ValueToByteString w []) = Returns (GenericValue UINT4 (Some (Uint4Data w)))"
  "\<forall>b \<in> set [False, True].
     ParseGenericValueFromTwosComplementString BOOL [if b then 1 else 0] = Returns (GenericValue BOOL (Some (BoolData b)))"
  by code_simp+

lemma small_int2:
  assumes "wf_int v" "val_type v = INT2" "0 \<le> int_of v"
  shows "\<exists>w \<in> set [0, 1]. v = GenericValue INT2 (Some (Int2Data w))"
  using assms(1)
proof (cases rule: wf_int_cases)
  case (INT2 w)
  then have "sint w = 0 \<or> sint w = 1" using assms(3) by (auto simp: int_of_def)
  then have "word_of_int (sint w) \<in> {0, 1 :: u8}" by (elim disjE) simp_all
  then show ?thesis using INT2 by auto
qed (use assms in simp_all)

lemmas decimal_readers = ParseGenericValue_def Stoi_defs Stoi_signed_Itoa Stoi_unsigned_Itoa type_bits_def in_range_def

lemma small_decimal:
  "- 8 \<le> x \<Longrightarrow> x \<le> 15 \<Longrightarrow> Stoi_signed (- (2 ^ 31)) (2 ^ 31 - 1) stale (Itoa x) = Returns x"
  by (rule Stoi_signed_Itoa) simp_all

lemma decimal_read_back:
  assumes "wf_int v" "errno_left 0 \<longrightarrow> type_bits (val_type v) < 64"
  shows "\<exists>s. GetGenericValueString T precision v = Returns s \<and> ParseGenericValue T errno_left (val_type v) s = Returns v"
  using assms(1)
proof (cases rule: wf_int_cases)
  case (INT2 w)
  have "Stoi_signed (- (2 ^ 31)) (2 ^ 31 - 1) (errno_left 0) (Itoa (sint w)) = Returns (sint w)"
    by (rule small_decimal) (use INT2 uint_ge_0 [of w] in linarith)+
  with INT2 show ?thesis by (simp add: decimal_readers)
next
  case (UINT2 w)
  have "Stoi_signed (- (2 ^ 31)) (2 ^ 31 - 1) (errno_left 0) (Itoa (uint w)) = Returns (uint w)"
    by (rule small_decimal) (use UINT2 uint_ge_0 [of w] in linarith)+
  with UINT2 show ?thesis by (simp add: decimal_readers)
next
  case (INT4 w)
  have "Stoi_signed (- (2 ^ 31)) (2 ^ 31 - 1) (errno_left 0) (Itoa (sint w)) = Returns (sint w)"
    by (rule small_decimal) (use INT4 uint_ge_0 [of w] in linarith)+
  with INT4 show ?thesis by (simp add: decimal_readers)
next
  case (UINT4 w)
  have "Stoi_signed (- (2 ^ 31)) (2 ^ 31 - 1) (errno_left 0) (Itoa (uint w)) = Returns (uint w)"
    by (rule small_decimal) (use UINT4 uint_ge_0 [of w] in linarith)+
  with UINT4 show ?thesis by (simp add: decimal_readers)
next
  case (INT8 w)
  then show ?thesis using sint_range [of w] assms(2) by (simp add: decimal_readers)
next
  case (UINT8 w)
  then show ?thesis using uint_range [of w] assms(2) by (simp add: decimal_readers)
next
  case (INT16 w)
  then show ?thesis using sint_range [of w] assms(2) by (simp add: decimal_readers)
next
  case (UINT16 w)
  then show ?thesis using uint_range [of w] assms(2) by (simp add: decimal_readers)
next
  case (INT32 w)
  then show ?thesis using sint_range [of w] assms(2) by (simp add: decimal_readers)
next
  case (UINT32 w)
  then show ?thesis using uint_range [of w] assms(2) by (simp add: decimal_readers)
next
  case (INT64 w)
  then show ?thesis using sint_range [of w] assms(2) by (simp add: decimal_readers)
next
  case (UINT64 w)
  then show ?thesis using uint_range [of w] assms(2) by (simp add: decimal_readers)
next
  case (SLICE w)
  then show ?thesis using uint_range [of w] assms(2) by (simp add: decimal_readers)
next
  case (BOOL b)
  then show ?thesis by (simp add: ParseGenericValue_def bool_value_def)
qed

lemmas binary_readers = ParseGenericValueFromTwosComplementString_def parse_binary_def of_length_def type_bits_def int_of_def
  bytes_text(1)

lemma CharVectorToBinaryString_Nil: "CharVectorToBinaryString b bs = [] \<longleftrightarrow> bs = []"
  by (cases bs; cases "tl bs") (auto simp: CharVectorToBinaryString_def byte_text_def upt_conv_Cons)

lemma parse_wide:
  assumes "bytes_hold n x bs" "8 * length bs = n"
  shows "n = 8 \<Longrightarrow> ParseGenericValueFromTwosComplementString INT8 bs = Returns (GenericValue INT8 (Some (Int8Data (word_of_int x))))"
    "n = 8 \<Longrightarrow> ParseGenericValueFromTwosComplementString UINT8 bs = Returns (GenericValue UINT8 (Some (Uint8Data (word_of_int x))))"
    "n = 16 \<Longrightarrow> ParseGenericValueFromTwosComplementString INT16 bs = Returns (GenericValue INT16 (Some (Int16Data (word_of_int x))))"
    "n = 16 \<Longrightarrow> ParseGenericValueFromTwosComplementString UINT16 bs = Returns (GenericValue UINT16 (Some (Uint16Data (word_of_int x))))"
    "n = 32 \<Longrightarrow> ParseGenericValueFromTwosComplementString INT32 bs = Returns (GenericValue INT32 (Some (Int32Data (word_of_int x))))"
    "n = 32 \<Longrightarrow> ParseGenericValueFromTwosComplementString UINT32 bs = Returns (GenericValue UINT32 (Some (Uint32Data (word_of_int x))))"
    "n = 64 \<Longrightarrow> ParseGenericValueFromTwosComplementString INT64 bs = Returns (GenericValue INT64 (Some (Int64Data (word_of_int x))))"
    "n = 64 \<Longrightarrow> ParseGenericValueFromTwosComplementString UINT64 bs = Returns (GenericValue UINT64 (Some (Uint64Data (word_of_int x))))"
    "n = 64 \<Longrightarrow> ParseGenericValueFromTwosComplementString SLICE bs = Returns (GenericValue SLICE (Some (SliceData (word_of_int x))))"
proof -
  have "CharVectorToBinaryString False bs \<noteq> []" if "0 < n"
    using that assms(2) by (auto simp: CharVectorToBinaryString_Nil)
  note facts = this bytes_text(1) [of bs] binary_readers
  show "n = 8 \<Longrightarrow> ParseGenericValueFromTwosComplementString INT8 bs = Returns (GenericValue INT8 (Some (Int8Data (word_of_int x))))"
    using value_read_back [where 'a = 8, of x bs] assms by (simp add: facts)
  show "n = 8 \<Longrightarrow> ParseGenericValueFromTwosComplementString UINT8 bs = Returns (GenericValue UINT8 (Some (Uint8Data (word_of_int x))))"
    using value_read_back [where 'a = 8, of x bs] assms by (simp add: facts)
  show "n = 16 \<Longrightarrow> ParseGenericValueFromTwosComplementString INT16 bs = Returns (GenericValue INT16 (Some (Int16Data (word_of_int x))))"
    using value_read_back [where 'a = 16, of x bs] assms by (simp add: facts)
  show "n = 16 \<Longrightarrow> ParseGenericValueFromTwosComplementString UINT16 bs = Returns (GenericValue UINT16 (Some (Uint16Data (word_of_int x))))"
    using value_read_back [where 'a = 16, of x bs] assms by (simp add: facts)
  show "n = 32 \<Longrightarrow> ParseGenericValueFromTwosComplementString INT32 bs = Returns (GenericValue INT32 (Some (Int32Data (word_of_int x))))"
    using value_read_back [where 'a = 32, of x bs] assms by (simp add: facts)
  show "n = 32 \<Longrightarrow> ParseGenericValueFromTwosComplementString UINT32 bs = Returns (GenericValue UINT32 (Some (Uint32Data (word_of_int x))))"
    using value_read_back [where 'a = 32, of x bs] assms by (simp add: facts)
  show "n = 64 \<Longrightarrow> ParseGenericValueFromTwosComplementString INT64 bs = Returns (GenericValue INT64 (Some (Int64Data (word_of_int x))))"
    using value_read_back [where 'a = 64, of x bs] assms by (simp add: facts)
  show "n = 64 \<Longrightarrow> ParseGenericValueFromTwosComplementString UINT64 bs = Returns (GenericValue UINT64 (Some (Uint64Data (word_of_int x))))"
    using value_read_back [where 'a = 64, of x bs] assms by (simp add: facts)
  show "n = 64 \<Longrightarrow> ParseGenericValueFromTwosComplementString SLICE bs = Returns (GenericValue SLICE (Some (SliceData (word_of_int x))))"
    using value_read_back [where 'a = 64, of x bs] assms by (simp add: facts)
qed

lemma binary_read_back:
  assumes "wf_int v" "\<not> (val_type v = INT2 \<and> int_of v < 0)"
  shows "and_then (GetTwosComplementByteString v) (ParseGenericValueFromTwosComplementString (val_type v)) = Returns v"
proof -
  obtain bs where bs: "GetTwosComplementByteString v = Returns bs" "DataType_NumBytes (val_type v) = Returns (length bs)"
    "bytes_hold (type_bits (val_type v)) (int_of v) bs"
    using bytes_of_int [OF assms(1)] .
  note hold = bs(2,3) and parse = parse_wide [OF bs(3)]
  show ?thesis
    using assms(1)
  proof (cases rule: wf_int_cases)
    case (INT2 w)
    then show ?thesis using small_int2 [OF assms(1)] assms(2) small_parse(2) by auto
  next
    case (UINT2 w)
    then show ?thesis using small_values(1) [of w] bspec [OF small_parse(4), of w] by simp
  next
    case (INT4 w)
    then show ?thesis using small_values(3) [of w] bspec [OF small_parse(1), of w] by simp
  next
    case (UINT4 w)
    then show ?thesis using small_values(2) [of w] bspec [OF small_parse(5), of w] by simp
  next
    case (BOOL b)
    then show ?thesis using small_parse(6) by (cases b) simp_all
  next
    case (INT8 w)
    have "ParseGenericValueFromTwosComplementString (val_type v) bs = Returns v"
      using hold parse(1) by (simp add: INT8 int_of_def type_bits_def)
    then show ?thesis unfolding bs(1) by simp
  next
    case (UINT8 w)
    have "ParseGenericValueFromTwosComplementString (val_type v) bs = Returns v"
      using hold parse(2) by (simp add: UINT8 int_of_def type_bits_def)
    then show ?thesis unfolding bs(1) by simp
  next
    case (INT16 w)
    have "ParseGenericValueFromTwosComplementString (val_type v) bs = Returns v"
      using hold parse(3) by (simp add: INT16 int_of_def type_bits_def)
    then show ?thesis unfolding bs(1) by simp
  next
    case (UINT16 w)
    have "ParseGenericValueFromTwosComplementString (val_type v) bs = Returns v"
      using hold parse(4) by (simp add: UINT16 int_of_def type_bits_def)
    then show ?thesis unfolding bs(1) by simp
  next
    case (INT32 w)
    have "ParseGenericValueFromTwosComplementString (val_type v) bs = Returns v"
      using hold parse(5) by (simp add: INT32 int_of_def type_bits_def)
    then show ?thesis unfolding bs(1) by simp
  next
    case (UINT32 w)
    have "ParseGenericValueFromTwosComplementString (val_type v) bs = Returns v"
      using hold parse(6) by (simp add: UINT32 int_of_def type_bits_def)
    then show ?thesis unfolding bs(1) by simp
  next
    case (INT64 w)
    have "ParseGenericValueFromTwosComplementString (val_type v) bs = Returns v"
      using hold parse(7) by (simp add: INT64 int_of_def type_bits_def)
    then show ?thesis unfolding bs(1) by simp
  next
    case (UINT64 w)
    have "ParseGenericValueFromTwosComplementString (val_type v) bs = Returns v"
      using hold parse(8) by (simp add: UINT64 int_of_def type_bits_def)
    then show ?thesis unfolding bs(1) by simp
  next
    case (SLICE w)
    have "ParseGenericValueFromTwosComplementString (val_type v) bs = Returns v"
      using hold parse(9) by (simp add: SLICE int_of_def type_bits_def)
    then show ?thesis unfolding bs(1) by simp
  qed
qed

text \<open>The string that the bytes of a value of a string type hold: there are as many bytes as the type has.\<close>

definition with_padding :: "GenericValue \<Rightarrow> GenericValue" where
  "with_padding v =
     (case val_object v of
        Some (StringData s) \<Rightarrow>
          GenericValue (val_type v) (Some (StringData (replicate (type_bits (val_type v) div 8 - length s) (CHR 0x00) @ s)))
      | _ \<Rightarrow> v)"

lemma byte_of_byte_text: "byte_of_text (byte_text b) = b"
proof -
  have "list_all (\<lambda>n. byte_of_text (byte_text (word_of_nat n)) = word_of_nat n) [0..<256]" by code_simp
  moreover have "unat b \<in> set [0..<256]" using unsigned_less [of b, where 'a = nat] by simp
  ultimately have "byte_of_text (byte_text (word_of_nat (unat b))) = word_of_nat (unat b)" unfolding list_all_iff by blast
  then show ?thesis by simp
qed

lemma char_vector_read_back: "BinaryStringToCharVector (CharVectorToBinaryString False bs) [] = bs"
proof (rule nth_equalityI)
  let ?t = "CharVectorToBinaryString False bs"
  have t: "?t = concat (map byte_text bs)" by (simp add: CharVectorToBinaryString_def joined_Nil)
  have len: "length ?t = 8 * length bs" unfolding t by (induction bs) (simp_all add: byte_text_props)
  then show "length (BinaryStringToCharVector ?t []) = length bs" by (simp add: BinaryStringToCharVector_def)
  have block: "take 8 (drop (8 * i) (concat (map byte_text cs))) = byte_text (cs ! i)" if "i < length cs" for i cs
    using that
  proof (induction cs arbitrary: i)
    case (Cons c cs)
    then show ?case by (cases i) (simp_all add: byte_text_props)
  qed simp
  fix i assume "i < length (BinaryStringToCharVector ?t [])"
  then have i: "i < length bs" using len by (simp add: BinaryStringToCharVector_def)
  have "(if i = 0 then take 8 ?t else substr ?t (8 + 8 * (i - 1)) 8) = byte_text (bs ! i)"
    using block [OF i] by (cases i) (simp_all add: t substr_def)
  then show "BinaryStringToCharVector ?t [] ! i = bs ! i"
    using i len by (cases "i = 0") (simp_all add: BinaryStringToCharVector_def byte_of_byte_text)
qed

lemma string_read_back:
  assumes "wf_string v" "val_object v \<noteq> Some (StringData [])"
  shows "GetGenericValueString T precision v = Returns s \<Longrightarrow> ParseGenericValue T errno_left (val_type v) s = Returns v"
    and "\<exists>s. GetGenericValueString T precision v = Returns s"
    and "and_then (GetTwosComplementByteString v) (ParseGenericValueFromTwosComplementString (val_type v)) = Returns (with_padding v)"
proof -
  obtain t s where v: "v = GenericValue t (Some (StringData s))" "IsStringDataType t" "s \<noteq> []" "8 * length s \<le> type_bits t"
    using assms by (cases v) (auto simp: wf_string_def)
  then show "GetGenericValueString T precision v = Returns s' \<Longrightarrow> ParseGenericValue T errno_left (val_type v) s' = Returns v" for s'
    by (auto simp: IsStringDataType_def ParseGenericValue_def string_of_type_def type_bits_def)
  show "\<exists>s. GetGenericValueString T precision v = Returns s" using v by (auto simp: IsStringDataType_def)
  let ?bs = "replicate (type_bits t div 8 - length s) 0 @ map of_char s :: u8 list"
  have "GetTwosComplementByteString v = Returns ?bs"
    using v by (auto simp: IsStringDataType_def string_bytes_def type_bits_def)
  moreover have "CharVectorToBinaryString False ?bs \<noteq> []"
  proof
    assume "CharVectorToBinaryString False ?bs = []"
    from arg_cong [OF this, of "\<lambda>t. BinaryStringToCharVector t []"] have "?bs = BinaryStringToCharVector [] []"
      by (simp only: char_vector_read_back)
    moreover have "BinaryStringToCharVector [] [] = []" by (simp add: BinaryStringToCharVector_def)
    ultimately have "?bs = []" by (rule trans)
    then have "map of_char s = ([] :: u8 list)" unfolding append_is_Nil_conv by blast
    then show False using v(3) by simp
  qed
  moreover have "length (CharVectorToBinaryString False ?bs) mod 8 = 0" unfolding bytes_text(1) by simp
  moreover have "char_of (unat (of_char c :: u8)) = c" for c
  proof -
    have "(of_char c :: nat) < 256" by simp
    then have "unat (word_of_nat (of_char c) :: u8) = of_char c" by (simp add: unat_of_nat)
    then have "unat (of_char c :: u8) = of_char c" by (simp add: of_nat_of_char)
    then show ?thesis by simp
  qed
  then have "map (\<lambda>b. char_of (unat b)) ?bs = replicate (type_bits t div 8 - length s) (CHR 0x00) @ s"
    by (simp add: comp_def char_of_def)
  ultimately show "and_then (GetTwosComplementByteString v) (ParseGenericValueFromTwosComplementString (val_type v)) =
      Returns (with_padding v)"
    using v(1,2) by (auto simp: ParseGenericValueFromTwosComplementString_def parse_binary_def binary_string_def
        char_vector_read_back IsStringDataType_def with_padding_def)
qed

text \<open>C32: A value can be read back from its text: an integer of any type, a truth value and a slice included, from the
  decimal text it is printed as and from the bits of its bytes, and a string that is not empty from the text it is printed
  as and, with zero characters in front of it up to the length of its type, from the bits of its bytes. The bytes of a
  negative \<open>INT2\<close> are the exception, since the reader expects the bits of a byte with the sign extended and the writer
  leaves the high bits zero. The decimal text of a number of 64 bits is read back when no earlier call has left an error
  number, which the reader does not reset.\<close>

theorem values_read_back:
  assumes "wf_int v \<and> (errno_left 0 \<longrightarrow> type_bits (val_type v) < 64) \<or>
    wf_string v \<and> val_object v \<noteq> Some (StringData [])"
  shows "(\<exists>s. GetGenericValueString T precision v = Returns s \<and> ParseGenericValue T errno_left (val_type v) s = Returns v)
    \<and> (val_type v = INT2 \<and> int_of v < 0
       \<or> and_then (GetTwosComplementByteString v) (ParseGenericValueFromTwosComplementString (val_type v)) =
           Returns (if wf_string v then with_padding v else v))"
proof (cases "wf_string v")
  case True
  moreover from this have "\<not> wf_int v" using wf_int_not by (auto simp: wf_string_def)
  ultimately have "wf_string v" "val_object v \<noteq> Some (StringData [])" using assms by auto
  from string_read_back [OF this] show ?thesis using True by metis
next
  case False
  then show ?thesis using decimal_read_back [where errno_left = errno_left] binary_read_back assms by auto
qed

definition exact_text :: text_ops where
  "exact_text = \<lparr>t_strtod = (\<lambda>_. (None, 0)), t_rd = id, t_show = (\<lambda>_ _. [])\<rparr>"

theorem values_read_back_witness:
  "and_then (GetTwosComplementByteString (GenericValue INT16 (Some (Int16Data (- 5))))) (ParseGenericValueFromTwosComplementString INT16)
     = Returns (GenericValue INT16 (Some (Int16Data (- 5))))
   \<and> (\<exists>s. GetGenericValueString exact_text 2 (GenericValue INT16 (Some (Int16Data (- 5)))) = Returns s
        \<and> ParseGenericValue exact_text (\<lambda>_. True) INT16 s = Returns (GenericValue INT16 (Some (Int16Data (- 5)))))
   \<and> and_then (GetTwosComplementByteString (GenericValue STRING8 (Some (StringData ''yes''))))
       (ParseGenericValueFromTwosComplementString STRING8) =
     Returns (GenericValue STRING8 (Some (StringData (replicate 5 (CHR 0x00) @ ''yes''))))"
  using values_read_back [of "GenericValue INT16 (Some (Int16Data (- 5)))" "\<lambda>_. True" exact_text 2]
    values_read_back [of "GenericValue STRING8 (Some (StringData ''yes''))" "\<lambda>_. True" exact_text 2]
  by (simp add: wf_int_def fits_def type_bits_def wf_string_def with_padding_def IsStringDataType_def
      del: GetGenericValueString.simps GetTwosComplementByteString.simps)

text \<open>Two readings that go wrong: the number one of type \<open>INT2\<close>, and the sign of a floating-point number.\<close>

lemma int2_one_negative:
  "ParseIfInteger False ''1_INT2'' = Returns (GenericValue INT2 (Some (Int2Data (- 1))))"
  by code_simp

lemma double_sign_lost: "\<not> HasPrefixString s ''-'' \<Longrightarrow> ParseIfDouble T (CHR ''-'' # s) = ParseIfDouble T s"
  by (simp add: ParseIfDouble_def parse_double_def HasPrefixString_def substr_def)

lemma binary_int2_refused:
  "and_then (GetTwosComplementByteString (GenericValue INT2 (Some (Int2Data (- 1))))) (ParseGenericValueFromTwosComplementString INT2)
     = Rejected"
  by code_simp

end
