(* ===== verification/Expressions.thy ===== *)
theory Expressions
  imports Value_Text Operators
begin

text \<open>
  Formulas of \<open>Util/data_structures.cpp\<close>: splitting of a text around operators outside groups, the parser of
  expressions and their printing. A parsed expression is written to a fresh object, and what it holds after
  \<open>false\<close> is left out. The set of variable names is the list of its elements in increasing order.
\<close>

subsection \<open>Groups\<close>

text \<open>The array has room for five pairs and four are given, so the last holds two zero characters.\<close>

definition kGroupingSymbols :: "(char \<times> char) list" where
  "kGroupingSymbols = [(CHR ''('', CHR '')''), (CHR ''{'', CHR ''}''), (CHR ''['', CHR '']''), (CHR ''|'', CHR ''|''),
     (CHR 0x00, CHR 0x00)]"

definition StripEnclosingGroupingSymbols :: "string \<Rightarrow> string outcome" where
  "StripEnclosingGroupingSymbols input =
     (case find (\<lambda>(l, r). HasPrefixString input [l]) (butlast kGroupingSymbols) of
        None \<Rightarrow> Returns input
      | Some (l, r) \<Rightarrow>
          if \<not> HasSuffixString input [r] then Rejected
          else Returns (substr input 1 (length input - 2)))"

text \<open>The position of the symbol that closes a group, where \<open>depth\<close> groups are open at position \<open>i\<close>.\<close>

fun closing :: "char \<Rightarrow> char \<Rightarrow> nat \<Rightarrow> nat \<Rightarrow> string \<Rightarrow> nat option" where
  "closing l r depth i [] = None"
| "closing l r depth i (c # cs) =
     (let depth = (if c = l then depth + 1 else depth);
          depth = (if c = r then depth - 1 else depth)
      in if depth = 0 then Some i else closing l r depth (Suc i) cs)"

definition GetClosingParentheses :: "string \<Rightarrow> nat option" where
  "GetClosingParentheses input =
     (if take 1 input \<noteq> ''('' then None else closing CHR ''('' CHR '')'' 1 1 (tl input))"

definition GetClosingSymbol :: "string \<Rightarrow> char \<times> char \<Rightarrow> nat option" where
  "GetClosingSymbol input symbols =
     (case symbols of (l, r) \<Rightarrow>
        if take 1 input \<noteq> [l] then None
        else if l = r then find_from [l] input 1
        else closing l r 1 1 (tl input))"

fun count_parentheses :: "bool \<Rightarrow> int \<Rightarrow> string \<Rightarrow> int option" where
  "count_parentheses force n [] = Some n"
| "count_parentheses force n (c # cs) =
     (if c = CHR ''('' then count_parentheses force (n + 1) cs
      else if c = CHR '')'' then if n - 1 < 0 \<and> force then None else count_parentheses force (n - 1) cs
      else count_parentheses force n cs)"

definition CountOpenCloseParentheses :: "bool \<Rightarrow> string \<Rightarrow> int \<Rightarrow> int outcome" where
  "CountOpenCloseParentheses force input num_unmatched =
     (if force \<and> num_unmatched < 0 then Fails else accepted (count_parentheses force num_unmatched input))"

function StripExtraneousParentheses :: "string \<Rightarrow> string" where
  "StripExtraneousParentheses input =
     (if HasPrefixString input ''('' \<and> HasSuffixString input '')'' then
        StripExtraneousParentheses (substr input 1 (length input - 2))
      else input)"
  by pat_completeness auto
termination
  by (relation "measure length") (auto simp: HasPrefixString_def substr_def simp flip: length_greater_0_conv split: if_splits)

declare StripExtraneousParentheses.simps [simp del]

subsection \<open>Splitting around operators\<close>

text \<open>The first of some texts that occurs, and where.\<close>

fun earliest :: "nat \<Rightarrow> string list \<Rightarrow> string \<Rightarrow> (nat \<times> nat) option \<Rightarrow> (nat \<times> nat) option" where
  "earliest i [] s best = best"
| "earliest i (p # ps) s best =
     earliest (Suc i) ps s
       (case first_in p s of
          None \<Rightarrow> best
        | Some k \<Rightarrow> (case best of None \<Rightarrow> Some (i, k) | Some (_, b) \<Rightarrow> if k < b then Some (i, k) else best))"

text \<open>Terms with the index of the operator that follows, or \<open>-1\<close>. An empty operator would be found for ever.\<close>

function GetTerms :: "bool \<Rightarrow> string list \<Rightarrow> string \<Rightarrow> string \<Rightarrow> (string \<times> int) list \<Rightarrow> (string \<times> int) list outcome" where
  "GetTerms abort ops suffix term out =
     (if suffix = [] then Returns (if term = [] then out else out @ [(term, - 1)])
      else case earliest 0 ops suffix None of
          None \<Rightarrow> Returns (out @ [(term @ suffix, - 1)])
        | Some (i, p) \<Rightarrow>
            let group = earliest 0 (map (\<lambda>(l, r). [l]) kGroupingSymbols) suffix None;
                n = length (ops ! i);
                found = out @ [(term @ take p suffix, int i)]
            in if (case group of None \<Rightarrow> False | Some (g, q) \<Rightarrow> q < p) then
                 (case the group of (g, q) \<Rightarrow>
                    case GetClosingSymbol (drop q suffix) (kGroupingSymbols ! g) of
                      None \<Rightarrow> Rejected
                    | Some c \<Rightarrow> GetTerms abort ops (drop (q + c + 1) suffix) (term @ take (q + c + 1) suffix) out)
               else if abort then Returns (found @ [(drop (p + n) suffix, - 1)])
               else if n = 0 then Fails
               else GetTerms abort ops (drop (p + n) suffix) [] found)"
  by pat_completeness auto
termination
  by (relation "measure (\<lambda>(_, _, suffix, _). length suffix)") auto

declare GetTerms.simps [simp del]

definition GetAdditiveTerms :: "string \<Rightarrow> (string \<times> int) list outcome" where
  "GetAdditiveTerms input =
     (if take 1 input = ''-'' then GetTerms False [''+'', ''-''] (tl input) ''-'' []
      else GetTerms False [''+'', ''-''] input [] [])"

definition GetMultiplicativeTerms :: "string \<Rightarrow> (string \<times> int) list outcome" where
  "GetMultiplicativeTerms input = GetTerms False [''*'', ''/''] input [] []"

definition GetArgumentTerms :: "string \<Rightarrow> (string \<times> int) list outcome" where
  "GetArgumentTerms input = GetTerms False ['',''] input [] []"

definition GetExponentTerms :: "string \<Rightarrow> (string \<times> int) list outcome" where
  "GetExponentTerms input = GetTerms False [''^''] input [] []"

text \<open>The split around a comma; the second term stays as it was when there is none.\<close>

function GetCommaTerms :: "string \<Rightarrow> string \<Rightarrow> string \<Rightarrow> (string \<times> string) outcome" where
  "GetCommaTerms input first second =
     (case first_in '','' input of
        None \<Rightarrow> Returns (first @ input, second)
      | Some comma \<Rightarrow>
          (case (case first_in ''('' input of Some q \<Rightarrow> if q < comma then Some q else None | None \<Rightarrow> None) of
             Some q \<Rightarrow>
               (case GetClosingParentheses (drop q input) of
                  None \<Rightarrow> Rejected
                | Some c \<Rightarrow> GetCommaTerms (drop (q + c + 1) input) (first @ take (q + c + 1) input) second)
           | None \<Rightarrow> Returns (first @ take comma input, drop (comma + 1) input)))"
  by pat_completeness auto
termination
  by (relation "measure (\<lambda>(input, _). length input)")
    (auto simp: first_in_def dest!: find_from_Some split: option.splits if_splits)

declare GetCommaTerms.simps [simp del]

text \<open>The first operator of a table that splits the text into two; none leaves the result unset.\<close>

fun operator_terms :: "(string \<times> 'op) list \<Rightarrow> string \<Rightarrow> (string \<times> string \<times> 'op) option outcome" where
  "operator_terms [] input = Returns None"
| "operator_terms ((name, op) # ops) input =
     and_then (GetTerms True [name] input [] []) (\<lambda>terms.
       if terms = [] \<or> 2 < length terms then Rejected
       else if length terms = 2 then Returns (Some (fst (terms ! 0), fst (terms ! 1), op))
       else operator_terms ops input)"

definition GetBooleanTerms :: "string \<Rightarrow> (string \<times> string \<times> BooleanOperation) option outcome" where
  "GetBooleanTerms =
     operator_terms [(''NOR'', Bool_NOR), (''XOR'', Bool_XOR), (''OR'', Bool_OR), (''NAND'', Bool_NAND), (''AND'', Bool_AND),
       (''EQ'', Bool_EQ), (''GTE'', Bool_GTE), (''GT'', Bool_GT), (''LTE'', Bool_LTE), (''LT'', Bool_LT)]"

definition GetComparisonTerms :: "string \<Rightarrow> (string \<times> string \<times> ComparisonOperation) option outcome" where
  "GetComparisonTerms =
     operator_terms [(''=='', COMP_EQ), (''!='', COMP_NEQ), (''>='', COMP_GTE), (''<='', COMP_LTE), (''>'', COMP_GT),
       (''<'', COMP_LT)]"

subsection \<open>Expressions\<close>

datatype Expression =
  Expression (e_op: MathOperation) (e_var: string) (e_value: rat) (e_constant: bool)
    (e_one: "Expression option") (e_two: "Expression option")

definition Expression_new :: Expression where
  "Expression_new = Expression Math_IDENTITY [] 0 False None None"

definition constant_expr :: "rat \<Rightarrow> Expression" where
  "constant_expr x = Expression Math_IDENTITY [] x True None None"

definition variable_expr :: "string \<Rightarrow> Expression" where
  "variable_expr name = Expression Math_IDENTITY name 0 False None None"

definition node1 :: "MathOperation \<Rightarrow> Expression \<Rightarrow> Expression" where
  "node1 op a = Expression op [] 0 False (Some a) None"

definition node2 :: "MathOperation \<Rightarrow> Expression \<Rightarrow> Expression \<Rightarrow> Expression" where
  "node2 op a b = Expression op [] 0 False (Some a) (Some b)"

definition IsEmptyExpression :: "Expression \<Rightarrow> bool" where
  "IsEmptyExpression e \<longleftrightarrow> e_op e = Math_IDENTITY \<and> e_var e = [] \<and> \<not> e_constant e"

fun CopyExpression :: "Expression \<Rightarrow> Expression" where
  "CopyExpression (Expression op name x c one two) =
     Expression op name x c (map_option CopyExpression one) (map_option CopyExpression two)"

subsection \<open>The parser\<close>

text \<open>The parser calls itself on shorter texts; \<open>f\<close> stands for these calls.\<close>

definition parse_pair :: "(string \<Rightarrow> Expression outcome) \<Rightarrow> MathOperation \<Rightarrow> string \<Rightarrow> string \<Rightarrow> Expression outcome" where
  "parse_pair f op a b = and_then (f a) (\<lambda>x. and_then (f b) (\<lambda>y. Returns (node2 op x y)))"

text \<open>A sum or a product of several terms, to the right: \<open>flipped\<close> tells whether the last operator that was
  turned around was a difference or a quotient.\<close>

fun parse_chain :: "(string \<Rightarrow> Expression outcome) \<Rightarrow> MathOperation \<Rightarrow> MathOperation \<Rightarrow> bool \<Rightarrow> (string \<times> int) list \<Rightarrow> Expression outcome" where
  "parse_chain f sum_op diff_op flipped (t # u # ts) =
     (let op = (if snd t = 0 then if flipped then diff_op else sum_op else if flipped then sum_op else diff_op);
          flipped = (if snd t = 0 then flipped else \<not> flipped)
      in and_then (f (fst t)) (\<lambda>x. and_then (parse_chain f sum_op diff_op flipped (u # ts)) (\<lambda>y. Returns (node2 op x y))))"
| "parse_chain f sum_op diff_op flipped [t] = f (fst t)"
| "parse_chain f sum_op diff_op flipped [] = Rejected"

definition comparison_math :: "ComparisonOperation \<Rightarrow> MathOperation outcome" where
  "comparison_math op =
     (case op of
        COMP_GT \<Rightarrow> Returns Math_GT
      | COMP_GTE \<Rightarrow> Returns Math_GTE
      | COMP_LT \<Rightarrow> Returns Math_LT
      | COMP_LTE \<Rightarrow> Returns Math_LTE
      | COMP_EQ \<Rightarrow> Returns Math_EQ
      | COMP_NEQ \<Rightarrow> Returns Math_NEQ
      | _ \<Rightarrow> Rejected)"

definition unary_functions :: "(string \<times> MathOperation) list" where
  "unary_functions =
     [(''LOG('', Math_LOG), (''Log('', Math_LOG), (''log('', Math_LOG), (''LN('', Math_LOG), (''Ln('', Math_LOG), (''ln('', Math_LOG),
      (''EXP('', Math_EXP), (''Exp('', Math_EXP), (''exp('', Math_EXP), (''ABS('', Math_ABS), (''Abs('', Math_ABS), (''abs('', Math_ABS),
      (''SQRT('', Math_SQRT), (''Sqrt('', Math_SQRT), (''sqrt('', Math_SQRT), (''SIN('', Math_SIN), (''Sin('', Math_SIN),
      (''sin('', Math_SIN), (''COS('', Math_COS), (''Cos('', Math_COS), (''cos('', Math_COS), (''TAN('', Math_TAN),
      (''Tan('', Math_TAN), (''tan('', Math_TAN), (''I('', Math_INDICATOR), (''Phi('', Math_PHI_FN), (''Gamma('', Math_GAMMA_FN)]"

definition binary_functions :: "(string \<times> MathOperation) list" where
  "binary_functions =
     [(''IncGamma('', Math_INC_GAMMA_FN), (''RegIncGamma('', Math_REG_INC_GAMMA_FN), (''POW('', Math_POW), (''Pow('', Math_POW),
      (''pow('', Math_POW)]"

definition function_of :: "(string \<times> MathOperation) list \<Rightarrow> string \<Rightarrow> (string \<times> MathOperation) option" where
  "function_of table s = find (\<lambda>(name, op). HasPrefixString s name) table"

text \<open>The text between the name of a function, with its parenthesis, and the last character.\<close>

definition argument :: "string \<Rightarrow> string \<Rightarrow> string" where
  "argument name s = substr s (length name) (length s - (length name + 1))"

definition parse_binary_function :: "(string \<Rightarrow> Expression outcome) \<Rightarrow> MathOperation \<Rightarrow> string \<Rightarrow> Expression outcome" where
  "parse_binary_function f op arg =
     and_then (GetCommaTerms (StripExtraneousParentheses arg) [] []) (\<lambda>(a, b). parse_pair f op a b)"

definition parse_factorial :: "(string \<Rightarrow> Expression outcome) \<Rightarrow> string \<Rightarrow> Expression outcome" where
  "parse_factorial f s =
     (if length s < 2 then Rejected
      else if s ! (length s - 2) = CHR '')'' then
        if \<not> HasPrefixString s ''('' then Rejected
        else mapped (node1 Math_FACTORIAL) (f (substr s 1 (length s - 3)))
      else mapped (node1 Math_FACTORIAL) (f (take (length s - 1) s)))"

text \<open>A coefficient before the first name of the set that occurs.\<close>

fun parse_coefficient :: "(string \<Rightarrow> Expression outcome) \<Rightarrow> text_ops \<Rightarrow> string list \<Rightarrow> string \<Rightarrow> Expression outcome option" where
  "parse_coefficient f T [] s = None"
| "parse_coefficient f T (name # names) s =
     (case first_in name s of
        None \<Rightarrow> parse_coefficient f T names s
      | Some p \<Rightarrow> Some (and_then (Stod T (take p s)) (\<lambda>x. mapped (node2 Math_MULT (constant_expr x)) (f (drop p s)))))"

definition parse_leaf :: "(string \<Rightarrow> Expression outcome) \<Rightarrow> text_ops \<Rightarrow> bool \<Rightarrow> string list \<Rightarrow> string \<Rightarrow> Expression outcome" where
  "parse_leaf f T enforce names s =
     (if s \<in> set names then Returns (variable_expr s)
      else case parse_coefficient f T names s of
          Some r \<Rightarrow> r
        | None \<Rightarrow> (case Stod T s of
              Fails \<Rightarrow> Fails
            | Returns x \<Rightarrow> Returns (constant_expr x)
            | Rejected \<Rightarrow> if enforce then Rejected else Returns (variable_expr s)))"

definition parse_term :: "(string \<Rightarrow> Expression outcome) \<Rightarrow> text_ops \<Rightarrow> bool \<Rightarrow> string list \<Rightarrow> string \<Rightarrow> Expression outcome" where
  "parse_term f T enforce names s =
     (case function_of unary_functions s of
        Some (name, op) \<Rightarrow>
          if \<not> HasSuffixString s '')'' then Rejected else mapped (node1 op) (f (argument name s))
      | None \<Rightarrow>
     (case function_of binary_functions s of
        Some (name, op) \<Rightarrow>
          if \<not> HasSuffixString s '')'' then Rejected else parse_binary_function f op (argument name s)
      | None \<Rightarrow>
          if HasSuffixString s ''!'' then parse_factorial f s
          else if HasPrefixString s ''('' then
            if \<not> HasSuffixString s '')'' then Rejected else f (substr s 1 (length s - 2))
          else if HasPrefixString s ''-'' then mapped (node2 Math_MULT (constant_expr (- 1))) (f (tl s))
          else parse_leaf f T enforce names s))"

definition parse_comparison :: "(string \<Rightarrow> Expression outcome) \<Rightarrow> (string \<Rightarrow> Expression outcome) \<Rightarrow> string \<Rightarrow> Expression outcome" where
  "parse_comparison f rest s =
     and_then (GetComparisonTerms s) (\<lambda>c.
       case c of
         Some (a, b, op) \<Rightarrow>
           if a = [] \<or> b = [] then Rejected else and_then (comparison_math op) (\<lambda>m. parse_pair f m a b)
       | None \<Rightarrow>
           and_then (GetTerms True [''~=''] s [] []) (\<lambda>terms.
             if terms = [] \<or> 2 < length terms then Rejected
             else if length terms = 2 then
               let a = fst (terms ! 0); b = fst (terms ! 1)
               in if a = [] \<or> b = [] then Rejected else parse_pair f Math_FLOAT_EQ a b
             else rest s))"

definition parse_step :: "(string \<Rightarrow> Expression outcome) \<Rightarrow> text_ops \<Rightarrow> bool \<Rightarrow> string list \<Rightarrow> string \<Rightarrow> Expression outcome" where
  "parse_step f T enforce names s =
     and_then (GetAdditiveTerms s) (\<lambda>added.
       if 1 < length added then parse_chain f Math_ADD Math_SUB False added
       else and_then (GetMultiplicativeTerms s) (\<lambda>multiplied.
         if 1 < length multiplied then parse_chain f Math_MULT Math_DIV False multiplied
         else and_then (GetExponentTerms s) (\<lambda>powers.
           if 1 < length powers then
             if 2 < length powers then Rejected else parse_pair f Math_POW (fst (powers ! 0)) (fst (powers ! 1))
           else parse_comparison f (parse_term f T enforce names) s)))"

subsection \<open>The calls of the parser end\<close>

text \<open>The terms a text is split into have together the length of the text without the operators.\<close>

definition text_size :: "(string \<times> int) list \<Rightarrow> nat" where
  "text_size ts = sum_list (map (\<lambda>t. length (fst t) + 1) ts)"

lemma earliest_bound:
  assumes "earliest i ps s best = Some (k, p)"
  shows "(\<exists>j < length ps. k = i + j \<and> first_in (ps ! j) s = Some p) \<or> best = Some (k, p)"
  using assms
proof (induction i ps s best rule: earliest.induct)
  case (2 i q ps s best)
  let ?best = "case first_in q s of None \<Rightarrow> best
    | Some k \<Rightarrow> (case best of None \<Rightarrow> Some (i, k) | Some (_, b) \<Rightarrow> if k < b then Some (i, k) else best)"
  from 2 consider j where "j < length ps" "k = Suc i + j" "first_in (ps ! j) s = Some p" | "?best = Some (k, p)"
    by auto
  then show ?case
  proof cases
    case (1 j)
    then show ?thesis by (intro disjI1 exI [of _ "Suc j"]) simp
  next
    case 2
    then show ?thesis by (auto split: option.splits if_splits intro!: exI [of _ 0])
  qed
qed simp

lemma earliest_found:
  assumes "earliest 0 ps s None = Some (k, p)"
  shows "k < length ps" "first_in (ps ! k) s = Some p" "p + length (ps ! k) \<le> length s"
  using earliest_bound [OF assms] find_from_Some [of "ps ! k" s 0 p] by (auto simp: first_in_def)

lemma GetTerms_size:
  "GetTerms abort ops suffix term out = Returns ts \<Longrightarrow> \<forall>q \<in> set ops. q \<noteq> [] \<Longrightarrow>
   text_size ts \<le> text_size out + length term + length suffix + 1"
proof (induction abort ops suffix "term" out arbitrary: ts rule: GetTerms.induct)
  case (1 abort ops suffix "term" out)
  let ?group = "earliest 0 (map (\<lambda>(l, r). [l]) kGroupingSymbols) suffix None"
  show ?case
  proof (cases "suffix = []")
    case True
    then show ?thesis using 1(3) by (auto simp: GetTerms.simps text_size_def split: if_splits)
  next
    case False
    note unfold = 1(3) [unfolded GetTerms.simps [of abort ops suffix]]
    show ?thesis
    proof (cases "earliest 0 ops suffix None")
      case None
      then show ?thesis using unfold False by (auto simp: text_size_def)
    next
      case (Some ip)
      obtain i p where ip: "ip = (i, p)" by (cases ip)
      note found = earliest_found [OF Some [unfolded ip]]
      then have n: "0 < length (ops ! i)" "p + length (ops ! i) \<le> length suffix" using 1(4) by auto
      then obtain m where m: "length (ops ! i) = Suc m" by (metis gr0_implies_Suc)
      show ?thesis
      proof (cases "case ?group of None \<Rightarrow> False | Some (g, q) \<Rightarrow> q < p")
        case True
        then obtain g q where g: "?group = Some (g, q)" "q < p" by (auto split: option.splits)
        then obtain c where c: "GetClosingSymbol (drop q suffix) (kGroupingSymbols ! g) = Some c"
          "GetTerms abort ops (drop (q + c + 1) suffix) (term @ take (q + c + 1) suffix) out = Returns ts"
          using unfold False Some ip by (auto split: option.splits)
        have the: "(g, q) = the ?group" using g by simp
        have "text_size ts \<le> text_size out + length (term @ take (q + c + 1) suffix) + length (drop (q + c + 1) suffix) + 1"
          by (rule 1(1) [OF False Some ip [symmetric] refl refl refl True the c(1) c(2) 1(4)]) 
        then show ?thesis by simp
      next
        case group: False
        show ?thesis
        proof (cases abort)
          case True
          then have "ts = (out @ [(term @ take p suffix, int i)]) @ [(drop (p + length (ops ! i)) suffix, - 1)]"
            using unfold False Some ip group n by (auto split: option.splits)
          moreover have "Suc (Suc (p + length suffix - (p + length (ops ! i)))) \<le> length suffix + 1"
            using n by linarith
          ultimately show ?thesis using n by (simp add: text_size_def)
        next
          case not_abort: False
          then have r: "GetTerms abort ops (drop (p + length (ops ! i)) suffix) [] (out @ [(term @ take p suffix, int i)]) = Returns ts"
            using unfold False Some ip group n by simp
          have "text_size ts \<le> text_size (out @ [(term @ take p suffix, int i)]) + length ([] :: string)
              + length (drop (p + length (ops ! i)) suffix) + 1"
            by (rule 1(2) [OF False Some ip [symmetric] refl refl refl group not_abort _ r 1(4)]) (use n in simp)
          then show ?thesis using n(2) by (simp add: text_size_def m)
        qed
      qed
    qed
  qed
qed

lemma size_member:
  assumes "t \<in> set ts" "1 < length ts"
  shows "length (fst t) + 2 \<le> text_size ts"
proof -
  obtain us vs where ts: "ts = us @ t # vs" using split_list [OF assms(1)] by blast
  have "0 < text_size us \<or> 0 < text_size vs"
    using assms(2) ts by (cases us; cases vs) (auto simp: text_size_def)
  then show ?thesis by (auto simp: ts text_size_def)
qed

lemma GetTerms_shorter:
  assumes "GetTerms abort ops suffix term [] = Returns ts" "\<forall>q \<in> set ops. q \<noteq> []" "1 < length ts" "t \<in> set ts"
  shows "length (fst t) < length term + length suffix"
  using GetTerms_size [OF assms(1,2)] size_member [OF assms(4,3)] by (simp add: text_size_def)

lemma split_shorter:
  "GetAdditiveTerms s = Returns ts \<Longrightarrow> 1 < length ts \<Longrightarrow> t \<in> set ts \<Longrightarrow> length (fst t) < length s"
  "GetMultiplicativeTerms s = Returns ts \<Longrightarrow> 1 < length ts \<Longrightarrow> t \<in> set ts \<Longrightarrow> length (fst t) < length s"
  "GetExponentTerms s = Returns ts \<Longrightarrow> 1 < length ts \<Longrightarrow> t \<in> set ts \<Longrightarrow> length (fst t) < length s"
  by (auto simp: GetAdditiveTerms_def GetMultiplicativeTerms_def GetExponentTerms_def split: if_splits dest!: GetTerms_shorter)
    (cases s; simp)

lemma operator_terms_shorter:
  "operator_terms table s = Returns (Some (a, b, op)) \<Longrightarrow> \<forall>q \<in> fst ` set table. q \<noteq> [] \<Longrightarrow>
   length a < length s \<and> length b < length s"
proof (induction table)
  case (Cons e table)
  obtain name o' where e: "e = (name, o')" by (cases e)
  then obtain ts where ts: "GetTerms True [name] s [] [] = Returns ts"
    using Cons.prems(1) by (cases "GetTerms True [name] s [] []") auto
  have "length (fst (ts ! i)) < length s" if "length ts = 2" "i < 2" for i
    using GetTerms_shorter [OF ts, of "ts ! i"] Cons.prems(2) that e by auto
  then show ?case
    using Cons ts e by (auto split: if_splits)
qed simp

lemma comma_shorter:
  "GetCommaTerms input first second = Returns (a, b) \<Longrightarrow>
   length a \<le> length first + length input \<and> length b \<le> max (length second) (length input)"
proof (induction input first second rule: GetCommaTerms.induct)
  case (1 input first second)
  note unfold = 1(2) [unfolded GetCommaTerms.simps [of input first second]]
  show ?case
  proof (cases "first_in '','' input")
    case None
    then show ?thesis using unfold by auto
  next
    case (Some comma)
    let ?q = "case first_in ''('' input of Some q \<Rightarrow> if q < comma then Some q else None | None \<Rightarrow> None"
    show ?thesis
    proof (cases ?q)
      case None
      then show ?thesis using unfold Some by auto
    next
      case q: (Some q)
      then obtain c where c: "GetClosingParentheses (drop q input) = Some c"
        "GetCommaTerms (drop (q + c + 1) input) (first @ take (q + c + 1) input) second = Returns (a, b)"
        using unfold Some by (auto split: option.splits)
      from 1(1) [OF Some q c] show ?thesis by auto
    qed
  qed
qed

lemma extraneous_shorter: "length (StripExtraneousParentheses s) \<le> length s"
proof (induction s rule: StripExtraneousParentheses.induct)
  case (1 s)
  then show ?case
    by (subst StripExtraneousParentheses.simps) (auto simp: substr_def)
qed

lemma prefix_length: "HasPrefixString s p \<Longrightarrow> p \<noteq> [] \<Longrightarrow> length p \<le> length s \<and> take (length p) s = p"
  by (auto simp: HasPrefixString_def substr_def split: if_splits)

lemma function_found:
  assumes "function_of table s = Some (name, op)" "\<forall>p \<in> fst ` set table. p \<noteq> []"
  shows "name \<noteq> []" "length name \<le> length s" "length (argument name s) < length s"
proof -
  have "(name, op) \<in> set table" "HasPrefixString s name"
    using assms(1) by (auto simp: function_of_def find_Some_iff) (metis nth_mem)
  then show "name \<noteq> []" "length name \<le> length s"
    using assms(2) prefix_length [of s name] by force+
  then show "length (argument name s) < length s"
    by (cases name) (auto simp: argument_def substr_def)
qed


lemma Stod_empty [simp]: "Stod T [] = Rejected"
proof -
  have "first_in ''/'' [] = None"
    by (cases "first_in ''/'' []") (auto simp: first_in_def dest: find_from_Some)
  moreover have "strip_signs [] = []"
    by (subst strip_signs.simps) (simp add: HasPrefixString_def)
  then have "\<not> IsNumeric []" by (simp add: IsNumeric_def)
  ultimately show ?thesis by (simp add: Stod_def plain_double_def)
qed

lemma parse_pair_cong:
  "length a < n \<Longrightarrow> length b < n \<Longrightarrow> (\<And>u. length u < n \<Longrightarrow> f u = g u) \<Longrightarrow> parse_pair f op a b = parse_pair g op a b"
  by (simp add: parse_pair_def)

lemma parse_chain_cong:
  "(\<And>t. t \<in> set ts \<Longrightarrow> f (fst t) = g (fst t)) \<Longrightarrow> parse_chain f a b flipped ts = parse_chain g a b flipped ts"
proof (induction ts arbitrary: flipped)
  case (Cons t ts)
  then show ?case by (cases ts) (auto simp: Let_def intro!: and_then_cong)
qed simp

lemma parse_coefficient_cong:
  assumes "\<And>u. length u < length s \<Longrightarrow> f u = g u"
  shows "parse_coefficient f T names s = parse_coefficient g T names s"
proof (induction names)
  case (Cons name names)
  show ?case
  proof (cases "first_in name s")
    case (Some p)
    then show ?thesis
      using find_from_Some [of name s 0 p] assms by (cases "p = 0") (auto simp: first_in_def intro!: and_then_cong)
  qed (use Cons in simp)
qed simp


lemma substr_shorter: "0 < i \<Longrightarrow> s \<noteq> [] \<Longrightarrow> length (substr s i n) < length s"
  by (cases s) (auto simp: substr_def)

lemma parse_term_cong:
  assumes "\<And>u. length u < length s \<Longrightarrow> f u = g u"
  shows "parse_term f T enforce names s = parse_term g T enforce names s"
proof (cases "function_of unary_functions s")
  case (Some fn)
  obtain name op where fn: "fn = (name, op)" by (cases fn)
  have "length (argument name s) < length s"
    by (rule function_found [OF Some [unfolded fn]]) (auto simp: unary_functions_def)
  then show ?thesis using Some fn assms by (simp add: parse_term_def)
next
  case unary: None
  show ?thesis
  proof (cases "function_of binary_functions s")
    case (Some fn)
    obtain name op where fn: "fn = (name, op)" by (cases fn)
    have shorter: "length (argument name s) < length s"
      by (rule function_found [OF Some [unfolded fn]]) (auto simp: binary_functions_def)
    have "parse_binary_function f op (argument name s) = parse_binary_function g op (argument name s)"
      unfolding parse_binary_function_def
      using shorter extraneous_shorter [of "argument name s"]
      by (auto intro!: and_then_cong parse_pair_cong [where n = "length s"] assms dest!: comma_shorter)
    then show ?thesis using Some fn unary by (simp add: parse_term_def)
  next
    case binary: None
    have "s \<noteq> []" if "HasPrefixString s p" "p \<noteq> []" for p
      using prefix_length [OF that] that(2) by auto
    moreover have "s \<noteq> []" if "HasSuffixString s p" "p \<noteq> []" for p
      using that by (auto simp: HasSuffixString_def)
    moreover have "parse_factorial f s = parse_factorial g s"
    proof (cases "length s < 2")
      case False
      then have "length (substr s 1 (length s - 3)) < length s" "length (take (length s - 1) s) < length s"
        by (auto simp: substr_def)
      then show ?thesis using assms by (simp add: parse_factorial_def)
    qed (simp add: parse_factorial_def)
    moreover have "parse_leaf f T enforce names s = parse_leaf g T enforce names s"
      by (simp add: parse_leaf_def parse_coefficient_cong [of s f g, OF assms])
    ultimately show ?thesis
      using unary binary assms by (auto simp: parse_term_def substr_shorter)
  qed
qed

lemma parse_step_cong [fundef_cong]:
  assumes "s = s'" "\<And>u. length u < length s' \<Longrightarrow> f u = g u"
  shows "parse_step f T enforce names s = parse_step g T enforce names s'"
proof -
  have comparison: "parse_comparison f (parse_term f T enforce names) s = parse_comparison g (parse_term g T enforce names) s"
    unfolding parse_comparison_def
  proof (intro and_then_cong refl)
    fix c assume c: "GetComparisonTerms s = Returns c"
    have "parse_pair f m a b = parse_pair g m a b" if "c = Some (a, b, op)" for a b op m
    proof -
      have "length a < length s \<and> length b < length s"
        by (rule operator_terms_shorter [OF c [unfolded GetComparisonTerms_def that]]) simp
      then show ?thesis using assms by (intro parse_pair_cong [where n = "length s"]) auto
    qed
    moreover have "parse_pair f m (fst (ts ! 0)) (fst (ts ! 1)) = parse_pair g m (fst (ts ! 0)) (fst (ts ! 1))"
      if "GetTerms True [''~=''] s [] [] = Returns ts" "length ts = 2" for ts m
    proof -
      have "ts ! 0 \<in> set ts" "ts ! 1 \<in> set ts" using that(2) by (intro nth_mem; linarith)+
      then show ?thesis
        using GetTerms_shorter [OF that(1)] that(2) assms by (intro parse_pair_cong [where n = "length s"]) auto
    qed
    ultimately show "(case c of
        Some (a, b, op) \<Rightarrow> if a = [] \<or> b = [] then Rejected else and_then (comparison_math op) (\<lambda>m. parse_pair f m a b)
      | None \<Rightarrow> and_then (GetTerms True [''~=''] s [] []) (\<lambda>terms.
          if terms = [] \<or> 2 < length terms then Rejected
          else if length terms = 2 then
            let a = fst (terms ! 0); b = fst (terms ! 1)
            in if a = [] \<or> b = [] then Rejected else parse_pair f Math_FLOAT_EQ a b
          else parse_term f T enforce names s)) =
      (case c of
        Some (a, b, op) \<Rightarrow> if a = [] \<or> b = [] then Rejected else and_then (comparison_math op) (\<lambda>m. parse_pair g m a b)
      | None \<Rightarrow> and_then (GetTerms True [''~=''] s [] []) (\<lambda>terms.
          if terms = [] \<or> 2 < length terms then Rejected
          else if length terms = 2 then
            let a = fst (terms ! 0); b = fst (terms ! 1)
            in if a = [] \<or> b = [] then Rejected else parse_pair g Math_FLOAT_EQ a b
          else parse_term g T enforce names s))"
      using parse_term_cong [of s f g] assms by (auto simp: Let_def split: option.splits intro!: and_then_cong)
  qed
  have powers: "parse_pair f m (fst (ts ! 0)) (fst (ts ! 1)) = parse_pair g m (fst (ts ! 0)) (fst (ts ! 1))"
    if "GetExponentTerms s = Returns ts" "1 < length ts" for ts m
  proof -
    have "ts ! 0 \<in> set ts" "ts ! 1 \<in> set ts" using that(2) by (intro nth_mem; linarith)+
    then show ?thesis
      using split_shorter(3) [OF that] assms by (intro parse_pair_cong [where n = "length s"]) auto
  qed
  show ?thesis
  proof -
    have chain: "parse_chain f m n b ts = parse_chain g m n b ts"
      if "GetAdditiveTerms s = Returns ts \<or> GetMultiplicativeTerms s = Returns ts" "1 < length ts" for m n b ts
      using that split_shorter(1,2) [of s ts] assms by (intro parse_chain_cong) blast
    show ?thesis
      unfolding parse_step_def assms(1) [symmetric]
      by (intro and_then_cong refl if_cong) (simp_all add: chain powers [unfolded One_nat_def] comparison)
  qed
qed

function parse_expression :: "text_ops \<Rightarrow> bool \<Rightarrow> string list \<Rightarrow> string \<Rightarrow> Expression outcome" where
  "parse_expression T enforce names s = parse_step (parse_expression T enforce names) T enforce names s"
  by pat_completeness auto
termination
  by (relation "measure (\<lambda>(_, _, _, s). length s)") auto

declare parse_expression.simps [simp del]


definition ParseExpression :: "text_ops \<Rightarrow> bool \<Rightarrow> string \<Rightarrow> bool \<Rightarrow> string list \<Rightarrow> Expression outcome" where
  "ParseExpression T clean_input term_str enforce names =
     (if clean_input then
        and_then (RemoveScientificNotation T (RemoveAllWhitespace term_str)) (parse_expression T enforce names)
      else parse_expression T enforce names term_str)"

subsection \<open>Expressions as text\<close>

definition math_code :: "MathOperation \<Rightarrow> int" where
  "math_code op =
     (case op of
        Math_IDENTITY \<Rightarrow> 0 | Math_ABS \<Rightarrow> 1 | Math_EXP \<Rightarrow> 2 | Math_FACTORIAL \<Rightarrow> 3 | Math_LOG \<Rightarrow> 4 | Math_SQRT \<Rightarrow> 5
      | Math_SIN \<Rightarrow> 6 | Math_COS \<Rightarrow> 7 | Math_TAN \<Rightarrow> 8 | Math_INDICATOR \<Rightarrow> 9 | Math_GAMMA_FN \<Rightarrow> 10 | Math_PHI_FN \<Rightarrow> 11
      | Math_ADD \<Rightarrow> 12 | Math_SUB \<Rightarrow> 13 | Math_MULT \<Rightarrow> 14 | Math_DIV \<Rightarrow> 15 | Math_POW \<Rightarrow> 16 | Math_MODULUS \<Rightarrow> 17
      | Math_EQ \<Rightarrow> 18 | Math_NEQ \<Rightarrow> 19 | Math_FLOAT_EQ \<Rightarrow> 20 | Math_GT \<Rightarrow> 21 | Math_GTE \<Rightarrow> 22 | Math_LT \<Rightarrow> 23
      | Math_LTE \<Rightarrow> 24 | Math_INC_GAMMA_FN \<Rightarrow> 25 | Math_REG_INC_GAMMA_FN \<Rightarrow> 26)"

text \<open>What is written before, between and after the operands. Roots and inequality are not among the operations.\<close>

definition binary_text :: "MathOperation \<Rightarrow> (string \<times> string \<times> string) option" where
  "binary_text op =
     (case op of
        Math_ADD \<Rightarrow> Some (''('', '' + '', '')'')
      | Math_INC_GAMMA_FN \<Rightarrow> Some (''IncGamma('', '', '', '')'')
      | Math_REG_INC_GAMMA_FN \<Rightarrow> Some (''RegIncGamma('', '', '', '')'')
      | Math_SUB \<Rightarrow> Some (''('', '' - '', '')'')
      | Math_MULT \<Rightarrow> Some (''('', '' * '', '')'')
      | Math_DIV \<Rightarrow> Some (''('', '' / '', '')'')
      | Math_POW \<Rightarrow> Some (''('', '')^('', '')'')
      | Math_MODULUS \<Rightarrow> Some (''('', '')%('', '')'')
      | Math_EQ \<Rightarrow> Some (''('', '')==('', '')'')
      | Math_FLOAT_EQ \<Rightarrow> Some (''('', '')~=('', '')'')
      | Math_GT \<Rightarrow> Some (''('', '')>('', '')'')
      | Math_GTE \<Rightarrow> Some (''('', '')>=('', '')'')
      | Math_LT \<Rightarrow> Some (''('', '')<('', '')'')
      | Math_LTE \<Rightarrow> Some (''('', '')<=('', '')'')
      | _ \<Rightarrow> None)"

definition unary_text :: "MathOperation \<Rightarrow> (string \<times> string) option" where
  "unary_text op =
     (case op of
        Math_ABS \<Rightarrow> Some (''|'', ''|'')
      | Math_GAMMA_FN \<Rightarrow> Some (''Gamma('', '')'')
      | Math_PHI_FN \<Rightarrow> Some (''Phi('', '')'')
      | Math_EXP \<Rightarrow> Some (''exp('', '')'')
      | Math_FACTORIAL \<Rightarrow> Some (''('', '')!'')
      | Math_LOG \<Rightarrow> Some (''log('', '')'')
      | Math_SIN \<Rightarrow> Some (''sin('', '')'')
      | Math_COS \<Rightarrow> Some (''cos('', '')'')
      | Math_TAN \<Rightarrow> Some (''tan('', '')'')
      | Math_INDICATOR \<Rightarrow> Some (''I('', '')'')
      | _ \<Rightarrow> None)"

fun GetExpressionString :: "text_ops \<Rightarrow> Expression \<Rightarrow> string" where
  "GetExpressionString T (Expression op name x c one two) =
     (if op = Math_IDENTITY then if c then t_show T 0 x else name
      else case binary_text op of
          Some (before, between, after) \<Rightarrow>
            (case (one, two) of
               (Some a, Some b) \<Rightarrow> before @ GetExpressionString T a @ between @ GetExpressionString T b @ after
             | _ \<Rightarrow> ''Unable to perform add/mult/pow: one of the subterms is null.'')
        | None \<Rightarrow> (case unary_text op of
            Some (before, after) \<Rightarrow>
              (case (one, two) of
                 (None, _) \<Rightarrow> ''Unable to perform evaluation: subterm_one_ is null''
               | (Some _, Some _) \<Rightarrow> ''Unable to perform evaluation: subterm_two_ is non-null''
               | (Some a, None) \<Rightarrow> before @ GetExpressionString T a @ after)
          | None \<Rightarrow> ''ERROR: Unsupported operation: '' @ Itoa (math_code op)))"

subsection \<open>Terms\<close>

datatype StatsDataType = DATA_TYPE_UNKNOWN | DATA_TYPE_STRING | DATA_TYPE_NUMERIC | DATA_TYPE_NUMERIC_RANGE

record DataHolder =
  dh_value :: rat
  dh_name :: string
  dh_type :: StatsDataType

definition GetDataHolderString :: "text_ops \<Rightarrow> DataHolder \<Rightarrow> string" where
  "GetDataHolderString T data =
     (case dh_type data of
        DATA_TYPE_STRING \<Rightarrow> dh_name data
      | DATA_TYPE_NUMERIC \<Rightarrow> t_show T 0 (dh_value data)
      | _ \<Rightarrow> [])"

definition GetDataHolderString_named :: "text_ops \<Rightarrow> DataHolder \<Rightarrow> bool \<Rightarrow> int \<Rightarrow> string" where
  "GetDataHolderString_named T data use_name precision =
     (if dh_type data \<notin> {DATA_TYPE_STRING, DATA_TYPE_NUMERIC} then []
      else if dh_type data = DATA_TYPE_STRING \<or> use_name \<and> dh_name data \<noteq> [] then dh_name data
      else Itoa_double T precision (dh_value data))"

definition GetDataHolderString_precise :: "text_ops \<Rightarrow> DataHolder \<Rightarrow> int \<Rightarrow> string" where
  "GetDataHolderString_precise T data precision = GetDataHolderString_named T data False precision"

record VariableTerm =
  term_title :: string
  term_op :: MathOperation
  term_exponent :: rat

definition GetTermString :: "text_ops \<Rightarrow> VariableTerm \<Rightarrow> string" where
  "GetTermString T v =
     (case term_op v of
        Math_IDENTITY \<Rightarrow> term_title v
      | Math_EXP \<Rightarrow> ''exp('' @ term_title v @ '')''
      | Math_SQRT \<Rightarrow> ''sqrt('' @ term_title v @ '')''
      | Math_POW \<Rightarrow> term_title v @ ''^'' @ t_show T 0 (term_exponent v)
      | Math_LOG \<Rightarrow> ''Log('' @ term_title v @ '')''
      | _ \<Rightarrow> [])"

text \<open>The functions of the mathematical library; \<open>m_pow\<close> tells also whether it set \<open>errno\<close>.\<close>

record math_ops =
  m_exp :: "rat \<Rightarrow> rat"
  m_log :: "rat \<Rightarrow> rat"
  m_pow :: "rat \<Rightarrow> rat \<Rightarrow> rat \<times> bool"

definition ComputeSelfOperation :: "math_ops \<Rightarrow> VariableTerm \<Rightarrow> rat \<Rightarrow> rat" where
  "ComputeSelfOperation M v x =
     (case term_op v of
        Math_IDENTITY \<Rightarrow> x
      | Math_EXP \<Rightarrow> m_exp M x
      | Math_SQRT \<Rightarrow> if x < 0 then 0 else fst (m_pow M x (1 / 2))
      | Math_POW \<Rightarrow> (case m_pow M x (term_exponent v) of (y, failed) \<Rightarrow> if failed then 0 else y)
      | Math_LOG \<Rightarrow> if x \<le> 0 then 0 else m_log M x
      | _ \<Rightarrow> 0)"

definition ComputeGroupOperation :: "(rat \<Rightarrow> rat) \<Rightarrow> MathOperation \<Rightarrow> rat \<Rightarrow> rat \<Rightarrow> rat outcome" where
  "ComputeGroupOperation rd op x y =
     (case op of
        Math_ADD \<Rightarrow> Returns (rd (x + y))
      | Math_MULT \<Rightarrow> Returns (rd (x * y))
      | _ \<Rightarrow> Rejected)"

end
