(* ===== verification/Parsing.thy ===== *)
theory Parsing
  imports Expressions
begin

text \<open>
  What the parser of expressions makes of the texts of its own grammar: splitting around operators that stand
  outside every group, sums of variables, and the texts that expressions are printed as.
\<close>

subsection \<open>Positions of texts\<close>

definition starts :: "string \<Rightarrow> string \<Rightarrow> bool" where
  "starts p s \<longleftrightarrow> take (length p) s = p"

lemma first_in_eq: "first_in p s = find_in p s"
  by (cases "find_in p s") (auto simp: first_in_def find_from_def)

lemma first_in_starts: "starts p s \<Longrightarrow> first_in p s = Some 0"
  by (simp add: first_in_eq find_in.simps starts_def)

lemma first_in_step: "\<not> starts p (c # s) \<Longrightarrow> first_in p (c # s) = map_option Suc (first_in p s)"
  by (simp add: first_in_eq find_in.simps [of p "c # s"] starts_def)

definition shifted :: "nat \<times> nat \<Rightarrow> nat \<times> nat" where
  "shifted x = (fst x, Suc (snd x))"

lemma earliest_step:
  "\<forall>p \<in> set ps. \<not> starts p (c # s) \<Longrightarrow>
   earliest i ps (c # s) (map_option shifted best) = map_option shifted (earliest i ps s best)"
proof (induction i ps s best rule: earliest.induct)
  case (2 i p ps s best)
  have "(case first_in p (c # s) of None \<Rightarrow> map_option shifted best
      | Some k \<Rightarrow> (case map_option shifted best of None \<Rightarrow> Some (i, k) | Some (_, b) \<Rightarrow> if k < b then Some (i, k) else map_option shifted best))
    = map_option shifted (case first_in p s of None \<Rightarrow> best
      | Some k \<Rightarrow> (case best of None \<Rightarrow> Some (i, k) | Some (_, b) \<Rightarrow> if k < b then Some (i, k) else best))"
    using 2(2) by (auto simp: first_in_step shifted_def split: option.splits)
  then show ?case using 2 by simp
qed simp

lemma earliest_later: "\<forall>p \<in> set ps. \<not> starts p (c # s) \<Longrightarrow> earliest i ps (c # s) None = map_option shifted (earliest i ps s None)"
  using earliest_step [of ps c s i None] by simp

lemma earliest_None: "earliest i ps s best = None \<longleftrightarrow> best = None \<and> (\<forall>p \<in> set ps. first_in p s = None)"
  by (induction i ps s best rule: earliest.induct) (auto split: option.splits)

lemma not_in_suffix: "first_in p (s @ t) = None \<Longrightarrow> first_in p t = None"
proof (induction s)
  case (Cons c s)
  then have "\<not> starts p (c # s @ t)" using first_in_starts [of p "c # s @ t"] by auto
  then show ?case using Cons by (simp add: first_in_step)
qed simp

lemma earliest_zero: "earliest i ps s (Some (j, 0)) = Some (j, 0)"
  by (induction ps arbitrary: i) (auto split: option.splits)

lemma earliest_here:
  "i < length ps \<Longrightarrow> starts (ps ! i) s \<Longrightarrow> \<forall>j < i. \<not> starts (ps ! j) s \<Longrightarrow>
   (\<And>b k. best = Some (k, b) \<Longrightarrow> 0 < b) \<Longrightarrow> earliest n ps s best = Some (n + i, 0)"
proof (induction ps arbitrary: n i best)
  case (Cons p ps)
  show ?case
  proof (cases i)
    case 0
    then show ?thesis using Cons.prems by (auto simp: first_in_starts earliest_zero split: option.splits)
  next
    case (Suc m)
    let ?best = "case first_in p s of None \<Rightarrow> best
      | Some k \<Rightarrow> (case best of None \<Rightarrow> Some (n, k) | Some (_, b) \<Rightarrow> if k < b then Some (n, k) else best)"
    have "\<not> starts p s" using Cons.prems(3) Suc by auto
    then have "first_in p s \<noteq> Some 0"
      by (cases s) (auto simp: first_in_eq find_in.simps [of p] starts_def)
    then have "0 < b" if "?best = Some (k, b)" for k b
      using that Cons.prems(4) by (auto split: option.splits if_splits intro: gr0I)
    then have "earliest (Suc n) ps s ?best = Some (Suc n + m, 0)"
      using Cons.prems(1-3) Suc by (intro Cons.IH) auto
    then show ?thesis using Suc by simp
  qed
qed simp

subsection \<open>Groups\<close>

definition groups :: "string list" where
  "groups = map (\<lambda>(l, r). [l]) kGroupingSymbols"

lemma groups_eq: "groups = [''('', ''{'', ''['', ''|'', [CHR 0x00]]"
  by (simp add: groups_def kGroupingSymbols_def)

text \<open>A text whose parentheses are balanced, and that has no other symbol of a group.\<close>

definition balanced :: "string \<Rightarrow> bool" where
  "balanced t \<longleftrightarrow> (\<forall>d i rest. 0 < d \<longrightarrow> closing CHR ''('' CHR '')'' d i (t @ rest) = closing CHR ''('' CHR '')'' d (i + length t) rest)"

lemma balancedD: "balanced t \<Longrightarrow> 0 < d \<Longrightarrow> closing CHR ''('' CHR '')'' d i (t @ rest) = closing CHR ''('' CHR '')'' d (i + length t) rest"
  by (simp add: balanced_def)

lemma balanced_plain: "CHR ''('' \<notin> set t \<Longrightarrow> CHR '')'' \<notin> set t \<Longrightarrow> balanced t"
proof (induction t)
  case (Cons c t)
  then show ?case by (auto simp: balanced_def Let_def)
qed (simp add: balanced_def)

lemma balanced_append: "balanced s \<Longrightarrow> balanced t \<Longrightarrow> balanced (s @ t)"
  by (simp add: balanced_def add.assoc)

lemma balanced_group: "balanced t \<Longrightarrow> balanced (''('' @ t @ '')'')"
  by (simp add: balanced_def)

lemma closing_group: "balanced t \<Longrightarrow> GetClosingSymbol (''('' @ t @ '')'' @ rest) (CHR ''('', CHR '')'') = Some (Suc (length t))"
  using balancedD [of t 1 1 "CHR '')'' # rest"] by (simp add: GetClosingSymbol_def)

subsection \<open>Walking over a text\<close>

text \<open>A beginning of the text that the splitting passes over.\<close>

definition passed :: "string list \<Rightarrow> string \<Rightarrow> string \<Rightarrow> bool" where
  "passed ops t rest \<longleftrightarrow>
     (\<forall>abort term out. GetTerms abort ops (t @ rest) term out = GetTerms abort ops rest (term @ t) out)"

lemma passed_empty [simp]: "passed ops [] rest"
  by (simp add: passed_def)

lemma passed_append: "passed ops s (t @ rest) \<Longrightarrow> passed ops t rest \<Longrightarrow> passed ops (s @ t) rest"
  by (simp add: passed_def)

lemma GetTerms_none: "earliest 0 ops suffix None = None \<Longrightarrow>
  GetTerms abort ops suffix term out = Returns (if term @ suffix = [] then out else out @ [(term @ suffix, - 1)])"
  by (simp add: GetTerms.simps [of abort ops suffix])

lemma earliest_empty: "\<forall>p \<in> set ops. p \<noteq> [] \<Longrightarrow> earliest i ops [] None = None"
  by (auto simp: earliest_None first_in_eq find_in.simps)

lemma passed_char:
  assumes ops: "\<forall>p \<in> set ops. p \<noteq> [] \<and> \<not> starts p (c # rest)" and c: "c \<notin> {CHR ''('', CHR ''{'', CHR ''['', CHR ''|'', CHR 0x00}"
  shows "passed ops [c] rest"
  unfolding passed_def
proof (intro allI)
  fix abort "term" out
  have group: "earliest 0 groups (c # rest) None = map_option shifted (earliest 0 groups rest None)"
    using c by (intro earliest_later) (auto simp: groups_eq starts_def)
  have op: "earliest 0 ops (c # rest) None = map_option shifted (earliest 0 ops rest None)"
    using ops by (intro earliest_later) auto
  show "GetTerms abort ops ([c] @ rest) term out = GetTerms abort ops rest (term @ [c]) out"
  proof (cases "earliest 0 ops rest None")
    case None
    then show ?thesis using op by (simp add: GetTerms_none)
  next
    case (Some ip)
    then have "rest \<noteq> []" using ops earliest_empty [of ops 0] by auto
    then show ?thesis
      unfolding GetTerms.simps [of abort ops "[c] @ rest"] GetTerms.simps [of abort ops rest]
      using group op Some
      by (cases ip) (auto simp: groups_def [symmetric] shifted_def Let_def split: option.splits)
  qed
qed

lemma passed_text:
  "(\<And>s c u. t = s @ c # u \<Longrightarrow> \<forall>p \<in> set ops. p \<noteq> [] \<and> \<not> starts p (c # u @ rest)) \<Longrightarrow>
   set t \<inter> {CHR ''('', CHR ''{'', CHR ''['', CHR ''|'', CHR 0x00} = {} \<Longrightarrow> passed ops t rest"
proof (induction t)
  case (Cons c t)
  have "passed ops [c] (t @ rest)"
    using Cons.prems(1) [of "[]" c t] Cons.prems(2) by (intro passed_char) auto
  moreover have "passed ops t rest"
    using Cons.prems by (intro Cons.IH) (auto simp flip: append_Cons)
  ultimately show ?case using passed_append [of ops "[c]" t rest] by simp
qed simp

lemma passed_group:
  assumes "\<forall>p \<in> set ops. p \<noteq> [] \<and> hd p \<noteq> CHR ''(''" "balanced t"
  shows "passed ops (''('' @ t @ '')'') rest"
  unfolding passed_def
proof (intro allI)
  fix abort "term" out
  let ?s = "''('' @ t @ '')'' @ rest"
  have group: "earliest 0 groups ?s None = Some (0, 0)"
    using earliest_here [of 0 groups ?s None 0] by (simp add: groups_eq starts_def)
  have close: "GetClosingSymbol ?s (kGroupingSymbols ! 0) = Some (Suc (length t))"
    using closing_group [OF assms(2)] by (simp add: kGroupingSymbols_def)
  have "\<not> starts p ?s" if "p \<in> set ops" for p
    using assms(1) that by (cases p) (auto simp: starts_def)
  then have later: "earliest 0 ops ?s None = map_option shifted (earliest 0 ops (t @ '')'' @ rest) None)"
    using earliest_later [of ops "CHR ''(''" "t @ '')'' @ rest" 0] by simp
  show "GetTerms abort ops ((''('' @ t @ '')'') @ rest) term out = GetTerms abort ops rest (term @ ''('' @ t @ '')'') out"
  proof (cases "earliest 0 ops ?s None")
    case None
    then have "earliest 0 ops rest None = None"
      using not_in_suffix [of _ "''('' @ t @ '')''" rest] by (simp add: earliest_None)
    then show ?thesis using None by (simp add: GetTerms_none)
  next
    case (Some ip)
    then obtain i p where "ip = (i, Suc p)"
      using later by (cases "earliest 0 ops (t @ '')'' @ rest) None") (auto simp: shifted_def)
    then have "GetTerms abort ops ?s term out = GetTerms abort ops (drop (Suc (Suc (length t))) ?s) (term @ take (Suc (Suc (length t))) ?s) out"
      unfolding GetTerms.simps [of abort ops ?s] using Some group close by (simp add: groups_def [symmetric])
    then show ?thesis by simp
  qed
qed


lemma passed_split:
  assumes "i < length ops" "\<forall>p \<in> set ops. p \<noteq> []" "\<forall>j < i. \<not> starts (ops ! j) (ops ! i @ rest)"
    "hd (ops ! i) \<notin> {CHR ''('', CHR ''{'', CHR ''['', CHR ''|'', CHR 0x00}"
  shows "GetTerms abort ops (ops ! i @ rest) term out =
    (let found = out @ [(term, int i)] in if abort then Returns (found @ [(rest, - 1)]) else GetTerms abort ops rest [] found)"
proof -
  obtain c u where u: "ops ! i = c # u" using assms(1,2) by (cases "ops ! i") auto
  have op: "earliest 0 ops (c # u @ rest) None = Some (i, 0)"
    using assms(1,3) u earliest_here [of i ops "c # u @ rest" None 0] by (simp add: starts_def)
  have "\<not> starts g (c # u @ rest)" if "g \<in> set groups" for g
    using that assms(4) u by (auto simp: groups_eq starts_def)
  then have "earliest 0 groups (c # u @ rest) None = map_option shifted (earliest 0 groups (u @ rest) None)"
    by (intro earliest_later) auto
  then have group: "\<not> (case earliest 0 groups (c # u @ rest) None of None \<Rightarrow> False | Some (g, q) \<Rightarrow> q < 0)"
    by (auto split: option.splits)
  show ?thesis
    unfolding GetTerms.simps [of abort ops "ops ! i @ rest"] using op group u
    by (simp add: groups_def [symmetric] Let_def)
qed

lemma passed_end:
  assumes "passed ops t []"
  shows "GetTerms abort ops t term out = Returns (if term @ t = [] then out else out @ [(term @ t, - 1)])"
  using assms unfolding passed_def by (metis GetTerms.simps append_Nil2)


subsection \<open>Names\<close>

definition symbols :: string where
  "symbols = ''+-*/^=!<>~(){}[]|,'' @ [CHR 0x00]"

definition plain_name :: "string \<Rightarrow> bool" where
  "plain_name s \<longleftrightarrow> s \<noteq> [] \<and> (\<forall>c \<in> set s. c \<notin> set symbols)"

definition symbolic :: "string list \<Rightarrow> bool" where
  "symbolic ops \<longleftrightarrow> (\<forall>p \<in> set ops. p \<noteq> [] \<and> hd p \<in> set symbols \<and> hd p \<notin> {CHR ''('', CHR ''{'', CHR ''['', CHR ''|'', CHR 0x00})"

lemma plain_passed: "plain_name s \<Longrightarrow> symbolic ops \<Longrightarrow> passed ops s rest"
proof (rule passed_text)
  fix a c u assume s: "plain_name s" "symbolic ops" "s = a @ c # u"
  show "\<forall>p \<in> set ops. p \<noteq> [] \<and> \<not> starts p (c # u @ rest)"
  proof
    fix p assume "p \<in> set ops"
    then show "p \<noteq> [] \<and> \<not> starts p (c # u @ rest)"
    proof -
      have p: "p \<noteq> []" "hd p \<in> set symbols" using s(2) \<open>p \<in> set ops\<close> by (auto simp: symbolic_def)
      have "c \<notin> set symbols" using s(1,3) by (simp add: plain_name_def)
      then show ?thesis using p by (cases p) (auto simp: starts_def)
    qed
  qed
qed (auto simp: plain_name_def symbols_def)

lemma plain_balanced: "plain_name s \<Longrightarrow> balanced s"
  by (rule balanced_plain) (auto simp: plain_name_def symbols_def)

lemma single_terms:
  assumes "s \<noteq> []" "passed ops s []"
  shows "GetTerms abort ops s [] [] = Returns [(s, - 1)]"
  using passed_end [OF assms(2), of abort "[]" "[]"] assms(1) by simp

lemma operator_terms_none:
  "s \<noteq> [] \<Longrightarrow> \<forall>p \<in> fst ` set table. passed [p] s [] \<Longrightarrow> operator_terms table s = Returns None"
  by (induction table) (auto simp: single_terms)

text \<open>A text without an operator outside its groups is a term.\<close>

definition whole :: "string \<Rightarrow> bool" where
  "whole s \<longleftrightarrow> s \<noteq> [] \<and> hd s \<noteq> CHR ''-'' \<and>
     (\<forall>ops \<in> {[''+'', ''-''], [''*'', ''/''], [''^''], [''==''], [''!=''], [''>=''], [''<=''], [''>''], [''<''], [''~='']}. passed ops s [])"

lemma parse_whole:
  assumes "whole s"
  shows "parse_expression T enforce names s = parse_term (parse_expression T enforce names) T enforce names s"
proof -
  have terms: "GetTerms abort ops s [] [] = Returns [(s, - 1)]"
    if "ops \<in> {[''+'', ''-''], [''*'', ''/''], [''^''], [''~='']}" for abort ops
    using assms that by (intro single_terms) (auto simp: whole_def)
  have "GetComparisonTerms s = Returns None"
    unfolding GetComparisonTerms_def using assms by (intro operator_terms_none) (auto simp: whole_def)
  moreover have minus: "take 1 s \<noteq> ''-''" using assms by (cases s) (auto simp: whole_def)
  ultimately show ?thesis
    unfolding parse_expression.simps [of T enforce names s] parse_step_def parse_comparison_def GetAdditiveTerms_def
      GetMultiplicativeTerms_def GetExponentTerms_def
    using minus by (simp add: terms)
qed

lemma symbolic_ops: "ops \<in> {[''+'', ''-''], [''*'', ''/''], [''^''], [''==''], [''!=''], [''>=''], [''<=''], [''>''], [''<''], [''~='']} \<Longrightarrow> symbolic ops"
  by (auto simp: symbolic_def symbols_def)

lemma plain_whole: "plain_name s \<Longrightarrow> whole s"
proof -
  assume s: "plain_name s"
  then have "s \<noteq> []" "hd s \<noteq> CHR ''-''" by (cases s; auto simp: plain_name_def symbols_def)+
  then show ?thesis using plain_passed [OF s symbolic_ops] by (simp add: whole_def)
qed

lemma function_of_None: "\<forall>p \<in> fst ` set table. \<not> HasPrefixString s p \<Longrightarrow> function_of table s = None"
  by (auto simp: function_of_def find_None_iff)

lemma HasPrefixString_iff: "HasPrefixString s p \<longleftrightarrow> starts p s"
  by (auto simp: HasPrefixString_def starts_def substr_def)

lemma parenthesised:
  "p \<in> fst ` set unary_functions \<union> fst ` set binary_functions \<Longrightarrow> CHR ''('' \<in> set p"
  by (auto simp: unary_functions_def binary_functions_def)

lemma no_parenthesis: "CHR ''('' \<in> set p \<Longrightarrow> CHR ''('' \<notin> set s \<Longrightarrow> \<not> HasPrefixString s p"
  unfolding HasPrefixString_iff starts_def by (metis in_set_takeD)

lemma parse_plain_term: "plain_name s \<Longrightarrow> parse_term f T enforce names s = parse_leaf f T enforce names s"
proof -
  assume "plain_name s"
  then have s: "s \<noteq> []" "CHR ''('' \<notin> set s" "CHR ''!'' \<notin> set s" "CHR ''-'' \<notin> set s"
    by (auto simp: plain_name_def symbols_def)
  have "function_of unary_functions s = None" "function_of binary_functions s = None"
    using s(2) parenthesised by (auto intro!: function_of_None dest: no_parenthesis)
  moreover have "\<not> HasPrefixString s ''(''" "\<not> HasPrefixString s ''-''"
    using s by (cases s; auto simp: HasPrefixString_iff starts_def)+
  moreover have "\<not> HasSuffixString s ''!''"
    using s by (auto simp: HasSuffixString_def) (metis in_set_dropD list.set_intros(1))
  ultimately show ?thesis by (simp add: parse_term_def)
qed

lemma parse_name:
  assumes "plain_name s" "s \<in> set names"
  shows "parse_expression T enforce names s = Returns (variable_expr s)"
  using assms by (simp add: parse_whole plain_whole parse_plain_term parse_leaf_def)

subsection \<open>Sums\<close>

text \<open>What an expression of the four operations means; a division by zero has no value.\<close>

fun expr_value :: "(string \<Rightarrow> rat) \<Rightarrow> Expression \<Rightarrow> rat option" where
  "expr_value v (Expression op name x c one two) =
     (if op = Math_IDENTITY then Some (if c then x else v name)
      else case (one, two) of
          (Some a, Some b) \<Rightarrow>
            (case (expr_value v a, expr_value v b) of
               (Some r, Some s) \<Rightarrow>
                 if op = Math_ADD then Some (r + s)
                 else if op = Math_SUB then Some (r - s)
                 else if op = Math_MULT then Some (r * s)
                 else if op = Math_DIV \<and> s \<noteq> 0 then Some (r / s)
                 else None
             | _ \<Rightarrow> None)
        | _ \<Rightarrow> None)"

text \<open>A sum is its first name and the other names, each with whether it is subtracted.\<close>

definition sum_text :: "string \<Rightarrow> (bool \<times> string) list \<Rightarrow> string" where
  "sum_text x ts = x @ concat (map (\<lambda>(sub, y). (if sub then ''-'' else ''+'') @ y) ts)"

definition sum_value :: "(string \<Rightarrow> rat) \<Rightarrow> string \<Rightarrow> (bool \<times> string) list \<Rightarrow> rat" where
  "sum_value v x ts = v x + (\<Sum>(sub, y)\<leftarrow>ts. if sub then - v y else v y)"

fun sum_terms :: "string \<Rightarrow> (bool \<times> string) list \<Rightarrow> (string \<times> int) list" where
  "sum_terms x [] = [(x, - 1)]"
| "sum_terms x ((sub, y) # ts) = (x, if sub then 1 else 0) # sum_terms y ts"

fun sum_expr :: "bool \<Rightarrow> string \<Rightarrow> (bool \<times> string) list \<Rightarrow> Expression" where
  "sum_expr flipped x [] = variable_expr x"
| "sum_expr flipped x ((sub, y) # ts) =
     node2 (if sub = flipped then Math_ADD else Math_SUB) (variable_expr x) (sum_expr (flipped \<noteq> sub) y ts)"

lemma sum_split:
  "\<forall>y \<in> set (x # map snd ts). plain_name y \<Longrightarrow>
   GetTerms False [''+'', ''-''] (sum_text x ts) [] out = Returns (out @ sum_terms x ts)"
proof (induction ts arbitrary: x out)
  case Nil
  then have x: "plain_name x" "x \<noteq> []" by (auto simp: plain_name_def)
  show ?case
    using passed_end [OF plain_passed [OF x(1) symbolic_ops]] x(2) by (simp add: sum_text_def)
next
  case (Cons t ts)
  obtain sub y where t: "t = (sub, y)" by (cases t)
  let ?i = "if sub then 1 else 0 :: nat"
  have "passed [''+'', ''-''] x ([''+'', ''-''] ! ?i @ sum_text y ts)"
    using Cons.prems by (intro plain_passed symbolic_ops) auto
  moreover have "sum_text x (t # ts) = x @ [''+'', ''-''] ! ?i @ sum_text y ts"
    by (simp add: sum_text_def t)
  ultimately have "GetTerms False [''+'', ''-''] (sum_text x (t # ts)) [] out
      = GetTerms False [''+'', ''-''] ([''+'', ''-''] ! ?i @ sum_text y ts) x out"
    by (simp only: passed_def append_Nil)
  also have "\<dots> = GetTerms False [''+'', ''-''] (sum_text y ts) [] (out @ [(x, int ?i)])"
    by (subst passed_split) (auto simp: starts_def Let_def less_Suc_eq)
  also have "\<dots> = Returns (out @ sum_terms x (t # ts))"
    using Cons.IH [of y] Cons.prems by (simp add: t)
  finally show ?case .
qed

lemma sum_chain:
  "(\<forall>y \<in> set (x # map snd ts). f y = Returns (variable_expr y)) \<Longrightarrow>
   parse_chain f Math_ADD Math_SUB flipped (sum_terms x ts) = Returns (sum_expr flipped x ts)"
proof (induction ts arbitrary: x flipped)
  case (Cons t ts)
  obtain sub y where t: "t = (sub, y)" by (cases t)
  have "sum_terms y ts \<noteq> []" by (cases ts; simp) (metis list.distinct(1) surj_pair sum_terms.simps(2))
  then obtain u us where u: "sum_terms y ts = u # us" by (cases "sum_terms y ts") auto
  have "parse_chain f Math_ADD Math_SUB (flipped \<noteq> sub) (u # us) = Returns (sum_expr (flipped \<noteq> sub) y ts)"
    unfolding u [symmetric] by (rule Cons.IH) (use Cons.prems t in auto)
  then show ?case using Cons.prems by (cases sub; cases flipped) (simp_all add: t u Let_def)
qed simp

lemma sum_terms_length: "length (sum_terms x ts) = Suc (length ts)"
  by (induction x ts rule: sum_terms.induct) auto

lemma parse_sum:
  assumes "\<forall>y \<in> set (x # map snd ts). plain_name y \<and> y \<in> set names"
  shows "parse_expression T enforce names (sum_text x ts) = Returns (sum_expr False x ts)"
proof (cases ts)
  case Nil
  then show ?thesis using assms by (simp add: sum_text_def parse_name)
next
  case (Cons t us)
  have "take 1 (sum_text x ts) \<noteq> ''-''"
    using assms by (cases x) (auto simp: sum_text_def plain_name_def symbols_def)
  then have "GetAdditiveTerms (sum_text x ts) = Returns (sum_terms x ts)"
    using sum_split [of x ts "[]"] assms by (simp add: GetAdditiveTerms_def)
  moreover have "parse_chain (parse_expression T enforce names) Math_ADD Math_SUB False (sum_terms x ts)
      = Returns (sum_expr False x ts)"
    using assms by (intro sum_chain) (auto simp: parse_name)
  ultimately show ?thesis
    using Cons by (subst parse_expression.simps) (simp add: parse_step_def sum_terms_length)
qed

text \<open>Whether each name counts negatively: as the chain is built, and as it is written.\<close>

fun signs :: "bool \<Rightarrow> bool list \<Rightarrow> bool list" where
  "signs flipped [] = [False]"
| "signs flipped (m # ms) = False # map (\<lambda>s. s \<noteq> (flipped \<noteq> m)) (signs (flipped \<noteq> m) ms)"

definition weighted :: "(string \<Rightarrow> rat) \<Rightarrow> bool list \<Rightarrow> string list \<Rightarrow> rat" where
  "weighted v ss ys = (\<Sum>(s, y)\<leftarrow>zip ss ys. if s then - v y else v y)"

lemma weighted_simps [simp]: "weighted v [] ys = 0" "weighted v (s # ss) (y # ys) = (if s then - v y else v y) + weighted v ss ys"
  by (simp_all add: weighted_def)

lemma weighted_negated: "weighted v (map (\<lambda>s. s \<noteq> b) ss) ys = (if b then - weighted v ss ys else weighted v ss ys)"
proof (induction ss arbitrary: ys)
  case (Cons s ss)
  then show ?case by (cases ys) (auto simp: weighted_def)
qed simp

lemma sum_expr_value: "expr_value v (sum_expr flipped x ts) = Some (weighted v (signs flipped (map fst ts)) (x # map snd ts))"
proof (induction flipped x ts rule: sum_expr.induct)
  case (2 flipped x sub y ts)
  then show ?case by (cases sub; cases flipped) (auto simp: node2_def variable_expr_def weighted_negated [of v True, simplified])
qed (simp add: variable_expr_def)

lemma sum_value_weighted: "sum_value v x ts = weighted v (False # map fst ts) (x # map snd ts)"
proof -
  have "(\<Sum>(sub, y)\<leftarrow>ts. if sub then - v y else v y) = weighted v (map fst ts) (map snd ts)"
    by (induction ts) auto
  then show ?thesis by (simp add: sum_value_def)
qed

lemma weighted_determined:
  assumes "distinct ys" "length ss = length ys" "length rs = length ys" "\<And>v. weighted v ss ys = weighted v rs ys"
  shows "ss = rs"
  using assms
proof (induction ys arbitrary: ss rs)
  case (Cons y ys)
  obtain s ss' r rs' where ss: "ss = s # ss'" "rs = r # rs'" using Cons.prems(2,3) by (cases ss; cases rs) auto
  have zero: "weighted (\<lambda>z. if z = y then 1 else 0) us ys = 0" for us
  proof -
    have "y \<notin> set zs \<Longrightarrow> weighted (\<lambda>z. if z = y then 1 else 0) us zs = 0" for zs
    proof (induction zs arbitrary: us)
      case (Cons z zs)
      then show ?case by (cases us) auto
    qed (simp add: weighted_def)
    then show ?thesis using Cons.prems(1) by simp
  qed
  have "s = r"
    using Cons.prems(4) [of "\<lambda>z. if z = y then 1 else 0"] by (auto simp: ss zero split: if_splits)
  moreover have "ss' = rs'"
    using Cons.prems \<open>s = r\<close> by (intro Cons.IH) (auto simp: ss)
  ultimately show ?case by (simp add: ss)
qed simp

lemma signs_length: "length (signs flipped ms) = Suc (length ms)"
  by (induction flipped ms rule: signs.induct) auto

lemma signs_first: "signs flipped ms = s # ss \<Longrightarrow> \<not> s"
  by (cases ms) auto

lemma signs_right: "signs False ms = False # ms \<longleftrightarrow> (\<forall>m \<in> set (take (length ms - 2) ms). \<not> m)"
proof (induction ms rule: length_induct)
  case (1 ms)
  consider "ms = []" | a where "ms = [a]" | a b where "ms = [a, b]" | a b c ms' where "ms = a # b # c # ms'"
    by (cases ms rule: list.exhaust [case_product]) (metis list.exhaust)+
  then show ?case
  proof cases
    case 4
    show ?thesis
    proof (cases a)
      case True
      then show ?thesis using 4 by (auto dest: signs_first)
    next
      case False
      then have "signs False ms = False # ms \<longleftrightarrow> signs False (b # c # ms') = False # b # c # ms'"
        unfolding 4 signs.simps(2) [of False a] by simp
      also have "\<dots> \<longleftrightarrow> (\<forall>m \<in> set (take (length (b # c # ms') - 2) (b # c # ms')). \<not> m)"
        by (rule 1 [rule_format]) (simp add: 4)
      also have "\<dots> \<longleftrightarrow> (\<forall>m \<in> set (take (length ms - 2) ms). \<not> m)"
        using 4 False by simp
      finally show ?thesis .
    qed
  qed auto
qed

text \<open>C33: A sum of distinct variables is parsed to an expression that has the value of the sum for every value of
  the variables exactly when no name but the last two is subtracted.\<close>

theorem sums_of_variables:
  assumes "\<forall>y \<in> set (x # map snd ts). plain_name y \<and> y \<in> set names" "distinct (x # map snd ts)"
  shows "\<exists>e. parse_expression T enforce names (sum_text x ts) = Returns e \<and>
    ((\<forall>v. expr_value v e = Some (sum_value v x ts)) \<longleftrightarrow> (\<forall>i. i + 2 < length ts \<longrightarrow> \<not> fst (ts ! i)))"
proof (intro exI conjI)
  show "parse_expression T enforce names (sum_text x ts) = Returns (sum_expr False x ts)"
    by (rule parse_sum [OF assms(1)])
  have "(\<forall>v. expr_value v (sum_expr False x ts) = Some (sum_value v x ts)) \<longleftrightarrow> signs False (map fst ts) = False # map fst ts"
    unfolding sum_expr_value sum_value_weighted
    using weighted_determined [OF assms(2)] by (auto simp: signs_length)
  also have "\<dots> \<longleftrightarrow> (\<forall>i. i + 2 < length ts \<longrightarrow> \<not> fst (ts ! i))"
    by (auto simp: signs_right in_set_conv_nth all_set_conv_all_nth)
  finally show "(\<forall>v. expr_value v (sum_expr False x ts) = Some (sum_value v x ts)) \<longleftrightarrow> (\<forall>i. i + 2 < length ts \<longrightarrow> \<not> fst (ts ! i))" .
qed


text \<open>The subtraction of the first of three names turns the sign of the last: \<open>a-b+c+d\<close> is read as \<open>a-(b-(c-d))\<close>.\<close>

theorem sums_of_variables_witness:
  "\<exists>e. parse_expression exact_text True [''a'', ''b'', ''c'', ''d''] ''a-b+c+d'' = Returns e \<and>
    \<not> (\<forall>v. expr_value v e = Some (v ''a'' + (- v ''b'' + (v ''c'' + v ''d''))))"
proof -
  let ?ts = "[(True, ''b''), (False, ''c''), (False, ''d'')]"
  have not_last: "\<not> (\<forall>i. i + 2 < length ?ts \<longrightarrow> \<not> fst (?ts ! i))" by auto
  have "\<exists>e. parse_expression exact_text True [''a'', ''b'', ''c'', ''d''] (sum_text ''a'' ?ts) = Returns e \<and>
      ((\<forall>v. expr_value v e = Some (sum_value v ''a'' ?ts)) \<longleftrightarrow> (\<forall>i. i + 2 < length ?ts \<longrightarrow> \<not> fst (?ts ! i)))"
    by (rule sums_of_variables) (simp_all add: plain_name_def symbols_def)
  with not_last have "\<exists>e. parse_expression exact_text True [''a'', ''b'', ''c'', ''d''] (sum_text ''a'' ?ts) = Returns e \<and>
      \<not> (\<forall>v. expr_value v e = Some (sum_value v ''a'' ?ts))" by blast
  then show ?thesis by (simp add: sum_text_def sum_value_def)
qed

subsection \<open>Printed expressions\<close>

text \<open>Texts without an exponent sign after a digit or a point.\<close>

fun unscientific :: "string \<Rightarrow> bool" where
  "unscientific (a # b # s) \<longleftrightarrow> \<not> ((IsStringDigit a \<or> a = CHR ''.'') \<and> b \<in> {CHR ''e'', CHR ''E''}) \<and> unscientific (b # s)"
| "unscientific _ \<longleftrightarrow> True"

lemma unscientific_nth: "unscientific s \<Longrightarrow> Suc i < length s \<Longrightarrow> s ! Suc i \<in> {CHR ''e'', CHR ''E''} \<Longrightarrow>
  \<not> (IsStringDigit (s ! i) \<or> s ! i = CHR ''.'')"
proof (induction s arbitrary: i rule: unscientific.induct)
  case (1 a b s)
  then show ?case by (cases i) auto
qed auto

lemma unscientific_tl: "unscientific (a # s) \<Longrightarrow> unscientific s"
  by (cases s) auto

lemma unscientific_drop: "unscientific s \<Longrightarrow> unscientific (drop n s)"
proof (induction n arbitrary: s)
  case (Suc n)
  then show ?case by (cases s) (auto dest: unscientific_tl)
qed simp

lemma unscientific_join: "unscientific s \<Longrightarrow> unscientific (c # t) \<Longrightarrow> c \<notin> {CHR ''e'', CHR ''E''} \<Longrightarrow> unscientific (s @ c # t)"
  by (induction s rule: unscientific.induct) auto

lemma unscientific_symbol: "unscientific t \<Longrightarrow> \<not> IsStringDigit c \<Longrightarrow> c \<noteq> CHR ''.'' \<Longrightarrow> unscientific (c # t)"
  by (cases t) auto

lemma first_in_nth: "first_in [c] s = Some p \<Longrightarrow> p < length s \<and> s ! p = c"
  using find_in_Some [of "[c]" s p] by (auto simp: first_in_eq) (metis Suc_le_eq add.commute nth_via_drop append_Cons append_Nil hd_drop_conv_nth hd_take zero_less_Suc list.sel(1) plus_1_eq_Suc)

lemma exponent_position:
  "first_exponent s = Some p \<Longrightarrow> p < length s \<and> s ! p \<in> {CHR ''e'', CHR ''E''}"
  by (auto simp: first_exponent_def dest!: first_in_nth split: option.splits if_splits)

lemma RemoveScientificNotation_unscientific: "unscientific s \<Longrightarrow> RemoveScientificNotation T s = Returns s"
proof (induction s rule: length_induct)
  case (1 s)
  show ?case
  proof (cases "s = []")
    case False
    obtain n where n: "RemoveScientificNotationInternal T s = Returns (take n s, drop n s)" "0 < n"
    proof (cases "first_exponent s")
      case None
      then show ?thesis
        using that [of "length s"] False by (simp add: RemoveScientificNotationInternal_def)
    next
      case (Some p)
      have p: "p < length s" "s ! p \<in> {CHR ''e'', CHR ''E''}" using exponent_position [OF Some] by auto
      have prev: "s ! (p - 1) \<noteq> CHR ''.'' \<and> \<not> IsStringDigit (s ! (p - 1))" if "p \<noteq> 0"
        using unscientific_nth [OF 1(2), of "p - 1"] p that by auto
      consider "p = 0" | "p \<noteq> 0" "p = length s - 1" | "p \<noteq> 0" "p \<noteq> length s - 1" by blast
      then show ?thesis
      proof cases
        case 1
        then show ?thesis using that [of 1] Some by (simp add: RemoveScientificNotationInternal_def Let_def split: prod.splits)
      next
        case 2
        then show ?thesis using that [of "length s"] False Some by (simp add: RemoveScientificNotationInternal_def Let_def split: prod.splits)
      next
        case 3
        then show ?thesis using that [of "p + 1"] Some prev by (simp add: RemoveScientificNotationInternal_def Let_def split: prod.splits)
      qed
    qed
    have "RemoveScientificNotation T (drop n s) = Returns (drop n s)"
      using n(2) False by (intro 1(1) [rule_format] unscientific_drop 1(2)) auto
    then show ?thesis using False n by (subst RemoveScientificNotation.simps) simp
  qed (simp add: RemoveScientificNotation.simps)
qed


definition word_text :: "string \<Rightarrow> bool" where
  "word_text s \<longleftrightarrow> plain_name s \<and> unscientific s \<and> (\<forall>c \<in> set s. \<not> isspace c)"

text \<open>The expressions the parser reads back: variables of the set, constants whose text is a word that is read as their
  value, and the operations whose text the parser has, where the first operand of an incomplete gamma function is a variable
  or a constant. The others are at the end of the theory.\<close>

fun readable :: "text_ops \<Rightarrow> string list \<Rightarrow> Expression \<Rightarrow> bool" where
  "readable T names (Expression op name x c one two) \<longleftrightarrow>
     (if op = Math_IDENTITY then
        one = None \<and> two = None \<and>
        (if c then name = [] \<and> word_text (t_show T 0 x) \<and> Stod T (t_show T 0 x) = Returns x \<and>
           (\<forall>n \<in> set names. first_in n (t_show T 0 x) = None)
         else x = 0 \<and> word_text name \<and> name \<in> set names)
      else name = [] \<and> x = 0 \<and> \<not> c \<and>
        (if op \<in> {Math_ADD, Math_SUB, Math_MULT, Math_DIV, Math_POW, Math_EQ, Math_FLOAT_EQ, Math_GT, Math_GTE, Math_LT, Math_LTE}
         then (case (one, two) of (Some a, Some b) \<Rightarrow> readable T names a \<and> readable T names b | _ \<Rightarrow> False)
         else if op \<in> {Math_INC_GAMMA_FN, Math_REG_INC_GAMMA_FN}
         then (case (one, two) of
             (Some a, Some b) \<Rightarrow> e_op a = Math_IDENTITY \<and> readable T names a \<and> readable T names b
           | _ \<Rightarrow> False)
         else op \<in> {Math_GAMMA_FN, Math_PHI_FN, Math_EXP, Math_FACTORIAL, Math_LOG, Math_SIN, Math_COS, Math_TAN, Math_INDICATOR} \<and>
           (case (one, two) of (Some a, None) \<Rightarrow> readable T names a | _ \<Rightarrow> False)))"

abbreviation additive :: "string list" where
  "additive \<equiv> [''+'', ''-'']"

abbreviation multiplicative :: "string list" where
  "multiplicative \<equiv> [''*'', ''/'']"

definition inner :: "string \<Rightarrow> bool" where
  "inner s \<longleftrightarrow> balanced s \<and> unscientific s"

definition shape :: "string \<Rightarrow> bool" where
  "shape s \<longleftrightarrow> s \<noteq> [] \<and> hd s \<noteq> CHR ''-'' \<and> inner s \<and> (\<forall>rest. passed additive s rest \<and> passed multiplicative s rest)"

definition grouped :: "string \<Rightarrow> string" where
  "grouped s = ''('' @ s @ '')''"

lemma grouped_simps [simp]: "grouped s \<noteq> []" "hd (grouped s) = CHR ''(''" "length (grouped s) = Suc (Suc (length s))"
  by (simp_all add: grouped_def)

lemma grouped_passed: "inner s \<Longrightarrow> symbolic ops \<Longrightarrow> passed ops (grouped s) rest"
  unfolding grouped_def inner_def by (rule passed_group) (auto simp: symbolic_def)

lemma not_exponent: "c \<in> set symbols \<Longrightarrow> c \<notin> {CHR ''e'', CHR ''E''} \<and> \<not> IsStringDigit c \<and> c \<noteq> CHR ''.''"
  by (auto simp: symbols_def IsStringDigit_def)

lemma unscientific_between: "unscientific s \<Longrightarrow> unscientific t \<Longrightarrow> c \<in> set symbols \<Longrightarrow> unscientific (s @ c # t)"
  using not_exponent [of c] by (intro unscientific_join unscientific_symbol) auto

lemma inner_grouped: "inner s \<Longrightarrow> inner (grouped s)"
  unfolding inner_def grouped_def
  using balanced_group [of s] unscientific_between [of s "[]" "CHR '')''"] unscientific_symbol [of "s @ '')''" "CHR ''(''"]
  by (simp add: symbols_def IsStringDigit_def)

lemma inner_between: "inner s \<Longrightarrow> inner t \<Longrightarrow> c \<in> set symbols \<Longrightarrow> c \<noteq> CHR ''('' \<Longrightarrow> c \<noteq> CHR '')'' \<Longrightarrow> inner (s @ c # t)"
  unfolding inner_def using balanced_append [of s "c # t"] balanced_append [of "[c]" t] balanced_plain [of "[c]"]
  by (simp add: unscientific_between)

lemma shape_word: "word_text s \<Longrightarrow> shape s"
  unfolding shape_def inner_def word_text_def
  using plain_passed [of s, OF _ symbolic_ops] plain_balanced [of s]
  by (cases s) (auto simp: plain_name_def symbols_def)

lemma shape_grouped: "inner s \<Longrightarrow> shape (grouped s)"
  unfolding shape_def by (simp add: inner_grouped grouped_passed symbolic_ops)

text \<open>The texts between two groups.\<close>

definition between_texts :: "string list" where
  "between_texts = [''^'', ''=='', ''~='', ''>'', ''>='', ''<'', ''<='']"

text \<open>An operator that begins nowhere in a text before a parenthesis.\<close>

definition apart :: "string \<Rightarrow> string \<Rightarrow> bool" where
  "apart m p \<longleftrightarrow> p \<noteq> [] \<and> length p \<le> 2 \<and> list_all (\<lambda>i. \<not> starts p (drop i m @ ''('')) [0..<length m]"

lemma passed_between:
  assumes "\<forall>p \<in> set ops. apart m p" "m \<in> set between_texts"
  shows "passed ops m (grouped s @ rest)"
proof (rule passed_text)
  fix a c u assume m: "m = a @ c # u"
  show "\<forall>p \<in> set ops. p \<noteq> [] \<and> \<not> starts p (c # u @ grouped s @ rest)"
  proof
    fix p assume "p \<in> set ops"
    then have "apart m p" using assms(1) by blast
    moreover have "length a \<in> set [0..<length m]" using m by simp
    ultimately have p: "p \<noteq> []" "length p \<le> 2" "\<not> starts p (drop (length a) m @ ''('')"
      by (auto simp: apart_def list_all_iff)
    have "take (length p) (c # u @ grouped s @ rest) = take (length p) ((c # u) @ ''('')"
      using p(2) by (cases u) (auto simp: grouped_def take_Cons' numeral_2_eq_2)
    then show "p \<noteq> [] \<and> \<not> starts p (c # u @ grouped s @ rest)"
      using p m by (simp add: starts_def)
  qed
qed (use assms(2) in \<open>auto simp: between_texts_def\<close>)

lemma passed_comparison:
  assumes "inner a" "inner b" "symbolic ops" "m \<in> set between_texts" "\<forall>p \<in> set ops. apart m p"
  shows "passed ops (grouped a @ m @ grouped b) rest"
proof -
  have "passed ops (m @ grouped b) rest"
    using passed_between [OF assms(5,4)] grouped_passed [OF assms(2,3)] passed_append [of ops m "grouped b" rest] by simp
  then show ?thesis
    using grouped_passed [OF assms(1,3)] passed_append [of ops "grouped a" "m @ grouped b" rest] by simp
qed

lemma inner_prefix: "inner s \<Longrightarrow> c \<in> set symbols \<Longrightarrow> c \<noteq> CHR ''('' \<Longrightarrow> c \<noteq> CHR '')'' \<Longrightarrow> inner (c # s)"
  using inner_between [of "[]" s c] by (simp add: inner_def balanced_def)

lemma between_apart: "m \<in> set between_texts \<Longrightarrow> p \<in> {''+'', ''-'', ''*'', ''/''} \<Longrightarrow> apart m p"
proof -
  have "list_all (\<lambda>m. list_all (apart m) [''+'', ''-'', ''*'', ''/'']) between_texts" by code_simp
  then show "m \<in> set between_texts \<Longrightarrow> p \<in> {''+'', ''-'', ''*'', ''/''} \<Longrightarrow> apart m p" by (auto simp: list_all_iff)
qed

lemma shape_between:
  assumes "inner a" "inner b" "m \<in> set between_texts"
  shows "shape (grouped a @ m @ grouped b)"
proof -
  have "passed ops (grouped a @ m @ grouped b) rest" if "ops = additive \<or> ops = multiplicative" for ops rest
    using that assms by (intro passed_comparison symbolic_ops) (auto intro: between_apart)
  moreover have "inner (grouped a @ m @ grouped b)"
  proof -
    have "m \<noteq> []" "set m \<subseteq> set symbols - {CHR ''('', CHR '')''}"
      using assms(3) by (auto simp: between_texts_def symbols_def)
    then show ?thesis
    proof (induction m)
      case (Cons c m)
      have rest: "set u \<subseteq> set symbols - {CHR ''('', CHR '')''} \<Longrightarrow> inner (u @ grouped b)" for u
        by (induction u) (auto intro: inner_prefix inner_grouped [OF assms(2)])
      show ?case
        using inner_between [OF inner_grouped [OF assms(1)] rest, of m c] Cons.prems by auto
    qed simp
  qed
  ultimately show ?thesis by (simp add: shape_def)
qed


definition function_texts :: "(string \<times> MathOperation) list" where
  "function_texts =
     [(''Gamma'', Math_GAMMA_FN), (''Phi'', Math_PHI_FN), (''exp'', Math_EXP), (''log'', Math_LOG), (''sin'', Math_SIN),
      (''cos'', Math_COS), (''tan'', Math_TAN), (''I'', Math_INDICATOR)]"

lemma function_words:
  "(fn, op) \<in> set function_texts \<Longrightarrow> word_text fn"
  "(fn, op) \<in> set function_texts \<Longrightarrow> function_of unary_functions (fn @ ''('' @ s) = Some (fn @ ''('', op)"
  by (auto simp: function_texts_def word_text_def plain_name_def symbols_def IsStringDigit_def isspace_def)
    (simp_all add: function_of_def unary_functions_def HasPrefixString_iff starts_def)

lemma passed_function: "word_text fn \<Longrightarrow> inner s \<Longrightarrow> symbolic ops \<Longrightarrow> passed ops (fn @ grouped s) rest"
  by (intro passed_append plain_passed grouped_passed) (auto simp: word_text_def)

lemma shape_function: "word_text fn \<Longrightarrow> inner s \<Longrightarrow> shape (fn @ grouped s)"
proof -
  assume fn: "word_text fn" and s: "inner s"
  have "shape fn" by (rule shape_word [OF fn])
  moreover have "inner (fn @ grouped s)"
    using balanced_append [of fn "grouped s"] inner_grouped [OF s] unscientific_between [of fn "s @ '')''" "CHR ''(''"]
      unscientific_tl [of "CHR ''(''" "s @ '')''"] \<open>shape fn\<close>
    by (auto simp: shape_def inner_def grouped_def symbols_def)
  ultimately show ?thesis
    using passed_function [OF fn s symbolic_ops] by (auto simp: shape_def)
qed

lemma passed_factorial: "inner s \<Longrightarrow> symbolic ops \<Longrightarrow> \<forall>p \<in> set ops. \<not> starts p (''!'' @ rest) \<Longrightarrow> passed ops (grouped s @ ''!'') rest"
  by (intro passed_append grouped_passed passed_char) (auto simp: symbolic_def)

lemma shape_factorial:
  assumes "inner s" shows "shape (grouped s @ ''!'')"
proof -
  have "inner []" by (simp add: inner_def balanced_def)
  then have "inner (grouped s @ ''!'')"
    using inner_between [OF inner_grouped [OF assms], of "[]" "CHR ''!''"] by (simp add: symbols_def)
  moreover have "passed ops (grouped s @ ''!'') rest" if "ops = additive \<or> ops = multiplicative" for ops rest
    using that assms by (intro passed_factorial symbolic_ops) (auto simp: starts_def)
  ultimately show ?thesis by (simp add: shape_def)
qed

lemma HasSuffixString_last: "HasSuffixString s [c] \<longleftrightarrow> s \<noteq> [] \<and> last s = c"
  by (cases s rule: rev_cases) (auto simp: HasSuffixString_def)

lemma no_function:
  "function_of unary_functions (grouped s @ t) = None" "function_of binary_functions (grouped s @ t) = None"
  by (simp_all add: function_of_def unary_functions_def binary_functions_def HasPrefixString_iff starts_def grouped_def)

lemma whole_grouped: "inner s \<Longrightarrow> whole (grouped s)"
  unfolding whole_def by (auto intro: grouped_passed symbolic_ops)

lemma parse_grouped: "inner s \<Longrightarrow> parse_expression T enforce names (grouped s) = parse_expression T enforce names s"
  using no_function [of s "[]"]
  by (simp add: parse_whole whole_grouped parse_term_def HasSuffixString_last HasPrefixString_iff)
    (simp add: grouped_def starts_def substr_def)

lemma parse_function:
  assumes "(fn, op) \<in> set function_texts" "inner s" "parse_expression T enforce names s = Returns e"
  shows "parse_expression T enforce names (fn @ grouped s) = Returns (node1 op e)"
proof -
  have "shape (fn @ grouped s)"
    using function_words(1) [OF assms(1)] assms(2) by (rule shape_function)
  then have "whole (fn @ grouped s)"
    using passed_function [OF function_words(1) [OF assms(1)] assms(2) symbolic_ops] by (simp add: whole_def shape_def)
  moreover have "argument (fn @ ''('') (fn @ grouped s) = s"
    by (simp add: argument_def substr_def grouped_def)
  ultimately show ?thesis
    using assms(3) function_words(2) [OF assms(1), of "s @ '')''"]
    by (simp add: parse_whole parse_term_def HasSuffixString_last grouped_def)
qed

lemma parse_factorial_text:
  assumes "inner s" "parse_expression T enforce names s = Returns e"
  shows "parse_expression T enforce names (grouped s @ ''!'') = Returns (node1 Math_FACTORIAL e)"
proof -
  have "passed ops (grouped s @ ''!'') []" if "symbolic ops" "\<forall>p \<in> set ops. p \<noteq> ''!''" for ops
  proof (rule passed_factorial [OF assms(1) that(1)])
    show "\<forall>p \<in> set ops. \<not> starts p (''!'' @ [])"
      using that by (auto simp: symbolic_def starts_def take_Cons split: nat.splits)
  qed
  then have "whole (grouped s @ ''!'')"
    using symbolic_ops by (auto simp: whole_def)
  moreover have "(grouped s @ ''!'') ! (length (grouped s @ ''!'') - 2) = CHR '')''"
    "substr (grouped s @ ''!'') 1 (length (grouped s @ ''!'') - 3) = s"
    by (simp_all add: grouped_def nth_append substr_def)
  ultimately show ?thesis
    using assms(2) no_function [of s "''!''"]
    by (simp add: parse_whole parse_term_def HasSuffixString_last parse_factorial_def)
      (simp add: HasPrefixString_iff starts_def grouped_def)
qed


lemma two_terms:
  assumes "passed ops a (ops ! i @ b)" "passed ops b []" "b \<noteq> []" "symbolic ops" "i < length ops"
    "\<forall>j < i. \<not> starts (ops ! j) (ops ! i @ b)"
  shows "GetTerms abort ops (a @ ops ! i @ b) [] [] = Returns [(a, int i), (b, - 1)]"
proof -
  have "ops ! i \<in> set ops" using assms(5) by simp
  then have op: "\<forall>p \<in> set ops. p \<noteq> []" "hd (ops ! i) \<notin> {CHR ''('', CHR ''{'', CHR ''['', CHR ''|'', CHR 0x00}"
    using assms(4) unfolding symbolic_def by blast+
  have "GetTerms abort ops (a @ ops ! i @ b) [] [] = GetTerms abort ops (ops ! i @ b) a []"
    using assms(1) by (simp add: passed_def)
  also have "\<dots> = Returns [(a, int i), (b, - 1)]"
    using passed_end [OF assms(2), of False "[]" "[(a, int i)]"] assms(3)
    by (simp add: passed_split [OF assms(5) op(1) assms(6) op(2)] Let_def)
  finally show ?thesis .
qed

lemma parse_additive:
  assumes "shape a" "shape b" "i < 2" "parse_expression T enforce names a = Returns x" "parse_expression T enforce names b = Returns y"
  shows "parse_expression T enforce names (a @ additive ! i @ b) = Returns (node2 ([Math_ADD, Math_SUB] ! i) x y)"
proof -
  have "GetTerms False additive (a @ additive ! i @ b) [] [] = Returns [(a, int i), (b, - 1)]"
    using assms(1-3) by (intro two_terms) (auto simp: shape_def starts_def less_Suc_eq numeral_2_eq_2 intro: symbolic_ops)
  moreover have "take 1 (a @ additive ! i @ b) \<noteq> ''-''"
    using assms(1) by (cases a) (auto simp: shape_def)
  ultimately have "GetAdditiveTerms (a @ additive ! i @ b) = Returns [(a, int i), (b, - 1)]"
    by (simp add: GetAdditiveTerms_def)
  then show ?thesis
    using assms(3-5) by (subst parse_expression.simps) (auto simp: parse_step_def Let_def less_Suc_eq numeral_2_eq_2)
qed

lemma additive_single:
  assumes "s \<noteq> []" "hd s \<noteq> CHR ''-''" "passed additive s []"
  shows "GetAdditiveTerms s = Returns [(s, - 1)]"
proof -
  have "take 1 s \<noteq> ''-''" using assms(1,2) by (cases s) auto
  then show ?thesis using single_terms [OF assms(1,3)] by (simp add: GetAdditiveTerms_def)
qed

lemma parse_multiplicative:
  assumes "shape a" "shape b" "i < 2" "parse_expression T enforce names a = Returns x" "parse_expression T enforce names b = Returns y"
  shows "parse_expression T enforce names (a @ multiplicative ! i @ b) = Returns (node2 ([Math_MULT, Math_DIV] ! i) x y)"
proof -
  have "GetTerms False multiplicative (a @ multiplicative ! i @ b) [] [] = Returns [(a, int i), (b, - 1)]"
    using assms(1-3) by (intro two_terms) (auto simp: shape_def starts_def less_Suc_eq numeral_2_eq_2 intro: symbolic_ops)
  then have terms: "GetMultiplicativeTerms (a @ multiplicative ! i @ b) = Returns [(a, int i), (b, - 1)]"
    by (simp add: GetMultiplicativeTerms_def)
  have "passed additive (multiplicative ! i) b"
    using assms(3) by (auto simp: less_Suc_eq numeral_2_eq_2 starts_def intro!: passed_char)
  then have "passed additive (a @ multiplicative ! i @ b) []"
    using assms(1,2) by (intro passed_append) (auto simp: shape_def)
  then have "GetAdditiveTerms (a @ multiplicative ! i @ b) = Returns [(a @ multiplicative ! i @ b, - 1)]"
    using assms(1) by (intro additive_single) (auto simp: shape_def)
  then show ?thesis
    using assms(3-5) terms by (subst parse_expression.simps) (auto simp: parse_step_def Let_def less_Suc_eq numeral_2_eq_2)
qed

lemma between_single:
  assumes "inner a" "inner b" "m \<in> set between_texts"
  shows "GetAdditiveTerms (grouped a @ m @ grouped b) = Returns [(grouped a @ m @ grouped b, - 1)]"
    "GetMultiplicativeTerms (grouped a @ m @ grouped b) = Returns [(grouped a @ m @ grouped b, - 1)]"
  using shape_between [OF assms] additive_single [of "grouped a @ m @ grouped b"]
  by (auto simp: shape_def GetMultiplicativeTerms_def intro: single_terms)

lemma between_terms:
  assumes "inner a" "inner b" "m \<in> set between_texts"
  shows "GetTerms abort [m] (grouped a @ m @ grouped b) [] [] = Returns [(grouped a, 0), (grouped b, - 1)]"
proof -
  have "symbolic [m]" using assms(3) by (auto simp: symbolic_def symbols_def between_texts_def)
  then show ?thesis
    using two_terms [of "[m]" "grouped a" 0 "grouped b" abort] assms grouped_passed by simp
qed

lemma parse_power:
  assumes "inner a" "inner b" "parse_expression T enforce names a = Returns x" "parse_expression T enforce names b = Returns y"
  shows "parse_expression T enforce names (grouped a @ ''^'' @ grouped b) = Returns (node2 Math_POW x y)"
proof -
  have "''^'' \<in> set between_texts" by (simp add: between_texts_def)
  note facts = between_single [OF assms(1,2) this] between_terms [OF assms(1,2) this]
  then show ?thesis
    using assms by (subst parse_expression.simps) (simp add: parse_step_def GetExponentTerms_def parse_pair_def parse_grouped)
qed

lemma operator_terms_at:
  "\<forall>p \<in> fst ` set pre. passed [p] s [] \<Longrightarrow> s \<noteq> [] \<Longrightarrow> GetTerms True [m] s [] [] = Returns [(a, i), (b, j)] \<Longrightarrow>
   operator_terms (pre @ (m, op) # post) s = Returns (Some (a, b, op))"
  by (induction pre) (auto simp: single_terms)

lemma exponent_single:
  assumes "inner a" "inner b" "m \<in> set between_texts" "apart m ''^''"
  shows "GetExponentTerms (grouped a @ m @ grouped b) = Returns [(grouped a @ m @ grouped b, - 1)]"
  using passed_comparison [OF assms(1,2) symbolic_ops assms(3), of "[''^'']"] assms(4)
  by (simp add: GetExponentTerms_def single_terms)

lemma parse_compared:
  assumes "inner a" "inner b" "m \<in> set between_texts" "parse_expression T enforce names a = Returns x"
    "parse_expression T enforce names b = Returns y"
    and table: "GetComparisonTerms = operator_terms (pre @ (m, cop) # post)" "list_all (\<lambda>p. apart m p \<and> symbolic [p]) (''^'' # map fst pre)"
    and op: "comparison_math cop = Returns op"
  shows "parse_expression T enforce names (grouped a @ m @ grouped b) = Returns (node2 op x y)"
proof -
  let ?s = "grouped a @ m @ grouped b"
  have "passed [p] ?s []" if "p \<in> fst ` set pre" for p
    using that table(2) assms(1-3) by (intro passed_comparison) (auto simp: list_all_iff)
  then have "GetComparisonTerms ?s = Returns (Some (grouped a, grouped b, cop))"
    unfolding table(1) using between_terms [OF assms(1-3), of True] by (intro operator_terms_at) auto
  moreover have "GetExponentTerms ?s = Returns [(?s, - 1)]"
    using table(2) assms(1-3) by (intro exponent_single) auto
  ultimately show ?thesis
    using assms(1,2,4,5) op
    by (subst parse_expression.simps)
      (simp add: parse_step_def between_single [OF assms(1-3)] parse_comparison_def parse_pair_def parse_grouped)
qed

lemma parse_float_eq:
  assumes "inner a" "inner b" "parse_expression T enforce names a = Returns x" "parse_expression T enforce names b = Returns y"
  shows "parse_expression T enforce names (grouped a @ ''~='' @ grouped b) = Returns (node2 Math_FLOAT_EQ x y)"
proof -
  let ?s = "grouped a @ ''~='' @ grouped b"
  have between: "''~='' \<in> set between_texts" by (simp add: between_texts_def)
  have apart: "list_all (\<lambda>p. apart ''~='' p \<and> symbolic [p]) [''^'', ''=='', ''!='', ''>='', ''<='', ''>'', ''<'']"
    by code_simp
  have "passed [p] ?s []" if "p \<in> set [''=='', ''!='', ''>='', ''<='', ''>'', ''<'']" for p
    using that apart assms(1,2) between by (intro passed_comparison) (auto simp: list_all_iff)
  then have "GetComparisonTerms ?s = Returns None"
    unfolding GetComparisonTerms_def by (intro operator_terms_none) simp_all
  moreover have "GetExponentTerms ?s = Returns [(?s, - 1)]"
    using apart assms(1,2) between by (intro exponent_single) auto
  ultimately show ?thesis
    using assms
    by (subst parse_expression.simps)
      (simp add: parse_step_def between_single [OF assms(1,2) between, simplified] between_terms [OF assms(1,2) between, simplified]
        parse_comparison_def parse_pair_def parse_grouped)
qed

lemma parse_comparisons:
  assumes "inner a" "inner b" "parse_expression T enforce names a = Returns x" "parse_expression T enforce names b = Returns y"
  shows
    "parse_expression T enforce names (grouped a @ ''=='' @ grouped b) = Returns (node2 Math_EQ x y)"
    "parse_expression T enforce names (grouped a @ ''>'' @ grouped b) = Returns (node2 Math_GT x y)"
    "parse_expression T enforce names (grouped a @ ''>='' @ grouped b) = Returns (node2 Math_GTE x y)"
    "parse_expression T enforce names (grouped a @ ''<'' @ grouped b) = Returns (node2 Math_LT x y)"
    "parse_expression T enforce names (grouped a @ ''<='' @ grouped b) = Returns (node2 Math_LTE x y)"
proof -
  note compared = parse_compared [OF assms(1,2) _ assms(3,4)]
  note eq = GetComparisonTerms_def
  let ?all = "[(''=='', COMP_EQ), (''!='', COMP_NEQ), (''>='', COMP_GTE), (''<='', COMP_LTE), (''>'', COMP_GT), (''<'', COMP_LT)]"
  show "parse_expression T enforce names (grouped a @ ''=='' @ grouped b) = Returns (node2 Math_EQ x y)"
    by (rule compared [where pre = "take 0 ?all" and post = "drop 1 ?all"]) (simp add: between_texts_def, simp add: eq, code_simp, simp add: comparison_math_def)
  show "parse_expression T enforce names (grouped a @ ''>'' @ grouped b) = Returns (node2 Math_GT x y)"
    by (rule compared [where pre = "take 4 ?all" and post = "drop 5 ?all"]) (simp add: between_texts_def, simp add: eq, code_simp, simp add: comparison_math_def)
  show "parse_expression T enforce names (grouped a @ ''>='' @ grouped b) = Returns (node2 Math_GTE x y)"
    by (rule compared [where pre = "take 2 ?all" and post = "drop 3 ?all"]) (simp add: between_texts_def, simp add: eq, code_simp, simp add: comparison_math_def)
  show "parse_expression T enforce names (grouped a @ ''<'' @ grouped b) = Returns (node2 Math_LT x y)"
    by (rule compared [where pre = "take 5 ?all" and post = "drop 6 ?all"]) (simp add: between_texts_def, simp add: eq, code_simp, simp add: comparison_math_def)
  show "parse_expression T enforce names (grouped a @ ''<='' @ grouped b) = Returns (node2 Math_LTE x y)"
    by (rule compared [where pre = "take 3 ?all" and post = "drop 4 ?all"]) (simp add: between_texts_def, simp add: eq, code_simp, simp add: comparison_math_def)
qed


definition compact :: "text_ops \<Rightarrow> Expression \<Rightarrow> string" where
  "compact T e = RemoveAllWhitespace (GetExpressionString T e)"

lemma word_text_compact: "word_text s \<Longrightarrow> RemoveAllWhitespace s = s"
  by (simp add: RemoveAllWhitespace_def word_text_def)

lemmas node_defs = node1_def node2_def

lemma compact_binary:
  "compact T (node2 Math_ADD a b) = grouped (compact T a @ ''+'' @ compact T b)"
  "compact T (node2 Math_SUB a b) = grouped (compact T a @ ''-'' @ compact T b)"
  "compact T (node2 Math_MULT a b) = grouped (compact T a @ ''*'' @ compact T b)"
  "compact T (node2 Math_DIV a b) = grouped (compact T a @ ''/'' @ compact T b)"
  "compact T (node2 Math_POW a b) = grouped (compact T a) @ ''^'' @ grouped (compact T b)"
  "compact T (node2 Math_EQ a b) = grouped (compact T a) @ ''=='' @ grouped (compact T b)"
  "compact T (node2 Math_FLOAT_EQ a b) = grouped (compact T a) @ ''~='' @ grouped (compact T b)"
  "compact T (node2 Math_GT a b) = grouped (compact T a) @ ''>'' @ grouped (compact T b)"
  "compact T (node2 Math_GTE a b) = grouped (compact T a) @ ''>='' @ grouped (compact T b)"
  "compact T (node2 Math_LT a b) = grouped (compact T a) @ ''<'' @ grouped (compact T b)"
  "compact T (node2 Math_LTE a b) = grouped (compact T a) @ ''<='' @ grouped (compact T b)"
  by (simp_all add: compact_def node2_def binary_text_def RemoveAllWhitespace_def isspace_def grouped_def)

lemma compact_unary:
  "(fn, op) \<in> set function_texts \<Longrightarrow> compact T (node1 op a) = fn @ grouped (compact T a)"
  "compact T (node1 Math_FACTORIAL a) = grouped (compact T a) @ ''!''"
  by (auto simp: compact_def node1_def binary_text_def unary_text_def RemoveAllWhitespace_def isspace_def grouped_def
      function_texts_def)

definition reads_back :: "text_ops \<Rightarrow> bool \<Rightarrow> string list \<Rightarrow> Expression \<Rightarrow> bool" where
  "reads_back T enforce names e \<longleftrightarrow> shape (compact T e) \<and> parse_expression T enforce names (compact T e) = Returns e"

lemma shape_inner: "shape s \<Longrightarrow> inner s"
  by (simp add: shape_def)

lemma inner_arithmetic: "shape a \<Longrightarrow> shape b \<Longrightarrow> c \<in> set ''+-*/'' \<Longrightarrow> inner (a @ [c] @ b)"
  using inner_between [of a b c] by (auto simp: shape_inner symbols_def)

lemma parse_arithmetic:
  assumes "shape a" "shape b" "parse_expression T enforce names a = Returns x" "parse_expression T enforce names b = Returns y"
  shows
    "parse_expression T enforce names (grouped (a @ ''+'' @ b)) = Returns (node2 Math_ADD x y)"
    "parse_expression T enforce names (grouped (a @ ''-'' @ b)) = Returns (node2 Math_SUB x y)"
    "parse_expression T enforce names (grouped (a @ ''*'' @ b)) = Returns (node2 Math_MULT x y)"
    "parse_expression T enforce names (grouped (a @ ''/'' @ b)) = Returns (node2 Math_DIV x y)"
  using parse_additive [OF assms(1,2) _ assms(3,4), of 0] parse_additive [OF assms(1,2) _ assms(3,4), of 1]
    parse_multiplicative [OF assms(1,2) _ assms(3,4), of 0] parse_multiplicative [OF assms(1,2) _ assms(3,4), of 1]
    inner_arithmetic [OF assms(1,2)]
  by (simp_all add: parse_grouped)

lemma shape_arithmetic:
  assumes "shape a" "shape b" "m \<in> {''+'', ''-'', ''*'', ''/''}"
  shows "shape (grouped (a @ m @ b))"
proof -
  obtain c where "m = [c]" "c \<in> set ''+-*/''" using assms(3) by auto
  then show ?thesis using shape_grouped [OF inner_arithmetic [OF assms(1,2)]] by simp
qed

lemma binary_back:
  assumes "reads_back T enforce names a" "reads_back T enforce names b"
    "op \<in> {Math_ADD, Math_SUB, Math_MULT, Math_DIV, Math_POW, Math_EQ, Math_FLOAT_EQ, Math_GT, Math_GTE, Math_LT, Math_LTE}"
  shows "reads_back T enforce names (node2 op a b)"
proof -
  have a: "shape (compact T a)" "parse_expression T enforce names (compact T a) = Returns a"
    and b: "shape (compact T b)" "parse_expression T enforce names (compact T b) = Returns b"
    using assms(1,2) by (simp_all add: reads_back_def)
  note inner = shape_inner [OF a(1)] shape_inner [OF b(1)]
  have shapes: "shape (grouped (compact T a @ m @ compact T b))" if "m \<in> {''+'', ''-'', ''*'', ''/''}" for m
    by (rule shape_arithmetic [OF a(1) b(1) that])
  have between: "shape (grouped (compact T a) @ m @ grouped (compact T b))" if "m \<in> set between_texts" for m
    by (rule shape_between [OF inner that])
  show ?thesis
    using assms(3) unfolding reads_back_def
    by (elim insertE emptyE; hypsubst; unfold compact_binary;
      intro conjI shapes between parse_arithmetic [OF a(1) b(1) a(2) b(2)] parse_power [OF inner a(2) b(2)]
        parse_float_eq [OF inner a(2) b(2)] parse_comparisons [OF inner a(2) b(2)]; simp add: between_texts_def)
qed

lemma function_known: "op \<in> {Math_GAMMA_FN, Math_PHI_FN, Math_EXP, Math_LOG, Math_SIN, Math_COS, Math_TAN, Math_INDICATOR} \<Longrightarrow>
  op \<in> snd ` set function_texts"
  by (simp add: function_texts_def)

lemma unary_back:
  assumes "reads_back T enforce names a"
    "op \<in> {Math_GAMMA_FN, Math_PHI_FN, Math_EXP, Math_FACTORIAL, Math_LOG, Math_SIN, Math_COS, Math_TAN, Math_INDICATOR}"
  shows "reads_back T enforce names (node1 op a)"
proof (cases "op = Math_FACTORIAL")
  case True
  then show ?thesis
    using assms(1) by (simp add: reads_back_def compact_unary(2) shape_factorial [simplified] parse_factorial_text [simplified] shape_inner)
next
  case False
  then have "op \<in> snd ` set function_texts" using assms(2) by (intro function_known) blast
  then obtain fn where fn: "(fn, op) \<in> set function_texts" by force
  have a: "shape (compact T a)" "parse_expression T enforce names (compact T a) = Returns a"
    using assms(1) by (simp_all add: reads_back_def)
  show ?thesis
    unfolding reads_back_def compact_unary(1) [OF fn]
    by (intro conjI shape_function parse_function [OF fn] function_words(1) [OF fn] shape_inner a)
qed

text \<open>The functions of two arguments.\<close>

definition gamma_texts :: "(string \<times> MathOperation) list" where
  "gamma_texts = [(''IncGamma'', Math_INC_GAMMA_FN), (''RegIncGamma'', Math_REG_INC_GAMMA_FN)]"

lemma gamma_words:
  "(fn, op) \<in> set gamma_texts \<Longrightarrow> word_text fn"
  "(fn, op) \<in> set gamma_texts \<Longrightarrow> function_of unary_functions (fn @ ''('' @ s) = None"
  "(fn, op) \<in> set gamma_texts \<Longrightarrow> function_of binary_functions (fn @ ''('' @ s) = Some (fn @ ''('', op)"
  by (auto simp: gamma_texts_def word_text_def plain_name_def symbols_def IsStringDigit_def isspace_def)
    (simp_all add: function_of_def unary_functions_def binary_functions_def HasPrefixString_iff starts_def)

lemma compact_gamma: "(fn, op) \<in> set gamma_texts \<Longrightarrow> compact T (node2 op a b) = fn @ grouped (compact T a @ '','' @ compact T b)"
  by (auto simp: compact_def node2_def binary_text_def RemoveAllWhitespace_def isspace_def grouped_def gamma_texts_def)

lemma first_in_char: "first_in [c] (s @ t) = (if c \<in> set s then first_in [c] s else map_option ((+) (length s)) (first_in [c] t))"
proof (induction s)
  case (Cons a s)
  then show ?case
  proof (cases "a = c")
    case True
    then show ?thesis using first_in_starts [of "[c]" "a # s @ t"] first_in_starts [of "[c]" "a # s"] by (simp add: starts_def)
  next
    case False
    then have "\<not> starts [c] (a # s @ t)" "\<not> starts [c] (a # s)" by (simp_all add: starts_def)
    then show ?thesis using Cons False by (auto simp: first_in_step option.map_comp comp_def)
  qed
qed (cases "first_in [c] t"; simp)

lemma comma_after_word: "plain_name s \<Longrightarrow> GetCommaTerms (s @ '','' @ t) [] [] = Returns (s, t)"
proof -
  assume "plain_name s"
  then have "CHR '','' \<notin> set s" "CHR ''('' \<notin> set s" by (auto simp: plain_name_def symbols_def)
  moreover have "first_in '','' ('','' @ t) = Some 0" by (rule first_in_starts) (simp add: starts_def)
  ultimately show ?thesis by (subst GetCommaTerms.simps) (auto simp: first_in_char split: option.splits)
qed

lemma parse_gamma:
  assumes "(fn, op) \<in> set gamma_texts" "word_text s" "inner t" "parse_expression T enforce names s = Returns x"
    "parse_expression T enforce names t = Returns y"
  shows "parse_expression T enforce names (fn @ grouped (s @ '','' @ t)) = Returns (node2 op x y)"
    and "shape (fn @ grouped (s @ '','' @ t))"
proof -
  let ?u = "s @ '','' @ t"
  have s: "plain_name s" using assms(2) by (simp add: word_text_def)
  have u: "inner ?u"
    using inner_between [of s t "CHR '',''"] shape_inner [OF shape_word [OF assms(2)]] assms(3) by (simp add: symbols_def)
  show shape: "shape (fn @ grouped ?u)"
    by (rule shape_function [OF gamma_words(1) [OF assms(1)] u])
  then have "whole (fn @ grouped ?u)"
    using passed_function [OF gamma_words(1) [OF assms(1)] u symbolic_ops] by (simp add: whole_def shape_def)
  moreover have "argument (fn @ ''('') (fn @ grouped ?u) = ?u"
    by (simp add: argument_def substr_def grouped_def)
  moreover have "StripExtraneousParentheses ?u = ?u"
  proof -
    have "s \<noteq> []" "hd s \<noteq> CHR ''(''" using s by (cases s; simp add: plain_name_def symbols_def)+
    then have "\<not> HasPrefixString ?u ''(''" by (cases s) (simp_all add: HasPrefixString_iff starts_def)
    then show ?thesis by (subst StripExtraneousParentheses.simps) simp
  qed
  ultimately show "parse_expression T enforce names (fn @ grouped ?u) = Returns (node2 op x y)"
    using assms(4,5) gamma_words(2,3) [OF assms(1), of "?u @ '')''"] comma_after_word [OF s, of t]
    by (simp add: parse_whole parse_term_def HasSuffixString_last grouped_def parse_binary_function_def parse_pair_def)
qed

lemma parse_constant:
  assumes "word_text s" "\<forall>n \<in> set names. first_in n s = None" "Stod T s = Returns x"
  shows "parse_expression T enforce names s = Returns (constant_expr x)"
proof -
  have "s \<notin> set names" using assms(2) first_in_starts [of s s] by (auto simp: starts_def)
  moreover have "parse_coefficient f T ns s = None" if "\<forall>n \<in> set ns. first_in n s = None" for f ns
    using that by (induction ns) auto
  ultimately have "parse_leaf f T enforce names s = Returns (constant_expr x)" for f
    using assms(2,3) by (simp add: parse_leaf_def)
  then show ?thesis
    using assms(1) by (simp add: parse_whole plain_whole word_text_def parse_plain_term)
qed


lemma readable_word:
  assumes "readable T names e" "e_op e = Math_IDENTITY"
  shows "word_text (compact T e)" "parse_expression T enforce names (compact T e) = Returns e"
proof -
  obtain name x c where e: "e = Expression Math_IDENTITY name x c None None" using assms by (cases e) auto
  show "word_text (compact T e)" "parse_expression T enforce names (compact T e) = Returns e"
    using assms(1) unfolding e
    by (cases c; simp add: compact_def word_text_compact parse_constant constant_expr_def parse_name word_text_def
        variable_expr_def)+
qed

lemma readable_back: "readable T names e \<Longrightarrow> reads_back T enforce names e"
proof (induction e)
  case (Expression op name x c one two)
  show ?case
  proof (cases "op = Math_IDENTITY")
    case True
    then show ?thesis using readable_word [OF Expression.prems] by (simp add: reads_back_def shape_word)
  next
    case False
    then have plain: "name = []" "x = 0" "\<not> c" using Expression.prems by simp_all
    consider a b where "one = Some a" "two = Some b" "readable T names a" "readable T names b"
        "op \<in> {Math_ADD, Math_SUB, Math_MULT, Math_DIV, Math_POW, Math_EQ, Math_FLOAT_EQ, Math_GT, Math_GTE, Math_LT, Math_LTE}"
      | a b where "one = Some a" "two = Some b" "readable T names a" "readable T names b" "e_op a = Math_IDENTITY"
        "op \<in> {Math_INC_GAMMA_FN, Math_REG_INC_GAMMA_FN}"
      | a where "one = Some a" "two = None" "readable T names a"
        "op \<in> {Math_GAMMA_FN, Math_PHI_FN, Math_EXP, Math_FACTORIAL, Math_LOG, Math_SIN, Math_COS, Math_TAN, Math_INDICATOR}"
      using Expression.prems False by (auto split: option.splits if_splits)
    then show ?thesis
    proof cases
      case (1 a b)
      then have "reads_back T enforce names (node2 op a b)"
        using Expression.IH by (intro binary_back) auto
      then show ?thesis using 1 plain by (simp add: node2_def)
    next
      case (2 a b)
      then obtain fn where fn: "(fn, op) \<in> set gamma_texts" by (auto simp: gamma_texts_def)
      have "reads_back T enforce names b" using Expression.IH 2 by auto
      then have "reads_back T enforce names (node2 op a b)"
        using parse_gamma [OF fn readable_word(1) [OF 2(3,5)] _ readable_word(2) [OF 2(3,5), of enforce]]
        by (simp add: reads_back_def compact_gamma [OF fn] shape_inner)
      then show ?thesis using 2 plain by (simp add: node2_def)
    next
      case (3 a)
      then have "reads_back T enforce names (node1 op a)"
        using Expression.IH by (intro unary_back) auto
      then show ?thesis using 3 plain by (simp add: node1_def)
    qed
  qed
qed

text \<open>C34: An expression is read back from what it is printed as when it consists of variables of the set, of constants
  whose text is a word (so not negative) without a variable in it that is converted to the constant, of sums, differences,
  products, quotients, powers, comparisons and factorials, of the functions the printer writes with one argument, except for the
  absolute value, and of incomplete gamma functions whose first argument is a variable or a constant. The remaining
  printed expressions, which are moduli, absolute values, negative constants and gamma functions of two operations, are not
  read back (\<open>modulus_not_read\<close>, \<open>absolute_not_read\<close>, \<open>negative_constant_changed\<close>, \<open>two_groups_stripped\<close>).\<close>

theorem expressions_read_back:
  assumes "readable T names e"
  shows "ParseExpression T True (GetExpressionString T e) enforce names = Returns e"
  using readable_back [OF assms, of enforce]
  by (simp add: ParseExpression_def reads_back_def shape_def inner_def compact_def RemoveScientificNotation_unscientific)

text \<open>A conversion of doubles that prints and reads the number two.\<close>

definition two_text :: text_ops where
  "two_text = \<lparr>t_strtod = (\<lambda>s. (if s = ''2'' then Some 2 else None, 1)), t_rd = id, t_show = (\<lambda>_ _. ''2'')\<rparr>"

theorem expressions_read_back_witness:
  "ParseExpression two_text True ''(x1 + exp((a)>=(IncGamma(2, (x1 / b)))))'' True [''a'', ''b'', ''x1''] =
    Returns (node2 Math_ADD (variable_expr ''x1'')
      (node1 Math_EXP (node2 Math_GTE (variable_expr ''a'')
        (node2 Math_INC_GAMMA_FN (constant_expr 2) (node2 Math_DIV (variable_expr ''x1'') (variable_expr ''b''))))))"
proof -
  let ?e = "node2 Math_ADD (variable_expr ''x1'')
      (node1 Math_EXP (node2 Math_GTE (variable_expr ''a'')
        (node2 Math_INC_GAMMA_FN (constant_expr 2) (node2 Math_DIV (variable_expr ''x1'') (variable_expr ''b'')))))"
  have "Stod two_text ''2'' = Returns 2" by code_simp
  moreover have "list_all (\<lambda>n. first_in n ''2'' = None) [''a'', ''b'', ''x1'']" by code_simp
  ultimately have "readable two_text [''a'', ''b'', ''x1''] ?e"
    by (simp add: node1_def node2_def variable_expr_def constant_expr_def word_text_def plain_name_def symbols_def isspace_def
        two_text_def)
  then have "ParseExpression two_text True (GetExpressionString two_text ?e) True [''a'', ''b'', ''x1''] = Returns ?e"
    by (rule expressions_read_back)
  then show ?thesis
    by (simp add: node1_def node2_def variable_expr_def constant_expr_def binary_text_def unary_text_def two_text_def)
qed

text \<open>Two parenthesised arguments lose their outer parentheses, so that such a call is not read.\<close>

lemma two_groups_stripped: "StripExtraneousParentheses ''(x+y),(z+w)'' = ''x+y),(z+w''"
  by (simp add: StripExtraneousParentheses.simps HasPrefixString_iff starts_def HasSuffixString_last substr_def)

text \<open>A modulus and an absolute value are printed in a way that is refused, and a negative constant is read as a product.\<close>

lemma passed_all: "s \<noteq> [] \<Longrightarrow> \<forall>p \<in> set ops. first_in p s = None \<Longrightarrow> passed ops s []"
  using earliest_None [of 0 ops s None] by (simp add: passed_def GetTerms_none) (simp add: GetTerms.simps)

lemma whole_without_operators:
  assumes "s \<noteq> []" "hd s \<noteq> CHR ''-''"
    "list_all (\<lambda>p. first_in p s = None) [''+'', ''-'', ''*'', ''/'', ''^'', ''=='', ''!='', ''>='', ''<='', ''>'', ''<'', ''~='']"
  shows "whole s"
  using assms unfolding whole_def by (auto intro!: passed_all)

lemma modulus_not_read: "parse_expression T True [''x'', ''y''] ''(x)%(y)'' = Rejected"
proof -
  have outer: "list_all (\<lambda>p. first_in p ''(x)%(y)'' = None)
      [''+'', ''-'', ''*'', ''/'', ''^'', ''=='', ''!='', ''>='', ''<='', ''>'', ''<'', ''~='']" by code_simp
  have inner: "list_all (\<lambda>p. first_in p ''x)%(y'' = None)
      [''+'', ''-'', ''*'', ''/'', ''^'', ''=='', ''!='', ''>='', ''<='', ''>'', ''<'', ''~='']" by code_simp
  have "first_in ''x'' ''x)%(y'' = Some 0" by code_simp
  then have "parse_expression T True [''x'', ''y''] ''x)%(y'' = Rejected"
    by (simp add: parse_whole whole_without_operators [OF _ _ inner] parse_term_def function_of_def unary_functions_def
        binary_functions_def HasPrefixString_iff starts_def HasSuffixString_last parse_leaf_def)
  then show ?thesis
    by (simp add: parse_whole whole_without_operators [OF _ _ outer] parse_term_def function_of_def unary_functions_def
        binary_functions_def HasPrefixString_iff starts_def HasSuffixString_last substr_def)
qed

lemma absolute_not_read: "parse_expression T True [''x''] ''|x|'' = Rejected"
proof -
  have none: "list_all (\<lambda>p. first_in p ''|x|'' = None)
      [''+'', ''-'', ''*'', ''/'', ''^'', ''=='', ''!='', ''>='', ''<='', ''>'', ''<'', ''~='']" by code_simp
  have "first_in ''x'' ''|x|'' = Some 1" "Stod T ''|'' = Rejected" by code_simp+
  then show ?thesis
    by (simp add: parse_whole whole_without_operators [OF _ _ none] parse_term_def function_of_def unary_functions_def
        binary_functions_def HasPrefixString_iff starts_def HasSuffixString_last parse_leaf_def)
qed

lemma negative_constant_changed:
  assumes "word_text s" "Stod T s = Returns x"
  shows "parse_expression T enforce [] (CHR ''-'' # s) = Returns (node2 Math_MULT (constant_expr (- 1)) (constant_expr x))"
proof -
  let ?m = "CHR ''-'' # s"
  have s: "plain_name s" using assms(1) by (simp add: word_text_def)
  have passed: "passed ops ?m []" if "symbolic ops" "\<forall>p \<in> set ops. hd p \<noteq> CHR ''-''" for ops
  proof -
    have "p \<noteq> [] \<and> \<not> starts p ?m" if "p \<in> set ops" for p
      using \<open>symbolic ops\<close> \<open>\<forall>p \<in> set ops. hd p \<noteq> CHR ''-''\<close> that by (cases p) (auto simp: symbolic_def starts_def)
    then have "passed ops ''-'' (s @ [])" by (intro passed_char) auto
    from passed_append [OF this plain_passed [OF s that(1)]] show ?thesis by simp
  qed
  have terms: "GetTerms abort ops ?m [] [] = Returns [(?m, - 1)]" if "ops \<in> {[''*'', ''/''], [''^''], [''~='']}" for abort ops
    using that by (intro single_terms passed symbolic_ops) auto
  have added: "GetAdditiveTerms ?m = Returns [(?m, - 1)]"
    using passed_end [OF plain_passed [OF s symbolic_ops], of additive False "''-''" "[]"] by (simp add: GetAdditiveTerms_def)
  have "GetComparisonTerms ?m = Returns None"
    unfolding GetComparisonTerms_def by (intro operator_terms_none ballI passed) (auto simp: symbolic_def symbols_def)
  moreover have "function_of unary_functions ?m = None" "function_of binary_functions ?m = None"
    by (simp_all add: function_of_def unary_functions_def binary_functions_def HasPrefixString_iff starts_def)
  moreover have "last ?m \<noteq> CHR ''!''" using s by (auto simp: plain_name_def symbols_def)
  moreover have "parse_expression T enforce [] s = Returns (constant_expr x)" by (rule parse_constant) (use assms in auto)
  ultimately show ?thesis
    unfolding parse_expression.simps [of T enforce "[]" ?m] parse_step_def parse_comparison_def GetMultiplicativeTerms_def
      GetExponentTerms_def added
    by (simp add: terms parse_term_def HasSuffixString_last HasPrefixString_iff) (simp add: starts_def)
qed

text \<open>A root is not printed.\<close>

lemma root_unprinted: "GetExpressionString T (node1 Math_SQRT e) = ''ERROR: Unsupported operation: 5''"
proof -
  have "Itoa 5 = ''5''" by code_simp
  then show ?thesis by (simp add: node1_def binary_text_def unary_text_def math_code_def)
qed

end
