(* ===== verification/Char_Casting.thy ===== *)
theory Char_Casting
  imports Value_Arithmetic Value_Text
begin

text \<open>
  Numbers as bytes and back, of \<open>Util/char_casting_utils.h\<close> and \<open>.cpp\<close>: as big-endian byte strings, and as the bytes of
  memory, whose order is the parameter \<open>big\<close>. The functions on \<open>vector<char>\<close> have names with \<open>chars\<close>. A call of
  \<open>log_fatal\<close> and a read after the end of a buffer are \<open>Fails\<close>; indices are below \<open>2^64\<close>. A double is its 64 bits.
\<close>

subsection \<open>Byte strings\<close>

definition value_size :: "'a::len itself \<Rightarrow> nat" where
  "value_size t = LENGTH('a) div 8"

definition big_endian :: "u8 list \<Rightarrow> 'a::len word" where
  "big_endian bs = (\<Sum>i\<leftarrow>[0..<length bs]. push_bit ((length bs - 1 - i) * 8) (ucast (bs ! i)))"

definition ByteStringToValue_from :: "nat \<Rightarrow> u8 list \<Rightarrow> 'a::len word outcome" where
  "ByteStringToValue_from start buffer = ByteStringToValue start (start + value_size TYPE('a)) buffer"

definition ByteStringToValue_all :: "u8 list \<Rightarrow> 'a::len word outcome" where
  "ByteStringToValue_all buffer = ByteStringToValue_from 0 buffer"

definition ByteStringToValue_array :: "nat \<Rightarrow> u8 list \<Rightarrow> 'a::len word outcome" where
  "ByteStringToValue_array num_bytes buffer =
     (if value_size TYPE('a) < num_bytes \<or> length buffer < num_bytes then Fails
      else Returns (big_endian (take num_bytes buffer)))"

text \<open>The elements of a range of a buffer, of \<open>n\<close> bytes each.\<close>

definition elements :: "nat \<Rightarrow> nat \<Rightarrow> nat \<Rightarrow> u8 list \<Rightarrow> u8 list list outcome" where
  "elements n start stop buffer =
     (if stop \<le> start \<or> (stop - start) mod n \<noteq> 0 then Fails
      else if length buffer < stop then Fails
      else Returns (map (\<lambda>i. take n (drop (start + n * i) buffer)) [0..<(stop - start) div n]))"

definition ByteStringToValueVector :: "nat \<Rightarrow> nat \<Rightarrow> u8 list \<Rightarrow> 'a::len word list outcome" where
  "ByteStringToValueVector start stop buffer =
     mapped (map big_endian) (elements (value_size TYPE('a)) start stop buffer)"

definition ByteStringToValueVector_from :: "nat \<Rightarrow> u8 list \<Rightarrow> 'a::len word list outcome" where
  "ByteStringToValueVector_from start buffer = ByteStringToValueVector start (length buffer) buffer"

definition ByteStringToValueVector_all :: "u8 list \<Rightarrow> 'a::len word list outcome" where
  "ByteStringToValueVector_all buffer = ByteStringToValueVector 0 (length buffer) buffer"

text \<open>Bytes are appended, or written over the first ones.\<close>

definition put_bytes :: "bool \<Rightarrow> u8 list \<Rightarrow> u8 list \<Rightarrow> u8 list" where
  "put_bytes app bs buffer = (if app then buffer @ bs else bs @ drop (length bs) buffer)"

definition ValueToByteString_at :: "bool \<Rightarrow> 'a::len word \<Rightarrow> u8 list \<Rightarrow> u8 list" where
  "ValueToByteString_at app w buffer = put_bytes app (ValueToByteString w []) buffer"

definition ValueToByteString_array :: "'a::len word \<Rightarrow> u8 list" where
  "ValueToByteString_array w = ValueToByteString w []"

definition ValueVectorToByteString :: "'a::len word list \<Rightarrow> u8 list \<Rightarrow> u8 list" where
  "ValueVectorToByteString ws buffer = buffer @ concat (map (\<lambda>w. ValueToByteString w []) ws)"

subsection \<open>Bytes of memory\<close>

definition in_memory :: "bool \<Rightarrow> 'a::len word \<Rightarrow> u8 list" where
  "in_memory big w = (if big then ValueToByteString w [] else rev (ValueToByteString w []))"

definition of_memory :: "bool \<Rightarrow> u8 list \<Rightarrow> 'a::len word" where
  "of_memory big bs = big_endian (if big then bs else rev bs)"

text \<open>Bytes that are missing count as zeros.\<close>

definition CharVectorToValue :: "bool \<Rightarrow> nat \<Rightarrow> nat \<Rightarrow> u8 list \<Rightarrow> 'a::len word outcome" where
  "CharVectorToValue big start stop buffer =
     (if length buffer \<le> start then Fails
      else if stop \<le> start \<or> stop \<noteq> start + value_size TYPE('a) then Fails
      else if stop \<le> length buffer then Returns (of_memory big (take (value_size TYPE('a)) (drop start buffer)))
      else Returns (of_memory big (drop start buffer)))"

definition CharVectorToValue_from :: "bool \<Rightarrow> nat \<Rightarrow> u8 list \<Rightarrow> 'a::len word outcome" where
  "CharVectorToValue_from big start buffer = CharVectorToValue big start (start + value_size TYPE('a)) buffer"

definition CharVectorToValue_all :: "bool \<Rightarrow> u8 list \<Rightarrow> 'a::len word outcome" where
  "CharVectorToValue_all big buffer = CharVectorToValue_from big 0 buffer"

definition CharVectorToValue_array :: "bool \<Rightarrow> nat \<Rightarrow> u8 list \<Rightarrow> 'a::len word outcome" where
  "CharVectorToValue_array big num_bytes buffer =
     (if value_size TYPE('a) < num_bytes \<or> length buffer < num_bytes then Fails
      else Returns (of_memory big (take num_bytes buffer)))"

text \<open>The loop copies the first element every time and adds the index to it. What is checked is the range, and what
  is read are the bytes of the first element.\<close>

definition CharVectorToValueVector :: "bool \<Rightarrow> nat \<Rightarrow> nat \<Rightarrow> u8 list \<Rightarrow> 'a::len word list outcome" where
  "CharVectorToValueVector big start stop buffer =
     (let n = value_size TYPE('a)
      in if stop \<le> start \<or> (stop - start) mod n \<noteq> 0 then Fails
         else if length buffer < start + n then Fails
         else Returns (map (\<lambda>i. of_memory big (take n (drop start buffer)) + of_nat i) [0..<(stop - start) div n]))"

definition CharVectorToValueVector_from :: "bool \<Rightarrow> nat \<Rightarrow> u8 list \<Rightarrow> 'a::len word list outcome" where
  "CharVectorToValueVector_from big start buffer = CharVectorToValueVector big start (length buffer) buffer"

definition CharVectorToValueVector_all :: "bool \<Rightarrow> u8 list \<Rightarrow> 'a::len word list outcome" where
  "CharVectorToValueVector_all big buffer = CharVectorToValueVector big 0 (length buffer) buffer"

definition ValueToCharVector_at :: "bool \<Rightarrow> bool \<Rightarrow> 'a::len word \<Rightarrow> u8 list \<Rightarrow> u8 list" where
  "ValueToCharVector_at big app w buffer = put_bytes app (in_memory big w) buffer"

definition ValueToCharVector :: "bool \<Rightarrow> 'a::len word \<Rightarrow> u8 list \<Rightarrow> u8 list" where
  "ValueToCharVector big w buffer = ValueToCharVector_at big True w buffer"

definition ValueToCharVector_array :: "bool \<Rightarrow> 'a::len word \<Rightarrow> u8 list" where
  "ValueToCharVector_array big w = in_memory big w"

definition ValueVectorToCharVector :: "bool \<Rightarrow> 'a::len word list \<Rightarrow> u8 list \<Rightarrow> u8 list" where
  "ValueVectorToCharVector big ws buffer = buffer @ concat (map (in_memory big) ws)"

text \<open>The functions on \<open>vector<char>\<close> do not look at the end of the range of a single value.\<close>

definition chars_to_value :: "bool \<Rightarrow> nat \<Rightarrow> nat \<Rightarrow> u8 list \<Rightarrow> 'a::len word outcome" where
  "chars_to_value big start stop buffer =
     (let n = value_size TYPE('a)
      in if length buffer < start + n then Fails else Returns (of_memory big (take n (drop start buffer))))"

definition chars_to_value_from :: "bool \<Rightarrow> nat \<Rightarrow> u8 list \<Rightarrow> 'a::len word outcome" where
  "chars_to_value_from big start buffer = chars_to_value big start (start + value_size TYPE('a)) buffer"

definition chars_to_value_all :: "bool \<Rightarrow> u8 list \<Rightarrow> 'a::len word outcome" where
  "chars_to_value_all big buffer = chars_to_value_from big 0 buffer"

definition chars_to_vector :: "bool \<Rightarrow> nat \<Rightarrow> nat \<Rightarrow> u8 list \<Rightarrow> 'a::len word list outcome" where
  "chars_to_vector big start stop buffer =
     mapped (map (of_memory big)) (elements (value_size TYPE('a)) start stop buffer)"

definition chars_to_vector_from :: "bool \<Rightarrow> nat \<Rightarrow> u8 list \<Rightarrow> 'a::len word list outcome" where
  "chars_to_vector_from big start buffer = chars_to_vector big start (length buffer) buffer"

definition chars_to_vector_all :: "bool \<Rightarrow> u8 list \<Rightarrow> 'a::len word list outcome" where
  "chars_to_vector_all big buffer = chars_to_vector big 0 (length buffer) buffer"

definition value_to_chars :: "bool \<Rightarrow> 'a::len word \<Rightarrow> u8 list \<Rightarrow> u8 list" where
  "value_to_chars big w buffer = buffer @ in_memory big w"

definition vector_to_chars :: "bool \<Rightarrow> 'a::len word list \<Rightarrow> u8 list \<Rightarrow> u8 list" where
  "vector_to_chars big ws buffer = buffer @ concat (map (in_memory big) ws)"

subsection \<open>Truth values\<close>

definition CharVectorToBool :: "u8 list \<Rightarrow> bool outcome" where
  "CharVectorToBool buffer = (if length buffer \<noteq> 1 then Fails else Returns (buffer ! 0 \<noteq> 0))"

definition CharVectorToBoolVector :: "u8 list \<Rightarrow> bool list" where
  "CharVectorToBoolVector buffer = concat (map (\<lambda>b. map (\<lambda>j. bit b (7 - j)) [0..<8]) buffer)"

definition BoolToCharVector :: "bool \<Rightarrow> u8 list \<Rightarrow> u8 list" where
  "BoolToCharVector b buffer = buffer @ [if b then 1 else 0]"

definition packed_byte :: "bool list \<Rightarrow> u8" where
  "packed_byte bs =
     fold (\<lambda>i w. if bs ! i then w OR push_bit (length bs - 1 - i) 1 else w) [0..<length bs] 0"

definition BoolVectorToCharVector :: "bool list \<Rightarrow> u8 list \<Rightarrow> u8 list" where
  "BoolVectorToCharVector input buffer =
     (let partial = length input mod 8; full = length input div 8
      in buffer @ (if 0 < partial then [packed_byte (take partial input)] else [])
           @ map (\<lambda>i. packed_byte (take 8 (drop (partial + 8 * i) input))) [0..<full])"

subsection \<open>Pairs of slices\<close>

text \<open>The first slice is read up to the size of a slice, not that many bytes after its start.\<close>

definition CharVectorToSlicePair :: "bool \<Rightarrow> nat \<Rightarrow> nat \<Rightarrow> u8 list \<Rightarrow> (u64 \<times> u64) outcome" where
  "CharVectorToSlicePair big start stop buffer =
     (if length buffer \<le> start then Fails
      else if stop \<le> start \<or> stop \<noteq> start + 8 * 2 then Fails
      else and_then (CharVectorToValue big start 8 buffer) (\<lambda>a.
        and_then (CharVectorToValue big (start + 8) stop buffer) (\<lambda>b. Returns (a, b))))"

definition chars_to_slice_pair :: "bool \<Rightarrow> nat \<Rightarrow> nat \<Rightarrow> u8 list \<Rightarrow> (u64 \<times> u64) outcome" where
  "chars_to_slice_pair big start stop buffer =
     (if length buffer \<le> start then Fails
      else if stop \<le> start \<or> stop \<noteq> start + 8 * 2 then Fails
      else and_then (chars_to_value big start 8 buffer) (\<lambda>a.
        and_then (chars_to_value big (start + 8) stop buffer) (\<lambda>b. Returns (a, b))))"

text \<open>The loops over pairs, and over pairs of pairs, where \<open>cast\<close> reads one slice.\<close>

definition slice_pairs :: "(nat \<Rightarrow> nat \<Rightarrow> u64 outcome) \<Rightarrow> nat \<Rightarrow> nat \<Rightarrow> (u64 \<times> u64) list outcome" where
  "slice_pairs cast start stop =
     (let n = (stop - start) div (2 * 8)
      in if stop \<le> start \<or> stop \<noteq> start + n * 2 * 8 then Fails
         else each (\<lambda>i.
           and_then (cast (start + i * 2 * 8) (start + (i * 2 + 1) * 8)) (\<lambda>a.
             and_then (cast (start + (i * 2 + 1) * 8) (start + (i + 1) * 2 * 8)) (\<lambda>b. Returns (a, b)))) [0..<n])"

definition CharVectorToSlicePairVector :: "bool \<Rightarrow> nat \<Rightarrow> nat \<Rightarrow> u8 list \<Rightarrow> (u64 \<times> u64) list outcome" where
  "CharVectorToSlicePairVector big start stop buffer =
     slice_pairs (\<lambda>i j. CharVectorToValue big i j buffer) start stop"

definition chars_to_slice_pairs :: "bool \<Rightarrow> nat \<Rightarrow> nat \<Rightarrow> u8 list \<Rightarrow> (u64 \<times> u64) list outcome" where
  "chars_to_slice_pairs big start stop buffer =
     (if length buffer \<le> start then Fails else slice_pairs (\<lambda>i j. chars_to_value big i j buffer) start stop)"

definition SlicePairToCharVector :: "bool \<Rightarrow> u64 \<times> u64 \<Rightarrow> u8 list \<Rightarrow> u8 list" where
  "SlicePairToCharVector big p buffer = ValueToCharVector big (snd p) (ValueToCharVector big (fst p) buffer)"

definition SlicePairVectorToCharVector :: "bool \<Rightarrow> (u64 \<times> u64) list \<Rightarrow> u8 list \<Rightarrow> u8 list" where
  "SlicePairVectorToCharVector big ps buffer = fold (SlicePairToCharVector big) ps buffer"

definition slice_quad :: "(nat \<Rightarrow> nat \<Rightarrow> u64 outcome) \<Rightarrow> nat \<Rightarrow> ((u64 \<times> u64) \<times> (u64 \<times> u64)) outcome" where
  "slice_quad cast start =
     and_then (cast start (start + 8)) (\<lambda>a.
       and_then (cast (start + 8) (start + 2 * 8)) (\<lambda>b.
         and_then (cast (start + 2 * 8) (start + 3 * 8)) (\<lambda>c.
           and_then (cast (start + 3 * 8) (start + 4 * 8)) (\<lambda>d. Returns ((a, b), (c, d))))))"

definition quad_in :: "(nat \<Rightarrow> nat \<Rightarrow> u64 outcome) \<Rightarrow> nat \<Rightarrow> nat \<Rightarrow> u8 list \<Rightarrow> ((u64 \<times> u64) \<times> (u64 \<times> u64)) outcome" where
  "quad_in cast start stop buffer =
     (if length buffer \<le> start then Fails
      else if stop \<le> start \<or> stop \<noteq> start + 8 * 4 then Fails
      else slice_quad cast start)"

definition CharVectorToPairSlicePair :: "bool \<Rightarrow> nat \<Rightarrow> nat \<Rightarrow> u8 list \<Rightarrow> ((u64 \<times> u64) \<times> (u64 \<times> u64)) outcome" where
  "CharVectorToPairSlicePair big start stop buffer = quad_in (\<lambda>i j. CharVectorToValue big i j buffer) start stop buffer"

definition chars_to_pair_slice_pair :: "bool \<Rightarrow> nat \<Rightarrow> nat \<Rightarrow> u8 list \<Rightarrow> ((u64 \<times> u64) \<times> (u64 \<times> u64)) outcome" where
  "chars_to_pair_slice_pair big start stop buffer = quad_in (\<lambda>i j. chars_to_value big i j buffer) start stop buffer"

definition slice_quads :: "(nat \<Rightarrow> nat \<Rightarrow> u64 outcome) \<Rightarrow> nat \<Rightarrow> nat \<Rightarrow> ((u64 \<times> u64) \<times> (u64 \<times> u64)) list outcome" where
  "slice_quads cast start stop =
     (let n = (stop - start) div (4 * 8)
      in if stop \<le> start \<or> stop \<noteq> start + n * 4 * 8 then Fails
         else each (\<lambda>i. slice_quad cast (start + i * 4 * 8)) [0..<n])"

definition CharVectorToPairSlicePairVector :: "bool \<Rightarrow> nat \<Rightarrow> nat \<Rightarrow> u8 list \<Rightarrow> ((u64 \<times> u64) \<times> (u64 \<times> u64)) list outcome" where
  "CharVectorToPairSlicePairVector big start stop buffer =
     slice_quads (\<lambda>i j. CharVectorToValue big i j buffer) start stop"

definition chars_to_pair_slice_pairs :: "bool \<Rightarrow> nat \<Rightarrow> nat \<Rightarrow> u8 list \<Rightarrow> ((u64 \<times> u64) \<times> (u64 \<times> u64)) list outcome" where
  "chars_to_pair_slice_pairs big start stop buffer =
     (if length buffer \<le> start then Fails else slice_quads (\<lambda>i j. chars_to_value big i j buffer) start stop)"

definition PairSlicePairToCharVector :: "bool \<Rightarrow> (u64 \<times> u64) \<times> (u64 \<times> u64) \<Rightarrow> u8 list \<Rightarrow> u8 list" where
  "PairSlicePairToCharVector big p buffer = SlicePairToCharVector big (snd p) (SlicePairToCharVector big (fst p) buffer)"

definition PairSlicePairVectorToCharVector :: "bool \<Rightarrow> ((u64 \<times> u64) \<times> (u64 \<times> u64)) list \<Rightarrow> u8 list \<Rightarrow> u8 list" where
  "PairSlicePairVectorToCharVector big ps buffer = fold (PairSlicePairToCharVector big) ps buffer"

subsection \<open>Doubles\<close>

definition CharVectorToDouble :: "bool \<Rightarrow> u8 list \<Rightarrow> u64 outcome" where
  "CharVectorToDouble big buffer = (if length buffer \<noteq> 8 then Fails else Returns (of_memory big (rev buffer)))"

definition CharVectorToDoubleVector :: "bool \<Rightarrow> u8 list \<Rightarrow> u64 list outcome" where
  "CharVectorToDoubleVector big buffer =
     (if length buffer mod 8 \<noteq> 0 then Fails
      else Returns (map (\<lambda>i. of_memory big (rev (take 8 (drop (8 * i) buffer)))) [0..<length buffer div 8]))"

definition DoubleToCharVector :: "bool \<Rightarrow> u64 \<Rightarrow> u8 list \<Rightarrow> u8 list" where
  "DoubleToCharVector big d buffer = buffer @ rev (in_memory big d)"

definition DoubleVectorToCharVector :: "bool \<Rightarrow> u64 list \<Rightarrow> u8 list \<Rightarrow> u8 list" where
  "DoubleVectorToCharVector big ds buffer = fold (DoubleToCharVector big) ds buffer"

subsection \<open>The functions for given types\<close>

definition CharVectorToInt32 :: "bool \<Rightarrow> u8 list \<Rightarrow> 32 word outcome" where
  "CharVectorToInt32 big buffer = CharVectorToValue_all big buffer"

definition CharVectorToInt32Vector :: "bool \<Rightarrow> u8 list \<Rightarrow> 32 word list outcome" where
  "CharVectorToInt32Vector big buffer = CharVectorToValueVector_all big buffer"

definition Int32ToCharVector :: "bool \<Rightarrow> 32 word \<Rightarrow> u8 list \<Rightarrow> u8 list" where
  "Int32ToCharVector big w buffer = ValueToCharVector big w buffer"

definition Int32VectorToCharVector :: "bool \<Rightarrow> 32 word list \<Rightarrow> u8 list \<Rightarrow> u8 list" where
  "Int32VectorToCharVector big ws buffer = ValueVectorToCharVector big ws buffer"

definition CharVectorToUint32 :: "bool \<Rightarrow> u8 list \<Rightarrow> 32 word outcome" where
  "CharVectorToUint32 big buffer = CharVectorToValue_all big buffer"

definition CharVectorToUint32Vector :: "bool \<Rightarrow> u8 list \<Rightarrow> 32 word list outcome" where
  "CharVectorToUint32Vector big buffer = CharVectorToValueVector_all big buffer"

definition Uint32ToCharVector :: "bool \<Rightarrow> 32 word \<Rightarrow> u8 list \<Rightarrow> u8 list" where
  "Uint32ToCharVector big w buffer = ValueToCharVector big w buffer"

definition Uint32VectorToCharVector :: "bool \<Rightarrow> 32 word list \<Rightarrow> u8 list \<Rightarrow> u8 list" where
  "Uint32VectorToCharVector big ws buffer = ValueVectorToCharVector big ws buffer"

definition CharVectorToInt64 :: "bool \<Rightarrow> u8 list \<Rightarrow> 64 word outcome" where
  "CharVectorToInt64 big buffer = CharVectorToValue_all big buffer"

definition CharVectorToInt64Vector :: "bool \<Rightarrow> u8 list \<Rightarrow> 64 word list outcome" where
  "CharVectorToInt64Vector big buffer = CharVectorToValueVector_all big buffer"

definition Int64ToCharVector :: "bool \<Rightarrow> 64 word \<Rightarrow> u8 list \<Rightarrow> u8 list" where
  "Int64ToCharVector big w buffer = ValueToCharVector big w buffer"

definition Int64VectorToCharVector :: "bool \<Rightarrow> 64 word list \<Rightarrow> u8 list \<Rightarrow> u8 list" where
  "Int64VectorToCharVector big ws buffer = ValueVectorToCharVector big ws buffer"

definition CharVectorToUint64 :: "bool \<Rightarrow> u8 list \<Rightarrow> 64 word outcome" where
  "CharVectorToUint64 big buffer = CharVectorToValue_all big buffer"

definition CharVectorToUint64Vector :: "bool \<Rightarrow> u8 list \<Rightarrow> 64 word list outcome" where
  "CharVectorToUint64Vector big buffer = CharVectorToValueVector_all big buffer"

definition Uint64ToCharVector :: "bool \<Rightarrow> 64 word \<Rightarrow> u8 list \<Rightarrow> u8 list" where
  "Uint64ToCharVector big w buffer = ValueToCharVector big w buffer"

definition Uint64VectorToCharVector :: "bool \<Rightarrow> 64 word list \<Rightarrow> u8 list \<Rightarrow> u8 list" where
  "Uint64VectorToCharVector big ws buffer = ValueVectorToCharVector big ws buffer"

definition CharVectorToSlice :: "bool \<Rightarrow> u8 list \<Rightarrow> 64 word outcome" where
  "CharVectorToSlice big buffer = CharVectorToValue_all big buffer"

definition CharVectorToSliceVector :: "bool \<Rightarrow> u8 list \<Rightarrow> 64 word list outcome" where
  "CharVectorToSliceVector big buffer = CharVectorToValueVector_all big buffer"

definition SliceToCharVector :: "bool \<Rightarrow> 64 word \<Rightarrow> u8 list \<Rightarrow> u8 list" where
  "SliceToCharVector big w buffer = ValueToCharVector big w buffer"

definition SliceVectorToCharVector :: "bool \<Rightarrow> 64 word list \<Rightarrow> u8 list \<Rightarrow> u8 list" where
  "SliceVectorToCharVector big ws buffer = ValueVectorToCharVector big ws buffer"

definition chars_to_int32 :: "bool \<Rightarrow> u8 list \<Rightarrow> 32 word outcome" where
  "chars_to_int32 big buffer = chars_to_value_all big buffer"

definition chars_to_int32_vector :: "bool \<Rightarrow> u8 list \<Rightarrow> 32 word list outcome" where
  "chars_to_int32_vector big buffer = chars_to_vector_all big buffer"

definition int32_to_chars :: "bool \<Rightarrow> 32 word \<Rightarrow> u8 list \<Rightarrow> u8 list" where
  "int32_to_chars big w buffer = value_to_chars big w buffer"

definition int32_vector_to_chars :: "bool \<Rightarrow> 32 word list \<Rightarrow> u8 list \<Rightarrow> u8 list" where
  "int32_vector_to_chars big ws buffer = vector_to_chars big ws buffer"

definition chars_to_uint32 :: "bool \<Rightarrow> u8 list \<Rightarrow> 32 word outcome" where
  "chars_to_uint32 big buffer = chars_to_value_all big buffer"

definition chars_to_uint32_vector :: "bool \<Rightarrow> u8 list \<Rightarrow> 32 word list outcome" where
  "chars_to_uint32_vector big buffer = chars_to_vector_all big buffer"

definition uint32_to_chars :: "bool \<Rightarrow> 32 word \<Rightarrow> u8 list \<Rightarrow> u8 list" where
  "uint32_to_chars big w buffer = value_to_chars big w buffer"

definition uint32_vector_to_chars :: "bool \<Rightarrow> 32 word list \<Rightarrow> u8 list \<Rightarrow> u8 list" where
  "uint32_vector_to_chars big ws buffer = vector_to_chars big ws buffer"

definition chars_to_int64 :: "bool \<Rightarrow> u8 list \<Rightarrow> 64 word outcome" where
  "chars_to_int64 big buffer = chars_to_value_all big buffer"

definition chars_to_int64_vector :: "bool \<Rightarrow> u8 list \<Rightarrow> 64 word list outcome" where
  "chars_to_int64_vector big buffer = chars_to_vector_all big buffer"

definition int64_to_chars :: "bool \<Rightarrow> 64 word \<Rightarrow> u8 list \<Rightarrow> u8 list" where
  "int64_to_chars big w buffer = value_to_chars big w buffer"

definition int64_vector_to_chars :: "bool \<Rightarrow> 64 word list \<Rightarrow> u8 list \<Rightarrow> u8 list" where
  "int64_vector_to_chars big ws buffer = vector_to_chars big ws buffer"

definition chars_to_uint64 :: "bool \<Rightarrow> u8 list \<Rightarrow> 64 word outcome" where
  "chars_to_uint64 big buffer = chars_to_value_all big buffer"

definition chars_to_uint64_vector :: "bool \<Rightarrow> u8 list \<Rightarrow> 64 word list outcome" where
  "chars_to_uint64_vector big buffer = chars_to_vector_all big buffer"

definition uint64_to_chars :: "bool \<Rightarrow> 64 word \<Rightarrow> u8 list \<Rightarrow> u8 list" where
  "uint64_to_chars big w buffer = value_to_chars big w buffer"

definition uint64_vector_to_chars :: "bool \<Rightarrow> 64 word list \<Rightarrow> u8 list \<Rightarrow> u8 list" where
  "uint64_vector_to_chars big ws buffer = vector_to_chars big ws buffer"

definition chars_to_slice :: "bool \<Rightarrow> u8 list \<Rightarrow> 64 word outcome" where
  "chars_to_slice big buffer = chars_to_value_all big buffer"

definition chars_to_slice_vector :: "bool \<Rightarrow> u8 list \<Rightarrow> 64 word list outcome" where
  "chars_to_slice_vector big buffer = chars_to_vector_all big buffer"

definition slice_to_chars :: "bool \<Rightarrow> 64 word \<Rightarrow> u8 list \<Rightarrow> u8 list" where
  "slice_to_chars big w buffer = value_to_chars big w buffer"

definition slice_vector_to_chars :: "bool \<Rightarrow> 64 word list \<Rightarrow> u8 list \<Rightarrow> u8 list" where
  "slice_vector_to_chars big ws buffer = vector_to_chars big ws buffer"

subsection \<open>Round trips\<close>

lemma value_size_pos: "8 dvd LENGTH('a::len) \<Longrightarrow> 0 < value_size TYPE('a)"
  by (simp add: value_size_def div_greater_zero_iff dvd_imp_le)

lemma big_endian_bits:
  assumes "8 * length bs = LENGTH('a::len)" "i < LENGTH('a)"
  shows "bit (big_endian bs :: 'a word) i = byte_bit bs i"
proof -
  have n: "length bs = LENGTH('a) div 8" using assms(1) by simp
  moreover have "0 < length bs" using assms(2) unfolding assms(1) [symmetric] by (cases bs) auto
  ultimately have "ByteStringToValue 0 (length bs) bs = Returns (big_endian bs :: 'a word)"
    unfolding ByteStringToValue_def Let_def big_endian_def n [symmetric] by simp
  then show ?thesis
    using ByteStringToValue_bits [OF assms(1)] assms(2) by (metis outcome.inject)
qed

lemma value_size_bytes: "length (ValueToByteString w []) = value_size TYPE('a)" for w :: "'a::len word"
  by (simp add: value_size_def)

lemma big_endian_bytes: "8 dvd LENGTH('a) \<Longrightarrow> big_endian (ValueToByteString w []) = w" for w :: "'a::len word"
proof (rule bit_eqI)
  fix i assume d: "8 dvd LENGTH('a)" and "possible_bit TYPE('a word) i"
  then have i: "i < LENGTH('a)" by simp
  show "bit (big_endian (ValueToByteString w []) :: 'a word) i = bit w i"
    using big_endian_bits [where 'a = 'a and bs = "ValueToByteString w []" and i = i] byte_bit_value [OF d i, of w] d i by simp
qed

lemma length_in_memory: "length (in_memory big w) = value_size TYPE('a)" for w :: "'a::len word"
  by (simp add: in_memory_def value_size_def)

lemma of_memory_in_memory: "8 dvd LENGTH('a) \<Longrightarrow> of_memory big (in_memory big w) = w" for w :: "'a::len word"
  by (simp add: of_memory_def in_memory_def big_endian_bytes)

lemma block_of_concat:
  "(\<And>x. x \<in> set xs \<Longrightarrow> length x = n) \<Longrightarrow> i < length xs \<Longrightarrow> take n (drop (n * i) (concat xs)) = xs ! i"
proof (induction xs arbitrary: i)
  case (Cons x xs)
  then show ?case by (cases i) auto
qed simp

lemma length_blocks: "(\<And>x. x \<in> set xs \<Longrightarrow> length x = n) \<Longrightarrow> length (concat xs) = n * length xs"
  by (induction xs) auto

lemma blocks_of_concat:
  assumes "\<And>x. x \<in> set xs \<Longrightarrow> length x = n"
  shows "map (\<lambda>i. take n (drop (n * i) (concat xs))) [0..<length xs] = xs"
  by (rule nth_equalityI) (simp_all add: block_of_concat [OF assms])

lemma elements_concat:
  assumes "\<And>x. x \<in> set xs \<Longrightarrow> length x = n" "0 < n" "xs \<noteq> []"
  shows "elements n (length buffer) (length buffer + n * length xs) (buffer @ concat xs) = Returns xs"
  using assms(2,3) length_blocks [OF assms(1)] blocks_of_concat [OF assms(1)]
  by (simp add: elements_def)

lemma ByteString_append: "ValueToByteString w buffer = buffer @ ValueToByteString w []"
  by (simp add: ValueToByteString_def Let_def)

lemma value_cast_back:
  fixes w :: "'a::len word"
  assumes "8 dvd LENGTH('a)"
  shows "ByteStringToValue_all (ValueToByteString w []) = Returns w"
    "CharVectorToValue_from big (length buffer) (ValueToCharVector big w buffer) = Returns w"
    "chars_to_value_from big (length buffer) (value_to_chars big w buffer) = Returns w"
proof -
  have "ByteStringToValue 0 (value_size TYPE('a)) (ValueToByteString w []) = Returns (big_endian (ValueToByteString w []) :: 'a word)"
    using value_size_pos [OF assms] unfolding value_size_def ByteStringToValue_def big_endian_def Let_def by simp
  then show "ByteStringToValue_all (ValueToByteString w []) = Returns w"
    by (simp add: ByteStringToValue_all_def ByteStringToValue_from_def big_endian_bytes [OF assms])
  show "CharVectorToValue_from big (length buffer) (ValueToCharVector big w buffer) = Returns w"
    "chars_to_value_from big (length buffer) (value_to_chars big w buffer) = Returns w"
    using value_size_pos [OF assms] length_in_memory [of big w] assms
    by (simp_all add: CharVectorToValue_from_def CharVectorToValue_def ValueToCharVector_def ValueToCharVector_at_def put_bytes_def
        chars_to_value_from_def chars_to_value_def value_to_chars_def of_memory_in_memory)
qed

text \<open>C35: Numbers appended to a buffer are read back from their byte strings and, from the bytes of memory, by the function
  on \<open>vector<char>\<close>; the one on \<open>vector<unsigned char>\<close> gives the first number and its successors.\<close>

theorem casts_read_back:
  fixes ws :: "'a::len word list"
  assumes "8 dvd LENGTH('a)" "ws \<noteq> []"
  shows "ByteStringToValueVector_from (length buffer) (ValueVectorToByteString ws buffer) = Returns ws \<and>
    chars_to_vector_from big (length buffer) (vector_to_chars big ws buffer) = Returns ws \<and>
    CharVectorToValueVector_from big (length buffer) (ValueVectorToCharVector big ws buffer)
      = Returns (map (\<lambda>i. hd ws + of_nat i) [0..<length ws])"
proof (intro conjI)
  let ?n = "value_size TYPE('a)"
  note n = value_size_pos [OF assms(1)]
  have bytes: "\<And>x. x \<in> set (map (\<lambda>w. ValueToByteString w []) ws) \<Longrightarrow> length x = ?n" by (auto simp: value_size_def)
  show "ByteStringToValueVector_from (length buffer) (ValueVectorToByteString ws buffer) = Returns ws"
    using assms elements_concat [where xs = "map (\<lambda>w. ValueToByteString w []) ws" and buffer = buffer, OF bytes n]
      length_blocks [where xs = "map (\<lambda>w. ValueToByteString w []) ws", OF bytes]
    by (simp add: ByteStringToValueVector_from_def ByteStringToValueVector_def ValueVectorToByteString_def big_endian_bytes o_def)
  have blocks: "\<And>x. x \<in> set (map (in_memory big) ws) \<Longrightarrow> length x = ?n" by (auto simp: length_in_memory)
  show "chars_to_vector_from big (length buffer) (vector_to_chars big ws buffer) = Returns ws"
    using assms elements_concat [where xs = "map (in_memory big) ws" and buffer = buffer, OF blocks n]
      length_blocks [where xs = "map (in_memory big) ws", OF blocks]
    by (simp add: chars_to_vector_from_def chars_to_vector_def vector_to_chars_def of_memory_in_memory o_def)
  obtain w ws' where ws: "ws = w # ws'" using assms(2) by (cases ws) auto
  have length: "length (concat (map (in_memory big) ws)) = ?n * length ws"
    using length_blocks [where xs = "map (in_memory big) ws", OF blocks] by simp
  have first: "take ?n (concat (map (in_memory big) ws)) = in_memory big w"
    by (simp add: ws length_in_memory)
  show "CharVectorToValueVector_from big (length buffer) (ValueVectorToCharVector big ws buffer)
      = Returns (map (\<lambda>i. hd ws + of_nat i) [0..<length ws])"
    unfolding CharVectorToValueVector_from_def CharVectorToValueVector_def ValueVectorToCharVector_def Let_def length_append length
    using n assms by (simp add: first of_memory_in_memory) (simp add: ws)
qed

theorem casts_read_back_witness:
  "ByteStringToValueVector_from 1 (ValueVectorToByteString [5, 7 :: 16 word] [9]) = Returns [5, 7 :: 16 word] \<and>
   chars_to_vector_from False 1 (vector_to_chars False [5, 7 :: 16 word] [9]) = Returns [5, 7 :: 16 word] \<and>
   CharVectorToValueVector_from False 1 (ValueVectorToCharVector False [5, 7 :: 16 word] [9]) = Returns [5, 6 :: 16 word]"
  using casts_read_back [of "[5, 7 :: 16 word]" "[9]" False] by simp


text \<open>Truth values come back with leading zeros up to a whole number of bytes.\<close>

lemma packed_fold:
  "\<forall>i < length is. is ! i < n \<Longrightarrow> distinct is \<Longrightarrow>
   bit (fold (\<lambda>i w. if f i then w OR push_bit (n - 1 - i) 1 else w) is (w :: u8)) k \<longleftrightarrow>
     bit w k \<or> (\<exists>i \<in> set is. f i \<and> k = n - 1 - i \<and> k < 8)"
proof (induction "is" arbitrary: w)
  case (Cons i "is")
  have rest: "\<forall>j < length is. is ! j < n" using Cons.prems(1) by auto
  show ?case
    using Cons.IH [OF rest] Cons.prems(2) by (auto simp: bit_simps)
qed simp

lemma packed_bits:
  assumes "length bs \<le> 8" "k < 8"
  shows "bit (packed_byte bs) k \<longleftrightarrow> k < length bs \<and> bs ! (length bs - 1 - k)"
proof -
  have "bit (packed_byte bs) k \<longleftrightarrow> (\<exists>i \<in> set [0..<length bs]. bs ! i \<and> k = length bs - 1 - i \<and> k < 8)"
    unfolding packed_byte_def by (subst packed_fold) auto
  also have "\<dots> \<longleftrightarrow> k < length bs \<and> bs ! (length bs - 1 - k)"
  proof
    assume "k < length bs \<and> bs ! (length bs - 1 - k)"
    then show "\<exists>i \<in> set [0..<length bs]. bs ! i \<and> k = length bs - 1 - i \<and> k < 8"
      using assms by (intro bexI [of _ "length bs - 1 - k"]) auto
  qed auto
  finally show ?thesis .
qed

lemma unpacked_byte: "length bs \<le> 8 \<Longrightarrow> map (\<lambda>j. bit (packed_byte bs) (7 - j)) [0..<8] = replicate (8 - length bs) False @ bs"
  by (rule nth_equalityI) (auto simp: packed_bits nth_append add.commute)

lemma whole_blocks: "8 * n = length bs \<Longrightarrow> concat (map (\<lambda>i. take 8 (drop (8 * i) bs)) [0..<n]) = bs"
proof (induction n arbitrary: bs)
  case (Suc n)
  have "concat (map (\<lambda>i. take 8 (drop (8 * i) (drop 8 bs))) [0..<n]) = drop 8 bs"
    using Suc.prems by (intro Suc.IH) simp
  moreover have "[0..<Suc n] = 0 # map Suc [0..<n]" by (simp add: map_Suc_upt upt_conv_Cons del: upt_Suc)
  ultimately show ?case
    using append_take_drop_id [of 8 bs] by (simp add: o_def add.commute del: upt_Suc append_take_drop_id)
qed simp

lemma truth_values_back:
  "CharVectorToBoolVector (BoolVectorToCharVector bs []) = replicate ((8 - length bs mod 8) mod 8) False @ bs"
proof -
  let ?p = "length bs mod 8" and ?n = "length bs div 8"
  let ?bits = "\<lambda>b :: u8. map (\<lambda>j. bit b (7 - j)) [0..<8]"
  have first: "concat (map ?bits (if 0 < ?p then [packed_byte (take ?p bs)] else []))
      = replicate ((8 - ?p) mod 8) False @ take ?p bs"
    using unpacked_byte [of "take ?p bs"] by auto
  have blocks: "map (\<lambda>i. ?bits (packed_byte (take 8 (drop (?p + 8 * i) bs)))) [0..<?n] = map (\<lambda>i. take 8 (drop (8 * i) (drop ?p bs))) [0..<?n]"
  proof (rule map_cong [OF refl])
    fix i assume "i \<in> set [0..<?n]"
    then have "Suc i \<le> ?n" by simp
    then have "?p + 8 * i + 8 \<le> length bs"
      using div_mult_mod_eq [of "length bs" 8] mult_le_mono1 [of "Suc i" ?n 8] by linarith
    then have "length (take 8 (drop (?p + 8 * i) bs)) = 8" by simp
    then show "?bits (packed_byte (take 8 (drop (?p + 8 * i) bs))) = take 8 (drop (8 * i) (drop ?p bs))"
      using unpacked_byte [of "take 8 (drop (?p + 8 * i) bs)"] by (simp add: add.commute)
  qed
  have rest: "concat (map ?bits (map (\<lambda>i. packed_byte (take 8 (drop (?p + 8 * i) bs))) [0..<?n])) = drop ?p bs"
    unfolding map_map comp_def blocks by (rule whole_blocks) (simp add: minus_mod_eq_mult_div)
  have "CharVectorToBoolVector (BoolVectorToCharVector bs [])
      = concat (map ?bits (if 0 < ?p then [packed_byte (take ?p bs)] else []))
        @ concat (map ?bits (map (\<lambda>i. packed_byte (take 8 (drop (?p + 8 * i) bs))) [0..<?n]))"
    unfolding CharVectorToBoolVector_def BoolVectorToCharVector_def Let_def by simp
  then show ?thesis unfolding first rest by simp
qed

text \<open>A pair of slices that does not begin the buffer is refused, as its first slice would have to end after 8 bytes.\<close>

lemma slice_pair_refused: "0 < start \<Longrightarrow> CharVectorToSlicePair big start stop buffer = Fails"
  by (auto simp: CharVectorToSlicePair_def CharVectorToValue_def value_size_def)

lemma slice_pair_back: "CharVectorToSlicePair big 0 16 (SlicePairToCharVector big p []) = Returns p"
proof -
  obtain a b where p: "p = (a, b)" by (cases p)
  have "length (in_memory big a) = 8" "length (in_memory big b) = 8"
    by (simp_all add: length_in_memory value_size_def)
  then show ?thesis
    by (simp add: p CharVectorToSlicePair_def SlicePairToCharVector_def CharVectorToValue_def ValueToCharVector_def
        ValueToCharVector_at_def put_bytes_def value_size_def of_memory_in_memory)
qed

end
