(* ===== verification/Row_Reduction.thy ===== *)
theory Row_Reduction
  imports Safrn_Prelude
begin

text \<open>
  Row reduction modulo a prime, \<open>dataowner/RowReduction.cpp\<close>. A matrix of \<open>n\<close> rows is the list of its entries and the
  numbers are integers; \<open>minv\<close> is \<open>BN_mod_inverse\<close>, which has no value on a number without an inverse. The rows are
  reduced without exchanging them: the result solves the system when no pivot is zero.
\<close>

subsection \<open>The three loops\<close>

type_synonym system = "int list \<times> int list"

fun rows_loop :: "('i \<Rightarrow> 's \<Rightarrow> 's option) \<Rightarrow> 'i list \<Rightarrow> 's \<Rightarrow> 's option" where
  "rows_loop f [] s = Some s"
| "rows_loop f (i # is) s = (case f i s of None \<Rightarrow> None | Some t \<Rightarrow> rows_loop f is t)"

definition add_entry :: "int \<Rightarrow> nat \<Rightarrow> int \<Rightarrow> nat \<Rightarrow> nat \<Rightarrow> nat \<Rightarrow> system \<Rightarrow> system" where
  "add_entry p n ratio i j k s =
     (let (M, b) = s
      in if k = n then (M, b[j := (b ! j + ratio * b ! i mod p) mod p])
         else (M[n * j + k := (M ! (n * j + k) + ratio * M ! (n * i + k) mod p) mod p], b))"

text \<open>Row \<open>j\<close> minus the multiple of row \<open>i\<close> that clears its entry of column \<open>i\<close>, from column \<open>lo\<close> on.\<close>

definition clear_entry :: "(int \<Rightarrow> int \<Rightarrow> int option) \<Rightarrow> int \<Rightarrow> nat \<Rightarrow> nat \<Rightarrow> nat \<Rightarrow> nat \<Rightarrow> system \<Rightarrow> system option" where
  "clear_entry minv p n lo i j s =
     (let (M, b) = s
      in case minv (M ! (n * i + i)) p of
          None \<Rightarrow> None
        | Some v \<Rightarrow> Some (fold (add_entry p n (p - M ! (n * j + i) * v mod p) i j) [lo..<n + 1] (M, b)))"

definition triangle_step :: "(int \<Rightarrow> int \<Rightarrow> int option) \<Rightarrow> int \<Rightarrow> nat \<Rightarrow> nat \<Rightarrow> system \<Rightarrow> system option" where
  "triangle_step minv p n i s =
     (if fst s ! (n * i + i) \<noteq> 0 then rows_loop (clear_entry minv p n 0 i) [i + 1..<n] s else Some s)"

definition back_step :: "(int \<Rightarrow> int \<Rightarrow> int option) \<Rightarrow> int \<Rightarrow> nat \<Rightarrow> nat \<Rightarrow> system \<Rightarrow> system option" where
  "back_step minv p n i s =
     (if fst s ! (n * i + i) \<noteq> 0 then
        rows_loop (\<lambda>j s. if fst s ! (n * j + i) \<noteq> 0 then clear_entry minv p n i i j s else Some s) [0..<i] s
      else Some s)"

definition pivot_step :: "(int \<Rightarrow> int \<Rightarrow> int option) \<Rightarrow> int \<Rightarrow> nat \<Rightarrow> nat \<Rightarrow> system \<Rightarrow> system option" where
  "pivot_step minv p n i s =
     (let (M, b) = s
      in if M ! (n * i + i) \<noteq> 0 then
           (case minv (M ! (n * i + i)) p of
              None \<Rightarrow> None
            | Some v \<Rightarrow> Some (M[n * i + i := M ! (n * i + i) * v mod p], b[i := b ! i * v mod p]))
         else Some s)"

text \<open>For no rows the bound \<open>n - 1\<close> of the first loop wraps around.\<close>

definition bn_mod_row_reduce :: "(int \<Rightarrow> int \<Rightarrow> int option) \<Rightarrow> int \<Rightarrow> nat \<Rightarrow> system \<Rightarrow> system option" where
  "bn_mod_row_reduce minv p n s =
     (if n = 0 then None
      else case rows_loop (triangle_step minv p n) [0..<n - 1] s of
          None \<Rightarrow> None
        | Some s \<Rightarrow> (case rows_loop (back_step minv p n) [1..<n] s of
              None \<Rightarrow> None
            | Some s \<Rightarrow> rows_loop (pivot_step minv p n) [0..<n] s))"

subsection \<open>Loops and rows\<close>

lemma rows_loop_range:
  assumes "\<And>i s. a \<le> i \<Longrightarrow> i < b \<Longrightarrow> I i s \<Longrightarrow> \<exists>t. f i s = Some t \<and> I (Suc i) t" "a \<le> b" "I a s"
  shows "\<exists>t. rows_loop f [a..<b] s = Some t \<and> I b t"
  using assms
proof (induction "b - a" arbitrary: a s)
  case (Suc d)
  then have "a < b" by simp
  then obtain t where t: "f a s = Some t" "I (Suc a) t" using Suc.prems by blast
  have "\<exists>u. rows_loop f [Suc a..<b] t = Some u \<and> I b u"
    using Suc.prems Suc.hyps(2) t \<open>a < b\<close> by (intro Suc.hyps(1)) auto
  then show ?case using t \<open>a < b\<close> by (simp add: upt_conv_Cons)
qed simp

text \<open>The matrix with the right side as its last column.\<close>

definition aug :: "nat \<Rightarrow> system \<Rightarrow> nat \<Rightarrow> nat \<Rightarrow> int" where
  "aug n s r c = (if c = n then snd s ! r else fst s ! (n * r + c))"

lemma cell_aug: "c < n \<Longrightarrow> fst s ! (n * r + c) = aug n s r c"
  by (simp add: aug_def)

definition shaped :: "int \<Rightarrow> nat \<Rightarrow> system \<Rightarrow> bool" where
  "shaped p n s \<longleftrightarrow> length (fst s) = n * n \<and> length (snd s) = n \<and> (\<forall>r < n. \<forall>c \<le> n. 0 \<le> aug n s r c \<and> aug n s r c < p)"

lemma cell_eq: "c < n \<Longrightarrow> d < n \<Longrightarrow> n * r + c = n * q + d \<longleftrightarrow> r = q \<and> c = (d :: nat)"
  by (metis add.commute div_mult_self3 div_less mod_mult_self3 mod_less not_less_zero plus_nat.add_0 mult.commute)

lemma cell_less: "r < n \<Longrightarrow> c < n \<Longrightarrow> n * r + c < n * (n :: nat)"
  by (metis add.commute add_less_cancel_left less_le_trans mult_Suc_right mult_le_mono2 Suc_leI)

lemma add_entry_aug:
  assumes "length (fst s) = n * n" "length (snd s) = n" "i < n" "j < n" "k \<le> n" "r < n" "c \<le> n"
  shows "aug n (add_entry p n ratio i j k s) r c =
    (if r = j \<and> c = k then (aug n s j k + ratio * aug n s i k mod p) mod p else aug n s r c)"
  using assms cell_less [of j n k]
  by (cases s) (auto simp: add_entry_def aug_def nth_list_update cell_eq)

lemma add_entry_lengths: "length (fst (add_entry p n ratio i j k s)) = length (fst s)" "length (snd (add_entry p n ratio i j k s)) = length (snd s)"
  by (auto simp: add_entry_def split: prod.splits)

lemma add_row_aug:
  assumes "length (fst s) = n * n" "length (snd s) = n" "i < n" "j < n" "i \<noteq> j" "hi \<le> n + 1" "r < n" "c \<le> n"
  shows "aug n (fold (add_entry p n ratio i j) [lo..<hi] s) r c =
      (if r = j \<and> lo \<le> c \<and> c < hi then (aug n s j c + ratio * aug n s i c mod p) mod p else aug n s r c)
    \<and> length (fst (fold (add_entry p n ratio i j) [lo..<hi] s)) = n * n
    \<and> length (snd (fold (add_entry p n ratio i j) [lo..<hi] s)) = n"
  using assms(6-8)
proof (induction hi arbitrary: r c)
  case (Suc hi)
  show ?case
  proof (cases "lo \<le> hi")
    case True
    let ?s = "fold (add_entry p n ratio i j) [lo..<hi] s"
    have IH: "aug n ?s q d = (if q = j \<and> lo \<le> d \<and> d < hi then (aug n s j d + ratio * aug n s i d mod p) mod p else aug n s q d)"
      "length (fst ?s) = n * n" "length (snd ?s) = n" if "q < n" "d \<le> n" for q d
      using Suc.IH [of q d] Suc.prems(1) that by auto
    have "aug n (add_entry p n ratio i j hi ?s) r c =
        (if r = j \<and> c = hi then (aug n ?s j hi + ratio * aug n ?s i hi mod p) mod p else aug n ?s r c)"
      using IH(2,3) [of 0 0] Suc.prems assms(3,4) by (intro add_entry_aug) auto
    then show ?thesis
      using True IH Suc.prems assms(3-5) by (auto simp: add_entry_lengths)
  qed (use Suc assms in auto)
qed (use assms in auto)


subsection \<open>One row operation\<close>

text \<open>For a prime every number between has an inverse.\<close>

definition inverts :: "(int \<Rightarrow> int \<Rightarrow> int option) \<Rightarrow> int \<Rightarrow> bool" where
  "inverts minv p \<longleftrightarrow> (\<forall>a \<in> {1..<p}. \<exists>v. minv a p = Some v \<and> a * v mod p = 1)"

definition residual :: "nat \<Rightarrow> system \<Rightarrow> (nat \<Rightarrow> int) \<Rightarrow> nat \<Rightarrow> int" where
  "residual n s x r = (\<Sum>c < n. aug n s r c * x c) - aug n s r n"

definition solves :: "int \<Rightarrow> nat \<Rightarrow> system \<Rightarrow> (nat \<Rightarrow> int) \<Rightarrow> bool" where
  "solves p n s x \<longleftrightarrow> (\<forall>r < n. p dvd residual n s x r)"

lemma mod_diff_dvd: "p dvd a mod p - (a :: int)"
  by (simp add: minus_mod_eq_mult_div flip: minus_diff_eq [of a])

lemma added_dvd: "p dvd (a + r * e mod p) mod p - (a + r * e)" for p a r e :: int
  using mod_diff_dvd [of p "a + r * e"] by (simp add: mod_simps)

lemma residual_added:
  assumes "\<And>c. c \<le> n \<Longrightarrow> p dvd aug n t j c - (aug n s j c + ratio * aug n s i c)"
  shows "p dvd residual n t x j - (residual n s x j + ratio * residual n s x i)"
proof -
  have "residual n t x j - (residual n s x j + ratio * residual n s x i)
      = (\<Sum>c < n. (aug n t j c - (aug n s j c + ratio * aug n s i c)) * x c) - (aug n t j n - (aug n s j n + ratio * aug n s i n))"
    by (simp add: residual_def algebra_simps sum.distrib sum_subtractf sum_distrib_left)
  also have "p dvd \<dots>"
    by (rule dvd_diff, rule dvd_sum, rule dvd_mult2) (use assms in auto)
  finally show ?thesis .
qed

lemma residual_same: "(\<And>c. c \<le> n \<Longrightarrow> aug n t r c = aug n s r c) \<Longrightarrow> residual n t x r = residual n s x r"
  by (simp add: residual_def)

lemma solves_added:
  assumes "i < n" "j < n" "i \<noteq> j" "\<And>c. c \<le> n \<Longrightarrow> p dvd aug n t j c - (aug n s j c + ratio * aug n s i c)"
    "\<And>r c. r < n \<Longrightarrow> r \<noteq> j \<Longrightarrow> c \<le> n \<Longrightarrow> aug n t r c = aug n s r c"
  shows "solves p n t x \<longleftrightarrow> solves p n s x"
proof -
  have others: "residual n t x r = residual n s x r" if "r < n" "r \<noteq> j" for r
    using that assms(5) by (intro residual_same)
  have j: "p dvd residual n t x j - (residual n s x j + ratio * residual n s x i)"
    by (rule residual_added [OF assms(4)])
  show ?thesis
  proof
    assume t: "solves p n t x"
    then have "p dvd residual n s x i" using others assms(1,3) by (auto simp: solves_def)
    moreover have "p dvd residual n t x j" using t assms(2) by (simp add: solves_def)
    ultimately have "p dvd residual n s x j" using j by (metis dvd_add_left_iff dvd_diff_right_iff dvd_mult)
    then show "solves p n s x" using t others unfolding solves_def by metis
  next
    assume s: "solves p n s x"
    then have "p dvd residual n t x j" using j assms(1,2) by (simp add: solves_def dvd_diff_left_iff)
    then show "solves p n t x" using s others unfolding solves_def by metis
  qed
qed

text \<open>What \<open>clear_entry\<close> does: other rows are the same, row \<open>j\<close> is added to, and its entry of column \<open>i\<close> is zero.\<close>

lemma clear_entry_done:
  assumes "1 < p" "inverts minv p" "shaped p n s" "i < n" "j < n" "i \<noteq> j" "lo \<le> i" "aug n s i i \<noteq> 0"
  shows "\<exists>t ratio. clear_entry minv p n lo i j s = Some t \<and> shaped p n t \<and> aug n t j i = 0 \<and>
    (\<forall>r < n. \<forall>c \<le> n. r \<noteq> j \<or> c < lo \<longrightarrow> aug n t r c = aug n s r c) \<and>
    (\<forall>c \<le> n. lo \<le> c \<longrightarrow> aug n t j c = (aug n s j c + ratio * aug n s i c mod p) mod p)"
proof -
  let ?a = "aug n s i i"
  have range: "0 \<le> aug n s r c \<and> aug n s r c < p" if "r < n" "c \<le> n" for r c
    using assms(3) that by (simp add: shaped_def)
  have "?a \<in> {1..<p}" using range [of i i] assms(4,8) by auto
  then obtain v where v: "minv ?a p = Some v" "?a * v mod p = 1"
    using bspec [OF assms(2) [unfolded inverts_def]] by blast
  define ratio where "ratio = p - aug n s j i * v mod p"
  define t where "t = fold (add_entry p n ratio i j) [lo..<n + 1] s"
  have lengths: "length (fst s) = n * n" "length (snd s) = n" using assms(3) by (auto simp: shaped_def)
  have "clear_entry minv p n lo i j s = Some t"
    using v(1) assms(4,5) by (cases s) (simp add: clear_entry_def t_def ratio_def aug_def)
  moreover have aug: "aug n t r c = (if r = j \<and> lo \<le> c then (aug n s j c + ratio * aug n s i c mod p) mod p else aug n s r c)"
    "length (fst t) = n * n" "length (snd t) = n" if "r < n" "c \<le> n" for r c
    using add_row_aug [OF lengths assms(4,5,6), of "n + 1" r c p ratio lo] that by (auto simp: t_def)
  moreover have "shaped p n t"
    using aug range assms(1) aug(2,3) [of 0 0] assms(4) by (auto simp: shaped_def)
  moreover have "aug n t j i = 0"
  proof -
    have "p dvd aug n s j i + ratio * ?a"
    proof -
      have "p dvd ?a * v - 1" using v(2) by (metis mod_eq_dvd_iff mod_mod_trivial mod_diff_dvd dvd_minus_iff minus_diff_eq)
      moreover have "p dvd aug n s j i * v mod p - aug n s j i * v" by (rule mod_diff_dvd)
      moreover have "aug n s j i + ratio * ?a = p * ?a - (aug n s j i * v mod p - aug n s j i * v) * ?a - aug n s j i * (?a * v - 1)"
        by (simp add: ratio_def algebra_simps)
      ultimately show ?thesis by (metis dvd_diff dvd_mult dvd_mult2 dvd_triv_left)
    qed
    then have "(aug n s j i + ratio * ?a mod p) mod p = 0" by (simp add: mod_simps dvd_eq_mod_eq_0)
    then show ?thesis using aug(1) assms(4,5,7) by simp
  qed
  ultimately show ?thesis using assms(5) by (intro exI [of _ t] exI [of _ ratio]) (simp add: not_le [symmetric])
qed

text \<open>So the solutions are the same when the columns before \<open>lo\<close> are zero in row \<open>i\<close>.\<close>

lemma clear_entry_keeps:
  assumes "1 < p" "inverts minv p" "shaped p n s" "i < n" "j < n" "i \<noteq> j" "lo \<le> i" "aug n s i i \<noteq> 0"
  shows "\<exists>t. clear_entry minv p n lo i j s = Some t \<and> shaped p n t \<and> aug n t j i = 0 \<and>
    (\<forall>r < n. \<forall>c \<le> n. r \<noteq> j \<or> c < lo \<or> aug n s i c = 0 \<longrightarrow> aug n t r c = aug n s r c) \<and>
    ((\<forall>c < lo. aug n s i c = 0) \<longrightarrow> (\<forall>x. solves p n t x \<longleftrightarrow> solves p n s x))"
proof -
  obtain t ratio where t: "clear_entry minv p n lo i j s = Some t" "shaped p n t" "aug n t j i = 0"
    and same: "\<And>r c. r < n \<Longrightarrow> c \<le> n \<Longrightarrow> r \<noteq> j \<or> c < lo \<Longrightarrow> aug n t r c = aug n s r c"
    and added: "\<And>c. c \<le> n \<Longrightarrow> lo \<le> c \<Longrightarrow> aug n t j c = (aug n s j c + ratio * aug n s i c mod p) mod p"
    using clear_entry_done [OF assms] by blast
  have "aug n t r c = aug n s r c" if "r < n" "c \<le> n" "r \<noteq> j \<or> c < lo \<or> aug n s i c = 0" for r c
    using that same added [of c] assms(3,5) by (cases "r \<noteq> j \<or> c < lo") (auto simp: shaped_def)
  moreover have "solves p n t x \<longleftrightarrow> solves p n s x" if zero: "\<forall>c < lo. aug n s i c = 0" for x
  proof (rule solves_added [OF assms(4-6)])
    show "p dvd aug n t j c - (aug n s j c + ratio * aug n s i c)" if "c \<le> n" for c
      using that zero same [OF assms(5)] added [of c] added_dvd by (cases "c < lo") auto
  qed (use same in auto)
  ultimately show ?thesis using t by (intro exI [of _ t]) blast
qed

subsection \<open>The three phases\<close>

text \<open>Below a pivot that is not zero there are zeros.\<close>

definition lower :: "nat \<Rightarrow> nat \<Rightarrow> system \<Rightarrow> bool" where
  "lower n k s \<longleftrightarrow> (\<forall>c < k. aug n s c c \<noteq> 0 \<longrightarrow> (\<forall>r < n. c < r \<longrightarrow> aug n s r c = 0))"

lemma triangle_step_keeps:
  assumes "1 < p" "inverts minv p" "shaped p n s" "i < n" "lower n i s"
  shows "\<exists>t. triangle_step minv p n i s = Some t \<and> shaped p n t \<and> lower n (Suc i) t \<and> (\<forall>x. solves p n t x \<longleftrightarrow> solves p n s x)"
proof (cases "aug n s i i = 0")
  case True
  then show ?thesis using assms by (auto simp: triangle_step_def aug_def lower_def less_Suc_eq)
next
  case False
  let ?I = "\<lambda>j t. shaped p n t \<and> (\<forall>r \<le> i. \<forall>c \<le> n. aug n t r c = aug n s r c) \<and> lower n i t \<and>
    (\<forall>r < j. i < r \<longrightarrow> aug n t r i = 0) \<and> (\<forall>x. solves p n t x \<longleftrightarrow> solves p n s x)"
  have "\<exists>t. rows_loop (clear_entry minv p n 0 i) [i + 1..<n] s = Some t \<and> ?I n t"
  proof (rule rows_loop_range [where I = ?I])
    fix j t
    assume j: "i + 1 \<le> j" "j < n" and I: "?I j t"
    have pivot: "aug n t i i \<noteq> 0" using I False assms(4) by simp
    obtain u where u: "clear_entry minv p n 0 i j t = Some u" "shaped p n u" "aug n u j i = 0"
      and same: "\<And>r c. r < n \<Longrightarrow> c \<le> n \<Longrightarrow> r \<noteq> j \<or> aug n t i c = 0 \<Longrightarrow> aug n u r c = aug n t r c"
      and sol: "\<And>x. solves p n u x \<longleftrightarrow> solves p n t x"
      using clear_entry_keeps [OF assms(1,2) _ assms(4) j(2) _ _ pivot, of 0] I j by auto
    have "lower n i u"
      unfolding lower_def
    proof (intro allI impI)
      fix c r
      assume c: "c < i" "aug n u c c \<noteq> 0" and r: "r < n" "c < r"
      have "aug n u c c = aug n t c c" using same c j by simp
      then have zero: "\<And>q. q < n \<Longrightarrow> c < q \<Longrightarrow> aug n t q c = 0" using I c by (auto simp: lower_def)
      then show "aug n u r c = 0" using same [of r c] r c(1) assms(4) by simp
    qed
    moreover have "aug n u r i = 0" if "r < Suc j" "i < r" for r
      using that same [of r i] u(3) I j assms(4) by (cases "r = j") auto
    ultimately show "\<exists>u. clear_entry minv p n 0 i j t = Some u \<and> ?I (Suc j) u"
      using u same sol I j by (intro exI [of _ u]) auto
  qed (use assms in auto)
  then obtain t where t: "rows_loop (clear_entry minv p n 0 i) [i + 1..<n] s = Some t" "?I n t" by blast
  moreover have "lower n (Suc i) t" using t(2) by (auto simp: lower_def less_Suc_eq)
  ultimately show ?thesis
    using False assms(4) by (intro exI [of _ t]) (simp add: triangle_step_def cell_aug del: upt_Suc_append)
qed

text \<open>When every pivot is nonzero, the second phase clears one column above the diagonal after the other.\<close>

definition upper :: "nat \<Rightarrow> nat \<Rightarrow> system \<Rightarrow> bool" where
  "upper n k s \<longleftrightarrow> (\<forall>c < k. \<forall>r < c. aug n s r c = 0)"

definition pivots :: "nat \<Rightarrow> system \<Rightarrow> bool" where
  "pivots n s \<longleftrightarrow> (\<forall>i < n. aug n s i i \<noteq> 0)"

lemma back_step_keeps:
  assumes "1 < p" "inverts minv p" "shaped p n s" "i < n"
  shows "\<exists>t. back_step minv p n i s = Some t \<and> shaped p n t \<and> (\<forall>r < n. aug n t r r = aug n s r r) \<and>
    (pivots n s \<and> lower n n s \<and> upper n i s \<longrightarrow>
      lower n n t \<and> upper n (Suc i) t \<and> (\<forall>x. solves p n t x \<longleftrightarrow> solves p n s x))"
proof (cases "aug n s i i = 0")
  case True
  then show ?thesis using assms(3,4) by (intro exI [of _ s]) (auto simp: back_step_def cell_aug pivots_def)
next
  case False
  let ?f = "\<lambda>j s. if fst s ! (n * j + i) \<noteq> 0 then clear_entry minv p n i i j s else Some s"
  let ?I = "\<lambda>j t. shaped p n t \<and> (\<forall>r < n. \<forall>c \<le> n. i \<le> r \<or> c < i \<or> c = r \<longrightarrow> aug n t r c = aug n s r c) \<and>
    (\<forall>r < j. aug n t r i = 0) \<and> (pivots n s \<and> lower n n s \<longrightarrow> (\<forall>x. solves p n t x \<longleftrightarrow> solves p n s x))"
  have "\<exists>t. rows_loop ?f [0..<i] s = Some t \<and> ?I i t"
  proof (rule rows_loop_range [where I = ?I])
    fix j t
    assume j: "0 \<le> j" "j < i" and I: "?I j t"
    show "\<exists>u. ?f j t = Some u \<and> ?I (Suc j) u"
    proof (cases "aug n t j i = 0")
      case True
      then show ?thesis using I assms(4) by (intro exI [of _ t]) (simp add: cell_aug less_Suc_eq)
    next
      case nonzero: False
      have row: "aug n t i c = aug n s i c" if "c \<le> n" for c using I that assms(4) by simp
      have pre: "shaped p n t" "j < n" "i \<noteq> j" "aug n t i i \<noteq> 0" using I j assms(4) False row [of i] by auto
      obtain u where u: "clear_entry minv p n i i j t = Some u" "shaped p n u" "aug n u j i = 0"
        and same: "\<And>r c. r < n \<Longrightarrow> c \<le> n \<Longrightarrow> r \<noteq> j \<or> c < i \<Longrightarrow> aug n u r c = aug n t r c"
        and sol: "\<And>x. \<forall>c < i. aug n t i c = 0 \<Longrightarrow> solves p n u x \<longleftrightarrow> solves p n t x"
        using clear_entry_keeps [OF assms(1,2) pre(1) assms(4) pre(2,3) order_refl pre(4)] by blast
      have "aug n u r i = 0" if "r < Suc j" for r
        using that same [of r i] u(3) I j assms(4) by (cases "r = j") auto
      moreover have "solves p n u x \<longleftrightarrow> solves p n s x" if "pivots n s" "lower n n s" for x
      proof -
        have "\<forall>c < i. aug n t i c = 0" using that row assms(4) by (simp add: lower_def pivots_def)
        then show ?thesis using sol I that by simp
      qed
      moreover have "aug n u r c = aug n s r c" if "r < n" "c \<le> n" "i \<le> r \<or> c < i \<or> c = r" for r c
        using same [of r c] I j that by auto
      ultimately show ?thesis
        using u(1,2) nonzero assms(4) by (intro exI [of _ u]) (simp add: cell_aug)
    qed
  qed (use assms in auto)
  then obtain t where t: "rows_loop ?f [0..<i] s = Some t" "?I i t" by blast
  have "lower n n t" if "pivots n s" "lower n n s"
    using that t(2) unfolding lower_def pivots_def by (smt (verit) le_less_linear less_imp_le less_le_trans)
  moreover have "upper n (Suc i) t" if "upper n i s"
    using that t(2) assms(4) by (auto simp: upper_def less_Suc_eq)
  moreover have "back_step minv p n i s = Some t" using t(1) False assms(4) by (simp add: back_step_def cell_aug)
  moreover have "aug n t r r = aug n s r r" if "r < n" for r
    using conjunct1 [OF conjunct2 [OF t(2)]] that less_imp_le [OF that] by blast
  ultimately show ?thesis using t(2) by (intro exI [of _ t]) metis
qed

text \<open>The last phase divides the rows of a diagonal matrix by their pivots.\<close>

lemma residual_diagonal:
  assumes "\<And>c. c < n \<Longrightarrow> c \<noteq> r \<Longrightarrow> aug n s r c = 0" "r < n"
  shows "residual n s x r = aug n s r r * x r - aug n s r n"
proof -
  have "(\<Sum>c < n. aug n s r c * x c) = (\<Sum>c < n. if c = r then aug n s r r * x r else 0)"
    by (rule sum.cong) (use assms in auto)
  then show ?thesis using assms(2) by (simp add: residual_def)
qed

lemma scaled_dvd:
  fixes p a v x e f :: int
  assumes "p dvd a * v - 1" "p dvd f - e * v"
  shows "p dvd x - f \<longleftrightarrow> p dvd a * x - e"
proof
  assume "p dvd x - f"
  moreover have "a * x - e = a * (x - f) + a * (f - e * v) + e * (a * v - 1)" by (simp add: algebra_simps)
  ultimately show "p dvd a * x - e" using assms by (metis dvd_add dvd_mult)
next
  assume "p dvd a * x - e"
  moreover have "x - f = v * (a * x - e) - (f - e * v) - x * (a * v - 1)" by (simp add: algebra_simps)
  ultimately show "p dvd x - f" using assms by (metis dvd_diff dvd_mult)
qed

definition diagonal :: "nat \<Rightarrow> system \<Rightarrow> bool" where
  "diagonal n s \<longleftrightarrow> (\<forall>r < n. \<forall>c < n. r \<noteq> c \<longrightarrow> aug n s r c = 0)"

lemma pivot_step_keeps:
  assumes "1 < p" "inverts minv p" "shaped p n s" "i < n"
  shows "\<exists>t. pivot_step minv p n i s = Some t \<and> shaped p n t \<and>
    (\<forall>r < n. \<forall>c < n. aug n t r c = (if r = i \<and> c = i \<and> aug n s i i \<noteq> 0 then 1 else aug n s r c)) \<and>
    (pivots n s \<and> diagonal n s \<longrightarrow> (\<forall>x. solves p n t x \<longleftrightarrow> solves p n s x))"
proof (cases "aug n s i i = 0")
  case True
  then have "pivot_step minv p n i s = Some s" using assms(4) by (cases s) (simp add: pivot_step_def aug_def)
  then show ?thesis using True assms(3) by (intro exI [of _ s]) simp
next
  case False
  let ?a = "aug n s i i"
  have range: "0 \<le> aug n s r c \<and> aug n s r c < p" if "r < n" "c \<le> n" for r c
    using assms(3) that by (simp add: shaped_def)
  have lengths: "length (fst s) = n * n" "length (snd s) = n" using assms(3) by (auto simp: shaped_def)
  have "?a \<in> {1..<p}" using range [of i i] assms(4) False by auto
  then obtain v where v: "minv ?a p = Some v" "?a * v mod p = 1"
    using bspec [OF assms(2) [unfolded inverts_def]] by blast
  define t where "t = ((fst s)[n * i + i := ?a * v mod p], (snd s)[i := snd s ! i * v mod p])"
  have step: "pivot_step minv p n i s = Some t"
    using v(1) False assms(4) by (cases s) (simp add: pivot_step_def t_def aug_def)
  have aug: "aug n t r c = (if r = i \<and> c = i then 1 else if r = i \<and> c = n then aug n s i n * v mod p else aug n s r c)"
    if "r < n" "c \<le> n" for r c
    using that v(2) lengths assms(4) cell_less [of i n i] by (auto simp: t_def aug_def nth_list_update cell_eq)
  have "shaped p n t"
    using aug range assms(1) lengths by (auto simp: shaped_def t_def)
  moreover have "solves p n t x \<longleftrightarrow> solves p n s x" if diag: "diagonal n s" for x
  proof -
    have same: "residual n t x r = residual n s x r" if "r < n" "r \<noteq> i" for r
      using that aug by (intro residual_same) auto
    have s: "residual n s x i = ?a * x i - aug n s i n"
      using diag assms(4) by (intro residual_diagonal) (auto simp: diagonal_def)
    have t: "residual n t x i = x i - aug n s i n * v mod p"
      using residual_diagonal [of n i t x] diag aug assms(4) by (simp add: diagonal_def)
    have "p dvd ?a * v - 1" using v(2) mod_diff_dvd [of p "?a * v"] by (metis dvd_minus_iff minus_diff_eq)
    moreover have "p dvd aug n s i n * v mod p - aug n s i n * v" by (rule mod_diff_dvd)
    ultimately have "p dvd residual n t x i \<longleftrightarrow> p dvd residual n s x i"
      unfolding s t by (rule scaled_dvd)
    then show ?thesis using same unfolding solves_def by metis
  qed
  ultimately show ?thesis
    using step aug False by (intro exI [of _ t]) auto
qed


subsection \<open>The whole reduction\<close>

lemma triangle_phase:
  assumes "1 < p" "inverts minv p" "shaped p n s" "0 < n"
  shows "\<exists>t. rows_loop (triangle_step minv p n) [0..<n - 1] s = Some t \<and> shaped p n t \<and> lower n n t \<and>
    (\<forall>x. solves p n t x \<longleftrightarrow> solves p n s x)"
proof -
  let ?I = "\<lambda>i t. shaped p n t \<and> lower n i t \<and> (\<forall>x. solves p n t x \<longleftrightarrow> solves p n s x)"
  have "\<exists>t. rows_loop (triangle_step minv p n) [0..<n - 1] s = Some t \<and> ?I (n - 1) t"
  proof (rule rows_loop_range [where I = ?I])
    fix i t
    assume "i < n - 1" and I: "?I i t"
    then have "i < n" by simp
    then obtain u where "triangle_step minv p n i t = Some u" "shaped p n u" "lower n (Suc i) u" "\<And>x. solves p n u x \<longleftrightarrow> solves p n t x"
      using triangle_step_keeps [OF assms(1,2), of n t i] I by blast
    then show "\<exists>u. triangle_step minv p n i t = Some u \<and> ?I (Suc i) u" using I by (intro exI [of _ u]) simp
  qed (use assms(3) in \<open>auto simp: lower_def\<close>)
  then obtain t where t: "rows_loop (triangle_step minv p n) [0..<n - 1] s = Some t" "?I (n - 1) t" by blast
  have "lower n n t"
    unfolding lower_def
  proof (intro allI impI)
    fix c r assume c: "c < n" "aug n t c c \<noteq> 0" and r: "r < n" "c < r"
    then have "c < n - 1" by simp
    moreover have "lower n (n - 1) t" using t(2) by (rule conjunct1 [OF conjunct2])
    ultimately show "aug n t r c = 0" using c r unfolding lower_def by blast
  qed
  then show ?thesis using t by (intro exI [of _ t]) simp
qed

lemma back_phase:
  assumes "1 < p" "inverts minv p" "shaped p n s" "0 < n" "lower n n s"
  shows "\<exists>t. rows_loop (back_step minv p n) [1..<n] s = Some t \<and> shaped p n t \<and> (\<forall>r < n. aug n t r r = aug n s r r) \<and>
    (pivots n s \<longrightarrow> diagonal n t \<and> (\<forall>x. solves p n t x \<longleftrightarrow> solves p n s x))"
proof -
  let ?I = "\<lambda>i t. shaped p n t \<and> (\<forall>r < n. aug n t r r = aug n s r r) \<and>
    (pivots n s \<longrightarrow> lower n n t \<and> upper n i t \<and> (\<forall>x. solves p n t x \<longleftrightarrow> solves p n s x))"
  have "\<exists>t. rows_loop (back_step minv p n) [1..<n] s = Some t \<and> ?I n t"
  proof (rule rows_loop_range [where I = ?I])
    fix i t
    assume "i < n" and I: "?I i t"
    then obtain u where "back_step minv p n i t = Some u" "shaped p n u" "\<forall>r < n. aug n u r r = aug n t r r"
      "pivots n t \<and> lower n n t \<and> upper n i t \<longrightarrow> lower n n u \<and> upper n (Suc i) u \<and> (\<forall>x. solves p n u x \<longleftrightarrow> solves p n t x)"
      using back_step_keeps [OF assms(1,2), of n t i] by blast
    moreover have "pivots n t \<longleftrightarrow> pivots n s" using I by (simp add: pivots_def)
    ultimately show "\<exists>u. back_step minv p n i t = Some u \<and> ?I (Suc i) u" using I by (intro exI [of _ u]) simp
  qed (use assms in \<open>auto simp: upper_def\<close>)
  moreover have "diagonal n t" if "pivots n t" "lower n n t" "upper n n t" for t
    using that unfolding diagonal_def pivots_def lower_def upper_def by (metis nat_neq_iff)
  ultimately show ?thesis by (metis pivots_def)
qed

lemma pivot_phase:
  assumes "1 < p" "inverts minv p" "shaped p n s"
  shows "\<exists>t. rows_loop (pivot_step minv p n) [0..<n] s = Some t \<and>
    (\<forall>r < n. \<forall>c < n. aug n t r c = (if r = c \<and> aug n s r c \<noteq> 0 then 1 else aug n s r c)) \<and>
    (pivots n s \<and> diagonal n s \<longrightarrow> (\<forall>x. solves p n t x \<longleftrightarrow> solves p n s x))"
proof -
  let ?I = "\<lambda>i t. shaped p n t \<and>
    (\<forall>r < n. \<forall>c < n. aug n t r c = (if r = c \<and> r < i \<and> aug n s r c \<noteq> 0 then 1 else aug n s r c)) \<and>
    (pivots n s \<and> diagonal n s \<longrightarrow> (\<forall>x. solves p n t x \<longleftrightarrow> solves p n s x))"
  have "\<exists>t. rows_loop (pivot_step minv p n) [0..<n] s = Some t \<and> ?I n t"
  proof (rule rows_loop_range [where I = ?I])
    fix i t
    assume i: "i < n" and I: "?I i t"
    then obtain u where u: "pivot_step minv p n i t = Some u" "shaped p n u"
      "\<forall>r < n. \<forall>c < n. aug n u r c = (if r = i \<and> c = i \<and> aug n t i i \<noteq> 0 then 1 else aug n t r c)"
      "pivots n t \<and> diagonal n t \<longrightarrow> (\<forall>x. solves p n u x \<longleftrightarrow> solves p n t x)"
      using pivot_step_keeps [OF assms(1,2), of n t i] by blast
    have "pivots n t" if "pivots n s" using that I by (simp add: pivots_def)
    moreover have "diagonal n t" if "diagonal n s" using that I by (simp add: diagonal_def)
    moreover have "aug n u r c = (if r = c \<and> r < Suc i \<and> aug n s r c \<noteq> 0 then 1 else aug n s r c)" if "r < n" "c < n" for r c
      using u(3) I i that by (auto simp: less_Suc_eq)
    ultimately show "\<exists>u. pivot_step minv p n i t = Some u \<and> ?I (Suc i) u"
      using u(1,2,4) I by (intro exI [of _ u]) simp
  qed (use assms in auto)
  then obtain t where t: "rows_loop (pivot_step minv p n) [0..<n] s = Some t" "?I n t" by blast
  moreover have "aug n t r c = (if r = c \<and> aug n s r c \<noteq> 0 then 1 else aug n s r c)" if "r < n" "c < n" for r c
    using conjunct1 [OF conjunct2 [OF t(2)]] that by simp
  ultimately show ?thesis by (intro exI [of _ t]) simp
qed

text \<open>
  C36: row reduction modulo a prime solves the system when it meets no zero pivot: on a matrix of the declared size with entries
  below the modulus, and an inverse for every number between, the reduction returns; and if no diagonal entry of its result is
  zero, then the result is the identity matrix and the right side is, modulo the prime, the one solution of the system given.
\<close>

theorem row_reduced:
  assumes "1 < p" "inverts minv p" "shaped p n s" "0 < n"
  shows "\<exists>t. bn_mod_row_reduce minv p n s = Some t \<and>
    ((\<forall>i < n. fst t ! (n * i + i) \<noteq> 0) \<longrightarrow>
      (\<forall>i < n. \<forall>j < n. fst t ! (n * i + j) = (if i = j then 1 else 0)) \<and>
      (\<forall>x. solves p n s x \<longleftrightarrow> (\<forall>i < n. p dvd x i - snd t ! i)))"
proof -
  obtain a where a: "rows_loop (triangle_step minv p n) [0..<n - 1] s = Some a" "shaped p n a" "lower n n a"
    "\<And>x. solves p n a x \<longleftrightarrow> solves p n s x"
    using triangle_phase [OF assms] by blast
  obtain b where b: "rows_loop (back_step minv p n) [1..<n] a = Some b" "shaped p n b" "\<forall>r < n. aug n b r r = aug n a r r"
    "pivots n a \<longrightarrow> diagonal n b \<and> (\<forall>x. solves p n b x \<longleftrightarrow> solves p n a x)"
    using back_phase [OF assms(1,2) a(2) assms(4) a(3)] by blast
  obtain t where t: "rows_loop (pivot_step minv p n) [0..<n] b = Some t"
    "\<And>r c. r < n \<Longrightarrow> c < n \<Longrightarrow> aug n t r c = (if r = c \<and> aug n b r c \<noteq> 0 then 1 else aug n b r c)"
    "pivots n b \<and> diagonal n b \<longrightarrow> (\<forall>x. solves p n t x \<longleftrightarrow> solves p n b x)"
    using pivot_phase [OF assms(1,2) b(2)] by blast
  have "bn_mod_row_reduce minv p n s = Some t"
    using a(1) b(1) t(1) assms(4) by (simp add: bn_mod_row_reduce_def)
  moreover have "(\<forall>i < n. \<forall>j < n. fst t ! (n * i + j) = (if i = j then 1 else 0)) \<and>
      (\<forall>x. solves p n s x \<longleftrightarrow> (\<forall>i < n. p dvd x i - snd t ! i))" if "\<forall>i < n. fst t ! (n * i + i) \<noteq> 0"
  proof -
    have pb: "pivots n b" unfolding pivots_def
    proof (intro allI impI)
      fix i assume "i < n"
      then show "aug n b i i \<noteq> 0" using that t(2) [of i i] by (auto simp: cell_aug)
    qed
    then have pa: "pivots n a" using b(3) by (simp add: pivots_def)
    have diag: "diagonal n b" using b(4) pa by simp
    have unit: "aug n t r c = (if r = c then 1 else 0)" if "r < n" "c < n" for r c
      using that t(2) [OF that] pb diag by (cases "r = c") (simp_all add: pivots_def diagonal_def)
    have "residual n t x i = x i - snd t ! i" if "i < n" for x i
      using residual_diagonal [of n i t x] unit that by (simp add: aug_def)
    then have "solves p n t x \<longleftrightarrow> (\<forall>i < n. p dvd x i - snd t ! i)" for x by (simp add: solves_def)
    moreover have "solves p n t x \<longleftrightarrow> solves p n s x" for x using pa pb diag a(4) b(4) t(3) by simp
    ultimately show ?thesis using unit by (simp add: cell_aug)
  qed
  ultimately show ?thesis by blast
qed

definition inverse7 :: "int \<Rightarrow> int \<Rightarrow> int option" where
  "inverse7 a p = find (\<lambda>v. a * v mod p = 1) [0, 1, 2, 3, 4, 5, 6]"

lemma row_reduced_witness:
  "bn_mod_row_reduce inverse7 7 2 ([2, 1, 1, 3], [3, 5]) = Some ([1, 0, 0, 1], [5, 0]) \<and>
   (\<exists>t. bn_mod_row_reduce inverse7 7 2 ([2, 1, 1, 3], [3, 5]) = Some t \<and>
    ((\<forall>i < 2. fst t ! (2 * i + i) \<noteq> 0) \<longrightarrow>
      (\<forall>i < 2. \<forall>j < 2. fst t ! (2 * i + j) = (if i = j then 1 else 0)) \<and>
      (\<forall>x. solves 7 2 ([2, 1, 1, 3], [3, 5]) x \<longleftrightarrow> (\<forall>i < 2. 7 dvd x i - snd t ! i))))"
proof -
  have "{1..<7 :: int} = {1, 2, 3, 4, 5, 6}" by code_simp
  then have "inverts inverse7 7" by (simp add: inverts_def inverse7_def)
  moreover have "shaped 7 2 ([2, 1, 1, 3], [3, 5])"
    by (auto simp: shaped_def aug_def less_2_cases_iff le_less numeral_2_eq_2 less_Suc_eq)
  ultimately have "\<exists>t. bn_mod_row_reduce inverse7 7 2 ([2, 1, 1, 3], [3, 5]) = Some t \<and>
    ((\<forall>i < 2. fst t ! (2 * i + i) \<noteq> 0) \<longrightarrow>
      (\<forall>i < 2. \<forall>j < 2. fst t ! (2 * i + j) = (if i = j then 1 else 0)) \<and>
      (\<forall>x. solves 7 2 ([2, 1, 1, 3], [3, 5]) x \<longleftrightarrow> (\<forall>i < 2. 7 dvd x i - snd t ! i)))"
    by (intro row_reduced) simp_all
  then show ?thesis by (rule conjI [rotated]) code_simp
qed

text \<open>Rows are not exchanged, so a system whose first pivot is zero is left as it is.\<close>

lemma zero_pivot_unsolved: "bn_mod_row_reduce inverse7 7 2 ([0, 1, 1, 0], [3, 5]) = Some ([0, 1, 1, 0], [3, 5])"
  by code_simp

end
