(* ===== verification/Timers.thy ===== *)
theory Timers
  imports Value_Text
begin

text \<open>
  The timers of \<open>Util/timer_utils.h\<close> and \<open>.cpp\<close>: the clock is an argument, in nanoseconds, and an elapsed time is in
  microseconds. A factor that multiplies a number of 64 bits is a \<open>float\<close>: the comparison and the product with it are
  arguments.
\<close>

subsection \<open>Timers\<close>

datatype TimerState = TIMER_UNKNOWN | TIMER_UNSTARTED | TIMER_PAUSED | TIMER_RUNNING | TIMER_STOPPED

record Timer =
  tm_state :: TimerState
  tm_start :: int
  tm_stop :: int
  tm_elapsed :: int

definition Timer_new :: "int \<Rightarrow> int \<Rightarrow> Timer" where
  "Timer_new start stop = \<lparr>tm_state = TIMER_UNSTARTED, tm_start = start, tm_stop = stop, tm_elapsed = 0\<rparr>"

definition GetTimerState :: "Timer \<Rightarrow> TimerState" where
  "GetTimerState t = tm_state t"

definition GetElapsedTime :: "Timer \<Rightarrow> int" where
  "GetElapsedTime t = tm_elapsed t"

definition StartTimer :: "int \<Rightarrow> Timer \<Rightarrow> bool \<times> Timer" where
  "StartTimer now t =
     (if tm_state t \<noteq> TIMER_UNSTARTED \<and> tm_state t \<noteq> TIMER_PAUSED then (False, t)
      else (True, t\<lparr>tm_state := TIMER_RUNNING, tm_start := now\<rparr>))"

definition StopTimer :: "int \<Rightarrow> bool \<Rightarrow> Timer \<Rightarrow> bool \<times> Timer" where
  "StopTimer now stop_permanently t =
     (if tm_state t \<noteq> TIMER_RUNNING then (False, t)
      else let t = t\<lparr>tm_stop := now\<rparr>
           in if tm_stop t < tm_start t then (False, t)
              else (True, t\<lparr>tm_state := if stop_permanently then TIMER_STOPPED else TIMER_PAUSED,
                            tm_elapsed := tm_elapsed t + (tm_stop t - tm_start t) div 1000\<rparr>))"

definition ResetTimer :: "Timer \<Rightarrow> bool \<times> Timer" where
  "ResetTimer t = (True, t\<lparr>tm_state := TIMER_UNSTARTED, tm_elapsed := 0\<rparr>)"

lemma elapsed_grows: "tm_elapsed t \<le> tm_elapsed (snd (StartTimer now t))" "tm_elapsed t \<le> tm_elapsed (snd (StopTimer now b t))"
  by (auto simp: StartTimer_def StopTimer_def Let_def)

text \<open>Starts and stops in turn add up the time between them; a stop for good ends that.\<close>

lemma timed: "tm_state t \<in> {TIMER_UNSTARTED, TIMER_PAUSED} \<Longrightarrow> a \<le> b \<Longrightarrow>
    StopTimer b p (snd (StartTimer a t)) =
      (True, t\<lparr>tm_state := if p then TIMER_STOPPED else TIMER_PAUSED, tm_start := a, tm_stop := b,
               tm_elapsed := tm_elapsed t + (b - a) div 1000\<rparr>)"
  by (auto simp: StartTimer_def StopTimer_def)

lemma stopped_for_good: "tm_state t = TIMER_STOPPED \<Longrightarrow> StartTimer a t = (False, t) \<and> StopTimer b p t = (False, t)"
  by (simp add: StartTimer_def StopTimer_def)

subsection \<open>A time as text\<close>

text \<open>From 24,856 days on, the product of the days with the seconds of a day overflows.\<close>

definition FormatTime :: "int \<Rightarrow> string option" where
  "FormatTime total_milliseconds =
     (if total_milliseconds < 0 then Some []
      else if total_milliseconds = 0 then Some ''0.0 seconds''
      else let total_seconds = total_milliseconds div 1000;
               days = total_seconds div 86400
           in if 2 ^ 31 \<le> days * 86400 then None
              else let hours = (total_seconds - days * 86400) div 3600;
                       minutes = (total_seconds - days * 86400 - hours * 3600) div 60;
                       seconds = total_seconds - days * 86400 - hours * 3600 - minutes * 60;
                       milliseconds = total_milliseconds mod 1000
                   in if days < 0 \<or> hours < 0 \<or> 24 \<le> hours \<or> minutes < 0 \<or> 60 \<le> minutes \<or> seconds < 0 \<or> 60 \<le> seconds then Some []
                      else let hours_digit_one = (if 10 \<le> hours then Itoa (hours div 10) else []);
                               hours_digit_two = (if 0 < hours then Itoa (hours mod 10) @ '':'' else []);
                               minutes_digit_one = (if 10 \<le> minutes then Itoa (minutes div 10) else ''0'');
                               minutes_digit_two = (if 0 < minutes then Itoa (minutes mod 10) else ''0'');
                               seconds_digit_one = (if 10 \<le> seconds then Itoa (seconds div 10) else ''0'');
                               seconds_digit_two = (if 0 < seconds then Itoa (seconds mod 10) else ''0'');
                               milliseconds_digit_one = (if 100 \<le> milliseconds then Itoa (milliseconds div 100) else ''0'');
                               milliseconds_digit_two = (if 10 \<le> milliseconds then Itoa (milliseconds div 10) else ''0'');
                               milliseconds_digit_three = (if 0 < milliseconds then Itoa (milliseconds mod 10) else ''0'')
                           in Some (hours_digit_one @ hours_digit_two
                                @ (if minutes = 0 \<and> hours = 0 then [] else minutes_digit_one @ minutes_digit_two @ '':'')
                                @ seconds_digit_one @ seconds_digit_two @ ''.''
                                @ milliseconds_digit_one @ milliseconds_digit_two @ milliseconds_digit_three))"

definition GetElapsedTimeString :: "Timer \<Rightarrow> string option" where
  "GetElapsedTimeString t = FormatTime (tm_elapsed t div 1000)"

text \<open>No guard of the parts ever applies.\<close>

lemma time_parts:
  fixes s :: int
  assumes "0 \<le> s"
  defines "d \<equiv> s div 86400" and "h \<equiv> (s - s div 86400 * 86400) div 3600"
  defines "m \<equiv> (s - d * 86400 - h * 3600) div 60"
  shows "0 \<le> d \<and> 0 \<le> h \<and> h < 24 \<and> 0 \<le> m \<and> m < 60 \<and> 0 \<le> s - d * 86400 - h * 3600 - m * 60 \<and> s - d * 86400 - h * 3600 - m * 60 < 60"
proof -
  define r where "r = s mod 86400"
  have r: "0 \<le> r" "r < 86400" "s - d * 86400 = r" by (auto simp: r_def d_def minus_div_mult_eq_mod)
  then have "h = r div 3600" by (simp add: h_def d_def)
  moreover define q where "q = r mod 3600"
  ultimately have q: "0 \<le> q" "q < 3600" "r - h * 3600 = q" "m = q div 60" using r by (auto simp: m_def minus_div_mult_eq_mod)
  moreover have "q - m * 60 = q mod 60" using q by (simp add: minus_div_mult_eq_mod)
  moreover have "0 \<le> h" "h < 24" using r \<open>h = r div 3600\<close> by auto
  moreover have "0 \<le> m" "m < 60" using q by auto
  moreover have "0 \<le> d" using assms(1) by (simp add: d_def)
  ultimately show ?thesis using r(3) by simp
qed

text \<open>The tenths and hundredths of a second are wrong: the middle digit is not taken modulo 10, and days are left out.\<close>

lemma milliseconds_four_digits: "FormatTime 1123 = Some ''01.1123''" "FormatTime 86400007 = Some ''00.007''"
  by code_simp+

subsection \<open>Growing sleep times\<close>

record sleep_timer =
  sl_n :: int
  sl_num_failures :: int
  sl_num_failures_tolerated :: int
  sl_backoff_positive :: bool
  sl_default_time :: "64 word"
  sl_current_time :: "64 word"
  sl_total_slept_time :: "64 word"

definition sleep_timer_new :: "int \<Rightarrow> bool \<Rightarrow> int \<Rightarrow> 64 word \<Rightarrow> sleep_timer" where
  "sleep_timer_new n positive tolerated default_time =
     \<lparr>sl_n = n, sl_num_failures = 0, sl_num_failures_tolerated = tolerated, sl_backoff_positive = positive,
      sl_default_time = default_time, sl_current_time = default_time, sl_total_slept_time = 0\<rparr>"

definition sleep_timer_default :: "int \<Rightarrow> bool \<Rightarrow> sleep_timer" where
  "sleep_timer_default n positive = sleep_timer_new n positive (- 1) 1"

definition sleep_timer_Reset :: "sleep_timer \<Rightarrow> sleep_timer" where
  "sleep_timer_Reset t = t\<lparr>sl_num_failures := 0, sl_current_time := sl_default_time t, sl_total_slept_time := 0\<rparr>"

text \<open>\<open>too_long\<close> compares with \<open>ULLONG_MAX\<close> divided by the factor, \<open>multiplied\<close> multiplies by it.\<close>

definition GetSleepTime :: "(64 word \<Rightarrow> bool) \<Rightarrow> (64 word \<Rightarrow> 64 word) \<Rightarrow> sleep_timer \<Rightarrow> 64 word \<Rightarrow> bool \<times> 64 word \<times> sleep_timer" where
  "GetSleepTime too_long multiplied t time =
     (if sl_n t \<le> 0 \<or> \<not> sl_backoff_positive t then (False, time, t)
      else if 0 \<le> sl_num_failures_tolerated t \<and> sl_num_failures_tolerated t < sl_num_failures t then (False, time, t)
      else let time = sl_current_time t;
               t = t\<lparr>sl_total_slept_time := sl_total_slept_time t + sl_current_time t, sl_num_failures := sl_num_failures t + 1\<rparr>
           in if sl_num_failures t mod sl_n t = 0
              then if too_long (sl_current_time t) then (False, time, t)
                   else (True, time, t\<lparr>sl_current_time := multiplied (sl_current_time t)\<rparr>)
              else (True, time, t))"

text \<open>So one failure more than tolerated is granted a time.\<close>

lemma sleep_granted:
  fixes too_long :: "64 word \<Rightarrow> bool" and multiplied :: "64 word \<Rightarrow> 64 word"
  assumes "0 < n" "0 \<le> tolerated" "\<And>w. \<not> too_long w" "k \<le> nat tolerated + 1"
  defines "after \<equiv> \<lambda>t. snd (snd (GetSleepTime too_long multiplied t 0))"
  shows "sl_num_failures ((after ^^ k) (sleep_timer_new n True tolerated d)) = int k
    \<and> (fst (GetSleepTime too_long multiplied ((after ^^ k) (sleep_timer_new n True tolerated d)) 0) \<longleftrightarrow> int k \<le> tolerated)"
proof -
  let ?t = "\<lambda>k. (after ^^ k) (sleep_timer_new n True tolerated d)"
  have "sl_n (?t k) = n \<and> sl_backoff_positive (?t k) \<and> sl_num_failures_tolerated (?t k) = tolerated \<and> sl_num_failures (?t k) = int k"
    using assms(4)
  proof (induction k)
    case (Suc k)
    then show ?case using assms(1,2,3) by (auto simp: after_def GetSleepTime_def Let_def)
  qed (simp add: sleep_timer_new_def)
  then show ?thesis using assms(1,2,3) by (auto simp: GetSleepTime_def Let_def)
qed

end
