(* ===== verification/Socket_Types.thy ===== *)
theory Socket_Types
  imports Timers Char_Casting
begin

text \<open>
  The data of the sockets of \<open>Util/socket.h\<close>: identifiers of sockets and the maps they are keys of, statistics, the
  conditions that end listening and how they are copied, and parameters. Counters of type \<open>int\<close> are integers, numbers
  of 64 bits are words, a pointer is its address. The timers of the statistics are not activated, which is the default.
\<close>

subsection \<open>Enumerations\<close>

datatype SocketType = SocketType_UNKNOWN | OS_TCP | RABBITMQ | COOKIE

datatype SocketRole = SocketRole_UNKNOWN | SERVER | CLIENT | NEITHER

datatype ListenType = ListenType_UNKNOWN | HANDLE_NEW_CONNECTIONS | HANDLE_RECEIVE | HANDLE_ALL_EVENTS | USE_STOP_CONDITION

datatype ListenReturnCode = Listen_UNKNOWN | Listen_OK
  | BAD_INITIALIZATION_ERROR | BIND_ERROR | LISTEN_ERROR | CONNECT_ERROR | DISCONNECT_ERROR | Listen_SELECT_ERROR
  | SERVER_SOCKET_ERROR_EVENT | CLIENT_SOCKET_ERROR_EVENT | ERROR_EVENT | RECEIVE_ERROR | RECEIVED_UNEXPECTED_BYTES
  | Listen_SEND_ERROR | TOO_MANY_ERRORS
  | TOO_MANY_CONNECTIONS | CUMULATIVE_CONNECTIONS_THRESHOLD | CUMULATIVE_BYTES_SENT | CUMULATIVE_BYTES_RECEIVED
  | CUMULATIVE_SEND_TRANSACTIONS | CUMULATIVE_RECEIVE_TRANSACTIONS | CUMULATIVE_RECEIVE_NULL_CHARS | NO_ACTIVITY
  | NEW_CONNECTION | RECEIVE

datatype SendReturnCode = SUCCESS | BAD_SOCKET | SOCKET_NOT_READY | SOCKET_ERROR | UNKNOWN_ERROR | UNKNOWN_SOCKET
  | SELECT_ERROR | SEND_ERROR | ENQUEUE_ERROR | BAD_ROLE | CANNOT_CONNECT

datatype ConditionOperation = Cond_NONE | Cond_IDENTITY | Cond_NOT | Cond_AND | Cond_OR | Cond_XOR

fun GetListenReturnCodeString :: "ListenReturnCode \<Rightarrow> string" where
  "GetListenReturnCodeString Listen_UNKNOWN = ''UNKNOWN''"
| "GetListenReturnCodeString Listen_OK = ''OK''"
| "GetListenReturnCodeString BAD_INITIALIZATION_ERROR = ''BAD_INITIALIZATION_ERROR''"
| "GetListenReturnCodeString BIND_ERROR = ''BIND_ERROR''"
| "GetListenReturnCodeString LISTEN_ERROR = ''LISTEN_ERROR''"
| "GetListenReturnCodeString CONNECT_ERROR = ''CONNECT_ERROR''"
| "GetListenReturnCodeString DISCONNECT_ERROR = ''DISCONNECT_ERROR''"
| "GetListenReturnCodeString Listen_SELECT_ERROR = ''SELECT_ERROR''"
| "GetListenReturnCodeString SERVER_SOCKET_ERROR_EVENT = ''SERVER_SOCKET_ERROR_EVENT''"
| "GetListenReturnCodeString CLIENT_SOCKET_ERROR_EVENT = ''CLIENT_SOCKET_ERROR_EVENT''"
| "GetListenReturnCodeString ERROR_EVENT = ''ERROR_EVENT''"
| "GetListenReturnCodeString RECEIVE_ERROR = ''RECEIVE_ERROR''"
| "GetListenReturnCodeString RECEIVED_UNEXPECTED_BYTES = ''RECEIVED_UNEXPECTED_BYTES''"
| "GetListenReturnCodeString Listen_SEND_ERROR = ''SEND_ERROR''"
| "GetListenReturnCodeString TOO_MANY_ERRORS = ''TOO_MANY_ERRORS''"
| "GetListenReturnCodeString TOO_MANY_CONNECTIONS = ''TOO_MANY_CONNECTIONS''"
| "GetListenReturnCodeString CUMULATIVE_CONNECTIONS_THRESHOLD = ''CUMULATIVE_CONNECTIONS_THRESHOLD''"
| "GetListenReturnCodeString CUMULATIVE_BYTES_SENT = ''CUMULATIVE_BYTES_SENT''"
| "GetListenReturnCodeString CUMULATIVE_BYTES_RECEIVED = ''CUMULATIVE_BYTES_RECEIVED''"
| "GetListenReturnCodeString CUMULATIVE_SEND_TRANSACTIONS = ''CUMULATIVE_SEND_TRANSACTIONS''"
| "GetListenReturnCodeString CUMULATIVE_RECEIVE_TRANSACTIONS = ''CUMULATIVE_RECEIVE_TRANSACTIONS''"
| "GetListenReturnCodeString CUMULATIVE_RECEIVE_NULL_CHARS = ''CUMULATIVE_RECEIVE_NULL_CHARS''"
| "GetListenReturnCodeString NO_ACTIVITY = ''NO_ACTIVITY''"
| "GetListenReturnCodeString NEW_CONNECTION = ''NEW_CONNECTION''"
| "GetListenReturnCodeString RECEIVE = ''RECEIVE''"

text \<open>A set of codes in the order of the enumeration, and their names in the order of texts.\<close>

definition codes_in_order :: "ListenReturnCode set \<Rightarrow> ListenReturnCode list" where
  "codes_in_order codes = filter (\<lambda>c. c \<in> codes) [Listen_UNKNOWN, Listen_OK, BAD_INITIALIZATION_ERROR, BIND_ERROR,
     LISTEN_ERROR, CONNECT_ERROR, DISCONNECT_ERROR, Listen_SELECT_ERROR, SERVER_SOCKET_ERROR_EVENT,
     CLIENT_SOCKET_ERROR_EVENT, ERROR_EVENT, RECEIVE_ERROR, RECEIVED_UNEXPECTED_BYTES, Listen_SEND_ERROR, TOO_MANY_ERRORS,
     TOO_MANY_CONNECTIONS, CUMULATIVE_CONNECTIONS_THRESHOLD, CUMULATIVE_BYTES_SENT, CUMULATIVE_BYTES_RECEIVED,
     CUMULATIVE_SEND_TRANSACTIONS, CUMULATIVE_RECEIVE_TRANSACTIONS, CUMULATIVE_RECEIVE_NULL_CHARS, NO_ACTIVITY,
     NEW_CONNECTION, RECEIVE]"

fun string_less :: "string \<Rightarrow> string \<Rightarrow> bool" where
  "string_less s [] = False"
| "string_less [] (c # t) = True"
| "string_less (b # s) (c # t) = (of_char b < (of_char c :: nat) \<or> b = c \<and> string_less s t)"

fun insert_string :: "string \<Rightarrow> string list \<Rightarrow> string list" where
  "insert_string s [] = [s]"
| "insert_string s (t # ts) = (if string_less s t then s # t # ts else if s = t then t # ts else t # insert_string s ts)"

definition GetListenReturnCodeList :: "ListenReturnCode set \<Rightarrow> string list" where
  "GetListenReturnCodeList codes = fold (\<lambda>c. insert_string (GetListenReturnCodeString c)) (codes_in_order codes) []"

subsection \<open>Identifiers of sockets\<close>

record SocketIdentifier =
  sid_socket_id :: int
  sid_socket_index :: int
  sid_ip :: string
  sid_port :: "64 word"
  sid_label :: string
  sid_void_ptr :: "64 word"

definition SocketIdentifier_new :: SocketIdentifier where
  "SocketIdentifier_new = \<lparr>sid_socket_id = - 1, sid_socket_index = - 1, sid_ip = [], sid_port = 0, sid_label = [], sid_void_ptr = 0\<rparr>"

definition SocketIdentifier_id :: "int \<Rightarrow> SocketIdentifier" where
  "SocketIdentifier_id i = SocketIdentifier_new\<lparr>sid_socket_id := i\<rparr>"

definition SocketIdentifier_label :: "string \<Rightarrow> SocketIdentifier" where
  "SocketIdentifier_label l = SocketIdentifier_new\<lparr>sid_label := l\<rparr>"

definition SocketIdentifier_ptr :: "64 word \<Rightarrow> SocketIdentifier" where
  "SocketIdentifier_ptr p = SocketIdentifier_new\<lparr>sid_void_ptr := p\<rparr>"

definition SocketIdentifier_ip :: "string \<Rightarrow> 64 word \<Rightarrow> SocketIdentifier" where
  "SocketIdentifier_ip ip port = SocketIdentifier_new\<lparr>sid_ip := ip, sid_port := port\<rparr>"

definition SocketIdentifier_label_ip :: "string \<Rightarrow> string \<Rightarrow> 64 word \<Rightarrow> SocketIdentifier" where
  "SocketIdentifier_label_ip l ip port = SocketIdentifier_new\<lparr>sid_ip := ip, sid_port := port, sid_label := l\<rparr>"

definition SocketIdentifier_index :: "int \<Rightarrow> int \<Rightarrow> SocketIdentifier" where
  "SocketIdentifier_index i windows_index = SocketIdentifier_new\<lparr>sid_socket_id := i, sid_socket_index := windows_index\<rparr>"

text \<open>The order of the keys of maps and of the elements of sets: pointers do not count.\<close>

definition sid_less :: "SocketIdentifier \<Rightarrow> SocketIdentifier \<Rightarrow> bool" where
  "sid_less a b \<longleftrightarrow>
     (if sid_socket_id a \<noteq> sid_socket_id b then sid_socket_id a < sid_socket_id b
      else if sid_socket_index a \<noteq> sid_socket_index b then sid_socket_index a < sid_socket_index b
      else if sid_port a \<noteq> sid_port b then sid_port a < sid_port b
      else if sid_ip a \<noteq> sid_ip b then string_less (sid_ip a) (sid_ip b)
      else string_less (sid_label a) (sid_label b))"

definition sid_same :: "SocketIdentifier \<Rightarrow> SocketIdentifier \<Rightarrow> bool" where
  "sid_same a b \<longleftrightarrow> \<not> sid_less a b \<and> \<not> sid_less b a"

definition SocketIdentifier_Equals :: "SocketIdentifier \<Rightarrow> SocketIdentifier \<Rightarrow> bool" where
  "SocketIdentifier_Equals s t \<longleftrightarrow>
     sid_socket_id s = sid_socket_id t \<and> sid_socket_index t = sid_socket_index s \<and> sid_ip t = sid_ip s \<and>
     sid_port t = sid_port s \<and> sid_label t = sid_label s \<and>
     (0 \<le> sid_socket_id s \<or> 0 \<le> sid_socket_index s \<or>
      (sid_ip s \<noteq> [] \<and> 0 < sid_port s \<and> sid_ip t = sid_ip s \<and> sid_port t = sid_port s))"

definition SocketIdentifier_ToString :: "SocketIdentifier \<Rightarrow> string" where
  "SocketIdentifier_ToString s =
     (let add = (\<lambda>shown text (result, sep). if shown then (result @ sep @ text, '','') else (result, sep :: string))
      in fst (add (sid_void_ptr s \<noteq> 0) (''void_ptr_ address: '' @ Itoa (uint (sid_void_ptr s)))
             (add (sid_label s \<noteq> []) (''Label: '' @ sid_label s)
             (add (sid_ip s \<noteq> []) (''IP: '' @ sid_ip s @ '':'' @ Itoa (uint (sid_port s)))
             (add (sid_socket_index s \<noteq> - 1) (''Index: '' @ Itoa (sid_socket_index s))
             (add (sid_socket_id s \<noteq> - 1) (''ID: '' @ Itoa (sid_socket_id s)) ([], [])))))))"

definition PrintSocketId :: "SocketIdentifier \<Rightarrow> string" where
  "PrintSocketId s =
     (let r = (if sid_socket_id s \<noteq> - 1 then ''Socket Id: '' @ Itoa (sid_socket_id s) else []);
          r = (if 0 \<le> sid_socket_index s then r @ (if r \<noteq> [] then '', '' else []) @ ''Socket Index: '' @ Itoa (sid_socket_index s) else r)
      in if sid_ip s \<noteq> [] then r @ (if r \<noteq> [] then '', '' else []) @ ''IP: '' @ sid_ip s @ '', Port: '' @ Itoa (uint (sid_port s)) else r)"

subsection \<open>Maps and sets of sockets\<close>

text \<open>A map is the list of its entries in order.\<close>

type_synonym 'v sid_map = "(SocketIdentifier \<times> 'v) list"

fun FindOrNull :: "SocketIdentifier \<Rightarrow> 'v sid_map \<Rightarrow> 'v option" where
  "FindOrNull s [] = None"
| "FindOrNull s ((t, v) # m) = (if sid_same s t then Some v else FindOrNull s m)"

text \<open>An entry that is there keeps its key.\<close>

fun put_socket :: "SocketIdentifier \<Rightarrow> 'v \<Rightarrow> 'v sid_map \<Rightarrow> 'v sid_map" where
  "put_socket s v [] = [(s, v)]"
| "put_socket s v ((t, w) # m) =
     (if sid_same s t then (t, v) # m else if sid_less s t then (s, v) # (t, w) # m else (t, w) # put_socket s v m)"

definition FindOrInsert :: "SocketIdentifier \<Rightarrow> 'v sid_map \<Rightarrow> 'v \<Rightarrow> 'v \<times> 'v sid_map" where
  "FindOrInsert s m d = (case FindOrNull s m of Some v \<Rightarrow> (v, m) | None \<Rightarrow> (d, put_socket s d m))"

definition sid_member :: "SocketIdentifier \<Rightarrow> SocketIdentifier list \<Rightarrow> bool" where
  "sid_member s S \<longleftrightarrow> (\<exists>t \<in> set S. sid_same s t)"

definition sid_erase :: "SocketIdentifier \<Rightarrow> SocketIdentifier list \<Rightarrow> SocketIdentifier list" where
  "sid_erase s S = filter (\<lambda>t. \<not> sid_same s t) S"

lemma string_less_irrefl [simp]: "\<not> string_less s s"
  by (induction s) auto

lemma string_less_total: "string_less s t \<or> s = t \<or> string_less t s"
proof (induction s t rule: string_less.induct)
  case (3 b s c t)
  then show ?case by (auto simp: of_char_eq_iff neq_iff)
next
  case (1 s)
  then show ?case by (cases s) auto
qed auto

lemma string_less_trans: "string_less s t \<Longrightarrow> string_less t u \<Longrightarrow> string_less s u"
proof (induction s t arbitrary: u rule: string_less.induct)
  case (3 b s c t)
  then show ?case by (cases u) auto
next
  case (2 c t)
  then show ?case by (cases u) auto
qed simp

text \<open>Two keys are the same when everything but the pointer is.\<close>

lemma sid_same_iff: "sid_same a b \<longleftrightarrow> a\<lparr>sid_void_ptr := 0\<rparr> = b\<lparr>sid_void_ptr := 0\<rparr>"
proof -
  have "sid_same a b \<longleftrightarrow> sid_socket_id a = sid_socket_id b \<and> sid_socket_index a = sid_socket_index b \<and>
      sid_port a = sid_port b \<and> sid_ip a = sid_ip b \<and> sid_label a = sid_label b"
    using string_less_total [of "sid_ip a" "sid_ip b"] string_less_total [of "sid_label a" "sid_label b"]
    by (auto simp: sid_same_def sid_less_def)
  then show ?thesis by (cases a, cases b) auto
qed

lemma sid_same_refl [simp]: "sid_same s s"
  by (simp add: sid_same_iff)

lemma sid_less_trans: "sid_less a b \<Longrightarrow> sid_less b c \<Longrightarrow> sid_less a c"
  by (auto simp: sid_less_def split: if_splits dest: string_less_trans)

lemma Equals_same: "SocketIdentifier_Equals s t \<Longrightarrow> sid_same s t"
  by (cases s, cases t) (auto simp: sid_same_iff SocketIdentifier_Equals_def)

text \<open>But an identifier with a label only is not equal to itself, although labels are to identify sockets.\<close>

lemma label_not_equal: "\<not> SocketIdentifier_Equals (SocketIdentifier_label l) (SocketIdentifier_label l)"
  by (simp add: SocketIdentifier_Equals_def SocketIdentifier_label_def SocketIdentifier_new_def)

lemma FindOrNull_put: "FindOrNull t (put_socket s v m) = (if sid_same t s then Some v else FindOrNull t m)"
  by (induction s v m rule: put_socket.induct) (auto simp: sid_same_iff)

subsection \<open>Statistics\<close>

record stat_errors = 
  stat_num_errors_seen :: int
  stat_num_event_errors :: int
  stat_num_client_socket_errors :: int
  stat_num_server_socket_errors :: int
  stat_num_bind_errors :: int
  stat_num_select_errors :: int
  stat_num_receive_errors :: int
  stat_num_send_errors :: int
  stat_num_connection_errors :: int
  stat_num_disconnect_errors :: int

record stat_traffic = stat_errors +
  stat_num_peak_connections :: int
  stat_num_current_connections :: int
  stat_num_distinct_connections_seen :: int
  stat_num_received_null_characters :: int
  stat_msec_since_last_event :: "64 word"
  stat_msec_waiting_to_connect :: "64 word"
  stat_msec_waiting_to_connect_last :: "64 word"
  stat_num_sent_bytes :: "64 word"
  stat_num_sent_transactions :: int
  stat_num_received_bytes :: "64 word"
  stat_num_received_transactions :: int
  stat_num_global_sent_bytes :: "64 word"
  stat_num_global_sent_transactions :: int
  stat_num_global_received_bytes :: "64 word"
  stat_num_global_received_transactions :: int
  stat_abort_listening_with_code :: "ListenReturnCode set"

record SocketStats = stat_traffic +
  stat_num_setup_socket_calls :: int
  stat_num_connect_calls :: int
  stat_num_bind_calls :: int
  stat_num_listen_calls :: int
  stat_num_remove_connection_calls :: int
  stat_num_close_socket_calls :: int
  stat_num_times_listen_loop_called :: int
  stat_num_times_in_listen_loop :: int
  stat_num_open_new_connection_calls :: int
  stat_num_server_receive_data_calls :: int
  stat_num_send_data_calls :: int
  stat_num_send_data_calls_temp :: int
  stat_num_inside_send_data_calls :: int
  stat_num_bind_sleep_calls :: int
  stat_num_connect_sleep_calls :: int
  stat_num_failed_connect_sleep_calls :: int
  stat_bind_sleep_timer :: "64 word"
  stat_connect_sleep_timer :: "64 word"
  stat_last_connect_call_start :: int
  stat_time_from_last_connect_call :: int
  stat_time_at_last_failed_connect_call :: int
  stat_time_from_last_failed_connect_call :: int
  stat_connect_last_timer :: int
  stat_failed_connect_sleep_timer :: "64 word"

definition ResetFunctionCalls :: "SocketStats \<Rightarrow> SocketStats" where
  "ResetFunctionCalls st = st\<lparr>stat_num_setup_socket_calls := 0, stat_num_connect_calls := 0, stat_num_bind_calls := 0,
     stat_num_listen_calls := 0, stat_num_remove_connection_calls := 0, stat_num_close_socket_calls := 0,
     stat_num_times_listen_loop_called := 0, stat_num_times_in_listen_loop := 0,
     stat_num_open_new_connection_calls := 0, stat_num_server_receive_data_calls := 0,
     stat_num_send_data_calls := 0, stat_num_send_data_calls_temp := 0, stat_num_inside_send_data_calls := 0\<rparr>"

definition ResetErrorsLight :: "SocketStats \<Rightarrow> SocketStats" where
  "ResetErrorsLight st = st\<lparr>stat_num_event_errors := 0, stat_num_client_socket_errors := 0, stat_num_server_socket_errors := 0\<rparr>"

definition ResetErrors :: "SocketStats \<Rightarrow> SocketStats" where
  "ResetErrors st = (ResetErrorsLight st)\<lparr>stat_num_errors_seen := 0, stat_num_bind_errors := 0, stat_num_select_errors := 0,
     stat_num_receive_errors := 0, stat_num_send_errors := 0, stat_num_connection_errors := 0,
     stat_num_disconnect_errors := 0\<rparr>"

definition ResetSendReceiveCounts :: "SocketStats \<Rightarrow> SocketStats" where
  "ResetSendReceiveCounts st = st\<lparr>stat_num_peak_connections := 0, stat_num_current_connections := 0,
     stat_num_distinct_connections_seen := 0, stat_num_received_null_characters := 0,
     stat_abort_listening_with_code := {}, stat_num_sent_bytes := 0, stat_num_sent_transactions := 0,
     stat_num_received_bytes := 0, stat_num_received_transactions := 0\<rparr>"

definition ResetTimerFields :: "SocketStats \<Rightarrow> SocketStats" where
  "ResetTimerFields st = st\<lparr>stat_bind_sleep_timer := 0, stat_connect_sleep_timer := 0, stat_last_connect_call_start := 0,
     stat_time_from_last_connect_call := 0, stat_time_from_last_failed_connect_call := 0,
     stat_time_at_last_failed_connect_call := 0, stat_connect_last_timer := 0,
     stat_failed_connect_sleep_timer := 0, stat_msec_since_last_event := 0, stat_msec_waiting_to_connect := 0,
     stat_msec_waiting_to_connect_last := 0\<rparr>"

definition ResetGlobal :: "SocketStats \<Rightarrow> SocketStats" where
  "ResetGlobal st = st\<lparr>stat_num_global_sent_bytes := 0, stat_num_global_sent_transactions := 0,
     stat_num_global_received_bytes := 0, stat_num_global_received_transactions := 0,
     stat_num_bind_sleep_calls := 0, stat_num_connect_sleep_calls := 0,
     stat_num_failed_connect_sleep_calls := 0\<rparr>"

definition ResetAll :: "SocketStats \<Rightarrow> SocketStats" where
  "ResetAll st = ResetGlobal (ResetTimerFields (ResetErrors (ResetSendReceiveCounts (ResetFunctionCalls st))))"

text \<open>The constructor resets everything.\<close>

definition SocketStats_new :: SocketStats where
  "SocketStats_new = \<lparr>stat_num_errors_seen = 0, stat_num_event_errors = 0, stat_num_client_socket_errors = 0,
     stat_num_server_socket_errors = 0, stat_num_bind_errors = 0, stat_num_select_errors = 0,
     stat_num_receive_errors = 0, stat_num_send_errors = 0, stat_num_connection_errors = 0,
     stat_num_disconnect_errors = 0, stat_num_peak_connections = 0, stat_num_current_connections = 0,
     stat_num_distinct_connections_seen = 0, stat_num_received_null_characters = 0,
     stat_msec_since_last_event = 0, stat_msec_waiting_to_connect = 0, stat_msec_waiting_to_connect_last = 0,
     stat_num_sent_bytes = 0, stat_num_sent_transactions = 0, stat_num_received_bytes = 0,
     stat_num_received_transactions = 0, stat_num_global_sent_bytes = 0, stat_num_global_sent_transactions = 0,
     stat_num_global_received_bytes = 0, stat_num_global_received_transactions = 0,
     stat_abort_listening_with_code = {}, stat_num_setup_socket_calls = 0, stat_num_connect_calls = 0,
     stat_num_bind_calls = 0, stat_num_listen_calls = 0, stat_num_remove_connection_calls = 0,
     stat_num_close_socket_calls = 0, stat_num_times_listen_loop_called = 0, stat_num_times_in_listen_loop = 0,
     stat_num_open_new_connection_calls = 0, stat_num_server_receive_data_calls = 0,
     stat_num_send_data_calls = 0, stat_num_send_data_calls_temp = 0, stat_num_inside_send_data_calls = 0,
     stat_num_bind_sleep_calls = 0, stat_num_connect_sleep_calls = 0, stat_num_failed_connect_sleep_calls = 0,
     stat_bind_sleep_timer = 0, stat_connect_sleep_timer = 0, stat_last_connect_call_start = 0,
     stat_time_from_last_connect_call = 0, stat_time_at_last_failed_connect_call = 0,
     stat_time_from_last_failed_connect_call = 0, stat_connect_last_timer = 0,
     stat_failed_connect_sleep_timer = 0\<rparr>"

lemma ResetAll_new: "ResetAll st = SocketStats_new"
  by (cases st) (simp add: ResetAll_def ResetGlobal_def ResetTimerFields_def ResetErrors_def ResetErrorsLight_def ResetSendReceiveCounts_def
    ResetFunctionCalls_def SocketStats_new_def)

definition newline :: string where
  "newline = [CHR 0x0A]"

text \<open>One counter, when it is above the bound.\<close>

definition stat_line :: "int \<Rightarrow> string \<Rightarrow> int \<Rightarrow> string" where
  "stat_line bound name x = (if bound < x then ''  '' @ name @ '': '' @ Itoa x @ newline else [])"

definition Print_errors :: "SocketStats \<Rightarrow> string" where
  "Print_errors st = concat
     [newline @ ''Error Counters:'' @ newline,
      stat_line 0 ''num_errors_seen_'' (stat_num_errors_seen st),
      stat_line 0 ''num_event_errors_'' (stat_num_event_errors st),
      stat_line 0 ''num_client_socket_errors_'' (stat_num_client_socket_errors st),
      stat_line 0 ''num_server_socket_errors_'' (stat_num_server_socket_errors st),
      stat_line 0 ''num_bind_errors_'' (stat_num_bind_errors st),
      stat_line 0 ''num_select_errors_'' (stat_num_select_errors st),
      stat_line 0 ''num_receive_errors_'' (stat_num_receive_errors st),
      stat_line 0 ''num_send_errors_'' (stat_num_send_errors st),
      stat_line 0 ''num_connection_errors_'' (stat_num_connection_errors st),
      stat_line 0 ''num_disconnect_errors_'' (stat_num_disconnect_errors st)]"

definition Print_send_receive :: "SocketStats \<Rightarrow> string" where
  "Print_send_receive st = concat
     [''  '' @ newline @ ''Most Recent Send/Receive Stats:'' @ newline,
      stat_line 0 ''num_peak_connections_'' (stat_num_peak_connections st),
      stat_line 0 ''num_current_connections_'' (stat_num_current_connections st),
      stat_line 0 ''num_distinct_connections_seen_'' (stat_num_distinct_connections_seen st),
      stat_line 0 ''num_sent_bytes_'' (uint (stat_num_sent_bytes st)),
      stat_line 0 ''msec_since_last_event_'' (uint (stat_msec_since_last_event st)),
      stat_line 0 ''msec_waiting_to_connect_'' (uint (stat_msec_waiting_to_connect st)),
      (if 1000 < stat_msec_waiting_to_connect_last st
       then ''  msec_waiting_to_connect_last_: '' @ Itoa (uint (stat_msec_waiting_to_connect_last st div 1000)) @ newline else []),
      stat_line 0 ''num_sent_transactions_'' (stat_num_sent_transactions st),
      stat_line 0 ''num_received_bytes_'' (uint (stat_num_received_bytes st)),
      stat_line 0 ''num_received_transactions_'' (stat_num_received_transactions st),
      stat_line 0 ''num_received_null_characters_'' (stat_num_received_null_characters st),
      (if stat_abort_listening_with_code st = {} then []
       else ''  Listen Abort Codes: '' @ Join (GetListenReturnCodeList (stat_abort_listening_with_code st)) '', '')]"

definition Print_global :: "SocketStats \<Rightarrow> string" where
  "Print_global st = concat
     [''  '' @ newline @ ''Global Send/Receive Stats:'' @ newline,
      stat_line 0 ''num_global_sent_bytes_'' (uint (stat_num_global_sent_bytes st)),
      stat_line 0 ''num_global_sent_transactions_'' (stat_num_global_sent_transactions st),
      stat_line 0 ''num_global_received_bytes_'' (uint (stat_num_global_received_bytes st)),
      stat_line 0 ''num_global_received_transactions_'' (stat_num_global_received_transactions st),
      stat_line 0 ''num_bind_sleep_calls_'' (stat_num_bind_sleep_calls st),
      stat_line 0 ''num_connect_sleep_calls_'' (stat_num_connect_sleep_calls st),
      stat_line 0 ''num_failed_connect_sleep_calls_'' (stat_num_failed_connect_sleep_calls st)]"

definition Print_num_calls :: "SocketStats \<Rightarrow> string" where
  "Print_num_calls st = concat
     [''  '' @ newline @ ''Function calls:'' @ newline,
      stat_line 0 ''num_setup_socket_calls_'' (stat_num_setup_socket_calls st),
      stat_line 0 ''num_connect_calls_'' (stat_num_connect_calls st),
      stat_line 0 ''num_bind_calls_'' (stat_num_bind_calls st),
      stat_line 0 ''num_listen_calls_'' (stat_num_listen_calls st),
      stat_line 0 ''num_remove_connection_calls_'' (stat_num_remove_connection_calls st),
      stat_line 0 ''num_close_socket_calls_'' (stat_num_close_socket_calls st),
      stat_line 0 ''num_times_listen_loop_called_'' (stat_num_times_listen_loop_called st),
      stat_line 0 ''num_times_in_listen_loop_'' (stat_num_times_in_listen_loop st),
      stat_line 0 ''num_open_new_connection_calls_'' (stat_num_open_new_connection_calls st),
      stat_line 0 ''num_server_receive_data_calls_'' (stat_num_server_receive_data_calls st),
      stat_line 0 ''num_send_data_calls_'' (stat_num_send_data_calls st),
      stat_line 0 ''num_send_data_calls_temp_'' (stat_num_send_data_calls_temp st),
      stat_line 0 ''num_inside_send_data_calls_'' (stat_num_inside_send_data_calls st)]"

definition SocketStats_Print :: "bool \<Rightarrow> bool \<Rightarrow> bool \<Rightarrow> bool \<Rightarrow> SocketStats \<Rightarrow> string" where
  "SocketStats_Print print_errors print_send_receive print_global_send_receive print_num_calls st =
     (if print_errors then Print_errors st else []) @ (if print_send_receive then Print_send_receive st else []) @
     (if print_global_send_receive then Print_global st else []) @ (if print_num_calls then Print_num_calls st else [])"

subsection \<open>Conditions that end listening\<close>

record stop_fields = 
  stop_num_errors_seen :: "32 word"
  stop_num_event_errors_seen :: "32 word"
  stop_num_select_errors_seen :: "32 word"
  stop_num_send_errors_seen :: "32 word"
  stop_num_receive_errors_seen :: "32 word"
  stop_num_server_errors_seen :: "32 word"
  stop_num_client_errors_seen :: "32 word"
  stop_num_connection_errors_seen :: "32 word"
  stop_num_disconnect_errors_seen :: "32 word"
  stop_num_msec_since_last_event :: "64 word"
  stop_num_current_connections :: int
  stop_num_distinct_connections_seen :: int
  stop_num_sent_bytes :: int
  stop_num_sent_transactions :: int
  stop_num_received_bytes :: int
  stop_num_received_transactions :: int
  stop_num_received_null_characters :: int

datatype StopListeningCondition = StopListeningCondition
  (left_condition: "StopListeningCondition option") (right_condition: "StopListeningCondition option")
  (condition_op: ConditionOperation) (stop_at: stop_fields)

definition StopListeningCondition_Reset :: "32 word \<Rightarrow> StopListeningCondition" where
  "StopListeningCondition_Reset num_errors = StopListeningCondition None None Cond_IDENTITY
     \<lparr>stop_num_errors_seen = num_errors, stop_num_event_errors_seen = 0, stop_num_select_errors_seen = 0, stop_num_send_errors_seen = 0, 
      stop_num_receive_errors_seen = 0, stop_num_server_errors_seen = 0, stop_num_client_errors_seen = 0, 
      stop_num_connection_errors_seen = 0, stop_num_disconnect_errors_seen = 0,
      stop_num_msec_since_last_event = 0, stop_num_current_connections = - 1, stop_num_distinct_connections_seen = - 1, 
      stop_num_sent_bytes = - 1, stop_num_sent_transactions = - 1, stop_num_received_bytes = - 1, 
      stop_num_received_transactions = - 1, stop_num_received_null_characters = - 1\<rparr>"

definition StopListeningCondition_new :: StopListeningCondition where
  "StopListeningCondition_new = StopListeningCondition_Reset 1"

text \<open>
  Copies, moves and assignments take every number. A subcondition is replaced by a copy when the other one has it, and kept
  otherwise.
\<close>

fun clone_condition :: "StopListeningCondition \<Rightarrow> StopListeningCondition \<Rightarrow> StopListeningCondition" where
  "clone_condition this (StopListeningCondition l r c f) = StopListeningCondition
     (case map_option (clone_condition StopListeningCondition_new) l of None \<Rightarrow> left_condition this | Some x \<Rightarrow> Some x)
     (case map_option (clone_condition StopListeningCondition_new) r of None \<Rightarrow> right_condition this | Some x \<Rightarrow> Some x)
     c f"

definition copy_condition :: "StopListeningCondition \<Rightarrow> StopListeningCondition" where
  "copy_condition other = StopListeningCondition
     (map_option (clone_condition StopListeningCondition_new) (left_condition other))
     (map_option (clone_condition StopListeningCondition_new) (right_condition other))
     (condition_op other) (stop_at other)"

text \<open>A moved-from condition loses its subconditions.\<close>

definition move_condition :: "StopListeningCondition \<Rightarrow> StopListeningCondition" where
  "move_condition other =
     StopListeningCondition (left_condition other) (right_condition other) (condition_op other) (stop_at other)"

definition move_assign :: "StopListeningCondition \<Rightarrow> StopListeningCondition \<Rightarrow> StopListeningCondition" where
  "move_assign this other = StopListeningCondition
     (case left_condition other of None \<Rightarrow> left_condition this | Some x \<Rightarrow> Some x)
     (case right_condition other of None \<Rightarrow> right_condition this | Some x \<Rightarrow> Some x)
     (condition_op other) (stop_at other)"

definition assign_condition :: "StopListeningCondition \<Rightarrow> StopListeningCondition \<Rightarrow> StopListeningCondition" where
  "assign_condition this other = move_assign this (copy_condition other)"

lemma new_fields [simp]: "left_condition StopListeningCondition_new = None" "right_condition StopListeningCondition_new = None"
  by (simp_all add: StopListeningCondition_new_def StopListeningCondition_Reset_def)

lemma clone_same [simp]: "clone_condition StopListeningCondition_new c = c"
proof (induction c)
  case (StopListeningCondition l r op f)
  then show ?case by (cases l; cases r) auto
qed

lemma copy_same [simp]: "copy_condition c = c"
  by (cases c; cases "left_condition c"; cases "right_condition c") (auto simp: copy_condition_def)

text \<open>An assignment is a copy when the target has no subconditions, or those that are assigned replace them.\<close>

lemma assign_same:
  assumes "left_condition other = None \<Longrightarrow> left_condition this = None" "right_condition other = None \<Longrightarrow> right_condition this = None"
  shows "assign_condition this other = other"
  using assms by (cases other) (auto simp: assign_condition_def move_assign_def split: option.splits)

text \<open>One line for every number that is set.\<close>

definition PrintLocal :: "stop_fields \<Rightarrow> string" where
  "PrintLocal f = fst (fold (\<lambda>(set, name, x) (result, sep). if set then (result @ sep @ name @ '': '' @ Itoa x, newline) else (result, sep))
     [(0 < stop_num_errors_seen f, ''num_errors_seen_'', uint (stop_num_errors_seen f)),
      (0 < stop_num_select_errors_seen f, ''num_select_errors_seen_'', uint (stop_num_select_errors_seen f)),
      (0 < stop_num_event_errors_seen f, ''num_event_errors_seen_'', uint (stop_num_event_errors_seen f)),
      (0 < stop_num_send_errors_seen f, ''num_send_errors_seen_'', uint (stop_num_send_errors_seen f)),
      (0 < stop_num_receive_errors_seen f, ''num_receive_errors_seen_'', uint (stop_num_receive_errors_seen f)),
      (0 < stop_num_server_errors_seen f, ''num_server_errors_seen_'', uint (stop_num_server_errors_seen f)),
      (0 < stop_num_client_errors_seen f, ''num_client_errors_seen_'', uint (stop_num_client_errors_seen f)),
      (0 < stop_num_connection_errors_seen f, ''num_connection_errors_seen_'', uint (stop_num_connection_errors_seen f)),
      (0 < stop_num_disconnect_errors_seen f, ''num_disconnect_errors_seen_'', uint (stop_num_disconnect_errors_seen f)),
      (0 < stop_num_msec_since_last_event f, ''num_msec_since_last_event_'', uint (stop_num_msec_since_last_event f)),
      (0 \<le> stop_num_current_connections f, ''num_current_connections_'', stop_num_current_connections f),
      (0 \<le> stop_num_distinct_connections_seen f, ''num_distinct_connections_seen_'', stop_num_distinct_connections_seen f),
      (0 \<le> stop_num_sent_bytes f, ''num_sent_bytes_'', stop_num_sent_bytes f),
      (0 \<le> stop_num_sent_transactions f, ''num_sent_transactions_'', stop_num_sent_transactions f),
      (0 \<le> stop_num_received_bytes f, ''num_received_bytes_'', stop_num_received_bytes f),
      (0 \<le> stop_num_received_transactions f, ''num_received_transactions_'', stop_num_received_transactions f),
      (0 \<le> stop_num_received_null_characters f, ''num_received_null_characters_'', stop_num_received_null_characters f)] ([], []))"

fun Print_condition :: "StopListeningCondition \<Rightarrow> string" where
  "Print_condition (StopListeningCondition l r Cond_IDENTITY f) = PrintLocal f"
| "Print_condition (StopListeningCondition (Some l) None Cond_NOT f) = ''!('' @ Print_condition l @ '')''"
| "Print_condition (StopListeningCondition (Some l) (Some r) Cond_AND f) = ''('' @ Print_condition l @ '') && ('' @ Print_condition r @ '')''"
| "Print_condition (StopListeningCondition (Some l) (Some r) Cond_OR f) = ''('' @ Print_condition l @ '') || ('' @ Print_condition r @ '')''"
| "Print_condition (StopListeningCondition (Some l) (Some r) Cond_XOR f) = ''('' @ Print_condition l @ '') ^ ('' @ Print_condition r @ '')''"
| "Print_condition _ = ''UNKNOWN''"

subsection \<open>Buffers and parameters\<close>

record ReceivedData =
  rd_buffer :: "u8 list"
  rd_is_receiving_data :: bool

record DataToSend =
  ds_buffer :: "u8 list"
  ds_num_chars_sent :: "64 word"
  ds_is_sending_data :: bool

definition ReceivedData_new :: ReceivedData where
  "ReceivedData_new = \<lparr>rd_buffer = [], rd_is_receiving_data = False\<rparr>"

definition DataToSend_new :: DataToSend where
  "DataToSend_new = \<lparr>ds_buffer = [], ds_num_chars_sent = 0, ds_is_sending_data = False\<rparr>"

text \<open>A callback for received bytes: its last argument is the pointer of the parameters, with the value it points to.\<close>

type_synonym 'a receive_callback =
  "SocketIdentifier \<Rightarrow> ReceivedData \<Rightarrow> SocketStats \<Rightarrow> 'a option \<Rightarrow> (bool \<times> ReceivedData \<times> SocketStats) option"

record BindParams =
  bp_num_retries :: int
  bp_sleep_time :: "64 word"
  bp_num_tries_at_current_sleep_time :: int
  bp_message :: string
  bp_print_default_message :: bool

record 'a ListenParams =
  lp_ip :: string
  lp_port :: "64 word"
  lp_select_timeout_ms :: "64 word"
  lp_no_event_sleep_ms :: "64 word"
  lp_receive_buffer_max_size :: int
  lp_type :: "ListenType set"
  lp_bind_params :: BindParams
  lp_stop_params :: StopListeningCondition
  lp_handle_new_connection :: "(SocketIdentifier \<Rightarrow> bool) option"
  lp_receive_data :: "'a receive_callback option"
  lp_receive_data_args :: "'a option"

record ConnectParams =
  cp_ip :: string
  cp_port :: "64 word"
  cp_timeout_ms :: "64 word"
  cp_non_blocking :: bool
  cp_num_retries :: int
  cp_sleep_time :: "64 word"
  cp_num_tries_at_current_sleep_time :: int
  cp_message :: string
  cp_print_default_message :: bool
  cp_print_messages :: bool

record SendParams =
  sp_num_retries :: int
  sp_sleep_time :: "64 word"
  sp_num_tries_at_current_sleep_time :: int
  sp_message :: string
  sp_print_default_message :: bool

text \<open>The number of \<open>GetVerbosity\<close> is an argument.\<close>

definition BindParams_new :: "int \<Rightarrow> BindParams" where
  "BindParams_new verbosity = \<lparr>bp_num_retries = 1400, bp_sleep_time = 5, bp_num_tries_at_current_sleep_time = 200,
     bp_message = [], bp_print_default_message = (2 < verbosity)\<rparr>"

definition kDefaultListenIp :: string where
  "kDefaultListenIp = ''0.0.0.0''"

definition kSocketBufferSize :: int where
  "kSocketBufferSize = 1024"

definition kMaxBytesTransferrable :: "64 word" where
  "kMaxBytesTransferrable = 5 * 1024 * 1024 * 1024"

definition kSelectTimeoutMilliSecs :: int where
  "kSelectTimeoutMilliSecs = 100"

definition kSleepMsBetweenNoEvents :: int where
  "kSleepMsBetweenNoEvents = 10"

definition ListenParams_new :: "int \<Rightarrow> 'a ListenParams" where
  "ListenParams_new verbosity = \<lparr>lp_ip = [], lp_port = 0, lp_select_timeout_ms = word_of_int kSelectTimeoutMilliSecs,
     lp_no_event_sleep_ms = word_of_int kSleepMsBetweenNoEvents, lp_receive_buffer_max_size = kSocketBufferSize,
     lp_type = {HANDLE_NEW_CONNECTIONS, HANDLE_RECEIVE}, lp_bind_params = BindParams_new verbosity,
     lp_stop_params = StopListeningCondition_new, lp_handle_new_connection = None, lp_receive_data = None,
     lp_receive_data_args = None\<rparr>"

definition ConnectParams_new :: "int \<Rightarrow> ConnectParams" where
  "ConnectParams_new verbosity = \<lparr>cp_ip = [], cp_port = 0, cp_timeout_ms = 0, cp_non_blocking = False, cp_num_retries = 1400,
     cp_sleep_time = 5, cp_num_tries_at_current_sleep_time = 200, cp_message = [],
     cp_print_default_message = (2 < verbosity), cp_print_messages = True\<rparr>"

definition SendParams_new :: "int \<Rightarrow> SendParams" where
  "SendParams_new verbosity = \<lparr>sp_num_retries = 1400, sp_sleep_time = 5, sp_num_tries_at_current_sleep_time = 200,
     sp_message = [], sp_print_default_message = (3 < verbosity)\<rparr>"

text \<open>Assignment of the parameters for listening: subconditions of the target may stay.\<close>

definition assign_ListenParams :: "'a ListenParams \<Rightarrow> 'a ListenParams \<Rightarrow> 'a ListenParams" where
  "assign_ListenParams this other =
     other\<lparr>lp_stop_params := assign_condition (lp_stop_params this) (lp_stop_params other)\<rparr>"

definition copy_ListenParams :: "'a ListenParams \<Rightarrow> 'a ListenParams" where
  "copy_ListenParams other = other\<lparr>lp_stop_params := copy_condition (lp_stop_params other)\<rparr>"

end
