(* ===== verification/Socket_Connect.thy ===== *)
theory Socket_Connect
  imports Socket_Types "HOL-Library.Monad_Syntax"
begin

text \<open>
  The class \<open>Socket\<close> of \<open>Util/socket.h\<close> and \<open>Util/socket.cpp\<close>: its set-up, its end and its connections. The virtual
  functions, which a derived class implements by system calls, are the record \<open>net\<close>; the state behind them is the member
  \<open>sk_lib\<close>. A result \<open>None\<close> is a call of \<open>log_fatal\<close>, undefined behaviour or a call that does not return. What a function
  prints and its timers are left out.
\<close>

subsection \<open>Calls that repeat\<close>

partial_function (option) retry :: "('s \<Rightarrow> ('r option \<times> 's) option) \<Rightarrow> 's \<Rightarrow> ('r \<times> 's) option" where
  "retry step s = (case step s of None \<Rightarrow> None | Some (None, t) \<Rightarrow> retry step t | Some (Some r, t) \<Rightarrow> Some (r, t))"

lemma retry_returns:
  fixes m :: "'s \<Rightarrow> nat"
  assumes "\<And>s. I s \<Longrightarrow> \<exists>r t. step s = Some (r, t) \<and> (case r of None \<Rightarrow> I t \<and> m t < m s | Some x \<Rightarrow> Q x t)" "I s"
  shows "\<exists>x t. retry step s = Some (x, t) \<and> Q x t"
  using assms(2)
proof (induction "m s" arbitrary: s rule: less_induct)
  case less
  obtain r t where step: "step s = Some (r, t)" "case r of None \<Rightarrow> I t \<and> m t < m s | Some x \<Rightarrow> Q x t"
    using assms(1) [OF less.prems] by blast
  then show ?case
    using less.hyps [of t] by (subst retry.simps, cases r) (auto simp: retry.simps)
qed

lemma retry_keeps:
  assumes "retry step s = Some (x, t)" "I s"
    "\<And>s r t. I s \<Longrightarrow> step s = Some (r, t) \<Longrightarrow> (case r of None \<Rightarrow> I t | Some x \<Rightarrow> Q x t)"
  shows "Q x t"
proof -
  have "case p of (x, t) \<Rightarrow> I s \<longrightarrow> Q x t" if "retry step s = Some p" for p s
  proof (rule retry.raw_induct [where P = "\<lambda>step' s p. step' = step \<longrightarrow> (case p of (x, t) \<Rightarrow> I s \<longrightarrow> Q x t)", OF _ that, THEN mp])
    fix g step' s p
    assume IH: "\<And>step' s p. g step' s = Some p \<Longrightarrow> step' = step \<longrightarrow> (case p of (x, t) \<Rightarrow> I s \<longrightarrow> Q x t)"
      and eq: "(case step' s of None \<Rightarrow> None | Some (None, t) \<Rightarrow> g step' t | Some (Some r, t) \<Rightarrow> Some (r, t)) = Some p"
    show "step' = step \<longrightarrow> (case p of (x, t) \<Rightarrow> I s \<longrightarrow> Q x t)"
      using eq IH assms(3) by (fastforce split: option.splits prod.splits)
  qed simp
  then show ?thesis using assms(1,2) by auto
qed

subsection \<open>The class and the functions of the library\<close>

record net_codes =
  n_error_code :: int
  n_would_block :: int
  n_in_progress :: int
  n_reset :: int
  n_aborted :: int
  n_refused :: int
  n_unavailable :: int
  n_in_use :: int
  n_already :: int
  n_layer :: int
  n_tcp :: int
  n_no_delay :: int
  n_reuse :: int

text \<open>
  \<open>n_select\<close> is told whether to wait for writing, or else for reading, and gives the sockets that are ready and those with
  an error; \<open>n_receive\<close> gives the bytes received, or nothing for the error code; \<open>n_sleep\<close> the time it took, in
  microseconds.
\<close>

record 'w net = net_codes +
  n_initialize :: "'w \<Rightarrow> bool \<times> 'w"
  n_setup_client :: "'w \<Rightarrow> bool \<times> 'w"
  n_setup_server :: "'w \<Rightarrow> bool \<times> 'w"
  n_client_id :: "'w \<Rightarrow> SocketIdentifier"
  n_server_id :: "'w \<Rightarrow> SocketIdentifier"
  n_receive_id :: "'w \<Rightarrow> SocketIdentifier"
  n_send_id :: "'w \<Rightarrow> SocketIdentifier"
  n_is_client :: "'w \<Rightarrow> SocketIdentifier \<Rightarrow> bool"
  n_client_in :: "'w \<Rightarrow> SocketIdentifier list \<Rightarrow> bool"
  n_server_in :: "'w \<Rightarrow> SocketIdentifier list \<Rightarrow> bool"
  n_client_bound :: "'w \<Rightarrow> bool"
  n_local_host :: "'w \<Rightarrow> string option"
  n_network_ip :: "'w \<Rightarrow> string option"
  n_set_option :: "SocketIdentifier \<Rightarrow> int \<Rightarrow> int \<Rightarrow> 'w \<Rightarrow> bool \<times> 'w"
  n_client_option :: "int \<Rightarrow> int \<Rightarrow> 'w \<Rightarrow> bool \<times> 'w"
  n_server_option :: "int \<Rightarrow> int \<Rightarrow> 'w \<Rightarrow> bool \<times> 'w"
  n_non_blocking :: "bool \<Rightarrow> SocketIdentifier \<Rightarrow> 'w \<Rightarrow> bool \<times> 'w"
  n_bind :: "'w \<Rightarrow> bool \<times> 'w"
  n_listen :: "'w \<Rightarrow> bool \<times> 'w"
  n_connect :: "'w \<Rightarrow> bool \<times> 'w"
  n_open :: "'w \<Rightarrow> SocketIdentifier option \<times> 'w"
  n_select :: "bool \<Rightarrow> SocketIdentifier \<Rightarrow> 64 word \<Rightarrow> 'w \<Rightarrow> (int \<times> SocketIdentifier list \<times> SocketIdentifier list) \<times> 'w"
  n_send :: "SocketIdentifier \<Rightarrow> u8 list \<Rightarrow> 'w \<Rightarrow> int \<times> 'w"
  n_receive :: "SocketIdentifier \<Rightarrow> int \<Rightarrow> 'w \<Rightarrow> u8 list option \<times> 'w"
  n_shutdown :: "SocketIdentifier \<Rightarrow> 'w \<Rightarrow> bool \<times> 'w"
  n_close_client :: "bool \<Rightarrow> 'w \<Rightarrow> bool \<times> 'w"
  n_close_server :: "'w \<Rightarrow> bool \<times> 'w"
  n_last_error :: "'w \<Rightarrow> int"
  n_socket_error :: "SocketIdentifier \<Rightarrow> 'w \<Rightarrow> int"
  n_client_error :: "'w \<Rightarrow> int"
  n_server_error :: "'w \<Rightarrow> int"
  n_sleep :: "int \<Rightarrow> 'w \<Rightarrow> int \<times> 'w"

record ('a, 'w) Socket =
  sk_role :: SocketRole
  sk_type :: SocketType
  sk_is_socket_initialized :: bool
  sk_server_bound :: bool
  sk_error_msg :: string
  sk_stats :: SocketStats
  sk_listen_params :: "'a ListenParams"
  sk_connect_params :: ConnectParams
  sk_send_params :: SendParams
  sk_connections :: "SocketIdentifier list"
  sk_received :: "ReceivedData sid_map"
  sk_to_send :: "DataToSend sid_map"
  sk_lib :: 'w

definition Socket_new :: "int \<Rightarrow> 'w \<Rightarrow> ('a, 'w) Socket" where
  "Socket_new verbosity w = \<lparr>sk_role = SocketRole_UNKNOWN, sk_type = SocketType_UNKNOWN, sk_is_socket_initialized = False,
     sk_server_bound = False, sk_error_msg = [], sk_stats = SocketStats_new, sk_listen_params = ListenParams_new verbosity,
     sk_connect_params = ConnectParams_new verbosity, sk_send_params = SendParams_new verbosity, sk_connections = [],
     sk_received = [], sk_to_send = [], sk_lib = w\<rparr>"

definition on_listen :: "('a ListenParams \<Rightarrow> 'a ListenParams) \<Rightarrow> ('a, 'w) Socket \<Rightarrow> ('a, 'w) Socket" where
  "on_listen f s = s\<lparr>sk_listen_params := f (sk_listen_params s)\<rparr>"

definition on_connect :: "(ConnectParams \<Rightarrow> ConnectParams) \<Rightarrow> ('a, 'w) Socket \<Rightarrow> ('a, 'w) Socket" where
  "on_connect f s = s\<lparr>sk_connect_params := f (sk_connect_params s)\<rparr>"

definition on_stats :: "(SocketStats \<Rightarrow> SocketStats) \<Rightarrow> ('a, 'w) Socket \<Rightarrow> ('a, 'w) Socket" where
  "on_stats f s = s\<lparr>sk_stats := f (sk_stats s)\<rparr>"

text \<open>A call of a function of the library that may change its state.\<close>

definition ext :: "('w \<Rightarrow> 'r \<times> 'w) \<Rightarrow> ('a, 'w) Socket \<Rightarrow> 'r \<times> ('a, 'w) Socket" where
  "ext f s = (let (r, w) = f (sk_lib s) in (r, s\<lparr>sk_lib := w\<rparr>))"

definition Socket_of_port :: "int \<Rightarrow> 'w \<Rightarrow> 64 word \<Rightarrow> ('a, 'w) Socket" where
  "Socket_of_port v w port = on_listen (\<lambda>p. p\<lparr>lp_ip := kDefaultListenIp, lp_port := port\<rparr>)
     ((Socket_new v w)\<lparr>sk_role := SERVER, sk_type := SocketType_UNKNOWN\<rparr>)"

definition Socket_of_ip :: "int \<Rightarrow> 'w \<Rightarrow> string \<Rightarrow> 64 word \<Rightarrow> ('a, 'w) Socket" where
  "Socket_of_ip v w ip port = on_connect (\<lambda>p. p\<lparr>cp_ip := ip, cp_port := port\<rparr>)
     ((Socket_new v w)\<lparr>sk_role := CLIENT, sk_type := OS_TCP\<rparr>)"

definition server_role :: "bool \<Rightarrow> SocketRole" where
  "server_role is_server = (if is_server then SERVER else CLIENT)"

definition Socket_of_side :: "int \<Rightarrow> 'w \<Rightarrow> bool \<Rightarrow> ('a, 'w) Socket" where
  "Socket_of_side v w is_server = (Socket_new v w)\<lparr>sk_role := server_role is_server, sk_type := OS_TCP\<rparr>"

definition Socket_of_role :: "int \<Rightarrow> 'w \<Rightarrow> SocketRole \<Rightarrow> ('a, 'w) Socket" where
  "Socket_of_role v w r = (Socket_new v w)\<lparr>sk_role := r, sk_type := OS_TCP\<rparr>"

definition Socket_of_side_ip :: "int \<Rightarrow> 'w \<Rightarrow> bool \<Rightarrow> string \<Rightarrow> 64 word \<Rightarrow> ('a, 'w) Socket" where
  "Socket_of_side_ip v w is_server ip port =
     (let s = Socket_of_side v w is_server
      in if is_server then on_listen (\<lambda>p. p\<lparr>lp_ip := ip, lp_port := port\<rparr>) s
         else on_connect (\<lambda>p. p\<lparr>cp_ip := ip, cp_port := port\<rparr>) s)"

definition Socket_of_role_ip :: "int \<Rightarrow> 'w \<Rightarrow> SocketRole \<Rightarrow> string \<Rightarrow> 64 word \<Rightarrow> ('a, 'w) Socket" where
  "Socket_of_role_ip v w r ip port =
     (let s = Socket_of_role v w r;
          s = (if r \<noteq> CLIENT then on_listen (\<lambda>p. p\<lparr>lp_ip := ip, lp_port := port\<rparr>) s else s)
      in if r \<noteq> SERVER then on_connect (\<lambda>p. p\<lparr>cp_ip := ip, cp_port := port\<rparr>) s else s)"

subsection \<open>Parameters of a socket\<close>

definition SetErrorMessage :: "string \<Rightarrow> ('a, 'w) Socket \<Rightarrow> ('a, 'w) Socket" where
  "SetErrorMessage msg s = s\<lparr>sk_error_msg := sk_error_msg s @ msg @ newline\<rparr>"

definition SetRole :: "SocketRole \<Rightarrow> ('a, 'w) Socket \<Rightarrow> ('a, 'w) Socket" where
  "SetRole r s = s\<lparr>sk_role := r\<rparr>"

definition SetListenIp :: "string \<Rightarrow> ('a, 'w) Socket \<Rightarrow> ('a, 'w) Socket" where
  "SetListenIp ip = on_listen (\<lambda>p. p\<lparr>lp_ip := if ip = [] then kDefaultListenIp else ip\<rparr>)"

definition SetListenPort :: "64 word \<Rightarrow> ('a, 'w) Socket \<Rightarrow> ('a, 'w) Socket" where
  "SetListenPort port = on_listen (\<lambda>p. p\<lparr>lp_port := port\<rparr>)"

definition SetConnectIp :: "string \<Rightarrow> ('a, 'w) Socket \<Rightarrow> ('a, 'w) Socket" where
  "SetConnectIp ip = on_connect (\<lambda>p. p\<lparr>cp_ip := ip\<rparr>)"

definition SetConnectPort :: "64 word \<Rightarrow> ('a, 'w) Socket \<Rightarrow> ('a, 'w) Socket" where
  "SetConnectPort port = on_connect (\<lambda>p. p\<lparr>cp_port := port\<rparr>)"

definition SetListenIpAndPort :: "string \<Rightarrow> 64 word \<Rightarrow> ('a, 'w) Socket \<Rightarrow> ('a, 'w) Socket" where
  "SetListenIpAndPort ip port s = SetListenPort port (SetListenIp ip s)"

definition SetConnectIpAndPort :: "string \<Rightarrow> 64 word \<Rightarrow> ('a, 'w) Socket \<Rightarrow> ('a, 'w) Socket" where
  "SetConnectIpAndPort ip port s = SetConnectPort port (SetConnectIp ip s)"

definition GetListenIpAndPort :: "('a, 'w) Socket \<Rightarrow> string \<times> 64 word" where
  "GetListenIpAndPort s = (lp_ip (sk_listen_params s), lp_port (sk_listen_params s))"

definition GetConnectIpAndPort :: "('a, 'w) Socket \<Rightarrow> string \<times> 64 word" where
  "GetConnectIpAndPort s = (cp_ip (sk_connect_params s), cp_port (sk_connect_params s))"

definition GetRoleIpAndPort :: "('a, 'w) Socket \<Rightarrow> SocketRole \<times> string \<times> 64 word" where
  "GetRoleIpAndPort s = (sk_role s, if sk_role s \<noteq> CLIENT then GetListenIpAndPort s else GetConnectIpAndPort s)"

text \<open>A timeout is a new condition, beside the conditions there are: the old ones are copied under an \<open>OR\<close>.\<close>

definition timeout_fields :: "64 word \<Rightarrow> stop_fields \<Rightarrow> stop_fields" where
  "timeout_fields ms f = f\<lparr>stop_num_msec_since_last_event := ms, stop_num_errors_seen := 0\<rparr>"

definition SetListenTimeout :: "64 word \<Rightarrow> ('a, 'w) Socket \<Rightarrow> ('a, 'w) Socket" where
  "SetListenTimeout ms = on_listen (\<lambda>p.
     let c = lp_stop_params p
     in if USE_STOP_CONDITION \<notin> lp_type p
        then p\<lparr>lp_type := insert USE_STOP_CONDITION (lp_type p),
               lp_stop_params := StopListeningCondition (left_condition c) (right_condition c) Cond_IDENTITY
                 (timeout_fields ms (stop_at c))\<rparr>
        else p\<lparr>lp_stop_params := StopListeningCondition
                 (Some (clone_condition StopListeningCondition_new (copy_condition c)))
                 (Some (StopListeningCondition None None Cond_IDENTITY (timeout_fields ms (stop_at StopListeningCondition_new))))
                 Cond_OR (stop_at (StopListeningCondition_Reset 0))\<rparr>)"

definition SetServerTimeout :: "64 word \<Rightarrow> ('a, 'w) Socket \<Rightarrow> ('a, 'w) Socket" where
  "SetServerTimeout ms s = SetListenTimeout ms s"

definition SetClientTimeout :: "64 word \<Rightarrow> ('a, 'w) Socket \<Rightarrow> ('a, 'w) Socket" where
  "SetClientTimeout ms s = SetListenTimeout ms (on_connect (\<lambda>p. p\<lparr>cp_timeout_ms := ms\<rparr>) s)"

definition GetListenParams :: "('a, 'w) Socket \<Rightarrow> 'a ListenParams" where
  "GetListenParams s = copy_ListenParams (sk_listen_params s)"

definition SetListenParams :: "'a ListenParams \<Rightarrow> ('a, 'w) Socket \<Rightarrow> ('a, 'w) Socket" where
  "SetListenParams params = on_listen (\<lambda>old.
     let p = assign_ListenParams old params;
         p = (if lp_ip p = [] then p\<lparr>lp_ip := lp_ip old\<rparr> else p)
     in if lp_port p = 0 then p\<lparr>lp_port := lp_port old\<rparr> else p)"

definition handles :: "ListenType \<Rightarrow> 'a ListenParams \<Rightarrow> bool" where
  "handles t p \<longleftrightarrow> t \<in> lp_type p \<or> HANDLE_ALL_EVENTS \<in> lp_type p"

definition SetListenReceiveDataCallback_args :: "'a receive_callback option \<Rightarrow> 'a option \<Rightarrow> ('a, 'w) Socket \<Rightarrow> ('a, 'w) Socket" where
  "SetListenReceiveDataCallback_args callback args = on_listen (\<lambda>p.
     let p = p\<lparr>lp_receive_data := callback, lp_receive_data_args := args\<rparr>
     in if callback \<noteq> None \<and> \<not> handles HANDLE_RECEIVE p then p\<lparr>lp_type := insert HANDLE_RECEIVE (lp_type p)\<rparr> else p)"

definition SetListenReceiveDataCallback :: "'a receive_callback option \<Rightarrow> ('a, 'w) Socket \<Rightarrow> ('a, 'w) Socket" where
  "SetListenReceiveDataCallback callback = on_listen (\<lambda>p.
     let p = p\<lparr>lp_receive_data := callback\<rparr>
     in if callback = None then p\<lparr>lp_type := lp_type p - {HANDLE_RECEIVE} - {HANDLE_ALL_EVENTS}\<rparr>
        else if \<not> handles HANDLE_RECEIVE p then p\<lparr>lp_type := insert HANDLE_RECEIVE (lp_type p)\<rparr> else p)"

definition SetConnectParams :: "ConnectParams \<Rightarrow> ('a, 'w) Socket \<Rightarrow> ('a, 'w) Socket" where
  "SetConnectParams params = on_connect (\<lambda>p. params)"

definition SetConnectNonBlocking :: "bool \<Rightarrow> ('a, 'w) Socket \<Rightarrow> ('a, 'w) Socket" where
  "SetConnectNonBlocking b = on_connect (\<lambda>p. p\<lparr>cp_non_blocking := b\<rparr>)"

definition SetSendParams :: "SendParams \<Rightarrow> ('a, 'w) Socket \<Rightarrow> ('a, 'w) Socket" where
  "SetSendParams params s = s\<lparr>sk_send_params := params\<rparr>"

definition ResetSocketStats :: "('a, 'w) Socket \<Rightarrow> ('a, 'w) Socket" where
  "ResetSocketStats = on_stats ResetAll"

definition ResetSocketStatsLight :: "('a, 'w) Socket \<Rightarrow> ('a, 'w) Socket" where
  "ResetSocketStatsLight = on_stats (\<lambda>st. ResetErrorsLight (ResetSendReceiveCounts st))"

definition ResetSocketErrorsAndAbortSignals :: "('a, 'w) Socket \<Rightarrow> ('a, 'w) Socket" where
  "ResetSocketErrorsAndAbortSignals = on_stats (\<lambda>st. (ResetErrors st)\<lparr>stat_abort_listening_with_code := {}\<rparr>)"

definition quote :: string where
  "quote = [CHR 0x27]"

subsection \<open>The conditions\<close>

definition reached :: "bool \<Rightarrow> ListenReturnCode \<Rightarrow> ListenReturnCode set \<Rightarrow> (bool \<times> ListenReturnCode set) option" where
  "reached stop code codes = Some (if stop then (False, insert code codes) else (True, codes))"

text \<open>A counter is compared as an unsigned number where the bound is one. Without a bound the condition is an error.\<close>

definition keep_at_leaf :: "SocketStats \<Rightarrow> stop_fields \<Rightarrow> ListenReturnCode set \<Rightarrow> (bool \<times> ListenReturnCode set) option" where
  "keep_at_leaf st f codes =
     (if 0 < stop_num_errors_seen f
      then reached (stop_num_errors_seen f \<le> word_of_int (stat_num_errors_seen st)) TOO_MANY_ERRORS codes
      else if 0 < stop_num_client_errors_seen f
      then reached (stop_num_client_errors_seen f \<le> word_of_int (stat_num_client_socket_errors st)) CLIENT_SOCKET_ERROR_EVENT codes
      else if 0 < stop_num_server_errors_seen f
      then reached (stop_num_server_errors_seen f \<le> word_of_int (stat_num_server_socket_errors st)) SERVER_SOCKET_ERROR_EVENT codes
      else if 0 < stop_num_select_errors_seen f
      then reached (stop_num_select_errors_seen f \<le> word_of_int (stat_num_select_errors st)) Listen_SELECT_ERROR codes
      else if 0 < stop_num_event_errors_seen f
      then reached (stop_num_event_errors_seen f \<le> word_of_int (stat_num_event_errors st)) ERROR_EVENT codes
      else if 0 < stop_num_send_errors_seen f
      then reached (stop_num_send_errors_seen f \<le> word_of_int (stat_num_send_errors st)) Listen_SEND_ERROR codes
      else if 0 < stop_num_receive_errors_seen f
      then reached (stop_num_receive_errors_seen f \<le> word_of_int (stat_num_receive_errors st)) RECEIVE_ERROR codes
      else if 0 < stop_num_connection_errors_seen f
      then reached (stop_num_connection_errors_seen f \<le> word_of_int (stat_num_connection_errors st)) CONNECT_ERROR codes
      else if 0 < stop_num_disconnect_errors_seen f
      then reached (stop_num_disconnect_errors_seen f \<le> word_of_int (stat_num_disconnect_errors st)) DISCONNECT_ERROR codes
      else if 0 < stop_num_msec_since_last_event f
      then reached (stop_num_msec_since_last_event f \<le> stat_msec_since_last_event st) NO_ACTIVITY codes
      else if 0 \<le> stop_num_current_connections f
      then reached (stop_num_current_connections f \<le> stat_num_current_connections st \<or>
          stop_num_current_connections f \<le> stat_num_peak_connections st) TOO_MANY_CONNECTIONS codes
      else if 0 \<le> stop_num_distinct_connections_seen f
      then reached (stop_num_distinct_connections_seen f \<le> stat_num_distinct_connections_seen st) CUMULATIVE_CONNECTIONS_THRESHOLD codes
      else if 0 \<le> stop_num_sent_bytes f
      then reached (word_of_int (stop_num_sent_bytes f) \<le> stat_num_sent_bytes st) CUMULATIVE_BYTES_SENT codes
      else if 0 \<le> stop_num_sent_transactions f
      then reached (stop_num_sent_transactions f \<le> stat_num_sent_transactions st) CUMULATIVE_SEND_TRANSACTIONS codes
      else if 0 \<le> stop_num_received_bytes f
      then reached (word_of_int (stop_num_received_bytes f) \<le> stat_num_received_bytes st) CUMULATIVE_BYTES_RECEIVED codes
      else if 0 \<le> stop_num_received_transactions f
      then reached (stop_num_received_transactions f \<le> stat_num_received_transactions st) CUMULATIVE_RECEIVE_TRANSACTIONS codes
      else if 0 \<le> stop_num_received_null_characters f
      then reached (stop_num_received_null_characters f \<le> stat_num_received_null_characters st) CUMULATIVE_RECEIVE_NULL_CHARS codes
      else None)"

fun keep_listening :: "SocketStats \<Rightarrow> StopListeningCondition \<Rightarrow> ListenReturnCode set \<Rightarrow> (bool \<times> ListenReturnCode set) option" where
  "keep_listening st (StopListeningCondition l r op f) codes =
     (if stat_abort_listening_with_code st \<noteq> {} then Some (False, stat_abort_listening_with_code st)
      else if op = Cond_NONE then Some (True, codes)
      else if op = Cond_IDENTITY then keep_at_leaf st f codes
      else case l of
          None \<Rightarrow> None
        | Some a \<Rightarrow>
            if op = Cond_NOT then do { (k, codes) \<leftarrow> keep_listening st a codes; Some (\<not> k, codes) }
            else case r of
                None \<Rightarrow> None
              | Some b \<Rightarrow> do {
                  (k, codes) \<leftarrow> keep_listening st a codes;
                  if op = Cond_AND then (if k then Some (True, codes) else keep_listening st b codes)
                  else if op = Cond_OR then (if k then keep_listening st b codes else Some (False, codes))
                  else do { (k', codes) \<leftarrow> keep_listening st b codes; Some (k \<noteq> k', codes) } })"

definition ShouldKeepListening :: "('a, 'w) Socket \<Rightarrow> ListenReturnCode set \<Rightarrow> (bool \<times> ListenReturnCode set) option" where
  "ShouldKeepListening s codes = keep_listening (sk_stats s)
     (if USE_STOP_CONDITION \<in> lp_type (sk_listen_params s) then lp_stop_params (sk_listen_params s)
      else StopListeningCondition_new) codes"

subsection \<open>Set-up\<close>

definition GetLocalHost :: "'w net \<Rightarrow> ('a, 'w) Socket \<Rightarrow> string option \<times> ('a, 'w) Socket" where
  "GetLocalHost N s =
     (let (ok, s) = ext (n_initialize N) s
      in if \<not> ok then (None, SetErrorMessage ''Unable to Initialize()'' s)
         else case n_local_host N (sk_lib s) of
             None \<Rightarrow> (None, SetErrorMessage ''Unable to GetLocalHost(): Null HostInfo.'' s)
           | Some ip \<Rightarrow> (Some ip, s))"

definition GetWithinNetworkIP :: "'w net \<Rightarrow> ('a, 'w) Socket \<Rightarrow> string option \<times> ('a, 'w) Socket" where
  "GetWithinNetworkIP N s =
     (let (ok, s) = ext (n_initialize N) s
      in if \<not> ok then (None, SetErrorMessage ''Unable to Initialize()'' s)
         else case n_network_ip N (sk_lib s) of
             None \<Rightarrow> (None, SetErrorMessage ''Unable to GetWithinNetworkIP(): Null HostInfo.'' s)
           | Some ip \<Rightarrow> (Some ip, s))"

definition last_error_text :: "'w net \<Rightarrow> ('a, 'w) Socket \<Rightarrow> string" where
  "last_error_text N s = Itoa (n_last_error N (sk_lib s))"

definition SetupSocket :: "'w net \<Rightarrow> ('a, 'w) Socket \<Rightarrow> bool \<times> ('a, 'w) Socket" where
  "SetupSocket N s =
     (let s = on_stats (stat_num_setup_socket_calls_update ((+) 1)) s;
          (ok, s) = ext (n_initialize N) s
      in if \<not> ok then (False, SetErrorMessage ''Unable to Initialize()'' s)
         else if sk_is_socket_initialized s then (True, s)
         else if sk_role s = SERVER then
           (let (ok, s) = ext (n_setup_server N) s
            in if \<not> ok then (False, SetErrorMessage ''Failed to SetupSocket() Socket: Unable to create server socket.'' s)
               else let (ok, s) = ext (n_server_option N (n_layer N) (n_reuse N)) s
                    in if \<not> ok then (False, SetErrorMessage
                           (''Failed to SetupSocket() Socket: Unable to set server socket SO_REUSEADDR setting: '' @ last_error_text N s) s)
                       else (True, s\<lparr>sk_is_socket_initialized := True\<rparr>))
         else let (ok, s) = ext (n_setup_client N) s
              in if \<not> ok then (False, SetErrorMessage ''Failed to SetupSocket() Socket: Unable to create client socket.'' s)
                 else (True, s\<lparr>sk_is_socket_initialized := True\<rparr>))"

definition ensure_setup :: "'w net \<Rightarrow> ('a, 'w) Socket \<Rightarrow> bool \<times> ('a, 'w) Socket" where
  "ensure_setup N s = (if sk_is_socket_initialized s then (True, s) else SetupSocket N s)"

subsection \<open>The end of connections\<close>

definition ShutdownConnection :: "'w net \<Rightarrow> SocketIdentifier \<Rightarrow> ('a, 'w) Socket \<Rightarrow> bool \<times> ('a, 'w) Socket" where
  "ShutdownConnection N x s =
     (let (ok, s) = ext (n_shutdown N x) s
      in if \<not> ok then
           (False, on_stats (stat_num_disconnect_errors_update ((+) 1)) (on_stats (stat_num_errors_seen_update ((+) 1))
              (SetErrorMessage (''Failed to close socket: '' @ last_error_text N s) s)))
         else (True, on_stats (stat_num_current_connections_update (\<lambda>n. n - 1)) s))"

text \<open>The connection an iterator points to is removed, whether it could be closed or not.\<close>

definition RemoveConnection :: "'w net \<Rightarrow> nat \<Rightarrow> ('a, 'w) Socket \<Rightarrow> bool \<times> ('a, 'w) Socket" where
  "RemoveConnection N i s =
     (let s = on_stats (stat_num_remove_connection_calls_update ((+) 1)) s;
          (ok, s) = ShutdownConnection N (sk_connections s ! i) s
      in (ok, s\<lparr>sk_connections := take i (sk_connections s) @ drop (Suc i) (sk_connections s)\<rparr>))"

definition shutdown_one :: "'w net \<Rightarrow> SocketIdentifier \<Rightarrow> string \<times> ('a, 'w) Socket \<Rightarrow> string \<times> ('a, 'w) Socket" where
  "shutdown_one N x r =
     (let (shutdown_error, s) = r;
          s = on_stats (stat_num_close_socket_calls_update ((+) 1)) s;
          (ok, s) = ext (n_shutdown N x) s;
          last_error_code = n_last_error N (sk_lib s)
      in if \<not> ok \<and> last_error_code \<noteq> n_unavailable N
         then (shutdown_error @ ''Failed to close socket '' @ PrintSocketId x @ '': '' @ Itoa last_error_code @ ''.'' @ newline, s)
         else (shutdown_error, s))"

definition ShutdownAllConnections :: "'w net \<Rightarrow> ('a, 'w) Socket \<Rightarrow> bool \<times> ('a, 'w) Socket" where
  "ShutdownAllConnections N s =
     (let (shutdown_error, s) = fold (shutdown_one N) (sk_connections s) ([], s);
          s = s\<lparr>sk_connections := [], sk_received := [], sk_to_send := []\<rparr>
      in if shutdown_error \<noteq> [] then (False, SetErrorMessage shutdown_error s) else (True, s))"

fun print_connections :: "nat \<Rightarrow> SocketIdentifier list \<Rightarrow> ('a, 'w) Socket \<Rightarrow> ('a, 'w) Socket" where
  "print_connections i [] s = s"
| "print_connections i (x # xs) s = print_connections (Suc i) xs
     (SetErrorMessage (''Connection '' @ Itoa (int i + 1) @ '': '' @ PrintSocketId x) s)"

definition CloseClientSocket :: "'w net \<Rightarrow> ('a, 'w) Socket \<Rightarrow> bool \<times> ('a, 'w) Socket" where
  "CloseClientSocket N s =
     (if \<not> sk_is_socket_initialized s then
        (False, SetErrorMessage ''Failed to CloseClientSocket(): is_socket_initialized_ = 0.'' s)
      else let s = ResetSocketStatsLight (s\<lparr>sk_to_send := []\<rparr>)
           in if 1 < length (sk_connections s) then
                (False, print_connections 0 (sk_connections s) (SetErrorMessage
                   (''Failed to CloseClientSocket(): Expected Client to have a single connection, but found: ''
                    @ Itoa (int (length (sk_connections s)))) s))
              else let (ok, s) = ext (n_close_client N (sk_connections s = [])) s
                   in if \<not> ok then (False, SetErrorMessage (''Failed to shutdown(): '' @ last_error_text N s) s)
                      else (True, s\<lparr>sk_connections := [], sk_is_socket_initialized := False, sk_error_msg := []\<rparr>))"

definition CloseServerSocket :: "'w net \<Rightarrow> ('a, 'w) Socket \<Rightarrow> bool \<times> ('a, 'w) Socket" where
  "CloseServerSocket N s =
     (if \<not> sk_is_socket_initialized s then
        (False, SetErrorMessage (''Failed to CloseServerSocket(): server socket wasn'' @ quote @ ''t initialized. This should never happen.'') s)
      else if sk_role s = CLIENT then (False, SetErrorMessage ''Failed CloseServerSocket() Socket for CLIENT.'' s)
      else let (ok, s) = ShutdownAllConnections N s
           in if \<not> ok then (False, SetErrorMessage ''Failed CloseServerSocket(): Unable to clear connections_.'' s)
              else let (ok, s) = ext (n_close_server N) (s\<lparr>sk_server_bound := False\<rparr>)
                   in if \<not> ok then (False, SetErrorMessage (''Failed to shutdown(): '' @ last_error_text N s) s)
                      else (True, (ResetSocketStatsLight (s\<lparr>sk_is_socket_initialized := False\<rparr>))\<lparr>sk_error_msg := []\<rparr>))"

text \<open>A socket that is neither client nor server stays as it is.\<close>

definition Disconnect :: "'w net \<Rightarrow> ('a, 'w) Socket \<Rightarrow> bool \<times> ('a, 'w) Socket" where
  "Disconnect N s =
     (if \<not> sk_is_socket_initialized s then (False, SetErrorMessage ''Failed to Disconnect(): No connections present.'' s)
      else if sk_role s = CLIENT then CloseClientSocket N s
      else if sk_role s = SERVER then CloseServerSocket N s
      else (True, s))"

definition CloseSocket :: "'w net \<Rightarrow> ('a, 'w) Socket \<Rightarrow> bool \<times> ('a, 'w) Socket" where
  "CloseSocket N s = (if \<not> sk_is_socket_initialized s then (True, s) else Disconnect N s)"

definition Socket_Reset :: "'w net \<Rightarrow> bool \<Rightarrow> ('a, 'w) Socket \<Rightarrow> ('a, 'w) Socket" where
  "Socket_Reset N full_reset s =
     (let s = s\<lparr>sk_to_send := [], sk_received := []\<rparr>;
          s = (if full_reset then ResetSocketStats s else ResetSocketStatsLight s);
          s = snd (CloseSocket N s)
      in s\<lparr>sk_connections := [], sk_is_socket_initialized := False, sk_server_bound := False, sk_error_msg := []\<rparr>)"

definition Socket_Reset_full :: "'w net \<Rightarrow> ('a, 'w) Socket \<Rightarrow> ('a, 'w) Socket" where
  "Socket_Reset_full N s = Socket_Reset N True s"

definition ResetForReceive :: "('a, 'w) Socket \<Rightarrow> ('a, 'w) Socket" where
  "ResetForReceive s = (on_stats (\<lambda>st. ResetErrors (ResetSendReceiveCounts st)) s)\<lparr>sk_received := []\<rparr>"

text \<open>The bytes of the argument and of the buffer are exchanged.\<close>

definition ResetForReceive_bytes :: "u8 list \<Rightarrow> ('a, 'w) Socket \<Rightarrow> bool \<times> u8 list \<times> ('a, 'w) Socket" where
  "ResetForReceive_bytes extra_bytes s =
     (case sk_received s of
        [(socket_id, d)] \<Rightarrow>
          (True, [], (ResetForReceive s)\<lparr>sk_received := [(socket_id, ReceivedData_new\<lparr>rd_buffer := extra_bytes\<rparr>)]\<rparr>)
      | _ \<Rightarrow> (False, extra_bytes, s))"

subsection \<open>Connecting\<close>

definition IsConnected :: "('a, 'w) Socket \<Rightarrow> bool" where
  "IsConnected s \<longleftrightarrow> length (sk_connections s) = 1"

definition IsConnected_to :: "SocketIdentifier \<Rightarrow> ('a, 'w) Socket \<Rightarrow> bool" where
  "IsConnected_to x s \<longleftrightarrow> (\<exists>c \<in> set (sk_connections s). SocketIdentifier_Equals x c)"

text \<open>
  How long to sleep before the next attempt; a negative number for no attempt. Where the doubled time is out of range the
  code returns \<open>false\<close>, which is the number zero.
\<close>

definition ComputeConnectSleepTime :: "('a, 'w) Socket \<Rightarrow> int \<times> ('a, 'w) Socket" where
  "ComputeConnectSleepTime s =
     (let p = sk_connect_params s; errors = stat_num_connection_errors (sk_stats s)
      in if cp_num_retries p = 0 \<or> (0 \<le> cp_num_retries p \<and> cp_num_retries p < errors) then (- 1, s)
         else if cp_sleep_time p = 0 then (0, s)
         else let doublings = (if cp_num_tries_at_current_sleep_time p \<le> 0 then 0 else errors div cp_num_tries_at_current_sleep_time p)
              in if 63 < doublings then (0, SetErrorMessage ''Failed to connect client socket: Too many failures.'' s)
                 else let sleep_time = cp_sleep_time p * push_bit (nat doublings) 1
                      in if sleep_time < cp_sleep_time p
                         then (0, SetErrorMessage ''Failed to connect client socket: Too many failures.'' s)
                         else (sint sleep_time, s))"

text \<open>The time slept is in microseconds, although the member it is added to counts milliseconds.\<close>

definition connect_sleep :: "'w net \<Rightarrow> int \<Rightarrow> ('a, 'w) Socket \<Rightarrow> ('a, 'w) Socket" where
  "connect_sleep N sleep_time s =
     (let (slept, s) = ext (n_sleep N (sleep_time * 1000)) s
      in on_stats (\<lambda>st. st\<lparr>stat_msec_waiting_to_connect := stat_msec_waiting_to_connect st + word_of_int slept,
           stat_failed_connect_sleep_timer := stat_failed_connect_sleep_timer st + word_of_int slept,
           stat_msec_waiting_to_connect_last := word_of_int slept\<rparr>) s)"

text \<open>Success, whether the connection is there, and the error of the socket, \<open>0\<close> at first.\<close>

definition CheckConnectStatus :: "'w net \<Rightarrow> ('a, 'w) Socket \<Rightarrow> bool \<times> bool \<times> int \<times> ('a, 'w) Socket" where
  "CheckConnectStatus N s =
     (let ((return_value, write_sockets, error_sockets), s) =
        ext (n_select N True (n_client_id N (sk_lib s)) (cp_timeout_ms (sk_connect_params s) * 1000)) s
      in if return_value < 0 then
           (False, False, 0, SetErrorMessage (''Unexpected select() error for CheckConnectStatus(): '' @ last_error_text N s)
              (on_stats (stat_num_select_errors_update ((+) 1)) (on_stats (stat_num_errors_seen_update ((+) 1)) s)))
         else if return_value = 0 then (True, False, 0, s)
         else if n_client_in N (sk_lib s) error_sockets then (True, False, n_client_error N (sk_lib s), s)
         else if n_client_in N (sk_lib s) write_sockets then
           (let e = n_client_error N (sk_lib s) in (True, e = 0, e, s))
         else (False, False, 0, SetErrorMessage ''Unexpected select() response in CheckConnectStatus()'' s))"

text \<open>A result that is missing is the call of \<open>Connect\<close> at the end.\<close>

definition HandleNonBlockingConnect :: "'w net \<Rightarrow> int \<Rightarrow> ('a, 'w) Socket \<Rightarrow> bool option \<times> ('a, 'w) Socket" where
  "HandleNonBlockingConnect N last_error_code s =
     (if last_error_code \<noteq> n_would_block N \<and> last_error_code \<noteq> n_already N \<and> last_error_code \<noteq> n_in_progress N then
        (Some False, SetErrorMessage (''Failed to (non-blocking) connect client socket: '' @ Itoa last_error_code) s)
      else let (sleep_time, s) = ComputeConnectSleepTime s;
               s = (if 0 < sleep_time then connect_sleep N sleep_time s else s);
               (ok, is_connected, socket_error_code, s) = CheckConnectStatus N s
           in if \<not> ok then (Some False, SetErrorMessage ''Failed to (non-blocking) connect client socket.'' s)
              else if is_connected then
                (Some True, on_stats (stat_msec_waiting_to_connect_update (\<lambda>n. 0))
                   (s\<lparr>sk_connections := sk_connections s @ [n_client_id N (sk_lib s)]\<rparr>))
              else let s = on_stats (stat_num_failed_connect_sleep_calls_update ((+) 1)) s
                   in if socket_error_code = n_refused N then
                        (let (ok, s) = CloseClientSocket N s
                         in if \<not> ok then (Some False, SetErrorMessage ''Failed to Connect()'' s) else (None, s))
                      else (None, s))"

definition HandleConnectError :: "'w net \<Rightarrow> int \<Rightarrow> ('a, 'w) Socket \<Rightarrow> bool option \<times> ('a, 'w) Socket" where
  "HandleConnectError N last_error_code s =
     (let s = on_stats (stat_num_connection_errors_update ((+) 1)) s; p = sk_connect_params s
      in if 0 < cp_timeout_ms p \<and> cp_timeout_ms p \<le> stat_msec_waiting_to_connect (sk_stats s) then
           (Some False, SetErrorMessage (''Connect() timeout ('' @ Itoa (uint (cp_timeout_ms p)) @ '' ms) exceeded.'') s)
         else let (sleep_time, s) = (if last_error_code = n_refused N then ComputeConnectSleepTime s else (- 1, s))
              in if 0 \<le> sleep_time then
                   (let s = on_stats (stat_num_failed_connect_sleep_calls_update ((+) 1)) s
                    in (None, if 0 < sleep_time then connect_sleep N sleep_time s else s))
                 else (Some False, SetErrorMessage
                        (''Failed to connect client socket after '' @ Itoa (stat_num_connection_errors (sk_stats s))
                         @ '' attempts: '' @ Itoa last_error_code) s))"

text \<open>One attempt to connect.\<close>

definition Connect_step :: "'w net \<Rightarrow> ('a, 'w) Socket \<Rightarrow> bool option \<times> ('a, 'w) Socket" where
  "Connect_step N s =
     (if sk_role s \<noteq> CLIENT then
        (Some False, SetErrorMessage ''Failed to Connect(): Servers may not initiate new connection requests.'' s)
      else let (ok, s) = ensure_setup N s; p = sk_connect_params s
      in if \<not> ok then (Some False, SetErrorMessage ''Failed to Connect(): Unable to SetupSocket.'' s)
      else if cp_ip p = [] \<or> cp_port p = 0 then
        (Some False, SetErrorMessage (''Failed to Connect() on malformed ip '' @ quote @ cp_ip p @ quote @ '' and port ''
           @ Itoa (uint (cp_port p))) s)
      else let (ok, s) = (if \<not> cp_non_blocking p \<or> \<not> n_client_bound N (sk_lib s)
                          then ext (n_set_option N (n_client_id N (sk_lib s)) (n_tcp N) (n_no_delay N)) s else (True, s))
      in if \<not> ok then
        (Some False, SetErrorMessage (''Unable to set client socket TCP_NODELAY setting: '' @ last_error_text N s) s)
      else let (ok, s) = (if cp_non_blocking p then ext (n_non_blocking N True (n_client_id N (sk_lib s))) s else (True, s))
      in if \<not> ok then
        (Some False, SetErrorMessage (''Failed to set Client Socket to non-blocking: '' @ last_error_text N s) s)
      else let (ok, s) = (if cp_non_blocking p then ext (n_client_option N (n_layer N) (n_reuse N)) s else (True, s))
      in if \<not> ok then
        (Some False, SetErrorMessage (''Failed to SetClientSocket() Socket: Unable to set server socket SO_REUSEADDR setting: ''
           @ last_error_text N s) s)
      else let s = on_stats (stat_num_connect_calls_update ((+) 1)) s;
               (ok, s) = ext (n_connect N) s
      in if \<not> ok then
           (if cp_non_blocking p then HandleNonBlockingConnect N (n_last_error N (sk_lib s)) s
            else HandleConnectError N (n_last_error N (sk_lib s)) s)
         else (Some True, on_stats (stat_msec_waiting_to_connect_update (\<lambda>n. 0))
                 (s\<lparr>sk_connections := sk_connections s @ [n_client_id N (sk_lib s)]\<rparr>)))"

definition Connect :: "'w net \<Rightarrow> ('a, 'w) Socket \<Rightarrow> (bool \<times> ('a, 'w) Socket) option" where
  "Connect N = retry (\<lambda>s. Some (Connect_step N s))"

definition client_connected :: "'w net \<Rightarrow> ('a, 'w) Socket \<Rightarrow> (bool \<times> ('a, 'w) Socket) option" where
  "client_connected N s = (if IsConnected s then Some (True, s) else Connect N s)"

subsection \<open>New connections of a server\<close>

definition OpenNewConnection :: "'w net \<Rightarrow> ('a, 'w) Socket \<Rightarrow> bool \<times> ('a, 'w) Socket" where
  "OpenNewConnection N s =
     (let s = on_stats (stat_num_open_new_connection_calls_update ((+) 1)) s;
          (opened, s) = ext (n_open N) s
      in case opened of
          None \<Rightarrow> (False, SetErrorMessage (''Failed to OpenNewConnection(): accept() failed. Server is bound and accepting connection requests: ''
                    @ Itoa (if sk_server_bound s then 1 else 0)) s)
        | Some new_connection \<Rightarrow>
            (let (ok, s) = ext (n_set_option N new_connection (n_tcp N) (n_no_delay N)) s
             in if \<not> ok then (False, SetErrorMessage
                    (''Failed to set socket options on new connection: Unable to set server socket TCP_NODELAY setting: '' @ last_error_text N s) s)
                else let (ok, s) = ext (n_non_blocking N True new_connection) s
                in if \<not> ok then (False, SetErrorMessage
                       (''Failed to set Server'' @ quote @ ''s new connection (socket) to non-blocking: '' @ last_error_text N s) s)
                   else (True, s\<lparr>sk_connections := sk_connections s @ [new_connection]\<rparr>)))"

definition connection_error :: "string \<Rightarrow> ('a, 'w) Socket \<Rightarrow> bool \<times> ('a, 'w) Socket" where
  "connection_error msg s = (False, on_stats (stat_num_connection_errors_update ((+) 1))
     (on_stats (stat_num_errors_seen_update ((+) 1)) (SetErrorMessage msg s)))"

definition HandleNewConnection :: "'w net \<Rightarrow> ('a, 'w) Socket \<Rightarrow> bool \<times> ('a, 'w) Socket" where
  "HandleNewConnection N s =
     (if \<not> handles HANDLE_NEW_CONNECTIONS (sk_listen_params s) then
        (False, on_stats (stat_abort_listening_with_code_update (insert NEW_CONNECTION)) s)
      else let (ok, s) = (case lp_handle_new_connection (sk_listen_params s) of
             Some f \<Rightarrow> if f (n_server_id N (sk_lib s)) then (True, s)
                else connection_error ''Failed to create connection via user-provided function in listen_params_.handle_new_connection_.'' s
           | None \<Rightarrow> (let (ok, s) = OpenNewConnection N s
                in if ok then (True, s)
                   else connection_error (''Failed to create connection socket via accept(): '' @ last_error_text N s) s))
      in if \<not> ok then (False, s)
         else (True, on_stats (\<lambda>st. st\<lparr>
                stat_num_distinct_connections_seen := stat_num_distinct_connections_seen st + 1,
                stat_num_current_connections := stat_num_current_connections st + 1,
                stat_num_peak_connections := max (stat_num_peak_connections st) (stat_num_current_connections st + 1)\<rparr>) s))"

end
