(* ===== verification/Socket_Transfer.thy ===== *)
theory Socket_Transfer
  imports Socket_Connect
begin

text \<open>
  The sockets of \<open>Util/socket.cpp\<close>, continued: callbacks that wait for whole messages, receiving, the loop that listens,
  and sending, directly or from the buffer of a connection. An iterator is an index; one past the end is undefined.
\<close>

subsection \<open>Waiting for whole messages\<close>

text \<open>
  A message is a number of \<open>n\<close> bytes and as many bytes as it says. The standard library throws when it is to reserve more
  than it can.
\<close>

definition receive_message :: "nat \<Rightarrow> (u8 list \<Rightarrow> 64 word) \<Rightarrow> ReceivedData \<Rightarrow> SocketStats \<Rightarrow> (bool \<times> ReceivedData \<times> SocketStats) option" where
  "receive_message n number d st =
     (if rd_is_receiving_data d then None
      else let buffer = rd_buffer d
           in if length buffer < n then Some (True, d, st)
              else let expected = of_nat n + number (take n buffer)
                   in if of_nat (length buffer) < expected then (if 2 ^ 63 \<le> expected then None else Some (True, d, st))
                      else Some (True, d, st\<lparr>stat_abort_listening_with_code :=
                             insert (if expected < of_nat (length buffer) then RECEIVED_UNEXPECTED_BYTES else Listen_OK)
                               (stat_abort_listening_with_code st)\<rparr>))"

definition ReceiveInt64Bytes :: "bool \<Rightarrow> 'a receive_callback" where
  "ReceiveInt64Bytes big x d st not_used = receive_message 8 (of_memory big) d st"

definition ReceiveInt32Bytes :: "bool \<Rightarrow> 'a receive_callback" where
  "ReceiveInt32Bytes big x d st not_used = receive_message 4 (\<lambda>bs. ucast (of_memory big bs :: 32 word)) d st"

definition ReceiveBigEndianInt64Bytes :: "'a receive_callback" where
  "ReceiveBigEndianInt64Bytes x d st not_used = receive_message 8 big_endian d st"

definition ReceiveBigEndianInt32Bytes :: "'a receive_callback" where
  "ReceiveBigEndianInt32Bytes x d st not_used = receive_message 4 (\<lambda>bs. ucast (big_endian bs :: 32 word)) d st"

definition ReceiveNumBytes :: "64 word receive_callback" where
  "ReceiveNumBytes x d st num_bytes =
     (case num_bytes of
        None \<Rightarrow> None
      | Some parsed_num_bytes \<Rightarrow>
          if rd_is_receiving_data d then None
          else if of_nat (length (rd_buffer d)) < parsed_num_bytes then (if 2 ^ 63 \<le> parsed_num_bytes then None else Some (True, d, st))
          else Some (True, d, st\<lparr>stat_abort_listening_with_code :=
                 insert (if parsed_num_bytes < of_nat (length (rd_buffer d)) then RECEIVED_UNEXPECTED_BYTES else Listen_OK)
                   (stat_abort_listening_with_code st)\<rparr>))"

subsection \<open>Receiving\<close>

definition HandleReceiveError :: "'w net \<Rightarrow> SocketIdentifier \<Rightarrow> ('a, 'w) Socket \<Rightarrow> bool \<times> ('a, 'w) Socket" where
  "HandleReceiveError N x s =
     (let s = on_stats (stat_num_errors_seen_update ((+) 1)) s;
          last_error_code = n_last_error N (sk_lib s);
          error_code = n_socket_error N x (sk_lib s);
          on_socket = ''Failed to Receive on socket '' @ PrintSocketId x
      in if error_code = n_would_block N \<or> error_code = n_in_progress N then (True, SetErrorMessage (on_socket @ '': WSAEWOULDBLOCK.'') s)
         else if last_error_code = n_reset N then
           (False, SetErrorMessage (on_socket @ '' ('' @ Itoa (n_reset N) @
              ''): Connection reset by peer. This can happen if the other end aborts abruptly, without first closing the socket.'') s)
         else if last_error_code = n_aborted N then
           (False, SetErrorMessage (on_socket @ '' ('' @ Itoa (n_aborted N) @
              ''): Software caused connection abort. This can happen if receive buffer has not allocated any space, or other software errors.'') s)
         else (True, SetErrorMessage (on_socket @ '' ('' @ Itoa last_error_code @ '').'') s))"

definition HandleSendError :: "'w net \<Rightarrow> SocketIdentifier \<Rightarrow> ('a, 'w) Socket \<Rightarrow> bool \<times> ('a, 'w) Socket" where
  "HandleSendError N x s = HandleReceiveError N x s"

definition HandleReceivedBytes :: "'a ListenParams \<Rightarrow> SocketIdentifier \<Rightarrow> ('a, 'w) Socket \<Rightarrow> (bool \<times> ('a, 'w) Socket) option" where
  "HandleReceivedBytes p x s =
     (if \<not> handles HANDLE_RECEIVE p then Some (True, on_stats (stat_abort_listening_with_code_update (insert RECEIVE)) s)
      else case lp_receive_data p of
          None \<Rightarrow> Some (True, s)
        | Some f \<Rightarrow> do {
            d \<leftarrow> FindOrNull x (sk_received s);
            (ok, d, st) \<leftarrow> f x d (sk_stats s) (lp_receive_data_args p);
            let s = s\<lparr>sk_received := put_socket x d (sk_received s), sk_stats := st\<rparr>;
            Some (if ok then (True, s)
                  else (False, SetErrorMessage ''Failed to receive data via user-provided function in listen_params_.receive_data_.'' s)) })"

definition set_received :: "SocketIdentifier \<Rightarrow> u8 list \<Rightarrow> ('a, 'w) Socket \<Rightarrow> ('a, 'w) Socket" where
  "set_received x bs s = s\<lparr>sk_received := put_socket x \<lparr>rd_buffer = bs, rd_is_receiving_data = False\<rparr> (sk_received s)\<rparr>"

text \<open>
  The size of the buffer is taken as an \<open>int\<close>, a 32-bit word: one of 2 ^ 31 bytes and more is full, and of one of 2 ^ 32 and
  more only the bytes before the truncated size are kept when the buffer is resized. Space that cannot be allocated is an error; for a negative number of bytes
  that can, the write starts after the end. The flag \<open>is_receiving_data_\<close> is set during the call of the library only.
\<close>

definition pre_size :: "u8 list \<Rightarrow> int" where
  "pre_size bs = sint (of_nat (length bs) :: 32 word)"

definition ReceiveData :: "'w net \<Rightarrow> SocketIdentifier \<Rightarrow> ('a, 'w) Socket \<Rightarrow> (bool \<times> ('a, 'w) Socket) option" where
  "ReceiveData N x s =
     (let s = on_stats (stat_num_server_receive_data_calls_update ((+) 1)) s;
          (d, m) = FindOrInsert x (sk_received s) ReceivedData_new;
          s = s\<lparr>sk_received := m\<rparr>
      in if rd_is_receiving_data d then Some (False, SetErrorMessage ''ReceiveData called, even though already receiving.'' s)
         else let max_bytes = lp_receive_buffer_max_size (sk_listen_params s);
                  pre_receive_size = pre_size (rd_buffer d);
                  resized = word_of_int max_bytes + of_nat (length (rd_buffer d)) :: 64 word
              in if kMaxBytesTransferrable \<le> word_of_int pre_receive_size then Some (False, SetErrorMessage ''Receive Buffer is full.'' s)
                 else if 2 ^ 63 \<le> resized then
                   Some (False, SetErrorMessage (''Failed to allocate '' @ Itoa (uint resized) @ '' bytes of memory to Read in data:'' @ newline) s)
                 else if max_bytes < 0 then None
                 else let (received, s) = ext (n_receive N x max_bytes) s
                      in case received of
                          None \<Rightarrow> Some (HandleReceiveError N x (set_received x (take (nat pre_receive_size) (rd_buffer d)) s))
                        | Some bs \<Rightarrow>
                            if max_bytes < int (length bs) then None
                            else let s = set_received x (take (nat pre_receive_size) (rd_buffer d) @ bs) s;
                                     s = on_stats (\<lambda>st. st\<lparr>stat_num_received_bytes := stat_num_received_bytes st + of_nat (length bs),
                                       stat_num_global_received_bytes := stat_num_global_received_bytes st + of_nat (length bs),
                                       stat_num_received_transactions := stat_num_received_transactions st + 1,
                                       stat_num_global_received_transactions := stat_num_global_received_transactions st + 1\<rparr>) s
                                 in if bs = [] then Some (False, SetErrorMessage ''Zero bytes received.'' s)
                                    else let s = (if last bs = 0 then on_stats (stat_num_received_null_characters_update ((+) 1)) s else s)
                                         in HandleReceivedBytes (sk_listen_params s) x s)"

subsection \<open>The events of one call of select\<close>

definition HandleGeneralSocketError :: "'w net \<Rightarrow> nat \<Rightarrow> ('a, 'w) Socket \<Rightarrow> bool \<times> ('a, 'w) Socket" where
  "HandleGeneralSocketError N i s = RemoveConnection N i (on_stats (stat_num_errors_seen_update ((+) 1)) s)"

definition event_error :: "('a, 'w) Socket \<Rightarrow> ('a, 'w) Socket" where
  "event_error = on_stats (stat_num_event_errors_update ((+) 1))"

definition receive_error :: "('a, 'w) Socket \<Rightarrow> ('a, 'w) Socket" where
  "receive_error s = on_stats (stat_num_receive_errors_update ((+) 1)) (on_stats (stat_num_errors_seen_update ((+) 1)) s)"

definition cookie_events :: "'w net \<Rightarrow> SocketIdentifier list \<Rightarrow> SocketIdentifier list \<Rightarrow> ('a, 'w) Socket \<Rightarrow> (bool \<times> ('a, 'w) Socket) option" where
  "cookie_events N read_sockets error_sockets s =
     (let receive_id = n_receive_id N (sk_lib s);
          (ok, E, s) = (if sid_member receive_id error_sockets then (False, sid_erase receive_id error_sockets, event_error s)
                        else (True, error_sockets, s));
          (ok, s) = (if sid_member (n_send_id N (sk_lib s)) E then (False, event_error s) else (ok, s))
      in do {
        (ok, R, s) \<leftarrow> (if sid_member receive_id read_sockets then do {
              (received, s) \<leftarrow> ReceiveData N receive_id s;
              Some (if received then (ok, sid_erase receive_id read_sockets, s)
                    else (False, sid_erase receive_id read_sockets, receive_error s)) }
            else Some (ok, read_sockets, s));
        Some (if sid_member (n_send_id N (sk_lib s)) R then (False, event_error s) else (ok, s)) })"

text \<open>
  The connections in turn: where the iterator is, the sets and the result so far. After a connection with an error has been
  removed without another error, the iterator is increased once more.
\<close>

definition events_step :: "'w net \<Rightarrow> nat \<times> SocketIdentifier list \<times> SocketIdentifier list \<times> bool \<times> ('a, 'w) Socket \<Rightarrow>
    (bool option \<times> nat \<times> SocketIdentifier list \<times> SocketIdentifier list \<times> bool \<times> ('a, 'w) Socket) option" where
  "events_step N state =
     (let (i, R, E, ok, s) = state; x = sk_connections s ! i
      in if i = length (sk_connections s) then Some (Some ok, state)
         else if length (sk_connections s) < i then None
         else if sid_member x E then
           (let (removed, s) = HandleGeneralSocketError N i s
            in if \<not> removed then Some (None, i, R, sid_erase x E, False, event_error s)
               else Some (None, Suc i, R, sid_erase x E, ok, s))
         else if \<not> sid_member x R then Some (None, Suc i, R, E, ok, s)
         else do {
           (received, s) \<leftarrow> ReceiveData N x s;
           Some (if \<not> received then (None, i, sid_erase x R, E, False, receive_error (snd (RemoveConnection N i s)))
                 else (None, Suc i, sid_erase x R, E, ok, s)) })"

definition HandleSelectEvents :: "'w net \<Rightarrow> SocketIdentifier list \<Rightarrow> SocketIdentifier list \<Rightarrow> ('a, 'w) Socket \<Rightarrow> (bool \<times> ('a, 'w) Socket) option" where
  "HandleSelectEvents N R E s =
     (if sk_type s = COOKIE then cookie_events N R E s
      else do { (ok, i, R, E, result, s) \<leftarrow> retry (events_step N) (0, R, E, True, s); Some (ok, s) })"

subsection \<open>Listening\<close>

text \<open>
  The number of attempts to bind is not looked at, but the number of connection errors is. These counters are \<open>int\<close> in the code
  and unbounded here, so the definition is that of the code for up to 2 ^ 31 - 1 errors; one more overflows, which the
  language leaves undefined.
\<close>

definition HandleBindError :: "'w net \<Rightarrow> ('a, 'w) Socket \<Rightarrow> ListenReturnCode set option \<times> ('a, 'w) Socket" where
  "HandleBindError N s =
     (let last_error_code = n_last_error N (sk_lib s);
          s = on_stats (stat_num_bind_errors_update ((+) 1)) s;
          p = lp_bind_params (sk_listen_params s);
          errors = stat_num_connection_errors (sk_stats s);
          give_up = (\<lambda>s. (Some {BIND_ERROR}, snd (CloseServerSocket N (SetErrorMessage
             (''Failed to bind server socket: '' @ Itoa last_error_code) s))))
      in if last_error_code = n_in_use N \<and> bp_num_retries p \<noteq> 0 \<and> (bp_num_retries p < 0 \<or> errors \<le> bp_num_retries p) then
           (let doublings = (if bp_num_tries_at_current_sleep_time p \<le> 0 then 0 else errors div bp_num_tries_at_current_sleep_time p);
                sleep_time = bp_sleep_time p * push_bit (nat doublings) 1
            in if 0 < bp_sleep_time p \<and> 63 < doublings then give_up s
               else if 0 < bp_sleep_time p \<and> sleep_time < bp_sleep_time p then
                 (Some {BIND_ERROR}, snd (CloseServerSocket N (SetErrorMessage (''Failed to bind serve socket: '' @ Itoa last_error_code) s)))
               else let s = on_stats (stat_num_bind_sleep_calls_update ((+) 1)) s;
                        (slept, s) = ext (n_sleep N (sint ((if 0 < bp_sleep_time p then sleep_time else 0) * 1000))) s
                    in (None, on_stats (stat_bind_sleep_timer_update ((+) (word_of_int slept))) s))
         else give_up s)"

definition listen_step :: "'w net \<Rightarrow> ListenReturnCode set \<times> ('a, 'w) Socket \<Rightarrow>
    (ListenReturnCode set option \<times> ListenReturnCode set \<times> ('a, 'w) Socket) option" where
  "listen_step N state =
     (let (codes, s) = state; is_server = (sk_role s = SERVER)
      in do {
        (keep, codes) \<leftarrow> ShouldKeepListening s codes;
        if \<not> keep then Some (Some codes, codes, s)
        else let s = on_stats (stat_num_times_in_listen_loop_update ((+) 1)) s;
                 timeout = lp_select_timeout_ms (sk_listen_params s);
                 ((return_value, read_sockets, error_sockets), s) =
                   ext (n_select N False (if is_server then n_server_id N (sk_lib s) else n_receive_id N (sk_lib s)) (timeout * 1000)) s
             in if return_value < 0 then
                  (let last_error_code = n_last_error N (sk_lib s);
                       s = on_stats (stat_num_select_errors_update ((+) 1)) (on_stats (stat_num_errors_seen_update ((+) 1)) s)
                   in if last_error_code \<noteq> n_unavailable N then
                        Some (None, codes, SetErrorMessage (''Failed select(): '' @ Itoa last_error_code) s)
                      else if is_server then Some (None, codes, s)
                      else if length (sk_connections s) = 1 \<and> n_is_client N (sk_lib s) (sk_connections s ! 0) then
                        Some (Some {Listen_SELECT_ERROR}, codes, s\<lparr>sk_connections := []\<rparr>)
                      else Some (Some {Listen_SELECT_ERROR}, codes, SetErrorMessage ''Unexpected select() error for Listen()'' s))
                else if return_value = 0 then
                  (let s = on_stats (stat_msec_since_last_event_update ((+) timeout)) s;
                       sleep = lp_no_event_sleep_ms (sk_listen_params s)
                   in Some (None, codes, if 0 < sleep then snd (ext (n_sleep N (sint (sleep * 1000))) s) else s))
                else let s = on_stats (stat_msec_since_last_event_update (\<lambda>n. 0)) s
                     in if n_server_in N (sk_lib s) error_sockets then
                          Some (None, codes, SetErrorMessage
                            (''select() detected an error on the main Server socket: '' @ Itoa (n_server_error N (sk_lib s)))
                            (on_stats (stat_num_server_socket_errors_update ((+) 1)) (on_stats (stat_num_errors_seen_update ((+) 1)) s)))
                        else if n_client_in N (sk_lib s) error_sockets then
                          Some (None, codes, SetErrorMessage
                            (''select() detected an error on the main Client socket: '' @ Itoa (n_client_error N (sk_lib s)))
                            (on_stats (stat_num_client_socket_errors_update ((+) 1)) (on_stats (stat_num_errors_seen_update ((+) 1)) s)))
                        else if n_server_in N (sk_lib s) read_sockets \<and> \<not> is_server then None
                        else let (ok, s) = (if n_server_in N (sk_lib s) read_sockets then HandleNewConnection N s else (True, s))
                             in if \<not> ok then Some (None, codes, s)
                                else do { (handled, s) \<leftarrow> HandleSelectEvents N read_sockets error_sockets s; Some (None, codes, s) } })"

definition listen_loop :: "'w net \<Rightarrow> ('a, 'w) Socket \<Rightarrow> (ListenReturnCode set option \<times> ('a, 'w) Socket) option" where
  "listen_loop N s = do {
     (result, codes, s) \<leftarrow> retry (listen_step N) ({}, on_stats (stat_num_times_listen_loop_called_update ((+) 1)) s);
     Some (Some result, s) }"

definition ThreadListen_step :: "'w net \<Rightarrow> ('a, 'w) Socket \<Rightarrow> (ListenReturnCode set option \<times> ('a, 'w) Socket) option" where
  "ThreadListen_step N s =
     (if sk_role s = SERVER \<and> \<not> sk_server_bound s then
        (let s = on_stats (stat_num_bind_calls_update ((+) 1)) s;
             (ok, s) = ext (n_bind N) s
         in if \<not> ok then Some (HandleBindError N s)
            else let s = on_stats (stat_num_listen_calls_update ((+) 1)) s;
                     (ok, s) = ext (n_listen N) s
                 in if \<not> ok then (let s = snd (CloseServerSocket N s)
                      in Some (Some {LISTEN_ERROR}, SetErrorMessage (''Failed to initiate listening on server socket: '' @ last_error_text N s) s))
                    else listen_loop N (s\<lparr>sk_server_bound := True\<rparr>))
      else if sk_role s = CLIENT \<and> (length (sk_connections s) \<noteq> 1 \<or> \<not> n_is_client N (sk_lib s) (sk_connections s ! 0)) then
        Some (Some {LISTEN_ERROR}, SetErrorMessage ''Failed to Listen(): Connection to server is not established.'' s)
      else listen_loop N s)"

definition ThreadListen :: "'w net \<Rightarrow> ('a, 'w) Socket \<Rightarrow> (ListenReturnCode set \<times> ('a, 'w) Socket) option" where
  "ThreadListen N = retry (ThreadListen_step N)"

fun read_pending :: "SocketIdentifier list \<Rightarrow> ('a, 'w) Socket \<Rightarrow> (bool \<times> ('a, 'w) Socket) option" where
  "read_pending [] s = Some (True, s)"
| "read_pending (x # xs) s = do {
     d \<leftarrow> FindOrNull x (sk_received s);
     if rd_buffer d = [] then read_pending xs s
     else do {
       (ok, s) \<leftarrow> HandleReceivedBytes (sk_listen_params s) x s;
       if ok then read_pending xs s
       else Some (False, SetErrorMessage ''Failed to Listen(): Failed to parse existing bytes in Receive buffer.'' s) } }"

definition Listen :: "'w net \<Rightarrow> bool \<Rightarrow> ('a, 'w) Socket \<Rightarrow> (ListenReturnCode set \<times> ('a, 'w) Socket) option" where
  "Listen N clear_receive_buffer s =
     (let (ok, s) = ensure_setup N s
      in if \<not> ok then Some ({BAD_INITIALIZATION_ERROR}, SetErrorMessage ''Unable to SetupSocket()'' s)
         else do {
           (ok, s) \<leftarrow> (if sk_role s = CLIENT then client_connected N s else Some (True, s));
           if \<not> ok then Some ({BAD_INITIALIZATION_ERROR}, SetErrorMessage ''Unable to connect to Server.'' s)
           else do {
             (ok, s) \<leftarrow> (if sk_role s = SERVER \<and> clear_receive_buffer \<or> sk_role s = CLIENT \<and> length (sk_received s) = 1
                         then read_pending (map fst (sk_received s)) s else Some (True, s));
             if \<not> ok then Some ({BAD_INITIALIZATION_ERROR}, s) else ThreadListen N s } })"

definition Listen_default :: "'w net \<Rightarrow> ('a, 'w) Socket \<Rightarrow> (ListenReturnCode set \<times> ('a, 'w) Socket) option" where
  "Listen_default N s = Listen N False s"

definition Listen_type :: "'w net \<Rightarrow> ListenType \<Rightarrow> ('a, 'w) Socket \<Rightarrow> (ListenReturnCode set \<times> ('a, 'w) Socket) option" where
  "Listen_type N t s = Listen N False (on_listen (\<lambda>p. p\<lparr>lp_type := insert t (lp_type p)\<rparr>) s)"

definition Listen_types :: "'w net \<Rightarrow> ListenType set \<Rightarrow> ('a, 'w) Socket \<Rightarrow> (ListenReturnCode set \<times> ('a, 'w) Socket) option" where
  "Listen_types N types s = Listen N False (on_listen (\<lambda>p. p\<lparr>lp_type := types\<rparr>) s)"

definition Listen_params :: "'w net \<Rightarrow> 'a ListenParams \<Rightarrow> ('a, 'w) Socket \<Rightarrow> (ListenReturnCode set \<times> ('a, 'w) Socket) option" where
  "Listen_params N params s = Listen N False (on_listen (\<lambda>p. assign_ListenParams p params) s)"

text \<open>A server waits for a client; when it fails to, the parameters for listening are not restored.\<close>

definition ServerConnect :: "'w net \<Rightarrow> ('a, 'w) Socket \<Rightarrow> (bool \<times> ('a, 'w) Socket) option" where
  "ServerConnect N s =
     (let s = on_stats (stat_abort_listening_with_code_update (\<lambda>c. {})) s;
          orig_params = copy_ListenParams (sk_listen_params s);
          tmp = (copy_ListenParams orig_params)\<lparr>lp_type := {}, lp_stop_params := StopListeningCondition_Reset 1\<rparr>;
          s = on_listen (\<lambda>p. assign_ListenParams p tmp) s
      in do {
        (return_codes, s) \<leftarrow> Listen_default N s;
        if return_codes \<noteq> {NEW_CONNECTION} then
          Some (False, SetErrorMessage (''Unable to connect to Client: '' @
            (''Listen Return Codes ('' @ Itoa (int (card return_codes)) @ ''):'' @
             concat (map (\<lambda>c. '' '' @ GetListenReturnCodeString c) (codes_in_order return_codes))) @
            newline @ ''.Socket Error Message:'' @ newline @ sk_error_msg s) s)
        else let s = on_stats (stat_abort_listening_with_code_update (\<lambda>c. {})) s
             in Some (HandleNewConnection N (on_listen (\<lambda>p. assign_ListenParams p orig_params) s)) })"

end
