(* ===== verification/Socket_Send.thy ===== *)
theory Socket_Send
  imports Socket_Transfer
begin

text \<open>
  The sockets of \<open>Util/socket.cpp\<close>, last part: sending, the buffers of sent and received bytes, and the creation of a
  socket in \<open>Util/socket_utils.cpp\<close>. The variants for \<open>char\<close>, \<open>unsigned char\<close>, vectors and arrays are the same here.
\<close>

subsection \<open>Sending\<close>

definition SendBlobNow :: "'w net \<Rightarrow> SocketIdentifier \<Rightarrow> u8 list \<Rightarrow> ('a, 'w) Socket \<Rightarrow> SendReturnCode \<times> int \<times> ('a, 'w) Socket" where
  "SendBlobNow N x buffer s =
     (let (num_chars_sent, s) = ext (n_send N x buffer) s
      in if num_chars_sent = n_error_code N then
           (SEND_ERROR, num_chars_sent, SetErrorMessage (''Failed to SendBlobNow() for sending '' @ Itoa (int (length buffer)) @
              '' bytes. Error Code: '' @ Itoa (n_socket_error N x (sk_lib s)) @ '', Last Error: '' @ last_error_text N s) s)
         else (SUCCESS, num_chars_sent, on_stats (\<lambda>st. st\<lparr>
                stat_num_sent_bytes := stat_num_sent_bytes st + word_of_int num_chars_sent,
                stat_num_global_sent_bytes := stat_num_global_sent_bytes st + word_of_int num_chars_sent\<rparr>) s))"

text \<open>What select says on a socket that is to be written to: nothing when it is ready.\<close>

definition not_writable :: "'w net \<Rightarrow> SocketIdentifier \<Rightarrow> int \<times> SocketIdentifier list \<times> SocketIdentifier list \<Rightarrow> ('a, 'w) Socket \<Rightarrow>
    (SendReturnCode \<times> ('a, 'w) Socket) option" where
  "not_writable N x selected s =
     (let (socket_ready, write_sockets, error_sockets) = selected
      in if socket_ready < 0 then
           Some (SELECT_ERROR, SetErrorMessage (''Failed to SendBlob(): select() returned error: '' @ last_error_text N s) s)
         else if socket_ready = 0 then
           (if lp_select_timeout_ms (sk_listen_params s) = 0 then
              Some (UNKNOWN_ERROR, SetErrorMessage (''SendBlob() hit a code path that shouldn'' @ quote @ ''t ever happen: select() returned ''
                @ quote @ ''socket not ready'' @ quote @ '', even though the '' @ quote @ ''blocking'' @ quote @ '' version of select() was used...'') s)
            else Some (SOCKET_NOT_READY, SetErrorMessage
                (''Failed to SendBlob(): select() indicated socket not ready to send. Last Error: '' @ last_error_text N s) s))
         else if error_sockets \<noteq> [] then
           Some (SOCKET_ERROR, SetErrorMessage
             (if length error_sockets \<noteq> 1 \<or> \<not> sid_member x error_sockets
              then ''Failed to SendBlob(): Error ('' @ Itoa (n_socket_error N (hd error_sockets) (sk_lib s)) @ '') on unexpected socket.''
              else ''Failed to SendBlob(): Socket Error: '' @ Itoa (n_socket_error N x (sk_lib s))) s)
         else if write_sockets = [] then
           Some (UNKNOWN_ERROR, SetErrorMessage (''Failed to SendBlob(): select() indicated socket was ready for writing, but then didn''
             @ quote @ ''t populate write_sockets. This should never happen.'') s)
         else if \<not> sid_member x write_sockets then
           Some (UNKNOWN_ERROR, SetErrorMessage (''Failed to SendBlob(): select() found a change to a socket ('' @
              SocketIdentifier_ToString (hd write_sockets) @ '') that wasn'' @ quote @ ''t supposed to be monitored'') s)
         else None)"

text \<open>Sends all of a buffer, in as many parts as the library takes it; the sum of what was sent is returned.\<close>

function SendBlob :: "'w net \<Rightarrow> SocketIdentifier \<Rightarrow> u8 list \<Rightarrow> int \<Rightarrow> ('a, 'w) Socket \<Rightarrow> SendReturnCode \<times> int \<times> ('a, 'w) Socket" where
  "SendBlob N x buffer sent s =
     (let s = on_stats (stat_num_inside_send_data_calls_update ((+) 1)) s
      in if buffer = [] then (SUCCESS, sent, s)
         else let (ok, s) = ensure_setup N s
              in if \<not> ok then (BAD_SOCKET, sent, SetErrorMessage ''Failed to SendBlob(): Unable to SetupSocket.'' s)
                 else let (selected, s) = ext (n_select N True x (lp_select_timeout_ms (sk_listen_params s) * 1000)) s
                      in case not_writable N x selected s of
                          Some (code, s) \<Rightarrow> (code, sent, s)
                        | None \<Rightarrow>
                            (let (result, n, s) = SendBlobNow N x buffer s
                             in if result \<noteq> SUCCESS then (result, sent, SetErrorMessage ''SendBlobNow() failed.'' s)
                                else if n \<le> 0 then
                                  (SEND_ERROR, sent, SetErrorMessage (''SendBlobNow() failed: number of bytes sent: '' @ Itoa n @
                                     '', last error: '' @ last_error_text N s) s)
                                else if n < int (length buffer) then
                                  SendBlob N x (drop (nat n) buffer) (sent + n)
                                    (on_stats (stat_num_inside_send_data_calls_update (\<lambda>k. k - 1)) s)
                                else (SUCCESS, sent + n, s)))"
  by pat_completeness auto

termination
  by (relation "measure (\<lambda>(N, x, buffer, sent, s). length buffer)") auto

declare SendBlob.simps [simp del]

text \<open>The number of bytes is taken as an \<open>int\<close>, so that a negative one counts as nothing to send.\<close>

definition SendDataNow_step :: "'w net \<Rightarrow> SocketIdentifier \<Rightarrow> u8 list \<Rightarrow> int \<times> nat \<times> ('a, 'w) Socket \<Rightarrow>
    (SendReturnCode option \<times> int \<times> nat \<times> ('a, 'w) Socket) option" where
  "SendDataNow_step N x data state =
     (let (remaining, next_index, s) = state
      in if remaining \<le> 0 then
           Some (Some SUCCESS, remaining, next_index, on_stats (stat_num_global_sent_transactions_update ((+) 1))
             (on_stats (stat_num_sent_transactions_update ((+) 1)) s))
         else let s = on_stats (stat_num_send_data_calls_temp_update ((+) 1)) s;
                  (result, sent, s) = SendBlob N x (take (nat remaining) (drop next_index data)) 0 s
              in if result \<noteq> SUCCESS then Some (Some result, remaining, next_index, s)
                 else Some (None, remaining - sent, next_index + nat sent, s))"

definition SendDataNow :: "'w net \<Rightarrow> SocketIdentifier \<Rightarrow> u8 list \<Rightarrow> ('a, 'w) Socket \<Rightarrow> (SendReturnCode \<times> ('a, 'w) Socket) option" where
  "SendDataNow N x data s = do {
     (result, remaining, next_index, s) \<leftarrow> retry (SendDataNow_step N x data) (sint (of_nat (length data) :: 32 word), 0, s);
     Some (result, s) }"

subsection \<open>Buffers of bytes to send\<close>

text \<open>A server accepts connections until the one it wants to send to is there.\<close>

definition await_step :: "'w net \<Rightarrow> SocketIdentifier \<Rightarrow> ('a, 'w) Socket \<Rightarrow> (bool option \<times> ('a, 'w) Socket) option" where
  "await_step N x s =
     (if IsConnected_to x s then Some (Some True, s)
      else do {
        (ok, s) \<leftarrow> ServerConnect N s;
        Some (if ok then (None, s) else (Some False, SetErrorMessage ''Unable to connect to Client.'' s)) })"

definition connection_there :: "'w net \<Rightarrow> SocketIdentifier \<Rightarrow> ('a, 'w) Socket \<Rightarrow> (bool \<times> ('a, 'w) Socket) option" where
  "connection_there N x s =
     (if sk_role s = CLIENT then do {
        (ok, s) \<leftarrow> client_connected N s;
        Some (if ok then (True, s) else (False, SetErrorMessage ''Unable to connect to Server.'' s)) }
      else if sk_role s = SERVER then retry (await_step N x) s
      else Some (True, s))"

definition SendDataNoFlush :: "'w net \<Rightarrow> SocketIdentifier \<Rightarrow> u8 list \<Rightarrow> ('a, 'w) Socket \<Rightarrow> (bool \<times> ('a, 'w) Socket) option" where
  "SendDataNoFlush N x data s =
     (if data = [] then Some (True, s)
      else do {
        (ok, s) \<leftarrow> connection_there N x s;
        Some (if \<not> ok then (False, s)
              else let (d, m) = FindOrInsert x (sk_to_send s) DataToSend_new
                   in (True, s\<lparr>sk_to_send := put_socket x (d\<lparr>ds_buffer := ds_buffer d @ data\<rparr>) m\<rparr>)) })"

definition SendDataNoFlush_index :: "'w net \<Rightarrow> int \<Rightarrow> u8 list \<Rightarrow> ('a, 'w) Socket \<Rightarrow> (bool \<times> ('a, 'w) Socket) option" where
  "SendDataNoFlush_index N i data s =
     (if i < 0 \<or> int (length (sk_connections s)) \<le> i then Some (False, s)
      else SendDataNoFlush N (sk_connections s ! nat i) data s)"

text \<open>The connection a socket has without being told.\<close>

definition the_connection :: "'w net \<Rightarrow> ('a, 'w) Socket \<Rightarrow> (bool \<times> ('a, 'w) Socket) option" where
  "the_connection N s =
     (if sk_role s = CLIENT then do {
        (ok, s) \<leftarrow> client_connected N s;
        Some (if ok then (True, s) else (False, SetErrorMessage ''Unable to connect to Server.'' s)) }
      else if sk_role s = SERVER then do {
        (ok, s) \<leftarrow> (if IsConnected s then Some (True, s) else ServerConnect N s);
        Some (if ok then (True, s) else (False, SetErrorMessage ''Unable to connect to Client.'' s)) }
      else Some (True, s))"

definition SendDataNoFlush_default :: "'w net \<Rightarrow> u8 list \<Rightarrow> ('a, 'w) Socket \<Rightarrow> (bool \<times> ('a, 'w) Socket) option" where
  "SendDataNoFlush_default N data s =
     (if sk_role s = SocketRole_UNKNOWN then Some (False, s)
      else do {
        (ok, s) \<leftarrow> the_connection N s;
        if \<not> ok then Some (False, s)
        else if sk_role s = SERVER then SendDataNoFlush_index N 0 data s
        else SendDataNoFlush N (n_send_id N (sk_lib s)) data s })"

definition FlushSendBuffer_bytes :: "'w net \<Rightarrow> SocketIdentifier \<Rightarrow> u8 list \<Rightarrow> ('a, 'w) Socket \<Rightarrow> (SendReturnCode \<times> ('a, 'w) Socket) option" where
  "FlushSendBuffer_bytes N x to_flush s = (if to_flush = [] then Some (SUCCESS, s) else SendDataNow N x to_flush s)"

text \<open>The buffer is cleared after success; otherwise all of it stays, also what has been sent.\<close>

definition FlushSendBuffer_data :: "'w net \<Rightarrow> SocketIdentifier \<Rightarrow> DataToSend \<Rightarrow> ('a, 'w) Socket \<Rightarrow> (SendReturnCode \<times> ('a, 'w) Socket) option" where
  "FlushSendBuffer_data N x d s = do {
     (result, s) \<leftarrow> FlushSendBuffer_bytes N x (ds_buffer d) (s\<lparr>sk_to_send := put_socket x (d\<lparr>ds_is_sending_data := True\<rparr>) (sk_to_send s)\<rparr>);
     Some (if result \<noteq> SUCCESS then (result, s\<lparr>sk_to_send := put_socket x (d\<lparr>ds_is_sending_data := False\<rparr>) (sk_to_send s)\<rparr>)
           else (SUCCESS, s\<lparr>sk_to_send := put_socket x DataToSend_new (sk_to_send s)\<rparr>)) }"

definition FlushSendBuffer :: "'w net \<Rightarrow> SocketIdentifier \<Rightarrow> ('a, 'w) Socket \<Rightarrow> (SendReturnCode \<times> ('a, 'w) Socket) option" where
  "FlushSendBuffer N x s =
     (case FindOrNull x (sk_to_send s) of None \<Rightarrow> Some (UNKNOWN_SOCKET, s) | Some d \<Rightarrow> FlushSendBuffer_data N x d s)"

definition FlushSendBuffer_index :: "'w net \<Rightarrow> int \<Rightarrow> ('a, 'w) Socket \<Rightarrow> (SendReturnCode \<times> ('a, 'w) Socket) option" where
  "FlushSendBuffer_index N i s =
     (if i < 0 \<or> int (length (sk_connections s)) \<le> i then Some (UNKNOWN_SOCKET, s)
      else FlushSendBuffer N (sk_connections s ! nat i) s)"

definition FlushSendBuffer_default :: "'w net \<Rightarrow> ('a, 'w) Socket \<Rightarrow> (SendReturnCode \<times> ('a, 'w) Socket) option" where
  "FlushSendBuffer_default N s =
     (if sk_role s = CLIENT \<or> sk_role s = NEITHER then FlushSendBuffer N (n_send_id N (sk_lib s)) s
      else if sk_role s = SERVER then
        (if sk_connections s = [] then Some (SUCCESS, s) else FlushSendBuffer_index N 0 s)
      else Some (BAD_ROLE, s))"

fun flush_all :: "'w net \<Rightarrow> SocketIdentifier list \<Rightarrow> ('a, 'w) Socket \<Rightarrow> (SendReturnCode \<times> ('a, 'w) Socket) option" where
  "flush_all N [] s = Some (SUCCESS, s)"
| "flush_all N (x # xs) s = do {
     d \<leftarrow> FindOrNull x (sk_to_send s);
     if ds_buffer d = [] then flush_all N xs s
     else do {
       (result, s) \<leftarrow> FlushSendBuffer_data N x d s;
       if result \<noteq> SUCCESS then Some (result, s) else flush_all N xs s } }"

definition FlushSendBuffers :: "'w net \<Rightarrow> ('a, 'w) Socket \<Rightarrow> (SendReturnCode \<times> ('a, 'w) Socket) option" where
  "FlushSendBuffers N s =
     (if sk_role s = CLIENT \<or> sk_role s = NEITHER then FlushSendBuffer N (n_send_id N (sk_lib s)) s
      else if sk_role s = SERVER then
        (if sk_connections s = [] then Some (SUCCESS, s) else flush_all N (map fst (sk_to_send s)) s)
      else Some (BAD_ROLE, s))"

definition SendData :: "'w net \<Rightarrow> SocketIdentifier \<Rightarrow> u8 list \<Rightarrow> ('a, 'w) Socket \<Rightarrow> (SendReturnCode \<times> ('a, 'w) Socket) option" where
  "SendData N x data s = do {
     (ok, s) \<leftarrow> connection_there N x s;
     if \<not> ok then Some (CANNOT_CONNECT, s)
     else do {
       (ok, s) \<leftarrow> SendDataNoFlush N x data s;
       if \<not> ok then Some (ENQUEUE_ERROR, SetErrorMessage ''Unable to Send data.'' s) else FlushSendBuffer N x s } }"

definition SendData_index :: "'w net \<Rightarrow> int \<Rightarrow> u8 list \<Rightarrow> ('a, 'w) Socket \<Rightarrow> (SendReturnCode \<times> ('a, 'w) Socket) option" where
  "SendData_index N i data s =
     (if i < 0 \<or> int (length (sk_connections s)) \<le> i then Some (UNKNOWN_SOCKET, s)
      else SendData N (sk_connections s ! nat i) data s)"

definition SendData_default :: "'w net \<Rightarrow> u8 list \<Rightarrow> ('a, 'w) Socket \<Rightarrow> (SendReturnCode \<times> ('a, 'w) Socket) option" where
  "SendData_default N data s =
     (if sk_role s = SocketRole_UNKNOWN then Some (BAD_ROLE, s)
      else do {
        (ok, s) \<leftarrow> the_connection N s;
        if \<not> ok then Some (CANNOT_CONNECT, s)
        else if sk_role s = SERVER then SendData_index N 0 data s
        else SendData N (n_send_id N (sk_lib s)) data s })"

subsection \<open>Buffers of received bytes\<close>

definition GetReceivedBytesVector :: "SocketIdentifier \<Rightarrow> ('a, 'w) Socket \<Rightarrow> u8 list option" where
  "GetReceivedBytesVector x s = map_option rd_buffer (FindOrNull x (sk_received s))"

text \<open>The socket at a position of the map.\<close>

definition received_at :: "nat \<Rightarrow> ('a, 'w) Socket \<Rightarrow> SocketIdentifier option" where
  "received_at i s = (if length (sk_received s) \<le> i then None else Some (fst (sk_received s ! i)))"

definition GetReceivedBytesVector_index :: "nat \<Rightarrow> ('a, 'w) Socket \<Rightarrow> u8 list option" where
  "GetReceivedBytesVector_index i s = (if length (sk_received s) \<le> i then None else Some (rd_buffer (snd (sk_received s ! i))))"

text \<open>\<open>None\<close> as a container is a null pointer.\<close>

definition SwapBuffer :: "SocketIdentifier \<Rightarrow> u8 list option \<Rightarrow> ('a, 'w) Socket \<Rightarrow> bool \<times> u8 list option \<times> ('a, 'w) Socket" where
  "SwapBuffer x output s =
     (case (output, FindOrNull x (sk_received s)) of
        (Some out, Some d) \<Rightarrow> (True, Some (rd_buffer d), s\<lparr>sk_received := put_socket x (d\<lparr>rd_buffer := out\<rparr>) (sk_received s)\<rparr>)
      | _ \<Rightarrow> (False, output, s))"

definition SwapBuffer_index :: "nat \<Rightarrow> u8 list option \<Rightarrow> ('a, 'w) Socket \<Rightarrow> bool \<times> u8 list option \<times> ('a, 'w) Socket" where
  "SwapBuffer_index i output s =
     (case (output, received_at i s) of (Some out, Some x) \<Rightarrow> SwapBuffer x output s | _ \<Rightarrow> (False, output, s))"

text \<open>The size of a copy that starts after the end wraps around, and there is no such copy.\<close>

definition CopyBuffer :: "SocketIdentifier \<Rightarrow> nat \<Rightarrow> u8 list option \<Rightarrow> ('a, 'w) Socket \<Rightarrow> (bool \<times> u8 list option) option" where
  "CopyBuffer x start_index output s =
     (case (output, GetReceivedBytesVector x s) of
        (Some out, Some buffer) \<Rightarrow> if length buffer < start_index then None else Some (True, Some (drop start_index buffer))
      | _ \<Rightarrow> Some (False, output))"

definition CopyBuffer_index :: "nat \<Rightarrow> nat \<Rightarrow> u8 list option \<Rightarrow> ('a, 'w) Socket \<Rightarrow> (bool \<times> u8 list option) option" where
  "CopyBuffer_index i start_index output s =
     (case (output, received_at i s) of (Some out, Some x) \<Rightarrow> CopyBuffer x start_index output s | _ \<Rightarrow> Some (False, output))"

text \<open>Into memory: how many bytes are asked for, \<open>None\<close> or \<open>Some 0\<close> for all, how many there are then, and the bytes written.\<close>

definition copy_to_memory :: "u8 list \<Rightarrow> nat \<Rightarrow> nat option \<Rightarrow> (bool \<times> nat option \<times> u8 list) option" where
  "copy_to_memory buffer start_index num_copied_bytes =
     (if length buffer < start_index then None
      else case num_copied_bytes of
          None \<Rightarrow> Some (True, None, drop start_index buffer)
        | Some n \<Rightarrow>
            if n = 0 then Some (True, Some (length buffer - start_index), drop start_index buffer)
            else if length buffer - start_index < n then Some (False, Some n, [])
            else Some (True, Some n, take n (drop start_index buffer)))"

definition CopyBuffer_memory :: "SocketIdentifier \<Rightarrow> nat \<Rightarrow> nat option \<Rightarrow> ('a, 'w) Socket \<Rightarrow> (bool \<times> nat option \<times> u8 list) option" where
  "CopyBuffer_memory x start_index num_copied_bytes s =
     (case GetReceivedBytesVector x s of
        None \<Rightarrow> Some (False, num_copied_bytes, [])
      | Some buffer \<Rightarrow> copy_to_memory buffer start_index num_copied_bytes)"

definition CopyBuffer_memory_index :: "nat \<Rightarrow> nat \<Rightarrow> nat option \<Rightarrow> ('a, 'w) Socket \<Rightarrow> (bool \<times> nat option \<times> u8 list) option" where
  "CopyBuffer_memory_index i start_index num_copied_bytes s =
     (case GetReceivedBytesVector_index i s of
        None \<Rightarrow> Some (False, num_copied_bytes, [])
      | Some buffer \<Rightarrow> copy_to_memory buffer start_index num_copied_bytes)"

subsection \<open>The creation of a socket\<close>

record TcpSocketParams =
  tcp_is_default :: bool
  tcp_type :: SocketType
  tcp_role :: SocketRole
  tcp_connect_ip :: string
  tcp_listen_ip :: string
  tcp_port :: "64 word"

definition TcpSocketParams_new :: TcpSocketParams where
  "TcpSocketParams_new = \<lparr>tcp_is_default = True, tcp_type = OS_TCP, tcp_role = SocketRole_UNKNOWN, tcp_connect_ip = [],
     tcp_listen_ip = [], tcp_port = 0\<rparr>"

definition TcpSocketParams_of :: "SocketRole \<Rightarrow> string \<Rightarrow> string \<Rightarrow> 64 word \<Rightarrow> TcpSocketParams" where
  "TcpSocketParams_of r connect_ip listen_ip port = TcpSocketParams_new\<lparr>tcp_role := r, tcp_connect_ip := connect_ip,
     tcp_listen_ip := listen_ip, tcp_port := port\<rparr>"

definition ParseIpKeyword :: "'w net \<Rightarrow> SocketRole \<Rightarrow> string \<Rightarrow> ('a, 'w) Socket \<Rightarrow> ('a, 'w) Socket" where
  "ParseIpKeyword N r ip s =
     (let (found, s) = (if ip = ''localhost'' then GetLocalHost N s else if ip = ''network'' then GetWithinNetworkIP N s else (None, s));
          actual_ip = (case found of None \<Rightarrow> ip | Some i \<Rightarrow> i)
      in if actual_ip = ip then s
         else if r = SERVER then SetListenIp actual_ip s
         else if r = CLIENT then SetConnectIp actual_ip s else s)"

text \<open>The socket of the operating system is built from a role, an address and a port; there is none for another type.\<close>

definition CreateSocket :: "'w net \<Rightarrow> (SocketRole \<Rightarrow> string \<Rightarrow> 64 word \<Rightarrow> ('a, 'w) Socket) \<Rightarrow> TcpSocketParams \<Rightarrow> ('a, 'w) Socket option" where
  "CreateSocket N OsSocket params =
     (if tcp_type params = OS_TCP then
        (let ip = (if tcp_role params = CLIENT then tcp_connect_ip params else tcp_listen_ip params)
         in Some (ParseIpKeyword N (tcp_role params) ip (OsSocket (tcp_role params) ip (tcp_port params))))
      else None)"

end
