(* ===== verification/Socket_Facts.thy ===== *)
theory Socket_Facts
  imports Socket_Send
begin

text \<open>
  What the sockets of \<open>Util/socket.cpp\<close> do: when they stop listening, that buffers are sent and messages received whole, that
  connections are counted, and which attempts never end.
\<close>

subsection \<open>Timeouts and conditions\<close>

text \<open>
  A timeout that is added to the conditions of a socket leaves them as they were: a socket goes on listening when it did
  before and less time has passed since the last event, and when the time is up the code for it is among those reported.
\<close>

theorem timeout_added:
  assumes "USE_STOP_CONDITION \<in> lp_type (sk_listen_params s)" "stat_abort_listening_with_code (sk_stats s) = {}"
    "ShouldKeepListening s codes = Some (k, codes')" "0 < ms"
  shows "ShouldKeepListening (SetListenTimeout ms s) codes =
    Some (if \<not> k then (False, codes')
          else if ms \<le> stat_msec_since_last_event (sk_stats s) then (False, insert NO_ACTIVITY codes') else (True, codes'))"
proof -
  let ?p = "lp_stop_params (sk_listen_params s)"
  let ?f = "timeout_fields ms (stop_at StopListeningCondition_new)"
  have "lp_stop_params (sk_listen_params (SetListenTimeout ms s)) = StopListeningCondition (Some ?p)
      (Some (StopListeningCondition None None Cond_IDENTITY ?f)) Cond_OR (stop_at (StopListeningCondition_Reset 0))"
    "USE_STOP_CONDITION \<in> lp_type (sk_listen_params (SetListenTimeout ms s))"
    "sk_stats (SetListenTimeout ms s) = sk_stats s"
    using assms(1) by (simp_all add: SetListenTimeout_def on_listen_def Let_def)
  moreover have "keep_at_leaf (sk_stats s) ?f c = Some (if ms \<le> stat_msec_since_last_event (sk_stats s)
      then (False, insert NO_ACTIVITY c) else (True, c))" for c
    using assms(4) by (simp add: keep_at_leaf_def timeout_fields_def reached_def StopListeningCondition_new_def StopListeningCondition_Reset_def)
  ultimately show ?thesis
    using assms(1,2,3) by (simp add: ShouldKeepListening_def)
qed

text \<open>One received message or ten milliseconds: the first condition, and five and fifteen milliseconds later.\<close>

definition one_message :: StopListeningCondition where
  "one_message = StopListeningCondition None None Cond_IDENTITY
     ((stop_at (StopListeningCondition_Reset 0))\<lparr>stop_num_received_transactions := 1\<rparr>)"

definition waiting_for_one :: "64 word \<Rightarrow> (64 word, unit) Socket" where
  "waiting_for_one t = on_stats (stat_msec_since_last_event_update (\<lambda>n. t))
     (on_listen (\<lambda>p. p\<lparr>lp_type := {USE_STOP_CONDITION}, lp_stop_params := one_message\<rparr>) (Socket_new 0 ()))"

theorem timeout_added_witness:
  "ShouldKeepListening (SetListenTimeout 10 (waiting_for_one 5)) {} = Some (True, {}) \<and>
   ShouldKeepListening (SetListenTimeout 10 (waiting_for_one 15)) {} = Some (False, {NO_ACTIVITY})"
proof -
  have "USE_STOP_CONDITION \<in> lp_type (sk_listen_params (waiting_for_one t))"
    "stat_abort_listening_with_code (sk_stats (waiting_for_one t)) = {}"
    "ShouldKeepListening (waiting_for_one t) {} = Some (True, {})"
    "stat_msec_since_last_event (sk_stats (waiting_for_one t)) = t" for t
    by (simp_all add: waiting_for_one_def on_stats_def on_listen_def Socket_new_def one_message_def StopListeningCondition_Reset_def
        ShouldKeepListening_def keep_at_leaf_def reached_def SocketStats_new_def)
  note waiting = this
  show ?thesis
    using timeout_added [OF waiting(1-3) [of 5], of 10] timeout_added [OF waiting(1-3) [of 15], of 10]
    by (simp add: waiting(4))
qed

subsection \<open>Sending\<close>

text \<open>
  A library that keeps what it sends: \<open>out w x\<close> is all that has been sent over \<open>x\<close>. A call sends a prefix of what it is
  given, of the length it returns, and other functions send nothing.
\<close>

definition delivers :: "'w net \<Rightarrow> ('w \<Rightarrow> SocketIdentifier \<Rightarrow> u8 list) \<Rightarrow> bool" where
  "delivers N out \<longleftrightarrow> n_error_code N < 0 \<and>
     (\<forall>x bs w. fst (n_send N x bs w) \<le> int (length bs) \<and>
        out (snd (n_send N x bs w)) = (out w)(x := out w x @ take (nat (fst (n_send N x bs w))) bs)) \<and>
     (\<forall>m x t w. out (snd (n_select N m x t w)) = out w) \<and>
     (\<forall>w. out (snd (n_initialize N w)) = out w \<and> out (snd (n_setup_client N w)) = out w \<and> out (snd (n_setup_server N w)) = out w) \<and>
     (\<forall>l o' w. out (snd (n_server_option N l o' w)) = out w)"

lemma ext_eq: "ext f s = (fst (f (sk_lib s)), s\<lparr>sk_lib := snd (f (sk_lib s))\<rparr>)"
  by (simp add: ext_def split: prod.splits)

lemma SetErrorMessage_keeps [simp]:
  "sk_role (SetErrorMessage m s) = sk_role s" "sk_type (SetErrorMessage m s) = sk_type s" "sk_stats (SetErrorMessage m s) = sk_stats s"
  "sk_is_socket_initialized (SetErrorMessage m s) = sk_is_socket_initialized s" "sk_server_bound (SetErrorMessage m s) = sk_server_bound s"
  "sk_listen_params (SetErrorMessage m s) = sk_listen_params s" "sk_connect_params (SetErrorMessage m s) = sk_connect_params s"
  "sk_connections (SetErrorMessage m s) = sk_connections s" "sk_received (SetErrorMessage m s) = sk_received s"
  "sk_to_send (SetErrorMessage m s) = sk_to_send s" "sk_lib (SetErrorMessage m s) = sk_lib s"
  by (simp_all add: SetErrorMessage_def)

lemma on_stats_keeps [simp]:
  "sk_role (on_stats f s) = sk_role s" "sk_type (on_stats f s) = sk_type s" "sk_stats (on_stats f s) = f (sk_stats s)"
  "sk_is_socket_initialized (on_stats f s) = sk_is_socket_initialized s" "sk_server_bound (on_stats f s) = sk_server_bound s"
  "sk_listen_params (on_stats f s) = sk_listen_params s" "sk_connect_params (on_stats f s) = sk_connect_params s"
  "sk_connections (on_stats f s) = sk_connections s" "sk_received (on_stats f s) = sk_received s"
  "sk_to_send (on_stats f s) = sk_to_send s" "sk_lib (on_stats f s) = sk_lib s"
  by (simp_all add: on_stats_def)

lemma setup_keeps:
  assumes "ensure_setup N s = (ok, t)"
  shows "sk_to_send t = sk_to_send s" "sk_listen_params t = sk_listen_params s" "sk_connections t = sk_connections s"
    "sk_received t = sk_received s" "sk_role t = sk_role s" "delivers N out \<Longrightarrow> out (sk_lib t) = out (sk_lib s)"
  using assms by (auto simp: ensure_setup_def SetupSocket_def ext_eq Let_def delivers_def split: if_splits)

lemma not_writable_keeps:
  "not_writable N x sel s = Some (r, t) \<Longrightarrow> r \<noteq> SUCCESS \<and> sk_to_send t = sk_to_send s \<and> sk_lib t = sk_lib s"
  by (auto simp: not_writable_def Let_def split: prod.splits if_splits)

lemma SendBlobNow_sends:
  assumes "delivers N out" "SendBlobNow N x buffer s = (r, n, t)"
  shows "out (sk_lib t) = (out (sk_lib s))(x := out (sk_lib s) x @ take (nat n) buffer)" "n \<le> int (length buffer)"
    "r \<noteq> SUCCESS \<Longrightarrow> n < 0" "sk_to_send t = sk_to_send s"
  using assms by (auto simp: SendBlobNow_def ext_eq Let_def delivers_def split: if_splits)

lemma SendBlob_sends:
  assumes "delivers N out" "SendBlob N x buffer sent s = (r, n, t)"
  shows "\<exists>k. k \<le> length buffer \<and> out (sk_lib t) = (out (sk_lib s))(x := out (sk_lib s) x @ take k buffer) \<and>
    (r = SUCCESS \<longrightarrow> k = length buffer \<and> n = sent + int k) \<and> sk_to_send t = sk_to_send s"
  using assms(2)
proof (induction "length buffer" arbitrary: buffer sent s r n t rule: less_induct)
  case less
  define s0 where "s0 = on_stats (stat_num_inside_send_data_calls_update ((+) 1)) s"
  obtain ok s1 where s1: "ensure_setup N s0 = (ok, s1)" by fastforce
  obtain sel s2 where s2: "ext (n_select N True x (lp_select_timeout_ms (sk_listen_params s1) * 1000)) s1 = (sel, s2)" by fastforce
  obtain b m s3 where s3: "SendBlobNow N x buffer s2 = (b, m, s3)" by (metis prod_cases3)
  note run = less.prems [unfolded SendBlob.simps [of N x buffer], folded s0_def, unfolded Let_def s1 s2 s3 prod.case]
  have lib2: "out (sk_lib s2) = out (sk_lib s)" "sk_to_send s2 = sk_to_send s"
    using s2 setup_keeps [OF s1] assms(1) by (auto simp: ext_eq s0_def delivers_def)
  note sent3 = SendBlobNow_sends [OF assms(1) s3]
  consider "buffer = []" | "buffer \<noteq> []" "\<not> ok" | c u where "buffer \<noteq> []" "ok" "not_writable N x sel s2 = Some (c, u)"
    | "buffer \<noteq> []" "ok" "not_writable N x sel s2 = None" "b \<noteq> SUCCESS \<or> m \<le> 0"
    | "buffer \<noteq> []" "ok" "not_writable N x sel s2 = None" "b = SUCCESS" "0 < m" "int (length buffer) \<le> m"
    | "buffer \<noteq> []" "ok" "not_writable N x sel s2 = None" "b = SUCCESS" "0 < m" "m < int (length buffer)" by fastforce
  then show ?case
  proof cases
    case 1
    then show ?thesis using run by (auto simp: s0_def)
  next
    case 2
    then show ?thesis using run setup_keeps [OF s1] assms(1) by (intro exI [of _ 0]) (auto simp: s0_def)
  next
    case 3
    then show ?thesis using run lib2 not_writable_keeps [OF 3(3)] by (intro exI [of _ 0]) auto
  next
    case 4
    then show ?thesis using run lib2 sent3 by (intro exI [of _ 0]) (auto split: if_splits)
  next
    case 5
    then show ?thesis using run lib2 sent3 by (intro exI [of _ "length buffer"]) auto
  next
    case 6
    define u where "u = on_stats (stat_num_inside_send_data_calls_update (\<lambda>k. k - 1)) s3"
    have "SendBlob N x (drop (nat m) buffer) (sent + m) u = (r, n, t)" using run 6 by (simp add: u_def)
    then obtain k where k: "k \<le> length (drop (nat m) buffer)" "sk_to_send t = sk_to_send u"
      "out (sk_lib t) = (out (sk_lib u))(x := out (sk_lib u) x @ take k (drop (nat m) buffer))"
      "r = SUCCESS \<longrightarrow> k = length (drop (nat m) buffer) \<and> n = sent + m + int k"
      using less.hyps [of "drop (nat m) buffer" "sent + m" u r n t] 6 by auto
    then show ?thesis
      using 6 lib2 sent3 by (intro exI [of _ "nat m + k"]) (auto simp: u_def take_add)
  qed
qed

lemma SendDataNow_sends:
  assumes "delivers N out" "length data < 2 ^ 31"
  shows "\<exists>r t k. SendDataNow N x data s = Some (r, t) \<and> k \<le> length data \<and>
    out (sk_lib t) = (out (sk_lib s))(x := out (sk_lib s) x @ take k data) \<and> (r = SUCCESS \<longrightarrow> k = length data) \<and>
    sk_to_send t = sk_to_send s"
proof -
  have size: "sint (of_nat (length data) :: 32 word) = int (length data)"
    using assms(2) by (simp add: signed_of_nat signed_take_bit_int_eq_self)
  define s0 where "s0 = on_stats (stat_num_send_data_calls_temp_update ((+) 1)) s"
  obtain r n t where blob: "SendBlob N x data 0 s0 = (r, n, t)" by (metis prod_cases3)
  obtain k where k: "k \<le> length data" "out (sk_lib t) = (out (sk_lib s))(x := out (sk_lib s) x @ take k data)"
    "r = SUCCESS \<longrightarrow> k = length data \<and> n = int k" "sk_to_send t = sk_to_send s"
    using SendBlob_sends [OF assms(1) blob] by (auto simp: s0_def)
  show ?thesis
  proof (cases "data = []")
    case True
    then show ?thesis using size
      by (auto simp: SendDataNow_def retry.simps [of "SendDataNow_step N x []" "(0, 0, s)"] SendDataNow_step_def Let_def)
  next
    case False
    have step: "SendDataNow_step N x data (int (length data), 0, s) = Some
        (if r \<noteq> SUCCESS then Some r else None, if r \<noteq> SUCCESS then (int (length data), 0, t) else (int (length data) - n, nat n, t))"
      using False blob by (auto simp: SendDataNow_step_def Let_def s0_def)
    show ?thesis
    proof (cases "r = SUCCESS")
      case True
      then show ?thesis
        using step k size False by (auto simp: SendDataNow_def retry.simps [of _ "(int (length data), 0, s)"]
            retry.simps [of _ "(0, length data, t)"] SendDataNow_step_def [of N x data "(0, length data, t)"] Let_def)
    next
      case False
      then show ?thesis
        using step k size by (auto simp: SendDataNow_def retry.simps [of _ "(int (length data), 0, s)"])
    qed
  qed
qed

text \<open>A buffer of 2 to 4 gigabytes counts as nothing to send: the call succeeds, and the buffer is cleared.\<close>

lemma large_buffer_lost:
  assumes "2 ^ 31 \<le> length data" "length data < 2 ^ 32"
  shows "\<exists>t. SendDataNow N x data s = Some (SUCCESS, t) \<and> sk_lib t = sk_lib s"
proof -
  have "int (length data) div 2 ^ 31 = 1" using assms by (intro int_div_pos_eq [of _ _ _ "int (length data) - 2 ^ 31"]) auto
  then have "bit (int (length data)) 31" by (simp add: bit_iff_odd)
  then have "sint (of_nat (length data) :: 32 word) = int (length data) - 2 ^ 32"
    using assms by (simp add: signed_of_nat signed_take_bit_eq_take_bit_minus take_bit_int_eq_self)
  then have "sint (of_nat (length data) :: 32 word) \<le> 0" using assms(2) by simp
  then show ?thesis
    by (simp add: SendDataNow_def retry.simps SendDataNow_step_def Let_def)
qed

definition pending :: "('a, 'w) Socket \<Rightarrow> SocketIdentifier \<Rightarrow> u8 list" where
  "pending s x = (case FindOrNull x (sk_to_send s) of None \<Rightarrow> [] | Some d \<Rightarrow> ds_buffer d)"

definition connected :: "SocketIdentifier \<Rightarrow> ('a, 'w) Socket \<Rightarrow> bool" where
  "connected x s \<longleftrightarrow> (case sk_role s of CLIENT \<Rightarrow> IsConnected s | SERVER \<Rightarrow> IsConnected_to x s | _ \<Rightarrow> True)"

lemma connected_there: "connected x s \<Longrightarrow> connection_there N x s = Some (True, s)"
  by (auto simp: connected_def connection_there_def client_connected_def await_step_def retry.simps [of "await_step N x" s]
      split: SocketRole.splits)

lemma flush_delivers:
  assumes "delivers N out" "length (ds_buffer d) < 2 ^ 31"
  shows "\<exists>r t k. FlushSendBuffer_data N x d s = Some (r, t) \<and> k \<le> length (ds_buffer d) \<and>
    out (sk_lib t) = (out (sk_lib s))(x := out (sk_lib s) x @ take k (ds_buffer d)) \<and>
    (r = SUCCESS \<longrightarrow> k = length (ds_buffer d)) \<and>
    FindOrNull x (sk_to_send t) = Some (if r = SUCCESS then DataToSend_new else d\<lparr>ds_is_sending_data := False\<rparr>)"
proof (cases "ds_buffer d = []")
  case True
  then show ?thesis
    by (auto simp: FlushSendBuffer_data_def FlushSendBuffer_bytes_def FindOrNull_put)
next
  case False
  let ?s = "s\<lparr>sk_to_send := put_socket x (d\<lparr>ds_is_sending_data := True\<rparr>) (sk_to_send s)\<rparr>"
  obtain r t k where "SendDataNow N x (ds_buffer d) ?s = Some (r, t)" "k \<le> length (ds_buffer d)"
    "out (sk_lib t) = (out (sk_lib s))(x := out (sk_lib s) x @ take k (ds_buffer d))" "r = SUCCESS \<longrightarrow> k = length (ds_buffer d)"
    using SendDataNow_sends [OF assms, of x ?s] by auto
  then show ?thesis using False
    by (auto simp: FlushSendBuffer_data_def FlushSendBuffer_bytes_def FindOrNull_put)
qed

text \<open>
  C38: Data is sent in order, behind what is waiting already: over a connection that is there, a call of \<open>SendData\<close> returns,
  and has sent a prefix of the bytes that were waiting and the new ones. After success that is all of them and none wait; after
  an error all of them wait still, also those that were sent, so that the next call sends these again.
\<close>

theorem send_delivers:
  assumes "delivers N out" "connected x s" "data \<noteq> []" "length (pending s x @ data) < 2 ^ 31"
  shows "\<exists>r t k. SendData N x data s = Some (r, t) \<and>
    out (sk_lib t) = (out (sk_lib s))(x := out (sk_lib s) x @ take k (pending s x @ data)) \<and>
    (if r = SUCCESS then k = length (pending s x @ data) \<and> pending t x = [] else pending t x = pending s x @ data)"
proof -
  obtain d m where d: "FindOrInsert x (sk_to_send s) DataToSend_new = (d, m)" by fastforce
  then have buffer: "ds_buffer d = pending s x"
    by (auto simp: FindOrInsert_def pending_def DataToSend_new_def split: option.splits)
  let ?d = "d\<lparr>ds_buffer := pending s x @ data\<rparr>" and ?s = "s\<lparr>sk_to_send := put_socket x (d\<lparr>ds_buffer := pending s x @ data\<rparr>) m\<rparr>"
  have "SendData N x data s = FlushSendBuffer_data N x ?d ?s"
    using connected_there [OF assms(2), of N] assms(3) d buffer
    by (simp add: SendData_def SendDataNoFlush_def FlushSendBuffer_def FindOrNull_put)
  moreover obtain r t k where "FlushSendBuffer_data N x ?d ?s = Some (r, t)"
    "out (sk_lib t) = (out (sk_lib s))(x := out (sk_lib s) x @ take k (pending s x @ data))"
    "r = SUCCESS \<longrightarrow> k = length (pending s x @ data)"
    "FindOrNull x (sk_to_send t) = Some (if r = SUCCESS then DataToSend_new else ?d\<lparr>ds_is_sending_data := False\<rparr>)"
    using flush_delivers [OF assms(1), of ?d x ?s] assms(4) by auto
  ultimately show ?thesis
    by (intro exI [of _ r] exI [of _ t] exI [of _ k]) (auto simp: pending_def [of t] DataToSend_new_def)
qed

text \<open>A library that takes two bytes at a time and says at each call of select whether the socket is ready.\<close>

type_synonym slow_state = "(SocketIdentifier \<times> u8 list) list \<times> bool list"

definition slow_net :: "slow_state net" where
  "slow_net = \<lparr>n_error_code = - 1, n_would_block = 11, n_in_progress = 115, n_reset = 104, n_aborted = 103, n_refused = 111,
     n_unavailable = 9, n_in_use = 98, n_already = 114, n_layer = 1, n_tcp = 6, n_no_delay = 1, n_reuse = 2,
     n_initialize = Pair True, n_setup_client = Pair True, n_setup_server = Pair True,
     n_client_id = (\<lambda>w. SocketIdentifier_id 4), n_server_id = (\<lambda>w. SocketIdentifier_id 3),
     n_receive_id = (\<lambda>w. SocketIdentifier_id 4), n_send_id = (\<lambda>w. SocketIdentifier_id 4),
     n_is_client = (\<lambda>w x. x = SocketIdentifier_id 4), n_client_in = (\<lambda>w. sid_member (SocketIdentifier_id 4)),
     n_server_in = (\<lambda>w. sid_member (SocketIdentifier_id 3)), n_client_bound = (\<lambda>w. False),
     n_local_host = (\<lambda>w. Some ''127.0.0.1''), n_network_ip = (\<lambda>w. None),
     n_set_option = (\<lambda>x l o'. Pair True), n_client_option = (\<lambda>l o'. Pair True), n_server_option = (\<lambda>l o'. Pair True),
     n_non_blocking = (\<lambda>b x. Pair True), n_bind = Pair True, n_listen = Pair True, n_connect = Pair True,
     n_open = Pair None,
     n_select = (\<lambda>writing x timeout (sent, ready). (if hd ready then (1, [x], []) else (0, [], []), sent, tl ready)),
     n_send = (\<lambda>x bs (sent, ready). (int (min 2 (length bs)), sent @ [(x, take 2 bs)], ready)),
     n_receive = (\<lambda>x n. Pair None), n_shutdown = (\<lambda>x. Pair True), n_close_client = (\<lambda>b. Pair True), n_close_server = Pair True,
     n_last_error = (\<lambda>w. 0), n_socket_error = (\<lambda>x w. 0), n_client_error = (\<lambda>w. 0), n_server_error = (\<lambda>w. 0),
     n_sleep = (\<lambda>t. Pair t)\<rparr>"

definition sent_over :: "slow_state \<Rightarrow> SocketIdentifier \<Rightarrow> u8 list" where
  "sent_over w x = concat (map snd (filter (\<lambda>(y, bs). y = x) (fst w)))"

definition slow_socket :: "bool list \<Rightarrow> (unit, slow_state) Socket" where
  "slow_socket ready = (Socket_new 0 ([], ready))\<lparr>sk_role := NEITHER, sk_is_socket_initialized := True\<rparr>"

lemma slow_delivers: "delivers slow_net sent_over"
  by (auto simp: delivers_def slow_net_def sent_over_def min_def split: prod.splits)

declare retry.simps [code] SendBlob.simps [code]

text \<open>The second call of select finds the socket not ready: two bytes have been sent, and are sent again.\<close>

theorem send_delivers_witness:
  "(\<exists>r t k. SendData slow_net (SocketIdentifier_id 4) [1, 2, 3] (slow_socket [True, False]) = Some (r, t) \<and>
     sent_over (sk_lib t) = (sent_over ([], [True, False]))(SocketIdentifier_id 4 := take k [1, 2, 3]) \<and>
     (if r = SUCCESS then k = 3 \<and> pending t (SocketIdentifier_id 4) = [] else pending t (SocketIdentifier_id 4) = [1, 2, 3])) \<and>
   (case SendData slow_net (SocketIdentifier_id 4) [1, 2, 3] (slow_socket [True, False, True, True]) of
      None \<Rightarrow> False
    | Some (r, t) \<Rightarrow> r = SOCKET_NOT_READY \<and> pending t (SocketIdentifier_id 4) = [1, 2, 3] \<and>
        (case FlushSendBuffer slow_net (SocketIdentifier_id 4) t of
           None \<Rightarrow> False
         | Some (r, t) \<Rightarrow> r = SUCCESS \<and> sent_over (sk_lib t) (SocketIdentifier_id 4) = [1, 2, 1, 2, 3]))"
proof (rule conjI, goal_cases)
  case 1
  let ?x = "SocketIdentifier_id 4" and ?s = "slow_socket [True, False]"
  have start: "sent_over ([], [True, False]) ?x = []" "connected ?x ?s" "pending ?s ?x = []" "sk_lib ?s = ([], [True, False])"
    by (simp_all add: connected_def slow_socket_def pending_def Socket_new_def sent_over_def)
  then obtain r t k where "SendData slow_net ?x [1, 2, 3] ?s = Some (r, t)"
    "sent_over (sk_lib t) = (sent_over (sk_lib ?s))(?x := sent_over (sk_lib ?s) ?x @ take k (pending ?s ?x @ [1, 2, 3]))"
    "if r = SUCCESS then k = length (pending ?s ?x @ [1, 2, 3]) \<and> pending t ?x = [] else pending t ?x = pending ?s ?x @ [1, 2, 3]"
    using send_delivers [OF slow_delivers start(2), of "[1, 2, 3]"] by auto
  then show ?case by (intro exI [of _ r] exI [of _ t] exI [of _ k]) (simp add: start split: if_splits)
next
  case 2
  show ?case by code_simp
qed

subsection \<open>Connections are counted\<close>

text \<open>A connection that could not be closed is removed, but stays in the number of connections.\<close>

definition counted :: "('a, 'w) Socket \<Rightarrow> bool" where
  "counted s \<longleftrightarrow> stat_num_current_connections (sk_stats s) = int (length (sk_connections s)) + stat_num_disconnect_errors (sk_stats s)"

text \<open>Callbacks that leave the counters of connections alone.\<close>

definition counters_kept :: "'a ListenParams \<Rightarrow> bool" where
  "counters_kept p \<longleftrightarrow> (\<forall>f x d st a ok d' st'. lp_receive_data p = Some f \<longrightarrow> f x d st a = Some (ok, d', st') \<longrightarrow>
     stat_num_current_connections st' = stat_num_current_connections st \<and>
     stat_num_disconnect_errors st' = stat_num_disconnect_errors st)"

definition kept :: "('a, 'w) Socket \<Rightarrow> ('a, 'w) Socket \<Rightarrow> bool" where
  "kept s t \<longleftrightarrow> sk_role t = sk_role s \<and> sk_listen_params t = sk_listen_params s \<and> (counted s \<longrightarrow> counted t)"

lemma kept_refl [simp]: "kept s s"
  by (simp add: kept_def)

lemma kept_trans: "kept s t \<Longrightarrow> kept t u \<Longrightarrow> kept s u"
  by (simp add: kept_def)

lemma kept_error [simp]: "kept s (SetErrorMessage m t) = kept s t"
  by (simp add: kept_def counted_def)

lemma kept_lib [simp]: "kept s (t\<lparr>sk_lib := w\<rparr>) = kept s t" "kept s (t\<lparr>sk_received := m\<rparr>) = kept s t"
  by (simp_all add: kept_def counted_def)

lemma kept_stats: "stat_num_current_connections (f (sk_stats t)) = stat_num_current_connections (sk_stats t) \<Longrightarrow>
    stat_num_disconnect_errors (f (sk_stats t)) = stat_num_disconnect_errors (sk_stats t) \<Longrightarrow> kept s (on_stats f t) = kept s t"
  by (simp add: kept_def counted_def)

lemma RemoveConnection_kept:
  assumes "i < length (sk_connections s)" "RemoveConnection N i s = (ok, t)"
  shows "kept s t"
  using assms by (auto simp: RemoveConnection_def ShutdownConnection_def ext_eq Let_def kept_def counted_def split: if_splits)

lemma RemoveConnection_length:
  assumes "i < length (sk_connections s)" "RemoveConnection N i s = (ok, t)"
  shows "sk_connections t = take i (sk_connections s) @ drop (Suc i) (sk_connections s)"
  using assms by (auto simp: RemoveConnection_def ShutdownConnection_def ext_eq Let_def split: if_splits)

lemma HandleNewConnection_kept:
  assumes "lp_handle_new_connection (sk_listen_params s) = None" "HandleNewConnection N s = (ok, t)"
  shows "kept s t"
  using assms by (auto simp: HandleNewConnection_def OpenNewConnection_def connection_error_def ext_eq Let_def kept_def counted_def
      split: if_splits option.splits)

lemma HandleReceivedBytes_kept:
  assumes "counters_kept (sk_listen_params s)" "HandleReceivedBytes (sk_listen_params s) x s = Some (ok, t)"
  shows "kept s t \<and> sk_connections t = sk_connections s"
proof -
  have "kept s (s\<lparr>sk_received := m, sk_stats := st\<rparr>)"
    if "lp_receive_data (sk_listen_params s) = Some f" "f x d (sk_stats s) a = Some (b, d', st)" for f d a b d' st m
    using that assms(1) unfolding counters_kept_def kept_def counted_def by fastforce
  then show ?thesis
    using assms(2) by (auto simp: HandleReceivedBytes_def kept_stats Let_def bind_eq_Some_conv split: if_splits option.splits)
qed

text \<open>The state in which received bytes are handled.\<close>

definition after_receive :: "'w net \<Rightarrow> SocketIdentifier \<Rightarrow> u8 list \<Rightarrow> ('a, 'w) Socket \<Rightarrow> ('a, 'w) Socket" where
  "after_receive N x bs s =
     (let (d, m) = FindOrInsert x (sk_received s) ReceivedData_new;
          t = on_stats (stat_num_server_receive_data_calls_update ((+) 1)) s\<lparr>sk_received := m\<rparr>;
          t = t\<lparr>sk_lib := snd (n_receive N x (lp_receive_buffer_max_size (sk_listen_params s)) (sk_lib s))\<rparr>;
          t = on_stats (\<lambda>st. st\<lparr>stat_num_received_bytes := stat_num_received_bytes st + of_nat (length bs),
            stat_num_global_received_bytes := stat_num_global_received_bytes st + of_nat (length bs),
            stat_num_received_transactions := stat_num_received_transactions st + 1,
            stat_num_global_received_transactions := stat_num_global_received_transactions st + 1\<rparr>)
            (set_received x (take (nat (pre_size (rd_buffer d))) (rd_buffer d) @ bs) t)
      in if last bs = 0 then on_stats (stat_num_received_null_characters_update ((+) 1)) t else t)"

lemma after_receive_kept:
  "kept s (after_receive N x bs s) \<and> sk_connections (after_receive N x bs s) = sk_connections s"
  by (simp add: after_receive_def Let_def kept_stats set_received_def split: prod.splits)

lemma ReceiveData_cases:
  assumes "ReceiveData N x s = Some (ok, t)"
  shows "kept s t \<and> sk_connections t = sk_connections s \<or>
    (\<exists>bs. HandleReceivedBytes (sk_listen_params s) x (after_receive N x bs s) = Some (ok, t))"
proof -
  obtain d m where dm: "FindOrInsert x (sk_received s) ReceivedData_new = (d, m)" by fastforce
  show ?thesis
    using assms by (auto simp: ReceiveData_def after_receive_def dm Let_def ext_eq set_received_def HandleReceiveError_def kept_stats
        split: if_splits option.splits)
qed

lemma ReceiveData_kept:
  assumes "counters_kept (sk_listen_params s)" "ReceiveData N x s = Some (ok, t)"
  shows "kept s t \<and> sk_connections t = sk_connections s"
  using ReceiveData_cases [OF assms(2)]
proof
  assume "\<exists>bs. HandleReceivedBytes (sk_listen_params s) x (after_receive N x bs s) = Some (ok, t)"
  then obtain bs where bs: "HandleReceivedBytes (sk_listen_params s) x (after_receive N x bs s) = Some (ok, t)" by blast
  have u: "kept s (after_receive N x bs s)" "sk_connections (after_receive N x bs s) = sk_connections s"
    using after_receive_kept by auto
  then have "sk_listen_params (after_receive N x bs s) = sk_listen_params s" by (simp add: kept_def)
  then have "kept (after_receive N x bs s) t \<and> sk_connections t = sk_connections (after_receive N x bs s)"
    using HandleReceivedBytes_kept [of "after_receive N x bs s" x ok t] assms(1) bs by simp
  then show ?thesis using u kept_trans by metis
qed

lemma kept_events [simp]: "kept s (event_error u) = kept s u" "kept s (receive_error u) = kept s u"
  by (simp_all add: event_error_def receive_error_def kept_stats)

lemma cookie_events_kept:
  assumes "counters_kept (sk_listen_params s)" "cookie_events N R E s = Some (ok, t)"
  shows "kept s t"
proof -
  let ?x = "n_receive_id N (sk_lib s)"
  obtain ok1 E1 s1 where 1: "(if sid_member ?x E then (False, sid_erase ?x E, event_error s) else (True, E, s)) = (ok1, E1, s1)"
    by (metis prod_cases3)
  obtain ok2 s2 where 2: "(if sid_member (n_send_id N (sk_lib s1)) E1 then (False, event_error s1) else (ok1, s1)) = (ok2, s2)"
    by fastforce
  have s2: "kept s s2" using 1 2 by (auto split: if_splits)
  note run = assms(2) [unfolded cookie_events_def Let_def 1 2 prod.case]
  obtain ok3 R3 s3 where 3: "(if sid_member ?x R then ReceiveData N ?x s2 \<bind>
      (\<lambda>(received, s). Some (if received then (ok2, sid_erase ?x R, s) else (False, sid_erase ?x R, receive_error s)))
      else Some (ok2, R, s2)) = Some (ok3, R3, s3)"
    using run by (auto simp: bind_eq_Some_conv)
  have "kept s s3"
  proof (cases "sid_member ?x R")
    case True
    then obtain b u where u1: "ReceiveData N ?x s2 = Some (b, u)" using 3 by (auto simp: bind_eq_Some_conv)
    then have u: "ReceiveData N ?x s2 = Some (b, u)" "s3 = (if b then u else receive_error u)" using True 3 by (auto split: if_splits)
    have "kept s2 u" using ReceiveData_kept [of s2 N ?x b u] u(1) s2 assms(1) by (simp add: kept_def)
    then show ?thesis using kept_trans [OF s2] u(2) by auto
  qed (use 3 s2 in auto)
  then show ?thesis using run 3 by (auto split: if_splits)
qed

lemma events_step_kept:
  assumes "counters_kept (sk_listen_params s)" "events_step N (i, R, E, b, s) = Some (r, i', R', E', b', t)"
  shows "kept s t"
proof -
  let ?x = "sk_connections s ! i" and ?e = "on_stats (stat_num_errors_seen_update ((+) 1)) s"
  consider "i = length (sk_connections s)" | "i < length (sk_connections s)"
    using assms(2) by (fastforce simp: events_step_def Let_def split: if_splits)
  then show ?thesis
  proof cases
    case 1
    then show ?thesis using assms(2) by (simp add: events_step_def Let_def)
  next
    case 2
    obtain removed u where u: "HandleGeneralSocketError N i s = (removed, u)" by fastforce
    then have "kept ?e u" using RemoveConnection_kept [of i ?e N removed u] 2 by (simp add: HandleGeneralSocketError_def)
    moreover have "kept s ?e" by (simp add: kept_stats)
    ultimately have removed: "kept s u" using kept_trans by blast
    have received: "kept s (receive_error (snd (RemoveConnection N i v)))" "kept s v" if "ReceiveData N ?x s = Some (c, v)" for c v
    proof -
      have v: "kept s v" "sk_connections v = sk_connections s" using ReceiveData_kept [OF assms(1) that] by auto
      then show "kept s v" by simp
      have "kept v (snd (RemoveConnection N i v))"
        using RemoveConnection_kept [of i v N] 2 v(2) by (metis prod.collapse)
      then show "kept s (receive_error (snd (RemoveConnection N i v)))" using kept_trans v(1) by auto
    qed
    show ?thesis
    proof (cases "sid_member ?x E \<or> \<not> sid_member ?x R")
      case True
      then show ?thesis using assms(2) 2 u removed by (auto simp: events_step_def Let_def split: if_splits)
    next
      case False
      then obtain c v where cv: "ReceiveData N ?x s = Some (c, v)"
        using assms(2) 2 by (auto simp: events_step_def Let_def bind_eq_Some_conv)
      then have "t = (if c then v else receive_error (snd (RemoveConnection N i v)))"
        using assms(2) 2 False by (auto simp: events_step_def Let_def split: if_splits)
      then show ?thesis using received [OF cv] by auto
    qed
  qed
qed

lemma HandleSelectEvents_kept:
  assumes "counters_kept (sk_listen_params s)" "HandleSelectEvents N R E s = Some (ok, t)"
  shows "kept s t"
proof (cases "sk_type s = COOKIE")
  case True
  then show ?thesis using assms cookie_events_kept by (simp add: HandleSelectEvents_def)
next
  case False
  then obtain i R' E' b where run: "retry (events_step N) (0, R, E, True, s) = Some (ok, i, R', E', b, t)"
    using assms(2) by (auto simp: HandleSelectEvents_def bind_eq_Some_conv)
  have "kept s (snd (snd (snd (snd (i, R', E', b, t)))))"
  proof (rule retry_keeps [OF run, where I = "\<lambda>p. kept s (snd (snd (snd (snd p))))" and Q = "\<lambda>x p. kept s (snd (snd (snd (snd p))))"])
    fix p r q
    assume "kept s (snd (snd (snd (snd p))))" "events_step N p = Some (r, q)"
    moreover obtain i R E b u where p: "p = (i, R, E, b, u)" by (metis prod_cases5)
    moreover obtain i' R' E' b' v where q: "q = (i', R', E', b', v)" by (metis prod_cases5)
    ultimately have "kept s u" "events_step N (i, R, E, b, u) = Some (r, i', R', E', b', v)" by auto
    then have "kept s v" using events_step_kept [of u N i R E b r i' R' E' b' v] assms(1) kept_trans by (metis kept_def)
    then show "case r of None \<Rightarrow> kept s (snd (snd (snd (snd q)))) | Some x \<Rightarrow> kept s (snd (snd (snd (snd q))))"
      using q by (simp split: option.split)
  qed simp
  then show ?thesis by simp
qed

lemma listen_step_kept:
  assumes "sk_role s = SERVER" "lp_handle_new_connection (sk_listen_params s) = None" "counters_kept (sk_listen_params s)"
    "listen_step N (codes, s) = Some (r, codes', t)"
  shows "kept s t"
proof -
  let ?s = "on_stats (stat_num_times_in_listen_loop_update ((+) 1)) s"
  obtain v R E u where sel: "ext (n_select N False (n_server_id N (sk_lib ?s)) (lp_select_timeout_ms (sk_listen_params ?s) * 1000)) ?s = ((v, R, E), u)"
    by (metis prod.collapse)
  have u: "kept s u" using sel by (auto simp: ext_eq kept_stats)
  let ?z = "on_stats (stat_msec_since_last_event_update (\<lambda>n. 0)) u"
  have z: "kept s ?z" using u by (simp add: kept_stats)
  obtain ok w where w: "(if n_server_in N (sk_lib ?z) R then HandleNewConnection N ?z else (True, ?z)) = (ok, w)" by fastforce
  have "lp_handle_new_connection (sk_listen_params ?z) = None" using z assms(2) by (simp add: kept_def)
  then have "kept ?z w" using w HandleNewConnection_kept [of ?z N ok w] by (auto split: if_splits)
  then have w': "kept s w" using z kept_trans by blast
  have handled: "kept s y" if "HandleSelectEvents N R E w = Some (h, y)" for h y
    using HandleSelectEvents_kept [of w N R E h y] that w' assms(3) kept_trans by (metis kept_def)
  obtain k codes1 where keep: "ShouldKeepListening s codes = Some (k, codes1)"
    using assms(4) by (auto simp: listen_step_def Let_def bind_eq_Some_conv)
  note run = assms(4) [unfolded listen_step_def Let_def keep prod.case bind.simps assms(1)]
  show ?thesis
  proof (cases "\<not> k \<or> v \<le> 0 \<or> n_server_in N (sk_lib ?z) E \<or> n_client_in N (sk_lib ?z) E \<or> \<not> ok")
    case True
    then show ?thesis
      using run sel u z w w' by (auto simp: kept_stats ext_eq [of _ u] ext_eq [of _ "on_stats _ u"] split: if_splits)
  next
    case False
    then show ?thesis
      using run sel w handled by (auto simp: bind_eq_Some_conv split: if_splits)
  qed
qed

lemma listen_loop_kept:
  assumes "sk_role s = SERVER" "lp_handle_new_connection (sk_listen_params s) = None" "counters_kept (sk_listen_params s)"
    "listen_loop N s = Some (r, t)"
  shows "kept s t"
proof -
  let ?s = "on_stats (stat_num_times_listen_loop_called_update ((+) 1)) s"
  obtain result codes where run: "retry (listen_step N) ({}, ?s) = Some (result, codes, t)"
    using assms(4) by (auto simp: listen_loop_def bind_eq_Some_conv)
  have "kept s (snd (codes, t))"
  proof (rule retry_keeps [OF run, where I = "\<lambda>p. kept s (snd p)" and Q = "\<lambda>x p. kept s (snd p)"])
    fix p r q
    assume p: "kept s (snd p)" and step: "listen_step N p = Some (r, q)"
    have "sk_role (snd p) = SERVER" "sk_listen_params (snd p) = sk_listen_params s" using p assms(1) by (auto simp: kept_def)
    then have "kept (snd p) (snd q)"
      using listen_step_kept [of "snd p" N "fst p" r "fst q" "snd q"] step assms(2,3) by simp
    then show "case r of None \<Rightarrow> kept s (snd q) | Some x \<Rightarrow> kept s (snd q)" using p kept_trans by (auto split: option.split)
  qed (simp add: kept_stats)
  then show ?thesis by simp
qed

text \<open>
  A connection that cannot be closed is removed all the same, but still counted as a current one: the statistics drift from
  the connections by the disconnect errors.
\<close>

lemma failed_close_still_counted:
  assumes "i < length (sk_connections s)" "\<not> fst (n_shutdown N (sk_connections s ! i) (sk_lib s))" "RemoveConnection N i s = (ok, t)"
  shows "\<not> ok" "length (sk_connections t) = length (sk_connections s) - 1"
    "stat_num_current_connections (sk_stats t) = stat_num_current_connections (sk_stats s)"
    "stat_num_disconnect_errors (sk_stats t) = stat_num_disconnect_errors (sk_stats s) + 1"
  using assms by (auto simp: RemoveConnection_def ShutdownConnection_def ext_eq Let_def split: if_splits)

text \<open>
  C39: What the count of current connections of a listening server is: that of its connections and of the disconnect errors
  together. When a call of \<open>Listen\<close> on a bound server returns, the two are equal if they were before. So the count is that of
  the connections as long as every removed connection could be closed; each one that could not is still counted
  (\<open>failed_close_still_counted\<close>). No callback for new connections is set, and the one for received bytes, if any, is to leave
  the two counters alone.
\<close>

theorem connections_counted:
  assumes "sk_role s = SERVER" "sk_server_bound s" "lp_handle_new_connection (sk_listen_params s) = None"
    "counters_kept (sk_listen_params s)" "ThreadListen N s = Some (codes, t)"
    "stat_num_current_connections (sk_stats s) = int (length (sk_connections s)) + stat_num_disconnect_errors (sk_stats s)"
  shows "stat_num_current_connections (sk_stats t) = int (length (sk_connections t)) + stat_num_disconnect_errors (sk_stats t)"
proof -
  have step: "ThreadListen_step N s = listen_loop N s" using assms(1,2) by (simp add: ThreadListen_step_def)
  have "listen_loop N s = Some (Some codes, t)"
    using assms(5) step unfolding ThreadListen_def
    by (subst (asm) retry.simps) (auto simp: listen_loop_def bind_eq_Some_conv split: option.splits prod.splits bind_splits)
  then have "kept s t" using listen_loop_kept assms(1,3,4) by blast
  then show ?thesis using assms(6) by (simp add: kept_def counted_def)
qed

text \<open>A server that waits for two connections, and a library where there is always a new one.\<close>

definition busy_net :: "slow_state net" where
  "busy_net = slow_net\<lparr>n_select := (\<lambda>writing x timeout. Pair (1, [SocketIdentifier_id 3], [])), n_open := Pair (Some (SocketIdentifier_id 10))\<rparr>"

definition two_connections :: StopListeningCondition where
  "two_connections = StopListeningCondition None None Cond_IDENTITY
     ((stop_at (StopListeningCondition_Reset 0))\<lparr>stop_num_distinct_connections_seen := 2\<rparr>)"

definition busy_server :: "(unit, slow_state) Socket" where
  "busy_server = on_listen (\<lambda>p. p\<lparr>lp_type := {USE_STOP_CONDITION, HANDLE_NEW_CONNECTIONS}, lp_stop_params := two_connections\<rparr>)
     ((Socket_new 0 ([], []))\<lparr>sk_role := SERVER, sk_is_socket_initialized := True, sk_server_bound := True\<rparr>)"

theorem connections_counted_witness:
  "case ThreadListen busy_net busy_server of
     None \<Rightarrow> False
   | Some (codes, t) \<Rightarrow> codes = {CUMULATIVE_CONNECTIONS_THRESHOLD} \<and> length (sk_connections t) = 2 \<and>
       stat_num_current_connections (sk_stats t) = int (length (sk_connections t)) + stat_num_disconnect_errors (sk_stats t)"
proof -
  have "case ThreadListen busy_net busy_server of None \<Rightarrow> False
    | Some (codes, t) \<Rightarrow> codes = {CUMULATIVE_CONNECTIONS_THRESHOLD} \<and> length (sk_connections t) = 2"
    by code_simp
  then obtain codes t where t: "ThreadListen busy_net busy_server = Some (codes, t)"
    "codes = {CUMULATIVE_CONNECTIONS_THRESHOLD}" "length (sk_connections t) = 2"
    by (auto split: option.splits)
  have "sk_role busy_server = SERVER" "sk_server_bound busy_server" "lp_handle_new_connection (sk_listen_params busy_server) = None"
    "counters_kept (sk_listen_params busy_server)"
    "stat_num_current_connections (sk_stats busy_server) = int (length (sk_connections busy_server)) + stat_num_disconnect_errors (sk_stats busy_server)"
    by (simp_all add: busy_server_def on_listen_def Socket_new_def ListenParams_new_def counters_kept_def SocketStats_new_def)
  from connections_counted [OF this(1-4) t(1) this(5)] t show ?thesis by simp
qed

subsection \<open>Attempts that never end\<close>

text \<open>So many failing attempts to bind.\<close>

fun attempts :: "'w net \<Rightarrow> nat \<Rightarrow> ('a, 'w) Socket \<Rightarrow> ('a, 'w) Socket option" where
  "attempts N 0 s = Some s"
| "attempts N (Suc k) s = (case ThreadListen_step N s of Some (None, t) \<Rightarrow> attempts N k t | _ \<Rightarrow> None)"

lemma retry_diverges:
  assumes "I s" "\<And>s. I s \<Longrightarrow> \<exists>t. step s = Some (None, t) \<and> I t"
  shows "retry step s = None"
proof (cases "retry step s")
  case (Some p)
  then obtain x t where "retry step s = Some (x, t)" by fastforce
  then have False
    by (rule retry_keeps [where I = I and Q = "\<lambda>x t. False"]) (use assms in \<open>fastforce split: option.splits\<close>)+
  then show ?thesis ..
qed

text \<open>
  C40: The bound on the attempts to bind is not respected: while the address of a server is in use, a call of \<open>Listen\<close> attempts
  to bind for ever, whatever the number of retries of the parameters (but for 0), since the attempts are not compared
  with it.
\<close>

theorem binds_for_ever:
  assumes "sk_role s = SERVER" "\<not> sk_server_bound s" "\<And>w. \<not> fst (n_bind N w) \<and> n_last_error N (snd (n_bind N w)) = n_in_use N"
    "stat_num_connection_errors (sk_stats s) = 0" "bp_num_retries (lp_bind_params (sk_listen_params s)) \<noteq> 0"
  shows "ThreadListen N s = None \<and>
    (\<forall>k. \<exists>t. attempts N k s = Some t \<and> stat_num_bind_errors (sk_stats t) = stat_num_bind_errors (sk_stats s) + int k)"
proof -
  let ?I = "\<lambda>s. sk_role s = SERVER \<and> \<not> sk_server_bound s \<and> stat_num_connection_errors (sk_stats s) = 0 \<and>
    bp_num_retries (lp_bind_params (sk_listen_params s)) \<noteq> 0"
  have step: "\<exists>t. ThreadListen_step N s = Some (None, t) \<and> ?I t \<and> stat_num_bind_errors (sk_stats t) = stat_num_bind_errors (sk_stats s) + 1"
    if "?I s" for s :: "('a, 'b) Socket"
    using that assms(3) by (auto simp: ThreadListen_step_def HandleBindError_def ext_eq Let_def)
  have "\<exists>t. attempts N k s = Some t \<and> stat_num_bind_errors (sk_stats t) = stat_num_bind_errors (sk_stats s) + int k"
    if "?I s" for k and s :: "('a, 'b) Socket"
    using that
  proof (induction k arbitrary: s)
    case (Suc k)
    then obtain t where t: "ThreadListen_step N s = Some (None, t)" "?I t" "stat_num_bind_errors (sk_stats t) = stat_num_bind_errors (sk_stats s) + 1"
      using step by blast
    then show ?case using Suc.IH [OF t(2)] by auto
  qed simp
  moreover have "ThreadListen N s = None"
    unfolding ThreadListen_def using assms step by (intro retry_diverges [where I = ?I]) blast+
  ultimately show ?thesis using assms by blast
qed

definition in_use_net :: "slow_state net" where
  "in_use_net = slow_net\<lparr>n_bind := Pair False, n_last_error := (\<lambda>w. 98)\<rparr>"

theorem binds_for_ever_witness:
  "ThreadListen in_use_net (Socket_of_port 0 ([], []) 80 :: (unit, slow_state) Socket) = None \<and>
   (\<forall>k. \<exists>t. attempts in_use_net k (Socket_of_port 0 ([], []) 80 :: (unit, slow_state) Socket) = Some t \<and>
     stat_num_bind_errors (sk_stats t) = stat_num_bind_errors (sk_stats (Socket_of_port 0 ([], []) 80 :: (unit, slow_state) Socket)) + int k)"
  by (rule binds_for_ever)
    (simp_all add: in_use_net_def slow_net_def Socket_of_port_def Socket_new_def on_listen_def SocketStats_new_def ListenParams_new_def BindParams_new_def)

subsection \<open>Receiving whole messages\<close>

definition buffered :: "('a, 'w) Socket \<Rightarrow> SocketIdentifier \<Rightarrow> u8 list" where
  "buffered s x = (case FindOrNull x (sk_received s) of None \<Rightarrow> [] | Some d \<Rightarrow> rd_buffer d)"

definition idle :: "('a, 'w) Socket \<Rightarrow> SocketIdentifier \<Rightarrow> bool" where
  "idle s x \<longleftrightarrow> (case FindOrNull x (sk_received s) of None \<Rightarrow> True | Some d \<Rightarrow> \<not> rd_is_receiving_data d)"

definition awaits_message :: "'a ListenParams \<Rightarrow> bool" where
  "awaits_message p \<longleftrightarrow> handles HANDLE_RECEIVE p \<and> USE_STOP_CONDITION \<notin> lp_type p \<and> lp_receive_data p = Some ReceiveBigEndianInt64Bytes"

lemma FindOrInsert_entry:
  assumes "FindOrInsert x (sk_received s) ReceivedData_new = (d, m)" "idle s x"
  shows "rd_buffer d = buffered s x" "\<not> rd_is_receiving_data d" "FindOrNull x m = Some d"
  using assms by (auto simp: FindOrInsert_def buffered_def idle_def ReceivedData_new_def FindOrNull_put split: option.splits)

lemma of_nat_less64: "m < 2 ^ 64 \<Longrightarrow> n < 2 ^ 64 \<Longrightarrow> (of_nat m :: 64 word) < of_nat n \<longleftrightarrow> m < n"
  by (simp add: word_less_nat_alt unat_of_nat take_bit_nat_eq_self)

text \<open>The callback on a prefix of a message.\<close>

lemma callback_on_prefix:
  assumes "rd_buffer d @ rest = ValueToByteString (of_nat (length payload) :: 64 word) [] @ payload" "\<not> rd_is_receiving_data d"
    "length payload < 2 ^ 31"
  shows "ReceiveBigEndianInt64Bytes x d st a = Some (True, d,
    if rest = [] then st\<lparr>stat_abort_listening_with_code := insert Listen_OK (stat_abort_listening_with_code st)\<rparr> else st)"
proof -
  let ?header = "ValueToByteString (of_nat (length payload) :: 64 word) []"
  have lengths: "length ?header = 8" "length (rd_buffer d) + length rest = 8 + length payload"
    using arg_cong [OF assms(1), of length] by simp_all
  show ?thesis
  proof (cases "length (rd_buffer d) < 8")
    case True
    then have "rest \<noteq> []" using lengths by auto
    then show ?thesis using True assms(2) by (simp add: ReceiveBigEndianInt64Bytes_def receive_message_def)
  next
    case False
    have "take 8 (rd_buffer d @ rest) = ?header" unfolding assms(1) using lengths(1) by simp
    then have number: "big_endian (take 8 (rd_buffer d)) = (of_nat (length payload) :: 64 word)"
      using False by (simp add: big_endian_bytes)
    have sum: "(8 :: 64 word) + of_nat (length payload) = of_nat (8 + length payload)" by simp
    have "length (rd_buffer d) < 8 + length payload \<longleftrightarrow> rest \<noteq> []" using lengths(2) by (cases rest) auto
    then have "(of_nat (length (rd_buffer d)) :: 64 word) < of_nat (8 + length payload) \<longleftrightarrow> rest \<noteq> []"
      using lengths(2) assms(3) by (subst of_nat_less64) auto
    moreover have "(of_nat (8 + length payload) :: 64 word) < of_nat (length (rd_buffer d)) \<longleftrightarrow> False"
      using lengths(2) assms(3) by (subst of_nat_less64) auto
    moreover have "(of_nat (8 + length payload) :: 64 word) < 2 ^ 63"
      using of_nat_less64 [of "8 + length payload" "2 ^ 63"] assms(3) by simp
    ultimately show ?thesis
      using False assms(2) by (simp add: ReceiveBigEndianInt64Bytes_def receive_message_def number sum Let_def not_le [symmetric] del: of_nat_add)
  qed
qed

text \<open>What one received part does to a message that is not complete before.\<close>

lemma receive_part:
  assumes "awaits_message (sk_listen_params s)" "idle s x" "fst (n_receive N x (lp_receive_buffer_max_size (sk_listen_params s)) (sk_lib s)) = Some b"
    "b \<noteq> []" "int (length b) \<le> lp_receive_buffer_max_size (sk_listen_params s)" "lp_receive_buffer_max_size (sk_listen_params s) < 2 ^ 31"
    "buffered s x @ b @ rest = message" "message = ValueToByteString (of_nat (length payload) :: 64 word) [] @ payload" "length message < 2 ^ 31"
  shows "\<exists>t. ReceiveData N x s = Some (True, t) \<and> buffered t x = buffered s x @ b \<and> idle t x \<and>
    sk_lib t = snd (n_receive N x (lp_receive_buffer_max_size (sk_listen_params s)) (sk_lib s)) \<and>
    sk_connections t = sk_connections s \<and> sk_listen_params t = sk_listen_params s \<and> sk_role t = sk_role s \<and> sk_type t = sk_type s \<and>
    stat_num_errors_seen (sk_stats t) = stat_num_errors_seen (sk_stats s) \<and>
    stat_abort_listening_with_code (sk_stats t) = (if rest = [] then insert Listen_OK (stat_abort_listening_with_code (sk_stats s))
      else stat_abort_listening_with_code (sk_stats s))"
proof -
  let ?m = "lp_receive_buffer_max_size (sk_listen_params s)"
  obtain d m where dm: "FindOrInsert x (sk_received s) ReceivedData_new = (d, m)" by fastforce
  note entry = FindOrInsert_entry [OF dm assms(2)]
  have sizes: "length (buffered s x) < 2 ^ 31" "0 \<le> ?m" using assms(5,7,9) by auto
  then have pre: "pre_size (buffered s x) = int (length (buffered s x))"
    by (simp add: pre_size_def signed_of_nat signed_take_bit_int_eq_self)
  have "\<not> kMaxBytesTransferrable \<le> word_of_int (int (length (buffered s x)))"
    using of_nat_less64 [of "length (buffered s x)" "5 * 1024 * 1024 * 1024"] sizes(1) by (simp add: kMaxBytesTransferrable_def not_le)
  moreover have "\<not> 2 ^ 63 \<le> (word_of_int ?m + of_nat (length (buffered s x)) :: 64 word)"
    using of_nat_less64 [of "nat ?m + length (buffered s x)" "2 ^ 63"] sizes assms(6) by (simp add: not_le)
  ultimately have "ReceiveData N x s = HandleReceivedBytes (sk_listen_params s) x (after_receive N x b s)"
    using assms(3-5) entry sizes(2) by (simp add: ReceiveData_def after_receive_def dm Let_def ext_eq not_less set_received_def pre)
  moreover define u where "u = after_receive N x b s"
  have u: "FindOrNull x (sk_received u) = Some \<lparr>rd_buffer = buffered s x @ b, rd_is_receiving_data = False\<rparr>"
    "sk_lib u = snd (n_receive N x ?m (sk_lib s))" "sk_connections u = sk_connections s" "sk_listen_params u = sk_listen_params s"
    "sk_role u = sk_role s" "sk_type u = sk_type s" "stat_num_errors_seen (sk_stats u) = stat_num_errors_seen (sk_stats s)"
    "stat_abort_listening_with_code (sk_stats u) = stat_abort_listening_with_code (sk_stats s)"
    using entry(1) pre by (simp_all add: u_def after_receive_def dm Let_def set_received_def FindOrNull_put)
  have "ReceiveBigEndianInt64Bytes x \<lparr>rd_buffer = buffered s x @ b, rd_is_receiving_data = False\<rparr> (sk_stats u)
      (lp_receive_data_args (sk_listen_params s)) = Some (True, \<lparr>rd_buffer = buffered s x @ b, rd_is_receiving_data = False\<rparr>,
        if rest = [] then (sk_stats u)\<lparr>stat_abort_listening_with_code := insert Listen_OK (stat_abort_listening_with_code (sk_stats u))\<rparr> else sk_stats u)"
    using assms(7-9) by (intro callback_on_prefix) auto
  ultimately show ?thesis
    using assms(1) u by (auto simp: HandleReceivedBytes_def awaits_message_def u_def [symmetric] buffered_def idle_def FindOrNull_put Let_def)
qed

lemma one_event:
  assumes "sk_type s \<noteq> COOKIE" "sk_connections s = [c]" "ReceiveData N c s = Some (True, t)" "sk_connections t = [c]"
  shows "HandleSelectEvents N [c] [] s = Some (True, t)"
  using assms by (simp add: HandleSelectEvents_def retry.simps events_step_def Let_def sid_member_def sid_erase_def)

text \<open>A library that has the parts of a message for the one connection of a client.\<close>

definition feeds :: "'w net \<Rightarrow> SocketIdentifier \<Rightarrow> int \<Rightarrow> ('w \<Rightarrow> u8 list list) \<Rightarrow> bool" where
  "feeds N c max_bytes parts \<longleftrightarrow>
     (\<forall>w. n_is_client N w c \<and> \<not> n_server_in N w [] \<and> \<not> n_client_in N w [] \<and> \<not> n_server_in N w [c]) \<and>
     (\<forall>x t w. parts w \<noteq> [] \<longrightarrow> fst (n_select N False x t w) = (1, [c], []) \<and> parts (snd (n_select N False x t w)) = parts w) \<and>
     (\<forall>w b bs. parts w = b # bs \<longrightarrow> fst (n_receive N c max_bytes w) = Some b \<and> parts (snd (n_receive N c max_bytes w)) = bs)"

lemma listen_part:
  assumes "feeds N c (lp_receive_buffer_max_size (sk_listen_params s)) parts" "sk_role s = CLIENT" "sk_type s \<noteq> COOKIE"
    "sk_connections s = [c]" "awaits_message (sk_listen_params s)" "idle s c" "stat_num_errors_seen (sk_stats s) = 0"
    "stat_abort_listening_with_code (sk_stats s) = {}" "parts (sk_lib s) = b # bs" "b \<noteq> []"
    "int (length b) \<le> lp_receive_buffer_max_size (sk_listen_params s)" "lp_receive_buffer_max_size (sk_listen_params s) < 2 ^ 31"
    "buffered s c @ b @ rest = ValueToByteString (of_nat (length payload) :: 64 word) [] @ payload" "length payload < 2 ^ 31 - 8"
  shows "\<exists>t. listen_step N ({}, s) = Some (None, {}, t) \<and> buffered t c = buffered s c @ b \<and> idle t c \<and> parts (sk_lib t) = bs \<and>
    sk_connections t = [c] \<and> sk_listen_params t = sk_listen_params s \<and> sk_role t = CLIENT \<and> sk_type t = sk_type s \<and>
    stat_num_errors_seen (sk_stats t) = 0 \<and>
    stat_abort_listening_with_code (sk_stats t) = (if rest = [] then {Listen_OK} else {})"
proof -
  let ?s = "on_stats (stat_num_times_in_listen_loop_update ((+) 1)) s"
  have keep: "ShouldKeepListening s {} = Some (True, {})"
    using assms(5,7,8) by (simp add: ShouldKeepListening_def awaits_message_def StopListeningCondition_new_def
        StopListeningCondition_Reset_def keep_at_leaf_def reached_def)
  define w where "w = snd (n_select N False (n_receive_id N (sk_lib s)) (lp_select_timeout_ms (sk_listen_params s) * 1000) (sk_lib s))"
  have sel: "ext (n_select N False (n_receive_id N (sk_lib ?s)) (lp_select_timeout_ms (sk_listen_params ?s) * 1000)) ?s
      = ((1, [c], []), ?s\<lparr>sk_lib := w\<rparr>)" and w: "parts w = b # bs"
    using assms(1,9) by (simp_all add: feeds_def ext_eq w_def)
  define z where "z = on_stats (stat_msec_since_last_event_update (\<lambda>n. 0)) (?s\<lparr>sk_lib := w\<rparr>)"
  have z: "sk_lib z = w" "sk_listen_params z = sk_listen_params s" "sk_connections z = [c]" "sk_type z = sk_type s" "sk_role z = CLIENT"
    "buffered z c = buffered s c" "idle z c" "stat_num_errors_seen (sk_stats z) = 0" "stat_abort_listening_with_code (sk_stats z) = {}"
    using assms(2,4,6,7,8) by (simp_all add: z_def buffered_def idle_def)
  have received: "fst (n_receive N c (lp_receive_buffer_max_size (sk_listen_params z)) (sk_lib z)) = Some b"
    "parts (snd (n_receive N c (lp_receive_buffer_max_size (sk_listen_params z)) (sk_lib z))) = bs"
    using assms(1) w z(1,2) by (simp_all add: feeds_def)
  obtain t where t: "ReceiveData N c z = Some (True, t)" "buffered t c = buffered s c @ b" "idle t c" "parts (sk_lib t) = bs"
    "sk_connections t = [c]" "sk_listen_params t = sk_listen_params s" "sk_role t = CLIENT" "sk_type t = sk_type s"
    "stat_num_errors_seen (sk_stats t) = 0" "stat_abort_listening_with_code (sk_stats t) = (if rest = [] then {Listen_OK} else {})"
    using receive_part [of z c N b rest _ payload, OF _ z(7) received(1) assms(10) _ _ _ refl] assms(5,11-14) z received(2) by auto
  have "HandleSelectEvents N [c] [] z = Some (True, t)"
    using one_event [of z c N t] t(1,5) z(3,4) assms(3) by simp
  then have "listen_step N ({}, s) = Some (None, {}, t)"
    using keep sel assms(1,2) by (simp add: listen_step_def Let_def z_def [symmetric] feeds_def z(1))
  then show ?thesis using t by blast
qed

text \<open>
  C37: A client receives a message whole: when the library has, in parts of any size up to that of the receive buffer, the eight
  bytes of a length and as many bytes after it, then a call of \<open>Listen\<close> with the callback for such messages returns the code
  \<open>OK\<close>, and the bytes received are those of the message in order.
\<close>

theorem message_received:
  assumes "sk_role s = CLIENT" "sk_type s \<noteq> COOKIE" "sk_connections s = [c]" "awaits_message (sk_listen_params s)"
    "sk_received s = []" "stat_num_errors_seen (sk_stats s) = 0" "stat_abort_listening_with_code (sk_stats s) = {}"
    "lp_receive_buffer_max_size (sk_listen_params s) < 2 ^ 31"
    "feeds N c (lp_receive_buffer_max_size (sk_listen_params s)) parts"
    "\<And>b. b \<in> set (parts (sk_lib s)) \<Longrightarrow> b \<noteq> [] \<and> int (length b) \<le> lp_receive_buffer_max_size (sk_listen_params s)"
    "concat (parts (sk_lib s)) = ValueToByteString (of_nat (length payload) :: 64 word) [] @ payload" "length payload < 2 ^ 31 - 8"
  shows "\<exists>t. ThreadListen N s = Some ({Listen_OK}, t) \<and>
    GetReceivedBytesVector c t = Some (ValueToByteString (of_nat (length payload) :: 64 word) [] @ payload)"
proof -
  let ?msg = "ValueToByteString (of_nat (length payload) :: 64 word) [] @ payload"
  let ?same = "\<lambda>u. sk_role u = CLIENT \<and> sk_type u \<noteq> COOKIE \<and> sk_connections u = [c] \<and> sk_listen_params u = sk_listen_params s \<and>
    stat_num_errors_seen (sk_stats u) = 0 \<and> idle u c"
  let ?I = "\<lambda>(codes :: ListenReturnCode set, u). codes = {} \<and> ?same u \<and>
    (if parts (sk_lib u) = [] then stat_abort_listening_with_code (sk_stats u) = {Listen_OK} \<and> buffered u c = ?msg
     else stat_abort_listening_with_code (sk_stats u) = {} \<and> buffered u c @ concat (parts (sk_lib u)) = ?msg \<and>
       set (parts (sk_lib u)) \<subseteq> set (parts (sk_lib s)))"
  let ?s = "on_stats (stat_num_times_listen_loop_called_update ((+) 1)) s"
  have "length ?msg > 0" by simp
  then have nonempty: "?msg \<noteq> []" by (rule length_greater_0_conv [THEN iffD1])
  then have parts: "parts (sk_lib s) \<noteq> []" using assms(11) by fastforce
  have "\<exists>x t. retry (listen_step N) ({}, ?s) = Some (x, t) \<and> x = {Listen_OK} \<and> buffered (snd t) c = ?msg"
  proof (rule retry_returns [where I = ?I and m = "\<lambda>p. length (parts (sk_lib (snd p)))"])
    fix p
    assume I: "?I p"
    obtain u where p: "p = ({}, u)" using I by (cases p) auto
    show "\<exists>r q. listen_step N p = Some (r, q) \<and>
      (case r of None \<Rightarrow> ?I q \<and> length (parts (sk_lib (snd q))) < length (parts (sk_lib (snd p)))
       | Some x \<Rightarrow> x = {Listen_OK} \<and> buffered (snd q) c = ?msg)"
    proof (cases "parts (sk_lib u)")
      case Nil
      then have "ShouldKeepListening u {} = Some (False, {Listen_OK})"
        using I p assms(4) by (simp add: ShouldKeepListening_def awaits_message_def StopListeningCondition_new_def
            StopListeningCondition_Reset_def)
      then show ?thesis using I p Nil by (simp add: listen_step_def)
    next
      case (Cons b bs)
      have "\<exists>t. listen_step N ({}, u) = Some (None, {}, t) \<and> buffered t c = buffered u c @ b \<and> idle t c \<and> parts (sk_lib t) = bs \<and>
        sk_connections t = [c] \<and> sk_listen_params t = sk_listen_params u \<and> sk_role t = CLIENT \<and> sk_type t = sk_type u \<and>
        stat_num_errors_seen (sk_stats t) = 0 \<and>
        stat_abort_listening_with_code (sk_stats t) = (if concat bs = [] then {Listen_OK} else {})"
        using I p Cons assms(4,8,9,12) assms(10) [of b] by (intro listen_part) auto
      moreover have "concat bs = [] \<longleftrightarrow> bs = []"
      proof -
        have "set bs \<subseteq> set (parts (sk_lib s))" using I p Cons by auto
        then have "\<forall>b' \<in> set bs. b' \<noteq> []" using assms(10) by blast
        then show ?thesis by (cases bs) auto
      qed
      ultimately show ?thesis using I p Cons by (auto split: if_splits)
    qed
  next
    show "?I ({}, ?s)"
      using assms(1-7,11) parts by (simp add: idle_def buffered_def)
  qed
  then obtain codes t where run: "retry (listen_step N) ({}, ?s) = Some ({Listen_OK}, codes, t)" "buffered t c = ?msg" by auto
  have "n_is_client N (sk_lib s) c" using assms(9) by (simp add: feeds_def)
  then have "ThreadListen_step N s = Some (Some {Listen_OK}, t)"
    using run(1) assms(1,3) by (simp add: ThreadListen_step_def listen_loop_def)
  then have "ThreadListen N s = Some ({Listen_OK}, t)" by (simp add: ThreadListen_def retry.simps)
  moreover have "GetReceivedBytesVector c t = Some ?msg"
    using run(2) nonempty unfolding buffered_def GetReceivedBytesVector_def
    by (cases "FindOrNull c (sk_received t)") (metis option.simps(4), simp)
  ultimately show ?thesis by blast
qed

text \<open>A message of two bytes in four parts; the parts are kept where \<open>slow_net\<close> keeps what it sent.\<close>

definition feeding_net :: "slow_state net" where
  "feeding_net = slow_net\<lparr>n_select := (\<lambda>writing x timeout. Pair (1, [SocketIdentifier_id 4], [])),
     n_receive := (\<lambda>x n (parts, ready). case parts of [] \<Rightarrow> (None, parts, ready) | (y, b) # bs \<Rightarrow> (Some b, bs, ready))\<rparr>"

definition fed_client :: "(unit, slow_state) Socket" where
  "fed_client = SetListenReceiveDataCallback (Some ReceiveBigEndianInt64Bytes)
     ((Socket_new 0 (map (Pair (SocketIdentifier_id 4)) [[0, 0, 0], [0, 0, 0, 0], [2, 104], [105]], []))
       \<lparr>sk_role := CLIENT, sk_is_socket_initialized := True, sk_connections := [SocketIdentifier_id 4]\<rparr>)"

theorem message_received_witness:
  "\<exists>t. ThreadListen feeding_net fed_client = Some ({Listen_OK}, t) \<and>
     GetReceivedBytesVector (SocketIdentifier_id 4) t = Some [0, 0, 0, 0, 0, 0, 0, 2, 104, 105]"
proof -
  have header: "ValueToByteString (2 :: 64 word) [] = [0, 0, 0, 0, 0, 0, 0, 2]" by code_simp
  have "feeds feeding_net (SocketIdentifier_id 4) 1024 (\<lambda>w. map snd (fst w))"
    by (auto simp: feeds_def feeding_net_def slow_net_def sid_member_def sid_same_iff SocketIdentifier_id_def SocketIdentifier_new_def)
  then have "\<exists>t. ThreadListen feeding_net fed_client = Some ({Listen_OK}, t) \<and> GetReceivedBytesVector (SocketIdentifier_id 4) t =
      Some (ValueToByteString (of_nat (length [104, 105 :: u8]) :: 64 word) [] @ [104, 105])"
    by (intro message_received [where parts = "\<lambda>w. map snd (fst w)"])
      (auto simp: fed_client_def SetListenReceiveDataCallback_def on_listen_def Socket_new_def ListenParams_new_def awaits_message_def
        handles_def SocketStats_new_def kSocketBufferSize_def header Let_def)
  then show ?thesis by (simp add: header)
qed

subsection \<open>Errors of connections, and attempts to connect\<close>

text \<open>An error of the last connection takes the iterator past the end.\<close>

lemma error_of_last_connection:
  assumes "sk_type s \<noteq> COOKIE" "sk_connections s = [c]" "sid_member c E" "fst (n_shutdown N c (sk_lib s))"
  shows "HandleSelectEvents N R E s = None"
  using assms by (simp add: HandleSelectEvents_def retry.simps events_step_def HandleGeneralSocketError_def RemoveConnection_def
      ShutdownConnection_def ext_eq Let_def)

text \<open>An error of another one skips the connection after it.\<close>

lemma connection_skipped:
  assumes "sk_type s \<noteq> COOKIE" "sk_connections s = [c, x]" "sid_member c E" "fst (n_shutdown N c (sk_lib s))"
  shows "\<exists>t. HandleSelectEvents N R E s = Some (True, t) \<and> sk_connections t = [x] \<and> sk_received t = sk_received s"
  using assms by (simp add: HandleSelectEvents_def retry.simps events_step_def HandleGeneralSocketError_def RemoveConnection_def
      ShutdownConnection_def ext_eq Let_def)

text \<open>With a timeout of two seconds, a client gives up after it has slept five milliseconds.\<close>

definition refusing_net :: "slow_state net" where
  "refusing_net = slow_net\<lparr>n_connect := Pair False, n_last_error := (\<lambda>w. 111)\<rparr>"

lemma connect_gives_up_early:
  "case Connect refusing_net (SetClientTimeout 2000 (Socket_of_ip 0 ([], []) ''10.0.0.1'' 80 :: (unit, slow_state) Socket)) of
     None \<Rightarrow> False
   | Some (ok, s) \<Rightarrow> \<not> ok \<and> stat_num_connection_errors (sk_stats s) = 2 \<and> stat_failed_connect_sleep_timer (sk_stats s) = 5000"
  by code_simp

end
